(* ===== verification/EvPrelude.thy ===== *)
theory EvPrelude
  imports Main "HOL-Library.Word"
begin

text \<open>
  Shared vocabulary of the development: the machine integers of the code, NULL-able pointers,
  the framework's result codes (\<open>core/include/ev/result.h\<close>), the hint collections, and the
  generic facts about power-of-two index masks and ring buffers that every bounded queue of
  the framework needs.
\<close>

unbundle bit_operations_syntax

section \<open>Machine integers and pointers\<close>

type_synonym u8 = "8 word"
type_synonym u16 = "16 word"
type_synonym u32 = "32 word"
type_synonym u64 = "64 word"

text \<open>
  A C pointer is an optional address: \<open>None\<close> is \<open>NULL\<close>. Every kind of object has an address space
  of its own. A \<open>size_t\<close> is a \<^typ>\<open>nat\<close>: the values the code stores in one are bounded by queue
  capacities, budgets and payload sizes, never by wrap-around. Diagnostic counters of type
  \<open>uint32_t\<close> are 32-bit words and do wrap.
\<close>

type_synonym ptr = "nat option"

section \<open>Result codes\<close>

datatype ev_result =
    EV_OK
  | EV_ERR_INVALID_ARG
  | EV_ERR_OUT_OF_RANGE
  | EV_ERR_NOT_FOUND
  | EV_ERR_STATE
  | EV_ERR_CONTRACT
  | EV_ERR_FULL
  | EV_ERR_EMPTY
  | EV_ERR_UNSUPPORTED
  | EV_ERR_PARTIAL
  | EV_ERR_NO_CAPABILITY
  | EV_ERR_AUTH
  | EV_ERR_POLICY
  | EV_ERR_TIMEOUT
  | EV_ERR_NOT_READY

section \<open>Hint collections\<close>

named_theorems wf_intros "introduction rules for component invariants"
named_theorems op_frames "what an operation leaves unchanged"

lemma ball_upt_offset: "(\<forall>s \<in> set [b..<b + n]. P s) \<longleftrightarrow> (\<forall>j<n. P (b + j))"
proof
  assume *: "\<forall>j<n. P (b + j)"
  have "P s" if "b \<le> s" and "s < b + n" for s
    using * [rule_format, of "s - b"] that by simp
  then show "\<forall>s \<in> set [b..<b + n]. P s" by simp
qed simp

lemma sum_list_upt_change:
  fixes f f' :: "nat \<Rightarrow> nat"
  assumes "i < n" and "f i = f' i + k" and "\<And>j. j < n \<Longrightarrow> j \<noteq> i \<Longrightarrow> f j = f' j"
  shows "sum_list (map f [0..<n]) = sum_list (map f' [0..<n]) + k"
proof -
  have i: "i \<in> {0..<n}" "finite {0..<n}" using assms(1) by simp_all
  have "sum f ({0..<n} - {i}) = sum f' ({0..<n} - {i})"
    by (rule sum.cong) (use assms(3) in auto)
  then show ?thesis
    using assms(2) sum.remove [OF i(2,1), of f] sum.remove [OF i(2,1), of f']
    by (simp add: sum_set_upt_conv_sum_list_nat [symmetric])
qed

section \<open>Power-of-two masks\<close>

text \<open>The code reduces every ring index with \<open>index & (capacity - 1)\<close>.\<close>

lemma nat_and_mask: "(n::nat) AND (2 ^ k - 1) = n mod 2 ^ k"
  by (metis mask_eq_exp_minus_1 take_bit_eq_mask take_bit_eq_mod)

lemma nat_and_mask_numerals [simp]:
  "(n::nat) AND 15 = n mod 16"
  "(n::nat) AND 7 = n mod 8"
  using nat_and_mask [of n 4] nat_and_mask [of n 3] by simp_all

lemma u32_and_mask_unat:
  "unat ((w::u32) AND 15) = unat w mod 16"
  "unat ((w::u32) AND 7) = unat w mod 8"
proof -
  have m: "unat (w AND mask k) = unat w mod 2 ^ k" if "k \<le> 32" for k
    by (metis take_bit_eq_mask take_bit_eq_mod unsigned_take_bit_eq)
  show "unat (w AND 15) = unat w mod 16"
    using m [of 4] by (simp only: mask_eq_exp_minus_1) simp
  show "unat (w AND 7) = unat w mod 8"
    using m [of 3] by (simp only: mask_eq_exp_minus_1) simp
qed

section \<open>Ring buffers\<close>

text \<open>
  The pending elements of a ring: \<open>c\<close> slots of the array \<open>xs\<close>, from index \<open>h\<close>, wrapping at the end.
\<close>

definition ring_view :: "'a list \<Rightarrow> nat \<Rightarrow> nat \<Rightarrow> 'a list" where
  "ring_view xs h c = map (\<lambda>i. xs ! ((h + i) mod length xs)) [0..<c]"

lemma length_ring_view [simp]: "length (ring_view xs h c) = c"
  by (simp add: ring_view_def)

lemma ring_view_0 [simp]: "ring_view xs h 0 = []"
  by (simp add: ring_view_def)

lemma nth_ring_view: "i < c \<Longrightarrow> ring_view xs h c ! i = xs ! ((h + i) mod length xs)"
  by (simp add: ring_view_def)

lemma ring_view_single [simp]: "length xs = Suc 0 \<Longrightarrow> ring_view xs h (Suc 0) = [xs ! 0]"
  by (simp add: ring_view_def)

lemma ring_index_inj:
  assumes "i < n" and "j < n" and "((h::nat) + i) mod n = (h + j) mod n"
  shows "i = j"
proof -
  have aux: "i = j" if "i \<le> j" "j < n" "(h + i) mod n = (h + j) mod n" for i j :: nat
  proof -
    have "n dvd (h + j) - (h + i)"
      using that by (metis add_le_cancel_left mod_eq_dvd_iff_nat)
    then have "n dvd j - i" by simp
    then show "i = j" using that by (auto dest: dvd_imp_le)
  qed
  show ?thesis
    using aux [of i j] aux [of j i] assms by (metis nle_le)
qed

text \<open>Writing a slot that is not pending leaves the pending elements alone.\<close>

lemma ring_view_update_outside:
  assumes "c \<le> length xs" and "k < length xs" and "\<And>i. i < c \<Longrightarrow> (h + i) mod length xs \<noteq> k"
  shows "ring_view (xs[k := x]) h c = ring_view xs h c"
  using assms by (force simp: ring_view_def nth_list_update)

lemma ring_view_store_tail:
  assumes "c < length xs"
  shows "ring_view (xs[(h + c) mod length xs := x]) h (Suc c) = ring_view xs h c @ [x]"
proof -
  have ne: "(h + i) mod length xs \<noteq> (h + c) mod length xs" if "i < c" for i
    using ring_index_inj [of i "length xs" c h] assms that by auto
  have lt: "(h + c) mod length xs < length xs"
    using assms by (cases xs) auto
  have "ring_view (xs[(h + c) mod length xs := x]) h (Suc c)
      = ring_view (xs[(h + c) mod length xs := x]) h c @ [x]"
    using lt by (simp add: ring_view_def)
  then show ?thesis
    using ring_view_update_outside [of c xs "(h + c) mod length xs" h x] assms ne lt by simp
qed

lemma ring_view_Suc: "ring_view xs h (Suc c) = xs ! (h mod length xs) # ring_view xs (Suc h) c"
proof (rule nth_equalityI)
  fix i assume "i < length (ring_view xs h (Suc c))"
  then show "ring_view xs h (Suc c) ! i = (xs ! (h mod length xs) # ring_view xs (Suc h) c) ! i"
    by (cases i) (simp_all add: nth_ring_view)
qed simp

lemma ring_view_mod: "ring_view xs (h mod length xs) c = ring_view xs h c"
  by (simp add: ring_view_def mod_add_left_eq)

lemma ring_view_drop_head:
  "ring_view xs (Suc h mod length xs) c = tl (ring_view xs h (Suc c))"
  by (simp add: ring_view_Suc ring_view_mod)

lemma hd_ring_view: "h < length xs \<Longrightarrow> 0 < c \<Longrightarrow> hd (ring_view xs h c) = xs ! h"
  by (cases c) (simp_all add: ring_view_Suc)

lemma ring_view_update_head:
  assumes "h < length xs" and "c < length xs"
  shows "ring_view (xs[h := x]) (Suc h mod length xs) c = ring_view xs (Suc h mod length xs) c"
proof (rule ring_view_update_outside)
  fix i assume "i < c"
  then have b: "Suc i < length xs" "0 < length xs" using assms by linarith+
  have "(h + Suc i) mod length xs \<noteq> (h + 0) mod length xs"
    using ring_index_inj [OF b, of h] by blast
  moreover have "(Suc h mod length xs + i) mod length xs = (h + Suc i) mod length xs"
    by (metis add_Suc_shift mod_add_left_eq)
  ultimately show "(Suc h mod length xs + i) mod length xs \<noteq> h"
    using assms(1) by (metis add.right_neutral mod_less)
qed (use assms in auto)

text \<open>Replacing one pending slot replaces that element.\<close>

lemma ring_view_update_pending:
  assumes "c \<le> length xs" and "k < c"
  shows "ring_view (xs[(h + k) mod length xs := x]) h c = (ring_view xs h c)[k := x]"
proof (rule nth_equalityI)
  fix i assume "i < length (ring_view (xs[(h + k) mod length xs := x]) h c)"
  then have i: "i < c" by simp
  have lt: "(h + k) mod length xs < length xs"
    using assms by (cases xs) auto
  have eq: "(h + i) mod length xs = (h + k) mod length xs \<longleftrightarrow> i = k"
    using ring_index_inj [of i "length xs" k h] assms i by auto
  show "ring_view (xs[(h + k) mod length xs := x]) h c ! i = (ring_view xs h c)[k := x] ! i"
    using i lt eq by (auto simp: nth_ring_view nth_list_update)
qed simp

lemma set_ring_view_subset: "0 < length xs \<Longrightarrow> set (ring_view xs h c) \<subseteq> set xs"
  by (auto simp: ring_view_def)

end
