(* ===== verification/EvCatalog.thy ===== *)
theory EvCatalog
  imports EvPrelude
begin

text \<open>
  The event and actor catalogs (\<open>core/src/ev_event_catalog.c\<close>, \<open>core/src/ev_actor_catalog.c\<close>), which
  the code builds by including \<open>config/events.def\<close> and \<open>config/actors.def\<close>. Event ids, actor ids and
  execution domains are C enumerations that the code range-checks and indexes arrays with, so they
  are integers with named values; an id outside the catalog is representable, as it is in C. The
  human-readable summaries of the catalogs are left out: no function of the code reads them.
\<close>

section \<open>Enumerations\<close>

text \<open>
  Enumerations that the code only switches over are datatypes. The last constructor of each stands
  for a value that is none of the enumerators: the \<open>default\<close> branch of the switches.
\<close>

datatype ev_payload_kind =
    EV_PAYLOAD_INLINE
  | EV_PAYLOAD_COPY_FIXED
  | EV_PAYLOAD_LEASE
  | EV_PAYLOAD_STREAM_VIEW
  | EV_PAYLOAD_KIND_OTHER int

datatype ev_mailbox_kind =
    EV_MAILBOX_FIFO_8
  | EV_MAILBOX_FIFO_16
  | EV_MAILBOX_MAILBOX_1
  | EV_MAILBOX_LOSSY_RING_8
  | EV_MAILBOX_COALESCED_FLAG
  | EV_MAILBOX_KIND_OTHER int

datatype ev_route_qos =
    EV_ROUTE_QOS_CRITICAL
  | EV_ROUTE_QOS_BEST_EFFORT
  | EV_ROUTE_QOS_LOSSY
  | EV_ROUTE_QOS_COALESCED
  | EV_ROUTE_QOS_LATEST_ONLY
  | EV_ROUTE_QOS_WAKEUP_CRITICAL
  | EV_ROUTE_QOS_TELEMETRY
  | EV_ROUTE_QOS_COMMAND
  | EV_ROUTE_QOS_OTHER int

type_synonym ev_execution_domain = int

abbreviation EV_DOMAIN_ISR :: ev_execution_domain where "EV_DOMAIN_ISR \<equiv> 0"
abbreviation EV_DOMAIN_FAST_LOOP :: ev_execution_domain where "EV_DOMAIN_FAST_LOOP \<equiv> 1"
abbreviation EV_DOMAIN_SLOW_IO :: ev_execution_domain where "EV_DOMAIN_SLOW_IO \<equiv> 2"
abbreviation EV_DOMAIN_NETWORK :: ev_execution_domain where "EV_DOMAIN_NETWORK \<equiv> 3"
abbreviation EV_DOMAIN_COUNT :: ev_execution_domain where "EV_DOMAIN_COUNT \<equiv> 4"

type_synonym ev_event_id = int
type_synonym ev_actor_id = int

abbreviation EV_BOOT_STARTED :: ev_event_id where "EV_BOOT_STARTED \<equiv> 0"
abbreviation EV_BOOT_COMPLETED :: ev_event_id where "EV_BOOT_COMPLETED \<equiv> 1"
abbreviation EV_TICK_1S :: ev_event_id where "EV_TICK_1S \<equiv> 2"
abbreviation EV_STREAM_CHUNK_READY :: ev_event_id where "EV_STREAM_CHUNK_READY \<equiv> 3"
abbreviation EV_DIAG_SNAPSHOT_REQ :: ev_event_id where "EV_DIAG_SNAPSHOT_REQ \<equiv> 4"
abbreviation EV_DIAG_SNAPSHOT_RSP :: ev_event_id where "EV_DIAG_SNAPSHOT_RSP \<equiv> 5"
abbreviation EV_OLED_DISPLAY_TEXT_CMD :: ev_event_id where "EV_OLED_DISPLAY_TEXT_CMD \<equiv> 6"
abbreviation EV_OLED_COMMIT_FRAME :: ev_event_id where "EV_OLED_COMMIT_FRAME \<equiv> 7"
abbreviation EV_TIME_UPDATED :: ev_event_id where "EV_TIME_UPDATED \<equiv> 8"
abbreviation EV_TEMP_UPDATED :: ev_event_id where "EV_TEMP_UPDATED \<equiv> 9"
abbreviation EV_LIGHT_UPDATED :: ev_event_id where "EV_LIGHT_UPDATED \<equiv> 10"
abbreviation EV_TICK_100MS :: ev_event_id where "EV_TICK_100MS \<equiv> 11"
abbreviation EV_GPIO_IRQ :: ev_event_id where "EV_GPIO_IRQ \<equiv> 12"
abbreviation EV_MCP23008_INPUT_CHANGED :: ev_event_id where "EV_MCP23008_INPUT_CHANGED \<equiv> 13"
abbreviation EV_BUTTON_EVENT :: ev_event_id where "EV_BUTTON_EVENT \<equiv> 14"
abbreviation EV_PANEL_LED_SET_CMD :: ev_event_id where "EV_PANEL_LED_SET_CMD \<equiv> 15"
abbreviation EV_MCP23008_READY :: ev_event_id where "EV_MCP23008_READY \<equiv> 16"
abbreviation EV_RTC_READY :: ev_event_id where "EV_RTC_READY \<equiv> 17"
abbreviation EV_OLED_READY :: ev_event_id where "EV_OLED_READY \<equiv> 18"
abbreviation EV_DS18B20_READY :: ev_event_id where "EV_DS18B20_READY \<equiv> 19"
abbreviation EV_BH1750_READY :: ev_event_id where "EV_BH1750_READY \<equiv> 20"
abbreviation EV_SYSTEM_READY :: ev_event_id where "EV_SYSTEM_READY \<equiv> 21"
abbreviation EV_SYS_GOTO_SLEEP_CMD :: ev_event_id where "EV_SYS_GOTO_SLEEP_CMD \<equiv> 22"
abbreviation EV_NET_WIFI_UP :: ev_event_id where "EV_NET_WIFI_UP \<equiv> 23"
abbreviation EV_NET_WIFI_DOWN :: ev_event_id where "EV_NET_WIFI_DOWN \<equiv> 24"
abbreviation EV_NET_MQTT_UP :: ev_event_id where "EV_NET_MQTT_UP \<equiv> 25"
abbreviation EV_NET_MQTT_DOWN :: ev_event_id where "EV_NET_MQTT_DOWN \<equiv> 26"
abbreviation EV_NET_MQTT_MSG_RX :: ev_event_id where "EV_NET_MQTT_MSG_RX \<equiv> 27"
abbreviation EV_NET_MQTT_MSG_RX_LEASE :: ev_event_id where "EV_NET_MQTT_MSG_RX_LEASE \<equiv> 28"
abbreviation EV_NET_TX_CMD :: ev_event_id where "EV_NET_TX_CMD \<equiv> 29"
abbreviation EV_FAULT_REPORTED :: ev_event_id where "EV_FAULT_REPORTED \<equiv> 30"
abbreviation EV_ACTOR_LIFECYCLE_CHANGED :: ev_event_id where "EV_ACTOR_LIFECYCLE_CHANGED \<equiv> 31"
abbreviation EV_ACTOR_READY :: ev_event_id where "EV_ACTOR_READY \<equiv> 32"
abbreviation EV_ACTOR_DEGRADED :: ev_event_id where "EV_ACTOR_DEGRADED \<equiv> 33"
abbreviation EV_ACTOR_OFFLINE :: ev_event_id where "EV_ACTOR_OFFLINE \<equiv> 34"
abbreviation EV_ACTOR_SLEEP_READY :: ev_event_id where "EV_ACTOR_SLEEP_READY \<equiv> 35"
abbreviation EV_ACTOR_FAULT :: ev_event_id where "EV_ACTOR_FAULT \<equiv> 36"
abbreviation EV_CAPABILITY_UPDATED :: ev_event_id where "EV_CAPABILITY_UPDATED \<equiv> 37"
abbreviation EV_COMMAND_AUTH_FAILED :: ev_event_id where "EV_COMMAND_AUTH_FAILED \<equiv> 38"
abbreviation EV_COMMAND_ACCEPTED :: ev_event_id where "EV_COMMAND_ACCEPTED \<equiv> 39"
abbreviation EV_COMMAND_REJECTED :: ev_event_id where "EV_COMMAND_REJECTED \<equiv> 40"
abbreviation EV_EVENT_COUNT :: ev_event_id where "EV_EVENT_COUNT \<equiv> 41"

abbreviation ACT_BOOT :: ev_actor_id where "ACT_BOOT \<equiv> 0"
abbreviation ACT_RUNTIME :: ev_actor_id where "ACT_RUNTIME \<equiv> 1"
abbreviation ACT_STREAM :: ev_actor_id where "ACT_STREAM \<equiv> 2"
abbreviation ACT_DIAG :: ev_actor_id where "ACT_DIAG \<equiv> 3"
abbreviation ACT_APP :: ev_actor_id where "ACT_APP \<equiv> 4"
abbreviation ACT_OLED :: ev_actor_id where "ACT_OLED \<equiv> 5"
abbreviation ACT_RTC :: ev_actor_id where "ACT_RTC \<equiv> 6"
abbreviation ACT_DS18B20 :: ev_actor_id where "ACT_DS18B20 \<equiv> 7"
abbreviation ACT_BH1750 :: ev_actor_id where "ACT_BH1750 \<equiv> 8"
abbreviation ACT_PANEL :: ev_actor_id where "ACT_PANEL \<equiv> 9"
abbreviation ACT_MCP23008 :: ev_actor_id where "ACT_MCP23008 \<equiv> 10"
abbreviation ACT_SUPERVISOR :: ev_actor_id where "ACT_SUPERVISOR \<equiv> 11"
abbreviation ACT_POWER :: ev_actor_id where "ACT_POWER \<equiv> 12"
abbreviation ACT_WATCHDOG :: ev_actor_id where "ACT_WATCHDOG \<equiv> 13"
abbreviation ACT_NETWORK :: ev_actor_id where "ACT_NETWORK \<equiv> 14"
abbreviation ACT_COMMAND :: ev_actor_id where "ACT_COMMAND \<equiv> 15"
abbreviation ACT_FAULT :: ev_actor_id where "ACT_FAULT \<equiv> 16"
abbreviation ACT_METRICS :: ev_actor_id where "ACT_METRICS \<equiv> 17"
abbreviation EV_ACTOR_COUNT :: ev_actor_id where "EV_ACTOR_COUNT \<equiv> 18"
abbreviation EV_ACTOR_NONE :: ev_actor_id where "EV_ACTOR_NONE \<equiv> - 1"

section \<open>The event catalog\<close>

record ev_event_meta_t =
  evm_id :: ev_event_id
  evm_name :: string
  evm_payload_kind :: ev_payload_kind

definition k_event_catalog :: "ev_event_meta_t list" where
  "k_event_catalog = [
    \<lparr>evm_id = EV_BOOT_STARTED, evm_name = ''EV_BOOT_STARTED'', evm_payload_kind = EV_PAYLOAD_INLINE\<rparr>,
    \<lparr>evm_id = EV_BOOT_COMPLETED, evm_name = ''EV_BOOT_COMPLETED'', evm_payload_kind = EV_PAYLOAD_INLINE\<rparr>,
    \<lparr>evm_id = EV_TICK_1S, evm_name = ''EV_TICK_1S'', evm_payload_kind = EV_PAYLOAD_INLINE\<rparr>,
    \<lparr>evm_id = EV_STREAM_CHUNK_READY, evm_name = ''EV_STREAM_CHUNK_READY'', evm_payload_kind = EV_PAYLOAD_LEASE\<rparr>,
    \<lparr>evm_id = EV_DIAG_SNAPSHOT_REQ, evm_name = ''EV_DIAG_SNAPSHOT_REQ'', evm_payload_kind = EV_PAYLOAD_INLINE\<rparr>,
    \<lparr>evm_id = EV_DIAG_SNAPSHOT_RSP, evm_name = ''EV_DIAG_SNAPSHOT_RSP'', evm_payload_kind = EV_PAYLOAD_LEASE\<rparr>,
    \<lparr>evm_id = EV_OLED_DISPLAY_TEXT_CMD, evm_name = ''EV_OLED_DISPLAY_TEXT_CMD'', evm_payload_kind = EV_PAYLOAD_INLINE\<rparr>,
    \<lparr>evm_id = EV_OLED_COMMIT_FRAME, evm_name = ''EV_OLED_COMMIT_FRAME'', evm_payload_kind = EV_PAYLOAD_LEASE\<rparr>,
    \<lparr>evm_id = EV_TIME_UPDATED, evm_name = ''EV_TIME_UPDATED'', evm_payload_kind = EV_PAYLOAD_INLINE\<rparr>,
    \<lparr>evm_id = EV_TEMP_UPDATED, evm_name = ''EV_TEMP_UPDATED'', evm_payload_kind = EV_PAYLOAD_INLINE\<rparr>,
    \<lparr>evm_id = EV_LIGHT_UPDATED, evm_name = ''EV_LIGHT_UPDATED'', evm_payload_kind = EV_PAYLOAD_INLINE\<rparr>,
    \<lparr>evm_id = EV_TICK_100MS, evm_name = ''EV_TICK_100MS'', evm_payload_kind = EV_PAYLOAD_INLINE\<rparr>,
    \<lparr>evm_id = EV_GPIO_IRQ, evm_name = ''EV_GPIO_IRQ'', evm_payload_kind = EV_PAYLOAD_INLINE\<rparr>,
    \<lparr>evm_id = EV_MCP23008_INPUT_CHANGED, evm_name = ''EV_MCP23008_INPUT_CHANGED'', evm_payload_kind = EV_PAYLOAD_INLINE\<rparr>,
    \<lparr>evm_id = EV_BUTTON_EVENT, evm_name = ''EV_BUTTON_EVENT'', evm_payload_kind = EV_PAYLOAD_INLINE\<rparr>,
    \<lparr>evm_id = EV_PANEL_LED_SET_CMD, evm_name = ''EV_PANEL_LED_SET_CMD'', evm_payload_kind = EV_PAYLOAD_INLINE\<rparr>,
    \<lparr>evm_id = EV_MCP23008_READY, evm_name = ''EV_MCP23008_READY'', evm_payload_kind = EV_PAYLOAD_INLINE\<rparr>,
    \<lparr>evm_id = EV_RTC_READY, evm_name = ''EV_RTC_READY'', evm_payload_kind = EV_PAYLOAD_INLINE\<rparr>,
    \<lparr>evm_id = EV_OLED_READY, evm_name = ''EV_OLED_READY'', evm_payload_kind = EV_PAYLOAD_INLINE\<rparr>,
    \<lparr>evm_id = EV_DS18B20_READY, evm_name = ''EV_DS18B20_READY'', evm_payload_kind = EV_PAYLOAD_INLINE\<rparr>,
    \<lparr>evm_id = EV_BH1750_READY, evm_name = ''EV_BH1750_READY'', evm_payload_kind = EV_PAYLOAD_INLINE\<rparr>,
    \<lparr>evm_id = EV_SYSTEM_READY, evm_name = ''EV_SYSTEM_READY'', evm_payload_kind = EV_PAYLOAD_INLINE\<rparr>,
    \<lparr>evm_id = EV_SYS_GOTO_SLEEP_CMD, evm_name = ''EV_SYS_GOTO_SLEEP_CMD'', evm_payload_kind = EV_PAYLOAD_INLINE\<rparr>,
    \<lparr>evm_id = EV_NET_WIFI_UP, evm_name = ''EV_NET_WIFI_UP'', evm_payload_kind = EV_PAYLOAD_INLINE\<rparr>,
    \<lparr>evm_id = EV_NET_WIFI_DOWN, evm_name = ''EV_NET_WIFI_DOWN'', evm_payload_kind = EV_PAYLOAD_INLINE\<rparr>,
    \<lparr>evm_id = EV_NET_MQTT_UP, evm_name = ''EV_NET_MQTT_UP'', evm_payload_kind = EV_PAYLOAD_INLINE\<rparr>,
    \<lparr>evm_id = EV_NET_MQTT_DOWN, evm_name = ''EV_NET_MQTT_DOWN'', evm_payload_kind = EV_PAYLOAD_INLINE\<rparr>,
    \<lparr>evm_id = EV_NET_MQTT_MSG_RX, evm_name = ''EV_NET_MQTT_MSG_RX'', evm_payload_kind = EV_PAYLOAD_INLINE\<rparr>,
    \<lparr>evm_id = EV_NET_MQTT_MSG_RX_LEASE, evm_name = ''EV_NET_MQTT_MSG_RX_LEASE'', evm_payload_kind = EV_PAYLOAD_LEASE\<rparr>,
    \<lparr>evm_id = EV_NET_TX_CMD, evm_name = ''EV_NET_TX_CMD'', evm_payload_kind = EV_PAYLOAD_INLINE\<rparr>,
    \<lparr>evm_id = EV_FAULT_REPORTED, evm_name = ''EV_FAULT_REPORTED'', evm_payload_kind = EV_PAYLOAD_COPY_FIXED\<rparr>,
    \<lparr>evm_id = EV_ACTOR_LIFECYCLE_CHANGED, evm_name = ''EV_ACTOR_LIFECYCLE_CHANGED'', evm_payload_kind = EV_PAYLOAD_COPY_FIXED\<rparr>,
    \<lparr>evm_id = EV_ACTOR_READY, evm_name = ''EV_ACTOR_READY'', evm_payload_kind = EV_PAYLOAD_COPY_FIXED\<rparr>,
    \<lparr>evm_id = EV_ACTOR_DEGRADED, evm_name = ''EV_ACTOR_DEGRADED'', evm_payload_kind = EV_PAYLOAD_COPY_FIXED\<rparr>,
    \<lparr>evm_id = EV_ACTOR_OFFLINE, evm_name = ''EV_ACTOR_OFFLINE'', evm_payload_kind = EV_PAYLOAD_COPY_FIXED\<rparr>,
    \<lparr>evm_id = EV_ACTOR_SLEEP_READY, evm_name = ''EV_ACTOR_SLEEP_READY'', evm_payload_kind = EV_PAYLOAD_COPY_FIXED\<rparr>,
    \<lparr>evm_id = EV_ACTOR_FAULT, evm_name = ''EV_ACTOR_FAULT'', evm_payload_kind = EV_PAYLOAD_COPY_FIXED\<rparr>,
    \<lparr>evm_id = EV_CAPABILITY_UPDATED, evm_name = ''EV_CAPABILITY_UPDATED'', evm_payload_kind = EV_PAYLOAD_COPY_FIXED\<rparr>,
    \<lparr>evm_id = EV_COMMAND_AUTH_FAILED, evm_name = ''EV_COMMAND_AUTH_FAILED'', evm_payload_kind = EV_PAYLOAD_INLINE\<rparr>,
    \<lparr>evm_id = EV_COMMAND_ACCEPTED, evm_name = ''EV_COMMAND_ACCEPTED'', evm_payload_kind = EV_PAYLOAD_INLINE\<rparr>,
    \<lparr>evm_id = EV_COMMAND_REJECTED, evm_name = ''EV_COMMAND_REJECTED'', evm_payload_kind = EV_PAYLOAD_INLINE\<rparr>]"

definition ev_event_count :: nat where
  "ev_event_count = length k_event_catalog"

definition ev_event_meta :: "ev_event_id \<Rightarrow> ev_event_meta_t option" where
  "ev_event_meta eid = (if eid < 0 \<or> length k_event_catalog \<le> nat eid then None
     else Some (k_event_catalog ! nat eid))"

definition ev_event_id_is_valid :: "ev_event_id \<Rightarrow> bool" where
  "ev_event_id_is_valid eid \<longleftrightarrow> ev_event_meta eid \<noteq> None"

definition ev_event_name :: "ev_event_id \<Rightarrow> string option" where
  "ev_event_name eid = (case ev_event_meta eid of Some meta \<Rightarrow> Some (evm_name meta) | None \<Rightarrow> None)"

fun ev_payload_kind_name :: "ev_payload_kind \<Rightarrow> string" where
  "ev_payload_kind_name EV_PAYLOAD_INLINE = ''EV_PAYLOAD_INLINE''"
| "ev_payload_kind_name EV_PAYLOAD_COPY_FIXED = ''EV_PAYLOAD_COPY_FIXED''"
| "ev_payload_kind_name EV_PAYLOAD_LEASE = ''EV_PAYLOAD_LEASE''"
| "ev_payload_kind_name EV_PAYLOAD_STREAM_VIEW = ''EV_PAYLOAD_STREAM_VIEW''"
| "ev_payload_kind_name _ = ''EV_PAYLOAD_UNKNOWN''"

section \<open>The actor catalog\<close>

record ev_actor_meta_t =
  am_id :: ev_actor_id
  am_name :: string
  am_execution_domain :: ev_execution_domain
  am_mailbox_kind :: ev_mailbox_kind
  am_drain_budget :: nat

definition k_actor_catalog :: "ev_actor_meta_t list" where
  "k_actor_catalog = [
    \<lparr>am_id = ACT_BOOT, am_name = ''ACT_BOOT'', am_execution_domain = EV_DOMAIN_FAST_LOOP,
      am_mailbox_kind = EV_MAILBOX_FIFO_8, am_drain_budget = 4\<rparr>,
    \<lparr>am_id = ACT_RUNTIME, am_name = ''ACT_RUNTIME'', am_execution_domain = EV_DOMAIN_FAST_LOOP,
      am_mailbox_kind = EV_MAILBOX_FIFO_8, am_drain_budget = 1\<rparr>,
    \<lparr>am_id = ACT_STREAM, am_name = ''ACT_STREAM'', am_execution_domain = EV_DOMAIN_FAST_LOOP,
      am_mailbox_kind = EV_MAILBOX_FIFO_16, am_drain_budget = 8\<rparr>,
    \<lparr>am_id = ACT_DIAG, am_name = ''ACT_DIAG'', am_execution_domain = EV_DOMAIN_SLOW_IO,
      am_mailbox_kind = EV_MAILBOX_FIFO_8, am_drain_budget = 2\<rparr>,
    \<lparr>am_id = ACT_APP, am_name = ''ACT_APP'', am_execution_domain = EV_DOMAIN_FAST_LOOP,
      am_mailbox_kind = EV_MAILBOX_FIFO_8, am_drain_budget = 4\<rparr>,
    \<lparr>am_id = ACT_OLED, am_name = ''ACT_OLED'', am_execution_domain = EV_DOMAIN_SLOW_IO,
      am_mailbox_kind = EV_MAILBOX_FIFO_8, am_drain_budget = 1\<rparr>,
    \<lparr>am_id = ACT_RTC, am_name = ''ACT_RTC'', am_execution_domain = EV_DOMAIN_SLOW_IO,
      am_mailbox_kind = EV_MAILBOX_FIFO_8, am_drain_budget = 1\<rparr>,
    \<lparr>am_id = ACT_DS18B20, am_name = ''ACT_DS18B20'', am_execution_domain = EV_DOMAIN_SLOW_IO,
      am_mailbox_kind = EV_MAILBOX_FIFO_8, am_drain_budget = 1\<rparr>,
    \<lparr>am_id = ACT_BH1750, am_name = ''ACT_BH1750'', am_execution_domain = EV_DOMAIN_SLOW_IO,
      am_mailbox_kind = EV_MAILBOX_FIFO_8, am_drain_budget = 1\<rparr>,
    \<lparr>am_id = ACT_PANEL, am_name = ''ACT_PANEL'', am_execution_domain = EV_DOMAIN_FAST_LOOP,
      am_mailbox_kind = EV_MAILBOX_FIFO_8, am_drain_budget = 4\<rparr>,
    \<lparr>am_id = ACT_MCP23008, am_name = ''ACT_MCP23008'', am_execution_domain = EV_DOMAIN_SLOW_IO,
      am_mailbox_kind = EV_MAILBOX_FIFO_8, am_drain_budget = 1\<rparr>,
    \<lparr>am_id = ACT_SUPERVISOR, am_name = ''ACT_SUPERVISOR'', am_execution_domain = EV_DOMAIN_FAST_LOOP,
      am_mailbox_kind = EV_MAILBOX_FIFO_8, am_drain_budget = 2\<rparr>,
    \<lparr>am_id = ACT_POWER, am_name = ''ACT_POWER'', am_execution_domain = EV_DOMAIN_FAST_LOOP,
      am_mailbox_kind = EV_MAILBOX_FIFO_8, am_drain_budget = 1\<rparr>,
    \<lparr>am_id = ACT_WATCHDOG, am_name = ''ACT_WATCHDOG'', am_execution_domain = EV_DOMAIN_FAST_LOOP,
      am_mailbox_kind = EV_MAILBOX_FIFO_8, am_drain_budget = 1\<rparr>,
    \<lparr>am_id = ACT_NETWORK, am_name = ''ACT_NETWORK'', am_execution_domain = EV_DOMAIN_SLOW_IO,
      am_mailbox_kind = EV_MAILBOX_FIFO_8, am_drain_budget = 2\<rparr>,
    \<lparr>am_id = ACT_COMMAND, am_name = ''ACT_COMMAND'', am_execution_domain = EV_DOMAIN_SLOW_IO,
      am_mailbox_kind = EV_MAILBOX_FIFO_8, am_drain_budget = 2\<rparr>,
    \<lparr>am_id = ACT_FAULT, am_name = ''ACT_FAULT'', am_execution_domain = EV_DOMAIN_FAST_LOOP,
      am_mailbox_kind = EV_MAILBOX_FIFO_8, am_drain_budget = 4\<rparr>,
    \<lparr>am_id = ACT_METRICS, am_name = ''ACT_METRICS'', am_execution_domain = EV_DOMAIN_FAST_LOOP,
      am_mailbox_kind = EV_MAILBOX_FIFO_8, am_drain_budget = 4\<rparr>]"

definition ev_actor_count :: nat where
  "ev_actor_count = length k_actor_catalog"

definition ev_actor_meta :: "ev_actor_id \<Rightarrow> ev_actor_meta_t option" where
  "ev_actor_meta eid = (if eid < 0 \<or> length k_actor_catalog \<le> nat eid then None
     else Some (k_actor_catalog ! nat eid))"

definition ev_actor_id_is_valid :: "ev_actor_id \<Rightarrow> bool" where
  "ev_actor_id_is_valid eid \<longleftrightarrow> ev_actor_meta eid \<noteq> None"

definition ev_actor_name :: "ev_actor_id \<Rightarrow> string option" where
  "ev_actor_name eid = (case ev_actor_meta eid of Some meta \<Rightarrow> Some (am_name meta) | None \<Rightarrow> None)"

definition ev_actor_default_drain_budget :: "ev_actor_id \<Rightarrow> nat" where
  "ev_actor_default_drain_budget eid =
     (case ev_actor_meta eid of Some meta \<Rightarrow> am_drain_budget meta | None \<Rightarrow> 0)"

definition ev_execution_domain_name :: "ev_execution_domain \<Rightarrow> string" where
  "ev_execution_domain_name domain =
     (if domain = EV_DOMAIN_ISR then ''EV_DOMAIN_ISR''
      else if domain = EV_DOMAIN_FAST_LOOP then ''EV_DOMAIN_FAST_LOOP''
      else if domain = EV_DOMAIN_SLOW_IO then ''EV_DOMAIN_SLOW_IO''
      else if domain = EV_DOMAIN_NETWORK then ''EV_DOMAIN_NETWORK''
      else ''EV_DOMAIN_UNKNOWN'')"

fun ev_mailbox_kind_name :: "ev_mailbox_kind \<Rightarrow> string" where
  "ev_mailbox_kind_name EV_MAILBOX_FIFO_8 = ''EV_MAILBOX_FIFO_8''"
| "ev_mailbox_kind_name EV_MAILBOX_FIFO_16 = ''EV_MAILBOX_FIFO_16''"
| "ev_mailbox_kind_name EV_MAILBOX_MAILBOX_1 = ''EV_MAILBOX_MAILBOX_1''"
| "ev_mailbox_kind_name EV_MAILBOX_LOSSY_RING_8 = ''EV_MAILBOX_LOSSY_RING_8''"
| "ev_mailbox_kind_name EV_MAILBOX_COALESCED_FLAG = ''EV_MAILBOX_COALESCED_FLAG''"
| "ev_mailbox_kind_name _ = ''EV_MAILBOX_UNKNOWN''"

section \<open>Facts about the catalogs\<close>

lemma length_k_event_catalog [simp]: "length k_event_catalog = 41"
  by (simp add: k_event_catalog_def)

lemma length_k_actor_catalog [simp]: "length k_actor_catalog = 18"
  by (simp add: k_actor_catalog_def)

lemma ev_event_count_eq [simp]: "ev_event_count = 41"
  by (simp add: ev_event_count_def)

lemma ev_actor_count_eq [simp]: "ev_actor_count = 18"
  by (simp add: ev_actor_count_def)

lemma ev_event_id_is_valid_iff: "ev_event_id_is_valid eid \<longleftrightarrow> 0 \<le> eid \<and> eid < EV_EVENT_COUNT"
  by (auto simp: ev_event_id_is_valid_def ev_event_meta_def)

lemma ev_actor_id_is_valid_iff: "ev_actor_id_is_valid eid \<longleftrightarrow> 0 \<le> eid \<and> eid < EV_ACTOR_COUNT"
  by (auto simp: ev_actor_id_is_valid_def ev_actor_meta_def)

lemma ev_actor_id_none_invalid [simp]: "\<not> ev_actor_id_is_valid EV_ACTOR_NONE"
  by (simp add: ev_actor_id_is_valid_iff)

text \<open>Every entry of a catalog sits at the index its eid names, so a lookup returns the entry asked for.\<close>

lemma k_event_catalog_ids: "map evm_id k_event_catalog = map int [0..<ev_event_count]"
  by (simp add: k_event_catalog_def upt_rec)

lemma k_actor_catalog_ids: "map am_id k_actor_catalog = map int [0..<ev_actor_count]"
  by (simp add: k_actor_catalog_def upt_rec)

lemma ev_event_meta_id: "ev_event_meta eid = Some meta \<Longrightarrow> evm_id meta = eid"
  using arg_cong [OF k_event_catalog_ids, of "\<lambda>l. l ! nat eid"]
  by (auto simp: ev_event_meta_def split: if_splits)

lemma ev_actor_meta_id: "ev_actor_meta eid = Some meta \<Longrightarrow> am_id meta = eid"
  using arg_cong [OF k_actor_catalog_ids, of "\<lambda>l. l ! nat eid"]
  by (auto simp: ev_actor_meta_def split: if_splits)

lemma ev_event_meta_SomeD: "ev_event_meta eid = Some meta \<Longrightarrow> meta \<in> set k_event_catalog"
  by (auto simp: ev_event_meta_def split: if_splits)

lemma ev_actor_meta_SomeD: "ev_actor_meta eid = Some meta \<Longrightarrow> meta \<in> set k_actor_catalog"
  by (auto simp: ev_actor_meta_def split: if_splits)

text \<open>The catalogs only hold enumerators, and every actor may drain at least one message.\<close>

lemma event_catalog_payload_kinds:
  "meta \<in> set k_event_catalog \<Longrightarrow>
     evm_payload_kind meta = EV_PAYLOAD_INLINE \<or> evm_payload_kind meta = EV_PAYLOAD_COPY_FIXED
     \<or> evm_payload_kind meta = EV_PAYLOAD_LEASE"
  by (auto simp: k_event_catalog_def)

lemma actor_catalog_budget_pos: "meta \<in> set k_actor_catalog \<Longrightarrow> 0 < am_drain_budget meta"
  by (auto simp: k_actor_catalog_def)

lemma actor_catalog_kinds:
  "meta \<in> set k_actor_catalog \<Longrightarrow>
     am_mailbox_kind meta = EV_MAILBOX_FIFO_8 \<or> am_mailbox_kind meta = EV_MAILBOX_FIFO_16"
  by (auto simp: k_actor_catalog_def)

lemma ev_actor_default_drain_budget_pos:
  "ev_actor_id_is_valid eid \<Longrightarrow> 0 < ev_actor_default_drain_budget eid"
  using actor_catalog_budget_pos [OF ev_actor_meta_SomeD]
  by (auto simp: ev_actor_default_drain_budget_def ev_actor_id_is_valid_def)

end
