(* ===== verification/EvRouteTable.thy ===== *)
theory EvRouteTable
  imports EvCatalog
begin

text \<open>
  The static route table: the source of truth \<open>config/routes.def\<close>, the generated table and spans
  (\<open>core/generated/include/ev/route_table_generated.h\<close>), the lookups of \<open>core/src/ev_route_table.c\<close>,
  and the generated mailbox layout. The lemmas show that the generated table is the source of truth
  sorted by event, that the spans partition it, and that every lookup agrees with a scan of the table.
\<close>

record ev_route =
  rt_event_id :: ev_event_id
  rt_target_actor :: ev_actor_id
  rt_qos :: ev_route_qos
  rt_priority :: u8
  rt_flags :: u32

record ev_route_span =
  sp_start_index :: nat
  sp_count :: nat

text \<open>\<open>EV_ROUTE(e, a)\<close> is \<open>EV_ROUTE_EX(e, a, EV_ROUTE_QOS_CRITICAL, 0, 0)\<close>; no route sets priority or flags.\<close>

abbreviation route_ex :: "ev_event_id \<Rightarrow> ev_actor_id \<Rightarrow> ev_route_qos \<Rightarrow> ev_route" where
  "route_ex e a q \<equiv>
     \<lparr>rt_event_id = e, rt_target_actor = a, rt_qos = q, rt_priority = 0, rt_flags = 0\<rparr>"

abbreviation span :: "nat \<Rightarrow> nat \<Rightarrow> ev_route_span" where
  "span s c \<equiv> \<lparr>sp_start_index = s, sp_count = c\<rparr>"

section \<open>The tables\<close>

definition routes_def :: "ev_route list" where
  "routes_def = [
    route_ex EV_BOOT_STARTED ACT_DIAG EV_ROUTE_QOS_CRITICAL,
    route_ex EV_BOOT_COMPLETED ACT_DIAG EV_ROUTE_QOS_CRITICAL,
    route_ex EV_BOOT_COMPLETED ACT_APP EV_ROUTE_QOS_CRITICAL,
    route_ex EV_TICK_1S ACT_DIAG EV_ROUTE_QOS_CRITICAL,
    route_ex EV_TICK_1S ACT_APP EV_ROUTE_QOS_CRITICAL,
    route_ex EV_TICK_1S ACT_WATCHDOG EV_ROUTE_QOS_CRITICAL,
    route_ex EV_TICK_1S ACT_NETWORK EV_ROUTE_QOS_CRITICAL,
    route_ex EV_TICK_1S ACT_COMMAND EV_ROUTE_QOS_CRITICAL,
    route_ex EV_TICK_100MS ACT_DIAG EV_ROUTE_QOS_CRITICAL,
    route_ex EV_TICK_100MS ACT_PANEL EV_ROUTE_QOS_CRITICAL,
    route_ex EV_GPIO_IRQ ACT_DIAG EV_ROUTE_QOS_CRITICAL,
    route_ex EV_TIME_UPDATED ACT_APP EV_ROUTE_QOS_CRITICAL,
    route_ex EV_TIME_UPDATED ACT_NETWORK EV_ROUTE_QOS_TELEMETRY,
    route_ex EV_TEMP_UPDATED ACT_APP EV_ROUTE_QOS_CRITICAL,
    route_ex EV_TEMP_UPDATED ACT_NETWORK EV_ROUTE_QOS_TELEMETRY,
    route_ex EV_LIGHT_UPDATED ACT_APP EV_ROUTE_QOS_CRITICAL,
    route_ex EV_LIGHT_UPDATED ACT_NETWORK EV_ROUTE_QOS_TELEMETRY,
    route_ex EV_MCP23008_INPUT_CHANGED ACT_PANEL EV_ROUTE_QOS_CRITICAL,
    route_ex EV_MCP23008_INPUT_CHANGED ACT_NETWORK EV_ROUTE_QOS_CRITICAL,
    route_ex EV_BUTTON_EVENT ACT_APP EV_ROUTE_QOS_CRITICAL,
    route_ex EV_MCP23008_READY ACT_DIAG EV_ROUTE_QOS_CRITICAL,
    route_ex EV_STREAM_CHUNK_READY ACT_STREAM EV_ROUTE_QOS_CRITICAL,
    route_ex EV_DIAG_SNAPSHOT_REQ ACT_DIAG EV_ROUTE_QOS_CRITICAL,
    route_ex EV_DIAG_SNAPSHOT_RSP ACT_APP EV_ROUTE_QOS_CRITICAL,
    route_ex EV_BOOT_COMPLETED ACT_MCP23008 EV_ROUTE_QOS_CRITICAL,
    route_ex EV_TICK_100MS ACT_MCP23008 EV_ROUTE_QOS_CRITICAL,
    route_ex EV_PANEL_LED_SET_CMD ACT_MCP23008 EV_ROUTE_QOS_CRITICAL,
    route_ex EV_BOOT_COMPLETED ACT_RTC EV_ROUTE_QOS_CRITICAL,
    route_ex EV_TICK_1S ACT_RTC EV_ROUTE_QOS_CRITICAL,
    route_ex EV_MCP23008_READY ACT_RTC EV_ROUTE_QOS_CRITICAL,
    route_ex EV_GPIO_IRQ ACT_RTC EV_ROUTE_QOS_CRITICAL,
    route_ex EV_BOOT_COMPLETED ACT_DS18B20 EV_ROUTE_QOS_CRITICAL,
    route_ex EV_TICK_100MS ACT_DS18B20 EV_ROUTE_QOS_CRITICAL,
    route_ex EV_BOOT_COMPLETED ACT_BH1750 EV_ROUTE_QOS_CRITICAL,
    route_ex EV_TICK_100MS ACT_BH1750 EV_ROUTE_QOS_CRITICAL,
    route_ex EV_BOOT_COMPLETED ACT_OLED EV_ROUTE_QOS_CRITICAL,
    route_ex EV_TICK_1S ACT_OLED EV_ROUTE_QOS_CRITICAL,
    route_ex EV_OLED_DISPLAY_TEXT_CMD ACT_OLED EV_ROUTE_QOS_CRITICAL,
    route_ex EV_OLED_COMMIT_FRAME ACT_OLED EV_ROUTE_QOS_CRITICAL,
    route_ex EV_BOOT_COMPLETED ACT_SUPERVISOR EV_ROUTE_QOS_CRITICAL,
    route_ex EV_TICK_1S ACT_SUPERVISOR EV_ROUTE_QOS_CRITICAL,
    route_ex EV_MCP23008_READY ACT_SUPERVISOR EV_ROUTE_QOS_CRITICAL,
    route_ex EV_RTC_READY ACT_SUPERVISOR EV_ROUTE_QOS_CRITICAL,
    route_ex EV_OLED_READY ACT_SUPERVISOR EV_ROUTE_QOS_CRITICAL,
    route_ex EV_DS18B20_READY ACT_SUPERVISOR EV_ROUTE_QOS_CRITICAL,
    route_ex EV_BH1750_READY ACT_SUPERVISOR EV_ROUTE_QOS_CRITICAL,
    route_ex EV_SYSTEM_READY ACT_APP EV_ROUTE_QOS_CRITICAL,
    route_ex EV_SYS_GOTO_SLEEP_CMD ACT_POWER EV_ROUTE_QOS_WAKEUP_CRITICAL,
    route_ex EV_NET_WIFI_UP ACT_NETWORK EV_ROUTE_QOS_CRITICAL,
    route_ex EV_NET_WIFI_DOWN ACT_NETWORK EV_ROUTE_QOS_CRITICAL,
    route_ex EV_NET_MQTT_UP ACT_NETWORK EV_ROUTE_QOS_CRITICAL,
    route_ex EV_NET_MQTT_DOWN ACT_NETWORK EV_ROUTE_QOS_CRITICAL,
    route_ex EV_NET_MQTT_MSG_RX ACT_NETWORK EV_ROUTE_QOS_CRITICAL,
    route_ex EV_NET_MQTT_MSG_RX ACT_COMMAND EV_ROUTE_QOS_COMMAND,
    route_ex EV_NET_MQTT_MSG_RX_LEASE ACT_NETWORK EV_ROUTE_QOS_CRITICAL,
    route_ex EV_NET_MQTT_MSG_RX_LEASE ACT_COMMAND EV_ROUTE_QOS_COMMAND,
    route_ex EV_NET_TX_CMD ACT_NETWORK EV_ROUTE_QOS_CRITICAL,
    route_ex EV_FAULT_REPORTED ACT_FAULT EV_ROUTE_QOS_CRITICAL]"

definition k_ev_route_table_generated :: "ev_route list" where
  "k_ev_route_table_generated = [
    route_ex EV_BOOT_STARTED ACT_DIAG EV_ROUTE_QOS_CRITICAL,
    route_ex EV_BOOT_COMPLETED ACT_DIAG EV_ROUTE_QOS_CRITICAL,
    route_ex EV_BOOT_COMPLETED ACT_APP EV_ROUTE_QOS_CRITICAL,
    route_ex EV_BOOT_COMPLETED ACT_MCP23008 EV_ROUTE_QOS_CRITICAL,
    route_ex EV_BOOT_COMPLETED ACT_RTC EV_ROUTE_QOS_CRITICAL,
    route_ex EV_BOOT_COMPLETED ACT_DS18B20 EV_ROUTE_QOS_CRITICAL,
    route_ex EV_BOOT_COMPLETED ACT_BH1750 EV_ROUTE_QOS_CRITICAL,
    route_ex EV_BOOT_COMPLETED ACT_OLED EV_ROUTE_QOS_CRITICAL,
    route_ex EV_BOOT_COMPLETED ACT_SUPERVISOR EV_ROUTE_QOS_CRITICAL,
    route_ex EV_TICK_1S ACT_DIAG EV_ROUTE_QOS_CRITICAL,
    route_ex EV_TICK_1S ACT_APP EV_ROUTE_QOS_CRITICAL,
    route_ex EV_TICK_1S ACT_WATCHDOG EV_ROUTE_QOS_CRITICAL,
    route_ex EV_TICK_1S ACT_NETWORK EV_ROUTE_QOS_CRITICAL,
    route_ex EV_TICK_1S ACT_COMMAND EV_ROUTE_QOS_CRITICAL,
    route_ex EV_TICK_1S ACT_RTC EV_ROUTE_QOS_CRITICAL,
    route_ex EV_TICK_1S ACT_OLED EV_ROUTE_QOS_CRITICAL,
    route_ex EV_TICK_1S ACT_SUPERVISOR EV_ROUTE_QOS_CRITICAL,
    route_ex EV_STREAM_CHUNK_READY ACT_STREAM EV_ROUTE_QOS_CRITICAL,
    route_ex EV_DIAG_SNAPSHOT_REQ ACT_DIAG EV_ROUTE_QOS_CRITICAL,
    route_ex EV_DIAG_SNAPSHOT_RSP ACT_APP EV_ROUTE_QOS_CRITICAL,
    route_ex EV_OLED_DISPLAY_TEXT_CMD ACT_OLED EV_ROUTE_QOS_CRITICAL,
    route_ex EV_OLED_COMMIT_FRAME ACT_OLED EV_ROUTE_QOS_CRITICAL,
    route_ex EV_TIME_UPDATED ACT_APP EV_ROUTE_QOS_CRITICAL,
    route_ex EV_TIME_UPDATED ACT_NETWORK EV_ROUTE_QOS_TELEMETRY,
    route_ex EV_TEMP_UPDATED ACT_APP EV_ROUTE_QOS_CRITICAL,
    route_ex EV_TEMP_UPDATED ACT_NETWORK EV_ROUTE_QOS_TELEMETRY,
    route_ex EV_LIGHT_UPDATED ACT_APP EV_ROUTE_QOS_CRITICAL,
    route_ex EV_LIGHT_UPDATED ACT_NETWORK EV_ROUTE_QOS_TELEMETRY,
    route_ex EV_TICK_100MS ACT_DIAG EV_ROUTE_QOS_CRITICAL,
    route_ex EV_TICK_100MS ACT_PANEL EV_ROUTE_QOS_CRITICAL,
    route_ex EV_TICK_100MS ACT_MCP23008 EV_ROUTE_QOS_CRITICAL,
    route_ex EV_TICK_100MS ACT_DS18B20 EV_ROUTE_QOS_CRITICAL,
    route_ex EV_TICK_100MS ACT_BH1750 EV_ROUTE_QOS_CRITICAL,
    route_ex EV_GPIO_IRQ ACT_DIAG EV_ROUTE_QOS_CRITICAL,
    route_ex EV_GPIO_IRQ ACT_RTC EV_ROUTE_QOS_CRITICAL,
    route_ex EV_MCP23008_INPUT_CHANGED ACT_PANEL EV_ROUTE_QOS_CRITICAL,
    route_ex EV_MCP23008_INPUT_CHANGED ACT_NETWORK EV_ROUTE_QOS_CRITICAL,
    route_ex EV_BUTTON_EVENT ACT_APP EV_ROUTE_QOS_CRITICAL,
    route_ex EV_PANEL_LED_SET_CMD ACT_MCP23008 EV_ROUTE_QOS_CRITICAL,
    route_ex EV_MCP23008_READY ACT_DIAG EV_ROUTE_QOS_CRITICAL,
    route_ex EV_MCP23008_READY ACT_RTC EV_ROUTE_QOS_CRITICAL,
    route_ex EV_MCP23008_READY ACT_SUPERVISOR EV_ROUTE_QOS_CRITICAL,
    route_ex EV_RTC_READY ACT_SUPERVISOR EV_ROUTE_QOS_CRITICAL,
    route_ex EV_OLED_READY ACT_SUPERVISOR EV_ROUTE_QOS_CRITICAL,
    route_ex EV_DS18B20_READY ACT_SUPERVISOR EV_ROUTE_QOS_CRITICAL,
    route_ex EV_BH1750_READY ACT_SUPERVISOR EV_ROUTE_QOS_CRITICAL,
    route_ex EV_SYSTEM_READY ACT_APP EV_ROUTE_QOS_CRITICAL,
    route_ex EV_SYS_GOTO_SLEEP_CMD ACT_POWER EV_ROUTE_QOS_WAKEUP_CRITICAL,
    route_ex EV_NET_WIFI_UP ACT_NETWORK EV_ROUTE_QOS_CRITICAL,
    route_ex EV_NET_WIFI_DOWN ACT_NETWORK EV_ROUTE_QOS_CRITICAL,
    route_ex EV_NET_MQTT_UP ACT_NETWORK EV_ROUTE_QOS_CRITICAL,
    route_ex EV_NET_MQTT_DOWN ACT_NETWORK EV_ROUTE_QOS_CRITICAL,
    route_ex EV_NET_MQTT_MSG_RX ACT_NETWORK EV_ROUTE_QOS_CRITICAL,
    route_ex EV_NET_MQTT_MSG_RX ACT_COMMAND EV_ROUTE_QOS_COMMAND,
    route_ex EV_NET_MQTT_MSG_RX_LEASE ACT_NETWORK EV_ROUTE_QOS_CRITICAL,
    route_ex EV_NET_MQTT_MSG_RX_LEASE ACT_COMMAND EV_ROUTE_QOS_COMMAND,
    route_ex EV_NET_TX_CMD ACT_NETWORK EV_ROUTE_QOS_CRITICAL,
    route_ex EV_FAULT_REPORTED ACT_FAULT EV_ROUTE_QOS_CRITICAL]"

text \<open>Events without an entry in the designated initialiser get the zero span.\<close>

definition k_ev_route_spans_generated :: "ev_route_span list" where
  "k_ev_route_spans_generated = [
    span 0 1,
    span 1 8,
    span 9 8,
    span 17 1,
    span 18 1,
    span 19 1,
    span 20 1,
    span 21 1,
    span 22 2,
    span 24 2,
    span 26 2,
    span 28 5,
    span 33 2,
    span 35 2,
    span 37 1,
    span 38 1,
    span 39 3,
    span 42 1,
    span 43 1,
    span 44 1,
    span 45 1,
    span 46 1,
    span 47 1,
    span 48 1,
    span 49 1,
    span 50 1,
    span 51 1,
    span 52 2,
    span 54 2,
    span 56 1,
    span 57 1,
    span 0 0,
    span 0 0,
    span 0 0,
    span 0 0,
    span 0 0,
    span 0 0,
    span 0 0,
    span 0 0,
    span 0 0,
    span 0 0]"

section \<open>Lookups\<close>

definition ev_route_span_is_valid :: "ev_route_span \<Rightarrow> bool" where
  "ev_route_span_is_valid sp \<longleftrightarrow>
     sp_start_index sp \<le> length k_ev_route_table_generated
     \<and> sp_count sp \<le> length k_ev_route_table_generated - sp_start_index sp"

definition ev_route_count :: nat where
  "ev_route_count = length k_ev_route_table_generated"

definition ev_route_at :: "nat \<Rightarrow> ev_route option" where
  "ev_route_at index = (if length k_ev_route_table_generated \<le> index then None
     else Some (k_ev_route_table_generated ! index))"

definition ev_route_span_for_event :: "ev_event_id \<Rightarrow> ev_route_span" where
  "ev_route_span_for_event event_id =
     (if \<not> ev_event_id_is_valid event_id then span 0 0
      else if \<not> ev_route_span_is_valid (k_ev_route_spans_generated ! nat event_id) then span 0 0
      else k_ev_route_spans_generated ! nat event_id)"

definition ev_route_count_for_event :: "ev_event_id \<Rightarrow> nat" where
  "ev_route_count_for_event event_id = sp_count (ev_route_span_for_event event_id)"

text \<open>The search loop of \<open>ev_route_exists\<close>: \<open>n\<close> routes left, the next one at index \<open>i\<close>.\<close>

primrec ev_route_exists_loop :: "nat \<Rightarrow> nat \<Rightarrow> ev_actor_id \<Rightarrow> bool" where
  "ev_route_exists_loop i 0 target_actor = False"
| "ev_route_exists_loop i (Suc n) target_actor =
     (if rt_target_actor (k_ev_route_table_generated ! i) = target_actor then True
      else ev_route_exists_loop (Suc i) n target_actor)"

definition ev_route_exists :: "ev_event_id \<Rightarrow> ev_actor_id \<Rightarrow> bool" where
  "ev_route_exists event_id target_actor =
     (if \<not> ev_actor_id_is_valid target_actor then False
      else let sp = ev_route_span_for_event event_id
           in ev_route_exists_loop (sp_start_index sp) (sp_count sp) target_actor)"

fun ev_route_qos_name :: "ev_route_qos \<Rightarrow> string" where
  "ev_route_qos_name EV_ROUTE_QOS_CRITICAL = ''critical''"
| "ev_route_qos_name EV_ROUTE_QOS_BEST_EFFORT = ''best_effort''"
| "ev_route_qos_name EV_ROUTE_QOS_LOSSY = ''lossy''"
| "ev_route_qos_name EV_ROUTE_QOS_COALESCED = ''coalesced''"
| "ev_route_qos_name EV_ROUTE_QOS_LATEST_ONLY = ''latest_only''"
| "ev_route_qos_name EV_ROUTE_QOS_WAKEUP_CRITICAL = ''wakeup_critical''"
| "ev_route_qos_name EV_ROUTE_QOS_TELEMETRY = ''telemetry''"
| "ev_route_qos_name EV_ROUTE_QOS_COMMAND = ''command''"
| "ev_route_qos_name _ = ''invalid''"

section \<open>The generated mailbox layout\<close>

record ev_actor_mailbox_layout_entry =
  ml_actor_id :: ev_actor_id
  ml_mailbox_kind :: ev_mailbox_kind
  ml_offset :: nat
  ml_capacity :: nat

abbreviation layout_entry :: "ev_actor_id \<Rightarrow> ev_mailbox_kind \<Rightarrow> nat \<Rightarrow> nat
    \<Rightarrow> ev_actor_mailbox_layout_entry" where
  "layout_entry a k off c \<equiv>
     \<lparr>ml_actor_id = a, ml_mailbox_kind = k, ml_offset = off, ml_capacity = c\<rparr>"

abbreviation EV_RUNTIME_MAILBOX_TOTAL_CAPACITY :: nat where
  "EV_RUNTIME_MAILBOX_TOTAL_CAPACITY \<equiv> 152"

definition ev_actor_mailbox_layout_lookup ::
    "ev_actor_id \<Rightarrow> ev_actor_mailbox_layout_entry option" where
  "ev_actor_mailbox_layout_lookup actor_id =
     (if actor_id = ACT_BOOT then Some (layout_entry ACT_BOOT EV_MAILBOX_FIFO_8 0 8)
      else if actor_id = ACT_RUNTIME then Some (layout_entry ACT_RUNTIME EV_MAILBOX_FIFO_8 8 8)
      else if actor_id = ACT_STREAM then Some (layout_entry ACT_STREAM EV_MAILBOX_FIFO_16 16 16)
      else if actor_id = ACT_DIAG then Some (layout_entry ACT_DIAG EV_MAILBOX_FIFO_8 32 8)
      else if actor_id = ACT_APP then Some (layout_entry ACT_APP EV_MAILBOX_FIFO_8 40 8)
      else if actor_id = ACT_OLED then Some (layout_entry ACT_OLED EV_MAILBOX_FIFO_8 48 8)
      else if actor_id = ACT_RTC then Some (layout_entry ACT_RTC EV_MAILBOX_FIFO_8 56 8)
      else if actor_id = ACT_DS18B20 then Some (layout_entry ACT_DS18B20 EV_MAILBOX_FIFO_8 64 8)
      else if actor_id = ACT_BH1750 then Some (layout_entry ACT_BH1750 EV_MAILBOX_FIFO_8 72 8)
      else if actor_id = ACT_PANEL then Some (layout_entry ACT_PANEL EV_MAILBOX_FIFO_8 80 8)
      else if actor_id = ACT_MCP23008 then Some (layout_entry ACT_MCP23008 EV_MAILBOX_FIFO_8 88 8)
      else if actor_id = ACT_SUPERVISOR then Some (layout_entry ACT_SUPERVISOR EV_MAILBOX_FIFO_8 96 8)
      else if actor_id = ACT_POWER then Some (layout_entry ACT_POWER EV_MAILBOX_FIFO_8 104 8)
      else if actor_id = ACT_WATCHDOG then Some (layout_entry ACT_WATCHDOG EV_MAILBOX_FIFO_8 112 8)
      else if actor_id = ACT_NETWORK then Some (layout_entry ACT_NETWORK EV_MAILBOX_FIFO_8 120 8)
      else if actor_id = ACT_COMMAND then Some (layout_entry ACT_COMMAND EV_MAILBOX_FIFO_8 128 8)
      else if actor_id = ACT_FAULT then Some (layout_entry ACT_FAULT EV_MAILBOX_FIFO_8 136 8)
      else if actor_id = ACT_METRICS then Some (layout_entry ACT_METRICS EV_MAILBOX_FIFO_8 144 8)
      else None)"

section \<open>Facts about the tables\<close>

lemma length_route_table [simp]: "length k_ev_route_table_generated = 58"
  by (simp add: k_ev_route_table_generated_def)

lemma length_route_spans [simp]: "length k_ev_route_spans_generated = 41"
  by (simp add: k_ev_route_spans_generated_def)

text \<open>
  The span of an event, read off the table itself: the block of routes that carry the event. This is
  what the span table must record.
\<close>

definition routes_of_event :: "ev_event_id \<Rightarrow> ev_route list" where
  "routes_of_event e = filter (\<lambda>r. rt_event_id r = e) k_ev_route_table_generated"

lemma span_slices_generated:
  "map (\<lambda>sp. take (sp_count sp) (drop (sp_start_index sp) k_ev_route_table_generated))
       k_ev_route_spans_generated
     = map (\<lambda>e. routes_of_event (int e)) [0..<41]"
  by code_simp

lemma spans_generated_valid: "list_all ev_route_span_is_valid k_ev_route_spans_generated"
  by code_simp

lemma table_ids_valid:
  "list_all (\<lambda>r. ev_event_id_is_valid (rt_event_id r) \<and> ev_actor_id_is_valid (rt_target_actor r))
     k_ev_route_table_generated"
  by code_simp

lemma route_span_valid: "ev_route_span_is_valid (ev_route_span_for_event e)"
  by (auto simp: ev_route_span_for_event_def ev_route_span_is_valid_def)

lemma routes_of_event_invalid: "\<not> ev_event_id_is_valid e \<Longrightarrow> routes_of_event e = []"
  using table_ids_valid by (auto simp: routes_of_event_def filter_empty_conv list_all_iff)

lemma route_span_slice:
  "take (sp_count (ev_route_span_for_event e))
     (drop (sp_start_index (ev_route_span_for_event e)) k_ev_route_table_generated)
   = routes_of_event e"
proof (cases "ev_event_id_is_valid e")
  case True
  then have e: "nat e < 41" "int (nat e) = e" by (auto simp: ev_event_id_is_valid_iff)
  have valid: "ev_route_span_is_valid (k_ev_route_spans_generated ! nat e)"
    using spans_generated_valid e(1) by (simp add: list_all_length)
  have "map (\<lambda>sp. take (sp_count sp) (drop (sp_start_index sp) k_ev_route_table_generated))
       k_ev_route_spans_generated ! nat e = routes_of_event e"
    using e by (simp only: span_slices_generated) (simp add: nth_append)
  with True valid e(1) show ?thesis by (simp add: ev_route_span_for_event_def)
next
  case False
  then show ?thesis by (simp add: ev_route_span_for_event_def routes_of_event_invalid)
qed

lemma ev_route_exists_loop_iff:
  "i + n \<le> length k_ev_route_table_generated \<Longrightarrow>
   ev_route_exists_loop i n a
     \<longleftrightarrow> a \<in> rt_target_actor ` set (take n (drop i k_ev_route_table_generated))"
proof (induction n arbitrary: i)
  case 0
  then show ?case by simp
next
  case (Suc n)
  then have "drop i k_ev_route_table_generated
      = k_ev_route_table_generated ! i # drop (Suc i) k_ev_route_table_generated"
    by (intro Cons_nth_drop_Suc [symmetric]) simp
  with Suc show ?case by auto
qed

text \<open>
  The route lookup is exact. \<open>ev_route_exists\<close>, which searches only the span the generator
  recorded for the event, answers yes for precisely those pairs of event and actor that occur in the
  whole generated table; no route is missed by a wrong span and none is invented.
\<close>

lemma ev_route_exists_iff_table:
  "ev_route_exists e a \<longleftrightarrow>
     (\<exists>r. r \<in> set k_ev_route_table_generated \<and> rt_event_id r = e \<and> rt_target_actor r = a)"
proof -
  let ?sp = "ev_route_span_for_event e"
  have fits: "sp_start_index ?sp + sp_count ?sp \<le> length k_ev_route_table_generated"
    using route_span_valid [of e] by (auto simp: ev_route_span_is_valid_def)
  have "ev_route_exists_loop (sp_start_index ?sp) (sp_count ?sp) a
      \<longleftrightarrow> a \<in> rt_target_actor ` set (routes_of_event e)"
    using ev_route_exists_loop_iff [OF fits] by (simp add: route_span_slice)
  then show ?thesis
    using table_ids_valid
    by (auto simp: ev_route_exists_def Let_def routes_of_event_def list_all_iff)
qed

text \<open>
  The generator is correct for this configuration: the generated table is the list of routes
  declared in \<open>config/routes.def\<close>, stably sorted by event, so routes of one event keep their declared
  order, and no pair of event and target is declared twice.
\<close>

theorem route_table_is_sorted_routes_def:
  "k_ev_route_table_generated = sort_key rt_event_id routes_def
   \<and> distinct (map (\<lambda>r. (rt_event_id r, rt_target_actor r)) k_ev_route_table_generated)"
proof
  show "k_ev_route_table_generated = sort_key rt_event_id routes_def" by code_simp
  show "distinct (map (\<lambda>r. (rt_event_id r, rt_target_actor r)) k_ev_route_table_generated)"
    by code_simp
qed

end
