(* ===== verification/EvQueueSpec.thy ===== *)
theory EvQueueSpec
  imports EvPrelude
begin

text \<open>
  The queue contracts the framework's rings share. Every queue of the code is an implementation state
  with an abstraction \<open>contents\<close> to the list of pending elements, oldest first. \<open>bounded_queue\<close> states
  the removal side; \<open>bounded_fifo\<close> adds an insertion that refuses when it cannot store, \<open>lossy_ring\<close> one
  that evicts the oldest element instead. Mailboxes, the ingress ring, the trace ring and the
  network outbox interpret them.
\<close>

datatype 'a queue_op = Enq 'a | Deq

text \<open>
  A run of insertions and removals: the elements removed, the elements accepted, the final state.
\<close>

primrec queue_run ::
    "('q \<Rightarrow> 'a \<Rightarrow> bool \<times> 'q) \<Rightarrow> ('q \<Rightarrow> 'a option \<times> 'q) \<Rightarrow> 'a queue_op list \<Rightarrow> 'q
       \<Rightarrow> 'a list \<times> 'a list \<times> 'q" where
  "queue_run enq deq [] q = ([], [], q)"
| "queue_run enq deq (x # xs) q =
     (case x of
        Enq a \<Rightarrow> (let (ok, q1) = enq q a; (outs, accs, q2) = queue_run enq deq xs q1
                  in (outs, if ok then a # accs else accs, q2))
      | Deq \<Rightarrow> (let (r, q1) = deq q; (outs, accs, q2) = queue_run enq deq xs q1
                in (case r of None \<Rightarrow> outs | Some a \<Rightarrow> a # outs, accs, q2)))"

lemma keep_latest_snoc:
  assumes "0 < cap"
  shows "(if length (drop (length ys - cap) ys) < cap then drop (length ys - cap) ys
      else tl (drop (length ys - cap) ys)) @ [x] = drop (length (ys @ [x]) - cap) (ys @ [x])"
proof (cases "length ys < cap")
  case False
  then have "Suc (length ys) - cap = Suc (length ys - cap)" by simp
  then show ?thesis using False assms by (simp add: drop_Suc tl_drop)
qed simp

locale bounded_queue =
  fixes deq :: "'q \<Rightarrow> 'a option \<times> 'q"
    and contents :: "'q \<Rightarrow> 'a list"
    and inv :: "'q \<Rightarrow> bool"
    and cap :: nat
  assumes bounded: "inv q \<Longrightarrow> length (contents q) \<le> cap"
    and deq_inv: "inv q \<Longrightarrow> deq q = (r, q') \<Longrightarrow> inv q'"
    and deq_empty: "inv q \<Longrightarrow> contents q = [] \<Longrightarrow> deq q = (r, q') \<Longrightarrow> r = None \<and> contents q' = []"
    and deq_head: "inv q \<Longrightarrow> contents q = x # xs \<Longrightarrow> deq q = (r, q') \<Longrightarrow> r = Some x \<and> contents q' = xs"
begin

lemma deq_contents:
  "inv q \<Longrightarrow> deq q = (r, q') \<Longrightarrow> contents q = (case r of None \<Rightarrow> [] | Some x \<Rightarrow> [x]) @ contents q'"
  using deq_empty [of q r q'] deq_head [of q _ _ r q'] by (cases "contents q") auto

end

locale bounded_fifo = bounded_queue deq contents inv cap
  for deq :: "'q \<Rightarrow> 'a option \<times> 'q" and contents :: "'q \<Rightarrow> 'a list" and inv :: "'q \<Rightarrow> bool"
    and cap :: nat +
  fixes enq :: "'q \<Rightarrow> 'a \<Rightarrow> bool \<times> 'q"
  assumes enq_inv: "inv q \<Longrightarrow> enq q x = (ok, q') \<Longrightarrow> inv q'"
    and enq_accept: "inv q \<Longrightarrow> enq q x = (True, q') \<Longrightarrow> contents q' = contents q @ [x]"
    and enq_refuse: "inv q \<Longrightarrow> enq q x = (False, q') \<Longrightarrow> contents q' = contents q"
begin

text \<open>No loss, no duplication, no reordering, over any interleaving of insertions and removals.\<close>

lemma run_order:
  "inv q \<Longrightarrow> queue_run enq deq ops q = (outs, accs, q') \<Longrightarrow>
     outs @ contents q' = contents q @ accs \<and> inv q'"
proof (induction ops arbitrary: q outs accs q')
  case (Cons op ops)
  show ?case
  proof (cases op)
    case (Enq a)
    obtain ok q1 where e: "enq q a = (ok, q1)" by (cases "enq q a")
    obtain outs2 accs2 q2 where r: "queue_run enq deq ops q1 = (outs2, accs2, q2)"
      by (metis prod.collapse)
    have "contents q1 = contents q @ (if ok then [a] else [])"
      using enq_accept enq_refuse Cons.prems(1) e by (cases ok) auto
    then show ?thesis
      using Cons.IH [OF enq_inv [OF Cons.prems(1) e] r] Cons.prems(2) Enq e r by (auto split: if_splits)
  next
    case Deq
    obtain x q1 where d: "deq q = (x, q1)" by (cases "deq q")
    obtain outs2 accs2 q2 where r: "queue_run enq deq ops q1 = (outs2, accs2, q2)"
      by (metis prod.collapse)
    show ?thesis
      using Cons.IH [OF deq_inv [OF Cons.prems(1) d] r] deq_contents [OF Cons.prems(1) d]
        Cons.prems(2) Deq d r by (auto split: option.splits)
  qed
qed simp

lemma full_refuses: "inv q \<Longrightarrow> length (contents q) = cap \<Longrightarrow> enq q x = (ok, q') \<Longrightarrow> \<not> ok"
  using bounded [of q'] enq_inv [of q x ok q'] enq_accept [of q x q'] by auto

end

locale lossy_ring = bounded_queue deq contents inv cap
  for deq :: "'q \<Rightarrow> 'a option \<times> 'q" and contents :: "'q \<Rightarrow> 'a list" and inv :: "'q \<Rightarrow> bool"
    and cap :: nat +
  fixes push :: "'q \<Rightarrow> 'a \<Rightarrow> 'q" and storable :: "'a \<Rightarrow> bool"
  assumes cap_pos: "0 < cap"
    and push_inv: "inv q \<Longrightarrow> inv (push q x)"
    and push_contents: "inv q \<Longrightarrow> storable x \<Longrightarrow> contents (push q x)
          = (if length (contents q) < cap then contents q else tl (contents q)) @ [x]"
begin

text \<open>The ring keeps exactly the most recent \<open>cap\<close> elements, in order.\<close>

lemma push_all_keeps_latest:
  "inv q \<Longrightarrow> list_all storable xs \<Longrightarrow> inv (foldl push q xs) \<and> contents (foldl push q xs)
     = drop (length (contents q @ xs) - cap) (contents q @ xs)"
proof (induction xs rule: rev_induct)
  case Nil
  then show ?case using bounded [of q] by simp
next
  case (snoc x xs)
  let ?ys = "contents q @ xs"
  have IH: "inv (foldl push q xs)"
      "contents (foldl push q xs) = drop (length ?ys - cap) ?ys"
    using snoc by simp_all
  have x: "storable x" using snoc.prems by simp
  have "contents (foldl push q (xs @ [x])) = drop (length (?ys @ [x]) - cap) (?ys @ [x])"
    unfolding foldl_append foldl.simps push_contents [OF IH(1) x] IH(2)
    by (rule keep_latest_snoc [OF cap_pos])
  then show ?case using push_inv [OF IH(1), of x] by simp
qed

end

end
