(* ===== verification/EvMsg.thy ===== *)
theory EvMsg
  imports EvCatalog "HOL-Library.Multiset"
begin

text \<open>
  The runtime envelope (\<open>core/include/ev/msg.h\<close>, \<open>core/src/ev_msg.c\<close>, \<open>core/src/ev_dispose.c\<close>): its
  constructors, the payload contract checked against the event catalog, and the retain and release
  of externally owned payloads. The payload callbacks are code the message only points to, so they
  are a parameter: a record of two functions that act on the state \<open>'w\<close> the payload owner keeps.
  The interface every owner must provide is the locale \<open>payload_owner\<close>; the lease pool
  interprets it.
\<close>

section \<open>The envelope\<close>

datatype ev_msg_storage =
    EV_MSG_STORAGE_NONE
  | EV_MSG_STORAGE_INLINE
  | EV_MSG_STORAGE_EXTERNAL

text \<open>
  Function pointers of a message are names of functions: the two callbacks of the lease pool, or a
  callback of an application.
\<close>

datatype ev_msg_retain_fn = ev_lease_pool_retain_from_slot_fn | app_retain_fn nat
datatype ev_msg_release_fn = ev_lease_pool_release_from_slot_fn | app_release_fn nat

record ev_msg_external_payload =
  ext_data :: ptr
  ext_size :: nat
  ext_retain_fn :: "ev_msg_retain_fn option"
  ext_release_fn :: "ev_msg_release_fn option"
  ext_lifecycle_ctx :: ptr

text \<open>
  The payload union is modelled by both of its views. The storage tag says which one is read, and
  the code zeroes the whole union before it writes either, so the views never disagree with C.
\<close>

record ev_msg =
  msg_cookie :: u32
  msg_event_id :: ev_event_id
  msg_source_actor :: ev_actor_id
  msg_target_actor :: ev_actor_id
  msg_flags :: u32
  msg_storage :: ev_msg_storage
  msg_payload_size :: nat
  msg_inline_bytes :: "u8 list"
  msg_external :: ev_msg_external_payload

abbreviation EV_MSG_INLINE_CAPACITY :: nat where "EV_MSG_INLINE_CAPACITY \<equiv> 24"
abbreviation EV_MSG_COOKIE :: u32 where "EV_MSG_COOKIE \<equiv> 0x45564D53"
abbreviation EV_MSG_F_DISPOSED :: u32 where "EV_MSG_F_DISPOSED \<equiv> 1"

definition zero_inline :: "u8 list" where
  "zero_inline = replicate EV_MSG_INLINE_CAPACITY 0"

definition zero_external :: ev_msg_external_payload where
  "zero_external = \<lparr>ext_data = None, ext_size = 0, ext_retain_fn = None, ext_release_fn = None,
     ext_lifecycle_ctx = None\<rparr>"

text \<open>\<open>EV_MSG_INITIALIZER\<close>, and what \<open>memset\<close> to zero leaves.\<close>

definition zero_msg :: ev_msg where
  "zero_msg = \<lparr>msg_cookie = 0, msg_event_id = 0, msg_source_actor = 0, msg_target_actor = 0,
     msg_flags = 0, msg_storage = EV_MSG_STORAGE_NONE, msg_payload_size = 0,
     msg_inline_bytes = zero_inline, msg_external = zero_external\<rparr>"

definition clear_payload :: "ev_msg \<Rightarrow> ev_msg" where
  "clear_payload m = m\<lparr>msg_inline_bytes := zero_inline, msg_external := zero_external\<rparr>"

section \<open>Payload callbacks\<close>

record 'w ev_lifecycle =
  lc_retain :: "ev_msg_retain_fn \<Rightarrow> ptr \<Rightarrow> ptr \<Rightarrow> nat \<Rightarrow> 'w \<Rightarrow> ev_result \<times> 'w"
  lc_release :: "ev_msg_release_fn \<Rightarrow> ptr \<Rightarrow> ptr \<Rightarrow> nat \<Rightarrow> 'w \<Rightarrow> 'w"

section \<open>Operations\<close>

definition ev_msg_has_cookie :: "ev_msg \<Rightarrow> bool" where
  "ev_msg_has_cookie m \<longleftrightarrow> msg_cookie m = EV_MSG_COOKIE"

definition ev_payload_kind_allows_inline :: "ev_payload_kind \<Rightarrow> bool" where
  "ev_payload_kind_allows_inline k \<longleftrightarrow> k = EV_PAYLOAD_INLINE \<or> k = EV_PAYLOAD_COPY_FIXED"

definition ev_payload_kind_allows_external :: "ev_payload_kind \<Rightarrow> bool" where
  "ev_payload_kind_allows_external k \<longleftrightarrow> k = EV_PAYLOAD_LEASE \<or> k = EV_PAYLOAD_STREAM_VIEW"

definition ev_msg_is_disposed :: "ev_msg \<Rightarrow> bool" where
  "ev_msg_is_disposed m \<longleftrightarrow> ev_msg_has_cookie m \<and> msg_flags m AND EV_MSG_F_DISPOSED \<noteq> 0"

text \<open>The owner's release callback runs for a non-empty external payload that has one.\<close>

definition call_release :: "'w ev_lifecycle \<Rightarrow> ev_msg \<Rightarrow> 'w \<Rightarrow> 'w" where
  "call_release lc m w =
     (if msg_storage m = EV_MSG_STORAGE_EXTERNAL \<and> 0 < msg_payload_size m
      then case ext_release_fn (msg_external m) of
             None \<Rightarrow> w
           | Some fn \<Rightarrow> lc_release lc fn (ext_lifecycle_ctx (msg_external m))
                          (ext_data (msg_external m)) (msg_payload_size m) w
      else w)"

definition ev_msg_release_attached_payload ::
    "'w ev_lifecycle \<Rightarrow> ev_msg \<Rightarrow> 'w \<Rightarrow> ev_result \<times> ev_msg \<times> 'w" where
  "ev_msg_release_attached_payload lc m w =
     (EV_OK,
      (clear_payload m)\<lparr>msg_payload_size := 0, msg_storage := EV_MSG_STORAGE_NONE\<rparr>,
      call_release lc m w)"

definition ev_msg_reset :: "ev_msg option \<Rightarrow> ev_msg option" where
  "ev_msg_reset pm = (case pm of None \<Rightarrow> None | Some _ \<Rightarrow> Some (zero_msg\<lparr>msg_cookie := EV_MSG_COOKIE\<rparr>))"

definition ev_msg_init_publish ::
    "ev_msg option \<Rightarrow> ev_event_id \<Rightarrow> ev_actor_id \<Rightarrow> ev_result \<times> ev_msg option" where
  "ev_msg_init_publish pm event_id source_actor =
     (case pm of None \<Rightarrow> (EV_ERR_INVALID_ARG, None)
      | Some m \<Rightarrow>
        if \<not> ev_event_id_is_valid event_id \<or> \<not> ev_actor_id_is_valid source_actor
        then (EV_ERR_OUT_OF_RANGE, Some m)
        else (EV_OK, map_option (\<lambda>m. m\<lparr>msg_event_id := event_id, msg_source_actor := source_actor,
                msg_target_actor := EV_ACTOR_NONE\<rparr>) (ev_msg_reset (Some m))))"

definition ev_msg_init_send ::
    "ev_msg option \<Rightarrow> ev_event_id \<Rightarrow> ev_actor_id \<Rightarrow> ev_actor_id \<Rightarrow> ev_result \<times> ev_msg option" where
  "ev_msg_init_send pm event_id source_actor target_actor =
     (case pm of None \<Rightarrow> (EV_ERR_INVALID_ARG, None)
      | Some m \<Rightarrow>
        if target_actor = EV_ACTOR_NONE \<or> \<not> ev_event_id_is_valid event_id
           \<or> \<not> ev_actor_id_is_valid source_actor \<or> \<not> ev_actor_id_is_valid target_actor
        then (EV_ERR_OUT_OF_RANGE, Some m)
        else (EV_OK, map_option (\<lambda>m. m\<lparr>msg_event_id := event_id, msg_source_actor := source_actor,
                msg_target_actor := target_actor\<rparr>) (ev_msg_reset (Some m))))"

definition ev_msg_payload_kind :: "ev_msg option \<Rightarrow> ev_payload_kind" where
  "ev_msg_payload_kind pm =
     (case pm of None \<Rightarrow> EV_PAYLOAD_INLINE
      | Some m \<Rightarrow> (case ev_event_meta (msg_event_id m) of
                    Some meta \<Rightarrow> evm_payload_kind meta | None \<Rightarrow> EV_PAYLOAD_INLINE))"

text \<open>The source bytes are an optional list: \<open>None\<close> is a \<open>NULL\<close> data pointer.\<close>

definition ev_msg_set_inline_payload ::
    "'w ev_lifecycle \<Rightarrow> ev_msg option \<Rightarrow> u8 list option \<Rightarrow> nat \<Rightarrow> 'w \<Rightarrow> ev_result \<times> ev_msg option \<times> 'w" where
  "ev_msg_set_inline_payload lc pm data sz w =
     (case pm of None \<Rightarrow> (EV_ERR_INVALID_ARG, None, w)
      | Some m \<Rightarrow>
        if \<not> ev_msg_has_cookie m then (EV_ERR_STATE, Some m, w)
        else if ev_msg_is_disposed m then (EV_ERR_STATE, Some m, w)
        else if 0 < sz \<and> data = None then (EV_ERR_INVALID_ARG, Some m, w)
        else if EV_MSG_INLINE_CAPACITY < sz then (EV_ERR_OUT_OF_RANGE, Some m, w)
        else case ev_event_meta (msg_event_id m) of
          None \<Rightarrow> (EV_ERR_OUT_OF_RANGE, Some m, w)
        | Some meta \<Rightarrow>
            if \<not> ev_payload_kind_allows_inline (evm_payload_kind meta)
            then (EV_ERR_CONTRACT, Some m, w)
            else
              let (rc, m1, w1) = ev_msg_release_attached_payload lc m w
              in if rc \<noteq> EV_OK then (rc, Some m1, w1)
                 else
                   let m2 = clear_payload m1;
                       m3 = (if 0 < sz
                             then m2\<lparr>msg_inline_bytes := take sz (the data) @ drop sz zero_inline,
                                     msg_storage := EV_MSG_STORAGE_INLINE\<rparr>
                             else m2\<lparr>msg_storage := EV_MSG_STORAGE_NONE\<rparr>)
                   in (EV_OK, Some (m3\<lparr>msg_payload_size := sz\<rparr>), w1))"

definition ev_msg_set_external_payload ::
    "'w ev_lifecycle \<Rightarrow> ev_msg option \<Rightarrow> ptr \<Rightarrow> nat \<Rightarrow> ev_msg_retain_fn option
       \<Rightarrow> ev_msg_release_fn option \<Rightarrow> ptr \<Rightarrow> 'w \<Rightarrow> ev_result \<times> ev_msg option \<times> 'w" where
  "ev_msg_set_external_payload lc pm data sz retain_fn release_fn lifecycle_ctx w =
     (case pm of None \<Rightarrow> (EV_ERR_INVALID_ARG, None, w)
      | Some m \<Rightarrow>
        if \<not> ev_msg_has_cookie m then (EV_ERR_STATE, Some m, w)
        else if ev_msg_is_disposed m then (EV_ERR_STATE, Some m, w)
        else if 0 < sz \<and> data = None then (EV_ERR_INVALID_ARG, Some m, w)
        else case ev_event_meta (msg_event_id m) of
          None \<Rightarrow> (EV_ERR_OUT_OF_RANGE, Some m, w)
        | Some meta \<Rightarrow>
            if \<not> ev_payload_kind_allows_external (evm_payload_kind meta)
            then (EV_ERR_CONTRACT, Some m, w)
            else if evm_payload_kind meta = EV_PAYLOAD_LEASE \<and> 0 < sz
                    \<and> (retain_fn = None \<or> release_fn = None)
            then (EV_ERR_CONTRACT, Some m, w)
            else if evm_payload_kind meta = EV_PAYLOAD_STREAM_VIEW
                    \<and> (retain_fn \<noteq> None \<or> release_fn \<noteq> None \<or> lifecycle_ctx \<noteq> None)
            then (EV_ERR_CONTRACT, Some m, w)
            else
              let (rc, m1, w1) = ev_msg_release_attached_payload lc m w
              in if rc \<noteq> EV_OK then (rc, Some m1, w1)
                 else
                   let m2 = clear_payload m1;
                       m3 = (if 0 < sz
                             then m2\<lparr>msg_storage := EV_MSG_STORAGE_EXTERNAL,
                                     msg_external := \<lparr>ext_data = data, ext_size = sz,
                                       ext_retain_fn = retain_fn, ext_release_fn = release_fn,
                                       ext_lifecycle_ctx = lifecycle_ctx\<rparr>\<rparr>
                             else m2\<lparr>msg_storage := EV_MSG_STORAGE_NONE\<rparr>)
                   in (EV_OK, Some (m3\<lparr>msg_payload_size := sz\<rparr>), w1))"

definition ev_msg_retain :: "'w ev_lifecycle \<Rightarrow> ev_msg option \<Rightarrow> 'w \<Rightarrow> ev_result \<times> 'w" where
  "ev_msg_retain lc pm w =
     (case pm of None \<Rightarrow> (EV_ERR_INVALID_ARG, w)
      | Some m \<Rightarrow>
        if \<not> ev_msg_has_cookie m then (EV_ERR_STATE, w)
        else case ev_event_meta (msg_event_id m) of
          None \<Rightarrow> (EV_ERR_OUT_OF_RANGE, w)
        | Some meta \<Rightarrow>
            if msg_storage m \<noteq> EV_MSG_STORAGE_EXTERNAL \<or> msg_payload_size m = 0 then (EV_OK, w)
            else case evm_payload_kind meta of
                EV_PAYLOAD_LEASE \<Rightarrow>
                  (case ext_retain_fn (msg_external m) of
                     None \<Rightarrow> (EV_ERR_UNSUPPORTED, w)
                   | Some fn \<Rightarrow> lc_retain lc fn (ext_lifecycle_ctx (msg_external m))
                                  (ext_data (msg_external m)) (msg_payload_size m) w)
              | EV_PAYLOAD_STREAM_VIEW \<Rightarrow> (EV_ERR_UNSUPPORTED, w)
              | _ \<Rightarrow> (EV_ERR_CONTRACT, w))"

definition ev_msg_validate :: "ev_msg option \<Rightarrow> ev_result" where
  "ev_msg_validate pm =
     (case pm of None \<Rightarrow> EV_ERR_INVALID_ARG
      | Some m \<Rightarrow>
        if \<not> ev_msg_has_cookie m then EV_ERR_STATE
        else if ev_msg_is_disposed m then EV_ERR_STATE
        else if \<not> ev_event_id_is_valid (msg_event_id m) \<or> \<not> ev_actor_id_is_valid (msg_source_actor m)
        then EV_ERR_OUT_OF_RANGE
        else if msg_target_actor m \<noteq> EV_ACTOR_NONE \<and> \<not> ev_actor_id_is_valid (msg_target_actor m)
        then EV_ERR_OUT_OF_RANGE
        else if msg_storage m = EV_MSG_STORAGE_NONE \<and> msg_payload_size m \<noteq> 0 then EV_ERR_CONTRACT
        else if msg_storage m \<noteq> EV_MSG_STORAGE_NONE \<and> msg_payload_size m = 0 then EV_ERR_CONTRACT
        else case ev_event_meta (msg_event_id m) of
          None \<Rightarrow> EV_ERR_OUT_OF_RANGE
        | Some meta \<Rightarrow>
          (let x = msg_external m;
               inline_check =
                 (if msg_storage m = EV_MSG_STORAGE_EXTERNAL then EV_ERR_CONTRACT
                  else if EV_MSG_INLINE_CAPACITY < msg_payload_size m then EV_ERR_OUT_OF_RANGE
                  else EV_OK)
           in case evm_payload_kind meta of
               EV_PAYLOAD_INLINE \<Rightarrow> inline_check
             | EV_PAYLOAD_COPY_FIXED \<Rightarrow> inline_check
             | EV_PAYLOAD_LEASE \<Rightarrow>
                 (if msg_storage m = EV_MSG_STORAGE_INLINE then EV_ERR_CONTRACT
                  else if msg_storage m = EV_MSG_STORAGE_EXTERNAL \<and> 0 < msg_payload_size m
                     \<and> (ext_data x = None \<or> ext_size x \<noteq> msg_payload_size m
                        \<or> ext_retain_fn x = None \<or> ext_release_fn x = None)
                  then EV_ERR_CONTRACT else EV_OK)
             | EV_PAYLOAD_STREAM_VIEW \<Rightarrow>
                 (if msg_storage m = EV_MSG_STORAGE_INLINE then EV_ERR_CONTRACT
                  else if msg_storage m = EV_MSG_STORAGE_EXTERNAL
                     \<and> (ext_retain_fn x \<noteq> None \<or> ext_release_fn x \<noteq> None
                        \<or> ext_lifecycle_ctx x \<noteq> None)
                  then EV_ERR_CONTRACT
                  else if msg_storage m = EV_MSG_STORAGE_EXTERNAL \<and> 0 < msg_payload_size m
                     \<and> (ext_data x = None \<or> ext_size x \<noteq> msg_payload_size m)
                  then EV_ERR_CONTRACT else EV_OK)
             | EV_PAYLOAD_KIND_OTHER _ \<Rightarrow> EV_ERR_CONTRACT))"

text \<open>A payload pointer leads into the message itself or to external storage.\<close>

datatype ev_payload_ref = Inline_bytes "u8 list" | External_at nat

definition ev_msg_payload_data :: "ev_msg option \<Rightarrow> ev_payload_ref option" where
  "ev_msg_payload_data pm =
     (case pm of None \<Rightarrow> None
      | Some m \<Rightarrow> (case msg_storage m of
            EV_MSG_STORAGE_INLINE \<Rightarrow> Some (Inline_bytes (msg_inline_bytes m))
          | EV_MSG_STORAGE_EXTERNAL \<Rightarrow> map_option External_at (ext_data (msg_external m))
          | EV_MSG_STORAGE_NONE \<Rightarrow> None))"

definition ev_msg_payload_size :: "ev_msg option \<Rightarrow> nat" where
  "ev_msg_payload_size pm = (case pm of None \<Rightarrow> 0 | Some m \<Rightarrow> msg_payload_size m)"

definition ev_msg_payload_is_inline_contract :: "ev_msg option \<Rightarrow> bool" where
  "ev_msg_payload_is_inline_contract pm \<longleftrightarrow>
     (let kind = ev_msg_payload_kind pm in kind = EV_PAYLOAD_INLINE \<or> kind = EV_PAYLOAD_COPY_FIXED)"

definition ev_msg_payload_is_lease_contract :: "ev_msg option \<Rightarrow> bool" where
  "ev_msg_payload_is_lease_contract pm \<longleftrightarrow> ev_msg_payload_kind pm = EV_PAYLOAD_LEASE"

definition ev_msg_payload_is_stream_view_contract :: "ev_msg option \<Rightarrow> bool" where
  "ev_msg_payload_is_stream_view_contract pm \<longleftrightarrow> ev_msg_payload_kind pm = EV_PAYLOAD_STREAM_VIEW"

definition ev_msg_payload_is_zero_copy_contract :: "ev_msg option \<Rightarrow> bool" where
  "ev_msg_payload_is_zero_copy_contract pm \<longleftrightarrow>
     (let kind = ev_msg_payload_kind pm in kind = EV_PAYLOAD_LEASE \<or> kind = EV_PAYLOAD_STREAM_VIEW)"

definition ev_msg_payload_requires_release :: "ev_msg option \<Rightarrow> bool" where
  "ev_msg_payload_requires_release pm =
     (case pm of None \<Rightarrow> False
      | Some m \<Rightarrow> msg_storage m = EV_MSG_STORAGE_EXTERNAL \<and> 0 < msg_payload_size m
                  \<and> ext_release_fn (msg_external m) \<noteq> None)"

definition ev_msg_validate_payload_contract :: "ev_msg option \<Rightarrow> ev_result" where
  "ev_msg_validate_payload_contract pm = ev_msg_validate pm"

definition ev_msg_dispose :: "'w ev_lifecycle \<Rightarrow> ev_msg option \<Rightarrow> 'w \<Rightarrow> ev_result \<times> ev_msg option \<times> 'w" where
  "ev_msg_dispose lc pm w =
     (case pm of None \<Rightarrow> (EV_ERR_INVALID_ARG, None, w)
      | Some m \<Rightarrow>
        if msg_cookie m \<noteq> EV_MSG_COOKIE
        then (EV_OK, map_option (\<lambda>m. m\<lparr>msg_flags := msg_flags m OR EV_MSG_F_DISPOSED\<rparr>)
                       (ev_msg_reset (Some m)), w)
        else if ev_msg_is_disposed m then (EV_OK, Some m, w)
        else (EV_OK,
              Some ((clear_payload m)\<lparr>msg_payload_size := 0, msg_storage := EV_MSG_STORAGE_NONE,
                      msg_flags := msg_flags m OR EV_MSG_F_DISPOSED\<rparr>),
              call_release lc m w))"

section \<open>What validation guarantees\<close>

text \<open>
  The declarative reading of the validator: known ids, a storage tag that agrees with the size, and
  the attachment the event's payload kind allows.
\<close>

fun payload_contract :: "ev_payload_kind \<Rightarrow> ev_msg \<Rightarrow> bool" where
  "payload_contract EV_PAYLOAD_INLINE m \<longleftrightarrow>
     msg_storage m \<noteq> EV_MSG_STORAGE_EXTERNAL \<and> msg_payload_size m \<le> EV_MSG_INLINE_CAPACITY"
| "payload_contract EV_PAYLOAD_COPY_FIXED m \<longleftrightarrow>
     msg_storage m \<noteq> EV_MSG_STORAGE_EXTERNAL \<and> msg_payload_size m \<le> EV_MSG_INLINE_CAPACITY"
| "payload_contract EV_PAYLOAD_LEASE m \<longleftrightarrow>
     msg_storage m \<noteq> EV_MSG_STORAGE_INLINE
     \<and> (msg_storage m = EV_MSG_STORAGE_EXTERNAL \<longrightarrow>
          ext_data (msg_external m) \<noteq> None \<and> ext_size (msg_external m) = msg_payload_size m
          \<and> ext_retain_fn (msg_external m) \<noteq> None \<and> ext_release_fn (msg_external m) \<noteq> None)"
| "payload_contract EV_PAYLOAD_STREAM_VIEW m \<longleftrightarrow>
     msg_storage m \<noteq> EV_MSG_STORAGE_INLINE
     \<and> (msg_storage m = EV_MSG_STORAGE_EXTERNAL \<longrightarrow>
          ext_data (msg_external m) \<noteq> None \<and> ext_size (msg_external m) = msg_payload_size m
          \<and> ext_retain_fn (msg_external m) = None \<and> ext_release_fn (msg_external m) = None
          \<and> ext_lifecycle_ctx (msg_external m) = None)"
| "payload_contract (EV_PAYLOAD_KIND_OTHER _) m \<longleftrightarrow> False"

definition msg_well_formed :: "ev_msg \<Rightarrow> bool" where
  "msg_well_formed m \<longleftrightarrow>
     ev_msg_has_cookie m \<and> \<not> ev_msg_is_disposed m
     \<and> ev_event_id_is_valid (msg_event_id m) \<and> ev_actor_id_is_valid (msg_source_actor m)
     \<and> (msg_target_actor m = EV_ACTOR_NONE \<or> ev_actor_id_is_valid (msg_target_actor m))
     \<and> (msg_storage m = EV_MSG_STORAGE_NONE \<longleftrightarrow> msg_payload_size m = 0)
     \<and> payload_contract (ev_msg_payload_kind (Some m)) m"

lemma ev_msg_validate_OK_iff: "ev_msg_validate (Some m) = EV_OK \<longleftrightarrow> msg_well_formed m"
proof (cases "ev_event_meta (msg_event_id m)")
  case None
  then show ?thesis
    by (simp add: ev_msg_validate_def msg_well_formed_def ev_event_id_is_valid_def)
next
  case (Some meta)
  show ?thesis
  proof (cases "evm_payload_kind meta")
    case EV_PAYLOAD_INLINE
    with Some show ?thesis
      by (simp add: ev_msg_validate_def msg_well_formed_def ev_msg_payload_kind_def Let_def
          ev_event_id_is_valid_def not_less)
  next
    case EV_PAYLOAD_COPY_FIXED
    with Some show ?thesis
      by (simp add: ev_msg_validate_def msg_well_formed_def ev_msg_payload_kind_def Let_def
          ev_event_id_is_valid_def not_less)
  next
    case EV_PAYLOAD_LEASE
    with Some show ?thesis
      by (simp add: ev_msg_validate_def msg_well_formed_def ev_msg_payload_kind_def Let_def
          ev_event_id_is_valid_def)
  next
    case EV_PAYLOAD_STREAM_VIEW
    with Some show ?thesis
      by (simp add: ev_msg_validate_def msg_well_formed_def ev_msg_payload_kind_def Let_def
          ev_event_id_is_valid_def)
  next
    case (EV_PAYLOAD_KIND_OTHER x)
    with Some show ?thesis
      by (simp add: ev_msg_validate_def msg_well_formed_def ev_msg_payload_kind_def Let_def)
  qed
qed

lemmas ev_msg_validate_OK_D = ev_msg_validate_OK_iff [THEN iffD1, unfolded msg_well_formed_def]

text \<open>
  Only leases travel as external payloads: a valid message with external storage belongs to an event
  of kind lease and carries both callbacks and a non-empty payload of the recorded size.
\<close>

lemma ev_msg_validate_external:
  assumes ok: "ev_msg_validate (Some m) = EV_OK" and ext: "msg_storage m = EV_MSG_STORAGE_EXTERNAL"
  obtains meta rf lf d where "ev_event_meta (msg_event_id m) = Some meta"
    and "evm_payload_kind meta = EV_PAYLOAD_LEASE"
    and "ext_retain_fn (msg_external m) = Some rf" and "ext_release_fn (msg_external m) = Some lf"
    and "ext_data (msg_external m) = Some d" and "ext_size (msg_external m) = msg_payload_size m"
    and "0 < msg_payload_size m"
proof -
  have wf: "msg_well_formed m" using ok by (simp add: ev_msg_validate_OK_iff)
  obtain meta where meta: "ev_event_meta (msg_event_id m) = Some meta"
    using wf by (auto simp: msg_well_formed_def ev_event_id_is_valid_def)
  have pk: "payload_contract (evm_payload_kind meta) m" and pos: "0 < msg_payload_size m"
    using wf meta ext by (simp_all add: msg_well_formed_def ev_msg_payload_kind_def)
  have "evm_payload_kind meta = EV_PAYLOAD_LEASE"
    using pk ext event_catalog_payload_kinds [OF ev_event_meta_SomeD [OF meta]] by auto
  with pk ext meta pos that show thesis by auto
qed

lemma not_disposed_flags: "ev_msg_has_cookie m \<Longrightarrow> \<not> ev_msg_is_disposed m \<longleftrightarrow> msg_flags m AND 1 = 0"
  by (simp add: ev_msg_is_disposed_def)

section \<open>Building a message\<close>

lemma ev_msg_init_send_OK:
  assumes "ev_msg_init_send pm e s t = (EV_OK, pm')"
  shows "pm' = Some (zero_msg\<lparr>msg_cookie := EV_MSG_COOKIE, msg_event_id := e, msg_source_actor := s,
           msg_target_actor := t\<rparr>)"
    and "ev_event_id_is_valid e" and "ev_actor_id_is_valid s" and "ev_actor_id_is_valid t"
  using assms by (auto simp: ev_msg_init_send_def ev_msg_reset_def split: option.splits if_splits)

lemma ev_msg_init_publish_OK:
  assumes "ev_msg_init_publish pm e s = (EV_OK, pm')"
  shows "pm' = Some (zero_msg\<lparr>msg_cookie := EV_MSG_COOKIE, msg_event_id := e, msg_source_actor := s,
           msg_target_actor := EV_ACTOR_NONE\<rparr>)"
    and "ev_event_id_is_valid e" and "ev_actor_id_is_valid s"
  using assms by (auto simp: ev_msg_init_publish_def ev_msg_reset_def split: option.splits if_splits)

text \<open>An empty envelope for known ids is valid whatever payload kind its event declares.\<close>

lemma validate_empty_envelope:
  assumes "ev_event_id_is_valid e" and "ev_actor_id_is_valid s"
    and "t = EV_ACTOR_NONE \<or> ev_actor_id_is_valid t"
  shows "ev_msg_validate (Some (zero_msg\<lparr>msg_cookie := EV_MSG_COOKIE, msg_event_id := e,
           msg_source_actor := s, msg_target_actor := t\<rparr>)) = EV_OK"
proof -
  obtain meta where meta: "ev_event_meta e = Some meta"
    using assms(1) by (auto simp: ev_event_id_is_valid_def)
  show ?thesis
    using assms meta event_catalog_payload_kinds [OF ev_event_meta_SomeD [OF meta]]
    by (auto simp: ev_msg_validate_OK_iff msg_well_formed_def ev_msg_payload_kind_def
        ev_msg_has_cookie_def ev_msg_is_disposed_def zero_msg_def)
qed

lemma ev_msg_set_inline_cases:
  assumes "ev_msg_set_inline_payload lc (Some m) data sz w = (rc, pm', w')"
  obtains "rc \<noteq> EV_OK" and "pm' = Some m" and "w' = w"
    | meta where "rc = EV_OK" and "ev_event_meta (msg_event_id m) = Some meta"
      and "ev_payload_kind_allows_inline (evm_payload_kind meta)" and "sz \<le> EV_MSG_INLINE_CAPACITY"
      and "ev_msg_has_cookie m" and "\<not> ev_msg_is_disposed m" and "0 < sz \<longrightarrow> data \<noteq> None"
      and "pm' = Some ((clear_payload m)
             \<lparr>msg_storage := (if 0 < sz then EV_MSG_STORAGE_INLINE else EV_MSG_STORAGE_NONE),
              msg_inline_bytes := (if 0 < sz then take sz (the data) @ drop sz zero_inline
                                   else zero_inline),
              msg_payload_size := sz\<rparr>)"
      and "w' = call_release lc m w"
  using assms that
  by (auto simp: ev_msg_set_inline_payload_def ev_msg_release_attached_payload_def Let_def
      clear_payload_def split: if_splits option.splits)

lemma ev_msg_set_external_cases:
  assumes "ev_msg_set_external_payload lc (Some m) data sz rf lf ctx w = (rc, pm', w')"
  obtains "rc \<noteq> EV_OK" and "pm' = Some m" and "w' = w"
    | meta where "rc = EV_OK" and "ev_event_meta (msg_event_id m) = Some meta"
      and "ev_payload_kind_allows_external (evm_payload_kind meta)"
      and "evm_payload_kind meta = EV_PAYLOAD_LEASE \<longrightarrow> 0 < sz \<longrightarrow> rf \<noteq> None \<and> lf \<noteq> None"
      and "evm_payload_kind meta = EV_PAYLOAD_STREAM_VIEW \<longrightarrow> rf = None \<and> lf = None \<and> ctx = None"
      and "ev_msg_has_cookie m" and "\<not> ev_msg_is_disposed m" and "0 < sz \<longrightarrow> data \<noteq> None"
      and "pm' = Some ((clear_payload m)
             \<lparr>msg_storage := (if 0 < sz then EV_MSG_STORAGE_EXTERNAL else EV_MSG_STORAGE_NONE),
              msg_external := (if 0 < sz then \<lparr>ext_data = data, ext_size = sz, ext_retain_fn = rf,
                  ext_release_fn = lf, ext_lifecycle_ctx = ctx\<rparr> else zero_external),
              msg_payload_size := sz\<rparr>)"
      and "w' = call_release lc m w"
  using assms that
  by (auto simp: ev_msg_set_external_payload_def ev_msg_release_attached_payload_def Let_def
      clear_payload_def split: if_splits option.splits)

lemma clear_payload_fields [simp]:
  "msg_cookie (clear_payload m) = msg_cookie m" "msg_event_id (clear_payload m) = msg_event_id m"
  "msg_source_actor (clear_payload m) = msg_source_actor m"
  "msg_target_actor (clear_payload m) = msg_target_actor m"
  "msg_flags (clear_payload m) = msg_flags m" "msg_storage (clear_payload m) = msg_storage m"
  "msg_payload_size (clear_payload m) = msg_payload_size m"
  "msg_inline_bytes (clear_payload m) = zero_inline" "msg_external (clear_payload m) = zero_external"
  by (simp_all add: clear_payload_def)

lemma set_inline_valid:
  assumes "ev_msg_validate (Some m) = EV_OK"
    and "ev_msg_set_inline_payload lc (Some m) data sz w = (rc, Some m', w')"
  shows "ev_msg_validate (Some m') = EV_OK"
  using assms(2)
proof (cases rule: ev_msg_set_inline_cases)
  case 1
  then show ?thesis using assms(1) by simp
next
  case (2 meta)
  then have "payload_contract (evm_payload_kind meta) m'"
    by (auto simp: ev_payload_kind_allows_inline_def)
  with 2 show ?thesis
    using ev_msg_validate_OK_D [OF assms(1)]
    by (simp add: ev_msg_validate_OK_iff msg_well_formed_def ev_msg_has_cookie_def
        ev_msg_is_disposed_def ev_msg_payload_kind_def)
qed

lemma set_external_valid:
  assumes "ev_msg_validate (Some m) = EV_OK"
    and "ev_msg_set_external_payload lc (Some m) data sz rf lf ctx w = (rc, Some m', w')"
  shows "ev_msg_validate (Some m') = EV_OK"
  using assms(2)
proof (cases rule: ev_msg_set_external_cases)
  case 1
  then show ?thesis using assms(1) by simp
next
  case (2 meta)
  then have "payload_contract (evm_payload_kind meta) m'"
    by (auto simp: ev_payload_kind_allows_external_def)
  with 2 show ?thesis
    using ev_msg_validate_OK_D [OF assms(1)]
    by (simp add: ev_msg_validate_OK_iff msg_well_formed_def ev_msg_has_cookie_def
        ev_msg_is_disposed_def ev_msg_payload_kind_def)
qed

text \<open>
  Validity is an invariant of the message API. A payload setter applied to a valid message
  leaves a valid message on every path, whether it attaches inline bytes, attaches an external
  payload or refuses with an error code.
\<close>

theorem payload_setters_keep_valid:
  assumes "ev_msg_validate (Some m) = EV_OK"
    and "ev_msg_set_inline_payload lc (Some m) data sz w = (rc, Some m', w')
         \<or> ev_msg_set_external_payload lc (Some m) addr sz rf lf ctx w = (rc, Some m', w')"
  shows "ev_msg_validate (Some m') = EV_OK"
  using assms(2)
  by (elim disjE) (erule set_inline_valid [OF assms(1)], erule set_external_valid [OF assms(1)])

definition no_lifecycle :: "unit ev_lifecycle" where
  "no_lifecycle = \<lparr>lc_retain = (\<lambda>fn ctx p n w. (EV_OK, w)), lc_release = (\<lambda>fn ctx p n w. w)\<rparr>"

definition tick_msg :: ev_msg where
  "tick_msg = zero_msg\<lparr>msg_cookie := EV_MSG_COOKIE, msg_event_id := EV_TICK_1S,
     msg_source_actor := ACT_RUNTIME, msg_target_actor := ACT_APP\<rparr>"

theorem payload_setters_keep_valid_witness:
  "ev_msg_validate (Some tick_msg) = EV_OK
   \<and> (\<exists>m'. ev_msg_set_inline_payload no_lifecycle (Some tick_msg) (Some [1, 2, 3]) 2 ()
             = (EV_OK, Some m', ())
           \<and> msg_storage m' = EV_MSG_STORAGE_INLINE \<and> ev_msg_validate (Some m') = EV_OK)"
proof -
  have v: "ev_msg_validate (Some tick_msg) = EV_OK" by code_simp
  obtain m' where m': "ev_msg_set_inline_payload no_lifecycle (Some tick_msg) (Some [1, 2, 3]) 2 ()
      = (EV_OK, Some m', ())" and st: "msg_storage m' = EV_MSG_STORAGE_INLINE"
  proof -
    let ?r = "ev_msg_set_inline_payload no_lifecycle (Some tick_msg) (Some [1, 2, 3]) 2 ()"
    have "fst ?r = EV_OK \<and> map_option msg_storage (fst (snd ?r)) = Some EV_MSG_STORAGE_INLINE"
      by code_simp
    then show thesis
      using that by (cases ?r) (auto simp: map_option_eq_Some)
  qed
  show ?thesis
    using v m' st payload_setters_keep_valid [OF v disjI1 [OF m']] by auto
qed

text \<open>
  Inline payloads round-trip. When \<open>ev_msg_set_inline_payload\<close> accepts \<open>sz\<close> bytes, the payload
  accessors give back that size and, for a non-empty payload, a buffer of exactly the inline capacity
  whose first \<open>sz\<close> bytes are the bytes that were attached and whose rest is zero.
\<close>

theorem inline_payload_roundtrip:
  assumes "ev_msg_set_inline_payload lc (Some m) (Some bytes) sz w = (EV_OK, pm', w')"
    and "sz \<le> length bytes"
  shows "ev_msg_payload_size pm' = sz
    \<and> (0 < sz \<longrightarrow> ev_msg_payload_data pm'
      = Some (Inline_bytes (take sz bytes @ replicate (EV_MSG_INLINE_CAPACITY - sz) 0)))"
proof (intro conjI)
  show "ev_msg_payload_size pm' = sz"
    by (rule ev_msg_set_inline_cases [OF assms(1)]) (simp_all add: ev_msg_payload_size_def)
  show "0 < sz \<longrightarrow> ev_msg_payload_data pm'
      = Some (Inline_bytes (take sz bytes @ replicate (EV_MSG_INLINE_CAPACITY - sz) 0))"
    by (rule ev_msg_set_inline_cases [OF assms(1)])
      (simp_all add: ev_msg_payload_data_def zero_inline_def)
qed

theorem inline_payload_roundtrip_witness:
  "ev_msg_payload_size (fst (snd (ev_msg_set_inline_payload no_lifecycle (Some tick_msg)
      (Some [7, 8, 9]) 2 ()))) = 2
   \<and> ev_msg_payload_data (fst (snd (ev_msg_set_inline_payload no_lifecycle (Some tick_msg)
      (Some [7, 8, 9]) 2 ()))) = Some (Inline_bytes ([7, 8] @ replicate 22 0))"
proof -
  obtain pm' where r: "ev_msg_set_inline_payload no_lifecycle (Some tick_msg) (Some [7, 8, 9]) 2 ()
      = (EV_OK, pm', ())"
  proof -
    have "fst (ev_msg_set_inline_payload no_lifecycle (Some tick_msg) (Some [7, 8, 9]) 2 ()) = EV_OK"
      by code_simp
    then show thesis
      using that by (cases "ev_msg_set_inline_payload no_lifecycle (Some tick_msg) (Some [7, 8, 9]) 2 ()") auto
  qed
  show ?thesis using inline_payload_roundtrip [OF r] r by simp
qed

section \<open>Disposal\<close>

text \<open>A message owns a share of an external payload until it is disposed or moved from.\<close>

definition msg_holds_share :: "ev_msg \<Rightarrow> bool" where
  "msg_holds_share m \<longleftrightarrow> ev_msg_has_cookie m \<and> \<not> ev_msg_is_disposed m
     \<and> msg_storage m = EV_MSG_STORAGE_EXTERNAL \<and> 0 < msg_payload_size m
     \<and> ext_release_fn (msg_external m) \<noteq> None"

lemma ev_msg_dispose_OK: "ev_msg_dispose lc (Some m) w = (rc, pm', w') \<Longrightarrow> rc = EV_OK"
  by (auto simp: ev_msg_dispose_def split: if_splits)

text \<open>Disposal touches the payload owner exactly when the message owns a share.\<close>

lemma ev_msg_dispose_world:
  "snd (snd (ev_msg_dispose lc (Some m) w)) = (if msg_holds_share m then call_release lc m w else w)"
  by (auto simp: ev_msg_dispose_def msg_holds_share_def ev_msg_has_cookie_def call_release_def
      split: option.splits)

lemma disposed_flag: "((f::u32) OR 1) AND 1 = 1"
  by (simp add: bit_eq_iff bit_simps)

lemma ev_msg_dispose_disposed:
  "ev_msg_dispose lc (Some m) w = (rc, Some m', w') \<Longrightarrow> ev_msg_is_disposed m'"
  by (auto simp: ev_msg_dispose_def ev_msg_reset_def ev_msg_is_disposed_def ev_msg_has_cookie_def
      disposed_flag split: if_splits)

lemma disposed_holds_no_share: "ev_msg_is_disposed m \<Longrightarrow> \<not> msg_holds_share m"
  by (simp add: msg_holds_share_def)

text \<open>
  Disposal is idempotent. Disposing a message always succeeds and leaves a disposed message that
  owns no share; disposing that message again, at any later time, changes neither the message nor the
  payload owner, so a payload is never released twice through one envelope.
\<close>

lemma ev_msg_dispose_idempotent:
  "\<exists>m' w'. ev_msg_dispose lc (Some m) w = (EV_OK, Some m', w')
     \<and> ev_msg_is_disposed m' \<and> \<not> msg_holds_share m'
     \<and> (\<forall>later. ev_msg_dispose lc (Some m') later = (EV_OK, Some m', later))"
proof -
  obtain rc pm' w' where d: "ev_msg_dispose lc (Some m) w = (rc, pm', w')"
    by (metis prod.collapse)
  then obtain m' where m': "pm' = Some m'"
    by (auto simp: ev_msg_dispose_def ev_msg_reset_def split: if_splits)
  have dis: "ev_msg_is_disposed m'" by (rule ev_msg_dispose_disposed [OF d [unfolded m']])
  then have "ev_msg_dispose lc (Some m') later = (EV_OK, Some m', later)" for later
    by (simp add: ev_msg_dispose_def ev_msg_is_disposed_def ev_msg_has_cookie_def)
  moreover have "rc = EV_OK" by (rule ev_msg_dispose_OK [OF d])
  ultimately show ?thesis
    using d m' dis disposed_holds_no_share [OF dis] by auto
qed

section \<open>The contract of a payload owner\<close>

text \<open>
  What the envelope code relies on when it calls the retain and release callbacks of a leased
  payload. \<open>live w e\<close>: the descriptor \<open>e\<close> names a payload the owner currently keeps alive.
  \<open>shares w c\<close>: how many ownership shares exist of the payload behind lifecycle context \<open>c\<close>.
  Retaining a live payload adds one share, releasing one removes it, and the payload of a context
  stays live as long as one share is left. The share counter is a 32-bit word, so a retain needs
  room in it.
\<close>

definition run_retain :: "'w ev_lifecycle \<Rightarrow> ev_msg_external_payload \<Rightarrow> 'w \<Rightarrow> ev_result \<times> 'w" where
  "run_retain lc e w = (case ext_retain_fn e of None \<Rightarrow> (EV_ERR_UNSUPPORTED, w)
     | Some fn \<Rightarrow> lc_retain lc fn (ext_lifecycle_ctx e) (ext_data e) (ext_size e) w)"

definition run_release :: "'w ev_lifecycle \<Rightarrow> ev_msg_external_payload \<Rightarrow> 'w \<Rightarrow> 'w" where
  "run_release lc e w = (case ext_release_fn e of None \<Rightarrow> w
     | Some fn \<Rightarrow> lc_release lc fn (ext_lifecycle_ctx e) (ext_data e) (ext_size e) w)"

locale payload_owner =
  fixes lc :: "'w ev_lifecycle"
    and inv :: "'w \<Rightarrow> bool"
    and live :: "'w \<Rightarrow> ev_msg_external_payload \<Rightarrow> bool"
    and shares :: "'w \<Rightarrow> ptr \<Rightarrow> nat"
    and max_shares :: nat
  assumes live_callbacks: "live w e \<Longrightarrow> ext_retain_fn e \<noteq> None \<and> ext_release_fn e \<noteq> None"
    and live_shares: "inv w \<Longrightarrow> live w e \<Longrightarrow> 0 < shares w (ext_lifecycle_ctx e)"
    and retain_live: "inv w \<Longrightarrow> live w e \<Longrightarrow> shares w (ext_lifecycle_ctx e) < max_shares \<Longrightarrow>
          \<exists>w'. run_retain lc e w = (EV_OK, w') \<and> inv w' \<and> live w' = live w
               \<and> shares w' = (shares w)(ext_lifecycle_ctx e := Suc (shares w (ext_lifecycle_ctx e)))"
    and release_live: "inv w \<Longrightarrow> live w e \<Longrightarrow> inv (run_release lc e w)
          \<and> shares (run_release lc e w)
              = (shares w)(ext_lifecycle_ctx e := shares w (ext_lifecycle_ctx e) - 1)
          \<and> (\<forall>e'. live (run_release lc e w) e' \<longleftrightarrow>
                live w e' \<and> (ext_lifecycle_ctx e' \<noteq> ext_lifecycle_ctx e
                            \<or> 1 < shares w (ext_lifecycle_ctx e)))"
begin

text \<open>
  Share accounting. A set of envelopes is in order when every share it owns is of a live payload,
  described consistently, and the owner's counter of each payload is the number of envelopes that
  hold a share of it plus the shares held elsewhere (\<open>ext\<close>: producer handles, messages in flight).
\<close>

definition msg_live :: "'w \<Rightarrow> ev_msg \<Rightarrow> bool" where
  "msg_live w m \<longleftrightarrow> (msg_holds_share m \<longrightarrow>
     live w (msg_external m) \<and> ext_size (msg_external m) = msg_payload_size m)"

definition share_count :: "ev_msg list \<Rightarrow> ptr \<Rightarrow> nat" where
  "share_count ms c =
     length (filter (\<lambda>m. msg_holds_share m \<and> ext_lifecycle_ctx (msg_external m) = c) ms)"

definition accounted :: "'w \<Rightarrow> ev_msg list \<Rightarrow> (ptr \<Rightarrow> nat) \<Rightarrow> bool" where
  "accounted w ms others \<longleftrightarrow> inv w \<and> (\<forall>m \<in> set ms. msg_live w m)
     \<and> (\<forall>c. shares w c = share_count ms c + others c)"

lemma share_count_simps [simp]:
  "share_count [] c = 0"
  "share_count (ms @ ns) c = share_count ms c + share_count ns c"
  "share_count (m # ms) c = share_count ms c
     + (if msg_holds_share m \<and> ext_lifecycle_ctx (msg_external m) = c then 1 else 0)"
  by (simp_all add: share_count_def)

lemma share_count_no_share: "\<not> msg_holds_share m \<Longrightarrow> share_count (m # ms) = share_count ms"
  by (rule ext) simp

lemma call_release_run:
  "msg_holds_share m \<Longrightarrow> ext_size (msg_external m) = msg_payload_size m \<Longrightarrow>
     call_release lc m w = run_release lc (msg_external m) w"
  by (auto simp: call_release_def run_release_def msg_holds_share_def)

text \<open>
  Disposing one envelope of an accounted set takes exactly its share away, and every other envelope
  still refers to live payloads.
\<close>

lemma dispose_accounted:
  assumes acc: "accounted w (m # ms) others" and d: "ev_msg_dispose lc (Some m) w = (rc, pm', w')"
  shows "accounted w' ms others"
proof (cases "msg_holds_share m")
  case False
  then have "w' = w" using ev_msg_dispose_world [of lc m w] d by simp
  then show ?thesis using acc False by (simp add: accounted_def)
next
  case True
  let ?e = "msg_external m" and ?c = "ext_lifecycle_ctx (msg_external m)"
  from acc True have inv: "inv w" and liv: "live w ?e" and sz: "ext_size ?e = msg_payload_size m"
    by (auto simp: accounted_def msg_live_def)
  have w': "w' = run_release lc ?e w"
    using ev_msg_dispose_world [of lc m w] d True sz by (simp add: call_release_run)
  note rel = release_live [OF inv liv, folded w']
  have sh: "shares w ?c = Suc (share_count ms ?c) + others ?c"
    using acc True by (auto simp: accounted_def)
  have "msg_live w' n" if n: "n \<in> set ms" for n
  proof -
    have "live w' (msg_external n)"
      if "msg_holds_share n" and "live w (msg_external n)"
    proof (cases "ext_lifecycle_ctx (msg_external n) = ?c")
      case True
      then have "0 < share_count ms ?c"
        using n that(1) by (auto simp: share_count_def filter_empty_conv)
      then show ?thesis using rel sh that(2) by auto
    qed (use rel that(2) in auto)
    then show ?thesis using acc n by (auto simp: accounted_def msg_live_def)
  qed
  moreover have "shares w' c = share_count ms c + others c" for c
    using rel sh acc by (auto simp: accounted_def)
  ultimately show ?thesis using rel by (simp add: accounted_def)
qed

text \<open>A disposal returns the share to nobody: it is gone from the owner's counter.\<close>

lemma retain_accounted:
  assumes acc: "accounted w ms others" and live: "msg_live w m" and share: "msg_holds_share m"
    and room: "shares w (ext_lifecycle_ctx (msg_external m)) < max_shares"
  shows "\<exists>w'. run_retain lc (msg_external m) w = (EV_OK, w') \<and> accounted w' (m # ms) others"
proof -
  from acc live share have pre: "inv w" "live w (msg_external m)"
    by (auto simp: accounted_def msg_live_def)
  obtain w' where r: "run_retain lc (msg_external m) w = (EV_OK, w')" and inv': "inv w'"
      and liv': "live w' = live w"
      and sh': "shares w' = (shares w)(ext_lifecycle_ctx (msg_external m)
                  := Suc (shares w (ext_lifecycle_ctx (msg_external m))))"
    using retain_live [OF pre room] by blast
  have "accounted w' (m # ms) others"
    using acc live share inv' liv' sh' by (auto simp: accounted_def msg_live_def)
  with r show ?thesis by blast
qed

text \<open>
  Detaching the payload of an undisposed envelope, as the payload setters do, is the same step. What
  an envelope is accounted for depends only on the share it holds.
\<close>

lemma call_release_accounted:
  assumes "accounted w (m # ms) others" and "ev_msg_has_cookie m" and "\<not> ev_msg_is_disposed m"
  shows "accounted (call_release lc m w) ms others"
proof -
  obtain rc pm' w' where d: "ev_msg_dispose lc (Some m) w = (rc, pm', w')" by (metis prod.collapse)
  have "w' = call_release lc m w"
    using ev_msg_dispose_world [of lc m w] d assms(2,3)
    by (auto simp: msg_holds_share_def call_release_def)
  then show ?thesis using dispose_accounted [OF assms(1) d] by simp
qed

lemma accounted_cong:
  assumes "accounted w (m # ms) others" and "msg_holds_share n = msg_holds_share m"
    and "msg_holds_share m \<Longrightarrow> msg_external n = msg_external m \<and> msg_payload_size n = msg_payload_size m"
  shows "accounted w (n # ms) others"
  using assms by (auto simp: accounted_def msg_live_def)

lemma accounted_no_share:
  "\<not> msg_holds_share m \<Longrightarrow> accounted w (m # ms) others \<longleftrightarrow> accounted w ms others"
  by (simp add: accounted_def msg_live_def)

text \<open>The order of the envelopes does not matter.\<close>

lemma accounted_mset:
  assumes "mset ms = mset ns"
  shows "accounted w ms others \<longleftrightarrow> accounted w ns others"
proof -
  have "share_count ms c = share_count ns c" for c
    unfolding share_count_def by (metis assms mset_filter size_mset)
  then show ?thesis using mset_eq_setD [OF assms] by (simp add: accounted_def)
qed

lemma accounted_swap: "accounted w (m # n # ms) others \<longleftrightarrow> accounted w (n # m # ms) others"
  by (rule accounted_mset) simp

lemma accounted_inert:
  assumes "\<forall>n \<in> set ns. \<not> msg_holds_share n"
  shows "accounted w (ns @ ms) others \<longleftrightarrow> accounted w ms others"
  using assms by (induction ns) (simp_all add: accounted_no_share)

end

end
