(* ===== verification/EvMailbox.thy ===== *)
theory EvMailbox
  imports EvQueueSpec EvMsg
begin

text \<open>
  Bounded actor mailboxes (\<open>core/include/ev/mailbox.h\<close>, \<open>core/include/ev/mailbox_kind.h\<close>,
  \<open>core/src/ev_mailbox.c\<close>). The first half is the code: a ring over caller storage with five
  disciplines, and the QoS-aware delivery on top. The second half abstracts a mailbox to the list of
  its pending messages and proves that every operation implements the list operation its
  discipline promises, that the invariant is kept, that no message is lost or duplicated silently,
  and that the payload shares of queued messages stay accounted for.
\<close>

section \<open>State\<close>

datatype ev_mailbox_delivery_effect =
    EV_MAILBOX_DELIVERY_POSTED
  | EV_MAILBOX_DELIVERY_DROPPED
  | EV_MAILBOX_DELIVERY_REPLACED
  | EV_MAILBOX_DELIVERY_COALESCED
  | EV_MAILBOX_DELIVERY_REJECTED

text \<open>The slot index \<open>EV_MAILBOX_NO_SLOT\<close> is \<open>None\<close>.\<close>

record ev_mailbox_delivery_report =
  md_effect :: ev_mailbox_delivery_effect
  md_result :: ev_result
  md_queue_depth_before :: nat
  md_queue_depth_after :: nat
  md_slot_index :: "nat option"

record ev_mailbox_stats =
  ms_posted :: u32
  ms_dropped :: u32
  ms_replaced :: u32
  ms_coalesced :: u32
  ms_popped :: u32
  ms_rejected :: u32
  ms_high_watermark :: nat

record ev_mailbox =
  mb_kind :: ev_mailbox_kind
  mb_storage :: "ev_msg list option"
  mb_storage_count :: nat
  mb_storage_mask :: nat
  mb_head :: nat
  mb_tail :: nat
  mb_count :: nat
  mb_stats :: ev_mailbox_stats

definition zero_mailbox_stats :: ev_mailbox_stats where
  "zero_mailbox_stats = \<lparr>ms_posted = 0, ms_dropped = 0, ms_replaced = 0, ms_coalesced = 0,
     ms_popped = 0, ms_rejected = 0, ms_high_watermark = 0\<rparr>"

abbreviation mb_slots :: "ev_mailbox \<Rightarrow> ev_msg list" where
  "mb_slots mb \<equiv> the (mb_storage mb)"

definition mb_stat :: "(ev_mailbox_stats \<Rightarrow> ev_mailbox_stats) \<Rightarrow> ev_mailbox \<Rightarrow> ev_mailbox" where
  "mb_stat f mb = mb\<lparr>mb_stats := f (mb_stats mb)\<rparr>"

definition count_posted :: "ev_mailbox \<Rightarrow> ev_mailbox" where
  "count_posted = mb_stat (\<lambda>s. s\<lparr>ms_posted := ms_posted s + 1\<rparr>)"
definition count_dropped :: "ev_mailbox \<Rightarrow> ev_mailbox" where
  "count_dropped = mb_stat (\<lambda>s. s\<lparr>ms_dropped := ms_dropped s + 1\<rparr>)"
definition count_replaced :: "ev_mailbox \<Rightarrow> ev_mailbox" where
  "count_replaced = mb_stat (\<lambda>s. s\<lparr>ms_replaced := ms_replaced s + 1\<rparr>)"
definition count_coalesced :: "ev_mailbox \<Rightarrow> ev_mailbox" where
  "count_coalesced = mb_stat (\<lambda>s. s\<lparr>ms_coalesced := ms_coalesced s + 1\<rparr>)"
definition count_popped :: "ev_mailbox \<Rightarrow> ev_mailbox" where
  "count_popped = mb_stat (\<lambda>s. s\<lparr>ms_popped := ms_popped s + 1\<rparr>)"
definition count_rejected :: "ev_mailbox \<Rightarrow> ev_mailbox" where
  "count_rejected = mb_stat (\<lambda>s. s\<lparr>ms_rejected := ms_rejected s + 1\<rparr>)"

lemmas count_defs = mb_stat_def count_posted_def count_dropped_def count_replaced_def
  count_coalesced_def count_popped_def count_rejected_def

section \<open>Operations\<close>

fun ev_mailbox_kind_capacity :: "ev_mailbox_kind \<Rightarrow> nat" where
  "ev_mailbox_kind_capacity EV_MAILBOX_FIFO_8 = 8"
| "ev_mailbox_kind_capacity EV_MAILBOX_FIFO_16 = 16"
| "ev_mailbox_kind_capacity EV_MAILBOX_MAILBOX_1 = 1"
| "ev_mailbox_kind_capacity EV_MAILBOX_LOSSY_RING_8 = 8"
| "ev_mailbox_kind_capacity EV_MAILBOX_COALESCED_FLAG = 1"
| "ev_mailbox_kind_capacity _ = 0"

definition ev_mailbox_kind_is_known :: "ev_mailbox_kind \<Rightarrow> bool" where
  "ev_mailbox_kind_is_known k \<longleftrightarrow> 0 < ev_mailbox_kind_capacity k"

definition ev_mailbox_kind_is_lossy :: "ev_mailbox_kind \<Rightarrow> bool" where
  "ev_mailbox_kind_is_lossy k \<longleftrightarrow> k = EV_MAILBOX_LOSSY_RING_8"

definition ev_mailbox_kind_is_coalescing :: "ev_mailbox_kind \<Rightarrow> bool" where
  "ev_mailbox_kind_is_coalescing k \<longleftrightarrow> k = EV_MAILBOX_COALESCED_FLAG"

definition ev_mailbox_record_high_watermark :: "ev_mailbox \<Rightarrow> ev_mailbox" where
  "ev_mailbox_record_high_watermark mb =
     (if ms_high_watermark (mb_stats mb) < mb_count mb
      then mb_stat (\<lambda>s. s\<lparr>ms_high_watermark := mb_count mb\<rparr>) mb else mb)"

definition ev_mailbox_capacity_is_power_of_two :: "nat \<Rightarrow> bool" where
  "ev_mailbox_capacity_is_power_of_two n \<longleftrightarrow> n \<noteq> 0 \<and> n AND (n - 1) = 0"

definition ev_mailbox_index_advance :: "ev_mailbox \<Rightarrow> nat \<Rightarrow> nat" where
  "ev_mailbox_index_advance mb index = (index + 1) AND mb_storage_mask mb"

definition ev_mailbox_dispose_slot ::
    "'w ev_lifecycle \<Rightarrow> ev_mailbox \<Rightarrow> nat \<Rightarrow> 'w \<Rightarrow> ev_result \<times> ev_mailbox \<times> 'w" where
  "ev_mailbox_dispose_slot lc mb index w =
     (if mb_storage mb = None \<or> mb_storage_count mb \<le> index then (EV_ERR_INVALID_ARG, mb, w)
      else let (rc, pm, w1) = ev_msg_dispose lc (Some (mb_slots mb ! index)) w
           in (rc, mb\<lparr>mb_storage := Some ((mb_slots mb)[index := the (ev_msg_reset pm)])\<rparr>, w1))"

definition ev_mailbox_store_at :: "ev_mailbox \<Rightarrow> nat \<Rightarrow> ev_msg \<Rightarrow> ev_result \<times> ev_mailbox" where
  "ev_mailbox_store_at mb index m =
     (if mb_storage_count mb \<le> index then (EV_ERR_INVALID_ARG, mb)
      else (EV_OK, mb\<lparr>mb_storage := Some ((mb_slots mb)[index := m])\<rparr>))"

definition ev_mailbox_release_retained_queue_copy :: "'w ev_lifecycle \<Rightarrow> ev_msg \<Rightarrow> 'w \<Rightarrow> 'w" where
  "ev_mailbox_release_retained_queue_copy lc m w = snd (snd (ev_msg_dispose lc (Some m) w))"

definition ev_mailbox_retain_for_queue :: "'w ev_lifecycle \<Rightarrow> ev_msg \<Rightarrow> 'w \<Rightarrow> ev_result \<times> 'w" where
  "ev_mailbox_retain_for_queue lc m w =
     (if msg_storage m \<noteq> EV_MSG_STORAGE_EXTERNAL \<or> msg_payload_size m = 0 then (EV_OK, w)
      else ev_msg_retain lc (Some m) w)"

text \<open>A report is an output of the call; a caller that passed \<open>NULL\<close> ignores it.\<close>

definition ev_mailbox_report_fill ::
    "ev_mailbox_delivery_effect \<Rightarrow> ev_result \<Rightarrow> nat \<Rightarrow> nat \<Rightarrow> nat option \<Rightarrow> ev_mailbox_delivery_report" where
  "ev_mailbox_report_fill eff rc before after slot =
     \<lparr>md_effect = eff, md_result = rc, md_queue_depth_before = before, md_queue_depth_after = after,
      md_slot_index = slot\<rparr>"

definition ev_mailbox_delivery_report_reset :: ev_mailbox_delivery_report where
  "ev_mailbox_delivery_report_reset =
     \<lparr>md_effect = EV_MAILBOX_DELIVERY_REJECTED, md_result = EV_OK, md_queue_depth_before = 0,
      md_queue_depth_after = 0, md_slot_index = None\<rparr>"

definition ev_mailbox_pending_index_at :: "ev_mailbox \<Rightarrow> nat \<Rightarrow> nat option" where
  "ev_mailbox_pending_index_at mb offset =
     (if mb_count mb \<le> offset then None else Some ((mb_head mb + offset) AND mb_storage_mask mb))"

text \<open>The scan of \<open>ev_mailbox_find_event_slot\<close>: \<open>n\<close> more offsets from \<open>i\<close>, stopping at the first hit
  unless the latest one is wanted.\<close>

primrec mailbox_find_from ::
    "ev_mailbox \<Rightarrow> ev_event_id \<Rightarrow> bool \<Rightarrow> nat \<Rightarrow> nat \<Rightarrow> nat option \<Rightarrow> nat option" where
  "mailbox_find_from mb e latest i 0 found = found"
| "mailbox_find_from mb e latest i (Suc n) found =
     (case ev_mailbox_pending_index_at mb i of
        None \<Rightarrow> mailbox_find_from mb e latest (Suc i) n found
      | Some index \<Rightarrow>
          if msg_event_id (mb_slots mb ! index) = e
          then (if \<not> latest then Some index else mailbox_find_from mb e latest (Suc i) n (Some index))
          else mailbox_find_from mb e latest (Suc i) n found)"

definition ev_mailbox_find_event_slot :: "ev_mailbox \<Rightarrow> ev_event_id \<Rightarrow> bool \<Rightarrow> nat option" where
  "ev_mailbox_find_event_slot mb e latest =
     (if mb_storage mb = None then None else mailbox_find_from mb e latest 0 (mb_count mb) None)"

definition ev_mailbox_replace_slot ::
    "'w ev_lifecycle \<Rightarrow> ev_mailbox \<Rightarrow> nat \<Rightarrow> ev_msg \<Rightarrow> 'w \<Rightarrow> ev_result \<times> ev_mailbox \<times> 'w" where
  "ev_mailbox_replace_slot lc mb index m w =
     (let (rc, w1) = ev_mailbox_retain_for_queue lc m w
      in if rc \<noteq> EV_OK then (rc, mb, w1)
         else
           let (rc, mb2, w2) = ev_mailbox_dispose_slot lc mb index w1
           in if rc \<noteq> EV_OK then (rc, mb2, ev_mailbox_release_retained_queue_copy lc m w2)
              else
                let (rc, mb3) = ev_mailbox_store_at mb2 index m
                in if rc \<noteq> EV_OK then (rc, mb3, ev_mailbox_release_retained_queue_copy lc m w2)
                   else (EV_OK, mb3, w2))"

definition ev_mailbox_init ::
    "ev_mailbox option \<Rightarrow> ev_mailbox_kind \<Rightarrow> ev_msg list option \<Rightarrow> nat \<Rightarrow> ev_result \<times> ev_mailbox option" where
  "ev_mailbox_init pmb kind storage storage_count =
     (if pmb = None \<or> storage = None then (EV_ERR_INVALID_ARG, pmb)
      else if \<not> ev_mailbox_kind_is_known kind then (EV_ERR_OUT_OF_RANGE, pmb)
      else if storage_count \<noteq> ev_mailbox_kind_capacity kind then (EV_ERR_OUT_OF_RANGE, pmb)
      else if \<not> ev_mailbox_capacity_is_power_of_two storage_count then (EV_ERR_OUT_OF_RANGE, pmb)
      else (EV_OK, Some \<lparr>mb_kind = kind, mb_storage = Some (replicate storage_count zero_msg),
              mb_storage_count = storage_count, mb_storage_mask = storage_count - 1, mb_head = 0,
              mb_tail = 0, mb_count = 0, mb_stats = zero_mailbox_stats\<rparr>))"

primrec mailbox_dispose_all ::
    "'w ev_lifecycle \<Rightarrow> nat \<Rightarrow> nat \<Rightarrow> ev_mailbox \<Rightarrow> 'w \<Rightarrow> ev_mailbox \<times> 'w" where
  "mailbox_dispose_all lc i 0 mb w = (mb, w)"
| "mailbox_dispose_all lc i (Suc n) mb w =
     (let (_, mb1, w1) = ev_mailbox_dispose_slot lc mb i w in mailbox_dispose_all lc (Suc i) n mb1 w1)"

definition ev_mailbox_reset ::
    "'w ev_lifecycle \<Rightarrow> ev_mailbox option \<Rightarrow> 'w \<Rightarrow> ev_result \<times> ev_mailbox option \<times> 'w" where
  "ev_mailbox_reset lc pmb w =
     (case pmb of None \<Rightarrow> (EV_ERR_INVALID_ARG, None, w)
      | Some mb \<Rightarrow>
        if mb_storage mb = None then (EV_ERR_INVALID_ARG, Some mb, w)
        else let (mb1, w1) = mailbox_dispose_all lc 0 (mb_storage_count mb) mb w
             in (EV_OK, Some (mb1\<lparr>mb_head := 0, mb_tail := 0, mb_count := 0,
                                  mb_stats := zero_mailbox_stats\<rparr>), w1))"

text \<open>\<open>ev_mailbox_push\<close>, one definition per case of its switch.\<close>

definition push_fifo ::
    "'w ev_lifecycle \<Rightarrow> ev_mailbox \<Rightarrow> ev_msg \<Rightarrow> 'w \<Rightarrow> ev_result \<times> ev_mailbox \<times> 'w" where
  "push_fifo lc mb m w =
     (if mb_storage_count mb \<le> mb_count mb then (EV_ERR_FULL, count_rejected mb, w)
      else
        let (rc, w1) = ev_mailbox_retain_for_queue lc m w
        in if rc \<noteq> EV_OK then (rc, count_rejected mb, w1)
           else
             let (rc, mb1) = ev_mailbox_store_at mb (mb_tail mb) m
             in if rc \<noteq> EV_OK
                then (rc, count_rejected mb1, ev_mailbox_release_retained_queue_copy lc m w1)
                else
                  let mb2 = mb1\<lparr>mb_tail := ev_mailbox_index_advance mb1 (mb_tail mb1),
                                mb_count := mb_count mb1 + 1\<rparr>
                  in (EV_OK, ev_mailbox_record_high_watermark (count_posted mb2), w1))"

definition push_mailbox_1 ::
    "'w ev_lifecycle \<Rightarrow> ev_mailbox \<Rightarrow> ev_msg \<Rightarrow> 'w \<Rightarrow> ev_result \<times> ev_mailbox \<times> 'w" where
  "push_mailbox_1 lc mb m w =
     (let (rc, w1) = ev_mailbox_retain_for_queue lc m w
      in if rc \<noteq> EV_OK then (rc, count_rejected mb, w1)
         else
           let (mb1, w2) = (if mb_count mb \<noteq> 0 then snd (ev_mailbox_dispose_slot lc mb 0 w1)
                            else (mb, w1));
               (rc, mb2) = ev_mailbox_store_at mb1 0 m
           in if rc \<noteq> EV_OK
              then (rc, count_rejected mb2, ev_mailbox_release_retained_queue_copy lc m w2)
              else
                let mb3 = (if mb_count mb2 = 0 then count_posted (mb2\<lparr>mb_count := 1\<rparr>)
                           else count_replaced mb2)
                in (EV_OK, ev_mailbox_record_high_watermark mb3, w2))"

definition push_lossy ::
    "'w ev_lifecycle \<Rightarrow> ev_mailbox \<Rightarrow> ev_msg \<Rightarrow> 'w \<Rightarrow> ev_result \<times> ev_mailbox \<times> 'w" where
  "push_lossy lc mb m w =
     (let (rc, w1) = ev_mailbox_retain_for_queue lc m w
      in if rc \<noteq> EV_OK then (rc, count_rejected mb, w1)
         else
           let (mb1, w2) =
                 (if mb_storage_count mb \<le> mb_count mb
                  then let (_, mb', w') = ev_mailbox_dispose_slot lc mb (mb_head mb) w1
                       in (count_dropped (mb'\<lparr>mb_head := ev_mailbox_index_advance mb' (mb_head mb'),
                                              mb_count := mb_count mb' - 1\<rparr>), w')
                  else (mb, w1));
               (rc, mb2) = ev_mailbox_store_at mb1 (mb_tail mb1) m
           in if rc \<noteq> EV_OK
              then (rc, count_rejected mb2, ev_mailbox_release_retained_queue_copy lc m w2)
              else
                let mb3 = mb2\<lparr>mb_tail := ev_mailbox_index_advance mb2 (mb_tail mb2),
                              mb_count := mb_count mb2 + 1\<rparr>
                in (EV_OK, ev_mailbox_record_high_watermark (count_posted mb3), w2))"

definition push_coalesced_flag ::
    "ev_mailbox \<Rightarrow> ev_msg \<Rightarrow> ev_result \<times> ev_mailbox" where
  "push_coalesced_flag mb m =
     (if msg_storage m \<noteq> EV_MSG_STORAGE_NONE \<or> msg_payload_size m \<noteq> 0
      then (EV_ERR_CONTRACT, count_rejected mb)
      else if mb_count mb = 0
      then let (rc, mb1) = ev_mailbox_store_at mb 0 m
           in if rc \<noteq> EV_OK then (rc, count_rejected mb1)
              else (EV_OK, ev_mailbox_record_high_watermark (count_posted (mb1\<lparr>mb_count := 1\<rparr>)))
      else if msg_event_id (mb_slots mb ! 0) \<noteq> msg_event_id m
      then (EV_ERR_CONTRACT, count_rejected mb)
      else (EV_OK, count_coalesced mb))"

definition mailbox_push ::
    "'w ev_lifecycle \<Rightarrow> ev_mailbox \<Rightarrow> ev_msg \<Rightarrow> 'w \<Rightarrow> ev_result \<times> ev_mailbox \<times> 'w" where
  "mailbox_push lc mb m w =
     (let rc = ev_msg_validate (Some m)
      in if rc \<noteq> EV_OK then (rc, count_rejected mb, w)
         else case mb_kind mb of
             EV_MAILBOX_FIFO_8 \<Rightarrow> push_fifo lc mb m w
           | EV_MAILBOX_FIFO_16 \<Rightarrow> push_fifo lc mb m w
           | EV_MAILBOX_MAILBOX_1 \<Rightarrow> push_mailbox_1 lc mb m w
           | EV_MAILBOX_LOSSY_RING_8 \<Rightarrow> push_lossy lc mb m w
           | EV_MAILBOX_COALESCED_FLAG \<Rightarrow>
               (let (rc, mb1) = push_coalesced_flag mb m in (rc, mb1, w))
           | _ \<Rightarrow> (EV_ERR_OUT_OF_RANGE, count_rejected mb, w))"

definition ev_mailbox_push ::
    "'w ev_lifecycle \<Rightarrow> ev_mailbox option \<Rightarrow> ev_msg option \<Rightarrow> 'w \<Rightarrow> ev_result \<times> ev_mailbox option \<times> 'w" where
  "ev_mailbox_push lc pmb pm w =
     (case (pmb, pm) of
        (Some mb, Some m) \<Rightarrow>
          if mb_storage mb = None then (EV_ERR_INVALID_ARG, Some mb, w)
          else let (rc, mb1, w1) = mailbox_push lc mb m w in (rc, Some mb1, w1)
      | _ \<Rightarrow> (EV_ERR_INVALID_ARG, pmb, w))"

definition posted_slot :: "ev_result \<Rightarrow> ev_mailbox \<Rightarrow> nat option" where
  "posted_slot rc mb = (if rc = EV_OK
     then Some ((mb_tail mb + mb_storage_count mb - 1) AND mb_storage_mask mb) else None)"

text \<open>A plain push and the report every QoS path fills from it.\<close>

definition push_and_report ::
    "'w ev_lifecycle \<Rightarrow> ev_mailbox \<Rightarrow> ev_msg \<Rightarrow> 'w
       \<Rightarrow> ev_result \<times> ev_mailbox_delivery_report \<times> ev_mailbox \<times> 'w" where
  "push_and_report lc mb m w =
     (let before = mb_count mb; (rc, mb1, w1) = mailbox_push lc mb m w
      in (rc, ev_mailbox_report_fill
                (if rc = EV_OK then EV_MAILBOX_DELIVERY_POSTED else EV_MAILBOX_DELIVERY_REJECTED)
                rc before (mb_count mb1) (posted_slot rc mb1), mb1, w1))"

definition ev_mailbox_push_coalesced ::
    "'w ev_lifecycle \<Rightarrow> ev_mailbox \<Rightarrow> ev_msg \<Rightarrow> 'w
       \<Rightarrow> ev_result \<times> ev_mailbox_delivery_report \<times> ev_mailbox \<times> 'w" where
  "ev_mailbox_push_coalesced lc mb m w =
     (let before = mb_count mb
      in case ev_mailbox_find_event_slot mb (msg_event_id m) False of
           Some slot \<Rightarrow>
             (EV_OK, ev_mailbox_report_fill EV_MAILBOX_DELIVERY_COALESCED EV_OK before (mb_count mb)
                       (Some slot), count_coalesced mb, w)
         | None \<Rightarrow>
             if mb_storage_count mb \<le> mb_count mb
             then (EV_OK, ev_mailbox_report_fill EV_MAILBOX_DELIVERY_DROPPED EV_OK before (mb_count mb)
                            None, count_dropped mb, w)
             else push_and_report lc mb m w)"

definition ev_mailbox_push_latest_only ::
    "'w ev_lifecycle \<Rightarrow> ev_mailbox \<Rightarrow> ev_msg \<Rightarrow> 'w
       \<Rightarrow> ev_result \<times> ev_mailbox_delivery_report \<times> ev_mailbox \<times> 'w" where
  "ev_mailbox_push_latest_only lc mb m w =
     (let before = mb_count mb
      in case ev_mailbox_find_event_slot mb (msg_event_id m) True of
           Some slot \<Rightarrow>
             let (rc, mb1, w1) = ev_mailbox_replace_slot lc mb slot m w
             in if rc = EV_OK
                then (EV_OK, ev_mailbox_report_fill EV_MAILBOX_DELIVERY_REPLACED EV_OK before
                               (mb_count mb1) (Some slot), count_replaced mb1, w1)
                else (rc, ev_mailbox_report_fill EV_MAILBOX_DELIVERY_REJECTED rc before
                            (mb_count mb1) (Some slot), count_rejected mb1, w1)
         | None \<Rightarrow>
             if mb_storage_count mb \<le> mb_count mb
             then (EV_OK, ev_mailbox_report_fill EV_MAILBOX_DELIVERY_DROPPED EV_OK before (mb_count mb)
                            None, count_dropped mb, w)
             else push_and_report lc mb m w)"

definition mailbox_push_qos ::
    "'w ev_lifecycle \<Rightarrow> ev_mailbox \<Rightarrow> ev_msg \<Rightarrow> ev_route_qos \<Rightarrow> 'w
       \<Rightarrow> ev_result \<times> ev_mailbox_delivery_report \<times> ev_mailbox \<times> 'w" where
  "mailbox_push_qos lc mb m qos w =
     (let rc = ev_msg_validate (Some m)
      in if rc \<noteq> EV_OK
         then (rc, ev_mailbox_report_fill EV_MAILBOX_DELIVERY_REJECTED rc (mb_count mb) (mb_count mb) None,
               count_rejected mb, w)
         else if qos = EV_ROUTE_QOS_COALESCED then ev_mailbox_push_coalesced lc mb m w
         else if qos = EV_ROUTE_QOS_LATEST_ONLY then ev_mailbox_push_latest_only lc mb m w
         else push_and_report lc mb m w)"

definition ev_mailbox_push_qos ::
    "'w ev_lifecycle \<Rightarrow> ev_mailbox option \<Rightarrow> ev_msg option \<Rightarrow> ev_route_qos \<Rightarrow> 'w
       \<Rightarrow> ev_result \<times> ev_mailbox_delivery_report \<times> ev_mailbox option \<times> 'w" where
  "ev_mailbox_push_qos lc pmb pm qos w =
     (let bad = ev_mailbox_report_fill EV_MAILBOX_DELIVERY_REJECTED EV_ERR_INVALID_ARG 0 0 None
      in case (pmb, pm) of
           (Some mb, Some m) \<Rightarrow>
             if mb_storage mb = None then (EV_ERR_INVALID_ARG, bad, Some mb, w)
             else let (rc, rep, mb1, w1) = mailbox_push_qos lc mb m qos w in (rc, rep, Some mb1, w1)
         | _ \<Rightarrow> (EV_ERR_INVALID_ARG, bad, pmb, w))"

text \<open>The popped message is \<open>*out\<close>; \<open>None\<close> when it is not written.\<close>

definition pop_ring :: "ev_mailbox \<Rightarrow> ev_result \<times> ev_msg option \<times> ev_mailbox" where
  "pop_ring mb =
     (let m = mb_slots mb ! mb_head mb;
          mb1 = mb\<lparr>mb_storage := Some ((mb_slots mb)[mb_head mb := the (ev_msg_reset (Some m))])\<rparr>
      in (EV_OK, Some m,
          count_popped (mb1\<lparr>mb_head := ev_mailbox_index_advance mb1 (mb_head mb1),
                            mb_count := mb_count mb1 - 1\<rparr>)))"

definition pop_single :: "ev_mailbox \<Rightarrow> ev_result \<times> ev_msg option \<times> ev_mailbox" where
  "pop_single mb =
     (let m = mb_slots mb ! 0;
          mb1 = mb\<lparr>mb_storage := Some ((mb_slots mb)[0 := the (ev_msg_reset (Some m))])\<rparr>
      in (EV_OK, Some m, count_popped (mb1\<lparr>mb_count := 0\<rparr>)))"

definition mailbox_pop :: "ev_mailbox \<Rightarrow> ev_result \<times> ev_msg option \<times> ev_mailbox" where
  "mailbox_pop mb =
     (if mb_count mb = 0 then (EV_ERR_EMPTY, None, mb)
      else case mb_kind mb of
             EV_MAILBOX_FIFO_8 \<Rightarrow> pop_ring mb
           | EV_MAILBOX_FIFO_16 \<Rightarrow> pop_ring mb
           | EV_MAILBOX_LOSSY_RING_8 \<Rightarrow> pop_ring mb
           | EV_MAILBOX_MAILBOX_1 \<Rightarrow> pop_single mb
           | EV_MAILBOX_COALESCED_FLAG \<Rightarrow> pop_single mb
           | _ \<Rightarrow> (EV_ERR_OUT_OF_RANGE, None, mb))"

definition ev_mailbox_pop ::
    "ev_mailbox option \<Rightarrow> bool \<Rightarrow> ev_result \<times> ev_msg option \<times> ev_mailbox option" where
  "ev_mailbox_pop pmb out =
     (case pmb of None \<Rightarrow> (EV_ERR_INVALID_ARG, None, None)
      | Some mb \<Rightarrow>
        if \<not> out \<or> mb_storage mb = None then (EV_ERR_INVALID_ARG, None, Some mb)
        else let (rc, r, mb1) = mailbox_pop mb in (rc, r, Some mb1))"

definition ev_mailbox_count :: "ev_mailbox option \<Rightarrow> nat" where
  "ev_mailbox_count pmb = (case pmb of None \<Rightarrow> 0 | Some mb \<Rightarrow> mb_count mb)"

definition ev_mailbox_capacity :: "ev_mailbox option \<Rightarrow> nat" where
  "ev_mailbox_capacity pmb = (case pmb of None \<Rightarrow> 0 | Some mb \<Rightarrow> ev_mailbox_kind_capacity (mb_kind mb))"

definition ev_mailbox_is_empty :: "ev_mailbox option \<Rightarrow> bool" where
  "ev_mailbox_is_empty pmb \<longleftrightarrow> ev_mailbox_count pmb = 0"

definition ev_mailbox_is_full :: "ev_mailbox option \<Rightarrow> bool" where
  "ev_mailbox_is_full pmb \<longleftrightarrow>
     (case pmb of None \<Rightarrow> False | Some mb \<Rightarrow> ev_mailbox_capacity pmb \<le> mb_count mb)"

definition ev_mailbox_stats_of :: "ev_mailbox option \<Rightarrow> ev_mailbox_stats option" where
  "ev_mailbox_stats_of pmb = map_option mb_stats pmb"

section \<open>Abstraction and invariant\<close>

text \<open>
  The slots in queue order, starting at the head: the first \<open>count\<close> of them are pending, the rest are
  free and own no payload share.
\<close>

definition mailbox_rotation :: "ev_mailbox \<Rightarrow> ev_msg list" where
  "mailbox_rotation mb = rotate (mb_head mb) (mb_slots mb)"

definition mailbox_contents :: "ev_mailbox \<Rightarrow> ev_msg list" where
  "mailbox_contents mb = take (mb_count mb) (mailbox_rotation mb)"

definition mailbox_wf :: "ev_mailbox \<Rightarrow> bool" where
  "mailbox_wf mb \<longleftrightarrow>
     (let cap = ev_mailbox_kind_capacity (mb_kind mb)
      in 0 < cap \<and> mb_storage mb \<noteq> None \<and> length (mb_slots mb) = cap
         \<and> mb_storage_count mb = cap \<and> mb_storage_mask mb = cap - 1
         \<and> mb_head mb < cap \<and> mb_tail mb = (mb_head mb + mb_count mb) mod cap
         \<and> mb_count mb \<le> cap
         \<and> mb_count mb \<le> ms_high_watermark (mb_stats mb) \<and> ms_high_watermark (mb_stats mb) \<le> cap
         \<and> (\<forall>m \<in> set (drop (mb_count mb) (mailbox_rotation mb)). \<not> msg_holds_share m))"

lemma mailbox_wf_D:
  assumes "mailbox_wf mb"
  shows "0 < ev_mailbox_kind_capacity (mb_kind mb)"
    and "mb_storage mb = Some (mb_slots mb)"
    and "length (mb_slots mb) = ev_mailbox_kind_capacity (mb_kind mb)"
    and "mb_storage_count mb = ev_mailbox_kind_capacity (mb_kind mb)"
    and "mb_storage_mask mb = ev_mailbox_kind_capacity (mb_kind mb) - 1"
    and "mb_head mb < ev_mailbox_kind_capacity (mb_kind mb)"
    and "mb_tail mb = (mb_head mb + mb_count mb) mod ev_mailbox_kind_capacity (mb_kind mb)"
    and "mb_count mb \<le> ev_mailbox_kind_capacity (mb_kind mb)"
    and "\<forall>m \<in> set (drop (mb_count mb) (mailbox_rotation mb)). \<not> msg_holds_share m"
  using assms by (auto simp: mailbox_wf_def Let_def)

lemma kind_capacity_mask:
  "0 < ev_mailbox_kind_capacity k \<Longrightarrow>
     x AND (ev_mailbox_kind_capacity k - Suc 0) = x mod ev_mailbox_kind_capacity k"
  by (cases k) simp_all

lemma mailbox_mask:
  "mailbox_wf mb \<Longrightarrow> x AND mb_storage_mask mb = x mod ev_mailbox_kind_capacity (mb_kind mb)"
  using kind_capacity_mask mailbox_wf_D(1,5) by simp

lemma length_mailbox_rotation:
  "mailbox_wf mb \<Longrightarrow> length (mailbox_rotation mb) = ev_mailbox_kind_capacity (mb_kind mb)"
  by (simp add: mailbox_rotation_def mailbox_wf_D(3))

lemma length_mailbox_contents: "mailbox_wf mb \<Longrightarrow> length (mailbox_contents mb) = mb_count mb"
  by (simp add: mailbox_contents_def length_mailbox_rotation mailbox_wf_D(8))

lemma mailbox_bounded:
  "mailbox_wf mb \<Longrightarrow> length (mailbox_contents mb) \<le> ev_mailbox_kind_capacity (mb_kind mb)"
  by (simp add: length_mailbox_contents mailbox_wf_D(8))

text \<open>The capacity table agrees with the abstraction of a full mailbox.\<close>

lemma mailbox_is_full_iff:
  "mailbox_wf mb \<Longrightarrow> ev_mailbox_is_full (Some mb)
     \<longleftrightarrow> length (mailbox_contents mb) = ev_mailbox_kind_capacity (mb_kind mb)"
  using mailbox_wf_D(8) [of mb]
  by (auto simp: ev_mailbox_is_full_def ev_mailbox_capacity_def length_mailbox_contents)

section \<open>Rotations\<close>

lemma rotate_update:
  assumes "k < length xs"
  shows "rotate h (xs[(h + k) mod length xs := x]) = (rotate h xs)[k := x]"
proof (rule nth_equalityI)
  fix i assume "i < length (rotate h (xs[(h + k) mod length xs := x]))"
  then have i: "i < length xs" by simp
  have eq: "(h + i) mod length xs = (h + k) mod length xs \<longleftrightarrow> i = k"
    using ring_index_inj [of i "length xs" k h] i assms by auto
  have lt: "(h + k) mod length xs < length xs" using i by (intro mod_less_divisor) linarith
  show "rotate h (xs[(h + k) mod length xs := x]) ! i = (rotate h xs)[k := x] ! i"
    using i eq lt by (auto simp: nth_rotate nth_list_update)
qed simp

lemma rotate_update_head: "h < length xs \<Longrightarrow> rotate h (xs[h := x]) = (rotate h xs)[0 := x]"
  using rotate_update [of 0 xs h x] by (cases xs) auto

lemma rotate_Suc_mod: "rotate (Suc h mod length xs) xs = rotate1 (rotate h xs)"
  by (metis rotate_Suc rotate_conv_mod)

lemma mset_rotate: "mset (rotate h xs) = mset xs"
proof (induction h)
  case (Suc h)
  have "mset (rotate1 ys) = mset ys" for ys :: "'a list" by (cases ys) simp_all
  then show ?case using Suc by simp
qed simp

section \<open>The three ways a mailbox changes\<close>

text \<open>Statistics do not matter to the abstraction, except that the watermark stays above the count.\<close>

lemma count_frames [simp]:
  assumes "c \<in> {count_posted, count_dropped, count_replaced, count_coalesced, count_popped, count_rejected}"
  shows "mailbox_wf (c mb) = mailbox_wf mb" and "mailbox_contents (c mb) = mailbox_contents mb"
    and "mb_kind (c mb) = mb_kind mb" and "mb_count (c mb) = mb_count mb"
    and "mb_storage (c mb) = mb_storage mb" and "mb_storage_count (c mb) = mb_storage_count mb"
    and "mb_head (c mb) = mb_head mb" and "mb_tail (c mb) = mb_tail mb"
    and "mb_storage_mask (c mb) = mb_storage_mask mb"
    and "ms_high_watermark (mb_stats (c mb)) = ms_high_watermark (mb_stats mb)"
  using assms by (auto simp: count_defs mailbox_wf_def mailbox_contents_def mailbox_rotation_def Let_def)

definition appended :: "ev_msg \<Rightarrow> ev_mailbox \<Rightarrow> ev_mailbox" where
  "appended m mb = mb\<lparr>mb_storage := Some ((mb_slots mb)[mb_tail mb := m]),
     mb_tail := (mb_tail mb + 1) mod ev_mailbox_kind_capacity (mb_kind mb), mb_count := mb_count mb + 1\<rparr>"

definition beheaded :: "ev_msg \<Rightarrow> ev_mailbox \<Rightarrow> ev_mailbox" where
  "beheaded z mb = mb\<lparr>mb_storage := Some ((mb_slots mb)[mb_head mb := z]),
     mb_head := (mb_head mb + 1) mod ev_mailbox_kind_capacity (mb_kind mb), mb_count := mb_count mb - 1\<rparr>"

definition overwritten :: "nat \<Rightarrow> ev_msg \<Rightarrow> ev_mailbox \<Rightarrow> ev_mailbox" where
  "overwritten k m mb = mb\<lparr>mb_storage := Some ((mb_slots mb)
     [(mb_head mb + k) mod ev_mailbox_kind_capacity (mb_kind mb) := m])\<rparr>"

lemma appended_rotation:
  "mailbox_wf mb \<Longrightarrow> mb_count mb < ev_mailbox_kind_capacity (mb_kind mb) \<Longrightarrow>
     mailbox_rotation (appended m mb) = (mailbox_rotation mb)[mb_count mb := m]"
  using rotate_update [of "mb_count mb" "mb_slots mb" "mb_head mb" m] mailbox_wf_D [of mb]
  by (simp add: appended_def mailbox_rotation_def)

lemma appended_ok:
  assumes wf: "mailbox_wf mb" and room: "mb_count mb < ev_mailbox_kind_capacity (mb_kind mb)"
  shows "mailbox_wf (ev_mailbox_record_high_watermark (count_posted (appended m mb)))"
    and "mailbox_contents (ev_mailbox_record_high_watermark (count_posted (appended m mb)))
      = mailbox_contents mb @ [m]"
    and "mb_kind (ev_mailbox_record_high_watermark (count_posted (appended m mb))) = mb_kind mb"
proof -
  let ?mb = "ev_mailbox_record_high_watermark (count_posted (appended m mb))"
  note len = length_mailbox_rotation [OF wf]
  have rot: "mailbox_rotation ?mb = (mailbox_rotation mb)[mb_count mb := m]"
    using appended_rotation [OF wf room, of m]
    by (simp add: ev_mailbox_record_high_watermark_def count_defs mailbox_rotation_def)
  have cnt: "mb_count ?mb = Suc (mb_count mb)" and kind: "mb_kind ?mb = mb_kind mb"
    by (simp_all add: ev_mailbox_record_high_watermark_def count_defs appended_def)
  show "mb_kind ?mb = mb_kind mb" by (rule kind)
  show "mailbox_contents ?mb = mailbox_contents mb @ [m]"
    using room len by (simp add: mailbox_contents_def rot cnt take_Suc_conv_app_nth)
  have free: "\<forall>n \<in> set (drop (mb_count ?mb) (mailbox_rotation ?mb)). \<not> msg_holds_share n"
    using mailbox_wf_D(9) [OF wf] unfolding rot cnt
    by (metis Suc_n_not_le_n drop_Suc drop_update_cancel in_set_dropD le_SucI lessI list.sel(3)
        drop_drop plus_1_eq_Suc set_drop_subset subset_iff tl_drop)
  show "mailbox_wf ?mb"
    using wf room free unfolding mailbox_wf_def Let_def cnt kind
    by (auto simp: ev_mailbox_record_high_watermark_def count_defs appended_def mod_Suc_eq)
qed

lemma beheaded_rotation:
  assumes "mailbox_wf mb"
  shows "mailbox_rotation (beheaded z mb) = tl (mailbox_rotation mb) @ [z]"
proof -
  note D = mailbox_wf_D [OF assms]
  have "mailbox_rotation (beheaded z mb) = rotate1 ((mailbox_rotation mb)[0 := z])"
    using D rotate_update_head [of "mb_head mb" "mb_slots mb" z]
      rotate_Suc_mod [of "mb_head mb" "(mb_slots mb)[mb_head mb := z]"]
    by (simp add: beheaded_def mailbox_rotation_def)
  moreover have "mailbox_rotation mb \<noteq> []"
    using D(1) length_mailbox_rotation [OF assms] by auto
  ultimately show ?thesis by (cases "mailbox_rotation mb") simp_all
qed

lemma beheaded_ok:
  assumes wf: "mailbox_wf mb" and ne: "0 < mb_count mb" and z: "\<not> msg_holds_share z"
  shows "mailbox_wf (beheaded z mb)"
    and "mailbox_contents (beheaded z mb) = tl (mailbox_contents mb)"
    and "mb_kind (beheaded z mb) = mb_kind mb" and "mb_count (beheaded z mb) = mb_count mb - 1"
proof -
  note D = mailbox_wf_D [OF wf] and len = length_mailbox_rotation [OF wf]
  have cnt: "mb_count (beheaded z mb) = mb_count mb - 1" and kind: "mb_kind (beheaded z mb) = mb_kind mb"
    by (simp_all add: beheaded_def)
  show "mb_kind (beheaded z mb) = mb_kind mb" "mb_count (beheaded z mb) = mb_count mb - 1"
    by (rule kind, rule cnt)
  note rot = beheaded_rotation [OF wf, of z]
  obtain n where n: "mb_count mb = Suc n" using ne by (cases "mb_count mb") auto
  obtain y ys where ys: "mailbox_rotation mb = y # ys"
    using D(1) len by (cases "mailbox_rotation mb") auto
  have "n \<le> length ys" using n D(8) len ys by simp
  then show "mailbox_contents (beheaded z mb) = tl (mailbox_contents mb)"
    by (simp add: mailbox_contents_def rot cnt n ys)
  have free: "\<forall>x \<in> set (drop (mb_count (beheaded z mb)) (mailbox_rotation (beheaded z mb))). \<not> msg_holds_share x"
    using D(9) z by (auto simp: rot cnt n ys dest: in_set_dropD split: if_splits)
  have tail: "(Suc (mb_head mb) mod c + n) mod c = (mb_head mb + Suc n) mod c" for c
    by (simp add: mod_simps)
  show "mailbox_wf (beheaded z mb)"
    using wf free tail n unfolding mailbox_wf_def Let_def cnt kind
    by (auto simp: beheaded_def)
qed

lemma overwritten_ok:
  assumes wf: "mailbox_wf mb" and k: "k < mb_count mb"
  shows "mailbox_wf (overwritten k m mb)"
    and "mailbox_contents (overwritten k m mb) = (mailbox_contents mb)[k := m]"
    and "mb_kind (overwritten k m mb) = mb_kind mb" and "mb_count (overwritten k m mb) = mb_count mb"
proof -
  note D = mailbox_wf_D [OF wf] and len = length_mailbox_rotation [OF wf]
  have rot: "mailbox_rotation (overwritten k m mb) = (mailbox_rotation mb)[k := m]"
    using rotate_update [of k "mb_slots mb" "mb_head mb" m] D(3,8) k
    by (simp add: overwritten_def mailbox_rotation_def)
  have cnt: "mb_count (overwritten k m mb) = mb_count mb" and kind: "mb_kind (overwritten k m mb) = mb_kind mb"
    by (simp_all add: overwritten_def)
  show "mb_kind (overwritten k m mb) = mb_kind mb" "mb_count (overwritten k m mb) = mb_count mb"
    by (rule kind, rule cnt)
  show "mailbox_contents (overwritten k m mb) = (mailbox_contents mb)[k := m]"
    using k by (simp add: mailbox_contents_def rot cnt take_update_swap)
  have "\<forall>x \<in> set (drop (mb_count (overwritten k m mb)) (mailbox_rotation (overwritten k m mb))). \<not> msg_holds_share x"
    using D(9) k by (simp add: rot cnt)
  then show "mailbox_wf (overwritten k m mb)"
    using wf unfolding mailbox_wf_def Let_def cnt kind by (auto simp: overwritten_def)
qed

section \<open>What the primitives do to a well-formed mailbox\<close>

lemma reset_holds_no_share: "\<not> msg_holds_share (the (ev_msg_reset pm))" if "pm \<noteq> None"
  using that by (auto simp: ev_msg_reset_def msg_holds_share_def zero_msg_def)

lemma ev_msg_dispose_Some: "\<exists>m' w'. ev_msg_dispose lc (Some m) w = (EV_OK, Some m', w')"
  by (auto simp: ev_msg_dispose_def ev_msg_reset_def)

definition blank :: ev_msg where
  "blank = zero_msg\<lparr>msg_cookie := EV_MSG_COOKIE\<rparr>"

lemma reset_blank: "pm \<noteq> None \<Longrightarrow> the (ev_msg_reset pm) = blank"
  by (auto simp: ev_msg_reset_def blank_def)

lemma blank_no_share [simp]: "\<not> msg_holds_share blank"
  by (simp add: blank_def msg_holds_share_def zero_msg_def)

text \<open>Disposing a slot blanks it and hands its share, if it has one, back to the owner.\<close>

definition dispose_world :: "'w ev_lifecycle \<Rightarrow> ev_msg \<Rightarrow> 'w \<Rightarrow> 'w" where
  "dispose_world lc m w = snd (snd (ev_msg_dispose lc (Some m) w))"

lemma dispose_slot_eq:
  assumes "mailbox_wf mb" and "i < ev_mailbox_kind_capacity (mb_kind mb)"
  shows "ev_mailbox_dispose_slot lc mb i w
    = (EV_OK, mb\<lparr>mb_storage := Some ((mb_slots mb)[i := blank])\<rparr>, dispose_world lc (mb_slots mb ! i) w)"
proof -
  note D = mailbox_wf_D [OF assms(1)]
  obtain m' w' where d: "ev_msg_dispose lc (Some (mb_slots mb ! i)) w = (EV_OK, Some m', w')"
    using ev_msg_dispose_Some [of lc "mb_slots mb ! i" w] by auto
  have "mb_storage mb \<noteq> None" using D(2) by (metis option.distinct(1))
  then show ?thesis
    using assms(2) D(4) d
    by (simp add: ev_mailbox_dispose_slot_def dispose_world_def reset_blank)
qed

lemma mailbox_head_slot:
  "mailbox_wf mb \<Longrightarrow> 0 < mb_count mb \<Longrightarrow> mb_slots mb ! mb_head mb = hd (mailbox_contents mb)"
  using mailbox_wf_D [of mb] nth_rotate [of 0 "mb_slots mb" "mb_head mb"]
  by (cases "mailbox_rotation mb") (auto simp: mailbox_contents_def mailbox_rotation_def hd_conv_nth)

lemma mailbox_pending_slot:
  "mailbox_wf mb \<Longrightarrow> k < mb_count mb \<Longrightarrow>
     mb_slots mb ! ((mb_head mb + k) mod ev_mailbox_kind_capacity (mb_kind mb)) = mailbox_contents mb ! k"
  using mailbox_wf_D [of mb]
  by (simp add: mailbox_contents_def mailbox_rotation_def nth_rotate)

section \<open>Every outcome of a push\<close>

lemma store_tail_eq:
  assumes "mailbox_wf mb"
  shows "ev_mailbox_store_at mb (mb_tail mb) m
    = (EV_OK, mb\<lparr>mb_storage := Some ((mb_slots mb)[mb_tail mb := m])\<rparr>)"
proof -
  have "mb_tail mb < mb_storage_count mb"
    using mailbox_wf_D(1,4,7) [OF assms] by simp
  then show ?thesis by (simp add: ev_mailbox_store_at_def)
qed

lemma store_tail_appended:
  assumes "mailbox_wf mb" and "ev_mailbox_store_at mb (mb_tail mb) m = (rc, mb1)"
  shows "rc = EV_OK"
    and "mb1\<lparr>mb_tail := ev_mailbox_index_advance mb1 (mb_tail mb1), mb_count := mb_count mb1 + 1\<rparr> = appended m mb"
  using assms store_tail_eq [OF assms(1), of m] mailbox_mask [OF assms(1), of "Suc (mb_tail mb)"]
  by (auto simp: appended_def ev_mailbox_index_advance_def)

lemma single_slot_wf:
  assumes "mailbox_wf mb" and "ev_mailbox_kind_capacity (mb_kind mb) = 1"
  shows "mb_head mb = 0" and "mb_tail mb = 0" and "mb_count mb = 0 \<or> mb_count mb = 1"
    and "0 < mb_storage_count mb"
  using mailbox_wf_D [OF assms(1)] assms(2) by auto

lemma appended_single:
  assumes "mailbox_wf mb" and "ev_mailbox_kind_capacity (mb_kind mb) = 1" and "mb_count mb = 0"
  shows "appended m mb = mb\<lparr>mb_storage := Some ((mb_slots mb)[0 := m]), mb_count := 1\<rparr>"
  using single_slot_wf(1,2) [OF assms(1,2)] assms(2,3) by (cases mb) (simp add: appended_def)

lemma push_fifo_outcome:
  assumes wf: "mailbox_wf mb" and p: "push_fifo lc mb m w = (rc, mb', w')"
  obtains (full) "rc = EV_ERR_FULL" and "mb_count mb = ev_mailbox_kind_capacity (mb_kind mb)"
      and "mb' = count_rejected mb" and "w' = w"
    | (unretained) "rc \<noteq> EV_OK" and "ev_mailbox_retain_for_queue lc m w = (rc, w')"
      and "mb' = count_rejected mb"
    | (posted) "rc = EV_OK" and "ev_mailbox_retain_for_queue lc m w = (EV_OK, w')"
      and "mb_count mb < ev_mailbox_kind_capacity (mb_kind mb)"
      and "mb' = ev_mailbox_record_high_watermark (count_posted (appended m mb))"
proof (cases "mb_count mb = ev_mailbox_kind_capacity (mb_kind mb)")
  case True
  then show thesis using p mailbox_wf_D(4) [OF wf] full by (simp add: push_fifo_def)
next
  case False
  then have room: "mb_count mb < ev_mailbox_kind_capacity (mb_kind mb)" "\<not> mb_storage_count mb \<le> mb_count mb"
    using mailbox_wf_D(4,8) [OF wf] by simp_all
  obtain rc1 w1 where r: "ev_mailbox_retain_for_queue lc m w = (rc1, w1)" by (metis prod.collapse)
  show thesis
  proof (cases "rc1 = EV_OK")
    case True
    then show thesis
      using p r room store_tail_appended [OF wf, of m] posted
      by (auto simp: push_fifo_def Let_def split: prod.splits)
  qed (use p r room unretained in \<open>auto simp: push_fifo_def\<close>)
qed

lemma push_mailbox_1_outcome:
  assumes wf: "mailbox_wf mb" and one: "ev_mailbox_kind_capacity (mb_kind mb) = 1"
    and p: "push_mailbox_1 lc mb m w = (rc, mb', w')"
  obtains (unretained) "rc \<noteq> EV_OK" and "ev_mailbox_retain_for_queue lc m w = (rc, w')"
      and "mb' = count_rejected mb"
    | (posted) "rc = EV_OK" and "ev_mailbox_retain_for_queue lc m w = (EV_OK, w')"
      and "mb_count mb = 0" and "mb' = ev_mailbox_record_high_watermark (count_posted (appended m mb))"
    | (replaced) w1 where "rc = EV_OK" and "ev_mailbox_retain_for_queue lc m w = (EV_OK, w1)"
      and "mb_count mb = 1" and "w' = dispose_world lc (hd (mailbox_contents mb)) w1"
      and "mb' = ev_mailbox_record_high_watermark (count_replaced (overwritten 0 m mb))"
proof -
  note S = single_slot_wf [OF wf one] and D = mailbox_wf_D [OF wf]
  obtain rc1 w1 where r: "ev_mailbox_retain_for_queue lc m w = (rc1, w1)" by (metis prod.collapse)
  show thesis
  proof (cases "rc1 = EV_OK")
    case False
    then show thesis using p r unretained by (simp add: push_mailbox_1_def)
  next
    case ok: True
    show thesis
    proof (cases "mb_count mb = 0")
      case True
      then have "mb' = ev_mailbox_record_high_watermark (count_posted (appended m mb))" "w' = w1" "rc = EV_OK"
        using p r ok S True by (simp_all add: push_mailbox_1_def ev_mailbox_store_at_def
            appended_single [OF wf one])
      then show thesis using posted r ok True by simp
    next
      case False
      then have c1: "mb_count mb = 1" using S by simp
      have head: "mb_slots mb ! 0 = hd (mailbox_contents mb)"
        using mailbox_head_slot [OF wf] S c1 by simp
      have "mb' = ev_mailbox_record_high_watermark (count_replaced (overwritten 0 m mb))"
        "w' = dispose_world lc (hd (mailbox_contents mb)) w1" "rc = EV_OK"
        using p r ok S one c1 dispose_slot_eq [OF wf, of 0 lc w1] head
        by (simp_all add: push_mailbox_1_def ev_mailbox_store_at_def overwritten_def)
      then show thesis using replaced r ok c1 by simp
    qed
  qed
qed

lemma push_lossy_outcome:
  assumes wf: "mailbox_wf mb" and p: "push_lossy lc mb m w = (rc, mb', w')"
  obtains (unretained) "rc \<noteq> EV_OK" and "ev_mailbox_retain_for_queue lc m w = (rc, w')"
      and "mb' = count_rejected mb"
    | (posted) "rc = EV_OK" and "ev_mailbox_retain_for_queue lc m w = (EV_OK, w')"
      and "mb_count mb < ev_mailbox_kind_capacity (mb_kind mb)"
      and "mb' = ev_mailbox_record_high_watermark (count_posted (appended m mb))"
    | (evicted) w1 where "rc = EV_OK" and "ev_mailbox_retain_for_queue lc m w = (EV_OK, w1)"
      and "mb_count mb = ev_mailbox_kind_capacity (mb_kind mb)"
      and "w' = dispose_world lc (hd (mailbox_contents mb)) w1"
      and "mb' = ev_mailbox_record_high_watermark
                   (count_posted (appended m (count_dropped (beheaded blank mb))))"
proof -
  note D = mailbox_wf_D [OF wf]
  obtain rc1 w1 where r: "ev_mailbox_retain_for_queue lc m w = (rc1, w1)" by (metis prod.collapse)
  show thesis
  proof (cases "rc1 = EV_OK")
    case False
    then show thesis using p r unretained by (simp add: push_lossy_def)
  next
    case ok: True
    show thesis
    proof (cases "mb_count mb < ev_mailbox_kind_capacity (mb_kind mb)")
      case True
      then have "\<not> mb_storage_count mb \<le> mb_count mb" using D(4) by simp
      then show thesis
        using p r ok True store_tail_appended [OF wf, of m] posted
        by (auto simp: push_lossy_def Let_def split: prod.splits)
    next
      case False
      then have full: "mb_count mb = ev_mailbox_kind_capacity (mb_kind mb)" using D(8) by simp
      then have cpos: "0 < mb_count mb" using D(1) by simp
      let ?b = "count_dropped (beheaded blank mb)"
      have wfb: "mailbox_wf ?b" using beheaded_ok(1) [OF wf cpos] by simp
      have drop: "(let (_, mb', w') = ev_mailbox_dispose_slot lc mb (mb_head mb) w1
           in (count_dropped (mb'\<lparr>mb_head := ev_mailbox_index_advance mb' (mb_head mb'),
                                  mb_count := mb_count mb' - 1\<rparr>), w'))
         = (?b, dispose_world lc (hd (mailbox_contents mb)) w1)"
        using dispose_slot_eq [OF wf D(6), of lc w1] mailbox_head_slot [OF wf cpos]
          mailbox_mask [OF wf, of "Suc (mb_head mb)"]
        by (simp add: beheaded_def ev_mailbox_index_advance_def)
      have "(rc, mb', w') = (EV_OK, ev_mailbox_record_high_watermark (count_posted (appended m ?b)),
              dispose_world lc (hd (mailbox_contents mb)) w1)"
        using p r ok full D(4) drop store_tail_appended [OF wfb, of m]
        by (auto simp: push_lossy_def Let_def split: prod.splits)
      then show thesis using evicted [OF _ _ full] r ok by simp
    qed
  qed
qed

lemma mailbox_push_outcome:
  assumes wf: "mailbox_wf mb" and p: "mailbox_push lc mb m w = (rc, mb', w')"
  obtains (rejected) "rc \<noteq> EV_OK" and "mb' = count_rejected mb"
      and "w' = w \<or> ev_msg_validate (Some m) = EV_OK \<and> ev_mailbox_retain_for_queue lc m w = (rc, w')"
    | (posted) "rc = EV_OK" and "ev_msg_validate (Some m) = EV_OK"
      and "ev_mailbox_retain_for_queue lc m w = (EV_OK, w')"
      and "mb_count mb < ev_mailbox_kind_capacity (mb_kind mb)"
      and "mb' = ev_mailbox_record_high_watermark (count_posted (appended m mb))"
    | (replaced) w1 where "rc = EV_OK" and "ev_msg_validate (Some m) = EV_OK"
      and "ev_mailbox_retain_for_queue lc m w = (EV_OK, w1)"
      and "mb_kind mb = EV_MAILBOX_MAILBOX_1" and "mb_count mb = 1"
      and "w' = dispose_world lc (hd (mailbox_contents mb)) w1"
      and "mb' = ev_mailbox_record_high_watermark (count_replaced (overwritten 0 m mb))"
    | (evicted) w1 where "rc = EV_OK" and "ev_msg_validate (Some m) = EV_OK"
      and "ev_mailbox_retain_for_queue lc m w = (EV_OK, w1)"
      and "mb_kind mb = EV_MAILBOX_LOSSY_RING_8"
      and "mb_count mb = ev_mailbox_kind_capacity (mb_kind mb)"
      and "w' = dispose_world lc (hd (mailbox_contents mb)) w1"
      and "mb' = ev_mailbox_record_high_watermark
                   (count_posted (appended m (count_dropped (beheaded blank mb))))"
    | (merged) "rc = EV_OK" and "ev_msg_validate (Some m) = EV_OK" and "w' = w"
      and "mb_kind mb = EV_MAILBOX_COALESCED_FLAG" and "mb_count mb = 1"
      and "msg_event_id (hd (mailbox_contents mb)) = msg_event_id m"
      and "msg_storage m = EV_MSG_STORAGE_NONE" and "mb' = count_coalesced mb"
proof (cases "ev_msg_validate (Some m) = EV_OK")
  case False
  then show thesis using p rejected by (simp add: mailbox_push_def)
next
  case v: True
  show thesis
  proof (cases "mb_kind mb")
    case EV_MAILBOX_FIFO_8
    then have "push_fifo lc mb m w = (rc, mb', w')" using p v by (simp add: mailbox_push_def)
    then show thesis by (rule push_fifo_outcome [OF wf]) (use v rejected posted in simp_all)
  next
    case EV_MAILBOX_FIFO_16
    then have "push_fifo lc mb m w = (rc, mb', w')" using p v by (simp add: mailbox_push_def)
    then show thesis by (rule push_fifo_outcome [OF wf]) (use v rejected posted in simp_all)
  next
    case EV_MAILBOX_MAILBOX_1
    then have "push_mailbox_1 lc mb m w = (rc, mb', w')" and one: "ev_mailbox_kind_capacity (mb_kind mb) = 1"
      using p v by (simp_all add: mailbox_push_def)
    then show thesis
      by (rule_tac push_mailbox_1_outcome [OF wf one])
        (use v rejected posted replaced EV_MAILBOX_MAILBOX_1 in auto)
  next
    case EV_MAILBOX_LOSSY_RING_8
    then have "push_lossy lc mb m w = (rc, mb', w')" using p v by (simp add: mailbox_push_def)
    then show thesis
      by (rule push_lossy_outcome [OF wf]) (use v rejected posted evicted EV_MAILBOX_LOSSY_RING_8 in auto)
  next
    case EV_MAILBOX_COALESCED_FLAG
    note S = single_slot_wf [OF wf]
    have one: "ev_mailbox_kind_capacity (mb_kind mb) = 1" using EV_MAILBOX_COALESCED_FLAG by simp
    have r: "push_coalesced_flag mb m = (rc, mb')" and w': "w' = w"
      using p v EV_MAILBOX_COALESCED_FLAG by (auto simp: mailbox_push_def split: prod.splits)
    show thesis
    proof (cases "msg_storage m \<noteq> EV_MSG_STORAGE_NONE \<or> msg_payload_size m \<noteq> 0")
      case True
      then show thesis using r w' rejected by (auto simp: push_coalesced_flag_def)
    next
      case st: False
      show thesis
      proof (cases "mb_count mb = 0")
        case True
        then show thesis
          using r w' v st S [OF one] one posted appended_single [OF wf one]
          by (auto simp: push_coalesced_flag_def ev_mailbox_store_at_def ev_mailbox_retain_for_queue_def)
      next
        case False
        then have c1: "mb_count mb = 1" using S(3) [OF one] by simp
        have "mb_slots mb ! 0 = hd (mailbox_contents mb)"
          using mailbox_head_slot [OF wf] S(1) [OF one] c1 by simp
        then show thesis
          using r w' v st c1 merged rejected EV_MAILBOX_COALESCED_FLAG
          by (auto simp: push_coalesced_flag_def split: if_splits)
      qed
    qed
  next
    case (EV_MAILBOX_KIND_OTHER x)
    then show thesis using mailbox_wf_D(1) [OF wf] by simp
  qed
qed

section \<open>The scan for a pending event\<close>

text \<open>The offset of the first, or the last, pending message of an event.\<close>

definition pending_offsets :: "ev_mailbox \<Rightarrow> ev_event_id \<Rightarrow> nat list" where
  "pending_offsets mb e = filter (\<lambda>k. msg_event_id (mailbox_contents mb ! k) = e) [0..<mb_count mb]"

lemma mailbox_find_from_eq:
  assumes wf: "mailbox_wf mb"
  shows "i + n = mb_count mb \<Longrightarrow> mailbox_find_from mb e latest i n found
    = (let ks = filter (\<lambda>k. msg_event_id (mailbox_contents mb ! k) = e) [i..<mb_count mb];
           slot = (\<lambda>k. Some ((mb_head mb + k) mod ev_mailbox_kind_capacity (mb_kind mb)))
       in if ks = [] then found else if latest then slot (last ks) else slot (hd ks))"
proof (induction n arbitrary: i found)
  case 0
  then show ?case by simp
next
  case (Suc n)
  then have i: "i < mb_count mb" by simp
  have ix: "ev_mailbox_pending_index_at mb i
      = Some ((mb_head mb + i) mod ev_mailbox_kind_capacity (mb_kind mb))"
    using i mailbox_mask [OF wf] by (simp add: ev_mailbox_pending_index_at_def)
  have sl: "mb_slots mb ! ((mb_head mb + i) mod ev_mailbox_kind_capacity (mb_kind mb))
      = mailbox_contents mb ! i"
    by (rule mailbox_pending_slot [OF wf i])
  have up: "[i..<mb_count mb] = i # [Suc i..<mb_count mb]" using i by (rule upt_conv_Cons)
  show ?case
    using Suc.IH [of "Suc i"] Suc.prems by (cases latest) (simp_all add: ix sl up Let_def)
qed

lemma find_event_slot_eq:
  assumes wf: "mailbox_wf mb"
  shows "ev_mailbox_find_event_slot mb e latest
    = (if pending_offsets mb e = [] then None
       else Some ((mb_head mb + (if latest then last (pending_offsets mb e) else hd (pending_offsets mb e)))
                  mod ev_mailbox_kind_capacity (mb_kind mb)))"
proof -
  have "mb_storage mb \<noteq> None" using mailbox_wf_D(2) [OF wf] by (metis option.distinct(1))
  then show ?thesis
    using mailbox_find_from_eq [OF wf, of 0 "mb_count mb" e latest None]
    by (auto simp: ev_mailbox_find_event_slot_def pending_offsets_def Let_def)
qed

lemma pending_event_iff:
  assumes "mailbox_wf mb"
  shows "pending_offsets mb e = [] \<longleftrightarrow> \<not> (\<exists>n \<in> set (mailbox_contents mb). msg_event_id n = e)"
proof -
  have "pending_offsets mb e = [] \<longleftrightarrow> (\<forall>k < mb_count mb. msg_event_id (mailbox_contents mb ! k) \<noteq> e)"
    by (auto simp: pending_offsets_def filter_empty_conv)
  also have "\<dots> \<longleftrightarrow> (\<forall>n \<in> set (mailbox_contents mb). msg_event_id n \<noteq> e)"
    by (simp add: all_set_conv_all_nth length_mailbox_contents [OF assms])
  finally show ?thesis by simp
qed

lemma pending_offset_lt:
  assumes "pending_offsets mb e \<noteq> []"
  shows "last (pending_offsets mb e) < mb_count mb"
    and "msg_event_id (mailbox_contents mb ! last (pending_offsets mb e)) = e"
  using last_in_set [OF assms] by (auto simp: pending_offsets_def)

lemma replace_slot_outcome:
  assumes wf: "mailbox_wf mb" and k: "k < mb_count mb"
    and p: "ev_mailbox_replace_slot lc mb ((mb_head mb + k) mod ev_mailbox_kind_capacity (mb_kind mb)) m w
          = (rc, mb', w')"
  obtains (unretained) "rc \<noteq> EV_OK" and "ev_mailbox_retain_for_queue lc m w = (rc, w')" and "mb' = mb"
    | (replaced) w1 where "rc = EV_OK" and "ev_mailbox_retain_for_queue lc m w = (EV_OK, w1)"
      and "w' = dispose_world lc (mailbox_contents mb ! k) w1" and "mb' = overwritten k m mb"
proof -
  let ?ix = "(mb_head mb + k) mod ev_mailbox_kind_capacity (mb_kind mb)"
  have ix: "?ix < ev_mailbox_kind_capacity (mb_kind mb)" using mailbox_wf_D(1) [OF wf] by simp
  obtain rc1 w1 where r: "ev_mailbox_retain_for_queue lc m w = (rc1, w1)" by (metis prod.collapse)
  show thesis
  proof (cases "rc1 = EV_OK")
    case True
    then show thesis
      using p r replaced dispose_slot_eq [OF wf ix, of lc w1] ix mailbox_wf_D(4) [OF wf]
        mailbox_pending_slot [OF wf k]
      by (simp add: ev_mailbox_replace_slot_def ev_mailbox_store_at_def overwritten_def)
  qed (use p r unretained in \<open>simp add: ev_mailbox_replace_slot_def\<close>)
qed

section \<open>Refinement: mailboxes as lists\<close>

text \<open>What each discipline promises about the pending messages, oldest first.\<close>

fun spec_push :: "ev_mailbox_kind \<Rightarrow> ev_msg list \<Rightarrow> ev_msg \<Rightarrow> ev_msg list" where
  "spec_push EV_MAILBOX_MAILBOX_1 q m = [m]"
| "spec_push EV_MAILBOX_LOSSY_RING_8 q m = (if length q < 8 then q else tl q) @ [m]"
| "spec_push EV_MAILBOX_COALESCED_FLAG q m = (if q = [] then [m] else q)"
| "spec_push _ q m = q @ [m]"

definition replace_last_event :: "ev_msg list \<Rightarrow> ev_msg \<Rightarrow> ev_msg list" where
  "replace_last_event q m =
     q[last (filter (\<lambda>k. msg_event_id (q ! k) = msg_event_id m) [0..<length q]) := m]"

text \<open>QoS first merges into, or overwrites, a pending message of the same event; a full mailbox drops
  the new message; otherwise the discipline decides.\<close>

definition spec_push_qos :: "ev_mailbox_kind \<Rightarrow> ev_route_qos \<Rightarrow> ev_msg list \<Rightarrow> ev_msg \<Rightarrow> ev_msg list" where
  "spec_push_qos kind qos q m =
     (if qos = EV_ROUTE_QOS_COALESCED \<or> qos = EV_ROUTE_QOS_LATEST_ONLY
      then if \<exists>n \<in> set q. msg_event_id n = msg_event_id m
           then if qos = EV_ROUTE_QOS_LATEST_ONLY then replace_last_event q m else q
           else if length q < ev_mailbox_kind_capacity kind then spec_push kind q m else q
      else spec_push kind q m)"

lemma watermark_wf:
  assumes "mailbox_wf mb"
  shows "ev_mailbox_record_high_watermark mb = mb"
  using assms by (auto simp: mailbox_wf_def Let_def ev_mailbox_record_high_watermark_def)

lemma count_frame_posted [simp]: "mb_count (count_dropped mb) = mb_count mb"
  "mb_kind (count_dropped mb) = mb_kind mb" "mailbox_wf (count_dropped mb) = mailbox_wf mb"
  "mailbox_contents (count_dropped mb) = mailbox_contents mb"
  by simp_all

lemma mailbox_push_refines:
  assumes wf: "mailbox_wf mb" and p: "mailbox_push lc mb m w = (rc, mb', w')"
  shows "mailbox_wf mb'" and "mb_kind mb' = mb_kind mb"
    and "mailbox_contents mb'
      = (if rc = EV_OK then spec_push (mb_kind mb) (mailbox_contents mb) m else mailbox_contents mb)"
proof -
  note len = length_mailbox_contents [OF wf]
  have "mailbox_wf mb' \<and> mb_kind mb' = mb_kind mb \<and> mailbox_contents mb'
      = (if rc = EV_OK then spec_push (mb_kind mb) (mailbox_contents mb) m else mailbox_contents mb)"
    using wf p
  proof (cases rule: mailbox_push_outcome)
    case rejected
    then show ?thesis using wf by simp
  next
    case posted
    have "spec_push (mb_kind mb) (mailbox_contents mb) m = mailbox_contents mb @ [m]"
      using posted(4) len by (cases "mb_kind mb") auto
    then show ?thesis using posted appended_ok [OF wf posted(4), of m] by simp
  next
    case (replaced w1)
    have c: "0 < mb_count mb" using replaced by simp
    have wf2: "mailbox_wf (count_replaced (overwritten 0 m mb))"
      using overwritten_ok(1) [OF wf c] by simp
    obtain x where "mailbox_contents mb = [x]"
      using len replaced by (metis One_nat_def length_0_conv length_Suc_conv)
    then show ?thesis
      using replaced overwritten_ok [OF wf c, of m] watermark_wf [OF wf2] by simp
  next
    case (evicted w1)
    have c: "0 < mb_count mb" using evicted mailbox_wf_D(1) [OF wf] by simp
    let ?b = "count_dropped (beheaded blank mb)"
    note B = beheaded_ok [OF wf c blank_no_share]
    have wfb: "mailbox_wf ?b" and room: "mb_count ?b < ev_mailbox_kind_capacity (mb_kind ?b)"
      using B evicted c by simp_all
    show ?thesis
      using appended_ok [OF wfb room, of m] B evicted len by simp
  next
    case merged
    then have "mailbox_contents mb \<noteq> []" using len by auto
    then show ?thesis using merged wf by simp
  qed
  then show "mailbox_wf mb'" "mb_kind mb' = mb_kind mb" "mailbox_contents mb'
      = (if rc = EV_OK then spec_push (mb_kind mb) (mailbox_contents mb) m else mailbox_contents mb)"
    by simp_all
qed

lemma push_and_report_refines:
  assumes "mailbox_wf mb" and "push_and_report lc mb m w = (rc, rep, mb', w')"
  shows "mailbox_wf mb' \<and> mb_kind mb' = mb_kind mb \<and> mailbox_contents mb'
      = (if rc = EV_OK then spec_push (mb_kind mb) (mailbox_contents mb) m else mailbox_contents mb)"
proof -
  obtain rc1 mb1 w1 where p: "mailbox_push lc mb m w = (rc1, mb1, w1)" by (metis prod.collapse)
  then have "rc = rc1" "mb' = mb1" using assms(2) by (simp_all add: push_and_report_def Let_def)
  then show ?thesis using mailbox_push_refines [OF assms(1) p] by simp
qed

text \<open>The common tail of both merging QoS paths, when no pending message matches.\<close>

lemma push_unmatched:
  assumes wf: "mailbox_wf mb"
    and p: "(if mb_storage_count mb \<le> mb_count mb then (EV_OK, r0, count_dropped mb, w)
             else push_and_report lc mb m w) = (rc, rep, mb', w')"
  shows "mailbox_wf mb' \<and> mb_kind mb' = mb_kind mb \<and> mailbox_contents mb'
      = (if rc = EV_OK
         then (if length (mailbox_contents mb) < ev_mailbox_kind_capacity (mb_kind mb)
               then spec_push (mb_kind mb) (mailbox_contents mb) m else mailbox_contents mb)
         else mailbox_contents mb)"
proof (cases "mb_storage_count mb \<le> mb_count mb")
  case True
  then have "\<not> length (mailbox_contents mb) < ev_mailbox_kind_capacity (mb_kind mb)"
    using length_mailbox_contents [OF wf] mailbox_wf_D(4) [OF wf] by simp
  moreover have "rc = EV_OK" "mb' = count_dropped mb" using p True by simp_all
  ultimately show ?thesis using wf by simp
next
  case False
  then have "length (mailbox_contents mb) < ev_mailbox_kind_capacity (mb_kind mb)"
    using length_mailbox_contents [OF wf] mailbox_wf_D(4) [OF wf] by simp
  moreover have "push_and_report lc mb m w = (rc, rep, mb', w')" using p False by simp
  ultimately show ?thesis using push_and_report_refines [OF wf, of lc m w rc rep mb' w'] by simp
qed

lemma mailbox_push_qos_refines:
  assumes wf: "mailbox_wf mb" and p: "mailbox_push_qos lc mb m qos w = (rc, rep, mb', w')"
  shows "mailbox_wf mb' \<and> mb_kind mb' = mb_kind mb \<and> mailbox_contents mb'
      = (if rc = EV_OK then spec_push_qos (mb_kind mb) qos (mailbox_contents mb) m else mailbox_contents mb)"
proof (cases "ev_msg_validate (Some m) = EV_OK")
  case False
  then show ?thesis using p wf by (auto simp: mailbox_push_qos_def Let_def)
next
  case v: True
  note len = length_mailbox_contents [OF wf]
  let ?ks = "pending_offsets mb (msg_event_id m)"
  consider (co) "qos = EV_ROUTE_QOS_COALESCED" | (la) "qos = EV_ROUTE_QOS_LATEST_ONLY"
    | (other) "qos \<noteq> EV_ROUTE_QOS_COALESCED" "qos \<noteq> EV_ROUTE_QOS_LATEST_ONLY" by blast
  then show ?thesis
  proof cases
    case co
    then have q: "ev_mailbox_push_coalesced lc mb m w = (rc, rep, mb', w')"
      using p v by (simp add: mailbox_push_qos_def)
    show ?thesis
    proof (cases "?ks = []")
      case True
      have spec: "spec_push_qos (mb_kind mb) qos (mailbox_contents mb) m
          = (if length (mailbox_contents mb) < ev_mailbox_kind_capacity (mb_kind mb)
             then spec_push (mb_kind mb) (mailbox_contents mb) m else mailbox_contents mb)"
        using True co pending_event_iff [OF wf, of "msg_event_id m"] by (simp add: spec_push_qos_def)
      have "(if mb_storage_count mb \<le> mb_count mb
          then (EV_OK, ev_mailbox_report_fill EV_MAILBOX_DELIVERY_DROPPED EV_OK (mb_count mb)
                  (mb_count mb) None, count_dropped mb, w)
          else push_and_report lc mb m w) = (rc, rep, mb', w')"
        unfolding q [symmetric] ev_mailbox_push_coalesced_def Let_def find_event_slot_eq [OF wf]
        by (simp only: True option.case if_True simp_thms)
      then show ?thesis
        unfolding spec by (rule push_unmatched [OF wf])
    next
      case False
      then show ?thesis
        using q co wf pending_event_iff [OF wf, of "msg_event_id m"]
        by (auto simp: ev_mailbox_push_coalesced_def find_event_slot_eq [OF wf] spec_push_qos_def)
    qed
  next
    case la
    then have q: "ev_mailbox_push_latest_only lc mb m w = (rc, rep, mb', w')"
      using p v by (simp add: mailbox_push_qos_def)
    show ?thesis
    proof (cases "?ks = []")
      case True
      have spec: "spec_push_qos (mb_kind mb) qos (mailbox_contents mb) m
          = (if length (mailbox_contents mb) < ev_mailbox_kind_capacity (mb_kind mb)
             then spec_push (mb_kind mb) (mailbox_contents mb) m else mailbox_contents mb)"
        using True la pending_event_iff [OF wf, of "msg_event_id m"] by (simp add: spec_push_qos_def)
      have "(if mb_storage_count mb \<le> mb_count mb
          then (EV_OK, ev_mailbox_report_fill EV_MAILBOX_DELIVERY_DROPPED EV_OK (mb_count mb)
                  (mb_count mb) None, count_dropped mb, w)
          else push_and_report lc mb m w) = (rc, rep, mb', w')"
        unfolding q [symmetric] ev_mailbox_push_latest_only_def Let_def find_event_slot_eq [OF wf]
        by (simp only: True option.case if_True simp_thms)
      then show ?thesis
        unfolding spec by (rule push_unmatched [OF wf])
    next
      case False
      note k = pending_offset_lt(1) [OF False]
      obtain rc1 mb1 w1 where r: "ev_mailbox_replace_slot lc mb
          ((mb_head mb + last ?ks) mod ev_mailbox_kind_capacity (mb_kind mb)) m w = (rc1, mb1, w1)"
        by (metis prod.collapse)
      have res: "rc = rc1" "mb' = (if rc1 = EV_OK then count_replaced mb1 else count_rejected mb1)"
        using q r False by (auto simp: ev_mailbox_push_latest_only_def find_event_slot_eq [OF wf] Let_def
            split: if_splits)
      have spec: "spec_push_qos (mb_kind mb) qos (mailbox_contents mb) m
          = (mailbox_contents mb)[last ?ks := m]"
        using la pending_event_iff [OF wf, of "msg_event_id m"] False len
        by (simp add: spec_push_qos_def replace_last_event_def pending_offsets_def)
      show ?thesis
        by (rule replace_slot_outcome [OF wf k r])
          (use res spec wf overwritten_ok [OF wf k, of m] in simp_all)
    qed
  next
    case other
    then have "push_and_report lc mb m w = (rc, rep, mb', w')"
      using p v by (simp add: mailbox_push_qos_def)
    from push_and_report_refines [OF wf this] show ?thesis
      using other by (simp add: spec_push_qos_def)
  qed
qed

section \<open>Popping, initialising, resetting\<close>

lemma pop_single_eq:
  assumes wf: "mailbox_wf mb" and one: "ev_mailbox_kind_capacity (mb_kind mb) = 1" and c: "mb_count mb = 1"
  shows "beheaded blank mb = mb\<lparr>mb_storage := Some ((mb_slots mb)[0 := blank]), mb_count := 0\<rparr>"
  using single_slot_wf(1) [OF wf one] one c by (cases mb) (simp add: beheaded_def)

lemma mailbox_pop_eq:
  assumes wf: "mailbox_wf mb"
  shows "mailbox_pop mb = (if mb_count mb = 0 then (EV_ERR_EMPTY, None, mb)
     else (EV_OK, Some (hd (mailbox_contents mb)), count_popped (beheaded blank mb)))"
proof (cases "mb_count mb = 0")
  case True
  then show ?thesis by (simp add: mailbox_pop_def)
next
  case False
  then have c: "0 < mb_count mb" by simp
  note head = mailbox_head_slot [OF wf c]
  have ring: "pop_ring mb = (EV_OK, Some (hd (mailbox_contents mb)), count_popped (beheaded blank mb))"
    using head mailbox_mask [OF wf, of "Suc (mb_head mb)"]
    by (simp add: pop_ring_def Let_def beheaded_def ev_mailbox_index_advance_def reset_blank)
  have single: "pop_single mb = (EV_OK, Some (hd (mailbox_contents mb)), count_popped (beheaded blank mb))"
    if one: "ev_mailbox_kind_capacity (mb_kind mb) = 1"
  proof -
    have "mb_count mb = 1" "mb_head mb = 0" using single_slot_wf [OF wf one] c by simp_all
    then show ?thesis
      using head by (simp add: pop_single_def Let_def pop_single_eq [OF wf one] reset_blank)
  qed
  show ?thesis
    using c ring single mailbox_wf_D(1) [OF wf]
    by (cases "mb_kind mb") (simp_all add: mailbox_pop_def)
qed

lemma mailbox_pop_refines:
  assumes wf: "mailbox_wf mb" and p: "mailbox_pop mb = (rc, r, mb')"
  shows "mailbox_wf mb'" and "mb_kind mb' = mb_kind mb"
    and "mailbox_contents mb = (case r of None \<Rightarrow> [] | Some m \<Rightarrow> [m]) @ mailbox_contents mb'"
    and "r = None \<longleftrightarrow> mailbox_contents mb = []"
    and "rc = (if r = None then EV_ERR_EMPTY else EV_OK)"
proof -
  note len = length_mailbox_contents [OF wf]
  have "mailbox_wf mb' \<and> mb_kind mb' = mb_kind mb
      \<and> mailbox_contents mb = (case r of None \<Rightarrow> [] | Some m \<Rightarrow> [m]) @ mailbox_contents mb'
      \<and> (r = None \<longleftrightarrow> mailbox_contents mb = []) \<and> rc = (if r = None then EV_ERR_EMPTY else EV_OK)"
  proof (cases "mb_count mb = 0")
    case True
    then show ?thesis using p len wf by (simp add: mailbox_pop_eq [OF wf])
  next
    case False
    then have "0 < mb_count mb" and ne: "mailbox_contents mb \<noteq> []" using len by auto
    then show ?thesis
      using p False beheaded_ok [OF wf _ blank_no_share] by (auto simp: mailbox_pop_eq [OF wf])
  qed
  then show "mailbox_wf mb'" "mb_kind mb' = mb_kind mb"
    "mailbox_contents mb = (case r of None \<Rightarrow> [] | Some m \<Rightarrow> [m]) @ mailbox_contents mb'"
    "r = None \<longleftrightarrow> mailbox_contents mb = []" "rc = (if r = None then EV_ERR_EMPTY else EV_OK)"
    by simp_all
qed

lemma ev_mailbox_init_wf:
  assumes "ev_mailbox_init pmb kind storage n = (EV_OK, pmb')"
  obtains mb where "pmb' = Some mb" and "mailbox_wf mb" and "mb_kind mb = kind" and "mailbox_contents mb = []"
proof -
  have k: "0 < ev_mailbox_kind_capacity kind" and n: "n = ev_mailbox_kind_capacity kind"
    and mb: "pmb' = Some \<lparr>mb_kind = kind, mb_storage = Some (replicate n zero_msg),
              mb_storage_count = n, mb_storage_mask = n - 1, mb_head = 0,
              mb_tail = 0, mb_count = 0, mb_stats = zero_mailbox_stats\<rparr>"
    using assms by (auto simp: ev_mailbox_init_def ev_mailbox_kind_is_known_def split: if_splits)
  have "\<not> msg_holds_share zero_msg"
    by (simp add: msg_holds_share_def zero_msg_def)
  then show thesis
    using k n by (intro that [OF mb])
      (simp_all add: mailbox_wf_def mailbox_contents_def mailbox_rotation_def zero_mailbox_stats_def)
qed

text \<open>Every capacity of the kind table passes the power-of-two check of \<open>ev_mailbox_init\<close>.\<close>

lemma ev_mailbox_init_accepts:
  assumes "ev_mailbox_kind_is_known kind"
  shows "fst (ev_mailbox_init (Some mb) kind (Some storage) (ev_mailbox_kind_capacity kind)) = EV_OK"
proof -
  have "ev_mailbox_capacity_is_power_of_two (ev_mailbox_kind_capacity kind)"
    using assms by (cases kind) (simp_all add: ev_mailbox_kind_is_known_def ev_mailbox_capacity_is_power_of_two_def)
  then show ?thesis using assms by (simp add: ev_mailbox_init_def)
qed

lemma mailbox_dispose_all_eq:
  assumes "mb_storage mb = Some xs" and "mb_storage_count mb = length xs" and "i + n = length xs"
  shows "mailbox_dispose_all lc i n mb w
    = (mb\<lparr>mb_storage := Some (take i xs @ replicate n blank)\<rparr>, fold (dispose_world lc) (drop i xs) w)"
  using assms
proof (induction n arbitrary: i mb w xs)
  case 0
  then show ?case by (cases mb) simp
next
  case (Suc n)
  then have i: "i < length xs" by simp
  obtain m' w' where d: "ev_msg_dispose lc (Some (xs ! i)) w = (EV_OK, Some m', w')"
    using ev_msg_dispose_Some [of lc "xs ! i" w] by auto
  let ?mb = "mb\<lparr>mb_storage := Some (xs[i := blank])\<rparr>"
  have step: "ev_mailbox_dispose_slot lc mb i w = (EV_OK, ?mb, dispose_world lc (xs ! i) w)"
    using Suc.prems i d by (simp add: ev_mailbox_dispose_slot_def dispose_world_def reset_blank)
  have rest: "mailbox_dispose_all lc (Suc i) n ?mb (dispose_world lc (xs ! i) w)
      = (?mb\<lparr>mb_storage := Some (take (Suc i) (xs[i := blank]) @ replicate n blank)\<rparr>,
         fold (dispose_world lc) (drop (Suc i) (xs[i := blank])) (dispose_world lc (xs ! i) w))"
    by (rule Suc.IH) (use Suc.prems in simp_all)
  have "drop i xs = xs ! i # drop (Suc i) xs" using i by (simp add: Cons_nth_drop_Suc)
  moreover have "take (Suc i) (xs[i := blank]) = take i xs @ [blank]"
    using i by (simp add: take_Suc_conv_app_nth)
  ultimately show ?case
    by (simp add: step rest)
qed

lemma ev_mailbox_reset_eq:
  assumes wf: "mailbox_wf mb"
  obtains mb' where "ev_mailbox_reset lc (Some mb) w = (EV_OK, Some mb', fold (dispose_world lc) (mb_slots mb) w)"
    and "mailbox_wf mb'" and "mb_kind mb' = mb_kind mb" and "mailbox_contents mb' = []"
proof -
  note D = mailbox_wf_D [OF wf]
  let ?n = "ev_mailbox_kind_capacity (mb_kind mb)"
  let ?mb = "mb\<lparr>mb_storage := Some (replicate ?n blank), mb_head := 0, mb_tail := 0, mb_count := 0,
      mb_stats := zero_mailbox_stats\<rparr>"
  have ne: "mb_storage mb \<noteq> None" using D(2) by (metis option.distinct(1))
  have "ev_mailbox_reset lc (Some mb) w = (EV_OK, Some ?mb, fold (dispose_world lc) (mb_slots mb) w)"
    using mailbox_dispose_all_eq [of mb "mb_slots mb" 0 ?n lc w] D(3,4) ne
    by (simp add: ev_mailbox_reset_def)
  moreover have "mailbox_wf ?mb"
    using D by (simp add: mailbox_wf_def mailbox_rotation_def zero_mailbox_stats_def)
  ultimately show thesis by (rule that) (simp_all add: mailbox_contents_def)
qed

section \<open>Payload shares of queued messages\<close>

text \<open>The client side of the contract: a mailbox whose payload callbacks belong to such an owner.\<close>

locale leased_mailbox = payload_owner lc inv live shares max_shares
  for lc :: "'w ev_lifecycle" and inv :: "'w \<Rightarrow> bool"
    and live :: "'w \<Rightarrow> ev_msg_external_payload \<Rightarrow> bool" and shares :: "'w \<Rightarrow> ptr \<Rightarrow> nat"
    and max_shares :: nat
begin

lemma dispose_world_accounted:
  "accounted w (m # ms) others \<Longrightarrow> accounted (dispose_world lc m w) ms others"
  unfolding dispose_world_def
  by (cases "ev_msg_dispose lc (Some m) w") (auto dest: dispose_accounted)

lemma dispose_all_accounted:
  "accounted w (ms @ ns) others \<Longrightarrow> accounted (fold (dispose_world lc) ms w) ns others"
  by (induction ms arbitrary: w) (auto dest: dispose_world_accounted)

text \<open>The share a valid message takes into a queue.\<close>

lemma retain_for_queue_accounted:
  assumes v: "ev_msg_validate (Some m) = EV_OK" and acc: "accounted w (m # ms) others"
    and room: "msg_holds_share m \<Longrightarrow> shares w (ext_lifecycle_ctx (msg_external m)) < max_shares"
  shows "\<exists>w1. ev_mailbox_retain_for_queue lc m w = (EV_OK, w1) \<and> accounted w1 (m # m # ms) others"
proof (cases "msg_storage m = EV_MSG_STORAGE_EXTERNAL")
  case False
  then have "\<not> msg_holds_share m" by (simp add: msg_holds_share_def)
  then show ?thesis using False acc by (simp add: ev_mailbox_retain_for_queue_def accounted_no_share)
next
  case True
  obtain meta rf lf d where meta: "ev_event_meta (msg_event_id m) = Some meta"
      "evm_payload_kind meta = EV_PAYLOAD_LEASE"
    and fns: "ext_retain_fn (msg_external m) = Some rf" "ext_release_fn (msg_external m) = Some lf"
    and sz: "ext_size (msg_external m) = msg_payload_size m" "0 < msg_payload_size m"
    by (rule ev_msg_validate_external [OF v True]) blast
  have ck: "ev_msg_has_cookie m" "\<not> ev_msg_is_disposed m" using ev_msg_validate_OK_D [OF v] by simp_all
  have share: "msg_holds_share m" using True fns sz ck by (simp add: msg_holds_share_def)
  have live: "msg_live w m" using acc by (simp add: accounted_def)
  have "ev_mailbox_retain_for_queue lc m w = run_retain lc (msg_external m) w"
    using True sz ck meta fns by (simp add: ev_mailbox_retain_for_queue_def ev_msg_retain_def run_retain_def)
  moreover obtain w1 where "run_retain lc (msg_external m) w = (EV_OK, w1)"
    and "accounted w1 (m # m # ms) others"
    using retain_accounted [OF acc live share room [OF share]] by auto
  ultimately show ?thesis by simp
qed

lemma mailbox_push_accounted:
  assumes wf: "mailbox_wf mb" and acc: "accounted w (m # mailbox_contents mb @ ms) others"
    and room: "msg_holds_share m \<Longrightarrow> shares w (ext_lifecycle_ctx (msg_external m)) < max_shares"
    and p: "mailbox_push lc mb m w = (rc, mb', w')"
  shows "accounted w' (m # mailbox_contents mb' @ ms) others"
proof -
  note ref = mailbox_push_refines [OF wf p]
  note len = length_mailbox_contents [OF wf]
  from wf p show ?thesis
  proof (cases rule: mailbox_push_outcome)
    case rejected
    have "w' = w"
    proof (rule ccontr)
      assume "w' \<noteq> w"
      with rejected have v: "ev_msg_validate (Some m) = EV_OK"
        and "ev_mailbox_retain_for_queue lc m w = (rc, w')" by auto
      then show False using retain_for_queue_accounted [OF v acc room] rejected(1) by auto
    qed
    then show ?thesis using acc ref rejected by simp
  next
    case posted
    then have "accounted w' (m # m # mailbox_contents mb @ ms) others"
      using retain_for_queue_accounted [OF posted(2) acc room] by auto
    moreover have "mailbox_contents mb' = mailbox_contents mb @ [m]"
      using posted appended_ok [OF wf posted(4)] by simp
    ultimately show ?thesis by (subst accounted_mset) simp_all
  next
    case (replaced w1)
    obtain x where x: "mailbox_contents mb = [x]"
      using len replaced by (metis One_nat_def length_0_conv length_Suc_conv)
    have "accounted w1 (m # m # x # ms) others"
      using retain_for_queue_accounted [OF replaced(2) acc room] replaced(3) x by auto
    then have "accounted w1 (x # m # m # ms) others" by (subst accounted_mset) simp_all
    then have "accounted w' (m # m # ms) others"
      using replaced(6) x by (auto dest: dispose_world_accounted)
    then show ?thesis using ref replaced by simp
  next
    case (evicted w1)
    have "mailbox_contents mb \<noteq> []" using len evicted mailbox_wf_D(1) [OF wf] by auto
    then obtain x xs where x: "mailbox_contents mb = x # xs" by (cases "mailbox_contents mb") auto
    have "accounted w1 (m # m # x # xs @ ms) others"
      using retain_for_queue_accounted [OF evicted(2) acc room] evicted(3) x by auto
    then have "accounted w1 (x # m # xs @ m # ms) others" by (subst accounted_mset) simp_all
    then have "accounted w' (m # xs @ m # ms) others"
      using evicted(6) x by (auto dest: dispose_world_accounted)
    moreover have "mailbox_contents mb' = xs @ [m]"
      using ref evicted len x by simp
    ultimately show ?thesis by simp
  next
    case merged
    then have "mailbox_contents mb \<noteq> []" using len by auto
    then show ?thesis using acc ref merged by simp
  qed
qed

lemma replace_slot_accounted:
  assumes wf: "mailbox_wf mb" and k: "k < mb_count mb" and v: "ev_msg_validate (Some m) = EV_OK"
    and acc: "accounted w (m # mailbox_contents mb @ ms) others"
    and room: "msg_holds_share m \<Longrightarrow> shares w (ext_lifecycle_ctx (msg_external m)) < max_shares"
    and p: "ev_mailbox_replace_slot lc mb ((mb_head mb + k) mod ev_mailbox_kind_capacity (mb_kind mb)) m w
          = (rc, mb', w')"
  shows "rc = EV_OK \<and> accounted w' (m # mailbox_contents mb' @ ms) others"
proof -
  obtain w1 where r: "ev_mailbox_retain_for_queue lc m w = (EV_OK, w1)"
    and acc1: "accounted w1 (m # m # mailbox_contents mb @ ms) others"
    using retain_for_queue_accounted [OF v acc room] by auto
  from wf k p show ?thesis
  proof (cases rule: replace_slot_outcome)
    case unretained
    then show ?thesis using r by simp
  next
    case (replaced w2)
    let ?q = "mailbox_contents mb"
    have kl: "k < length ?q" using k by (simp add: length_mailbox_contents [OF wf])
    have mm: "mset (?q ! k # m # ?q[k := m] @ ms) = mset (m # m # ?q @ ms)"
      using kl by (simp add: mset_update)
    have "accounted w2 (?q ! k # m # ?q[k := m] @ ms) others"
      using acc1 r replaced(2) accounted_mset [OF mm] by simp
    then have "accounted w' (m # ?q[k := m] @ ms) others"
      using replaced(3) by (auto dest: dispose_world_accounted)
    then show ?thesis using replaced overwritten_ok(2) [OF wf k] by simp
  qed
qed

lemma mailbox_push_qos_accounted:
  assumes wf: "mailbox_wf mb" and acc: "accounted w (m # mailbox_contents mb @ ms) others"
    and room: "msg_holds_share m \<Longrightarrow> shares w (ext_lifecycle_ctx (msg_external m)) < max_shares"
    and p: "mailbox_push_qos lc mb m qos w = (rc, rep, mb', w')"
  shows "accounted w' (m # mailbox_contents mb' @ ms) others"
proof (cases "ev_msg_validate (Some m) = EV_OK")
  case False
  then show ?thesis using p acc by (auto simp: mailbox_push_qos_def Let_def)
next
  case v: True
  let ?ks = "pending_offsets mb (msg_event_id m)"
  have plain: "accounted w' (m # mailbox_contents mb' @ ms) others"
    if "push_and_report lc mb m w = (rc, rep, mb', w')"
  proof -
    obtain rc1 mb1 w1 where q: "mailbox_push lc mb m w = (rc1, mb1, w1)" by (metis prod.collapse)
    then have "mb' = mb1" "w' = w1" using that by (simp_all add: push_and_report_def Let_def)
    then show ?thesis using mailbox_push_accounted [OF wf acc room q] by simp
  qed
  have tail: "accounted w' (m # mailbox_contents mb' @ ms) others"
    if t: "(if mb_storage_count mb \<le> mb_count mb then (EV_OK, r0, count_dropped mb, w)
        else push_and_report lc mb m w) = (rc, rep, mb', w')" for r0
  proof (cases "mb_storage_count mb \<le> mb_count mb")
    case True
    then show ?thesis using t acc by auto
  qed (use t plain in simp)
  consider (co) "qos = EV_ROUTE_QOS_COALESCED" | (la) "qos = EV_ROUTE_QOS_LATEST_ONLY"
    | (other) "qos \<noteq> EV_ROUTE_QOS_COALESCED" "qos \<noteq> EV_ROUTE_QOS_LATEST_ONLY" by blast
  then show ?thesis
  proof cases
    case co
    then have q: "ev_mailbox_push_coalesced lc mb m w = (rc, rep, mb', w')"
      using p v by (simp add: mailbox_push_qos_def)
    show ?thesis
    proof (cases "?ks = []")
      case True
      show ?thesis
        by (rule tail, unfold q [symmetric] ev_mailbox_push_coalesced_def Let_def find_event_slot_eq [OF wf],
            simp only: True option.case if_True simp_thms)
    next
      case False
      then show ?thesis using q acc
        by (auto simp: ev_mailbox_push_coalesced_def find_event_slot_eq [OF wf])
    qed
  next
    case la
    then have q: "ev_mailbox_push_latest_only lc mb m w = (rc, rep, mb', w')"
      using p v by (simp add: mailbox_push_qos_def)
    show ?thesis
    proof (cases "?ks = []")
      case True
      show ?thesis
        by (rule tail, unfold q [symmetric] ev_mailbox_push_latest_only_def Let_def find_event_slot_eq [OF wf],
            simp only: True option.case if_True simp_thms)
    next
      case False
      note k = pending_offset_lt(1) [OF False]
      obtain rc1 mb1 w1 where r: "ev_mailbox_replace_slot lc mb
          ((mb_head mb + last ?ks) mod ev_mailbox_kind_capacity (mb_kind mb)) m w = (rc1, mb1, w1)"
        by (metis prod.collapse)
      note R = replace_slot_accounted [OF wf k v acc room r]
      have "mb' = count_replaced mb1" "w' = w1"
        using q r False R by (simp_all add: ev_mailbox_push_latest_only_def find_event_slot_eq [OF wf] Let_def)
      then show ?thesis using R by simp
    qed
  next
    case other
    then show ?thesis using p v plain by (simp add: mailbox_push_qos_def)
  qed
qed

lemma mailbox_reset_accounted:
  assumes wf: "mailbox_wf mb" and acc: "accounted w (mailbox_contents mb @ ms) others"
  shows "accounted (fold (dispose_world lc) (mb_slots mb) w) ms others"
proof (rule dispose_all_accounted)
  let ?free = "drop (mb_count mb) (mailbox_rotation mb)"
  have "accounted w (?free @ mailbox_contents mb @ ms) others"
    using acc mailbox_wf_D(9) [OF wf] by (simp add: accounted_inert)
  moreover have "mset (mb_slots mb) = mset (mailbox_contents mb) + mset ?free"
    by (metis append_take_drop_id mailbox_contents_def mailbox_rotation_def mset_append mset_rotate)
  then have "mset (mb_slots mb @ ms) = mset (?free @ mailbox_contents mb @ ms)" by simp
  ultimately show "accounted w (mb_slots mb @ ms) others" using accounted_mset by blast
qed

end

section \<open>Mailboxes as queues\<close>

definition mailbox_enq :: "'w ev_lifecycle \<Rightarrow> ev_mailbox \<times> 'w \<Rightarrow> ev_msg \<Rightarrow> bool \<times> ev_mailbox \<times> 'w" where
  "mailbox_enq lc q m = (let (rc, mb, w) = mailbox_push lc (fst q) m (snd q) in (rc = EV_OK, mb, w))"

definition mailbox_deq :: "ev_mailbox \<times> 'w \<Rightarrow> ev_msg option \<times> ev_mailbox \<times> 'w" where
  "mailbox_deq q = (let (rc, r, mb) = mailbox_pop (fst q) in (r, mb, snd q))"

definition mailbox_of_kind :: "ev_mailbox_kind \<Rightarrow> ev_mailbox \<times> 'w \<Rightarrow> bool" where
  "mailbox_of_kind k q \<longleftrightarrow> mailbox_wf (fst q) \<and> mb_kind (fst q) = k"

definition queued :: "ev_mailbox \<times> 'w \<Rightarrow> ev_msg list" where
  "queued q = mailbox_contents (fst q)"

lemma mailbox_bounded_queue:
  "bounded_queue mailbox_deq queued (mailbox_of_kind k) (ev_mailbox_kind_capacity k)"
proof unfold_locales
  fix q :: "ev_mailbox \<times> 'w"
  assume inv: "mailbox_of_kind k q"
  then have wf: "mailbox_wf (fst q)" and k: "mb_kind (fst q) = k" by (simp_all add: mailbox_of_kind_def)
  show "length (queued q) \<le> ev_mailbox_kind_capacity k"
    using mailbox_bounded [OF wf] k by (simp add: queued_def)
  fix r q' assume "mailbox_deq q = (r, q')"
  then obtain rc where p: "mailbox_pop (fst q) = (rc, r, fst q')"
    by (auto simp: mailbox_deq_def split: prod.splits)
  note P = mailbox_pop_refines [OF wf p]
  show "mailbox_of_kind k q'" using P k by (simp add: mailbox_of_kind_def)
  show "r = None \<and> queued q' = []" if "queued q = []"
    using P(3,4) that by (auto simp: queued_def)
  show "r = Some x \<and> queued q' = xs" if "queued q = x # xs" for x xs
    using P(3,4) that by (auto simp: queued_def split: option.splits)
qed

lemma mailbox_bounded_fifo:
  fixes lc :: "'w ev_lifecycle"
  assumes append: "\<And>q m. spec_push k q m = q @ [m]"
  shows "bounded_fifo mailbox_deq queued (mailbox_of_kind k) (ev_mailbox_kind_capacity k) (mailbox_enq lc)"
proof (intro bounded_fifo.intro mailbox_bounded_queue bounded_fifo_axioms.intro)
  fix q :: "ev_mailbox \<times> 'w" and x ok q'
  assume inv: "mailbox_of_kind k q" and e: "mailbox_enq lc q x = (ok, q')"
  then have wf: "mailbox_wf (fst q)" and k: "mb_kind (fst q) = k" by (simp_all add: mailbox_of_kind_def)
  obtain rc where p: "mailbox_push lc (fst q) x (snd q) = (rc, fst q', snd q')" and ok: "ok = (rc = EV_OK)"
    using e by (auto simp: mailbox_enq_def split: prod.splits)
  note P = mailbox_push_refines [OF wf p]
  show "mailbox_of_kind k q'" using P k by (simp add: mailbox_of_kind_def)
  show "queued q' = queued q @ [x]" if "mailbox_enq lc q x = (True, q')"
    using P(3) e that ok append k by (simp add: queued_def)
  show "queued q' = queued q" if "mailbox_enq lc q x = (False, q')"
    using P(3) e that ok by (simp add: queued_def)
qed

interpretation fifo_8: bounded_fifo mailbox_deq queued "mailbox_of_kind EV_MAILBOX_FIFO_8" 8
    "mailbox_enq lc" for lc
  using mailbox_bounded_fifo [of EV_MAILBOX_FIFO_8 lc] by simp

interpretation fifo_16: bounded_fifo mailbox_deq queued "mailbox_of_kind EV_MAILBOX_FIFO_16" 16
    "mailbox_enq lc" for lc
  using mailbox_bounded_fifo [of EV_MAILBOX_FIFO_16 lc] by simp

text \<open>A message without an external payload needs no share, so a ring stores it unconditionally.\<close>

definition plain_valid :: "ev_msg \<Rightarrow> bool" where
  "plain_valid m \<longleftrightarrow> ev_msg_validate (Some m) = EV_OK \<and> msg_storage m \<noteq> EV_MSG_STORAGE_EXTERNAL"

lemma push_lossy_plain:
  assumes wf: "mailbox_wf mb" and k: "mb_kind mb = EV_MAILBOX_LOSSY_RING_8" and v: "plain_valid m"
  shows "fst (mailbox_push lc mb m w) = EV_OK"
proof -
  obtain rc mb' w' where p: "mailbox_push lc mb m w = (rc, mb', w')" by (metis prod.collapse)
  have q: "push_lossy lc mb m w = (rc, mb', w')" using p k v by (simp add: mailbox_push_def plain_valid_def)
  have "ev_mailbox_retain_for_queue lc m w = (EV_OK, w)"
    using v by (simp add: plain_valid_def ev_mailbox_retain_for_queue_def)
  with wf q have "rc = EV_OK" by (cases rule: push_lossy_outcome) auto
  then show ?thesis using p by simp
qed

definition mailbox_put :: "'w ev_lifecycle \<Rightarrow> ev_mailbox \<times> 'w \<Rightarrow> ev_msg \<Rightarrow> ev_mailbox \<times> 'w" where
  "mailbox_put lc q m = snd (mailbox_enq lc q m)"

interpretation lossy_8: lossy_ring mailbox_deq queued "mailbox_of_kind EV_MAILBOX_LOSSY_RING_8" 8
    "mailbox_put lc" plain_valid for lc :: "'w ev_lifecycle"
proof (intro lossy_ring.intro lossy_ring_axioms.intro)
  show "bounded_queue mailbox_deq queued (mailbox_of_kind EV_MAILBOX_LOSSY_RING_8) 8"
    using mailbox_bounded_queue [of EV_MAILBOX_LOSSY_RING_8] by simp
  show "0 < (8::nat)" by simp
  fix q :: "ev_mailbox \<times> 'w" and x
  assume inv: "mailbox_of_kind EV_MAILBOX_LOSSY_RING_8 q"
  then have wf: "mailbox_wf (fst q)" and k: "mb_kind (fst q) = EV_MAILBOX_LOSSY_RING_8"
    by (simp_all add: mailbox_of_kind_def)
  obtain rc mb' w' where p: "mailbox_push lc (fst q) x (snd q) = (rc, mb', w')" by (metis prod.collapse)
  have put: "mailbox_put lc q x = (mb', w')" by (simp add: mailbox_put_def mailbox_enq_def p)
  note P = mailbox_push_refines [OF wf p]
  show "mailbox_of_kind EV_MAILBOX_LOSSY_RING_8 (mailbox_put lc q x)"
    using P k by (simp add: mailbox_of_kind_def put)
  show "queued (mailbox_put lc q x) = (if length (queued q) < 8 then queued q else tl (queued q)) @ [x]"
    if "plain_valid x"
    using P(3) push_lossy_plain [OF wf k that, of lc "snd q"] p k by (simp add: queued_def put)
qed

section \<open>Properties\<close>

text \<open>
  C40: FIFO mailboxes deliver in order. Over any interleaving of pushes and pops on a well-formed FIFO
  mailbox, the messages popped followed by the messages still pending are the messages that were
  pending at the start followed by the accepted ones: nothing accepted is lost, duplicated or
  reordered, and the mailbox never holds more than its capacity.
\<close>

theorem fifo_mailbox_order:
  assumes "mailbox_wf mb" and "mb_kind mb = EV_MAILBOX_FIFO_8 \<or> mb_kind mb = EV_MAILBOX_FIFO_16"
    and "queue_run (mailbox_enq lc) mailbox_deq ops (mb, w) = (outs, accs, (mb', w'))"
  shows "outs @ mailbox_contents mb' = mailbox_contents mb @ accs \<and> mailbox_wf mb'
     \<and> length (mailbox_contents mb') \<le> ev_mailbox_kind_capacity (mb_kind mb)"
  using assms(2)
proof
  assume "mb_kind mb = EV_MAILBOX_FIFO_8"
  then show ?thesis
    using fifo_8.run_order [OF _ assms(3)] fifo_8.bounded [of "(mb', w')"] assms(1)
    by (simp add: mailbox_of_kind_def queued_def)
next
  assume "mb_kind mb = EV_MAILBOX_FIFO_16"
  then show ?thesis
    using fifo_16.run_order [OF _ assms(3)] fifo_16.bounded [of "(mb', w')"] assms(1)
    by (simp add: mailbox_of_kind_def queued_def)
qed

definition demo_fifo :: ev_mailbox where
  "demo_fifo = the (snd (ev_mailbox_init (Some \<lparr>mb_kind = EV_MAILBOX_FIFO_8, mb_storage = None,
     mb_storage_count = 0, mb_storage_mask = 0, mb_head = 0, mb_tail = 0, mb_count = 0,
     mb_stats = zero_mailbox_stats\<rparr>) EV_MAILBOX_FIFO_8 (Some []) 8))"

definition demo_msg :: "ev_event_id \<Rightarrow> ev_msg" where
  "demo_msg e = zero_msg\<lparr>msg_cookie := EV_MSG_COOKIE, msg_event_id := e, msg_source_actor := ACT_RUNTIME,
     msg_target_actor := ACT_APP\<rparr>"

theorem fifo_mailbox_order_witness:
  "\<exists>accs mb'. queue_run (mailbox_enq no_lifecycle) mailbox_deq
        [Enq (demo_msg EV_TICK_1S), Enq (demo_msg EV_BOOT_STARTED), Deq] (demo_fifo, ())
      = ([demo_msg EV_TICK_1S], accs, (mb', ()))
    \<and> [demo_msg EV_TICK_1S] @ mailbox_contents mb' = mailbox_contents demo_fifo @ accs
    \<and> length accs = 2"
proof -
  let ?r = "queue_run (mailbox_enq no_lifecycle) mailbox_deq
        [Enq (demo_msg EV_TICK_1S), Enq (demo_msg EV_BOOT_STARTED), Deq] (demo_fifo, ())"
  have e: "fst ?r = [demo_msg EV_TICK_1S]" "length (fst (snd ?r)) = 2" by code_simp+
  then obtain accs mb' where r: "?r = ([demo_msg EV_TICK_1S], accs, (mb', ()))" and l: "length accs = 2"
    by (cases ?r) auto
  have "mailbox_wf demo_fifo" "mb_kind demo_fifo = EV_MAILBOX_FIFO_8" by code_simp+
  then show ?thesis using fifo_mailbox_order [OF _ _ r] r l by blast
qed

text \<open>
  A lossy ring keeps the newest messages. Pushing any sequence of valid plain messages into a
  well-formed \<open>LOSSY_RING_8\<close> mailbox leaves exactly the last eight of all the messages it has seen,
  in order; only the oldest are evicted.
\<close>

theorem lossy_mailbox_keeps_latest:
  assumes "mailbox_wf mb" and "mb_kind mb = EV_MAILBOX_LOSSY_RING_8" and "list_all plain_valid ms"
  shows "mailbox_contents (fst (foldl (mailbox_put lc) (mb, w) ms))
     = drop (length (mailbox_contents mb @ ms) - 8) (mailbox_contents mb @ ms)
     \<and> mailbox_wf (fst (foldl (mailbox_put lc) (mb, w) ms))"
  using lossy_8.push_all_keeps_latest [of "(mb, w)" ms lc] assms
  by (simp add: mailbox_of_kind_def queued_def)

definition demo_lossy :: ev_mailbox where
  "demo_lossy = the (snd (ev_mailbox_init (Some demo_fifo) EV_MAILBOX_LOSSY_RING_8 (Some []) 8))"

theorem lossy_mailbox_keeps_latest_witness:
  "mailbox_contents (fst (foldl (mailbox_put no_lifecycle) (demo_lossy, ())
      (demo_msg EV_BOOT_STARTED # replicate 8 (demo_msg EV_TICK_1S))))
   = replicate 8 (demo_msg EV_TICK_1S)"
proof -
  let ?ms = "demo_msg EV_BOOT_STARTED # replicate 8 (demo_msg EV_TICK_1S)"
  have "mailbox_wf demo_lossy" "mb_kind demo_lossy = EV_MAILBOX_LOSSY_RING_8" "list_all plain_valid ?ms"
    and c: "mailbox_contents demo_lossy = []"
    by code_simp+
  from lossy_mailbox_keeps_latest [OF this(1-3), of no_lifecycle "()"] show ?thesis
    unfolding c by simp
qed

text \<open>
  C37: QoS delivery implements its specification. On a well-formed mailbox, \<open>ev_mailbox_push_qos\<close> either
  fails and leaves the pending messages alone, or turns them into exactly the list the discipline and
  the QoS class promise: coalesced delivery keeps a pending message of the same event, latest-only
  delivery overwrites the newest pending one in place, a full mailbox drops the new message of either
  class, and every other class follows the mailbox kind (append, overwrite, evict the oldest, merge a
  flag). The mailbox stays well formed and bounded.
\<close>

theorem push_qos_implements_spec:
  assumes "mailbox_wf mb"
    and "ev_mailbox_push_qos lc (Some mb) (Some m) qos w = (rc, rep, Some mb', w')"
  shows "mailbox_wf mb' \<and> mb_kind mb' = mb_kind mb
     \<and> length (mailbox_contents mb') \<le> ev_mailbox_kind_capacity (mb_kind mb)
     \<and> mailbox_contents mb'
       = (if rc = EV_OK then spec_push_qos (mb_kind mb) qos (mailbox_contents mb) m else mailbox_contents mb)"
proof -
  have "mb_storage mb \<noteq> None" using mailbox_wf_D(2) [OF assms(1)] by (metis option.distinct(1))
  then have "mailbox_push_qos lc mb m qos w = (rc, rep, mb', w')"
    using assms(2) by (auto simp: ev_mailbox_push_qos_def Let_def split: prod.splits)
  from mailbox_push_qos_refines [OF assms(1) this] mailbox_bounded [of mb'] show ?thesis by simp
qed

definition demo_fifo_2 :: ev_mailbox where
  "demo_fifo_2 = fst (foldl (mailbox_put no_lifecycle) (demo_fifo, ())
     [demo_msg EV_TICK_1S, demo_msg EV_BOOT_STARTED, demo_msg EV_TICK_1S])"

definition later_tick_msg :: ev_msg where
  "later_tick_msg = (demo_msg EV_TICK_1S)\<lparr>msg_source_actor := ACT_BOOT\<rparr>"

theorem push_qos_implements_spec_witness:
  "\<exists>rep mb'. ev_mailbox_push_qos no_lifecycle (Some demo_fifo_2) (Some later_tick_msg)
        EV_ROUTE_QOS_LATEST_ONLY () = (EV_OK, rep, Some mb', ())
     \<and> mailbox_contents mb' = [demo_msg EV_TICK_1S, demo_msg EV_BOOT_STARTED, later_tick_msg]"
proof -
  let ?r = "ev_mailbox_push_qos no_lifecycle (Some demo_fifo_2) (Some later_tick_msg)
        EV_ROUTE_QOS_LATEST_ONLY ()"
  have wf: "mailbox_wf demo_fifo_2" by code_simp
  have e: "fst ?r = EV_OK" "fst (snd (snd ?r)) \<noteq> None" by code_simp+
  have spec: "spec_push_qos (mb_kind demo_fifo_2) EV_ROUTE_QOS_LATEST_ONLY (mailbox_contents demo_fifo_2)
      later_tick_msg = [demo_msg EV_TICK_1S, demo_msg EV_BOOT_STARTED, later_tick_msg]"
    by code_simp
  obtain rep mb' where r: "?r = (EV_OK, rep, Some mb', ())"
    using e by (cases ?r) auto
  show ?thesis
    using push_qos_implements_spec [OF wf r] spec r by auto
qed

text \<open>
  A FIFO mailbox refuses exactly when it must. Pushing a valid message without an external payload
  succeeds if and only if there is room; on a full mailbox it reports \<open>EV_ERR_FULL\<close>; an invalid
  message is refused with the validator's error. No refusal changes the queue, and every refusal is
  counted.
\<close>

theorem fifo_push_decision:
  assumes "mailbox_wf mb" and "mb_kind mb = EV_MAILBOX_FIFO_8 \<or> mb_kind mb = EV_MAILBOX_FIFO_16"
    and "msg_storage m \<noteq> EV_MSG_STORAGE_EXTERNAL"
    and "ev_mailbox_push lc (Some mb) (Some m) w = (rc, Some mb', w')"
  shows "rc = (if ev_msg_validate (Some m) \<noteq> EV_OK then ev_msg_validate (Some m)
               else if length (mailbox_contents mb) < ev_mailbox_kind_capacity (mb_kind mb) then EV_OK
               else EV_ERR_FULL)
     \<and> w' = w \<and> (rc \<noteq> EV_OK \<longrightarrow> mb' = count_rejected mb)"
proof -
  note wf = assms(1)
  have "mb_storage mb \<noteq> None" using mailbox_wf_D(2) [OF wf] by (metis option.distinct(1))
  then have p: "mailbox_push lc mb m w = (rc, mb', w')"
    using assms(4) by (auto simp: ev_mailbox_push_def split: prod.splits)
  have r: "ev_mailbox_retain_for_queue lc m w = (EV_OK, w)"
    using assms(3) by (simp add: ev_mailbox_retain_for_queue_def)
  show ?thesis
  proof (cases "ev_msg_validate (Some m) = EV_OK")
    case False
    then show ?thesis using p by (simp add: mailbox_push_def)
  next
    case True
    then have q: "push_fifo lc mb m w = (rc, mb', w')"
      using p assms(2) by (auto simp: mailbox_push_def)
    show ?thesis
      by (rule push_fifo_outcome [OF wf q])
        (use True r length_mailbox_contents [OF wf] in simp_all)
  qed
qed

theorem fifo_push_decision_witness:
  "\<exists>mb'. ev_mailbox_push no_lifecycle (Some demo_fifo_2) (Some (demo_msg (-1))) ()
     = (ev_msg_validate (Some (demo_msg (-1))), Some mb', ())
   \<and> ev_msg_validate (Some (demo_msg (-1))) = EV_ERR_OUT_OF_RANGE \<and> mb' = count_rejected demo_fifo_2"
proof -
  let ?r = "ev_mailbox_push no_lifecycle (Some demo_fifo_2) (Some (demo_msg (-1))) ()"
  have wf: "mailbox_wf demo_fifo_2" and k: "mb_kind demo_fifo_2 = EV_MAILBOX_FIFO_8"
    and st: "msg_storage (demo_msg (-1)) \<noteq> EV_MSG_STORAGE_EXTERNAL"
    and e: "fst (snd ?r) \<noteq> None" and v: "ev_msg_validate (Some (demo_msg (-1))) = EV_ERR_OUT_OF_RANGE"
    by code_simp+
  obtain rc mb' where r: "?r = (rc, Some mb', ())" using e by (cases ?r) auto
  show ?thesis
    using fifo_push_decision [OF wf disjI1 [OF k] st r] v r by auto
qed

definition books_balance :: "ev_mailbox \<Rightarrow> bool" where
  "books_balance mb \<longleftrightarrow> of_nat (mb_count mb) = ms_posted (mb_stats mb) - ms_popped (mb_stats mb)"

lemma push_books:
  assumes wf: "mailbox_wf mb" and k: "mb_kind mb \<noteq> EV_MAILBOX_LOSSY_RING_8" and b: "books_balance mb"
    and p: "mailbox_push lc mb m w = (rc, mb', w')"
  shows "books_balance mb'"
  using wf p
proof (cases rule: mailbox_push_outcome)
  case rejected
  then show ?thesis using b by (simp add: books_balance_def count_defs)
next
  case posted
  then show ?thesis
    using b by (simp add: books_balance_def count_defs ev_mailbox_record_high_watermark_def appended_def)
next
  case (replaced w1)
  then show ?thesis
    using b by (simp add: books_balance_def count_defs ev_mailbox_record_high_watermark_def overwritten_def)
next
  case (evicted w1)
  then show ?thesis using k by simp
next
  case merged
  then show ?thesis using b by (simp add: books_balance_def count_defs)
qed

lemma books_balance_counts [simp]:
  "books_balance (count_dropped mb) = books_balance mb"
  "books_balance (count_replaced mb) = books_balance mb"
  "books_balance (count_coalesced mb) = books_balance mb"
  "books_balance (count_rejected mb) = books_balance mb"
  "books_balance (overwritten k m mb) = books_balance mb"
  by (simp_all add: books_balance_def count_defs overwritten_def)

lemma push_qos_books:
  assumes wf: "mailbox_wf mb" and k: "mb_kind mb \<noteq> EV_MAILBOX_LOSSY_RING_8" and b: "books_balance mb"
    and p: "mailbox_push_qos lc mb m qos w = (rc, rep, mb', w')"
  shows "books_balance mb'"
proof -
  obtain rc1 mb1 w1 where q: "mailbox_push lc mb m w = (rc1, mb1, w1)" by (metis prod.collapse)
  note pb = push_books [OF wf k b q]
  let ?ks = "pending_offsets mb (msg_event_id m)"
  obtain rc2 mb2 w2 where r: "ev_mailbox_replace_slot lc mb
      ((mb_head mb + last ?ks) mod ev_mailbox_kind_capacity (mb_kind mb)) m w = (rc2, mb2, w2)"
    by (metis prod.collapse)
  have rb: "books_balance mb2" if "?ks \<noteq> []"
    by (rule replace_slot_outcome [OF wf pending_offset_lt(1) [OF that] r]) (use b in simp_all)
  have tail: "books_balance mb'" if "(if mb_storage_count mb \<le> mb_count mb then (EV_OK, r0, count_dropped mb, w)
        else push_and_report lc mb m w) = (rc, rep, mb', w')" for r0
    using that pb b q by (auto simp: push_and_report_def Let_def split: if_splits)
  show ?thesis
  proof (cases "ev_msg_validate (Some m) = EV_OK")
    case False
    then show ?thesis using p b by (auto simp: mailbox_push_qos_def Let_def)
  next
    case v: True
    consider (co) "qos = EV_ROUTE_QOS_COALESCED" | (la) "qos = EV_ROUTE_QOS_LATEST_ONLY"
      | (other) "qos \<noteq> EV_ROUTE_QOS_COALESCED" "qos \<noteq> EV_ROUTE_QOS_LATEST_ONLY" by blast
    then show ?thesis
    proof cases
      case co
      then have c: "ev_mailbox_push_coalesced lc mb m w = (rc, rep, mb', w')"
        using p v by (simp add: mailbox_push_qos_def)
      show ?thesis
      proof (cases "?ks = []")
        case True
        show ?thesis
          by (rule tail, unfold c [symmetric] ev_mailbox_push_coalesced_def Let_def find_event_slot_eq [OF wf],
              simp only: True option.case if_True simp_thms)
      qed (use c b in \<open>auto simp: ev_mailbox_push_coalesced_def find_event_slot_eq [OF wf]\<close>)
    next
      case la
      then have c: "ev_mailbox_push_latest_only lc mb m w = (rc, rep, mb', w')"
        using p v by (simp add: mailbox_push_qos_def)
      show ?thesis
      proof (cases "?ks = []")
        case True
        show ?thesis
          by (rule tail, unfold c [symmetric] ev_mailbox_push_latest_only_def Let_def find_event_slot_eq [OF wf],
              simp only: True option.case if_True simp_thms)
      next
        case False
        then show ?thesis using c r rb [OF False]
          by (auto simp: ev_mailbox_push_latest_only_def find_event_slot_eq [OF wf] Let_def split: if_splits)
      qed
    next
      case other
      then show ?thesis using p v pb q by (auto simp: mailbox_push_qos_def push_and_report_def Let_def)
    qed
  qed
qed

text \<open>
  The diagnostics of a mailbox balance. For every discipline except the lossy ring, the number of
  pending messages is the number posted minus the number popped (in 32-bit counter arithmetic), and
  QoS deliveries and pops preserve this.
\<close>

theorem mailbox_books_balance:
  assumes "mailbox_wf mb" and "mb_kind mb \<noteq> EV_MAILBOX_LOSSY_RING_8" and "books_balance mb"
  shows "books_balance (fst (snd (snd (mailbox_push_qos lc mb m qos w))))
     \<and> books_balance (snd (snd (mailbox_pop mb)))"
proof
  show "books_balance (fst (snd (snd (mailbox_push_qos lc mb m qos w))))"
    using push_qos_books [OF assms] by (metis prod.collapse)
  have "books_balance (count_popped (beheaded blank mb))" if "mb_count mb \<noteq> 0"
    using assms(3) that by (simp add: books_balance_def count_defs beheaded_def of_nat_diff)
  then show "books_balance (snd (snd (mailbox_pop mb)))"
    using assms(3) by (simp add: mailbox_pop_eq [OF assms(1)])
qed

theorem mailbox_books_balance_witness:
  "ms_posted (mb_stats demo_fifo_2) = 3 \<and> books_balance demo_fifo_2
   \<and> books_balance (snd (snd (mailbox_pop demo_fifo_2)))"
proof -
  have "mailbox_wf demo_fifo_2" "mb_kind demo_fifo_2 \<noteq> EV_MAILBOX_LOSSY_RING_8" "books_balance demo_fifo_2"
    "ms_posted (mb_stats demo_fifo_2) = 3"
    by code_simp+
  then show ?thesis
    using mailbox_books_balance [of demo_fifo_2 no_lifecycle "demo_msg EV_TICK_1S" EV_ROUTE_QOS_CRITICAL "()"]
    by simp
qed

end
