(* ===== verification/EvSystem.thy ===== *)
theory EvSystem
  imports EvMailbox
begin

text \<open>
  The objects of a running node and the store they live in: actor runtimes and the registry
  (\<open>core/include/ev/actor_runtime.h\<close>), domain pumps (\<open>core/include/ev/domain_pump.h\<close>) and system pumps
  (\<open>core/include/ev/system_pump.h\<close>). They point to each other, and an actor handler may reach any of
  them while a pump runs, so all of them, the mailboxes and the state \<open>'w\<close> of handlers and payload
  owners form one explicit store. Each kind of object has its own addresses.
\<close>

record ev_actor_registry_stats =
  rs_delivery_attempted :: u32
  rs_delivery_succeeded :: u32
  rs_delivery_failed :: u32
  rs_delivery_target_missing :: u32
  rs_last_target_actor :: ev_actor_id
  rs_last_result :: ev_result

record ev_actor_runtime_stats =
  as_enqueued :: u32
  as_enqueue_failed :: u32
  as_steps_ok :: u32
  as_steps_empty :: u32
  as_handler_errors :: u32
  as_dispose_errors :: u32
  as_pump_calls :: u32
  as_pump_budget_hits :: u32
  as_pending_high_watermark :: nat
  as_last_pump_budget :: nat
  as_last_pump_processed :: nat
  as_last_result :: ev_result

text \<open>A handler is the name of a function; the environment below gives it a meaning.\<close>

record ev_actor_runtime =
  ar_actor_id :: ev_actor_id
  ar_mailbox :: ptr
  ar_handler :: "nat option"
  ar_actor_context :: ptr
  ar_stats :: ev_actor_runtime_stats

record ev_actor_registry =
  rg_slots :: "ptr list"
  rg_stats :: ev_actor_registry_stats

record ev_actor_pump_report =
  apr_budget :: nat
  apr_processed :: nat
  apr_pending_before :: nat
  apr_pending_after :: nat
  apr_exhausted_budget :: bool
  apr_stop_result :: ev_result

record ev_domain_pump_stats =
  ds_pump_calls :: u32
  ds_pump_empty_calls :: u32
  ds_pump_budget_hits :: u32
  ds_last_budget :: nat
  ds_last_processed :: nat
  ds_pending_high_watermark :: nat
  ds_max_actors_examined_per_call :: nat
  ds_max_actors_pumped_per_call :: nat
  ds_max_messages_per_call :: nat
  ds_last_actor :: ev_actor_id
  ds_last_result :: ev_result

record ev_domain_pump =
  dp_registry :: ptr
  dp_domain :: ev_execution_domain
  dp_next_actor_index :: nat
  dp_stats :: ev_domain_pump_stats

record ev_domain_pump_report =
  dpr_budget :: nat
  dpr_processed :: nat
  dpr_pending_before :: nat
  dpr_pending_after :: nat
  dpr_actors_examined :: nat
  dpr_actors_pumped :: nat
  dpr_exhausted_budget :: bool
  dpr_last_actor :: ev_actor_id
  dpr_stop_result :: ev_result

record ev_system_pump_stats =
  ss_run_calls :: u32
  ss_empty_calls :: u32
  ss_budget_hits :: u32
  ss_domains_pumped :: u32
  ss_turns_processed :: nat
  ss_messages_processed :: nat
  ss_last_turn_budget :: nat
  ss_last_turns_processed :: nat
  ss_pending_high_watermark :: nat
  ss_max_domains_examined_per_call :: nat
  ss_max_domains_pumped_per_call :: nat
  ss_max_turns_per_call :: nat
  ss_max_messages_per_call :: nat
  ss_last_domain :: ev_execution_domain
  ss_last_result :: ev_result

record ev_system_pump =
  sm_slots :: "ptr list"
  sm_next_domain_index :: nat
  sm_stats :: ev_system_pump_stats

record ev_system_pump_report =
  spr_turn_budget :: nat
  spr_turns_processed :: nat
  spr_domains_examined :: nat
  spr_domains_pumped :: nat
  spr_messages_processed :: nat
  spr_pending_before :: nat
  spr_pending_after :: nat
  spr_exhausted_turn_budget :: bool
  spr_last_domain :: ev_execution_domain
  spr_stop_result :: ev_result

section \<open>The store\<close>

record 'w ev_sys =
  sy_mailbox :: "nat \<Rightarrow> ev_mailbox"
  sy_runtime :: "nat \<Rightarrow> ev_actor_runtime"
  sy_registry :: "nat \<Rightarrow> ev_actor_registry"
  sy_domain :: "nat \<Rightarrow> ev_domain_pump"
  sy_system :: "nat \<Rightarrow> ev_system_pump"
  sy_world :: 'w

text \<open>
  The code a node runs but does not define: the payload callbacks and the actor handlers. A handler
  gets its context and the message and may change any object of the store.
\<close>

record 'w ev_env =
  env_lc :: "'w ev_lifecycle"
  env_handler :: "nat \<Rightarrow> ptr \<Rightarrow> ev_msg \<Rightarrow> 'w ev_sys \<Rightarrow> ev_result \<times> 'w ev_sys"

definition upd_mailbox :: "nat \<Rightarrow> (ev_mailbox \<Rightarrow> ev_mailbox) \<Rightarrow> 'w ev_sys \<Rightarrow> 'w ev_sys" where
  "upd_mailbox m f s = s\<lparr>sy_mailbox := (sy_mailbox s)(m := f (sy_mailbox s m))\<rparr>"

definition upd_runtime :: "nat \<Rightarrow> (ev_actor_runtime \<Rightarrow> ev_actor_runtime) \<Rightarrow> 'w ev_sys \<Rightarrow> 'w ev_sys" where
  "upd_runtime r f s = s\<lparr>sy_runtime := (sy_runtime s)(r := f (sy_runtime s r))\<rparr>"

definition upd_registry :: "nat \<Rightarrow> (ev_actor_registry \<Rightarrow> ev_actor_registry) \<Rightarrow> 'w ev_sys \<Rightarrow> 'w ev_sys" where
  "upd_registry g f s = s\<lparr>sy_registry := (sy_registry s)(g := f (sy_registry s g))\<rparr>"

definition upd_domain :: "nat \<Rightarrow> (ev_domain_pump \<Rightarrow> ev_domain_pump) \<Rightarrow> 'w ev_sys \<Rightarrow> 'w ev_sys" where
  "upd_domain d f s = s\<lparr>sy_domain := (sy_domain s)(d := f (sy_domain s d))\<rparr>"

definition upd_system :: "nat \<Rightarrow> (ev_system_pump \<Rightarrow> ev_system_pump) \<Rightarrow> 'w ev_sys \<Rightarrow> 'w ev_sys" where
  "upd_system y f s = s\<lparr>sy_system := (sy_system s)(y := f (sy_system s y))\<rparr>"

definition upd_ar_stats ::
    "nat \<Rightarrow> (ev_actor_runtime_stats \<Rightarrow> ev_actor_runtime_stats) \<Rightarrow> 'w ev_sys \<Rightarrow> 'w ev_sys" where
  "upd_ar_stats r f = upd_runtime r (\<lambda>rt. rt\<lparr>ar_stats := f (ar_stats rt)\<rparr>)"

definition upd_rg_stats ::
    "nat \<Rightarrow> (ev_actor_registry_stats \<Rightarrow> ev_actor_registry_stats) \<Rightarrow> 'w ev_sys \<Rightarrow> 'w ev_sys" where
  "upd_rg_stats g f = upd_registry g (\<lambda>rg. rg\<lparr>rg_stats := f (rg_stats rg)\<rparr>)"

definition upd_dp_stats ::
    "nat \<Rightarrow> (ev_domain_pump_stats \<Rightarrow> ev_domain_pump_stats) \<Rightarrow> 'w ev_sys \<Rightarrow> 'w ev_sys" where
  "upd_dp_stats d f = upd_domain d (\<lambda>dp. dp\<lparr>dp_stats := f (dp_stats dp)\<rparr>)"

definition upd_sm_stats ::
    "nat \<Rightarrow> (ev_system_pump_stats \<Rightarrow> ev_system_pump_stats) \<Rightarrow> 'w ev_sys \<Rightarrow> 'w ev_sys" where
  "upd_sm_stats y f = upd_system y (\<lambda>sm. sm\<lparr>sm_stats := f (sm_stats sm)\<rparr>)"

lemma upd_frames [simp, op_frames]:
  "sy_mailbox (upd_mailbox m f s) n = (if n = m then f (sy_mailbox s m) else sy_mailbox s n)"
  "sy_runtime (upd_mailbox m f s) = sy_runtime s" "sy_registry (upd_mailbox m f s) = sy_registry s"
  "sy_domain (upd_mailbox m f s) = sy_domain s" "sy_system (upd_mailbox m f s) = sy_system s"
  "sy_world (upd_mailbox m f s) = sy_world s"
  "sy_mailbox (upd_runtime r g s) = sy_mailbox s"
  "sy_runtime (upd_runtime r g s) q = (if q = r then g (sy_runtime s r) else sy_runtime s q)"
  "sy_registry (upd_runtime r g s) = sy_registry s" "sy_domain (upd_runtime r g s) = sy_domain s"
  "sy_system (upd_runtime r g s) = sy_system s" "sy_world (upd_runtime r g s) = sy_world s"
  "sy_mailbox (upd_registry k h s) = sy_mailbox s" "sy_runtime (upd_registry k h s) = sy_runtime s"
  "sy_registry (upd_registry k h s) j = (if j = k then h (sy_registry s k) else sy_registry s j)"
  "sy_domain (upd_registry k h s) = sy_domain s" "sy_system (upd_registry k h s) = sy_system s"
  "sy_world (upd_registry k h s) = sy_world s"
  "sy_mailbox (upd_domain d u s) = sy_mailbox s" "sy_runtime (upd_domain d u s) = sy_runtime s"
  "sy_registry (upd_domain d u s) = sy_registry s" "sy_system (upd_domain d u s) = sy_system s"
  "sy_domain (upd_domain d u s) e = (if e = d then u (sy_domain s d) else sy_domain s e)"
  "sy_world (upd_domain d u s) = sy_world s"
  "sy_mailbox (upd_system y v s) = sy_mailbox s" "sy_runtime (upd_system y v s) = sy_runtime s"
  "sy_registry (upd_system y v s) = sy_registry s" "sy_domain (upd_system y v s) = sy_domain s"
  "sy_system (upd_system y v s) z = (if z = y then v (sy_system s y) else sy_system s z)"
  "sy_world (upd_system y v s) = sy_world s"
  by (simp_all add: upd_mailbox_def upd_runtime_def upd_registry_def upd_domain_def upd_system_def)

lemma upd_stats_frames [simp, op_frames]:
  "sy_mailbox (upd_ar_stats r f s) = sy_mailbox s" "sy_registry (upd_ar_stats r f s) = sy_registry s"
  "sy_domain (upd_ar_stats r f s) = sy_domain s" "sy_system (upd_ar_stats r f s) = sy_system s"
  "sy_world (upd_ar_stats r f s) = sy_world s"
  "ar_actor_id (sy_runtime (upd_ar_stats r f s) q) = ar_actor_id (sy_runtime s q)"
  "ar_mailbox (sy_runtime (upd_ar_stats r f s) q) = ar_mailbox (sy_runtime s q)"
  "ar_handler (sy_runtime (upd_ar_stats r f s) q) = ar_handler (sy_runtime s q)"
  "ar_actor_context (sy_runtime (upd_ar_stats r f s) q) = ar_actor_context (sy_runtime s q)"
  "ar_stats (sy_runtime (upd_ar_stats r f s) q)
     = (if q = r then f (ar_stats (sy_runtime s r)) else ar_stats (sy_runtime s q))"
  "sy_mailbox (upd_rg_stats g h s) = sy_mailbox s" "sy_runtime (upd_rg_stats g h s) = sy_runtime s"
  "sy_domain (upd_rg_stats g h s) = sy_domain s" "sy_system (upd_rg_stats g h s) = sy_system s"
  "sy_world (upd_rg_stats g h s) = sy_world s"
  "rg_slots (sy_registry (upd_rg_stats g h s) k) = rg_slots (sy_registry s k)"
  "rg_stats (sy_registry (upd_rg_stats g h s) k)
     = (if k = g then h (rg_stats (sy_registry s g)) else rg_stats (sy_registry s k))"
  "sy_mailbox (upd_dp_stats d u s) = sy_mailbox s" "sy_runtime (upd_dp_stats d u s) = sy_runtime s"
  "sy_registry (upd_dp_stats d u s) = sy_registry s" "sy_system (upd_dp_stats d u s) = sy_system s"
  "sy_world (upd_dp_stats d u s) = sy_world s"
  "dp_registry (sy_domain (upd_dp_stats d u s) e) = dp_registry (sy_domain s e)"
  "dp_domain (sy_domain (upd_dp_stats d u s) e) = dp_domain (sy_domain s e)"
  "dp_next_actor_index (sy_domain (upd_dp_stats d u s) e) = dp_next_actor_index (sy_domain s e)"
  "dp_stats (sy_domain (upd_dp_stats d u s) e)
     = (if e = d then u (dp_stats (sy_domain s d)) else dp_stats (sy_domain s e))"
  "sy_mailbox (upd_sm_stats y v s) = sy_mailbox s" "sy_runtime (upd_sm_stats y v s) = sy_runtime s"
  "sy_registry (upd_sm_stats y v s) = sy_registry s" "sy_domain (upd_sm_stats y v s) = sy_domain s"
  "sy_world (upd_sm_stats y v s) = sy_world s"
  "sm_slots (sy_system (upd_sm_stats y v s) z) = sm_slots (sy_system s z)"
  "sm_next_domain_index (sy_system (upd_sm_stats y v s) z) = sm_next_domain_index (sy_system s z)"
  "sm_stats (sy_system (upd_sm_stats y v s) z)
     = (if z = y then v (sm_stats (sy_system s y)) else sm_stats (sy_system s z))"
  by (simp_all add: upd_ar_stats_def upd_rg_stats_def upd_dp_stats_def upd_sm_stats_def)

end
