(* ===== verification/EvActorRuntime.thy ===== *)
theory EvActorRuntime
  imports EvSystem
begin

text \<open>
  Single-actor execution and the actor registry (\<open>core/src/ev_actor_runtime.c\<close>): binding runtimes to
  actor ids, delivering messages into the target's mailbox, and draining a mailbox through the
  actor's handler, one step or one bounded pump at a time.
\<close>

section \<open>Operations\<close>

definition zero_ar_stats :: ev_actor_runtime_stats where
  "zero_ar_stats = \<lparr>as_enqueued = 0, as_enqueue_failed = 0, as_steps_ok = 0, as_steps_empty = 0,
     as_handler_errors = 0, as_dispose_errors = 0, as_pump_calls = 0, as_pump_budget_hits = 0,
     as_pending_high_watermark = 0, as_last_pump_budget = 0, as_last_pump_processed = 0,
     as_last_result = EV_OK\<rparr>"

definition zero_rg_stats :: ev_actor_registry_stats where
  "zero_rg_stats = \<lparr>rs_delivery_attempted = 0, rs_delivery_succeeded = 0, rs_delivery_failed = 0,
     rs_delivery_target_missing = 0, rs_last_target_actor = EV_ACTOR_NONE, rs_last_result = EV_OK\<rparr>"

text \<open>The mailbox a runtime points to.\<close>

definition runtime_mailbox :: "'w ev_sys \<Rightarrow> nat \<Rightarrow> ev_mailbox option" where
  "runtime_mailbox s r = map_option (sy_mailbox s) (ar_mailbox (sy_runtime s r))"

definition ev_actor_runtime_record_pending_high_watermark :: "nat \<Rightarrow> 'w ev_sys \<Rightarrow> 'w ev_sys" where
  "ev_actor_runtime_record_pending_high_watermark r s =
     (case runtime_mailbox s r of None \<Rightarrow> s
      | Some mb \<Rightarrow>
          let pending = ev_mailbox_count (Some mb)
          in if as_pending_high_watermark (ar_stats (sy_runtime s r)) < pending
             then upd_ar_stats r (\<lambda>st. st\<lparr>as_pending_high_watermark := pending\<rparr>) s else s)"

definition ev_actor_runtime_pending :: "'w ev_sys \<Rightarrow> ptr \<Rightarrow> nat" where
  "ev_actor_runtime_pending s pr =
     (case pr of None \<Rightarrow> 0 | Some r \<Rightarrow>
        (case runtime_mailbox s r of None \<Rightarrow> 0 | Some mb \<Rightarrow> ev_mailbox_count (Some mb)))"

text \<open>
  One message: popped first, so a handler that delivers to its own actor finds room; handled; then
  disposed whatever the handler returned.
\<close>

definition ev_actor_runtime_process_one :: "'w ev_env \<Rightarrow> nat \<Rightarrow> 'w ev_sys \<Rightarrow> ev_result \<times> 'w ev_sys" where
  "ev_actor_runtime_process_one env r s =
     (let m = the (ar_mailbox (sy_runtime s r));
          (rc, out, pmb) = ev_mailbox_pop (Some (sy_mailbox s m)) True;
          s1 = upd_mailbox m (\<lambda>_. the pmb) s
      in if rc \<noteq> EV_OK then (rc, upd_ar_stats r (\<lambda>st. st\<lparr>as_last_result := rc\<rparr>) s1)
         else
           let msg = the out;
               (rc, s2) = env_handler env (the (ar_handler (sy_runtime s1 r)))
                            (ar_actor_context (sy_runtime s1 r)) msg s1;
               s3 = (if rc \<noteq> EV_OK
                     then upd_ar_stats r (\<lambda>st. st\<lparr>as_handler_errors := as_handler_errors st + 1\<rparr>) s2
                     else s2);
               (dispose_rc, _, w4) = ev_msg_dispose (env_lc env) (Some msg) (sy_world s3);
               s4 = s3\<lparr>sy_world := w4\<rparr>;
               (rc, s5) = (if dispose_rc \<noteq> EV_OK
                     then (if rc = EV_OK then dispose_rc else rc,
                           upd_ar_stats r (\<lambda>st. st\<lparr>as_dispose_errors := as_dispose_errors st + 1\<rparr>) s4)
                     else (rc, s4));
               s6 = (if rc = EV_OK
                     then upd_ar_stats r (\<lambda>st. st\<lparr>as_steps_ok := as_steps_ok st + 1\<rparr>) s5 else s5)
           in (rc, upd_ar_stats r (\<lambda>st. st\<lparr>as_last_result := rc\<rparr>) s6))"

definition ev_actor_pump_report_reset :: ev_actor_pump_report where
  "ev_actor_pump_report_reset = \<lparr>apr_budget = 0, apr_processed = 0, apr_pending_before = 0,
     apr_pending_after = 0, apr_exhausted_budget = False, apr_stop_result = EV_OK\<rparr>"

definition ev_actor_runtime_init ::
    "ptr \<Rightarrow> ev_actor_id \<Rightarrow> ptr \<Rightarrow> nat option \<Rightarrow> ptr \<Rightarrow> 'w ev_sys \<Rightarrow> ev_result \<times> 'w ev_sys" where
  "ev_actor_runtime_init runtime actor_id mailbox handler ctx s =
     (if runtime = None \<or> mailbox = None \<or> handler = None then (EV_ERR_INVALID_ARG, s)
      else if \<not> ev_actor_id_is_valid actor_id then (EV_ERR_OUT_OF_RANGE, s)
      else case ev_actor_meta actor_id of
        None \<Rightarrow> (EV_ERR_OUT_OF_RANGE, s)
      | Some meta \<Rightarrow>
          if mb_kind (sy_mailbox s (the mailbox)) \<noteq> am_mailbox_kind meta then (EV_ERR_CONTRACT, s)
          else if am_drain_budget meta = 0 then (EV_ERR_CONTRACT, s)
          else (EV_OK, upd_runtime (the runtime) (\<lambda>_. \<lparr>ar_actor_id = actor_id, ar_mailbox = mailbox,
                  ar_handler = handler, ar_actor_context = ctx, ar_stats = zero_ar_stats\<rparr>) s))"

definition ev_actor_registry_init :: "ptr \<Rightarrow> 'w ev_sys \<Rightarrow> ev_result \<times> 'w ev_sys" where
  "ev_actor_registry_init registry s =
     (case registry of None \<Rightarrow> (EV_ERR_INVALID_ARG, s)
      | Some g \<Rightarrow> (EV_OK, upd_registry g (\<lambda>_. \<lparr>rg_slots = replicate (nat EV_ACTOR_COUNT) None,
                     rg_stats = zero_rg_stats\<rparr>) s))"

definition ev_actor_registry_reset_stats :: "ptr \<Rightarrow> 'w ev_sys \<Rightarrow> ev_result \<times> 'w ev_sys" where
  "ev_actor_registry_reset_stats registry s =
     (case registry of None \<Rightarrow> (EV_ERR_INVALID_ARG, s)
      | Some g \<Rightarrow> (EV_OK, upd_rg_stats g (\<lambda>_. zero_rg_stats) s))"

definition ev_actor_registry_stats_of :: "'w ev_sys \<Rightarrow> ptr \<Rightarrow> ev_actor_registry_stats option" where
  "ev_actor_registry_stats_of s registry = map_option (\<lambda>g. rg_stats (sy_registry s g)) registry"

definition ev_actor_registry_find :: "'w ev_sys \<Rightarrow> ptr \<Rightarrow> ev_actor_id \<Rightarrow> ptr" where
  "ev_actor_registry_find s registry actor_id =
     (case registry of None \<Rightarrow> None
      | Some g \<Rightarrow> if \<not> ev_actor_id_is_valid actor_id then None
                  else rg_slots (sy_registry s g) ! nat actor_id)"

definition ev_actor_registry_bind :: "ptr \<Rightarrow> ptr \<Rightarrow> 'w ev_sys \<Rightarrow> ev_result \<times> 'w ev_sys" where
  "ev_actor_registry_bind registry runtime s =
     (if registry = None \<or> runtime = None then (EV_ERR_INVALID_ARG, s)
      else
        let g = the registry; actor_id = ar_actor_id (sy_runtime s (the runtime))
        in if \<not> ev_actor_id_is_valid actor_id then (EV_ERR_OUT_OF_RANGE, s)
           else if rg_slots (sy_registry s g) ! nat actor_id \<noteq> None then (EV_ERR_STATE, s)
           else (EV_OK, upd_registry g (\<lambda>rg. rg\<lparr>rg_slots := (rg_slots rg)[nat actor_id := runtime]\<rparr>) s))"

text \<open>
  Delivery. The flag \<open>want\<close> says whether the caller passed a report object; the report returned is
  meaningful only then.
\<close>

definition ev_actor_registry_delivery_impl ::
    "'w ev_env \<Rightarrow> ev_actor_id \<Rightarrow> ev_msg option \<Rightarrow> ev_route_qos \<Rightarrow> bool \<Rightarrow> ptr \<Rightarrow> 'w ev_sys
       \<Rightarrow> ev_result \<times> ev_mailbox_delivery_report \<times> 'w ev_sys" where
  "ev_actor_registry_delivery_impl env target pm qos want registry s =
     (case registry of None \<Rightarrow> (EV_ERR_INVALID_ARG, ev_mailbox_delivery_report_reset, s)
      | Some g \<Rightarrow>
        let s1 = upd_rg_stats g (\<lambda>st. st\<lparr>rs_delivery_attempted := rs_delivery_attempted st + 1,
                                         rs_last_target_actor := target\<rparr>) s
        in case ev_actor_registry_find s1 registry target of
          None \<Rightarrow> (EV_ERR_NOT_FOUND,
             ev_mailbox_delivery_report_reset\<lparr>md_result := EV_ERR_NOT_FOUND,
               md_effect := EV_MAILBOX_DELIVERY_REJECTED\<rparr>,
             upd_rg_stats g (\<lambda>st. st\<lparr>rs_delivery_failed := rs_delivery_failed st + 1,
               rs_delivery_target_missing := rs_delivery_target_missing st + 1,
               rs_last_result := EV_ERR_NOT_FOUND\<rparr>) s1)
        | Some r \<Rightarrow>
            let pmb = runtime_mailbox s1 r;
                (rc, rep, pmb2, w2) = ev_mailbox_push_qos (env_lc env) pmb pm qos (sy_world s1);
                s2 = (case ar_mailbox (sy_runtime s1 r) of None \<Rightarrow> s1
                      | Some m \<Rightarrow> upd_mailbox m (\<lambda>_. the pmb2) s1)\<lparr>sy_world := w2\<rparr>;
                s3 = upd_ar_stats r (\<lambda>st. st\<lparr>as_last_result := rc\<rparr>) s2
            in if rc = EV_OK
               then if want \<and> md_effect rep = EV_MAILBOX_DELIVERY_DROPPED
                    then (EV_OK, rep, ev_actor_runtime_record_pending_high_watermark r
                      (upd_ar_stats r (\<lambda>st. st\<lparr>as_enqueue_failed := as_enqueue_failed st + 1\<rparr>)
                        (upd_rg_stats g (\<lambda>st. st\<lparr>rs_delivery_failed := rs_delivery_failed st + 1,
                           rs_last_result := EV_OK\<rparr>) s3)))
                    else (EV_OK, rep, ev_actor_runtime_record_pending_high_watermark r
                      (upd_ar_stats r (\<lambda>st. st\<lparr>as_enqueued := as_enqueued st + 1\<rparr>)
                        (upd_rg_stats g (\<lambda>st. st\<lparr>rs_delivery_succeeded := rs_delivery_succeeded st + 1,
                           rs_last_result := EV_OK\<rparr>) s3)))
               else (rc, rep,
                 upd_ar_stats r (\<lambda>st. st\<lparr>as_enqueue_failed := as_enqueue_failed st + 1\<rparr>)
                   (upd_rg_stats g (\<lambda>st. st\<lparr>rs_delivery_failed := rs_delivery_failed st + 1,
                      rs_last_result := rc\<rparr>) s3)))"

definition ev_actor_registry_delivery_qos ::
    "'w ev_env \<Rightarrow> ev_actor_id \<Rightarrow> ev_msg option \<Rightarrow> ev_route_qos \<Rightarrow> bool \<Rightarrow> ptr \<Rightarrow> 'w ev_sys
       \<Rightarrow> ev_result \<times> ev_mailbox_delivery_report \<times> 'w ev_sys" where
  "ev_actor_registry_delivery_qos env target pm qos want registry s =
     ev_actor_registry_delivery_impl env target pm qos want registry s"

definition ev_actor_registry_delivery ::
    "'w ev_env \<Rightarrow> ptr \<Rightarrow> ev_actor_id \<Rightarrow> ev_msg option \<Rightarrow> 'w ev_sys \<Rightarrow> ev_result \<times> 'w ev_sys" where
  "ev_actor_registry_delivery env registry target pm s =
     (let (rc, _, s1) = ev_actor_registry_delivery_impl env target pm EV_ROUTE_QOS_CRITICAL False registry s
      in (rc, s1))"

definition ev_actor_runtime_step :: "'w ev_env \<Rightarrow> ptr \<Rightarrow> 'w ev_sys \<Rightarrow> ev_result \<times> 'w ev_sys" where
  "ev_actor_runtime_step env pr s =
     (case pr of None \<Rightarrow> (EV_ERR_INVALID_ARG, s)
      | Some r \<Rightarrow>
        if ar_mailbox (sy_runtime s r) = None \<or> ar_handler (sy_runtime s r) = None
        then (EV_ERR_INVALID_ARG, s)
        else if ev_mailbox_is_empty (runtime_mailbox s r)
        then (EV_ERR_EMPTY, upd_ar_stats r (\<lambda>st. st\<lparr>as_steps_empty := as_steps_empty st + 1,
                as_last_result := EV_ERR_EMPTY\<rparr>) s)
        else ev_actor_runtime_process_one env r s)"

definition ev_actor_runtime_default_budget :: "'w ev_sys \<Rightarrow> ptr \<Rightarrow> nat" where
  "ev_actor_runtime_default_budget s pr =
     (case pr of None \<Rightarrow> 0
      | Some r \<Rightarrow> if ev_actor_id_is_valid (ar_actor_id (sy_runtime s r))
                  then ev_actor_default_drain_budget (ar_actor_id (sy_runtime s r)) else 0)"

text \<open>
  The drain loop: at most \<open>n\<close> more messages. The result is the failing code and the number processed,
  where an iteration failed.
\<close>

primrec pump_loop :: "'w ev_env \<Rightarrow> nat \<Rightarrow> nat \<Rightarrow> nat \<Rightarrow> 'w ev_sys \<Rightarrow> ev_result option \<times> nat \<times> 'w ev_sys" where
  "pump_loop env r 0 processed s = (None, processed, s)"
| "pump_loop env r (Suc n) processed s =
     (if ev_mailbox_is_empty (runtime_mailbox s r) then (None, processed, s)
      else let (rc, s1) = ev_actor_runtime_process_one env r s
           in if rc \<noteq> EV_OK then (Some rc, Suc processed, s1)
              else pump_loop env r n (Suc processed) s1)"

definition ev_actor_runtime_pump ::
    "'w ev_env \<Rightarrow> ptr \<Rightarrow> nat \<Rightarrow> 'w ev_sys \<Rightarrow> ev_result \<times> ev_actor_pump_report \<times> 'w ev_sys" where
  "ev_actor_runtime_pump env pr budget s =
     (if pr = None \<or> ar_mailbox (sy_runtime s (the pr)) = None
         \<or> ar_handler (sy_runtime s (the pr)) = None \<or> budget = 0
      then (EV_ERR_INVALID_ARG, ev_actor_pump_report_reset, s)
      else
        let r = the pr;
            report = ev_actor_pump_report_reset\<lparr>apr_budget := budget,
                       apr_pending_before := ev_actor_runtime_pending s pr\<rparr>;
            s1 = upd_ar_stats r (\<lambda>st. st\<lparr>as_pump_calls := as_pump_calls st + 1,
                   as_last_pump_budget := budget, as_last_pump_processed := 0\<rparr>) s
        in if apr_pending_before report = 0
           then (EV_ERR_EMPTY, report\<lparr>apr_stop_result := EV_ERR_EMPTY\<rparr>,
                 upd_ar_stats r (\<lambda>st. st\<lparr>as_steps_empty := as_steps_empty st + 1,
                   as_last_result := EV_ERR_EMPTY\<rparr>) s1)
           else
             let (failed, processed, s2) = pump_loop env r budget 0 s1;
                 report2 = report\<lparr>apr_processed := processed,
                             apr_pending_after := ev_actor_runtime_pending s2 pr\<rparr>;
                 s3 = upd_ar_stats r (\<lambda>st. st\<lparr>as_last_pump_processed := processed\<rparr>) s2
             in case failed of
                  Some rc \<Rightarrow> (rc, report2\<lparr>apr_stop_result := rc\<rparr>, s3)
                | None \<Rightarrow>
                    if processed < budget
                    then (EV_OK, report2\<lparr>apr_stop_result := EV_ERR_EMPTY\<rparr>, s3)
                    else if 0 < apr_pending_after report2
                    then (EV_OK, report2\<lparr>apr_exhausted_budget := True, apr_stop_result := EV_OK\<rparr>,
                          upd_ar_stats r (\<lambda>st. st\<lparr>as_pump_budget_hits := as_pump_budget_hits st + 1\<rparr>) s3)
                    else (EV_OK, report2\<lparr>apr_stop_result := EV_OK\<rparr>, s3))"

definition ev_actor_runtime_pump_default ::
    "'w ev_env \<Rightarrow> ptr \<Rightarrow> 'w ev_sys \<Rightarrow> ev_result \<times> ev_actor_pump_report \<times> 'w ev_sys" where
  "ev_actor_runtime_pump_default env pr s =
     (let budget = ev_actor_runtime_default_budget s pr
      in if budget = 0 then (EV_ERR_CONTRACT, ev_actor_pump_report_reset, s)
         else ev_actor_runtime_pump env pr budget s)"

definition ev_actor_runtime_reset_stats :: "ptr \<Rightarrow> 'w ev_sys \<Rightarrow> ev_result \<times> 'w ev_sys" where
  "ev_actor_runtime_reset_stats pr s =
     (case pr of None \<Rightarrow> (EV_ERR_INVALID_ARG, s)
      | Some r \<Rightarrow> (EV_OK, upd_ar_stats r (\<lambda>_. zero_ar_stats) s))"

definition ev_actor_runtime_stats_of :: "'w ev_sys \<Rightarrow> ptr \<Rightarrow> ev_actor_runtime_stats option" where
  "ev_actor_runtime_stats_of s pr = map_option (\<lambda>r. ar_stats (sy_runtime s r)) pr"

section \<open>Registry\<close>

definition registry_wf :: "ev_actor_registry \<Rightarrow> bool" where
  "registry_wf rg \<longleftrightarrow> length (rg_slots rg) = nat EV_ACTOR_COUNT"

lemma actor_slot_lt:
  "registry_wf rg \<Longrightarrow> ev_actor_id_is_valid a \<Longrightarrow> nat a < length (rg_slots rg)"
  by (auto simp: registry_wf_def ev_actor_id_is_valid_iff nat_less_iff)

lemma registry_init_wf: "ev_actor_registry_init (Some g) s = (rc, s') \<Longrightarrow> registry_wf (sy_registry s' g)"
  by (auto simp: ev_actor_registry_init_def registry_wf_def)

text \<open>
  Binding is exclusive and lookup finds what was bound. A successful bind makes \<open>find\<close> return the
  runtime for its actor id, leaves every other actor's binding alone, keeps the registry well formed,
  and a second bind for the same actor is refused with \<open>EV_ERR_STATE\<close> and changes nothing.
\<close>

lemma registry_bind_find:
  assumes "registry_wf (sy_registry s g)" and "ev_actor_registry_bind (Some g) (Some r) s = (EV_OK, s')"
  shows "ev_actor_registry_find s' (Some g) (ar_actor_id (sy_runtime s r)) = Some r
     \<and> (\<forall>a. a \<noteq> ar_actor_id (sy_runtime s r) \<longrightarrow>
          ev_actor_registry_find s' (Some g) a = ev_actor_registry_find s (Some g) a)
     \<and> registry_wf (sy_registry s' g)
     \<and> (\<forall>q. ar_actor_id (sy_runtime s q) = ar_actor_id (sy_runtime s r) \<longrightarrow>
          ev_actor_registry_bind (Some g) (Some q) s' = (EV_ERR_STATE, s'))"
proof -
  let ?a = "ar_actor_id (sy_runtime s r)"
  have v: "ev_actor_id_is_valid ?a"
    and s': "s' = upd_registry g (\<lambda>rg. rg\<lparr>rg_slots := (rg_slots rg)[nat ?a := Some r]\<rparr>) s"
    using assms(2) by (auto simp: ev_actor_registry_bind_def Let_def split: if_splits)
  note lt = actor_slot_lt [OF assms(1) v]
  have other: "(rg_slots (sy_registry s g))[nat ?a := Some r] ! nat a = rg_slots (sy_registry s g) ! nat a"
    if "a \<noteq> ?a" "ev_actor_id_is_valid a" for a
    by (rule nth_list_update_neq) (use that v in \<open>auto simp: ev_actor_id_is_valid_iff\<close>)
  show ?thesis
    using v lt assms(1) other
    by (auto simp: s' ev_actor_registry_find_def ev_actor_registry_bind_def registry_wf_def Let_def)
qed

section \<open>Processing one message\<close>

text \<open>A runtime whose mailbox and handler are in place.\<close>

definition actor_wf :: "'w ev_sys \<Rightarrow> nat \<Rightarrow> bool" where
  "actor_wf s r \<longleftrightarrow> ar_mailbox (sy_runtime s r) \<noteq> None \<and> ar_handler (sy_runtime s r) \<noteq> None
     \<and> mailbox_wf (sy_mailbox s (the (ar_mailbox (sy_runtime s r))))"

definition actor_mailbox :: "'w ev_sys \<Rightarrow> nat \<Rightarrow> ev_mailbox" where
  "actor_mailbox s r = sy_mailbox s (the (ar_mailbox (sy_runtime s r)))"

definition actor_queue :: "'w ev_sys \<Rightarrow> nat \<Rightarrow> ev_msg list" where
  "actor_queue s r = mailbox_contents (actor_mailbox s r)"

lemma actor_pending:
  assumes "actor_wf s r"
  shows "ev_actor_runtime_pending s (Some r) = length (actor_queue s r)"
    and "ev_mailbox_is_empty (runtime_mailbox s r) \<longleftrightarrow> actor_queue s r = []"
  using assms length_mailbox_contents [of "actor_mailbox s r"]
  by (auto simp: actor_wf_def ev_actor_runtime_pending_def runtime_mailbox_def actor_queue_def
      actor_mailbox_def ev_mailbox_count_def ev_mailbox_is_empty_def)

lemma pending_zero_iff:
  "ev_actor_runtime_pending s (Some r) = 0 \<longleftrightarrow> ev_mailbox_is_empty (runtime_mailbox s r)"
  by (cases "runtime_mailbox s r")
    (simp_all add: ev_actor_runtime_pending_def ev_mailbox_is_empty_def ev_mailbox_count_def)

text \<open>The same runtime, up to its statistics.\<close>

definition same_actor :: "'w ev_sys \<Rightarrow> 'w ev_sys \<Rightarrow> nat \<Rightarrow> bool" where
  "same_actor s s' r \<longleftrightarrow> ar_mailbox (sy_runtime s' r) = ar_mailbox (sy_runtime s r)
     \<and> ar_handler (sy_runtime s' r) = ar_handler (sy_runtime s r)
     \<and> ar_actor_context (sy_runtime s' r) = ar_actor_context (sy_runtime s r)
     \<and> ar_actor_id (sy_runtime s' r) = ar_actor_id (sy_runtime s r)"

text \<open>Nothing of the node changes but mailboxes, statistics of runtimes, and the world.\<close>

definition same_node :: "'w ev_sys \<Rightarrow> 'w ev_sys \<Rightarrow> bool" where
  "same_node s s' \<longleftrightarrow> (\<forall>q. same_actor s s' q) \<and> sy_registry s' = sy_registry s
     \<and> sy_domain s' = sy_domain s \<and> sy_system s' = sy_system s"

lemma same_node_refl [simp]: "same_node s s"
  by (simp add: same_node_def same_actor_def)

lemma same_node_trans: "same_node s s1 \<Longrightarrow> same_node s1 s2 \<Longrightarrow> same_node s s2"
  by (simp add: same_node_def same_actor_def)

lemma same_node_upd_ar_stats [simp]: "same_node s (upd_ar_stats r f s') = same_node s s'"
  by (simp add: same_node_def same_actor_def)

lemma same_node_actor: "same_node s s' \<Longrightarrow> same_actor s s' r"
  by (simp add: same_node_def)

lemma actor_view_cong:
  assumes "same_actor s s' r" and "sy_mailbox s' = sy_mailbox s"
  shows "actor_queue s' r = actor_queue s r" and "actor_wf s' r = actor_wf s r"
  using assms by (simp_all add: actor_queue_def actor_mailbox_def actor_wf_def same_actor_def)

text \<open>A handler that only acts on the world, and leaves the framework's objects to the framework.\<close>

definition world_handler ::
    "'w ev_env \<Rightarrow> (nat \<Rightarrow> ptr \<Rightarrow> ev_msg \<Rightarrow> 'w \<Rightarrow> ev_result \<times> 'w) \<Rightarrow> bool" where
  "world_handler env hw \<longleftrightarrow> (\<forall>f ctx m s. env_handler env f ctx m s
     = (fst (hw f ctx m (sy_world s)), s\<lparr>sy_world := snd (hw f ctx m (sy_world s))\<rparr>))"

lemma dispose_triple:
  "\<exists>m'. ev_msg_dispose lc (Some m) w = (EV_OK, Some m', dispose_world lc m w)"
  using ev_msg_dispose_Some [of lc m w] by (auto simp: dispose_world_def)

lemma process_one_eq:
  assumes wf: "actor_wf s r" and q: "actor_queue s r = m # ms" and h: "world_handler env hw"
    and f: "ar_handler (sy_runtime s r) = Some f"
  obtains s' where "ev_actor_runtime_process_one env r s
      = (fst (hw f (ar_actor_context (sy_runtime s r)) m (sy_world s)), s')"
    and "same_node s s'"
    and "sy_mailbox s' = (sy_mailbox s)
           (the (ar_mailbox (sy_runtime s r)) := count_popped (beheaded blank (actor_mailbox s r)))"
    and "sy_world s' = dispose_world (env_lc env) m
           (snd (hw f (ar_actor_context (sy_runtime s r)) m (sy_world s)))"
proof -
  let ?mb = "actor_mailbox s r" and ?k = "the (ar_mailbox (sy_runtime s r))"
  let ?ctx = "ar_actor_context (sy_runtime s r)"
  have wfm: "mailbox_wf ?mb" using wf by (simp add: actor_wf_def actor_mailbox_def)
  have c: "mb_count ?mb \<noteq> 0"
    using q length_mailbox_contents [OF wfm] by (auto simp: actor_queue_def)
  have st: "mb_storage ?mb \<noteq> None" using mailbox_wf_D(2) [OF wfm] by (metis option.distinct(1))
  have pop: "ev_mailbox_pop (Some (sy_mailbox s ?k)) True
      = (EV_OK, Some m, Some (count_popped (beheaded blank ?mb)))"
    using mailbox_pop_eq [OF wfm] c q st
    by (simp add: ev_mailbox_pop_def actor_queue_def actor_mailbox_def)
  obtain m' where d: "ev_msg_dispose (env_lc env) (Some m) (snd (hw f ?ctx m (sy_world s)))
      = (EV_OK, Some m', dispose_world (env_lc env) m (snd (hw f ?ctx m (sy_world s))))"
    using dispose_triple [of "env_lc env" m "snd (hw f ?ctx m (sy_world s))"] by auto
  let ?rc = "fst (hw f ?ctx m (sy_world s))"
  let ?s2 = "(upd_mailbox ?k (\<lambda>_. count_popped (beheaded blank ?mb)) s)
               \<lparr>sy_world := snd (hw f ?ctx m (sy_world s))\<rparr>"
  let ?s3 = "if ?rc \<noteq> EV_OK
             then upd_ar_stats r (\<lambda>st. st\<lparr>as_handler_errors := as_handler_errors st + 1\<rparr>) ?s2 else ?s2"
  let ?s4 = "?s3\<lparr>sy_world := dispose_world (env_lc env) m (snd (hw f ?ctx m (sy_world s)))\<rparr>"
  let ?s6 = "if ?rc = EV_OK
             then upd_ar_stats r (\<lambda>st. st\<lparr>as_steps_ok := as_steps_ok st + 1\<rparr>) ?s4 else ?s4"
  have run: "ev_actor_runtime_process_one env r s
      = (?rc, upd_ar_stats r (\<lambda>st. st\<lparr>as_last_result := ?rc\<rparr>) ?s6)"
    using pop d h f by (simp add: ev_actor_runtime_process_one_def Let_def world_handler_def)
  show thesis
  proof (rule that [OF run])
    show "same_node s (upd_ar_stats r (\<lambda>st. st\<lparr>as_last_result := ?rc\<rparr>) ?s6)"
      by (simp add: same_node_def same_actor_def)
    show "sy_mailbox (upd_ar_stats r (\<lambda>st. st\<lparr>as_last_result := ?rc\<rparr>) ?s6)
        = (sy_mailbox s)(?k := count_popped (beheaded blank ?mb))"
      by (simp add: upd_mailbox_def)
    show "sy_world (upd_ar_stats r (\<lambda>st. st\<lparr>as_last_result := ?rc\<rparr>) ?s6)
        = dispose_world (env_lc env) m (snd (hw f ?ctx m (sy_world s)))"
      by simp
  qed
qed

text \<open>What a drain does, on the list of pending messages: each message in turn is handled and then
  disposed; the first handler error ends the drain after its message.\<close>

primrec drain_spec ::
    "'w ev_lifecycle \<Rightarrow> (ev_msg \<Rightarrow> 'w \<Rightarrow> ev_result \<times> 'w) \<Rightarrow> ev_msg list \<Rightarrow> 'w
       \<Rightarrow> ev_result option \<times> nat \<times> 'w" where
  "drain_spec lc hw [] w = (None, 0, w)"
| "drain_spec lc hw (m # ms) w =
     (let (rc, w1) = hw m w; w2 = dispose_world lc m w1
      in if rc \<noteq> EV_OK then (Some rc, 1, w2)
         else let (failed, k, w3) = drain_spec lc hw ms w2 in (failed, Suc k, w3))"

lemma actor_wf_next:
  assumes wf: "actor_wf s r" and q: "actor_queue s r = m # ms" and same: "same_actor s s' r"
    and mb: "sy_mailbox s' = (sy_mailbox s)
           (the (ar_mailbox (sy_runtime s r)) := count_popped (beheaded blank (actor_mailbox s r)))"
  shows "actor_wf s' r" and "actor_queue s' r = ms"
proof -
  have wfm: "mailbox_wf (actor_mailbox s r)" using wf by (simp add: actor_wf_def actor_mailbox_def)
  have "0 < mb_count (actor_mailbox s r)"
    using q length_mailbox_contents [OF wfm] by (cases "mb_count (actor_mailbox s r)") (auto simp: actor_queue_def)
  note B = beheaded_ok [OF wfm this blank_no_share]
  show "actor_wf s' r" "actor_queue s' r = ms"
    using wf same mb B q by (simp_all add: actor_wf_def same_actor_def actor_queue_def actor_mailbox_def)
qed

lemma pump_loop_drains:
  assumes h: "world_handler env hw"
  shows "actor_wf s r \<Longrightarrow> ar_handler (sy_runtime s r) = Some f \<Longrightarrow>
    drain_spec (env_lc env) (hw f (ar_actor_context (sy_runtime s r))) (take n (actor_queue s r)) (sy_world s)
      = (failed, k, w') \<Longrightarrow>
    \<exists>s'. pump_loop env r n p s = (failed, p + k, s') \<and> actor_wf s' r \<and> same_node s s'
       \<and> actor_queue s' r = drop k (actor_queue s r) \<and> sy_world s' = w'
       \<and> (\<forall>m. m \<noteq> the (ar_mailbox (sy_runtime s r)) \<longrightarrow> sy_mailbox s' m = sy_mailbox s m)"
proof (induction n arbitrary: s p failed k w')
  case 0
  then show ?case by simp
next
  case (Suc n)
  show ?case
  proof (cases "actor_queue s r")
    case Nil
    then show ?thesis
      using Suc.prems actor_pending(2) [OF Suc.prems(1)] by simp
  next
    case (Cons m ms)
    let ?ctx = "ar_actor_context (sy_runtime s r)"
    obtain s1 where step: "ev_actor_runtime_process_one env r s = (fst (hw f ?ctx m (sy_world s)), s1)"
      and node: "same_node s s1"
      and mb: "sy_mailbox s1 = (sy_mailbox s)
           (the (ar_mailbox (sy_runtime s r)) := count_popped (beheaded blank (actor_mailbox s r)))"
      and w1: "sy_world s1 = dispose_world (env_lc env) m (snd (hw f ?ctx m (sy_world s)))"
      using process_one_eq [OF Suc.prems(1) Cons h Suc.prems(2)] by blast
    note same = same_node_actor [OF node, of r]
    note nxt = actor_wf_next [OF Suc.prems(1) Cons same mb]
    have f1: "ar_handler (sy_runtime s1 r) = Some f" and ctx1: "ar_actor_context (sy_runtime s1 r) = ?ctx"
      and mp: "ar_mailbox (sy_runtime s1 r) = ar_mailbox (sy_runtime s r)"
      using same Suc.prems(2) by (simp_all add: same_actor_def)
    have ne: "\<not> ev_mailbox_is_empty (runtime_mailbox s r)"
      using Cons actor_pending(2) [OF Suc.prems(1)] by simp
    show ?thesis
    proof (cases "fst (hw f ?ctx m (sy_world s)) = EV_OK")
      case False
      then have "failed = Some (fst (hw f ?ctx m (sy_world s)))" "k = 1" "w' = sy_world s1"
        using Suc.prems(3) Cons w1 by (auto simp: Let_def split_beta)
      then show ?thesis using step False ne nxt node mb Cons by auto
    next
      case True
      obtain fl k2 w2 where sp: "drain_spec (env_lc env) (hw f ?ctx) (take n ms) (sy_world s1) = (fl, k2, w2)"
        by (metis prod.collapse)
      then have eq: "failed = fl" "k = Suc k2" "w' = w2"
        using Suc.prems(3) Cons True w1 by (auto simp: Let_def split_beta)
      have "drain_spec (env_lc env) (hw f (ar_actor_context (sy_runtime s1 r)))
          (take n (actor_queue s1 r)) (sy_world s1) = (fl, k2, w2)"
        using sp nxt(2) ctx1 by simp
      from Suc.IH [OF nxt(1) f1 this, of "Suc p"] obtain s' where
        "pump_loop env r n (Suc p) s1 = (fl, Suc p + k2, s')" "actor_wf s' r" "same_node s1 s'"
        "actor_queue s' r = drop k2 (actor_queue s1 r)" "sy_world s' = w2"
        "\<forall>m. m \<noteq> the (ar_mailbox (sy_runtime s1 r)) \<longrightarrow> sy_mailbox s' m = sy_mailbox s1 m" by blast
      then show ?thesis
        using step True ne eq nxt(2) Cons mb mp same_node_trans [OF node]
        by auto
    qed
  qed
qed

text \<open>A node whose registry is in order: bound actors are complete and share no mailbox.\<close>

definition node_wf :: "'w ev_sys \<Rightarrow> nat \<Rightarrow> bool" where
  "node_wf s g \<longleftrightarrow> registry_wf (sy_registry s g)
     \<and> (\<forall>a r. ev_actor_registry_find s (Some g) a = Some r \<longrightarrow> actor_wf s r)
     \<and> (\<forall>a b r q. ev_actor_registry_find s (Some g) a = Some r \<longrightarrow>
           ev_actor_registry_find s (Some g) b = Some q \<longrightarrow> a \<noteq> b \<longrightarrow>
           ar_mailbox (sy_runtime s r) \<noteq> ar_mailbox (sy_runtime s q))"

section \<open>Draining\<close>

lemma pump_report_reset_exhausted [simp]: "\<not> apr_exhausted_budget ev_actor_pump_report_reset"
  by (simp add: ev_actor_pump_report_reset_def)

lemma drain_spec_bound:
  "drain_spec lc hw ms w = (failed, k, w') \<Longrightarrow> k \<le> length ms \<and> (failed = None \<longrightarrow> k = length ms)
     \<and> (failed \<noteq> None \<longrightarrow> 0 < k) \<and> failed \<noteq> Some EV_OK"
proof (induction ms arbitrary: w failed k w')
  case (Cons m ms)
  obtain fl k2 w2 where r: "drain_spec lc hw ms (dispose_world lc m (snd (hw m w))) = (fl, k2, w2)"
    by (metis prod.collapse)
  show ?case
    using Cons.IH [OF r] Cons.prems r by (auto simp: Let_def split_beta split: if_splits)
qed simp

lemma pump_drains:
  assumes wf: "actor_wf s r" and h: "world_handler env hw" and f: "ar_handler (sy_runtime s r) = Some f"
    and b: "0 < b" and pending: "actor_queue s r \<noteq> []"
    and spec: "drain_spec (env_lc env) (hw f (ar_actor_context (sy_runtime s r)))
                 (take b (actor_queue s r)) (sy_world s) = (failed, k, w')"
    and run: "ev_actor_runtime_pump env (Some r) b s = (rc, rep, s')"
  shows "rc = (case failed of None \<Rightarrow> EV_OK | Some e \<Rightarrow> e)
     \<and> apr_processed rep = k \<and> k \<le> b
     \<and> actor_queue s' r = drop k (actor_queue s r) \<and> sy_world s' = w' \<and> actor_wf s' r
     \<and> apr_pending_before rep = length (actor_queue s r)
     \<and> apr_pending_after rep = length (actor_queue s' r)
     \<and> (\<forall>m. m \<noteq> the (ar_mailbox (sy_runtime s r)) \<longrightarrow> sy_mailbox s' m = sy_mailbox s m)
     \<and> same_node s s'"
proof -
  let ?s1 = "upd_ar_stats r (\<lambda>st. st\<lparr>as_pump_calls := as_pump_calls st + 1,
      as_last_pump_budget := b, as_last_pump_processed := 0\<rparr>) s"
  have wf1: "actor_wf ?s1 r" using wf by (simp add: actor_wf_def)
  have q1: "actor_queue ?s1 r = actor_queue s r" by (simp add: actor_queue_def actor_mailbox_def)
  have f1: "ar_handler (sy_runtime ?s1 r) = Some f" using f by simp
  have "drain_spec (env_lc env) (hw f (ar_actor_context (sy_runtime ?s1 r)))
      (take b (actor_queue ?s1 r)) (sy_world ?s1) = (failed, k, w')"
    using spec q1 by simp
  from pump_loop_drains [OF h wf1 f1 this, of 0] obtain s2 where
    l: "pump_loop env r b 0 ?s1 = (failed, k, s2)" and wf2: "actor_wf s2 r"
    and q2: "actor_queue s2 r = drop k (actor_queue s r)" and w2: "sy_world s2 = w'"
    and node2: "same_node ?s1 s2"
    and mbs: "\<forall>m. m \<noteq> the (ar_mailbox (sy_runtime s r)) \<longrightarrow> sy_mailbox s2 m = sy_mailbox s m"
    using q1 by auto
  have st: "ar_mailbox (sy_runtime s r) \<noteq> None" "ev_actor_runtime_pending s (Some r) \<noteq> 0"
    using wf pending actor_pending(1) [OF wf] by (simp_all add: actor_wf_def)
  have pend2: "ev_actor_runtime_pending s2 (Some r) = length (actor_queue s2 r)"
    by (rule actor_pending(1) [OF wf2])
  have kb: "k \<le> b" using drain_spec_bound [OF spec] by simp
  have res: "rc = (case failed of None \<Rightarrow> EV_OK | Some e \<Rightarrow> e) \<and> apr_processed rep = k
      \<and> apr_pending_before rep = length (actor_queue s r)
      \<and> apr_pending_after rep = length (actor_queue s2 r)
      \<and> sy_mailbox s' = sy_mailbox s2 \<and> sy_world s' = sy_world s2 \<and> same_node s2 s'"
    using run l st b f pend2 actor_pending(1) [OF wf]
    by (cases failed) (auto simp: ev_actor_runtime_pump_def Let_def ev_actor_pump_report_reset_def
        split: if_splits)
  then have same2: "same_actor s2 s' r" by (simp add: same_node_actor)
  from res have mb2: "sy_mailbox s' = sy_mailbox s2" by simp
  have "actor_queue s' r = actor_queue s2 r" "actor_wf s' r = actor_wf s2 r"
    by (rule actor_view_cong [OF same2 mb2])+
  moreover have "same_node s s'"
    using res node2 same_node_trans [of s s2 s'] by (simp add: same_node_def same_actor_def)
  ultimately show ?thesis using res kb q2 w2 wf2 mbs by simp
qed

text \<open>
  C10: A pump drains its actor in order, within its budget. With a handler that acts on its own state,
  a pump of budget \<open>b\<close> hands the oldest \<open>b\<close> pending messages (all of them, if fewer) to the handler one
  by one, oldest first, disposes each after it was handled, and stops early only at the first
  message whose handler fails, which it reports. What remains queued is exactly the rest, no other
  mailbox changes, and the report's counts are the numbers processed and still pending.
\<close>

theorem pump_drains_in_order:
  assumes wf: "actor_wf s r" and h: "world_handler env hw" and f: "ar_handler (sy_runtime s r) = Some f"
    and b: "0 < b" and pending: "actor_queue s r \<noteq> []"
    and spec: "drain_spec (env_lc env) (hw f (ar_actor_context (sy_runtime s r)))
                 (take b (actor_queue s r)) (sy_world s) = (failed, k, w')"
    and run: "ev_actor_runtime_pump env (Some r) b s = (rc, rep, s')"
  shows "rc = (case failed of None \<Rightarrow> EV_OK | Some e \<Rightarrow> e)
     \<and> apr_processed rep = k \<and> k \<le> b
     \<and> actor_queue s' r = drop k (actor_queue s r) \<and> sy_world s' = w' \<and> actor_wf s' r
     \<and> apr_pending_before rep = length (actor_queue s r)
     \<and> apr_pending_after rep = length (actor_queue s' r)
     \<and> (\<forall>m. m \<noteq> the (ar_mailbox (sy_runtime s r)) \<longrightarrow> sy_mailbox s' m = sy_mailbox s m)"
  using pump_drains [OF assms] by blast

text \<open>Witness objects: an actor at address 0 whose FIFO mailbox holds three messages; its handler
  counts events in a log and refuses the event \<open>EV_BOOT_STARTED\<close>.\<close>

definition log_handler :: "nat \<Rightarrow> ptr \<Rightarrow> ev_msg \<Rightarrow> ev_event_id list \<Rightarrow> ev_result \<times> ev_event_id list" where
  "log_handler f ctx m w =
     (if msg_event_id m = EV_BOOT_STARTED then EV_ERR_CONTRACT else EV_OK, w @ [msg_event_id m])"

definition log_lifecycle :: "ev_event_id list ev_lifecycle" where
  "log_lifecycle = \<lparr>lc_retain = (\<lambda>fn ctx p n w. (EV_OK, w)), lc_release = (\<lambda>fn ctx p n w. w)\<rparr>"

definition log_env :: "ev_event_id list ev_env" where
  "log_env = \<lparr>env_lc = log_lifecycle,
     env_handler = (\<lambda>f ctx m s. (fst (log_handler f ctx m (sy_world s)),
        s\<lparr>sy_world := snd (log_handler f ctx m (sy_world s))\<rparr>))\<rparr>"

definition demo_sys :: "ev_event_id list ev_sys" where
  "demo_sys = \<lparr>sy_mailbox = (\<lambda>_. demo_fifo_2),
     sy_runtime = (\<lambda>_. \<lparr>ar_actor_id = ACT_APP, ar_mailbox = Some 0, ar_handler = Some 0,
                        ar_actor_context = None, ar_stats = zero_ar_stats\<rparr>),
     sy_registry = (\<lambda>_. \<lparr>rg_slots = (replicate 18 None)[4 := Some 0], rg_stats = zero_rg_stats\<rparr>),
     sy_domain = (\<lambda>_. \<lparr>dp_registry = Some 0, dp_domain = EV_DOMAIN_FAST_LOOP, dp_next_actor_index = 0,
        dp_stats = \<lparr>ds_pump_calls = 0, ds_pump_empty_calls = 0, ds_pump_budget_hits = 0,
          ds_last_budget = 0, ds_last_processed = 0, ds_pending_high_watermark = 0,
          ds_max_actors_examined_per_call = 0, ds_max_actors_pumped_per_call = 0,
          ds_max_messages_per_call = 0, ds_last_actor = EV_ACTOR_NONE, ds_last_result = EV_OK\<rparr>\<rparr>),
     sy_system = (\<lambda>_. \<lparr>sm_slots = [None, Some 0, None, None], sm_next_domain_index = 0,
        sm_stats = \<lparr>ss_run_calls = 0, ss_empty_calls = 0, ss_budget_hits = 0, ss_domains_pumped = 0,
          ss_turns_processed = 0, ss_messages_processed = 0, ss_last_turn_budget = 0,
          ss_last_turns_processed = 0, ss_pending_high_watermark = 0,
          ss_max_domains_examined_per_call = 0, ss_max_domains_pumped_per_call = 0,
          ss_max_turns_per_call = 0, ss_max_messages_per_call = 0, ss_last_domain = EV_DOMAIN_COUNT,
          ss_last_result = EV_OK\<rparr>\<rparr>),
     sy_world = []\<rparr>"

lemma log_env_world: "world_handler log_env log_handler"
  by (simp add: world_handler_def log_env_def)

theorem pump_drains_in_order_witness:
  "\<exists>rep s'. ev_actor_runtime_pump log_env (Some 0) 8 demo_sys = (EV_ERR_CONTRACT, rep, s')
     \<and> apr_processed rep = 2 \<and> sy_world s' = [EV_TICK_1S, EV_BOOT_STARTED]
     \<and> actor_queue s' 0 = [demo_msg EV_TICK_1S]"
proof -
  obtain rc rep s' where run: "ev_actor_runtime_pump log_env (Some 0) 8 demo_sys = (rc, rep, s')"
    by (metis prod.collapse)
  have wf: "actor_wf demo_sys 0" and f: "ar_handler (sy_runtime demo_sys 0) = Some 0"
    and ne: "actor_queue demo_sys 0 \<noteq> []"
    and spec: "drain_spec (env_lc log_env) (log_handler 0 (ar_actor_context (sy_runtime demo_sys 0)))
                 (take 8 (actor_queue demo_sys 0)) (sy_world demo_sys)
               = (Some EV_ERR_CONTRACT, 2, [EV_TICK_1S, EV_BOOT_STARTED])"
    and dr: "drop 2 (actor_queue demo_sys 0) = [demo_msg EV_TICK_1S]"
    by code_simp+
  show ?thesis
    using pump_drains_in_order [OF wf log_env_world f _ ne spec run] run dr by auto
qed

lemma pump_loop_bound:
  "pump_loop env r n p s = (failed, k, s') \<Longrightarrow> p \<le> k \<and> k \<le> p + n \<and> (failed \<noteq> None \<longrightarrow> p < k)
     \<and> failed \<noteq> Some EV_OK"
proof (induction n arbitrary: p s)
  case (Suc n)
  obtain rc1 s1 where o: "ev_actor_runtime_process_one env r s = (rc1, s1)" by (metis prod.collapse)
  show ?case
  proof (cases "ev_mailbox_is_empty (runtime_mailbox s r) \<or> rc1 \<noteq> EV_OK")
    case True
    then show ?thesis using Suc.prems o by (auto split: if_splits)
  next
    case False
    then have "pump_loop env r n (Suc p) s1 = (failed, k, s')" using Suc.prems o by simp
    from Suc.IH [OF this] show ?thesis by auto
  qed
qed simp

lemma pump_loop_progress:
  "pump_loop env r (Suc n) p s = (failed, k, s') \<Longrightarrow>
     \<not> ev_mailbox_is_empty (runtime_mailbox s r) \<Longrightarrow> p < k"
proof -
  assume l: "pump_loop env r (Suc n) p s = (failed, k, s')"
    and ne: "\<not> ev_mailbox_is_empty (runtime_mailbox s r)"
  obtain rc1 s1 where o: "ev_actor_runtime_process_one env r s = (rc1, s1)" by (metis prod.collapse)
  show "p < k"
  proof (cases "rc1 = EV_OK")
    case True
    then have "pump_loop env r n (Suc p) s1 = (failed, k, s')" using l o ne by simp
    from pump_loop_bound [OF this] show ?thesis by simp
  qed (use l o ne in auto)
qed

lemma pump_bounds:
  assumes run: "ev_actor_runtime_pump env (Some r) budget s = (rc, rep, s')"
  shows "apr_processed rep \<le> budget \<and> (rc = EV_OK \<longrightarrow> 0 < apr_processed rep)
     \<and> (apr_exhausted_budget rep \<longrightarrow> rc = EV_OK \<and> apr_processed rep = budget \<and> 0 < apr_pending_after rep)
     \<and> (apr_processed rep = 0 \<longrightarrow> rc = EV_ERR_EMPTY \<or> rc = EV_ERR_INVALID_ARG)"
proof (cases "ar_mailbox (sy_runtime s r) = None \<or> ar_handler (sy_runtime s r) = None \<or> budget = 0
    \<or> ev_actor_runtime_pending s (Some r) = 0")
  case True
  then show ?thesis
    using run by (auto simp: ev_actor_runtime_pump_def Let_def ev_actor_pump_report_reset_def split: if_splits)
next
  case False
  let ?s1 = "upd_ar_stats r (\<lambda>st. st\<lparr>as_pump_calls := as_pump_calls st + 1,
      as_last_pump_budget := budget, as_last_pump_processed := 0\<rparr>) s"
  obtain n where n: "budget = Suc n" using False by (cases budget) auto
  obtain failed k s2 where l: "pump_loop env r budget 0 ?s1 = (failed, k, s2)" by (rule prod_cases3)
  have "runtime_mailbox ?s1 r = runtime_mailbox s r" by (simp add: runtime_mailbox_def)
  then have ne: "\<not> ev_mailbox_is_empty (runtime_mailbox ?s1 r)"
    using False pending_zero_iff [of s r] by simp
  have k: "0 < k" "k \<le> budget" "failed \<noteq> Some EV_OK"
    using pump_loop_progress [OF l [unfolded n] ne [unfolded n]] pump_loop_bound [OF l] by simp_all
  have ok: "ar_mailbox (sy_runtime s r) \<noteq> None" "ar_handler (sy_runtime s r) \<noteq> None" "budget \<noteq> 0"
    "ev_actor_runtime_pending s (Some r) \<noteq> 0"
    using False by simp_all
  show ?thesis
  proof (cases failed)
    case None
    have "rc = EV_OK \<and> apr_processed rep = k \<and> (apr_exhausted_budget rep \<longrightarrow> \<not> k < budget \<and> 0 < apr_pending_after rep)"
      using run [unfolded ev_actor_runtime_pump_def Let_def] l ok None
      by (auto split: if_splits)
    then show ?thesis using k by auto
  next
    case (Some e)
    have "rc = e \<and> apr_processed rep = k \<and> \<not> apr_exhausted_budget rep"
      using run [unfolded ev_actor_runtime_pump_def Let_def] l ok Some
      by auto
    then show ?thesis using k Some by auto
  qed
qed

text \<open>
  A pump is bounded whatever its handler does. For any handler, also one that delivers to its own
  actor while the pump runs, a pump processes at most \<open>budget\<close> messages; it reports success only after
  at least one message, and an exhausted budget only when all of it was used and messages remain.
\<close>

lemma pump_bounded:
  assumes run: "ev_actor_runtime_pump env (Some r) budget s = (rc, rep, s')"
  shows "apr_processed rep \<le> budget \<and> (rc = EV_OK \<longrightarrow> 0 < apr_processed rep)
     \<and> (apr_exhausted_budget rep \<longrightarrow> rc = EV_OK \<and> apr_processed rep = budget \<and> 0 < apr_pending_after rep)
     \<and> (apr_processed rep = 0 \<longrightarrow> rc = EV_ERR_EMPTY \<or> rc = EV_ERR_INVALID_ARG)"
  by (rule pump_bounds [OF run])

lemma pump_bounded_witness:
  "apr_processed (fst (snd (ev_actor_runtime_pump log_env (Some 0) 1 demo_sys))) \<le> 1
   \<and> fst (ev_actor_runtime_pump log_env (Some 0) 1 demo_sys) = EV_OK
   \<and> apr_exhausted_budget (fst (snd (ev_actor_runtime_pump log_env (Some 0) 1 demo_sys)))"
proof -
  let ?r = "ev_actor_runtime_pump log_env (Some 0) 1 demo_sys"
  have "fst ?r = EV_OK" "apr_exhausted_budget (fst (snd ?r))" by code_simp+
  moreover have "?r = (fst ?r, fst (snd ?r), snd (snd ?r))" by simp
  ultimately show ?thesis using pump_bounded by blast
qed

section \<open>Delivery\<close>

lemma find_target_valid: "ev_actor_registry_find s (Some g) a = Some r \<Longrightarrow> ev_actor_id_is_valid a"
  by (auto simp: ev_actor_registry_find_def split: if_splits)

lemma find_frame [simp]:
  "ev_actor_registry_find (upd_rg_stats g f s) pr a = ev_actor_registry_find s pr a"
  by (simp add: ev_actor_registry_find_def split: option.split)

lemma record_watermark_frames [simp]:
  "sy_mailbox (ev_actor_runtime_record_pending_high_watermark r s) = sy_mailbox s"
  "sy_world (ev_actor_runtime_record_pending_high_watermark r s) = sy_world s"
  "sy_registry (ev_actor_runtime_record_pending_high_watermark r s) = sy_registry s"
  "ar_mailbox (sy_runtime (ev_actor_runtime_record_pending_high_watermark r s) q) = ar_mailbox (sy_runtime s q)"
  "ar_handler (sy_runtime (ev_actor_runtime_record_pending_high_watermark r s) q) = ar_handler (sy_runtime s q)"
  "ar_actor_context (sy_runtime (ev_actor_runtime_record_pending_high_watermark r s) q)
     = ar_actor_context (sy_runtime s q)"
  "ar_actor_id (sy_runtime (ev_actor_runtime_record_pending_high_watermark r s) q) = ar_actor_id (sy_runtime s q)"
  "as_enqueued (ar_stats (sy_runtime (ev_actor_runtime_record_pending_high_watermark r s) q))
     = as_enqueued (ar_stats (sy_runtime s q))"
  by (simp_all add: ev_actor_runtime_record_pending_high_watermark_def Let_def
      split: option.splits)

lemma delivery_eq_all:
  assumes fnd: "ev_actor_registry_find s (Some g) target = Some r" and wf: "actor_wf s r"
    and p: "mailbox_push_qos (env_lc env) (actor_mailbox s r) m qos (sy_world s) = (rc, rep, mb', w')"
  obtains s' where "ev_actor_registry_delivery_impl env target (Some m) qos want (Some g) s = (rc, rep, s')"
    and "sy_mailbox s' = (sy_mailbox s)(the (ar_mailbox (sy_runtime s r)) := mb')"
    and "sy_world s' = w'" and "\<And>q. same_actor s s' q"
    and "rs_delivery_attempted (rg_stats (sy_registry s' g)) = rs_delivery_attempted (rg_stats (sy_registry s g)) + 1"
    and "rs_delivery_succeeded (rg_stats (sy_registry s' g)) = rs_delivery_succeeded (rg_stats (sy_registry s g))
           + (if rc = EV_OK \<and> \<not> (want \<and> md_effect rep = EV_MAILBOX_DELIVERY_DROPPED) then 1 else 0)"
    and "rs_delivery_failed (rg_stats (sy_registry s' g)) = rs_delivery_failed (rg_stats (sy_registry s g))
           + (if rc = EV_OK \<and> \<not> (want \<and> md_effect rep = EV_MAILBOX_DELIVERY_DROPPED) then 0 else 1)"
    and "rg_slots (sy_registry s' g) = rg_slots (sy_registry s g)"
proof -
  let ?k = "the (ar_mailbox (sy_runtime s r))"
  let ?s1 = "upd_rg_stats g (\<lambda>st. st\<lparr>rs_delivery_attempted := rs_delivery_attempted st + 1,
                rs_last_target_actor := target\<rparr>) s"
  have fnd1: "ev_actor_registry_find ?s1 (Some g) target = Some r"
    using fnd by simp
  obtain k where k: "ar_mailbox (sy_runtime s r) = Some k" using wf by (auto simp: actor_wf_def)
  have wfm: "mailbox_wf (sy_mailbox s k)" using wf k by (simp add: actor_wf_def)
  have st: "mb_storage (sy_mailbox s k) \<noteq> None" using mailbox_wf_D(2) [OF wfm] by (metis option.distinct(1))
  have push: "ev_mailbox_push_qos (env_lc env) (runtime_mailbox ?s1 r) (Some m) qos (sy_world ?s1)
      = (rc, rep, Some mb', w')"
    using p k st by (auto simp: ev_mailbox_push_qos_def runtime_mailbox_def actor_mailbox_def Let_def)
  let ?s2 = "(upd_mailbox k (\<lambda>_. mb') ?s1)\<lparr>sy_world := w'\<rparr>"
  let ?s3 = "upd_ar_stats r (\<lambda>st. st\<lparr>as_last_result := rc\<rparr>) ?s2"
  let ?drop = "rc = EV_OK \<and> want \<and> md_effect rep = EV_MAILBOX_DELIVERY_DROPPED"
  let ?ok = "rc = EV_OK \<and> \<not> (want \<and> md_effect rep = EV_MAILBOX_DELIVERY_DROPPED)"
  let ?fin = "if ?ok then ev_actor_runtime_record_pending_high_watermark r
                (upd_ar_stats r (\<lambda>st. st\<lparr>as_enqueued := as_enqueued st + 1\<rparr>)
                  (upd_rg_stats g (\<lambda>st. st\<lparr>rs_delivery_succeeded := rs_delivery_succeeded st + 1,
                     rs_last_result := EV_OK\<rparr>) ?s3))
              else if ?drop then ev_actor_runtime_record_pending_high_watermark r
                (upd_ar_stats r (\<lambda>st. st\<lparr>as_enqueue_failed := as_enqueue_failed st + 1\<rparr>)
                  (upd_rg_stats g (\<lambda>st. st\<lparr>rs_delivery_failed := rs_delivery_failed st + 1,
                     rs_last_result := EV_OK\<rparr>) ?s3))
              else upd_ar_stats r (\<lambda>st. st\<lparr>as_enqueue_failed := as_enqueue_failed st + 1\<rparr>)
                  (upd_rg_stats g (\<lambda>st. st\<lparr>rs_delivery_failed := rs_delivery_failed st + 1,
                     rs_last_result := rc\<rparr>) ?s3)"
  have run: "ev_actor_registry_delivery_impl env target (Some m) qos want (Some g) s = (rc, rep, ?fin)"
    using fnd1 push k by (simp add: ev_actor_registry_delivery_impl_def Let_def)
  show thesis
  proof (rule that [OF run])
    show "sy_mailbox ?fin = (sy_mailbox s)(?k := mb')"
      using k by (simp add: upd_mailbox_def)
    show "same_actor s ?fin q" for q
      by (simp add: same_actor_def)
  qed (simp_all add: k)
qed

text \<open>
  Delivery reaches exactly its target. Delivering to a bound actor changes that actor's mailbox and
  no other: the pending messages become what the mailbox discipline and the QoS class specify, or stay
  as they are when the delivery fails. Delivering to an unbound or unknown actor reports
  \<open>EV_ERR_NOT_FOUND\<close> and changes no mailbox and no payload.
\<close>

theorem delivery_reaches_only_target:
  assumes "ev_actor_registry_delivery_qos env target (Some m) qos want (Some g) s = (rc, rep, s')"
    and "\<forall>r. ev_actor_registry_find s (Some g) target = Some r \<longrightarrow> actor_wf s r"
  shows "(case ev_actor_registry_find s (Some g) target of
       None \<Rightarrow> rc = EV_ERR_NOT_FOUND \<and> sy_mailbox s' = sy_mailbox s \<and> sy_world s' = sy_world s
     | Some r \<Rightarrow> actor_wf s' r
         \<and> actor_queue s' r = (if rc = EV_OK
              then spec_push_qos (mb_kind (actor_mailbox s r)) qos (actor_queue s r) m else actor_queue s r)
         \<and> (\<forall>k. k \<noteq> the (ar_mailbox (sy_runtime s r)) \<longrightarrow> sy_mailbox s' k = sy_mailbox s k))"
proof (cases "ev_actor_registry_find s (Some g) target")
  case None
  then show ?thesis
    using assms(1)
    by (auto simp: ev_actor_registry_delivery_qos_def ev_actor_registry_delivery_impl_def Let_def)
next
  case (Some r)
  then have wf: "actor_wf s r" using assms(2) by simp
  obtain rc1 rep1 mb' w' where p: "mailbox_push_qos (env_lc env) (actor_mailbox s r) m qos (sy_world s)
      = (rc1, rep1, mb', w')" by (rule prod_cases4)
  obtain s1 where run: "ev_actor_registry_delivery_impl env target (Some m) qos want (Some g) s = (rc1, rep1, s1)"
    and mb: "sy_mailbox s1 = (sy_mailbox s)(the (ar_mailbox (sy_runtime s r)) := mb')"
    and same: "same_actor s s1 r"
    by (rule delivery_eq_all [OF Some wf p, of want]) (rule that)
  have eq: "rc = rc1" "s' = s1" using assms(1) run by (simp_all add: ev_actor_registry_delivery_qos_def)
  have wfm: "mailbox_wf (actor_mailbox s r)" using wf by (simp add: actor_wf_def actor_mailbox_def)
  note R = mailbox_push_qos_refines [OF wfm p]
  show ?thesis
    using R mb same wf eq Some
    by (auto simp: actor_wf_def actor_queue_def actor_mailbox_def same_actor_def)
qed

text \<open>The demo node delivers a fourth message to its bound actor.\<close>

theorem delivery_reaches_only_target_witness:
  "\<exists>rep s'. ev_actor_registry_delivery_qos log_env ACT_APP (Some (demo_msg EV_TICK_100MS))
        EV_ROUTE_QOS_CRITICAL True (Some 0) demo_sys = (EV_OK, rep, s')
     \<and> actor_queue s' 0 = actor_queue demo_sys 0 @ [demo_msg EV_TICK_100MS]
     \<and> sy_mailbox s' 1 = demo_fifo_2"
proof -
  let ?d = "ev_actor_registry_delivery_qos log_env ACT_APP (Some (demo_msg EV_TICK_100MS))
        EV_ROUTE_QOS_CRITICAL True (Some 0) demo_sys"
  obtain rc rep s' where d: "?d = (rc, rep, s')" by (rule prod_cases3)
  have "fst ?d = EV_OK" by code_simp
  then have rc: "rc = EV_OK" using d by simp
  have fnd: "ev_actor_registry_find demo_sys (Some 0) ACT_APP = Some 0"
    and wf: "actor_wf demo_sys 0" and mp: "the (ar_mailbox (sy_runtime demo_sys 0)) = 0"
    and m1: "sy_mailbox demo_sys 1 = demo_fifo_2"
    and spec: "spec_push_qos (mb_kind (actor_mailbox demo_sys 0)) EV_ROUTE_QOS_CRITICAL
        (actor_queue demo_sys 0) (demo_msg EV_TICK_100MS) = actor_queue demo_sys 0 @ [demo_msg EV_TICK_100MS]"
    by code_simp+
  have "\<forall>r. ev_actor_registry_find demo_sys (Some 0) ACT_APP = Some r \<longrightarrow> actor_wf demo_sys r"
    using fnd wf by simp
  from delivery_reaches_only_target [OF d this] show ?thesis
    using d rc fnd mp spec m1 by simp
qed

text \<open>
  The registry's delivery counters balance: every delivery attempt adds one to the attempts and one
  to either the successes or the failures. A message the mailbox dropped counts as a failure only for
  a caller that asked for a report; for a caller that passed \<open>NULL\<close> the drop counts as a success.
\<close>

lemma delivery_counters_balance:
  assumes "ev_actor_registry_find s (Some g) target = Some r" and "actor_wf s r"
    and "ev_actor_registry_delivery_qos env target (Some m) qos want (Some g) s = (rc, rep, s')"
  defines "before \<equiv> rg_stats (sy_registry s g)" and "after \<equiv> rg_stats (sy_registry s' g)"
  shows "rs_delivery_attempted after = rs_delivery_attempted before + 1
     \<and> rs_delivery_succeeded after + rs_delivery_failed after
         = rs_delivery_succeeded before + rs_delivery_failed before + 1
     \<and> (rs_delivery_succeeded after = rs_delivery_succeeded before + 1 \<longleftrightarrow>
          rc = EV_OK \<and> (md_effect rep \<noteq> EV_MAILBOX_DELIVERY_DROPPED \<or> \<not> want))"
proof -
  obtain rc1 rep1 mb' w' where p: "mailbox_push_qos (env_lc env) (actor_mailbox s r) m qos (sy_world s)
      = (rc1, rep1, mb', w')" by (rule prod_cases4)
  show ?thesis
    by (rule delivery_eq_all [OF assms(1,2) p, of want])
      (use assms(3) in \<open>auto simp: ev_actor_registry_delivery_qos_def before_def after_def\<close>)
qed

text \<open>A node whose actor's mailbox is full, and a coalesced delivery of an event it does not hold.\<close>

definition demo_full_sys :: "ev_event_id list ev_sys" where
  "demo_full_sys = demo_sys\<lparr>sy_mailbox := (\<lambda>_. fst (foldl (mailbox_put no_lifecycle) (demo_fifo, ())
     (replicate 8 (demo_msg EV_TICK_1S))))\<rparr>"

lemma delivery_counters_balance_witness:
  "\<exists>rep s'. ev_actor_registry_delivery_qos log_env ACT_APP (Some (demo_msg EV_TICK_100MS))
        EV_ROUTE_QOS_COALESCED False (Some 0) demo_full_sys = (EV_OK, rep, s')
     \<and> md_effect rep = EV_MAILBOX_DELIVERY_DROPPED
     \<and> rs_delivery_succeeded (rg_stats (sy_registry s' 0)) = 1"
proof -
  let ?d = "ev_actor_registry_delivery_qos log_env ACT_APP (Some (demo_msg EV_TICK_100MS))
        EV_ROUTE_QOS_COALESCED False (Some 0) demo_full_sys"
  obtain rc rep s' where d: "?d = (rc, rep, s')" by (rule prod_cases3)
  have "fst ?d = EV_OK" "md_effect (fst (snd ?d)) = EV_MAILBOX_DELIVERY_DROPPED" by code_simp+
  then have rc: "rc = EV_OK" "md_effect rep = EV_MAILBOX_DELIVERY_DROPPED" using d by simp_all
  have fnd: "ev_actor_registry_find demo_full_sys (Some 0) ACT_APP = Some 0"
    and wf: "actor_wf demo_full_sys 0"
    and z: "rs_delivery_succeeded (rg_stats (sy_registry demo_full_sys 0)) = 0"
    by code_simp+
  from delivery_counters_balance [OF fnd wf d] show ?thesis using d rc z by simp
qed

lemma registry_bind_find_witness:
  "ev_actor_registry_bind (Some 0) (Some 0) (demo_sys\<lparr>sy_registry := (\<lambda>_. \<lparr>rg_slots = replicate 18 None,
      rg_stats = zero_rg_stats\<rparr>)\<rparr>) = (EV_OK, snd (ev_actor_registry_bind (Some 0) (Some 0)
      (demo_sys\<lparr>sy_registry := (\<lambda>_. \<lparr>rg_slots = replicate 18 None, rg_stats = zero_rg_stats\<rparr>)\<rparr>)))
   \<and> ev_actor_registry_find (snd (ev_actor_registry_bind (Some 0) (Some 0)
      (demo_sys\<lparr>sy_registry := (\<lambda>_. \<lparr>rg_slots = replicate 18 None, rg_stats = zero_rg_stats\<rparr>)\<rparr>)))
        (Some 0) ACT_APP = Some 0"
proof -
  let ?s = "demo_sys\<lparr>sy_registry := (\<lambda>_. \<lparr>rg_slots = replicate 18 None, rg_stats = zero_rg_stats\<rparr>)\<rparr>"
  let ?b = "ev_actor_registry_bind (Some 0) (Some 0) ?s"
  have "fst ?b = EV_OK" by code_simp
  then have b: "?b = (EV_OK, snd ?b)" by (simp add: prod_eq_iff)
  have wf: "registry_wf (sy_registry ?s 0)" and a: "ar_actor_id (sy_runtime ?s 0) = ACT_APP"
    by code_simp+
  from registry_bind_find [OF wf b] show ?thesis using b a by simp
qed

end
