(* ===== verification/EvPublish.thy ===== *)
theory EvPublish
  imports EvRouteTable EvActorRuntime
begin

text \<open>
  Direct send and static fan-out (\<open>core/src/ev_send.c\<close>, \<open>core/src/ev_publish.c\<close>): a published message is
  delivered to every route of its event, in table order, under a fail-fast or best-effort policy. The
  delivery function is a parameter, as in the code; the last section puts the actor registry's
  delivery in its place.
\<close>

section \<open>Operations\<close>

text \<open>The policy is an \<open>int\<close>-backed enumeration; the last constructor stands for other values.\<close>

datatype ev_publish_policy = EV_PUBLISH_FAIL_FAST | EV_PUBLISH_BEST_EFFORT | EV_PUBLISH_POLICY_OTHER int

type_synonym 's ev_delivery_fn = "ev_actor_id \<Rightarrow> ev_msg \<Rightarrow> 's \<Rightarrow> ev_result \<times> 's"

record ev_publish_report =
  pr_matched_routes :: nat
  pr_attempted_deliveries :: nat
  pr_delivered_count :: nat
  pr_failed_count :: nat
  pr_first_failed_actor :: ev_actor_id
  pr_first_error :: ev_result

definition ev_publish_report_reset :: ev_publish_report where
  "ev_publish_report_reset = \<lparr>pr_matched_routes = 0, pr_attempted_deliveries = 0,
     pr_delivered_count = 0, pr_failed_count = 0, pr_first_failed_actor = EV_ACTOR_NONE,
     pr_first_error = EV_OK\<rparr>"

definition ev_send ::
    "ev_actor_id \<Rightarrow> ev_msg option \<Rightarrow> 's ev_delivery_fn option \<Rightarrow> 's \<Rightarrow> ev_result \<times> 's" where
  "ev_send target_actor pm deliver s =
     (case (pm, deliver) of
        (Some m, Some d) \<Rightarrow>
          if target_actor = EV_ACTOR_NONE \<or> \<not> ev_actor_id_is_valid target_actor then (EV_ERR_OUT_OF_RANGE, s)
          else
            let rc = ev_msg_validate (Some m)
            in if rc \<noteq> EV_OK then (rc, s)
               else if msg_target_actor m \<noteq> target_actor then (EV_ERR_CONTRACT, s)
               else d target_actor m s
      | _ \<Rightarrow> (EV_ERR_INVALID_ARG, s))"

text \<open>
  The delivery loop: \<open>n\<close> routes left from table index \<open>i\<close>. The first component is the code of an early
  return.
\<close>

primrec publish_loop ::
    "'s ev_delivery_fn \<Rightarrow> ev_msg \<Rightarrow> ev_publish_policy \<Rightarrow> nat \<Rightarrow> nat \<Rightarrow> ev_publish_report \<Rightarrow> 's
       \<Rightarrow> ev_result option \<times> ev_publish_report \<times> 's" where
  "publish_loop deliver m policy i 0 rep s = (None, rep, s)"
| "publish_loop deliver m policy i (Suc n) rep s =
     (case ev_route_at i of
        None \<Rightarrow> publish_loop deliver m policy (Suc i) n rep s
      | Some route \<Rightarrow>
          let rep1 = rep\<lparr>pr_attempted_deliveries := pr_attempted_deliveries rep + 1\<rparr>;
              (rc, s1) = deliver (rt_target_actor route) m s
          in if rc = EV_OK
             then publish_loop deliver m policy (Suc i) n
                    (rep1\<lparr>pr_delivered_count := pr_delivered_count rep1 + 1\<rparr>) s1
             else
               let rep2 = rep1\<lparr>pr_failed_count := pr_failed_count rep1 + 1\<rparr>;
                   rep3 = (if pr_first_error rep2 = EV_OK
                           then rep2\<lparr>pr_first_error := rc, pr_first_failed_actor := rt_target_actor route\<rparr>
                           else rep2)
               in if policy = EV_PUBLISH_FAIL_FAST then (Some rc, rep3, s1)
                  else publish_loop deliver m policy (Suc i) n rep3 s1)"

text \<open>The report is what \<open>*report\<close> holds afterwards; \<open>None\<close> when the code does not write it.\<close>

definition ev_publish_ex ::
    "ev_msg option \<Rightarrow> 's ev_delivery_fn option \<Rightarrow> ev_publish_policy \<Rightarrow> 's
       \<Rightarrow> ev_result \<times> ev_publish_report option \<times> 's" where
  "ev_publish_ex pm deliver policy s =
     (case (pm, deliver) of
        (Some m, Some d) \<Rightarrow>
          if policy \<noteq> EV_PUBLISH_FAIL_FAST \<and> policy \<noteq> EV_PUBLISH_BEST_EFFORT
          then (EV_ERR_INVALID_ARG, None, s)
          else
            let rc = ev_msg_validate (Some m)
            in if rc \<noteq> EV_OK then (rc, None, s)
               else if msg_target_actor m \<noteq> EV_ACTOR_NONE then (EV_ERR_CONTRACT, None, s)
               else
                 let sp = ev_route_span_for_event (msg_event_id m);
                     rep0 = ev_publish_report_reset\<lparr>pr_matched_routes := sp_count sp\<rparr>
                 in if sp_count sp = 0
                    then (EV_ERR_NOT_FOUND, Some (rep0\<lparr>pr_first_error := EV_ERR_NOT_FOUND\<rparr>), s)
                    else
                      let (early, rep, s1) = publish_loop d m policy (sp_start_index sp) (sp_count sp) rep0 s
                      in case early of
                           Some rc \<Rightarrow> (rc, Some rep, s1)
                         | None \<Rightarrow>
                             (if pr_failed_count rep = 0 then EV_OK
                              else if 0 < pr_delivered_count rep then EV_ERR_PARTIAL
                              else pr_first_error rep, Some rep, s1)
      | _ \<Rightarrow> (EV_ERR_INVALID_ARG, None, s))"

definition ev_publish ::
    "ev_msg option \<Rightarrow> 's ev_delivery_fn option \<Rightarrow> 's \<Rightarrow> ev_result \<times> nat \<times> 's" where
  "ev_publish pm deliver s =
     (let (rc, rep, s1) = ev_publish_ex pm deliver EV_PUBLISH_FAIL_FAST s
      in (rc, pr_delivered_count (case rep of None \<Rightarrow> ev_publish_report_reset | Some r \<Rightarrow> r), s1))"

section \<open>Fan-out as a list\<close>

text \<open>The deliveries a publication performs, with their results, over a list of targets.\<close>

primrec fan_out ::
    "'s ev_delivery_fn \<Rightarrow> ev_publish_policy \<Rightarrow> ev_actor_id list \<Rightarrow> ev_msg \<Rightarrow> 's
       \<Rightarrow> (ev_actor_id \<times> ev_result) list \<times> 's" where
  "fan_out d policy [] m s = ([], s)"
| "fan_out d policy (t # ts) m s =
     (let (rc, s1) = d t m s
      in if rc \<noteq> EV_OK \<and> policy = EV_PUBLISH_FAIL_FAST then ([(t, rc)], s1)
         else let (os, s2) = fan_out d policy ts m s1 in ((t, rc) # os, s2))"

definition targets_of_event :: "ev_event_id \<Rightarrow> ev_actor_id list" where
  "targets_of_event e = map rt_target_actor (routes_of_event e)"

definition failures :: "(ev_actor_id \<times> ev_result) list \<Rightarrow> (ev_actor_id \<times> ev_result) list" where
  "failures os = filter (\<lambda>p. snd p \<noteq> EV_OK) os"

definition report_of :: "nat \<Rightarrow> (ev_actor_id \<times> ev_result) list \<Rightarrow> ev_publish_report" where
  "report_of matched os = \<lparr>pr_matched_routes = matched, pr_attempted_deliveries = length os,
     pr_delivered_count = length os - length (failures os), pr_failed_count = length (failures os),
     pr_first_failed_actor = (if failures os = [] then EV_ACTOR_NONE else fst (hd (failures os))),
     pr_first_error = (if failures os = [] then EV_OK else snd (hd (failures os)))\<rparr>"

lemma failures_simps [simp]:
  "failures [] = []" "failures (xs @ ys) = failures xs @ failures ys"
  "failures (p # os) = (if snd p \<noteq> EV_OK then p # failures os else failures os)"
  by (simp_all add: failures_def)

lemma failures_le: "length (failures os) \<le> length os"
  by (simp add: failures_def)

lemma failures_not_OK: "p \<in> set (failures os) \<Longrightarrow> snd p \<noteq> EV_OK"
  by (simp add: failures_def)

lemma first_failure: "failures os \<noteq> [] \<Longrightarrow> snd (hd (failures os)) \<noteq> EV_OK"
  using failures_not_OK hd_in_set by blast

lemma report_snoc_ok:
  "report_of k (os @ [(t, EV_OK)]) = (report_of k os)
     \<lparr>pr_attempted_deliveries := pr_attempted_deliveries (report_of k os) + 1,
      pr_delivered_count := pr_delivered_count (report_of k os) + 1\<rparr>"
  using failures_le [of os] by (simp add: report_of_def Suc_diff_le)

lemma report_snoc_fail:
  assumes "rc \<noteq> EV_OK"
  shows "pr_first_error (report_of k os) = EV_OK \<Longrightarrow>
    (report_of k os)\<lparr>pr_attempted_deliveries := Suc (pr_attempted_deliveries (report_of k os)),
       pr_failed_count := Suc (pr_failed_count (report_of k os)), pr_first_error := rc,
       pr_first_failed_actor := t\<rparr> = report_of k (os @ [(t, rc)])"
    and "pr_first_error (report_of k os) \<noteq> EV_OK \<Longrightarrow>
    (report_of k os)\<lparr>pr_attempted_deliveries := Suc (pr_attempted_deliveries (report_of k os)),
       pr_failed_count := Suc (pr_failed_count (report_of k os))\<rparr> = report_of k (os @ [(t, rc)])"
  using assms failures_le [of os] first_failure [of os]
  by (cases "failures os", simp_all add: report_of_def)+

lemma publish_loop_fan_out:
  assumes "i + n \<le> length k_ev_route_table_generated"
    and "fan_out d policy (map rt_target_actor (take n (drop i k_ev_route_table_generated))) m s = (os, s')"
  shows "publish_loop d m policy i n (report_of k os0) s
    = (if policy = EV_PUBLISH_FAIL_FAST \<and> failures os \<noteq> [] then Some (snd (last os)) else None,
       report_of k (os0 @ os), s')"
  using assms
proof (induction n arbitrary: i s os os0 s')
  case 0
  then show ?case by simp
next
  case (Suc n)
  let ?r = "k_ev_route_table_generated ! i" and ?t = "rt_target_actor (k_ev_route_table_generated ! i)"
  have i: "i < length k_ev_route_table_generated" using Suc.prems(1) by simp
  have at: "ev_route_at i = Some ?r" using i by (simp add: ev_route_at_def)
  have split: "take (Suc n) (drop i k_ev_route_table_generated)
      = ?r # take n (drop (Suc i) k_ev_route_table_generated)"
    using Cons_nth_drop_Suc [OF i] by (metis take_Suc_Cons)
  obtain rc s1 where d: "d ?t m s = (rc, s1)" by (rule prod.exhaust)
  obtain os2 s2 where rest: "fan_out d policy
      (map rt_target_actor (take n (drop (Suc i) k_ev_route_table_generated))) m s1 = (os2, s2)"
    by (rule prod.exhaust)
  have le: "Suc i + n \<le> length k_ev_route_table_generated" using Suc.prems(1) by simp
  note IH = Suc.IH [OF le rest]
  show ?case
  proof (cases "rc = EV_OK")
    case True
    then have "os = (?t, EV_OK) # os2" "s' = s2"
      using Suc.prems(2) d rest by (simp_all add: split)
    then show ?thesis
      using d at True IH [of "os0 @ [(?t, EV_OK)]"] by (auto simp: report_snoc_ok simp del: length_route_table)
  next
    case False
    note snoc = report_snoc_fail [OF False, of k os0 ?t]
    show ?thesis
    proof (cases "policy = EV_PUBLISH_FAIL_FAST")
      case True
      then have "os = [(?t, rc)]" "s' = s1" using Suc.prems(2) d False by (simp_all add: split)
      then show ?thesis
        using d at True False snoc by (simp add: Let_def del: length_route_table)
    next
      case ff: False
      then have "os = (?t, rc) # os2" "s' = s2" using Suc.prems(2) d rest by (simp_all add: split)
      then show ?thesis
        using d at ff False snoc IH [of "os0 @ [(?t, rc)]"] by (simp add: Let_def del: length_route_table)
    qed
  qed
qed

lemma span_count_targets: "sp_count (ev_route_span_for_event e) = length (targets_of_event e)"
proof -
  have "length (targets_of_event e) = min (sp_count (ev_route_span_for_event e))
      (length k_ev_route_table_generated - sp_start_index (ev_route_span_for_event e))"
    by (simp add: targets_of_event_def route_span_slice [symmetric] del: length_route_table)
  then show ?thesis
    using route_span_valid [of e] by (simp add: ev_route_span_is_valid_def del: length_route_table)
qed

definition publish_result :: "ev_publish_policy \<Rightarrow> (ev_actor_id \<times> ev_result) list \<Rightarrow> ev_result" where
  "publish_result policy os =
     (if failures os = [] then EV_OK
      else if policy = EV_PUBLISH_FAIL_FAST then snd (last os)
      else if length (failures os) < length os then EV_ERR_PARTIAL
      else snd (hd (failures os)))"

lemma fan_out_length: "fan_out d policy ts m s = (os, s') \<Longrightarrow> length os \<le> length ts
    \<and> map fst os = take (length os) ts
    \<and> (policy \<noteq> EV_PUBLISH_FAIL_FAST \<or> failures os = [] \<longrightarrow> length os = length ts)"
proof (induction ts arbitrary: s os s')
  case (Cons t ts)
  obtain rc s1 where d: "d t m s = (rc, s1)" by (rule prod.exhaust)
  obtain os2 s2 where r: "fan_out d policy ts m s1 = (os2, s2)" by (rule prod.exhaust)
  show ?case using Cons.IH [OF r] Cons.prems d r by (auto split: if_splits)
qed simp

lemma publish_loop_complete:
  assumes valid: "ev_msg_validate (Some m) = EV_OK" and tgt: "msg_target_actor m = EV_ACTOR_NONE"
    and pol: "policy = EV_PUBLISH_FAIL_FAST \<or> policy = EV_PUBLISH_BEST_EFFORT"
    and fan: "fan_out d policy (targets_of_event (msg_event_id m)) m s = (os, s')"
  shows "ev_publish_ex (Some m) (Some d) policy s
    = (if targets_of_event (msg_event_id m) = []
       then (EV_ERR_NOT_FOUND, Some ((report_of 0 [])\<lparr>pr_first_error := EV_ERR_NOT_FOUND\<rparr>), s)
       else (publish_result policy os,
             Some (report_of (length (targets_of_event (msg_event_id m))) os), s'))"
proof -
  let ?sp = "ev_route_span_for_event (msg_event_id m)"
  let ?k = "length (targets_of_event (msg_event_id m))"
  have le: "sp_start_index ?sp + sp_count ?sp \<le> length k_ev_route_table_generated"
    using route_span_valid [of "msg_event_id m"] by (simp add: ev_route_span_is_valid_def del: length_route_table) linarith
  have "fan_out d policy (map rt_target_actor
      (take (sp_count ?sp) (drop (sp_start_index ?sp) k_ev_route_table_generated))) m s = (os, s')"
    using fan by (simp add: targets_of_event_def route_span_slice)
  from publish_loop_fan_out [OF le this, of ?k "[]"]
  have loop: "publish_loop d m policy (sp_start_index ?sp) ?k (report_of ?k []) s
    = (if policy = EV_PUBLISH_FAIL_FAST \<and> failures os \<noteq> [] then Some (snd (last os)) else None,
       report_of ?k os, s')"
    by (simp add: span_count_targets)
  have empty: "ev_publish_report_reset\<lparr>pr_matched_routes := n\<rparr> = report_of n []" for n
    by (simp add: ev_publish_report_reset_def report_of_def)
  have pol': "\<not> (policy \<noteq> EV_PUBLISH_FAIL_FAST \<and> policy \<noteq> EV_PUBLISH_BEST_EFFORT)" using pol by blast
  have lf: "length (failures os) \<le> length os" by (rule failures_le)
  have fields: "pr_failed_count (report_of ?k os) = length (failures os)"
    "pr_delivered_count (report_of ?k os) = length os - length (failures os)"
    "failures os \<noteq> [] \<Longrightarrow> pr_first_error (report_of ?k os) = snd (hd (failures os))"
    by (simp_all add: report_of_def)
  show ?thesis
  proof (cases "?k = 0")
    case True
    then show ?thesis
      using valid tgt pol' by (simp add: ev_publish_ex_def span_count_targets empty)
  next
    case False
    show ?thesis
    proof (cases "failures os = []")
      case True
      then show ?thesis
        using valid tgt pol' False loop fields
        by (simp add: ev_publish_ex_def span_count_targets empty publish_result_def)
    next
      case f: False
      show ?thesis
        using valid tgt pol' False loop fields lf f
        by (cases "policy = EV_PUBLISH_FAIL_FAST")
          (auto simp: ev_publish_ex_def span_count_targets empty publish_result_def)
    qed
  qed
qed

text \<open>
  C38: Publishing is fan-out over the route table. For a valid message without a target and a known
  policy, \<open>ev_publish_ex\<close> delivers to exactly the actors the table routes the event to, each at most
  once and in table order: to all of them under best effort, up to and including the first failure
  under fail fast. The report counts those deliveries and names the first failure; the result is
  \<open>EV_OK\<close> when all succeed, \<open>EV_ERR_NOT_FOUND\<close> for an event without routes, \<open>EV_ERR_PARTIAL\<close> when best
  effort succeeds in part, and the failing delivery's own code otherwise.
\<close>

theorem publish_implements_fan_out:
  assumes valid: "ev_msg_validate (Some m) = EV_OK" and tgt: "msg_target_actor m = EV_ACTOR_NONE"
    and pol: "policy = EV_PUBLISH_FAIL_FAST \<or> policy = EV_PUBLISH_BEST_EFFORT"
    and fan: "fan_out d policy (targets_of_event (msg_event_id m)) m s = (os, s')"
  shows "ev_publish_ex (Some m) (Some d) policy s
    = (if targets_of_event (msg_event_id m) = []
       then (EV_ERR_NOT_FOUND, Some ((report_of 0 [])\<lparr>pr_first_error := EV_ERR_NOT_FOUND\<rparr>), s)
       else (publish_result policy os,
             Some (report_of (length (targets_of_event (msg_event_id m))) os), s'))"
  by (rule publish_loop_complete [OF assms])

definition demo_publish_msg :: "ev_event_id \<Rightarrow> ev_msg" where
  "demo_publish_msg e = (demo_msg e)\<lparr>msg_target_actor := EV_ACTOR_NONE\<rparr>"

text \<open>A delivery function that logs the target and refuses the actor \<open>ACT_APP\<close>.\<close>

definition log_delivery :: "ev_actor_id list ev_delivery_fn" where
  "log_delivery t m s = (if t = ACT_APP then EV_ERR_FULL else EV_OK, s @ [t])"

theorem publish_implements_fan_out_witness:
  "ev_publish_ex (Some (demo_publish_msg EV_BOOT_COMPLETED)) (Some log_delivery) EV_PUBLISH_FAIL_FAST []
     = (EV_ERR_FULL, Some \<lparr>pr_matched_routes = 8, pr_attempted_deliveries = 2, pr_delivered_count = 1,
         pr_failed_count = 1, pr_first_failed_actor = ACT_APP, pr_first_error = EV_ERR_FULL\<rparr>,
        [ACT_DIAG, ACT_APP])"
proof -
  let ?m = "demo_publish_msg EV_BOOT_COMPLETED"
  have v: "ev_msg_validate (Some ?m) = EV_OK" and t: "msg_target_actor ?m = EV_ACTOR_NONE"
    and k: "length (targets_of_event (msg_event_id ?m)) = 8"
    and f: "fan_out log_delivery EV_PUBLISH_FAIL_FAST (targets_of_event (msg_event_id ?m)) ?m []
        = ([(ACT_DIAG, EV_OK), (ACT_APP, EV_ERR_FULL)], [ACT_DIAG, ACT_APP])"
    by code_simp+
  show ?thesis
    using publish_implements_fan_out [OF v t disjI1 [OF refl] f] k
    by (auto simp: report_of_def publish_result_def)
qed

section \<open>Publishing through the actor registry\<close>

definition registry_deliver :: "'w ev_env \<Rightarrow> nat \<Rightarrow> 'w ev_sys ev_delivery_fn" where
  "registry_deliver env g t m s = ev_actor_registry_delivery env (Some g) t (Some m) s"

text \<open>A bound FIFO actor with room for one more message.\<close>

definition has_room :: "'w ev_sys \<Rightarrow> nat \<Rightarrow> ev_actor_id \<Rightarrow> bool" where
  "has_room s g t \<longleftrightarrow> (\<exists>r. ev_actor_registry_find s (Some g) t = Some r
     \<and> (mb_kind (actor_mailbox s r) = EV_MAILBOX_FIFO_8 \<or> mb_kind (actor_mailbox s r) = EV_MAILBOX_FIFO_16)
     \<and> length (actor_queue s r) < ev_mailbox_kind_capacity (mb_kind (actor_mailbox s r)))"

lemma push_fifo_plain:
  assumes wf: "mailbox_wf mb" and k: "mb_kind mb = EV_MAILBOX_FIFO_8 \<or> mb_kind mb = EV_MAILBOX_FIFO_16"
    and v: "plain_valid m" and room: "length (mailbox_contents mb) < ev_mailbox_kind_capacity (mb_kind mb)"
  obtains mb' where "mailbox_push lc mb m w = (EV_OK, mb', w)" and "mailbox_wf mb'"
    and "mb_kind mb' = mb_kind mb" and "mailbox_contents mb' = mailbox_contents mb @ [m]"
proof -
  obtain rc mb' w' where p: "mailbox_push lc mb m w = (rc, mb', w')" by (rule prod_cases3)
  have q: "push_fifo lc mb m w = (rc, mb', w')"
    using p k v by (auto simp: mailbox_push_def plain_valid_def)
  have r: "ev_mailbox_retain_for_queue lc m w = (EV_OK, w)"
    using v by (simp add: plain_valid_def ev_mailbox_retain_for_queue_def)
  have "rc = EV_OK \<and> w' = w"
    by (rule push_fifo_outcome [OF wf q]) (use r room length_mailbox_contents [OF wf] in simp_all)
  with p have p': "mailbox_push lc mb m w = (EV_OK, mb', w)" by simp
  note R = mailbox_push_refines [OF wf p']
  show thesis by (rule that [OF p' R(1,2)]) (use R(3) k in auto)
qed

lemma deliver_plain:
  assumes fnd: "ev_actor_registry_find s (Some g) t = Some r" and node: "node_wf s g"
    and room: "has_room s g t" and v: "plain_valid m"
  obtains s' where "registry_deliver env g t m s = (EV_OK, s')" and "node_wf s' g"
    and "actor_queue s' r = actor_queue s r @ [m]"
    and "\<And>a. ev_actor_registry_find s' (Some g) a = ev_actor_registry_find s (Some g) a"
    and "\<And>a q. ev_actor_registry_find s (Some g) a = Some q \<Longrightarrow> a \<noteq> t \<Longrightarrow> actor_queue s' q = actor_queue s q"
    and "\<And>a. a \<noteq> t \<Longrightarrow> has_room s g a \<Longrightarrow> has_room s' g a"
proof -
  have wf: "actor_wf s r" using node fnd by (simp add: node_wf_def)
  then have wfm: "mailbox_wf (actor_mailbox s r)" by (simp add: actor_wf_def actor_mailbox_def)
  let ?k = "the (ar_mailbox (sy_runtime s r))"
  obtain k where k: "ar_mailbox (sy_runtime s r) = Some k" using wf by (auto simp: actor_wf_def)
  obtain mb' where p: "mailbox_push (env_lc env) (actor_mailbox s r) m (sy_world s) = (EV_OK, mb', sy_world s)"
    and wf': "mailbox_wf mb'" and kd: "mb_kind mb' = mb_kind (actor_mailbox s r)"
    and c: "mailbox_contents mb' = mailbox_contents (actor_mailbox s r) @ [m]"
    using push_fifo_plain [OF wfm _ v, of "env_lc env" "sy_world s"] room fnd
    by (auto simp: has_room_def actor_queue_def)
  obtain rep where pq: "mailbox_push_qos (env_lc env) (actor_mailbox s r) m EV_ROUTE_QOS_CRITICAL (sy_world s)
      = (EV_OK, rep, mb', sy_world s)"
    using p v by (simp add: mailbox_push_qos_def push_and_report_def plain_valid_def)
  obtain s' where d: "ev_actor_registry_delivery_impl env t (Some m) EV_ROUTE_QOS_CRITICAL False (Some g) s
      = (EV_OK, rep, s')"
    and mb: "sy_mailbox s' = (sy_mailbox s)(?k := mb')" and w: "sy_world s' = sy_world s"
    and same: "\<And>q. same_actor s s' q" and slots: "rg_slots (sy_registry s' g) = rg_slots (sy_registry s g)"
    by (rule delivery_eq_all [OF fnd wf pq, of False]) auto
  have fnd': "ev_actor_registry_find s' (Some g) a = ev_actor_registry_find s (Some g) a" for a
    using slots by (simp add: ev_actor_registry_find_def)
  have am: "actor_mailbox s' q = (if q = r then mb' else actor_mailbox s q)"
    if "ev_actor_registry_find s (Some g) a = Some q" "a = t \<or> a \<noteq> t" for a q
  proof -
    have "ar_mailbox (sy_runtime s' q) = ar_mailbox (sy_runtime s q)" using same by (simp add: same_actor_def)
    moreover have "ar_mailbox (sy_runtime s q) \<noteq> None" using that node by (auto simp: node_wf_def actor_wf_def)
    moreover have "q \<noteq> r \<Longrightarrow> ar_mailbox (sy_runtime s q) \<noteq> ar_mailbox (sy_runtime s r)"
      using that(1) fnd node by (metis node_wf_def option.inject)
    ultimately show ?thesis using mb k by (auto simp: actor_mailbox_def)
  qed
  have ne: "q \<noteq> r" if "ev_actor_registry_find s (Some g) a = Some q" "a \<noteq> t" for a q
    using that fnd node by (metis node_wf_def)
  have awf: "actor_wf s' q" if f: "ev_actor_registry_find s (Some g) a = Some q" for a q
  proof -
    have "actor_wf s q" using f node by (simp add: node_wf_def)
    then show ?thesis
      using am [OF f] wf' same [of q] by (auto simp: actor_wf_def actor_mailbox_def same_actor_def split: if_splits)
  qed
  have node': "node_wf s' g"
    using node awf slots same by (auto simp: node_wf_def fnd' registry_wf_def same_actor_def)
  show thesis
  proof (rule that [OF _ node'])
    show "registry_deliver env g t m s = (EV_OK, s')"
      using d by (simp add: registry_deliver_def ev_actor_registry_delivery_def)
    show "actor_queue s' r = actor_queue s r @ [m]"
      using am [OF fnd] c by (simp add: actor_queue_def)
    show "actor_queue s' q = actor_queue s q" if "ev_actor_registry_find s (Some g) a = Some q" "a \<noteq> t" for a q
      using am [OF that(1)] ne [OF that] by (simp add: actor_queue_def)
    show "has_room s' g a" if at: "a \<noteq> t" and hr: "has_room s g a" for a
    proof -
      obtain q where q: "ev_actor_registry_find s (Some g) a = Some q"
        "mb_kind (actor_mailbox s q) = EV_MAILBOX_FIFO_8 \<or> mb_kind (actor_mailbox s q) = EV_MAILBOX_FIFO_16"
        "length (actor_queue s q) < ev_mailbox_kind_capacity (mb_kind (actor_mailbox s q))"
        using hr by (auto simp: has_room_def)
      have "actor_mailbox s' q = actor_mailbox s q" using am [OF q(1)] ne [OF q(1) at] by simp
      then show ?thesis using q by (auto simp: has_room_def fnd' actor_queue_def)
    qed
  qed (rule fnd')
qed

lemma has_room_bound: "has_room s g t \<Longrightarrow> \<exists>r. ev_actor_registry_find s (Some g) t = Some r"
  by (auto simp: has_room_def)

lemma fan_out_plain:
  assumes v: "plain_valid m"
  shows "node_wf s g \<Longrightarrow> distinct ts \<Longrightarrow> (\<forall>t \<in> set ts. has_room s g t) \<Longrightarrow>
    \<exists>s'. fan_out (registry_deliver env g) policy ts m s = (map (\<lambda>t. (t, EV_OK)) ts, s') \<and> node_wf s' g
      \<and> (\<forall>a. ev_actor_registry_find s' (Some g) a = ev_actor_registry_find s (Some g) a)
      \<and> (\<forall>a r. ev_actor_registry_find s (Some g) a = Some r \<longrightarrow>
            actor_queue s' r = (if a \<in> set ts then actor_queue s r @ [m] else actor_queue s r))"
proof (induction ts arbitrary: s)
  case Nil
  then show ?case by simp
next
  case (Cons t ts)
  obtain r where fnd: "ev_actor_registry_find s (Some g) t = Some r"
    using has_room_bound [of s g t] Cons.prems(3) by auto
  have room: "has_room s g t" using Cons.prems(3) by simp
  obtain s1 where d: "registry_deliver env g t m s = (EV_OK, s1)" and n1: "node_wf s1 g"
    and q1: "actor_queue s1 r = actor_queue s r @ [m]"
    and f1: "\<And>a. ev_actor_registry_find s1 (Some g) a = ev_actor_registry_find s (Some g) a"
    and o1: "\<And>a q. ev_actor_registry_find s (Some g) a = Some q \<Longrightarrow> a \<noteq> t \<Longrightarrow> actor_queue s1 q = actor_queue s q"
    and r1: "\<And>a. a \<noteq> t \<Longrightarrow> has_room s g a \<Longrightarrow> has_room s1 g a"
    by (rule deliver_plain [OF fnd Cons.prems(1) room v, of env]) (rule that)
  have tn: "t \<notin> set ts" and dts: "distinct ts" using Cons.prems(2) by simp_all
  have "\<forall>u \<in> set ts. has_room s1 g u"
  proof
    fix u assume "u \<in> set ts"
    then have "u \<noteq> t" "has_room s g u" using tn Cons.prems(3) by auto
    then show "has_room s1 g u" by (rule r1)
  qed
  from Cons.IH [OF n1 dts this] obtain s2 where
    f: "fan_out (registry_deliver env g) policy ts m s1 = (map (\<lambda>t. (t, EV_OK)) ts, s2)" and n2: "node_wf s2 g"
    and f2: "\<forall>a. ev_actor_registry_find s2 (Some g) a = ev_actor_registry_find s1 (Some g) a"
    and q2: "\<forall>a r. ev_actor_registry_find s1 (Some g) a = Some r \<longrightarrow>
            actor_queue s2 r = (if a \<in> set ts then actor_queue s1 r @ [m] else actor_queue s1 r)"
    by blast
  have "actor_queue s2 q = (if a \<in> set (t # ts) then actor_queue s q @ [m] else actor_queue s q)"
    if fa: "ev_actor_registry_find s (Some g) a = Some q" for a q
  proof (cases "a = t")
    case True
    then have "q = r" using fa fnd by simp
    then show ?thesis using q2 f1 fa True tn q1 by auto
  next
    case False
    then show ?thesis using q2 f1 fa o1 [OF fa False] by auto
  qed
  then show ?case using d f n2 f1 f2 by (auto simp: fan_out.simps)
qed

lemma targets_distinct: "distinct (targets_of_event e)"
proof (cases "ev_event_id_is_valid e")
  case True
  have all: "list_all (\<lambda>n. distinct (targets_of_event (int n))) [0..<41]" by code_simp
  have "nat e \<in> set [0..<41]" "int (nat e) = e"
    using True by (auto simp: ev_event_id_is_valid_iff nat_less_iff)
  then show ?thesis using all by (metis list_all_iff)
next
  case False
  then show ?thesis by (simp add: targets_of_event_def routes_of_event_invalid)
qed

lemma route_exists_targets:
  assumes "ev_actor_id_is_valid a"
  shows "a \<in> set (targets_of_event e) \<longleftrightarrow> ev_route_exists e a"
proof -
  let ?sp = "ev_route_span_for_event e"
  have fits: "sp_start_index ?sp + sp_count ?sp \<le> length k_ev_route_table_generated"
    using route_span_valid [of e] by (auto simp: ev_route_span_is_valid_def)
  show ?thesis
    using assms ev_route_exists_loop_iff [OF fits, of a]
    by (simp add: ev_route_exists_def Let_def route_span_slice targets_of_event_def)
qed

lemma failures_all_ok: "failures (map (\<lambda>t. (t, EV_OK)) ts) = []"
  by (simp add: failures_def filter_empty_conv)

text \<open>
  C8: A publication reaches every subscriber and nobody else. On a node whose registry is in order, let
  every actor the route table names for the event be bound to a FIFO mailbox with room. Then
  publishing a valid plain message succeeds, appends it to the queue of each of those actors exactly
  once, leaves the queue of every other bound actor alone, reports one delivery per route, and keeps
  the node in order, under either policy.
\<close>

theorem publish_reaches_subscribers:
  assumes node: "node_wf s g" and v: "plain_valid m" and tgt: "msg_target_actor m = EV_ACTOR_NONE"
    and pol: "policy = EV_PUBLISH_FAIL_FAST \<or> policy = EV_PUBLISH_BEST_EFFORT"
    and routes: "targets_of_event (msg_event_id m) \<noteq> []"
    and room: "\<forall>t \<in> set (targets_of_event (msg_event_id m)). has_room s g t"
  shows "\<exists>rep s'. ev_publish_ex (Some m) (Some (registry_deliver env g)) policy s = (EV_OK, Some rep, s')
     \<and> pr_delivered_count rep = length (targets_of_event (msg_event_id m)) \<and> pr_failed_count rep = 0
     \<and> node_wf s' g
     \<and> (\<forall>a r. ev_actor_registry_find s (Some g) a = Some r \<longrightarrow> actor_queue s' r
          = (if ev_route_exists (msg_event_id m) a then actor_queue s r @ [m] else actor_queue s r))"
proof -
  let ?ts = "targets_of_event (msg_event_id m)"
  obtain s' where f: "fan_out (registry_deliver env g) policy ?ts m s = (map (\<lambda>t. (t, EV_OK)) ?ts, s')"
    and n: "node_wf s' g" and q: "\<forall>a r. ev_actor_registry_find s (Some g) a = Some r \<longrightarrow>
            actor_queue s' r = (if a \<in> set ?ts then actor_queue s r @ [m] else actor_queue s r)"
    using fan_out_plain [OF v node targets_distinct room] by blast
  have valid: "ev_msg_validate (Some m) = EV_OK" using v by (simp add: plain_valid_def)
  have "ev_publish_ex (Some m) (Some (registry_deliver env g)) policy s
      = (EV_OK, Some (report_of (length ?ts) (map (\<lambda>t. (t, EV_OK)) ?ts)), s')"
    using publish_loop_complete [OF valid tgt pol f] routes by (simp add: publish_result_def failures_all_ok)
  moreover have "a \<in> set ?ts \<longleftrightarrow> ev_route_exists (msg_event_id m) a"
    if "ev_actor_registry_find s (Some g) a = Some r" for a r
    using that route_exists_targets [of a "msg_event_id m"] find_target_valid by blast
  ultimately show ?thesis
    using n q by (auto simp: report_of_def failures_all_ok)
qed

text \<open>A node on which every actor that subscribes to \<open>EV_BOOT_STARTED\<close> (only \<open>ACT_DIAG\<close>) is bound.\<close>

definition demo_node :: "ev_event_id list ev_sys" where
  "demo_node = demo_sys\<lparr>sy_registry := (\<lambda>_. \<lparr>rg_slots = ((replicate 18 None)[3 := Some 0])[4 := Some 1],
       rg_stats = zero_rg_stats\<rparr>),
     sy_runtime := (\<lambda>r. \<lparr>ar_actor_id = (if r = 0 then ACT_DIAG else ACT_APP), ar_mailbox = Some r,
       ar_handler = Some 0, ar_actor_context = None, ar_stats = zero_ar_stats\<rparr>)\<rparr>"

lemma demo_node_find: "ev_actor_registry_find demo_node (Some 0) a
    = (if a = ACT_DIAG then Some 0 else if a = ACT_APP then Some 1 else None)"
proof (cases "ev_actor_id_is_valid a")
  case True
  have all: "list_all (\<lambda>n. ev_actor_registry_find demo_node (Some 0) (int n)
      = (if int n = ACT_DIAG then Some 0 else if int n = ACT_APP then Some 1 else None)) [0..<18]"
    by code_simp
  have "nat a \<in> set [0..<18]" "int (nat a) = a"
    using True by (auto simp: ev_actor_id_is_valid_iff nat_less_iff)
  then show ?thesis using all unfolding list_all_iff by (metis (lifting))
next
  case False
  then have "a \<noteq> ACT_DIAG \<and> a \<noteq> ACT_APP" by (auto simp: ev_actor_id_is_valid_iff)
  then show ?thesis using False by (simp add: ev_actor_registry_find_def)
qed

lemma demo_node_wf: "node_wf demo_node 0"
proof -
  have "actor_wf demo_node r" for r
  proof -
    have "mailbox_wf demo_fifo_2" by code_simp
    then show ?thesis by (simp add: actor_wf_def demo_node_def demo_sys_def)
  qed
  moreover have "registry_wf (sy_registry demo_node 0)"
    by (simp add: registry_wf_def demo_node_def)
  moreover have "ar_mailbox (sy_runtime demo_node r) = Some r" for r by (simp add: demo_node_def)
  ultimately show ?thesis
    by (auto simp: node_wf_def demo_node_find split: if_splits)
qed

theorem publish_reaches_subscribers_witness:
  "\<exists>rep s'. ev_publish_ex (Some (demo_publish_msg EV_BOOT_STARTED)) (Some (registry_deliver log_env 0))
        EV_PUBLISH_FAIL_FAST demo_node = (EV_OK, Some rep, s')
     \<and> pr_delivered_count rep = 1
     \<and> actor_queue s' 0 = actor_queue demo_node 0 @ [demo_publish_msg EV_BOOT_STARTED]
     \<and> actor_queue s' 1 = actor_queue demo_node 1"
proof -
  let ?m = "demo_publish_msg EV_BOOT_STARTED"
  have v: "plain_valid ?m" and t: "msg_target_actor ?m = EV_ACTOR_NONE"
    and ts: "targets_of_event (msg_event_id ?m) = [ACT_DIAG]"
    and ex: "ev_route_exists (msg_event_id ?m) ACT_DIAG" "\<not> ev_route_exists (msg_event_id ?m) ACT_APP"
    and rm: "mb_kind (actor_mailbox demo_node 0) = EV_MAILBOX_FIFO_8" "length (actor_queue demo_node 0) = 3"
    by code_simp+
  have room: "\<forall>t \<in> set (targets_of_event (msg_event_id ?m)). has_room demo_node 0 t"
    using rm by (simp add: ts has_room_def demo_node_find)
  obtain rep s' where
    p: "ev_publish_ex (Some ?m) (Some (registry_deliver log_env 0)) EV_PUBLISH_FAIL_FAST demo_node
          = (EV_OK, Some rep, s')"
    and c: "pr_delivered_count rep = length (targets_of_event (msg_event_id ?m))"
    and q: "\<forall>a r. ev_actor_registry_find demo_node (Some 0) a = Some r \<longrightarrow> actor_queue s' r
          = (if ev_route_exists (msg_event_id ?m) a then actor_queue demo_node r @ [?m] else actor_queue demo_node r)"
    using publish_reaches_subscribers [OF demo_node_wf v t disjI1 [OF refl] _ room, of log_env] ts by auto
  have "actor_queue s' 0 = actor_queue demo_node 0 @ [?m]"
    using q [rule_format, of ACT_DIAG 0] ex by (simp add: demo_node_find)
  moreover have "actor_queue s' 1 = actor_queue demo_node 1"
    using q [rule_format, of ACT_APP 1] ex by (simp add: demo_node_find)
  ultimately show ?thesis using p c ts by auto
qed

end
