(* ===== verification/EvDomainPump.thy ===== *)
theory EvDomainPump
  imports EvPublish
begin

text \<open>
  Cooperative scheduling of one execution domain (\<open>core/src/ev_domain_pump.c\<close>): a pump walks the actors
  of its domain round robin from a cursor, drains each within its catalog budget, and stops when its
  own budget is used up, an actor fails, or a whole pass makes no progress.
\<close>

section \<open>Operations\<close>

definition ev_domain_pump_domain_is_valid :: "ev_execution_domain \<Rightarrow> bool" where
  "ev_domain_pump_domain_is_valid domain \<longleftrightarrow>
     domain = EV_DOMAIN_ISR \<or> domain = EV_DOMAIN_FAST_LOOP \<or> domain = EV_DOMAIN_SLOW_IO
     \<or> domain = EV_DOMAIN_NETWORK"

definition ev_domain_pump_actor_matches :: "ev_actor_id \<Rightarrow> ev_execution_domain \<Rightarrow> bool" where
  "ev_domain_pump_actor_matches actor_id domain \<longleftrightarrow>
     (case ev_actor_meta actor_id of None \<Rightarrow> False | Some meta \<Rightarrow> am_execution_domain meta = domain)"

definition ev_domain_pump_cursor_advance :: "nat \<Rightarrow> nat \<Rightarrow> nat" where
  "ev_domain_pump_cursor_advance cursor n =
     (if n = 0 then 0 else if n \<le> cursor + 1 then 0 else cursor + 1)"

definition ev_domain_pump_record_pending_high_watermark :: "nat \<Rightarrow> nat \<Rightarrow> 'w ev_sys \<Rightarrow> 'w ev_sys" where
  "ev_domain_pump_record_pending_high_watermark d pending s =
     (if ds_pending_high_watermark (dp_stats (sy_domain s d)) < pending
      then upd_dp_stats d (\<lambda>st. st\<lparr>ds_pending_high_watermark := pending\<rparr>) s else s)"

definition ev_domain_pump_record_call_maxima :: "nat \<Rightarrow> ev_domain_pump_report \<Rightarrow> 'w ev_sys \<Rightarrow> 'w ev_sys" where
  "ev_domain_pump_record_call_maxima d report s = upd_dp_stats d (\<lambda>st. st\<lparr>
     ds_max_actors_examined_per_call := max (ds_max_actors_examined_per_call st) (dpr_actors_examined report),
     ds_max_actors_pumped_per_call := max (ds_max_actors_pumped_per_call st) (dpr_actors_pumped report),
     ds_max_messages_per_call := max (ds_max_messages_per_call st) (dpr_processed report)\<rparr>) s"

definition ev_domain_pump_domain_default_budget :: "ev_execution_domain \<Rightarrow> nat" where
  "ev_domain_pump_domain_default_budget domain =
     (if \<not> ev_domain_pump_domain_is_valid domain then 0
      else sum_list (map (\<lambda>i. case ev_actor_meta (int i) of
                 None \<Rightarrow> 0
               | Some meta \<Rightarrow> if am_execution_domain meta = domain then am_drain_budget meta else 0)
             [0..<ev_actor_count]))"

definition ev_domain_pump_report_reset :: ev_domain_pump_report where
  "ev_domain_pump_report_reset = \<lparr>dpr_budget = 0, dpr_processed = 0, dpr_pending_before = 0,
     dpr_pending_after = 0, dpr_actors_examined = 0, dpr_actors_pumped = 0,
     dpr_exhausted_budget = False, dpr_last_actor = EV_ACTOR_NONE, dpr_stop_result = EV_OK\<rparr>"

definition zero_dp_stats :: ev_domain_pump_stats where
  "zero_dp_stats = \<lparr>ds_pump_calls = 0, ds_pump_empty_calls = 0, ds_pump_budget_hits = 0,
     ds_last_budget = 0, ds_last_processed = 0, ds_pending_high_watermark = 0,
     ds_max_actors_examined_per_call = 0, ds_max_actors_pumped_per_call = 0,
     ds_max_messages_per_call = 0, ds_last_actor = EV_ACTOR_NONE, ds_last_result = EV_OK\<rparr>"

definition ev_domain_pump_init ::
    "ptr \<Rightarrow> ptr \<Rightarrow> ev_execution_domain \<Rightarrow> 'w ev_sys \<Rightarrow> ev_result \<times> 'w ev_sys" where
  "ev_domain_pump_init pump registry domain s =
     (if pump = None \<or> registry = None then (EV_ERR_INVALID_ARG, s)
      else if \<not> ev_domain_pump_domain_is_valid domain then (EV_ERR_OUT_OF_RANGE, s)
      else (EV_OK, upd_domain (the pump) (\<lambda>_. \<lparr>dp_registry = registry, dp_domain = domain,
              dp_next_actor_index = 0, dp_stats = zero_dp_stats\<rparr>) s))"

definition ev_domain_pump_reset_stats :: "ptr \<Rightarrow> 'w ev_sys \<Rightarrow> ev_result \<times> 'w ev_sys" where
  "ev_domain_pump_reset_stats pump s =
     (case pump of None \<Rightarrow> (EV_ERR_INVALID_ARG, s)
      | Some d \<Rightarrow> (EV_OK, upd_dp_stats d (\<lambda>_. zero_dp_stats) s))"

definition ev_domain_pump_stats_of :: "'w ev_sys \<Rightarrow> ptr \<Rightarrow> ev_domain_pump_stats option" where
  "ev_domain_pump_stats_of s pump = map_option (\<lambda>d. dp_stats (sy_domain s d)) pump"

definition ev_domain_pump_default_budget :: "'w ev_sys \<Rightarrow> ptr \<Rightarrow> nat" where
  "ev_domain_pump_default_budget s pump =
     (case pump of None \<Rightarrow> 0 | Some d \<Rightarrow> ev_domain_pump_domain_default_budget (dp_domain (sy_domain s d)))"

text \<open>The runtime bound at an index of the pump's registry.\<close>

definition domain_slot :: "'w ev_sys \<Rightarrow> nat \<Rightarrow> nat \<Rightarrow> ptr" where
  "domain_slot s d index = rg_slots (sy_registry s (the (dp_registry (sy_domain s d)))) ! index"

definition ev_domain_pump_pending :: "'w ev_sys \<Rightarrow> ptr \<Rightarrow> nat" where
  "ev_domain_pump_pending s pump =
     (case pump of None \<Rightarrow> 0
      | Some d \<Rightarrow> if dp_registry (sy_domain s d) = None then 0
          else sum_list (map (\<lambda>i. if ev_domain_pump_actor_matches (int i) (dp_domain (sy_domain s d))
                 then ev_actor_runtime_pending s (domain_slot s d i) else 0) [0..<ev_actor_count]))"

text \<open>
  One pass of the inner loop: \<open>n\<close> more actors from \<open>index\<close>. The result: the code of an early return,
  whether this pass and the whole call progressed, the remaining budget, the report and the store.
\<close>

primrec domain_pass ::
    "'w ev_env \<Rightarrow> nat \<Rightarrow> nat \<Rightarrow> nat \<Rightarrow> bool \<Rightarrow> bool \<Rightarrow> nat \<Rightarrow> ev_domain_pump_report \<Rightarrow> 'w ev_sys
       \<Rightarrow> ev_result option \<times> bool \<times> bool \<times> nat \<times> ev_domain_pump_report \<times> 'w ev_sys" where
  "domain_pass env d 0 index progressed made remaining report s
     = (None, progressed, made, remaining, report, s)"
| "domain_pass env d (Suc n) index progressed made remaining report s =
     (let next_index = ev_domain_pump_cursor_advance index ev_actor_count
      in if \<not> ev_domain_pump_actor_matches (int index) (dp_domain (sy_domain s d))
         then domain_pass env d n next_index progressed made remaining report s
         else
           let report = report\<lparr>dpr_actors_examined := dpr_actors_examined report + 1\<rparr>
           in case domain_slot s d index of
                None \<Rightarrow> domain_pass env d n next_index progressed made remaining report s
              | Some r \<Rightarrow>
                  if ev_actor_runtime_pending s (Some r) = 0
                  then domain_pass env d n next_index progressed made remaining report s
                  else
                    let actor_budget = ev_actor_runtime_default_budget s (Some r)
                    in if actor_budget = 0
                       then
                         let aid = ar_actor_id (sy_runtime s r);
                             s1 = upd_dp_stats d (\<lambda>st. st\<lparr>ds_last_actor := aid,
                                    ds_last_result := EV_ERR_CONTRACT\<rparr>) s;
                             report = report\<lparr>dpr_last_actor := aid,
                                    dpr_pending_after := ev_domain_pump_pending s1 (Some d),
                                    dpr_stop_result := EV_ERR_CONTRACT\<rparr>
                         in (Some EV_ERR_CONTRACT, progressed, made, remaining, report,
                             ev_domain_pump_record_call_maxima d report s1)
                       else
                         let (rc, actor_report, s1) =
                               ev_actor_runtime_pump env (Some r) (min actor_budget remaining) s;
                             aid = ar_actor_id (sy_runtime s1 r);
                             s2 = upd_dp_stats d (\<lambda>st. st\<lparr>ds_last_actor := aid\<rparr>)
                                    (upd_domain d (\<lambda>dp. dp\<lparr>dp_next_actor_index := next_index\<rparr>) s1);
                             report = report\<lparr>dpr_last_actor := aid\<rparr>
                         in if rc = EV_ERR_EMPTY
                            then domain_pass env d n next_index progressed made remaining report s2
                            else
                              let report = report\<lparr>
                                    dpr_processed := dpr_processed report + apr_processed actor_report,
                                    dpr_actors_pumped := dpr_actors_pumped report + 1\<rparr>
                              in if rc \<noteq> EV_OK
                                 then
                                   let report = report\<lparr>
                                         dpr_pending_after := ev_domain_pump_pending s2 (Some d),
                                         dpr_stop_result := rc\<rparr>;
                                       s3 = upd_dp_stats d (\<lambda>st. st\<lparr>ds_last_processed := dpr_processed report,
                                              ds_last_result := rc\<rparr>) s2
                                   in (Some rc, progressed, made, remaining, report,
                                       ev_domain_pump_record_call_maxima d report s3)
                                 else
                                   let remaining = remaining - apr_processed actor_report
                                   in if remaining = 0 then (None, True, True, remaining, report, s2)
                                      else domain_pass env d n next_index True True remaining report s2)"

text \<open>A pass only uses budget up, and it uses some up when it makes progress.\<close>

lemma domain_pass_budget:
  "0 < remaining \<Longrightarrow>
   domain_pass env d n index progressed made remaining report s
     = (early, progressed', made', remaining', report', s') \<Longrightarrow>
   remaining' \<le> remaining \<and> (progressed' \<longrightarrow> progressed \<or> remaining' < remaining)"
proof (induction n arbitrary: index progressed made remaining report s)
  case 0
  then show ?case by simp
next
  case (Suc n)
  let ?next = "ev_domain_pump_cursor_advance index ev_actor_count"
  show ?case
  proof (cases "ev_domain_pump_actor_matches (int index) (dp_domain (sy_domain s d))
      \<and> (\<exists>r. domain_slot s d index = Some r \<and> ev_actor_runtime_pending s (Some r) \<noteq> 0
           \<and> ev_actor_runtime_default_budget s (Some r) \<noteq> 0)")
    case False
    then show ?thesis
      using Suc.prems
      by (auto simp: Let_def dest!: Suc.IH [OF Suc.prems(1)] split: if_splits option.splits)
  next
    case yes: True
    then obtain r where r: "domain_slot s d index = Some r" "ev_actor_runtime_pending s (Some r) \<noteq> 0"
        "ev_actor_runtime_default_budget s (Some r) \<noteq> 0"
      by blast
    obtain rc arep s1 where p: "ev_actor_runtime_pump env (Some r)
        (min (ev_actor_runtime_default_budget s (Some r)) remaining) s = (rc, arep, s1)"
      by (rule prod_cases3)
    note B = pump_bounds [OF p]
    show ?thesis
    proof (cases "rc = EV_OK")
      case ok: True
      then have b: "0 < apr_processed arep" "apr_processed arep \<le> remaining" using B by simp_all
      show ?thesis
      proof (cases "remaining - apr_processed arep = 0")
        case True
        then show ?thesis using Suc.prems r p ok yes by (simp add: Let_def)
      next
        case False
        then have "0 < remaining - apr_processed arep" by simp
        note IH = Suc.IH [OF this]
        show ?thesis
          using Suc.prems r p ok yes False b by (auto simp: Let_def dest!: IH)
      qed
    next
      case False
      then show ?thesis
        using Suc.prems r p yes
        by (auto simp: Let_def dest!: Suc.IH [OF Suc.prems(1)] split: if_splits)
    qed
  qed
qed

text \<open>
  The outer loop: passes until the budget is used up or a pass makes no progress. Every repeated pass
  has less budget left, so the loop ends whatever the handlers do.
\<close>

function domain_loop ::
    "'w ev_env \<Rightarrow> nat \<Rightarrow> bool \<Rightarrow> nat \<Rightarrow> ev_domain_pump_report \<Rightarrow> 'w ev_sys
       \<Rightarrow> ev_result option \<times> bool \<times> nat \<times> ev_domain_pump_report \<times> 'w ev_sys" where
  "domain_loop env d made remaining report s =
     (if remaining = 0 then (None, made, remaining, report, s)
      else
        let (early, progressed, made1, remaining1, report1, s1) =
              domain_pass env d ev_actor_count (dp_next_actor_index (sy_domain s d)) False made remaining
                report s
        in if early \<noteq> None \<or> \<not> progressed then (early, made1, remaining1, report1, s1)
           else domain_loop env d made1 remaining1 report1 s1)"
  by pat_completeness auto
termination
proof (relation "measure (\<lambda>(env, d, made, remaining, report, s). remaining)", goal_cases)
  case 1
  then show ?case by simp
next
  case (2 env d made remaining report s x early y progressed z made1 u remaining1 v report1 s1)
  from 2(2-7) have "domain_pass env d ev_actor_count (dp_next_actor_index (sy_domain s d)) False made
      remaining report s = (early, progressed, made1, remaining1, report1, s1)"
    by simp
  from domain_pass_budget [OF _ this] show ?case using 2(1,8) by auto
qed

declare domain_loop.simps [simp del]

definition ev_domain_pump_run ::
    "'w ev_env \<Rightarrow> ptr \<Rightarrow> nat \<Rightarrow> 'w ev_sys \<Rightarrow> ev_result \<times> ev_domain_pump_report \<times> 'w ev_sys" where
  "ev_domain_pump_run env pump budget s =
     (if pump = None \<or> dp_registry (sy_domain s (the pump)) = None \<or> budget = 0
      then (EV_ERR_INVALID_ARG, ev_domain_pump_report_reset, s)
      else if \<not> ev_domain_pump_domain_is_valid (dp_domain (sy_domain s (the pump)))
      then (EV_ERR_CONTRACT, ev_domain_pump_report_reset, s)
      else
        let d = the pump;
            s1 = upd_dp_stats d (\<lambda>st. st\<lparr>ds_pump_calls := ds_pump_calls st + 1,
                   ds_last_budget := budget, ds_last_processed := 0\<rparr>) s;
            pending_before = ev_domain_pump_pending s1 pump;
            report = ev_domain_pump_report_reset\<lparr>dpr_budget := budget,
                       dpr_pending_before := pending_before\<rparr>;
            s2 = ev_domain_pump_record_pending_high_watermark d pending_before s1
        in if pending_before = 0
           then
             let report = report\<lparr>dpr_pending_after := 0, dpr_stop_result := EV_ERR_EMPTY\<rparr>
             in (EV_ERR_EMPTY, report, ev_domain_pump_record_call_maxima d report
                   (upd_dp_stats d (\<lambda>st. st\<lparr>ds_pump_empty_calls := ds_pump_empty_calls st + 1,
                      ds_last_result := EV_ERR_EMPTY\<rparr>) s2))
           else
             let s3 = (if ev_actor_count \<le> dp_next_actor_index (sy_domain s2 d)
                       then upd_domain d (\<lambda>dp. dp\<lparr>dp_next_actor_index := 0\<rparr>) s2 else s2);
                 (early, made, remaining, report, s4) = domain_loop env d False budget report s3
             in case early of
                  Some rc \<Rightarrow> (rc, report, s4)
                | None \<Rightarrow>
                    let report = report\<lparr>dpr_pending_after := ev_domain_pump_pending s4 pump\<rparr>;
                        s5 = upd_dp_stats d (\<lambda>st. st\<lparr>ds_last_processed := dpr_processed report\<rparr>) s4
                    in if \<not> made
                       then
                         let report = report\<lparr>dpr_stop_result := EV_ERR_STATE\<rparr>
                         in (EV_ERR_STATE, report, ev_domain_pump_record_call_maxima d report
                               (upd_dp_stats d (\<lambda>st. st\<lparr>ds_last_result := EV_ERR_STATE\<rparr>) s5))
                       else if remaining = 0 \<and> 0 < dpr_pending_after report
                       then
                         let report = report\<lparr>dpr_exhausted_budget := True, dpr_stop_result := EV_OK\<rparr>
                         in (EV_OK, report, ev_domain_pump_record_call_maxima d report
                               (upd_dp_stats d (\<lambda>st. st\<lparr>ds_pump_budget_hits := ds_pump_budget_hits st + 1,
                                  ds_last_result := EV_OK\<rparr>) s5))
                       else
                         let report = report\<lparr>dpr_stop_result := EV_ERR_EMPTY\<rparr>
                         in (EV_OK, report, ev_domain_pump_record_call_maxima d report
                               (upd_dp_stats d (\<lambda>st. st\<lparr>ds_last_result := EV_OK\<rparr>) s5)))"

section \<open>Draining a domain\<close>

text \<open>A pump in order: a valid domain, a registry in order, every actor bound at its own id.\<close>

definition domain_wf :: "'w ev_sys \<Rightarrow> nat \<Rightarrow> bool" where
  "domain_wf s d \<longleftrightarrow> ev_domain_pump_domain_is_valid (dp_domain (sy_domain s d))
     \<and> dp_next_actor_index (sy_domain s d) < ev_actor_count
     \<and> (\<exists>g. dp_registry (sy_domain s d) = Some g \<and> node_wf s g
           \<and> (\<forall>a r. ev_actor_registry_find s (Some g) a = Some r \<longrightarrow> ar_actor_id (sy_runtime s r) = a))"

text \<open>Pending messages of one actor of the domain, and of the whole domain.\<close>

definition actor_load :: "'w ev_sys \<Rightarrow> nat \<Rightarrow> nat \<Rightarrow> nat" where
  "actor_load s d i = (if ev_domain_pump_actor_matches (int i) (dp_domain (sy_domain s d))
     then ev_actor_runtime_pending s (domain_slot s d i) else 0)"

definition domain_load :: "'w ev_sys \<Rightarrow> nat \<Rightarrow> nat" where
  "domain_load s d = sum_list (map (actor_load s d) [0..<ev_actor_count])"

lemma domain_pending_load:
  "dp_registry (sy_domain s d) \<noteq> None \<Longrightarrow> ev_domain_pump_pending s (Some d) = domain_load s d"
  by (auto simp: ev_domain_pump_pending_def domain_load_def actor_load_def [abs_def])

text \<open>Handlers that act on their own state and never fail.\<close>

definition quiet_env :: "'w ev_env \<Rightarrow> bool" where
  "quiet_env env \<longleftrightarrow> (\<exists>hw. world_handler env hw \<and> (\<forall>f ctx m w. fst (hw f ctx m w) = EV_OK))"

lemma drain_spec_quiet:
  assumes "\<And>m w. fst (hw m w) = EV_OK"
  shows "\<exists>w'. drain_spec lc hw ms w = (None, length ms, w')"
proof (induction ms arbitrary: w)
  case (Cons m ms)
  obtain w' where "drain_spec lc hw ms (dispose_world lc m (snd (hw m w))) = (None, length ms, w')"
    using Cons.IH by blast
  then show ?case using assms by (simp add: split_beta Let_def)
qed simp

lemma slot_find:
  "i < ev_actor_count \<Longrightarrow> dp_registry (sy_domain s d) = Some g \<Longrightarrow>
     domain_slot s d i = ev_actor_registry_find s (Some g) (int i)"
  by (simp add: domain_slot_def ev_actor_registry_find_def ev_actor_id_is_valid_iff)

text \<open>One quiet pump of one actor of the domain.\<close>

lemma quiet_pump:
  assumes wf: "domain_wf s d" and q: "quiet_env env" and i: "i < ev_actor_count"
    and m: "ev_domain_pump_actor_matches (int i) (dp_domain (sy_domain s d))"
    and r: "domain_slot s d i = Some r" and p: "ev_actor_runtime_pending s (Some r) \<noteq> 0" and b: "0 < b"
    and run: "ev_actor_runtime_pump env (Some r) b s = (rc, rep, s1)"
  shows "rc = EV_OK" and "apr_processed rep = min b (actor_load s d i)" and "domain_wf s1 d"
    and "actor_load s1 d i = actor_load s d i - apr_processed rep"
    and "\<And>e j. dp_registry (sy_domain s e) = dp_registry (sy_domain s d) \<Longrightarrow>
          j < ev_actor_count \<Longrightarrow> j \<noteq> i \<Longrightarrow> actor_load s1 e j = actor_load s e j"
    and "sy_domain s1 = sy_domain s" and "sy_system s1 = sy_system s"
    and "\<And>e. dp_registry (sy_domain s e) = dp_registry (sy_domain s d) \<Longrightarrow> domain_wf s e \<Longrightarrow> domain_wf s1 e"
proof -
  obtain g where g: "dp_registry (sy_domain s d) = Some g" and node: "node_wf s g"
    and ids: "\<forall>a r. ev_actor_registry_find s (Some g) a = Some r \<longrightarrow> ar_actor_id (sy_runtime s r) = a"
    using wf by (auto simp: domain_wf_def)
  obtain hw where h: "world_handler env hw" and ok: "\<And>f ctx m w. fst (hw f ctx m w) = EV_OK"
    using q by (auto simp: quiet_env_def)
  have fnd: "ev_actor_registry_find s (Some g) (int i) = Some r" using slot_find [OF i g] r by simp
  have awf: "actor_wf s r" using node fnd by (simp add: node_wf_def)
  obtain f where f: "ar_handler (sy_runtime s r) = Some f" using awf by (auto simp: actor_wf_def)
  have load: "actor_load s d i = length (actor_queue s r)"
    using m r actor_pending(1) [OF awf] by (simp add: actor_load_def)
  have ne: "actor_queue s r \<noteq> []" using p actor_pending(1) [OF awf] by auto
  obtain w' where sp: "drain_spec (env_lc env) (hw f (ar_actor_context (sy_runtime s r)))
      (take b (actor_queue s r)) (sy_world s) = (None, length (take b (actor_queue s r)), w')"
    using drain_spec_quiet [of "hw f (ar_actor_context (sy_runtime s r))", OF ok] by blast
  note D = pump_drains [OF awf h f b ne sp run]
  let ?k = "length (take b (actor_queue s r))"
  have node1: "same_node s s1" and q1: "actor_queue s1 r = drop ?k (actor_queue s r)" and wf1: "actor_wf s1 r"
    and others: "\<forall>m. m \<noteq> the (ar_mailbox (sy_runtime s r)) \<longrightarrow> sy_mailbox s1 m = sy_mailbox s m"
    and pr: "apr_processed rep = ?k"
    using D by simp_all
  show "rc = EV_OK" using D by simp
  show "apr_processed rep = min b (actor_load s d i)" using pr load by simp
  show dom: "sy_domain s1 = sy_domain s" using node1 by (simp add: same_node_def)
  have fnd1: "ev_actor_registry_find s1 (Some g) a = ev_actor_registry_find s (Some g) a" for a
    using node1 by (simp add: same_node_def ev_actor_registry_find_def)
  have same: "same_actor s s1 x" for x using node1 by (rule same_node_actor)
  have other: "actor_queue s1 x = actor_queue s x \<and> actor_wf s1 x"
    if fx: "ev_actor_registry_find s (Some g) a = Some x" and a: "a \<noteq> int i" for x a
  proof -
    have "ar_mailbox (sy_runtime s x) \<noteq> ar_mailbox (sy_runtime s r)"
      using node fx fnd a by (metis node_wf_def)
    moreover have ax: "actor_wf s x" using node fx by (simp add: node_wf_def)
    moreover have "ar_mailbox (sy_runtime s r) \<noteq> None" using awf by (simp add: actor_wf_def)
    ultimately have "the (ar_mailbox (sy_runtime s x)) \<noteq> the (ar_mailbox (sy_runtime s r))"
      by (auto simp: actor_wf_def)
    then have "sy_mailbox s1 (the (ar_mailbox (sy_runtime s x))) = sy_mailbox s (the (ar_mailbox (sy_runtime s x)))"
      using others by simp
    then show ?thesis
      using same [of x] ax by (simp add: actor_queue_def actor_mailbox_def actor_wf_def same_actor_def)
  qed
  have awf1: "actor_wf s1 x" if "ev_actor_registry_find s (Some g) a = Some x" for x a
    using other [OF that] wf1 that fnd by (cases "a = int i") auto
  have node_s1: "node_wf s1 g"
    using node awf1 same node1 by (auto simp: node_wf_def fnd1 same_actor_def same_node_def)
  show wfe: "domain_wf s1 e"
    if "dp_registry (sy_domain s e) = dp_registry (sy_domain s d)" "domain_wf s e" for e
    using that g node_s1 ids same unfolding domain_wf_def dom fnd1
    by (auto simp: same_actor_def fnd1)
  show "domain_wf s1 d" by (rule wfe [OF refl wf])
  show "sy_system s1 = sy_system s" using node1 by (simp add: same_node_def)
  have slot1: "domain_slot s1 e j = domain_slot s e j" for e j
    using node1 by (simp add: domain_slot_def same_node_def)
  show "actor_load s1 d i = actor_load s d i - apr_processed rep"
    using m r q1 pr actor_pending(1) [OF wf1] load by (simp add: actor_load_def dom slot1)
  show "actor_load s1 e j = actor_load s e j"
    if e: "dp_registry (sy_domain s e) = dp_registry (sy_domain s d)" and j: "j < ev_actor_count" "j \<noteq> i" for e j
  proof (cases "domain_slot s e j")
    case None
    then show ?thesis by (simp add: actor_load_def dom slot1 ev_actor_runtime_pending_def)
  next
    case (Some x)
    then have fx: "ev_actor_registry_find s (Some g) (int j) = Some x"
      using slot_find [OF j(1), of s e g] e g by simp
    have "int j \<noteq> int i" using j(2) by simp
    note ox = other [OF fx this]
    have ax: "actor_wf s x" using node fx by (simp add: node_wf_def)
    show ?thesis
      using actor_pending(1) [OF ax] actor_pending(1) [of s1 x] ox Some
      by (simp add: actor_load_def dom slot1)
  qed
qed

lemma domain_load_step:
  assumes "i < ev_actor_count" and "k \<le> actor_load s d i" and "actor_load s1 d i = actor_load s d i - k"
    and "\<And>j. j < ev_actor_count \<Longrightarrow> j \<noteq> i \<Longrightarrow> actor_load s1 d j = actor_load s d j"
  shows "domain_load s d = domain_load s1 d + k"
  unfolding domain_load_def
  by (rule sum_list_upt_change [of i]) (use assms in auto)

lemma domain_load_0_iff: "domain_load s d = 0 \<longleftrightarrow> (\<forall>i<ev_actor_count. actor_load s d i = 0)"
  by (auto simp: domain_load_def)

text \<open>Moving the cursor and statistics do not touch the load.\<close>

lemma cursor_frames:
  "actor_load (upd_domain d (\<lambda>dp. dp\<lparr>dp_next_actor_index := c\<rparr>) s) d = actor_load s d"
  "actor_load (upd_dp_stats d f s) d = actor_load s d"
  by (simp_all add: fun_eq_iff actor_load_def domain_slot_def ev_actor_runtime_pending_def
      runtime_mailbox_def split: option.split)

lemma domain_load_frames [simp]:
  "domain_load (upd_domain d (\<lambda>dp. dp\<lparr>dp_next_actor_index := c\<rparr>) s) d = domain_load s d"
  "domain_load (upd_dp_stats d f s) d = domain_load s d"
  by (simp_all add: domain_load_def cursor_frames)

lemma node_wf_frames [simp]:
  "node_wf (upd_domain d h s) g = node_wf s g" "node_wf (upd_dp_stats d f s) g = node_wf s g"
  by (simp_all add: node_wf_def actor_wf_def ev_actor_registry_find_def)

lemma find_frames [simp]:
  "ev_actor_registry_find (upd_domain d h s) pr a = ev_actor_registry_find s pr a"
  "ev_actor_registry_find (upd_dp_stats d f s) pr a = ev_actor_registry_find s pr a"
  by (simp_all add: ev_actor_registry_find_def split: option.split)

lemma domain_wf_frames [simp]:
  "c < ev_actor_count \<Longrightarrow> domain_wf s d \<Longrightarrow> domain_wf (upd_domain d (\<lambda>dp. dp\<lparr>dp_next_actor_index := c\<rparr>) s) d"
  "domain_wf (upd_dp_stats d f s) d = domain_wf s d"
  by (auto simp: domain_wf_def)

text \<open>
  What a quiet run of one domain leaves alone: the system pump and every other domain of the same
  registry.
\<close>

definition domain_frame :: "nat \<Rightarrow> 'w ev_sys \<Rightarrow> 'w ev_sys \<Rightarrow> bool" where
  "domain_frame d s s' \<longleftrightarrow> sy_system s' = sy_system s
     \<and> dp_registry (sy_domain s' d) = dp_registry (sy_domain s d)
     \<and> dp_domain (sy_domain s' d) = dp_domain (sy_domain s d)
     \<and> (\<forall>e. dp_registry (sy_domain s e) = dp_registry (sy_domain s d)
            \<and> dp_domain (sy_domain s e) \<noteq> dp_domain (sy_domain s d) \<and> domain_wf s e
          \<longrightarrow> sy_domain s' e = sy_domain s e \<and> domain_wf s' e \<and> domain_load s' e = domain_load s e)"

lemma domain_frame_refl [simp]: "domain_frame d s s"
  by (simp add: domain_frame_def)

lemma domain_frame_trans: "domain_frame d s s1 \<Longrightarrow> domain_frame d s1 s2 \<Longrightarrow> domain_frame d s s2"
  by (simp add: domain_frame_def)

lemma other_domain_frames:
  assumes "e \<noteq> d"
  shows "domain_load (upd_domain d f s) e = domain_load s e"
    and "domain_wf (upd_domain d f s) e = domain_wf s e"
proof -
  have "actor_load (upd_domain d f s) e = actor_load s e"
    using assms by (simp add: fun_eq_iff actor_load_def domain_slot_def ev_actor_runtime_pending_def
        runtime_mailbox_def split: option.split)
  then show "domain_load (upd_domain d f s) e = domain_load s e" by (simp add: domain_load_def)
  show "domain_wf (upd_domain d f s) e = domain_wf s e" using assms by (simp add: domain_wf_def)
qed

lemma domain_frame_upd:
  assumes "\<And>dp. dp_registry (f dp) = dp_registry dp \<and> dp_domain (f dp) = dp_domain dp"
  shows "domain_frame d s (upd_domain d f s)"
  using assms by (auto simp: domain_frame_def other_domain_frames)

lemma domain_frame_cursor [simp]:
  "domain_frame d s (upd_domain d (\<lambda>dp. dp\<lparr>dp_next_actor_index := c\<rparr>) s)"
  "domain_frame d s (upd_dp_stats d g s)"
  by (auto simp: upd_dp_stats_def intro: domain_frame_upd)

lemma quiet_pump_frame:
  assumes "domain_wf s d" and "quiet_env env" and "i < ev_actor_count"
    and m: "ev_domain_pump_actor_matches (int i) (dp_domain (sy_domain s d))"
    and "domain_slot s d i = Some r" and "ev_actor_runtime_pending s (Some r) \<noteq> 0" and "0 < b"
    and "ev_actor_runtime_pump env (Some r) b s = (rc, rep, s1)"
  shows "domain_frame d s s1"
proof -
  note Q = quiet_pump [OF assms]
  have "domain_load s1 e = domain_load s e"
    if e: "dp_registry (sy_domain s e) = dp_registry (sy_domain s d)"
      "dp_domain (sy_domain s e) \<noteq> dp_domain (sy_domain s d)" for e
  proof -
    have "\<not> ev_domain_pump_actor_matches (int i) (dp_domain (sy_domain s e))"
      using m e(2) by (auto simp: ev_domain_pump_actor_matches_def split: option.splits)
    then have "actor_load s1 e i = actor_load s e i" by (simp add: actor_load_def Q(6))
    then have "actor_load s1 e j = actor_load s e j" if "j < ev_actor_count" for j
      using Q(5) [OF e(1) that] by blast
    then show ?thesis unfolding domain_load_def by (intro arg_cong [where f = sum_list] map_cong) auto
  qed
  then show ?thesis using Q(6-8) by (auto simp: domain_frame_def)
qed

lemma cursor_advance_lt: "ev_domain_pump_cursor_advance i ev_actor_count < ev_actor_count"
  by (simp add: ev_domain_pump_cursor_advance_def)

lemma cursor_advance_mod:
  "i < ev_actor_count \<Longrightarrow> ev_domain_pump_cursor_advance i ev_actor_count = Suc i mod ev_actor_count"
  by (auto simp: ev_domain_pump_cursor_advance_def mod_if)

lemma default_budget_pos:
  assumes wf: "domain_wf s d" and r: "domain_slot s d i = Some r" and i: "i < ev_actor_count"
  shows "0 < ev_actor_runtime_default_budget s (Some r)"
proof -
  obtain g where g: "dp_registry (sy_domain s d) = Some g"
    and ids: "\<forall>a r. ev_actor_registry_find s (Some g) a = Some r \<longrightarrow> ar_actor_id (sy_runtime s r) = a"
    using wf by (auto simp: domain_wf_def)
  have "ar_actor_id (sy_runtime s r) = int i" using slot_find [OF i g] r ids by simp
  moreover have "ev_actor_id_is_valid (int i)" using i by (simp add: ev_actor_id_is_valid_iff)
  ultimately show ?thesis
    using ev_actor_default_drain_budget_pos by (simp add: ev_actor_runtime_default_budget_def)
qed

lemma domain_pass_quiet:
  assumes q: "quiet_env env"
  shows "domain_wf s d \<Longrightarrow> 0 < remaining \<Longrightarrow> index < ev_actor_count \<Longrightarrow>
   domain_pass env d n index progressed made remaining report s
     = (early, progressed', made', remaining', report', s') \<Longrightarrow>
   early = None \<and> domain_wf s' d \<and> (progressed \<longrightarrow> progressed') \<and> (made \<longrightarrow> made')
   \<and> (progressed' \<longrightarrow> progressed \<or> made')
   \<and> domain_load s' d + dpr_processed report' = domain_load s d + dpr_processed report
   \<and> remaining' + dpr_processed report' = remaining + dpr_processed report
   \<and> dpr_pending_before report' = dpr_pending_before report \<and> domain_frame d s s'
   \<and> (\<not> progressed' \<longrightarrow> domain_load s' d = domain_load s d
        \<and> (\<forall>k<n. actor_load s d ((index + k) mod ev_actor_count) = 0))"
proof (induction n arbitrary: index progressed made remaining report s)
  case 0
  then show ?case by auto
next
  case (Suc n)
  let ?next = "ev_domain_pump_cursor_advance index ev_actor_count"
  have nxt: "?next < ev_actor_count" by (rule cursor_advance_lt)
  have shift: "(\<forall>k<Suc n. actor_load s d ((index + k) mod ev_actor_count) = 0)
      \<longleftrightarrow> actor_load s d index = 0 \<and> (\<forall>k<n. actor_load s d ((?next + k) mod ev_actor_count) = 0)"
  proof -
    have "(\<forall>k<Suc n. P k) \<longleftrightarrow> P 0 \<and> (\<forall>k<n. P (Suc k))" for P
      by (auto simp: less_Suc_eq_0_disj)
    moreover have "(?next + k) mod ev_actor_count = (index + Suc k) mod ev_actor_count" for k
      by (simp only: cursor_advance_mod [OF Suc.prems(3)] mod_add_left_eq add_Suc_shift)
    ultimately show ?thesis using Suc.prems(3) by (simp del: ev_actor_count_eq)
  qed
  show ?case
  proof (cases "ev_domain_pump_actor_matches (int index) (dp_domain (sy_domain s d))
      \<and> (\<exists>r. domain_slot s d index = Some r \<and> ev_actor_runtime_pending s (Some r) \<noteq> 0)")
    case False
    then have z: "actor_load s d index = 0"
      by (cases "domain_slot s d index") (auto simp: actor_load_def ev_actor_runtime_pending_def)
    obtain rep1 where rest: "domain_pass env d n ?next progressed made remaining rep1 s
        = (early, progressed', made', remaining', report', s')"
      and same: "dpr_processed rep1 = dpr_processed report"
        "dpr_pending_before rep1 = dpr_pending_before report"
    proof -
      have "\<exists>rep1. domain_pass env d n ?next progressed made remaining rep1 s
          = (early, progressed', made', remaining', report', s')
          \<and> dpr_processed rep1 = dpr_processed report
          \<and> dpr_pending_before rep1 = dpr_pending_before report"
      proof (cases "ev_domain_pump_actor_matches (int index) (dp_domain (sy_domain s d))")
        case nm: False
        then show ?thesis using Suc.prems(4) by (auto simp: Let_def)
      next
        case True
        then show ?thesis
          using Suc.prems(4) False
          by (intro exI [of _ "report\<lparr>dpr_actors_examined := dpr_actors_examined report + 1\<rparr>"])
            (cases "domain_slot s d index", simp_all add: Let_def)
      qed
      then show thesis using that by blast
    qed
    from Suc.IH [OF Suc.prems(1,2) nxt rest] show ?thesis
      unfolding shift using same z by simp
  next
    case True
    then obtain r where m: "ev_domain_pump_actor_matches (int index) (dp_domain (sy_domain s d))"
      and r: "domain_slot s d index = Some r" and pend: "ev_actor_runtime_pending s (Some r) \<noteq> 0"
      by blast
    let ?b = "ev_actor_runtime_default_budget s (Some r)"
    have b: "0 < ?b" by (rule default_budget_pos [OF Suc.prems(1) r Suc.prems(3)])
    then have bm: "0 < min ?b remaining" using Suc.prems(2) by simp
    obtain rc arep s1 where p: "ev_actor_runtime_pump env (Some r) (min ?b remaining) s = (rc, arep, s1)"
      by (rule prod_cases3)
    note Q = quiet_pump [OF Suc.prems(1) q Suc.prems(3) m r pend bm p]
    have k: "apr_processed arep \<le> actor_load s d index" "apr_processed arep \<le> remaining"
      using Q(2) by simp_all
    have "actor_load s d index \<noteq> 0" using m r pend by (simp add: actor_load_def)
    then have kpos: "0 < apr_processed arep" using Q(2) bm by simp
    have load: "domain_load s d = domain_load s1 d + apr_processed arep"
      by (rule domain_load_step [OF Suc.prems(3) k(1) Q(4) Q(5) [OF refl]])
    let ?aid = "ar_actor_id (sy_runtime s1 r)"
    let ?s2 = "upd_dp_stats d (\<lambda>st. st\<lparr>ds_last_actor := ?aid\<rparr>)
                 (upd_domain d (\<lambda>dp. dp\<lparr>dp_next_actor_index := ?next\<rparr>) s1)"
    let ?rep = "report\<lparr>dpr_actors_examined := dpr_actors_examined report + 1, dpr_last_actor := ?aid,
        dpr_processed := dpr_processed report + apr_processed arep,
        dpr_actors_pumped := dpr_actors_pumped report + 1\<rparr>"
    have wf2: "domain_wf ?s2 d" using Q(3) nxt by simp
    have fr: "domain_frame d s ?s2"
      by (rule domain_frame_trans [OF quiet_pump_frame [OF Suc.prems(1) q Suc.prems(3) m r pend bm p]
            domain_frame_trans [OF domain_frame_cursor(1) domain_frame_cursor(2)]])
    have l2: "domain_load ?s2 d + apr_processed arep = domain_load s d" using load by simp
    show ?thesis
    proof (cases "remaining - apr_processed arep = 0")
      case True
      then have "(early, progressed', made', remaining', report', s')
          = (None, True, True, remaining - apr_processed arep, ?rep, ?s2)"
        using Suc.prems(4) m r pend b p Q(1) by (simp add: Let_def)
      then show ?thesis using wf2 l2 k fr by simp
    next
      case False
      then have pos: "0 < remaining - apr_processed arep" by simp
      have rest: "domain_pass env d n ?next True True (remaining - apr_processed arep) ?rep ?s2
          = (early, progressed', made', remaining', report', s')"
        using Suc.prems(4) m r pend b p Q(1) False by (simp add: Let_def)
      from Suc.IH [OF wf2 pos nxt rest] show ?thesis
        using l2 k domain_frame_trans [OF fr, of s'] by simp
    qed
  qed
qed

text \<open>Only the end of a run sets the exhausted flag.\<close>

lemma domain_pass_not_exhausted:
  "domain_pass env d n index progressed made remaining report s
     = (early, progressed', made', remaining', report', s') \<Longrightarrow>
   dpr_exhausted_budget report' = dpr_exhausted_budget report"
proof (induction n arbitrary: index progressed made remaining report s)
  case (Suc n)
  show ?case
  proof (cases "domain_slot s d index")
    case None
    then show ?thesis using Suc.prems by (auto simp: Let_def dest!: Suc.IH split: if_splits)
  next
    case (Some r)
    obtain rc arep s1 where p: "ev_actor_runtime_pump env (Some r)
        (min (ev_actor_runtime_default_budget s (Some r)) remaining) s = (rc, arep, s1)"
      by (rule prod_cases3)
    show ?thesis using Suc.prems Some p by (auto simp: Let_def dest!: Suc.IH split: if_splits)
  qed
qed simp

lemma domain_loop_not_exhausted:
  "domain_loop env d made remaining report s = (early, made', remaining', report', s') \<Longrightarrow>
   dpr_exhausted_budget report' = dpr_exhausted_budget report"
proof (induction env d made remaining report s arbitrary: early made' remaining' report' s'
    rule: domain_loop.induct)
  case (1 env d made remaining report s)
  obtain e p1 m1 r1 rep1 s1 where pass: "domain_pass env d ev_actor_count
      (dp_next_actor_index (sy_domain s d)) False made remaining report s = (e, p1, m1, r1, rep1, s1)"
    by (metis prod_cases6)
  note P = domain_pass_not_exhausted [OF pass]
  show ?case
  proof (cases "remaining = 0 \<or> e \<noteq> None \<or> \<not> p1")
    case True
    then show ?thesis using 1(2) pass P by (auto simp: domain_loop.simps [of env d made remaining] split: if_splits)
  next
    case False
    then have ne: "remaining \<noteq> 0" "\<not> (e \<noteq> None \<or> \<not> p1)" by simp_all
    have rec: "domain_loop env d m1 r1 rep1 s1 = (early, made', remaining', report', s')"
      using 1(2) pass ne by (simp add: domain_loop.simps [of env d made remaining])
    show ?thesis
      using 1(1) [OF ne(1) pass [symmetric] refl refl refl refl refl ne(2) rec] P by simp
  qed
qed

lemma all_indices_visited:
  assumes "start < n" and "i < (n::nat)"
  shows "\<exists>k<n. (start + k) mod n = i"
proof (cases "start \<le> i")
  case True
  then show ?thesis using assms by (intro exI [of _ "i - start"]) simp
next
  case False
  then have "start + (i + n - start) = i + n" using assms by simp
  then show ?thesis
    using assms False by (intro exI [of _ "i + n - start"]) simp
qed

lemma domain_loop_quiet:
  "quiet_env env \<Longrightarrow> domain_wf s d \<Longrightarrow>
   domain_loop env d made remaining report s = (early, made', remaining', report', s') \<Longrightarrow>
   early = None \<and> domain_wf s' d \<and> (made \<longrightarrow> made')
   \<and> domain_load s' d + dpr_processed report' = domain_load s d + dpr_processed report
   \<and> remaining' + dpr_processed report' = remaining + dpr_processed report
   \<and> dpr_pending_before report' = dpr_pending_before report \<and> domain_frame d s s'
   \<and> (remaining' = 0 \<or> domain_load s' d = 0)
   \<and> (0 < remaining \<longrightarrow> 0 < domain_load s d \<longrightarrow> made')"
proof (induction env d made remaining report s arbitrary: early made' remaining' report' s'
    rule: domain_loop.induct)
  case (1 env d made remaining report s)
  show ?case
  proof (cases "remaining = 0")
    case True
    then show ?thesis using 1(2-4) by (simp add: domain_loop.simps)
  next
    case rem: False
    then have pos: "0 < remaining" by simp
    let ?start = "dp_next_actor_index (sy_domain s d)"
    have st: "?start < ev_actor_count" using 1(3) by (simp add: domain_wf_def)
    obtain e p1 m1 r1 rep1 s1 where pass: "domain_pass env d ev_actor_count ?start False made remaining report s
        = (e, p1, m1, r1, rep1, s1)"
      by (metis prod_cases6)
    note P = domain_pass_quiet [OF 1(2,3) pos st pass]
    have visited: "domain_load s d = 0" if "\<not> p1"
    proof -
      have z: "\<forall>k<ev_actor_count. actor_load s d ((?start + k) mod ev_actor_count) = 0" using P that by blast
      have "actor_load s d i = 0" if "i < ev_actor_count" for i
        using all_indices_visited [OF st that] z by auto
      then show ?thesis by (simp add: domain_load_0_iff del: ev_actor_count_eq)
    qed
    show ?thesis
    proof (cases p1)
      case False
      then have "early = e" "made' = m1" "remaining' = r1" "report' = rep1" "s' = s1"
        using 1(4) rem pass by (simp_all add: domain_loop.simps [of env d made remaining])
      then show ?thesis using P visited [OF False] False by simp
    next
      case True
      have rec: "domain_loop env d m1 r1 rep1 s1 = (early, made', remaining', report', s')"
        using 1(4) rem pass P True by (simp add: domain_loop.simps [of env d made remaining])
      have e: "\<not> (e \<noteq> None \<or> \<not> p1)" using P True by simp
      have wf1: "domain_wf s1 d" using P by simp
      note IH = 1(1) [OF rem pass [symmetric] refl refl refl refl refl e 1(2) wf1 rec]
      have fr: "domain_frame d s s'" using IH P domain_frame_trans [of d s s1 s'] by simp
      show ?thesis using IH P True fr by auto
    qed
  qed
qed

lemma watermark_load [simp]:
  "domain_load (ev_domain_pump_record_pending_high_watermark d n s) d = domain_load s d"
  "domain_wf (ev_domain_pump_record_pending_high_watermark d n s) d = domain_wf s d"
  "dp_next_actor_index (sy_domain (ev_domain_pump_record_pending_high_watermark d n s) d)
     = dp_next_actor_index (sy_domain s d)"
  by (simp_all add: ev_domain_pump_record_pending_high_watermark_def)

lemma maxima_load [simp]:
  "domain_load (ev_domain_pump_record_call_maxima d rep s) d = domain_load s d"
  "domain_wf (ev_domain_pump_record_call_maxima d rep s) d = domain_wf s d"
  by (simp_all add: ev_domain_pump_record_call_maxima_def)

lemma domain_frame_watermark [simp]: "domain_frame d s (ev_domain_pump_record_pending_high_watermark d n s)"
  by (simp add: ev_domain_pump_record_pending_high_watermark_def)

lemma domain_frame_maxima [simp]: "domain_frame d s (ev_domain_pump_record_call_maxima d rep s)"
  by (simp add: ev_domain_pump_record_call_maxima_def)

text \<open>A whole quiet run.\<close>

lemma domain_run_quiet:
  assumes wf: "domain_wf s d" and q: "quiet_env env" and b: "0 < b" and pending: "0 < domain_load s d"
    and run: "ev_domain_pump_run env (Some d) b s = (rc, rep, s')"
  shows "rc = EV_OK \<and> dpr_processed rep = min b (domain_load s d)
     \<and> domain_load s' d = domain_load s d - dpr_processed rep
     \<and> dpr_pending_before rep = domain_load s d \<and> dpr_pending_after rep = domain_load s' d
     \<and> (dpr_exhausted_budget rep \<longleftrightarrow> b < domain_load s d) \<and> domain_wf s' d \<and> domain_frame d s s'"
proof -
  let ?s1 = "upd_dp_stats d (\<lambda>st. st\<lparr>ds_pump_calls := ds_pump_calls st + 1, ds_last_budget := b,
      ds_last_processed := 0\<rparr>) s"
  let ?s2 = "ev_domain_pump_record_pending_high_watermark d (domain_load s d) ?s1"
  let ?rep = "ev_domain_pump_report_reset\<lparr>dpr_budget := b, dpr_pending_before := domain_load s d\<rparr>"
  have reg: "dp_registry (sy_domain s d) \<noteq> None" "ev_domain_pump_domain_is_valid (dp_domain (sy_domain s d))"
    and cur: "\<not> ev_actor_count \<le> dp_next_actor_index (sy_domain s d)"
    using wf by (auto simp: domain_wf_def)
  have wf2: "domain_wf ?s2 d" using wf by simp
  obtain early made rem rep1 s4 where l: "domain_loop env d False b ?rep ?s2 = (early, made, rem, rep1, s4)"
    by (rule prod_cases5)
  note L = domain_loop_quiet [OF q wf2 l]
  have fr2: "domain_frame d s ?s2"
    using domain_frame_trans [OF domain_frame_cursor(2) domain_frame_watermark] .
  have fields: "dpr_processed ?rep = 0" "dpr_pending_before ?rep = domain_load s d"
    "domain_load ?s2 d = domain_load s d"
    by (simp_all add: ev_domain_pump_report_reset_def)
  have L': "early = None" "made" "domain_wf s4 d" "domain_load s4 d + dpr_processed rep1 = domain_load s d"
    "rem + dpr_processed rep1 = b" "rem = 0 \<or> domain_load s4 d = 0"
    "dpr_pending_before rep1 = domain_load s d"
    using L fields b pending by simp_all
  have fr4: "domain_frame d s s4" using L domain_frame_trans [OF fr2] by blast
  have fr: "domain_frame d s (ev_domain_pump_record_call_maxima d r (upd_dp_stats d f (upd_dp_stats d g s4)))"
    for r f g
    by (rule domain_frame_trans [OF fr4 domain_frame_trans [OF domain_frame_cursor(2)
            domain_frame_trans [OF domain_frame_cursor(2) domain_frame_maxima]]])
  have reg4: "dp_registry (sy_domain s4 d) \<noteq> None" using L'(3) by (auto simp: domain_wf_def)
  have pend1: "ev_domain_pump_pending ?s1 (Some d) = domain_load s d"
    using reg by (subst domain_pending_load) simp_all
  have eq: "(rc, rep, s') =
     (let report = rep1\<lparr>dpr_pending_after := ev_domain_pump_pending s4 (Some d)\<rparr>;
          s5 = upd_dp_stats d (\<lambda>st. st\<lparr>ds_last_processed := dpr_processed report\<rparr>) s4
      in if \<not> made
         then let report = report\<lparr>dpr_stop_result := EV_ERR_STATE\<rparr>
              in (EV_ERR_STATE, report, ev_domain_pump_record_call_maxima d report
                    (upd_dp_stats d (\<lambda>st. st\<lparr>ds_last_result := EV_ERR_STATE\<rparr>) s5))
         else if rem = 0 \<and> 0 < dpr_pending_after report
         then let report = report\<lparr>dpr_exhausted_budget := True, dpr_stop_result := EV_OK\<rparr>
              in (EV_OK, report, ev_domain_pump_record_call_maxima d report
                    (upd_dp_stats d (\<lambda>st. st\<lparr>ds_pump_budget_hits := ds_pump_budget_hits st + 1,
                       ds_last_result := EV_OK\<rparr>) s5))
         else let report = report\<lparr>dpr_stop_result := EV_ERR_EMPTY\<rparr>
              in (EV_OK, report, ev_domain_pump_record_call_maxima d report
                    (upd_dp_stats d (\<lambda>st. st\<lparr>ds_last_result := EV_OK\<rparr>) s5)))"
    using run [symmetric] reg b pending pend1 l cur L'(1)
    by (simp add: ev_domain_pump_run_def Let_def del: ev_actor_count_eq)
  have ex: "dpr_exhausted_budget rep1 = False"
    using domain_loop_not_exhausted [OF l] by (simp add: ev_domain_pump_report_reset_def)
  show ?thesis
  proof (cases "rem = 0 \<and> 0 < domain_load s4 d")
    case True
    then show ?thesis
      using eq L' reg4 fr by (simp add: Let_def domain_pending_load)
  next
    case False
    then show ?thesis
      using eq L' reg4 ex fr by (auto simp: Let_def domain_pending_load)
  qed
qed

section \<open>What a pump keeps\<close>

text \<open>
  A predicate of the store that processing one message, counting and moving a cursor preserve is preserved
  by a whole run, on every path.
\<close>

locale domain_closed =
  fixes env :: "'w ev_env" and P :: "'w ev_sys \<Rightarrow> bool"
  assumes process_closed: "ev_actor_runtime_process_one env r s = (rc, s') \<Longrightarrow> P s \<Longrightarrow> P s'"
    and actor_stats_closed: "P s \<Longrightarrow> P (upd_ar_stats r f s)"
    and domain_stats_closed: "P s \<Longrightarrow> P (upd_dp_stats d g s)"
    and domain_cursor_closed: "P s \<Longrightarrow> P (upd_domain d (\<lambda>dp. dp\<lparr>dp_next_actor_index := c\<rparr>) s)"
begin

lemma closed_pump_loop: "pump_loop env r n k s = (failed, k', s') \<Longrightarrow> P s \<Longrightarrow> P s'"
proof (induction n arbitrary: k s)
  case (Suc n)
  obtain rc s1 where p: "ev_actor_runtime_process_one env r s = (rc, s1)" by (rule prod.exhaust)
  show ?case
    using Suc.prems p process_closed [OF p] by (auto dest!: Suc.IH split: if_splits)
qed simp

lemma closed_actor_pump: "ev_actor_runtime_pump env pr b s = (rc, rep, s') \<Longrightarrow> P s \<Longrightarrow> P s'"
  by (auto simp: ev_actor_runtime_pump_def Let_def intro: actor_stats_closed dest!: closed_pump_loop
      split: prod.splits if_splits option.splits)

lemma closed_domain_maxima: "P s \<Longrightarrow> P (ev_domain_pump_record_call_maxima d report s)"
  "P s \<Longrightarrow> P (ev_domain_pump_record_pending_high_watermark d n s)"
  by (simp_all add: ev_domain_pump_record_call_maxima_def ev_domain_pump_record_pending_high_watermark_def
      domain_stats_closed)

lemmas domain_closed_steps = domain_stats_closed domain_cursor_closed closed_domain_maxima

lemma closed_domain_pass:
  "domain_pass env d n index progressed made remaining report s
     = (early, progressed', made', remaining', report', s') \<Longrightarrow> P s \<Longrightarrow> P s'"
proof (induction n arbitrary: index progressed made remaining report s)
  case (Suc n)
  show ?case
  proof (cases "domain_slot s d index")
    case None
    then show ?thesis using Suc.prems by (auto simp: Let_def dest!: Suc.IH split: if_splits)
  next
    case (Some r)
    obtain rc arep s1 where p: "ev_actor_runtime_pump env (Some r)
        (min (ev_actor_runtime_default_budget s (Some r)) remaining) s = (rc, arep, s1)"
      by (rule prod_cases3)
    show ?thesis
      using Suc.prems Some p closed_actor_pump [OF p]
      by (auto simp: Let_def domain_closed_steps dest!: Suc.IH split: if_splits)
  qed
qed simp

lemma closed_domain_loop:
  "domain_loop env' d made remaining report s = (early, made', remaining', report', s') \<Longrightarrow>
   env' = env \<Longrightarrow> P s \<Longrightarrow> P s'"
proof (induction env' d made remaining report s arbitrary: early made' remaining' report' s'
    rule: domain_loop.induct)
  case (1 env' d made remaining report s)
  obtain e p1 m1 r1 rep1 s1 where pass: "domain_pass env' d ev_actor_count
      (dp_next_actor_index (sy_domain s d)) False made remaining report s = (e, p1, m1, r1, rep1, s1)"
    by (metis prod_cases6)
  have P1: "P s1" by (rule closed_domain_pass [OF pass [unfolded 1(3)] 1(4)])
  show ?case
  proof (cases "remaining = 0 \<or> e \<noteq> None \<or> \<not> p1")
    case True
    then show ?thesis
      using 1(2,4) pass P1 by (auto simp: domain_loop.simps [of env' d made remaining] split: if_splits)
  next
    case False
    then have ne: "remaining \<noteq> 0" "\<not> (e \<noteq> None \<or> \<not> p1)" by simp_all
    have rec: "domain_loop env' d m1 r1 rep1 s1 = (early, made', remaining', report', s')"
      using 1(2) pass ne by (simp add: domain_loop.simps [of env' d made remaining])
    show ?thesis
      by (rule 1(1) [OF ne(1) pass [symmetric] refl refl refl refl refl ne(2) rec 1(3) P1])
  qed
qed

lemma closed_domain_run: "ev_domain_pump_run env pd b s = (rc, rep, s') \<Longrightarrow> P s \<Longrightarrow> P s'"
  by (auto simp: ev_domain_pump_run_def Let_def intro: domain_closed_steps
      dest!: closed_domain_loop split: prod.splits if_splits option.splits)

end

section \<open>Properties\<close>

text \<open>
  A domain pump drains its domain up to its budget. On a pump in order whose handlers act on their
  own state and do not fail, a run with budget \<open>b\<close> on a non-empty domain succeeds after processing
  exactly the smaller of \<open>b\<close> and the number of pending messages, over all actors of the domain
  together; the report counts what was processed and what is left, and it flags an exhausted budget
  exactly when messages are left.
\<close>

theorem domain_pump_drains:
  assumes wf: "domain_wf s d" and q: "quiet_env env" and b: "0 < b" and pending: "0 < domain_load s d"
    and run: "ev_domain_pump_run env (Some d) b s = (rc, rep, s')"
  shows "rc = EV_OK \<and> dpr_processed rep = min b (domain_load s d)
     \<and> domain_load s' d = domain_load s d - dpr_processed rep
     \<and> dpr_pending_before rep = domain_load s d \<and> dpr_pending_after rep = domain_load s' d
     \<and> (dpr_exhausted_budget rep \<longleftrightarrow> b < domain_load s d) \<and> domain_wf s' d"
  using domain_run_quiet [OF assms] by simp

text \<open>The demo node with a handler that logs every event and succeeds.\<close>

definition quiet_log_env :: "ev_event_id list ev_env" where
  "quiet_log_env = \<lparr>env_lc = log_lifecycle,
     env_handler = (\<lambda>f ctx m s. (EV_OK, s\<lparr>sy_world := sy_world s @ [msg_event_id m]\<rparr>))\<rparr>"

lemma quiet_log_env_quiet: "quiet_env quiet_log_env"
  unfolding quiet_env_def
  by (rule exI [of _ "\<lambda>f ctx m w. (EV_OK, w @ [msg_event_id m])"])
    (simp add: world_handler_def quiet_log_env_def)

lemma demo_node_domain_wf: "domain_wf demo_node 0"
proof -
  have "ar_actor_id (sy_runtime demo_node r) = (if r = 0 then ACT_DIAG else ACT_APP)" for r
    by (simp add: demo_node_def)
  moreover have "dp_registry (sy_domain demo_node 0) = Some 0"
    "ev_domain_pump_domain_is_valid (dp_domain (sy_domain demo_node 0))"
    "dp_next_actor_index (sy_domain demo_node 0) = 0"
    by code_simp+
  ultimately show ?thesis
    using demo_node_wf by (auto simp: domain_wf_def demo_node_find split: if_splits)
qed

theorem domain_pump_drains_witness:
  "\<exists>rep s'. ev_domain_pump_run quiet_log_env (Some 0) 2 demo_node = (EV_OK, rep, s')
     \<and> dpr_processed rep = 2 \<and> dpr_exhausted_budget rep \<and> domain_load s' 0 = domain_load demo_node 0 - 2"
proof -
  obtain rc rep s' where run: "ev_domain_pump_run quiet_log_env (Some 0) 2 demo_node = (rc, rep, s')"
    by (rule prod_cases3)
  have l: "2 < domain_load demo_node 0" by code_simp
  then have pos: "0 < domain_load demo_node 0" by simp
  show ?thesis
    using domain_pump_drains [OF demo_node_domain_wf quiet_log_env_quiet _ pos run] run l by simp
qed

end
