(* ===== verification/EvSystemPump.thy ===== *)
theory EvSystemPump
  imports EvDomainPump
begin

text \<open>
  Scheduling across execution domains (\<open>core/src/ev_system_pump.c\<close>): the system pump gives the domain
  pumps bound to it one turn each, round robin from a cursor, until its turn budget is used up, a
  domain fails, or a whole pass over the domains makes no progress.
\<close>

section \<open>Operations\<close>

definition ev_system_pump_record_pending_high_watermark :: "nat \<Rightarrow> nat \<Rightarrow> 'w ev_sys \<Rightarrow> 'w ev_sys" where
  "ev_system_pump_record_pending_high_watermark y pending s =
     (if ss_pending_high_watermark (sm_stats (sy_system s y)) < pending
      then upd_sm_stats y (\<lambda>st. st\<lparr>ss_pending_high_watermark := pending\<rparr>) s else s)"

definition ev_system_pump_record_call_maxima :: "nat \<Rightarrow> ev_system_pump_report \<Rightarrow> 'w ev_sys \<Rightarrow> 'w ev_sys" where
  "ev_system_pump_record_call_maxima y report s = upd_sm_stats y (\<lambda>st. st\<lparr>
     ss_max_domains_examined_per_call := max (ss_max_domains_examined_per_call st) (spr_domains_examined report),
     ss_max_domains_pumped_per_call := max (ss_max_domains_pumped_per_call st) (spr_domains_pumped report),
     ss_max_turns_per_call := max (ss_max_turns_per_call st) (spr_turns_processed report),
     ss_max_messages_per_call := max (ss_max_messages_per_call st) (spr_messages_processed report)\<rparr>) s"

definition ev_system_pump_domain_is_valid :: "ev_execution_domain \<Rightarrow> bool" where
  "ev_system_pump_domain_is_valid domain \<longleftrightarrow> 0 \<le> domain \<and> domain < EV_DOMAIN_COUNT"

definition ev_system_pump_cursor_advance :: "nat \<Rightarrow> nat" where
  "ev_system_pump_cursor_advance cursor =
     (if nat EV_DOMAIN_COUNT \<le> cursor + 1 then 0 else cursor + 1)"

definition ev_system_pump_report_reset :: ev_system_pump_report where
  "ev_system_pump_report_reset = \<lparr>spr_turn_budget = 0, spr_turns_processed = 0, spr_domains_examined = 0,
     spr_domains_pumped = 0, spr_messages_processed = 0, spr_pending_before = 0, spr_pending_after = 0,
     spr_exhausted_turn_budget = False, spr_last_domain = EV_DOMAIN_COUNT, spr_stop_result = EV_OK\<rparr>"

definition zero_sm_stats :: ev_system_pump_stats where
  "zero_sm_stats = \<lparr>ss_run_calls = 0, ss_empty_calls = 0, ss_budget_hits = 0, ss_domains_pumped = 0,
     ss_turns_processed = 0, ss_messages_processed = 0, ss_last_turn_budget = 0,
     ss_last_turns_processed = 0, ss_pending_high_watermark = 0, ss_max_domains_examined_per_call = 0,
     ss_max_domains_pumped_per_call = 0, ss_max_turns_per_call = 0, ss_max_messages_per_call = 0,
     ss_last_domain = EV_DOMAIN_COUNT, ss_last_result = EV_OK\<rparr>"

definition ev_system_pump_init :: "ptr \<Rightarrow> 'w ev_sys \<Rightarrow> ev_result \<times> 'w ev_sys" where
  "ev_system_pump_init pump s =
     (case pump of None \<Rightarrow> (EV_ERR_INVALID_ARG, s)
      | Some y \<Rightarrow> (EV_OK, upd_system y (\<lambda>_. \<lparr>sm_slots = replicate (nat EV_DOMAIN_COUNT) None,
                     sm_next_domain_index = 0, sm_stats = zero_sm_stats\<rparr>) s))"

definition ev_system_pump_bind :: "ptr \<Rightarrow> ptr \<Rightarrow> 'w ev_sys \<Rightarrow> ev_result \<times> 'w ev_sys" where
  "ev_system_pump_bind pump domain_pump s =
     (if pump = None \<or> domain_pump = None then (EV_ERR_INVALID_ARG, s)
      else
        let y = the pump; domain = dp_domain (sy_domain s (the domain_pump))
        in if \<not> ev_system_pump_domain_is_valid domain then (EV_ERR_OUT_OF_RANGE, s)
           else if sm_slots (sy_system s y) ! nat domain \<noteq> None then (EV_ERR_STATE, s)
           else (EV_OK, upd_system y (\<lambda>sm. sm\<lparr>sm_slots := (sm_slots sm)[nat domain := domain_pump]\<rparr>) s))"

definition ev_system_pump_reset_stats :: "ptr \<Rightarrow> 'w ev_sys \<Rightarrow> ev_result \<times> 'w ev_sys" where
  "ev_system_pump_reset_stats pump s =
     (case pump of None \<Rightarrow> (EV_ERR_INVALID_ARG, s)
      | Some y \<Rightarrow> (EV_OK, upd_sm_stats y (\<lambda>_. zero_sm_stats) s))"

definition ev_system_pump_stats_of :: "'w ev_sys \<Rightarrow> ptr \<Rightarrow> ev_system_pump_stats option" where
  "ev_system_pump_stats_of s pump = map_option (\<lambda>y. sm_stats (sy_system s y)) pump"

text \<open>The domain pump bound at an index.\<close>

definition system_slot :: "'w ev_sys \<Rightarrow> nat \<Rightarrow> nat \<Rightarrow> ptr" where
  "system_slot s y index = sm_slots (sy_system s y) ! index"

definition ev_system_pump_bound_count :: "'w ev_sys \<Rightarrow> ptr \<Rightarrow> nat" where
  "ev_system_pump_bound_count s pump =
     (case pump of None \<Rightarrow> 0
      | Some y \<Rightarrow> length (filter (\<lambda>i. system_slot s y i \<noteq> None) [0..<nat EV_DOMAIN_COUNT]))"

definition ev_system_pump_pending :: "'w ev_sys \<Rightarrow> ptr \<Rightarrow> nat" where
  "ev_system_pump_pending s pump =
     (case pump of None \<Rightarrow> 0
      | Some y \<Rightarrow> sum_list (map (\<lambda>i. case system_slot s y i of
                      None \<Rightarrow> 0 | Some d \<Rightarrow> ev_domain_pump_pending s (Some d)) [0..<nat EV_DOMAIN_COUNT]))"

text \<open>
  One pass over \<open>n\<close> domains from \<open>index\<close>. The result: the code of an early return, whether this pass
  and the whole call progressed, the turns left, the report and the store.
\<close>

primrec system_pass ::
    "'w ev_env \<Rightarrow> nat \<Rightarrow> nat \<Rightarrow> nat \<Rightarrow> bool \<Rightarrow> bool \<Rightarrow> nat \<Rightarrow> ev_system_pump_report \<Rightarrow> 'w ev_sys
       \<Rightarrow> ev_result option \<times> bool \<times> bool \<times> nat \<times> ev_system_pump_report \<times> 'w ev_sys" where
  "system_pass env y 0 index progressed made remaining report s
     = (None, progressed, made, remaining, report, s)"
| "system_pass env y (Suc n) index progressed made remaining report s =
     (let next_index = ev_system_pump_cursor_advance index
      in case system_slot s y index of
           None \<Rightarrow> system_pass env y n next_index progressed made remaining report s
         | Some d \<Rightarrow>
             let report = report\<lparr>spr_domains_examined := spr_domains_examined report + 1\<rparr>
             in if ev_domain_pump_pending s (Some d) = 0
                then system_pass env y n next_index progressed made remaining report s
                else
                  let domain_budget = ev_domain_pump_default_budget s (Some d);
                      dom = dp_domain (sy_domain s d)
                  in if domain_budget = 0
                     then
                       let s1 = upd_sm_stats y (\<lambda>st. st\<lparr>ss_last_domain := dom,
                                  ss_last_result := EV_ERR_CONTRACT\<rparr>) s;
                           report = report\<lparr>spr_last_domain := dom,
                                  spr_pending_after := ev_system_pump_pending s1 (Some y),
                                  spr_stop_result := EV_ERR_CONTRACT\<rparr>
                       in (Some EV_ERR_CONTRACT, progressed, made, remaining, report,
                           ev_system_pump_record_call_maxima y report s1)
                     else
                       let (rc, domain_report, s1) = ev_domain_pump_run env (Some d) domain_budget s;
                           dom = dp_domain (sy_domain s1 d);
                           s2 = upd_sm_stats y (\<lambda>st. st\<lparr>ss_last_domain := dom\<rparr>)
                                  (upd_system y (\<lambda>sm. sm\<lparr>sm_next_domain_index := next_index\<rparr>) s1);
                           report = report\<lparr>spr_last_domain := dom\<rparr>
                       in if rc = EV_ERR_EMPTY
                          then system_pass env y n next_index progressed made remaining report s2
                          else
                            let report = report\<lparr>spr_domains_pumped := spr_domains_pumped report + 1,
                                  spr_messages_processed :=
                                    spr_messages_processed report + dpr_processed domain_report,
                                  spr_turns_processed := spr_turns_processed report + 1\<rparr>
                            in if rc \<noteq> EV_OK
                               then
                                 let report = report\<lparr>
                                       spr_pending_after := ev_system_pump_pending s2 (Some y),
                                       spr_stop_result := rc\<rparr>;
                                     s3 = upd_sm_stats y (\<lambda>st. st\<lparr>
                                       ss_domains_pumped := ss_domains_pumped st + 1,
                                       ss_turns_processed := ss_turns_processed st + 1,
                                       ss_messages_processed :=
                                         ss_messages_processed st + dpr_processed domain_report,
                                       ss_last_turns_processed := spr_turns_processed report,
                                       ss_last_result := rc\<rparr>) s2
                                 in (Some rc, progressed, made, remaining, report,
                                     ev_system_pump_record_call_maxima y report s3)
                               else
                                 let s3 = upd_sm_stats y (\<lambda>st. st\<lparr>
                                       ss_domains_pumped := ss_domains_pumped st + 1,
                                       ss_messages_processed :=
                                         ss_messages_processed st + dpr_processed domain_report\<rparr>) s2;
                                     remaining = remaining - 1
                                 in if remaining = 0 then (None, True, True, remaining, report, s3)
                                    else system_pass env y n next_index True True remaining report s3)"

text \<open>A pass uses one turn per domain it pumps, and stops at the last.\<close>

lemma system_pass_budget:
  "0 < remaining \<Longrightarrow>
   system_pass env y n index progressed made remaining report s
     = (early, progressed', made', remaining', report', s') \<Longrightarrow>
   remaining' \<le> remaining \<and> (progressed' \<longrightarrow> progressed \<or> remaining' < remaining)"
proof (induction n arbitrary: index progressed made remaining report s)
  case 0
  then show ?case by simp
next
  case (Suc n)
  show ?case
  proof (cases "system_slot s y index")
    case None
    then show ?thesis using Suc.prems by (auto simp: Let_def dest!: Suc.IH [OF Suc.prems(1)])
  next
    case (Some d)
    obtain rc drep s1 where r: "ev_domain_pump_run env (Some d) (ev_domain_pump_default_budget s (Some d)) s
        = (rc, drep, s1)"
      by (rule prod_cases3)
    show ?thesis
    proof (cases "remaining - 1 \<noteq> 0 \<and> rc = EV_OK")
      case True
      then have "0 < remaining - 1" by simp
      note IH = Suc.IH [OF this, unfolded One_nat_def]
      show ?thesis
      proof (cases "ev_domain_pump_pending s (Some d) = 0 \<or> ev_domain_pump_default_budget s (Some d) = 0")
        case skip: True
        then show ?thesis
          using Suc.prems Some by (auto simp: Let_def dest!: Suc.IH [OF Suc.prems(1)] split: if_splits)
      next
        case False
        then show ?thesis
          using Suc.prems Some r True by (auto simp: Let_def dest!: IH)
      qed
    next
      case False
      then show ?thesis
        using Suc.prems Some r
        by (auto simp: Let_def dest!: Suc.IH [OF Suc.prems(1)] split: if_splits)
    qed
  qed
qed

function system_loop ::
    "'w ev_env \<Rightarrow> nat \<Rightarrow> bool \<Rightarrow> nat \<Rightarrow> ev_system_pump_report \<Rightarrow> 'w ev_sys
       \<Rightarrow> ev_result option \<times> bool \<times> nat \<times> ev_system_pump_report \<times> 'w ev_sys" where
  "system_loop env y made remaining report s =
     (if remaining = 0 then (None, made, remaining, report, s)
      else
        let (early, progressed, made1, remaining1, report1, s1) =
              system_pass env y (nat EV_DOMAIN_COUNT) (sm_next_domain_index (sy_system s y)) False made
                remaining report s
        in if early \<noteq> None \<or> \<not> progressed then (early, made1, remaining1, report1, s1)
           else system_loop env y made1 remaining1 report1 s1)"
  by pat_completeness auto
termination
proof (relation "measure (\<lambda>(env, y, made, remaining, report, s). remaining)", goal_cases)
  case 1
  then show ?case by simp
next
  case (2 env y made remaining report s x early u progressed z made1 v remaining1 w report1 s1)
  from 2(2-7) have "system_pass env y (nat EV_DOMAIN_COUNT) (sm_next_domain_index (sy_system s y)) False made
      remaining report s = (early, progressed, made1, remaining1, report1, s1)"
    by simp
  from system_pass_budget [OF _ this] show ?case using 2(1,8) by auto
qed

declare system_loop.simps [simp del]

definition ev_system_pump_run ::
    "'w ev_env \<Rightarrow> ptr \<Rightarrow> nat \<Rightarrow> 'w ev_sys \<Rightarrow> ev_result \<times> ev_system_pump_report option \<times> 'w ev_sys" where
  "ev_system_pump_run env pump turn_budget s =
     (if pump = None \<or> turn_budget = 0 then (EV_ERR_INVALID_ARG, None, s)
      else if ev_system_pump_bound_count s pump = 0 then (EV_ERR_STATE, None, s)
      else
        let y = the pump;
            s1 = upd_sm_stats y (\<lambda>st. st\<lparr>ss_run_calls := ss_run_calls st + 1,
                   ss_last_turn_budget := turn_budget, ss_last_turns_processed := 0\<rparr>) s;
            pending_before = ev_system_pump_pending s1 pump;
            report = ev_system_pump_report_reset\<lparr>spr_turn_budget := turn_budget,
                       spr_pending_before := pending_before\<rparr>;
            s2 = ev_system_pump_record_pending_high_watermark y pending_before s1
        in if pending_before = 0
           then
             let report = report\<lparr>spr_pending_after := 0, spr_stop_result := EV_ERR_EMPTY\<rparr>
             in (EV_ERR_EMPTY, Some report, ev_system_pump_record_call_maxima y report
                   (upd_sm_stats y (\<lambda>st. st\<lparr>ss_empty_calls := ss_empty_calls st + 1,
                      ss_last_result := EV_ERR_EMPTY\<rparr>) s2))
           else
             let s3 = (if nat EV_DOMAIN_COUNT \<le> sm_next_domain_index (sy_system s2 y)
                       then upd_system y (\<lambda>sm. sm\<lparr>sm_next_domain_index := 0\<rparr>) s2 else s2);
                 (early, made, remaining, report, s4) = system_loop env y False turn_budget report s3
             in case early of
                  Some rc \<Rightarrow> (rc, Some report, s4)
                | None \<Rightarrow>
                    let report = report\<lparr>spr_pending_after := ev_system_pump_pending s4 pump\<rparr>;
                        s5 = upd_sm_stats y (\<lambda>st. st\<lparr>
                               ss_turns_processed := ss_turns_processed st + spr_turns_processed report,
                               ss_last_turns_processed := spr_turns_processed report\<rparr>) s4
                    in if \<not> made
                       then
                         let report = report\<lparr>spr_stop_result := EV_ERR_STATE\<rparr>
                         in (EV_ERR_STATE, Some report, ev_system_pump_record_call_maxima y report
                               (upd_sm_stats y (\<lambda>st. st\<lparr>ss_last_result := EV_ERR_STATE\<rparr>) s5))
                       else if remaining = 0 \<and> 0 < spr_pending_after report
                       then
                         let report = report\<lparr>spr_exhausted_turn_budget := True, spr_stop_result := EV_OK\<rparr>
                         in (EV_OK, Some report, ev_system_pump_record_call_maxima y report
                               (upd_sm_stats y (\<lambda>st. st\<lparr>ss_budget_hits := ss_budget_hits st + 1,
                                  ss_last_result := EV_OK\<rparr>) s5))
                       else
                         let report = report\<lparr>spr_stop_result := EV_ERR_EMPTY\<rparr>
                         in (EV_OK, Some report, ev_system_pump_record_call_maxima y report
                               (upd_sm_stats y (\<lambda>st. st\<lparr>ss_last_result := EV_OK\<rparr>) s5)))"

section \<open>Draining all domains\<close>

text \<open>
  A system pump in order: every domain pump sits in the slot of its domain, is in order, and all of
  them share one registry.
\<close>

definition system_wf :: "'w ev_sys \<Rightarrow> nat \<Rightarrow> bool" where
  "system_wf s y \<longleftrightarrow> length (sm_slots (sy_system s y)) = nat EV_DOMAIN_COUNT
     \<and> sm_next_domain_index (sy_system s y) < nat EV_DOMAIN_COUNT
     \<and> (\<exists>g. \<forall>i<nat EV_DOMAIN_COUNT. \<forall>d. system_slot s y i = Some d \<longrightarrow>
          domain_wf s d \<and> dp_domain (sy_domain s d) = int i \<and> dp_registry (sy_domain s d) = Some g)"

definition slot_load :: "'w ev_sys \<Rightarrow> nat \<Rightarrow> nat \<Rightarrow> nat" where
  "slot_load s y i = (case system_slot s y i of None \<Rightarrow> 0 | Some d \<Rightarrow> domain_load s d)"

definition system_load :: "'w ev_sys \<Rightarrow> nat \<Rightarrow> nat" where
  "system_load s y = sum_list (map (slot_load s y) [0..<nat EV_DOMAIN_COUNT])"

lemma system_wf_slot:
  assumes "system_wf s y" and "i < nat EV_DOMAIN_COUNT" and "system_slot s y i = Some d"
  shows "domain_wf s d" and "dp_domain (sy_domain s d) = int i" and "dp_registry (sy_domain s d) \<noteq> None"
  using assms by (auto simp: system_wf_def)

lemma system_pending_load:
  assumes "system_wf s y"
  shows "ev_system_pump_pending s (Some y) = system_load s y"
proof -
  have "slot_load s y i = (case system_slot s y i of None \<Rightarrow> 0 | Some d \<Rightarrow> ev_domain_pump_pending s (Some d))"
    if "i < nat EV_DOMAIN_COUNT" for i
    using system_wf_slot(3) [OF assms that] by (auto simp: slot_load_def domain_pending_load split: option.split)
  then show ?thesis
    unfolding ev_system_pump_pending_def system_load_def option.case
    by (intro arg_cong [where f = sum_list] map_cong) auto
qed

lemma system_load_0_iff: "system_load s y = 0 \<longleftrightarrow> (\<forall>i<nat EV_DOMAIN_COUNT. slot_load s y i = 0)"
  by (auto simp: system_load_def)

lemma system_wf_bound: "system_wf s y \<Longrightarrow> 0 < system_load s y \<Longrightarrow> ev_system_pump_bound_count s (Some y) \<noteq> 0"
  using system_load_0_iff [of s y]
  by (auto simp: ev_system_pump_bound_count_def slot_load_def filter_empty_conv split: option.splits)

text \<open>The system pump's own bookkeeping does not touch the domains.\<close>

lemma upd_system_domain_frames [simp]:
  "domain_load (upd_system y f s) d = domain_load s d" "domain_wf (upd_system y f s) d = domain_wf s d"
  "ev_domain_pump_pending (upd_system y f s) pd = ev_domain_pump_pending s pd"
proof -
  have p: "ev_actor_runtime_pending (upd_system y f s) r = ev_actor_runtime_pending s r" for r
    by (simp add: ev_actor_runtime_pending_def runtime_mailbox_def split: option.split)
  then have "actor_load (upd_system y f s) d = actor_load s d" by (simp add: fun_eq_iff actor_load_def domain_slot_def)
  then show "domain_load (upd_system y f s) d = domain_load s d" by (simp add: domain_load_def)
  show "domain_wf (upd_system y f s) d = domain_wf s d"
    by (simp add: domain_wf_def node_wf_def actor_wf_def ev_actor_registry_find_def)
  show "ev_domain_pump_pending (upd_system y f s) pd = ev_domain_pump_pending s pd"
    by (simp add: ev_domain_pump_pending_def domain_slot_def p cong: if_cong option.case_cong)
qed

lemma upd_sm_domain_frames [simp]:
  "domain_load (upd_sm_stats y f s) d = domain_load s d" "domain_wf (upd_sm_stats y f s) d = domain_wf s d"
  "ev_domain_pump_pending (upd_sm_stats y f s) pd = ev_domain_pump_pending s pd"
  by (simp_all add: upd_sm_stats_def)

lemma system_frames [simp]:
  "system_load (upd_sm_stats y f s) y = system_load s y"
  "system_wf (upd_sm_stats y f s) y = system_wf s y"
  "ev_system_pump_pending (upd_sm_stats y f s) p = ev_system_pump_pending s p"
  "ev_system_pump_bound_count (upd_sm_stats y f s) p = ev_system_pump_bound_count s p"
  "system_load (upd_system y (\<lambda>sm. sm\<lparr>sm_next_domain_index := c\<rparr>) s) y = system_load s y"
  "slot_load (upd_system y (\<lambda>sm. sm\<lparr>sm_next_domain_index := c\<rparr>) s) y = slot_load s y"
  "slot_load (upd_sm_stats y f s) y = slot_load s y"
proof -
  have sl: "system_slot (upd_sm_stats y f s) z = system_slot s z" for z
    by (simp add: fun_eq_iff system_slot_def)
  have sl': "system_slot (upd_system y (\<lambda>sm. sm\<lparr>sm_next_domain_index := c\<rparr>) s) y = system_slot s y"
    by (simp add: fun_eq_iff system_slot_def)
  show s1: "slot_load (upd_sm_stats y f s) y = slot_load s y"
    by (simp add: fun_eq_iff slot_load_def sl split: option.split)
  show s2: "slot_load (upd_system y (\<lambda>sm. sm\<lparr>sm_next_domain_index := c\<rparr>) s) y = slot_load s y"
    by (simp add: fun_eq_iff slot_load_def sl' split: option.split)
  show "system_load (upd_sm_stats y f s) y = system_load s y" by (simp add: system_load_def s1)
  show "system_load (upd_system y (\<lambda>sm. sm\<lparr>sm_next_domain_index := c\<rparr>) s) y = system_load s y"
    by (simp add: system_load_def s2)
  show "system_wf (upd_sm_stats y f s) y = system_wf s y" by (simp add: system_wf_def sl)
  show "ev_system_pump_pending (upd_sm_stats y f s) p = ev_system_pump_pending s p"
    by (simp add: ev_system_pump_pending_def sl cong: option.case_cong)
  show "ev_system_pump_bound_count (upd_sm_stats y f s) p = ev_system_pump_bound_count s p"
    by (simp add: ev_system_pump_bound_count_def sl split: option.split)
qed

lemma system_wf_cursor [simp]:
  assumes "c < nat EV_DOMAIN_COUNT" and "system_wf s y"
  shows "system_wf (upd_system y (\<lambda>sm. sm\<lparr>sm_next_domain_index := c\<rparr>) s) y"
  using assms by (auto simp: system_wf_def system_slot_def)

lemma system_cursor_lt: "ev_system_pump_cursor_advance i < nat EV_DOMAIN_COUNT"
  by (simp add: ev_system_pump_cursor_advance_def)

lemma system_cursor_mod:
  "i < nat EV_DOMAIN_COUNT \<Longrightarrow> ev_system_pump_cursor_advance i = Suc i mod nat EV_DOMAIN_COUNT"
  by (auto simp: ev_system_pump_cursor_advance_def mod_if)

text \<open>A domain with pending messages has a default budget.\<close>

lemma domain_default_budget_pos:
  assumes wf: "domain_wf s d" and load: "0 < domain_load s d"
  shows "0 < ev_domain_pump_default_budget s (Some d)"
proof -
  obtain i where i: "i < ev_actor_count" and l: "0 < actor_load s d i"
    using load domain_load_0_iff [of s d] by auto
  then have "ev_domain_pump_actor_matches (int i) (dp_domain (sy_domain s d))"
    by (simp add: actor_load_def split: if_splits)
  then obtain meta where meta: "ev_actor_meta (int i) = Some meta"
    and dom: "am_execution_domain meta = dp_domain (sy_domain s d)"
    by (auto simp: ev_domain_pump_actor_matches_def split: option.splits)
  have "ev_actor_id_is_valid (int i)" using i by (simp add: ev_actor_id_is_valid_iff)
  then have "0 < am_drain_budget meta"
    using ev_actor_default_drain_budget_pos [of "int i"] meta
    by (simp add: ev_actor_default_drain_budget_def)
  then have "\<exists>k\<in>set [0..<ev_actor_count]. 0 < (case ev_actor_meta (int k) of None \<Rightarrow> 0
      | Some meta \<Rightarrow> if am_execution_domain meta = dp_domain (sy_domain s d) then am_drain_budget meta else 0)"
    using i meta dom by (intro bexI [of _ i]) auto
  moreover have "ev_domain_pump_domain_is_valid (dp_domain (sy_domain s d))"
    using wf by (simp add: domain_wf_def)
  ultimately show ?thesis
    by (simp add: ev_domain_pump_default_budget_def ev_domain_pump_domain_default_budget_def
        sum_list_eq_0_iff flip: neq0_conv)
qed

text \<open>One quiet turn of one domain.\<close>

lemma quiet_turn:
  assumes wf: "system_wf s y" and q: "quiet_env env" and i: "i < nat EV_DOMAIN_COUNT"
    and d: "system_slot s y i = Some d" and load: "0 < domain_load s d"
    and run: "ev_domain_pump_run env (Some d) (ev_domain_pump_default_budget s (Some d)) s = (rc, rep, s1)"
  shows "rc = EV_OK" and "system_wf s1 y" and "0 < dpr_processed rep"
    and "system_load s1 y + dpr_processed rep = system_load s y"
    and "sy_system s1 = sy_system s"
proof -
  have wfd: "domain_wf s d" by (rule system_wf_slot(1) [OF wf i d])
  have b: "0 < ev_domain_pump_default_budget s (Some d)" by (rule domain_default_budget_pos [OF wfd load])
  note R = domain_run_quiet [OF wfd q b load run]
  have fr: "domain_frame d s s1" using R by simp
  show "rc = EV_OK" using R by simp
  show "0 < dpr_processed rep" using R b load by simp
  show sys: "sy_system s1 = sy_system s" using fr by (simp add: domain_frame_def)
  have slot: "system_slot s1 y = system_slot s y" by (simp add: fun_eq_iff system_slot_def sys)
  obtain g where all: "\<And>k e. k < nat EV_DOMAIN_COUNT \<Longrightarrow> system_slot s y k = Some e \<Longrightarrow>
      domain_wf s e \<and> dp_domain (sy_domain s e) = int k \<and> dp_registry (sy_domain s e) = Some g"
    using wf unfolding system_wf_def by blast
  have other: "sy_domain s1 e = sy_domain s e \<and> domain_wf s1 e \<and> domain_load s1 e = domain_load s e"
    if k: "k < nat EV_DOMAIN_COUNT" "k \<noteq> i" "system_slot s y k = Some e" for k e
    using fr all [OF k(1,3)] all [OF i d] k(2) by (simp add: domain_frame_def)
  have own: "dp_domain (sy_domain s1 d) = int i \<and> dp_registry (sy_domain s1 d) = Some g \<and> domain_wf s1 d"
    using fr all [OF i d] R by (simp add: domain_frame_def)
  have "domain_wf s1 e \<and> dp_domain (sy_domain s1 e) = int k \<and> dp_registry (sy_domain s1 e) = Some g"
    if "k < nat EV_DOMAIN_COUNT" "system_slot s y k = Some e" for k e
    using other [OF that(1) _ that(2)] all [OF that] own that d by (cases "k = i") auto
  then show "system_wf s1 y" using wf by (auto simp: system_wf_def slot sys)
  have "slot_load s1 y i + dpr_processed rep = slot_load s y i"
    using R d by (simp add: slot_load_def slot)
  moreover have "slot_load s1 y k = slot_load s y k" if "k < nat EV_DOMAIN_COUNT" "k \<noteq> i" for k
    using other [OF that] by (auto simp: slot_load_def slot split: option.split)
  ultimately have "system_load s y = system_load s1 y + dpr_processed rep"
    unfolding system_load_def using i by (intro sum_list_upt_change [of i]) auto
  then show "system_load s1 y + dpr_processed rep = system_load s y" by simp
qed

lemma system_pass_quiet:
  assumes q: "quiet_env env"
  shows "system_wf s y \<Longrightarrow> 0 < remaining \<Longrightarrow> index < nat EV_DOMAIN_COUNT \<Longrightarrow>
   system_pass env y n index progressed made remaining report s
     = (early, progressed', made', remaining', report', s') \<Longrightarrow>
   early = None \<and> system_wf s' y \<and> (progressed \<longrightarrow> progressed') \<and> (made \<longrightarrow> made')
   \<and> (progressed' \<longrightarrow> progressed \<or> made')
   \<and> system_load s' y + spr_messages_processed report' = system_load s y + spr_messages_processed report
   \<and> remaining' + spr_turns_processed report' = remaining + spr_turns_processed report
   \<and> (spr_turns_processed report \<le> spr_messages_processed report
        \<longrightarrow> spr_turns_processed report' \<le> spr_messages_processed report')
   \<and> spr_pending_before report' = spr_pending_before report
   \<and> spr_exhausted_turn_budget report' = spr_exhausted_turn_budget report
   \<and> (\<not> progressed' \<longrightarrow> system_load s' y = system_load s y
        \<and> (\<forall>k<n. slot_load s y ((index + k) mod nat EV_DOMAIN_COUNT) = 0))"
proof (induction n arbitrary: index progressed made remaining report s)
  case 0
  then show ?case by auto
next
  case (Suc n)
  let ?next = "ev_system_pump_cursor_advance index"
  have nxt: "?next < nat EV_DOMAIN_COUNT" by (rule system_cursor_lt)
  have shift: "(\<forall>k<Suc n. slot_load s y ((index + k) mod nat EV_DOMAIN_COUNT) = 0)
      \<longleftrightarrow> slot_load s y index = 0 \<and> (\<forall>k<n. slot_load s y ((?next + k) mod nat EV_DOMAIN_COUNT) = 0)"
  proof -
    have "(\<forall>k<Suc n. P k) \<longleftrightarrow> P 0 \<and> (\<forall>k<n. P (Suc k))" for P
      by (auto simp: less_Suc_eq_0_disj)
    moreover have "(?next + k) mod nat EV_DOMAIN_COUNT = (index + Suc k) mod nat EV_DOMAIN_COUNT" for k
      by (simp only: system_cursor_mod [OF Suc.prems(3)] mod_add_left_eq add_Suc_shift)
    ultimately show ?thesis using Suc.prems(3) by simp
  qed
  show ?case
  proof (cases "slot_load s y index = 0")
    case True
    have "\<exists>rep1. system_pass env y n ?next progressed made remaining rep1 s
        = (early, progressed', made', remaining', report', s')
        \<and> spr_messages_processed rep1 = spr_messages_processed report
        \<and> spr_turns_processed rep1 = spr_turns_processed report
        \<and> spr_pending_before rep1 = spr_pending_before report
        \<and> spr_exhausted_turn_budget rep1 = spr_exhausted_turn_budget report"
    proof (cases "system_slot s y index")
      case None
      then show ?thesis using Suc.prems(4) by (auto simp: Let_def)
    next
      case (Some d)
      then have "ev_domain_pump_pending s (Some d) = 0"
        using True system_wf_slot(3) [OF Suc.prems(1,3) Some]
        by (auto simp: slot_load_def domain_pending_load)
      then show ?thesis
        using Suc.prems(4) Some
        by (intro exI [of _ "report\<lparr>spr_domains_examined := spr_domains_examined report + 1\<rparr>"])
          (simp add: Let_def)
    qed
    then obtain rep1 where rest: "system_pass env y n ?next progressed made remaining rep1 s
        = (early, progressed', made', remaining', report', s')"
      and same: "spr_messages_processed rep1 = spr_messages_processed report"
        "spr_turns_processed rep1 = spr_turns_processed report"
        "spr_pending_before rep1 = spr_pending_before report"
        "spr_exhausted_turn_budget rep1 = spr_exhausted_turn_budget report"
      by blast
    from Suc.IH [OF Suc.prems(1,2) nxt rest] show ?thesis
      unfolding shift using same True by simp
  next
    case False
    then obtain d where d: "system_slot s y index = Some d" and load: "0 < domain_load s d"
      by (auto simp: slot_load_def split: option.splits)
    have pend: "ev_domain_pump_pending s (Some d) \<noteq> 0"
      using load system_wf_slot(3) [OF Suc.prems(1,3) d] by (auto simp: domain_pending_load)
    have b: "ev_domain_pump_default_budget s (Some d) \<noteq> 0"
      using domain_default_budget_pos [OF system_wf_slot(1) [OF Suc.prems(1,3) d] load] by simp
    obtain rc drep s1 where r: "ev_domain_pump_run env (Some d) (ev_domain_pump_default_budget s (Some d)) s
        = (rc, drep, s1)"
      by (rule prod_cases3)
    note T = quiet_turn [OF Suc.prems(1) q Suc.prems(3) d load r]
    let ?dom = "dp_domain (sy_domain s1 d)"
    let ?s3 = "upd_sm_stats y (\<lambda>st. st\<lparr>ss_domains_pumped := ss_domains_pumped st + 1,
                 ss_messages_processed := ss_messages_processed st + dpr_processed drep\<rparr>)
        (upd_sm_stats y (\<lambda>st. st\<lparr>ss_last_domain := ?dom\<rparr>)
          (upd_system y (\<lambda>sm. sm\<lparr>sm_next_domain_index := ?next\<rparr>) s1))"
    let ?rep = "report\<lparr>spr_domains_examined := spr_domains_examined report + 1, spr_last_domain := ?dom,
        spr_domains_pumped := spr_domains_pumped report + 1,
        spr_messages_processed := spr_messages_processed report + dpr_processed drep,
        spr_turns_processed := spr_turns_processed report + 1\<rparr>"
    have wf3: "system_wf ?s3 y" using T(2) nxt by simp
    have l3: "system_load ?s3 y + dpr_processed drep = system_load s y" using T(4) by simp
    have step: "system_pass env y (Suc n) index progressed made remaining report s
        = (if remaining - 1 = 0 then (None, True, True, remaining - 1, ?rep, ?s3)
           else system_pass env y n ?next True True (remaining - 1) ?rep ?s3)"
      using d pend b r T(1) by (simp add: Let_def)
    show ?thesis
    proof (cases "remaining - 1 = 0")
      case True
      then have "(early, progressed', made', remaining', report', s') = (None, True, True, remaining - 1, ?rep, ?s3)"
        using Suc.prems(4) unfolding step by simp
      then show ?thesis using wf3 l3 T(3) Suc.prems(2) by simp
    next
      case nz: False
      then have pos: "0 < remaining - 1" by simp
      have rest: "system_pass env y n ?next True True (remaining - 1) ?rep ?s3
          = (early, progressed', made', remaining', report', s')"
        using Suc.prems(4) nz unfolding step by simp
      from Suc.IH [OF wf3 pos nxt rest] show ?thesis using l3 T(3) Suc.prems(2) by simp
    qed
  qed
qed

lemma system_loop_quiet:
  "quiet_env env \<Longrightarrow> system_wf s y \<Longrightarrow>
   system_loop env y made remaining report s = (early, made', remaining', report', s') \<Longrightarrow>
   early = None \<and> system_wf s' y \<and> (made \<longrightarrow> made')
   \<and> system_load s' y + spr_messages_processed report' = system_load s y + spr_messages_processed report
   \<and> remaining' + spr_turns_processed report' = remaining + spr_turns_processed report
   \<and> (spr_turns_processed report \<le> spr_messages_processed report
        \<longrightarrow> spr_turns_processed report' \<le> spr_messages_processed report')
   \<and> spr_pending_before report' = spr_pending_before report
   \<and> spr_exhausted_turn_budget report' = spr_exhausted_turn_budget report
   \<and> (remaining' = 0 \<or> system_load s' y = 0)
   \<and> (0 < remaining \<longrightarrow> 0 < system_load s y \<longrightarrow> made')"
proof (induction env y made remaining report s arbitrary: early made' remaining' report' s'
    rule: system_loop.induct)
  case (1 env y made remaining report s)
  show ?case
  proof (cases "remaining = 0")
    case True
    then show ?thesis using 1(2-4) by (simp add: system_loop.simps)
  next
    case rem: False
    then have pos: "0 < remaining" by simp
    let ?start = "sm_next_domain_index (sy_system s y)"
    have st: "?start < nat EV_DOMAIN_COUNT" using 1(3) by (simp add: system_wf_def)
    obtain e p1 m1 r1 rep1 s1 where pass: "system_pass env y (nat EV_DOMAIN_COUNT) ?start False made remaining
        report s = (e, p1, m1, r1, rep1, s1)"
      by (metis prod_cases6)
    note P = system_pass_quiet [OF 1(2,3) pos st pass]
    have visited: "system_load s y = 0" if "\<not> p1"
    proof -
      have "slot_load s y i = 0" if "i < nat EV_DOMAIN_COUNT" for i
        using all_indices_visited [OF st that] P \<open>\<not> p1\<close> by auto
      then show ?thesis by (simp add: system_load_0_iff)
    qed
    show ?thesis
    proof (cases p1)
      case False
      then have "early = e" "made' = m1" "remaining' = r1" "report' = rep1" "s' = s1"
        using 1(4) rem pass by (simp_all add: system_loop.simps [of env y made remaining])
      then show ?thesis using P visited [OF False] False by simp
    next
      case True
      have rec: "system_loop env y m1 r1 rep1 s1 = (early, made', remaining', report', s')"
        using 1(4) rem pass P True by (simp add: system_loop.simps [of env y made remaining])
      have e: "\<not> (e \<noteq> None \<or> \<not> p1)" using P True by simp
      have wf1: "system_wf s1 y" using P by simp
      note IH = 1(1) [OF rem pass [symmetric] refl refl refl refl refl e 1(2) wf1 rec]
      show ?thesis using IH P True by auto
    qed
  qed
qed

lemma system_bookkeeping_frames [simp]:
  "system_load (ev_system_pump_record_call_maxima y rep s) y = system_load s y"
  "system_wf (ev_system_pump_record_call_maxima y rep s) y = system_wf s y"
  "system_load (ev_system_pump_record_pending_high_watermark y n s) y = system_load s y"
  "system_wf (ev_system_pump_record_pending_high_watermark y n s) y = system_wf s y"
  by (simp_all add: ev_system_pump_record_call_maxima_def ev_system_pump_record_pending_high_watermark_def)

lemma system_run_quiet:
  assumes wf: "system_wf s y" and q: "quiet_env env" and b: "0 < b" and pending: "0 < system_load s y"
    and run: "ev_system_pump_run env (Some y) b s = (rc, rep, s')"
  shows "\<exists>r. rc = EV_OK \<and> rep = Some r \<and> system_wf s' y
     \<and> system_load s' y + spr_messages_processed r = system_load s y
     \<and> spr_turns_processed r \<le> b \<and> spr_turns_processed r \<le> spr_messages_processed r
     \<and> (spr_turns_processed r = b \<or> system_load s' y = 0)
     \<and> spr_pending_before r = system_load s y \<and> spr_pending_after r = system_load s' y
     \<and> (spr_exhausted_turn_budget r \<longleftrightarrow> 0 < system_load s' y)"
proof -
  let ?s1 = "upd_sm_stats y (\<lambda>st. st\<lparr>ss_run_calls := ss_run_calls st + 1, ss_last_turn_budget := b,
      ss_last_turns_processed := 0\<rparr>) s"
  let ?s2 = "ev_system_pump_record_pending_high_watermark y (system_load s y) ?s1"
  let ?rep = "ev_system_pump_report_reset\<lparr>spr_turn_budget := b, spr_pending_before := system_load s y\<rparr>"
  have wf2: "system_wf ?s2 y" using wf by simp
  then have cur: "\<not> nat EV_DOMAIN_COUNT \<le> sm_next_domain_index (sy_system ?s2 y)"
    by (simp add: system_wf_def)
  obtain early made rem rep1 s4 where l: "system_loop env y False b ?rep ?s2 = (early, made, rem, rep1, s4)"
    by (rule prod_cases5)
  note L = system_loop_quiet [OF q wf2 l]
  have L': "early = None" "made" "system_wf s4 y"
    "system_load s4 y + spr_messages_processed rep1 = system_load s y"
    "rem + spr_turns_processed rep1 = b" "rem = 0 \<or> system_load s4 y = 0"
    "spr_turns_processed rep1 \<le> spr_messages_processed rep1"
    "spr_pending_before rep1 = system_load s y" "\<not> spr_exhausted_turn_budget rep1"
    using L b pending by (simp_all add: ev_system_pump_report_reset_def)
  have p1: "ev_system_pump_pending ?s1 (Some y) = system_load s y" using system_pending_load [OF wf] by simp
  have p4: "ev_system_pump_pending s4 (Some y) = system_load s4 y" by (rule system_pending_load [OF L'(3)])
  let ?after = "rep1\<lparr>spr_pending_after := system_load s4 y\<rparr>"
  let ?s5 = "upd_sm_stats y (\<lambda>st. st\<lparr>ss_turns_processed := ss_turns_processed st + spr_turns_processed rep1,
      ss_last_turns_processed := spr_turns_processed rep1\<rparr>) s4"
  have eq: "(rc, rep, s') =
     (if rem = 0 \<and> 0 < system_load s4 y
      then (EV_OK, Some (?after\<lparr>spr_exhausted_turn_budget := True, spr_stop_result := EV_OK\<rparr>),
            ev_system_pump_record_call_maxima y (?after\<lparr>spr_exhausted_turn_budget := True, spr_stop_result := EV_OK\<rparr>)
              (upd_sm_stats y (\<lambda>st. st\<lparr>ss_budget_hits := ss_budget_hits st + 1, ss_last_result := EV_OK\<rparr>) ?s5))
      else (EV_OK, Some (?after\<lparr>spr_stop_result := EV_ERR_EMPTY\<rparr>),
            ev_system_pump_record_call_maxima y (?after\<lparr>spr_stop_result := EV_ERR_EMPTY\<rparr>)
              (upd_sm_stats y (\<lambda>st. st\<lparr>ss_last_result := EV_OK\<rparr>) ?s5)))"
    using run [symmetric] b pending p1 p4 l cur L'(1,2) system_wf_bound [OF wf pending]
    by (simp add: ev_system_pump_run_def Let_def)
  show ?thesis
    by (cases "rem = 0 \<and> 0 < system_load s4 y") (use eq L' in auto)
qed

section \<open>Bounds and books for arbitrary handlers\<close>

text \<open>Every turn is paid for, also the one that fails.\<close>

lemma system_pass_turns:
  "0 < remaining \<Longrightarrow>
   system_pass env y n index progressed made remaining report s
     = (early, progressed', made', remaining', report', s') \<Longrightarrow>
   (early = None \<longrightarrow> remaining' + spr_turns_processed report' = remaining + spr_turns_processed report)
   \<and> (early \<noteq> None \<longrightarrow> 0 < remaining'
        \<and> remaining' + spr_turns_processed report' \<le> Suc (remaining + spr_turns_processed report))
   \<and> spr_turns_processed report' + spr_domains_pumped report
       = spr_domains_pumped report' + spr_turns_processed report
   \<and> (made \<longrightarrow> made') \<and> (\<not> made' \<longrightarrow> remaining' = remaining) \<and> early \<noteq> Some EV_OK
   \<and> (progressed' \<longrightarrow> progressed \<or> made')"
proof (induction n arbitrary: index progressed made remaining report s)
  case 0
  then show ?case by simp
next
  case (Suc n)
  show ?case
  proof (cases "system_slot s y index")
    case None
    then show ?thesis using Suc.prems by (auto simp: Let_def dest!: Suc.IH [OF Suc.prems(1)])
  next
    case (Some d)
    obtain rc drep s1 where r: "ev_domain_pump_run env (Some d) (ev_domain_pump_default_budget s (Some d)) s
        = (rc, drep, s1)"
      by (rule prod_cases3)
    show ?thesis
    proof (cases "remaining - 1 \<noteq> 0 \<and> rc = EV_OK")
      case True
      then have "0 < remaining - 1" by simp
      note IH = Suc.IH [OF this, unfolded One_nat_def]
      show ?thesis
      proof (cases "ev_domain_pump_pending s (Some d) = 0 \<or> ev_domain_pump_default_budget s (Some d) = 0")
        case skip: True
        then show ?thesis
          using Suc.prems Some by (auto simp: Let_def dest!: Suc.IH [OF Suc.prems(1)] split: if_splits)
      next
        case False
        then show ?thesis
          using Suc.prems Some r True by (auto simp: Let_def dest!: IH)
      qed
    next
      case False
      then show ?thesis
        using Suc.prems Some r
        by (auto simp: Let_def dest!: Suc.IH [OF Suc.prems(1)] split: if_splits)
    qed
  qed
qed

lemma system_loop_turns:
  "system_loop env y made remaining report s = (early, made', remaining', report', s') \<Longrightarrow>
   spr_turns_processed report' \<le> remaining + spr_turns_processed report
   \<and> (early = None \<longrightarrow> remaining' + spr_turns_processed report' = remaining + spr_turns_processed report)
   \<and> spr_turns_processed report' + spr_domains_pumped report
       = spr_domains_pumped report' + spr_turns_processed report
   \<and> (made \<longrightarrow> made') \<and> (\<not> made' \<longrightarrow> remaining' = remaining) \<and> early \<noteq> Some EV_OK"
proof (induction env y made remaining report s arbitrary: early made' remaining' report' s'
    rule: system_loop.induct)
  case (1 env y made remaining report s)
  show ?case
  proof (cases "remaining = 0")
    case True
    then show ?thesis using 1(2) by (simp add: system_loop.simps)
  next
    case rem: False
    obtain e p1 m1 r1 rep1 s1 where pass: "system_pass env y (nat EV_DOMAIN_COUNT)
        (sm_next_domain_index (sy_system s y)) False made remaining report s = (e, p1, m1, r1, rep1, s1)"
      by (metis prod_cases6)
    have pos: "0 < remaining" using rem by simp
    note P = system_pass_turns [OF pos pass]
    show ?thesis
    proof (cases "e \<noteq> None \<or> \<not> p1")
      case True
      then have "early = e" "made' = m1" "remaining' = r1" "report' = rep1"
        using 1(2) rem pass by (auto simp: system_loop.simps [of env y made remaining])
      then show ?thesis using P by (cases e) auto
    next
      case False
      then have rec: "system_loop env y m1 r1 rep1 s1 = (early, made', remaining', report', s')"
        using 1(2) rem pass by (simp add: system_loop.simps [of env y made remaining])
      note IH = 1(1) [OF rem pass [symmetric] refl refl refl refl refl False rec]
      show ?thesis using IH P False by auto
    qed
  qed
qed

text \<open>Handlers that may do anything to the node but reach for the system pump.\<close>

definition pump_blind :: "'w ev_env \<Rightarrow> bool" where
  "pump_blind env \<longleftrightarrow> (\<forall>f ctx m s. sy_system (snd (env_handler env f ctx m s)) = sy_system s)"

lemma blind_process_one:
  "pump_blind env \<Longrightarrow> ev_actor_runtime_process_one env r s = (rc, s') \<Longrightarrow> sy_system s' = sy_system s"
  by (auto simp: pump_blind_def ev_actor_runtime_process_one_def Let_def split: prod.splits if_splits)
    (metis snd_conv upd_frames(5))+

lemma blind_domain_closed: "pump_blind env \<Longrightarrow> domain_closed env (\<lambda>s. sy_system s = S)"
  by unfold_locales (use blind_process_one in auto)

lemma blind_domain_run:
  "pump_blind env \<Longrightarrow> ev_domain_pump_run env pd b s = (rc, rep, s') \<Longrightarrow> sy_system s' = sy_system s"
  using domain_closed.closed_domain_run [OF blind_domain_closed] by blast

text \<open>
  The lifetime counters of messages and domains move with the report; the one of turns moves only when
  a pass ends early, by at most one.
\<close>

definition turn_books :: "nat \<Rightarrow> 'w ev_sys \<Rightarrow> ev_system_pump_report \<Rightarrow> 'w ev_sys \<Rightarrow> ev_system_pump_report \<Rightarrow> bool" where
  "turn_books y s report s' report' \<longleftrightarrow>
     ss_messages_processed (sm_stats (sy_system s' y)) + spr_messages_processed report
       = ss_messages_processed (sm_stats (sy_system s y)) + spr_messages_processed report'
     \<and> ss_domains_pumped (sm_stats (sy_system s' y)) - of_nat (spr_domains_pumped report')
       = ss_domains_pumped (sm_stats (sy_system s y)) - of_nat (spr_domains_pumped report)"

lemma turn_books_refl [simp]: "turn_books y s report s report"
  by (simp add: turn_books_def)

lemma turn_books_trans: "turn_books y s r s1 r1 \<Longrightarrow> turn_books y s1 r1 s2 r2 \<Longrightarrow> turn_books y s r s2 r2"
  by (simp add: turn_books_def)

lemma system_pass_books:
  assumes blind: "pump_blind env"
  shows "system_pass env y n index progressed made remaining report s
     = (early, progressed', made', remaining', report', s') \<Longrightarrow>
   turn_books y s report s' report'
   \<and> ss_turns_processed (sm_stats (sy_system s' y))
     \<le> ss_turns_processed (sm_stats (sy_system s y)) + (if early = None then 0 else 1)
   \<and> ss_turns_processed (sm_stats (sy_system s y)) \<le> ss_turns_processed (sm_stats (sy_system s' y))"
proof (induction n arbitrary: index progressed made remaining report s)
  case 0
  then show ?case by simp
next
  case (Suc n)
  show ?case
  proof (cases "system_slot s y index")
    case None
    then show ?thesis using Suc.prems by (auto simp: Let_def dest!: Suc.IH)
  next
    case (Some d)
    obtain rc drep s1 where r: "ev_domain_pump_run env (Some d) (ev_domain_pump_default_budget s (Some d)) s
        = (rc, drep, s1)"
      by (rule prod_cases3)
    note B = blind_domain_run [OF blind r]
    show ?thesis
      using Suc.prems Some r B
      by (auto simp: Let_def turn_books_def ev_system_pump_record_call_maxima_def dest!: Suc.IH split: if_splits)
  qed
qed

lemma system_loop_books:
  "system_loop env y made remaining report s = (early, made', remaining', report', s') \<Longrightarrow>
   pump_blind env \<Longrightarrow>
   turn_books y s report s' report'
   \<and> ss_turns_processed (sm_stats (sy_system s' y))
     \<le> ss_turns_processed (sm_stats (sy_system s y)) + (if early = None then 0 else 1)
   \<and> ss_turns_processed (sm_stats (sy_system s y)) \<le> ss_turns_processed (sm_stats (sy_system s' y))"
proof (induction env y made remaining report s arbitrary: early made' remaining' report' s'
    rule: system_loop.induct)
  case (1 env y made remaining report s)
  obtain e p1 m1 r1 rep1 s1 where pass: "system_pass env y (nat EV_DOMAIN_COUNT)
      (sm_next_domain_index (sy_system s y)) False made remaining report s = (e, p1, m1, r1, rep1, s1)"
    by (metis prod_cases6)
  note P = system_pass_books [OF 1(3) pass]
  consider "remaining = 0" | "remaining \<noteq> 0" "e \<noteq> None \<or> \<not> p1" | "remaining \<noteq> 0" "\<not> (e \<noteq> None \<or> \<not> p1)"
    by blast
  then show ?case
  proof cases
    case 1
    then show ?thesis using \<open>system_loop env y made remaining report s = _\<close> by (simp add: system_loop.simps)
  next
    case 2
    then have "early = e" "report' = rep1" "s' = s1"
      using \<open>system_loop env y made remaining report s = _\<close> pass
      by (auto simp: system_loop.simps [of env y made remaining])
    then show ?thesis using P by simp
  next
    case 3
    have rec: "system_loop env y m1 r1 rep1 s1 = (early, made', remaining', report', s')"
      using 1(2) pass 3 by (simp add: system_loop.simps [of env y made remaining])
    note IH = 1(1) [OF 3(1) pass [symmetric] refl refl refl refl refl 3(2) rec 1(3)]
    have "e = None" using 3(2) by simp
    then show ?thesis
      using IH P turn_books_trans [of y s report s1 rep1 s' report'] by simp
  qed
qed

section \<open>What a run keeps\<close>

locale system_closed = domain_closed +
  assumes system_stats_closed: "P s \<Longrightarrow> P (upd_sm_stats y h s)"
    and system_cursor_closed: "P s \<Longrightarrow> P (upd_system y (\<lambda>sm. sm\<lparr>sm_next_domain_index := c\<rparr>) s)"
begin

lemma closed_system_maxima: "P s \<Longrightarrow> P (ev_system_pump_record_call_maxima y report s)"
  "P s \<Longrightarrow> P (ev_system_pump_record_pending_high_watermark y n s)"
  by (simp_all add: ev_system_pump_record_call_maxima_def ev_system_pump_record_pending_high_watermark_def
      system_stats_closed)

lemmas system_closed_steps = system_stats_closed system_cursor_closed closed_system_maxima

lemma closed_system_pass:
  "system_pass env y n index progressed made remaining report s
     = (early, progressed', made', remaining', report', s') \<Longrightarrow> P s \<Longrightarrow> P s'"
proof (induction n arbitrary: index progressed made remaining report s)
  case (Suc n)
  show ?case
  proof (cases "system_slot s y index")
    case None
    then show ?thesis using Suc.prems by (auto simp: Let_def dest!: Suc.IH)
  next
    case (Some d)
    obtain rc drep s1 where r: "ev_domain_pump_run env (Some d) (ev_domain_pump_default_budget s (Some d)) s
        = (rc, drep, s1)"
      by (rule prod_cases3)
    show ?thesis
      using Suc.prems Some r closed_domain_run [OF r]
      by (auto simp: Let_def system_closed_steps dest!: Suc.IH split: if_splits)
  qed
qed simp

lemma closed_system_loop:
  "system_loop env' y made remaining report s = (early, made', remaining', report', s') \<Longrightarrow>
   env' = env \<Longrightarrow> P s \<Longrightarrow> P s'"
proof (induction env' y made remaining report s arbitrary: early made' remaining' report' s'
    rule: system_loop.induct)
  case (1 env' y made remaining report s)
  obtain e p1 m1 r1 rep1 s1 where pass: "system_pass env' y (nat EV_DOMAIN_COUNT)
      (sm_next_domain_index (sy_system s y)) False made remaining report s = (e, p1, m1, r1, rep1, s1)"
    by (metis prod_cases6)
  have P1: "P s1" by (rule closed_system_pass [OF pass [unfolded 1(3)] 1(4)])
  show ?case
  proof (cases "remaining = 0 \<or> e \<noteq> None \<or> \<not> p1")
    case True
    then show ?thesis
      using 1(2,4) pass P1 by (auto simp: system_loop.simps [of env' y made remaining] split: if_splits)
  next
    case False
    then have ne: "remaining \<noteq> 0" "\<not> (e \<noteq> None \<or> \<not> p1)" by simp_all
    have rec: "system_loop env' y m1 r1 rep1 s1 = (early, made', remaining', report', s')"
      using 1(2) pass ne by (simp add: system_loop.simps [of env' y made remaining])
    show ?thesis
      by (rule 1(1) [OF ne(1) pass [symmetric] refl refl refl refl refl ne(2) rec 1(3) P1])
  qed
qed

lemma closed_system_run: "ev_system_pump_run env py b s = (rc, rep, s') \<Longrightarrow> P s \<Longrightarrow> P s'"
  by (auto simp: ev_system_pump_run_def Let_def intro: system_closed_steps
      dest!: closed_system_loop split: prod.splits if_splits option.splits)

end

text \<open>The bindings of a node: what is registered where, and the kind of every mailbox.\<close>

definition same_bindings :: "'w ev_sys \<Rightarrow> 'w ev_sys \<Rightarrow> bool" where
  "same_bindings s s' \<longleftrightarrow> (\<forall>h. rg_slots (sy_registry s' h) = rg_slots (sy_registry s h))
     \<and> (\<forall>q. same_actor s s' q) \<and> (\<forall>k. mb_kind (sy_mailbox s' k) = mb_kind (sy_mailbox s k))
     \<and> (\<forall>d. dp_registry (sy_domain s' d) = dp_registry (sy_domain s d)
          \<and> dp_domain (sy_domain s' d) = dp_domain (sy_domain s d))
     \<and> (\<forall>y. sm_slots (sy_system s' y) = sm_slots (sy_system s y))"

lemma same_bindings_refl [simp]: "same_bindings s s"
  by (simp add: same_bindings_def same_actor_def)

lemma pop_keeps_kind: "ev_mailbox_pop (Some mb) want = (rc, out, pmb) \<Longrightarrow> \<exists>mb'. pmb = Some mb' \<and> mb_kind mb' = mb_kind mb"
  by (auto simp: ev_mailbox_pop_def mailbox_pop_def pop_ring_def pop_single_def Let_def
      split: if_splits ev_mailbox_kind.splits)

lemma quiet_process_bindings:
  assumes "quiet_env env" and "ev_actor_runtime_process_one env r s1 = (rc, s2)" and "same_bindings s s1"
  shows "same_bindings s s2"
proof -
  obtain hw where h: "\<And>f ctx m s. env_handler env f ctx m s
      = (fst (hw f ctx m (sy_world s)), s\<lparr>sy_world := snd (hw f ctx m (sy_world s))\<rparr>)"
    using assms(1) by (auto simp: quiet_env_def world_handler_def)
  let ?m = "the (ar_mailbox (sy_runtime s1 r))"
  obtain prc out mb' where p: "ev_mailbox_pop (Some (sy_mailbox s1 ?m)) True = (prc, out, Some mb')"
    and k: "mb_kind mb' = mb_kind (sy_mailbox s1 ?m)"
    using pop_keeps_kind by (metis prod_cases3)
  show ?thesis
    using assms(2,3) p k
    by (auto simp: ev_actor_runtime_process_one_def h same_bindings_def same_actor_def Let_def
        split: prod.splits if_splits)
qed

lemma quiet_bindings_closed: "quiet_env env \<Longrightarrow> system_closed env (same_bindings s)"
  by unfold_locales (erule (2) quiet_process_bindings, simp_all add: same_bindings_def same_actor_def)

interpretation quiet_log: system_closed quiet_log_env "same_bindings s" for s
  by (rule quiet_bindings_closed [OF quiet_log_env_quiet])

section \<open>Properties\<close>

text \<open>
  C11: A system pump drains its domains within its turn budget. On a system pump in order whose handlers
  act on their own state and do not fail, a run with turn budget \<open>b\<close> over pending messages succeeds;
  no message is lost or invented (processed plus still pending is what was pending), every turn
  processed at least one message, at most \<open>b\<close> turns were used, and the run stops early only when
  nothing is pending any more, which is also when it does not report an exhausted budget.
\<close>

theorem system_pump_drains:
  assumes "system_wf s y" and "quiet_env env" and "0 < b" and "0 < system_load s y"
    and "ev_system_pump_run env (Some y) b s = (rc, rep, s')"
  shows "\<exists>r. rc = EV_OK \<and> rep = Some r \<and> system_wf s' y
     \<and> system_load s' y + spr_messages_processed r = system_load s y
     \<and> spr_turns_processed r \<le> b \<and> spr_turns_processed r \<le> spr_messages_processed r
     \<and> (spr_turns_processed r = b \<or> system_load s' y = 0)
     \<and> spr_pending_before r = system_load s y \<and> spr_pending_after r = system_load s' y
     \<and> (spr_exhausted_turn_budget r \<longleftrightarrow> 0 < system_load s' y)"
  by (rule system_run_quiet [OF assms])

text \<open>
  C12: The system pump is bounded and keeps its books, whatever its handlers do to the node short of
  touching the system pump itself. A run uses at most \<open>b\<close> turns. Its lifetime counters of messages and
  of pumped domains grow by exactly what the report says, on every path. The lifetime counter of turns
  grows by the reported turns when the run succeeds; when a domain fails it grows by at most one, so
  the turns that succeeded earlier in the same run are not added.
\<close>

theorem system_pump_books:
  assumes blind: "pump_blind env" and run: "ev_system_pump_run env (Some y) b s = (rc, Some r, s')"
  defines "before \<equiv> sm_stats (sy_system s y)" and "after \<equiv> sm_stats (sy_system s' y)"
  shows "spr_turns_processed r \<le> b
     \<and> ss_messages_processed after = ss_messages_processed before + spr_messages_processed r
     \<and> ss_domains_pumped after = ss_domains_pumped before + of_nat (spr_domains_pumped r)
     \<and> (rc = EV_OK \<longrightarrow> ss_turns_processed after = ss_turns_processed before + spr_turns_processed r)
     \<and> (rc \<noteq> EV_OK \<longrightarrow> ss_turns_processed after \<le> ss_turns_processed before + 1)"
proof -
  let ?s1 = "upd_sm_stats y (\<lambda>st. st\<lparr>ss_run_calls := ss_run_calls st + 1, ss_last_turn_budget := b,
      ss_last_turns_processed := 0\<rparr>) s"
  let ?s2 = "ev_system_pump_record_pending_high_watermark y (ev_system_pump_pending ?s1 (Some y)) ?s1"
  let ?s3 = "if nat EV_DOMAIN_COUNT \<le> sm_next_domain_index (sy_system ?s2 y)
             then upd_system y (\<lambda>sm. sm\<lparr>sm_next_domain_index := 0\<rparr>) ?s2 else ?s2"
  let ?rep = "ev_system_pump_report_reset\<lparr>spr_turn_budget := b,
      spr_pending_before := ev_system_pump_pending ?s1 (Some y)\<rparr>"
  have b: "b \<noteq> 0" "ev_system_pump_bound_count s (Some y) \<noteq> 0"
    using run by (auto simp: ev_system_pump_run_def split: if_splits)
  have same: "ss_messages_processed (sm_stats (sy_system ?s3 y)) = ss_messages_processed before"
    "ss_domains_pumped (sm_stats (sy_system ?s3 y)) = ss_domains_pumped before"
    "ss_turns_processed (sm_stats (sy_system ?s3 y)) = ss_turns_processed before"
    by (simp_all add: before_def ev_system_pump_record_pending_high_watermark_def)
  obtain early made rem rep1 s4 where l: "system_loop env y False b ?rep ?s3 = (early, made, rem, rep1, s4)"
    by (rule prod_cases5)
  note T = system_loop_turns [OF l] and B = system_loop_books [OF l blind]
  show ?thesis
  proof (cases "ev_system_pump_pending ?s1 (Some y) = 0")
    case True
    then show ?thesis
      using run b same
      by (auto simp: ev_system_pump_run_def Let_def ev_system_pump_report_reset_def after_def before_def
          ev_system_pump_record_call_maxima_def ev_system_pump_record_pending_high_watermark_def)
  next
    case pend: False
    show ?thesis
    proof (cases early)
      case (Some code)
      then have "rc = code" "r = rep1" "s' = s4"
        using run b pend l by (simp_all add: ev_system_pump_run_def Let_def)
      then show ?thesis
        using Some T B same by (simp add: turn_books_def ev_system_pump_report_reset_def after_def algebra_simps)
    next
      case None
      then show ?thesis
        using run b pend l T B same
        by (auto simp: ev_system_pump_run_def Let_def turn_books_def ev_system_pump_report_reset_def after_def
            ev_system_pump_record_call_maxima_def algebra_simps split: if_splits)
    qed
  qed
qed

text \<open>
  A node with two domains: the fast loop with \<open>ACT_APP\<close> and the slow I/O domain with \<open>ACT_DIAG\<close>, three
  messages pending in each.
\<close>

definition demo_system :: "ev_event_id list ev_sys" where
  "demo_system = demo_node\<lparr>
     sy_domain := (\<lambda>d. (sy_domain demo_node 0)\<lparr>dp_domain := if d = 0 then EV_DOMAIN_FAST_LOOP else EV_DOMAIN_SLOW_IO\<rparr>),
     sy_system := (\<lambda>_. (sy_system demo_node 0)\<lparr>sm_slots := [None, Some 0, Some 1, None]\<rparr>)\<rparr>"

lemma demo_system_wf: "system_wf demo_system 0"
proof -
  have ids: "ar_actor_id (sy_runtime demo_system r) = (if r = 0 then ACT_DIAG else ACT_APP)" for r
    by (simp add: demo_system_def demo_node_def)
  have fnd: "ev_actor_registry_find demo_system (Some 0) a = ev_actor_registry_find demo_node (Some 0) a" for a
    by (simp add: demo_system_def ev_actor_registry_find_def)
  have "sy_mailbox demo_system = sy_mailbox demo_node" "sy_runtime demo_system = sy_runtime demo_node"
    "sy_registry demo_system = sy_registry demo_node"
    by (simp_all add: demo_system_def)
  then have n: "node_wf demo_system 0"
    using demo_node_wf by (simp add: node_wf_def fnd actor_wf_def)
  have slots: "sm_slots (sy_system demo_system 0) = [None, Some 0, Some 1, None]"
    "sm_next_domain_index (sy_system demo_system 0) = 0"
    by (simp_all add: demo_system_def demo_node_def demo_sys_def)
  have dom: "dp_domain (sy_domain demo_system e) = (if e = 0 then EV_DOMAIN_FAST_LOOP else EV_DOMAIN_SLOW_IO)"
    "dp_registry (sy_domain demo_system e) = Some 0"
    "dp_next_actor_index (sy_domain demo_system e) = 0" for e
    by (simp_all add: demo_system_def demo_node_def demo_sys_def)
  have d: "domain_wf demo_system e" for e
    using n by (auto simp: domain_wf_def fnd demo_node_find ids dom ev_domain_pump_domain_is_valid_def
        split: if_splits)
  show ?thesis
    using d by (auto simp: system_wf_def system_slot_def slots dom less_Suc_eq numeral_eq_Suc)
qed

lemma demo_system_load: "system_load demo_system 0 = 6"
  by code_simp

theorem system_pump_drains_witness:
  "\<exists>r s'. ev_system_pump_run quiet_log_env (Some 0) 1 demo_system = (EV_OK, Some r, s')
     \<and> spr_turns_processed r \<le> 1 \<and> system_load s' 0 + spr_messages_processed r = 6"
proof -
  obtain rc rep s' where run: "ev_system_pump_run quiet_log_env (Some 0) 1 demo_system = (rc, rep, s')"
    by (rule prod_cases3)
  have "0 < system_load demo_system 0" by (simp add: demo_system_load)
  from system_pump_drains [OF demo_system_wf quiet_log_env_quiet _ this run] show ?thesis
    using run by (auto simp: demo_system_load)
qed

theorem system_pump_books_witness:
  "\<exists>r s'. ev_system_pump_run quiet_log_env (Some 0) 6 demo_system = (EV_OK, Some r, s')
     \<and> ss_turns_processed (sm_stats (sy_system s' 0)) = spr_turns_processed r
     \<and> ss_messages_processed (sm_stats (sy_system s' 0)) = 6"
proof -
  have pend: "0 < system_load demo_system 0" "(0::nat) < 6" by (simp_all add: demo_system_load)
  obtain rc rep s' where run: "ev_system_pump_run quiet_log_env (Some 0) 6 demo_system = (rc, rep, s')"
    by (rule prod_cases3)
  from system_run_quiet [OF demo_system_wf quiet_log_env_quiet pend(2,1) run]
  obtain r where r: "rc = EV_OK" "rep = Some r" "spr_messages_processed r = 6"
    by (auto simp: demo_system_load)
  have z: "ss_turns_processed (sm_stats (sy_system demo_system 0)) = 0"
    "ss_messages_processed (sm_stats (sy_system demo_system 0)) = 0"
    by (simp_all add: demo_system_def demo_node_def demo_sys_def)
  have "pump_blind quiet_log_env" by (simp add: pump_blind_def quiet_log_env_def)
  from system_pump_books [OF this run [unfolded r(2)]] show ?thesis
    using run r z by simp
qed

end
