(* ===== verification/EvLeasePool.thy ===== *)
theory EvLeasePool
  imports EvMsg
begin

text \<open>
  The deterministic lease pool (\<open>core/include/ev/lease_pool.h\<close>, \<open>core/src/ev_lease_pool.c\<close>): a fixed
  array of reference-counted slots over caller-provided storage. Handles and messages point into the
  slot array, and slots point back to their pool, so the pool lives in an explicit store: one address
  space each for pool objects, slot objects and payload bytes. The address of slot \<open>i\<close> of a pool is
  the base of its slot array plus \<open>i\<close>; its payload starts \<open>i\<close> times the slot size into the storage.
  The second half proves the pool's invariant, that stale handles are refused, and that the pool
  meets the contract of a payload owner.
\<close>

section \<open>State\<close>

record ev_lease_handle =
  hd_slot :: ptr
  hd_generation :: u32

record ev_lease_pool_stats =
  lps_acquires :: u32
  lps_failed_acquires :: u32
  lps_retains :: u32
  lps_releases :: u32
  lps_stale_handles :: u32
  lps_in_use :: nat
  lps_high_watermark :: nat

record ev_lease_slot =
  ls_pool :: ptr
  ls_slot_index :: nat
  ls_generation :: u32
  ls_refcount :: u32
  ls_payload_size :: nat
  ls_in_use :: bool

record ev_lease_pool =
  lp_slots :: ptr
  lp_storage :: ptr
  lp_slot_count :: nat
  lp_slot_size :: nat
  lp_stats :: ev_lease_pool_stats

record lease_heap =
  h_pool :: "nat \<Rightarrow> ev_lease_pool"
  h_slot :: "nat \<Rightarrow> ev_lease_slot"
  h_byte :: "nat \<Rightarrow> u8"

definition zero_lease_stats :: ev_lease_pool_stats where
  "zero_lease_stats = \<lparr>lps_acquires = 0, lps_failed_acquires = 0, lps_retains = 0, lps_releases = 0,
     lps_stale_handles = 0, lps_in_use = 0, lps_high_watermark = 0\<rparr>"

definition zero_lease_slot :: ev_lease_slot where
  "zero_lease_slot = \<lparr>ls_pool = None, ls_slot_index = 0, ls_generation = 0, ls_refcount = 0,
     ls_payload_size = 0, ls_in_use = False\<rparr>"

text \<open>Updates of one object of the store, and \<open>memset\<close> to zero of a byte range.\<close>

definition upd_pool :: "nat \<Rightarrow> (ev_lease_pool \<Rightarrow> ev_lease_pool) \<Rightarrow> lease_heap \<Rightarrow> lease_heap" where
  "upd_pool p f h = h\<lparr>h_pool := (h_pool h)(p := f (h_pool h p))\<rparr>"

definition upd_slot :: "nat \<Rightarrow> (ev_lease_slot \<Rightarrow> ev_lease_slot) \<Rightarrow> lease_heap \<Rightarrow> lease_heap" where
  "upd_slot s f h = h\<lparr>h_slot := (h_slot h)(s := f (h_slot h s))\<rparr>"

definition upd_stats ::
    "nat \<Rightarrow> (ev_lease_pool_stats \<Rightarrow> ev_lease_pool_stats) \<Rightarrow> lease_heap \<Rightarrow> lease_heap" where
  "upd_stats p f h = upd_pool p (\<lambda>q. q\<lparr>lp_stats := f (lp_stats q)\<rparr>) h"

definition zero_bytes :: "ptr \<Rightarrow> nat \<Rightarrow> lease_heap \<Rightarrow> lease_heap" where
  "zero_bytes pd n h = (case pd of None \<Rightarrow> h
     | Some d \<Rightarrow> h\<lparr>h_byte := (\<lambda>a. if d \<le> a \<and> a < d + n then 0 else h_byte h a)\<rparr>)"

section \<open>Operations\<close>

definition ev_lease_slot_metadata_is_valid :: "lease_heap \<Rightarrow> ptr \<Rightarrow> bool" where
  "ev_lease_slot_metadata_is_valid h ps =
     (case ps of None \<Rightarrow> False
      | Some s \<Rightarrow> (case ls_pool (h_slot h s) of None \<Rightarrow> False
          | Some p \<Rightarrow>
             (case lp_slots (h_pool h p) of None \<Rightarrow> False
              | Some base \<Rightarrow>
                  lp_storage (h_pool h p) \<noteq> None
                  \<and> lp_slot_count (h_pool h p) \<noteq> 0 \<and> lp_slot_size (h_pool h p) \<noteq> 0
                  \<and> ls_slot_index (h_slot h s) < lp_slot_count (h_pool h p)
                  \<and> s = base + ls_slot_index (h_slot h s)
                  \<and> \<not> (ls_in_use (h_slot h s)
                       \<and> lp_slot_size (h_pool h p) < ls_payload_size (h_slot h s)))))"

definition ev_lease_slot_data_ptr :: "lease_heap \<Rightarrow> ptr \<Rightarrow> ptr" where
  "ev_lease_slot_data_ptr h ps =
     (if \<not> ev_lease_slot_metadata_is_valid h ps then None
      else let s = h_slot h (the ps); p = h_pool h (the (ls_pool s))
           in Some (the (lp_storage p) + ls_slot_index s * lp_slot_size p))"

definition ev_lease_handle_is_live :: "lease_heap \<Rightarrow> ev_lease_handle option \<Rightarrow> bool" where
  "ev_lease_handle_is_live h ph =
     (case ph of None \<Rightarrow> False
      | Some hn \<Rightarrow> (case hd_slot hn of None \<Rightarrow> False
          | Some s \<Rightarrow> ev_lease_slot_metadata_is_valid h (Some s) \<and> ls_in_use (h_slot h s)
                      \<and> ls_generation (h_slot h s) = hd_generation hn
                      \<and> 0 < ls_refcount (h_slot h s)))"

text \<open>The guard that a dead handle or context counts against its pool, where there is one.\<close>

definition count_stale :: "ptr \<Rightarrow> lease_heap \<Rightarrow> lease_heap" where
  "count_stale ps h = (case ps of None \<Rightarrow> h
     | Some s \<Rightarrow> (case ls_pool (h_slot h s) of None \<Rightarrow> h
         | Some p \<Rightarrow> upd_stats p (\<lambda>st. st\<lparr>lps_stale_handles := lps_stale_handles st + 1\<rparr>) h))"

definition ev_lease_pool_retain :: "ev_lease_handle option \<Rightarrow> lease_heap \<Rightarrow> ev_result \<times> lease_heap" where
  "ev_lease_pool_retain ph h =
     (if \<not> ev_lease_handle_is_live h ph
      then (EV_ERR_STATE, (case ph of None \<Rightarrow> h | Some hn \<Rightarrow> count_stale (hd_slot hn) h))
      else let s = the (hd_slot (the ph))
           in (EV_OK,
               upd_stats (the (ls_pool (h_slot h s))) (\<lambda>st. st\<lparr>lps_retains := lps_retains st + 1\<rparr>)
                 (upd_slot s (\<lambda>sl. sl\<lparr>ls_refcount := ls_refcount sl + 1\<rparr>) h)))"

definition ev_lease_pool_release :: "ev_lease_handle option \<Rightarrow> lease_heap \<Rightarrow> ev_result \<times> lease_heap" where
  "ev_lease_pool_release ph h =
     (if \<not> ev_lease_handle_is_live h ph
      then (EV_ERR_STATE, (case ph of None \<Rightarrow> h | Some hn \<Rightarrow> count_stale (hd_slot hn) h))
      else let s = the (hd_slot (the ph));
               p = the (ls_pool (h_slot h s));
               h1 = upd_stats p (\<lambda>st. st\<lparr>lps_releases := lps_releases st + 1\<rparr>)
                      (upd_slot s (\<lambda>sl. sl\<lparr>ls_refcount := ls_refcount sl - 1\<rparr>) h)
           in (EV_OK,
               if ls_refcount (h_slot h1 s) = 0
               then upd_stats p (\<lambda>st. st\<lparr>lps_in_use := lps_in_use st - 1\<rparr>)
                      (upd_slot s (\<lambda>sl. sl\<lparr>ls_payload_size := 0, ls_in_use := False\<rparr>)
                        (zero_bytes (ev_lease_slot_data_ptr h1 (Some s)) (lp_slot_size (h_pool h1 p)) h1))
               else h1))"

definition ev_lease_pool_retain_from_slot ::
    "ptr \<Rightarrow> ptr \<Rightarrow> nat \<Rightarrow> lease_heap \<Rightarrow> ev_result \<times> lease_heap" where
  "ev_lease_pool_retain_from_slot ctx payload payload_size h =
     (if \<not> ev_lease_slot_metadata_is_valid h ctx \<or> \<not> ls_in_use (h_slot h (the ctx))
      then (EV_ERR_STATE, count_stale ctx h)
      else if ev_lease_slot_data_ptr h ctx \<noteq> payload \<or> ls_payload_size (h_slot h (the ctx)) \<noteq> payload_size
      then (EV_ERR_STATE, count_stale ctx h)
      else ev_lease_pool_retain
             (Some \<lparr>hd_slot = ctx, hd_generation = ls_generation (h_slot h (the ctx))\<rparr>) h)"

definition ev_lease_pool_release_from_slot :: "ptr \<Rightarrow> ptr \<Rightarrow> nat \<Rightarrow> lease_heap \<Rightarrow> lease_heap" where
  "ev_lease_pool_release_from_slot ctx payload payload_size h =
     (if \<not> ev_lease_slot_metadata_is_valid h ctx \<or> \<not> ls_in_use (h_slot h (the ctx))
      then count_stale ctx h
      else if ev_lease_slot_data_ptr h ctx \<noteq> payload \<or> ls_payload_size (h_slot h (the ctx)) \<noteq> payload_size
      then count_stale ctx h
      else snd (ev_lease_pool_release
             (Some \<lparr>hd_slot = ctx, hd_generation = ls_generation (h_slot h (the ctx))\<rparr>) h))"

text \<open>
  Initialisation clears \<open>slot_count\<close> slots from the given base and links each to the pool. The two
  loops of the code, \<open>memset\<close> over the array and the linking loop, write the same range of slots.
\<close>

definition ev_lease_pool_init ::
    "ptr \<Rightarrow> ptr \<Rightarrow> ptr \<Rightarrow> nat \<Rightarrow> nat \<Rightarrow> lease_heap \<Rightarrow> ev_result \<times> lease_heap" where
  "ev_lease_pool_init pool slots storage slot_count slot_size h =
     (if pool = None \<or> slots = None \<or> storage = None then (EV_ERR_INVALID_ARG, h)
      else if slot_count = 0 \<or> slot_size = 0 then (EV_ERR_OUT_OF_RANGE, h)
      else
        let base = the slots;
            h1 = zero_bytes storage (slot_count * slot_size) h;
            h2 = h1\<lparr>h_slot := (\<lambda>a. if base \<le> a \<and> a < base + slot_count
                     then zero_lease_slot\<lparr>ls_pool := pool, ls_slot_index := a - base\<rparr>
                     else h_slot h1 a)\<rparr>;
            h3 = h2\<lparr>h_pool := (h_pool h2)(the pool := \<lparr>lp_slots = slots, lp_storage = storage,
                     lp_slot_count = slot_count, lp_slot_size = slot_size,
                     lp_stats = zero_lease_stats\<rparr>)\<rparr>
        in (EV_OK, h3))"

text \<open>The search of \<open>ev_lease_pool_acquire\<close>: the first free slot among \<open>n\<close> from index \<open>i\<close>.\<close>

primrec lease_find_free :: "lease_heap \<Rightarrow> nat \<Rightarrow> nat \<Rightarrow> nat \<Rightarrow> nat option" where
  "lease_find_free h base i 0 = None"
| "lease_find_free h base i (Suc n) =
     (if \<not> ls_in_use (h_slot h (base + i)) then Some i else lease_find_free h base (Suc i) n)"

definition next_generation :: "u32 \<Rightarrow> u32" where
  "next_generation g = (if g + 1 = 0 then 1 else g + 1)"

text \<open>
  Results: the code, the written handle (\<open>*out_handle\<close>), the written payload pointer (\<open>*out_data\<close>) and
  the store. \<open>out_handle\<close> and \<open>out_data\<close> say whether the caller passed the two output pointers.
\<close>

definition ev_lease_pool_acquire ::
    "ptr \<Rightarrow> nat \<Rightarrow> bool \<Rightarrow> bool \<Rightarrow> lease_heap
       \<Rightarrow> ev_result \<times> ev_lease_handle option \<times> ptr \<times> lease_heap" where
  "ev_lease_pool_acquire pool payload_size out_handle out_data h =
     (if pool = None \<or> \<not> out_handle \<or> \<not> out_data then (EV_ERR_INVALID_ARG, None, None, h)
      else
        let p = the pool; q = h_pool h p; base = the (lp_slots q)
        in if lp_slot_size q < payload_size then (EV_ERR_OUT_OF_RANGE, None, None, h)
           else case lease_find_free h base 0 (lp_slot_count q) of
              None \<Rightarrow> (EV_ERR_FULL, None, None,
                 upd_stats p (\<lambda>st. st\<lparr>lps_failed_acquires := lps_failed_acquires st + 1\<rparr>) h)
            | Some i \<Rightarrow>
                let s = base + i;
                    h1 = zero_bytes (ev_lease_slot_data_ptr h (Some s)) (lp_slot_size q) h;
                    h2 = upd_slot s (\<lambda>sl. sl\<lparr>ls_in_use := True, ls_refcount := 1,
                           ls_payload_size := payload_size,
                           ls_generation := next_generation (ls_generation sl)\<rparr>) h1;
                    h3 = upd_stats p (\<lambda>st. st\<lparr>lps_acquires := lps_acquires st + 1,
                           lps_in_use := lps_in_use st + 1,
                           lps_high_watermark := max (lps_high_watermark st) (lps_in_use st + 1)\<rparr>) h2
                in (EV_OK,
                    Some \<lparr>hd_slot = Some s, hd_generation = ls_generation (h_slot h2 s)\<rparr>,
                    ev_lease_slot_data_ptr h2 (Some s), h3))"

definition ev_lease_handle_is_valid :: "lease_heap \<Rightarrow> ev_lease_handle option \<Rightarrow> bool" where
  "ev_lease_handle_is_valid h ph \<longleftrightarrow> ev_lease_handle_is_live h ph"

definition ev_lease_handle_data :: "lease_heap \<Rightarrow> ev_lease_handle option \<Rightarrow> ptr" where
  "ev_lease_handle_data h ph =
     (if ev_lease_handle_is_live h ph then ev_lease_slot_data_ptr h (hd_slot (the ph)) else None)"

definition ev_lease_handle_size :: "lease_heap \<Rightarrow> ev_lease_handle option \<Rightarrow> nat" where
  "ev_lease_handle_size h ph =
     (if ev_lease_handle_is_live h ph then ls_payload_size (h_slot h (the (hd_slot (the ph)))) else 0)"

definition ev_lease_handle_refcount :: "lease_heap \<Rightarrow> ev_lease_handle option \<Rightarrow> u32" where
  "ev_lease_handle_refcount h ph =
     (if ev_lease_handle_is_live h ph then ls_refcount (h_slot h (the (hd_slot (the ph)))) else 0)"

definition ev_lease_pool_stats_of :: "lease_heap \<Rightarrow> ptr \<Rightarrow> ev_lease_pool_stats option" where
  "ev_lease_pool_stats_of h pool = map_option (\<lambda>p. lp_stats (h_pool h p)) pool"

text \<open>
  The payload callbacks a leased message carries are the two \<open>from_slot\<close> functions. Callbacks of the
  application are parameters.
\<close>

definition lease_lifecycle ::
    "(nat \<Rightarrow> ptr \<Rightarrow> ptr \<Rightarrow> nat \<Rightarrow> lease_heap \<Rightarrow> ev_result \<times> lease_heap)
      \<Rightarrow> (nat \<Rightarrow> ptr \<Rightarrow> ptr \<Rightarrow> nat \<Rightarrow> lease_heap \<Rightarrow> lease_heap) \<Rightarrow> lease_heap ev_lifecycle" where
  "lease_lifecycle app_retain app_release =
     \<lparr>lc_retain = (\<lambda>fn. case fn of ev_lease_pool_retain_from_slot_fn \<Rightarrow> ev_lease_pool_retain_from_slot
                     | app_retain_fn n \<Rightarrow> app_retain n),
      lc_release = (\<lambda>fn. case fn of ev_lease_pool_release_from_slot_fn \<Rightarrow> ev_lease_pool_release_from_slot
                     | app_release_fn n \<Rightarrow> app_release n)\<rparr>"

definition ev_lease_pool_attach_msg ::
    "lease_heap ev_lifecycle \<Rightarrow> ev_msg option \<Rightarrow> ev_lease_handle option \<Rightarrow> lease_heap
       \<Rightarrow> ev_result \<times> ev_msg option \<times> lease_heap" where
  "ev_lease_pool_attach_msg lc pm ph h =
     (if pm = None \<or> ph = None then (EV_ERR_INVALID_ARG, pm, h)
      else if \<not> ev_lease_handle_is_live h ph then (EV_ERR_STATE, pm, count_stale (hd_slot (the ph)) h)
      else
        let data = ev_lease_handle_data h ph; sz = ev_lease_handle_size h ph
        in if data = None \<and> 0 < sz then (EV_ERR_STATE, pm, h)
           else
             let (rc, h1) = (if 0 < sz then ev_lease_pool_retain ph h else (EV_OK, h))
             in if rc \<noteq> EV_OK then (rc, pm, h1)
                else
                  let (rc, pm2, h2) = ev_msg_set_external_payload lc pm
                        (if 0 < sz then data else None) sz
                        (if 0 < sz then Some ev_lease_pool_retain_from_slot_fn else None)
                        (if 0 < sz then Some ev_lease_pool_release_from_slot_fn else None)
                        (hd_slot (the ph)) h1
                  in if rc \<noteq> EV_OK
                     then (rc, pm2, if 0 < sz then snd (ev_lease_pool_release ph h2) else h2)
                     else (EV_OK, pm2, h2))"

section \<open>What the updates of the store change\<close>

lemma heap_frames [simp]:
  "h_pool (upd_pool p f h) q = (if q = p then f (h_pool h p) else h_pool h q)"
  "h_slot (upd_pool p f h) = h_slot h" "h_byte (upd_pool p f h) = h_byte h"
  "h_slot (upd_slot s g h) t = (if t = s then g (h_slot h s) else h_slot h t)"
  "h_pool (upd_slot s g h) = h_pool h" "h_byte (upd_slot s g h) = h_byte h"
  "h_pool (zero_bytes pd n h) = h_pool h" "h_slot (zero_bytes pd n h) = h_slot h"
  by (simp_all add: upd_pool_def upd_slot_def zero_bytes_def split: option.splits)

lemma lease_stats_frames [simp]:
  "lp_slots (h_pool (upd_stats p f h) q) = lp_slots (h_pool h q)"
  "lp_storage (h_pool (upd_stats p f h) q) = lp_storage (h_pool h q)"
  "lp_slot_count (h_pool (upd_stats p f h) q) = lp_slot_count (h_pool h q)"
  "lp_slot_size (h_pool (upd_stats p f h) q) = lp_slot_size (h_pool h q)"
  "lp_stats (h_pool (upd_stats p f h) q)
     = (if q = p then f (lp_stats (h_pool h p)) else lp_stats (h_pool h q))"
  "h_slot (upd_stats p f h) = h_slot h" "h_byte (upd_stats p f h) = h_byte h"
  by (simp_all add: upd_stats_def)

lemma count_stale_frames [simp]:
  "h_slot (count_stale ps h) = h_slot h" "h_byte (count_stale ps h) = h_byte h"
  "lp_slots (h_pool (count_stale ps h) q) = lp_slots (h_pool h q)"
  "lp_storage (h_pool (count_stale ps h) q) = lp_storage (h_pool h q)"
  "lp_slot_count (h_pool (count_stale ps h) q) = lp_slot_count (h_pool h q)"
  "lp_slot_size (h_pool (count_stale ps h) q) = lp_slot_size (h_pool h q)"
  "lps_in_use (lp_stats (h_pool (count_stale ps h) q)) = lps_in_use (lp_stats (h_pool h q))"
  "lps_high_watermark (lp_stats (h_pool (count_stale ps h) q))
     = lps_high_watermark (lp_stats (h_pool h q))"
  by (simp_all add: count_stale_def split: option.splits)

section \<open>The pool invariant\<close>

text \<open>The addresses of a pool's slots, and those in use.\<close>

definition pool_slots :: "ptr \<Rightarrow> lease_heap \<Rightarrow> nat list" where
  "pool_slots pp h = (case pp of None \<Rightarrow> [] | Some p \<Rightarrow> (case lp_slots (h_pool h p) of None \<Rightarrow> []
     | Some base \<Rightarrow> [base..<base + lp_slot_count (h_pool h p)]))"

definition in_use_slots :: "nat \<Rightarrow> lease_heap \<Rightarrow> nat list" where
  "in_use_slots p h = filter (\<lambda>s. ls_in_use (h_slot h s)) (pool_slots (Some p) h)"

definition slot_wf :: "nat \<Rightarrow> lease_heap \<Rightarrow> nat \<Rightarrow> bool" where
  "slot_wf p h s \<longleftrightarrow> ls_pool (h_slot h s) = Some p
     \<and> Some s = map_option (\<lambda>base. base + ls_slot_index (h_slot h s)) (lp_slots (h_pool h p))
     \<and> (ls_in_use (h_slot h s) \<longleftrightarrow> ls_refcount (h_slot h s) \<noteq> 0)
     \<and> ls_payload_size (h_slot h s) \<le> lp_slot_size (h_pool h p)
     \<and> (\<not> ls_in_use (h_slot h s) \<longrightarrow> ls_payload_size (h_slot h s) = 0)"

definition pool_wf :: "nat \<Rightarrow> lease_heap \<Rightarrow> bool" where
  "pool_wf p h \<longleftrightarrow> lp_slots (h_pool h p) \<noteq> None \<and> lp_storage (h_pool h p) \<noteq> None
     \<and> 0 < lp_slot_count (h_pool h p) \<and> 0 < lp_slot_size (h_pool h p)
     \<and> (\<forall>s \<in> set (pool_slots (Some p) h). slot_wf p h s)
     \<and> lps_in_use (lp_stats (h_pool h p)) = length (in_use_slots p h)
     \<and> lps_in_use (lp_stats (h_pool h p)) \<le> lps_high_watermark (lp_stats (h_pool h p))
     \<and> lps_high_watermark (lp_stats (h_pool h p)) \<le> lp_slot_count (h_pool h p)"

lemma distinct_pool_slots [simp]: "distinct (pool_slots pp h)"
  by (simp add: pool_slots_def split: option.splits)

lemma length_pool_slots:
  "lp_slots (h_pool h p) \<noteq> None \<Longrightarrow> length (pool_slots (Some p) h) = lp_slot_count (h_pool h p)"
  by (auto simp: pool_slots_def)

lemma length_filter_insert:
  assumes "distinct xs" and "s \<in> set xs" and "\<not> P s" and "\<And>t. Q t \<longleftrightarrow> t = s \<or> P t"
  shows "length (filter Q xs) = Suc (length (filter P xs))"
proof -
  have "{t. Q t} \<inter> set xs = insert s ({t. P t} \<inter> set xs)" using assms(2,4) by auto
  then show ?thesis using assms by (simp add: distinct_length_filter)
qed

lemma pool_slots_frames [simp]:
  "pool_slots pp (upd_stats p f h) = pool_slots pp h"
  "pool_slots pp (upd_slot s g h) = pool_slots pp h"
  "pool_slots pp (zero_bytes pd n h) = pool_slots pp h"
  "pool_slots pp (count_stale c h) = pool_slots pp h"
  by (simp_all add: pool_slots_def split: option.splits)

lemma in_use_slots_frames [simp]:
  "in_use_slots p (upd_stats q f h) = in_use_slots p h"
  "in_use_slots p (zero_bytes pd n h) = in_use_slots p h"
  "in_use_slots p (count_stale c h) = in_use_slots p h"
  by (simp_all add: in_use_slots_def)

lemma pool_wf_count_stale [simp]: "pool_wf p (count_stale c h) = pool_wf p h"
  by (simp add: pool_wf_def slot_wf_def)

text \<open>The facts a well-formed pool gives about one of its slots.\<close>

lemma pool_wf_slot:
  assumes "pool_wf p h" and "s \<in> set (pool_slots (Some p) h)"
  obtains base st where "lp_slots (h_pool h p) = Some base" and "lp_storage (h_pool h p) = Some st"
    and "ls_pool (h_slot h s) = Some p" and "s = base + ls_slot_index (h_slot h s)"
    and "ls_slot_index (h_slot h s) < lp_slot_count (h_pool h p)"
    and "ls_in_use (h_slot h s) \<longleftrightarrow> ls_refcount (h_slot h s) \<noteq> 0"
    and "ls_payload_size (h_slot h s) \<le> lp_slot_size (h_pool h p)"
    and "0 < lp_slot_count (h_pool h p)" and "0 < lp_slot_size (h_pool h p)"
proof -
  from assms(1) obtain base st where b: "lp_slots (h_pool h p) = Some base"
      "lp_storage (h_pool h p) = Some st"
    by (auto simp: pool_wf_def)
  have sw: "slot_wf p h s" and pos: "0 < lp_slot_count (h_pool h p)" "0 < lp_slot_size (h_pool h p)"
    using assms by (simp_all add: pool_wf_def)
  have idx: "s = base + ls_slot_index (h_slot h s)" using sw b by (simp add: slot_wf_def)
  have "s < base + lp_slot_count (h_pool h p)" using assms(2) b by (simp add: pool_slots_def)
  then have lt: "ls_slot_index (h_slot h s) < lp_slot_count (h_pool h p)" using idx by linarith
  show thesis
    by (rule that [OF b _ idx lt _ _ pos]) (use sw in \<open>simp_all add: slot_wf_def\<close>)
qed

lemma pool_slot_metadata:
  assumes "pool_wf p h" and "s \<in> set (pool_slots (Some p) h)"
  shows "ev_lease_slot_metadata_is_valid h (Some s)"
  using assms by (rule pool_wf_slot) (simp add: ev_lease_slot_metadata_is_valid_def)

lemma pool_slot_data_ptr:
  assumes "pool_wf p h" and "s \<in> set (pool_slots (Some p) h)"
  shows "ev_lease_slot_data_ptr h (Some s)
    = Some (the (lp_storage (h_pool h p)) + ls_slot_index (h_slot h s) * lp_slot_size (h_pool h p))"
  using pool_slot_metadata [OF assms] assms
  by (auto simp: ev_lease_slot_data_ptr_def Let_def elim: pool_wf_slot)

lemma pool_slot_live:
  assumes "pool_wf p h" and "s \<in> set (pool_slots (Some p) h)"
  shows "ev_lease_handle_is_live h (Some \<lparr>hd_slot = Some s, hd_generation = g\<rparr>)
    \<longleftrightarrow> ls_in_use (h_slot h s) \<and> ls_generation (h_slot h s) = g"
proof -
  have "ls_in_use (h_slot h s) \<longleftrightarrow> ls_refcount (h_slot h s) \<noteq> 0"
    using assms by (rule pool_wf_slot)
  then show ?thesis
    using pool_slot_metadata [OF assms] by (auto simp: ev_lease_handle_is_live_def word_gt_0)
qed

lemma pool_slot_owner:
  "pool_wf p h \<Longrightarrow> s \<in> set (pool_slots (Some p) h) \<Longrightarrow> ls_pool (h_slot h s) = Some p"
  by (erule (1) pool_wf_slot)

lemma slot_in_use_refcount:
  "pool_wf p h \<Longrightarrow> s \<in> set (pool_slots (Some p) h) \<Longrightarrow>
     ls_in_use (h_slot h s) \<longleftrightarrow> ls_refcount (h_slot h s) \<noteq> 0"
  by (erule (1) pool_wf_slot)

section \<open>Every operation keeps the pool well formed\<close>

lemma init_pool_wf:
  assumes "ev_lease_pool_init (Some p) slots storage n sz h = (EV_OK, h')"
  shows "pool_wf p h'"
proof -
  from assms obtain base st where a: "slots = Some base" "storage = Some st" "0 < n" "0 < sz"
    by (auto simp: ev_lease_pool_init_def split: if_splits)
  let ?s = "\<lambda>a. zero_lease_slot\<lparr>ls_pool := Some p, ls_slot_index := a - base\<rparr>"
  have pl: "h_pool h' p = \<lparr>lp_slots = Some base, lp_storage = Some st, lp_slot_count = n,
      lp_slot_size = sz, lp_stats = zero_lease_stats\<rparr>"
    and sl: "\<And>a. base \<le> a \<Longrightarrow> a < base + n \<Longrightarrow> h_slot h' a = ?s a"
    using assms a by (auto simp: ev_lease_pool_init_def Let_def)
  have ps: "pool_slots (Some p) h' = [base..<base + n]" by (simp add: pool_slots_def pl)
  have "slot_wf p h' a" if "a \<in> set (pool_slots (Some p) h')" for a
    using that by (simp add: ps slot_wf_def sl pl zero_lease_slot_def)
  moreover have "in_use_slots p h' = []"
    by (auto simp: in_use_slots_def ps sl zero_lease_slot_def filter_empty_conv)
  ultimately show ?thesis using a by (simp add: pool_wf_def pl zero_lease_stats_def)
qed

text \<open>A retain with room in the counter.\<close>

lemma retain_slot:
  assumes wf: "pool_wf p h" and s: "s \<in> set (pool_slots (Some p) h)" and u: "ls_in_use (h_slot h s)"
    and room: "unat (ls_refcount (h_slot h s)) < 2 ^ 32 - 1"
  shows "\<exists>h'. ev_lease_pool_retain (Some \<lparr>hd_slot = Some s, hd_generation = ls_generation (h_slot h s)\<rparr>) h
            = (EV_OK, h')
          \<and> pool_wf p h'
          \<and> h_slot h' = (h_slot h)(s := (h_slot h s)\<lparr>ls_refcount := ls_refcount (h_slot h s) + 1\<rparr>)
          \<and> unat (ls_refcount (h_slot h s) + 1) = Suc (unat (ls_refcount (h_slot h s)))
          \<and> pool_slots (Some p) h' = pool_slots (Some p) h
          \<and> lp_storage (h_pool h' p) = lp_storage (h_pool h p)
          \<and> lp_slot_size (h_pool h' p) = lp_slot_size (h_pool h p)"
proof -
  let ?r = "ls_refcount (h_slot h s)"
  let ?h = "upd_stats p (\<lambda>st. st\<lparr>lps_retains := lps_retains st + 1\<rparr>)
              (upd_slot s (\<lambda>sl. sl\<lparr>ls_refcount := ls_refcount sl + 1\<rparr>) h)"
  have ne: "unat (?r + 1) = Suc (unat ?r)" using room by (subst unat_word_ariths) simp
  then have nz: "?r + 1 \<noteq> 0" by (metis nat.simps(3) unat_0)
  have op: "ev_lease_pool_retain (Some \<lparr>hd_slot = Some s, hd_generation = ls_generation (h_slot h s)\<rparr>) h
      = (EV_OK, ?h)"
    using pool_slot_live [OF wf s, of "ls_generation (h_slot h s)"] u pool_slot_owner [OF wf s]
    by (simp add: ev_lease_pool_retain_def Let_def)
  have iu: "in_use_slots p ?h = in_use_slots p h"
    by (auto simp: in_use_slots_def intro: filter_cong)
  have "slot_wf p ?h t" if "t \<in> set (pool_slots (Some p) h)" for t
    using wf that u nz by (auto simp: pool_wf_def slot_wf_def)
  then have "pool_wf p ?h"
    using wf iu by (simp add: pool_wf_def)
  then show ?thesis
    using op ne by (auto simp: fun_eq_iff)
qed

text \<open>
  A release takes one share; the last one frees the slot. Which of the two happens is decided by the
  counter alone.
\<close>

definition after_release :: "lease_heap \<Rightarrow> nat \<Rightarrow> ev_lease_slot" where
  "after_release h s =
     (if ls_refcount (h_slot h s) = 1
      then (h_slot h s)\<lparr>ls_refcount := 0, ls_payload_size := 0, ls_in_use := False\<rparr>
      else (h_slot h s)\<lparr>ls_refcount := ls_refcount (h_slot h s) - 1\<rparr>)"

lemma after_release_facts:
  assumes "ls_refcount (h_slot h s) \<noteq> 0"
  shows "unat (ls_refcount (after_release h s)) = unat (ls_refcount (h_slot h s)) - 1"
    and "ls_refcount (after_release h s) \<noteq> 0 \<longleftrightarrow> 1 < unat (ls_refcount (h_slot h s))"
    and "ls_generation (after_release h s) = ls_generation (h_slot h s)"
proof -
  have u: "unat (ls_refcount (h_slot h s) - 1) = unat (ls_refcount (h_slot h s)) - 1"
    using assms by (simp add: unat_minus_one)
  have p: "0 < unat (ls_refcount (h_slot h s))" using assms by (simp add: unat_gt_0)
  show un: "unat (ls_refcount (after_release h s)) = unat (ls_refcount (h_slot h s)) - 1"
    using u by (simp add: after_release_def)
  show "ls_refcount (after_release h s) \<noteq> 0 \<longleftrightarrow> 1 < unat (ls_refcount (h_slot h s))"
    using un p by (metis One_nat_def Suc_lessI diff_Suc_1 less_numeral_extra(4) unat_0 unat_gt_0 zero_less_diff)
  show "ls_generation (after_release h s) = ls_generation (h_slot h s)"
    by (simp add: after_release_def)
qed

lemma release_slot:
  assumes wf: "pool_wf p h" and s: "s \<in> set (pool_slots (Some p) h)" and u: "ls_in_use (h_slot h s)"
  shows "\<exists>h'. ev_lease_pool_release (Some \<lparr>hd_slot = Some s, hd_generation = ls_generation (h_slot h s)\<rparr>) h
            = (EV_OK, h')
          \<and> pool_wf p h' \<and> h_slot h' = (h_slot h)(s := after_release h s)
          \<and> pool_slots (Some p) h' = pool_slots (Some p) h
          \<and> lp_storage (h_pool h' p) = lp_storage (h_pool h p)
          \<and> lp_slot_size (h_pool h' p) = lp_slot_size (h_pool h p)"
proof -
  let ?r = "ls_refcount (h_slot h s)"
  let ?h1 = "upd_stats p (\<lambda>st. st\<lparr>lps_releases := lps_releases st + 1\<rparr>)
              (upd_slot s (\<lambda>sl. sl\<lparr>ls_refcount := ls_refcount sl - 1\<rparr>) h)"
  let ?h2 = "upd_stats p (\<lambda>st. st\<lparr>lps_in_use := lps_in_use st - 1\<rparr>)
              (upd_slot s (\<lambda>sl. sl\<lparr>ls_payload_size := 0, ls_in_use := False\<rparr>)
                (zero_bytes (ev_lease_slot_data_ptr ?h1 (Some s)) (lp_slot_size (h_pool ?h1 p)) ?h1))"
  have op: "ev_lease_pool_release (Some \<lparr>hd_slot = Some s, hd_generation = ls_generation (h_slot h s)\<rparr>) h
      = (EV_OK, if ?r - 1 = 0 then ?h2 else ?h1)"
    using pool_slot_live [OF wf s, of "ls_generation (h_slot h s)"] u pool_slot_owner [OF wf s]
    by (simp add: ev_lease_pool_release_def Let_def)
  have r0: "?r \<noteq> 0" using slot_in_use_refcount [OF wf s] u by simp
  have r1: "?r - 1 = 0 \<longleftrightarrow> ?r = 1" by simp
  show ?thesis
  proof (cases "?r = 1")
    case True
    have len: "length (in_use_slots p h) = Suc (length (in_use_slots p ?h2))"
      unfolding in_use_slots_def pool_slots_frames
      by (rule length_filter_insert [OF _ s]) (use u in auto)
    have "slot_wf p ?h2 t" if "t \<in> set (pool_slots (Some p) h)" for t
      using wf that True by (auto simp: pool_wf_def slot_wf_def)
    then have "pool_wf p ?h2"
      using wf len by (simp add: pool_wf_def)
    moreover have "h_slot ?h2 = (h_slot h)(s := after_release h s)"
      using True by (auto simp: after_release_def)
    ultimately show ?thesis using op True by auto
  next
    case False
    have iu: "in_use_slots p ?h1 = in_use_slots p h"
      by (auto simp: in_use_slots_def intro: filter_cong)
    have "slot_wf p ?h1 t" if "t \<in> set (pool_slots (Some p) h)" for t
      using wf that False r0 r1 by (auto simp: pool_wf_def slot_wf_def)
    then have "pool_wf p ?h1"
      using wf iu by (simp add: pool_wf_def)
    moreover have "h_slot ?h1 = (h_slot h)(s := after_release h s)"
      using False by (auto simp: after_release_def)
    ultimately show ?thesis using op False r1 by auto
  qed
qed

text \<open>The search of \<open>acquire\<close> returns the first free slot.\<close>

lemma lease_find_free_Some:
  "lease_find_free h base i n = Some k \<Longrightarrow>
     i \<le> k \<and> k < i + n \<and> \<not> ls_in_use (h_slot h (base + k))
     \<and> (\<forall>j. i \<le> j \<longrightarrow> j < k \<longrightarrow> ls_in_use (h_slot h (base + j)))"
  by (induction n arbitrary: i) (force split: if_splits simp: le_Suc_eq Suc_le_eq dest: le_neq_implies_less)+

lemma lease_find_free_None:
  "lease_find_free h base i n = None \<longleftrightarrow> (\<forall>j. i \<le> j \<longrightarrow> j < i + n \<longrightarrow> ls_in_use (h_slot h (base + j)))"
proof (induction n arbitrary: i)
  case (Suc n)
  have "(\<forall>j. i \<le> j \<longrightarrow> j < i + Suc n \<longrightarrow> ls_in_use (h_slot h (base + j)))
      \<longleftrightarrow> ls_in_use (h_slot h (base + i))
          \<and> (\<forall>j. Suc i \<le> j \<longrightarrow> j < Suc i + n \<longrightarrow> ls_in_use (h_slot h (base + j)))"
    by (auto simp: Suc_le_eq dest: le_neq_implies_less)
  then show ?case using Suc.IH [of "Suc i"] by simp
qed simp

definition acquired :: "lease_heap \<Rightarrow> nat \<Rightarrow> nat \<Rightarrow> ev_lease_slot" where
  "acquired h s sz = (h_slot h s)\<lparr>ls_in_use := True, ls_refcount := 1, ls_payload_size := sz,
     ls_generation := next_generation (ls_generation (h_slot h s))\<rparr>"

lemma acquire_slot:
  assumes wf: "pool_wf p h"
    and a: "ev_lease_pool_acquire (Some p) sz True True h = (EV_OK, ph, d, h')"
  obtains s where "s \<in> set (pool_slots (Some p) h)" and "\<not> ls_in_use (h_slot h s)"
    and "ph = Some \<lparr>hd_slot = Some s, hd_generation = next_generation (ls_generation (h_slot h s))\<rparr>"
    and "sz \<le> lp_slot_size (h_pool h p)"
    and "pool_wf p h'" and "h_slot h' = (h_slot h)(s := acquired h s sz)"
    and "pool_slots (Some p) h' = pool_slots (Some p) h"
    and "lp_storage (h_pool h' p) = lp_storage (h_pool h p)"
    and "lp_slot_size (h_pool h' p) = lp_slot_size (h_pool h p)"
    and "d = ev_lease_slot_data_ptr h' (Some s)"
    and "\<And>i. i < lp_slot_size (h_pool h p) \<Longrightarrow> h_byte h' (the d + i) = 0"
proof -
  from wf obtain base where b: "lp_slots (h_pool h p) = Some base" by (auto simp: pool_wf_def)
  let ?n = "lp_slot_count (h_pool h p)"
  have sz: "sz \<le> lp_slot_size (h_pool h p)"
    using a by (auto simp: ev_lease_pool_acquire_def Let_def split: if_splits)
  from a obtain i where i: "lease_find_free h base 0 ?n = Some i"
    using b sz by (auto simp: ev_lease_pool_acquire_def Let_def split: option.splits)
  define s where "s = base + i"
  have ilt: "i < ?n" and free: "\<not> ls_in_use (h_slot h s)"
    using lease_find_free_Some [OF i] by (auto simp: s_def)
  have mem: "s \<in> set (pool_slots (Some p) h)" using b ilt by (simp add: pool_slots_def s_def)
  let ?h1 = "zero_bytes (ev_lease_slot_data_ptr h (Some s)) (lp_slot_size (h_pool h p)) h"
  let ?h2 = "upd_slot s (\<lambda>sl. sl\<lparr>ls_in_use := True, ls_refcount := 1, ls_payload_size := sz,
               ls_generation := next_generation (ls_generation sl)\<rparr>) ?h1"
  let ?h3 = "upd_stats p (\<lambda>st. st\<lparr>lps_acquires := lps_acquires st + 1,
               lps_in_use := lps_in_use st + 1,
               lps_high_watermark := max (lps_high_watermark st) (lps_in_use st + 1)\<rparr>) ?h2"
  have eq: "ph = Some \<lparr>hd_slot = Some s, hd_generation = next_generation (ls_generation (h_slot h s))\<rparr>"
      "d = ev_lease_slot_data_ptr ?h2 (Some s)" "h' = ?h3"
    using a b sz i by (simp_all add: ev_lease_pool_acquire_def Let_def s_def)
  have len: "length (in_use_slots p ?h3) = Suc (length (in_use_slots p h))"
    unfolding in_use_slots_def pool_slots_frames
    by (rule length_filter_insert [OF _ mem]) (use free in auto)
  have "length (in_use_slots p ?h3) \<le> ?n"
    using length_filter_le [of "\<lambda>s. ls_in_use (h_slot ?h3 s)" "pool_slots (Some p) ?h3"] b
    by (simp add: in_use_slots_def length_pool_slots)
  then have cap: "Suc (lps_in_use (lp_stats (h_pool h p))) \<le> ?n"
    using wf len by (simp add: pool_wf_def)
  have "slot_wf p ?h3 t" if "t \<in> set (pool_slots (Some p) h)" for t
    using wf that sz by (auto simp: pool_wf_def slot_wf_def)
  then have wf3: "pool_wf p ?h3"
    using wf len cap by (simp add: pool_wf_def)
  have dp: "ev_lease_slot_data_ptr ?h3 (Some s) = ev_lease_slot_data_ptr h (Some s)"
    using pool_slot_data_ptr [OF wf mem] pool_slot_data_ptr [OF wf3] mem by simp
  have d2: "ev_lease_slot_data_ptr ?h2 (Some s) = ev_lease_slot_data_ptr ?h3 (Some s)"
    by (simp add: ev_lease_slot_data_ptr_def ev_lease_slot_metadata_is_valid_def Let_def
        split: option.splits)
  show thesis
  proof (rule that [OF mem free eq(1) sz])
    show "pool_wf p h'" using wf3 eq by simp
    show "h_slot h' = (h_slot h)(s := acquired h s sz)" using eq by (auto simp: acquired_def)
    show "d = ev_lease_slot_data_ptr h' (Some s)" using eq d2 by simp
    show "h_byte h' (the d + j) = 0" if "j < lp_slot_size (h_pool h p)" for j
      using that eq d2 dp pool_slot_data_ptr [OF wf mem] by (simp add: zero_bytes_def)
  qed (use eq in simp_all)
qed

lemma acquire_full_iff:
  assumes wf: "pool_wf p h" and sz: "sz \<le> lp_slot_size (h_pool h p)"
  shows "fst (ev_lease_pool_acquire (Some p) sz True True h) = EV_ERR_FULL
    \<longleftrightarrow> (\<forall>s \<in> set (pool_slots (Some p) h). ls_in_use (h_slot h s))"
proof -
  from wf obtain base where b: "lp_slots (h_pool h p) = Some base" by (auto simp: pool_wf_def)
  have "fst (ev_lease_pool_acquire (Some p) sz True True h) = EV_ERR_FULL
      \<longleftrightarrow> lease_find_free h base 0 (lp_slot_count (h_pool h p)) = None"
    using b sz by (auto simp: ev_lease_pool_acquire_def Let_def split: option.splits)
  also have "\<dots> \<longleftrightarrow> (\<forall>s \<in> set (pool_slots (Some p) h). ls_in_use (h_slot h s))"
    by (simp add: lease_find_free_None pool_slots_def b ball_upt_offset del: set_upt)
  finally show ?thesis .
qed

section \<open>The pool as a payload owner\<close>

definition lease_live :: "nat \<Rightarrow> lease_heap \<Rightarrow> ev_msg_external_payload \<Rightarrow> bool" where
  "lease_live p h e \<longleftrightarrow> ext_retain_fn e = Some ev_lease_pool_retain_from_slot_fn
     \<and> ext_release_fn e = Some ev_lease_pool_release_from_slot_fn
     \<and> (case ext_lifecycle_ctx e of None \<Rightarrow> False
        | Some s \<Rightarrow> s \<in> set (pool_slots (Some p) h) \<and> ls_in_use (h_slot h s)
                   \<and> ext_data e = ev_lease_slot_data_ptr h (Some s)
                   \<and> ext_size e = ls_payload_size (h_slot h s))"

definition lease_shares :: "nat \<Rightarrow> lease_heap \<Rightarrow> ptr \<Rightarrow> nat" where
  "lease_shares p h c = (case c of None \<Rightarrow> 0
     | Some s \<Rightarrow> if s \<in> set (pool_slots (Some p) h) then unat (ls_refcount (h_slot h s)) else 0)"

text \<open>A step that keeps geometry and changes one slot.\<close>

lemma data_ptr_same:
  assumes "pool_wf p h" and "pool_wf p h'" and "pool_slots (Some p) h' = pool_slots (Some p) h"
    and "lp_storage (h_pool h' p) = lp_storage (h_pool h p)"
    and "lp_slot_size (h_pool h' p) = lp_slot_size (h_pool h p)"
    and "ls_slot_index (h_slot h' t) = ls_slot_index (h_slot h t)"
    and "t \<in> set (pool_slots (Some p) h)"
  shows "ev_lease_slot_data_ptr h' (Some t) = ev_lease_slot_data_ptr h (Some t)"
  using assms by (simp add: pool_slot_data_ptr)

lemma lease_live_cases:
  assumes "lease_live p h e"
  obtains s where "ext_lifecycle_ctx e = Some s" and "s \<in> set (pool_slots (Some p) h)"
    and "ls_in_use (h_slot h s)" and "ext_data e = ev_lease_slot_data_ptr h (Some s)"
    and "ext_size e = ls_payload_size (h_slot h s)"
    and "ext_retain_fn e = Some ev_lease_pool_retain_from_slot_fn"
    and "ext_release_fn e = Some ev_lease_pool_release_from_slot_fn"
  using assms by (auto simp: lease_live_def split: option.splits)

lemma run_retain_live:
  assumes "pool_wf p h" and "lease_live p h e"
  shows "run_retain (lease_lifecycle ar rl) e h = ev_lease_pool_retain
    (Some \<lparr>hd_slot = ext_lifecycle_ctx e,
           hd_generation = ls_generation (h_slot h (the (ext_lifecycle_ctx e)))\<rparr>) h"
  using assms(2)
  by (rule lease_live_cases) (simp add: run_retain_def lease_lifecycle_def
      ev_lease_pool_retain_from_slot_def pool_slot_metadata [OF assms(1)])

lemma run_release_live:
  assumes "pool_wf p h" and "lease_live p h e"
  shows "run_release (lease_lifecycle ar rl) e h = snd (ev_lease_pool_release
    (Some \<lparr>hd_slot = ext_lifecycle_ctx e,
           hd_generation = ls_generation (h_slot h (the (ext_lifecycle_ctx e)))\<rparr>) h)"
  using assms(2)
  by (rule lease_live_cases) (simp add: run_release_def lease_lifecycle_def
      ev_lease_pool_release_from_slot_def pool_slot_metadata [OF assms(1)])

lemma lease_retain_law:
  assumes wf: "pool_wf p h" and live: "lease_live p h e"
    and room: "lease_shares p h (ext_lifecycle_ctx e) < 2 ^ 32 - 1"
  shows "\<exists>h'. run_retain (lease_lifecycle ar rl) e h = (EV_OK, h') \<and> pool_wf p h'
    \<and> lease_live p h' = lease_live p h
    \<and> lease_shares p h' = (lease_shares p h)
        (ext_lifecycle_ctx e := Suc (lease_shares p h (ext_lifecycle_ctx e)))"
proof -
  from live obtain s where c: "ext_lifecycle_ctx e = Some s" and m: "s \<in> set (pool_slots (Some p) h)"
    and u: "ls_in_use (h_slot h s)" by (rule lease_live_cases)
  have "unat (ls_refcount (h_slot h s)) < 2 ^ 32 - 1"
    using room c m by (simp add: lease_shares_def)
  then obtain h' where op: "ev_lease_pool_retain
        (Some \<lparr>hd_slot = Some s, hd_generation = ls_generation (h_slot h s)\<rparr>) h = (EV_OK, h')"
    and wf': "pool_wf p h'"
    and sl: "h_slot h' = (h_slot h)(s := (h_slot h s)\<lparr>ls_refcount := ls_refcount (h_slot h s) + 1\<rparr>)"
    and cnt: "unat (ls_refcount (h_slot h s) + 1) = Suc (unat (ls_refcount (h_slot h s)))"
    and geo: "pool_slots (Some p) h' = pool_slots (Some p) h"
      "lp_storage (h_pool h' p) = lp_storage (h_pool h p)"
      "lp_slot_size (h_pool h' p) = lp_slot_size (h_pool h p)"
    using retain_slot [OF wf m u] by blast
  have dp: "ev_lease_slot_data_ptr h' (Some t) = ev_lease_slot_data_ptr h (Some t)"
    if "t \<in> set (pool_slots (Some p) h)" for t
    using data_ptr_same [OF wf wf' geo _ that] sl by simp
  have "lease_live p h' e' = lease_live p h e'" for e'
    using dp by (auto simp: lease_live_def geo sl split: option.splits)
  moreover have "lease_shares p h' = (lease_shares p h)
        (ext_lifecycle_ctx e := Suc (lease_shares p h (ext_lifecycle_ctx e)))"
    using m cnt by (auto simp: lease_shares_def geo sl c fun_eq_iff split: option.splits)
  ultimately show ?thesis
    using op wf' c run_retain_live [OF wf live] by auto
qed

lemma lease_release_law:
  assumes wf: "pool_wf p h" and live: "lease_live p h e"
    and h'_def: "h' = run_release (lease_lifecycle ar rl) e h"
  shows "pool_wf p h'
    \<and> lease_shares p h' = (lease_shares p h)
        (ext_lifecycle_ctx e := lease_shares p h (ext_lifecycle_ctx e) - 1)
    \<and> (\<forall>e'. lease_live p h' e' \<longleftrightarrow> lease_live p h e'
          \<and> (ext_lifecycle_ctx e' \<noteq> ext_lifecycle_ctx e \<or> 1 < lease_shares p h (ext_lifecycle_ctx e)))"
proof -
  from live obtain s where c: "ext_lifecycle_ctx e = Some s" and m: "s \<in> set (pool_slots (Some p) h)"
    and u: "ls_in_use (h_slot h s)" by (rule lease_live_cases)
  obtain h2 where op: "ev_lease_pool_release
        (Some \<lparr>hd_slot = Some s, hd_generation = ls_generation (h_slot h s)\<rparr>) h = (EV_OK, h2)"
    and wf': "pool_wf p h2" and sl: "h_slot h2 = (h_slot h)(s := after_release h s)"
    and geo: "pool_slots (Some p) h2 = pool_slots (Some p) h"
      "lp_storage (h_pool h2 p) = lp_storage (h_pool h p)"
      "lp_slot_size (h_pool h2 p) = lp_slot_size (h_pool h p)"
    using release_slot [OF wf m u] by blast
  have h': "h' = h2" using op c run_release_live [OF wf live] by (simp add: h'_def)
  have r0: "ls_refcount (h_slot h s) \<noteq> 0" using slot_in_use_refcount [OF wf m] u by simp
  note ar = after_release_facts [OF r0]
  have use2: "ls_in_use (after_release h s) \<longleftrightarrow> 1 < unat (ls_refcount (h_slot h s))"
    using slot_in_use_refcount [OF wf', of s] m geo sl ar(2) by simp
  have psz: "1 < unat (ls_refcount (h_slot h s)) \<Longrightarrow>
      ls_payload_size (after_release h s) = ls_payload_size (h_slot h s)"
    by (auto simp: after_release_def)
  have dp: "ev_lease_slot_data_ptr h2 (Some t) = ev_lease_slot_data_ptr h (Some t)"
    if "t \<in> set (pool_slots (Some p) h)" for t
    using data_ptr_same [OF wf wf' geo _ that] sl by (simp add: after_release_def)
  have sh: "lease_shares p h (ext_lifecycle_ctx e) = unat (ls_refcount (h_slot h s))"
    using c m by (simp add: lease_shares_def)
  have "lease_live p h2 e' \<longleftrightarrow> lease_live p h e'
      \<and> (ext_lifecycle_ctx e' \<noteq> ext_lifecycle_ctx e \<or> 1 < lease_shares p h (ext_lifecycle_ctx e))" for e'
    unfolding sh using dp use2 psz u by (auto simp: lease_live_def geo sl c split: option.splits)
  moreover have "lease_shares p h2 = (lease_shares p h)
        (ext_lifecycle_ctx e := lease_shares p h (ext_lifecycle_ctx e) - 1)"
    using m ar(1) by (auto simp: lease_shares_def geo sl c fun_eq_iff split: option.splits)
  ultimately show ?thesis using wf' h' by blast
qed

interpretation lp: payload_owner "lease_lifecycle ar rl" "pool_wf p" "lease_live p" "lease_shares p"
    "2 ^ 32 - 1" for ar rl p
proof unfold_locales
  fix h e
  assume live: "lease_live p h e"
  then show "ext_retain_fn e \<noteq> None \<and> ext_release_fn e \<noteq> None" by (rule lease_live_cases) simp
  assume wf: "pool_wf p h"
  from live obtain s where "ext_lifecycle_ctx e = Some s" "s \<in> set (pool_slots (Some p) h)"
    "ls_in_use (h_slot h s)" by (rule lease_live_cases)
  then show "0 < lease_shares p h (ext_lifecycle_ctx e)"
    using slot_in_use_refcount [OF wf] by (simp add: lease_shares_def unat_gt_0)
next
  fix h e
  assume "pool_wf p h" and "lease_live p h e" and "lease_shares p h (ext_lifecycle_ctx e) < 2 ^ 32 - 1"
  then show "\<exists>h'. run_retain (lease_lifecycle ar rl) e h = (EV_OK, h') \<and> pool_wf p h'
    \<and> lease_live p h' = lease_live p h
    \<and> lease_shares p h' = (lease_shares p h)
        (ext_lifecycle_ctx e := Suc (lease_shares p h (ext_lifecycle_ctx e)))"
    by (rule lease_retain_law)
qed (rule lease_release_law [OF _ _ refl])

text \<open>
  The books of one pool: it is well formed, every envelope that holds a share describes a slot in
  use, and each slot's counter is the number of such envelopes plus the shares \<open>others\<close> records
  (producer handles).
\<close>

definition lease_accounted :: "nat \<Rightarrow> lease_heap \<Rightarrow> ev_msg list \<Rightarrow> (ptr \<Rightarrow> nat) \<Rightarrow> bool" where
  "lease_accounted p h ms others \<longleftrightarrow> pool_wf p h
     \<and> (\<forall>m \<in> set ms. msg_holds_share m \<longrightarrow>
          lease_live p h (msg_external m) \<and> ext_size (msg_external m) = msg_payload_size m)
     \<and> (\<forall>c. lease_shares p h c
          = length (filter (\<lambda>m. msg_holds_share m \<and> ext_lifecycle_ctx (msg_external m) = c) ms) + others c)"

lemma lease_accounted_eq: "lease_accounted p h ms others \<longleftrightarrow> lp.accounted p h ms others"
  by (simp add: lease_accounted_def lp.accounted_def lp.msg_live_def lp.share_count_def)

lemma data_ptr_count_stale [simp]:
  "ev_lease_slot_data_ptr (count_stale c h) ps = ev_lease_slot_data_ptr h ps"
  "ev_lease_slot_metadata_is_valid (count_stale c h) ps = ev_lease_slot_metadata_is_valid h ps"
  by (simp_all add: ev_lease_slot_data_ptr_def ev_lease_slot_metadata_is_valid_def Let_def
      split: option.splits)

lemma lease_view_count_stale [simp]:
  "lease_shares p (count_stale c h) = lease_shares p h"
  "lease_live p (count_stale c h) = lease_live p h"
  by (auto simp: lease_live_def lease_shares_def fun_eq_iff split: option.splits)

lemma lease_accounted_count_stale [simp]:
  "lease_accounted p (count_stale c h) ms others = lease_accounted p h ms others"
  by (simp add: lease_accounted_def)

section \<open>Properties\<close>

lemma next_generation_facts: "next_generation g \<noteq> g" "next_generation g \<noteq> 0"
  by (auto simp: next_generation_def)

lemma not_live_calls:
  assumes "\<not> ev_lease_handle_is_live h (Some hn)"
  shows "ev_lease_pool_retain (Some hn) h = (EV_ERR_STATE, count_stale (hd_slot hn) h)"
    and "ev_lease_pool_release (Some hn) h = (EV_ERR_STATE, count_stale (hd_slot hn) h)"
  using assms by (simp_all add: ev_lease_pool_retain_def ev_lease_pool_release_def)

text \<open>
  A stale handle is refused, also after its slot was reused. Once the last share of a slot is
  released through a handle, that handle is dead; it stays dead when a later acquire takes the same
  slot again, because the generation moves on; and retaining or releasing it then reports
  \<open>EV_ERR_STATE\<close> and changes no slot and no payload byte.
\<close>

theorem stale_handle_refused:
  assumes wf: "pool_wf p h" and s: "hd_slot hn = Some s" "s \<in> set (pool_slots (Some p) h)"
    and live: "ev_lease_handle_is_live h (Some hn)" and last: "ls_refcount (h_slot h s) = 1"
    and rel: "ev_lease_pool_release (Some hn) h = (EV_OK, h1)"
    and acq: "ev_lease_pool_acquire (Some p) sz True True h1 = (EV_OK, out, d, h2)"
  shows "\<not> ev_lease_handle_is_live h1 (Some hn)
    \<and> \<not> ev_lease_handle_is_live h2 (Some hn)
    \<and> fst (ev_lease_pool_retain (Some hn) h2) = EV_ERR_STATE
    \<and> fst (ev_lease_pool_release (Some hn) h2) = EV_ERR_STATE
    \<and> h_slot (snd (ev_lease_pool_release (Some hn) h2)) = h_slot h2
    \<and> h_byte (snd (ev_lease_pool_release (Some hn) h2)) = h_byte h2"
proof (intro conjI)
  have hn: "hn = \<lparr>hd_slot = Some s, hd_generation = hd_generation hn\<rparr>" using s(1) by simp
  have u: "ls_in_use (h_slot h s)" and g: "hd_generation hn = ls_generation (h_slot h s)"
    using pool_slot_live [OF wf s(2), of "hd_generation hn"] live hn by simp_all
  have hn': "hn = \<lparr>hd_slot = Some s, hd_generation = ls_generation (h_slot h s)\<rparr>" using hn g by simp
  have wf1: "pool_wf p h1" and sl1: "h_slot h1 = (h_slot h)(s := after_release h s)"
    and ps1: "pool_slots (Some p) h1 = pool_slots (Some p) h"
    using release_slot [OF wf s(2) u] rel unfolding hn' by auto
  have free: "\<not> ls_in_use (h_slot h1 s)" and gen1: "ls_generation (h_slot h1 s) = hd_generation hn"
    using last g by (simp_all add: sl1 after_release_def)
  show "\<not> ev_lease_handle_is_live h1 (Some hn)"
    using pool_slot_live [OF wf1, of s "hd_generation hn"] s(2) ps1 hn free by simp
  obtain t where "pool_wf p h2" and sl2: "h_slot h2 = (h_slot h1)(t := acquired h1 t sz)"
    and ps2: "pool_slots (Some p) h2 = pool_slots (Some p) h1"
    using acquire_slot [OF wf1 acq] by blast
  have "\<not> (ls_in_use (h_slot h2 s) \<and> ls_generation (h_slot h2 s) = hd_generation hn)"
    using free gen1 next_generation_facts(1) [of "hd_generation hn"]
    by (cases "t = s") (auto simp: sl2 acquired_def)
  then show dead: "\<not> ev_lease_handle_is_live h2 (Some hn)"
    using pool_slot_live [OF \<open>pool_wf p h2\<close>, of s "hd_generation hn"] s(2) ps1 ps2 hn by simp
  show "fst (ev_lease_pool_retain (Some hn) h2) = EV_ERR_STATE"
    "fst (ev_lease_pool_release (Some hn) h2) = EV_ERR_STATE"
    "h_slot (snd (ev_lease_pool_release (Some hn) h2)) = h_slot h2"
    "h_byte (snd (ev_lease_pool_release (Some hn) h2)) = h_byte h2"
    using not_live_calls [OF dead] by simp_all
qed

text \<open>
  Acquiring a lease is exclusive. A successful acquire hands out a live handle with one share and
  the requested size over zeroed bytes; every handle of the pool that was live before names another
  slot, is still live with its size and share count, and its bytes lie apart from the new slot's.
\<close>

theorem acquire_exclusive:
  assumes wf: "pool_wf p h" and acq: "ev_lease_pool_acquire (Some p) sz True True h = (EV_OK, Some new, Some d, h')"
  shows "ev_lease_handle_is_valid h' (Some new)
    \<and> ev_lease_handle_size h' (Some new) = sz
    \<and> ev_lease_handle_refcount h' (Some new) = 1
    \<and> ev_lease_handle_data h' (Some new) = Some d
    \<and> (\<forall>i < lp_slot_size (h_pool h p). h_byte h' (d + i) = 0)
    \<and> (\<forall>old t. hd_slot old = Some t \<and> t \<in> set (pool_slots (Some p) h) \<and> ev_lease_handle_is_valid h (Some old)
      \<longrightarrow> hd_slot new \<noteq> Some t \<and> ev_lease_handle_is_valid h' (Some old)
      \<and> ev_lease_handle_size h' (Some old) = ev_lease_handle_size h (Some old)
      \<and> ev_lease_handle_refcount h' (Some old) = ev_lease_handle_refcount h (Some old)
      \<and> (\<exists>a. ev_lease_handle_data h' (Some old) = Some a
      \<and> (a + lp_slot_size (h_pool h p) \<le> d \<or> d + lp_slot_size (h_pool h p) \<le> a)))"
proof (intro conjI)
  obtain s where m: "s \<in> set (pool_slots (Some p) h)" and free: "\<not> ls_in_use (h_slot h s)"
    and new: "new = \<lparr>hd_slot = Some s, hd_generation = next_generation (ls_generation (h_slot h s))\<rparr>"
    and wf': "pool_wf p h'" and sl: "h_slot h' = (h_slot h)(s := acquired h s sz)"
    and geo: "pool_slots (Some p) h' = pool_slots (Some p) h"
      "lp_storage (h_pool h' p) = lp_storage (h_pool h p)"
      "lp_slot_size (h_pool h' p) = lp_slot_size (h_pool h p)"
    and d: "Some d = ev_lease_slot_data_ptr h' (Some s)"
    and z: "\<And>i. i < lp_slot_size (h_pool h p) \<Longrightarrow> h_byte h' (the (Some d) + i) = 0"
    by (rule acquire_slot [OF wf acq]) auto
  have m': "s \<in> set (pool_slots (Some p) h')" using m geo by simp
  have live: "ev_lease_handle_is_live h' (Some new)"
    using pool_slot_live [OF wf' m'] by (simp add: new sl acquired_def)
  then show "ev_lease_handle_is_valid h' (Some new)" "ev_lease_handle_size h' (Some new) = sz"
    "ev_lease_handle_refcount h' (Some new) = 1" "ev_lease_handle_data h' (Some new) = Some d"
    using d by (simp_all add: ev_lease_handle_is_valid_def ev_lease_handle_size_def
        ev_lease_handle_refcount_def ev_lease_handle_data_def new sl acquired_def)
  show "\<forall>i < lp_slot_size (h_pool h p). h_byte h' (d + i) = 0" using z by simp
  show "\<forall>old t. hd_slot old = Some t \<and> t \<in> set (pool_slots (Some p) h) \<and> ev_lease_handle_is_valid h (Some old)
           \<longrightarrow> hd_slot new \<noteq> Some t \<and> ev_lease_handle_is_valid h' (Some old)
               \<and> ev_lease_handle_size h' (Some old) = ev_lease_handle_size h (Some old)
               \<and> ev_lease_handle_refcount h' (Some old) = ev_lease_handle_refcount h (Some old)
               \<and> (\<exists>a. ev_lease_handle_data h' (Some old) = Some a
                      \<and> (a + lp_slot_size (h_pool h p) \<le> d \<or> d + lp_slot_size (h_pool h p) \<le> a))"
  proof (intro allI impI)
    fix old t
    assume *: "hd_slot old = Some t \<and> t \<in> set (pool_slots (Some p) h) \<and> ev_lease_handle_is_valid h (Some old)"
    then have t: "hd_slot old = Some t" "t \<in> set (pool_slots (Some p) h)" "ev_lease_handle_is_live h (Some old)"
      by (simp_all add: ev_lease_handle_is_valid_def)
    have old: "old = \<lparr>hd_slot = Some t, hd_generation = hd_generation old\<rparr>" using t(1) by simp
    have tu: "ls_in_use (h_slot h t)" "ls_generation (h_slot h t) = hd_generation old"
      using pool_slot_live [OF wf t(2), of "hd_generation old"] t(3) old by simp_all
    then have ne: "t \<noteq> s" using free by auto
    have t': "t \<in> set (pool_slots (Some p) h')" using t(2) geo by simp
    have live': "ev_lease_handle_is_live h' (Some old)"
      using pool_slot_live [OF wf' t', of "hd_generation old"] tu ne old by (simp add: sl)
    obtain base st where "lp_slots (h_pool h' p) = Some base"
      and ti: "t = base + ls_slot_index (h_slot h' t)" using pool_wf_slot [OF wf' t'] by metis
    moreover obtain base2 where "lp_slots (h_pool h' p) = Some base2"
      and si: "s = base2 + ls_slot_index (h_slot h' s)" using pool_wf_slot [OF wf' m'] by metis
    ultimately have "ls_slot_index (h_slot h' t) \<noteq> ls_slot_index (h_slot h' s)"
      using ne by auto
    then have apart: "i * z + z \<le> k * z \<or> k * z + z \<le> i * z"
      if "i = ls_slot_index (h_slot h' t)" "k = ls_slot_index (h_slot h' s)" for i k z :: nat
      using that mult_le_mono1 [of "Suc i" k z] mult_le_mono1 [of "Suc k" i z] by (simp add: add.commute) linarith
    have "\<exists>a. ev_lease_slot_data_ptr h' (Some t) = Some a
        \<and> (a + lp_slot_size (h_pool h p) \<le> d \<or> d + lp_slot_size (h_pool h p) \<le> a)"
      using d pool_slot_data_ptr [OF wf' m'] pool_slot_data_ptr [OF wf' t'] geo
        apart [OF refl refl, of "lp_slot_size (h_pool h p)"] by simp
    then show "hd_slot new \<noteq> Some t \<and> ev_lease_handle_is_valid h' (Some old)
               \<and> ev_lease_handle_size h' (Some old) = ev_lease_handle_size h (Some old)
               \<and> ev_lease_handle_refcount h' (Some old) = ev_lease_handle_refcount h (Some old)
               \<and> (\<exists>a. ev_lease_handle_data h' (Some old) = Some a
                      \<and> (a + lp_slot_size (h_pool h p) \<le> d \<or> d + lp_slot_size (h_pool h p) \<le> a))"
      using live' t ne by (simp add: ev_lease_handle_is_valid_def ev_lease_handle_size_def
          ev_lease_handle_refcount_def ev_lease_handle_data_def new sl)
  qed
qed

text \<open>Witness objects: a pool of two slots of eight bytes at address 0, and a lease taken from it.\<close>

definition demo_heap :: lease_heap where
  "demo_heap = snd (ev_lease_pool_init (Some 0) (Some 0) (Some 0) 2 8
     \<lparr>h_pool = (\<lambda>_. \<lparr>lp_slots = None, lp_storage = None, lp_slot_count = 0, lp_slot_size = 0,
                      lp_stats = zero_lease_stats\<rparr>),
      h_slot = (\<lambda>_. zero_lease_slot), h_byte = (\<lambda>_. 9)\<rparr>)"

definition demo_acquired :: lease_heap where
  "demo_acquired = snd (snd (snd (ev_lease_pool_acquire (Some 0) 5 True True demo_heap)))"

definition demo_handle :: ev_lease_handle where
  "demo_handle = \<lparr>hd_slot = Some 0, hd_generation = 1\<rparr>"

lemma demo_heap_wf: "pool_wf 0 demo_heap"
  by code_simp

lemma demo_acquire:
  "ev_lease_pool_acquire (Some 0) 5 True True demo_heap = (EV_OK, Some demo_handle, Some 0, demo_acquired)"
proof -
  have "fst (ev_lease_pool_acquire (Some 0) 5 True True demo_heap) = EV_OK
      \<and> fst (snd (ev_lease_pool_acquire (Some 0) 5 True True demo_heap)) = Some demo_handle
      \<and> fst (snd (snd (ev_lease_pool_acquire (Some 0) 5 True True demo_heap))) = Some 0"
    by code_simp
  then show ?thesis by (simp add: demo_acquired_def prod_eq_iff)
qed

lemma demo_acquired_wf: "pool_wf 0 demo_acquired"
  using acquire_slot [OF demo_heap_wf demo_acquire] by blast

theorem acquire_exclusive_witness:
  "ev_lease_handle_is_valid demo_acquired (Some demo_handle)
   \<and> ev_lease_handle_size demo_acquired (Some demo_handle) = 5
   \<and> h_byte demo_heap 16 = 9 \<and> h_byte demo_acquired (0 + 3) = 0"
proof -
  have "h_byte demo_heap 16 = 9" and "3 < lp_slot_size (h_pool demo_heap 0)" by code_simp+
  then show ?thesis using acquire_exclusive [OF demo_heap_wf demo_acquire] by blast
qed

theorem stale_handle_refused_witness:
  "ev_lease_handle_is_live demo_acquired (Some demo_handle)
   \<and> \<not> ev_lease_handle_is_live
        (snd (snd (snd (ev_lease_pool_acquire (Some 0) 3 True True
          (snd (ev_lease_pool_release (Some demo_handle) demo_acquired)))))) (Some demo_handle)"
proof -
  let ?rel = "ev_lease_pool_release (Some demo_handle) demo_acquired"
  let ?acq = "ev_lease_pool_acquire (Some 0) 3 True True (snd ?rel)"
  have rel: "?rel = (EV_OK, snd ?rel)"
    by (subst prod_eq_iff, simp, code_simp)
  have acq: "?acq = (EV_OK, fst (snd ?acq), fst (snd (snd ?acq)), snd (snd (snd ?acq)))"
    by (subst prod_eq_iff, simp, code_simp)
  have live: "ev_lease_handle_is_live demo_acquired (Some demo_handle)"
    and last: "ls_refcount (h_slot demo_acquired 0) = 1"
    and mem: "0 \<in> set (pool_slots (Some 0) demo_acquired)" and s0: "hd_slot demo_handle = Some 0"
    by code_simp+
  show ?thesis
    using live stale_handle_refused [OF demo_acquired_wf s0 mem live last rel acq] by blast
qed

section \<open>Attaching a lease to a message\<close>

lemma attach_accounted:
  assumes acc: "lp.accounted p h [m] others"
    and s: "hd_slot hn = Some s" "s \<in> set (pool_slots (Some p) h)"
    and room: "lease_shares p h (Some s) < 2 ^ 32 - 1"
    and att: "ev_lease_pool_attach_msg (lease_lifecycle ar rl) (Some m) (Some hn) h = (rc, Some m', h')"
  shows "lp.accounted p h' [m'] others"
proof (cases "ev_lease_handle_is_live h (Some hn)")
  case False
  with att have "m' = m" "h' = count_stale (hd_slot hn) h"
    by (simp_all add: ev_lease_pool_attach_msg_def)
  then show ?thesis using acc lease_accounted_count_stale by (simp add: lease_accounted_eq [symmetric])
next
  case True
  let ?lc = "lease_lifecycle ar rl"
  let ?sz = "ls_payload_size (h_slot h s)"
  have wf: "pool_wf p h" using acc by (simp add: lp.accounted_def)
  have hn: "hn = \<lparr>hd_slot = Some s, hd_generation = hd_generation hn\<rparr>" using s(1) by simp
  have u: "ls_in_use (h_slot h s)" and g: "hd_generation hn = ls_generation (h_slot h s)"
    using pool_slot_live [OF wf s(2), of "hd_generation hn"] True hn by simp_all
  have sz: "ev_lease_handle_size h (Some hn) = ?sz" and
    dt: "ev_lease_handle_data h (Some hn) = ev_lease_slot_data_ptr h (Some s)"
    using True s by (simp_all add: ev_lease_handle_size_def ev_lease_handle_data_def)
  show ?thesis
  proof (cases "?sz = 0")
    case zero: True
    then have set: "ev_msg_set_external_payload ?lc (Some m) None 0 None None (Some s) h
        = (rc, Some m', h')"
      using att True sz dt s by (auto simp: ev_lease_pool_attach_msg_def split: prod.splits if_splits)
    then show ?thesis
    proof (cases rule: ev_msg_set_external_cases)
      case 1
      then show ?thesis using acc by simp
    next
      case 2
      then have "\<not> msg_holds_share m'" by (simp add: msg_holds_share_def)
      then show ?thesis
        using 2 lp.call_release_accounted [OF acc, of ar rl] by (simp add: lp.accounted_no_share)
    qed
  next
    case False
    define e where "e = \<lparr>ext_data = ev_lease_slot_data_ptr h (Some s), ext_size = ?sz,
      ext_retain_fn = Some ev_lease_pool_retain_from_slot_fn,
      ext_release_fn = Some ev_lease_pool_release_from_slot_fn, ext_lifecycle_ctx = Some s\<rparr>"
    define n where "n = zero_msg\<lparr>msg_cookie := EV_MSG_COOKIE, msg_storage := EV_MSG_STORAGE_EXTERNAL,
      msg_payload_size := ?sz, msg_external := e\<rparr>"
    have nh: "msg_holds_share n" and ne: "msg_external n = e" and nz: "msg_payload_size n = ?sz"
      and nok: "ev_msg_has_cookie n" "\<not> ev_msg_is_disposed n"
      using False by (simp_all add: n_def msg_holds_share_def e_def zero_msg_def ev_msg_has_cookie_def
          ev_msg_is_disposed_def)
    have el: "lease_live p h e" using s(2) u by (simp add: lease_live_def e_def)
    have nl: "lp.msg_live p h n" using el nz by (simp add: lp.msg_live_def ne) (simp add: e_def)
    obtain h1 where rr: "run_retain ?lc e h = (EV_OK, h1)" and acc1: "lp.accounted p h1 (n # [m]) others"
      using lp.retain_accounted [OF acc nl nh, of ar rl] room by (auto simp: ne e_def)
    have ret: "ev_lease_pool_retain (Some hn) h = (EV_OK, h1)"
      using run_retain_live [OF wf el, of ar rl] rr hn g by (simp add: e_def)
    have accm: "lp.accounted p h1 (m # [n]) others" using acc1 by (simp add: lp.accounted_swap)
    obtain rc2 pm2 h2 where set: "ev_msg_set_external_payload ?lc (Some m)
        (ev_lease_slot_data_ptr h (Some s)) ?sz (Some ev_lease_pool_retain_from_slot_fn)
        (Some ev_lease_pool_release_from_slot_fn) (Some s) h1 = (rc2, pm2, h2)"
      by (metis prod.collapse)
    have dne: "ev_lease_slot_data_ptr h (Some s) \<noteq> None"
      using pool_slot_data_ptr [OF wf s(2)] by simp
    have res: "(rc, Some m', h') = (if rc2 \<noteq> EV_OK
        then (rc2, pm2, snd (ev_lease_pool_release (Some hn) h2)) else (EV_OK, pm2, h2))"
      using att True sz dt s False ret set dne
      by (simp add: ev_lease_pool_attach_msg_def split: if_splits)
    from set show ?thesis
    proof (cases rule: ev_msg_set_external_cases)
      case 1
      then have m': "m' = m" and h': "h' = snd (ev_lease_pool_release (Some hn) h1)"
        using res by simp_all
      have wf1: "pool_wf p h1" and el1: "lease_live p h1 e" 
        using acc1 nh by (auto simp: lp.accounted_def lp.msg_live_def ne)
      have "ls_generation (h_slot h1 s) = hd_generation hn"
      proof -
        have "h_slot h1 s = (h_slot h s)\<lparr>ls_refcount := ls_refcount (h_slot h s) + 1\<rparr>"
          using ret True s pool_slot_owner [OF wf s(2)]
          by (auto simp: ev_lease_pool_retain_def Let_def)
        then show ?thesis using g by simp
      qed
      then have "h' = run_release ?lc e h1"
        using run_release_live [OF wf1 el1, of ar rl] h' hn by (simp add: e_def)
      also have "\<dots> = call_release ?lc n h1"
        using lp.call_release_run [OF nh] by (simp add: ne nz) (simp add: e_def)
      finally show ?thesis
        using lp.call_release_accounted [OF acc1 nok, of ar rl] m' by simp
    next
      case (2 meta)
      then have m': "pm2 = Some m'" and h': "h' = h2" using res by simp_all
      have a2: "lp.accounted p h2 [n] others"
        using lp.call_release_accounted [OF accm, of ar rl] 2 by simp
      have "msg_holds_share m' = msg_holds_share n \<and> msg_external m' = e \<and> msg_payload_size m' = ?sz"
        using 2 m' False nh
        by (simp add: msg_holds_share_def e_def ev_msg_has_cookie_def ev_msg_is_disposed_def)
      then show ?thesis
        using lp.accounted_cong [OF a2, of m'] ne nz h' by simp
    qed
  qed
qed

text \<open>
  C39: Leases never leak and are never freed early. Take any books in which each slot's counter is the
  shares its envelope and its producers hold. Attaching a lease to the envelope, whether it succeeds
  or fails on any path, and disposing the envelope afterwards leave books that balance again with
  the same producers: every attached share is returned exactly once, also the share of a payload
  the envelope carried before.
\<close>

theorem attach_dispose_balanced:
  assumes "lease_accounted p h [m] others"
    and "hd_slot hn = Some s \<and> s \<in> set (pool_slots (Some p) h)"
    and "ls_refcount (h_slot h s) < 0xFFFFFFFF"
    and att: "ev_lease_pool_attach_msg (lease_lifecycle ar rl) (Some m) (Some hn) h = (rc, Some m', h')"
  shows "lease_accounted p h' [m'] others
     \<and> lease_accounted p (snd (snd (ev_msg_dispose (lease_lifecycle ar rl) (Some m') h'))) [] others"
proof -
  have "unat (ls_refcount (h_slot h s)) < 2 ^ 32 - 1"
    using assms(3) by (simp add: word_less_nat_alt)
  then have "lease_shares p h (Some s) < 2 ^ 32 - 1" using assms(2) by (simp add: lease_shares_def)
  then have a: "lp.accounted p h' [m'] others"
    using attach_accounted [OF _ _ _ _ att] assms(1,2) by (simp add: lease_accounted_eq)
  moreover obtain rc2 pm2 h2 where d: "ev_msg_dispose (lease_lifecycle ar rl) (Some m') h' = (rc2, pm2, h2)"
    by (metis prod.collapse)
  ultimately have "lp.accounted p h2 [] others" using lp.dispose_accounted [OF a d] by simp
  with a d show ?thesis by (simp add: lease_accounted_eq)
qed

definition lease_msg :: ev_msg where
  "lease_msg = zero_msg\<lparr>msg_cookie := EV_MSG_COOKIE, msg_event_id := EV_STREAM_CHUNK_READY,
     msg_source_actor := ACT_RUNTIME, msg_target_actor := ACT_APP\<rparr>"

definition app_noop_retain :: "nat \<Rightarrow> ptr \<Rightarrow> ptr \<Rightarrow> nat \<Rightarrow> lease_heap \<Rightarrow> ev_result \<times> lease_heap" where
  "app_noop_retain k ctx d n h = (EV_OK, h)"

definition app_noop_release :: "nat \<Rightarrow> ptr \<Rightarrow> ptr \<Rightarrow> nat \<Rightarrow> lease_heap \<Rightarrow> lease_heap" where
  "app_noop_release k ctx d n h = h"

theorem attach_dispose_balanced_witness:
  "\<exists>m' h'. ev_lease_pool_attach_msg (lease_lifecycle app_noop_retain app_noop_release) (Some lease_msg)
             (Some demo_handle) demo_acquired = (EV_OK, Some m', h')
     \<and> ev_lease_handle_refcount h' (Some demo_handle) = 2
     \<and> lease_accounted 0 h' [m'] (\<lambda>c. if c = Some 0 then 1 else 0)"
proof -
  let ?att = "ev_lease_pool_attach_msg (lease_lifecycle app_noop_retain app_noop_release)
                (Some lease_msg) (Some demo_handle) demo_acquired"
  let ?others = "\<lambda>c::ptr. if c = Some 0 then 1 else 0 :: nat"
  have r: "fst ?att = EV_OK" "fst (snd ?att) \<noteq> None"
    "ev_lease_handle_refcount (snd (snd ?att)) (Some demo_handle) = 2"
    by code_simp+
  then obtain m' h' where att: "?att = (EV_OK, Some m', h')"
    by (cases ?att) auto
  have slots: "pool_slots (Some 0) demo_acquired = [0, 1]"
    "unat (ls_refcount (h_slot demo_acquired 0)) = 1" "unat (ls_refcount (h_slot demo_acquired 1)) = 0"
    by code_simp+
  have "\<not> msg_holds_share lease_msg" by code_simp
  moreover have "lease_shares 0 demo_acquired c = ?others c" for c
    using slots by (auto simp: lease_shares_def split: option.splits)
  ultimately have acc: "lease_accounted 0 demo_acquired [lease_msg] ?others"
    using demo_acquired_wf by (simp add: lease_accounted_def)
  have "ls_refcount (h_slot demo_acquired 0) < 0xFFFFFFFF" by code_simp
  then show ?thesis
    using attach_dispose_balanced [OF acc _ _ att] slots(1) att r(3) by (auto simp: demo_handle_def)
qed

end
