(* ===== verification/EvQueuedLeases.thy ===== *)
theory EvQueuedLeases
  imports EvMailbox EvLeasePool
begin

text \<open>
  Leased payloads inside mailboxes: the lease pool (\<open>core/src/ev_lease_pool.c\<close>) as the payload owner
  of the messages a mailbox (\<open>core/src/ev_mailbox.c\<close>) queues. The mailbox lemmas about an abstract
  payload owner, taken at the pool's interpretation, show that queueing never leaks a lease slot and
  never frees one that a queued message still refers to.
\<close>

interpretation lq: leased_mailbox "lease_lifecycle ar rl" "pool_wf p" "lease_live p" "lease_shares p"
    "2 ^ 32 - 1" for ar rl p
  by (intro leased_mailbox.intro lp.payload_owner_axioms)

text \<open>
  C9: Queueing keeps the lease books. Take any books in which each slot's counter is the number of
  envelopes that hold a share, the caller's message \<open>m\<close> and the queued messages among them. A QoS
  delivery of \<open>m\<close>, whatever its outcome (stored, refused, coalesced, replacing or evicting queued
  messages), leaves books that balance with the new queue contents; so do the pop that hands the
  oldest message to the consumer and the reset that disposes everything still queued.
\<close>

theorem queued_leases_accounted:
  assumes wf: "mailbox_wf mb"
    and acc: "lease_accounted p h (m # mailbox_contents mb @ ms) others"
    and room: "lease_shares p h (ext_lifecycle_ctx (msg_external m)) < 2 ^ 32 - 1"
    and push: "mailbox_push_qos (lease_lifecycle ar rl) mb m qos h = (rc, rep, mb', h')"
    and pop: "mailbox_pop mb' = (rc2, out, mb2)"
    and reset: "ev_mailbox_reset (lease_lifecycle ar rl) (Some mb2) h' = (rc3, pmb3, h3)"
  shows "lease_accounted p h' (m # mailbox_contents mb' @ ms) others
     \<and> lease_accounted p h' (m # (case out of None \<Rightarrow> [] | Some x \<Rightarrow> [x]) @ mailbox_contents mb2 @ ms) others
     \<and> lease_accounted p h3 (m # (case out of None \<Rightarrow> [] | Some x \<Rightarrow> [x]) @ ms) others"
proof (intro conjI)
  have a1: "lp.accounted p h' (m # mailbox_contents mb' @ ms) others"
    using lq.mailbox_push_qos_accounted [OF wf _ _ push] acc room by (simp add: lease_accounted_eq)
  then show "lease_accounted p h' (m # mailbox_contents mb' @ ms) others" by (simp add: lease_accounted_eq)
  have wf1: "mailbox_wf mb'" using mailbox_push_qos_refines [OF wf push] by simp
  note P = mailbox_pop_refines [OF wf1 pop]
  let ?out = "case out of None \<Rightarrow> [] | Some x \<Rightarrow> [x]"
  have a2: "lp.accounted p h' (m # ?out @ mailbox_contents mb2 @ ms) others"
    using a1 unfolding P(3) by simp
  then show "lease_accounted p h' (m # ?out @ mailbox_contents mb2 @ ms) others"
    by (simp add: lease_accounted_eq)
  have "mset (m # ?out @ mailbox_contents mb2 @ ms) = mset (mailbox_contents mb2 @ m # ?out @ ms)" by simp
  then have a3: "lp.accounted p h' (mailbox_contents mb2 @ m # ?out @ ms) others"
    using a2 lp.accounted_mset by blast
  obtain mb3 where "ev_mailbox_reset (lease_lifecycle ar rl) (Some mb2) h'
      = (EV_OK, Some mb3, fold (dispose_world (lease_lifecycle ar rl)) (mb_slots mb2) h')"
    using ev_mailbox_reset_eq [OF P(1), of "lease_lifecycle ar rl" h'] by blast
  then have "h3 = fold (dispose_world (lease_lifecycle ar rl)) (mb_slots mb2) h'" using reset by simp
  then show "lease_accounted p h3 (m # ?out @ ms) others"
    using lq.mailbox_reset_accounted [OF P(1) a3, of ar rl] by (simp add: lease_accounted_eq)
qed

text \<open>Witness objects: the demo lease attached to a message, and an empty FIFO mailbox.\<close>

definition demo_attach :: "ev_result \<times> ev_msg option \<times> lease_heap" where
  "demo_attach = ev_lease_pool_attach_msg (lease_lifecycle app_noop_retain app_noop_release)
     (Some lease_msg) (Some demo_handle) demo_acquired"

definition demo_leased_msg :: ev_msg where
  "demo_leased_msg = the (fst (snd demo_attach))"

definition demo_leased_heap :: lease_heap where
  "demo_leased_heap = snd (snd demo_attach)"

theorem queued_leases_accounted_witness:
  "\<exists>rep mb' h'. mailbox_push_qos (lease_lifecycle app_noop_retain app_noop_release) demo_fifo
        demo_leased_msg EV_ROUTE_QOS_CRITICAL demo_leased_heap = (EV_OK, rep, mb', h')
     \<and> ev_lease_handle_refcount h' (Some demo_handle) = 3
     \<and> lease_accounted 0 h' (demo_leased_msg # mailbox_contents mb' @ []) (\<lambda>c. if c = Some 0 then 1 else 0)"
proof -
  let ?lc = "lease_lifecycle app_noop_retain app_noop_release"
  let ?push = "mailbox_push_qos ?lc demo_fifo demo_leased_msg EV_ROUTE_QOS_CRITICAL demo_leased_heap"
  let ?others = "\<lambda>c::ptr. if c = Some 0 then 1 else 0 :: nat"
  have wf: "mailbox_wf demo_fifo" and empty: "mailbox_contents demo_fifo = []"
    and att: "fst demo_attach = EV_OK" "fst (snd demo_attach) \<noteq> None"
    and wfp: "pool_wf 0 demo_leased_heap"
    and share: "msg_holds_share demo_leased_msg" "lease_live 0 demo_leased_heap (msg_external demo_leased_msg)"
      "ext_size (msg_external demo_leased_msg) = msg_payload_size demo_leased_msg"
      "ext_lifecycle_ctx (msg_external demo_leased_msg) = Some 0"
    and slots: "pool_slots (Some 0) demo_leased_heap = [0, 1]"
      "unat (ls_refcount (h_slot demo_leased_heap 0)) = 2"
      "unat (ls_refcount (h_slot demo_leased_heap 1)) = 0"
    and res: "fst ?push = EV_OK" "ev_lease_handle_refcount (snd (snd (snd ?push))) (Some demo_handle) = 3"
    by code_simp+
  have shares: "lease_shares 0 demo_leased_heap c = (if c = Some 0 then 1 else 0) + ?others c" for c
    using slots by (auto simp: lease_shares_def split: option.splits)
  then have acc: "lease_accounted 0 demo_leased_heap (demo_leased_msg # mailbox_contents demo_fifo @ []) ?others"
    using wfp share by (simp add: lease_accounted_def empty)
  have room: "lease_shares 0 demo_leased_heap (ext_lifecycle_ctx (msg_external demo_leased_msg)) < 2 ^ 32 - 1"
    using shares share by simp
  obtain rep mb' h' where push: "?push = (EV_OK, rep, mb', h')"
    using res(1) by (cases ?push) auto
  obtain rc2 out mb2 where pop: "mailbox_pop mb' = (rc2, out, mb2)" by (metis prod.collapse)
  obtain rc3 pmb3 h3 where reset: "ev_mailbox_reset ?lc (Some mb2) h' = (rc3, pmb3, h3)"
    by (metis prod.collapse)
  show ?thesis
    using queued_leases_accounted [OF wf acc room push pop reset] push res(2) by auto
qed

end
