(* ===== verification/EvSeqRing.thy ===== *)
theory EvSeqRing
  imports EvQueueSpec
begin

text \<open>
  Rings addressed by free-running 32-bit sequence numbers, as the ingress service and the network
  outbox keep them: the slot of a sequence number is the number masked by the capacity, the pending
  count is the wrapped difference of the write and the read number. Because the capacity divides
  \<open>2 ^ 32\<close>, neither is disturbed when a sequence number wraps around.
\<close>

definition seq_view :: "'a list \<Rightarrow> u32 \<Rightarrow> u32 \<Rightarrow> 'a list" where
  "seq_view xs r w = ring_view xs (unat r) (unat (w - r))"

lemma length_seq_view [simp]: "length (seq_view xs r w) = unat (w - r)"
  by (simp add: seq_view_def)

lemma u32_add_mod: "n dvd 2 ^ 32 \<Longrightarrow> unat ((a::u32) + b) mod n = (unat a + unat b) mod n"
  by (simp add: unat_word_ariths mod_mod_cancel)

lemma seq_pending_push:
  assumes "unat ((w::u32) - r) < n" and "n < 2 ^ 32"
  shows "unat (w + 1 - r) = Suc (unat (w - r))"
proof -
  have "w + 1 - r = (w - r) + 1" by simp
  moreover have "unat (w - r) + unat (1::u32) < 2 ^ LENGTH(32)" using assms by simp
  ultimately show ?thesis by (simp only: unat_add_lem [THEN iffD1]) simp
qed

lemma seq_pending_pop:
  assumes "(w::u32) \<noteq> r"
  shows "Suc (unat (w - (r + 1))) = unat (w - r)"
proof -
  have d: "w - r \<noteq> 0" using assms by simp
  then have pos: "0 < unat (w - r)" by (metis neq0_conv unat_eq_0)
  have "w - (r + 1) = (w - r) - 1" by simp
  then have "unat (w - (r + 1)) = unat (w - r) - 1" using unat_minus_one [OF d] by (simp only:)
  then show ?thesis using pos by simp
qed

lemma seq_tail_index:
  assumes "n dvd 2 ^ 32"
  shows "unat (w::u32) mod n = (unat r + unat (w - r)) mod n"
  using u32_add_mod [OF assms, of r "w - r"] by simp

text \<open>Storing at the write number appends; advancing the read number removes the oldest.\<close>

lemma seq_view_push:
  assumes n: "length xs dvd 2 ^ 32" "length xs < 2 ^ 32" and room: "unat (w - r) < length xs"
  shows "seq_view (xs[unat w mod length xs := x]) r (w + 1) = seq_view xs r w @ [x]"
proof -
  have "seq_view (xs[unat w mod length xs := x]) r (w + 1)
      = ring_view (xs[(unat r + unat (w - r)) mod length xs := x]) (unat r) (Suc (unat (w - r)))"
    unfolding seq_view_def seq_pending_push [OF room n(2)] seq_tail_index [OF n(1), of w r] ..
  then show ?thesis unfolding seq_view_def using ring_view_store_tail [OF room] by metis
qed

lemma seq_view_pop:
  assumes n: "length xs dvd 2 ^ 32" and ne: "w \<noteq> r"
  shows "seq_view xs r w = xs ! (unat r mod length xs) # seq_view xs (r + 1) w"
proof -
  have "unat (r + 1) mod length xs = Suc (unat r) mod length xs"
    using u32_add_mod [OF n, of r 1] by simp
  then have "ring_view xs (unat (r + 1)) c = ring_view xs (Suc (unat r)) c" for c
    using ring_view_mod [of xs "unat (r + 1)" c] ring_view_mod [of xs "Suc (unat r)" c] by simp
  then show ?thesis
    using seq_pending_pop [OF ne] ring_view_Suc [of xs "unat r" "unat (w - (r + 1))"]
    by (simp add: seq_view_def)
qed

lemma seq_view_empty_iff: "seq_view xs r w = [] \<longleftrightarrow> w = r"
proof -
  have "seq_view xs r w = [] \<longleftrightarrow> unat (w - r) = 0"
    by (simp only: length_seq_view [of xs r w, symmetric] length_0_conv)
  then show ?thesis by (simp add: unat_eq_0)
qed

end
