(* ===== verification/EvIngress.thy ===== *)
theory EvIngress
  imports EvSeqRing EvMsg
begin

text \<open>
  The ingress ring between interrupt-side producers and the node (\<open>runtime/src/ev_ingress_service.c\<close>,
  \<open>runtime/include/ev/ingress_service.h\<close>): sixteen messages addressed by free-running sequence numbers.
\<close>

abbreviation EV_INGRESS_CAPACITY :: nat where "EV_INGRESS_CAPACITY \<equiv> 16"
abbreviation EV_INGRESS_MASK :: u32 where "EV_INGRESS_MASK \<equiv> 15"

record ev_ingress_service =
  ig_queue :: "ev_msg list"
  ig_write_seq :: u32
  ig_read_seq :: u32
  ig_high_water :: u32
  ig_pushed :: u32
  ig_dropped :: u32

definition ev_ingress_pending_u32 :: "ev_ingress_service option \<Rightarrow> u32" where
  "ev_ingress_pending_u32 ingress =
     (case ingress of None \<Rightarrow> 0 | Some q \<Rightarrow> ig_write_seq q - ig_read_seq q)"

definition zero_ingress :: ev_ingress_service where
  "zero_ingress = \<lparr>ig_queue = replicate EV_INGRESS_CAPACITY zero_msg, ig_write_seq = 0, ig_read_seq = 0,
     ig_high_water = 0, ig_pushed = 0, ig_dropped = 0\<rparr>"

definition ev_ingress_service_init :: "ev_ingress_service option \<Rightarrow> ev_ingress_service option" where
  "ev_ingress_service_init ingress =
     map_option (\<lambda>_. zero_ingress) ingress"

definition ev_ingress_push ::
    "ev_ingress_service option \<Rightarrow> ev_msg option \<Rightarrow> ev_result \<times> ev_ingress_service option" where
  "ev_ingress_push ingress pm =
     (case (ingress, pm) of
        (Some q, Some m) \<Rightarrow>
          let pending = ev_ingress_pending_u32 (Some q)
          in if of_nat EV_INGRESS_CAPACITY \<le> pending
             then (EV_ERR_FULL, Some (q\<lparr>ig_dropped := ig_dropped q + 1\<rparr>))
             else
               let index = ig_write_seq q AND EV_INGRESS_MASK;
                   q1 = q\<lparr>ig_queue := (ig_queue q)[unat index := m], ig_write_seq := ig_write_seq q + 1,
                          ig_pushed := ig_pushed q + 1\<rparr>;
                   pending = pending + 1
               in (EV_OK, Some (if ig_high_water q1 < pending then q1\<lparr>ig_high_water := pending\<rparr> else q1))
      | _ \<Rightarrow> (EV_ERR_INVALID_ARG, ingress))"

text \<open>The flag says whether the caller passed an output buffer; what is written there is the second result.\<close>

definition ev_ingress_pop ::
    "ev_ingress_service option \<Rightarrow> bool \<Rightarrow> ev_result \<times> ev_msg option \<times> ev_ingress_service option" where
  "ev_ingress_pop ingress out =
     (if ingress = None \<or> \<not> out then (EV_ERR_INVALID_ARG, None, ingress)
      else if ev_ingress_pending_u32 ingress = 0 then (EV_ERR_EMPTY, None, ingress)
      else
        let q = the ingress; index = ig_read_seq q AND EV_INGRESS_MASK
        in (EV_OK, Some (ig_queue q ! unat index), Some (q\<lparr>ig_read_seq := ig_read_seq q + 1\<rparr>)))"

definition ev_ingress_pending :: "ev_ingress_service option \<Rightarrow> nat" where
  "ev_ingress_pending ingress = unat (ev_ingress_pending_u32 ingress)"

section \<open>The ring is a bounded queue\<close>

definition ingress_wf :: "ev_ingress_service \<Rightarrow> bool" where
  "ingress_wf q \<longleftrightarrow> length (ig_queue q) = EV_INGRESS_CAPACITY
     \<and> unat (ig_write_seq q - ig_read_seq q) \<le> EV_INGRESS_CAPACITY"

definition ingress_contents :: "ev_ingress_service \<Rightarrow> ev_msg list" where
  "ingress_contents q = seq_view (ig_queue q) (ig_read_seq q) (ig_write_seq q)"

definition ingress_enq :: "ev_ingress_service \<Rightarrow> ev_msg \<Rightarrow> bool \<times> ev_ingress_service" where
  "ingress_enq q m = (let (rc, q') = ev_ingress_push (Some q) (Some m) in (rc = EV_OK, the q'))"

definition ingress_deq :: "ev_ingress_service \<Rightarrow> ev_msg option \<times> ev_ingress_service" where
  "ingress_deq q = (let (rc, out, q') = ev_ingress_pop (Some q) True in (out, the q'))"

lemma ingress_init_wf: "ev_ingress_service_init (Some q0) = Some q \<Longrightarrow> ingress_wf q \<and> ingress_contents q = []"
  by (auto simp: ev_ingress_service_init_def zero_ingress_def ingress_wf_def ingress_contents_def seq_view_empty_iff)

lemma ingress_pending_length: "ev_ingress_pending (Some q) = length (ingress_contents q)"
  by (simp add: ev_ingress_pending_def ev_ingress_pending_u32_def ingress_contents_def)

lemma ingress_push_cases:
  assumes "ingress_wf q" and "ev_ingress_push (Some q) (Some m) = (rc, q')"
  shows "\<exists>q1. q' = Some q1 \<and> ingress_wf q1 \<and>
     (if length (ingress_contents q) = EV_INGRESS_CAPACITY
      then rc = EV_ERR_FULL \<and> ingress_contents q1 = ingress_contents q \<and> ig_dropped q1 = ig_dropped q + 1
      else rc = EV_OK \<and> ingress_contents q1 = ingress_contents q @ [m] \<and> ig_pushed q1 = ig_pushed q + 1)"
proof -
  let ?p = "ig_write_seq q - ig_read_seq q"
  have len: "length (ig_queue q) = 16" and le: "unat ?p \<le> 16" using assms(1) by (simp_all add: ingress_wf_def)
  have full: "(of_nat EV_INGRESS_CAPACITY \<le> ?p) = (unat ?p = 16)"
    using le by (simp add: word_le_nat_alt)
  show ?thesis
  proof (cases "unat ?p = 16")
    case True
    then show ?thesis
      using assms full by (auto simp: ev_ingress_push_def ev_ingress_pending_u32_def Let_def ingress_contents_def
          ingress_wf_def)
  next
    case False
    then have room: "unat ?p < 16" using le by simp
    have view: "seq_view ((ig_queue q)[unat (ig_write_seq q AND EV_INGRESS_MASK) := m]) (ig_read_seq q)
        (ig_write_seq q + 1) = ingress_contents q @ [m]"
      using seq_view_push [of "ig_queue q" "ig_write_seq q" "ig_read_seq q" m] room
      by (simp add: len u32_and_mask_unat ingress_contents_def)
    have "unat (ig_write_seq q + 1 - ig_read_seq q) \<le> 16"
      using seq_pending_push [OF room] room by simp
    then show ?thesis
      using assms full False view len
      by (auto simp: ev_ingress_push_def ev_ingress_pending_u32_def Let_def ingress_contents_def ingress_wf_def)
  qed
qed

lemma ingress_pop_cases:
  assumes "ingress_wf q" and "ev_ingress_pop (Some q) True = (rc, out, q')"
  shows "\<exists>q1. q' = Some q1 \<and> ingress_wf q1 \<and>
     (case ingress_contents q of
        [] \<Rightarrow> rc = EV_ERR_EMPTY \<and> out = None \<and> q1 = q
      | m # ms \<Rightarrow> rc = EV_OK \<and> out = Some m \<and> ingress_contents q1 = ms)"
proof (cases "ig_write_seq q = ig_read_seq q")
  case True
  then show ?thesis
    using assms seq_view_empty_iff [of "ig_queue q" "ig_read_seq q" "ig_write_seq q"]
    by (auto simp: ev_ingress_pop_def ev_ingress_pending_u32_def ingress_contents_def)
next
  case False
  have len: "length (ig_queue q) = 16" using assms(1) by (simp add: ingress_wf_def)
  have "ig_write_seq q - ig_read_seq q \<noteq> 0" using False by simp
  moreover have "Suc (unat (ig_write_seq q - (ig_read_seq q + 1))) = unat (ig_write_seq q - ig_read_seq q)"
    by (rule seq_pending_pop [OF False])
  ultimately show ?thesis
    using assms seq_view_pop [of "ig_queue q" "ig_write_seq q" "ig_read_seq q"] False len
    by (auto simp: ev_ingress_pop_def ev_ingress_pending_u32_def ingress_contents_def ingress_wf_def Let_def
        u32_and_mask_unat)
qed

interpretation ingress: bounded_fifo ingress_deq ingress_contents ingress_wf EV_INGRESS_CAPACITY ingress_enq
proof unfold_locales
  fix q r q'
  assume inv: "ingress_wf q" and d: "ingress_deq q = (r, q')"
  obtain rc out q1 where p: "ev_ingress_pop (Some q) True = (rc, out, q1)" by (rule prod_cases3)
  note P = ingress_pop_cases [OF inv p]
  have eq: "r = out" "q' = the q1" using d p by (simp_all add: ingress_deq_def)
  show "ingress_wf q'" using P eq by auto
  show "r = None \<and> ingress_contents q' = []" if "ingress_contents q = []" using P eq that by auto
  show "r = Some x \<and> ingress_contents q' = xs" if "ingress_contents q = x # xs" for x xs
    using P eq that by auto
next
  fix q x ok q'
  assume inv: "ingress_wf q"
  obtain rc q1 where p: "ev_ingress_push (Some q) (Some x) = (rc, q1)" by (rule prod.exhaust)
  note P = ingress_push_cases [OF inv p]
  show "ingress_wf q'" if "ingress_enq q x = (ok, q')" using P that p by (auto simp: ingress_enq_def)
  show "ingress_contents q' = ingress_contents q @ [x]" if "ingress_enq q x = (True, q')"
    using P that p by (auto simp: ingress_enq_def split: if_splits)
  show "ingress_contents q' = ingress_contents q" if "ingress_enq q x = (False, q')"
    using P that p by (auto simp: ingress_enq_def split: if_splits)
qed (simp add: ingress_wf_def ingress_contents_def)

text \<open>
  C36: The ingress ring delivers in order across sequence wrap-around. Over any interleaving of pushes and
  pops, what was popped followed by what is pending is what was pending at the start followed by the
  accepted messages, wherever the 32-bit sequence numbers stand and also when they wrap; the ring
  never holds more than sixteen messages.
\<close>

theorem ingress_order:
  assumes "ingress_wf q" and "queue_run ingress_enq ingress_deq ops q = (outs, accs, q')"
  shows "outs @ ingress_contents q' = ingress_contents q @ accs \<and> ingress_wf q'
     \<and> ev_ingress_pending (Some q') \<le> EV_INGRESS_CAPACITY"
  using ingress.run_order [OF assms] ingress.bounded [of q'] by (simp add: ingress_pending_length)

text \<open>A ring whose write number is about to wrap.\<close>

definition demo_ingress :: ev_ingress_service where
  "demo_ingress = \<lparr>ig_queue = replicate 16 zero_msg, ig_write_seq = 0xFFFFFFFF, ig_read_seq = 0xFFFFFFFF,
     ig_high_water = 0, ig_pushed = 0, ig_dropped = 0\<rparr>"

theorem ingress_order_witness:
  "\<exists>q'. queue_run ingress_enq ingress_deq [Enq tick_msg, Enq zero_msg, Deq] demo_ingress
       = ([tick_msg], [tick_msg, zero_msg], q')
     \<and> ingress_contents q' = [zero_msg] \<and> ig_write_seq q' = 1"
proof -
  let ?run = "queue_run ingress_enq ingress_deq [Enq tick_msg, Enq zero_msg, Deq] demo_ingress"
  obtain outs accs q' where run: "?run = (outs, accs, q')" by (rule prod_cases3)
  have wf: "ingress_wf demo_ingress" by code_simp
  have e: "ingress_contents demo_ingress = []"
    by (simp add: demo_ingress_def ingress_contents_def seq_view_empty_iff)
  have "fst ?run = [tick_msg]" "fst (snd ?run) = [tick_msg, zero_msg]" "ig_write_seq (snd (snd ?run)) = 1"
    by code_simp+
  then have r: "outs = [tick_msg]" "accs = [tick_msg, zero_msg]" "ig_write_seq q' = 1"
    unfolding run by simp_all
  from ingress_order [OF wf run] show ?thesis using run e r by simp
qed

end
