(* ===== verification/EvNetworkOutbox.thy ===== *)
theory EvNetworkOutbox
  imports EvSeqRing
begin

text \<open>
  The outbox of outgoing network messages (\<open>runtime/src/ev_network_outbox.c\<close>,
  \<open>runtime/include/ev/network_outbox.h\<close>): a ring of eight items with per-category back-pressure limits. A
  category is a C enumeration the code range-checks and indexes arrays with, so it is an integer.
\<close>

abbreviation EV_NETWORK_OUTBOX_CAPACITY :: nat where "EV_NETWORK_OUTBOX_CAPACITY \<equiv> 8"
abbreviation EV_NETWORK_OUTBOX_MASK :: u32 where "EV_NETWORK_OUTBOX_MASK \<equiv> 7"
abbreviation EV_NETWORK_PAYLOAD_BYTES :: nat where "EV_NETWORK_PAYLOAD_BYTES \<equiv> 64"

type_synonym ev_network_msg_category = int

abbreviation EV_NETWORK_MSG_TELEMETRY_LATEST :: int where "EV_NETWORK_MSG_TELEMETRY_LATEST \<equiv> 0"
abbreviation EV_NETWORK_MSG_TELEMETRY_PERIODIC :: int where "EV_NETWORK_MSG_TELEMETRY_PERIODIC \<equiv> 1"
abbreviation EV_NETWORK_MSG_COMMAND_RESPONSE :: int where "EV_NETWORK_MSG_COMMAND_RESPONSE \<equiv> 2"
abbreviation EV_NETWORK_MSG_FAULT_CRITICAL :: int where "EV_NETWORK_MSG_FAULT_CRITICAL \<equiv> 3"
abbreviation EV_NETWORK_MSG_CATEGORY_COUNT :: nat where "EV_NETWORK_MSG_CATEGORY_COUNT \<equiv> 4"

record ev_network_backpressure_policy =
  np_category_limit :: "nat list"
  np_drop_oldest :: "u8 list"

record ev_network_outbox_item =
  ni_category :: ev_network_msg_category
  ni_size :: u16
  ni_payload :: "u8 list"

record ev_network_outbox =
  no_items :: "ev_network_outbox_item list"
  no_write_seq :: u32
  no_read_seq :: u32
  no_high_water :: u32
  no_queued_by_category :: "nat list"
  no_accepted :: u32
  no_rejected :: u32
  no_dropped :: u32

record ev_network_outbox_stats =
  ns_pending :: nat
  ns_high_water :: u32
  ns_accepted :: u32
  ns_rejected :: u32
  ns_dropped :: u32
  ns_queued_by_category :: "nat list"

section \<open>Operations\<close>

definition zero_item :: ev_network_outbox_item where
  "zero_item = \<lparr>ni_category = 0, ni_size = 0, ni_payload = replicate EV_NETWORK_PAYLOAD_BYTES 0\<rparr>"

definition zero_outbox :: ev_network_outbox where
  "zero_outbox = \<lparr>no_items = replicate EV_NETWORK_OUTBOX_CAPACITY zero_item, no_write_seq = 0, no_read_seq = 0,
     no_high_water = 0, no_queued_by_category = replicate EV_NETWORK_MSG_CATEGORY_COUNT 0,
     no_accepted = 0, no_rejected = 0, no_dropped = 0\<rparr>"

definition ev_network_outbox_init :: "ev_network_outbox option \<Rightarrow> ev_network_outbox option" where
  "ev_network_outbox_init outbox = map_option (\<lambda>_. zero_outbox) outbox"

definition ev_network_category_valid :: "ev_network_msg_category \<Rightarrow> bool" where
  "ev_network_category_valid category \<longleftrightarrow> 0 \<le> category \<and> nat category < EV_NETWORK_MSG_CATEGORY_COUNT"

definition ev_network_pending_u32 :: "ev_network_outbox option \<Rightarrow> u32" where
  "ev_network_pending_u32 outbox =
     (case outbox of None \<Rightarrow> 0 | Some q \<Rightarrow> no_write_seq q - no_read_seq q)"

definition ev_network_outbox_pending :: "ev_network_outbox option \<Rightarrow> nat" where
  "ev_network_outbox_pending outbox = unat (ev_network_pending_u32 outbox)"

text \<open>
  \<open>memcpy\<close> writes the first \<open>size\<close> bytes and leaves the rest of the slot as it was; without a payload
  pointer the whole slot stays as it was.
\<close>

definition ev_network_copy_payload ::
    "ev_network_outbox_item \<Rightarrow> u8 list option \<Rightarrow> nat \<Rightarrow> ev_network_outbox_item" where
  "ev_network_copy_payload item payload sz =
     (let n = (if EV_NETWORK_PAYLOAD_BYTES < sz then EV_NETWORK_PAYLOAD_BYTES else sz);
          item1 = item\<lparr>ni_size := of_nat n\<rparr>
      in case payload of
           None \<Rightarrow> item1
         | Some bytes \<Rightarrow> if 0 < ni_size item1
             then item1\<lparr>ni_payload := take n bytes @ drop n (ni_payload item1)\<rparr> else item1)"

text \<open>The category counter of a removed item goes down where the category is known and counted.\<close>

definition uncount :: "ev_network_msg_category \<Rightarrow> ev_network_outbox \<Rightarrow> ev_network_outbox" where
  "uncount category q =
     (if ev_network_category_valid category \<and> 0 < no_queued_by_category q ! nat category
      then q\<lparr>no_queued_by_category := (no_queued_by_category q)
               [nat category := no_queued_by_category q ! nat category - 1]\<rparr>
      else q)"

definition ev_network_drop_head :: "ev_network_outbox \<Rightarrow> ev_network_outbox" where
  "ev_network_drop_head q =
     (let index = no_read_seq q AND EV_NETWORK_OUTBOX_MASK;
          category = ni_category (no_items q ! unat index);
          q1 = uncount category q
      in q1\<lparr>no_read_seq := no_read_seq q1 + 1, no_dropped := no_dropped q1 + 1\<rparr>)"

definition outbox_store ::
    "ev_network_outbox \<Rightarrow> u32 \<Rightarrow> ev_network_msg_category \<Rightarrow> u8 list option \<Rightarrow> nat \<Rightarrow> ev_result \<times> ev_network_outbox" where
  "outbox_store q pending category payload sz =
     (if of_nat EV_NETWORK_OUTBOX_CAPACITY \<le> pending
      then (EV_ERR_FULL, q\<lparr>no_rejected := no_rejected q + 1\<rparr>)
      else
        let index = unat (no_write_seq q AND EV_NETWORK_OUTBOX_MASK);
            item = ev_network_copy_payload ((no_items q ! index)\<lparr>ni_category := category\<rparr>) payload sz;
            q1 = q\<lparr>no_items := (no_items q)[index := item], no_write_seq := no_write_seq q + 1,
                   no_queued_by_category := (no_queued_by_category q)
                     [nat category := no_queued_by_category q ! nat category + 1],
                   no_accepted := no_accepted q + 1\<rparr>;
            pending = pending + 1
        in (EV_OK, if no_high_water q1 < pending then q1\<lparr>no_high_water := pending\<rparr> else q1))"

definition ev_network_outbox_push ::
    "ev_network_outbox option \<Rightarrow> ev_network_backpressure_policy option \<Rightarrow> ev_network_msg_category
       \<Rightarrow> u8 list option \<Rightarrow> nat \<Rightarrow> ev_result \<times> ev_network_outbox option" where
  "ev_network_outbox_push outbox policy category payload sz =
     (if outbox = None \<or> policy = None \<or> \<not> ev_network_category_valid category
      then (EV_ERR_INVALID_ARG, outbox)
      else
        let q = the outbox; p = the policy; c = nat category;
            pending = ev_network_pending_u32 outbox;
            limit = np_category_limit p ! c
        in if limit \<noteq> 0 \<and> limit \<le> no_queued_by_category q ! c
           then if np_drop_oldest p ! c \<noteq> 0 \<and> 0 < pending
                then (let (rc, q') = outbox_store (ev_network_drop_head q) (pending - 1) category payload sz
                      in (rc, Some q'))
                else (EV_ERR_FULL, Some (q\<lparr>no_rejected := no_rejected q + 1\<rparr>))
           else (let (rc, q') = outbox_store q pending category payload sz in (rc, Some q')))"

definition ev_network_outbox_pop ::
    "ev_network_outbox option \<Rightarrow> bool \<Rightarrow> ev_result \<times> ev_network_outbox_item option \<times> ev_network_outbox option" where
  "ev_network_outbox_pop outbox out_item =
     (if outbox = None \<or> \<not> out_item then (EV_ERR_INVALID_ARG, None, outbox)
      else if ev_network_pending_u32 outbox = 0 then (EV_ERR_EMPTY, None, outbox)
      else
        let q = the outbox;
            item = no_items q ! unat (no_read_seq q AND EV_NETWORK_OUTBOX_MASK);
            q1 = uncount (ni_category item) q
        in (EV_OK, Some item, Some (q1\<lparr>no_read_seq := no_read_seq q1 + 1\<rparr>)))"

definition ev_network_outbox_stats_of ::
    "ev_network_outbox option \<Rightarrow> bool \<Rightarrow> ev_result \<times> ev_network_outbox_stats option" where
  "ev_network_outbox_stats_of outbox out_stats =
     (case outbox of
        Some q \<Rightarrow> if out_stats
          then (EV_OK, Some \<lparr>ns_pending = ev_network_outbox_pending outbox, ns_high_water = no_high_water q,
                  ns_accepted = no_accepted q, ns_rejected = no_rejected q, ns_dropped = no_dropped q,
                  ns_queued_by_category = no_queued_by_category q\<rparr>)
          else (EV_ERR_INVALID_ARG, None)
      | None \<Rightarrow> (EV_ERR_INVALID_ARG, None))"

section \<open>The outbox as a queue of categorised messages\<close>

text \<open>What a consumer reads of an item: its category and the bytes its size covers.\<close>

definition item_view :: "ev_network_outbox_item \<Rightarrow> ev_network_msg_category \<times> u8 list" where
  "item_view item = (ni_category item, take (unat (ni_size item)) (ni_payload item))"

definition outbox_contents :: "ev_network_outbox \<Rightarrow> (ev_network_msg_category \<times> u8 list) list" where
  "outbox_contents q = map item_view (seq_view (no_items q) (no_read_seq q) (no_write_seq q))"

definition category_count :: "ev_network_msg_category \<Rightarrow> (ev_network_msg_category \<times> u8 list) list \<Rightarrow> nat" where
  "category_count c xs = length (filter (\<lambda>x. fst x = c) xs)"

lemma category_count_simps [simp]:
  "category_count c [] = 0"
  "category_count c (x # xs) = (if fst x = c then Suc (category_count c xs) else category_count c xs)"
  "category_count c (xs @ ys) = category_count c xs + category_count c ys"
  by (simp_all add: category_count_def)

definition outbox_wf :: "ev_network_outbox \<Rightarrow> bool" where
  "outbox_wf q \<longleftrightarrow> length (no_items q) = EV_NETWORK_OUTBOX_CAPACITY
     \<and> (\<forall>item \<in> set (no_items q). length (ni_payload item) = EV_NETWORK_PAYLOAD_BYTES)
     \<and> unat (no_write_seq q - no_read_seq q) \<le> EV_NETWORK_OUTBOX_CAPACITY
     \<and> length (no_queued_by_category q) = EV_NETWORK_MSG_CATEGORY_COUNT
     \<and> (\<forall>x \<in> set (outbox_contents q). ev_network_category_valid (fst x))
     \<and> (\<forall>c < EV_NETWORK_MSG_CATEGORY_COUNT.
          no_queued_by_category q ! c = category_count (int c) (outbox_contents q))"

lemma length_outbox_contents: "length (outbox_contents q) = unat (no_write_seq q - no_read_seq q)"
  by (simp add: outbox_contents_def)

lemma outbox_pending_length: "ev_network_outbox_pending (Some q) = length (outbox_contents q)"
  by (simp add: ev_network_outbox_pending_def ev_network_pending_u32_def length_outbox_contents)

lemma outbox_init_wf: "outbox_wf zero_outbox \<and> outbox_contents zero_outbox = []"
proof -
  have e: "outbox_contents zero_outbox = []"
    by (simp add: outbox_contents_def zero_outbox_def seq_view_empty_iff)
  then show ?thesis unfolding outbox_wf_def e by (auto simp: zero_outbox_def zero_item_def nth_replicate)
qed

text \<open>Removing the oldest item, as a pop and a forced drop both do.\<close>

definition advanced :: "ev_network_outbox \<Rightarrow> ev_network_outbox" where
  "advanced q = (let q1 = uncount (ni_category (no_items q ! unat (no_read_seq q AND EV_NETWORK_OUTBOX_MASK))) q
     in q1\<lparr>no_read_seq := no_read_seq q1 + 1\<rparr>)"

lemma advanced_ok:
  assumes wf: "outbox_wf q" and ne: "no_write_seq q \<noteq> no_read_seq q"
  defines "item \<equiv> no_items q ! unat (no_read_seq q AND EV_NETWORK_OUTBOX_MASK)"
  shows "outbox_wf (advanced q)" and "outbox_contents q = item_view item # outbox_contents (advanced q)"
    and "no_write_seq (advanced q) - no_read_seq (advanced q) = no_write_seq q - no_read_seq q - 1"
proof -
  have len: "length (no_items q) = 8" using wf by (simp add: outbox_wf_def)
  let ?c = "ni_category item"
  have adv: "no_items (advanced q) = no_items q" "no_write_seq (advanced q) = no_write_seq q"
    "no_read_seq (advanced q) = no_read_seq q + 1"
    by (simp_all add: advanced_def uncount_def Let_def)
  show cont: "outbox_contents q = item_view item # outbox_contents (advanced q)"
    using seq_view_pop [of "no_items q" "no_write_seq q" "no_read_seq q"] ne len
    by (simp add: outbox_contents_def adv item_def u32_and_mask_unat)
  have v: "ev_network_category_valid ?c" using wf cont by (simp add: outbox_wf_def item_view_def)
  then have k: "nat ?c < 4" "int (nat ?c) = ?c" by (simp_all add: ev_network_category_valid_def)
  have counts: "\<forall>c<4. no_queued_by_category q ! c = category_count (int c) (outbox_contents q)"
    and lenc: "length (no_queued_by_category q) = 4" using wf by (simp_all add: outbox_wf_def)
  have pos: "no_queued_by_category q ! nat ?c = Suc (category_count ?c (outbox_contents (advanced q)))"
    using counts [rule_format, OF k(1)] k(2) cont by (simp add: item_view_def)
  have qc: "no_queued_by_category (advanced q)
      = (no_queued_by_category q)[nat ?c := category_count ?c (outbox_contents (advanced q))]"
  proof -
    have "no_queued_by_category (advanced q) = (if 0 < no_queued_by_category q ! nat ?c
        then (no_queued_by_category q)[nat ?c := no_queued_by_category q ! nat ?c - 1]
        else no_queued_by_category q)"
      using v by (simp add: advanced_def uncount_def item_def [symmetric] Let_def)
    then show ?thesis by (simp add: pos)
  qed
  have "no_queued_by_category (advanced q) ! c = category_count (int c) (outbox_contents (advanced q))"
    if "c < 4" for c
    using counts [rule_format, OF that] that k lenc cont
    by (cases "c = nat ?c") (auto simp: qc nth_list_update item_view_def)
  moreover have "unat (no_write_seq q - (no_read_seq q + 1)) \<le> 8"
    using seq_pending_pop [OF ne] wf by (simp add: outbox_wf_def)
  ultimately show "outbox_wf (advanced q)"
    using wf cont qc lenc by (simp add: outbox_wf_def adv)
  show "no_write_seq (advanced q) - no_read_seq (advanced q) = no_write_seq q - no_read_seq q - 1"
    by (simp add: adv)
qed

lemma drop_head_advanced: "ev_network_drop_head q = (advanced q)\<lparr>no_dropped := no_dropped (advanced q) + 1\<rparr>"
  by (simp add: ev_network_drop_head_def advanced_def Let_def)

lemma outbox_stat_frames [simp]:
  "outbox_wf (q\<lparr>no_dropped := n\<rparr>) = outbox_wf q" "outbox_contents (q\<lparr>no_dropped := n\<rparr>) = outbox_contents q"
  "outbox_wf (q\<lparr>no_rejected := n\<rparr>) = outbox_wf q" "outbox_contents (q\<lparr>no_rejected := n\<rparr>) = outbox_contents q"
  "outbox_wf (q\<lparr>no_high_water := h\<rparr>) = outbox_wf q" "outbox_contents (q\<lparr>no_high_water := h\<rparr>) = outbox_contents q"
  by (simp_all add: outbox_wf_def outbox_contents_def)

lemma copy_payload_view:
  assumes "length (ni_payload item) = EV_NETWORK_PAYLOAD_BYTES" and "sz \<le> length bytes"
  shows "item_view (ev_network_copy_payload (item\<lparr>ni_category := c\<rparr>) (Some bytes) sz)
       = (c, take (min sz EV_NETWORK_PAYLOAD_BYTES) bytes)"
    and "length (ni_payload (ev_network_copy_payload (item\<lparr>ni_category := c\<rparr>) (Some bytes) sz))
       = EV_NETWORK_PAYLOAD_BYTES"
proof -
  have n: "unat (of_nat (min sz 64) :: u16) = min sz 64"
    by (simp add: unat_of_nat del: of_nat_min)
  have m: "(if EV_NETWORK_PAYLOAD_BYTES < sz then EV_NETWORK_PAYLOAD_BYTES else sz) = min sz 64"
    by (simp add: min_def)
  have z: "(0 < (of_nat (min sz 64) :: u16)) = (0 < min sz 64)"
    using n by (metis neq0_conv unat_eq_0 word_neq_0_conv)
  show "item_view (ev_network_copy_payload (item\<lparr>ni_category := c\<rparr>) (Some bytes) sz)
       = (c, take (min sz EV_NETWORK_PAYLOAD_BYTES) bytes)"
    using assms n z
    by (auto simp: ev_network_copy_payload_def m Let_def item_view_def simp del: of_nat_min)
  show "length (ni_payload (ev_network_copy_payload (item\<lparr>ni_category := c\<rparr>) (Some bytes) sz))
       = EV_NETWORK_PAYLOAD_BYTES"
    using assms by (auto simp: ev_network_copy_payload_def m Let_def)
qed

text \<open>What a push must do to the list of pending messages.\<close>

definition spec_outbox_push ::
    "ev_network_backpressure_policy \<Rightarrow> ev_network_msg_category \<Rightarrow> u8 list
       \<Rightarrow> (ev_network_msg_category \<times> u8 list) list \<Rightarrow> ev_result \<times> (ev_network_msg_category \<times> u8 list) list" where
  "spec_outbox_push p c bytes xs =
     (let limit = np_category_limit p ! nat c;
          limited = limit \<noteq> 0 \<and> limit \<le> category_count c xs;
          ys = (if limited then tl xs else xs)
      in if limited \<and> np_drop_oldest p ! nat c = 0 then (EV_ERR_FULL, xs)
         else if length ys = EV_NETWORK_OUTBOX_CAPACITY then (EV_ERR_FULL, ys)
         else (EV_OK, ys @ [(c, take EV_NETWORK_PAYLOAD_BYTES bytes)]))"

lemma outbox_store_ok:
  assumes wf: "outbox_wf q" and c: "ev_network_category_valid c"
    and p: "pending = no_write_seq q - no_read_seq q"
    and st: "outbox_store q pending c (Some bytes) (length bytes) = (rc, q')"
  shows "outbox_wf q' \<and> (rc, outbox_contents q') =
     (if length (outbox_contents q) = EV_NETWORK_OUTBOX_CAPACITY then (EV_ERR_FULL, outbox_contents q)
      else (EV_OK, outbox_contents q @ [(c, take EV_NETWORK_PAYLOAD_BYTES bytes)]))"
proof -
  have len: "length (no_items q) = 8" and le: "unat pending \<le> 8"
    and pl: "\<forall>item \<in> set (no_items q). length (ni_payload item) = 64"
    and lenc: "length (no_queued_by_category q) = 4"
    and vs: "\<forall>x \<in> set (outbox_contents q). ev_network_category_valid (fst x)"
    and counts: "\<forall>k<4. no_queued_by_category q ! k = category_count (int k) (outbox_contents q)"
    using wf by (simp_all add: outbox_wf_def p)
  have lc: "length (outbox_contents q) = unat pending" by (simp add: length_outbox_contents p)
  have full: "(of_nat EV_NETWORK_OUTBOX_CAPACITY \<le> pending) = (unat pending = 8)"
    using le by (simp add: word_le_nat_alt)
  show ?thesis
  proof (cases "unat pending = 8")
    case True
    then show ?thesis using st wf full lc by (auto simp: outbox_store_def)
  next
    case False
    then have room: "unat (no_write_seq q - no_read_seq q) < length (no_items q)" using le len p by simp
    let ?i = "unat (no_write_seq q AND EV_NETWORK_OUTBOX_MASK)"
    let ?item = "ev_network_copy_payload ((no_items q ! ?i)\<lparr>ni_category := c\<rparr>) (Some bytes) (length bytes)"
    have i: "?i = unat (no_write_seq q) mod length (no_items q)" by (simp add: len u32_and_mask_unat)
    have "?i < length (no_items q)" unfolding i using len by simp
    then have old: "length (ni_payload (no_items q ! ?i)) = 64" using pl by simp
    note V = copy_payload_view [OF old order_refl, where bytes = bytes and c = c]
    let ?q1 = "q\<lparr>no_items := (no_items q)[?i := ?item], no_write_seq := no_write_seq q + 1,
        no_queued_by_category := (no_queued_by_category q)[nat c := no_queued_by_category q ! nat c + 1],
        no_accepted := no_accepted q + 1\<rparr>"
    have cont: "outbox_contents ?q1 = outbox_contents q @ [(c, take 64 bytes)]"
      using seq_view_push [OF _ _ room, of ?item] len V(1)
      by (simp add: outbox_contents_def i min_def)
    have k: "nat c < 4" "int (nat c) = c" using c by (simp_all add: ev_network_category_valid_def)
    have cnt: "no_queued_by_category ?q1 ! j = category_count (int j) (outbox_contents ?q1)" if "j < 4" for j
      unfolding cont using counts [rule_format, OF that] that k lenc
      by (cases "j = nat c") (auto simp: nth_list_update)
    have "set ((no_items q)[?i := ?item]) \<subseteq> insert ?item (set (no_items q))" by (rule set_update_subset_insert)
    then have pl1: "\<forall>item \<in> set (no_items ?q1). length (ni_payload item) = 64" using pl V(2) by auto
    have "unat (no_write_seq q + 1 - no_read_seq q) \<le> 8"
      using seq_pending_push [OF room] room len by simp
    then have "outbox_wf ?q1"
      using cnt pl1 len lenc vs c cont by (simp add: outbox_wf_def)
    moreover have "rc = EV_OK \<and> (q' = ?q1 \<or> (\<exists>h. q' = ?q1\<lparr>no_high_water := h\<rparr>))"
      using st full False by (auto simp: outbox_store_def Let_def split: if_splits)
    ultimately show ?thesis using cont lc False by auto
  qed
qed

lemma outbox_push_refines:
  assumes wf: "outbox_wf q" and c: "ev_network_category_valid c"
    and run: "ev_network_outbox_push (Some q) (Some p) c (Some bytes) (length bytes) = (rc, q')"
  shows "\<exists>q1. q' = Some q1 \<and> outbox_wf q1 \<and> (rc, outbox_contents q1) = spec_outbox_push p c bytes (outbox_contents q)"
proof -
  have cnt: "no_queued_by_category q ! nat c = category_count c (outbox_contents q)"
    using wf c by (simp add: outbox_wf_def ev_network_category_valid_def)
  let ?pending = "no_write_seq q - no_read_seq q"
  let ?limited = "np_category_limit p ! nat c \<noteq> 0 \<and> np_category_limit p ! nat c \<le> category_count c (outbox_contents q)"
  show ?thesis
  proof (cases ?limited)
    case True
    then have "outbox_contents q \<noteq> []" by auto
    then have ne: "no_write_seq q \<noteq> no_read_seq q" using length_outbox_contents [of q] by auto
    then have pos: "0 < ?pending" by (simp add: word_neq_0_conv [symmetric])
    note A = advanced_ok [OF wf ne]
    show ?thesis
    proof (cases "np_drop_oldest p ! nat c = 0")
      case drop: True
      then show ?thesis
        using run wf c cnt True
        by (auto simp: ev_network_outbox_push_def ev_network_pending_u32_def Let_def spec_outbox_push_def)
    next
      case False
      obtain rc1 q2 where st: "outbox_store (ev_network_drop_head q) (?pending - 1) c (Some bytes) (length bytes)
          = (rc1, q2)"
        by (rule prod.exhaust)
      have "rc = rc1" "q' = Some q2"
        using run c cnt True False pos st
        by (simp_all add: ev_network_outbox_push_def ev_network_pending_u32_def Let_def)
      moreover have wfd: "outbox_wf (ev_network_drop_head q)"
        and cd: "outbox_contents (ev_network_drop_head q) = tl (outbox_contents q)"
        using A by (simp_all add: drop_head_advanced)
      moreover have "?pending - 1 = no_write_seq (ev_network_drop_head q) - no_read_seq (ev_network_drop_head q)"
        using A(3) by (simp add: drop_head_advanced)
      ultimately show ?thesis
        using outbox_store_ok [OF wfd c _ st] True False by (simp add: spec_outbox_push_def Let_def)
    qed
  next
    case False
    obtain rc1 q2 where st: "outbox_store q ?pending c (Some bytes) (length bytes) = (rc1, q2)"
      by (rule prod.exhaust)
    have "rc = rc1" "q' = Some q2"
      using run c cnt False st
      by (auto simp: ev_network_outbox_push_def ev_network_pending_u32_def Let_def)
    then show ?thesis
      using outbox_store_ok [OF wf c refl st] False by (auto simp: spec_outbox_push_def Let_def)
  qed
qed

lemma outbox_pop_cases:
  assumes wf: "outbox_wf q" and run: "ev_network_outbox_pop (Some q) True = (rc, out, q')"
  shows "\<exists>q1. q' = Some q1 \<and> outbox_wf q1 \<and>
     (case outbox_contents q of
        [] \<Rightarrow> rc = EV_ERR_EMPTY \<and> out = None \<and> q1 = q
      | x # xs \<Rightarrow> rc = EV_OK \<and> map_option item_view out = Some x \<and> outbox_contents q1 = xs)"
proof (cases "no_write_seq q = no_read_seq q")
  case True
  then have "outbox_contents q = []" using length_outbox_contents [of q] by simp
  then show ?thesis using run wf True by (auto simp: ev_network_outbox_pop_def ev_network_pending_u32_def)
next
  case False
  then have "no_write_seq q - no_read_seq q \<noteq> 0" by simp
  then show ?thesis
    using run advanced_ok [OF wf False]
    by (auto simp: ev_network_outbox_pop_def ev_network_pending_u32_def Let_def advanced_def)
qed

section \<open>Without forced drops the outbox is a bounded FIFO\<close>

definition keep_policy :: "nat list \<Rightarrow> ev_network_backpressure_policy" where
  "keep_policy limits = \<lparr>np_category_limit = limits, np_drop_oldest = replicate EV_NETWORK_MSG_CATEGORY_COUNT 0\<rparr>"

definition outbox_enq ::
    "nat list \<Rightarrow> ev_network_outbox \<Rightarrow> ev_network_msg_category \<times> u8 list \<Rightarrow> bool \<times> ev_network_outbox" where
  "outbox_enq limits q x =
     (if ev_network_category_valid (fst x) \<and> length (snd x) \<le> EV_NETWORK_PAYLOAD_BYTES
      then (let (rc, q') = ev_network_outbox_push (Some q) (Some (keep_policy limits)) (fst x) (Some (snd x))
                             (length (snd x))
            in (rc = EV_OK, the q'))
      else (False, q))"

definition outbox_deq ::
    "ev_network_outbox \<Rightarrow> (ev_network_msg_category \<times> u8 list) option \<times> ev_network_outbox" where
  "outbox_deq q = (let (rc, out, q') = ev_network_outbox_pop (Some q) True in (map_option item_view out, the q'))"

lemma outbox_enq_cases:
  assumes wf: "outbox_wf q" and e: "outbox_enq limits q x = (ok, q')"
  shows "outbox_wf q' \<and> outbox_contents q' = outbox_contents q @ (if ok then [x] else [])"
proof (cases "ev_network_category_valid (fst x) \<and> length (snd x) \<le> EV_NETWORK_PAYLOAD_BYTES")
  case True
  obtain rc q1 where p: "ev_network_outbox_push (Some q) (Some (keep_policy limits)) (fst x) (Some (snd x))
      (length (snd x)) = (rc, q1)"
    by (rule prod.exhaust)
  have "np_drop_oldest (keep_policy limits) ! nat (fst x) = 0"
    using True by (simp add: keep_policy_def ev_network_category_valid_def)
  then show ?thesis
    using outbox_push_refines [OF wf conjunct1 [OF True] p] e True p
    by (auto simp: outbox_enq_def spec_outbox_push_def Let_def split: if_splits)
next
  case False
  then show ?thesis using wf e by (auto simp: outbox_enq_def)
qed

interpretation outbox: bounded_fifo outbox_deq outbox_contents outbox_wf EV_NETWORK_OUTBOX_CAPACITY
    "outbox_enq limits" for limits
proof unfold_locales
  fix q r q'
  assume inv: "outbox_wf q" and d: "outbox_deq q = (r, q')"
  obtain rc out q1 where p: "ev_network_outbox_pop (Some q) True = (rc, out, q1)" by (rule prod_cases3)
  note P = outbox_pop_cases [OF inv p]
  have eq: "r = map_option item_view out" "q' = the q1" using d p by (simp_all add: outbox_deq_def)
  show "outbox_wf q'" using P eq by auto
  show "r = None \<and> outbox_contents q' = []" if "outbox_contents q = []" using P eq that by auto
  show "r = Some x \<and> outbox_contents q' = xs" if "outbox_contents q = x # xs" for x xs
    using P eq that by auto
next
  fix q x ok q'
  assume inv: "outbox_wf q"
  show "outbox_wf q'" if "outbox_enq limits q x = (ok, q')" using outbox_enq_cases [OF inv that] by simp
  show "outbox_contents q' = outbox_contents q @ [x]" if "outbox_enq limits q x = (True, q')"
    using outbox_enq_cases [OF inv that] by simp
  show "outbox_contents q' = outbox_contents q" if "outbox_enq limits q x = (False, q')"
    using outbox_enq_cases [OF inv that] by simp
qed (simp add: outbox_wf_def length_outbox_contents)

section \<open>Properties\<close>

text \<open>
  C33: Pushing to the outbox follows its back-pressure policy. For a known category, a push either
  refuses (the category is at its limit and may not drop, or the ring is full) or appends the message,
  cut to the slot's 64 bytes; a category at its limit that may drop first removes the oldest item of
  the whole outbox. The per-category counters stay exact, and the ring never holds more than eight.
\<close>

theorem outbox_push_spec:
  assumes "outbox_wf q" and "ev_network_category_valid c"
    and "ev_network_outbox_push (Some q) (Some p) c (Some bytes) (length bytes) = (rc, q')"
  shows "\<exists>q1. q' = Some q1 \<and> outbox_wf q1 \<and> ev_network_outbox_pending q' \<le> EV_NETWORK_OUTBOX_CAPACITY
     \<and> (rc, outbox_contents q1) = spec_outbox_push p c bytes (outbox_contents q)"
  using outbox_push_refines [OF assms] outbox.bounded outbox_pending_length by metis

text \<open>
  Without forced drops the outbox is a FIFO. Over any interleaving of pushes that fit a slot and pops,
  the items popped followed by the items pending are the items pending at the start followed by the
  accepted ones, with their category and bytes intact.
\<close>

theorem outbox_order:
  assumes "outbox_wf q" and "queue_run (outbox_enq limits) outbox_deq ops q = (outs, accs, q')"
  shows "outs @ outbox_contents q' = outbox_contents q @ accs \<and> outbox_wf q'"
  by (rule outbox.run_order [OF assms])

definition pushed ::
    "ev_network_backpressure_policy \<Rightarrow> (ev_network_msg_category \<times> u8 list) list \<Rightarrow> ev_network_outbox" where
  "pushed p xs = foldl (\<lambda>q x. the (snd (ev_network_outbox_push (Some q) (Some p) (fst x) (Some (snd x))
     (length (snd x))))) zero_outbox xs"

text \<open>Telemetry may hold one item and drops; the other categories are unlimited.\<close>

definition drop_policy :: ev_network_backpressure_policy where
  "drop_policy = \<lparr>np_category_limit = [1, 0, 0, 0], np_drop_oldest = [1, 0, 0, 0]\<rparr>"

definition demo_outbox :: ev_network_outbox where
  "demo_outbox = pushed drop_policy [(EV_NETWORK_MSG_FAULT_CRITICAL, [9]), (EV_NETWORK_MSG_TELEMETRY_LATEST, [1])]"

lemma pushed_wf: "list_all (\<lambda>x. ev_network_category_valid (fst x)) xs \<Longrightarrow> outbox_wf (pushed p xs)"
proof (induction xs rule: rev_induct)
  case Nil
  then show ?case using outbox_init_wf by (simp add: pushed_def)
next
  case (snoc x xs)
  then have wf: "outbox_wf (pushed p xs)" and v: "ev_network_category_valid (fst x)" by simp_all
  obtain rc q' where run: "ev_network_outbox_push (Some (pushed p xs)) (Some p) (fst x) (Some (snd x))
      (length (snd x)) = (rc, q')"
    by (rule prod.exhaust)
  have "pushed p (xs @ [x]) = the q'" using run by (simp add: pushed_def)
  then show ?case using outbox_push_refines [OF wf v run] by auto
qed

lemma demo_outbox_wf: "outbox_wf demo_outbox"
  unfolding demo_outbox_def by (rule pushed_wf) (simp add: ev_network_category_valid_def)

text \<open>
  A category at its limit that may drop loses the head of the outbox, whatever that is: here a second
  telemetry item evicts a pending critical fault, the older telemetry item stays, and telemetry is
  over its limit of one.
\<close>

lemma drop_oldest_ignores_category:
  "outbox_contents (pushed drop_policy [(EV_NETWORK_MSG_FAULT_CRITICAL, [9]), (EV_NETWORK_MSG_TELEMETRY_LATEST, [1]),
       (EV_NETWORK_MSG_TELEMETRY_LATEST, [2])])
     = [(EV_NETWORK_MSG_TELEMETRY_LATEST, [1]), (EV_NETWORK_MSG_TELEMETRY_LATEST, [2])]"
  by code_simp

theorem outbox_push_spec_witness:
  "\<exists>q1. ev_network_outbox_push (Some demo_outbox) (Some drop_policy) EV_NETWORK_MSG_TELEMETRY_LATEST (Some [2]) 1
       = (EV_OK, Some q1)
     \<and> outbox_contents q1 = [(EV_NETWORK_MSG_TELEMETRY_LATEST, [1]), (EV_NETWORK_MSG_TELEMETRY_LATEST, [2])]"
proof -
  let ?push = "ev_network_outbox_push (Some demo_outbox) (Some drop_policy) 0 (Some [2]) (length [2::u8])"
  obtain rc q' where run: "?push = (rc, q')" by (rule prod.exhaust)
  have v: "ev_network_category_valid 0" by code_simp
  have "spec_outbox_push drop_policy 0 [2] (outbox_contents demo_outbox) = (EV_OK, [(0, [1]), (0, [2])])"
    by code_simp
  with outbox_push_spec [OF demo_outbox_wf v run] show ?thesis using run by auto
qed

theorem outbox_order_witness:
  "\<exists>q'. queue_run (outbox_enq [0, 0, 0, 1]) outbox_deq [Enq (3, [7]), Enq (3, [8]), Deq] zero_outbox
       = ([(3, [7])], [(3, [7])], q') \<and> outbox_contents q' = []"
proof -
  let ?run = "queue_run (outbox_enq [0, 0, 0, 1]) outbox_deq [Enq (3, [7]), Enq (3, [8]), Deq] zero_outbox"
  obtain outs accs q' where run: "?run = (outs, accs, q')" by (rule prod_cases3)
  have "fst ?run = [(3, [7])]" "fst (snd ?run) = [(3, [7])]" by code_simp+
  then have r: "outs = [(3, [7])]" "accs = [(3, [7])]" unfolding run by simp_all
  have z: "outbox_wf zero_outbox" "outbox_contents zero_outbox = []" using outbox_init_wf by simp_all
  from outbox_order [OF z(1) run] show ?thesis using run r z(2) by simp
qed

end
