(* ===== verification/EvTraceRing.thy ===== *)
theory EvTraceRing
  imports EvQueueSpec EvCatalog
begin

text \<open>
  The diagnostic trace (\<open>runtime/src/ev_trace_ring.c\<close>, \<open>runtime/include/ev/trace_ring.h\<close>), with
  \<open>EV_TRACE_ENABLE\<close> set as it is by default: a ring of 32 records that overwrites the oldest.
\<close>

abbreviation EV_TRACE_RING_CAPACITY :: nat where "EV_TRACE_RING_CAPACITY \<equiv> 32"

record ev_trace_record =
  tr_timestamp_us :: u32
  tr_event_id :: ev_event_id
  tr_source_actor :: ev_actor_id
  tr_target_actor :: ev_actor_id
  tr_result :: ev_result
  tr_qos :: ev_route_qos
  tr_queue_depth :: u16
  tr_flags :: u32

record ev_trace_ring =
  tg_records :: "ev_trace_record list"
  tg_head :: nat
  tg_count :: nat
  tg_dropped :: u32

definition zero_trace_record :: ev_trace_record where
  "zero_trace_record = \<lparr>tr_timestamp_us = 0, tr_event_id = 0, tr_source_actor = 0, tr_target_actor = 0,
     tr_result = EV_OK, tr_qos = EV_ROUTE_QOS_CRITICAL, tr_queue_depth = 0, tr_flags = 0\<rparr>"

definition zero_trace :: ev_trace_ring where
  "zero_trace = \<lparr>tg_records = replicate EV_TRACE_RING_CAPACITY zero_trace_record, tg_head = 0, tg_count = 0,
     tg_dropped = 0\<rparr>"

definition ev_trace_ring_init :: "ev_trace_ring option \<Rightarrow> ev_trace_ring option" where
  "ev_trace_ring_init ring = map_option (\<lambda>_. zero_trace) ring"

definition ev_trace_record_op ::
    "ev_trace_ring option \<Rightarrow> ev_trace_record option \<Rightarrow> ev_result \<times> ev_trace_ring option" where
  "ev_trace_record_op ring rec =
     (case (ring, rec) of
        (Some g, Some r) \<Rightarrow>
          let index = (tg_head g + tg_count g) mod EV_TRACE_RING_CAPACITY;
              (index, g1) =
                (if tg_count g = EV_TRACE_RING_CAPACITY
                 then (tg_head g, g\<lparr>tg_head := (tg_head g + 1) mod EV_TRACE_RING_CAPACITY,
                                    tg_dropped := tg_dropped g + 1\<rparr>)
                 else (index, g\<lparr>tg_count := tg_count g + 1\<rparr>))
          in (EV_OK, Some (g1\<lparr>tg_records := (tg_records g1)[index := r]\<rparr>))
      | _ \<Rightarrow> (EV_ERR_INVALID_ARG, ring))"

definition ev_trace_pending :: "ev_trace_ring option \<Rightarrow> nat" where
  "ev_trace_pending ring = (case ring of None \<Rightarrow> 0 | Some g \<Rightarrow> tg_count g)"

definition ev_trace_dropped :: "ev_trace_ring option \<Rightarrow> u32" where
  "ev_trace_dropped ring = (case ring of None \<Rightarrow> 0 | Some g \<Rightarrow> tg_dropped g)"

text \<open>The drain loop: at most \<open>n\<close> more records. The first result is what is written to the output array.\<close>

primrec trace_drain_loop :: "nat \<Rightarrow> ev_trace_ring \<Rightarrow> ev_trace_record list \<times> ev_trace_ring" where
  "trace_drain_loop 0 g = ([], g)"
| "trace_drain_loop (Suc n) g =
     (if 0 < tg_count g
      then let r = tg_records g ! tg_head g;
               g1 = g\<lparr>tg_head := (tg_head g + 1) mod EV_TRACE_RING_CAPACITY, tg_count := tg_count g - 1\<rparr>;
               (rs, g2) = trace_drain_loop n g1
           in (r # rs, g2)
      else ([], g))"

definition ev_trace_drain ::
    "ev_trace_ring option \<Rightarrow> bool \<Rightarrow> nat \<Rightarrow> nat \<times> ev_trace_record list \<times> ev_trace_ring option" where
  "ev_trace_drain ring out_records max_records =
     (if ring = None \<or> (\<not> out_records \<and> 0 < max_records) then (0, [], ring)
      else let (rs, g) = trace_drain_loop max_records (the ring) in (length rs, rs, Some g))"

definition ev_trace_clear :: "ev_trace_ring option \<Rightarrow> ev_trace_ring option" where
  "ev_trace_clear ring = map_option (\<lambda>g. g\<lparr>tg_head := 0, tg_count := 0\<rparr>) ring"

section \<open>The trace is a lossy ring\<close>

definition trace_wf :: "ev_trace_ring \<Rightarrow> bool" where
  "trace_wf g \<longleftrightarrow> length (tg_records g) = EV_TRACE_RING_CAPACITY \<and> tg_head g < EV_TRACE_RING_CAPACITY
     \<and> tg_count g \<le> EV_TRACE_RING_CAPACITY"

definition trace_contents :: "ev_trace_ring \<Rightarrow> ev_trace_record list" where
  "trace_contents g = ring_view (tg_records g) (tg_head g) (tg_count g)"

definition trace_put :: "ev_trace_ring \<Rightarrow> ev_trace_record \<Rightarrow> ev_trace_ring" where
  "trace_put g r = the (snd (ev_trace_record_op (Some g) (Some r)))"

definition trace_take :: "ev_trace_ring \<Rightarrow> ev_trace_record option \<times> ev_trace_ring" where
  "trace_take g = (let (rs, g1) = trace_drain_loop 1 g in (case rs of [] \<Rightarrow> None | r # _ \<Rightarrow> Some r, g1))"

lemma zero_trace_wf: "trace_wf zero_trace" "trace_contents zero_trace = []"
  by (simp_all add: trace_wf_def trace_contents_def zero_trace_def)

lemma trace_put_ok:
  assumes wf: "trace_wf g"
  shows "trace_wf (trace_put g r)" and "trace_contents (trace_put g r)
      = (if length (trace_contents g) < EV_TRACE_RING_CAPACITY then trace_contents g else tl (trace_contents g)) @ [r]"
    and "tg_dropped (trace_put g r)
      = tg_dropped g + (if length (trace_contents g) < EV_TRACE_RING_CAPACITY then 0 else 1)"
proof -
  let ?h = "tg_head g" and ?c = "tg_count g" and ?xs = "tg_records g"
  have len: "length ?xs = 32" and h: "?h < 32" and c: "?c \<le> 32" using wf by (simp_all add: trace_wf_def)
  have put: "trace_put g r = (if ?c = 32
      then g\<lparr>tg_head := Suc ?h mod 32, tg_dropped := tg_dropped g + 1, tg_records := ?xs[?h := r]\<rparr>
      else g\<lparr>tg_count := Suc ?c, tg_records := ?xs[(?h + ?c) mod 32 := r]\<rparr>)"
    by (simp add: trace_put_def ev_trace_record_op_def Let_def)
  show "trace_wf (trace_put g r)" using len h c by (auto simp: put trace_wf_def)
  show "tg_dropped (trace_put g r)
      = tg_dropped g + (if length (trace_contents g) < EV_TRACE_RING_CAPACITY then 0 else 1)"
    using c by (simp add: put trace_contents_def)
  show "trace_contents (trace_put g r)
      = (if length (trace_contents g) < EV_TRACE_RING_CAPACITY then trace_contents g else tl (trace_contents g)) @ [r]"
  proof (cases "?c = 32")
    case False
    then show ?thesis
      using ring_view_store_tail [of ?c ?xs ?h r] c len by (simp add: put trace_contents_def)
  next
    case True
    have tail: "(Suc ?h mod 32 + 31) mod 32 = ?h"
    proof -
      have "(Suc ?h mod 32 + 31) mod 32 = (?h + 32) mod 32" by presburger
      then show ?thesis using h by simp
    qed
    have "ring_view (?xs[?h := r]) (Suc ?h mod 32) 32 = ring_view ?xs (Suc ?h mod 32) 31 @ [r]"
      using ring_view_store_tail [of 31 ?xs "Suc ?h mod 32" r] len tail by simp
    moreover have "ring_view ?xs (Suc ?h mod 32) 31 = tl (ring_view ?xs ?h 32)"
      using ring_view_drop_head [of ?xs ?h 31] len by simp
    ultimately show ?thesis using True by (simp add: put trace_contents_def)
  qed
qed

lemma trace_step:
  assumes wf: "trace_wf g" and c: "0 < tg_count g"
  defines "g1 \<equiv> g\<lparr>tg_head := (tg_head g + 1) mod EV_TRACE_RING_CAPACITY, tg_count := tg_count g - 1\<rparr>"
  shows "trace_contents g = tg_records g ! tg_head g # trace_contents g1" and "trace_wf g1"
proof -
  have len: "length (tg_records g) = 32" and h: "tg_head g < 32" using wf by (simp_all add: trace_wf_def)
  obtain k where k: "tg_count g = Suc k" using c by (cases "tg_count g") auto
  show "trace_contents g = tg_records g ! tg_head g # trace_contents g1"
    using ring_view_Suc [of "tg_records g" "tg_head g" k] ring_view_mod [of "tg_records g" "Suc (tg_head g)" k]
    by (simp add: trace_contents_def k len h g1_def)
  show "trace_wf g1" using wf by (auto simp: trace_wf_def g1_def)
qed

lemma trace_drain_spec:
  "trace_wf g \<Longrightarrow> trace_drain_loop n g = (rs, g') \<Longrightarrow>
   rs = take n (trace_contents g) \<and> trace_contents g' = drop n (trace_contents g) \<and> trace_wf g'"
proof (induction n arbitrary: g rs g')
  case (Suc n)
  show ?case
  proof (cases "0 < tg_count g")
    case True
    let ?g1 = "g\<lparr>tg_head := (tg_head g + 1) mod EV_TRACE_RING_CAPACITY, tg_count := tg_count g - 1\<rparr>"
    obtain rs1 g2 where r: "trace_drain_loop n ?g1 = (rs1, g2)" by (rule prod.exhaust)
    show ?thesis
      using Suc.IH [OF trace_step(2) [OF Suc.prems(1) True] r] Suc.prems(2) True r
        trace_step(1) [OF Suc.prems(1) True] by (auto simp: Let_def)
  next
    case False
    then show ?thesis using Suc.prems by (simp add: trace_contents_def)
  qed
qed simp

interpretation trace: lossy_ring trace_take trace_contents trace_wf EV_TRACE_RING_CAPACITY trace_put "\<lambda>_. True"
proof unfold_locales
  fix q r q'
  assume inv: "trace_wf q" and d: "trace_take q = (r, q')"
  obtain rs g1 where l: "trace_drain_loop 1 q = (rs, g1)" by (rule prod.exhaust)
  note S = trace_drain_spec [OF inv l]
  have eq: "r = (case rs of [] \<Rightarrow> None | x # _ \<Rightarrow> Some x)" "q' = g1" using d l by (simp_all add: trace_take_def)
  show "trace_wf q'" using S eq by simp
  show "r = None \<and> trace_contents q' = []" if "trace_contents q = []" using S eq that by simp
  show "r = Some x \<and> trace_contents q' = xs" if "trace_contents q = x # xs" for x xs using S eq that by simp
qed (simp_all add: trace_put_ok, simp add: trace_wf_def trace_contents_def)

lemma trace_put_all_dropped:
  "trace_wf g \<Longrightarrow> tg_dropped (foldl trace_put g rs)
     = tg_dropped g + of_nat (length (trace_contents g @ rs) - EV_TRACE_RING_CAPACITY)"
proof (induction rs rule: rev_induct)
  case Nil
  then show ?case by (simp add: trace_wf_def trace_contents_def)
next
  case (snoc r rs)
  have all: "list_all (\<lambda>_. True) rs" by (simp add: list_all_iff)
  have K: "trace_wf (foldl trace_put g rs)" "length (trace_contents (foldl trace_put g rs))
      = length (trace_contents g @ rs) - (length (trace_contents g @ rs) - 32)"
    using trace.push_all_keeps_latest [OF snoc.prems all] by simp_all
  show ?case
    using snoc.IH [OF snoc.prems] trace_put_ok(3) [OF K(1), of r] K(2)
    by (auto simp: Suc_diff_le)
qed

text \<open>
  The trace keeps the most recent records. Whatever sequence of records is written, draining the
  ring gives back exactly the last 32 of all the records it has held, oldest first, leaves the ring
  empty, and the drop counter has grown by the number of records that were overwritten.
\<close>

theorem trace_keeps_latest:
  assumes "trace_wf g"
  shows "\<exists>g'. ev_trace_drain (Some (foldl trace_put g rs)) True EV_TRACE_RING_CAPACITY
       = (min 32 (length (trace_contents g @ rs)),
          drop (length (trace_contents g @ rs) - 32) (trace_contents g @ rs), Some g')
     \<and> ev_trace_pending (Some g') = 0
     \<and> ev_trace_dropped (Some (foldl trace_put g rs))
         = ev_trace_dropped (Some g) + of_nat (length (trace_contents g @ rs) - 32)"
proof -
  let ?g = "foldl trace_put g rs"
  obtain out g' where d: "trace_drain_loop 32 ?g = (out, g')" by (rule prod.exhaust)
  have all: "list_all (\<lambda>_. True) rs" by (simp add: list_all_iff)
  have K: "trace_wf ?g" "trace_contents ?g = drop (length (trace_contents g @ rs) - 32) (trace_contents g @ rs)"
    using trace.push_all_keeps_latest [OF assms all] by simp_all
  note D = trace_drain_spec [OF K(1) d]
  have short: "length (trace_contents ?g) \<le> 32" using trace.bounded [OF K(1)] .
  have "length (trace_contents g') = 0" using D short by simp
  then have "tg_count g' = 0" by (simp add: trace_contents_def)
  moreover have "out = trace_contents ?g" using D short by simp
  ultimately show ?thesis
    using d K(2) trace_put_all_dropped [OF assms, of rs]
      length_drop [of "length (trace_contents g @ rs) - 32" "trace_contents g @ rs"]
    by (simp add: ev_trace_drain_def ev_trace_pending_def ev_trace_dropped_def min_def del: drop_append
        length_append length_drop)
qed

definition demo_record :: "u32 \<Rightarrow> ev_trace_record" where
  "demo_record t = zero_trace_record\<lparr>tr_timestamp_us := t\<rparr>"

theorem trace_keeps_latest_witness:
  "\<exists>g'. ev_trace_drain (Some (foldl trace_put zero_trace (map (\<lambda>i. demo_record (of_nat i)) [0..<40]))) True 32
       = (32, map (\<lambda>i. demo_record (of_nat i)) [8..<40], Some g') \<and> ev_trace_pending (Some g') = 0"
  using trace_keeps_latest [OF zero_trace_wf(1), of "map (\<lambda>i. demo_record (of_nat i)) [0..<40]"]
  by (auto simp: zero_trace_wf drop_map)

end
