(* ===== verification/EvFaultBus.thy ===== *)
theory EvFaultBus
  imports EvCatalog
begin

text \<open>
  The fault registry (\<open>runtime/src/ev_fault_bus.c\<close>, \<open>runtime/include/ev/fault_bus.h\<close>): up to sixteen
  pending fault records, in order of first occurrence, with repeated faults of one key counted in place.
\<close>

abbreviation EV_FAULT_STORE_CAPACITY :: nat where "EV_FAULT_STORE_CAPACITY \<equiv> 16"

type_synonym ev_fault_id = int

datatype ev_fault_severity =
    EV_FAULT_SEV_INFO
  | EV_FAULT_SEV_WARNING
  | EV_FAULT_SEV_ERROR
  | EV_FAULT_SEV_CRITICAL

text \<open>Severities are ordered as their enumerator values are.\<close>

fun severity_level :: "ev_fault_severity \<Rightarrow> nat" where
  "severity_level EV_FAULT_SEV_INFO = 0"
| "severity_level EV_FAULT_SEV_WARNING = 1"
| "severity_level EV_FAULT_SEV_ERROR = 2"
| "severity_level EV_FAULT_SEV_CRITICAL = 3"

lemma severity_level_inj: "severity_level a = severity_level b \<Longrightarrow> a = b"
  by (cases a; cases b) simp_all

instantiation ev_fault_severity :: linorder
begin

definition less_eq_ev_fault_severity :: "ev_fault_severity \<Rightarrow> ev_fault_severity \<Rightarrow> bool" where
  "less_eq_ev_fault_severity a b \<longleftrightarrow> severity_level a \<le> severity_level b"

definition less_ev_fault_severity :: "ev_fault_severity \<Rightarrow> ev_fault_severity \<Rightarrow> bool" where
  "less_ev_fault_severity a b \<longleftrightarrow> severity_level a < severity_level b"

instance
  by intro_classes
    (auto simp: less_eq_ev_fault_severity_def less_ev_fault_severity_def dest: severity_level_inj)

end

record ev_fault_payload =
  fp_fault_id :: ev_fault_id
  fp_severity :: ev_fault_severity
  fp_source_actor :: ev_actor_id
  fp_triggering_event :: ev_event_id
  fp_source_module :: u32
  fp_timestamp_ms :: u32
  fp_arg0 :: u32
  fp_arg1 :: u32
  fp_counter :: u32
  fp_flags :: u32

record ev_fault_registry =
  fr_records :: "ev_fault_payload list"
  fr_count :: nat
  fr_emitted :: u32
  fr_coalesced :: u32
  fr_dropped :: u32

record ev_fault_snapshot =
  fs_records :: "ev_fault_payload list"
  fs_count :: nat
  fs_emitted :: u32
  fs_coalesced :: u32
  fs_dropped :: u32

section \<open>Operations\<close>

definition zero_fault :: ev_fault_payload where
  "zero_fault = \<lparr>fp_fault_id = 0, fp_severity = EV_FAULT_SEV_INFO, fp_source_actor = 0, fp_triggering_event = 0,
     fp_source_module = 0, fp_timestamp_ms = 0, fp_arg0 = 0, fp_arg1 = 0, fp_counter = 0, fp_flags = 0\<rparr>"

definition zero_faults :: ev_fault_registry where
  "zero_faults = \<lparr>fr_records = replicate EV_FAULT_STORE_CAPACITY zero_fault, fr_count = 0, fr_emitted = 0,
     fr_coalesced = 0, fr_dropped = 0\<rparr>"

definition ev_fault_same_key :: "ev_fault_payload \<Rightarrow> ev_fault_payload \<Rightarrow> bool" where
  "ev_fault_same_key a b \<longleftrightarrow> fp_fault_id a = fp_fault_id b \<and> fp_source_actor a = fp_source_actor b
     \<and> fp_triggering_event a = fp_triggering_event b"

definition ev_fault_registry_init :: "ev_fault_registry option \<Rightarrow> ev_fault_registry option" where
  "ev_fault_registry_init registry = map_option (\<lambda>_. zero_faults) registry"

text \<open>The search of \<open>ev_fault_emit\<close>: the first record with the key, among \<open>n\<close> from index \<open>i\<close>.\<close>

primrec fault_find :: "ev_fault_payload list \<Rightarrow> ev_fault_payload \<Rightarrow> nat \<Rightarrow> nat \<Rightarrow> nat option" where
  "fault_find rs p i 0 = None"
| "fault_find rs p i (Suc n) = (if ev_fault_same_key (rs ! i) p then Some i else fault_find rs p (Suc i) n)"

definition ev_fault_emit ::
    "ev_fault_registry option \<Rightarrow> ev_fault_payload option \<Rightarrow> ev_result \<times> ev_fault_registry option" where
  "ev_fault_emit registry payload =
     (case (registry, payload) of
        (Some f, Some p) \<Rightarrow>
          (case fault_find (fr_records f) p 0 (fr_count f) of
             Some i \<Rightarrow> (EV_OK, Some (f\<lparr>
               fr_records := (fr_records f)[i := (fr_records f ! i)\<lparr>fp_counter := fp_counter (fr_records f ! i) + 1\<rparr>],
               fr_coalesced := fr_coalesced f + 1, fr_emitted := fr_emitted f + 1\<rparr>))
           | None \<Rightarrow>
               if EV_FAULT_STORE_CAPACITY \<le> fr_count f
               then (EV_ERR_FULL, Some (f\<lparr>fr_dropped := fr_dropped f + 1, fr_emitted := fr_emitted f + 1\<rparr>))
               else (EV_OK, Some (f\<lparr>fr_records := (fr_records f)[fr_count f := p\<lparr>fp_counter := 1\<rparr>],
                      fr_count := fr_count f + 1, fr_emitted := fr_emitted f + 1\<rparr>)))
      | _ \<Rightarrow> (EV_ERR_INVALID_ARG, registry))"

definition ev_fault_snapshot_op ::
    "ev_fault_registry option \<Rightarrow> bool \<Rightarrow> ev_result \<times> ev_fault_snapshot option" where
  "ev_fault_snapshot_op registry out_snapshot =
     (case registry of
        Some f \<Rightarrow> if out_snapshot
          then (EV_OK, Some \<lparr>fs_records = take (fr_count f) (fr_records f)
                    @ replicate (EV_FAULT_STORE_CAPACITY - fr_count f) zero_fault,
                  fs_count = fr_count f, fs_emitted = fr_emitted f, fs_coalesced = fr_coalesced f,
                  fs_dropped = fr_dropped f\<rparr>)
          else (EV_ERR_INVALID_ARG, None)
      | None \<Rightarrow> (EV_ERR_INVALID_ARG, None))"

definition ev_fault_pending_count :: "ev_fault_registry option \<Rightarrow> nat" where
  "ev_fault_pending_count registry = (case registry of None \<Rightarrow> 0 | Some f \<Rightarrow> fr_count f)"

text \<open>The output is what is copied to \<open>out_records\<close>; \<open>memmove\<close> shifts what remains to the front.\<close>

definition ev_fault_drain ::
    "ev_fault_registry option \<Rightarrow> bool \<Rightarrow> nat \<Rightarrow> nat \<times> ev_fault_payload list \<times> ev_fault_registry option" where
  "ev_fault_drain registry out_records max_records =
     (if registry = None \<or> (\<not> out_records \<and> 0 < max_records) then (0, [], registry)
      else
        let f = the registry;
            n = (if fr_count f < max_records then fr_count f else max_records);
            remaining = fr_count f - n;
            rs = (if 0 < remaining
                  then take remaining (drop n (fr_records f)) @ drop remaining (fr_records f)
                  else fr_records f)
        in (n, take n (fr_records f), Some (f\<lparr>fr_records := rs, fr_count := remaining\<rparr>)))"

definition ev_fault_ack_all :: "ev_fault_registry option \<Rightarrow> ev_result \<times> ev_fault_registry option" where
  "ev_fault_ack_all registry =
     (case registry of None \<Rightarrow> (EV_ERR_INVALID_ARG, None) | Some f \<Rightarrow> (EV_OK, Some (f\<lparr>fr_count := 0\<rparr>)))"

section \<open>The registry as a list of distinct pending faults\<close>

definition fault_key :: "ev_fault_payload \<Rightarrow> ev_fault_id \<times> ev_actor_id \<times> ev_event_id" where
  "fault_key p = (fp_fault_id p, fp_source_actor p, fp_triggering_event p)"

lemma same_key_iff: "ev_fault_same_key a b \<longleftrightarrow> fault_key a = fault_key b"
  by (auto simp: ev_fault_same_key_def fault_key_def)

definition pending_faults :: "ev_fault_registry \<Rightarrow> ev_fault_payload list" where
  "pending_faults f = take (fr_count f) (fr_records f)"

definition faults_wf :: "ev_fault_registry \<Rightarrow> bool" where
  "faults_wf f \<longleftrightarrow> length (fr_records f) = EV_FAULT_STORE_CAPACITY \<and> fr_count f \<le> EV_FAULT_STORE_CAPACITY
     \<and> distinct (map fault_key (pending_faults f))"

text \<open>What emitting a fault must do to the pending list.\<close>

definition spec_emit :: "ev_fault_payload \<Rightarrow> ev_fault_payload list \<Rightarrow> ev_result \<times> ev_fault_payload list" where
  "spec_emit p fs =
     (if fault_key p \<in> fault_key ` set fs
      then (EV_OK, map (\<lambda>q. if fault_key q = fault_key p then q\<lparr>fp_counter := fp_counter q + 1\<rparr> else q) fs)
      else if length fs = EV_FAULT_STORE_CAPACITY then (EV_ERR_FULL, fs)
      else (EV_OK, fs @ [p\<lparr>fp_counter := 1\<rparr>]))"

lemma zero_faults_wf: "faults_wf zero_faults" "pending_faults zero_faults = []"
  by (simp_all add: faults_wf_def pending_faults_def zero_faults_def)

lemma length_pending_faults: "faults_wf f \<Longrightarrow> length (pending_faults f) = fr_count f"
  by (simp add: faults_wf_def pending_faults_def)

lemma fault_find_range:
  "case fault_find rs p i n of
     None \<Rightarrow> \<forall>k. i \<le> k \<and> k < i + n \<longrightarrow> fault_key (rs ! k) \<noteq> fault_key p
   | Some j \<Rightarrow> i \<le> j \<and> j < i + n \<and> fault_key (rs ! j) = fault_key p"
proof (induction n arbitrary: i)
  case (Suc n)
  show ?case
  proof (cases "fault_key (rs ! i) = fault_key p")
    case False
    then have "\<forall>k. i \<le> k \<and> k < i + Suc n \<longrightarrow> fault_key (rs ! k) \<noteq> fault_key p"
      if "\<forall>k. Suc i \<le> k \<and> k < Suc i + n \<longrightarrow> fault_key (rs ! k) \<noteq> fault_key p"
      using that by (metis Suc_leI add_Suc_right add_Suc_shift le_neq_implies_less)
    then show ?thesis using False Suc.IH [of "Suc i"] by (auto simp: same_key_iff split: option.splits)
  qed (simp add: same_key_iff)
qed auto

lemma emit_refines:
  assumes wf: "faults_wf f" and run: "ev_fault_emit (Some f) (Some p) = (rc, f')"
  shows "\<exists>f1. f' = Some f1 \<and> faults_wf f1 \<and> (rc, pending_faults f1) = spec_emit p (pending_faults f)
     \<and> fr_emitted f1 = fr_emitted f + 1"
proof -
  let ?rs = "fr_records f" and ?n = "fr_count f"
  have len: "length ?rs = 16" and n: "?n \<le> 16" and dist: "distinct (map fault_key (pending_faults f))"
    using wf by (simp_all add: faults_wf_def)
  have lp: "length (pending_faults f) = ?n" by (rule length_pending_faults [OF wf])
  have nth: "pending_faults f ! k = ?rs ! k" if "k < ?n" for k using that by (simp add: pending_faults_def)
  note R = fault_find_range [where rs = ?rs and p = p and i = 0 and n = ?n]
  show ?thesis
  proof (cases "fault_find ?rs p 0 ?n")
    case None
    then have fresh: "fault_key p \<notin> fault_key ` set (pending_faults f)"
      using R nth lp by (auto simp: set_conv_nth)
    show ?thesis
    proof (cases "?n = 16")
      case True
      then show ?thesis
        using run wf None fresh lp by (auto simp: ev_fault_emit_def spec_emit_def pending_faults_def faults_wf_def)
    next
      case False
      then have room: "?n < 16" using n by simp
      let ?f1 = "f\<lparr>fr_records := ?rs[?n := p\<lparr>fp_counter := 1\<rparr>], fr_count := ?n + 1, fr_emitted := fr_emitted f + 1\<rparr>"
      have "pending_faults ?f1 = pending_faults f @ [p\<lparr>fp_counter := 1\<rparr>]"
        using room len by (simp add: pending_faults_def take_Suc_conv_app_nth)
      moreover from this have "faults_wf ?f1"
        using room len dist fresh by (simp add: faults_wf_def fault_key_def image_iff)
      ultimately show ?thesis
        using run None fresh lp room by (auto simp: ev_fault_emit_def spec_emit_def)
    qed
  next
    case (Some i)
    then have i: "i < ?n" and k: "fault_key (?rs ! i) = fault_key p" using R by simp_all
    let ?r = "(?rs ! i)\<lparr>fp_counter := fp_counter (?rs ! i) + 1\<rparr>"
    let ?f1 = "f\<lparr>fr_records := ?rs[i := ?r], fr_coalesced := fr_coalesced f + 1, fr_emitted := fr_emitted f + 1\<rparr>"
    have p1: "pending_faults ?f1 = (pending_faults f)[i := ?r]"
      by (simp add: pending_faults_def take_update_swap)
    have same: "fault_key (pending_faults f ! j) = fault_key p \<longleftrightarrow> j = i" if "j < ?n" for j
      using dist that i k lp nth by (metis length_map nth_eq_iff_index_eq nth_map)
    have spec: "(pending_faults f)[i := ?r]
        = map (\<lambda>q. if fault_key q = fault_key p then q\<lparr>fp_counter := fp_counter q + 1\<rparr> else q) (pending_faults f)"
      using same i nth lp by (intro nth_equalityI) (auto simp: nth_list_update)
    have keys: "map fault_key ((pending_faults f)[i := ?r]) = map fault_key (pending_faults f)"
      using i lp nth by (simp add: map_update fault_key_def list_update_same_conv)
    have mem: "fault_key p \<in> fault_key ` set (pending_faults f)"
      using i k nth lp by (metis image_eqI nth_mem)
    have "faults_wf ?f1" using wf p1 keys by (simp add: faults_wf_def)
    then show ?thesis using run Some p1 spec mem by (auto simp: ev_fault_emit_def spec_emit_def)
  qed
qed

lemma drain_refines:
  assumes wf: "faults_wf f" and run: "ev_fault_drain (Some f) True m = (n, out, f')"
  shows "\<exists>f1. f' = Some f1 \<and> faults_wf f1 \<and> n = min m (length (pending_faults f))
     \<and> out = take m (pending_faults f) \<and> pending_faults f1 = drop m (pending_faults f)"
proof -
  have len: "length (fr_records f) = 16" and n: "fr_count f \<le> 16"
    and dist: "distinct (map fault_key (pending_faults f))"
    using wf by (simp_all add: faults_wf_def)
  let ?k = "min m (fr_count f)"
  have k: "(if fr_count f < m then fr_count f else m) = ?k" by (simp add: min_def)
  let ?f1 = "the f'"
  have eq: "n = ?k" "out = take ?k (fr_records f)" "f' = Some ?f1" "fr_count ?f1 = fr_count f - ?k"
    "fr_records ?f1 = (if 0 < fr_count f - ?k then take (fr_count f - ?k) (drop ?k (fr_records f))
        @ drop (fr_count f - ?k) (fr_records f) else fr_records f)"
    using run by (auto simp: ev_fault_drain_def Let_def k)
  have p1: "pending_faults ?f1 = drop m (pending_faults f)"
    using len n by (auto simp: pending_faults_def eq(4,5) drop_take min_def)
  have "faults_wf ?f1"
    using len n dist p1 by (auto simp: faults_wf_def eq(4,5) drop_map [symmetric] simp del: drop_map)
  then show ?thesis using eq p1 len n by (auto simp: pending_faults_def min_def)
qed

text \<open>A repeated fault keeps the severity of its first occurrence, also when it comes back as a graver one.\<close>

lemma coalescing_keeps_severity:
  assumes "q \<in> set fs" and "fault_key q = fault_key p" and "spec_emit p fs = (rc, fs')"
  shows "rc = EV_OK \<and> (\<exists>q' \<in> set fs'. fault_key q' = fault_key p \<and> fp_severity q' = fp_severity q)
     \<and> length fs' = length fs"
proof -
  have mem: "fault_key p \<in> fault_key ` set fs" using assms(1,2) by (metis image_eqI)
  then have fs': "rc = EV_OK" "fs' = map (\<lambda>q. if fault_key q = fault_key p then q\<lparr>fp_counter := fp_counter q + 1\<rparr> else q) fs"
    using assms(3) by (simp_all add: spec_emit_def)
  have "q\<lparr>fp_counter := fp_counter q + 1\<rparr> \<in> set fs'" using assms(1,2) unfolding fs'(2) by force
  moreover have "fault_key (q\<lparr>fp_counter := fp_counter q + 1\<rparr>) = fault_key p"
    using assms(2) by (simp add: fault_key_def)
  moreover have "length fs' = length fs" by (simp add: fs'(2))
  ultimately show ?thesis using fs'(1) by (auto intro: bexI [of _ "q\<lparr>fp_counter := fp_counter q + 1\<rparr>"])
qed

section \<open>Properties\<close>

text \<open>
  C34: The fault registry implements its specification. Emitting a fault counts it in place when a fault
  of the same id, source and event is pending, appends it with count one when it is new and there is
  room, and otherwise reports \<open>EV_ERR_FULL\<close> and changes no record; every emission is counted. Draining
  \<open>m\<close> records hands out the oldest \<open>m\<close> in order and keeps the rest. No key is ever pending twice.
\<close>

theorem fault_registry_refines:
  assumes "faults_wf f" and "ev_fault_emit (Some f) (Some p) = (rc, f1)" and "ev_fault_drain f1 True m = (n, out, f2)"
  shows "\<exists>g h. f1 = Some g \<and> f2 = Some h \<and> faults_wf g \<and> faults_wf h
     \<and> (rc, pending_faults g) = spec_emit p (pending_faults f) \<and> fr_emitted g = fr_emitted f + 1
     \<and> n = min m (ev_fault_pending_count f1) \<and> out = take m (pending_faults g)
     \<and> pending_faults h = drop m (pending_faults g)"
proof -
  obtain g where g: "f1 = Some g" "faults_wf g" "(rc, pending_faults g) = spec_emit p (pending_faults f)"
    "fr_emitted g = fr_emitted f + 1"
    using emit_refines [OF assms(1,2)] by blast
  then show ?thesis
    using drain_refines [OF g(2) assms(3) [unfolded g(1)]]
    by (auto simp: ev_fault_pending_count_def length_pending_faults)
qed

definition demo_fault :: "ev_fault_severity \<Rightarrow> ev_fault_payload" where
  "demo_fault sev = zero_fault\<lparr>fp_fault_id := 0x0102, fp_severity := sev, fp_source_actor := ACT_APP\<rparr>"

definition demo_faults :: ev_fault_registry where
  "demo_faults = the (snd (ev_fault_emit (Some zero_faults) (Some (demo_fault EV_FAULT_SEV_INFO))))"

lemma demo_faults_wf: "faults_wf demo_faults"
proof -
  obtain rc f1 where r: "ev_fault_emit (Some zero_faults) (Some (demo_fault EV_FAULT_SEV_INFO)) = (rc, f1)"
    by (rule prod.exhaust)
  then show ?thesis using emit_refines [OF zero_faults_wf(1) r] by (auto simp: demo_faults_def)
qed

theorem fault_registry_refines_witness:
  "\<exists>h. ev_fault_drain (snd (ev_fault_emit (Some demo_faults) (Some (demo_fault EV_FAULT_SEV_CRITICAL)))) True 4
       = (1, [(demo_fault EV_FAULT_SEV_INFO)\<lparr>fp_counter := 2\<rparr>], Some h)
     \<and> pending_faults h = []"
proof -
  obtain rc f1 where e: "ev_fault_emit (Some demo_faults) (Some (demo_fault EV_FAULT_SEV_CRITICAL)) = (rc, f1)"
    by (rule prod.exhaust)
  obtain n out f2 where d: "ev_fault_drain f1 True 4 = (n, out, f2)" by (rule prod_cases3)
  have "spec_emit (demo_fault EV_FAULT_SEV_CRITICAL) (pending_faults demo_faults)
      = (EV_OK, [(demo_fault EV_FAULT_SEV_INFO)\<lparr>fp_counter := 2\<rparr>])"
    by code_simp
  then show ?thesis
    using fault_registry_refines [OF demo_faults_wf e d] e d
    by (auto simp: ev_fault_pending_count_def length_pending_faults [symmetric])
qed

end
