(* ===== verification/EvPowerMachine.thy ===== *)
theory EvPowerMachine
  imports EvPrelude "HOL-Library.Sublist"
begin

text \<open>
  The sleep state machine (\<open>runtime/src/ev_power_state_machine.c\<close>,
  \<open>runtime/include/ev/power_state_machine.h\<close>): the states a node passes through on its way to deep sleep,
  the actions that move it, and the reachable states.
\<close>

section \<open>States, actions, operations\<close>

datatype ev_power_state =
    EV_POWER_STATE_ACTIVE
  | EV_POWER_STATE_SLEEP_REQUESTED
  | EV_POWER_STATE_DRAINING_RUNTIME
  | EV_POWER_STATE_LOG_FLUSHING
  | EV_POWER_STATE_PORTS_PREPARE_SLEEP
  | EV_POWER_STATE_RTC_STATE_SAVED
  | EV_POWER_STATE_ENTERING_DEEP_SLEEP
  | EV_POWER_STATE_WAKE_BOOT
  | EV_POWER_STATE_REJECTED
  | EV_POWER_STATE_FAILED

text \<open>An action outside the enumeration is representable and takes the \<open>default\<close> branch.\<close>

datatype ev_power_action =
    EV_POWER_ACTION_REQUEST_SLEEP
  | EV_POWER_ACTION_DRAIN_COMPLETE
  | EV_POWER_ACTION_DRAIN_REJECTED
  | EV_POWER_ACTION_LOG_FLUSH_COMPLETE
  | EV_POWER_ACTION_LOG_FLUSH_FAILED
  | EV_POWER_ACTION_PORTS_PREPARED
  | EV_POWER_ACTION_PORTS_PREPARE_FAILED
  | EV_POWER_ACTION_RTC_STATE_SAVED
  | EV_POWER_ACTION_RTC_STATE_SAVE_FAILED
  | EV_POWER_ACTION_DEEP_SLEEP_ENTERED
  | EV_POWER_ACTION_DEEP_SLEEP_FAILED
  | EV_POWER_ACTION_WAKE_BOOT
  | EV_POWER_ACTION_OTHER int

record ev_power_transition_input =
  pi_result :: ev_result
  pi_reason :: u32

record ev_power_transition_report =
  pt_previous_state :: ev_power_state
  pt_new_state :: ev_power_state
  pt_action :: ev_power_action
  pt_result :: ev_result
  pt_reason :: u32

record ev_power_state_machine =
  ps_state :: ev_power_state
  ps_previous_state :: ev_power_state
  ps_last_action :: ev_power_action
  ps_last_error :: ev_result
  ps_last_reason :: u32
  ps_transition_count :: u32

definition ev_power_state_machine_init :: "ev_power_state_machine option \<Rightarrow> ev_power_state_machine option" where
  "ev_power_state_machine_init sm = map_option (\<lambda>_. \<lparr>ps_state = EV_POWER_STATE_ACTIVE,
     ps_previous_state = EV_POWER_STATE_ACTIVE, ps_last_action = EV_POWER_ACTION_REQUEST_SLEEP,
     ps_last_error = EV_OK, ps_last_reason = 0, ps_transition_count = 0\<rparr>) sm"

fun ev_power_state_name :: "ev_power_state \<Rightarrow> string" where
  "ev_power_state_name EV_POWER_STATE_ACTIVE = ''ACTIVE''"
| "ev_power_state_name EV_POWER_STATE_SLEEP_REQUESTED = ''SLEEP_REQUESTED''"
| "ev_power_state_name EV_POWER_STATE_DRAINING_RUNTIME = ''DRAINING_RUNTIME''"
| "ev_power_state_name EV_POWER_STATE_LOG_FLUSHING = ''LOG_FLUSHING''"
| "ev_power_state_name EV_POWER_STATE_PORTS_PREPARE_SLEEP = ''PORTS_PREPARE_SLEEP''"
| "ev_power_state_name EV_POWER_STATE_RTC_STATE_SAVED = ''RTC_STATE_SAVED''"
| "ev_power_state_name EV_POWER_STATE_ENTERING_DEEP_SLEEP = ''ENTERING_DEEP_SLEEP''"
| "ev_power_state_name EV_POWER_STATE_WAKE_BOOT = ''WAKE_BOOT''"
| "ev_power_state_name EV_POWER_STATE_REJECTED = ''REJECTED''"
| "ev_power_state_name EV_POWER_STATE_FAILED = ''FAILED''"

fun ev_power_action_name :: "ev_power_action \<Rightarrow> string" where
  "ev_power_action_name EV_POWER_ACTION_REQUEST_SLEEP = ''REQUEST_SLEEP''"
| "ev_power_action_name EV_POWER_ACTION_DRAIN_COMPLETE = ''DRAIN_COMPLETE''"
| "ev_power_action_name EV_POWER_ACTION_DRAIN_REJECTED = ''DRAIN_REJECTED''"
| "ev_power_action_name EV_POWER_ACTION_LOG_FLUSH_COMPLETE = ''LOG_FLUSH_COMPLETE''"
| "ev_power_action_name EV_POWER_ACTION_LOG_FLUSH_FAILED = ''LOG_FLUSH_FAILED''"
| "ev_power_action_name EV_POWER_ACTION_PORTS_PREPARED = ''PORTS_PREPARED''"
| "ev_power_action_name EV_POWER_ACTION_PORTS_PREPARE_FAILED = ''PORTS_PREPARE_FAILED''"
| "ev_power_action_name EV_POWER_ACTION_RTC_STATE_SAVED = ''RTC_STATE_SAVED''"
| "ev_power_action_name EV_POWER_ACTION_RTC_STATE_SAVE_FAILED = ''RTC_STATE_SAVE_FAILED''"
| "ev_power_action_name EV_POWER_ACTION_DEEP_SLEEP_ENTERED = ''DEEP_SLEEP_ENTERED''"
| "ev_power_action_name EV_POWER_ACTION_DEEP_SLEEP_FAILED = ''DEEP_SLEEP_FAILED''"
| "ev_power_action_name EV_POWER_ACTION_WAKE_BOOT = ''WAKE_BOOT''"
| "ev_power_action_name (EV_POWER_ACTION_OTHER _) = ''UNKNOWN''"

text \<open>The state an allowed action leads to; \<open>None\<close> where the code answers 0.\<close>

fun ev_power_transition_allowed :: "ev_power_state \<Rightarrow> ev_power_action \<Rightarrow> ev_power_state option" where
  "ev_power_transition_allowed s EV_POWER_ACTION_REQUEST_SLEEP =
     (if s = EV_POWER_STATE_ACTIVE then Some EV_POWER_STATE_SLEEP_REQUESTED else None)"
| "ev_power_transition_allowed s EV_POWER_ACTION_DRAIN_COMPLETE =
     (if s = EV_POWER_STATE_SLEEP_REQUESTED then Some EV_POWER_STATE_DRAINING_RUNTIME else None)"
| "ev_power_transition_allowed s EV_POWER_ACTION_DRAIN_REJECTED =
     (if s = EV_POWER_STATE_SLEEP_REQUESTED \<or> s = EV_POWER_STATE_DRAINING_RUNTIME
      then Some EV_POWER_STATE_REJECTED else None)"
| "ev_power_transition_allowed s EV_POWER_ACTION_LOG_FLUSH_COMPLETE =
     (if s = EV_POWER_STATE_DRAINING_RUNTIME then Some EV_POWER_STATE_LOG_FLUSHING else None)"
| "ev_power_transition_allowed s EV_POWER_ACTION_LOG_FLUSH_FAILED =
     (if s = EV_POWER_STATE_DRAINING_RUNTIME \<or> s = EV_POWER_STATE_LOG_FLUSHING
      then Some EV_POWER_STATE_FAILED else None)"
| "ev_power_transition_allowed s EV_POWER_ACTION_PORTS_PREPARED =
     (if s = EV_POWER_STATE_LOG_FLUSHING then Some EV_POWER_STATE_PORTS_PREPARE_SLEEP else None)"
| "ev_power_transition_allowed s EV_POWER_ACTION_PORTS_PREPARE_FAILED =
     (if s = EV_POWER_STATE_LOG_FLUSHING \<or> s = EV_POWER_STATE_PORTS_PREPARE_SLEEP
      then Some EV_POWER_STATE_FAILED else None)"
| "ev_power_transition_allowed s EV_POWER_ACTION_RTC_STATE_SAVED =
     (if s = EV_POWER_STATE_PORTS_PREPARE_SLEEP then Some EV_POWER_STATE_RTC_STATE_SAVED else None)"
| "ev_power_transition_allowed s EV_POWER_ACTION_RTC_STATE_SAVE_FAILED =
     (if s = EV_POWER_STATE_PORTS_PREPARE_SLEEP then Some EV_POWER_STATE_FAILED else None)"
| "ev_power_transition_allowed s EV_POWER_ACTION_DEEP_SLEEP_ENTERED =
     (if s = EV_POWER_STATE_RTC_STATE_SAVED then Some EV_POWER_STATE_ENTERING_DEEP_SLEEP else None)"
| "ev_power_transition_allowed s EV_POWER_ACTION_DEEP_SLEEP_FAILED =
     (if s = EV_POWER_STATE_RTC_STATE_SAVED \<or> s = EV_POWER_STATE_ENTERING_DEEP_SLEEP
      then Some EV_POWER_STATE_FAILED else None)"
| "ev_power_transition_allowed s EV_POWER_ACTION_WAKE_BOOT =
     (if s = EV_POWER_STATE_WAKE_BOOT \<or> s = EV_POWER_STATE_ENTERING_DEEP_SLEEP
         \<or> s = EV_POWER_STATE_FAILED \<or> s = EV_POWER_STATE_REJECTED
      then Some EV_POWER_STATE_ACTIVE else None)"
| "ev_power_transition_allowed s (EV_POWER_ACTION_OTHER _) = None"

text \<open>The report is what a caller that passes one finds in it.\<close>

definition ev_power_state_machine_step ::
    "ev_power_state_machine option \<Rightarrow> ev_power_action \<Rightarrow> ev_power_transition_input option
       \<Rightarrow> ev_result \<times> ev_power_transition_report option \<times> ev_power_state_machine option" where
  "ev_power_state_machine_step psm action input =
     (let input_result = (case input of None \<Rightarrow> EV_OK | Some i \<Rightarrow> pi_result i);
          input_reason = (case input of None \<Rightarrow> 0 | Some i \<Rightarrow> pi_reason i)
      in case psm of
           None \<Rightarrow> (EV_ERR_INVALID_ARG, None, None)
         | Some sm \<Rightarrow>
             (let previous = ps_state sm
              in case ev_power_transition_allowed previous action of
                   None \<Rightarrow>
                     (EV_ERR_STATE,
                      Some \<lparr>pt_previous_state = previous, pt_new_state = ps_state sm, pt_action = action,
                            pt_result = EV_ERR_STATE, pt_reason = input_reason\<rparr>,
                      Some (sm\<lparr>ps_previous_state := previous, ps_last_action := action,
                               ps_last_error := EV_ERR_STATE, ps_last_reason := input_reason\<rparr>))
                 | Some next_state \<Rightarrow>
                     (EV_OK,
                      Some \<lparr>pt_previous_state = previous, pt_new_state = next_state, pt_action = action,
                            pt_result = input_result, pt_reason = input_reason\<rparr>,
                      Some (sm\<lparr>ps_previous_state := previous, ps_state := next_state, ps_last_action := action,
                               ps_last_error := input_result, ps_last_reason := input_reason,
                               ps_transition_count := ps_transition_count sm + 1\<rparr>))))"

section \<open>The step relation\<close>

text \<open>One call of \<open>ev_power_state_machine_step\<close>, accepted or refused, with any input.\<close>

inductive power_step :: "ev_power_state_machine \<Rightarrow> ev_power_action \<Rightarrow> ev_power_state_machine \<Rightarrow> bool" where
  accepted: "ev_power_transition_allowed (ps_state sm) action = Some st \<Longrightarrow>
     ev_power_state_machine_step (Some sm) action input = (EV_OK, rep, Some sm') \<Longrightarrow> power_step sm action sm'"
| refused: "ev_power_transition_allowed (ps_state sm) action = None \<Longrightarrow>
     ev_power_state_machine_step (Some sm) action input = (EV_ERR_STATE, rep, Some sm') \<Longrightarrow> power_step sm action sm'"

inductive_cases power_stepE: "power_step sm action sm'"
inductive_simps power_step_simps: "power_step sm action sm'"

text \<open>Runs of the machine: the actions performed, and the machine after them.\<close>

inductive power_run :: "ev_power_state_machine \<Rightarrow> ev_power_action list \<Rightarrow> ev_power_state_machine \<Rightarrow> bool" where
  start: "power_run sm [] sm"
| step: "power_run sm acts sm1 \<Longrightarrow> power_step sm1 action sm2 \<Longrightarrow> power_run sm (acts @ [action]) sm2"

definition fresh_machine :: ev_power_state_machine where
  "fresh_machine = \<lparr>ps_state = EV_POWER_STATE_ACTIVE, ps_previous_state = EV_POWER_STATE_ACTIVE,
     ps_last_action = EV_POWER_ACTION_REQUEST_SLEEP, ps_last_error = EV_OK, ps_last_reason = 0,
     ps_transition_count = 0\<rparr>"

lemma init_fresh: "ev_power_state_machine_init (Some sm) = Some fresh_machine"
  by (simp add: ev_power_state_machine_init_def fresh_machine_def)

lemma power_step_iff:
  "power_step sm action sm' \<longleftrightarrow> (\<exists>input rc rep. ev_power_state_machine_step (Some sm) action input = (rc, rep, Some sm'))"
  by (cases "ev_power_transition_allowed (ps_state sm) action")
    (auto simp: power_step_simps ev_power_state_machine_step_def Let_def)

lemma power_step_state:
  assumes "power_step sm action sm'"
  shows "ps_state sm' = (case ev_power_transition_allowed (ps_state sm) action of None \<Rightarrow> ps_state sm | Some st \<Rightarrow> st)"
    and "ps_previous_state sm' = ps_state sm"
    and "ps_transition_count sm' = ps_transition_count sm
          + (if ev_power_transition_allowed (ps_state sm) action = None then 0 else 1)"
  using assms by (auto elim!: power_stepE simp: ev_power_state_machine_step_def Let_def)

text \<open>
  How far the machine is along the sleep sequence: the actions that must have succeeded, in order, since
  it was last active.
\<close>

fun sleep_progress :: "ev_power_state \<Rightarrow> ev_power_action list option" where
  "sleep_progress EV_POWER_STATE_ACTIVE = Some []"
| "sleep_progress EV_POWER_STATE_SLEEP_REQUESTED = Some [EV_POWER_ACTION_REQUEST_SLEEP]"
| "sleep_progress EV_POWER_STATE_DRAINING_RUNTIME
     = Some [EV_POWER_ACTION_REQUEST_SLEEP, EV_POWER_ACTION_DRAIN_COMPLETE]"
| "sleep_progress EV_POWER_STATE_LOG_FLUSHING
     = Some [EV_POWER_ACTION_REQUEST_SLEEP, EV_POWER_ACTION_DRAIN_COMPLETE, EV_POWER_ACTION_LOG_FLUSH_COMPLETE]"
| "sleep_progress EV_POWER_STATE_PORTS_PREPARE_SLEEP
     = Some [EV_POWER_ACTION_REQUEST_SLEEP, EV_POWER_ACTION_DRAIN_COMPLETE, EV_POWER_ACTION_LOG_FLUSH_COMPLETE,
         EV_POWER_ACTION_PORTS_PREPARED]"
| "sleep_progress EV_POWER_STATE_RTC_STATE_SAVED
     = Some [EV_POWER_ACTION_REQUEST_SLEEP, EV_POWER_ACTION_DRAIN_COMPLETE, EV_POWER_ACTION_LOG_FLUSH_COMPLETE,
         EV_POWER_ACTION_PORTS_PREPARED, EV_POWER_ACTION_RTC_STATE_SAVED]"
| "sleep_progress EV_POWER_STATE_ENTERING_DEEP_SLEEP
     = Some [EV_POWER_ACTION_REQUEST_SLEEP, EV_POWER_ACTION_DRAIN_COMPLETE, EV_POWER_ACTION_LOG_FLUSH_COMPLETE,
         EV_POWER_ACTION_PORTS_PREPARED, EV_POWER_ACTION_RTC_STATE_SAVED, EV_POWER_ACTION_DEEP_SLEEP_ENTERED]"
| "sleep_progress _ = None"

lemma progress_extends:
  "ev_power_transition_allowed s a = Some t \<Longrightarrow> sleep_progress t = Some seq \<Longrightarrow>
   t = EV_POWER_STATE_ACTIVE \<or> (\<exists>seq0. sleep_progress s = Some seq0 \<and> seq = seq0 @ [a])"
  by (cases a) (auto split: if_splits)

lemma wake_boot_not_entered: "ev_power_transition_allowed s a \<noteq> Some EV_POWER_STATE_WAKE_BOOT"
  by (cases a) auto

lemma power_run_progress:
  assumes "power_run sm acts sm'"
  shows "ps_state sm = EV_POWER_STATE_ACTIVE \<Longrightarrow> sleep_progress (ps_state sm') = Some seq \<Longrightarrow> subseq seq acts"
  using assms
proof (induction arbitrary: seq rule: power_run.induct)
  case (step sm acts sm1 a sm2)
  show ?case
  proof (cases "ev_power_transition_allowed (ps_state sm1) a")
    case None
    then have "ps_state sm2 = ps_state sm1" using power_step_state(1) [OF step.hyps(2)] by simp
    then show ?thesis using step.IH step.prems by (simp add: subseq_rev_drop_many)
  next
    case (Some t)
    then have t: "ps_state sm2 = t" using power_step_state(1) [OF step.hyps(2)] by simp
    show ?thesis
    proof (cases "t = EV_POWER_STATE_ACTIVE")
      case True
      then show ?thesis using step.prems t by simp
    next
      case False
      obtain seq0 where "sleep_progress (ps_state sm1) = Some seq0" "seq = seq0 @ [a]"
        using progress_extends [OF Some] step.prems(2) t False by auto
      then show ?thesis
        using step.IH step.prems(1) by (simp add: list_emb_append_mono)
    qed
  qed
qed simp

lemma power_run_no_wake_boot:
  assumes "power_run sm acts sm'"
  shows "ps_state sm \<noteq> EV_POWER_STATE_WAKE_BOOT \<Longrightarrow> ps_state sm' \<noteq> EV_POWER_STATE_WAKE_BOOT"
  using assms
proof (induction rule: power_run.induct)
  case (step sm acts sm1 a sm2)
  then show ?case
    using power_step_state(1) [OF step.hyps(2)] wake_boot_not_entered
    by (auto split: option.splits)
qed simp

text \<open>The executable run of a list of actions without inputs.\<close>

definition power_do :: "ev_power_state_machine \<Rightarrow> ev_power_action list \<Rightarrow> ev_power_state_machine" where
  "power_do = foldl (\<lambda>sm a. the (snd (snd (ev_power_state_machine_step (Some sm) a None))))"

lemma power_do_run: "power_run sm acts (power_do sm acts)"
proof (induction acts rule: rev_induct)
  case Nil
  then show ?case by (simp add: power_do_def power_run.start)
next
  case (snoc a acts)
  let ?sm1 = "power_do sm acts"
  have "\<exists>rc rep sm2. ev_power_state_machine_step (Some ?sm1) a None = (rc, rep, Some sm2)"
    by (simp add: ev_power_state_machine_step_def Let_def split: option.split)
  then obtain rc rep sm2 where s: "ev_power_state_machine_step (Some ?sm1) a None = (rc, rep, Some sm2)" by blast
  then have "power_step ?sm1 a sm2" using power_step_iff by blast
  moreover have "power_do sm (acts @ [a]) = sm2" using s by (simp add: power_do_def)
  ultimately show ?case using power_run.step [OF snoc.IH] by simp
qed

text \<open>From every state but one, the action that gets the machine out of the sleep sequence.\<close>

fun way_out :: "ev_power_state \<Rightarrow> ev_power_action list" where
  "way_out EV_POWER_STATE_ACTIVE = []"
| "way_out EV_POWER_STATE_SLEEP_REQUESTED = [EV_POWER_ACTION_DRAIN_REJECTED, EV_POWER_ACTION_WAKE_BOOT]"
| "way_out EV_POWER_STATE_DRAINING_RUNTIME = [EV_POWER_ACTION_DRAIN_REJECTED, EV_POWER_ACTION_WAKE_BOOT]"
| "way_out EV_POWER_STATE_LOG_FLUSHING = [EV_POWER_ACTION_LOG_FLUSH_FAILED, EV_POWER_ACTION_WAKE_BOOT]"
| "way_out EV_POWER_STATE_PORTS_PREPARE_SLEEP = [EV_POWER_ACTION_RTC_STATE_SAVE_FAILED, EV_POWER_ACTION_WAKE_BOOT]"
| "way_out EV_POWER_STATE_RTC_STATE_SAVED = [EV_POWER_ACTION_DEEP_SLEEP_FAILED, EV_POWER_ACTION_WAKE_BOOT]"
| "way_out _ = [EV_POWER_ACTION_WAKE_BOOT]"

lemma way_out_active: "ps_state (power_do sm (way_out (ps_state sm))) = EV_POWER_STATE_ACTIVE"
  by (cases "ps_state sm") (simp_all add: power_do_def ev_power_state_machine_step_def Let_def)

section \<open>Properties\<close>

text \<open>
  No step of the sleep sequence can be skipped. Starting from an initialised machine, over any
  sequence of calls with any inputs, accepted or refused, the machine can only be in a state of the
  sleep sequence if all actions that lead there have been performed in their order; in particular the
  node enters deep sleep only after the request, the drain, the log flush, the port preparation and
  the saving of the RTC state. \<open>EV_POWER_STATE_WAKE_BOOT\<close> is never reached.
\<close>

theorem sleep_sequence_in_order:
  assumes "ev_power_state_machine_init (Some sm0) = Some sm" and "power_run sm acts sm'"
  shows "(\<forall>seq. sleep_progress (ps_state sm') = Some seq \<longrightarrow> subseq seq acts)
     \<and> (ps_state sm' = EV_POWER_STATE_ENTERING_DEEP_SLEEP \<longrightarrow>
          subseq [EV_POWER_ACTION_REQUEST_SLEEP, EV_POWER_ACTION_DRAIN_COMPLETE, EV_POWER_ACTION_LOG_FLUSH_COMPLETE,
            EV_POWER_ACTION_PORTS_PREPARED, EV_POWER_ACTION_RTC_STATE_SAVED, EV_POWER_ACTION_DEEP_SLEEP_ENTERED] acts)
     \<and> ps_state sm' \<noteq> EV_POWER_STATE_WAKE_BOOT"
proof -
  have sm: "ps_state sm = EV_POWER_STATE_ACTIVE" using assms(1) by (auto simp: init_fresh fresh_machine_def)
  have P: "\<And>seq. sleep_progress (ps_state sm') = Some seq \<Longrightarrow> subseq seq acts"
    by (rule power_run_progress [OF assms(2) sm])
  have "ps_state sm' \<noteq> EV_POWER_STATE_WAKE_BOOT" by (rule power_run_no_wake_boot [OF assms(2)]) (simp add: sm)
  then show ?thesis using P by simp
qed

text \<open>
  The node can always become active again. From every state there is a sequence of at most two
  accepted actions back to \<open>EV_POWER_STATE_ACTIVE\<close>: whatever failed or was rejected, the machine is
  never stuck.
\<close>

theorem power_machine_recovers:
  "\<exists>acts sm'. length acts \<le> 2 \<and> power_run sm acts sm' \<and> ps_state sm' = EV_POWER_STATE_ACTIVE"
proof (intro exI conjI)
  show "length (way_out (ps_state sm)) \<le> 2" by (cases "ps_state sm") simp_all
  show "power_run sm (way_out (ps_state sm)) (power_do sm (way_out (ps_state sm)))" by (rule power_do_run)
  show "ps_state (power_do sm (way_out (ps_state sm))) = EV_POWER_STATE_ACTIVE" by (rule way_out_active)
qed

theorem sleep_sequence_in_order_witness:
  "ps_state (power_do fresh_machine [EV_POWER_ACTION_REQUEST_SLEEP, EV_POWER_ACTION_PORTS_PREPARED,
       EV_POWER_ACTION_DRAIN_COMPLETE]) = EV_POWER_STATE_DRAINING_RUNTIME
   \<and> subseq [EV_POWER_ACTION_REQUEST_SLEEP, EV_POWER_ACTION_DRAIN_COMPLETE]
       [EV_POWER_ACTION_REQUEST_SLEEP, EV_POWER_ACTION_PORTS_PREPARED, EV_POWER_ACTION_DRAIN_COMPLETE]"
proof -
  let ?acts = "[EV_POWER_ACTION_REQUEST_SLEEP, EV_POWER_ACTION_PORTS_PREPARED, EV_POWER_ACTION_DRAIN_COMPLETE]"
  have "ps_state (power_do fresh_machine ?acts) = EV_POWER_STATE_DRAINING_RUNTIME" by code_simp
  then show ?thesis
    using sleep_sequence_in_order [OF init_fresh [of fresh_machine] power_do_run [of fresh_machine ?acts]] by simp
qed

end
