(* ===== verification/EvTimerService.thy ===== *)
theory EvTimerService
  imports EvMsg
begin

text \<open>
  The timer service (\<open>runtime/src/ev_timer_service.c\<close>, \<open>runtime/include/ev/timer_service.h\<close>): sixteen
  one-shot or periodic timers on a wrapping 32-bit millisecond clock, addressed by tokens with a
  generation. The callback that publishes a due timer is a parameter: a delivery function on a state
  of the caller's.
\<close>

section \<open>State and operations\<close>

abbreviation EV_TIMER_SERVICE_CAPACITY :: nat where "EV_TIMER_SERVICE_CAPACITY \<equiv> 16"

record ev_timer_token =
  tk_slot :: u16
  tk_generation :: u16

record ev_timer_slot =
  ts_active :: u8
  ts_periodic :: u8
  ts_generation :: u16
  ts_deadline_ms :: u32
  ts_period_ms :: u32
  ts_target_actor :: ev_actor_id
  ts_event_id :: ev_event_id
  ts_arg0 :: u32

record ev_timer_service =
  tm_slots :: "ev_timer_slot list"
  tm_scheduled :: u32
  tm_cancelled :: u32
  tm_published :: u32

type_synonym 's ev_timer_publish_fn = "ev_actor_id \<Rightarrow> ev_msg \<Rightarrow> 's \<Rightarrow> ev_result \<times> 's"

definition zero_timer_slot :: ev_timer_slot where
  "zero_timer_slot = \<lparr>ts_active = 0, ts_periodic = 0, ts_generation = 0, ts_deadline_ms = 0, ts_period_ms = 0,
     ts_target_actor = 0, ts_event_id = 0, ts_arg0 = 0\<rparr>"

definition zero_timers :: ev_timer_service where
  "zero_timers = \<lparr>tm_slots = replicate EV_TIMER_SERVICE_CAPACITY zero_timer_slot, tm_scheduled = 0,
     tm_cancelled = 0, tm_published = 0\<rparr>"

definition ev_timer_token_valid :: "ev_timer_service option \<Rightarrow> ev_timer_token \<Rightarrow> bool" where
  "ev_timer_token_valid svc token =
     (case svc of None \<Rightarrow> False
      | Some t \<Rightarrow> unat (tk_slot token) < EV_TIMER_SERVICE_CAPACITY
          \<and> ts_active (tm_slots t ! unat (tk_slot token)) \<noteq> 0
          \<and> ts_generation (tm_slots t ! unat (tk_slot token)) = tk_generation token)"

text \<open>The wrapped difference, read as a signed number, is not negative.\<close>

definition ev_timer_is_due :: "u32 \<Rightarrow> u32 \<Rightarrow> bool" where
  "ev_timer_is_due now_ms deadline_ms \<longleftrightarrow> 0 \<le> sint (now_ms - deadline_ms)"

definition ev_timer_service_init :: "ev_timer_service option \<Rightarrow> ev_timer_service option" where
  "ev_timer_service_init svc = map_option (\<lambda>_. zero_timers) svc"

text \<open>The search for a free slot among \<open>n\<close> from index \<open>i\<close>.\<close>

primrec timer_find_free :: "ev_timer_slot list \<Rightarrow> nat \<Rightarrow> nat \<Rightarrow> nat option" where
  "timer_find_free slots i 0 = None"
| "timer_find_free slots i (Suc n) =
     (if ts_active (slots ! i) = 0 then Some i else timer_find_free slots (Suc i) n)"

definition timer_next_generation :: "u16 \<Rightarrow> u16" where
  "timer_next_generation g = (if g + 1 = 0 then 1 else g + 1)"

definition ev_timer_schedule ::
    "ev_timer_service option \<Rightarrow> u32 \<Rightarrow> u32 \<Rightarrow> ev_actor_id \<Rightarrow> ev_event_id \<Rightarrow> u32 \<Rightarrow> u8 \<Rightarrow> bool
       \<Rightarrow> ev_result \<times> ev_timer_token option \<times> ev_timer_service option" where
  "ev_timer_schedule svc now_ms delay_ms target_actor event_id arg0 periodic out_token =
     (if svc = None \<or> \<not> out_token \<or> delay_ms = 0 then (EV_ERR_INVALID_ARG, None, svc)
      else
        let t = the svc
        in case timer_find_free (tm_slots t) 0 EV_TIMER_SERVICE_CAPACITY of
             None \<Rightarrow> (EV_ERR_FULL, None, svc)
           | Some i \<Rightarrow>
               let slot = (tm_slots t ! i)\<lparr>ts_active := 1, ts_periodic := periodic,
                     ts_generation := timer_next_generation (ts_generation (tm_slots t ! i)),
                     ts_deadline_ms := now_ms + delay_ms, ts_period_ms := delay_ms,
                     ts_target_actor := target_actor, ts_event_id := event_id, ts_arg0 := arg0\<rparr>
               in (EV_OK, Some \<lparr>tk_slot = of_nat i, tk_generation = ts_generation slot\<rparr>,
                   Some (t\<lparr>tm_slots := (tm_slots t)[i := slot], tm_scheduled := tm_scheduled t + 1\<rparr>)))"

definition ev_timer_schedule_oneshot ::
    "ev_timer_service option \<Rightarrow> u32 \<Rightarrow> u32 \<Rightarrow> ev_actor_id \<Rightarrow> ev_event_id \<Rightarrow> u32 \<Rightarrow> bool
       \<Rightarrow> ev_result \<times> ev_timer_token option \<times> ev_timer_service option" where
  "ev_timer_schedule_oneshot svc now_ms delay_ms target_actor event_id arg0 out_token =
     ev_timer_schedule svc now_ms delay_ms target_actor event_id arg0 0 out_token"

definition ev_timer_schedule_periodic ::
    "ev_timer_service option \<Rightarrow> u32 \<Rightarrow> u32 \<Rightarrow> ev_actor_id \<Rightarrow> ev_event_id \<Rightarrow> u32 \<Rightarrow> bool
       \<Rightarrow> ev_result \<times> ev_timer_token option \<times> ev_timer_service option" where
  "ev_timer_schedule_periodic svc now_ms period_ms target_actor event_id arg0 out_token =
     ev_timer_schedule svc now_ms period_ms target_actor event_id arg0 1 out_token"

definition ev_timer_cancel ::
    "ev_timer_service option \<Rightarrow> ev_timer_token \<Rightarrow> ev_result \<times> ev_timer_service option" where
  "ev_timer_cancel svc token =
     (if \<not> ev_timer_token_valid svc token then (EV_ERR_NOT_FOUND, svc)
      else
        let t = the svc; i = unat (tk_slot token)
        in (EV_OK, Some (t\<lparr>tm_slots := (tm_slots t)[i := (tm_slots t ! i)\<lparr>ts_active := 0\<rparr>],
                           tm_cancelled := tm_cancelled t + 1\<rparr>)))"

text \<open>The bytes of a 32-bit integer in memory, least significant first, as on the target.\<close>

definition u32_bytes :: "u32 \<Rightarrow> u8 list" where
  "u32_bytes x = map (\<lambda>i. ucast (drop_bit (8 * i) x)) [0..<4]"

text \<open>
  The message of a due timer; \<open>None\<close> where \<open>ev_msg_init_send\<close> refuses its ids. The envelope is fresh, so
  attaching the argument releases nothing and needs no payload callbacks. A refusal to attach it is
  ignored, as in the code.
\<close>

definition timer_msg :: "ev_timer_slot \<Rightarrow> ev_msg option" where
  "timer_msg slot =
     (let (rc, msg) = ev_msg_init_send (Some zero_msg) (ts_event_id slot) ACT_RUNTIME (ts_target_actor slot)
      in if rc = EV_OK
         then fst (snd (ev_msg_set_inline_payload no_lifecycle msg (Some (u32_bytes (ts_arg0 slot))) 4 ()))
         else None)"

text \<open>The loop of \<open>ev_timer_publish_due\<close>: \<open>n\<close> more slots from index \<open>i\<close>.\<close>

primrec timer_due_loop ::
    "'s ev_timer_publish_fn \<Rightarrow> u32 \<Rightarrow> nat \<Rightarrow> nat \<Rightarrow> nat \<Rightarrow> nat \<Rightarrow> ev_timer_service \<Rightarrow> 's
       \<Rightarrow> nat \<times> ev_timer_service \<times> 's" where
  "timer_due_loop publish now_ms max_publish 0 i published t c = (published, t, c)"
| "timer_due_loop publish now_ms max_publish (Suc n) i published t c =
     (if max_publish \<le> published then (published, t, c)
      else
        let slot = tm_slots t ! i
        in if ts_active slot \<noteq> 0 \<and> ev_timer_is_due now_ms (ts_deadline_ms slot)
           then
             let (published, t, c) =
                   (case timer_msg slot of
                      None \<Rightarrow> (published, t, c)
                    | Some msg \<Rightarrow>
                        let (rc, c1) = publish (ts_target_actor slot) msg c
                        in if rc = EV_OK
                           then (published + 1, t\<lparr>tm_published := tm_published t + 1\<rparr>, c1)
                           else (published, t, c1));
                 slot = (if ts_periodic slot \<noteq> 0
                         then slot\<lparr>ts_deadline_ms := ts_deadline_ms slot + ts_period_ms slot\<rparr>
                         else slot\<lparr>ts_active := 0\<rparr>)
             in timer_due_loop publish now_ms max_publish n (Suc i) published
                  (t\<lparr>tm_slots := (tm_slots t)[i := slot]\<rparr>) c
           else timer_due_loop publish now_ms max_publish n (Suc i) published t c)"

definition ev_timer_publish_due ::
    "ev_timer_service option \<Rightarrow> u32 \<Rightarrow> 's ev_timer_publish_fn option \<Rightarrow> nat \<Rightarrow> 's
       \<Rightarrow> nat \<times> ev_timer_service option \<times> 's" where
  "ev_timer_publish_due svc now_ms publish max_publish c =
     (case (svc, publish) of
        (Some t, Some p) \<Rightarrow>
          if max_publish = 0 then (0, svc, c)
          else let (n, t, c) = timer_due_loop p now_ms max_publish EV_TIMER_SERVICE_CAPACITY 0 0 t c
               in (n, Some t, c)
      | _ \<Rightarrow> (0, svc, c))"

text \<open>The search of \<open>ev_timer_next_deadline_ms\<close>; the accumulator is \<open>best\<close> where one was found.\<close>

primrec timer_best_loop :: "ev_timer_slot list \<Rightarrow> nat \<Rightarrow> nat \<Rightarrow> u32 option \<Rightarrow> u32 option" where
  "timer_best_loop slots i 0 best = best"
| "timer_best_loop slots i (Suc n) best =
     (let slot = slots ! i
      in timer_best_loop slots (Suc i) n
           (if ts_active slot \<noteq> 0
            then (case best of
                    None \<Rightarrow> Some (ts_deadline_ms slot)
                  | Some b \<Rightarrow> if sint (ts_deadline_ms slot - b) < 0 then Some (ts_deadline_ms slot) else best)
            else best))"

definition ev_timer_next_deadline_ms :: "ev_timer_service option \<Rightarrow> bool \<Rightarrow> ev_result \<times> u32 option" where
  "ev_timer_next_deadline_ms svc out_deadline_ms =
     (if svc = None \<or> \<not> out_deadline_ms then (EV_ERR_INVALID_ARG, None)
      else case timer_best_loop (tm_slots (the svc)) 0 EV_TIMER_SERVICE_CAPACITY None of
             None \<Rightarrow> (EV_ERR_NOT_FOUND, None)
           | Some best \<Rightarrow> (EV_OK, Some best))"

definition ev_timer_pending_count :: "ev_timer_service option \<Rightarrow> nat" where
  "ev_timer_pending_count svc =
     (case svc of None \<Rightarrow> 0
      | Some t \<Rightarrow> length (filter (\<lambda>i. ts_active (tm_slots t ! i) \<noteq> 0) [0..<EV_TIMER_SERVICE_CAPACITY]))"

section \<open>Deadlines on the wrapping clock\<close>

lemma unat_u32_lt: "unat (x::u32) < 2 ^ 32"
proof -
  have "unat x < 2 ^ LENGTH(32)" by (rule unsigned_less)
  then show ?thesis by simp
qed

lemma sint_nonneg_iff: "0 \<le> sint (x::u32) \<longleftrightarrow> unat x < 2 ^ 31"
proof -
  have "sint x < 0 \<longleftrightarrow> bit x 31" using bit_last_iff [of x] by simp
  also have "\<dots> \<longleftrightarrow> bit (unat x) 31" by (simp add: bit_unsigned_iff)
  also have "\<dots> \<longleftrightarrow> odd (unat x div 2 ^ 31)" by (rule bit_iff_odd)
  also have "\<dots> \<longleftrightarrow> 2 ^ 31 \<le> unat x"
  proof
    assume "odd (unat x div 2 ^ 31)"
    then show "2 ^ 31 \<le> unat x" by (metis div_less even_zero not_le)
  next
    assume "2 ^ 31 \<le> unat x"
    moreover have "unat x < 2 ^ 32" by (rule unat_u32_lt)
    ultimately have "unat x div 2 ^ 31 = 1" by (intro div_nat_eqI) simp_all
    then show "odd (unat x div 2 ^ 31)" by simp
  qed
  finally show ?thesis by auto
qed

lemma unat_neg_u32: "d \<noteq> 0 \<Longrightarrow> unat (- d :: u32) = 2 ^ 32 - unat d"
proof -
  assume "d \<noteq> 0"
  then have pos: "0 < unat d" by (metis neq0_conv unat_eq_0)
  have le: "unat d \<le> 2 ^ 32" using unat_u32_lt [of d] by simp
  have "of_nat (2 ^ 32 - unat d) = (of_nat (2 ^ 32) - of_nat (unat d) :: u32)" by (rule of_nat_diff [OF le])
  then have "- d = of_nat (2 ^ 32 - unat d)" by simp
  then have "unat (- d) = unat (of_nat (2 ^ 32 - unat d) :: u32)" by (simp only:)
  also have "\<dots> = 2 ^ 32 - unat d"
    unfolding unat_of_nat using pos by simp
  finally show ?thesis .
qed

lemma due_iff: "ev_timer_is_due now dl \<longleftrightarrow> unat (now - dl) < 2 ^ 31"
  by (simp add: ev_timer_is_due_def sint_nonneg_iff)

text \<open>
  A timer armed at \<open>now\<close> with a delay up to \<open>2 ^ 31 - 1\<close> is due exactly from the delay on, for as long as
  the half range lasts, wherever the clock wraps.
\<close>

lemma due_after_delay:
  assumes d: "unat (delay::u32) < 2 ^ 31" and e: "unat (elapsed::u32) < 2 ^ 31"
  shows "ev_timer_is_due (now + elapsed) (now + delay) \<longleftrightarrow> unat delay \<le> unat elapsed"
proof -
  have eq: "now + elapsed - (now + delay) = elapsed - delay" by simp
  show ?thesis
  proof (cases "unat delay \<le> unat elapsed")
    case True
    then have "delay \<le> elapsed" by (simp add: word_le_nat_alt)
    then have "unat (elapsed - delay) = unat elapsed - unat delay" by (rule unat_sub)
    then show ?thesis using True e by (simp add: due_iff eq)
  next
    case False
    then have lt: "elapsed < delay" by (simp add: word_less_nat_alt)
    then have "unat (delay - elapsed) = unat delay - unat elapsed" by (intro unat_sub) (rule less_imp_le)
    moreover have "delay - elapsed \<noteq> 0" using lt by auto
    then have "unat (- (delay - elapsed)) = 2 ^ 32 - unat (delay - elapsed)" by (rule unat_neg_u32)
    ultimately have "unat (elapsed - delay) = 2 ^ 32 - (unat delay - unat elapsed)" by simp
    then show ?thesis using False d by (simp add: due_iff eq)
  qed
qed

text \<open>A delay of more than \<open>2 ^ 31\<close> milliseconds is not refused, and its timer is due at once.\<close>

lemma long_delay_due_at_once:
  assumes "2 ^ 31 < unat (delay::u32)"
  shows "ev_timer_is_due now (now + delay)"
proof -
  have "delay \<noteq> 0" using assms by auto
  then have "unat (- delay) = 2 ^ 32 - unat delay" by (rule unat_neg_u32)
  then show ?thesis using assms by (simp add: due_iff)
qed

section \<open>Tokens\<close>

definition timers_wf :: "ev_timer_service \<Rightarrow> bool" where
  "timers_wf t \<longleftrightarrow> length (tm_slots t) = EV_TIMER_SERVICE_CAPACITY"

lemma zero_timers_wf: "timers_wf zero_timers"
  by (simp add: timers_wf_def zero_timers_def)

lemma timer_find_free_Some:
  "timer_find_free slots i n = Some k \<Longrightarrow> i \<le> k \<and> k < i + n \<and> ts_active (slots ! k) = 0"
  by (induction n arbitrary: i) (force split: if_splits)+

lemma timer_find_free_None:
  "timer_find_free slots i n = None \<Longrightarrow> i \<le> k \<Longrightarrow> k < i + n \<Longrightarrow> ts_active (slots ! k) \<noteq> 0"
proof (induction n arbitrary: i)
  case (Suc n)
  then show ?case by (cases "k = i") (auto split: if_splits)
qed simp

lemma schedule_OK:
  assumes "ev_timer_schedule (Some t) now delay target event arg periodic True = (EV_OK, tok, svc)"
  obtains i slot t' where "i < 16" and "ts_active (tm_slots t ! i) = 0" and "svc = Some t'"
    and "tok = Some \<lparr>tk_slot = of_nat i, tk_generation = timer_next_generation (ts_generation (tm_slots t ! i))\<rparr>"
    and "tm_slots t' = (tm_slots t)[i := slot]" and "delay \<noteq> 0"
    and "slot = \<lparr>ts_active = 1, ts_periodic = periodic,
           ts_generation = timer_next_generation (ts_generation (tm_slots t ! i)),
           ts_deadline_ms = now + delay, ts_period_ms = delay, ts_target_actor = target, ts_event_id = event,
           ts_arg0 = arg\<rparr>"
proof -
  obtain i where f: "timer_find_free (tm_slots t) 0 16 = Some i" and d: "delay \<noteq> 0"
    using assms by (auto simp: ev_timer_schedule_def Let_def split: if_splits option.splits)
  let ?g = "timer_next_generation (ts_generation (tm_slots t ! i))"
  have i: "i < 16" "ts_active (tm_slots t ! i) = 0" using timer_find_free_Some [OF f] by simp_all
  have slot: "(tm_slots t ! i)\<lparr>ts_active := 1, ts_periodic := periodic, ts_generation := ?g,
      ts_deadline_ms := now + delay, ts_period_ms := delay, ts_target_actor := target, ts_event_id := event,
      ts_arg0 := arg\<rparr> = \<lparr>ts_active = 1, ts_periodic = periodic, ts_generation = ?g,
      ts_deadline_ms = now + delay, ts_period_ms = delay, ts_target_actor = target, ts_event_id = event,
      ts_arg0 = arg\<rparr>"
    by (cases "tm_slots t ! i") simp
  show thesis
    by (rule that [OF i _ _ _ d refl, where t' = "the svc"])
      (use assms f d slot in \<open>auto simp: ev_timer_schedule_def Let_def\<close>)
qed

lemma generation_moves: "timer_next_generation g \<noteq> g"
proof -
  have "g + 1 \<noteq> g" by simp
  moreover have "g + 1 = 0 \<Longrightarrow> g \<noteq> 1" by auto
  ultimately show ?thesis by (auto simp: timer_next_generation_def)
qed

lemma unat_slot16: "i < 16 \<Longrightarrow> unat (of_nat i :: u16) = i"
  by (simp add: unat_of_nat)

text \<open>Cancelling frees the slot of the token and nothing else.\<close>

lemma cancel_OK:
  assumes "timers_wf t" and "ev_timer_cancel (Some t) tok = (EV_OK, svc)"
  obtains t' where "svc = Some t'" and "ev_timer_token_valid (Some t) tok"
    and "tm_slots t' = (tm_slots t)[unat (tk_slot tok) := (tm_slots t ! unat (tk_slot tok))\<lparr>ts_active := 0\<rparr>]"
  using assms that by (auto simp: ev_timer_cancel_def Let_def split: if_splits)

lemma schedule_tokens:
  assumes wf: "timers_wf t"
    and s: "ev_timer_schedule (Some t) now delay target event arg periodic True = (EV_OK, Some tok, Some t')"
  shows "ev_timer_token_valid (Some t') tok \<and> \<not> ev_timer_token_valid (Some t) tok \<and> timers_wf t'
     \<and> (\<forall>other. ev_timer_token_valid (Some t) other \<longrightarrow> ev_timer_token_valid (Some t') other
          \<and> tk_slot other \<noteq> tk_slot tok)
     \<and> (\<forall>other. ev_timer_token_valid (Some t') other \<longrightarrow> other = tok \<or> ev_timer_token_valid (Some t) other)"
proof -
  obtain i slot where i: "i < 16" "ts_active (tm_slots t ! i) = 0"
    and tok: "tok = \<lparr>tk_slot = of_nat i, tk_generation = timer_next_generation (ts_generation (tm_slots t ! i))\<rparr>"
    and t': "tm_slots t' = (tm_slots t)[i := slot]"
    and slot: "ts_active slot = 1" "ts_generation slot = timer_next_generation (ts_generation (tm_slots t ! i))"
    using schedule_OK [OF s] by (metis ev_timer_slot.select_convs(1,3) option.sel)
  have len: "length (tm_slots t) = 16" using wf by (simp add: timers_wf_def)
  have u: "unat (tk_slot tok) = i" using i(1) by (simp add: tok unat_slot16)
  have same: "x = tok" if "unat (tk_slot x) = i" "tk_generation x = tk_generation tok" for x
  proof -
    have "tk_slot x = tk_slot tok" using that(1) u by (simp add: word_unat_eq_iff)
    then show ?thesis using that(2) by (cases x; cases tok) simp
  qed
  have "ev_timer_token_valid (Some t') tok" using i(1) len slot t' by (simp add: ev_timer_token_valid_def tok unat_slot16)
  moreover have "\<not> ev_timer_token_valid (Some t) tok" using i by (simp add: ev_timer_token_valid_def u)
  moreover have "timers_wf t'" using len by (simp add: timers_wf_def t')
  moreover have "ev_timer_token_valid (Some t') other \<and> tk_slot other \<noteq> tk_slot tok"
    if v: "ev_timer_token_valid (Some t) other" for other
  proof -
    have "unat (tk_slot other) \<noteq> i" using v i(2) by (auto simp: ev_timer_token_valid_def)
    then show ?thesis using v u by (auto simp: ev_timer_token_valid_def t')
  qed
  moreover have "other = tok \<or> ev_timer_token_valid (Some t) other"
    if v: "ev_timer_token_valid (Some t') other" for other
  proof (cases "unat (tk_slot other) = i")
    case True
    then have "tk_generation other = tk_generation tok"
      using v i(1) len slot by (simp add: ev_timer_token_valid_def t' tok unat_slot16)
    then show ?thesis using same True by blast
  next
    case False
    then show ?thesis using v by (simp add: ev_timer_token_valid_def t')
  qed
  ultimately show ?thesis by blast
qed

lemma cancel_tokens:
  assumes wf: "timers_wf t" and c: "ev_timer_cancel (Some t) tok = (EV_OK, Some t')"
  shows "timers_wf t' \<and> (\<forall>other. ev_timer_token_valid (Some t') other \<longleftrightarrow>
     ev_timer_token_valid (Some t) other \<and> tk_slot other \<noteq> tk_slot tok)"
proof -
  have v: "ev_timer_token_valid (Some t) tok"
    and t': "tm_slots t' = (tm_slots t)[unat (tk_slot tok) := (tm_slots t ! unat (tk_slot tok))\<lparr>ts_active := 0\<rparr>]"
    using cancel_OK [OF wf c] by auto
  have len: "length (tm_slots t) = 16" using wf by (simp add: timers_wf_def)
  have lt: "unat (tk_slot tok) < 16" using v by (simp add: ev_timer_token_valid_def)
  have "ev_timer_token_valid (Some t') other \<longleftrightarrow> ev_timer_token_valid (Some t) other \<and> tk_slot other \<noteq> tk_slot tok"
    for other
    using len lt by (cases "unat (tk_slot other) = unat (tk_slot tok)")
      (auto simp: ev_timer_token_valid_def t' word_unat_eq_iff)
  then show ?thesis using len by (simp add: timers_wf_def t')
qed

section \<open>Firing due timers\<close>

text \<open>What a pass does to a slot: a due periodic timer is re-armed, a due one-shot timer is freed.\<close>

definition fire_slot :: "u32 \<Rightarrow> ev_timer_slot \<Rightarrow> ev_timer_slot" where
  "fire_slot now slot =
     (if ts_active slot \<noteq> 0 \<and> ev_timer_is_due now (ts_deadline_ms slot)
      then if ts_periodic slot \<noteq> 0 then slot\<lparr>ts_deadline_ms := ts_deadline_ms slot + ts_period_ms slot\<rparr>
           else slot\<lparr>ts_active := 0\<rparr>
      else slot)"

text \<open>The messages a pass publishes, and what a list of publications does.\<close>

definition due_msgs :: "u32 \<Rightarrow> ev_timer_slot list \<Rightarrow> (ev_actor_id \<times> ev_msg) list" where
  "due_msgs now slots = concat (map (\<lambda>slot.
     if ts_active slot \<noteq> 0 \<and> ev_timer_is_due now (ts_deadline_ms slot)
     then (case timer_msg slot of None \<Rightarrow> [] | Some m \<Rightarrow> [(ts_target_actor slot, m)]) else []) slots)"

primrec publish_all :: "'s ev_timer_publish_fn \<Rightarrow> (ev_actor_id \<times> ev_msg) list \<Rightarrow> 's \<Rightarrow> nat \<times> 's" where
  "publish_all p [] c = (0, c)"
| "publish_all p (x # xs) c =
     (let (rc, c1) = p (fst x) (snd x) c; (n, c2) = publish_all p xs c1
      in (if rc = EV_OK then Suc n else n, c2))"

lemma publish_all_le: "fst (publish_all p xs c) \<le> length xs"
proof (induction xs arbitrary: c)
  case (Cons x xs)
  obtain rc c1 where r: "p (fst x) (snd x) c = (rc, c1)" by (rule prod.exhaust)
  obtain n c2 where q: "publish_all p xs c1 = (n, c2)" by (rule prod.exhaust)
  show ?case using Cons.IH [of c1] r q by (simp add: Let_def)
qed simp

lemma publish_all_append:
  "publish_all p (xs @ ys) c =
     (fst (publish_all p xs c) + fst (publish_all p ys (snd (publish_all p xs c))),
      snd (publish_all p ys (snd (publish_all p xs c))))"
proof (induction xs arbitrary: c)
  case (Cons x xs)
  obtain rc c1 where r: "p (fst x) (snd x) c = (rc, c1)" by (rule prod.exhaust)
  show ?case using Cons.IH [of c1] r by (simp add: Let_def case_prod_unfold)
qed simp

lemma due_msgs_append: "due_msgs now (xs @ ys) = due_msgs now xs @ due_msgs now ys"
  by (simp add: due_msgs_def)

text \<open>
  A pass handles a prefix of the slots, all of them or as many as use up the budget: each handled slot is
  fired, and exactly the messages of the due ones are published, in slot order.
\<close>

lemma due_loop_spec:
  assumes "length (tm_slots t) = i + n" and "published \<le> m"
    and "timer_due_loop p now m n i published t c = (published', t', c')"
  shows "\<exists>k \<le> n. tm_slots t' = take i (tm_slots t) @ map (fire_slot now) (take k (drop i (tm_slots t)))
             @ drop (i + k) (tm_slots t)
           \<and> published' = published + fst (publish_all p (due_msgs now (take k (drop i (tm_slots t)))) c)
           \<and> c' = snd (publish_all p (due_msgs now (take k (drop i (tm_slots t)))) c)
           \<and> published' \<le> m \<and> (k = n \<or> published' = m)"
  using assms
proof (induction n arbitrary: i published t c)
  case 0
  then show ?case by (simp add: due_msgs_def)
next
  case (Suc n)
  let ?s = "tm_slots t ! i"
  show ?case
  proof (cases "m \<le> published")
    case True
    then show ?thesis using Suc.prems by (intro exI [of _ 0]) (simp add: due_msgs_def)
  next
    case False
    define due where "due = (ts_active ?s \<noteq> 0 \<and> ev_timer_is_due now (ts_deadline_ms ?s))"
    define ms where "ms = due_msgs now [?s]"
    obtain d c1 where pa: "publish_all p ms c = (d, c1)" by (rule prod.exhaust)
    have "length ms \<le> 1" by (simp add: ms_def due_msgs_def split: option.splits)
    then have d1: "d \<le> 1" using publish_all_le [of p ms c] pa by simp
    obtain t1 where step: "timer_due_loop p now m (Suc n) i published t c
          = timer_due_loop p now m n (Suc i) (published + d) t1 c1"
      and t1: "tm_slots t1 = (tm_slots t)[i := fire_slot now ?s]"
    proof (cases due)
      case True
      show ?thesis
      proof (cases "timer_msg ?s")
        case None
        have "ms = []" using None by (simp add: ms_def due_msgs_def)
        then have "d = 0" "c1 = c" using pa by simp_all
        then show ?thesis
          using that [of "t\<lparr>tm_slots := (tm_slots t)[i := fire_slot now ?s]\<rparr>"] False True None
          by (simp add: due_def fire_slot_def Let_def)
      next
        case (Some msg)
        obtain rc c2 where r: "p (ts_target_actor ?s) msg c = (rc, c2)" by (rule prod.exhaust)
        have "ms = [(ts_target_actor ?s, msg)]" using True Some by (simp add: ms_def due_msgs_def due_def)
        then have "d = (if rc = EV_OK then 1 else 0)" "c1 = c2" using pa r by (auto split: if_splits)
        then show ?thesis
          using that [of "(if rc = EV_OK then t\<lparr>tm_published := tm_published t + 1\<rparr> else t)
              \<lparr>tm_slots := (tm_slots t)[i := fire_slot now ?s]\<rparr>"] False True Some r
          by (auto simp: due_def fire_slot_def Let_def)
      qed
    next
      case nd: False
      have "ms = []" using nd by (auto simp: ms_def due_msgs_def due_def)
      then have "d = 0" "c1 = c" using pa by simp_all
      moreover have "fire_slot now ?s = ?s" using nd by (auto simp: fire_slot_def due_def)
      ultimately show ?thesis
        using that [of t] False nd by (auto simp: due_def Let_def)
    qed
    have len: "length (tm_slots t1) = Suc i + n" using Suc.prems(1) t1 by simp
    have le: "published + d \<le> m" using False d1 by simp
    obtain k where k: "k \<le> n"
      and sl: "tm_slots t' = take (Suc i) (tm_slots t1) @ map (fire_slot now) (take k (drop (Suc i) (tm_slots t1)))
             @ drop (Suc i + k) (tm_slots t1)"
      and pub: "published' = published + d + fst (publish_all p (due_msgs now (take k (drop (Suc i) (tm_slots t1)))) c1)"
      and cc: "c' = snd (publish_all p (due_msgs now (take k (drop (Suc i) (tm_slots t1)))) c1)"
      and m: "published' \<le> m" "k = n \<or> published' = m"
      using Suc.IH [OF len le] Suc.prems(3) step by auto
    have i: "i < length (tm_slots t)" using Suc.prems(1) by simp
    have dr: "drop (Suc i) (tm_slots t1) = drop (Suc i) (tm_slots t)"
      and dr2: "drop (Suc (i + k)) (tm_slots t1) = drop (Suc (i + k)) (tm_slots t)"
      by (simp_all add: t1)
    have tk: "take (Suc i) (tm_slots t1) = take i (tm_slots t) @ [fire_slot now ?s]"
      using i by (simp add: t1 take_Suc_conv_app_nth)
    have head: "take (Suc k) (drop i (tm_slots t)) = ?s # take k (drop (Suc i) (tm_slots t))"
      using Cons_nth_drop_Suc [OF i] by (metis take_Suc_Cons)
    have split: "due_msgs now (take (Suc k) (drop i (tm_slots t)))
        = ms @ due_msgs now (take k (drop (Suc i) (tm_slots t)))"
      using due_msgs_append [of now "[?s]" "take k (drop (Suc i) (tm_slots t))"]
      by (simp only: head ms_def append_Cons append_Nil)
    have "tm_slots t' = take i (tm_slots t) @ map (fire_slot now) (take (Suc k) (drop i (tm_slots t)))
        @ drop (i + Suc k) (tm_slots t)"
      unfolding head using sl by (simp add: dr dr2 tk)
    moreover have "published' = published + fst (publish_all p (due_msgs now (take (Suc k) (drop i (tm_slots t)))) c)"
      and "c' = snd (publish_all p (due_msgs now (take (Suc k) (drop i (tm_slots t)))) c)"
      unfolding split publish_all_append pa using pub cc by (simp_all only: dr fst_conv snd_conv add.assoc)
    ultimately show ?thesis using k m by (intro exI [of _ "Suc k"]) (simp only: Suc_le_mono simp_thms nat.inject)
  qed
qed


lemma publish_due_spec:
  assumes wf: "timers_wf t" and m: "0 < m"
  shows "\<exists>k \<le> 16. \<exists>t'. ev_timer_publish_due (Some t) now (Some p) m c
       = (fst (publish_all p (due_msgs now (take k (tm_slots t))) c), Some t',
          snd (publish_all p (due_msgs now (take k (tm_slots t))) c))
     \<and> tm_slots t' = map (fire_slot now) (take k (tm_slots t)) @ drop k (tm_slots t)
     \<and> fst (publish_all p (due_msgs now (take k (tm_slots t))) c) \<le> m
     \<and> (k = 16 \<or> fst (publish_all p (due_msgs now (take k (tm_slots t))) c) = m)"
proof -
  obtain n t' c' where r: "timer_due_loop p now m 16 0 0 t c = (n, t', c')" by (rule prod_cases3)
  have "length (tm_slots t) = 0 + 16" using wf by (simp add: timers_wf_def)
  from due_loop_spec [OF this le0 r] show ?thesis
    using m r by (auto simp: ev_timer_publish_due_def)
qed

text \<open>
  A publication that fails is not retried: a pass whose callback accepts nothing still frees every due
  one-shot timer.
\<close>

lemma failed_publish_frees_oneshots:
  assumes wf: "timers_wf t" and m: "0 < m" and fail: "\<And>a msg s. fst (p a msg s) \<noteq> EV_OK"
  shows "\<exists>t' c'. ev_timer_publish_due (Some t) now (Some p) m c = (0, Some t', c')
           \<and> tm_slots t' = map (fire_slot now) (tm_slots t)"
proof -
  have none: "fst (publish_all p xs c) = 0" for xs c
  proof (induction xs arbitrary: c)
    case (Cons x xs)
    obtain rc c1 where r: "p (fst x) (snd x) c = (rc, c1)" by (rule prod.exhaust)
    then have "rc \<noteq> EV_OK" using fail by (metis fst_conv)
    then show ?case using Cons.IH [of c1] r by (simp add: case_prod_unfold)
  qed simp
  have "length (tm_slots t) = 16" using wf by (simp add: timers_wf_def)
  then show ?thesis using publish_due_spec [OF wf m, of now p c] m by (auto simp: none)
qed

section \<open>The next deadline\<close>

definition slots_in_window :: "u32 \<Rightarrow> ev_timer_slot list \<Rightarrow> bool" where
  "slots_in_window base slots \<longleftrightarrow>
     list_all (\<lambda>s. ts_active s \<noteq> 0 \<longrightarrow> unat (ts_deadline_ms s - base) < 2 ^ 31) slots"

lemma earlier_in_window:
  assumes "unat (a - base :: u32) < 2 ^ 31" and "unat (b - base) < 2 ^ 31"
  shows "sint (a - b) < 0 \<longleftrightarrow> unat (a - base) < unat (b - base)"
proof -
  have "base + (a - base) = a" "base + (b - base) = b" by simp_all
  then show ?thesis
    using due_after_delay [OF assms(2,1), of base] by (simp add: ev_timer_is_due_def not_le [symmetric])
qed

lemma best_loop_spec:
  assumes "slots_in_window base slots" and "i + n \<le> length slots"
    and "case best of None \<Rightarrow> True | Some b \<Rightarrow> unat (b - base) < 2 ^ 31"
  shows "case timer_best_loop slots i n best of
      None \<Rightarrow> best = None \<and> (\<forall>j. i \<le> j \<and> j < i + n \<longrightarrow> ts_active (slots ! j) = 0)
    | Some r \<Rightarrow> (best = Some r \<or> (\<exists>j. i \<le> j \<and> j < i + n \<and> ts_active (slots ! j) \<noteq> 0 \<and> ts_deadline_ms (slots ! j) = r))
        \<and> (\<forall>b. best = Some b \<longrightarrow> unat (r - base) \<le> unat (b - base))
        \<and> (\<forall>j. i \<le> j \<and> j < i + n \<and> ts_active (slots ! j) \<noteq> 0
             \<longrightarrow> unat (r - base) \<le> unat (ts_deadline_ms (slots ! j) - base))"
  using assms
proof (induction n arbitrary: i best)
  case 0
  then show ?case by (auto split: option.splits)
next
  case (Suc n)
  let ?s = "slots ! i"
  define best1 where "best1 = (if ts_active ?s \<noteq> 0
            then (case best of None \<Rightarrow> Some (ts_deadline_ms ?s)
                  | Some b \<Rightarrow> if sint (ts_deadline_ms ?s - b) < 0 then Some (ts_deadline_ms ?s) else best)
            else best)"
  have w: "ts_active ?s \<noteq> 0 \<Longrightarrow> unat (ts_deadline_ms ?s - base) < 2 ^ 31"
    using Suc.prems(1,2) by (simp add: slots_in_window_def list_all_length)
  have win1: "case best1 of None \<Rightarrow> True | Some b \<Rightarrow> unat (b - base) < 2 ^ 31"
    using Suc.prems(3) w by (auto simp: best1_def split: option.splits)
  have b1: "best1 = None \<longleftrightarrow> best = None \<and> ts_active ?s = 0"
    by (auto simp: best1_def split: option.splits if_splits)
  have b2: "best1 = Some r \<Longrightarrow> best = Some r \<or> ts_active ?s \<noteq> 0 \<and> ts_deadline_ms ?s = r" for r
    by (auto simp: best1_def split: option.splits if_splits)
  have b3: "best1 = Some r \<Longrightarrow> (\<forall>b. best = Some b \<longrightarrow> unat (r - base) \<le> unat (b - base))
      \<and> (ts_active ?s \<noteq> 0 \<longrightarrow> unat (r - base) \<le> unat (ts_deadline_ms ?s - base))" for r
    using Suc.prems(3) w earlier_in_window [of "ts_deadline_ms ?s" base]
    by (auto simp: best1_def not_less split: option.splits if_splits)
  have step: "timer_best_loop slots i (Suc n) best = timer_best_loop slots (Suc i) n best1"
    by (simp add: best1_def Let_def)
  have ih: "case timer_best_loop slots (Suc i) n best1 of
      None \<Rightarrow> best1 = None \<and> (\<forall>j. Suc i \<le> j \<and> j < Suc i + n \<longrightarrow> ts_active (slots ! j) = 0)
    | Some r \<Rightarrow> (best1 = Some r \<or> (\<exists>j. Suc i \<le> j \<and> j < Suc i + n \<and> ts_active (slots ! j) \<noteq> 0 \<and> ts_deadline_ms (slots ! j) = r))
        \<and> (\<forall>b. best1 = Some b \<longrightarrow> unat (r - base) \<le> unat (b - base))
        \<and> (\<forall>j. Suc i \<le> j \<and> j < Suc i + n \<and> ts_active (slots ! j) \<noteq> 0
             \<longrightarrow> unat (r - base) \<le> unat (ts_deadline_ms (slots ! j) - base))"
    using Suc.IH [of "Suc i" best1] Suc.prems win1 by simp
  have range: "(i \<le> j \<and> j < i + Suc n) \<longleftrightarrow> (j = i \<or> Suc i \<le> j \<and> j < Suc i + n)" for j by auto
  show ?case
  proof (cases "timer_best_loop slots (Suc i) n best1")
    case None
    then have "best1 = None" and rest: "\<And>j. Suc i \<le> j \<Longrightarrow> j < Suc i + n \<Longrightarrow> ts_active (slots ! j) = 0"
      using ih by auto
    then have "best = None" "ts_active ?s = 0" using b1 by simp_all
    moreover have "ts_active (slots ! j) = 0" if "i \<le> j" "j < i + Suc n" for j
      using rest [of j] that \<open>ts_active ?s = 0\<close> by (cases "j = i") simp_all
    ultimately show ?thesis unfolding step None by simp
  next
    case (Some r)
    have src: "best1 = Some r \<or> (\<exists>j. Suc i \<le> j \<and> j < Suc i + n \<and> ts_active (slots ! j) \<noteq> 0 \<and> ts_deadline_ms (slots ! j) = r)"
      and le: "\<And>b. best1 = Some b \<Longrightarrow> unat (r - base) \<le> unat (b - base)"
      and mn: "\<And>j. Suc i \<le> j \<and> j < Suc i + n \<and> ts_active (slots ! j) \<noteq> 0
             \<Longrightarrow> unat (r - base) \<le> unat (ts_deadline_ms (slots ! j) - base)"
      using ih Some by auto
    have "best = Some r \<or> (\<exists>j. i \<le> j \<and> j < i + Suc n \<and> ts_active (slots ! j) \<noteq> 0 \<and> ts_deadline_ms (slots ! j) = r)"
      using src b2 range by metis
    moreover have "unat (r - base) \<le> unat (b - base)" if b: "best = Some b" for b
    proof -
      obtain b' where b': "best1 = Some b'" using b b1 by fastforce
      have "unat (r - base) \<le> unat (b' - base)" by (rule le [OF b'])
      also have "\<dots> \<le> unat (b - base)" using b3 [OF b'] b by simp
      finally show ?thesis .
    qed
    moreover have "unat (r - base) \<le> unat (ts_deadline_ms (slots ! j) - base)"
      if j: "i \<le> j \<and> j < i + Suc n \<and> ts_active (slots ! j) \<noteq> 0" for j
    proof (cases "j = i")
      case True
      then obtain b' where b': "best1 = Some b'" using j b1 by fastforce
      have "unat (r - base) \<le> unat (b' - base)" by (rule le [OF b'])
      also have "\<dots> \<le> unat (ts_deadline_ms (slots ! j) - base)" using b3 [OF b'] j True by simp
      finally show ?thesis .
    next
      case False
      then show ?thesis using mn j by simp
    qed
    ultimately show ?thesis using Some by (simp only: step option.case) blast
  qed
qed

lemma next_deadline_spec:
  assumes wf: "timers_wf t" and win: "slots_in_window base (tm_slots t)"
    and i: "i < 16" "ts_active (tm_slots t ! i) \<noteq> 0"
  shows "\<exists>b. ev_timer_next_deadline_ms (Some t) True = (EV_OK, Some b)
    \<and> (\<exists>j < 16. ts_active (tm_slots t ! j) \<noteq> 0 \<and> ts_deadline_ms (tm_slots t ! j) = b)
    \<and> (\<forall>j < 16. ts_active (tm_slots t ! j) \<noteq> 0
         \<longrightarrow> unat (b - base) \<le> unat (ts_deadline_ms (tm_slots t ! j) - base))
    \<and> (\<forall>e. unat e < 2 ^ 31 \<longrightarrow> (ev_timer_is_due (base + e) b \<longleftrightarrow>
         (\<exists>j < 16. ts_active (tm_slots t ! j) \<noteq> 0 \<and> ev_timer_is_due (base + e) (ts_deadline_ms (tm_slots t ! j)))))"
proof -
  have len: "length (tm_slots t) = 16" using wf by (simp add: timers_wf_def)
  have sp: "case timer_best_loop (tm_slots t) 0 16 None of
      None \<Rightarrow> (\<forall>j. j < 16 \<longrightarrow> ts_active (tm_slots t ! j) = 0)
    | Some r \<Rightarrow> (\<exists>j. j < 16 \<and> ts_active (tm_slots t ! j) \<noteq> 0 \<and> ts_deadline_ms (tm_slots t ! j) = r)
        \<and> (\<forall>j. j < 16 \<and> ts_active (tm_slots t ! j) \<noteq> 0
             \<longrightarrow> unat (r - base) \<le> unat (ts_deadline_ms (tm_slots t ! j) - base))"
    using best_loop_spec [OF win, of 0 16 None] len by (auto split: option.splits)
  then obtain b where r: "timer_best_loop (tm_slots t) 0 16 None = Some b"
    using i by (cases "timer_best_loop (tm_slots t) 0 16 None") auto
  obtain k where k: "k < 16" "ts_active (tm_slots t ! k) \<noteq> 0" "ts_deadline_ms (tm_slots t ! k) = b"
    and mn: "\<And>j. j < 16 \<Longrightarrow> ts_active (tm_slots t ! j) \<noteq> 0
             \<Longrightarrow> unat (b - base) \<le> unat (ts_deadline_ms (tm_slots t ! j) - base)"
    using sp r by auto
  have due: "ev_timer_is_due (base + e) (ts_deadline_ms (tm_slots t ! j))
      \<longleftrightarrow> unat (ts_deadline_ms (tm_slots t ! j) - base) \<le> unat e"
    if "unat e < 2 ^ 31" "j < 16" "ts_active (tm_slots t ! j) \<noteq> 0" for e j
    using due_after_delay [of "ts_deadline_ms (tm_slots t ! j) - base" e base] win len that
    by (simp add: slots_in_window_def list_all_length)
  have "ev_timer_is_due (base + e) b \<longleftrightarrow>
         (\<exists>j < 16. ts_active (tm_slots t ! j) \<noteq> 0 \<and> ev_timer_is_due (base + e) (ts_deadline_ms (tm_slots t ! j)))"
    if "unat e < 2 ^ 31" for e
  proof -
    have "ev_timer_is_due (base + e) b \<longleftrightarrow> unat (b - base) \<le> unat e" using due [OF that k(1,2)] k(3) by simp
    moreover have "unat (b - base) \<le> unat e" if "j < 16" "ts_active (tm_slots t ! j) \<noteq> 0"
        "ev_timer_is_due (base + e) (ts_deadline_ms (tm_slots t ! j))" for j
      using due [OF \<open>unat e < 2 ^ 31\<close> that(1,2)] mn [OF that(1,2)] that(3) by simp
    ultimately show ?thesis using k by blast
  qed
  then show ?thesis using r k mn by (auto simp: ev_timer_next_deadline_ms_def)
qed

section \<open>Properties\<close>

lemma schedule_new_generation:
  assumes wf: "timers_wf t"
    and s: "ev_timer_schedule (Some t) now delay target event arg periodic True = (EV_OK, Some tok, Some t')"
  shows "tk_generation tok \<noteq> ts_generation (tm_slots t ! unat (tk_slot tok))"
  using schedule_OK [OF s] generation_moves by (metis ev_timer_token.select_convs option.sel unat_slot16)

lemma cancelled_token_stale:
  assumes wf: "timers_wf t" and c: "ev_timer_cancel (Some t) tok = (EV_OK, Some t1)"
    and s: "ev_timer_schedule (Some t1) now delay target event arg periodic True = (EV_OK, Some tok', Some t2)"
  shows "\<not> ev_timer_token_valid (Some t2) tok \<and> tok' \<noteq> tok"
proof -
  have wf1: "timers_wf t1" and gone: "\<not> ev_timer_token_valid (Some t1) tok"
    using cancel_tokens [OF wf c] by blast+
  have v: "ev_timer_token_valid (Some t) tok"
    and t1: "tm_slots t1 = (tm_slots t)[unat (tk_slot tok) := (tm_slots t ! unat (tk_slot tok))\<lparr>ts_active := 0\<rparr>]"
    using cancel_OK [OF wf c] by auto
  have "ts_generation (tm_slots t1 ! unat (tk_slot tok)) = tk_generation tok"
    using v wf by (simp add: t1 ev_timer_token_valid_def timers_wf_def)
  then have "tok' \<noteq> tok" using schedule_new_generation [OF wf1 s] by auto
  then show ?thesis using schedule_tokens [OF wf1 s] gone by blast
qed


text \<open>
  C35: Timer tokens are exclusive and go stale. Scheduling hands out a token that was not valid before, is
  valid afterwards, and shares its slot with no other valid token; the valid tokens afterwards are exactly
  the earlier ones and the new one. Cancelling invalidates exactly the tokens of its slot, and a cancelled
  token stays invalid, so that it is refused, after its slot is scheduled again.
\<close>
theorem timer_tokens_exclusive:
  assumes "timers_wf t" and "ev_timer_cancel (Some t) tok = (EV_OK, Some t1)"
    and "ev_timer_schedule (Some t1) now delay target event arg periodic True = (EV_OK, Some tok', Some t2)"
  shows "(\<forall>other. ev_timer_token_valid (Some t1) other \<longleftrightarrow>
            ev_timer_token_valid (Some t) other \<and> tk_slot other \<noteq> tk_slot tok)
     \<and> (\<forall>other. ev_timer_token_valid (Some t2) other \<longleftrightarrow> other = tok' \<or> ev_timer_token_valid (Some t1) other)
     \<and> (\<forall>other. ev_timer_token_valid (Some t1) other \<longrightarrow> tk_slot other \<noteq> tk_slot tok')
     \<and> ev_timer_cancel (Some t2) tok = (EV_ERR_NOT_FOUND, Some t2)"
proof -
  have wf1: "timers_wf t1" using cancel_tokens [OF assms(1,2)] by blast
  have "\<not> ev_timer_token_valid (Some t2) tok" using cancelled_token_stale [OF assms] by blast
  then have "ev_timer_cancel (Some t2) tok = (EV_ERR_NOT_FOUND, Some t2)" by (simp add: ev_timer_cancel_def)
  then show ?thesis using cancel_tokens [OF assms(1,2)] schedule_tokens [OF wf1 assms(3)] by blast
qed

text \<open>
  C32: A pass fires the due timers in slot order. With a positive budget a pass handles a prefix of the
  sixteen slots: every due slot in it is re-armed one period later if it is periodic and freed otherwise,
  no other slot changes, exactly one message per due slot goes to its target, the result counts those the
  callback accepted, and the prefix is the whole table unless that count reached the budget.
\<close>
theorem publish_due_fires_due:
  assumes "timers_wf t" and "0 < m"
  shows "\<exists>k \<le> 16. \<exists>t'. ev_timer_publish_due (Some t) now (Some p) m c
       = (fst (publish_all p (due_msgs now (take k (tm_slots t))) c), Some t',
          snd (publish_all p (due_msgs now (take k (tm_slots t))) c))
     \<and> tm_slots t' = map (fire_slot now) (take k (tm_slots t)) @ drop k (tm_slots t)
     \<and> fst (publish_all p (due_msgs now (take k (tm_slots t))) c) \<le> m
     \<and> (k = 16 \<or> fst (publish_all p (due_msgs now (take k (tm_slots t))) c) = m)"
  by (rule publish_due_spec [OF assms])

text \<open>
  The next deadline is the earliest one across clock wrap-around. When every armed deadline lies in
  the half range after some base time, the service reports an armed deadline that no armed one precedes;
  and from the base on, the reported deadline is due exactly when some timer is.
\<close>
theorem next_deadline_earliest:
  assumes "timers_wf t" and "slots_in_window base (tm_slots t)" and "i < 16" and "ts_active (tm_slots t ! i) \<noteq> 0"
  shows "\<exists>b. ev_timer_next_deadline_ms (Some t) True = (EV_OK, Some b)
    \<and> (\<exists>j < 16. ts_active (tm_slots t ! j) \<noteq> 0 \<and> ts_deadline_ms (tm_slots t ! j) = b)
    \<and> (\<forall>j < 16. ts_active (tm_slots t ! j) \<noteq> 0
         \<longrightarrow> unat (b - base) \<le> unat (ts_deadline_ms (tm_slots t ! j) - base))
    \<and> (\<forall>e. unat e < 2 ^ 31 \<longrightarrow> (ev_timer_is_due (base + e) b \<longleftrightarrow>
         (\<exists>j < 16. ts_active (tm_slots t ! j) \<noteq> 0 \<and> ev_timer_is_due (base + e) (ts_deadline_ms (tm_slots t ! j)))))"
  by (rule next_deadline_spec [OF assms])

text \<open>
  Two timers armed ten milliseconds before the clock wraps: a one-shot due after it, a periodic before it.
\<close>

definition demo_timers :: ev_timer_service where
  "demo_timers = zero_timers\<lparr>tm_slots := (tm_slots zero_timers)
     [0 := \<lparr>ts_active = 1, ts_periodic = 0, ts_generation = 1, ts_deadline_ms = 10, ts_period_ms = 20,
            ts_target_actor = ACT_APP, ts_event_id = EV_TICK_1S, ts_arg0 = 7\<rparr>,
      1 := \<lparr>ts_active = 1, ts_periodic = 1, ts_generation = 4, ts_deadline_ms = 4294967291, ts_period_ms = 5,
            ts_target_actor = ACT_APP, ts_event_id = EV_TICK_1S, ts_arg0 = 9\<rparr>]\<rparr>"

abbreviation demo_timer_token :: ev_timer_token where
  "demo_timer_token \<equiv> \<lparr>tk_slot = 0, tk_generation = 1\<rparr>"

lemma demo_timers_wf: "timers_wf demo_timers"
  by (simp add: timers_wf_def demo_timers_def zero_timers_def)

lemma demo_timers_window: "slots_in_window 4294967286 (tm_slots demo_timers)"
  by (simp add: slots_in_window_def demo_timers_def zero_timers_def zero_timer_slot_def list_all_length
      nth_list_update)

lemma demo_timers_cancel:
  "fst (ev_timer_cancel (Some demo_timers) demo_timer_token) = EV_OK"
  by code_simp

theorem timer_tokens_exclusive_witness:
  "ev_timer_cancel (snd (snd (ev_timer_schedule (snd (ev_timer_cancel (Some demo_timers) demo_timer_token))
     10 30 ACT_APP EV_TICK_1S 0 0 True))) demo_timer_token
   = (EV_ERR_NOT_FOUND, snd (snd (ev_timer_schedule (snd (ev_timer_cancel (Some demo_timers) demo_timer_token))
     10 30 ACT_APP EV_TICK_1S 0 0 True)))"
proof -
  obtain t1 where c: "ev_timer_cancel (Some demo_timers) demo_timer_token = (EV_OK, Some t1)"
    using demo_timers_cancel by (metis cancel_OK demo_timers_wf prod.collapse)
  have "fst (ev_timer_schedule (snd (ev_timer_cancel (Some demo_timers) demo_timer_token))
     10 30 ACT_APP EV_TICK_1S 0 0 True) = EV_OK" by code_simp
  then obtain tok' t2 where s: "ev_timer_schedule (Some t1) 10 30 ACT_APP EV_TICK_1S 0 0 True
      = (EV_OK, Some tok', Some t2)"
    using c by (metis schedule_OK prod.collapse snd_conv)
  show ?thesis using timer_tokens_exclusive [OF demo_timers_wf c s] by (simp add: c s)
qed

theorem publish_due_fires_due_witness:
  "\<exists>k \<le> 16. \<exists>t'. ev_timer_publish_due (Some demo_timers) 0 (Some (\<lambda>a m s. (EV_OK, s @ [a]))) 4 []
     = (fst (publish_all (\<lambda>a m s. (EV_OK, s @ [a])) (due_msgs 0 (take k (tm_slots demo_timers))) []), Some t',
        snd (publish_all (\<lambda>a m s. (EV_OK, s @ [a])) (due_msgs 0 (take k (tm_slots demo_timers))) []))"
  using publish_due_fires_due [OF demo_timers_wf, of 4 0 "\<lambda>a m s. (EV_OK, s @ [a])" "[]"] by auto

theorem next_deadline_earliest_witness:
  "\<exists>b. ev_timer_next_deadline_ms (Some demo_timers) True = (EV_OK, Some b)
     \<and> unat (b - 4294967286) \<le> unat (ts_deadline_ms (tm_slots demo_timers ! 1) - 4294967286)"
proof -
  have "ts_active (tm_slots demo_timers ! 1) \<noteq> 0" by code_simp
  then show ?thesis
    using next_deadline_earliest [OF demo_timers_wf demo_timers_window, of 1] by auto
qed

end
