(* ===== verification/EvMetrics.thy ===== *)
theory EvMetrics
  imports EvPrelude
begin

text \<open>
  The metrics registry (\<open>runtime/src/ev_metrics_registry.c\<close>, \<open>runtime/include/ev/metrics_registry.h\<close>): one
  wrapping 32-bit value per metric of \<open>config/metrics.def\<close>. Metric ids are an enumeration the code
  range-checks and indexes an array with, so they are integers with named values; the names below are
  the metrics the modelled code updates.
\<close>

section \<open>State and operations\<close>

type_synonym ev_metric_id = int

abbreviation EV_METRIC_POST_OK :: ev_metric_id where "EV_METRIC_POST_OK \<equiv> 0"
abbreviation EV_METRIC_POST_DROPPED :: ev_metric_id where "EV_METRIC_POST_DROPPED \<equiv> 1"
abbreviation EV_METRIC_DELIVERY_ATTEMPTED :: ev_metric_id where "EV_METRIC_DELIVERY_ATTEMPTED \<equiv> 4"
abbreviation EV_METRIC_DELIVERY_OK :: ev_metric_id where "EV_METRIC_DELIVERY_OK \<equiv> 5"
abbreviation EV_METRIC_DELIVERY_FAILED :: ev_metric_id where "EV_METRIC_DELIVERY_FAILED \<equiv> 6"
abbreviation EV_METRIC_MAILBOX_OVERFLOW :: ev_metric_id where "EV_METRIC_MAILBOX_OVERFLOW \<equiv> 20"
abbreviation EV_METRIC_QUIESCENCE_ACCEPTED :: ev_metric_id where "EV_METRIC_QUIESCENCE_ACCEPTED \<equiv> 25"
abbreviation EV_METRIC_QUIESCENCE_REJECTED :: ev_metric_id where "EV_METRIC_QUIESCENCE_REJECTED \<equiv> 26"
abbreviation EV_METRIC_SLEEP_ACCEPTED :: ev_metric_id where "EV_METRIC_SLEEP_ACCEPTED \<equiv> 27"
abbreviation EV_METRIC_SLEEP_REJECTED :: ev_metric_id where "EV_METRIC_SLEEP_REJECTED \<equiv> 28"
abbreviation EV_METRIC_FAULT_EMITTED :: ev_metric_id where "EV_METRIC_FAULT_EMITTED \<equiv> 29"
abbreviation EV_METRIC_TRACE_DROPPED :: ev_metric_id where "EV_METRIC_TRACE_DROPPED \<equiv> 31"
abbreviation EV_METRIC_COMMAND_ACCEPTED :: ev_metric_id where "EV_METRIC_COMMAND_ACCEPTED \<equiv> 35"
abbreviation EV_METRIC_COMMAND_REJECTED :: ev_metric_id where "EV_METRIC_COMMAND_REJECTED \<equiv> 36"
abbreviation EV_METRIC_COMMAND_AUTH_FAILED :: ev_metric_id where "EV_METRIC_COMMAND_AUTH_FAILED \<equiv> 37"
abbreviation EV_METRIC_ROUTE_DISABLED_SKIPPED :: ev_metric_id where "EV_METRIC_ROUTE_DISABLED_SKIPPED \<equiv> 38"
abbreviation EV_METRIC_ROUTE_VALIDATION_REJECTED :: ev_metric_id where "EV_METRIC_ROUTE_VALIDATION_REJECTED \<equiv> 39"
abbreviation EV_METRIC_ROUTE_OPTIONAL_DISABLED :: ev_metric_id where "EV_METRIC_ROUTE_OPTIONAL_DISABLED \<equiv> 40"
abbreviation EV_METRIC_ROUTE_QOS_CONFLICT :: ev_metric_id where "EV_METRIC_ROUTE_QOS_CONFLICT \<equiv> 41"
abbreviation EV_METRIC_QOS_COALESCED :: ev_metric_id where "EV_METRIC_QOS_COALESCED \<equiv> 42"
abbreviation EV_METRIC_QOS_REPLACED :: ev_metric_id where "EV_METRIC_QOS_REPLACED \<equiv> 43"
abbreviation EV_METRIC_QOS_DROPPED :: ev_metric_id where "EV_METRIC_QOS_DROPPED \<equiv> 44"
abbreviation EV_METRIC_ROUTE_ACTIVE_TABLE_OVERFLOW :: ev_metric_id where "EV_METRIC_ROUTE_ACTIVE_TABLE_OVERFLOW \<equiv> 45"
abbreviation EV_METRIC_COUNT :: ev_metric_id where "EV_METRIC_COUNT \<equiv> 49"

datatype ev_metric_kind = EV_METRIC_KIND_COUNTER | EV_METRIC_KIND_GAUGE

record ev_metric_sample =
  ms_id :: ev_metric_id
  ms_value :: u32
  ms_kind :: ev_metric_kind

record ev_metric_registry =
  mr_values :: "u32 list"

definition zero_metrics :: ev_metric_registry where
  "zero_metrics = \<lparr>mr_values = replicate (nat EV_METRIC_COUNT) 0\<rparr>"

definition ev_metric_id_valid :: "ev_metric_id \<Rightarrow> bool" where
  "ev_metric_id_valid metric_id \<longleftrightarrow> 0 \<le> metric_id \<and> metric_id < EV_METRIC_COUNT"

definition ev_metric_registry_init :: "ev_metric_registry option \<Rightarrow> ev_metric_registry option" where
  "ev_metric_registry_init registry = map_option (\<lambda>_. zero_metrics) registry"

definition ev_metric_increment ::
    "ev_metric_registry option \<Rightarrow> ev_metric_id \<Rightarrow> u32 \<Rightarrow> ev_result \<times> ev_metric_registry option" where
  "ev_metric_increment registry metric_id delta =
     (if registry = None \<or> \<not> ev_metric_id_valid metric_id then (EV_ERR_INVALID_ARG, registry)
      else
        let r = the registry; i = nat metric_id
        in (EV_OK, Some (r\<lparr>mr_values := (mr_values r)[i := mr_values r ! i + delta]\<rparr>)))"

definition ev_metric_set_gauge ::
    "ev_metric_registry option \<Rightarrow> ev_metric_id \<Rightarrow> u32 \<Rightarrow> ev_result \<times> ev_metric_registry option" where
  "ev_metric_set_gauge registry metric_id v =
     (if registry = None \<or> \<not> ev_metric_id_valid metric_id then (EV_ERR_INVALID_ARG, registry)
      else
        let r = the registry; i = nat metric_id
        in (EV_OK, if mr_values r ! i < v then Some (r\<lparr>mr_values := (mr_values r)[i := v]\<rparr>) else registry))"

definition ev_metric_read ::
    "ev_metric_registry option \<Rightarrow> ev_metric_id \<Rightarrow> bool \<Rightarrow> ev_result \<times> ev_metric_sample option" where
  "ev_metric_read registry metric_id out_sample =
     (if registry = None \<or> \<not> out_sample \<or> \<not> ev_metric_id_valid metric_id then (EV_ERR_INVALID_ARG, None)
      else (EV_OK, Some \<lparr>ms_id = metric_id, ms_value = mr_values (the registry) ! nat metric_id,
                         ms_kind = EV_METRIC_KIND_COUNTER\<rparr>))"

text \<open>The samples written, whose number is the count the code returns through its last argument.\<close>

definition ev_metric_snapshot ::
    "ev_metric_registry option \<Rightarrow> bool \<Rightarrow> nat \<Rightarrow> bool \<Rightarrow> ev_result \<times> ev_metric_sample list" where
  "ev_metric_snapshot registry out_samples capacity out_count =
     (if registry = None \<or> \<not> out_samples \<or> \<not> out_count then (EV_ERR_INVALID_ARG, [])
      else
        let n = (if nat EV_METRIC_COUNT < capacity then nat EV_METRIC_COUNT else capacity)
        in (if nat EV_METRIC_COUNT \<le> capacity then EV_OK else EV_ERR_PARTIAL,
            map (\<lambda>i. \<lparr>ms_id = int i, ms_value = mr_values (the registry) ! i,
                       ms_kind = EV_METRIC_KIND_COUNTER\<rparr>) [0..<n]))"

section \<open>Values\<close>

text \<open>
  Services keep their registry as a field, so they update it through this form; \<open>metric\<close> reads a value.
\<close>

definition metric_add :: "ev_metric_id \<Rightarrow> u32 \<Rightarrow> ev_metric_registry \<Rightarrow> ev_metric_registry" where
  "metric_add metric_id delta r = the (snd (ev_metric_increment (Some r) metric_id delta))"

definition metric :: "ev_metric_registry \<Rightarrow> ev_metric_id \<Rightarrow> u32" where
  "metric r metric_id = mr_values r ! nat metric_id"

definition metrics_wf :: "ev_metric_registry \<Rightarrow> bool" where
  "metrics_wf r \<longleftrightarrow> length (mr_values r) = nat EV_METRIC_COUNT"

lemma zero_metrics_wf: "metrics_wf zero_metrics"
  by (simp add: metrics_wf_def zero_metrics_def)

lemma metric_add_wf [simp]: "metrics_wf (metric_add k d r) = metrics_wf r"
  by (simp add: metric_add_def ev_metric_increment_def Let_def metrics_wf_def)

lemma metric_metric_add:
  assumes "metrics_wf r" and "ev_metric_id_valid k" and "ev_metric_id_valid j"
  shows "metric (metric_add k d r) j = (if j = k then metric r j + d else metric r j)"
  using assms by (auto simp: metric_def metric_add_def ev_metric_increment_def Let_def metrics_wf_def
      ev_metric_id_valid_def nth_list_update nat_eq_iff)

text \<open>Reading back an increment, and the high-water behaviour of gauges: they never go down.\<close>

lemma metric_read_increment:
  assumes "metrics_wf r" and "ev_metric_id_valid k" and "ev_metric_increment (Some r) k d = (rc, Some r')"
  shows "rc = EV_OK \<and> metrics_wf r' \<and> (\<exists>s. ev_metric_read (Some r') k True = (EV_OK, Some s) \<and> ms_value s = metric r k + d)"
  using assms by (auto simp: ev_metric_increment_def ev_metric_read_def metric_def Let_def metrics_wf_def
      ev_metric_id_valid_def)

lemma gauge_never_falls:
  assumes "metrics_wf r" and "ev_metric_id_valid k" and "ev_metric_set_gauge (Some r) k v = (rc, Some r')"
  shows "rc = EV_OK \<and> metric r' k = max (metric r k) v"
  using assms by (auto simp: ev_metric_set_gauge_def metric_def Let_def metrics_wf_def ev_metric_id_valid_def
      max_def split: if_splits)

lemma metric_kind_always_counter:
  "ev_metric_read registry k out = (EV_OK, Some s) \<Longrightarrow> ms_kind s = EV_METRIC_KIND_COUNTER"
  by (auto simp: ev_metric_read_def split: if_splits)

end
