(* ===== verification/EvModules.thy ===== *)
theory EvModules
  imports EvFaultBus
begin

text \<open>
  The actor modules of a build (\<open>runtime/src/ev_actor_modules.c\<close>, \<open>runtime/include/ev/actor_module.h\<close>, with
  the list of \<open>config/modules.def\<close>), the capability bits (\<open>config/capabilities.def\<close>) and the fault
  identifiers (\<open>config/faults.def\<close>). Module names are left out: nothing reads them. Functions are
  named by tags; the handlers themselves are in the theory of the runtime graph.
\<close>

section \<open>Capabilities and faults\<close>

type_synonym ev_capability_mask = u32

abbreviation EV_CAP_I2C0 :: ev_capability_mask where "EV_CAP_I2C0 \<equiv> 1"
abbreviation EV_CAP_ONEWIRE0 :: ev_capability_mask where "EV_CAP_ONEWIRE0 \<equiv> 2"
abbreviation EV_CAP_GPIO_IRQ :: ev_capability_mask where "EV_CAP_GPIO_IRQ \<equiv> 4"
abbreviation EV_CAP_WDT :: ev_capability_mask where "EV_CAP_WDT \<equiv> 8"
abbreviation EV_CAP_NET :: ev_capability_mask where "EV_CAP_NET \<equiv> 16"
abbreviation EV_CAP_REMOTE_COMMANDS :: ev_capability_mask where "EV_CAP_REMOTE_COMMANDS \<equiv> 32"
abbreviation EV_CAP_RTC :: ev_capability_mask where "EV_CAP_RTC \<equiv> 64"
abbreviation EV_CAP_OLED :: ev_capability_mask where "EV_CAP_OLED \<equiv> 128"
abbreviation EV_CAP_DS18B20 :: ev_capability_mask where "EV_CAP_DS18B20 \<equiv> 256"
abbreviation EV_CAP_MCP23008 :: ev_capability_mask where "EV_CAP_MCP23008 \<equiv> 512"
abbreviation EV_CAP_BH1750 :: ev_capability_mask where "EV_CAP_BH1750 \<equiv> 1024"
abbreviation EV_CAP_PANEL :: ev_capability_mask where "EV_CAP_PANEL \<equiv> 2048"
abbreviation EV_CAP_FAULTS :: ev_capability_mask where "EV_CAP_FAULTS \<equiv> 4096"
abbreviation EV_CAP_METRICS :: ev_capability_mask where "EV_CAP_METRICS \<equiv> 8192"
abbreviation EV_CAP_TRACE :: ev_capability_mask where "EV_CAP_TRACE \<equiv> 16384"
abbreviation EV_CAP_TIMERS :: ev_capability_mask where "EV_CAP_TIMERS \<equiv> 32768"
abbreviation EV_CAP_POWER_POLICY :: ev_capability_mask where "EV_CAP_POWER_POLICY \<equiv> 65536"

abbreviation EV_FAULT_NONE :: ev_fault_id where "EV_FAULT_NONE \<equiv> 0"
abbreviation EV_FAULT_POOL_EXHAUSTED :: ev_fault_id where "EV_FAULT_POOL_EXHAUSTED \<equiv> 257"
abbreviation EV_FAULT_MAILBOX_OVERFLOW :: ev_fault_id where "EV_FAULT_MAILBOX_OVERFLOW \<equiv> 258"
abbreviation EV_FAULT_I2C_BUS_STUCK :: ev_fault_id where "EV_FAULT_I2C_BUS_STUCK \<equiv> 513"
abbreviation EV_FAULT_ACTOR_HANDLER_FAILURE :: ev_fault_id where "EV_FAULT_ACTOR_HANDLER_FAILURE \<equiv> 259"
abbreviation EV_FAULT_INVALID_ROUTE_QOS :: ev_fault_id where "EV_FAULT_INVALID_ROUTE_QOS \<equiv> 260"
abbreviation EV_FAULT_COMMAND_AUTH_FAILED :: ev_fault_id where "EV_FAULT_COMMAND_AUTH_FAILED \<equiv> 769"
abbreviation EV_FAULT_COMMAND_AUTHZ_FAILED :: ev_fault_id where "EV_FAULT_COMMAND_AUTHZ_FAILED \<equiv> 770"
abbreviation EV_FAULT_SLEEP_REJECTED :: ev_fault_id where "EV_FAULT_SLEEP_REJECTED \<equiv> 1025"
abbreviation EV_FAULT_NETWORK_BACKPRESSURE :: ev_fault_id where "EV_FAULT_NETWORK_BACKPRESSURE \<equiv> 1281"
abbreviation EV_FAULT_ROUTE_VALIDATION_REJECTED :: ev_fault_id where "EV_FAULT_ROUTE_VALIDATION_REJECTED \<equiv> 261"
abbreviation EV_FAULT_ROUTE_MISSING_CRITICAL_TARGET :: ev_fault_id where "EV_FAULT_ROUTE_MISSING_CRITICAL_TARGET \<equiv> 262"
abbreviation EV_FAULT_ROUTE_QOS_CONFLICT :: ev_fault_id where "EV_FAULT_ROUTE_QOS_CONFLICT \<equiv> 263"
abbreviation EV_FAULT_ACTIVE_ROUTE_TABLE_OVERFLOW :: ev_fault_id where "EV_FAULT_ACTIVE_ROUTE_TABLE_OVERFLOW \<equiv> 264"

section \<open>Module descriptors\<close>

abbreviation FRAMEWORK_ACTOR_HANDLE :: nat where "FRAMEWORK_ACTOR_HANDLE \<equiv> 0"
abbreviation FAULT_ACTOR_HANDLE :: nat where "FAULT_ACTOR_HANDLE \<equiv> 1"
abbreviation METRICS_ACTOR_HANDLE :: nat where "METRICS_ACTOR_HANDLE \<equiv> 2"

text \<open>
  The initialisation, binding, quiescence, statistics and lifecycle functions of every module are the
  defaults of \<open>ev_actor_modules.c\<close>; the table stores no other.
\<close>

record ev_actor_module_descriptor =
  mod_actor_id :: ev_actor_id
  mod_required_board_capabilities :: ev_capability_mask
  mod_required_runtime_capabilities :: ev_capability_mask
  mod_provided_capabilities :: ev_capability_mask
  mod_hardware_mask :: u32
  mod_execution_domain :: ev_execution_domain
  mod_mailbox_capacity :: nat
  mod_fault_policy :: ev_fault_id
  mod_route_policy_flags :: u32
  mod_handler_fn :: "nat option"

definition module ::
    "ev_actor_id \<Rightarrow> u32 \<Rightarrow> u32 \<Rightarrow> u32 \<Rightarrow> u32 \<Rightarrow> ev_execution_domain \<Rightarrow> nat \<Rightarrow> ev_fault_id \<Rightarrow> u32 \<Rightarrow> nat
       \<Rightarrow> ev_actor_module_descriptor" where
  "module actor board runtime provided hardware domain capacity fault policy handler =
     \<lparr>mod_actor_id = actor, mod_required_board_capabilities = board, mod_required_runtime_capabilities = runtime,
      mod_provided_capabilities = provided, mod_hardware_mask = hardware, mod_execution_domain = domain,
      mod_mailbox_capacity = capacity, mod_fault_policy = fault, mod_route_policy_flags = policy,
      mod_handler_fn = Some handler\<rparr>"

definition g_actor_modules :: "ev_actor_module_descriptor list" where
  "g_actor_modules = [
    module ACT_BOOT (0) 0 0 0 EV_DOMAIN_FAST_LOOP 8 EV_FAULT_NONE 0 FRAMEWORK_ACTOR_HANDLE,
    module ACT_RUNTIME (0) EV_CAP_TIMERS EV_CAP_TIMERS 0 EV_DOMAIN_FAST_LOOP 8 EV_FAULT_NONE 0 FRAMEWORK_ACTOR_HANDLE,
    module ACT_STREAM (0) 0 0 0 EV_DOMAIN_FAST_LOOP 16 EV_FAULT_NONE 0 FRAMEWORK_ACTOR_HANDLE,
    module ACT_DIAG (EV_CAP_METRICS) 0 EV_CAP_METRICS 0 EV_DOMAIN_SLOW_IO 8 EV_FAULT_NONE 0 FRAMEWORK_ACTOR_HANDLE,
    module ACT_APP (0) 0 0 0 EV_DOMAIN_FAST_LOOP 8 EV_FAULT_NONE 0 FRAMEWORK_ACTOR_HANDLE,
    module ACT_OLED (EV_CAP_I2C0 OR EV_CAP_OLED) 0 EV_CAP_OLED EV_CAP_OLED EV_DOMAIN_SLOW_IO 8 EV_FAULT_I2C_BUS_STUCK 0 FRAMEWORK_ACTOR_HANDLE,
    module ACT_RTC (EV_CAP_I2C0 OR EV_CAP_RTC) 0 EV_CAP_RTC EV_CAP_RTC EV_DOMAIN_SLOW_IO 8 EV_FAULT_I2C_BUS_STUCK 0 FRAMEWORK_ACTOR_HANDLE,
    module ACT_DS18B20 (EV_CAP_ONEWIRE0 OR EV_CAP_DS18B20) 0 EV_CAP_DS18B20 EV_CAP_DS18B20 EV_DOMAIN_SLOW_IO 8 EV_FAULT_NONE 0 FRAMEWORK_ACTOR_HANDLE,
    module ACT_BH1750 (EV_CAP_I2C0 OR EV_CAP_BH1750) 0 EV_CAP_BH1750 EV_CAP_BH1750 EV_DOMAIN_SLOW_IO 8 EV_FAULT_I2C_BUS_STUCK 0 FRAMEWORK_ACTOR_HANDLE,
    module ACT_PANEL (EV_CAP_PANEL) 0 EV_CAP_PANEL EV_CAP_PANEL EV_DOMAIN_FAST_LOOP 8 EV_FAULT_NONE 0 FRAMEWORK_ACTOR_HANDLE,
    module ACT_MCP23008 (EV_CAP_I2C0 OR EV_CAP_MCP23008) 0 EV_CAP_MCP23008 EV_CAP_MCP23008 EV_DOMAIN_SLOW_IO 8 EV_FAULT_I2C_BUS_STUCK 0 FRAMEWORK_ACTOR_HANDLE,
    module ACT_SUPERVISOR (0) 0 0 0 EV_DOMAIN_FAST_LOOP 8 EV_FAULT_NONE 0 FRAMEWORK_ACTOR_HANDLE,
    module ACT_POWER (EV_CAP_POWER_POLICY) 0 EV_CAP_POWER_POLICY 0 EV_DOMAIN_FAST_LOOP 8 EV_FAULT_SLEEP_REJECTED 5 FRAMEWORK_ACTOR_HANDLE,
    module ACT_WATCHDOG (EV_CAP_WDT) 0 EV_CAP_WDT 0 EV_DOMAIN_FAST_LOOP 8 EV_FAULT_NONE 0 FRAMEWORK_ACTOR_HANDLE,
    module ACT_NETWORK (EV_CAP_NET) 0 EV_CAP_NET 0 EV_DOMAIN_SLOW_IO 8 EV_FAULT_NETWORK_BACKPRESSURE 6 FRAMEWORK_ACTOR_HANDLE,
    module ACT_COMMAND (EV_CAP_REMOTE_COMMANDS) 0 EV_CAP_REMOTE_COMMANDS 0 EV_DOMAIN_SLOW_IO 8 EV_FAULT_COMMAND_AUTH_FAILED 7 FRAMEWORK_ACTOR_HANDLE,
    module ACT_FAULT (EV_CAP_FAULTS) 0 EV_CAP_FAULTS 0 EV_DOMAIN_FAST_LOOP 8 EV_FAULT_NONE 0 FAULT_ACTOR_HANDLE,
    module ACT_METRICS (EV_CAP_METRICS) 0 EV_CAP_METRICS 0 EV_DOMAIN_FAST_LOOP 8 EV_FAULT_NONE 0 METRICS_ACTOR_HANDLE]"

text \<open>The search loop of \<open>ev_actor_module_find\<close>: \<open>n\<close> modules left, the next at index \<open>i\<close>.\<close>

primrec module_find_loop :: "nat \<Rightarrow> nat \<Rightarrow> ev_actor_id \<Rightarrow> ev_actor_module_descriptor option" where
  "module_find_loop i 0 actor_id = None"
| "module_find_loop i (Suc n) actor_id =
     (if mod_actor_id (g_actor_modules ! i) = actor_id then Some (g_actor_modules ! i)
      else module_find_loop (Suc i) n actor_id)"

definition ev_actor_module_find :: "ev_actor_id \<Rightarrow> ev_actor_module_descriptor option" where
  "ev_actor_module_find actor_id = module_find_loop 0 (length g_actor_modules) actor_id"

section \<open>Every actor has one module\<close>

lemma module_find_loop_eq:
  "i + n \<le> length g_actor_modules \<Longrightarrow>
     module_find_loop i n a = List.find (\<lambda>d. mod_actor_id d = a) (take n (drop i g_actor_modules))"
proof (induction n arbitrary: i)
  case (Suc n)
  then have i: "i < length g_actor_modules" by simp
  have "take (Suc n) (drop i g_actor_modules) = g_actor_modules ! i # take n (drop (Suc i) g_actor_modules)"
    using i by (simp add: Cons_nth_drop_Suc [symmetric])
  then show ?case using Suc.IH [of "Suc i"] Suc.prems by simp
qed simp

lemma module_find_eq: "ev_actor_module_find a = List.find (\<lambda>d. mod_actor_id d = a) g_actor_modules"
  by (simp add: ev_actor_module_find_def module_find_loop_eq)

lemma modules_match_catalog:
  "map (\<lambda>d. (mod_actor_id d, mod_execution_domain d)) g_actor_modules
     = map (\<lambda>m. (am_id m, am_execution_domain m)) k_actor_catalog"
  by code_simp

end
