(* ===== verification/EvSpanIndex.thy ===== *)
theory EvSpanIndex
  imports EvRouteTable
begin

text \<open>
  The contract of a span index: a list of routes grouped by event, with a lookup from an event to the
  contiguous run of its routes. The static route table and the active route table of a runtime graph both
  provide it, and the delivery loops rely on it: walking the span of an event visits the routes of that
  event, all of them, in table order.
\<close>

locale span_index =
  fixes ready :: "'t \<Rightarrow> bool"
    and routes :: "'t \<Rightarrow> 'r list"
    and event :: "'r \<Rightarrow> ev_event_id"
    and at :: "'t \<Rightarrow> nat \<Rightarrow> 'r option"
    and span_of :: "'t \<Rightarrow> ev_event_id \<Rightarrow> ev_route_span"
  assumes at_routes: "ready t \<Longrightarrow> i < length (routes t) \<Longrightarrow> at t i = Some (routes t ! i)"
    and in_table: "ready t \<Longrightarrow> sp_start_index (span_of t e) + sp_count (span_of t e) \<le> length (routes t)"
    and slice: "ready t \<Longrightarrow> take (sp_count (span_of t e)) (drop (sp_start_index (span_of t e)) (routes t))
                  = filter (\<lambda>r. event r = e) (routes t)"
begin

lemma count_of_event: "ready t \<Longrightarrow> sp_count (span_of t e) = length (filter (\<lambda>r. event r = e) (routes t))"
  using slice [of t e] in_table [of t e] by (metis diff_diff_cancel diff_le_self le_add_diff_inverse2
      length_drop length_take min.absorb2 add_leD2 le_diff_conv2 add_leD1 add.commute)

lemma visit:
  assumes "ready t" and "i < sp_count (span_of t e)"
  shows "at t (sp_start_index (span_of t e) + i) = Some (filter (\<lambda>r. event r = e) (routes t) ! i)"
proof -
  have "sp_start_index (span_of t e) + i < length (routes t)" using in_table [OF assms(1), of e] assms(2) by simp
  then have "at t (sp_start_index (span_of t e) + i) = Some (routes t ! (sp_start_index (span_of t e) + i))"
    by (rule at_routes [OF assms(1)])
  also have "routes t ! (sp_start_index (span_of t e) + i)
      = take (sp_count (span_of t e)) (drop (sp_start_index (span_of t e)) (routes t)) ! i"
    using assms in_table [OF assms(1), of e] by simp
  finally show ?thesis using slice [OF assms(1)] by simp
qed

lemma visit_event:
  "ready t \<Longrightarrow> i < sp_count (span_of t e) \<Longrightarrow>
     \<exists>r. at t (sp_start_index (span_of t e) + i) = Some r \<and> r \<in> set (routes t) \<and> event r = e"
  using visit [of t i e] count_of_event [of t e] nth_mem [of i "filter (\<lambda>r. event r = e) (routes t)"] by auto

lemma visits:
  "ready t \<Longrightarrow> map (\<lambda>i. at t (sp_start_index (span_of t e) + i)) [0..<sp_count (span_of t e)]
     = map Some (filter (\<lambda>r. event r = e) (routes t))"
  by (rule nth_equalityI) (simp_all add: count_of_event visit)

end

text \<open>The static table provides the contract unconditionally.\<close>

lemma static_span_in_table:
  "sp_start_index (ev_route_span_for_event e) + sp_count (ev_route_span_for_event e)
     \<le> length k_ev_route_table_generated"
  using route_span_valid [of e] by (auto simp: ev_route_span_is_valid_def)

interpretation static_routes: span_index "\<lambda>_::unit. True" "\<lambda>_. k_ev_route_table_generated" rt_event_id
    "\<lambda>_. ev_route_at" "\<lambda>_. ev_route_span_for_event"
  by unfold_locales
    (simp_all add: ev_route_at_def static_span_in_table [unfolded length_route_table] route_span_slice routes_of_event_def)

end
