(* ===== verification/EvActiveRoutes.thy ===== *)
theory EvActiveRoutes
  imports EvSpanIndex
begin

text \<open>
  The active route table of a runtime graph (\<open>runtime/src/ev_active_route_table.c\<close>,
  \<open>runtime/include/ev/active_route_table.h\<close>): the routes of one build, each with its validation state,
  and, once finalized, the span of every event.
\<close>

section \<open>State and operations\<close>

abbreviation EV_ACTIVE_ROUTE_TABLE_CAPACITY :: nat where "EV_ACTIVE_ROUTE_TABLE_CAPACITY \<equiv> 96"

abbreviation EV_RUNTIME_ROUTE_VALIDATE_STRICT_MANDATORY :: u32 where
  "EV_RUNTIME_ROUTE_VALIDATE_STRICT_MANDATORY \<equiv> 1"

datatype ev_active_route_state =
    EV_ACTIVE_ROUTE_ENABLED
  | EV_ACTIVE_ROUTE_OPTIONAL_DISABLED
  | EV_ACTIVE_ROUTE_REJECTED_INVALID_EVENT
  | EV_ACTIVE_ROUTE_REJECTED_INVALID_ACTOR
  | EV_ACTIVE_ROUTE_REJECTED_MISSING_MANDATORY_ACTOR
  | EV_ACTIVE_ROUTE_REJECTED_QOS_CONFLICT
  | EV_ACTIVE_ROUTE_REJECTED_OVERFLOW

record ev_active_route =
  ae_route :: ev_route
  ae_state :: ev_active_route_state
  ae_reason :: ev_result

record ev_active_route_table =
  at_entries :: "ev_active_route list"
  at_spans :: "ev_route_span list"
  at_count :: nat
  at_active_count :: nat
  at_optional_disabled_count :: nat
  at_rejected_count :: nat
  at_spans_finalized :: u8

abbreviation ae_event :: "ev_active_route \<Rightarrow> ev_event_id" where
  "ae_event entry \<equiv> rt_event_id (ae_route entry)"

text \<open>What \<open>memset\<close> leaves: the enumerators with value 0.\<close>

definition zero_active_route :: ev_active_route where
  "zero_active_route = \<lparr>ae_route = \<lparr>rt_event_id = 0, rt_target_actor = 0, rt_qos = EV_ROUTE_QOS_CRITICAL,
     rt_priority = 0, rt_flags = 0\<rparr>, ae_state = EV_ACTIVE_ROUTE_ENABLED, ae_reason = EV_OK\<rparr>"

definition zero_active_routes :: ev_active_route_table where
  "zero_active_routes = \<lparr>at_entries = replicate EV_ACTIVE_ROUTE_TABLE_CAPACITY zero_active_route,
     at_spans = replicate (nat EV_EVENT_COUNT) (span 0 0), at_count = 0, at_active_count = 0,
     at_optional_disabled_count = 0, at_rejected_count = 0, at_spans_finalized = 0\<rparr>"

definition ev_active_route_empty_span :: ev_route_span where
  "ev_active_route_empty_span = span 0 0"

definition ev_active_route_span_is_valid :: "ev_active_route_table option \<Rightarrow> ev_route_span \<Rightarrow> bool" where
  "ev_active_route_span_is_valid table sp =
     (case table of None \<Rightarrow> False
      | Some t \<Rightarrow> sp_start_index sp \<le> at_count t \<and> sp_count sp \<le> at_count t - sp_start_index sp)"

definition ev_active_route_table_init :: "ev_active_route_table option \<Rightarrow> ev_active_route_table option" where
  "ev_active_route_table_init table = map_option (\<lambda>_. zero_active_routes) table"

definition ev_active_route_table_add ::
    "ev_active_route_table option \<Rightarrow> ev_route option \<Rightarrow> ev_active_route_state \<Rightarrow> ev_result
       \<Rightarrow> ev_result \<times> ev_active_route_table option" where
  "ev_active_route_table_add table route state reason =
     (case (table, route) of
        (Some t, Some r) \<Rightarrow>
          if EV_ACTIVE_ROUTE_TABLE_CAPACITY \<le> at_count t then (EV_ERR_FULL, table)
          else
            let t1 = t\<lparr>at_entries := (at_entries t)[at_count t := \<lparr>ae_route = r, ae_state = state, ae_reason = reason\<rparr>],
                       at_count := at_count t + 1, at_spans_finalized := 0\<rparr>
            in (EV_OK, Some (case state of
                  EV_ACTIVE_ROUTE_ENABLED \<Rightarrow> t1\<lparr>at_active_count := at_active_count t1 + 1\<rparr>
                | EV_ACTIVE_ROUTE_OPTIONAL_DISABLED \<Rightarrow>
                    t1\<lparr>at_optional_disabled_count := at_optional_disabled_count t1 + 1\<rparr>
                | _ \<Rightarrow> t1\<lparr>at_rejected_count := at_rejected_count t1 + 1\<rparr>))
      | _ \<Rightarrow> (EV_ERR_INVALID_ARG, table))"

text \<open>
  The loop of \<open>ev_active_route_table_finalize_spans\<close>: \<open>n\<close> entries left, the next at index \<open>i\<close>. The
  previous event is \<open>None\<close> before the first entry. On an error the spans written so far remain.
\<close>

primrec active_spans_loop ::
    "ev_active_route list \<Rightarrow> nat \<Rightarrow> nat \<Rightarrow> ev_event_id option \<Rightarrow> u8 list \<Rightarrow> ev_route_span list
       \<Rightarrow> ev_result \<times> ev_route_span list" where
  "active_spans_loop entries 0 i previous closed spans = (EV_OK, spans)"
| "active_spans_loop entries (Suc n) i previous closed spans =
     (let event_id = ae_event (entries ! i)
      in if \<not> ev_event_id_is_valid event_id then (EV_ERR_OUT_OF_RANGE, spans)
         else
           let closed = (case previous of None \<Rightarrow> closed
                         | Some p \<Rightarrow> if event_id \<noteq> p then closed[nat p := 1] else closed);
               sp = spans ! nat event_id
           in if sp_count sp = 0
              then if closed ! nat event_id \<noteq> 0 then (EV_ERR_CONTRACT, spans)
                   else active_spans_loop entries n (Suc i) (Some event_id) closed
                          (spans[nat event_id := span i 1])
              else if closed ! nat event_id \<noteq> 0 \<or> sp_start_index sp + sp_count sp \<noteq> i
                   then (EV_ERR_CONTRACT, spans)
                   else active_spans_loop entries n (Suc i) (Some event_id) closed
                          (spans[nat event_id := sp\<lparr>sp_count := sp_count sp + 1\<rparr>]))"

definition ev_active_route_table_finalize_spans ::
    "ev_active_route_table option \<Rightarrow> ev_result \<times> ev_active_route_table option" where
  "ev_active_route_table_finalize_spans table =
     (case table of None \<Rightarrow> (EV_ERR_INVALID_ARG, None)
      | Some t \<Rightarrow>
        let (rc, spans) = active_spans_loop (at_entries t) (at_count t) 0 None
              (replicate (nat EV_EVENT_COUNT) 0) (replicate (nat EV_EVENT_COUNT) (span 0 0))
        in (rc, Some (t\<lparr>at_spans := spans, at_spans_finalized := if rc = EV_OK then 1 else 0\<rparr>)))"

definition ev_active_route_table_span_for_event :: "ev_active_route_table option \<Rightarrow> ev_event_id \<Rightarrow> ev_route_span" where
  "ev_active_route_table_span_for_event table event_id =
     (case table of None \<Rightarrow> ev_active_route_empty_span
      | Some t \<Rightarrow>
        if at_spans_finalized t = 0 \<or> \<not> ev_event_id_is_valid event_id then ev_active_route_empty_span
        else let sp = at_spans t ! nat event_id
             in if \<not> ev_active_route_span_is_valid table sp then ev_active_route_empty_span else sp)"

definition ev_active_route_at :: "ev_active_route_table option \<Rightarrow> nat \<Rightarrow> ev_active_route option" where
  "ev_active_route_at table index =
     (case table of None \<Rightarrow> None
      | Some t \<Rightarrow> if at_count t \<le> index then None else Some (at_entries t ! index))"

fun ev_active_route_state_name :: "ev_active_route_state \<Rightarrow> string" where
  "ev_active_route_state_name EV_ACTIVE_ROUTE_ENABLED = ''enabled''"
| "ev_active_route_state_name EV_ACTIVE_ROUTE_OPTIONAL_DISABLED = ''optional_disabled''"
| "ev_active_route_state_name EV_ACTIVE_ROUTE_REJECTED_INVALID_EVENT = ''rejected_invalid_event''"
| "ev_active_route_state_name EV_ACTIVE_ROUTE_REJECTED_INVALID_ACTOR = ''rejected_invalid_actor''"
| "ev_active_route_state_name EV_ACTIVE_ROUTE_REJECTED_MISSING_MANDATORY_ACTOR = ''rejected_missing_mandatory_actor''"
| "ev_active_route_state_name EV_ACTIVE_ROUTE_REJECTED_QOS_CONFLICT = ''rejected_qos_conflict''"
| "ev_active_route_state_name EV_ACTIVE_ROUTE_REJECTED_OVERFLOW = ''rejected_overflow''"

fun ev_route_qos_is_valid :: "ev_route_qos \<Rightarrow> bool" where
  "ev_route_qos_is_valid (EV_ROUTE_QOS_OTHER _) = False"
| "ev_route_qos_is_valid _ = True"

section \<open>Building a table\<close>

definition active_entries :: "ev_active_route_table \<Rightarrow> ev_active_route list" where
  "active_entries t = take (at_count t) (at_entries t)"

definition active_wf :: "ev_active_route_table \<Rightarrow> bool" where
  "active_wf t \<longleftrightarrow> length (at_entries t) = EV_ACTIVE_ROUTE_TABLE_CAPACITY \<and> at_count t \<le> EV_ACTIVE_ROUTE_TABLE_CAPACITY
     \<and> at_active_count t = length (filter (\<lambda>e. ae_state e = EV_ACTIVE_ROUTE_ENABLED) (active_entries t))
     \<and> at_optional_disabled_count t
         = length (filter (\<lambda>e. ae_state e = EV_ACTIVE_ROUTE_OPTIONAL_DISABLED) (active_entries t))
     \<and> at_active_count t + at_optional_disabled_count t + at_rejected_count t = at_count t"

lemma zero_active_wf: "active_wf zero_active_routes"
  by (simp add: active_wf_def zero_active_routes_def active_entries_def)

lemma zero_active_entries: "active_entries zero_active_routes = []"
  by (simp add: zero_active_routes_def active_entries_def)

lemma length_active_entries: "active_wf t \<Longrightarrow> length (active_entries t) = at_count t"
  by (simp add: active_wf_def active_entries_def)

lemma add_full:
  "active_wf t \<Longrightarrow> EV_ACTIVE_ROUTE_TABLE_CAPACITY \<le> length (active_entries t) \<Longrightarrow>
     ev_active_route_table_add (Some t) (Some r) state reason = (EV_ERR_FULL, Some t)"
  by (simp add: length_active_entries ev_active_route_table_add_def)

lemma add_appends:
  assumes wf: "active_wf t" and lt: "length (active_entries t) < EV_ACTIVE_ROUTE_TABLE_CAPACITY"
  shows "\<exists>t'. ev_active_route_table_add (Some t) (Some r) state reason = (EV_OK, Some t') \<and> active_wf t'
        \<and> active_entries t' = active_entries t @ [\<lparr>ae_route = r, ae_state = state, ae_reason = reason\<rparr>]"
proof -
  let ?e = "\<lparr>ae_route = r, ae_state = state, ae_reason = reason\<rparr>"
  have "take (Suc (at_count t)) ((at_entries t)[at_count t := ?e]) = active_entries t @ [?e]"
    using lt wf by (simp add: length_active_entries active_entries_def active_wf_def take_Suc_conv_app_nth)
  then show ?thesis
    using lt wf unfolding length_active_entries [OF wf]
    by (cases state) (simp_all add: ev_active_route_table_add_def Let_def active_wf_def active_entries_def)
qed

section \<open>Spans\<close>

text \<open>Events that occur in one run each.\<close>

definition grouped :: "'a list \<Rightarrow> bool" where
  "grouped xs \<longleftrightarrow> distinct (remdups_adj xs)"

lemma grouped_Nil [simp]: "grouped []"
  by (simp add: grouped_def)

lemma grouped_snoc: "grouped (xs @ [x]) \<longleftrightarrow> grouped xs \<and> (x \<notin> set xs \<or> xs \<noteq> [] \<and> x = last xs)"
proof (cases xs rule: rev_cases)
  case (snoc ys y)
  have "y \<in> set (remdups_adj (ys @ [y]))" by simp
  then show ?thesis
    by (auto simp: grouped_def snoc remdups_adj_append_two simp del: remdups_adj_append)
qed (simp add: grouped_def)

lemma grouped_prefix: "grouped (xs @ ys) \<Longrightarrow> grouped xs"
  by (induction ys rule: rev_induct) (simp_all add: grouped_snoc flip: append_assoc)

text \<open>What the loop knows after the prefix \<open>P\<close> of the events.\<close>

definition spans_ok :: "ev_event_id list \<Rightarrow> ev_route_span list \<Rightarrow> bool" where
  "spans_ok P spans \<longleftrightarrow> length spans = nat EV_EVENT_COUNT \<and>
     (\<forall>e. ev_event_id_is_valid e \<longrightarrow>
        sp_count (spans ! nat e) = count_list P e
        \<and> (e \<in> set P \<longrightarrow> sp_start_index (spans ! nat e) + sp_count (spans ! nat e) \<le> length P
             \<and> take (sp_count (spans ! nat e)) (drop (sp_start_index (spans ! nat e)) P) = replicate (count_list P e) e)
        \<and> (P \<noteq> [] \<and> e = last P \<longrightarrow> sp_start_index (spans ! nat e) + sp_count (spans ! nat e) = length P))"

definition closed_ok :: "ev_event_id set \<Rightarrow> u8 list \<Rightarrow> bool" where
  "closed_ok A closed \<longleftrightarrow> length closed = nat EV_EVENT_COUNT
     \<and> (\<forall>e. ev_event_id_is_valid e \<longrightarrow> (closed ! nat e \<noteq> 0 \<longleftrightarrow> e \<in> A))"


lemma valid_index: "ev_event_id_is_valid e \<Longrightarrow> nat e < nat EV_EVENT_COUNT"
  by (simp add: ev_event_id_is_valid_iff nat_less_iff)

lemma valid_index_eq: "ev_event_id_is_valid e \<Longrightarrow> ev_event_id_is_valid d \<Longrightarrow> nat e = nat d \<longleftrightarrow> e = d"
  by (auto simp: ev_event_id_is_valid_iff)

lemma spans_ok_start: "spans_ok [] (replicate (nat EV_EVENT_COUNT) (span 0 0))"
  by (auto simp: spans_ok_def valid_index [simplified])

lemma closed_step:
  assumes "closed_ok (set P - (if P = [] then {} else {last P})) closed" and "list_all ev_event_id_is_valid P"
  shows "closed_ok (set P - (if P \<noteq> [] \<and> x = last P then {x} else {}))
     (case if P = [] then None else Some (last P) of None \<Rightarrow> closed
      | Some p \<Rightarrow> if x \<noteq> p then closed[nat p := 1] else closed)"
proof (cases P rule: rev_cases)
  case Nil
  then show ?thesis using assms(1) by simp
next
  case (snoc ys y)
  have y: "ev_event_id_is_valid y" using assms(2) by (simp add: snoc)
  have len: "length closed = nat EV_EVENT_COUNT" using assms(1) by (simp add: closed_ok_def)
  have old: "closed ! nat e \<noteq> 0 \<longleftrightarrow> e \<in> set ys \<and> e \<noteq> y" if "ev_event_id_is_valid e" for e
    using assms(1) that by (auto simp: closed_ok_def snoc)
  have new: "closed[nat y := 1] ! nat e \<noteq> 0 \<longleftrightarrow> e \<in> set ys \<or> e = y" if e: "ev_event_id_is_valid e" for e
    using old [OF e] len valid_index [OF y] valid_index_eq [OF e y] by (cases "e = y") auto
  show ?thesis
  proof (cases "x = y")
    case True
    then show ?thesis using len old by (auto simp: closed_ok_def snoc)
  next
    case False
    then show ?thesis using len new by (auto simp: closed_ok_def snoc)
  qed
qed

text \<open>What the table knows of one event; an update at another event's index leaves it alone.\<close>

definition span_ok :: "ev_event_id list \<Rightarrow> ev_event_id \<Rightarrow> ev_route_span \<Rightarrow> bool" where
  "span_ok P e sp \<longleftrightarrow> sp_count sp = count_list P e
     \<and> (e \<in> set P \<longrightarrow> sp_start_index sp + sp_count sp \<le> length P
          \<and> take (sp_count sp) (drop (sp_start_index sp) P) = replicate (count_list P e) e)
     \<and> (P \<noteq> [] \<and> e = last P \<longrightarrow> sp_start_index sp + sp_count sp = length P)"

lemma span_ok_member:
  "span_ok P e sp \<Longrightarrow> e \<in> set P \<Longrightarrow> sp_start_index sp + sp_count sp \<le> length P
     \<and> take (count_list P e) (drop (sp_start_index sp) P) = replicate (count_list P e) e
     \<and> sp_count sp = count_list P e"
  unfolding span_ok_def by metis

lemma spans_ok_iff:
  "spans_ok P spans \<longleftrightarrow> length spans = nat EV_EVENT_COUNT
     \<and> (\<forall>e. ev_event_id_is_valid e \<longrightarrow> span_ok P e (spans ! nat e))"
  by (simp add: spans_ok_def span_ok_def)

lemma span_ok_other: "span_ok P e sp \<Longrightarrow> x \<noteq> e \<Longrightarrow> span_ok (P @ [x]) e sp"
  by (auto simp: span_ok_def)

lemma spans_set:
  assumes ok: "spans_ok P spans" and x: "ev_event_id_is_valid x" and sp: "span_ok (P @ [x]) x sp"
  shows "spans_ok (P @ [x]) (spans[nat x := sp])"
proof -
  have "span_ok (P @ [x]) e (spans[nat x := sp] ! nat e)" if e: "ev_event_id_is_valid e" for e
  proof (cases "e = x")
    case True
    then show ?thesis using ok sp valid_index [OF x] by (simp add: spans_ok_iff)
  next
    case False
    then have "nat x \<noteq> nat e" using valid_index_eq [OF x e] by simp
    then show ?thesis using ok e False by (simp add: spans_ok_iff span_ok_other)
  qed
  then show ?thesis using ok by (simp add: spans_ok_iff)
qed

lemma span_ok_new: "x \<notin> set P \<Longrightarrow> span_ok (P @ [x]) x (span (length P) 1)"
  by (simp add: span_ok_def count_list_0_iff)

lemma span_ok_grow:
  assumes ok: "span_ok P x sp" and x: "P \<noteq> []" "x = last P"
  shows "span_ok (P @ [x]) x (sp\<lparr>sp_count := sp_count sp + 1\<rparr>)"
proof -
  have c: "sp_count sp = count_list P x" and e: "sp_start_index sp + sp_count sp = length P"
    and t: "take (sp_count sp) (drop (sp_start_index sp) P) = replicate (count_list P x) x"
    using ok x by (auto simp: span_ok_def)
  have d: "drop (sp_start_index sp) P = replicate (count_list P x) x" using t e by simp
  have le: "sp_start_index sp \<le> length P" using e by simp
  have "take (Suc (count_list P x)) (drop (sp_start_index sp) (P @ [x])) = replicate (Suc (count_list P x)) x"
    using d le by (simp add: replicate_append_same)
  then show ?thesis using c e by (simp add: span_ok_def)
qed

lemma spans_loop_spec:
  assumes "list_all ev_event_id_is_valid P" and "grouped P" and "spans_ok P spans"
    and "closed_ok (set P - (if P = [] then {} else {last P})) closed"
    and "map ae_event (take (length P + n) entries) = P @ R" and "length R = n"
    and "active_spans_loop entries n (length P) (if P = [] then None else Some (last P)) closed spans = (rc, spans')"
  shows "(rc = EV_OK \<longleftrightarrow> list_all ev_event_id_is_valid R \<and> grouped (P @ R))
     \<and> (rc = EV_OK \<longrightarrow> spans_ok (P @ R) spans') \<and> rc \<in> {EV_OK, EV_ERR_OUT_OF_RANGE, EV_ERR_CONTRACT}"
  using assms
proof (induction n arbitrary: P R closed spans)
  case 0
  then show ?case by simp
next
  case (Suc n)
  obtain x S where R: "R = x # S" and S: "length S = n" using Suc.prems(6) by (cases R) simp_all
  have lt: "length P < length entries"
    using arg_cong [OF Suc.prems(5), of length] Suc.prems(6) by simp
  have x: "ae_event (entries ! length P) = x"
    using arg_cong [OF Suc.prems(5), of "\<lambda>l. l ! length P"] lt by (simp add: R nth_append)
  define closed1 where "closed1 = (case if P = [] then None else Some (last P) of None \<Rightarrow> closed
      | Some p \<Rightarrow> if x \<noteq> p then closed[nat p := 1] else closed)"
  have cl: "closed_ok (set P - (if P \<noteq> [] \<and> x = last P then {x} else {})) closed1"
    unfolding closed1_def by (rule closed_step [OF Suc.prems(4,1)])
  have loop: "active_spans_loop entries (Suc n) (length P) (if P = [] then None else Some (last P)) closed spans
    = (if \<not> ev_event_id_is_valid x then (EV_ERR_OUT_OF_RANGE, spans)
       else if sp_count (spans ! nat x) = 0
            then if closed1 ! nat x \<noteq> 0 then (EV_ERR_CONTRACT, spans)
                 else active_spans_loop entries n (Suc (length P)) (Some x) closed1 (spans[nat x := span (length P) 1])
            else if closed1 ! nat x \<noteq> 0 \<or> sp_start_index (spans ! nat x) + sp_count (spans ! nat x) \<noteq> length P
                 then (EV_ERR_CONTRACT, spans)
                 else active_spans_loop entries n (Suc (length P)) (Some x) closed1
                   (spans[nat x := (spans ! nat x)\<lparr>sp_count := sp_count (spans ! nat x) + 1\<rparr>]))"
    by (simp add: x Let_def closed1_def)
  show ?case
  proof (cases "ev_event_id_is_valid x")
    case False
    then show ?thesis using Suc.prems(7) by (auto simp: loop R simp del: active_spans_loop.simps)
  next
    case v: True
    have cnt: "sp_count (spans ! nat x) = count_list P x" using Suc.prems(3) v by (simp add: spans_ok_def)
    have cx: "closed1 ! nat x \<noteq> 0 \<longleftrightarrow> x \<in> set P \<and> \<not> (P \<noteq> [] \<and> x = last P)"
      using cl v by (auto simp: closed_ok_def)
    show ?thesis
    proof (cases "x \<notin> set P \<or> P \<noteq> [] \<and> x = last P")
      case fits: True
      define spans1 where "spans1 = (if x \<notin> set P then spans[nat x := span (length P) 1]
         else spans[nat x := (spans ! nat x)\<lparr>sp_count := sp_count (spans ! nat x) + 1\<rparr>])"
      have ok1: "spans_ok (P @ [x]) spans1"
        using spans_set [OF Suc.prems(3) v] span_ok_new span_ok_grow Suc.prems(3) v fits
        by (auto simp: spans1_def spans_ok_iff)
      have end1: "x \<in> set P \<Longrightarrow> sp_start_index (spans ! nat x) + sp_count (spans ! nat x) = length P"
        using Suc.prems(3) v fits by (auto simp: spans_ok_def)
      have step: "active_spans_loop entries (Suc n) (length P) (if P = [] then None else Some (last P)) closed spans
          = active_spans_loop entries n (length (P @ [x])) (if P @ [x] = [] then None else Some (last (P @ [x]))) closed1 spans1"
      proof (cases "x \<in> set P")
        case True
        then have "count_list P x \<noteq> 0" "closed1 ! nat x = 0" using cx fits by (auto simp: count_list_0_iff)
        then show ?thesis unfolding loop using v cnt end1 [OF True] True by (simp add: spans1_def)
      next
        case False
        then have "count_list P x = 0" "closed1 ! nat x = 0" using cx by (auto simp: count_list_0_iff)
        then show ?thesis unfolding loop using v cnt False by (simp add: spans1_def)
      qed
      have c1: "closed_ok (set (P @ [x]) - (if P @ [x] = [] then {} else {last (P @ [x])})) closed1"
      proof -
        have "set (P @ [x]) - {x} = set P - (if P \<noteq> [] \<and> x = last P then {x} else {})"
          using fits by (cases "x \<in> set P") auto
        then show ?thesis using cl by simp
      qed
      have m1: "map ae_event (take (length (P @ [x]) + n) entries) = (P @ [x]) @ S" using Suc.prems(5) by (simp add: R)
      have p1: "list_all ev_event_id_is_valid (P @ [x])" "grouped (P @ [x])"
        using Suc.prems(1,2) v fits by (simp_all add: grouped_snoc)
      show ?thesis
        using Suc.IH [OF p1 ok1 c1 m1 S Suc.prems(7) [unfolded step]] v
        unfolding R append.assoc append_Cons append_Nil list.pred_inject by blast
    next
      case False
      then have "\<not> grouped (P @ [x])" by (auto simp: grouped_snoc)
      then have "\<not> grouped (P @ R)" using grouped_prefix [of "P @ [x]" S] by (auto simp: R)
      moreover have "count_list P x \<noteq> 0" using False by (simp add: count_list_0_iff)
      ultimately show ?thesis
        using Suc.prems(7) v cx False cnt by (auto simp: loop simp del: active_spans_loop.simps)
    qed
  qed
qed


lemma finalize_spec:
  assumes wf: "active_wf t" and f: "ev_active_route_table_finalize_spans (Some t) = (rc, Some t')"
  shows "(rc = EV_OK \<longleftrightarrow> list_all ev_event_id_is_valid (map ae_event (active_entries t))
            \<and> grouped (map ae_event (active_entries t)))
     \<and> rc \<in> {EV_OK, EV_ERR_OUT_OF_RANGE, EV_ERR_CONTRACT}
     \<and> active_wf t' \<and> active_entries t' = active_entries t
     \<and> (rc = EV_OK \<longrightarrow> at_spans_finalized t' = 1 \<and> spans_ok (map ae_event (active_entries t')) (at_spans t'))"
proof -
  let ?P = "map ae_event (active_entries t)"
  obtain spans where l: "active_spans_loop (at_entries t) (at_count t) 0 None (replicate (nat EV_EVENT_COUNT) 0)
      (replicate (nat EV_EVENT_COUNT) (span 0 0)) = (rc, spans)"
    and t': "t' = t\<lparr>at_spans := spans, at_spans_finalized := if rc = EV_OK then 1 else 0\<rparr>"
    using f by (auto simp: ev_active_route_table_finalize_spans_def split: prod.splits)
  have c: "closed_ok {} (replicate (nat EV_EVENT_COUNT) 0)" by (auto simp: closed_ok_def valid_index [simplified])
  have s: "(rc = EV_OK \<longleftrightarrow> list_all ev_event_id_is_valid ?P \<and> grouped ?P)
     \<and> (rc = EV_OK \<longrightarrow> spans_ok ?P spans) \<and> rc \<in> {EV_OK, EV_ERR_OUT_OF_RANGE, EV_ERR_CONTRACT}"
  proof -
    have "map ae_event (take (length [] + at_count t) (at_entries t)) = [] @ ?P" by (simp add: active_entries_def)
    moreover have "length ?P = at_count t" using length_active_entries [OF wf] by simp
    ultimately show ?thesis
      using spans_loop_spec [OF _ _ spans_ok_start, where n = "at_count t" and entries = "at_entries t" and R = ?P
          and closed = "replicate (nat EV_EVENT_COUNT) 0" and rc = rc and spans' = spans] c l
      by (simp, blast)
  qed
  have same: "active_entries t' = active_entries t" "active_wf t'"
    using wf by (simp_all add: t' active_entries_def active_wf_def)
  show ?thesis
  proof (cases "rc = EV_OK")
    case True
    then show ?thesis using s same by (simp add: t' active_entries_def)
  next
    case False
    then show ?thesis using s same by blast
  qed
qed

section \<open>The span index contract\<close>

definition active_ready :: "ev_active_route_table \<Rightarrow> bool" where
  "active_ready t \<longleftrightarrow> active_wf t \<and> at_spans_finalized t = 1
     \<and> list_all ev_event_id_is_valid (map ae_event (active_entries t))
     \<and> spans_ok (map ae_event (active_entries t)) (at_spans t)"

lemma filter_count_slice:
  assumes "take (count_list (map f xs) e) (drop s (map f xs)) = replicate (count_list (map f xs) e) e"
  shows "take (count_list (map f xs) e) (drop s xs) = filter (\<lambda>x. f x = e) xs"
proof -
  let ?c = "count_list (map f xs) e"
  have split: "xs = take s xs @ take ?c (drop s xs) @ drop ?c (drop s xs)"
    by (simp only: append_take_drop_id)
  have mid: "\<forall>x \<in> set (take ?c (drop s xs)). f x = e"
  proof
    fix x assume "x \<in> set (take ?c (drop s xs))"
    then have "f x \<in> set (take ?c (drop s (map f xs)))" by (simp add: take_map drop_map)
    then show "f x = e" using assms by (metis in_set_replicate)
  qed
  define A B C where "A = take s xs" and "B = take ?c (drop s xs)" and "C = drop ?c (drop s xs)"
  let ?F = "filter (\<lambda>x. f x = e)"
  have "length B = ?c" using arg_cong [OF assms, of length] by (simp add: B_def drop_map)
  moreover have "count_list (map f zs) e = length (?F zs)" for zs by (induction zs) auto
  ultimately have B: "length B = length (?F xs)" by simp
  have xs: "xs = A @ B @ C" using split by (simp only: A_def B_def C_def)
  have FB: "?F B = B" unfolding B_def by (rule filter_True [OF mid])
  have F: "?F xs = ?F A @ B @ ?F C" unfolding xs filter_append FB ..
  have "length (?F xs) = length (?F A) + length B + length (?F C)" unfolding F by (simp only: length_append add.assoc)
  then have "length (?F A) = 0" "length (?F C) = 0" using B by linarith+
  then have "?F A = []" "?F C = []" by (simp_all only: length_0_conv)
  then have "?F xs = B" unfolding F by (simp only: append_Nil append_Nil2)
  then show ?thesis by (simp only: B_def)
qed

lemma active_span:
  assumes r: "active_ready t"
  shows "sp_start_index (ev_active_route_table_span_for_event (Some t) e)
           + sp_count (ev_active_route_table_span_for_event (Some t) e) \<le> length (active_entries t)
     \<and> take (sp_count (ev_active_route_table_span_for_event (Some t) e))
         (drop (sp_start_index (ev_active_route_table_span_for_event (Some t) e)) (active_entries t))
       = filter (\<lambda>x. ae_event x = e) (active_entries t)"
proof (cases "ev_event_id_is_valid e \<and> e \<in> set (map ae_event (active_entries t))")
  case True
  let ?sp = "at_spans t ! nat e"
  have wf: "active_wf t" and fin: "at_spans_finalized t = 1" using r by (simp_all add: active_ready_def)
  have sp: "span_ok (map ae_event (active_entries t)) e ?sp" using r True by (simp add: active_ready_def spans_ok_iff)
  then have le: "sp_start_index ?sp + sp_count ?sp \<le> length (active_entries t)"
    and sl: "take (count_list (map ae_event (active_entries t)) e) (drop (sp_start_index ?sp) (map ae_event (active_entries t)))
       = replicate (count_list (map ae_event (active_entries t)) e) e"
    and c: "sp_count ?sp = count_list (map ae_event (active_entries t)) e"
    using span_ok_member [of "map ae_event (active_entries t)" e ?sp] True by simp_all
  have "ev_active_route_table_span_for_event (Some t) e = ?sp"
    using le True fin by (simp add: ev_active_route_table_span_for_event_def ev_active_route_span_is_valid_def
        Let_def length_active_entries [OF wf])
  then show ?thesis using le filter_count_slice [OF sl] c by simp
next
  case False
  have none: "filter (\<lambda>x. ae_event x = e) (active_entries t) = []"
    using False r by (auto simp: filter_empty_conv active_ready_def list_all_iff)
  have "sp_count (at_spans t ! nat e) = 0" if "ev_event_id_is_valid e"
    using that False r by (simp add: active_ready_def spans_ok_def count_list_0_iff)
  then have "sp_count (ev_active_route_table_span_for_event (Some t) e) = 0
      \<and> sp_start_index (ev_active_route_table_span_for_event (Some t) e) \<le> length (active_entries t)"
    using r by (auto simp: ev_active_route_table_span_for_event_def ev_active_route_empty_span_def
        ev_active_route_span_is_valid_def Let_def active_ready_def length_active_entries)
  then show ?thesis using none by simp
qed

lemma finalize_ready:
  assumes "active_wf t" and "ev_active_route_table_finalize_spans (Some t) = (EV_OK, Some t')"
  shows "active_ready t'"
  using finalize_spec [OF assms] unfolding active_ready_def spans_ok_iff by metis

interpretation active_routes: span_index active_ready active_entries ae_event
    "\<lambda>t. ev_active_route_at (Some t)" "\<lambda>t. ev_active_route_table_span_for_event (Some t)"
proof unfold_locales
  show "ev_active_route_at (Some t) i = Some (active_entries t ! i)"
    if "active_ready t" "i < length (active_entries t)" for t i
    using that by (simp add: ev_active_route_at_def active_entries_def)
qed (use active_span in blast)+

section \<open>Properties\<close>

text \<open>
  Finalizing builds a correct span index, or says why not. It succeeds exactly when every entry has a
  known event and the entries of each event are contiguous; then walking the span of any event visits
  exactly the entries of that event, in table order. Otherwise it reports an id out of range or a broken
  contract, and every lookup returns the empty span.
\<close>
theorem finalize_builds_index:
  assumes "active_wf t" and "ev_active_route_table_finalize_spans (Some t) = (rc, Some t')"
  shows "(rc = EV_OK \<longleftrightarrow> list_all ev_event_id_is_valid (map ae_event (active_entries t))
            \<and> grouped (map ae_event (active_entries t)))
     \<and> rc \<in> {EV_OK, EV_ERR_OUT_OF_RANGE, EV_ERR_CONTRACT} \<and> active_entries t' = active_entries t
     \<and> (\<forall>e. map (\<lambda>i. ev_active_route_at (Some t') (sp_start_index (ev_active_route_table_span_for_event (Some t') e) + i))
              [0..<sp_count (ev_active_route_table_span_for_event (Some t') e)]
            = (if rc = EV_OK then map Some (filter (\<lambda>x. ae_event x = e) (active_entries t)) else []))"
proof -
  have sp: "(rc = EV_OK \<longleftrightarrow> list_all ev_event_id_is_valid (map ae_event (active_entries t))
            \<and> grouped (map ae_event (active_entries t)))
     \<and> rc \<in> {EV_OK, EV_ERR_OUT_OF_RANGE, EV_ERR_CONTRACT}
     \<and> active_wf t' \<and> active_entries t' = active_entries t
     \<and> (rc = EV_OK \<longrightarrow> at_spans_finalized t' = 1 \<and> spans_ok (map ae_event (active_entries t')) (at_spans t'))"
    by (rule finalize_spec [OF assms])
  show ?thesis
  proof (cases "rc = EV_OK")
    case True
    then have "active_ready t'" using sp by (auto simp: active_ready_def)
    then show ?thesis using sp True active_routes.visits [of t'] by simp
  next
    case False
    then have "at_spans_finalized t' = 0"
      using assms(2) by (auto simp: ev_active_route_table_finalize_spans_def split: prod.splits)
    then have "ev_active_route_table_span_for_event (Some t') e = span 0 0" for e
      by (simp add: ev_active_route_table_span_for_event_def ev_active_route_empty_span_def)
    then show ?thesis using sp False by simp
  qed
qed

definition demo_active_routes :: ev_active_route_table where
  "demo_active_routes = (let add = (\<lambda>r t. the (snd (ev_active_route_table_add (Some t) (Some r) EV_ACTIVE_ROUTE_ENABLED EV_OK)))
     in fold add (take 5 k_ev_route_table_generated) zero_active_routes)"

theorem finalize_builds_index_witness:
  "fst (ev_active_route_table_finalize_spans (Some demo_active_routes)) = EV_OK
     \<and> active_entries (the (snd (ev_active_route_table_finalize_spans (Some demo_active_routes))))
       = active_entries demo_active_routes"
proof -
  obtain rc t' where f: "ev_active_route_table_finalize_spans (Some demo_active_routes) = (rc, Some t')"
    by (cases "active_spans_loop (at_entries demo_active_routes) (at_count demo_active_routes) 0 None
          (replicate (nat EV_EVENT_COUNT) 0) (replicate (nat EV_EVENT_COUNT) (span 0 0))")
      (simp add: ev_active_route_table_finalize_spans_def)
  have wf: "active_wf demo_active_routes" by code_simp
  have ok: "list_all ev_event_id_is_valid (map ae_event (active_entries demo_active_routes))
      \<and> grouped (map ae_event (active_entries demo_active_routes))" by code_simp
  show ?thesis using finalize_builds_index [OF wf f] f ok by simp
qed

end
