(* ===== verification/EvQosContract.thy ===== *)
theory EvQosContract
  imports EvModules EvActiveRoutes
begin

text \<open>
  The QoS contract (\<open>runtime/src/ev_qos_contract.c\<close>, \<open>runtime/include/ev/qos_contract.h\<close>): what each route
  class promises when its target cannot accept a message, and which classes the module of the target
  accepts.
\<close>

section \<open>Contracts\<close>

datatype ev_qos_failure_behavior =
    EV_QOS_FAILURE_STRICT
  | EV_QOS_FAILURE_DROP_ALLOWED
  | EV_QOS_FAILURE_COALESCE
  | EV_QOS_FAILURE_REPLACE_LATEST

record ev_qos_contract =
  qc_qos :: ev_route_qos
  qc_failure_behavior :: ev_qos_failure_behavior
  qc_requires_reliable_delivery :: u8
  qc_allows_drop :: u8
  qc_allows_coalesce :: u8
  qc_allows_latest_replace :: u8
  qc_wakeup_relevant :: u8
  qc_command_relevant :: u8
  qc_telemetry_relevant :: u8

datatype ev_qos_contract_violation =
    EV_QOS_CONTRACT_OK
  | EV_QOS_CONTRACT_INVALID_QOS
  | EV_QOS_CONTRACT_MODULE_POLICY_MISMATCH
  | EV_QOS_CONTRACT_WAKEUP_POLICY_MISMATCH
  | EV_QOS_CONTRACT_COMMAND_POLICY_MISMATCH
  | EV_QOS_CONTRACT_TELEMETRY_POLICY_MISMATCH
  | EV_QOS_CONTRACT_UNPROMOTED_ALGORITHM

record ev_qos_contract_report =
  qr_violation :: ev_qos_contract_violation
  qr_route_qos :: ev_route_qos
  qr_module_route_policy :: u32
  qr_accepted :: u8

text \<open>The value of an enumerator, which the code compares with a module's policy word.\<close>

fun qos_value :: "ev_route_qos \<Rightarrow> int" where
  "qos_value EV_ROUTE_QOS_CRITICAL = 0"
| "qos_value EV_ROUTE_QOS_BEST_EFFORT = 1"
| "qos_value EV_ROUTE_QOS_LOSSY = 2"
| "qos_value EV_ROUTE_QOS_COALESCED = 3"
| "qos_value EV_ROUTE_QOS_LATEST_ONLY = 4"
| "qos_value EV_ROUTE_QOS_WAKEUP_CRITICAL = 5"
| "qos_value EV_ROUTE_QOS_TELEMETRY = 6"
| "qos_value EV_ROUTE_QOS_COMMAND = 7"
| "qos_value (EV_ROUTE_QOS_OTHER v) = v"

definition ev_qos_report_reset ::
    "ev_qos_contract_report option \<Rightarrow> ev_route_qos \<Rightarrow> u32 \<Rightarrow> ev_qos_contract_report option" where
  "ev_qos_report_reset report qos policy =
     map_option (\<lambda>_. \<lparr>qr_violation = EV_QOS_CONTRACT_OK, qr_route_qos = qos, qr_module_route_policy = policy,
                      qr_accepted = 0\<rparr>) report"

fun ev_qos_failure_behavior_name :: "ev_qos_failure_behavior \<Rightarrow> string" where
  "ev_qos_failure_behavior_name EV_QOS_FAILURE_STRICT = ''strict''"
| "ev_qos_failure_behavior_name EV_QOS_FAILURE_DROP_ALLOWED = ''drop_allowed''"
| "ev_qos_failure_behavior_name EV_QOS_FAILURE_COALESCE = ''coalesce''"
| "ev_qos_failure_behavior_name EV_QOS_FAILURE_REPLACE_LATEST = ''replace_latest''"

fun ev_qos_contract_violation_name :: "ev_qos_contract_violation \<Rightarrow> string" where
  "ev_qos_contract_violation_name EV_QOS_CONTRACT_OK = ''ok''"
| "ev_qos_contract_violation_name EV_QOS_CONTRACT_INVALID_QOS = ''invalid_qos''"
| "ev_qos_contract_violation_name EV_QOS_CONTRACT_MODULE_POLICY_MISMATCH = ''module_policy_mismatch''"
| "ev_qos_contract_violation_name EV_QOS_CONTRACT_WAKEUP_POLICY_MISMATCH = ''wakeup_policy_mismatch''"
| "ev_qos_contract_violation_name EV_QOS_CONTRACT_COMMAND_POLICY_MISMATCH = ''command_policy_mismatch''"
| "ev_qos_contract_violation_name EV_QOS_CONTRACT_TELEMETRY_POLICY_MISMATCH = ''telemetry_policy_mismatch''"
| "ev_qos_contract_violation_name EV_QOS_CONTRACT_UNPROMOTED_ALGORITHM = ''unpromoted_algorithm''"

definition zero_contract :: "ev_route_qos \<Rightarrow> ev_qos_contract" where
  "zero_contract qos = \<lparr>qc_qos = qos, qc_failure_behavior = EV_QOS_FAILURE_STRICT,
     qc_requires_reliable_delivery = 0, qc_allows_drop = 0, qc_allows_coalesce = 0,
     qc_allows_latest_replace = 0, qc_wakeup_relevant = 0, qc_command_relevant = 0, qc_telemetry_relevant = 0\<rparr>"

definition ev_qos_contract_for :: "ev_route_qos \<Rightarrow> bool \<Rightarrow> ev_result \<times> ev_qos_contract option" where
  "ev_qos_contract_for qos out_contract =
     (if \<not> out_contract then (EV_ERR_INVALID_ARG, None)
      else
        let c = zero_contract qos
        in case qos of
             EV_ROUTE_QOS_CRITICAL \<Rightarrow>
               (EV_OK, Some (c\<lparr>qc_failure_behavior := EV_QOS_FAILURE_STRICT, qc_requires_reliable_delivery := 1\<rparr>))
           | EV_ROUTE_QOS_WAKEUP_CRITICAL \<Rightarrow>
               (EV_OK, Some (c\<lparr>qc_failure_behavior := EV_QOS_FAILURE_STRICT, qc_requires_reliable_delivery := 1,
                               qc_wakeup_relevant := 1\<rparr>))
           | EV_ROUTE_QOS_COMMAND \<Rightarrow>
               (EV_OK, Some (c\<lparr>qc_failure_behavior := EV_QOS_FAILURE_STRICT, qc_requires_reliable_delivery := 1,
                               qc_command_relevant := 1\<rparr>))
           | EV_ROUTE_QOS_BEST_EFFORT \<Rightarrow>
               (EV_OK, Some (c\<lparr>qc_failure_behavior := EV_QOS_FAILURE_DROP_ALLOWED, qc_allows_drop := 1\<rparr>))
           | EV_ROUTE_QOS_LOSSY \<Rightarrow>
               (EV_OK, Some (c\<lparr>qc_failure_behavior := EV_QOS_FAILURE_DROP_ALLOWED, qc_allows_drop := 1\<rparr>))
           | EV_ROUTE_QOS_TELEMETRY \<Rightarrow>
               (EV_OK, Some (c\<lparr>qc_failure_behavior := EV_QOS_FAILURE_DROP_ALLOWED, qc_allows_drop := 1,
                               qc_telemetry_relevant := 1\<rparr>))
           | EV_ROUTE_QOS_COALESCED \<Rightarrow>
               (EV_OK, Some (c\<lparr>qc_failure_behavior := EV_QOS_FAILURE_COALESCE, qc_allows_drop := 1,
                               qc_allows_coalesce := 1\<rparr>))
           | EV_ROUTE_QOS_LATEST_ONLY \<Rightarrow>
               (EV_OK, Some (c\<lparr>qc_failure_behavior := EV_QOS_FAILURE_REPLACE_LATEST, qc_allows_drop := 1,
                               qc_allows_latest_replace := 1\<rparr>))
           | EV_ROUTE_QOS_OTHER _ \<Rightarrow> (EV_ERR_OUT_OF_RANGE, None))"

definition ev_qos_failure_behavior_of :: "ev_route_qos \<Rightarrow> ev_qos_failure_behavior" where
  "ev_qos_failure_behavior_of qos =
     (case ev_qos_contract_for qos True of
        (EV_OK, Some contract) \<Rightarrow> qc_failure_behavior contract | _ \<Rightarrow> EV_QOS_FAILURE_STRICT)"

definition ev_qos_failure_is_drop_allowed :: "ev_route_qos \<Rightarrow> bool" where
  "ev_qos_failure_is_drop_allowed qos \<longleftrightarrow> ev_qos_failure_behavior_of qos \<noteq> EV_QOS_FAILURE_STRICT"

definition ev_qos_failure_is_strict :: "ev_route_qos \<Rightarrow> bool" where
  "ev_qos_failure_is_strict qos \<longleftrightarrow> ev_qos_failure_behavior_of qos = EV_QOS_FAILURE_STRICT"

section \<open>Modules\<close>

definition ev_actor_module_route_policy_accepts_qos ::
    "ev_actor_module_descriptor option \<Rightarrow> ev_route_qos \<Rightarrow> bool" where
  "ev_actor_module_route_policy_accepts_qos descriptor qos =
     (case descriptor of None \<Rightarrow> False
      | Some d \<Rightarrow>
        if \<not> ev_route_qos_is_valid qos then False
        else
          let policy = mod_route_policy_flags d
          in if policy = 0 \<or> qos_value qos = uint policy then True
             else if uint policy = qos_value EV_ROUTE_QOS_WAKEUP_CRITICAL \<and> qos = EV_ROUTE_QOS_CRITICAL then True
             else if uint policy = qos_value EV_ROUTE_QOS_TELEMETRY
                  \<and> (qos = EV_ROUTE_QOS_TELEMETRY \<or> qos = EV_ROUTE_QOS_BEST_EFFORT
                     \<or> qos = EV_ROUTE_QOS_LOSSY \<or> qos = EV_ROUTE_QOS_CRITICAL) then True
             else if uint policy = qos_value EV_ROUTE_QOS_COMMAND
                  \<and> (qos = EV_ROUTE_QOS_COMMAND \<or> qos = EV_ROUTE_QOS_CRITICAL) then True
             else False)"

definition ev_qos_validate_route_against_module ::
    "ev_route option \<Rightarrow> ev_actor_module_descriptor option \<Rightarrow> ev_qos_contract_report option
       \<Rightarrow> ev_result \<times> ev_qos_contract_report option" where
  "ev_qos_validate_route_against_module route descriptor report =
     (let policy = (case descriptor of None \<Rightarrow> 0 | Some d \<Rightarrow> mod_route_policy_flags d);
          fail = (\<lambda>rep v. map_option (\<lambda>r. r\<lparr>qr_violation := v\<rparr>) rep)
      in if route = None \<or> descriptor = None
         then (EV_ERR_INVALID_ARG, fail (ev_qos_report_reset report EV_ROUTE_QOS_CRITICAL policy)
                 EV_QOS_CONTRACT_MODULE_POLICY_MISMATCH)
         else
           let qos = rt_qos (the route); report = ev_qos_report_reset report qos policy
           in case ev_qos_contract_for qos True of
                (EV_OK, Some contract) \<Rightarrow>
                  if \<not> ev_actor_module_route_policy_accepts_qos descriptor qos
                  then (EV_ERR_POLICY, fail report EV_QOS_CONTRACT_MODULE_POLICY_MISMATCH)
                  else if qc_wakeup_relevant contract \<noteq> 0 \<and> uint policy \<noteq> qos_value EV_ROUTE_QOS_WAKEUP_CRITICAL
                  then (EV_ERR_POLICY, fail report EV_QOS_CONTRACT_WAKEUP_POLICY_MISMATCH)
                  else if qc_command_relevant contract \<noteq> 0 \<and> uint policy \<noteq> qos_value EV_ROUTE_QOS_COMMAND
                  then (EV_ERR_POLICY, fail report EV_QOS_CONTRACT_COMMAND_POLICY_MISMATCH)
                  else if qc_telemetry_relevant contract \<noteq> 0 \<and> uint policy \<noteq> qos_value EV_ROUTE_QOS_TELEMETRY
                  then (EV_ERR_POLICY, fail report EV_QOS_CONTRACT_TELEMETRY_POLICY_MISMATCH)
                  else (EV_OK, map_option (\<lambda>r. r\<lparr>qr_accepted := 1\<rparr>) report)
              | _ \<Rightarrow> (EV_ERR_OUT_OF_RANGE, fail report EV_QOS_CONTRACT_INVALID_QOS))"

section \<open>What the contract promises\<close>

lemma contract_for_OK_iff: "fst (ev_qos_contract_for qos True) = EV_OK \<longleftrightarrow> ev_route_qos_is_valid qos"
  by (cases qos) (simp_all add: ev_qos_contract_for_def)

text \<open>
  Exactly one of the two failure predicates holds of every class, known or not, and a known class is strict
  exactly when its contract asks for reliable delivery and allows no drop.
\<close>

lemma strict_xor_drop: "ev_qos_failure_is_strict qos \<longleftrightarrow> \<not> ev_qos_failure_is_drop_allowed qos"
  by (simp add: ev_qos_failure_is_strict_def ev_qos_failure_is_drop_allowed_def)

lemma strict_iff_reliable:
  "ev_qos_contract_for qos True = (EV_OK, Some c) \<Longrightarrow>
     (ev_qos_failure_is_strict qos \<longleftrightarrow> qc_requires_reliable_delivery c \<noteq> 0)
     \<and> (ev_qos_failure_is_strict qos \<longleftrightarrow> qc_allows_drop c = 0)"
  by (cases qos) (auto simp: ev_qos_contract_for_def zero_contract_def ev_qos_failure_is_strict_def
      ev_qos_failure_behavior_of_def)

text \<open>The classes a module accepts, by its policy word.\<close>

definition accepted_classes :: "u32 \<Rightarrow> ev_route_qos list" where
  "accepted_classes policy =
     (if policy = 0 then [EV_ROUTE_QOS_CRITICAL, EV_ROUTE_QOS_BEST_EFFORT, EV_ROUTE_QOS_LOSSY,
          EV_ROUTE_QOS_COALESCED, EV_ROUTE_QOS_LATEST_ONLY]
      else if policy = 1 then [EV_ROUTE_QOS_BEST_EFFORT]
      else if policy = 2 then [EV_ROUTE_QOS_LOSSY]
      else if policy = 3 then [EV_ROUTE_QOS_COALESCED]
      else if policy = 4 then [EV_ROUTE_QOS_LATEST_ONLY]
      else if policy = 5 then [EV_ROUTE_QOS_WAKEUP_CRITICAL, EV_ROUTE_QOS_CRITICAL]
      else if policy = 6 then [EV_ROUTE_QOS_TELEMETRY, EV_ROUTE_QOS_BEST_EFFORT, EV_ROUTE_QOS_LOSSY, EV_ROUTE_QOS_CRITICAL]
      else if policy = 7 then [EV_ROUTE_QOS_COMMAND, EV_ROUTE_QOS_CRITICAL]
      else [])"

lemma policy_word_eq:
  "uint (p :: u32) = 0 \<longleftrightarrow> p = 0" "uint p = 1 \<longleftrightarrow> p = 1" "uint p = 2 \<longleftrightarrow> p = 2" "uint p = 3 \<longleftrightarrow> p = 3"
  "uint p = 4 \<longleftrightarrow> p = 4" "uint p = 5 \<longleftrightarrow> p = 5" "uint p = 6 \<longleftrightarrow> p = 6" "uint p = 7 \<longleftrightarrow> p = 7"
  by (simp_all add: word_uint_eq_iff)

lemmas policy_word_eqs = policy_word_eq policy_word_eq [THEN eq_commute [THEN trans]]

lemma validate_decision:
  "fst (ev_qos_validate_route_against_module (Some r) (Some d) report) = EV_OK
     \<longleftrightarrow> rt_qos r \<in> set (accepted_classes (mod_route_policy_flags d))"
  by (cases "rt_qos r")
    (auto simp: ev_qos_validate_route_against_module_def Let_def ev_qos_contract_for_def zero_contract_def
      ev_actor_module_route_policy_accepts_qos_def accepted_classes_def policy_word_eqs)

text \<open>The report agrees with the result.\<close>

lemma validate_report:
  assumes "ev_qos_validate_route_against_module route descriptor (Some rep) = (rc, rep')"
  shows "\<exists>r. rep' = Some r \<and> (qr_accepted r = 1 \<longleftrightarrow> rc = EV_OK) \<and> (qr_violation r = EV_QOS_CONTRACT_OK \<longleftrightarrow> rc = EV_OK)"
proof (cases "route = None \<or> descriptor = None")
  case True
  then show ?thesis using assms
    by (auto simp: ev_qos_validate_route_against_module_def ev_qos_report_reset_def Let_def)
next
  case False
  then obtain r d where "route = Some r" "descriptor = Some d" by auto
  then show ?thesis using assms
    by (cases "rt_qos r")
      (auto simp: ev_qos_validate_route_against_module_def ev_qos_report_reset_def ev_qos_contract_for_def Let_def
        split: if_splits)
qed

text \<open>No route of the generated table is refused by the module of its target.\<close>

lemma shipped_routes_accepted:
  "list_all (\<lambda>r. \<exists>d \<in> set (case ev_actor_module_find (rt_target_actor r) of None \<Rightarrow> [] | Some d \<Rightarrow> [d]).
     rt_qos r \<in> set (accepted_classes (mod_route_policy_flags d))) k_ev_route_table_generated"
  by code_simp

text \<open>
  Route validation accepts exactly the classes of the target module's policy. A module without a policy
  takes the general classes but no wake-up, command or telemetry route; a wake-up or command module takes
  its own class and critical routes; a telemetry module takes its own class, critical, best-effort and lossy
  routes; any other policy takes only the class it names. The report says so too.
\<close>
theorem qos_validation_decision:
  assumes "ev_qos_validate_route_against_module (Some r) (Some d) (Some rep) = (rc, rep')"
  shows "(rc = EV_OK \<longleftrightarrow> rt_qos r \<in> set (accepted_classes (mod_route_policy_flags d)))
     \<and> (\<exists>q. rep' = Some q \<and> (qr_accepted q = 1 \<longleftrightarrow> rc = EV_OK) \<and> (qr_violation q = EV_QOS_CONTRACT_OK \<longleftrightarrow> rc = EV_OK))"
  using validate_decision [of r d "Some rep"] validate_report [OF assms] assms by simp


theorem qos_validation_decision_witness:
  "\<exists>q. ev_qos_validate_route_against_module (Some (route_ex EV_TICK_1S ACT_POWER EV_ROUTE_QOS_COMMAND))
     (ev_actor_module_find ACT_POWER) (Some q) \<noteq> (EV_OK, Some q)
     \<and> fst (ev_qos_validate_route_against_module (Some (route_ex EV_TICK_1S ACT_POWER EV_ROUTE_QOS_COMMAND))
         (ev_actor_module_find ACT_POWER) (Some q)) \<noteq> EV_OK"
proof -
  let ?r = "route_ex EV_TICK_1S ACT_POWER EV_ROUTE_QOS_COMMAND"
  let ?q = "\<lparr>qr_violation = EV_QOS_CONTRACT_OK, qr_route_qos = EV_ROUTE_QOS_COMMAND, qr_module_route_policy = 5, qr_accepted = 0\<rparr>"
  have "(\<lambda>d. mod_route_policy_flags d) (the (ev_actor_module_find ACT_POWER)) = 5 \<and> ev_actor_module_find ACT_POWER \<noteq> None"
    by code_simp
  then obtain d where d: "ev_actor_module_find ACT_POWER = Some d" "mod_route_policy_flags d = 5" by auto
  obtain rc rep' where v: "ev_qos_validate_route_against_module (Some ?r) (Some d) (Some ?q) = (rc, rep')"
    by (rule prod.exhaust)
  have "rc \<noteq> EV_OK" using qos_validation_decision [OF v] d(2) by (simp add: accepted_classes_def)
  then show ?thesis using v d(1) by (intro exI [of _ ?q]) simp
qed

end
