(* ===== verification/EvGraph.thy ===== *)
theory EvGraph
  imports EvSystemPump EvMetrics EvQosContract EvTraceRing EvIngress EvTimerService
begin

text \<open>
  The state of a runtime graph (\<open>runtime/src/ev_runtime_graph_internal.h\<close>). The graph owns the node's
  objects (actor runtimes, mailboxes, registry, pumps) and the runtime services. Handlers reach all of
  them, so a graph is the store of \<open>EvSystem\<close> whose world is the record of the services, with the state
  \<open>'u\<close> of actors and payload owners as its last field. Actor \<open>i\<close>'s runtime and mailbox have the address
  \<open>i\<close>, the registry and the system pump the address 0, the pump of domain \<open>d\<close> the address \<open>d\<close>.
\<close>

section \<open>State\<close>

record ev_quiescence_service =
  qs_accepted :: u32
  qs_rejected :: u32

record ev_quiescence_report =
  qr_pending_actor_messages :: u32
  qr_pending_ingress_events :: u32
  qr_due_timers :: u32
  qr_busy_actor_mask :: u32
  qr_sleep_blocker_actor_mask :: u32
  qr_pending_trace_records :: u32
  qr_pending_fault_records :: u32
  qr_pending_log_records :: u32
  qr_next_deadline_ms :: u32
  qr_earliest_safe_sleep_until_ms :: u32
  qr_policy_blocker_mask :: u32
  qr_reason :: string

record ev_runtime_scheduler =
  sc_active_domain_mask :: u32
  sc_poll_calls :: u32
  sc_partial_returns :: u32

datatype ev_actor_lifecycle_state =
    EV_ACTOR_STATE_UNKNOWN
  | EV_ACTOR_STATE_UNINITIALIZED
  | EV_ACTOR_STATE_BOOTING
  | EV_ACTOR_STATE_READY
  | EV_ACTOR_STATE_DEGRADED
  | EV_ACTOR_STATE_OFFLINE
  | EV_ACTOR_STATE_SUSPENDING
  | EV_ACTOR_STATE_SLEEP_READY
  | EV_ACTOR_STATE_ERROR

record ev_board_capability_snapshot =
  bc_configured :: ev_capability_mask
  bc_active :: ev_capability_mask
  bc_observed :: ev_capability_mask

record ev_runtime_capability_snapshot =
  rc_configured :: ev_capability_mask
  rc_active :: ev_capability_mask
  rc_required :: ev_capability_mask

record ev_runtime_board_profile =
  bp_board_name :: "string option"
  bp_configured_capabilities :: ev_capability_mask
  bp_active_capabilities :: ev_capability_mask
  bp_observed_capabilities :: ev_capability_mask
  bp_hardware_present :: ev_capability_mask
  bp_required_hardware :: ev_capability_mask
  bp_optional_hardware :: ev_capability_mask
  bp_policy_flags :: u32
  bp_bsp_private :: ptr

text \<open>
  The ports a graph calls, \<open>None\<close> where the port or its function is NULL. They are code of the platform
  and work on its state.
\<close>

record 'u ev_runtime_ports =
  rp_clock_mono_now_us :: "('u \<Rightarrow> ev_result \<times> u64 \<times> 'u) option"
  rp_log_pending :: "('u \<Rightarrow> ev_result \<times> u32 \<times> 'u) option"

text \<open>
  The description of an actor instance. Its callbacks are code of the application: they get the context
  (and the ports and the profile) and work on the application's state; the quiescence callback may also
  change the report it is passed. Statistics and lifecycle callbacks are only stored, never called, so a
  tag stands for them.
\<close>

record 'u ev_actor_instance_descriptor =
  in_actor_id :: ev_actor_id
  in_module :: "ev_actor_module_descriptor option"
  in_actor_context :: ptr
  in_actor_context_size :: nat
  in_handler_fn :: "nat option"
  in_init_fn :: "(ptr \<Rightarrow> 'u ev_runtime_ports \<Rightarrow> ev_runtime_board_profile \<Rightarrow> ptr \<Rightarrow> 'u \<Rightarrow> ev_result \<times> 'u) option"
  in_quiescence_fn :: "(ptr \<Rightarrow> ev_quiescence_report \<Rightarrow> 'u \<Rightarrow> ev_result \<times> ev_quiescence_report \<times> 'u) option"
  in_stats_fn :: "nat option"
  in_lifecycle_fn :: "nat option"
  in_required_capabilities :: ev_capability_mask
  in_optional_capabilities :: ev_capability_mask
  in_instance_flags :: u32
  in_user :: ptr

record 'u ev_services =
  sv_descriptors :: "ev_actor_module_descriptor option list"
  sv_instances :: "'u ev_actor_instance_descriptor list"
  sv_instance_bound :: "u8 list"
  sv_lifecycle :: "ev_actor_lifecycle_state list"
  sv_actor_enabled :: "u8 list"
  sv_timer_service :: ev_timer_service
  sv_ingress_service :: ev_ingress_service
  sv_quiescence_service :: ev_quiescence_service
  sv_faults :: ev_fault_registry
  sv_metrics :: ev_metric_registry
  sv_trace_ring :: ev_trace_ring
  sv_active_routes :: ev_active_route_table
  sv_scheduler :: ev_runtime_scheduler
  sv_active_routes_bound :: u8
  sv_board_capabilities :: ev_board_capability_snapshot
  sv_runtime_capabilities :: ev_runtime_capability_snapshot
  sv_ports :: "'u ev_runtime_ports"
  sv_board_profile :: ev_runtime_board_profile
  sv_user :: 'u

type_synonym 'u ev_graph = "'u ev_services ev_sys"

abbreviation graph_registry :: nat where "graph_registry \<equiv> 0"
abbreviation graph_system :: nat where "graph_system \<equiv> 0"

definition services :: "'u ev_graph \<Rightarrow> 'u ev_services" where
  "services s = sy_world s"

definition upd_services :: "('u ev_services \<Rightarrow> 'u ev_services) \<Rightarrow> 'u ev_graph \<Rightarrow> 'u ev_graph" where
  "upd_services f s = s\<lparr>sy_world := f (sy_world s)\<rparr>"

lemma upd_services_frames [simp, op_frames]:
  "sy_mailbox (upd_services f s) = sy_mailbox s" "sy_runtime (upd_services f s) = sy_runtime s"
  "sy_registry (upd_services f s) = sy_registry s" "sy_domain (upd_services f s) = sy_domain s"
  "sy_system (upd_services f s) = sy_system s" "sy_world (upd_services f s) = f (sy_world s)"
  by (simp_all add: upd_services_def)

text \<open>Counting a metric and emitting a fault into the graph's registries.\<close>

definition count_metric :: "ev_metric_id \<Rightarrow> 'u ev_graph \<Rightarrow> 'u ev_graph" where
  "count_metric metric_id = upd_services (\<lambda>v. v\<lparr>sv_metrics := metric_add metric_id 1 (sv_metrics v)\<rparr>)"

definition graph_fault_emit :: "ev_fault_payload \<Rightarrow> 'u ev_graph \<Rightarrow> ev_result \<times> 'u ev_graph" where
  "graph_fault_emit fault s =
     (let (rc, faults) = ev_fault_emit (Some (sv_faults (services s))) (Some fault)
      in (rc, upd_services (\<lambda>v. v\<lparr>sv_faults := the faults\<rparr>) s))"

lemma count_metric_frames [simp, op_frames]:
  "sy_mailbox (count_metric k s) = sy_mailbox s" "sy_runtime (count_metric k s) = sy_runtime s"
  "sy_registry (count_metric k s) = sy_registry s" "sy_domain (count_metric k s) = sy_domain s"
  "sy_system (count_metric k s) = sy_system s"
  "sy_world (count_metric k s) = (sy_world s)\<lparr>sv_metrics := metric_add k 1 (sv_metrics (sy_world s))\<rparr>"
  by (simp_all add: count_metric_def)

lemma graph_fault_emit_frames [simp, op_frames]:
  "sy_mailbox (snd (graph_fault_emit f s)) = sy_mailbox s" "sy_runtime (snd (graph_fault_emit f s)) = sy_runtime s"
  "sy_registry (snd (graph_fault_emit f s)) = sy_registry s" "sy_domain (snd (graph_fault_emit f s)) = sy_domain s"
  "sy_system (snd (graph_fault_emit f s)) = sy_system s"
  by (simp_all add: graph_fault_emit_def split: prod.split)

text \<open>The value of a result code. The code stores its negation in fault arguments.\<close>

fun result_value :: "ev_result \<Rightarrow> int" where
  "result_value EV_OK = 0"
| "result_value EV_ERR_INVALID_ARG = -1"
| "result_value EV_ERR_OUT_OF_RANGE = -2"
| "result_value EV_ERR_NOT_FOUND = -3"
| "result_value EV_ERR_STATE = -4"
| "result_value EV_ERR_CONTRACT = -5"
| "result_value EV_ERR_FULL = -6"
| "result_value EV_ERR_EMPTY = -7"
| "result_value EV_ERR_UNSUPPORTED = -8"
| "result_value EV_ERR_PARTIAL = -9"
| "result_value EV_ERR_NO_CAPABILITY = -10"
| "result_value EV_ERR_AUTH = -11"
| "result_value EV_ERR_POLICY = -12"
| "result_value EV_ERR_TIMEOUT = -13"
| "result_value EV_ERR_NOT_READY = -14"

text \<open>What \<open>memset\<close> leaves of the services.\<close>

definition zero_instance :: "'u ev_actor_instance_descriptor" where
  "zero_instance = \<lparr>in_actor_id = 0, in_module = None, in_actor_context = None, in_actor_context_size = 0,
     in_handler_fn = None, in_init_fn = None, in_quiescence_fn = None, in_stats_fn = None, in_lifecycle_fn = None,
     in_required_capabilities = 0, in_optional_capabilities = 0, in_instance_flags = 0, in_user = None\<rparr>"

definition zero_profile :: ev_runtime_board_profile where
  "zero_profile = \<lparr>bp_board_name = None, bp_configured_capabilities = 0, bp_active_capabilities = 0,
     bp_observed_capabilities = 0, bp_hardware_present = 0, bp_required_hardware = 0, bp_optional_hardware = 0,
     bp_policy_flags = 0, bp_bsp_private = None\<rparr>"

definition zero_services :: "'u \<Rightarrow> 'u ev_services" where
  "zero_services u = \<lparr>sv_descriptors = replicate (nat EV_ACTOR_COUNT) None,
     sv_instances = replicate (nat EV_ACTOR_COUNT) zero_instance,
     sv_instance_bound = replicate (nat EV_ACTOR_COUNT) 0,
     sv_lifecycle = replicate (nat EV_ACTOR_COUNT) EV_ACTOR_STATE_UNKNOWN,
     sv_actor_enabled = replicate (nat EV_ACTOR_COUNT) 0, sv_timer_service = zero_timers,
     sv_ingress_service = zero_ingress, sv_quiescence_service = \<lparr>qs_accepted = 0, qs_rejected = 0\<rparr>,
     sv_faults = zero_faults, sv_metrics = zero_metrics, sv_trace_ring = zero_trace,
     sv_active_routes = zero_active_routes,
     sv_scheduler = \<lparr>sc_active_domain_mask = 0, sc_poll_calls = 0, sc_partial_returns = 0\<rparr>,
     sv_active_routes_bound = 0,
     sv_board_capabilities = \<lparr>bc_configured = 0, bc_active = 0, bc_observed = 0\<rparr>,
     sv_runtime_capabilities = \<lparr>rc_configured = 0, rc_active = 0, rc_required = 0\<rparr>,
     sv_ports = \<lparr>rp_clock_mono_now_us = None, rp_log_pending = None\<rparr>, sv_board_profile = zero_profile,
     sv_user = u\<rparr>"

section \<open>Direct delivery\<close>

definition ev_runtime_graph_send ::
    "'u ev_services ev_env \<Rightarrow> 'u ev_graph option \<Rightarrow> ev_actor_id \<Rightarrow> ev_msg option \<Rightarrow> ev_result \<times> 'u ev_graph option" where
  "ev_runtime_graph_send env graph target_actor msg =
     (case (graph, msg) of
        (Some s, Some m) \<Rightarrow>
          if \<not> ev_actor_id_is_valid target_actor then (EV_ERR_OUT_OF_RANGE, graph)
          else (let (rc, s1) = ev_actor_registry_delivery env (Some graph_registry) target_actor
                      (Some (m\<lparr>msg_target_actor := target_actor\<rparr>)) s
                in (rc, Some s1))
      | _ \<Rightarrow> (EV_ERR_INVALID_ARG, graph))"

definition ev_runtime_graph_get_runtime :: "'u ev_graph option \<Rightarrow> ev_actor_id \<Rightarrow> ptr" where
  "ev_runtime_graph_get_runtime graph actor_id =
     (case graph of None \<Rightarrow> None
      | Some s \<Rightarrow> if \<not> ev_actor_id_is_valid actor_id \<or> sv_actor_enabled (services s) ! nat actor_id = 0 then None
                  else Some (nat actor_id))"

definition graph_actor_pending :: "'u ev_graph \<Rightarrow> nat \<Rightarrow> nat" where
  "graph_actor_pending s i =
     (if sv_actor_enabled (services s) ! i \<noteq> 0 then ev_mailbox_count (Some (sy_mailbox s i)) else 0)"

definition ev_runtime_graph_pending :: "'u ev_graph option \<Rightarrow> nat" where
  "ev_runtime_graph_pending graph =
     (case graph of None \<Rightarrow> 0
      | Some s \<Rightarrow> sum_list (map (graph_actor_pending s) [0..<nat EV_ACTOR_COUNT])
          + ev_ingress_pending (Some (sv_ingress_service (services s)))
          + ev_timer_pending_count (Some (sv_timer_service (services s))))"

definition ev_runtime_graph_next_deadline_ms :: "'u ev_graph option \<Rightarrow> bool \<Rightarrow> ev_result \<times> u32 option" where
  "ev_runtime_graph_next_deadline_ms graph out_deadline_ms =
     (case graph of None \<Rightarrow> (EV_ERR_INVALID_ARG, None)
      | Some s \<Rightarrow> if \<not> out_deadline_ms then (EV_ERR_INVALID_ARG, None)
                  else ev_timer_next_deadline_ms (Some (sv_timer_service (services s))) True)"

definition ev_runtime_graph_metric_value :: "'u ev_graph option \<Rightarrow> ev_metric_id \<Rightarrow> u32" where
  "ev_runtime_graph_metric_value graph metric_id =
     (case graph of None \<Rightarrow> 0
      | Some s \<Rightarrow>
        (case ev_metric_read (Some (sv_metrics (services s))) metric_id True of
           (EV_OK, Some sample) \<Rightarrow> ms_value sample | _ \<Rightarrow> 0))"

definition ev_runtime_graph_timer_published_count :: "'u ev_graph option \<Rightarrow> u32" where
  "ev_runtime_graph_timer_published_count graph =
     (case graph of None \<Rightarrow> 0 | Some s \<Rightarrow> tm_published (sv_timer_service (services s)))"

definition ev_runtime_graph_timer_pending_count :: "'u ev_graph option \<Rightarrow> nat" where
  "ev_runtime_graph_timer_pending_count graph =
     (case graph of None \<Rightarrow> 0 | Some s \<Rightarrow> ev_timer_pending_count (Some (sv_timer_service (services s))))"

definition ev_runtime_graph_route_table :: "'u ev_graph option \<Rightarrow> ev_active_route_table option" where
  "ev_runtime_graph_route_table graph = map_option (\<lambda>s. sv_active_routes (services s)) graph"

definition ev_runtime_graph_schedule_oneshot ::
    "'u ev_graph option \<Rightarrow> u32 \<Rightarrow> u32 \<Rightarrow> ev_actor_id \<Rightarrow> ev_event_id \<Rightarrow> u32 \<Rightarrow> bool
       \<Rightarrow> ev_result \<times> ev_timer_token option \<times> 'u ev_graph option" where
  "ev_runtime_graph_schedule_oneshot graph now_ms delay_ms target_actor event_id arg0 out_token =
     (case graph of None \<Rightarrow> (EV_ERR_INVALID_ARG, None, None)
      | Some s \<Rightarrow>
        if \<not> out_token then (EV_ERR_INVALID_ARG, None, graph)
        else let (rc, token, t) = ev_timer_schedule_oneshot (Some (sv_timer_service (services s))) now_ms delay_ms
                   target_actor event_id arg0 True
             in (rc, token, Some (upd_services (\<lambda>v. v\<lparr>sv_timer_service := the t\<rparr>) s)))"

definition ev_runtime_graph_schedule_periodic ::
    "'u ev_graph option \<Rightarrow> u32 \<Rightarrow> u32 \<Rightarrow> ev_actor_id \<Rightarrow> ev_event_id \<Rightarrow> u32 \<Rightarrow> bool
       \<Rightarrow> ev_result \<times> ev_timer_token option \<times> 'u ev_graph option" where
  "ev_runtime_graph_schedule_periodic graph now_ms period_ms target_actor event_id arg0 out_token =
     (case graph of None \<Rightarrow> (EV_ERR_INVALID_ARG, None, None)
      | Some s \<Rightarrow>
        if \<not> out_token then (EV_ERR_INVALID_ARG, None, graph)
        else let (rc, token, t) = ev_timer_schedule_periodic (Some (sv_timer_service (services s))) now_ms period_ms
                   target_actor event_id arg0 True
             in (rc, token, Some (upd_services (\<lambda>v. v\<lparr>sv_timer_service := the t\<rparr>) s)))"

definition ev_runtime_graph_trace_record ::
    "'u ev_graph option \<Rightarrow> ev_trace_record option \<Rightarrow> ev_result \<times> 'u ev_graph option" where
  "ev_runtime_graph_trace_record graph rec =
     (case (graph, rec) of
        (Some s, Some r) \<Rightarrow>
          let (rc, ring) = ev_trace_record_op (Some (sv_trace_ring (services s))) rec
          in (rc, Some (upd_services (\<lambda>v. v\<lparr>sv_trace_ring := the ring\<rparr>) s))
      | _ \<Rightarrow> (EV_ERR_INVALID_ARG, graph))"

definition ev_runtime_graph_trace_clear :: "'u ev_graph option \<Rightarrow> 'u ev_graph option" where
  "ev_runtime_graph_trace_clear graph =
     map_option (\<lambda>s. upd_services (\<lambda>v. v\<lparr>sv_trace_ring := the (ev_trace_clear (Some (sv_trace_ring v)))\<rparr>) s) graph"

definition ev_runtime_graph_trace_drain ::
    "'u ev_graph option \<Rightarrow> bool \<Rightarrow> nat \<Rightarrow> nat \<times> ev_trace_record list \<times> 'u ev_graph option" where
  "ev_runtime_graph_trace_drain graph out_records max_records =
     (case graph of None \<Rightarrow> (0, [], None)
      | Some s \<Rightarrow>
        if \<not> out_records \<and> 0 < max_records then (0, [], graph)
        else let (n, recs, ring) = ev_trace_drain (Some (sv_trace_ring (services s))) out_records max_records
             in (n, recs, Some (upd_services (\<lambda>v. v\<lparr>sv_trace_ring := the ring\<rparr>) s)))"

section \<open>The framework's own actors\<close>

text \<open>
  Their handlers validate the context they get and the message. The context of actor \<open>i\<close> is the graph's
  own \<open>actor_contexts[i]\<close>, whose graph pointer is set at initialisation.
\<close>

definition ev_runtime_context_validate :: "ptr \<Rightarrow> ev_msg option \<Rightarrow> ev_result" where
  "ev_runtime_context_validate ctx msg = (if ctx = None \<or> msg = None then EV_ERR_INVALID_ARG else EV_OK)"

definition ev_framework_actor_handle :: "ptr \<Rightarrow> ev_msg option \<Rightarrow> 'u ev_graph \<Rightarrow> ev_result \<times> 'u ev_graph" where
  "ev_framework_actor_handle ctx msg s =
     (if ev_runtime_context_validate ctx msg \<noteq> EV_OK then (ev_runtime_context_validate ctx msg, s)
      else (EV_OK, if msg_event_id (the msg) = EV_ACTOR_LIFECYCLE_CHANGED
                   then count_metric EV_METRIC_DELIVERY_OK s else s))"

definition ev_fault_actor_handle :: "ptr \<Rightarrow> ev_msg option \<Rightarrow> 'u ev_graph \<Rightarrow> ev_result \<times> 'u ev_graph" where
  "ev_fault_actor_handle ctx msg s =
     (if ev_runtime_context_validate ctx msg \<noteq> EV_OK then (ev_runtime_context_validate ctx msg, s)
      else (EV_OK, if msg_event_id (the msg) = EV_FAULT_REPORTED
                   then snd (graph_fault_emit (zero_fault\<lparr>fp_fault_id := EV_FAULT_ACTOR_HANDLER_FAILURE,
                          fp_severity := EV_FAULT_SEV_WARNING, fp_source_actor := msg_source_actor (the msg),
                          fp_triggering_event := msg_event_id (the msg)\<rparr>) s)
                   else s))"

definition ev_metrics_actor_handle :: "ptr \<Rightarrow> ev_msg option \<Rightarrow> 'u ev_graph \<Rightarrow> ev_result \<times> 'u ev_graph" where
  "ev_metrics_actor_handle ctx msg s =
     (if ev_runtime_context_validate ctx msg \<noteq> EV_OK then (ev_runtime_context_validate ctx msg, s)
      else (EV_OK, if msg_event_id (the msg) = EV_COMMAND_ACCEPTED then count_metric EV_METRIC_COMMAND_ACCEPTED s
                   else if msg_event_id (the msg) = EV_COMMAND_REJECTED then count_metric EV_METRIC_COMMAND_REJECTED s
                   else if msg_event_id (the msg) = EV_COMMAND_AUTH_FAILED
                   then count_metric EV_METRIC_COMMAND_AUTH_FAILED s else s))"

end
