(* ===== verification/EvPayloadFrame.thy ===== *)
theory EvPayloadFrame
  imports EvActorRuntime
begin

text \<open>
  What the framework's queues do to the state of payload owners: they only call the payload callbacks. Any
  predicate of that state which the callbacks preserve is preserved by every queue operation and by a
  registry delivery.
\<close>

locale payload_closed =
  fixes lc :: "'w ev_lifecycle" and P :: "'w \<Rightarrow> bool"
  assumes retain_closed: "P w \<Longrightarrow> P (snd (lc_retain lc fn ctx p n w))"
    and release_closed: "P w \<Longrightarrow> P (lc_release lc gn ctx p n w)"
begin

lemma closed_retain: "ev_msg_retain lc pm w = (rc, w') \<Longrightarrow> P w \<Longrightarrow> P w'"
  using retain_closed [of w]
  by (auto simp: ev_msg_retain_def split: option.splits if_splits ev_payload_kind.splits) (metis snd_conv)+

lemma closed_release: "P w \<Longrightarrow> P (call_release lc m w)"
  using release_closed by (auto simp: call_release_def split: option.splits)

lemma closed_dispose: "ev_msg_dispose lc pm w = (rc, pm', w') \<Longrightarrow> P w \<Longrightarrow> P w'"
  by (auto simp: ev_msg_dispose_def closed_release split: option.splits if_splits)

lemma closed_queue_retain: "ev_mailbox_retain_for_queue lc m w = (rc, w') \<Longrightarrow> P w \<Longrightarrow> P w'"
  by (auto simp: ev_mailbox_retain_for_queue_def dest: closed_retain split: if_splits)

lemma closed_queue_release: "P w \<Longrightarrow> P (ev_mailbox_release_retained_queue_copy lc m w)"
  by (metis closed_dispose ev_mailbox_release_retained_queue_copy_def prod.collapse)

lemma closed_dispose_slot: "ev_mailbox_dispose_slot lc mb i w = (rc, mb', w') \<Longrightarrow> P w \<Longrightarrow> P w'"
  by (auto simp: ev_mailbox_dispose_slot_def Let_def dest: closed_dispose split: prod.splits if_splits)

lemma closed_snd: "snd (ev_mailbox_dispose_slot lc mb i w) = (mb', w') \<Longrightarrow> P w \<Longrightarrow> P w'"
  by (metis closed_dispose_slot prod.collapse)

lemmas closed_steps = closed_queue_retain closed_dispose_slot

lemma closed_replace_slot: "ev_mailbox_replace_slot lc mb i m w = (rc, mb', w') \<Longrightarrow> P w \<Longrightarrow> P w'"
  by (auto simp: ev_mailbox_replace_slot_def Let_def intro: closed_queue_release dest!: closed_steps
      split: prod.splits if_splits)

lemma closed_push_fifo: "push_fifo lc mb m w = (rc, mb', w') \<Longrightarrow> P w \<Longrightarrow> P w'"
  by (auto simp: push_fifo_def Let_def intro: closed_queue_release dest!: closed_steps
      split: prod.splits if_splits)

lemma closed_push_mailbox_1: "push_mailbox_1 lc mb m w = (rc, mb', w') \<Longrightarrow> P w \<Longrightarrow> P w'"
  by (auto simp: push_mailbox_1_def Let_def intro: closed_queue_release dest!: closed_steps closed_snd
      split: prod.splits if_splits)

lemma closed_push_lossy: "push_lossy lc mb m w = (rc, mb', w') \<Longrightarrow> P w \<Longrightarrow> P w'"
  by (auto simp: push_lossy_def Let_def intro: closed_queue_release dest!: closed_steps
      split: prod.splits if_splits)

lemma closed_mailbox_push: "mailbox_push lc mb m w = (rc, mb', w') \<Longrightarrow> P w \<Longrightarrow> P w'"
  by (auto simp: mailbox_push_def Let_def dest: closed_push_fifo closed_push_mailbox_1 closed_push_lossy
      split: prod.splits if_splits ev_mailbox_kind.splits)

lemma closed_push_qos: "mailbox_push_qos lc mb m qos w = (rc, rep, mb', w') \<Longrightarrow> P w \<Longrightarrow> P w'"
  by (auto simp: mailbox_push_qos_def ev_mailbox_push_coalesced_def ev_mailbox_push_latest_only_def
      push_and_report_def Let_def dest: closed_mailbox_push closed_replace_slot
      split: prod.splits if_splits option.splits)

lemma closed_mailbox_push_qos: "ev_mailbox_push_qos lc pmb pm qos w = (rc, rep, pmb', w') \<Longrightarrow> P w \<Longrightarrow> P w'"
  by (auto simp: ev_mailbox_push_qos_def Let_def dest: closed_push_qos split: prod.splits if_splits option.splits)

end

text \<open>A fresh envelope has no payload, so its operations need no callbacks and keep everything.\<close>

interpretation fresh_envelope: payload_closed no_lifecycle P for P
  by unfold_locales (simp_all add: no_lifecycle_def)

lemma delivery_keeps_world:
  assumes "payload_closed (env_lc env) P" and "P (sy_world s)"
    and "ev_actor_registry_delivery_impl env target pm qos want registry s = (rc, rep, s')"
  shows "P (sy_world s')"
  using assms by (auto simp: ev_actor_registry_delivery_impl_def Let_def dest: payload_closed.closed_mailbox_push_qos [OF assms(1)]
      split: prod.splits if_splits option.splits)

text \<open>A delivery writes at most the mailbox of its target and keeps every binding.\<close>

lemma delivery_frame:
  assumes "ev_actor_registry_delivery_impl env target pm qos want (Some g) s = (rc, rep, s')"
  shows "(\<forall>k. sy_mailbox s' k \<noteq> sy_mailbox s k \<longrightarrow>
            (\<exists>r. ev_actor_registry_find s (Some g) target = Some r \<and> ar_mailbox (sy_runtime s r) = Some k))
     \<and> (\<forall>r. ar_mailbox (sy_runtime s' r) = ar_mailbox (sy_runtime s r))
     \<and> (\<forall>h. rg_slots (sy_registry s' h) = rg_slots (sy_registry s h))"
  using assms by (auto simp: ev_actor_registry_delivery_impl_def Let_def split: prod.splits if_splits option.splits)

end
