(* ===== verification/EvDelivery.thy ===== *)
theory EvDelivery
  imports EvGraph EvPayloadFrame
begin

text \<open>
  The delivery service of a runtime graph (\<open>runtime/src/ev_delivery_service.c\<close>,
  \<open>runtime/include/ev/delivery_service.h\<close>): a publication walks the routes of its event, in the active
  route table once it is bound and in the generated table before, delivers along the enabled ones and
  reports what became of each. A delivery service is a pointer to its graph, so a missing service and a
  service without a graph are both \<open>None\<close>.
\<close>

section \<open>Reports\<close>

record ev_delivery_report =
  dr_matched_routes :: nat
  dr_attempted :: nat
  dr_delivered :: nat
  dr_dropped :: nat
  dr_first_error :: ev_result
  dr_first_failed_actor :: ev_actor_id
  dr_optional_disabled_routes :: nat
  dr_optional_disabled_watchdog_routes :: nat
  dr_optional_disabled_network_routes :: nat
  dr_rejected_routes :: nat
  dr_qos_conflict_routes :: nat
  dr_coalesced :: nat
  dr_replaced :: nat
  dr_qos_dropped :: nat
  dr_mailbox_policy_rejected :: nat

definition ev_delivery_report_reset :: ev_delivery_report where
  "ev_delivery_report_reset = \<lparr>dr_matched_routes = 0, dr_attempted = 0, dr_delivered = 0, dr_dropped = 0,
     dr_first_error = EV_OK, dr_first_failed_actor = EV_ACTOR_NONE, dr_optional_disabled_routes = 0,
     dr_optional_disabled_watchdog_routes = 0, dr_optional_disabled_network_routes = 0, dr_rejected_routes = 0,
     dr_qos_conflict_routes = 0, dr_coalesced = 0, dr_replaced = 0, dr_qos_dropped = 0,
     dr_mailbox_policy_rejected = 0\<rparr>"

datatype ev_delivery_qos_failure_policy = EV_DELIVERY_QOS_FAILURE_STRICT | EV_DELIVERY_QOS_FAILURE_DROP

definition ev_delivery_qos_failure_policy_of :: "ev_route_qos \<Rightarrow> ev_delivery_qos_failure_policy" where
  "ev_delivery_qos_failure_policy_of qos =
     (if ev_qos_failure_is_drop_allowed qos then EV_DELIVERY_QOS_FAILURE_DROP else EV_DELIVERY_QOS_FAILURE_STRICT)"

definition ev_delivery_qos_failure_is_drop :: "ev_route_qos \<Rightarrow> bool" where
  "ev_delivery_qos_failure_is_drop qos = ev_qos_failure_is_drop_allowed qos"

definition ev_delivery_qos_failure_is_strict :: "ev_route_qos \<Rightarrow> bool" where
  "ev_delivery_qos_failure_is_strict qos = ev_qos_failure_is_strict qos"

section \<open>Operations\<close>

definition ev_delivery_emit_fault ::
    "ev_actor_id \<Rightarrow> ev_actor_id \<Rightarrow> ev_event_id \<Rightarrow> ev_result \<Rightarrow> 'u ev_graph \<Rightarrow> 'u ev_graph" where
  "ev_delivery_emit_fault source_actor target_actor event_id res s =
     (let fault = zero_fault\<lparr>fp_fault_id := EV_FAULT_MAILBOX_OVERFLOW, fp_severity := EV_FAULT_SEV_ERROR,
            fp_source_actor := source_actor, fp_triggering_event := event_id,
            fp_arg0 := word_of_int target_actor, fp_arg1 := word_of_int (- result_value res)\<rparr>;
          (rc, s1) = graph_fault_emit fault s;
          s2 = (if rc = EV_OK then count_metric EV_METRIC_FAULT_EMITTED s1 else s1)
      in if res = EV_ERR_FULL then count_metric EV_METRIC_MAILBOX_OVERFLOW s2 else s2)"

definition ev_delivery_trace_timestamp_us :: "'u ev_graph \<Rightarrow> u32 \<times> 'u ev_graph" where
  "ev_delivery_trace_timestamp_us s =
     (case rp_clock_mono_now_us (sv_ports (services s)) of None \<Rightarrow> (0, s)
      | Some clock \<Rightarrow>
        let (rc, now_us, u) = clock (sv_user (services s)); s1 = upd_services (\<lambda>v. v\<lparr>sv_user := u\<rparr>) s
        in if rc \<noteq> EV_OK then (0, s1) else (ucast now_us, s1))"

definition ev_delivery_trace ::
    "ev_route \<Rightarrow> ev_msg \<Rightarrow> ev_result \<Rightarrow> 'u ev_graph \<Rightarrow> 'u ev_graph" where
  "ev_delivery_trace route msg res s =
     (let (timestamp_us, s1) = ev_delivery_trace_timestamp_us s;
          rec = \<lparr>tr_timestamp_us = timestamp_us, tr_event_id = msg_event_id msg,
                 tr_source_actor = msg_source_actor msg, tr_target_actor = rt_target_actor route,
                 tr_result = res, tr_qos = rt_qos route, tr_queue_depth = 0, tr_flags = rt_flags route\<rparr>;
          (rc, ring) = ev_trace_record_op (Some (sv_trace_ring (services s1))) (Some rec);
          s2 = upd_services (\<lambda>v. v\<lparr>sv_trace_ring := the ring\<rparr>) s1
      in if rc \<noteq> EV_OK then count_metric EV_METRIC_TRACE_DROPPED s2 else s2)"

definition ev_delivery_record_mailbox_effect ::
    "ev_mailbox_delivery_report \<Rightarrow> ev_delivery_report \<Rightarrow> 'u ev_graph \<Rightarrow> ev_delivery_report \<times> 'u ev_graph" where
  "ev_delivery_record_mailbox_effect mailbox_report loc s =
     (case md_effect mailbox_report of
        EV_MAILBOX_DELIVERY_COALESCED \<Rightarrow>
          (loc\<lparr>dr_coalesced := dr_coalesced loc + 1\<rparr>, count_metric EV_METRIC_QOS_COALESCED s)
      | EV_MAILBOX_DELIVERY_REPLACED \<Rightarrow>
          (loc\<lparr>dr_replaced := dr_replaced loc + 1\<rparr>, count_metric EV_METRIC_QOS_REPLACED s)
      | EV_MAILBOX_DELIVERY_DROPPED \<Rightarrow>
          (loc\<lparr>dr_qos_dropped := dr_qos_dropped loc + 1\<rparr>, count_metric EV_METRIC_QOS_DROPPED s)
      | EV_MAILBOX_DELIVERY_REJECTED \<Rightarrow>
          (loc\<lparr>dr_mailbox_policy_rejected := dr_mailbox_policy_rejected loc + 1\<rparr>, s)
      | EV_MAILBOX_DELIVERY_POSTED \<Rightarrow> (loc, s))"

definition note_first_error :: "ev_result \<Rightarrow> ev_actor_id \<Rightarrow> ev_delivery_report \<Rightarrow> ev_delivery_report" where
  "note_first_error rc actor loc =
     (if dr_first_error loc = EV_OK then loc\<lparr>dr_first_error := rc, dr_first_failed_actor := actor\<rparr> else loc)"

definition ev_delivery_deliver_one ::
    "'u ev_services ev_env \<Rightarrow> ev_route \<Rightarrow> ev_msg \<Rightarrow> ev_delivery_report \<Rightarrow> 'u ev_graph
       \<Rightarrow> ev_result \<times> ev_delivery_report \<times> 'u ev_graph" where
  "ev_delivery_deliver_one env route msg loc s =
     (let send_msg = msg\<lparr>msg_target_actor := rt_target_actor route\<rparr>;
          loc = loc\<lparr>dr_attempted := dr_attempted loc + 1\<rparr>;
          s = count_metric EV_METRIC_DELIVERY_ATTEMPTED s;
          (rc, mailbox_report, s) = ev_actor_registry_delivery_qos env (rt_target_actor route) (Some send_msg)
             (rt_qos route) True (Some graph_registry) s;
          s = ev_delivery_trace route send_msg rc s;
          (loc, s) = ev_delivery_record_mailbox_effect mailbox_report loc s
      in if rc = EV_OK
         then if md_effect mailbox_report = EV_MAILBOX_DELIVERY_DROPPED
              then (EV_OK, loc\<lparr>dr_dropped := dr_dropped loc + 1\<rparr>,
                    count_metric EV_METRIC_POST_DROPPED (count_metric EV_METRIC_DELIVERY_FAILED s))
              else (EV_OK, loc\<lparr>dr_delivered := dr_delivered loc + 1\<rparr>, count_metric EV_METRIC_DELIVERY_OK s)
         else
           let loc = loc\<lparr>dr_dropped := dr_dropped loc + 1\<rparr>; s = count_metric EV_METRIC_DELIVERY_FAILED s
           in if ev_delivery_qos_failure_is_drop (rt_qos route)
              then (EV_OK, loc, count_metric EV_METRIC_POST_DROPPED s)
              else (rc, note_first_error rc (rt_target_actor route) loc,
                    ev_delivery_emit_fault (msg_source_actor msg) (rt_target_actor route) (msg_event_id msg) rc s))"

text \<open>What the walk of the active table does at an entry that is not enabled.\<close>

definition delivery_skip ::
    "ev_active_route \<Rightarrow> ev_msg \<Rightarrow> ev_result \<Rightarrow> ev_delivery_report \<Rightarrow> 'u ev_graph
       \<Rightarrow> ev_result \<times> ev_delivery_report \<times> 'u ev_graph" where
  "delivery_skip entry msg final_rc loc s =
     (let target = rt_target_actor (ae_route entry)
      in if ae_state entry = EV_ACTIVE_ROUTE_OPTIONAL_DISABLED
         then
           let loc = loc\<lparr>dr_dropped := dr_dropped loc + 1, dr_optional_disabled_routes := dr_optional_disabled_routes loc + 1\<rparr>;
               loc = (if target = ACT_WATCHDOG
                      then loc\<lparr>dr_optional_disabled_watchdog_routes := dr_optional_disabled_watchdog_routes loc + 1\<rparr> else loc);
               loc = (if target = ACT_NETWORK
                      then loc\<lparr>dr_optional_disabled_network_routes := dr_optional_disabled_network_routes loc + 1\<rparr> else loc)
           in (final_rc, loc, count_metric EV_METRIC_ROUTE_DISABLED_SKIPPED s)
         else
           let loc = loc\<lparr>dr_dropped := dr_dropped loc + 1, dr_rejected_routes := dr_rejected_routes loc + 1\<rparr>;
               s = count_metric EV_METRIC_ROUTE_VALIDATION_REJECTED s;
               (loc, s) = (if ae_state entry = EV_ACTIVE_ROUTE_REJECTED_QOS_CONFLICT
                           then (loc\<lparr>dr_qos_conflict_routes := dr_qos_conflict_routes loc + 1\<rparr>,
                                 count_metric EV_METRIC_ROUTE_QOS_CONFLICT s)
                           else (loc, s));
               s = ev_delivery_emit_fault (msg_source_actor msg) target (msg_event_id msg) (ae_reason entry) s
           in (ae_reason entry, note_first_error (ae_reason entry) target loc, s))"

text \<open>
  The loop of \<open>ev_delivery_publish_active\<close>: \<open>n\<close> entries of the span left, the next at index \<open>i\<close>. The
  table is read from the graph at each step, as the code does.
\<close>

primrec publish_active_loop ::
    "'u ev_services ev_env \<Rightarrow> ev_msg \<Rightarrow> nat \<Rightarrow> nat \<Rightarrow> ev_result \<Rightarrow> ev_delivery_report
       \<Rightarrow> 'u ev_graph \<Rightarrow> ev_result \<times> ev_delivery_report \<times> 'u ev_graph" where
  "publish_active_loop env msg 0 i final_rc loc s = (final_rc, loc, s)"
| "publish_active_loop env msg (Suc n) i final_rc loc s =
     (case ev_active_route_at (Some (sv_active_routes (services s))) i of
        None \<Rightarrow> publish_active_loop env msg n (Suc i) final_rc loc s
      | Some entry \<Rightarrow>
          if ae_event entry \<noteq> msg_event_id msg then publish_active_loop env msg n (Suc i) final_rc loc s
          else
            let loc = loc\<lparr>dr_matched_routes := dr_matched_routes loc + 1\<rparr>
            in if ae_state entry \<noteq> EV_ACTIVE_ROUTE_ENABLED
               then (let (final_rc, loc, s) = delivery_skip entry msg final_rc loc s
                     in publish_active_loop env msg n (Suc i) final_rc loc s)
               else
                 let (rc, loc, s) = ev_delivery_deliver_one env (ae_route entry) msg loc s
                 in if rc \<noteq> EV_OK \<and> ev_delivery_qos_failure_is_strict (rt_qos (ae_route entry)) then (rc, loc, s)
                    else publish_active_loop env msg n (Suc i) (if rc \<noteq> EV_OK then rc else final_rc) loc s)"

definition ev_delivery_publish_active ::
    "'u ev_services ev_env \<Rightarrow> ev_msg \<Rightarrow> ev_delivery_report \<Rightarrow> 'u ev_graph
       \<Rightarrow> ev_result \<times> ev_delivery_report \<times> 'u ev_graph" where
  "ev_delivery_publish_active env msg loc s =
     (let sp = ev_active_route_table_span_for_event (Some (sv_active_routes (services s))) (msg_event_id msg)
      in publish_active_loop env msg (sp_count sp) (sp_start_index sp) EV_OK loc s)"

primrec publish_static_loop ::
    "'u ev_services ev_env \<Rightarrow> ev_msg \<Rightarrow> nat \<Rightarrow> nat \<Rightarrow> ev_result \<Rightarrow> ev_delivery_report
       \<Rightarrow> 'u ev_graph \<Rightarrow> ev_result \<times> ev_delivery_report \<times> 'u ev_graph" where
  "publish_static_loop env msg 0 i final_rc loc s = (final_rc, loc, s)"
| "publish_static_loop env msg (Suc n) i final_rc loc s =
     (case ev_route_at i of
        None \<Rightarrow> publish_static_loop env msg n (Suc i) final_rc loc s
      | Some route \<Rightarrow>
          let (rc, loc, s) = ev_delivery_deliver_one env route msg loc s
          in if rc \<noteq> EV_OK \<and> ev_delivery_qos_failure_is_strict (rt_qos route) then (rc, loc, s)
             else publish_static_loop env msg n (Suc i) (if rc \<noteq> EV_OK then rc else final_rc) loc s)"

definition ev_delivery_publish_static ::
    "'u ev_services ev_env \<Rightarrow> ev_msg \<Rightarrow> ev_delivery_report \<Rightarrow> 'u ev_graph
       \<Rightarrow> ev_result \<times> ev_delivery_report \<times> 'u ev_graph" where
  "ev_delivery_publish_static env msg loc s =
     (let sp = ev_route_span_for_event (msg_event_id msg)
      in publish_static_loop env msg (sp_count sp) (sp_start_index sp) EV_OK
           (loc\<lparr>dr_matched_routes := sp_count sp\<rparr>) s)"

text \<open>The report returned is the one the code copies out when the caller passed a place for it.\<close>

definition ev_delivery_publish ::
    "'u ev_services ev_env \<Rightarrow> 'u ev_graph option \<Rightarrow> ev_msg option
       \<Rightarrow> ev_result \<times> ev_delivery_report option \<times> 'u ev_graph option" where
  "ev_delivery_publish env svc msg =
     (case (svc, msg) of
        (Some s, Some m) \<Rightarrow>
          let (final_rc, loc, s) =
                (if sv_active_routes_bound (services s) \<noteq> 0
                 then ev_delivery_publish_active env m ev_delivery_report_reset s
                 else ev_delivery_publish_static env m ev_delivery_report_reset s)
          in if dr_matched_routes loc = 0
             then (EV_ERR_NOT_FOUND, Some (loc\<lparr>dr_first_error := EV_ERR_NOT_FOUND\<rparr>),
                   Some (count_metric EV_METRIC_DELIVERY_FAILED s))
             else if final_rc = EV_OK then (final_rc, Some loc, Some (count_metric EV_METRIC_POST_OK s))
             else (final_rc, Some loc, Some s)
      | _ \<Rightarrow> (EV_ERR_INVALID_ARG, None, svc))"


section \<open>What one delivery changes\<close>

definition bindings_same :: "'w ev_sys \<Rightarrow> 'w ev_sys \<Rightarrow> bool" where
  "bindings_same s s' \<longleftrightarrow> (\<forall>r. ar_mailbox (sy_runtime s' r) = ar_mailbox (sy_runtime s r))
     \<and> (\<forall>h. rg_slots (sy_registry s' h) = rg_slots (sy_registry s h))"

text \<open>The mailbox an actor is reached at.\<close>

definition mailbox_of :: "'w ev_sys \<Rightarrow> ev_actor_id \<Rightarrow> ptr" where
  "mailbox_of s actor =
     (case ev_actor_registry_find s (Some graph_registry) actor of None \<Rightarrow> None
      | Some r \<Rightarrow> ar_mailbox (sy_runtime s r))"

lemma bindings_same_refl [simp]: "bindings_same s s"
  by (simp add: bindings_same_def)

lemma bindings_same_trans: "bindings_same s s' \<Longrightarrow> bindings_same s' s'' \<Longrightarrow> bindings_same s s''"
  by (simp add: bindings_same_def)

lemma mailbox_of_same: "bindings_same s s' \<Longrightarrow> mailbox_of s' a = mailbox_of s a"
  by (simp add: bindings_same_def mailbox_of_def ev_actor_registry_find_def split: option.splits)

text \<open>Counting, tracing and fault emission leave the node and the route table alone.\<close>

lemma timestamp_frames [simp]:
  "sy_mailbox (snd (ev_delivery_trace_timestamp_us s)) = sy_mailbox s"
  "sy_runtime (snd (ev_delivery_trace_timestamp_us s)) = sy_runtime s"
  "sy_registry (snd (ev_delivery_trace_timestamp_us s)) = sy_registry s"
  "sv_active_routes (sy_world (snd (ev_delivery_trace_timestamp_us s))) = sv_active_routes (sy_world s)"
  by (simp_all add: ev_delivery_trace_timestamp_us_def case_prod_unfold Let_def split: option.split)

lemma service_step_frames [simp]:
  "sy_mailbox (ev_delivery_trace route msg rc s) = sy_mailbox s"
  "sy_runtime (ev_delivery_trace route msg rc s) = sy_runtime s"
  "sy_registry (ev_delivery_trace route msg rc s) = sy_registry s"
  "sv_active_routes (sy_world (ev_delivery_trace route msg rc s)) = sv_active_routes (sy_world s)"
  "sy_mailbox (ev_delivery_emit_fault a b e rc s) = sy_mailbox s"
  "sy_runtime (ev_delivery_emit_fault a b e rc s) = sy_runtime s"
  "sy_registry (ev_delivery_emit_fault a b e rc s) = sy_registry s"
  "sv_active_routes (sy_world (ev_delivery_emit_fault a b e rc s)) = sv_active_routes (sy_world s)"
  by (simp_all add: ev_delivery_trace_def ev_delivery_emit_fault_def graph_fault_emit_def case_prod_unfold Let_def)

lemma mailbox_effect_frames:
  assumes "ev_delivery_record_mailbox_effect rep loc s = (loc', s')"
  shows "sy_mailbox s' = sy_mailbox s \<and> sy_runtime s' = sy_runtime s \<and> sy_registry s' = sy_registry s
     \<and> sv_active_routes (sy_world s') = sv_active_routes (sy_world s)
     \<and> dr_matched_routes loc' = dr_matched_routes loc \<and> dr_attempted loc' = dr_attempted loc
     \<and> dr_delivered loc' = dr_delivered loc \<and> dr_dropped loc' = dr_dropped loc
     \<and> dr_first_error loc' = dr_first_error loc
     \<and> dr_optional_disabled_routes loc' = dr_optional_disabled_routes loc
     \<and> dr_rejected_routes loc' = dr_rejected_routes loc"
  using assms by (auto simp: ev_delivery_record_mailbox_effect_def split: ev_mailbox_delivery_effect.splits)

lemma deliver_one_report:
  assumes "ev_delivery_deliver_one env route msg loc s = (rc, loc', s')"
  shows "dr_matched_routes loc' = dr_matched_routes loc \<and> dr_attempted loc' = dr_attempted loc + 1
     \<and> dr_optional_disabled_routes loc' = dr_optional_disabled_routes loc
     \<and> dr_rejected_routes loc' = dr_rejected_routes loc
     \<and> dr_delivered loc' + dr_dropped loc' = dr_delivered loc + dr_dropped loc + 1
     \<and> dr_first_error loc' = (if dr_first_error loc = EV_OK then rc else dr_first_error loc)
     \<and> (rc \<noteq> EV_OK \<longrightarrow> ev_delivery_qos_failure_is_strict (rt_qos route))"
  using assms
  by (auto simp: ev_delivery_deliver_one_def note_first_error_def ev_delivery_qos_failure_is_drop_def
      ev_delivery_qos_failure_is_strict_def strict_xor_drop Let_def dest!: mailbox_effect_frames
      split: prod.splits if_splits)

lemma deliver_one_frame:
  assumes "ev_delivery_deliver_one env route msg loc s = (rc, loc', s')"
  shows "bindings_same s s'
     \<and> (\<forall>k. sy_mailbox s' k \<noteq> sy_mailbox s k \<longrightarrow> mailbox_of s (rt_target_actor route) = Some k)"
proof -
  let ?s0 = "count_metric EV_METRIC_DELIVERY_ATTEMPTED s"
  obtain rc1 rep s1 where d: "ev_actor_registry_delivery_impl env (rt_target_actor route)
      (Some (msg\<lparr>msg_target_actor := rt_target_actor route\<rparr>)) (rt_qos route) True (Some graph_registry) ?s0
      = (rc1, rep, s1)" by (rule prod_cases3)
  have s': "sy_mailbox s' = sy_mailbox s1" "sy_runtime s' = sy_runtime s1" "sy_registry s' = sy_registry s1"
    using assms d
    by (auto simp: ev_delivery_deliver_one_def ev_actor_registry_delivery_qos_def Let_def
        dest!: mailbox_effect_frames split: prod.splits if_splits)
  have "ev_actor_registry_find ?s0 pr a = ev_actor_registry_find s pr a" for pr a
    by (simp add: ev_actor_registry_find_def split: option.split)
  then show ?thesis
    using delivery_frame [OF d] by (auto simp: s' bindings_same_def mailbox_of_def)
qed

lemma deliver_one_keeps_routes:
  assumes closed: "payload_closed (env_lc env) (\<lambda>v. sv_active_routes v = T)"
    and "sv_active_routes (sy_world s) = T" and "ev_delivery_deliver_one env route msg loc s = (rc, loc', s')"
  shows "sv_active_routes (sy_world s') = T"
proof -
  let ?s0 = "count_metric EV_METRIC_DELIVERY_ATTEMPTED s"
  obtain rc1 rep s1 where d: "ev_actor_registry_delivery_impl env (rt_target_actor route)
      (Some (msg\<lparr>msg_target_actor := rt_target_actor route\<rparr>)) (rt_qos route) True (Some graph_registry) ?s0
      = (rc1, rep, s1)" by (rule prod_cases3)
  have "sv_active_routes (sy_world s1) = T"
    by (rule delivery_keeps_world [OF closed _ d]) (simp add: assms(2))
  then show ?thesis using assms(3) d
    by (auto simp: ev_delivery_deliver_one_def ev_actor_registry_delivery_qos_def Let_def
        dest!: mailbox_effect_frames split: prod.splits if_splits)
qed

lemma delivery_skip_spec:
  assumes "delivery_skip entry msg final loc s = (rc, loc', s')"
  shows "sy_mailbox s' = sy_mailbox s \<and> bindings_same s s'
     \<and> sv_active_routes (sy_world s') = sv_active_routes (sy_world s)
     \<and> dr_matched_routes loc' = dr_matched_routes loc \<and> dr_attempted loc' = dr_attempted loc
     \<and> dr_delivered loc' + dr_dropped loc' = dr_delivered loc + dr_dropped loc + 1
     \<and> (if ae_state entry = EV_ACTIVE_ROUTE_OPTIONAL_DISABLED
        then rc = final \<and> dr_first_error loc' = dr_first_error loc
          \<and> dr_optional_disabled_routes loc' = dr_optional_disabled_routes loc + 1
          \<and> dr_rejected_routes loc' = dr_rejected_routes loc
        else rc = ae_reason entry
          \<and> dr_first_error loc' = (if dr_first_error loc = EV_OK then ae_reason entry else dr_first_error loc)
          \<and> dr_optional_disabled_routes loc' = dr_optional_disabled_routes loc
          \<and> dr_rejected_routes loc' = dr_rejected_routes loc + 1)"
  using assms
  by (auto simp: delivery_skip_def note_first_error_def bindings_same_def Let_def split: prod.splits if_splits)


section \<open>The walk of an event's routes\<close>

text \<open>Both loops are one walk over the list of the event's entries.\<close>

primrec route_walk ::
    "'u ev_services ev_env \<Rightarrow> ev_msg \<Rightarrow> ev_active_route list \<Rightarrow> ev_result
       \<Rightarrow> ev_delivery_report \<Rightarrow> 'u ev_graph \<Rightarrow> ev_result \<times> ev_delivery_report \<times> 'u ev_graph" where
  "route_walk env msg [] final_rc loc s = (final_rc, loc, s)"
| "route_walk env msg (entry # es) final_rc loc s =
     (let loc = loc\<lparr>dr_matched_routes := dr_matched_routes loc + 1\<rparr>
      in if ae_state entry \<noteq> EV_ACTIVE_ROUTE_ENABLED
         then (let (final_rc, loc, s) = delivery_skip entry msg final_rc loc s
               in route_walk env msg es final_rc loc s)
         else
           let (rc, loc, s) = ev_delivery_deliver_one env (ae_route entry) msg loc s
           in if rc \<noteq> EV_OK \<and> ev_delivery_qos_failure_is_strict (rt_qos (ae_route entry)) then (rc, loc, s)
              else route_walk env msg es (if rc \<noteq> EV_OK then rc else final_rc) loc s)"

lemma active_loop_walk:
  assumes closed: "payload_closed (env_lc env) (\<lambda>v. sv_active_routes v = T)"
  shows "sv_active_routes (sy_world s) = T \<Longrightarrow> length es = n
     \<Longrightarrow> (\<And>j. j < n \<Longrightarrow> ev_active_route_at (Some T) (i + j) = Some (es ! j) \<and> ae_event (es ! j) = msg_event_id msg)
     \<Longrightarrow> publish_active_loop env msg n i final loc s = route_walk env msg es final loc s"
proof (induction n arbitrary: i es final loc s)
  case (Suc n)
  obtain e es' where es: "es = e # es'" "length es' = n" using Suc.prems(2) by (cases es) simp_all
  have at: "ev_active_route_at (Some T) i = Some e" "ae_event e = msg_event_id msg"
    using Suc.prems(3) [of 0] es by simp_all
  have rest: "ev_active_route_at (Some T) (Suc i + j) = Some (es' ! j) \<and> ae_event (es' ! j) = msg_event_id msg"
    if "j < n" for j using Suc.prems(3) [of "Suc j"] that es by simp
  have IH: "publish_active_loop env msg n (Suc i) f l u = route_walk env msg es' f l u"
    if "sv_active_routes (sy_world u) = T" for f l u
    by (rule Suc.IH [OF that es(2) rest])
  let ?loc = "loc\<lparr>dr_matched_routes := dr_matched_routes loc + 1\<rparr>"
  obtain f1 l1 s1 where k: "delivery_skip e msg final ?loc s = (f1, l1, s1)" by (rule prod_cases3)
  obtain r2 l2 s2 where d: "ev_delivery_deliver_one env (ae_route e) msg ?loc s = (r2, l2, s2)"
    by (rule prod_cases3)
  have "sv_active_routes (sy_world s1) = T" using delivery_skip_spec [OF k] Suc.prems(1) by simp
  moreover have "sv_active_routes (sy_world s2) = T" by (rule deliver_one_keeps_routes [OF closed Suc.prems(1) d])
  ultimately show ?case
    using at k d Suc.prems(1) by (simp add: es(1) services_def IH Let_def)
qed simp

abbreviation route_enabled :: "ev_active_route \<Rightarrow> bool" where
  "route_enabled e \<equiv> ae_state e = EV_ACTIVE_ROUTE_ENABLED"

abbreviation route_optional_disabled :: "ev_active_route \<Rightarrow> bool" where
  "route_optional_disabled e \<equiv> ae_state e = EV_ACTIVE_ROUTE_OPTIONAL_DISABLED"

definition route_rejected :: "ev_active_route \<Rightarrow> bool" where
  "route_rejected e \<longleftrightarrow> \<not> route_enabled e \<and> \<not> route_optional_disabled e"

text \<open>A rejected entry carries the reason of its rejection.\<close>

definition reasons_given :: "ev_active_route list \<Rightarrow> bool" where
  "reasons_given es \<longleftrightarrow> (\<forall>e \<in> set es. route_rejected e \<longrightarrow> ae_reason e \<noteq> EV_OK)"

definition walk_books :: "ev_active_route list \<Rightarrow> ev_delivery_report \<Rightarrow> ev_delivery_report \<Rightarrow> bool" where
  "walk_books vs loc loc' \<longleftrightarrow>
     dr_matched_routes loc' = dr_matched_routes loc + length vs
     \<and> dr_attempted loc' = dr_attempted loc + length (filter route_enabled vs)
     \<and> dr_optional_disabled_routes loc' = dr_optional_disabled_routes loc + length (filter route_optional_disabled vs)
     \<and> dr_rejected_routes loc' = dr_rejected_routes loc + length (filter route_rejected vs)
     \<and> dr_delivered loc' + dr_dropped loc' = dr_delivered loc + dr_dropped loc + length vs"

definition walk_frame :: "ev_active_route list \<Rightarrow> 'w ev_sys \<Rightarrow> 'w ev_sys \<Rightarrow> bool" where
  "walk_frame vs s s' \<longleftrightarrow> bindings_same s s'
     \<and> (\<forall>k. sy_mailbox s' k \<noteq> sy_mailbox s k \<longrightarrow>
          (\<exists>e \<in> set vs. route_enabled e \<and> mailbox_of s (rt_target_actor (ae_route e)) = Some k))"

lemma walk_frame_Cons:
  assumes "bindings_same s s1" and "walk_frame vs s1 s2"
    and "\<And>k. sy_mailbox s1 k \<noteq> sy_mailbox s k \<Longrightarrow> route_enabled e \<and> mailbox_of s (rt_target_actor (ae_route e)) = Some k"
  shows "walk_frame (e # vs) s s2"
proof -
  have "\<exists>x \<in> set (e # vs). route_enabled x \<and> mailbox_of s (rt_target_actor (ae_route x)) = Some k"
    if ne: "sy_mailbox s2 k \<noteq> sy_mailbox s k" for k
  proof (cases "sy_mailbox s1 k = sy_mailbox s k")
    case True
    then have "sy_mailbox s2 k \<noteq> sy_mailbox s1 k" using ne by simp
    then show ?thesis using assms(2) mailbox_of_same [OF assms(1)] by (auto simp: walk_frame_def)
  next
    case False
    then show ?thesis using assms(3) [OF False] by auto
  qed
  then show ?thesis using assms(2) bindings_same_trans [OF assms(1)] by (simp add: walk_frame_def)
qed

lemma route_walk_spec:
  assumes "reasons_given es" and "final = EV_OK \<longleftrightarrow> dr_first_error loc = EV_OK"
    and "route_walk env msg es final loc s = (rc, loc', s')"
  shows "\<exists>k \<le> length es. walk_books (take k es) loc loc' \<and> walk_frame (take k es) s s'
     \<and> (rc = EV_OK \<longleftrightarrow> dr_first_error loc' = EV_OK)
     \<and> (rc = EV_OK \<longrightarrow> k = length es \<and> final = EV_OK \<and> \<not> list_ex route_rejected es)
     \<and> (k < length es \<longrightarrow> 0 < k \<and> route_enabled (es ! (k - 1))
          \<and> ev_delivery_qos_failure_is_strict (rt_qos (ae_route (es ! (k - 1)))))"
  using assms
proof (induction es arbitrary: final loc s)
  case Nil
  then show ?case by (simp add: walk_books_def walk_frame_def)
next
  case (Cons e es)
  let ?loc = "loc\<lparr>dr_matched_routes := dr_matched_routes loc + 1\<rparr>"
  have rg: "reasons_given es" "route_rejected e \<Longrightarrow> ae_reason e \<noteq> EV_OK"
    using Cons.prems(1) by (simp_all add: reasons_given_def)
  have step: "\<exists>k \<le> length (e # es). walk_books (take k (e # es)) loc loc' \<and> walk_frame (take k (e # es)) s s'
     \<and> (rc = EV_OK \<longleftrightarrow> dr_first_error loc' = EV_OK)
     \<and> (rc = EV_OK \<longrightarrow> k = length (e # es) \<and> final = EV_OK \<and> \<not> list_ex route_rejected (e # es))
     \<and> (k < length (e # es) \<longrightarrow> 0 < k \<and> route_enabled ((e # es) ! (k - 1))
          \<and> ev_delivery_qos_failure_is_strict (rt_qos (ae_route ((e # es) ! (k - 1)))))"
    if walk: "route_walk env msg es f1 l1 s1 = (rc, loc', s')" and fe: "f1 = EV_OK \<longleftrightarrow> dr_first_error l1 = EV_OK"
      and b: "walk_books [e] loc l1" and fr: "bindings_same s s1"
        "\<And>k. sy_mailbox s1 k \<noteq> sy_mailbox s k \<Longrightarrow> route_enabled e \<and> mailbox_of s (rt_target_actor (ae_route e)) = Some k"
      and f: "f1 = EV_OK \<Longrightarrow> final = EV_OK \<and> \<not> route_rejected e"
    for f1 l1 s1
  proof -
    obtain k where k: "k \<le> length es" "walk_books (take k es) l1 loc'" "walk_frame (take k es) s1 s'"
      and r: "rc = EV_OK \<longleftrightarrow> dr_first_error loc' = EV_OK"
        "rc = EV_OK \<longrightarrow> k = length es \<and> f1 = EV_OK \<and> \<not> list_ex route_rejected es"
        "k < length es \<longrightarrow> 0 < k \<and> route_enabled (es ! (k - 1))
          \<and> ev_delivery_qos_failure_is_strict (rt_qos (ae_route (es ! (k - 1))))"
      using Cons.IH [OF rg(1) fe walk] by blast
    have "walk_books (take (Suc k) (e # es)) loc loc'" using b k(2) by (simp add: walk_books_def)
    moreover have "walk_frame (take (Suc k) (e # es)) s s'"
      using walk_frame_Cons [OF fr(1) k(3) fr(2)] by simp
    ultimately show ?thesis
      using k(1) r f by (intro exI [of _ "Suc k"]) (auto simp: nth_Cons')
  qed
  show ?case
  proof (cases "route_enabled e")
    case False
    obtain f1 l1 s1 where sk: "delivery_skip e msg final ?loc s = (f1, l1, s1)" by (rule prod_cases3)
    note sp = delivery_skip_spec [OF sk]
    have walk: "route_walk env msg es f1 l1 s1 = (rc, loc', s')"
      using Cons.prems(3) False sk by (simp add: Let_def)
    show ?thesis
    proof (rule step [OF walk])
      show "f1 = EV_OK \<longleftrightarrow> dr_first_error l1 = EV_OK"
        using sp rg(2) False Cons.prems(2) by (auto simp: route_rejected_def split: if_splits)
      show "walk_books [e] loc l1"
        using sp False by (auto simp: walk_books_def route_rejected_def split: if_splits)
      show "bindings_same s s1" using sp by blast
      show "route_enabled e \<and> mailbox_of s (rt_target_actor (ae_route e)) = Some k"
        if "sy_mailbox s1 k \<noteq> sy_mailbox s k" for k using sp that by simp
      show "final = EV_OK \<and> \<not> route_rejected e" if "f1 = EV_OK"
        using sp that rg(2) False by (auto simp: route_rejected_def split: if_splits)
    qed
  next
    case True
    obtain r2 l2 s2 where d: "ev_delivery_deliver_one env (ae_route e) msg ?loc s = (r2, l2, s2)"
      by (rule prod_cases3)
    note rep = deliver_one_report [OF d] and fr = deliver_one_frame [OF d]
    have b: "walk_books [e] loc l2" using rep True by (simp add: walk_books_def route_rejected_def)
    show ?thesis
    proof (cases "r2 = EV_OK")
      case ok: True
      have walk: "route_walk env msg es final l2 s2 = (rc, loc', s')"
        using Cons.prems(3) True d ok by (simp add: Let_def)
      have fe: "final = EV_OK \<longleftrightarrow> dr_first_error l2 = EV_OK" using rep ok Cons.prems(2) by auto
      show ?thesis
        by (rule step [OF walk fe b]) (use fr True in \<open>auto simp: route_rejected_def\<close>)
    next
      case bad: False
      then have strict: "ev_delivery_qos_failure_is_strict (rt_qos (ae_route e))" using rep by blast
      have eq: "rc = r2" "loc' = l2" "s' = s2" using Cons.prems(3) True d bad strict by (simp_all add: Let_def)
      have "walk_frame [e] s s2" using fr True by (auto simp: walk_frame_def)
      then show ?thesis using b bad strict True rep eq
        by (intro exI [of _ 1]) auto
    qed
  qed
qed


section \<open>Publication before the routes are bound\<close>

text \<open>
  The static loop is the same walk over the generated routes, all of them enabled; only the count of
  matched routes is set beforehand.
\<close>

definition static_entry :: "ev_route \<Rightarrow> ev_active_route" where
  "static_entry r = \<lparr>ae_route = r, ae_state = EV_ACTIVE_ROUTE_ENABLED, ae_reason = EV_OK\<rparr>"

lemma effect_matched:
  "ev_delivery_record_mailbox_effect rep (loc\<lparr>dr_matched_routes := n\<rparr>) s
     = (case ev_delivery_record_mailbox_effect rep loc s of (loc', s') \<Rightarrow> (loc'\<lparr>dr_matched_routes := n\<rparr>, s'))"
  by (cases "md_effect rep") (simp_all add: ev_delivery_record_mailbox_effect_def)

lemma deliver_one_matched:
  assumes "ev_delivery_deliver_one env route msg loc s = (rc, loc', s')"
  shows "ev_delivery_deliver_one env route msg (loc\<lparr>dr_matched_routes := n\<rparr>) s
     = (rc, loc'\<lparr>dr_matched_routes := n\<rparr>, s')"
proof -
  let ?m = "msg\<lparr>msg_target_actor := rt_target_actor route\<rparr>"
  let ?l = "loc\<lparr>dr_attempted := dr_attempted loc + 1\<rparr>"
  obtain r1 rep s1 where d: "ev_actor_registry_delivery_qos env (rt_target_actor route) (Some ?m) (rt_qos route) True
      (Some graph_registry) (count_metric EV_METRIC_DELIVERY_ATTEMPTED s) = (r1, rep, s1)" by (rule prod_cases3)
  obtain l2 s2 where e: "ev_delivery_record_mailbox_effect rep ?l (ev_delivery_trace route ?m r1 s1) = (l2, s2)"
    by (rule prod.exhaust)
  have comm: "?l\<lparr>dr_matched_routes := n\<rparr> = loc\<lparr>dr_matched_routes := n, dr_attempted := dr_attempted loc + 1\<rparr>"
    by (cases loc) simp
  have e': "ev_delivery_record_mailbox_effect rep (loc\<lparr>dr_matched_routes := n, dr_attempted := dr_attempted loc + 1\<rparr>)
      (ev_delivery_trace route ?m r1 s1) = (l2\<lparr>dr_matched_routes := n\<rparr>, s2)"
    by (simp only: comm [symmetric] effect_matched e prod.case)
  show ?thesis
    using assms d e e'
    by (cases l2) (auto simp: ev_delivery_deliver_one_def note_first_error_def Let_def split: if_splits)
qed

lemma static_entry_sel [simp]:
  "ae_route (static_entry r) = r" "ae_state (static_entry r) = EV_ACTIVE_ROUTE_ENABLED"
  by (simp_all add: static_entry_def)

lemma static_loop_walk:
  assumes "length rs = n" and "\<And>j. j < n \<Longrightarrow> ev_route_at (i + j) = Some (rs ! j)"
    and "route_walk env msg (map static_entry rs) final loc s = (rc, loc', s')"
  shows "publish_static_loop env msg n i final (loc\<lparr>dr_matched_routes := m\<rparr>) s
     = (rc, loc'\<lparr>dr_matched_routes := m\<rparr>, s')"
  using assms
proof (induction n arbitrary: i rs final loc s)
  case (Suc n)
  obtain r rs' where rs: "rs = r # rs'" "length rs' = n" using Suc.prems(1) by (cases rs) simp_all
  have at: "ev_route_at i = Some r" using Suc.prems(2) [of 0] rs by simp
  have rest: "ev_route_at (Suc i + j) = Some (rs' ! j)" if "j < n" for j
    using Suc.prems(2) [of "Suc j"] that rs by simp
  obtain r1 l1 s1 where d: "ev_delivery_deliver_one env r msg
      (loc\<lparr>dr_matched_routes := dr_matched_routes loc + 1\<rparr>) s = (r1, l1, s1)" by (rule prod_cases3)
  have d': "ev_delivery_deliver_one env r msg (loc\<lparr>dr_matched_routes := m\<rparr>) s
      = (r1, l1\<lparr>dr_matched_routes := m\<rparr>, s1)"
    using deliver_one_matched [OF d, of m] by simp
  show ?case
  proof (cases "r1 \<noteq> EV_OK \<and> ev_delivery_qos_failure_is_strict (rt_qos r)")
    case True
    then show ?thesis using Suc.prems(3) d d' at by (simp add: rs(1) Let_def)
  next
    case False
    have "route_walk env msg (map static_entry rs') (if r1 \<noteq> EV_OK then r1 else final) l1 s1 = (rc, loc', s')"
      using Suc.prems(3) d False by (simp add: rs(1) Let_def split: if_splits)
    from Suc.IH [OF rs(2) rest this] show ?thesis
      using d' at False by (simp add: Let_def split: if_splits)
  qed
qed simp

section \<open>Properties\<close>

text \<open>The entries a publication of an event walks.\<close>

definition planned_entries :: "'u ev_graph \<Rightarrow> ev_event_id \<Rightarrow> ev_active_route list" where
  "planned_entries s e =
     (if sv_active_routes_bound (services s) \<noteq> 0
      then filter (\<lambda>x. ae_event x = e) (active_entries (sv_active_routes (services s)))
      else map static_entry (routes_of_event e))"

lemma planned_walk:
  assumes closed: "payload_closed (env_lc env) (\<lambda>v. sv_active_routes v = sv_active_routes (services s))"
    and ready: "sv_active_routes_bound (services s) \<noteq> 0 \<Longrightarrow> active_ready (sv_active_routes (services s))"
    and w: "route_walk env m (planned_entries s (msg_event_id m)) EV_OK ev_delivery_report_reset s = (rc, loc, s')"
  shows "(if sv_active_routes_bound (services s) \<noteq> 0
          then ev_delivery_publish_active env m ev_delivery_report_reset s
          else ev_delivery_publish_static env m ev_delivery_report_reset s)
     = (rc, if sv_active_routes_bound (services s) \<noteq> 0 then loc
            else loc\<lparr>dr_matched_routes := length (planned_entries s (msg_event_id m))\<rparr>, s')"
proof (cases "sv_active_routes_bound (services s) \<noteq> 0")
  case True
  let ?T = "sv_active_routes (services s)" and ?e = "msg_event_id m"
  let ?sp = "ev_active_route_table_span_for_event (Some ?T) ?e"
  let ?es = "filter (\<lambda>x. ae_event x = ?e) (active_entries ?T)"
  have r: "active_ready ?T" using ready True by blast
  have len: "length ?es = sp_count ?sp" using active_routes.count_of_event [OF r] by simp
  have at: "ev_active_route_at (Some ?T) (sp_start_index ?sp + j) = Some (?es ! j) \<and> ae_event (?es ! j) = ?e"
    if "j < sp_count ?sp" for j
  proof -
    have "?es ! j \<in> set ?es" using nth_mem [of j ?es] that by (simp only: len)
    then have "ae_event (?es ! j) = ?e" by (simp only: set_filter mem_Collect_eq)
    then show ?thesis using active_routes.visit [OF r that] by blast
  qed
  have "sv_active_routes (sy_world s) = ?T" by (simp add: services_def)
  from active_loop_walk [OF closed this len at] show ?thesis
    using True w by (simp add: ev_delivery_publish_active_def planned_entries_def Let_def)
next
  case False
  let ?sp = "ev_route_span_for_event (msg_event_id m)" and ?rs = "routes_of_event (msg_event_id m)"
  have len: "length ?rs = sp_count ?sp"
    using static_routes.count_of_event [of "msg_event_id m"] by (simp add: routes_of_event_def)
  have at: "ev_route_at (sp_start_index ?sp + j) = Some (?rs ! j)" if "j < sp_count ?sp" for j
    using static_routes.visit [of j "msg_event_id m"] that by (simp add: routes_of_event_def)
  have "route_walk env m (map static_entry ?rs) EV_OK ev_delivery_report_reset s = (rc, loc, s')"
    using w False by (simp add: planned_entries_def)
  from static_loop_walk [OF len at this] show ?thesis
    using False len by (simp add: ev_delivery_publish_static_def planned_entries_def Let_def)
qed

lemma publish_walk_spec:
  assumes closed: "payload_closed (env_lc env) (\<lambda>v. sv_active_routes v = sv_active_routes (services s))"
    and ready: "sv_active_routes_bound (services s) \<noteq> 0 \<Longrightarrow> active_ready (sv_active_routes (services s))"
    and reasons: "reasons_given (active_entries (sv_active_routes (services s)))"
    and p: "ev_delivery_publish env (Some s) (Some m) = (rc, Some rep, Some s')"
  defines "es \<equiv> planned_entries s (msg_event_id m)"
  shows "\<exists>k \<le> length es. walk_frame (take k es) s s'
     \<and> dr_matched_routes rep = (if sv_active_routes_bound (services s) \<noteq> 0 then k else length es)
     \<and> dr_attempted rep = length (filter route_enabled (take k es))
     \<and> dr_optional_disabled_routes rep = length (filter route_optional_disabled (take k es))
     \<and> dr_rejected_routes rep = length (filter route_rejected (take k es))
     \<and> dr_delivered rep + dr_dropped rep = k
     \<and> (rc = EV_OK \<longleftrightarrow> dr_first_error rep = EV_OK)
     \<and> (rc = EV_OK \<longrightarrow> k = length es \<and> es \<noteq> [] \<and> \<not> list_ex route_rejected es)
     \<and> (k < length es \<longrightarrow> 0 < k \<and> route_enabled (es ! (k - 1))
          \<and> ev_delivery_qos_failure_is_strict (rt_qos (ae_route (es ! (k - 1)))))"
proof -
  obtain rc0 loc s0 where w: "route_walk env m es EV_OK ev_delivery_report_reset s = (rc0, loc, s0)"
    by (rule prod_cases3)
  have rg: "reasons_given es"
    using reasons by (auto simp: es_def planned_entries_def reasons_given_def route_rejected_def static_entry_def)
  have "EV_OK = EV_OK \<longleftrightarrow> dr_first_error ev_delivery_report_reset = EV_OK" by (simp add: ev_delivery_report_reset_def)
  from route_walk_spec [OF rg this w] obtain k where k: "k \<le> length es"
    and b: "walk_books (take k es) ev_delivery_report_reset loc" and fr: "walk_frame (take k es) s s0"
    and r: "rc0 = EV_OK \<longleftrightarrow> dr_first_error loc = EV_OK"
      "rc0 = EV_OK \<longrightarrow> k = length es \<and> \<not> list_ex route_rejected es"
      "k < length es \<longrightarrow> 0 < k \<and> route_enabled (es ! (k - 1))
          \<and> ev_delivery_qos_failure_is_strict (rt_qos (ae_route (es ! (k - 1))))"
    by blast
  note pub = planned_walk [OF closed ready w [unfolded es_def], folded es_def]
  have frame: "walk_frame (take k es) s (count_metric c s0)" for c
    using fr by (simp add: walk_frame_def bindings_same_def)
  have k0: "k = 0 \<longleftrightarrow> es = []" using k r(3) by (cases es) auto
  have m0: "dr_matched_routes loc = k" using b k by (simp add: walk_books_def ev_delivery_report_reset_def)
  have out: "(rc, rep, s') = (if k = 0 then (EV_ERR_NOT_FOUND,
        (if sv_active_routes_bound (services s) \<noteq> 0 then loc else loc\<lparr>dr_matched_routes := length es\<rparr>)
          \<lparr>dr_first_error := EV_ERR_NOT_FOUND\<rparr>, count_metric EV_METRIC_DELIVERY_FAILED s0)
      else (rc0, if sv_active_routes_bound (services s) \<noteq> 0 then loc else loc\<lparr>dr_matched_routes := length es\<rparr>,
        if rc0 = EV_OK then count_metric EV_METRIC_POST_OK s0 else s0))"
    using p pub m0 k0 by (auto simp: ev_delivery_publish_def Let_def split: if_splits)
  have wf: "walk_frame (take k es) s s'" using out fr frame by (auto split: if_splits)
  show ?thesis
  proof (intro exI [of _ k] conjI)
    show "k \<le> length es" by (rule k)
    show "walk_frame (take k es) s s'" by (rule wf)
  qed (use out b k r k0 m0 in \<open>auto simp: walk_books_def ev_delivery_report_reset_def split: if_splits\<close>)
qed

text \<open>
  C7: A publication delivers along its event's routes. Once routes are bound it walks the active table,
  before that the generated one, in order, and stops early only after a delivery over a route of strict
  quality failed. It writes no mailbox but those of the enabled targets it visited. The report accounts for
  every route visited: attempted deliveries, optional targets skipped, routes rejected, and delivered or
  dropped in total. It succeeds exactly when no error was noted, and then every route of the event was
  visited, there was one, and none was rejected.
\<close>
theorem delivery_follows_routes:
  assumes "payload_closed (env_lc env) (\<lambda>v. sv_active_routes v = sv_active_routes (services s))"
    and "sv_active_routes_bound (services s) \<noteq> 0 \<Longrightarrow> active_ready (sv_active_routes (services s))"
    and "reasons_given (active_entries (sv_active_routes (services s)))"
    and "ev_delivery_publish env (Some s) (Some m) = (rc, Some rep, Some s')"
  shows "\<exists>k \<le> length (planned_entries s (msg_event_id m)).
       let es = planned_entries s (msg_event_id m); vs = take k es
       in walk_frame vs s s'
         \<and> dr_matched_routes rep = (if sv_active_routes_bound (services s) \<noteq> 0 then k else length es)
         \<and> dr_attempted rep = length (filter route_enabled vs)
         \<and> dr_optional_disabled_routes rep = length (filter route_optional_disabled vs)
         \<and> dr_rejected_routes rep = length (filter route_rejected vs)
         \<and> dr_delivered rep + dr_dropped rep = k
         \<and> (rc = EV_OK \<longleftrightarrow> dr_first_error rep = EV_OK)
         \<and> (rc = EV_OK \<longrightarrow> k = length es \<and> es \<noteq> [] \<and> \<not> list_ex route_rejected es)
         \<and> (k < length es \<longrightarrow> 0 < k \<and> route_enabled (es ! (k - 1))
              \<and> ev_delivery_qos_failure_is_strict (rt_qos (ae_route (es ! (k - 1)))))"
  unfolding Let_def by (rule publish_walk_spec [OF assms])

text \<open>
  A graph with one actor, whose table holds an enabled route to it and a disabled optional route to the
  network, both of the tick event.
\<close>

definition demo_graph_env :: "unit ev_services ev_env" where
  "demo_graph_env = \<lparr>env_lc = \<lparr>lc_retain = (\<lambda>fn ctx p n w. (EV_OK, w)), lc_release = (\<lambda>fn ctx p n w. w)\<rparr>, env_handler = (\<lambda>f ctx m s. (EV_OK, s))\<rparr>"

definition demo_graph_ports :: "unit ev_runtime_ports" where
  "demo_graph_ports = \<lparr>rp_clock_mono_now_us = Some (\<lambda>u. (EV_OK, 7, u)), rp_log_pending = None\<rparr>"

definition demo_graph_routes :: ev_active_route_table where
  "demo_graph_routes =
     (let r = (\<lambda>a. \<lparr>rt_event_id = EV_TICK_1S, rt_target_actor = a, rt_qos = EV_ROUTE_QOS_CRITICAL, rt_priority = 0, rt_flags = 0\<rparr>);
          add = (\<lambda>a st rc t. the (snd (ev_active_route_table_add (Some t) (Some (r a)) st rc)))
      in add ACT_NETWORK EV_ACTIVE_ROUTE_OPTIONAL_DISABLED EV_ERR_NO_CAPABILITY
           (add ACT_APP EV_ACTIVE_ROUTE_ENABLED EV_OK zero_active_routes))"

definition demo_graph :: "unit ev_graph" where
  "demo_graph = \<lparr>sy_mailbox = (\<lambda>_. demo_fifo_2), sy_runtime = sy_runtime demo_sys, sy_registry = sy_registry demo_sys,
     sy_domain = sy_domain demo_sys, sy_system = sy_system demo_sys,
     sy_world = (zero_services ())\<lparr>sv_active_routes_bound := 1, sv_ports := demo_graph_ports,
        sv_active_routes := the (snd (ev_active_route_table_finalize_spans (Some demo_graph_routes)))\<rparr>\<rparr>"

theorem delivery_follows_routes_witness:
  "\<exists>rep s'. ev_delivery_publish demo_graph_env (Some demo_graph) (Some (demo_msg EV_TICK_1S))
       = (EV_OK, Some rep, Some s')
     \<and> dr_attempted rep = 1 \<and> dr_optional_disabled_routes rep = 1 \<and> dr_delivered rep + dr_dropped rep = 2
     \<and> (\<forall>k. sy_mailbox s' k \<noteq> sy_mailbox demo_graph k \<longrightarrow> k = 0)"
proof -
  let ?T = "sv_active_routes (services demo_graph)" and ?m = "demo_msg EV_TICK_1S"
  have closed: "payload_closed (env_lc demo_graph_env) (\<lambda>v. sv_active_routes v = ?T)"
    by unfold_locales (simp_all add: demo_graph_env_def)
  have fin: "ev_active_route_table_finalize_spans (Some demo_graph_routes) = (EV_OK, Some ?T)"
    and wf: "active_wf demo_graph_routes"
    and es: "planned_entries demo_graph (msg_event_id ?m) = active_entries ?T" "length (active_entries ?T) = 2"
      "length (filter route_enabled (active_entries ?T)) = 1"
      "length (filter route_optional_disabled (active_entries ?T)) = 1"
      "filter route_rejected (active_entries ?T) = []"
      "list_all (\<lambda>e. route_enabled e \<longrightarrow> mailbox_of demo_graph (rt_target_actor (ae_route e)) = Some 0) (active_entries ?T)"
    by code_simp+
  have ok: "fst (ev_delivery_publish demo_graph_env (Some demo_graph) (Some ?m)) = EV_OK" by code_simp
  then obtain rep s' where p: "ev_delivery_publish demo_graph_env (Some demo_graph) (Some ?m)
      = (EV_OK, Some rep, Some s')"
    by (cases "ev_delivery_publish demo_graph_env (Some demo_graph) (Some ?m)")
      (auto simp: ev_delivery_publish_def Let_def split: prod.splits if_splits)
  have rs: "reasons_given (active_entries ?T)" using es(5) by (auto simp: reasons_given_def filter_empty_conv)
  have "active_ready ?T" by (rule finalize_ready [OF wf fin])
  from delivery_follows_routes [OF closed this rs p] show ?thesis
    using p es by (auto simp: Let_def walk_frame_def list_all_iff)
qed

end
