(* ===== verification/EvScheduler.thy ===== *)
theory EvScheduler
  imports EvDelivery
begin

text \<open>
  The scheduler of a runtime graph (\<open>runtime/src/ev_runtime_scheduler.c\<close>), the graph's views of it
  (\<open>runtime/src/ev_runtime_graph.c\<close>) and the poll of one step: fire the due timers, then run the system
  pump (\<open>runtime/src/ev_runtime_poll.c\<close>). The scheduler of a graph is its scheduler record, its system pump
  (address 0) and its domain pumps (domain \<open>d\<close> at address \<open>d\<close>).
\<close>

section \<open>Operations\<close>

definition EV_RUNTIME_DOMAIN_MASK :: "ev_execution_domain \<Rightarrow> u32" where
  "EV_RUNTIME_DOMAIN_MASK domain = push_bit (nat domain) 1"

definition zero_domain_pump :: ev_domain_pump where
  "zero_domain_pump = \<lparr>dp_registry = None, dp_domain = 0, dp_next_actor_index = 0, dp_stats = zero_dp_stats\<lparr>ds_last_actor := 0\<rparr>\<rparr>"

definition zero_system_pump :: ev_system_pump where
  "zero_system_pump = \<lparr>sm_slots = replicate (nat EV_DOMAIN_COUNT) None, sm_next_domain_index = 0,
     sm_stats = zero_sm_stats\<lparr>ss_last_domain := 0\<rparr>\<rparr>"

text \<open>What \<open>memset\<close> does to a scheduler.\<close>

definition zero_scheduler :: "'u ev_graph \<Rightarrow> 'u ev_graph" where
  "zero_scheduler s = upd_services (\<lambda>v. v\<lparr>sv_scheduler := \<lparr>sc_active_domain_mask = 0, sc_poll_calls = 0, sc_partial_returns = 0\<rparr>\<rparr>)
     (s\<lparr>sy_domain := (\<lambda>d. if d < nat EV_DOMAIN_COUNT then zero_domain_pump else sy_domain s d),
        sy_system := (sy_system s)(graph_system := zero_system_pump)\<rparr>)"

text \<open>The loop of \<open>ev_runtime_scheduler_init\<close>: \<open>n\<close> more domains from \<open>domain\<close>.\<close>

primrec scheduler_bind_loop :: "ptr \<Rightarrow> u32 \<Rightarrow> nat \<Rightarrow> nat \<Rightarrow> 'u ev_graph \<Rightarrow> ev_result \<times> 'u ev_graph" where
  "scheduler_bind_loop registry active domain 0 s = (EV_OK, s)"
| "scheduler_bind_loop registry active domain (Suc n) s =
     (if active = 0 \<or> active AND EV_RUNTIME_DOMAIN_MASK (int domain) \<noteq> 0
      then
        let (rc, s1) = ev_domain_pump_init (Some domain) registry (int domain) s
        in if rc \<noteq> EV_OK then (rc, s1)
           else let (rc, s2) = ev_system_pump_bind (Some graph_system) (Some domain) s1
                in if rc \<noteq> EV_OK then (rc, s2) else scheduler_bind_loop registry active (Suc domain) n s2
      else scheduler_bind_loop registry active (Suc domain) n s)"

definition ev_runtime_scheduler_init ::
    "'u ev_graph option \<Rightarrow> ptr \<Rightarrow> u32 \<Rightarrow> ev_result \<times> 'u ev_graph option" where
  "ev_runtime_scheduler_init scheduler registry active_domain_mask =
     (case scheduler of None \<Rightarrow> (EV_ERR_INVALID_ARG, None)
      | Some s \<Rightarrow>
        if registry = None then (EV_ERR_INVALID_ARG, scheduler)
        else
          let s1 = upd_services (\<lambda>v. v\<lparr>sv_scheduler := (sv_scheduler v)\<lparr>sc_active_domain_mask := active_domain_mask\<rparr>\<rparr>)
                     (zero_scheduler s);
              (rc, s2) = ev_system_pump_init (Some graph_system) s1
          in if rc \<noteq> EV_OK then (rc, Some s2)
             else let (rc, s3) = scheduler_bind_loop registry active_domain_mask 0 (nat EV_DOMAIN_COUNT) s2
                  in (rc, Some s3))"

text \<open>
  The report is the object the caller passed, if any; the pump writes it unless it refuses to run, and
  then it keeps what the caller left in it.
\<close>

definition ev_runtime_scheduler_poll_once ::
    "'u ev_services ev_env \<Rightarrow> 'u ev_graph option \<Rightarrow> nat \<Rightarrow> ev_system_pump_report option
       \<Rightarrow> ev_result \<times> ev_system_pump_report option \<times> 'u ev_graph option" where
  "ev_runtime_scheduler_poll_once env scheduler turn_budget out_report =
     (case scheduler of None \<Rightarrow> (EV_ERR_INVALID_ARG, out_report, None)
      | Some s \<Rightarrow>
        let s1 = upd_services (\<lambda>v. v\<lparr>sv_scheduler := (sv_scheduler v)\<lparr>sc_poll_calls := sc_poll_calls (sv_scheduler v) + 1\<rparr>\<rparr>) s;
            (rc, rep, s2) = ev_system_pump_run env (Some graph_system) turn_budget s1;
            out = (case out_report of None \<Rightarrow> None | Some old \<Rightarrow> Some (case rep of None \<Rightarrow> old | Some r \<Rightarrow> r))
        in if out \<noteq> None \<and> spr_exhausted_turn_budget (the out)
           then (EV_ERR_PARTIAL, out, Some (upd_services
                  (\<lambda>v. v\<lparr>sv_scheduler := (sv_scheduler v)\<lparr>sc_partial_returns := sc_partial_returns (sv_scheduler v) + 1\<rparr>\<rparr>) s2))
           else (rc, out, Some s2))"

definition ev_runtime_scheduler_pending :: "'u ev_graph option \<Rightarrow> nat" where
  "ev_runtime_scheduler_pending scheduler =
     (case scheduler of None \<Rightarrow> 0 | Some s \<Rightarrow> ev_system_pump_pending s (Some graph_system))"

subsection \<open>The graph's views\<close>

definition ev_runtime_graph_system_pump_bound_count :: "'u ev_graph option \<Rightarrow> nat" where
  "ev_runtime_graph_system_pump_bound_count graph =
     (case graph of None \<Rightarrow> 0 | Some s \<Rightarrow> ev_system_pump_bound_count s (Some graph_system))"

definition ev_runtime_graph_scheduler_poll_count :: "'u ev_graph option \<Rightarrow> u32" where
  "ev_runtime_graph_scheduler_poll_count graph =
     (case graph of None \<Rightarrow> 0 | Some s \<Rightarrow> sc_poll_calls (sv_scheduler (services s)))"

definition ev_runtime_graph_scheduler_pending :: "'u ev_graph option \<Rightarrow> nat" where
  "ev_runtime_graph_scheduler_pending graph =
     (case graph of None \<Rightarrow> 0 | Some s \<Rightarrow> ev_runtime_scheduler_pending (Some s))"

definition ev_runtime_graph_poll_scheduler_once ::
    "'u ev_services ev_env \<Rightarrow> 'u ev_graph option \<Rightarrow> nat \<Rightarrow> ev_system_pump_report option
       \<Rightarrow> ev_result \<times> ev_system_pump_report option \<times> 'u ev_graph option" where
  "ev_runtime_graph_poll_scheduler_once env graph turn_budget out_report =
     (case graph of None \<Rightarrow> (EV_ERR_INVALID_ARG, out_report, None)
      | Some s \<Rightarrow> ev_runtime_scheduler_poll_once env (Some s) turn_budget out_report)"

definition ev_runtime_graph_system_pump_stats :: "'u ev_graph option \<Rightarrow> ev_system_pump_stats option" where
  "ev_runtime_graph_system_pump_stats graph =
     (case graph of None \<Rightarrow> None | Some s \<Rightarrow> ev_system_pump_stats_of s (Some graph_system))"

definition ev_runtime_graph_domain_pump_stats ::
    "'u ev_graph option \<Rightarrow> ev_execution_domain \<Rightarrow> ev_domain_pump_stats option" where
  "ev_runtime_graph_domain_pump_stats graph domain =
     (case graph of None \<Rightarrow> None
      | Some s \<Rightarrow> if unat (word_of_int domain :: u32) < nat EV_DOMAIN_COUNT
                  then ev_domain_pump_stats_of s (Some (nat domain)) else None)"

definition ev_runtime_graph_domain_pending :: "'u ev_graph option \<Rightarrow> ev_execution_domain \<Rightarrow> nat" where
  "ev_runtime_graph_domain_pending graph domain =
     (case graph of None \<Rightarrow> 0
      | Some s \<Rightarrow> if unat (word_of_int domain :: u32) < nat EV_DOMAIN_COUNT
                  then ev_domain_pump_pending s (Some (nat domain)) else 0)"

text \<open>
  Due timers are published through a function that works on the graph. Deliveries do not read the timer
  service, which is put back when the pass is over.
\<close>

definition ev_runtime_graph_publish_due_timers ::
    "'u ev_graph option \<Rightarrow> u32 \<Rightarrow> 'u ev_graph ev_timer_publish_fn option \<Rightarrow> nat \<Rightarrow> nat \<times> 'u ev_graph option" where
  "ev_runtime_graph_publish_due_timers graph now_ms deliver max_publish =
     (case graph of None \<Rightarrow> (0, None)
      | Some s \<Rightarrow>
        let (n, t, s1) = ev_timer_publish_due (Some (sv_timer_service (services s))) now_ms deliver max_publish s
        in (n, Some (upd_services (\<lambda>v. v\<lparr>sv_timer_service := the t\<rparr>) s1)))"

subsection \<open>One poll\<close>

record ev_runtime_poll_report =
  pr_timers_published :: nat
  pr_actors_pumped :: nat
  pr_domains_pumped :: nat
  pr_messages_processed :: nat
  pr_last_result :: ev_result

definition ev_runtime_timer_delivery :: "'u ev_services ev_env \<Rightarrow> 'u ev_graph ev_timer_publish_fn" where
  "ev_runtime_timer_delivery env target_actor msg s =
     (let (rc, g) = ev_runtime_graph_send env (Some s) target_actor (Some msg) in (rc, the g))"

definition ev_runtime_poll_once ::
    "'u ev_services ev_env \<Rightarrow> 'u ev_graph option \<Rightarrow> u32 \<Rightarrow> nat
       \<Rightarrow> ev_result \<times> ev_runtime_poll_report option \<times> 'u ev_graph option" where
  "ev_runtime_poll_once env graph now_ms actor_budget =
     (case graph of None \<Rightarrow> (EV_ERR_INVALID_ARG, None, None)
      | Some s \<Rightarrow>
        let (published, g1) = ev_runtime_graph_publish_due_timers (Some s) now_ms
              (Some (ev_runtime_timer_delivery env)) EV_TIMER_SERVICE_CAPACITY;
            (rc, rep, g2) = ev_runtime_scheduler_poll_once env g1 actor_budget
              (Some (ev_system_pump_report_reset\<lparr>spr_last_domain := 0\<rparr>));
            system_report = the rep;
            local = \<lparr>pr_timers_published = published, pr_actors_pumped = spr_turns_processed system_report,
              pr_domains_pumped = spr_domains_pumped system_report,
              pr_messages_processed = spr_messages_processed system_report,
              pr_last_result = (if rc = EV_ERR_EMPTY then EV_OK else rc)\<rparr>
        in (if rc = EV_ERR_EMPTY then EV_OK else rc, Some local, g2))"

section \<open>A graph in order\<close>

text \<open>
  The node of a graph: the system pump and its domains are in order and share the graph's registry, some
  domain is bound, every registered actor has a FIFO mailbox of its own, and its domain is bound.
\<close>

definition fifo_actor :: "'w ev_sys \<Rightarrow> nat \<Rightarrow> bool" where
  "fifo_actor s r \<longleftrightarrow> mb_kind (actor_mailbox s r) = EV_MAILBOX_FIFO_8 \<or> mb_kind (actor_mailbox s r) = EV_MAILBOX_FIFO_16"

definition graph_node :: "'w ev_sys \<Rightarrow> bool" where
  "graph_node s \<longleftrightarrow> system_wf s graph_system \<and> node_wf s graph_registry
     \<and> (\<forall>i<nat EV_DOMAIN_COUNT. \<forall>d. system_slot s graph_system i = Some d \<longrightarrow> dp_registry (sy_domain s d) = Some graph_registry)
     \<and> ev_system_pump_bound_count s (Some graph_system) \<noteq> 0
     \<and> (\<forall>a r. ev_actor_registry_find s (Some graph_registry) a = Some r \<longrightarrow> ar_actor_id (sy_runtime s r) = a
          \<and> fifo_actor s r
          \<and> system_slot s graph_system (nat (am_execution_domain (the (ev_actor_meta a)))) \<noteq> None)"

lemma find_valid: "ev_actor_registry_find s pr a = Some r \<Longrightarrow> ev_actor_id_is_valid a"
  by (auto simp: ev_actor_registry_find_def split: option.splits if_splits)

lemma meta_valid:
  assumes "ev_actor_id_is_valid a"
  obtains meta where "ev_actor_meta a = Some meta" and "0 \<le> am_execution_domain meta" and "am_execution_domain meta < EV_DOMAIN_COUNT"
proof -
  have "list_all (\<lambda>i. case ev_actor_meta (int i) of None \<Rightarrow> False
      | Some meta \<Rightarrow> 0 \<le> am_execution_domain meta \<and> am_execution_domain meta < EV_DOMAIN_COUNT) [0..<nat EV_ACTOR_COUNT]"
    by code_simp
  moreover obtain i where "i < nat EV_ACTOR_COUNT" "a = int i"
    using assms nonneg_int_cases [of a] by (auto simp: ev_actor_id_is_valid_iff)
  ultimately have "case ev_actor_meta a of None \<Rightarrow> False
      | Some meta \<Rightarrow> 0 \<le> am_execution_domain meta \<and> am_execution_domain meta < EV_DOMAIN_COUNT"
    by (auto simp: list_all_iff)
  then show thesis using that by (auto split: option.splits)
qed

text \<open>A change of one actor's queue is a change of its domain's load.\<close>

lemma actor_load_find:
  assumes "j < ev_actor_count" and "dp_registry (sy_domain s d) = Some g"
  shows "actor_load s d j = (if ev_domain_pump_actor_matches (int j) (dp_domain (sy_domain s d))
     then ev_actor_runtime_pending s (ev_actor_registry_find s (Some g) (int j)) else 0)"
  using slot_find [OF assms] by (simp add: actor_load_def)

lemma queue_step_load:
  fixes s s' :: "'w ev_sys"
  assumes node: "graph_node s" and node': "graph_node s'"
    and fr: "sy_domain s' = sy_domain s" "sy_system s' = sy_system s"
      "\<And>b. ev_actor_registry_find s' (Some graph_registry) b = ev_actor_registry_find s (Some graph_registry) b"
    and fnd: "ev_actor_registry_find s (Some graph_registry) a = Some r"
    and len: "length (actor_queue s' r) = length (actor_queue s r) + k"
    and others: "\<And>b q. ev_actor_registry_find s (Some graph_registry) b = Some q \<Longrightarrow> b \<noteq> a
          \<Longrightarrow> actor_queue s' q = actor_queue s q"
  shows "system_load s' graph_system = system_load s graph_system + k"
proof -
  have va: "ev_actor_id_is_valid a" by (rule find_valid [OF fnd])
  obtain meta where meta: "ev_actor_meta a = Some meta" "0 \<le> am_execution_domain meta"
      "am_execution_domain meta < EV_DOMAIN_COUNT" by (rule meta_valid [OF va])
  let ?i = "nat (am_execution_domain meta)"
  obtain d where d: "system_slot s graph_system ?i = Some d"
    using node fnd meta(1) by (fastforce simp: graph_node_def)
  have i: "?i < nat EV_DOMAIN_COUNT" using meta by simp
  have slots: "system_slot s' graph_system = system_slot s graph_system" using fr by (simp add: system_slot_def [abs_def])
  have pend: "ev_actor_runtime_pending t (ev_actor_registry_find s (Some graph_registry) b)
      = (case ev_actor_registry_find s (Some graph_registry) b of None \<Rightarrow> 0 | Some q \<Rightarrow> length (actor_queue t q))"
    if "t = s \<or> t = s'" for t b
  proof (cases "ev_actor_registry_find s (Some graph_registry) b")
    case (Some q)
    then have "actor_wf s q" "actor_wf s' q"
      using node node' fr(3) by (auto simp: graph_node_def node_wf_def)
    then show ?thesis using actor_pending(1) [of t q] that Some by auto
  qed (simp add: ev_actor_runtime_pending_def)
  have reg: "dp_registry (sy_domain s e) = Some graph_registry" "dp_domain (sy_domain s e) = int j"
    if "system_slot s graph_system j = Some e" "j < nat EV_DOMAIN_COUNT" for j e
    using node that system_wf_slot(2) [of s graph_system j e] by (auto simp: graph_node_def)
  have same: "actor_load s' e l = actor_load s e l"
    if e: "dp_registry (sy_domain s e) = Some graph_registry" and l: "l < ev_actor_count"
      and ne: "int l \<noteq> a \<or> \<not> ev_domain_pump_actor_matches a (dp_domain (sy_domain s e))" for e l
  proof -
    have e': "dp_registry (sy_domain s' e) = Some graph_registry" using e fr by simp
    show ?thesis
      unfolding actor_load_find [OF l e] actor_load_find [OF l e'] fr
      using pend ne others [of "int l"] by (cases "int l = a") (auto split: option.split)
  qed
  have "slot_load s' graph_system ?i = slot_load s graph_system ?i + k"
  proof -
    note e = reg [OF d i]
    have e': "dp_registry (sy_domain s' d) = Some graph_registry" using e fr by simp
    have l: "nat a < ev_actor_count" "int (nat a) = a" using va by (auto simp: ev_actor_id_is_valid_iff)
    have m: "ev_domain_pump_actor_matches a (dp_domain (sy_domain s d))"
      using meta e(2) by (simp add: ev_domain_pump_actor_matches_def)
    have "actor_load s' d (nat a) = actor_load s d (nat a) + k"
      unfolding actor_load_find [OF l(1) e(1)] actor_load_find [OF l(1) e'] fr l(2)
      using pend [of s a] pend [of s' a] m fnd len by simp
    then have "domain_load s' d = domain_load s d + k"
      unfolding domain_load_def
    proof (intro sum_list_upt_change [OF l(1)])
      show "actor_load s' d j = actor_load s d j" if "j < ev_actor_count" "j \<noteq> nat a" for j
        using same [OF e(1) that(1)] that(2) by fastforce
    qed
    then show ?thesis using d by (simp add: slot_load_def slots)
  qed
  moreover have "slot_load s' graph_system j = slot_load s graph_system j"
    if j: "j < nat EV_DOMAIN_COUNT" "j \<noteq> ?i" for j
  proof (cases "system_slot s graph_system j")
    case (Some e)
    note E = reg [OF Some j(1)]
    have "\<not> ev_domain_pump_actor_matches a (dp_domain (sy_domain s e))"
      using meta E(2) j by (auto simp: ev_domain_pump_actor_matches_def)
    then have "actor_load s' e l = actor_load s e l" if "l < ev_actor_count" for l using same [OF E(1) that] by blast
    then have "domain_load s' e = domain_load s e"
      unfolding domain_load_def by (intro arg_cong [where f = sum_list] map_cong) auto
    then show ?thesis using Some by (simp add: slot_load_def slots)
  qed (simp add: slot_load_def slots)
  ultimately show ?thesis
    unfolding system_load_def by (intro sum_list_upt_change [OF i]) auto
qed

text \<open>What one delivery does to a graph in order.\<close>

lemma watermark_pump_frames [simp]:
  "sy_domain (ev_actor_runtime_record_pending_high_watermark r s) = sy_domain s"
  "sy_system (ev_actor_runtime_record_pending_high_watermark r s) = sy_system s"
  by (simp_all add: ev_actor_runtime_record_pending_high_watermark_def Let_def split: option.splits)

lemma delivery_sys_frames:
  assumes "ev_actor_registry_delivery_impl env target pm qos want (Some g) s = (rc, rep, s')"
  shows "sy_domain s' = sy_domain s \<and> sy_system s' = sy_system s"
  using assms by (auto simp: ev_actor_registry_delivery_impl_def Let_def split: prod.splits if_splits option.splits)

lemma unbound_frames:
  assumes "ev_actor_registry_find s (Some g) target = None"
    and "ev_actor_registry_delivery_impl env target (Some m) qos want (Some g) s = (rc, rep, s')"
  shows "rc = EV_ERR_NOT_FOUND \<and> sy_mailbox s' = sy_mailbox s \<and> sy_runtime s' = sy_runtime s
     \<and> (\<forall>h. rg_slots (sy_registry s' h) = rg_slots (sy_registry s h))"
  using assms by (auto simp: ev_actor_registry_delivery_impl_def Let_def)

text \<open>A graph's order depends on its bindings, the kinds and well-formedness of mailboxes and the pumps.\<close>

lemma graph_node_cong:
  assumes node: "graph_node s"
    and "sy_domain s' = sy_domain s" "sy_system s' = sy_system s"
    and "\<And>q. same_actor s s' q" "rg_slots (sy_registry s' graph_registry) = rg_slots (sy_registry s graph_registry)"
    and mb: "\<And>a r. ev_actor_registry_find s (Some graph_registry) a = Some r \<Longrightarrow>
          mailbox_wf (actor_mailbox s' r) \<and> mb_kind (actor_mailbox s' r) = mb_kind (actor_mailbox s r)"
  shows "graph_node s'"
proof -
  have fnd: "ev_actor_registry_find s' (Some graph_registry) a = ev_actor_registry_find s (Some graph_registry) a" for a
    using assms(5) by (simp add: ev_actor_registry_find_def)
  have slots: "system_slot s' graph_system = system_slot s graph_system" using assms(3) by (simp add: system_slot_def [abs_def])
  have awf: "actor_wf s' r" if "ev_actor_registry_find s (Some graph_registry) a = Some r" for a r
    using node that mb [OF that] assms(4) [of r]
    by (auto simp: graph_node_def node_wf_def actor_wf_def same_actor_def actor_mailbox_def)
  have nw: "node_wf s' graph_registry"
    using node awf fnd assms(4,5) by (simp add: graph_node_def node_wf_def registry_wf_def same_actor_def)
  have ids: "ar_actor_id (sy_runtime s' r) = a \<and> fifo_actor s' r"
    if "ev_actor_registry_find s (Some graph_registry) a = Some r" for a r
    using node that mb [OF that] assms(4) [of r] by (auto simp: graph_node_def same_actor_def fifo_actor_def)
  have reg: "dp_registry (sy_domain s d) = Some graph_registry"
    if "system_slot s graph_system i = Some d" "i < nat EV_DOMAIN_COUNT" for i d
    using node that by (simp add: graph_node_def)
  have dwf: "domain_wf s' d" if "system_slot s graph_system i = Some d" "i < nat EV_DOMAIN_COUNT" for i d
  proof -
    have "domain_wf s d" using node that system_wf_slot(1) by (auto simp: graph_node_def)
    then show ?thesis using nw ids fnd reg [OF that] assms(2) by (auto simp: domain_wf_def)
  qed
  have "system_wf s' graph_system"
    using node dwf slots assms(2,3) unfolding graph_node_def system_wf_def by auto
  moreover have "ev_system_pump_bound_count s' (Some graph_system) = ev_system_pump_bound_count s (Some graph_system)"
    by (simp add: ev_system_pump_bound_count_def slots)
  ultimately show ?thesis
    using node nw ids unfolding graph_node_def fnd slots assms(2) by simp
qed

lemma delivery_graph_node:
  assumes node: "graph_node s"
    and d: "ev_actor_registry_delivery_impl env target (Some m) qos want (Some graph_registry) s = (rc, rep, s')"
  shows "graph_node s' \<and> (rc = EV_OK \<longrightarrow> qos = EV_ROUTE_QOS_CRITICAL \<longrightarrow>
            system_load s' graph_system = system_load s graph_system + 1)
     \<and> (rc \<noteq> EV_OK \<longrightarrow> system_load s' graph_system = system_load s graph_system)"
proof (cases "ev_actor_registry_find s (Some graph_registry) target")
  case None
  note fr = unbound_frames [OF None d] delivery_sys_frames [OF d]
  have mb: "actor_mailbox s' q = actor_mailbox s q" for q using fr by (simp add: actor_mailbox_def)
  have wfm: "mailbox_wf (actor_mailbox s q)" if "ev_actor_registry_find s (Some graph_registry) a = Some q" for a q
    using node that by (auto simp: graph_node_def node_wf_def actor_wf_def actor_mailbox_def)
  have node': "graph_node s'"
    by (rule graph_node_cong [OF node]) (use fr mb wfm in \<open>auto simp: same_actor_def\<close>)
  have "slot_load s' graph_system i = slot_load s graph_system i" for i
  proof -
    have "ev_actor_runtime_pending s' q = ev_actor_runtime_pending s q" for q
      using fr by (simp add: ev_actor_runtime_pending_def runtime_mailbox_def split: option.split)
    then have "actor_load s' e = actor_load s e" for e
      using fr by (simp add: fun_eq_iff actor_load_def domain_slot_def)
    then have "domain_load s' e = domain_load s e" for e by (simp add: domain_load_def)
    then show ?thesis using fr by (simp add: slot_load_def system_slot_def split: option.split)
  qed
  then have "slot_load s' graph_system = slot_load s graph_system" by (simp add: fun_eq_iff)
  then show ?thesis using node' fr by (simp add: system_load_def)
next
  case (Some r)
  have wf: "actor_wf s r" and fifo: "fifo_actor s r" using node Some by (simp_all add: graph_node_def node_wf_def)
  then have wfm: "mailbox_wf (actor_mailbox s r)" by (simp add: actor_wf_def actor_mailbox_def)
  obtain k where k: "ar_mailbox (sy_runtime s r) = Some k" using wf by (auto simp: actor_wf_def)
  obtain rc1 rep1 mb' w' where p: "mailbox_push_qos (env_lc env) (actor_mailbox s r) m qos (sy_world s)
      = (rc1, rep1, mb', w')" by (rule prod_cases4)
  note R = mailbox_push_qos_refines [OF wfm p]
  obtain s1 where run: "ev_actor_registry_delivery_impl env target (Some m) qos want (Some graph_registry) s = (rc1, rep1, s1)"
    and mb: "sy_mailbox s1 = (sy_mailbox s)(the (ar_mailbox (sy_runtime s r)) := mb')"
    and same: "\<And>q. same_actor s s1 q"
    and slots: "rg_slots (sy_registry s1 graph_registry) = rg_slots (sy_registry s graph_registry)"
    by (rule delivery_eq_all [OF Some wf p, of want]) (rule that)
  have eq: "rc = rc1" "s' = s1" using d run by simp_all
  note fr = delivery_sys_frames [OF run]
  have fnd: "ev_actor_registry_find s1 (Some graph_registry) a = ev_actor_registry_find s (Some graph_registry) a" for a
    using slots by (simp add: ev_actor_registry_find_def)
  have am: "actor_mailbox s1 q = (if q = r then mb' else actor_mailbox s q)"
    if q: "ev_actor_registry_find s (Some graph_registry) a = Some q" for a q
  proof -
    have "ar_mailbox (sy_runtime s1 q) = ar_mailbox (sy_runtime s q)" using same by (simp add: same_actor_def)
    moreover have "ar_mailbox (sy_runtime s q) \<noteq> None" using q node by (auto simp: graph_node_def node_wf_def actor_wf_def)
    moreover have "q \<noteq> r \<Longrightarrow> ar_mailbox (sy_runtime s q) \<noteq> ar_mailbox (sy_runtime s r)"
      using q Some node unfolding graph_node_def node_wf_def by (metis option.inject)
    ultimately show ?thesis using mb k by (auto simp: actor_mailbox_def)
  qed
  have wfs: "mailbox_wf (actor_mailbox s q)" if "ev_actor_registry_find s (Some graph_registry) a = Some q" for a q
    using node that by (auto simp: graph_node_def node_wf_def actor_wf_def actor_mailbox_def)
  have node': "graph_node s1"
    by (rule graph_node_cong [OF node _ _ same slots]) (use fr am R wfs in auto)
  have queues: "actor_queue s1 q = actor_queue s q" if "ev_actor_registry_find s (Some graph_registry) b = Some q" "b \<noteq> target" for b q
  proof -
    have "q \<noteq> r" using that Some node unfolding graph_node_def by metis
    then show ?thesis using am [OF that(1)] by (simp add: actor_queue_def)
  qed
  have load: "system_load s1 graph_system = system_load s graph_system + n"
    if "length (actor_queue s1 r) = length (actor_queue s r) + n" for n
    by (rule queue_step_load [OF node node' _ _ fnd Some that queues]) (use fr in auto)
  have q: "actor_queue s1 r = (if rc1 = EV_OK then spec_push_qos (mb_kind (actor_mailbox s r)) qos (actor_queue s r) m
      else actor_queue s r)"
    using am [OF Some] R by (simp add: actor_queue_def)
  have "system_load s1 graph_system = system_load s graph_system + 1" if "rc1 = EV_OK" "qos = EV_ROUTE_QOS_CRITICAL"
    using load [of 1] q that fifo by (auto simp: spec_push_qos_def fifo_actor_def)
  moreover have "system_load s1 graph_system = system_load s graph_system" if "rc1 \<noteq> EV_OK"
    using load [of 0] q that by simp
  ultimately show ?thesis using node' eq by simp
qed

section \<open>One step of the graph\<close>

lemma services_frames [simp]:
  "system_load (upd_services f s) y = system_load s y"
  "graph_node (upd_services f s) = graph_node s"
proof -
  have p: "ev_actor_runtime_pending (upd_services f s) r = ev_actor_runtime_pending s r" for r
    by (simp add: ev_actor_runtime_pending_def runtime_mailbox_def split: option.split)
  then have al: "actor_load (upd_services f s) = actor_load s" by (simp add: fun_eq_iff actor_load_def domain_slot_def)
  have d: "domain_load (upd_services f s) = domain_load s" by (rule ext) (simp only: domain_load_def al)
  have sl: "system_slot (upd_services f s) = system_slot s" by (simp add: fun_eq_iff system_slot_def)
  have "slot_load (upd_services f s) y = slot_load s y" by (rule ext) (simp only: slot_load_def d sl)
  then show "system_load (upd_services f s) y = system_load s y" by (simp only: system_load_def)
  have "ev_actor_registry_find (upd_services f s) q a = ev_actor_registry_find s q a" for q a
    by (simp add: ev_actor_registry_find_def split: option.split)
  then show "graph_node (upd_services f s) = graph_node s"
    by (simp add: graph_node_def system_wf_def domain_wf_def node_wf_def actor_wf_def fifo_actor_def actor_mailbox_def
        ev_system_pump_bound_count_def sl)
qed

lemma timer_delivery_node:
  assumes "graph_node s" and "ev_runtime_timer_delivery env target m s = (rc, s')"
  shows "graph_node s' \<and> system_load s' graph_system = system_load s graph_system + (if rc = EV_OK then 1 else 0)"
proof (cases "ev_actor_id_is_valid target")
  case False
  then show ?thesis using assms by (auto simp: ev_runtime_timer_delivery_def ev_runtime_graph_send_def)
next
  case True
  obtain rep where "ev_actor_registry_delivery_impl env target (Some (m\<lparr>msg_target_actor := target\<rparr>))
      EV_ROUTE_QOS_CRITICAL False (Some graph_registry) s = (rc, rep, s')"
    using assms(2) True
    by (auto simp: ev_runtime_timer_delivery_def ev_runtime_graph_send_def ev_actor_registry_delivery_def
        split: prod.splits)
  from delivery_graph_node [OF assms(1) this] show ?thesis by simp
qed

lemma timer_publications_node:
  "graph_node s \<Longrightarrow> publish_all (ev_runtime_timer_delivery env) ms s = (n, s') \<Longrightarrow>
     graph_node s' \<and> system_load s' graph_system = system_load s graph_system + n"
proof (induction ms arbitrary: s n s')
  case (Cons x ms)
  obtain rc s1 where d: "ev_runtime_timer_delivery env (fst x) (snd x) s = (rc, s1)" by (rule prod.exhaust)
  obtain k s2 where r: "publish_all (ev_runtime_timer_delivery env) ms s1 = (k, s2)" by (rule prod.exhaust)
  note T = timer_delivery_node [OF Cons.prems(1) d]
  show ?case using Cons.IH [OF _ r] T Cons.prems(2) d r by auto
qed simp

lemma publish_due_node:
  assumes node: "graph_node s" and wf: "timers_wf (sv_timer_service (services s))" and m: "0 < m"
    and p: "ev_runtime_graph_publish_due_timers (Some s) now (Some (ev_runtime_timer_delivery env)) m = (n, g)"
  shows "\<exists>s'. g = Some s' \<and> graph_node s' \<and> system_load s' graph_system = system_load s graph_system + n"
proof -
  let ?p = "ev_runtime_timer_delivery env" and ?t = "sv_timer_service (services s)"
  obtain k t' where "ev_timer_publish_due (Some ?t) now (Some ?p) m s
      = (fst (publish_all ?p (due_msgs now (take k (tm_slots ?t))) s), Some t',
         snd (publish_all ?p (due_msgs now (take k (tm_slots ?t))) s))"
    using publish_due_spec [OF wf m, of now ?p s] by blast
  moreover obtain n0 s0 where "publish_all ?p (due_msgs now (take k (tm_slots ?t))) s = (n0, s0)"
    by (rule prod.exhaust)
  ultimately show ?thesis
    using p timer_publications_node [OF node] by (auto simp: ev_runtime_graph_publish_due_timers_def)
qed

lemma graph_node_bindings:
  assumes node: "graph_node s" and same: "same_bindings s s'" and wf: "system_wf s' graph_system"
  shows "graph_node s'"
proof -
  have fnd: "ev_actor_registry_find s' (Some graph_registry) a = ev_actor_registry_find s (Some graph_registry) a" for a
    using same by (simp add: ev_actor_registry_find_def same_bindings_def)
  have slots: "system_slot s' graph_system = system_slot s graph_system"
    using same by (simp add: system_slot_def [abs_def] same_bindings_def)
  have bc: "ev_system_pump_bound_count s' (Some graph_system) = ev_system_pump_bound_count s (Some graph_system)"
    by (simp add: ev_system_pump_bound_count_def slots)
  have "ev_system_pump_bound_count s (Some graph_system) \<noteq> 0" using node unfolding graph_node_def by blast
  then obtain i d where i: "i < nat EV_DOMAIN_COUNT" "system_slot s graph_system i = Some d"
    by (auto simp: ev_system_pump_bound_count_def filter_empty_conv)
  have reg: "dp_registry (sy_domain s' e) = Some graph_registry"
    if "system_slot s graph_system j = Some e" "j < nat EV_DOMAIN_COUNT" for j e
    using that node same by (simp add: graph_node_def same_bindings_def)
  have "domain_wf s' d" using system_wf_slot(1) [OF wf i(1)] i(2) slots by simp
  then have "node_wf s' graph_registry" using reg [OF i(2,1)] by (auto simp: domain_wf_def)
  moreover have "ar_actor_id (sy_runtime s' r) = a \<and> fifo_actor s' r"
    if f: "ev_actor_registry_find s (Some graph_registry) a = Some r" for a r
    using node f same by (auto simp: graph_node_def same_bindings_def same_actor_def fifo_actor_def actor_mailbox_def)
  ultimately show ?thesis
    using wf node reg bc unfolding graph_node_def fnd slots by simp
qed

lemma quiet_run_node:
  assumes node: "graph_node s" and q: "quiet_env env" and b: "0 < b" and load: "0 < system_load s graph_system"
    and run: "ev_system_pump_run env (Some graph_system) b s = (rc, rep, s')"
  shows "graph_node s'"
proof (rule graph_node_bindings [OF node])
  show "same_bindings s s'"
    by (rule system_closed.closed_system_run [OF quiet_bindings_closed [OF q] run same_bindings_refl])
  have "system_wf s graph_system" using node unfolding graph_node_def by blast
  then show "system_wf s' graph_system" using system_run_quiet [OF _ q b load run] by blast
qed

lemma empty_run_node:
  assumes node: "graph_node s" and b: "0 < b" and load: "system_load s graph_system = 0"
    and run: "ev_system_pump_run env (Some graph_system) b s = (rc, rep, s')"
  shows "rc = EV_ERR_EMPTY \<and> (\<exists>r. rep = Some r \<and> spr_messages_processed r = 0 \<and> \<not> spr_exhausted_turn_budget r)
     \<and> graph_node s' \<and> system_load s' graph_system = 0"
proof -
  have wf: "system_wf s graph_system" and bc: "ev_system_pump_bound_count s (Some graph_system) \<noteq> 0"
    using node by (simp_all add: graph_node_def)
  have "ev_system_pump_pending s (Some graph_system) = 0" using system_pending_load [OF wf] load by simp
  then have eq: "rc = EV_ERR_EMPTY" "\<exists>r. rep = Some r \<and> spr_messages_processed r = 0 \<and> \<not> spr_exhausted_turn_budget r"
      "same_bindings s s'" "system_wf s' graph_system" "system_load s' graph_system = 0"
    using run b bc load wf
    by (auto simp: ev_system_pump_run_def ev_system_pump_report_reset_def same_bindings_def same_actor_def
        ev_system_pump_record_call_maxima_def ev_system_pump_record_pending_high_watermark_def Let_def)
  then show ?thesis using graph_node_bindings [OF node eq(3,4)] by simp
qed

text \<open>The poll in terms of the pump's run, when that writes its report.\<close>

abbreviation count_poll :: "'u ev_graph \<Rightarrow> 'u ev_graph" where
  "count_poll \<equiv> upd_services (\<lambda>v. v\<lparr>sv_scheduler := (sv_scheduler v)\<lparr>sc_poll_calls := sc_poll_calls (sv_scheduler v) + 1\<rparr>\<rparr>)"

abbreviation count_partial :: "'u ev_graph \<Rightarrow> 'u ev_graph" where
  "count_partial \<equiv> upd_services (\<lambda>v. v\<lparr>sv_scheduler := (sv_scheduler v)\<lparr>sc_partial_returns := sc_partial_returns (sv_scheduler v) + 1\<rparr>\<rparr>)"

lemma scheduler_poll_eq:
  assumes "ev_system_pump_run env (Some graph_system) b (count_poll s) = (rc, Some r, s2)"
  shows "ev_runtime_scheduler_poll_once env (Some s) b (Some old)
     = (if spr_exhausted_turn_budget r then (EV_ERR_PARTIAL, Some r, Some (count_partial s2)) else (rc, Some r, Some s2))"
  using assms by (simp add: ev_runtime_scheduler_poll_once_def Let_def)

lemma poll_eq:
  assumes d: "ev_runtime_graph_publish_due_timers (Some s) now (Some (ev_runtime_timer_delivery env))
      EV_TIMER_SERVICE_CAPACITY = (n, Some s1)"
    and run: "ev_system_pump_run env (Some graph_system) b (count_poll s1) = (rc, Some r, s2)"
  shows "ev_runtime_poll_once env (Some s) now b =
    (let rc' = (if spr_exhausted_turn_budget r then EV_ERR_PARTIAL else if rc = EV_ERR_EMPTY then EV_OK else rc)
     in (rc', Some \<lparr>pr_timers_published = n, pr_actors_pumped = spr_turns_processed r,
              pr_domains_pumped = spr_domains_pumped r, pr_messages_processed = spr_messages_processed r,
              pr_last_result = rc'\<rparr>,
         Some (if spr_exhausted_turn_budget r then count_partial s2 else s2)))"
  by (simp add: ev_runtime_poll_once_def d scheduler_poll_eq [OF run] Let_def)

lemma poll_node:
  assumes node: "graph_node s" and wf: "timers_wf (sv_timer_service (services s))" and q: "quiet_env env" and b: "0 < b"
    and p: "ev_runtime_poll_once env (Some s) now b = (rc, rep, g)"
  shows "\<exists>r s'. rep = Some r \<and> g = Some s' \<and> graph_node s'
     \<and> system_load s' graph_system + pr_messages_processed r = system_load s graph_system + pr_timers_published r
     \<and> rc = (if 0 < system_load s' graph_system then EV_ERR_PARTIAL else EV_OK)
     \<and> (system_load s graph_system + pr_timers_published r \<le> b \<longrightarrow> system_load s' graph_system = 0)"
proof -
  obtain n g1 where d: "ev_runtime_graph_publish_due_timers (Some s) now (Some (ev_runtime_timer_delivery env))
      EV_TIMER_SERVICE_CAPACITY = (n, g1)" by (rule prod.exhaust)
  obtain s1 where s1: "g1 = Some s1" "graph_node s1" "system_load s1 graph_system = system_load s graph_system + n"
    using publish_due_node [OF node wf _ d] by auto
  define s0 where "s0 = count_poll s1"
  obtain rc2 rep2 s2 where run: "ev_system_pump_run env (Some graph_system) b s0 = (rc2, rep2, s2)"
    by (rule prod_cases3)
  have n1: "graph_node s0" "system_load s0 graph_system = system_load s graph_system + n"
    using s1 by (simp_all add: s0_def)
  note eq = poll_eq [OF d [unfolded s1(1)], folded s0_def]
  show ?thesis
  proof (cases "0 < system_load s0 graph_system")
    case True
    have wf1: "system_wf s0 graph_system" using n1(1) unfolding graph_node_def by blast
    obtain r where R: "rc2 = EV_OK" "rep2 = Some r"
        "system_load s2 graph_system + spr_messages_processed r = system_load s0 graph_system"
        "spr_turns_processed r = b \<or> system_load s2 graph_system = 0" "spr_turns_processed r \<le> spr_messages_processed r"
        "spr_exhausted_turn_budget r \<longleftrightarrow> 0 < system_load s2 graph_system"
      using system_run_quiet [OF wf1 q b True run] by (elim exE conjE) (rule that; assumption)
    note n2 = quiet_run_node [OF n1(1) q b True run]
    define s3 where "s3 = (if spr_exhausted_turn_budget r then count_partial s2 else s2)"
    have s3: "graph_node s3" "system_load s3 graph_system = system_load s2 graph_system" using n2 by (simp_all add: s3_def)
    have out: "g = Some s3" "rc = (if 0 < system_load s3 graph_system then EV_ERR_PARTIAL else EV_OK)"
      "\<exists>r'. rep = Some r' \<and> pr_timers_published r' = n \<and> pr_messages_processed r' = spr_messages_processed r"
      using p [unfolded eq [OF run [unfolded R(2)]] Let_def] R(1,6) s3(2) by (auto simp: s3_def)
    show ?thesis using out s3 R n1(2) by fastforce
  next
    case False
    then have "system_load s0 graph_system = 0" by simp
    from empty_run_node [OF n1(1) b this run] obtain r where R: "rc2 = EV_ERR_EMPTY" "rep2 = Some r"
        "spr_messages_processed r = 0" "\<not> spr_exhausted_turn_budget r" "graph_node s2" "system_load s2 graph_system = 0"
      by blast
    show ?thesis using p eq [OF run [unfolded R(2)]] R n1(2) False by (auto simp: Let_def)
  qed
qed

section \<open>Properties\<close>

text \<open>
  C6: A poll loses nothing and reports what is left. On a graph in order whose handlers act on their own
  state and do not fail, the messages pending after a poll and those it processed are together the ones
  pending before and those the due timers published; the graph stays in order; the poll answers
  \<open>EV_ERR_PARTIAL\<close> exactly when messages are left; and a turn budget of at least the number of messages
  leaves none.
\<close>
theorem poll_conserves_messages:
  assumes "graph_node s" and "timers_wf (sv_timer_service (services s))" and "quiet_env env" and "0 < b"
    and "ev_runtime_poll_once env (Some s) now b = (rc, rep, g)"
  shows "\<exists>r s'. rep = Some r \<and> g = Some s' \<and> graph_node s'
     \<and> system_load s' graph_system + pr_messages_processed r = system_load s graph_system + pr_timers_published r
     \<and> rc = (if 0 < system_load s' graph_system then EV_ERR_PARTIAL else EV_OK)
     \<and> (system_load s graph_system + pr_timers_published r \<le> b \<longrightarrow> system_load s' graph_system = 0)"
  by (rule poll_node [OF assms])

text \<open>A graph with the diagnostics and application actors bound and three messages pending in each.\<close>

definition demo_poll_graph :: "unit ev_graph" where
  "demo_poll_graph = \<lparr>sy_mailbox = sy_mailbox demo_system, sy_runtime = sy_runtime demo_system,
     sy_registry = sy_registry demo_system, sy_domain = sy_domain demo_system, sy_system = sy_system demo_system,
     sy_world = zero_services ()\<rparr>"

lemma system_wf_world:
  fixes s :: "'v ev_sys" and s' :: "'w ev_sys"
  assumes "sy_mailbox s' = sy_mailbox s" "sy_runtime s' = sy_runtime s" "sy_registry s' = sy_registry s"
    "sy_domain s' = sy_domain s" "sy_system s' = sy_system s"
  shows "system_wf s' y \<longleftrightarrow> system_wf s y" and "node_wf s' g \<longleftrightarrow> node_wf s g"
    and "ev_actor_registry_find s' pg a = ev_actor_registry_find s pg a"
    and "system_slot s' y i = system_slot s y i"
proof -
  show f: "ev_actor_registry_find s' pg a = ev_actor_registry_find s pg a" for pg a
    using assms by (simp add: ev_actor_registry_find_def split: option.split)
  show n: "node_wf s' g \<longleftrightarrow> node_wf s g" for g using assms by (simp add: node_wf_def actor_wf_def f)
  show sl: "system_slot s' y i = system_slot s y i" for y i using assms by (simp add: system_slot_def)
  show "system_wf s' y \<longleftrightarrow> system_wf s y" using assms by (simp add: system_wf_def domain_wf_def f n sl)
qed

lemma demo_poll_node: "graph_node demo_poll_graph"
proof -
  have eq: "sy_mailbox demo_poll_graph = sy_mailbox demo_system" "sy_runtime demo_poll_graph = sy_runtime demo_system"
    "sy_registry demo_poll_graph = sy_registry demo_system" "sy_domain demo_poll_graph = sy_domain demo_system"
    "sy_system demo_poll_graph = sy_system demo_system"
    by (simp_all add: demo_poll_graph_def)
  note w = system_wf_world [OF eq]
  have wf: "system_wf demo_poll_graph graph_system" using demo_system_wf by (simp add: w)
  have fe: "ev_actor_registry_find demo_system (Some 0) a = ev_actor_registry_find demo_node (Some 0) a" for a
    by (simp only: demo_system_def ev_actor_registry_find_def option.case ev_sys.ext_inject ev_sys.select_convs ev_sys.update_convs ev_sys.surjective) (simp add: demo_system_def)
  have fnd: "ev_actor_registry_find demo_poll_graph (Some graph_registry) a
      = (if a = ACT_DIAG then Some 0 else if a = ACT_APP then Some 1 else None)" for a
    unfolding w(3) fe using demo_node_find [of a] by (simp only:)
  have d: "am_execution_domain (the (ev_actor_meta ACT_DIAG)) = 2" "am_execution_domain (the (ev_actor_meta ACT_APP)) = 1"
    "mb_kind demo_fifo_2 = EV_MAILBOX_FIFO_8"
    by code_simp+
  have mb: "actor_mailbox demo_poll_graph r = demo_fifo_2"
    "ar_actor_id (sy_runtime demo_poll_graph r) = (if r = 0 then ACT_DIAG else ACT_APP)" for r
    by (simp_all add: actor_mailbox_def demo_poll_graph_def demo_system_def demo_node_def demo_sys_def)
  have sl: "system_slot demo_poll_graph 0 1 = Some 0" "system_slot demo_poll_graph 0 2 = Some 1"
    by (simp_all add: system_slot_def demo_poll_graph_def demo_system_def)
  have "1 \<in> set (filter (\<lambda>i. system_slot demo_poll_graph 0 i \<noteq> None) [0..<nat EV_DOMAIN_COUNT])" using sl by simp
  then have bc: "ev_system_pump_bound_count demo_poll_graph (Some 0) \<noteq> 0"
    unfolding ev_system_pump_bound_count_def option.case length_0_conv by (metis empty_iff empty_set)
  have reg: "dp_registry (sy_domain demo_poll_graph e) = Some graph_registry" for e
    by (simp add: demo_poll_graph_def demo_system_def demo_node_def demo_sys_def)
  have "sy_mailbox demo_system = sy_mailbox demo_node" "sy_runtime demo_system = sy_runtime demo_node"
    "sy_registry demo_system = sy_registry demo_node"
    by (simp_all add: demo_system_def)
  then have "node_wf demo_system 0" using demo_node_wf by (simp add: node_wf_def fe actor_wf_def)
  then have "node_wf demo_poll_graph graph_registry" by (simp add: w)
  then show ?thesis
    using wf d reg mb sl bc by (auto simp: graph_node_def fifo_actor_def fnd split: if_splits)
qed

lemma demo_graph_env_quiet: "quiet_env demo_graph_env"
  unfolding quiet_env_def world_handler_def
  by (rule exI [of _ "\<lambda>f ctx m w. (EV_OK, w)"]) (simp add: demo_graph_env_def)

theorem poll_conserves_messages_witness:
  "\<exists>r s'. ev_runtime_poll_once demo_graph_env (Some demo_poll_graph) 10 6 = (EV_OK, Some r, Some s')
     \<and> pr_messages_processed r = 6 \<and> system_load s' graph_system = 0"
proof -
  obtain rc rep g where p: "ev_runtime_poll_once demo_graph_env (Some demo_poll_graph) 10 6 = (rc, rep, g)"
    by (rule prod_cases3)
  have t: "timers_wf (sv_timer_service (services demo_poll_graph))"
    by (simp add: services_def demo_poll_graph_def zero_services_def zero_timers_wf)
  have l: "system_load demo_poll_graph graph_system = 6" by code_simp
  have n: "fst (ev_runtime_graph_publish_due_timers (Some demo_poll_graph) 10
      (Some (ev_runtime_timer_delivery demo_graph_env)) EV_TIMER_SERVICE_CAPACITY) = 0" by code_simp
  have "pr_timers_published (the rep) = 0" using p n
    by (auto simp: ev_runtime_poll_once_def Let_def split: prod.splits)
  then show ?thesis
    using poll_conserves_messages [OF demo_poll_node t demo_graph_env_quiet _ p] p l by auto
qed

end
