(* ===== verification/EvQuiescence.thy ===== *)
theory EvQuiescence
  imports EvScheduler
begin

text \<open>
  The quiescence service (\<open>runtime/src/ev_quiescence_service.c\<close>): may the node sleep now? It counts what
  is pending in the graph, asks the actors, applies the policy of the caller and answers with a report.
  The quiescence functions of actor instances and the log port are code of the application and platform
  (fields of the graph's services); they work on the application's state.
\<close>

section \<open>Policies\<close>

datatype ev_quiescence_buffer_policy =
    EV_QUIESCENCE_BUFFER_BLOCK_NEVER
  | EV_QUIESCENCE_BUFFER_BLOCK_UNTIL_DRAINED
  | EV_QUIESCENCE_BUFFER_BLOCK_CRITICAL_ONLY

record ev_quiescence_policy =
  qp_trace_policy :: ev_quiescence_buffer_policy
  qp_fault_policy :: ev_quiescence_buffer_policy
  qp_log_policy :: ev_quiescence_buffer_policy
  qp_min_sleep_window_ms :: u32
  qp_near_deadline_guard_ms :: u32
  qp_block_due_timers :: u8
  qp_block_actor_sleep_blockers :: u8

abbreviation EV_QUIESCENCE_POLICY_BLOCK_DUE_TIMER :: u32 where "EV_QUIESCENCE_POLICY_BLOCK_DUE_TIMER \<equiv> 1"
abbreviation EV_QUIESCENCE_POLICY_BLOCK_ACTOR :: u32 where "EV_QUIESCENCE_POLICY_BLOCK_ACTOR \<equiv> 2"
abbreviation EV_QUIESCENCE_POLICY_BLOCK_TRACE :: u32 where "EV_QUIESCENCE_POLICY_BLOCK_TRACE \<equiv> 4"
abbreviation EV_QUIESCENCE_POLICY_BLOCK_FAULT :: u32 where "EV_QUIESCENCE_POLICY_BLOCK_FAULT \<equiv> 8"
abbreviation EV_QUIESCENCE_POLICY_BLOCK_LOG :: u32 where "EV_QUIESCENCE_POLICY_BLOCK_LOG \<equiv> 16"
abbreviation EV_QUIESCENCE_POLICY_BLOCK_NEAR_DEADLINE :: u32 where "EV_QUIESCENCE_POLICY_BLOCK_NEAR_DEADLINE \<equiv> 32"

definition ev_quiescence_default_policy :: ev_quiescence_policy where
  "ev_quiescence_default_policy = \<lparr>qp_trace_policy = EV_QUIESCENCE_BUFFER_BLOCK_NEVER,
     qp_fault_policy = EV_QUIESCENCE_BUFFER_BLOCK_CRITICAL_ONLY, qp_log_policy = EV_QUIESCENCE_BUFFER_BLOCK_NEVER,
     qp_min_sleep_window_ms = 0, qp_near_deadline_guard_ms = 0, qp_block_due_timers = 1,
     qp_block_actor_sleep_blockers = 1\<rparr>"

section \<open>Operations\<close>

definition ev_quiescence_report_init :: ev_quiescence_report where
  "ev_quiescence_report_init = \<lparr>qr_pending_actor_messages = 0, qr_pending_ingress_events = 0, qr_due_timers = 0,
     qr_busy_actor_mask = 0, qr_sleep_blocker_actor_mask = 0, qr_pending_trace_records = 0,
     qr_pending_fault_records = 0, qr_pending_log_records = 0, qr_next_deadline_ms = 0,
     qr_earliest_safe_sleep_until_ms = 0, qr_policy_blocker_mask = 0, qr_reason = ''ok''\<rparr>"

text \<open>The loop of \<open>ev_quiescence_due_timer_count\<close>: \<open>n\<close> more slots from index \<open>i\<close>.\<close>

primrec due_count_loop :: "ev_timer_slot list \<Rightarrow> u32 \<Rightarrow> nat \<Rightarrow> nat \<Rightarrow> u32 \<Rightarrow> u32" where
  "due_count_loop slots now_ms i 0 k = k"
| "due_count_loop slots now_ms i (Suc n) k =
     due_count_loop slots now_ms (Suc i) n
       (if ts_active (slots ! i) \<noteq> 0 \<and> ev_timer_is_due now_ms (ts_deadline_ms (slots ! i)) then k + 1 else k)"

definition ev_quiescence_due_timer_count :: "ev_timer_service option \<Rightarrow> u32 \<Rightarrow> u32" where
  "ev_quiescence_due_timer_count svc now_ms =
     (case svc of None \<Rightarrow> 0
      | Some t \<Rightarrow> due_count_loop (tm_slots t) now_ms 0 EV_TIMER_SERVICE_CAPACITY 0)"

primrec fault_critical_loop :: "ev_fault_payload list \<Rightarrow> nat \<Rightarrow> nat \<Rightarrow> bool" where
  "fault_critical_loop rs i 0 \<longleftrightarrow> False"
| "fault_critical_loop rs i (Suc n) \<longleftrightarrow>
     (if fp_severity (rs ! i) = EV_FAULT_SEV_CRITICAL then True else fault_critical_loop rs (Suc i) n)"

definition ev_fault_has_critical :: "ev_fault_registry option \<Rightarrow> bool" where
  "ev_fault_has_critical registry \<longleftrightarrow>
     (case registry of None \<Rightarrow> False | Some f \<Rightarrow> fault_critical_loop (fr_records f) 0 (fr_count f))"

definition ev_quiescence_service_init :: "ev_quiescence_service option \<Rightarrow> ev_quiescence_service option" where
  "ev_quiescence_service_init svc = map_option (\<lambda>_. \<lparr>qs_accepted = 0, qs_rejected = 0\<rparr>) svc"

text \<open>The default quiescence function of a module leaves the report as it is.\<close>

definition ev_default_quiescence ::
    "ptr \<Rightarrow> ev_quiescence_report option \<Rightarrow> 'u \<Rightarrow> ev_result \<times> ev_quiescence_report option \<times> 'u" where
  "ev_default_quiescence actor_context report u =
     (if report = None then (EV_ERR_INVALID_ARG, report, u) else (EV_OK, report, u))"

text \<open>The loop over actors: \<open>n\<close> more from index \<open>i\<close>.\<close>

definition quiescence_actor :: "nat \<Rightarrow> ev_quiescence_report \<Rightarrow> 'u ev_graph \<Rightarrow> ev_quiescence_report \<times> 'u ev_graph" where
  "quiescence_actor i report s =
     (if sv_actor_enabled (services s) ! i \<noteq> 0
      then
        let report = report\<lparr>qr_pending_actor_messages :=
              qr_pending_actor_messages report + of_nat (ev_mailbox_count (Some (sy_mailbox s i)))\<rparr>;
            ctx = ar_actor_context (sy_runtime s i);
            fn = in_quiescence_fn (sv_instances (services s) ! i)
        in if sv_instance_bound (services s) ! i \<noteq> 0 \<and> fn \<noteq> None
           then let (rc, report, u) = the fn ctx report (sv_user (services s))
                in (report, upd_services (\<lambda>v. v\<lparr>sv_user := u\<rparr>) s)
           else if sv_descriptors (services s) ! i \<noteq> None
           then let (rc, report, u) = ev_default_quiescence ctx (Some report) (sv_user (services s))
                in (the report, upd_services (\<lambda>v. v\<lparr>sv_user := u\<rparr>) s)
           else (report, s)
      else (report, s))"

primrec quiescence_actors ::
    "nat \<Rightarrow> nat \<Rightarrow> ev_quiescence_report \<Rightarrow> 'u ev_graph \<Rightarrow> ev_quiescence_report \<times> 'u ev_graph" where
  "quiescence_actors i 0 report s = (report, s)"
| "quiescence_actors i (Suc n) report s =
     (let (report, s) = quiescence_actor i report s in quiescence_actors (Suc i) n report s)"

text \<open>The counts of the services, the last of them through the log port.\<close>

definition quiescence_counts ::
    "u32 \<Rightarrow> ev_quiescence_report \<Rightarrow> 'u ev_graph \<Rightarrow> ev_quiescence_report \<times> 'u ev_graph" where
  "quiescence_counts now_ms report s =
     (let v = services s;
          report = report\<lparr>qr_pending_ingress_events := of_nat (ev_ingress_pending (Some (sv_ingress_service v))),
            qr_due_timers := ev_quiescence_due_timer_count (Some (sv_timer_service v)) now_ms,
            qr_pending_trace_records := of_nat (ev_trace_pending (Some (sv_trace_ring v))),
            qr_pending_fault_records := of_nat (ev_fault_pending_count (Some (sv_faults v))),
            qr_pending_log_records := 0\<rparr>
      in case rp_log_pending (sv_ports v) of
           None \<Rightarrow> (report, s)
         | Some pending \<Rightarrow>
             let (rc, pending_logs, u) = pending (sv_user v)
             in (if rc = EV_OK then report\<lparr>qr_pending_log_records := pending_logs\<rparr> else report,
                 upd_services (\<lambda>v. v\<lparr>sv_user := u\<rparr>) s))"

definition add_blocker :: "u32 \<Rightarrow> bool \<Rightarrow> ev_quiescence_report \<Rightarrow> ev_quiescence_report" where
  "add_blocker reason_bit blocked report =
     (if blocked then report\<lparr>qr_policy_blocker_mask := qr_policy_blocker_mask report OR reason_bit\<rparr> else report)"

definition quiescence_deadline ::
    "ev_quiescence_policy \<Rightarrow> u32 \<Rightarrow> ev_timer_service \<Rightarrow> ev_quiescence_report \<Rightarrow> ev_quiescence_report" where
  "quiescence_deadline policy now_ms t report =
     (case ev_timer_next_deadline_ms (Some t) True of
        (EV_OK, Some next_deadline) \<Rightarrow>
          let report = report\<lparr>qr_next_deadline_ms := next_deadline, qr_earliest_safe_sleep_until_ms := next_deadline\<rparr>;
              report = add_blocker EV_QUIESCENCE_POLICY_BLOCK_NEAR_DEADLINE
                (0 < qp_near_deadline_guard_ms policy \<and> next_deadline - now_ms \<le> qp_near_deadline_guard_ms policy) report
          in add_blocker EV_QUIESCENCE_POLICY_BLOCK_NEAR_DEADLINE
               (0 < qp_min_sleep_window_ms policy \<and> next_deadline - now_ms < qp_min_sleep_window_ms policy) report
      | _ \<Rightarrow> report)"

definition quiescence_blockers ::
    "ev_quiescence_policy \<Rightarrow> ev_fault_registry \<Rightarrow> ev_quiescence_report \<Rightarrow> ev_quiescence_report" where
  "quiescence_blockers policy faults report =
     (let report = add_blocker EV_QUIESCENCE_POLICY_BLOCK_DUE_TIMER
            (qp_block_due_timers policy \<noteq> 0 \<and> 0 < qr_due_timers report) report;
          report = add_blocker EV_QUIESCENCE_POLICY_BLOCK_ACTOR
            (qp_block_actor_sleep_blockers policy \<noteq> 0 \<and> qr_sleep_blocker_actor_mask report \<noteq> 0) report;
          report = add_blocker EV_QUIESCENCE_POLICY_BLOCK_TRACE
            (qp_trace_policy policy = EV_QUIESCENCE_BUFFER_BLOCK_UNTIL_DRAINED \<and> 0 < qr_pending_trace_records report) report;
          report = add_blocker EV_QUIESCENCE_POLICY_BLOCK_FAULT
            (qp_fault_policy policy = EV_QUIESCENCE_BUFFER_BLOCK_UNTIL_DRAINED \<and> 0 < qr_pending_fault_records report
             \<or> qp_fault_policy policy = EV_QUIESCENCE_BUFFER_BLOCK_CRITICAL_ONLY \<and> ev_fault_has_critical (Some faults)) report
      in add_blocker EV_QUIESCENCE_POLICY_BLOCK_LOG
           (qp_log_policy policy = EV_QUIESCENCE_BUFFER_BLOCK_UNTIL_DRAINED \<and> 0 < qr_pending_log_records report) report)"

definition quiescence_reason :: "ev_quiescence_report \<Rightarrow> ev_quiescence_report" where
  "quiescence_reason report =
     (if 0 < qr_pending_actor_messages report then report\<lparr>qr_reason := ''actor messages pending''\<rparr>
      else if 0 < qr_pending_ingress_events report then report\<lparr>qr_reason := ''ingress pending''\<rparr>
      else if qr_policy_blocker_mask report \<noteq> 0 then report\<lparr>qr_reason := ''policy blocker''\<rparr>
      else report)"

text \<open>The flag \<open>out_report\<close> says whether the caller passed a report; the second result is what is written there.\<close>

definition ev_runtime_is_quiescent_at ::
    "'u ev_graph option \<Rightarrow> u32 \<Rightarrow> ev_quiescence_policy option \<Rightarrow> bool
       \<Rightarrow> ev_result \<times> ev_quiescence_report option \<times> 'u ev_graph option" where
  "ev_runtime_is_quiescent_at graph now_ms policy out_report =
     (if graph = None \<or> \<not> out_report then (EV_ERR_INVALID_ARG, None, graph)
      else
        let effective_policy = (case policy of Some p \<Rightarrow> p | None \<Rightarrow> ev_quiescence_default_policy);
            (report, s) = quiescence_actors 0 (nat EV_ACTOR_COUNT) ev_quiescence_report_init (the graph);
            (report, s) = quiescence_counts now_ms report s;
            report = quiescence_deadline effective_policy now_ms (sv_timer_service (services s)) report;
            report = quiescence_blockers effective_policy (sv_faults (services s)) report;
            report = quiescence_reason report
        in if qr_pending_actor_messages report = 0 \<and> qr_pending_ingress_events report = 0
              \<and> qr_policy_blocker_mask report = 0
           then (EV_OK, Some report, Some (count_metric EV_METRIC_QUIESCENCE_ACCEPTED (upd_services
                  (\<lambda>v. v\<lparr>sv_quiescence_service := (sv_quiescence_service v)\<lparr>
                     qs_accepted := qs_accepted (sv_quiescence_service v) + 1\<rparr>\<rparr>) s)))
           else (EV_ERR_NOT_READY, Some report, Some (count_metric EV_METRIC_QUIESCENCE_REJECTED (upd_services
                  (\<lambda>v. v\<lparr>sv_quiescence_service := (sv_quiescence_service v)\<lparr>
                     qs_rejected := qs_rejected (sv_quiescence_service v) + 1\<rparr>\<rparr>) s))))"

definition ev_runtime_is_quiescent ::
    "'u ev_graph option \<Rightarrow> bool \<Rightarrow> ev_result \<times> ev_quiescence_report option \<times> 'u ev_graph option" where
  "ev_runtime_is_quiescent graph out_report =
     ev_runtime_is_quiescent_at graph 0 (Some ev_quiescence_default_policy) out_report"

definition ev_runtime_next_wake_deadline_ms :: "'u ev_graph option \<Rightarrow> bool \<Rightarrow> ev_result \<times> u32 option" where
  "ev_runtime_next_wake_deadline_ms graph out_deadline_ms =
     (case graph of None \<Rightarrow> (EV_ERR_INVALID_ARG, None)
      | Some s \<Rightarrow> if \<not> out_deadline_ms then (EV_ERR_INVALID_ARG, None)
                  else ev_timer_next_deadline_ms (Some (sv_timer_service (services s))) True)"

section \<open>What the counts mean\<close>

lemma upt_Suc_front: "[i..<i + Suc n] = i # [Suc i..<Suc i + n]"
  by (simp add: upt_conv_Cons del: upt_Suc)

lemma bex_set_nth: "(\<exists>x \<in> set xs. P x) \<longleftrightarrow> (\<exists>i<length xs. P (xs ! i))"
  by (metis in_set_conv_nth)

lemma due_count_loop_eq:
  "due_count_loop slots now i n k
     = k + of_nat (length (filter (\<lambda>j. ts_active (slots ! j) \<noteq> 0 \<and> ev_timer_is_due now (ts_deadline_ms (slots ! j))) [i..<i + n]))"
proof (induction n arbitrary: i k)
  case (Suc n)
  then show ?case unfolding upt_Suc_front by simp
qed simp

lemma of_nat_u32_0: "n < 2 ^ 32 \<Longrightarrow> (of_nat n :: u32) = 0 \<longleftrightarrow> n = 0"
  by (auto simp: word_of_nat_eq_0_iff dest: dvd_imp_le)

definition due_timer :: "u32 \<Rightarrow> ev_timer_service \<Rightarrow> bool" where
  "due_timer now_ms t \<longleftrightarrow> (\<exists>slot \<in> set (tm_slots t). ts_active slot \<noteq> 0 \<and> ev_timer_is_due now_ms (ts_deadline_ms slot))"

lemma due_timer_count:
  assumes "timers_wf t"
  shows "ev_quiescence_due_timer_count (Some t) now = 0 \<longleftrightarrow> \<not> due_timer now t"
proof -
  let ?P = "\<lambda>j. ts_active (tm_slots t ! j) \<noteq> 0 \<and> ev_timer_is_due now (ts_deadline_ms (tm_slots t ! j))"
  have "length (filter ?P [0..<16]) \<le> 16" by (rule order_trans [OF length_filter_le]) simp
  then have "ev_quiescence_due_timer_count (Some t) now = 0 \<longleftrightarrow> filter ?P [0..<16] = []"
    by (simp add: ev_quiescence_due_timer_count_def due_count_loop_eq of_nat_u32_0)
  also have "\<dots> \<longleftrightarrow> \<not> due_timer now t"
    using assms unfolding due_timer_def bex_set_nth timers_wf_def filter_empty_conv by auto
  finally show ?thesis .
qed

lemma fault_critical_loop_iff:
  "fault_critical_loop rs i n \<longleftrightarrow> (\<exists>j \<in> set [i..<i + n]. fp_severity (rs ! j) = EV_FAULT_SEV_CRITICAL)"
proof (induction n arbitrary: i)
  case (Suc n)
  show ?case unfolding upt_Suc_front using Suc.IH [of "Suc i"] by simp
qed simp

definition critical_fault :: "ev_fault_registry \<Rightarrow> bool" where
  "critical_fault f \<longleftrightarrow> (\<exists>p \<in> set (pending_faults f). fp_severity p = EV_FAULT_SEV_CRITICAL)"

lemma fault_has_critical_iff: "faults_wf f \<Longrightarrow> ev_fault_has_critical (Some f) \<longleftrightarrow> critical_fault f"
  unfolding ev_fault_has_critical_def critical_fault_def pending_faults_def bex_set_nth option.case fault_critical_loop_iff
  by (auto simp: faults_wf_def)

lemma add_blocker_frame [simp]:
  "qr_pending_actor_messages (add_blocker b c r) = qr_pending_actor_messages r"
  "qr_pending_ingress_events (add_blocker b c r) = qr_pending_ingress_events r"
  "qr_due_timers (add_blocker b c r) = qr_due_timers r"
  "qr_sleep_blocker_actor_mask (add_blocker b c r) = qr_sleep_blocker_actor_mask r"
  "qr_pending_trace_records (add_blocker b c r) = qr_pending_trace_records r"
  "qr_pending_fault_records (add_blocker b c r) = qr_pending_fault_records r"
  "qr_pending_log_records (add_blocker b c r) = qr_pending_log_records r"
  "b \<noteq> 0 \<Longrightarrow> qr_policy_blocker_mask (add_blocker b c r) = 0 \<longleftrightarrow> qr_policy_blocker_mask r = 0 \<and> \<not> c"
  by (auto simp: add_blocker_def or_eq_0_iff)

lemma quiescence_reason_frame [simp]:
  "qr_pending_actor_messages (quiescence_reason r) = qr_pending_actor_messages r"
  "qr_pending_ingress_events (quiescence_reason r) = qr_pending_ingress_events r"
  "qr_sleep_blocker_actor_mask (quiescence_reason r) = qr_sleep_blocker_actor_mask r"
  "qr_pending_log_records (quiescence_reason r) = qr_pending_log_records r"
  "qr_policy_blocker_mask (quiescence_reason r) = qr_policy_blocker_mask r"
  by (simp_all add: quiescence_reason_def)

definition deadline_near :: "ev_quiescence_policy \<Rightarrow> u32 \<Rightarrow> ev_timer_service \<Rightarrow> bool" where
  "deadline_near p now_ms t \<longleftrightarrow>
     (case ev_timer_next_deadline_ms (Some t) True of
        (EV_OK, Some d) \<Rightarrow> 0 < qp_near_deadline_guard_ms p \<and> d - now_ms \<le> qp_near_deadline_guard_ms p
          \<or> 0 < qp_min_sleep_window_ms p \<and> d - now_ms < qp_min_sleep_window_ms p
      | _ \<Rightarrow> False)"

lemma quiescence_deadline_frame [simp]:
  "qr_pending_actor_messages (quiescence_deadline p now t r) = qr_pending_actor_messages r"
  "qr_pending_ingress_events (quiescence_deadline p now t r) = qr_pending_ingress_events r"
  "qr_due_timers (quiescence_deadline p now t r) = qr_due_timers r"
  "qr_sleep_blocker_actor_mask (quiescence_deadline p now t r) = qr_sleep_blocker_actor_mask r"
  "qr_pending_trace_records (quiescence_deadline p now t r) = qr_pending_trace_records r"
  "qr_pending_fault_records (quiescence_deadline p now t r) = qr_pending_fault_records r"
  "qr_pending_log_records (quiescence_deadline p now t r) = qr_pending_log_records r"
  "qr_policy_blocker_mask (quiescence_deadline p now t r) = 0 \<longleftrightarrow> qr_policy_blocker_mask r = 0 \<and> \<not> deadline_near p now t"
  by (auto simp: quiescence_deadline_def deadline_near_def Let_def split: prod.split ev_result.split option.split)

text \<open>When a policy keeps the node awake, given the report's actor and log entries.\<close>

definition policy_blocks :: "ev_quiescence_policy \<Rightarrow> u32 \<Rightarrow> 'u ev_services \<Rightarrow> ev_quiescence_report \<Rightarrow> bool" where
  "policy_blocks p now_ms v r \<longleftrightarrow>
     qp_block_due_timers p \<noteq> 0 \<and> due_timer now_ms (sv_timer_service v)
   \<or> qp_block_actor_sleep_blockers p \<noteq> 0 \<and> qr_sleep_blocker_actor_mask r \<noteq> 0
   \<or> qp_trace_policy p = EV_QUIESCENCE_BUFFER_BLOCK_UNTIL_DRAINED \<and> trace_contents (sv_trace_ring v) \<noteq> []
   \<or> qp_fault_policy p = EV_QUIESCENCE_BUFFER_BLOCK_UNTIL_DRAINED \<and> pending_faults (sv_faults v) \<noteq> []
   \<or> qp_fault_policy p = EV_QUIESCENCE_BUFFER_BLOCK_CRITICAL_ONLY \<and> critical_fault (sv_faults v)
   \<or> qp_log_policy p = EV_QUIESCENCE_BUFFER_BLOCK_UNTIL_DRAINED \<and> qr_pending_log_records r \<noteq> 0
   \<or> deadline_near p now_ms (sv_timer_service v)"

definition node_idle :: "'u ev_graph \<Rightarrow> bool" where
  "node_idle s \<longleftrightarrow> (\<forall>i<nat EV_ACTOR_COUNT. sv_actor_enabled (services s) ! i \<noteq> 0 \<longrightarrow> mailbox_contents (sy_mailbox s i) = [])
     \<and> ingress_contents (sv_ingress_service (services s)) = []"

text \<open>
  What the service relies on: the objects of the graph are in order, and the quiescence functions of
  the instances leave the message count and the policy mask of the report alone.
\<close>

definition honest_quiescence :: "'u ev_services \<Rightarrow> bool" where
  "honest_quiescence v \<longleftrightarrow> (\<forall>i<nat EV_ACTOR_COUNT. \<forall>fn. in_quiescence_fn (sv_instances v ! i) = Some fn \<longrightarrow>
     (\<forall>ctx r u. qr_pending_actor_messages (fst (snd (fn ctx r u))) = qr_pending_actor_messages r
        \<and> qr_policy_blocker_mask (fst (snd (fn ctx r u))) = qr_policy_blocker_mask r))"

definition services_wf :: "'u ev_graph \<Rightarrow> bool" where
  "services_wf s \<longleftrightarrow> (\<forall>i<nat EV_ACTOR_COUNT. sv_actor_enabled (services s) ! i \<noteq> 0 \<longrightarrow> mailbox_wf (sy_mailbox s i))
     \<and> ingress_wf (sv_ingress_service (services s)) \<and> timers_wf (sv_timer_service (services s))
     \<and> trace_wf (sv_trace_ring (services s)) \<and> faults_wf (sv_faults (services s))"

definition with_user :: "'u \<Rightarrow> 'u ev_graph \<Rightarrow> 'u ev_graph" where
  "with_user u = upd_services (\<lambda>v. v\<lparr>sv_user := u\<rparr>)"

lemma with_user_frames [simp]:
  "sy_mailbox (with_user u s) = sy_mailbox s" "sy_runtime (with_user u s) = sy_runtime s"
  "sy_registry (with_user u s) = sy_registry s" "sy_domain (with_user u s) = sy_domain s"
  "sy_system (with_user u s) = sy_system s" "services (with_user u s) = (services s)\<lparr>sv_user := u\<rparr>"
  "with_user w (with_user u s) = with_user w s"
  by (simp_all add: with_user_def services_def upd_services_def)

lemma with_own_user: "with_user (sv_user (services s)) s = s"
  by (simp add: with_user_def services_def upd_services_def)

lemma quiescence_actor_ok:
  assumes "honest_quiescence (services s)" and "i < nat EV_ACTOR_COUNT" and "quiescence_actor i r s = (r', s')"
  shows "\<exists>u. s' = with_user u s" and "qr_policy_blocker_mask r' = qr_policy_blocker_mask r"
    and "qr_pending_actor_messages r' = qr_pending_actor_messages r + of_nat (graph_actor_pending s i)"
proof -
  let ?v = "services s"
  let ?r = "r\<lparr>qr_pending_actor_messages := qr_pending_actor_messages r + of_nat (ev_mailbox_count (Some (sy_mailbox s i)))\<rparr>"
  note h = assms(1) [unfolded honest_quiescence_def, rule_format, OF assms(2)]
  consider (asked) f u where "sv_actor_enabled ?v ! i \<noteq> 0" "in_quiescence_fn (sv_instances ?v ! i) = Some f"
      "r' = fst (snd (f (ar_actor_context (sy_runtime s i)) ?r (sv_user ?v)))" "s' = with_user u s"
    | (silent) "sv_actor_enabled ?v ! i \<noteq> 0" "r' = ?r" "s' = s"
    | (disabled) "sv_actor_enabled ?v ! i = 0" "r' = r" "s' = s"
  proof (cases "sv_actor_enabled ?v ! i = 0")
    case True
    then have "r' = r" "s' = s" using assms(3) by (simp_all add: quiescence_actor_def)
    with True show thesis by (rule disabled)
  next
    case False
    note en = this
    show thesis
    proof (cases "sv_instance_bound ?v ! i \<noteq> 0 \<and> in_quiescence_fn (sv_instances ?v ! i) \<noteq> None")
      case True
      then obtain f where f: "in_quiescence_fn (sv_instances ?v ! i) = Some f" by blast
      obtain rc r1 u where c: "f (ar_actor_context (sy_runtime s i)) ?r (sv_user ?v) = (rc, r1, u)" by (rule prod_cases3)
      have "r' = r1" "s' = with_user u s"
        using assms(3) en True f c by (simp_all add: quiescence_actor_def with_user_def)
      then show thesis using asked [OF en f] c by simp
    next
      case False
      note own = with_own_user [of s, unfolded with_user_def]
      have "quiescence_actor i r s = (?r, s)"
      proof (cases "sv_descriptors ?v ! i")
        case None
        then show ?thesis unfolding quiescence_actor_def Let_def by (simp only: if_P [OF en] if_not_P [OF False]) simp
      next
        case (Some d)
        then show ?thesis
          unfolding quiescence_actor_def Let_def ev_default_quiescence_def
          by (simp only: if_P [OF en] if_not_P [OF False]) (simp add: own)
      qed
      then have "r' = ?r \<and> s' = s" using assms(3) by simp
      then show thesis using silent en by blast
    qed
  qed
  then have "(\<exists>u. s' = with_user u s) \<and> qr_policy_blocker_mask r' = qr_policy_blocker_mask r
     \<and> qr_pending_actor_messages r' = qr_pending_actor_messages r + of_nat (graph_actor_pending s i)"
  proof cases
    case asked
    then show ?thesis using h [OF asked(2)] by (auto simp: graph_actor_pending_def)
  next
    case silent
    then show ?thesis using with_own_user [of s] by (auto simp: graph_actor_pending_def intro: exI [of _ "sv_user ?v"])
  next
    case disabled
    then show ?thesis using with_own_user [of s] by (auto simp: graph_actor_pending_def intro: exI [of _ "sv_user ?v"])
  qed
  then show "\<exists>u. s' = with_user u s" and "qr_policy_blocker_mask r' = qr_policy_blocker_mask r"
    and "qr_pending_actor_messages r' = qr_pending_actor_messages r + of_nat (graph_actor_pending s i)"
    by blast+
qed

lemma honest_with_user [simp]:
  "honest_quiescence (v\<lparr>sv_user := u\<rparr>) = honest_quiescence v"
  "graph_actor_pending (with_user u s) = graph_actor_pending s"
  by (simp_all add: honest_quiescence_def graph_actor_pending_def [abs_def] fun_eq_iff)

lemma quiescence_actors_ok:
  assumes "honest_quiescence (services s)" and "i + n \<le> nat EV_ACTOR_COUNT" and "quiescence_actors i n r s = (r', s')"
  shows "(\<exists>u. s' = with_user u s) \<and> qr_policy_blocker_mask r' = qr_policy_blocker_mask r
     \<and> qr_pending_actor_messages r' = qr_pending_actor_messages r + of_nat (sum_list (map (graph_actor_pending s) [i..<i + n]))"
  using assms
proof (induction n arbitrary: i r s)
  case 0
  then show ?case using with_own_user [of s] by (auto intro: exI [of _ "sv_user (services s)"])
next
  case (Suc n)
  obtain r1 s1 where st: "quiescence_actor i r s = (r1, s1)" by (rule prod.exhaust)
  have i: "i < nat EV_ACTOR_COUNT" using Suc.prems(2) by linarith
  note one = quiescence_actor_ok [OF Suc.prems(1) i st]
  obtain u where u: "s1 = with_user u s" using one(1) by blast
  have h1: "honest_quiescence (services s1)" using Suc.prems(1) by (simp add: u)
  have "Suc i + n \<le> nat EV_ACTOR_COUNT" using Suc.prems(2) by linarith
  from Suc.IH [OF h1 this, of r1] Suc.prems(3) st
  have "(\<exists>w. s' = with_user w s1) \<and> qr_policy_blocker_mask r' = qr_policy_blocker_mask r1
     \<and> qr_pending_actor_messages r' = qr_pending_actor_messages r1 + of_nat (sum_list (map (graph_actor_pending s1) [Suc i..<Suc i + n]))"
    by simp
  then show ?case using one(2,3) u unfolding upt_Suc_front by auto
qed

lemma quiescence_counts_ok:
  assumes "quiescence_counts now r s = (r', s')"
  shows "\<exists>u. s' = with_user u s" and "qr_policy_blocker_mask r' = qr_policy_blocker_mask r"
    and "qr_pending_actor_messages r' = qr_pending_actor_messages r"
    and "qr_pending_ingress_events r' = of_nat (ev_ingress_pending (Some (sv_ingress_service (services s))))"
    and "qr_due_timers r' = ev_quiescence_due_timer_count (Some (sv_timer_service (services s))) now"
    and "qr_pending_trace_records r' = of_nat (ev_trace_pending (Some (sv_trace_ring (services s))))"
    and "qr_pending_fault_records r' = of_nat (ev_fault_pending_count (Some (sv_faults (services s))))"
proof -
  show "\<exists>u. s' = with_user u s"
  proof (cases "rp_log_pending (sv_ports (services s))")
    case None
    then have "s' = s" using assms by (simp add: quiescence_counts_def Let_def)
    then show ?thesis using with_own_user [of s] by metis
  next
    case (Some f)
    then show ?thesis using assms by (auto simp: quiescence_counts_def Let_def with_user_def split: prod.splits)
  qed
qed (use assms in \<open>auto simp: quiescence_counts_def Let_def split: option.splits prod.splits if_splits\<close>)

lemma services_counts:
  assumes "services_wf s"
  shows "(of_nat (ev_ingress_pending (Some (sv_ingress_service (services s)))) :: u32) = 0
      \<longleftrightarrow> ingress_contents (sv_ingress_service (services s)) = []"
    and "(of_nat (ev_trace_pending (Some (sv_trace_ring (services s)))) :: u32) = 0
      \<longleftrightarrow> trace_contents (sv_trace_ring (services s)) = []"
    and "(of_nat (ev_fault_pending_count (Some (sv_faults (services s)))) :: u32) = 0
      \<longleftrightarrow> pending_faults (sv_faults (services s)) = []"
    and "(of_nat (sum_list (map (graph_actor_pending s) [0..<nat EV_ACTOR_COUNT])) :: u32) = 0
      \<longleftrightarrow> (\<forall>i<nat EV_ACTOR_COUNT. sv_actor_enabled (services s) ! i \<noteq> 0 \<longrightarrow> mailbox_contents (sy_mailbox s i) = [])"
proof -
  have wf: "ingress_wf (sv_ingress_service (services s))" "trace_wf (sv_trace_ring (services s))"
    "faults_wf (sv_faults (services s))" using assms by (simp_all add: services_wf_def)
  have "length (ingress_contents (sv_ingress_service (services s))) \<le> 16"
    using wf(1) by (simp add: ingress_wf_def ingress_contents_def)
  then show "(of_nat (ev_ingress_pending (Some (sv_ingress_service (services s)))) :: u32) = 0
      \<longleftrightarrow> ingress_contents (sv_ingress_service (services s)) = []"
    by (simp add: ingress_pending_length of_nat_u32_0)
  show "(of_nat (ev_trace_pending (Some (sv_trace_ring (services s)))) :: u32) = 0
      \<longleftrightarrow> trace_contents (sv_trace_ring (services s)) = []"
    using wf(2) by (simp add: ev_trace_pending_def trace_wf_def trace_contents_def ring_view_def of_nat_u32_0)
  have "ev_fault_pending_count (Some (sv_faults (services s))) = length (pending_faults (sv_faults (services s)))"
    using length_pending_faults [OF wf(3)] by (simp add: ev_fault_pending_count_def)
  moreover have "length (pending_faults (sv_faults (services s))) \<le> 16"
    using wf(3) by (simp add: faults_wf_def pending_faults_def)
  ultimately show "(of_nat (ev_fault_pending_count (Some (sv_faults (services s)))) :: u32) = 0
      \<longleftrightarrow> pending_faults (sv_faults (services s)) = []"
    by (simp add: of_nat_u32_0)
  have b: "graph_actor_pending s i \<le> 16" "graph_actor_pending s i = 0
      \<longleftrightarrow> (sv_actor_enabled (services s) ! i \<noteq> 0 \<longrightarrow> mailbox_contents (sy_mailbox s i) = [])"
    if "i < nat EV_ACTOR_COUNT" for i
  proof -
    have "sv_actor_enabled (services s) ! i \<noteq> 0 \<Longrightarrow> mailbox_wf (sy_mailbox s i)"
      using assms that by (simp add: services_wf_def)
    moreover have "ev_mailbox_kind_capacity k \<le> 16" for k by (cases k) simp_all
    ultimately show "graph_actor_pending s i \<le> 16" "graph_actor_pending s i = 0
      \<longleftrightarrow> (sv_actor_enabled (services s) ! i \<noteq> 0 \<longrightarrow> mailbox_contents (sy_mailbox s i) = [])"
      using mailbox_wf_D(8) [of "sy_mailbox s i"] length_mailbox_contents [of "sy_mailbox s i"]
      by (auto simp: graph_actor_pending_def ev_mailbox_count_def intro: order_trans)
  qed
  have "sum_list (map (graph_actor_pending s) [0..<nat EV_ACTOR_COUNT]) \<le> sum_list (map (\<lambda>_. 16) [0..<nat EV_ACTOR_COUNT])"
    by (rule sum_list_mono) (use b(1) in simp)
  then have "sum_list (map (graph_actor_pending s) [0..<nat EV_ACTOR_COUNT]) < 2 ^ 32"
    by (simp add: sum_list_triv)
  then show "(of_nat (sum_list (map (graph_actor_pending s) [0..<nat EV_ACTOR_COUNT])) :: u32) = 0
      \<longleftrightarrow> (\<forall>i<nat EV_ACTOR_COUNT. sv_actor_enabled (services s) ! i \<noteq> 0 \<longrightarrow> mailbox_contents (sy_mailbox s i) = [])"
    using b(2) by (simp only: of_nat_u32_0) auto
qed

definition quiescence_verdict :: "bool \<Rightarrow> 'u ev_graph \<Rightarrow> 'u ev_graph" where
  "quiescence_verdict ok s = count_metric (if ok then EV_METRIC_QUIESCENCE_ACCEPTED else EV_METRIC_QUIESCENCE_REJECTED)
     (upd_services (\<lambda>v. v\<lparr>sv_quiescence_service := (if ok
        then (sv_quiescence_service v)\<lparr>qs_accepted := qs_accepted (sv_quiescence_service v) + 1\<rparr>
        else (sv_quiescence_service v)\<lparr>qs_rejected := qs_rejected (sv_quiescence_service v) + 1\<rparr>)\<rparr>) s)"

lemma verdict_cases:
  "(if ok then (EV_OK, r, Some (count_metric EV_METRIC_QUIESCENCE_ACCEPTED (upd_services
                  (\<lambda>v. v\<lparr>sv_quiescence_service := (sv_quiescence_service v)\<lparr>
                     qs_accepted := qs_accepted (sv_quiescence_service v) + 1\<rparr>\<rparr>) s)))
    else (EV_ERR_NOT_READY, r, Some (count_metric EV_METRIC_QUIESCENCE_REJECTED (upd_services
                  (\<lambda>v. v\<lparr>sv_quiescence_service := (sv_quiescence_service v)\<lparr>
                     qs_rejected := qs_rejected (sv_quiescence_service v) + 1\<rparr>\<rparr>) s))))
   = (if ok then EV_OK else EV_ERR_NOT_READY, r, Some (quiescence_verdict ok s))"
  by (simp add: quiescence_verdict_def)

lemma decision_at:
  assumes wf: "services_wf s" and honest: "honest_quiescence (services s)"
    and run: "ev_runtime_is_quiescent_at (Some s) now (Some p) True = (rc, rep, g)"
  shows "\<exists>r u ok. rep = Some r \<and> g = Some (quiescence_verdict ok (with_user u s))
     \<and> rc = (if ok then EV_OK else EV_ERR_NOT_READY)
     \<and> (ok \<longleftrightarrow> node_idle s \<and> \<not> policy_blocks p now (services s) r)"
proof -
  obtain r1 s1 where a: "quiescence_actors 0 (nat EV_ACTOR_COUNT) ev_quiescence_report_init s = (r1, s1)" by (rule prod.exhaust)
  obtain r2 s2 where c: "quiescence_counts now r1 s1 = (r2, s2)" by (rule prod.exhaust)
  note A = quiescence_actors_ok [OF honest _ a, simplified]
  note C = quiescence_counts_ok [OF c]
  obtain u1 where u1: "s1 = with_user u1 s" using A by blast
  obtain u where u: "s2 = with_user u s" using C(1) u1 by auto
  let ?v = "services s"
  let ?r3 = "quiescence_deadline p now (sv_timer_service ?v) r2"
  let ?r = "quiescence_reason (quiescence_blockers p (sv_faults ?v) ?r3)"
  note W = services_counts [OF wf]
  have fs: "faults_wf (sv_faults ?v)" "timers_wf (sv_timer_service ?v)" using wf by (simp_all add: services_wf_def)
  have msgs: "qr_pending_actor_messages ?r = 0
      \<longleftrightarrow> (\<forall>i<nat EV_ACTOR_COUNT. sv_actor_enabled ?v ! i \<noteq> 0 \<longrightarrow> mailbox_contents (sy_mailbox s i) = [])"
    using A C(3) W(4) by (simp add: quiescence_blockers_def Let_def ev_quiescence_report_init_def)
  have ing: "qr_pending_ingress_events ?r = 0 \<longleftrightarrow> ingress_contents (sv_ingress_service ?v) = []"
    using C(4) W(1) u1 by (simp add: quiescence_blockers_def Let_def)
  have mask0: "qr_policy_blocker_mask r2 = 0" using A C(2) by (simp add: ev_quiescence_report_init_def)
  have due: "qr_due_timers r2 = 0 \<longleftrightarrow> \<not> due_timer now (sv_timer_service ?v)"
    using C(5) u1 due_timer_count [OF fs(2)] by simp
  have tr: "qr_pending_trace_records r2 = 0 \<longleftrightarrow> trace_contents (sv_trace_ring ?v) = []" using C(6) u1 W(2) by simp
  have fl: "qr_pending_fault_records r2 = 0 \<longleftrightarrow> pending_faults (sv_faults ?v) = []" using C(7) u1 W(3) by simp
  have keep: "qr_sleep_blocker_actor_mask ?r = qr_sleep_blocker_actor_mask r2"
    "qr_pending_log_records ?r = qr_pending_log_records r2"
    by (simp_all add: quiescence_blockers_def Let_def)
  have blk: "qr_policy_blocker_mask ?r = 0 \<longleftrightarrow> \<not> policy_blocks p now ?v ?r"
    unfolding policy_blocks_def keep
    by (simp add: quiescence_blockers_def Let_def mask0 word_neq_0_conv [symmetric] due tr fl fault_has_critical_iff [OF fs(1)]) blast
  let ?ok = "node_idle s \<and> \<not> policy_blocks p now ?v ?r"
  have ok: "(qr_pending_actor_messages ?r = 0 \<and> qr_pending_ingress_events ?r = 0 \<and> qr_policy_blocker_mask ?r = 0) = ?ok"
    using msgs ing blk by (simp add: node_idle_def)
  have t: "sv_timer_service (services (with_user u s)) = sv_timer_service ?v"
    "sv_faults (services (with_user u s)) = sv_faults ?v"
    by simp_all
  have "ev_runtime_is_quiescent_at (Some s) now (Some p) True
      = (if ?ok then EV_OK else EV_ERR_NOT_READY, Some ?r, Some (quiescence_verdict ?ok (with_user u s)))"
    unfolding ev_runtime_is_quiescent_at_def Let_def option.sel option.case a c prod.case u t ok verdict_cases
    by (simp only: option.distinct simp_thms if_False)
  from trans [OF this [symmetric] run]
  have "rc = (if ?ok then EV_OK else EV_ERR_NOT_READY)" "rep = Some ?r" "g = Some (quiescence_verdict ?ok (with_user u s))"
    by (simp_all only: prod.inject)
  then show ?thesis
    by (intro exI [of _ ?r] exI [of _ u] exI [of _ ?ok]) (simp only: simp_thms)
qed

section \<open>Properties\<close>

text \<open>
  C4: The node may sleep exactly when it is idle and the policy allows it. On a graph whose objects are in
  order and whose actors answer honestly, the answer is \<open>EV_OK\<close> exactly when every enabled actor's mailbox
  and the ingress ring are empty and nothing the policy names is outstanding (a due timer, a sleep blocker
  of an actor, an undrained trace, fault or log buffer, a critical fault, a deadline too near), and
  \<open>EV_ERR_NOT_READY\<close> otherwise. Asking counts the verdict and changes nothing else of the graph.
\<close>
theorem quiescence_decision:
  assumes "services_wf s" and "honest_quiescence (services s)"
    and "ev_runtime_is_quiescent_at (Some s) now (Some p) True = (rc, rep, g)"
  shows "\<exists>r u ok. rep = Some r \<and> g = Some (quiescence_verdict ok (with_user u s))
     \<and> rc = (if ok then EV_OK else EV_ERR_NOT_READY)
     \<and> (ok \<longleftrightarrow> node_idle s \<and> \<not> policy_blocks p now (services s) r)"
  by (rule decision_at [OF assms])

definition demo_timer_slot :: ev_timer_slot where
  "demo_timer_slot = zero_timer_slot\<lparr>ts_active := 1, ts_deadline_ms := 100\<rparr>"

text \<open>An idle graph whose only timer is due at 100.\<close>

definition demo_sleepy_graph :: "unit ev_graph" where
  "demo_sleepy_graph = upd_services (\<lambda>v. v\<lparr>sv_timer_service := zero_timers\<lparr>tm_slots := (tm_slots zero_timers)[0 := demo_timer_slot]\<rparr>\<rparr>)
     demo_poll_graph"

lemma demo_sleepy_services:
  "services demo_sleepy_graph = (zero_services ())\<lparr>sv_timer_service := zero_timers\<lparr>tm_slots := (tm_slots zero_timers)[0 := demo_timer_slot]\<rparr>\<rparr>"
  by (simp add: demo_sleepy_graph_def demo_poll_graph_def services_def)

lemma demo_sleepy_ready: "services_wf demo_sleepy_graph" "honest_quiescence (services demo_sleepy_graph)" "node_idle demo_sleepy_graph"
proof -
  have "ingress_wf zero_ingress \<and> ingress_contents zero_ingress = []"
    by (rule ingress_init_wf [of zero_ingress]) (simp add: ev_ingress_service_init_def)
  then show "services_wf demo_sleepy_graph" "node_idle demo_sleepy_graph"
    using zero_timers_wf zero_trace_wf(1) zero_faults_wf(1)
    by (simp_all add: services_wf_def node_idle_def demo_sleepy_services zero_services_def timers_wf_def)
  show "honest_quiescence (services demo_sleepy_graph)"
    by (simp add: honest_quiescence_def demo_sleepy_services zero_services_def zero_instance_def)
qed

theorem quiescence_decision_witness:
  "fst (ev_runtime_is_quiescent_at (Some demo_sleepy_graph) 150 (Some ev_quiescence_default_policy) True) = EV_ERR_NOT_READY
     \<and> fst (ev_runtime_is_quiescent_at (Some demo_sleepy_graph) 50 (Some (ev_quiescence_default_policy\<lparr>qp_block_actor_sleep_blockers := 0\<rparr>)) True) = EV_OK"
proof -
  have v: "sv_timer_service (services demo_sleepy_graph) = zero_timers\<lparr>tm_slots := (tm_slots zero_timers)[0 := demo_timer_slot]\<rparr>"
    "sv_faults (services demo_sleepy_graph) = zero_faults" "sv_trace_ring (services demo_sleepy_graph) = zero_trace"
    by (simp_all add: demo_sleepy_services zero_services_def)
  have due: "due_timer 150 (sv_timer_service (services demo_sleepy_graph))"
    "\<not> due_timer 50 (sv_timer_service (services demo_sleepy_graph))"
    "\<not> critical_fault (sv_faults (services demo_sleepy_graph))"
    unfolding v by code_simp+
  have blocked: "policy_blocks ev_quiescence_default_policy 150 (services demo_sleepy_graph) r" for r
    using due by (simp add: policy_blocks_def ev_quiescence_default_policy_def)
  have free: "\<not> policy_blocks (ev_quiescence_default_policy\<lparr>qp_block_actor_sleep_blockers := 0\<rparr>) 50 (services demo_sleepy_graph) r" for r
    using due by (simp add: policy_blocks_def ev_quiescence_default_policy_def deadline_near_def split: prod.split ev_result.split option.split)
  obtain rc rep g where a: "ev_runtime_is_quiescent_at (Some demo_sleepy_graph) 150 (Some ev_quiescence_default_policy) True = (rc, rep, g)"
    by (rule prod_cases3)
  obtain rc2 rep2 g2 where b: "ev_runtime_is_quiescent_at (Some demo_sleepy_graph) 50
      (Some (ev_quiescence_default_policy\<lparr>qp_block_actor_sleep_blockers := 0\<rparr>)) True = (rc2, rep2, g2)"
    by (rule prod_cases3)
  note d = quiescence_decision [OF demo_sleepy_ready(1,2)]
  have "rc = EV_ERR_NOT_READY" using d [OF a] blocked by auto
  moreover have "rc2 = EV_OK" using d [OF b] demo_sleepy_ready(3) free by auto
  ultimately show ?thesis by (simp add: a b)
qed

text \<open>
  The question without a time is asked at time zero: with deadlines ahead of zero on the clock, a due
  timer does not keep the node awake, whatever the time is.
\<close>

lemma quiescent_without_time:
  assumes "services_wf s" and "honest_quiescence (services s)" and "node_idle s"
    and "\<And>slot. slot \<in> set (tm_slots (sv_timer_service (services s))) \<Longrightarrow> sint (0 - ts_deadline_ms slot) < 0"
    and "\<not> critical_fault (sv_faults (services s))"
    and "ev_runtime_is_quiescent (Some s) True = (rc, Some r, g)" and "qr_sleep_blocker_actor_mask r = 0"
  shows "rc = EV_OK"
proof -
  have "\<not> due_timer 0 (sv_timer_service (services s))" using assms(4) by (fastforce simp: due_timer_def ev_timer_is_due_def)
  then have "\<not> policy_blocks ev_quiescence_default_policy 0 (services s) r"
    using assms(5,7)
    by (simp add: policy_blocks_def ev_quiescence_default_policy_def deadline_near_def split: prod.split ev_result.split option.split)
  then show ?thesis
    using decision_at [OF assms(1,2) assms(6) [unfolded ev_runtime_is_quiescent_def]] assms(3) by auto
qed

end
