(* ===== verification/EvPowerManager.thy ===== *)
theory EvPowerManager
  imports EvQuiescence
begin

text \<open>
  The power manager (\<open>runtime/src/ev_power_manager.c\<close>): the board's policy on timed sleep in front of the
  quiescence question. A refusal by the node is reported as a fault.
\<close>

section \<open>State and operations\<close>

record ev_power_policy =
  pw_timed_sleep_allowed :: u8
  pw_one_way_sleep_allowed :: u8
  pw_wake_gpio16_available :: u8
  pw_min_sleep_ms :: u32
  pw_max_sleep_ms :: u32
  pw_required_wake_sources :: u32
  pw_required_quiescence_mask :: u32
  pw_log_flush_policy :: u32
  pw_device_park_policy :: u32
  pw_wake_reason_policy :: u32

record ev_power_manager =
  pm_policy :: ev_power_policy
  pm_sleep_accepted :: u32
  pm_sleep_rejected :: u32

definition zero_power_policy :: ev_power_policy where
  "zero_power_policy = \<lparr>pw_timed_sleep_allowed = 0, pw_one_way_sleep_allowed = 0, pw_wake_gpio16_available = 0,
     pw_min_sleep_ms = 0, pw_max_sleep_ms = 0, pw_required_wake_sources = 0, pw_required_quiescence_mask = 0,
     pw_log_flush_policy = 0, pw_device_park_policy = 0, pw_wake_reason_policy = 0\<rparr>"

definition ev_power_manager_init ::
    "ev_power_manager option \<Rightarrow> ev_power_policy option \<Rightarrow> ev_power_manager option" where
  "ev_power_manager_init manager policy =
     map_option (\<lambda>_. \<lparr>pm_policy = (case policy of None \<Rightarrow> zero_power_policy | Some p \<Rightarrow> p),
       pm_sleep_accepted = 0, pm_sleep_rejected = 0\<rparr>) manager"

definition sleep_rejected :: "'u ev_graph \<Rightarrow> ev_power_manager \<Rightarrow> 'u ev_graph \<times> ev_power_manager" where
  "sleep_rejected s m = (count_metric EV_METRIC_SLEEP_REJECTED s, m\<lparr>pm_sleep_rejected := pm_sleep_rejected m + 1\<rparr>)"

definition sleep_fault :: ev_fault_payload where
  "sleep_fault = zero_fault\<lparr>fp_fault_id := EV_FAULT_SLEEP_REJECTED, fp_severity := EV_FAULT_SEV_INFO,
     fp_source_actor := ACT_POWER, fp_triggering_event := EV_SYS_GOTO_SLEEP_CMD\<rparr>"

definition ev_power_manager_can_sleep_at ::
    "'u ev_graph option \<Rightarrow> ev_power_manager option \<Rightarrow> u32 \<Rightarrow> u32 \<Rightarrow> ev_quiescence_policy option \<Rightarrow> bool
       \<Rightarrow> ev_result \<times> ev_quiescence_report option \<times> 'u ev_graph option \<times> ev_power_manager option" where
  "ev_power_manager_can_sleep_at graph manager now_ms requested_sleep_ms quiescence_policy out_report =
     (if graph = None \<or> manager = None \<or> \<not> out_report then (EV_ERR_INVALID_ARG, None, graph, manager)
      else
        let s = the graph; m = the manager
        in if pw_timed_sleep_allowed (pm_policy m) = 0 \<or> requested_sleep_ms < pw_min_sleep_ms (pm_policy m)
              \<or> pw_max_sleep_ms (pm_policy m) < requested_sleep_ms
           then let (s, m) = sleep_rejected s m in (EV_ERR_POLICY, None, Some s, Some m)
           else
             let (rc, report, g) = ev_runtime_is_quiescent_at (Some s) now_ms quiescence_policy out_report; s = the g
             in if rc \<noteq> EV_OK
                then let (_, s) = graph_fault_emit sleep_fault s; (s, m) = sleep_rejected s m
                     in (rc, report, Some s, Some m)
                else (EV_OK, report, Some (count_metric EV_METRIC_SLEEP_ACCEPTED s),
                      Some (m\<lparr>pm_sleep_accepted := pm_sleep_accepted m + 1\<rparr>)))"

definition ev_power_manager_can_sleep ::
    "'u ev_graph option \<Rightarrow> ev_power_manager option \<Rightarrow> u32 \<Rightarrow> bool
       \<Rightarrow> ev_result \<times> ev_quiescence_report option \<times> 'u ev_graph option \<times> ev_power_manager option" where
  "ev_power_manager_can_sleep graph manager requested_sleep_ms out_report =
     ev_power_manager_can_sleep_at graph manager 0 requested_sleep_ms None out_report"

section \<open>The decision\<close>

definition sleep_request_allowed :: "ev_power_policy \<Rightarrow> u32 \<Rightarrow> bool" where
  "sleep_request_allowed p req \<longleftrightarrow> pw_timed_sleep_allowed p \<noteq> 0 \<and> pw_min_sleep_ms p \<le> req \<and> req \<le> pw_max_sleep_ms p"

lemma verdict_services [simp]:
  "sv_faults (services (quiescence_verdict ok s)) = sv_faults (services s)"
  by (simp add: quiescence_verdict_def services_def)

lemma emit_pending:
  assumes "faults_wf (sv_faults (services s))" and "graph_fault_emit f s = (rc, s')"
  shows "faults_wf (sv_faults (services s')) \<and> pending_faults (sv_faults (services s')) = snd (spec_emit f (pending_faults (sv_faults (services s))))"
proof -
  obtain rc1 f1 where e: "ev_fault_emit (Some (sv_faults (services s))) (Some f) = (rc1, f1)" by (rule prod.exhaust)
  from emit_refines [OF assms(1) e] obtain f2 where "f1 = Some f2" "faults_wf f2"
      "(rc1, pending_faults f2) = spec_emit f (pending_faults (sv_faults (services s)))"
    by blast
  moreover from this(3) have "pending_faults f2 = snd (spec_emit f (pending_faults (sv_faults (services s))))"
    by (metis snd_conv)
  ultimately show ?thesis using assms(2) e by (auto simp: graph_fault_emit_def services_def)
qed

section \<open>Properties\<close>

text \<open>
  C5: The power manager permits a timed sleep exactly when the board's policy allows the requested length
  and the node may sleep. A request outside the policy is \<open>EV_ERR_POLICY\<close>, without asking the node and
  without a report; a node that is busy answers \<open>EV_ERR_NOT_READY\<close> and leaves a sleep-rejected fault
  pending. Each request moves exactly one of the two counters.
\<close>
theorem sleep_permission:
  assumes wf: "services_wf s" "honest_quiescence (services s)"
    and run: "ev_power_manager_can_sleep_at (Some s) (Some m) now req (Some p) True = (rc, rep, g, m')"
  shows "\<exists>s' m1. g = Some s' \<and> m' = Some m1 \<and> pm_policy m1 = pm_policy m
     \<and> pm_sleep_accepted m1 = pm_sleep_accepted m + (if rc = EV_OK then 1 else 0)
     \<and> pm_sleep_rejected m1 = pm_sleep_rejected m + (if rc = EV_OK then 0 else 1)
     \<and> (if \<not> sleep_request_allowed (pm_policy m) req then rc = EV_ERR_POLICY \<and> rep = None
        else \<exists>r. rep = Some r \<and> (if node_idle s \<and> \<not> policy_blocks p now (services s) r then rc = EV_OK
          else rc = EV_ERR_NOT_READY
            \<and> pending_faults (sv_faults (services s')) = snd (spec_emit sleep_fault (pending_faults (sv_faults (services s))))))"
proof (cases "sleep_request_allowed (pm_policy m) req")
  case False
  then show ?thesis
    using run by (auto simp: ev_power_manager_can_sleep_at_def sleep_request_allowed_def sleep_rejected_def not_less not_le
        split: if_splits)
next
  case True
  note ok = this
  obtain rc1 rep1 g1 where q: "ev_runtime_is_quiescent_at (Some s) now (Some p) True = (rc1, rep1, g1)" by (rule prod_cases3)
  from decision_at [OF wf q] obtain r u b where D: "rep1 = Some r" "g1 = Some (quiescence_verdict b (with_user u s))"
      "rc1 = (if b then EV_OK else EV_ERR_NOT_READY)" "b \<longleftrightarrow> node_idle s \<and> \<not> policy_blocks p now (services s) r"
    by blast
  let ?t = "quiescence_verdict b (with_user u s)"
  have guard: "\<not> (pw_timed_sleep_allowed (pm_policy m) = 0 \<or> req < pw_min_sleep_ms (pm_policy m) \<or> pw_max_sleep_ms (pm_policy m) < req)"
    using ok by (auto simp: sleep_request_allowed_def)
  obtain e t1 where t1: "graph_fault_emit sleep_fault ?t = (e, t1)" by (rule prod.exhaust)
  have tf: "sv_faults (services ?t) = sv_faults (services s)" by simp
  have "faults_wf (sv_faults (services ?t))" using wf(1) unfolding tf by (simp add: services_wf_def)
  from emit_pending [OF this t1, unfolded tf]
  have pend: "pending_faults (sv_faults (services (count_metric EV_METRIC_SLEEP_REJECTED t1)))
      = snd (spec_emit sleep_fault (pending_faults (sv_faults (services s))))"
    by (simp add: services_def)
  have eq: "ev_power_manager_can_sleep_at (Some s) (Some m) now req (Some p) True =
      (if b then (EV_OK, Some r, Some (count_metric EV_METRIC_SLEEP_ACCEPTED ?t), Some (m\<lparr>pm_sleep_accepted := pm_sleep_accepted m + 1\<rparr>))
       else (EV_ERR_NOT_READY, Some r, Some (count_metric EV_METRIC_SLEEP_REJECTED t1), Some (m\<lparr>pm_sleep_rejected := pm_sleep_rejected m + 1\<rparr>)))"
    unfolding ev_power_manager_can_sleep_at_def Let_def option.sel if_not_P [OF guard] q prod.case D(1,2) sleep_rejected_def t1
    using D(3) by simp
  note out = trans [OF eq [symmetric] run]
  show ?thesis
  proof (cases b)
    case True
    then show ?thesis using out ok D(4) by auto
  next
    case False
    then have "\<not> (node_idle s \<and> \<not> policy_blocks p now (services s) r)" using D(4) by blast
    then show ?thesis using out ok pend False by (auto simp del: count_metric_frames intro!: exI [of _ r])
  qed
qed

definition demo_power_manager :: ev_power_manager where
  "demo_power_manager = \<lparr>pm_policy = zero_power_policy\<lparr>pw_timed_sleep_allowed := 1, pw_min_sleep_ms := 10, pw_max_sleep_ms := 60000\<rparr>,
     pm_sleep_accepted = 0, pm_sleep_rejected = 0\<rparr>"

theorem sleep_permission_witness:
  "\<exists>rep g m. ev_power_manager_can_sleep_at (Some demo_sleepy_graph) (Some demo_power_manager) 150 1000 (Some ev_quiescence_default_policy) True
       = (EV_ERR_NOT_READY, rep, Some g, Some m)
     \<and> pm_sleep_rejected m = 1 \<and> pending_faults (sv_faults (services g)) = [sleep_fault\<lparr>fp_counter := 1\<rparr>]"
proof -
  obtain rc rep g m' where r: "ev_power_manager_can_sleep_at (Some demo_sleepy_graph) (Some demo_power_manager) 150 1000
      (Some ev_quiescence_default_policy) True = (rc, rep, g, m')" by (rule prod_cases4)
  have v: "sv_timer_service (services demo_sleepy_graph) = zero_timers\<lparr>tm_slots := (tm_slots zero_timers)[0 := demo_timer_slot]\<rparr>"
    "sv_faults (services demo_sleepy_graph) = zero_faults"
    by (simp_all add: demo_sleepy_services zero_services_def)
  have "due_timer 150 (sv_timer_service (services demo_sleepy_graph))" unfolding v by code_simp
  then have blocked: "policy_blocks ev_quiescence_default_policy 150 (services demo_sleepy_graph) q" for q
    by (simp add: policy_blocks_def ev_quiescence_default_policy_def)
  have allowed: "sleep_request_allowed (pm_policy demo_power_manager) 1000" by code_simp
  have z: "pm_sleep_rejected demo_power_manager = 0" by (simp add: demo_power_manager_def)
  have e: "snd (spec_emit sleep_fault (pending_faults (sv_faults (services demo_sleepy_graph)))) = [sleep_fault\<lparr>fp_counter := 1\<rparr>]"
    unfolding v by code_simp
  show ?thesis
    using sleep_permission [OF demo_sleepy_ready(1,2) r] blocked allowed e z r by auto
qed

end
