(* ===== verification/EvBuilder.thy ===== *)
theory EvBuilder
  imports EvPowerManager
begin

text \<open>
  Building a runtime graph (\<open>runtime/src/ev_runtime_graph.c\<close>): the builder collects actor instances and
  modules, classifies the static routes for the build, then initialises mailboxes, runtimes, registry and
  scheduler. A builder holds the graph it points to. The validation of instances is
  \<open>runtime/src/ev_actor_instance.c\<close>; the default functions of modules are \<open>runtime/src/ev_actor_modules.c\<close>.
\<close>

section \<open>State\<close>

record 'u ev_runtime_builder =
  bd_graph :: "'u ev_graph option"
  bd_board_caps :: ev_capability_mask
  bd_runtime_caps :: ev_capability_mask
  bd_requested :: "u8 list"
  bd_last_error :: ev_result
  bd_configured_ports :: "'u ev_runtime_ports"
  bd_configured_board_profile :: ev_runtime_board_profile
  bd_configured_ports_set :: u8
  bd_configured_board_profile_set :: u8
  bd_route_validation_flags :: u32

record ev_runtime_graph_stats =
  gs_actor_count :: nat
  gs_pending_actor_messages :: nat
  gs_pending_ingress_events :: nat
  gs_pending_timers :: nat
  gs_faults_emitted :: u32
  gs_metrics_post_ok :: u32

text \<open>What \<open>memset\<close> leaves of the objects of a graph.\<close>

definition zero_mailbox :: ev_mailbox where
  "zero_mailbox = \<lparr>mb_kind = EV_MAILBOX_FIFO_8, mb_storage = None, mb_storage_count = 0, mb_storage_mask = 0,
     mb_head = 0, mb_tail = 0, mb_count = 0, mb_stats = zero_mailbox_stats\<rparr>"

definition zero_runtime :: ev_actor_runtime where
  "zero_runtime = \<lparr>ar_actor_id = 0, ar_mailbox = None, ar_handler = None, ar_actor_context = None,
     ar_stats = zero_ar_stats\<rparr>"

definition zero_ports :: "'u ev_runtime_ports" where
  "zero_ports = \<lparr>rp_clock_mono_now_us = None, rp_log_pending = None\<rparr>"

text \<open>The application's state is not part of the graph and stays.\<close>

definition zero_graph :: "'u ev_graph \<Rightarrow> 'u ev_graph" where
  "zero_graph s = zero_scheduler (upd_services (\<lambda>v. zero_services (sv_user v))
     (s\<lparr>sy_mailbox := (\<lambda>i. if i < nat EV_ACTOR_COUNT then zero_mailbox else sy_mailbox s i),
        sy_runtime := (\<lambda>i. if i < nat EV_ACTOR_COUNT then zero_runtime else sy_runtime s i),
        sy_registry := (sy_registry s)(graph_registry := \<lparr>rg_slots = replicate (nat EV_ACTOR_COUNT) None,
          rg_stats = zero_rg_stats\<rparr>)\<rparr>))"

section \<open>Initialisation\<close>

definition ev_runtime_graph_init ::
    "'u ev_graph option \<Rightarrow> ev_capability_mask \<Rightarrow> ev_capability_mask \<Rightarrow> ev_result \<times> 'u ev_graph option" where
  "ev_runtime_graph_init graph board_caps runtime_caps =
     (case graph of None \<Rightarrow> (EV_ERR_INVALID_ARG, None)
      | Some s \<Rightarrow>
        let (_, s1) = ev_actor_registry_init (Some graph_registry) (zero_graph s)
        in (EV_OK, Some (upd_services (\<lambda>v. v\<lparr>
              sv_timer_service := the (ev_timer_service_init (Some (sv_timer_service v))),
              sv_ingress_service := the (ev_ingress_service_init (Some (sv_ingress_service v))),
              sv_quiescence_service := the (ev_quiescence_service_init (Some (sv_quiescence_service v))),
              sv_faults := the (ev_fault_registry_init (Some (sv_faults v))),
              sv_metrics := the (ev_metric_registry_init (Some (sv_metrics v))),
              sv_trace_ring := the (ev_trace_ring_init (Some (sv_trace_ring v))),
              sv_active_routes := the (ev_active_route_table_init (Some (sv_active_routes v))),
              sv_board_capabilities := \<lparr>bc_configured = board_caps, bc_active = board_caps, bc_observed = 0\<rparr>,
              sv_runtime_capabilities := \<lparr>rc_configured = runtime_caps, rc_active = runtime_caps, rc_required = 0\<rparr>,
              sv_lifecycle := replicate (nat EV_ACTOR_COUNT) EV_ACTOR_STATE_UNINITIALIZED\<rparr>) s1)))"

definition ev_runtime_builder_init ::
    "'u ev_runtime_builder option \<Rightarrow> 'u ev_graph option \<Rightarrow> ev_capability_mask \<Rightarrow> ev_capability_mask
       \<Rightarrow> ev_result \<times> 'u ev_runtime_builder option" where
  "ev_runtime_builder_init builder graph board_caps runtime_caps =
     (if builder = None \<or> graph = None then (EV_ERR_INVALID_ARG, builder)
      else
        let (rc, g) = ev_runtime_graph_init graph board_caps runtime_caps
        in (rc, Some \<lparr>bd_graph = g, bd_board_caps = board_caps, bd_runtime_caps = runtime_caps,
              bd_requested = replicate (nat EV_ACTOR_COUNT) 0, bd_last_error = EV_OK,
              bd_configured_ports = zero_ports, bd_configured_board_profile = zero_profile,
              bd_configured_ports_set = 0, bd_configured_board_profile_set = 0, bd_route_validation_flags = 0\<rparr>))"

text \<open>The graph a builder points to; the functions below check that there is one.\<close>

definition upd_builder_graph :: "('u ev_graph \<Rightarrow> 'u ev_graph) \<Rightarrow> 'u ev_runtime_builder \<Rightarrow> 'u ev_runtime_builder" where
  "upd_builder_graph f b = b\<lparr>bd_graph := map_option f (bd_graph b)\<rparr>"

definition builder_ready :: "'u ev_runtime_builder option \<Rightarrow> bool" where
  "builder_ready builder \<longleftrightarrow> (case builder of None \<Rightarrow> False | Some b \<Rightarrow> bd_graph b \<noteq> None)"

definition ev_runtime_builder_set_ports ::
    "'u ev_runtime_builder option \<Rightarrow> 'u ev_runtime_ports option \<Rightarrow> ev_result \<times> 'u ev_runtime_builder option" where
  "ev_runtime_builder_set_ports builder ports =
     (if \<not> builder_ready builder \<or> ports = None then (EV_ERR_INVALID_ARG, builder)
      else (EV_OK, Some (upd_builder_graph (upd_services (\<lambda>v. v\<lparr>sv_ports := the ports\<rparr>))
             ((the builder)\<lparr>bd_configured_ports := the ports, bd_configured_ports_set := 1\<rparr>))))"

definition ev_runtime_builder_set_board_profile ::
    "'u ev_runtime_builder option \<Rightarrow> ev_runtime_board_profile option \<Rightarrow> ev_result \<times> 'u ev_runtime_builder option" where
  "ev_runtime_builder_set_board_profile builder profile =
     (if \<not> builder_ready builder \<or> profile = None then (EV_ERR_INVALID_ARG, builder)
      else
        let p = the profile;
            b = (the builder)\<lparr>bd_configured_board_profile := p, bd_configured_board_profile_set := 1\<rparr>;
            b = upd_builder_graph (upd_services (\<lambda>v. v\<lparr>sv_board_profile := p\<rparr>)) b;
            b = (if bp_configured_capabilities p \<noteq> 0
                 then upd_builder_graph (upd_services (\<lambda>v. v\<lparr>sv_board_capabilities :=
                        (sv_board_capabilities v)\<lparr>bc_configured := bp_configured_capabilities p\<rparr>\<rparr>))
                        (b\<lparr>bd_board_caps := bp_configured_capabilities p\<rparr>)
                 else b);
            b = (if bp_active_capabilities p \<noteq> 0
                 then upd_builder_graph (upd_services (\<lambda>v. v\<lparr>sv_board_capabilities :=
                        (sv_board_capabilities v)\<lparr>bc_active := bp_active_capabilities p\<rparr>\<rparr>)) b
                 else b)
        in (EV_OK, Some (upd_builder_graph (upd_services (\<lambda>v. v\<lparr>sv_board_capabilities :=
              (sv_board_capabilities v)\<lparr>bc_observed := bp_observed_capabilities p\<rparr>\<rparr>)) b)))"

section \<open>Instances and modules\<close>

definition ev_actor_instance_validate :: "'u ev_actor_instance_descriptor option \<Rightarrow> ev_result" where
  "ev_actor_instance_validate inst =
     (case inst of None \<Rightarrow> EV_ERR_INVALID_ARG
      | Some i \<Rightarrow>
        if in_module i = None then EV_ERR_INVALID_ARG
        else if \<not> ev_actor_id_is_valid (in_actor_id i) then EV_ERR_OUT_OF_RANGE
        else if mod_actor_id (the (in_module i)) \<noteq> in_actor_id i then EV_ERR_CONTRACT
        else if in_handler_fn i = None \<and> mod_handler_fn (the (in_module i)) = None then EV_ERR_INVALID_ARG
        else if 0 < in_actor_context_size i \<and> in_actor_context i = None then EV_ERR_INVALID_ARG
        else EV_OK)"

text \<open>The default functions every module descriptor holds. The last two are only stored: tags stand for them.\<close>

definition default_quiescence_fn :: "ptr \<Rightarrow> ev_quiescence_report \<Rightarrow> 'u \<Rightarrow> ev_result \<times> ev_quiescence_report \<times> 'u" where
  "default_quiescence_fn ctx report u = (let (rc, r, u) = ev_default_quiescence ctx (Some report) u in (rc, the r, u))"

abbreviation EV_DEFAULT_MODULE_STATS :: nat where "EV_DEFAULT_MODULE_STATS \<equiv> 0"
abbreviation EV_DEFAULT_LIFECYCLE :: nat where "EV_DEFAULT_LIFECYCLE \<equiv> 0"

definition ev_default_module_init ::
    "'u ev_graph option \<Rightarrow> ev_actor_module_descriptor option \<Rightarrow> ev_result \<times> 'u ev_graph option" where
  "ev_default_module_init graph descriptor =
     (case (graph, descriptor) of
        (Some s, Some d) \<Rightarrow> (EV_OK, Some (upd_services (\<lambda>v. v\<lparr>sv_runtime_capabilities := (sv_runtime_capabilities v)\<lparr>
            rc_active := rc_active (sv_runtime_capabilities v) OR mod_provided_capabilities d\<rparr>\<rparr>) s))
      | _ \<Rightarrow> (EV_ERR_INVALID_ARG, graph))"

definition ev_default_module_bind ::
    "'u ev_graph option \<Rightarrow> ev_actor_module_descriptor option \<Rightarrow> ev_result" where
  "ev_default_module_bind graph descriptor =
     (if graph = None \<or> descriptor = None then EV_ERR_INVALID_ARG else EV_OK)"

definition ev_runtime_builder_add_instance ::
    "'u ev_runtime_builder option \<Rightarrow> 'u ev_actor_instance_descriptor option \<Rightarrow> ev_result \<times> 'u ev_runtime_builder option" where
  "ev_runtime_builder_add_instance builder inst =
     (if \<not> builder_ready builder \<or> inst = None then (EV_ERR_INVALID_ARG, builder)
      else
        let b = the builder; rc = ev_actor_instance_validate inst; i = the inst
        in if rc \<noteq> EV_OK then (rc, Some (b\<lparr>bd_last_error := rc\<rparr>))
           else if in_required_capabilities i AND bd_board_caps b \<noteq> in_required_capabilities i
           then (EV_ERR_NO_CAPABILITY, Some (b\<lparr>bd_last_error := EV_ERR_NO_CAPABILITY\<rparr>))
           else
             let a = nat (in_actor_id i);
                 stored = (if in_handler_fn i = None then i\<lparr>in_handler_fn := mod_handler_fn (the (in_module i))\<rparr> else i);
                 stored = (if in_quiescence_fn stored = None
                           then stored\<lparr>in_quiescence_fn := Some default_quiescence_fn\<rparr> else stored);
                 stored = (if in_stats_fn stored = None
                           then stored\<lparr>in_stats_fn := Some EV_DEFAULT_MODULE_STATS\<rparr> else stored);
                 stored = (if in_lifecycle_fn stored = None
                           then stored\<lparr>in_lifecycle_fn := Some EV_DEFAULT_LIFECYCLE\<rparr> else stored)
             in (EV_OK, Some (upd_builder_graph (upd_services (\<lambda>v. v\<lparr>sv_instances := (sv_instances v)[a := stored],
                    sv_instance_bound := (sv_instance_bound v)[a := 1]\<rparr>))
                  (b\<lparr>bd_requested := (bd_requested b)[a := 1]\<rparr>))))"

text \<open>The size of an actor context: a pointer and an enumeration on a 32-bit target.\<close>

abbreviation EV_RUNTIME_ACTOR_CONTEXT_SIZE :: nat where "EV_RUNTIME_ACTOR_CONTEXT_SIZE \<equiv> 8"

definition module_instance :: "ev_actor_id \<Rightarrow> ev_actor_module_descriptor \<Rightarrow> 'u ev_actor_instance_descriptor" where
  "module_instance actor_id d = zero_instance\<lparr>in_actor_id := actor_id, in_module := Some d,
     in_actor_context := Some (nat actor_id), in_actor_context_size := EV_RUNTIME_ACTOR_CONTEXT_SIZE,
     in_handler_fn := mod_handler_fn d, in_quiescence_fn := Some default_quiescence_fn,
     in_stats_fn := Some EV_DEFAULT_MODULE_STATS, in_lifecycle_fn := Some EV_DEFAULT_LIFECYCLE,
     in_required_capabilities := mod_required_board_capabilities d\<rparr>"

definition ev_runtime_builder_add_module ::
    "'u ev_runtime_builder option \<Rightarrow> ev_actor_id \<Rightarrow> ev_result \<times> 'u ev_runtime_builder option" where
  "ev_runtime_builder_add_module builder actor_id =
     (case builder of None \<Rightarrow> (EV_ERR_INVALID_ARG, None)
      | Some b \<Rightarrow>
        let fail = (\<lambda>rc. (rc, Some (b\<lparr>bd_last_error := rc\<rparr>)))
        in if \<not> ev_actor_id_is_valid actor_id then fail EV_ERR_OUT_OF_RANGE
           else case ev_actor_module_find actor_id of
                  None \<Rightarrow> fail EV_ERR_NOT_FOUND
                | Some d \<Rightarrow>
                    if mod_required_board_capabilities d AND bd_board_caps b \<noteq> mod_required_board_capabilities d
                    then fail EV_ERR_NO_CAPABILITY
                    else if mod_required_runtime_capabilities d AND bd_runtime_caps b \<noteq> mod_required_runtime_capabilities d
                    then fail EV_ERR_NO_CAPABILITY
                    else ev_runtime_builder_add_instance builder (Some (module_instance actor_id d)))"

definition ev_runtime_builder_set_route_validation_flags ::
    "'u ev_runtime_builder option \<Rightarrow> u32 \<Rightarrow> ev_result \<times> 'u ev_runtime_builder option" where
  "ev_runtime_builder_set_route_validation_flags builder flags =
     (case builder of None \<Rightarrow> (EV_ERR_INVALID_ARG, None)
      | Some b \<Rightarrow> (EV_OK, Some (b\<lparr>bd_route_validation_flags := flags\<rparr>)))"

section \<open>Binding the routes\<close>

text \<open>The contract report of the validation is discarded, so none is passed.\<close>

definition ev_runtime_builder_classify_route ::
    "'u ev_runtime_builder option \<Rightarrow> ev_route option \<Rightarrow> ev_active_route_state \<times> ev_result" where
  "ev_runtime_builder_classify_route builder route =
     (if builder = None \<or> route = None then (EV_ACTIVE_ROUTE_REJECTED_INVALID_EVENT, EV_ERR_INVALID_ARG)
      else
        let b = the builder; r = the route
        in if \<not> ev_event_id_is_valid (rt_event_id r) then (EV_ACTIVE_ROUTE_REJECTED_INVALID_EVENT, EV_ERR_OUT_OF_RANGE)
           else if \<not> ev_actor_id_is_valid (rt_target_actor r)
           then (EV_ACTIVE_ROUTE_REJECTED_INVALID_ACTOR, EV_ERR_OUT_OF_RANGE)
           else case ev_actor_module_find (rt_target_actor r) of
                  None \<Rightarrow> (EV_ACTIVE_ROUTE_REJECTED_INVALID_ACTOR, EV_ERR_NOT_FOUND)
                | Some d \<Rightarrow>
                    let qos_rc = fst (ev_qos_validate_route_against_module route (Some d) None)
                    in if qos_rc \<noteq> EV_OK then (EV_ACTIVE_ROUTE_REJECTED_QOS_CONFLICT, qos_rc)
                       else if bd_requested b ! nat (rt_target_actor r) \<noteq> 0 then (EV_ACTIVE_ROUTE_ENABLED, EV_OK)
                       else
                         let missing_board = mod_required_board_capabilities d AND NOT (bd_board_caps b);
                             missing_runtime = mod_required_runtime_capabilities d AND NOT (bd_runtime_caps b)
                         in if missing_board \<noteq> 0 \<or> missing_runtime \<noteq> 0
                               \<or> bd_route_validation_flags b AND EV_RUNTIME_ROUTE_VALIDATE_STRICT_MANDATORY = 0
                            then (EV_ACTIVE_ROUTE_OPTIONAL_DISABLED, EV_ERR_NO_CAPABILITY)
                            else (EV_ACTIVE_ROUTE_REJECTED_MISSING_MANDATORY_ACTOR, EV_ERR_NOT_FOUND))"

definition ev_runtime_builder_emit_route_fault ::
    "'u ev_graph option \<Rightarrow> ev_route option \<Rightarrow> ev_active_route_state \<Rightarrow> ev_result \<Rightarrow> 'u ev_graph option" where
  "ev_runtime_builder_emit_route_fault graph route state reason =
     (case (graph, route) of
        (Some s, Some r) \<Rightarrow>
          let fault = zero_fault\<lparr>fp_source_actor := ACT_RUNTIME, fp_triggering_event := rt_event_id r,
                fp_arg0 := word_of_int (rt_target_actor r), fp_arg1 := word_of_int (- result_value reason),
                fp_severity := EV_FAULT_SEV_ERROR\<rparr>;
              fault = (case state of
                  EV_ACTIVE_ROUTE_REJECTED_QOS_CONFLICT \<Rightarrow> fault\<lparr>fp_fault_id := EV_FAULT_ROUTE_QOS_CONFLICT\<rparr>
                | EV_ACTIVE_ROUTE_REJECTED_MISSING_MANDATORY_ACTOR \<Rightarrow>
                    fault\<lparr>fp_fault_id := EV_FAULT_ROUTE_MISSING_CRITICAL_TARGET, fp_severity := EV_FAULT_SEV_CRITICAL\<rparr>
                | EV_ACTIVE_ROUTE_REJECTED_OVERFLOW \<Rightarrow> fault\<lparr>fp_fault_id := EV_FAULT_ACTIVE_ROUTE_TABLE_OVERFLOW\<rparr>
                | _ \<Rightarrow> fault\<lparr>fp_fault_id := EV_FAULT_ROUTE_VALIDATION_REJECTED\<rparr>);
              (rc, s1) = graph_fault_emit fault s
          in Some (if rc = EV_OK then count_metric EV_METRIC_FAULT_EMITTED s1 else s1)
      | _ \<Rightarrow> graph)"

definition graph_route_add :: "ev_route \<Rightarrow> ev_active_route_state \<Rightarrow> ev_result \<Rightarrow> 'u ev_graph \<Rightarrow> ev_result \<times> 'u ev_graph" where
  "graph_route_add route state reason s =
     (let (rc, t) = ev_active_route_table_add (Some (sv_active_routes (services s))) (Some route) state reason
      in (rc, upd_services (\<lambda>v. v\<lparr>sv_active_routes := the t\<rparr>) s))"

text \<open>
  The loop of \<open>ev_runtime_builder_bind_routes\<close>: \<open>n\<close> more routes from index \<open>i\<close>. The first result says
  whether the loop ran to its end (\<open>None\<close>) or returned a code.
\<close>

primrec bind_routes_loop ::
    "'u ev_runtime_builder \<Rightarrow> nat \<Rightarrow> nat \<Rightarrow> 'u ev_graph \<Rightarrow> ev_result option \<times> 'u ev_graph" where
  "bind_routes_loop b i 0 s = (None, s)"
| "bind_routes_loop b i (Suc n) s =
     (case ev_route_at i of
        None \<Rightarrow> bind_routes_loop b (Suc i) n s
      | Some route \<Rightarrow>
          let (state, reason) = ev_runtime_builder_classify_route (Some b) (Some route);
              (rc, s) = graph_route_add route state reason s
          in if rc \<noteq> EV_OK
             then
               let (_, s) = graph_route_add route EV_ACTIVE_ROUTE_REJECTED_OVERFLOW EV_ERR_FULL s;
                   s = count_metric EV_METRIC_ROUTE_ACTIVE_TABLE_OVERFLOW s;
                   s = the (ev_runtime_builder_emit_route_fault (Some s) (Some route) EV_ACTIVE_ROUTE_REJECTED_OVERFLOW EV_ERR_FULL)
               in (Some EV_ERR_FULL, s)
             else if state = EV_ACTIVE_ROUTE_OPTIONAL_DISABLED
             then bind_routes_loop b (Suc i) n (count_metric EV_METRIC_ROUTE_OPTIONAL_DISABLED s)
             else if state \<noteq> EV_ACTIVE_ROUTE_ENABLED
             then
               let s = count_metric EV_METRIC_ROUTE_VALIDATION_REJECTED s;
                   s = (if state = EV_ACTIVE_ROUTE_REJECTED_QOS_CONFLICT then count_metric EV_METRIC_ROUTE_QOS_CONFLICT s else s);
                   s = the (ev_runtime_builder_emit_route_fault (Some s) (Some route) state reason)
               in if bd_route_validation_flags b AND EV_RUNTIME_ROUTE_VALIDATE_STRICT_MANDATORY \<noteq> 0
                  then (Some reason, s) else bind_routes_loop b (Suc i) n s
             else bind_routes_loop b (Suc i) n s)"

definition ev_runtime_builder_bind_routes ::
    "'u ev_runtime_builder option \<Rightarrow> ev_result \<times> 'u ev_runtime_builder option" where
  "ev_runtime_builder_bind_routes builder =
     (if \<not> builder_ready builder then (EV_ERR_INVALID_ARG, builder)
      else
        let b = the builder;
            s = upd_services (\<lambda>v. v\<lparr>sv_active_routes_bound := 0,
                  sv_active_routes := the (ev_active_route_table_init (Some (sv_active_routes v)))\<rparr>) (the (bd_graph b));
            (stop, s) = bind_routes_loop b 0 ev_route_count s
        in case stop of
             Some rc \<Rightarrow> (rc, Some (b\<lparr>bd_graph := Some s, bd_last_error := rc\<rparr>))
           | None \<Rightarrow>
               let (rc, t) = ev_active_route_table_finalize_spans (Some (sv_active_routes (services s)));
                   s = upd_services (\<lambda>v. v\<lparr>sv_active_routes := the t\<rparr>) s
               in if rc \<noteq> EV_OK then (rc, Some (b\<lparr>bd_graph := Some s, bd_last_error := rc\<rparr>))
                  else (EV_OK, Some (b\<lparr>bd_graph := Some (upd_services (\<lambda>v. v\<lparr>sv_active_routes_bound := 1\<rparr>) s)\<rparr>)))"

section \<open>Building\<close>

text \<open>The loop of \<open>ev_runtime_builder_active_domain_mask\<close>.\<close>

primrec domain_mask_loop :: "u8 list \<Rightarrow> nat \<Rightarrow> nat \<Rightarrow> u32 \<Rightarrow> u32" where
  "domain_mask_loop requested i 0 m = m"
| "domain_mask_loop requested i (Suc n) m =
     domain_mask_loop requested (Suc i) n
       (if requested ! i \<noteq> 0
        then (case ev_actor_meta (int i) of None \<Rightarrow> m
              | Some meta \<Rightarrow> m OR EV_RUNTIME_DOMAIN_MASK (am_execution_domain meta))
        else m)"

definition ev_runtime_builder_active_domain_mask :: "'u ev_runtime_builder option \<Rightarrow> u32" where
  "ev_runtime_builder_active_domain_mask builder =
     (case builder of None \<Rightarrow> 0 | Some b \<Rightarrow> domain_mask_loop (bd_requested b) 0 (nat EV_ACTOR_COUNT) 0)"

abbreviation EV_RUNTIME_MAILBOX_CAPACITY_MAX :: nat where "EV_RUNTIME_MAILBOX_CAPACITY_MAX \<equiv> 16"

definition ev_runtime_mailbox_capacity_is_power_of_two :: "nat \<Rightarrow> bool" where
  "ev_runtime_mailbox_capacity_is_power_of_two capacity \<longleftrightarrow> capacity \<noteq> 0 \<and> capacity AND (capacity - 1) = 0"

text \<open>The storage handed out is the slice of the graph's array at an offset, so the offset and the capacity.\<close>

definition ev_runtime_mailbox_storage_for_actor ::
    "'u ev_graph option \<Rightarrow> ev_actor_id \<Rightarrow> ev_actor_meta_t option \<Rightarrow> ev_result \<times> (nat \<times> nat) option" where
  "ev_runtime_mailbox_storage_for_actor graph actor_id meta =
     (if graph = None \<or> meta = None then (EV_ERR_INVALID_ARG, None)
      else case ev_actor_mailbox_layout_lookup actor_id of
             None \<Rightarrow> (EV_ERR_CONTRACT, None)
           | Some layout \<Rightarrow>
               let expected_capacity = ev_mailbox_kind_capacity (am_mailbox_kind (the meta))
               in if ml_actor_id layout \<noteq> actor_id \<or> ml_mailbox_kind layout \<noteq> am_mailbox_kind (the meta)
                     \<or> ml_capacity layout \<noteq> expected_capacity \<or> expected_capacity = 0
                     \<or> EV_RUNTIME_MAILBOX_CAPACITY_MAX < ml_capacity layout
                     \<or> EV_RUNTIME_MAILBOX_TOTAL_CAPACITY < ml_offset layout
                     \<or> EV_RUNTIME_MAILBOX_TOTAL_CAPACITY - ml_offset layout < ml_capacity layout
                     \<or> \<not> ev_runtime_mailbox_capacity_is_power_of_two (ml_capacity layout)
                  then (EV_ERR_CONTRACT, None)
                  else (EV_OK, Some (ml_offset layout, ml_capacity layout)))"

text \<open>
  One actor of the build. The mailbox keeps a list of its own for its slice, which \<open>ev_mailbox_init\<close>
  clears, so what the slice held does not matter. The second result of a step is the graph; a code other
  than \<open>EV_OK\<close> ends the build and becomes the builder's last error.
\<close>

definition instance_init :: "nat \<Rightarrow> 'u ev_graph \<Rightarrow> ev_result \<times> 'u ev_graph" where
  "instance_init i s =
     (let v = services s; inst = sv_instances v ! i
      in if sv_instance_bound v ! i \<noteq> 0 \<and> in_init_fn inst \<noteq> None
         then let (rc, u) = the (in_init_fn inst) (ar_actor_context (sy_runtime s i)) (sv_ports v) (sv_board_profile v)
                    (in_user inst) (sv_user v)
              in (rc, upd_services (\<lambda>v. v\<lparr>sv_user := u\<rparr>) s)
         else (EV_OK, s))"

definition bind_actor :: "nat \<Rightarrow> ev_actor_meta_t \<Rightarrow> ev_actor_module_descriptor \<Rightarrow> nat \<Rightarrow> 'u ev_graph \<Rightarrow> ev_result \<times> 'u ev_graph" where
  "bind_actor i meta d cap s =
     (let v = services s; inst = sv_instances v ! i; bound = sv_instance_bound v ! i \<noteq> 0;
          actor_context = (if bound \<and> in_actor_context inst \<noteq> None then in_actor_context inst else Some i);
          handler_fn = (if bound \<and> in_handler_fn inst \<noteq> None then in_handler_fn inst else mod_handler_fn d);
          (rc, mb) = ev_mailbox_init (Some (sy_mailbox s i)) (am_mailbox_kind meta) (Some (replicate cap zero_msg)) cap;
          s = upd_mailbox i (\<lambda>_. the mb) s
      in if rc \<noteq> EV_OK then (rc, s)
         else
           let (rc, s) = ev_actor_runtime_init (Some i) (int i) (Some i) handler_fn actor_context s
           in if rc \<noteq> EV_OK then (rc, s) else ev_actor_registry_bind (Some graph_registry) (Some i) s)"

definition build_actor :: "nat \<Rightarrow> 'u ev_graph \<Rightarrow> ev_result \<times> 'u ev_graph" where
  "build_actor i s =
     (let actor_id = int i
      in case (ev_actor_meta actor_id, ev_actor_module_find actor_id) of
           (Some meta, Some d) \<Rightarrow>
             let (rc, storage) = ev_runtime_mailbox_storage_for_actor (Some s) actor_id (Some meta)
             in if rc \<noteq> EV_OK then (rc, s)
                else
                  let (rc, s) = bind_actor i meta d (snd (the storage)) s
                  in if rc \<noteq> EV_OK then (rc, s)
                     else
                       let s = upd_services (\<lambda>v. v\<lparr>sv_actor_enabled := (sv_actor_enabled v)[i := 1],
                                 sv_descriptors := (sv_descriptors v)[i := Some d],
                                 sv_lifecycle := (sv_lifecycle v)[i := EV_ACTOR_STATE_READY]\<rparr>) s;
                           (rc, s) = instance_init i s
                       in if rc \<noteq> EV_OK then (rc, s)
                          else
                            let (rc, g) = ev_default_module_init (Some s) (Some d); s = the g
                            in if rc \<noteq> EV_OK then (rc, s) else (ev_default_module_bind (Some s) (Some d), s)
         | _ \<Rightarrow> (EV_ERR_NOT_FOUND, s))"

primrec build_loop :: "u8 list \<Rightarrow> nat \<Rightarrow> nat \<Rightarrow> 'u ev_graph \<Rightarrow> ev_result \<times> 'u ev_graph" where
  "build_loop requested i 0 s = (EV_OK, s)"
| "build_loop requested i (Suc n) s =
     (if requested ! i \<noteq> 0
      then let (rc, s) = build_actor i s in if rc \<noteq> EV_OK then (rc, s) else build_loop requested (Suc i) n s
      else build_loop requested (Suc i) n s)"

definition ev_runtime_builder_build :: "'u ev_runtime_builder option \<Rightarrow> ev_result \<times> 'u ev_runtime_builder option" where
  "ev_runtime_builder_build builder =
     (if \<not> builder_ready builder then (EV_ERR_INVALID_ARG, builder)
      else
        let (rc, builder) =
              (if sv_active_routes_bound (services (the (bd_graph (the builder)))) = 0
               then ev_runtime_builder_bind_routes builder else (EV_OK, builder));
            b = the builder
        in if rc \<noteq> EV_OK then (rc, builder)
           else
             let (rc, s) = build_loop (bd_requested b) 0 (nat EV_ACTOR_COUNT) (the (bd_graph b))
             in if rc \<noteq> EV_OK then (rc, Some (b\<lparr>bd_graph := Some s, bd_last_error := rc\<rparr>))
                else
                  let (rc, g) = ev_runtime_scheduler_init (Some s) (Some graph_registry)
                        (ev_runtime_builder_active_domain_mask (Some b))
                  in if rc \<noteq> EV_OK then (rc, Some (b\<lparr>bd_graph := g, bd_last_error := rc\<rparr>))
                     else (EV_OK, Some (b\<lparr>bd_graph := g\<rparr>)))"

section \<open>The rest of the graph's interface\<close>

definition ev_runtime_graph_publish ::
    "'u ev_services ev_env \<Rightarrow> 'u ev_graph option \<Rightarrow> ev_msg option
       \<Rightarrow> ev_result \<times> ev_delivery_report option \<times> 'u ev_graph option" where
  "ev_runtime_graph_publish env graph msg =
     (if graph = None \<or> msg = None then (EV_ERR_INVALID_ARG, None, graph) else ev_delivery_publish env graph msg)"

text \<open>The envelope posted is fresh, so attaching a payload needs no payload callbacks.\<close>

definition ev_runtime_graph_post_event ::
    "'u ev_services ev_env \<Rightarrow> 'u ev_graph option \<Rightarrow> ev_event_id \<Rightarrow> ev_actor_id \<Rightarrow> u8 list option \<Rightarrow> nat
       \<Rightarrow> ev_result \<times> 'u ev_graph option" where
  "ev_runtime_graph_post_event env graph event_id source_actor payload payload_size =
     (if graph = None then (EV_ERR_INVALID_ARG, graph)
      else
        let (rc, msg) = ev_msg_init_publish (Some zero_msg) event_id source_actor
        in if rc \<noteq> EV_OK then (rc, graph)
           else
             let (rc, msg) = (if 0 < payload_size
                    then let (rc, m, _) = ev_msg_set_inline_payload no_lifecycle msg payload payload_size () in (rc, m)
                    else (EV_OK, msg))
             in if rc \<noteq> EV_OK then (rc, graph)
                else let (rc, _, g) = ev_runtime_graph_publish env graph msg in (rc, g))"

definition ev_runtime_graph_configured_mailbox_slots :: nat where
  "ev_runtime_graph_configured_mailbox_slots = EV_RUNTIME_MAILBOX_TOTAL_CAPACITY"

text \<open>A mailbox owns its slice exactly when it has been given storage of its layout's capacity.\<close>

definition ev_runtime_graph_actor_mailbox_offset ::
    "'u ev_graph option \<Rightarrow> ev_actor_id \<Rightarrow> bool \<Rightarrow> ev_result \<times> nat option" where
  "ev_runtime_graph_actor_mailbox_offset graph actor_id out_offset =
     (if graph = None \<or> \<not> out_offset \<or> \<not> ev_actor_id_is_valid actor_id then (EV_ERR_INVALID_ARG, None)
      else if sv_actor_enabled (services (the graph)) ! nat actor_id = 0 then (EV_ERR_STATE, None)
      else case ev_actor_mailbox_layout_lookup actor_id of
             None \<Rightarrow> (EV_ERR_CONTRACT, None)
           | Some layout \<Rightarrow>
               let mb = sy_mailbox (the graph) (nat actor_id)
               in if EV_RUNTIME_MAILBOX_TOTAL_CAPACITY \<le> ml_offset layout
                     \<or> EV_RUNTIME_MAILBOX_TOTAL_CAPACITY - ml_offset layout < ml_capacity layout
                     \<or> mb_storage mb = None \<or> mb_storage_count mb \<noteq> ml_capacity layout
                  then (EV_ERR_CONTRACT, None)
                  else (EV_OK, Some (ml_offset layout)))"

definition ev_runtime_graph_actor_mailbox_capacity :: "'u ev_graph option \<Rightarrow> ev_actor_id \<Rightarrow> nat" where
  "ev_runtime_graph_actor_mailbox_capacity graph actor_id =
     (case graph of None \<Rightarrow> 0
      | Some s \<Rightarrow> if \<not> ev_actor_id_is_valid actor_id \<or> sv_actor_enabled (services s) ! nat actor_id = 0 then 0
                  else mb_storage_count (sy_mailbox s (nat actor_id)))"

definition ev_runtime_graph_stats_of :: "'u ev_graph option \<Rightarrow> ev_runtime_graph_stats" where
  "ev_runtime_graph_stats_of graph =
     (case graph of None \<Rightarrow> \<lparr>gs_actor_count = 0, gs_pending_actor_messages = 0, gs_pending_ingress_events = 0,
        gs_pending_timers = 0, gs_faults_emitted = 0, gs_metrics_post_ok = 0\<rparr>
      | Some s \<Rightarrow> \<lparr>gs_actor_count = length (filter (\<lambda>i. sv_actor_enabled (services s) ! i \<noteq> 0) [0..<nat EV_ACTOR_COUNT]),
          gs_pending_actor_messages = sum_list (map (graph_actor_pending s) [0..<nat EV_ACTOR_COUNT]),
          gs_pending_ingress_events = ev_ingress_pending (Some (sv_ingress_service (services s))),
          gs_pending_timers = ev_timer_pending_count (Some (sv_timer_service (services s))),
          gs_faults_emitted = fr_emitted (sv_faults (services s)),
          gs_metrics_post_ok = mr_values (sv_metrics (services s)) ! nat EV_METRIC_POST_OK\<rparr>)"

end
