(* ===== verification/EvGraphBuild.thy ===== *)
theory EvGraphBuild
  imports EvBuilder
begin

text \<open>
  What building establishes. A builder that went through any sequence of its configuration operations
  holds a graph with nothing registered and its services in order. A build that answers \<open>EV_OK\<close> leaves a
  graph in order (\<open>graph_node\<close>, \<open>services_wf\<close>) with exactly the requested actors registered. Binding
  the shipped routes depends only on the actors requested and on the strict flag.
\<close>

section \<open>The scheduler of a build\<close>

definition domain_active :: "u32 \<Rightarrow> nat \<Rightarrow> bool" where
  "domain_active m i \<longleftrightarrow> m = 0 \<or> m AND EV_RUNTIME_DOMAIN_MASK (int i) \<noteq> 0"

definition fresh_domain_pump :: "ptr \<Rightarrow> nat \<Rightarrow> ev_domain_pump" where
  "fresh_domain_pump registry i = \<lparr>dp_registry = registry, dp_domain = int i, dp_next_actor_index = 0, dp_stats = zero_dp_stats\<rparr>"

lemma domain_valid_nat: "i < nat EV_DOMAIN_COUNT \<Longrightarrow> ev_domain_pump_domain_is_valid (int i) \<and> ev_system_pump_domain_is_valid (int i)"
  by (auto simp: ev_domain_pump_domain_is_valid_def ev_system_pump_domain_is_valid_def)

lemma scheduler_bind_loop_ok:
  assumes "k + n = nat EV_DOMAIN_COUNT" and "length (sm_slots (sy_system s graph_system)) = nat EV_DOMAIN_COUNT"
    and "\<And>i. k \<le> i \<Longrightarrow> i < nat EV_DOMAIN_COUNT \<Longrightarrow> sm_slots (sy_system s graph_system) ! i = None"
  shows "\<exists>s'. scheduler_bind_loop (Some g) m k n s = (EV_OK, s')
     \<and> sy_mailbox s' = sy_mailbox s \<and> sy_runtime s' = sy_runtime s \<and> sy_registry s' = sy_registry s \<and> sy_world s' = sy_world s
     \<and> length (sm_slots (sy_system s' graph_system)) = nat EV_DOMAIN_COUNT
     \<and> sm_next_domain_index (sy_system s' graph_system) = sm_next_domain_index (sy_system s graph_system)
     \<and> (\<forall>i<nat EV_DOMAIN_COUNT. sm_slots (sy_system s' graph_system) ! i
           = (if k \<le> i \<and> domain_active m i then Some i else sm_slots (sy_system s graph_system) ! i))
     \<and> (\<forall>i. sy_domain s' i = (if k \<le> i \<and> i < nat EV_DOMAIN_COUNT \<and> domain_active m i
           then fresh_domain_pump (Some g) i else sy_domain s i))"
  using assms
proof (induction n arbitrary: k s)
  case 0
  then show ?case by auto
next
  case (Suc n)
  have k: "k < nat EV_DOMAIN_COUNT" using Suc.prems(1) by linarith
  have kn: "Suc k + n = nat EV_DOMAIN_COUNT" using Suc.prems(1) by linarith
  show ?case
  proof (cases "domain_active m k")
    case False
    then have step: "scheduler_bind_loop (Some g) m k (Suc n) s = scheduler_bind_loop (Some g) m (Suc k) n s"
      by (simp add: domain_active_def)
    have iff: "(k \<le> i \<and> domain_active m i) = (Suc k \<le> i \<and> domain_active m i)" for i
      using False by (metis Suc_leD Suc_leI le_neq_implies_less)
    have iff2: "(k \<le> i \<and> i < nat EV_DOMAIN_COUNT \<and> domain_active m i)
        = (Suc k \<le> i \<and> i < nat EV_DOMAIN_COUNT \<and> domain_active m i)" for i
      using iff by blast
    have n: "\<And>i. Suc k \<le> i \<Longrightarrow> i < nat EV_DOMAIN_COUNT \<Longrightarrow> sm_slots (sy_system s graph_system) ! i = None"
      using Suc.prems(3) by simp
    show ?thesis unfolding step iff iff2 by (rule Suc.IH [OF kn Suc.prems(2) n])
  next
    case True
    let ?s1 = "upd_domain k (\<lambda>_. fresh_domain_pump (Some g) k) s"
    let ?s2 = "upd_system graph_system (\<lambda>sm. sm\<lparr>sm_slots := (sm_slots sm)[k := Some k]\<rparr>) ?s1"
    have i1: "ev_domain_pump_init (Some k) (Some g) (int k) s = (EV_OK, ?s1)"
      using domain_valid_nat [OF k] by (simp add: ev_domain_pump_init_def fresh_domain_pump_def)
    have i2: "ev_system_pump_bind (Some graph_system) (Some k) ?s1 = (EV_OK, ?s2)"
      using domain_valid_nat [OF k] Suc.prems(3) [of k] k
      by (simp add: ev_system_pump_bind_def fresh_domain_pump_def Let_def)
    have step: "scheduler_bind_loop (Some g) m k (Suc n) s = scheduler_bind_loop (Some g) m (Suc k) n ?s2"
      using True by (simp add: domain_active_def i1 i2)
    have l2: "length (sm_slots (sy_system ?s2 graph_system)) = nat EV_DOMAIN_COUNT" using Suc.prems(2) by simp
    have n2: "\<And>i. Suc k \<le> i \<Longrightarrow> i < nat EV_DOMAIN_COUNT \<Longrightarrow> sm_slots (sy_system ?s2 graph_system) ! i = None"
      using Suc.prems(3) by simp
    from Suc.IH [OF kn l2 n2] obtain s' where R: "scheduler_bind_loop (Some g) m (Suc k) n ?s2 = (EV_OK, s')"
      "sy_mailbox s' = sy_mailbox ?s2" "sy_runtime s' = sy_runtime ?s2" "sy_registry s' = sy_registry ?s2"
      "sy_world s' = sy_world ?s2" "length (sm_slots (sy_system s' graph_system)) = nat EV_DOMAIN_COUNT"
      "sm_next_domain_index (sy_system s' graph_system) = sm_next_domain_index (sy_system ?s2 graph_system)"
      "\<And>i. i < nat EV_DOMAIN_COUNT \<Longrightarrow> sm_slots (sy_system s' graph_system) ! i
           = (if Suc k \<le> i \<and> domain_active m i then Some i else sm_slots (sy_system ?s2 graph_system) ! i)"
      "\<And>i. sy_domain s' i = (if Suc k \<le> i \<and> i < nat EV_DOMAIN_COUNT \<and> domain_active m i
           then fresh_domain_pump (Some g) i else sy_domain ?s2 i)"
      by blast
    have sl: "sm_slots (sy_system s' graph_system) ! i
           = (if k \<le> i \<and> domain_active m i then Some i else sm_slots (sy_system s graph_system) ! i)"
      if "i < nat EV_DOMAIN_COUNT" for i
    proof (cases "i = k")
      case True
      then show ?thesis using R(8) [OF that] \<open>domain_active m k\<close> Suc.prems(2) k by simp
    next
      case False
      then have "k \<le> i \<longleftrightarrow> Suc k \<le> i" by linarith
      then show ?thesis using R(8) [OF that] False by simp
    qed
    have dm: "sy_domain s' i = (if k \<le> i \<and> i < nat EV_DOMAIN_COUNT \<and> domain_active m i
           then fresh_domain_pump (Some g) i else sy_domain s i)" for i
    proof (cases "i = k")
      case True
      then show ?thesis using R(9) [of i] \<open>domain_active m k\<close> k by simp
    next
      case False
      then have "k \<le> i \<longleftrightarrow> Suc k \<le> i" by linarith
      then show ?thesis using R(9) [of i] False by simp
    qed
    show ?thesis unfolding step using R(1-7) sl dm by auto
  qed
qed

lemma scheduler_init_ok:
  "\<exists>s'. ev_runtime_scheduler_init (Some s) (Some graph_registry) m = (EV_OK, Some s')
     \<and> sy_mailbox s' = sy_mailbox s \<and> sy_runtime s' = sy_runtime s \<and> sy_registry s' = sy_registry s
     \<and> services s' = (services s)\<lparr>sv_scheduler := sv_scheduler (services s')\<rparr>
     \<and> length (sm_slots (sy_system s' graph_system)) = nat EV_DOMAIN_COUNT
     \<and> sm_next_domain_index (sy_system s' graph_system) = 0
     \<and> (\<forall>i<nat EV_DOMAIN_COUNT. system_slot s' graph_system i = (if domain_active m i then Some i else None))
     \<and> (\<forall>i<nat EV_DOMAIN_COUNT. domain_active m i \<longrightarrow> sy_domain s' i = fresh_domain_pump (Some graph_registry) i)"
proof -
  let ?s1 = "upd_services (\<lambda>v. v\<lparr>sv_scheduler := (sv_scheduler v)\<lparr>sc_active_domain_mask := m\<rparr>\<rparr>) (zero_scheduler s)"
  let ?s2 = "upd_system graph_system (\<lambda>_. \<lparr>sm_slots = replicate (nat EV_DOMAIN_COUNT) None, sm_next_domain_index = 0, sm_stats = zero_sm_stats\<rparr>) ?s1"
  have i: "ev_system_pump_init (Some graph_system) ?s1 = (EV_OK, ?s2)" by (simp add: ev_system_pump_init_def)
  have l: "length (sm_slots (sy_system ?s2 graph_system)) = nat EV_DOMAIN_COUNT" by simp
  have none: "\<And>i. 0 \<le> i \<Longrightarrow> i < nat EV_DOMAIN_COUNT \<Longrightarrow> sm_slots (sy_system ?s2 graph_system) ! i = None" by simp
  from scheduler_bind_loop_ok [where k = 0 and n = "nat EV_DOMAIN_COUNT" and g = graph_registry and m = m, OF _ l none] obtain s' where
    R: "scheduler_bind_loop (Some graph_registry) m 0 (nat EV_DOMAIN_COUNT) ?s2 = (EV_OK, s')"
      "sy_mailbox s' = sy_mailbox ?s2" "sy_runtime s' = sy_runtime ?s2" "sy_registry s' = sy_registry ?s2"
      "sy_world s' = sy_world ?s2" "length (sm_slots (sy_system s' graph_system)) = nat EV_DOMAIN_COUNT"
      "sm_next_domain_index (sy_system s' graph_system) = sm_next_domain_index (sy_system ?s2 graph_system)"
      "\<And>i. i < nat EV_DOMAIN_COUNT \<Longrightarrow> sm_slots (sy_system s' graph_system) ! i
           = (if 0 \<le> i \<and> domain_active m i then Some i else sm_slots (sy_system ?s2 graph_system) ! i)"
      "\<And>i. sy_domain s' i = (if 0 \<le> i \<and> i < nat EV_DOMAIN_COUNT \<and> domain_active m i
           then fresh_domain_pump (Some graph_registry) i else sy_domain ?s2 i)"
    by auto
  have fr: "sy_mailbox ?s2 = sy_mailbox s" "sy_runtime ?s2 = sy_runtime s" "sy_registry ?s2 = sy_registry s"
    "sy_world ?s2 = (services s)\<lparr>sv_scheduler := \<lparr>sc_active_domain_mask = m, sc_poll_calls = 0, sc_partial_returns = 0\<rparr>\<rparr>"
    by (simp_all add: zero_scheduler_def services_def upd_services_def)
  have "ev_runtime_scheduler_init (Some s) (Some graph_registry) m = (EV_OK, Some s')"
    unfolding ev_runtime_scheduler_init_def Let_def option.case i prod.case using R(1) by simp
  moreover have "services s' = (services s)\<lparr>sv_scheduler := sv_scheduler (services s')\<rparr>"
    using R(5) fr(4) by (simp add: services_def)
  moreover have "system_slot s' graph_system i = (if domain_active m i then Some i else None)" if "i < nat EV_DOMAIN_COUNT" for i
    using R(8) [OF that] none [OF le0 that] by (simp add: system_slot_def)
  ultimately show ?thesis using R(2-4,6,7) R(9) fr(1-3) by auto
qed

section \<open>The actors of a build\<close>

text \<open>What the build has done for the actors below \<open>i\<close> that are requested.\<close>

definition actor_built :: "'u ev_graph \<Rightarrow> nat \<Rightarrow> bool" where
  "actor_built s k \<longleftrightarrow> ar_actor_id (sy_runtime s k) = int k \<and> ar_mailbox (sy_runtime s k) = Some k
     \<and> ar_handler (sy_runtime s k) \<noteq> None \<and> mailbox_wf (sy_mailbox s k) \<and> mailbox_contents (sy_mailbox s k) = []
     \<and> (mb_kind (sy_mailbox s k) = EV_MAILBOX_FIFO_8 \<or> mb_kind (sy_mailbox s k) = EV_MAILBOX_FIFO_16)"

definition built_upto :: "u8 list \<Rightarrow> nat \<Rightarrow> 'u ev_graph \<Rightarrow> bool" where
  "built_upto requested i s \<longleftrightarrow> registry_wf (sy_registry s graph_registry)
     \<and> length (sv_actor_enabled (services s)) = nat EV_ACTOR_COUNT
     \<and> (\<forall>k<nat EV_ACTOR_COUNT. rg_slots (sy_registry s graph_registry) ! k = (if k < i \<and> requested ! k \<noteq> 0 then Some k else None)
          \<and> (sv_actor_enabled (services s) ! k \<noteq> 0 \<longleftrightarrow> k < i \<and> requested ! k \<noteq> 0))
     \<and> (\<forall>k<i. requested ! k \<noteq> 0 \<longrightarrow> actor_built s k)"

text \<open>The services a build leaves alone.\<close>

definition services_kept :: "'u ev_services \<Rightarrow> 'u ev_services \<Rightarrow> bool" where
  "services_kept v w \<longleftrightarrow> sv_timer_service w = sv_timer_service v \<and> sv_ingress_service w = sv_ingress_service v
     \<and> sv_faults w = sv_faults v \<and> sv_trace_ring w = sv_trace_ring v \<and> sv_active_routes w = sv_active_routes v
     \<and> sv_active_routes_bound w = sv_active_routes_bound v
     \<and> sv_instances w = sv_instances v \<and> sv_instance_bound w = sv_instance_bound v"

lemma services_kept_refl: "services_kept v v"
  and services_kept_trans: "services_kept u v \<Longrightarrow> services_kept v w \<Longrightarrow> services_kept u w"
  by (simp_all add: services_kept_def)

lemma mailbox_init_ok:
  assumes "ev_mailbox_init (Some mb0) kind (Some xs) n = (EV_OK, mb)"
  shows "\<exists>m. mb = Some m \<and> mailbox_wf m \<and> mailbox_contents m = [] \<and> mb_kind m = kind"
proof -
  let ?m = "\<lparr>mb_kind = kind, mb_storage = Some (replicate n zero_msg), mb_storage_count = n, mb_storage_mask = n - 1,
    mb_head = 0, mb_tail = 0, mb_count = 0, mb_stats = zero_mailbox_stats\<rparr>"
  have mb: "mb = Some ?m" and n: "n = ev_mailbox_kind_capacity kind" and known: "ev_mailbox_kind_is_known kind"
    using assms by (auto simp: ev_mailbox_init_def split: if_splits)
  have "0 < n" using known unfolding n by (cases kind) (simp_all add: ev_mailbox_kind_is_known_def)
  moreover have "\<forall>x \<in> set (mailbox_rotation ?m). \<not> msg_holds_share x"
    by (auto simp: mailbox_rotation_def msg_holds_share_def zero_msg_def)
  ultimately have "mailbox_wf ?m"
    by (simp add: mailbox_wf_def zero_mailbox_stats_def n [symmetric])
  then show ?thesis using mb by (simp add: mailbox_contents_def)
qed

lemma services_upd [simp]: "services (upd_services f s) = f (services s)"
  by (simp add: services_def)

lemma bind_actor_ok:
  assumes i: "i < nat EV_ACTOR_COUNT" and meta: "ev_actor_meta (int i) = Some meta"
    and run: "bind_actor i meta d cap s = (EV_OK, s')"
  shows "rg_slots (sy_registry s graph_registry) ! i = None"
    and "rg_slots (sy_registry s' graph_registry) = (rg_slots (sy_registry s graph_registry))[i := Some i]"
    and "services s' = services s" and "registry_wf (sy_registry s graph_registry) \<Longrightarrow> registry_wf (sy_registry s' graph_registry)"
    and "actor_built s' i" and "k \<noteq> i \<Longrightarrow> sy_mailbox s' k = sy_mailbox s k \<and> sy_runtime s' k = sy_runtime s k"
proof -
  let ?v = "services s"
  let ?inst = "sv_instances ?v ! i"
  let ?ctx = "if sv_instance_bound ?v ! i \<noteq> 0 \<and> in_actor_context ?inst \<noteq> None then in_actor_context ?inst else Some i"
  let ?h = "if sv_instance_bound ?v ! i \<noteq> 0 \<and> in_handler_fn ?inst \<noteq> None then in_handler_fn ?inst else mod_handler_fn d"
  obtain rc mb where m: "ev_mailbox_init (Some (sy_mailbox s i)) (am_mailbox_kind meta) (Some (replicate cap zero_msg)) cap = (rc, mb)"
    by (rule prod.exhaust)
  have rc: "rc = EV_OK" using run m by (auto simp: bind_actor_def Let_def split: if_splits)
  obtain mb1 where mb1: "mb = Some mb1" "mailbox_wf mb1" "mailbox_contents mb1 = []" "mb_kind mb1 = am_mailbox_kind meta"
    using mailbox_init_ok [OF m [unfolded rc]] by blast
  let ?s1 = "upd_mailbox i (\<lambda>_. mb1) s"
  obtain rc2 s2 where r: "ev_actor_runtime_init (Some i) (int i) (Some i) ?h ?ctx ?s1 = (rc2, s2)" by (rule prod.exhaust)
  have rc2: "rc2 = EV_OK" and b: "ev_actor_registry_bind (Some graph_registry) (Some i) s2 = (EV_OK, s')"
    using run m rc mb1(1) r by (auto simp: bind_actor_def Let_def split: if_splits)
  have h: "?h \<noteq> None" and s2: "s2 = upd_runtime i (\<lambda>_. \<lparr>ar_actor_id = int i, ar_mailbox = Some i, ar_handler = ?h,
      ar_actor_context = ?ctx, ar_stats = zero_ar_stats\<rparr>) ?s1"
    using r rc2 by (auto simp: ev_actor_runtime_init_def meta split: if_splits)
  have id: "ar_actor_id (sy_runtime s2 i) = int i" by (simp add: s2)
  have free: "rg_slots (sy_registry s2 graph_registry) ! i = None"
    and s': "s' = upd_registry graph_registry (\<lambda>rg. rg\<lparr>rg_slots := (rg_slots rg)[i := Some i]\<rparr>) s2"
    using b id by (auto simp: ev_actor_registry_bind_def Let_def split: if_splits)
  show "rg_slots (sy_registry s graph_registry) ! i = None" using free by (simp add: s2)
  show "rg_slots (sy_registry s' graph_registry) = (rg_slots (sy_registry s graph_registry))[i := Some i]" by (simp add: s' s2)
  show "services s' = services s" by (simp add: s' s2 services_def)
  show "registry_wf (sy_registry s graph_registry) \<Longrightarrow> registry_wf (sy_registry s' graph_registry)"
    by (simp add: s' s2 registry_wf_def)
  show "actor_built s' i"
    using h mb1 actor_catalog_kinds [OF ev_actor_meta_SomeD [OF meta]] by (simp add: actor_built_def s' s2)
  show "k \<noteq> i \<Longrightarrow> sy_mailbox s' k = sy_mailbox s k \<and> sy_runtime s' k = sy_runtime s k" by (simp add: s' s2)
qed

lemma instance_init_frame:
  assumes "instance_init i s = (rc, s')"
  shows "\<exists>u. s' = with_user u s"
  using assms with_own_user [of s] by (auto simp: instance_init_def Let_def with_user_def split: prod.splits if_splits) metis+

lemma build_actor_ok:
  assumes i: "i < nat EV_ACTOR_COUNT" and req: "requested ! i \<noteq> 0" and inv: "built_upto requested i s"
    and run: "build_actor i s = (EV_OK, s')"
  shows "built_upto requested (Suc i) s' \<and> services_kept (services s) (services s')"
proof -
  obtain meta d where md: "ev_actor_meta (int i) = Some meta" "ev_actor_module_find (int i) = Some d"
    using run by (auto simp: build_actor_def Let_def split: option.splits)
  obtain rc st where m: "ev_runtime_mailbox_storage_for_actor (Some s) (int i) (Some meta) = (rc, st)" by (rule prod.exhaust)
  obtain rc1 s1 where b: "bind_actor i meta d (snd (the st)) s = (rc1, s1)" by (rule prod.exhaust)
  let ?s2 = "upd_services (\<lambda>v. v\<lparr>sv_actor_enabled := (sv_actor_enabled v)[i := 1],
     sv_descriptors := (sv_descriptors v)[i := Some d], sv_lifecycle := (sv_lifecycle v)[i := EV_ACTOR_STATE_READY]\<rparr>) s1"
  obtain rc2 s3 where n: "instance_init i ?s2 = (rc2, s3)" by (rule prod.exhaust)
  have rcs: "rc = EV_OK" "rc1 = EV_OK" "rc2 = EV_OK"
    and s': "s' = the (snd (ev_default_module_init (Some s3) (Some d)))"
    using run md m b n by (auto simp: build_actor_def Let_def ev_default_module_init_def split: if_splits)
  note B = bind_actor_ok [OF i md(1) b [unfolded rcs(2)]]
  obtain u where u: "s3 = with_user u ?s2" using instance_init_frame [OF n] by blast
  have fr: "sy_mailbox s' = sy_mailbox s1" "sy_runtime s' = sy_runtime s1" "sy_registry s' = sy_registry s1"
    "sv_actor_enabled (services s') = (sv_actor_enabled (services s))[i := 1]"
    using B(3) by (simp_all add: s' ev_default_module_init_def u)
  have kept: "services_kept (services s) (services s')"
    using B(3) by (simp add: s' ev_default_module_init_def u services_kept_def)
  have len: "length (rg_slots (sy_registry s graph_registry)) = nat EV_ACTOR_COUNT"
    "length (sv_actor_enabled (services s)) = nat EV_ACTOR_COUNT"
    using inv by (simp_all add: built_upto_def registry_wf_def)
  have slots: "rg_slots (sy_registry s' graph_registry) ! k = (if k < Suc i \<and> requested ! k \<noteq> 0 then Some k else None)
      \<and> (sv_actor_enabled (services s') ! k \<noteq> 0 \<longleftrightarrow> k < Suc i \<and> requested ! k \<noteq> 0)" if k: "k < nat EV_ACTOR_COUNT" for k
  proof (cases "k = i")
    case True
    then show ?thesis using len k req by (simp add: fr B(2))
  next
    case False
    then have "k < Suc i \<longleftrightarrow> k < i" by linarith
    then show ?thesis using inv False k by (simp add: fr B(2) built_upto_def)
  qed
  have ab: "actor_built s' k \<longleftrightarrow> actor_built s1 k" for k by (simp add: actor_built_def fr)
  have built: "actor_built s' k" if "k < Suc i" "requested ! k \<noteq> 0" for k
  proof (cases "k = i")
    case True
    then show ?thesis using B(5) by (simp add: ab)
  next
    case False
    then have "actor_built s k" using that inv by (simp add: built_upto_def)
    then show ?thesis using B(6) [OF False] by (simp add: actor_built_def fr)
  qed
  have "registry_wf (sy_registry s' graph_registry)" using inv B(4) by (simp add: fr built_upto_def)
  then show ?thesis using slots built kept len by (simp add: built_upto_def fr(4))
qed

lemma built_upto_skip:
  "built_upto requested i s \<Longrightarrow> requested ! i = 0 \<Longrightarrow> built_upto requested (Suc i) s"
  unfolding built_upto_def by (metis less_Suc_eq)

lemma build_loop_ok:
  assumes "i + n = nat EV_ACTOR_COUNT" and "built_upto requested i s" and "build_loop requested i n s = (EV_OK, s')"
  shows "built_upto requested (nat EV_ACTOR_COUNT) s' \<and> services_kept (services s) (services s')"
  using assms
proof (induction n arbitrary: i s)
  case 0
  then show ?case by (simp add: services_kept_refl)
next
  case (Suc n)
  have i: "i < nat EV_ACTOR_COUNT" and n: "Suc i + n = nat EV_ACTOR_COUNT" using Suc.prems(1) by linarith+
  show ?case
  proof (cases "requested ! i = 0")
    case True
    then show ?thesis using Suc.IH [OF n built_upto_skip [OF Suc.prems(2)]] Suc.prems(3) by simp
  next
    case False
    obtain rc s1 where b: "build_actor i s = (rc, s1)" by (rule prod.exhaust)
    then have rc: "rc = EV_OK" and rest: "build_loop requested (Suc i) n s1 = (EV_OK, s')"
      using Suc.prems(3) False by (simp_all split: if_splits)
    from build_actor_ok [OF i False Suc.prems(2) b [unfolded rc]] have
      "built_upto requested (Suc i) s1" "services_kept (services s) (services s1)" by blast+
    then show ?thesis using Suc.IH [OF n _ rest] services_kept_trans by blast
  qed
qed

text \<open>A finished build is a graph in order.\<close>

lemma built_find:
  assumes "built_upto requested (nat EV_ACTOR_COUNT) s"
  shows "ev_actor_registry_find s (Some graph_registry) a
     = (if ev_actor_id_is_valid a \<and> requested ! nat a \<noteq> 0 then Some (nat a) else None)"
proof (cases "ev_actor_id_is_valid a")
  case True
  then have "nat a < nat EV_ACTOR_COUNT" by (simp add: ev_actor_id_is_valid_iff nat_less_iff)
  then show ?thesis using assms True by (simp add: ev_actor_registry_find_def built_upto_def)
qed (simp add: ev_actor_registry_find_def)

lemma built_node:
  fixes s s' :: "'u ev_graph"
  assumes built: "built_upto requested (nat EV_ACTOR_COUNT) s"
    and eq: "sy_mailbox s' = sy_mailbox s" "sy_runtime s' = sy_runtime s" "sy_registry s' = sy_registry s"
    and sched: "length (sm_slots (sy_system s' graph_system)) = nat EV_DOMAIN_COUNT" "sm_next_domain_index (sy_system s' graph_system) = 0"
      "\<forall>i<nat EV_DOMAIN_COUNT. system_slot s' graph_system i = (if domain_active m i then Some i else None)"
      "\<forall>i<nat EV_DOMAIN_COUNT. domain_active m i \<longrightarrow> sy_domain s' i = fresh_domain_pump (Some graph_registry) i"
    and some: "\<exists>i<nat EV_DOMAIN_COUNT. domain_active m i"
    and doms: "\<And>a meta. ev_actor_id_is_valid a \<Longrightarrow> requested ! nat a \<noteq> 0 \<Longrightarrow> ev_actor_meta a = Some meta
        \<Longrightarrow> domain_active m (nat (am_execution_domain meta))"
  shows "graph_node s'"
proof -
  have fnd: "ev_actor_registry_find s' (Some graph_registry) a
      = (if ev_actor_id_is_valid a \<and> requested ! nat a \<noteq> 0 then Some (nat a) else None)" for a
    unfolding built_find [OF built, of a, symmetric] by (simp add: ev_actor_registry_find_def eq(3))
  have ab: "actor_built s' (nat a) \<and> int (nat a) = a \<and> r = nat a"
    if "ev_actor_registry_find s' (Some graph_registry) a = Some r" for a r
  proof -
    have "ev_actor_id_is_valid a" "requested ! nat a \<noteq> 0" "r = nat a" using that by (simp_all add: fnd split: if_splits)
    moreover from this have "nat a < nat EV_ACTOR_COUNT" by (simp add: ev_actor_id_is_valid_iff nat_less_iff)
    ultimately show ?thesis
      using built eq by (simp add: built_upto_def actor_built_def ev_actor_id_is_valid_iff)
  qed
  have act: "actor_wf s' r" "ar_mailbox (sy_runtime s' r) = Some (nat a)" "ar_actor_id (sy_runtime s' r) = a" "fifo_actor s' r"
    if "ev_actor_registry_find s' (Some graph_registry) a = Some r" for a r
    using ab [OF that] by (simp_all add: actor_built_def actor_wf_def fifo_actor_def actor_mailbox_def)
  have nw: "node_wf s' graph_registry"
  proof -
    have "registry_wf (sy_registry s' graph_registry)" using built eq(3) by (simp add: built_upto_def)
    moreover have "ar_mailbox (sy_runtime s' r) \<noteq> ar_mailbox (sy_runtime s' q)"
      if "ev_actor_registry_find s' (Some graph_registry) a = Some r" "ev_actor_registry_find s' (Some graph_registry) b = Some q" "a \<noteq> b"
      for a b r q
    proof -
      have "nat a \<noteq> nat b" using ab [OF that(1)] ab [OF that(2)] that(3) by metis
      then show ?thesis using act(2) [OF that(1)] act(2) [OF that(2)] by simp
    qed
    ultimately show ?thesis using act(1) by (auto simp: node_wf_def)
  qed
  have dom: "dp_domain (sy_domain s' i) = int i" "dp_registry (sy_domain s' i) = Some graph_registry" "domain_wf s' i"
    if "i < nat EV_DOMAIN_COUNT" "domain_active m i" for i
    using sched(4) that nw act(3) domain_valid_nat [OF that(1)]
    by (auto simp: fresh_domain_pump_def domain_wf_def)
  have sw: "system_wf s' graph_system"
    unfolding system_wf_def using sched(1,2,3) dom by (auto intro!: exI [of _ graph_registry] split: if_splits)
  have "ev_system_pump_bound_count s' (Some graph_system) \<noteq> 0"
  proof -
    obtain i where "i < nat EV_DOMAIN_COUNT" "domain_active m i" using some by blast
    then have "i \<in> set (filter (\<lambda>i. system_slot s' graph_system i \<noteq> None) [0..<nat EV_DOMAIN_COUNT])" using sched(3) by simp
    then show ?thesis unfolding ev_system_pump_bound_count_def option.case length_0_conv by (metis empty_iff empty_set)
  qed
  moreover have "system_slot s' graph_system (nat (am_execution_domain (the (ev_actor_meta a)))) \<noteq> None"
    if "ev_actor_registry_find s' (Some graph_registry) a = Some r" for a r
  proof -
    have v: "ev_actor_id_is_valid a" "requested ! nat a \<noteq> 0" using that by (simp_all add: fnd split: if_splits)
    obtain meta where m: "ev_actor_meta a = Some meta" "0 \<le> am_execution_domain meta" "am_execution_domain meta < EV_DOMAIN_COUNT"
      by (rule meta_valid [OF v(1)])
    then show ?thesis using sched(3) doms [OF v m(1)] by (simp add: nat_less_iff)
  qed
  ultimately show ?thesis
    using sw nw act(3,4) sched(3) dom(2) by (auto simp: graph_node_def split: if_splits)
qed

section \<open>Binding routes\<close>

definition strict_build :: "'u ev_runtime_builder \<Rightarrow> bool" where
  "strict_build b \<longleftrightarrow> bd_route_validation_flags b AND EV_RUNTIME_ROUTE_VALIDATE_STRICT_MANDATORY \<noteq> 0"

definition actor_missing :: "'u ev_runtime_builder \<Rightarrow> ev_actor_id \<Rightarrow> bool" where
  "actor_missing b a \<longleftrightarrow> bd_requested b ! nat a = 0 \<and> strict_build b
     \<and> (\<forall>d. ev_actor_module_find a = Some d \<longrightarrow> mod_required_board_capabilities d AND NOT (bd_board_caps b) = 0
          \<and> mod_required_runtime_capabilities d AND NOT (bd_runtime_caps b) = 0)"

text \<open>The entry of a shipped route in a build that does not stop.\<close>

definition bound_entry :: "'u ev_runtime_builder \<Rightarrow> ev_route \<Rightarrow> ev_active_route" where
  "bound_entry b r = (if bd_requested b ! nat (rt_target_actor r) \<noteq> 0
     then \<lparr>ae_route = r, ae_state = EV_ACTIVE_ROUTE_ENABLED, ae_reason = EV_OK\<rparr>
     else \<lparr>ae_route = r, ae_state = EV_ACTIVE_ROUTE_OPTIONAL_DISABLED, ae_reason = EV_ERR_NO_CAPABILITY\<rparr>)"

lemma classify_shipped:
  assumes "r \<in> set k_ev_route_table_generated"
  shows "ev_runtime_builder_classify_route (Some b) (Some r) =
     (if actor_missing b (rt_target_actor r) then (EV_ACTIVE_ROUTE_REJECTED_MISSING_MANDATORY_ACTOR, EV_ERR_NOT_FOUND)
      else (ae_state (bound_entry b r), ae_reason (bound_entry b r)))"
proof -
  have v: "ev_event_id_is_valid (rt_event_id r)" "ev_actor_id_is_valid (rt_target_actor r)"
    using assms table_ids_valid by (auto simp: list_all_iff)
  obtain d where d: "ev_actor_module_find (rt_target_actor r) = Some d" "rt_qos r \<in> set (accepted_classes (mod_route_policy_flags d))"
    using assms shipped_routes_accepted by (auto simp: list_all_iff split: option.splits) metis
  have q: "fst (ev_qos_validate_route_against_module (Some r) (Some d) None) = EV_OK" using validate_decision d(2) by blast
  show ?thesis
    using v d(1) q
    by (auto simp: ev_runtime_builder_classify_route_def Let_def actor_missing_def strict_build_def bound_entry_def)
qed

text \<open>
  What binding leaves alone, up to the fault registry, whose invariant it keeps. The routes are bound one
  after the other into the active table.
\<close>

definition binding_frame :: "'u ev_graph \<Rightarrow> 'u ev_graph \<Rightarrow> bool" where
  "binding_frame s s' \<longleftrightarrow> sy_mailbox s' = sy_mailbox s \<and> sy_runtime s' = sy_runtime s \<and> sy_registry s' = sy_registry s
     \<and> sv_actor_enabled (services s') = sv_actor_enabled (services s)
     \<and> sv_timer_service (services s') = sv_timer_service (services s)
     \<and> sv_ingress_service (services s') = sv_ingress_service (services s)
     \<and> sv_trace_ring (services s') = sv_trace_ring (services s)
     \<and> sv_instances (services s') = sv_instances (services s) \<and> sv_instance_bound (services s') = sv_instance_bound (services s)
     \<and> (faults_wf (sv_faults (services s)) \<longrightarrow> faults_wf (sv_faults (services s')))"

lemma binding_frame_refl: "binding_frame s s"
  and binding_frame_trans: "binding_frame s t \<Longrightarrow> binding_frame t u \<Longrightarrow> binding_frame s u"
  by (auto simp: binding_frame_def)

lemma binding_frame_services:
  assumes "\<And>v. sv_actor_enabled (f v) = sv_actor_enabled v \<and> sv_timer_service (f v) = sv_timer_service v
     \<and> sv_ingress_service (f v) = sv_ingress_service v \<and> sv_trace_ring (f v) = sv_trace_ring v \<and> sv_faults (f v) = sv_faults v
     \<and> sv_instances (f v) = sv_instances v \<and> sv_instance_bound (f v) = sv_instance_bound v"
  shows "binding_frame s (upd_services f s)"
  using assms by (simp add: binding_frame_def)

lemma binding_frame_metric: "binding_frame s (count_metric k s)"
  unfolding count_metric_def by (rule binding_frame_services) simp

lemma binding_frame_emit: "binding_frame s (snd (graph_fault_emit f s))"
proof -
  obtain rc s1 where e: "graph_fault_emit f s = (rc, s1)" by (rule prod.exhaust)
  have "faults_wf (sv_faults (services s)) \<Longrightarrow> faults_wf (sv_faults (services s1))" using emit_pending [OF _ e] by blast
  moreover obtain fs where "s1 = upd_services (\<lambda>v. v\<lparr>sv_faults := fs\<rparr>) s"
    using e by (auto simp: graph_fault_emit_def split: prod.splits)
  ultimately show ?thesis by (simp add: e binding_frame_def)
qed

lemma binding_frame_fault: "binding_frame s (the (ev_runtime_builder_emit_route_fault (Some s) (Some r) st rc))"
proof -
  have "\<exists>f. the (ev_runtime_builder_emit_route_fault (Some s) (Some r) st rc)
      = (if fst (graph_fault_emit f s) = EV_OK then count_metric EV_METRIC_FAULT_EMITTED (snd (graph_fault_emit f s))
         else snd (graph_fault_emit f s))"
    by (simp add: ev_runtime_builder_emit_route_fault_def Let_def split_def) blast
  then obtain f where eq: "the (ev_runtime_builder_emit_route_fault (Some s) (Some r) st rc)
      = (if fst (graph_fault_emit f s) = EV_OK then count_metric EV_METRIC_FAULT_EMITTED (snd (graph_fault_emit f s))
         else snd (graph_fault_emit f s))" by blast
  show ?thesis unfolding eq
    by (simp add: binding_frame_emit binding_frame_trans [OF binding_frame_emit binding_frame_metric])
qed

lemma graph_route_add_frame: "binding_frame s (snd (graph_route_add r st rc s))"
proof -
  have "snd (graph_route_add r st rc s) = upd_services (\<lambda>v. v\<lparr>sv_active_routes :=
      the (snd (ev_active_route_table_add (Some (sv_active_routes (services s))) (Some r) st rc))\<rparr>) s"
    by (simp add: graph_route_add_def split_def Let_def)
  then show ?thesis by (simp add: binding_frame_def)
qed

lemma bind_routes_loop_frame: "binding_frame s (snd (bind_routes_loop b i n s))"
proof (induction n arbitrary: i s)
  case (Suc n)
  show ?case
  proof (cases "ev_route_at i")
    case None
    then show ?thesis using Suc.IH by simp
  next
    case (Some r)
    obtain st reason where c: "ev_runtime_builder_classify_route (Some b) (Some r) = (st, reason)" by (rule prod.exhaust)
    obtain rc s1 where a: "graph_route_add r st reason s = (rc, s1)" by (rule prod.exhaust)
    obtain rc2 s2 where o: "graph_route_add r EV_ACTIVE_ROUTE_REJECTED_OVERFLOW EV_ERR_FULL s1 = (rc2, s2)" by (rule prod.exhaust)
    have f1: "binding_frame s s1" "binding_frame s1 s2"
      using graph_route_add_frame [of s r st reason] graph_route_add_frame [of s1 r EV_ACTIVE_ROUTE_REJECTED_OVERFLOW EV_ERR_FULL] a o by simp_all
    have rej: "binding_frame s1 (the (ev_runtime_builder_emit_route_fault (Some (if c then count_metric k2 (count_metric k1 s1)
        else count_metric k1 s1)) (Some r) st reason))" for c k1 k2
      by (cases c) (auto intro: binding_frame_trans [OF binding_frame_metric binding_frame_fault]
        binding_frame_trans [OF binding_frame_metric binding_frame_trans [OF binding_frame_metric binding_frame_fault]])
    note IH1 = binding_frame_trans [OF binding_frame_metric Suc.IH] binding_frame_trans [OF rej Suc.IH]
    have ov: "binding_frame s1 (the (ev_runtime_builder_emit_route_fault (Some (count_metric k s2)) (Some r) st' rc'))" for k st' rc'
      by (rule binding_frame_trans [OF f1(2) binding_frame_trans [OF binding_frame_metric binding_frame_fault]])
    have "binding_frame s1 (snd (bind_routes_loop b i (Suc n) s))"
    proof (cases "rc = EV_OK")
      case False
      then show ?thesis using Some c a o ov by simp
    next
      case True
      consider "st = EV_ACTIVE_ROUTE_OPTIONAL_DISABLED" | "st = EV_ACTIVE_ROUTE_ENABLED"
        | "st \<noteq> EV_ACTIVE_ROUTE_OPTIONAL_DISABLED" "st \<noteq> EV_ACTIVE_ROUTE_ENABLED" by blast
      then show ?thesis
      proof cases
        case 1
        then show ?thesis using Some c a True IH1(1) by simp
      next
        case 2
        then show ?thesis using Some c a True Suc.IH by simp
      next
        case 3
        then show ?thesis using Some c a True IH1(2) rej by (simp add: Let_def)
      qed
    qed
    then show ?thesis by (rule binding_frame_trans [OF f1(1)])
  qed
qed (simp add: binding_frame_refl)

text \<open>The shipped routes in a build.\<close>

lemma route_at_table: "i < ev_route_count \<Longrightarrow> ev_route_at i = Some (k_ev_route_table_generated ! i)"
  by (simp add: ev_route_at_def ev_route_count_def)

lemma routes_metric [simp]: "sv_active_routes (services (count_metric k s)) = sv_active_routes (services s)"
  by (simp add: count_metric_def)

lemma bind_loop_shipped:
  assumes "i + n = ev_route_count" and "active_wf (sv_active_routes (services s))"
    and "active_entries (sv_active_routes (services s)) = map (bound_entry b) (take i k_ev_route_table_generated)"
    and "bind_routes_loop b i n s = (stop, s')"
  shows "if \<exists>r \<in> set (drop i k_ev_route_table_generated). actor_missing b (rt_target_actor r) then stop = Some EV_ERR_NOT_FOUND
     else stop = None \<and> active_wf (sv_active_routes (services s'))
       \<and> active_entries (sv_active_routes (services s')) = map (bound_entry b) k_ev_route_table_generated"
  using assms
proof (induction n arbitrary: i s)
  case 0
  then show ?case by (simp add: ev_route_count_def)
next
  case (Suc n)
  let ?T = "k_ev_route_table_generated" and ?A = "sv_active_routes (services s)"
  let ?r = "?T ! i"
  have i: "i < ev_route_count" and n: "Suc i + n = ev_route_count" using Suc.prems(1) by linarith+
  have il: "i < length ?T" using i by (simp add: ev_route_count_def)
  have rm: "?r \<in> set ?T" using il by simp
  have dr: "drop i ?T = ?r # drop (Suc i) ?T" using il by (simp add: Cons_nth_drop_Suc)
  have room: "length (active_entries ?A) < EV_ACTIVE_ROUTE_TABLE_CAPACITY"
    using Suc.prems(3) i by (simp add: ev_route_count_def)
  obtain st reason where c: "ev_runtime_builder_classify_route (Some b) (Some ?r) = (st, reason)" by (rule prod.exhaust)
  obtain t where t: "ev_active_route_table_add (Some ?A) (Some ?r) st reason = (EV_OK, Some t)" "active_wf t"
    "active_entries t = active_entries ?A @ [\<lparr>ae_route = ?r, ae_state = st, ae_reason = reason\<rparr>]"
    using add_appends [OF Suc.prems(2) room, of ?r st reason] by blast
  let ?s1 = "upd_services (\<lambda>v. v\<lparr>sv_active_routes := t\<rparr>) s"
  have a: "graph_route_add ?r st reason s = (EV_OK, ?s1)" using t(1) by (simp add: graph_route_add_def)
  show ?case
  proof (cases "actor_missing b (rt_target_actor ?r)")
    case True
    then have "st = EV_ACTIVE_ROUTE_REJECTED_MISSING_MANDATORY_ACTOR" "reason = EV_ERR_NOT_FOUND" "strict_build b"
      using c classify_shipped [OF rm, of b] by (simp_all add: actor_missing_def)
    then have "stop = Some EV_ERR_NOT_FOUND"
      using Suc.prems(4) c a by (simp add: route_at_table [OF i] Let_def strict_build_def)
    moreover have "\<exists>r \<in> set (drop i ?T). actor_missing b (rt_target_actor r)" using True dr by simp
    ultimately show ?thesis by simp
  next
    case False
    have e: "st = ae_state (bound_entry b ?r)" "reason = ae_reason (bound_entry b ?r)"
      using c classify_shipped [OF rm, of b] False by simp_all
    have ent: "active_entries t = map (bound_entry b) (take (Suc i) ?T)"
      using t(3) Suc.prems(3) il e by (simp add: take_Suc_conv_app_nth bound_entry_def)
    have ex: "(\<exists>r \<in> set (drop i ?T). actor_missing b (rt_target_actor r))
        \<longleftrightarrow> (\<exists>r \<in> set (drop (Suc i) ?T). actor_missing b (rt_target_actor r))"
      using False dr by simp
    obtain s2 where s2: "bind_routes_loop b (Suc i) n s2 = (stop, s')" "sv_active_routes (services s2) = t"
    proof (cases "bd_requested b ! nat (rt_target_actor ?r) = 0")
      case True
      then have "bind_routes_loop b (Suc i) n (count_metric EV_METRIC_ROUTE_OPTIONAL_DISABLED ?s1) = (stop, s')"
        using Suc.prems(4) c a e by (simp add: route_at_table [OF i] bound_entry_def)
      then show thesis by (rule that) simp
    next
      case False
      then have "bind_routes_loop b (Suc i) n ?s1 = (stop, s')"
        using Suc.prems(4) c a e by (simp add: route_at_table [OF i] bound_entry_def)
      then show thesis by (rule that) simp
    qed
    show ?thesis unfolding ex by (rule Suc.IH [OF n _ _ s2(1)]) (simp_all add: s2(2) t(2) ent)
  qed
qed

lemma shipped_grouped:
  "list_all ev_event_id_is_valid (map rt_event_id k_ev_route_table_generated) \<and> grouped (map rt_event_id k_ev_route_table_generated)"
  unfolding grouped_def by code_simp

lemma bind_routes_shipped:
  assumes g: "bd_graph b = Some s" and run: "ev_runtime_builder_bind_routes (Some b) = (rc, b')"
  shows "\<exists>s' e. b' = Some (b\<lparr>bd_graph := Some s', bd_last_error := e\<rparr>) \<and> binding_frame s s'
     \<and> (if \<exists>r \<in> set k_ev_route_table_generated. actor_missing b (rt_target_actor r) then rc = EV_ERR_NOT_FOUND
        else rc = EV_OK \<and> e = bd_last_error b \<and> sv_active_routes_bound (services s') = 1 \<and> active_ready (sv_active_routes (services s'))
          \<and> active_entries (sv_active_routes (services s')) = map (bound_entry b) k_ev_route_table_generated)"
proof -
  let ?T = "k_ev_route_table_generated"
  let ?s0 = "upd_services (\<lambda>v. v\<lparr>sv_active_routes_bound := 0,
     sv_active_routes := the (ev_active_route_table_init (Some (sv_active_routes v)))\<rparr>) s"
  have f0: "binding_frame s ?s0" by (rule binding_frame_services) simp
  obtain stop s1 where l: "bind_routes_loop b 0 ev_route_count ?s0 = (stop, s1)" by (rule prod.exhaust)
  have f1: "binding_frame s s1" using binding_frame_trans [OF f0 bind_routes_loop_frame [of ?s0 b 0 ev_route_count]] l by simp
  have init: "active_wf (sv_active_routes (services ?s0))" "active_entries (sv_active_routes (services ?s0)) = map (bound_entry b) (take 0 ?T)"
    by (simp_all add: ev_active_route_table_init_def zero_active_wf zero_active_entries)
  note L = bind_loop_shipped [OF _ init l, simplified]
  have ready: "builder_ready (Some b)" using g by (simp add: builder_ready_def)
  show ?thesis
  proof (cases "\<exists>r \<in> set ?T. actor_missing b (rt_target_actor r)")
    case True
    then have "stop = Some EV_ERR_NOT_FOUND" using L by (simp split: if_splits)
    then have "rc = EV_ERR_NOT_FOUND" "b' = Some (b\<lparr>bd_graph := Some s1, bd_last_error := EV_ERR_NOT_FOUND\<rparr>)"
      using run l g ready by (simp_all add: ev_runtime_builder_bind_routes_def Let_def)
    then show ?thesis using True f1 by auto
  next
    case False
    then have S: "stop = None" "active_wf (sv_active_routes (services s1))"
      "active_entries (sv_active_routes (services s1)) = map (bound_entry b) ?T"
      using L by (simp_all split: if_splits)
    have ev: "map ae_event (map (bound_entry b) ?T) = map rt_event_id ?T" by (simp add: bound_entry_def)
    obtain rc2 t2 where f: "ev_active_route_table_finalize_spans (Some (sv_active_routes (services s1))) = (rc2, t2)"
      by (rule prod.exhaust)
    moreover obtain t where t: "t2 = Some t"
      using f by (auto simp: ev_active_route_table_finalize_spans_def split: prod.splits)
    ultimately have fin: "ev_active_route_table_finalize_spans (Some (sv_active_routes (services s1))) = (rc2, Some t)" by simp
    note F = finalize_spec [OF S(2) fin, unfolded S(3) ev]
    have rc2: "rc2 = EV_OK" using F shipped_grouped by blast
    have rt: "active_ready t" by (rule finalize_ready [OF S(2) fin [unfolded rc2]])
    let ?s2 = "upd_services (\<lambda>v. v\<lparr>sv_active_routes_bound := 1\<rparr>) (upd_services (\<lambda>v. v\<lparr>sv_active_routes := t\<rparr>) s1)"
    have out: "rc = EV_OK" "b' = Some (b\<lparr>bd_graph := Some ?s2\<rparr>)"
      using run l g ready fin rc2 S(1) by (simp_all add: ev_runtime_builder_bind_routes_def Let_def)
    have "binding_frame s1 ?s2" by (simp add: binding_frame_def)
    then have "binding_frame s ?s2" by (rule binding_frame_trans [OF f1])
    moreover have "b\<lparr>bd_graph := Some ?s2\<rparr> = b\<lparr>bd_graph := Some ?s2, bd_last_error := bd_last_error b\<rparr>" by simp
    ultimately show ?thesis using out rt F rc2 False by (intro exI [of _ ?s2] exI [of _ "bd_last_error b"]) simp
  qed
qed

section \<open>Configured builders\<close>

definition builder_wf :: "'u ev_runtime_builder \<Rightarrow> bool" where
  "builder_wf b \<longleftrightarrow> length (bd_requested b) = nat EV_ACTOR_COUNT
     \<and> (\<exists>s. bd_graph b = Some s \<and> built_upto (bd_requested b) 0 s
          \<and> timers_wf (sv_timer_service (services s)) \<and> ingress_wf (sv_ingress_service (services s))
          \<and> ingress_contents (sv_ingress_service (services s)) = [] \<and> trace_wf (sv_trace_ring (services s))
          \<and> faults_wf (sv_faults (services s)))"

text \<open>Nothing is built yet, so which actors are requested does not matter.\<close>

lemma built_upto_0: "built_upto requested 0 s \<longleftrightarrow> registry_wf (sy_registry s graph_registry)
     \<and> length (sv_actor_enabled (services s)) = nat EV_ACTOR_COUNT
     \<and> (\<forall>k<nat EV_ACTOR_COUNT. rg_slots (sy_registry s graph_registry) ! k = None \<and> sv_actor_enabled (services s) ! k = 0)"
  by (simp add: built_upto_def)

lemma builder_wf_frame:
  assumes "builder_wf b" and "bd_graph b = Some s" and "binding_frame s s'" and "bd_graph b' = Some s'"
    and "length (bd_requested b') = length (bd_requested b)"
  shows "builder_wf b'"
  using assms by (auto simp: builder_wf_def built_upto_0 binding_frame_def)

lemma builder_wf_graph_services:
  assumes "builder_wf b" and "bd_graph b = Some s" and "length (bd_requested b') = length (bd_requested b)"
    and "bd_graph b' = Some (upd_services f s)"
    and "\<And>v. sv_actor_enabled (f v) = sv_actor_enabled v \<and> sv_timer_service (f v) = sv_timer_service v
     \<and> sv_ingress_service (f v) = sv_ingress_service v \<and> sv_trace_ring (f v) = sv_trace_ring v \<and> sv_faults (f v) = sv_faults v"
  shows "builder_wf b'"
  using assms by (auto simp: builder_wf_def built_upto_0)

lemma builder_wf_graph: "builder_wf b \<Longrightarrow> \<exists>s. bd_graph b = Some s"
  by (auto simp: builder_wf_def)

lemma builder_wf_services:
  assumes "builder_wf b" and "length (bd_requested b') = length (bd_requested b)" and "bd_graph b' = bd_graph b"
    and "\<And>v. sv_actor_enabled (f v) = sv_actor_enabled v \<and> sv_timer_service (f v) = sv_timer_service v
     \<and> sv_ingress_service (f v) = sv_ingress_service v \<and> sv_trace_ring (f v) = sv_trace_ring v \<and> sv_faults (f v) = sv_faults v"
  shows "builder_wf (upd_builder_graph (upd_services f) b')"
proof -
  obtain s where s: "bd_graph b = Some s" using builder_wf_graph [OF assms(1)] by blast
  show ?thesis
    by (rule builder_wf_graph_services [OF assms(1) s _ _ assms(4)]) (simp_all add: upd_builder_graph_def s assms(2,3))
qed

lemma builder_wf_fields:
  "builder_wf b \<Longrightarrow> length (bd_requested b') = length (bd_requested b) \<Longrightarrow> bd_graph b' = bd_graph b \<Longrightarrow> builder_wf b'"
  by (simp add: builder_wf_def built_upto_0)

lemma zero_graph_enabled: "sv_actor_enabled (services (zero_graph s)) = replicate (nat EV_ACTOR_COUNT) 0"
  by (simp add: zero_graph_def zero_scheduler_def zero_services_def services_def del: services_upd)

lemma services_registry: "services (upd_registry g f s) = services s"
  by (simp add: services_def)

lemma builder_init_wf:
  assumes "ev_runtime_builder_init (Some b0) (Some s) board runtime = (rc, b)"
  shows "\<exists>b1. rc = EV_OK \<and> b = Some b1 \<and> builder_wf b1"
proof -
  have "ingress_wf zero_ingress \<and> ingress_contents zero_ingress = []"
    by (rule ingress_init_wf [of zero_ingress]) (simp add: ev_ingress_service_init_def)
  moreover have "timers_wf zero_timers" "trace_wf zero_trace" "faults_wf zero_faults"
    by (simp_all add: zero_timers_wf zero_trace_wf(1) zero_faults_wf(1))
  ultimately show ?thesis
    using assms
    by (auto simp: ev_runtime_builder_init_def ev_runtime_graph_init_def Let_def builder_wf_def built_upto_0 registry_wf_def
        ev_actor_registry_init_def zero_graph_enabled services_registry ev_timer_service_init_def
        ev_ingress_service_init_def ev_fault_registry_init_def ev_trace_ring_init_def)
qed

lemma set_ports_wf:
  assumes "builder_wf b" and "ev_runtime_builder_set_ports (Some b) ports = (rc, Some b')"
  shows "builder_wf b'"
proof (cases "builder_ready (Some b) \<and> ports \<noteq> None")
  case True
  have "builder_wf (upd_builder_graph (upd_services (\<lambda>v. v\<lparr>sv_ports := the ports\<rparr>))
      (b\<lparr>bd_configured_ports := the ports, bd_configured_ports_set := 1\<rparr>))"
    by (rule builder_wf_services [OF assms(1)]) simp_all
  then show ?thesis using assms(2) True by (simp add: ev_runtime_builder_set_ports_def)
next
  case False
  then show ?thesis using assms by (auto simp: ev_runtime_builder_set_ports_def split: if_splits)
qed

lemma set_board_profile_wf:
  assumes "builder_wf b" and "ev_runtime_builder_set_board_profile (Some b) profile = (rc, Some b')"
  shows "builder_wf b'"
proof (cases "builder_ready (Some b) \<and> profile \<noteq> None")
  case True
  note keep = builder_wf_services [OF _ refl refl]
  let ?p = "the profile"
  have "builder_wf (b\<lparr>bd_configured_board_profile := ?p, bd_configured_board_profile_set := 1\<rparr>)"
    by (rule builder_wf_fields [OF assms(1)]) simp_all
  then have 1: "builder_wf (upd_builder_graph (upd_services (\<lambda>v. v\<lparr>sv_board_profile := ?p\<rparr>))
      (b\<lparr>bd_configured_board_profile := ?p, bd_configured_board_profile_set := 1\<rparr>))" (is "builder_wf ?b1")
    by (rule keep) simp
  have 2: "builder_wf (if bp_configured_capabilities ?p \<noteq> 0
      then upd_builder_graph (upd_services (\<lambda>v. v\<lparr>sv_board_capabilities :=
             (sv_board_capabilities v)\<lparr>bc_configured := bp_configured_capabilities ?p\<rparr>\<rparr>))
             (?b1\<lparr>bd_board_caps := bp_configured_capabilities ?p\<rparr>)
      else ?b1)" (is "builder_wf ?b2")
  proof (cases "bp_configured_capabilities ?p \<noteq> 0")
    case True
    have "builder_wf (?b1\<lparr>bd_board_caps := bp_configured_capabilities ?p\<rparr>)" by (rule builder_wf_fields [OF 1]) simp_all
    then show ?thesis using True by (simp add: keep)
  qed (use 1 in simp)
  have 3: "builder_wf (if bp_active_capabilities ?p \<noteq> 0
      then upd_builder_graph (upd_services (\<lambda>v. v\<lparr>sv_board_capabilities :=
             (sv_board_capabilities v)\<lparr>bc_active := bp_active_capabilities ?p\<rparr>\<rparr>)) ?b2
      else ?b2)" (is "builder_wf ?b3")
  proof (cases "bp_active_capabilities ?p \<noteq> 0")
    case True
    have "builder_wf (upd_builder_graph (upd_services (\<lambda>v. v\<lparr>sv_board_capabilities :=
        (sv_board_capabilities v)\<lparr>bc_active := bp_active_capabilities ?p\<rparr>\<rparr>)) ?b2)"
      by (rule keep [OF 2]) simp
    then show ?thesis by (simp only: if_P [OF True])
  next
    case False
    show ?thesis by (simp only: if_not_P [OF False] 2)
  qed
  have "builder_wf (upd_builder_graph (upd_services (\<lambda>v. v\<lparr>sv_board_capabilities :=
      (sv_board_capabilities v)\<lparr>bc_observed := bp_observed_capabilities ?p\<rparr>\<rparr>)) ?b3)"
    by (rule keep [OF 3]) simp
  then show ?thesis using assms(2) True by (simp add: ev_runtime_builder_set_board_profile_def Let_def)
next
  case False
  then show ?thesis using assms by (auto simp: ev_runtime_builder_set_board_profile_def split: if_splits)
qed

lemma add_instance_wf:
  assumes "builder_wf b" and "ev_runtime_builder_add_instance (Some b) inst = (rc, Some b')"
  shows "builder_wf b'"
proof -
  consider e where "b' = b\<lparr>bd_last_error := e\<rparr>" | "b' = b"
    | a x where "b' = upd_builder_graph (upd_services (\<lambda>v. v\<lparr>sv_instances := (sv_instances v)[a := x],
         sv_instance_bound := (sv_instance_bound v)[a := 1]\<rparr>)) (b\<lparr>bd_requested := (bd_requested b)[a := 1]\<rparr>)"
    using assms(2) unfolding ev_runtime_builder_add_instance_def Let_def option.sel
    by (auto simp only: split: if_splits)
  then show ?thesis
  proof cases
    case 1
    then show ?thesis by (auto intro: builder_wf_fields [OF assms(1)])
  next
    case 2
    then show ?thesis using assms(1) by simp
  next
    case 3
    then show ?thesis by (auto intro!: builder_wf_services [OF assms(1)])
  qed
qed

lemma add_module_wf:
  assumes "builder_wf b" and "ev_runtime_builder_add_module (Some b) a = (rc, Some b')"
  shows "builder_wf b'"
  using assms(2) builder_wf_fields [OF assms(1)] add_instance_wf [OF assms(1)]
  by (fastforce simp: ev_runtime_builder_add_module_def Let_def split: if_splits option.splits)

lemma bind_routes_wf:
  assumes "builder_wf b" and "ev_runtime_builder_bind_routes (Some b) = (rc, Some b')"
  shows "builder_wf b' \<and> bd_requested b' = bd_requested b"
proof -
  obtain s where s: "bd_graph b = Some s" using builder_wf_graph [OF assms(1)] by blast
  obtain s' e where b': "Some b' = Some (b\<lparr>bd_graph := Some s', bd_last_error := e\<rparr>)" "binding_frame s s'"
    using bind_routes_shipped [OF s assms(2)] by blast
  then show ?thesis using builder_wf_frame [OF assms(1) s b'(2)] by simp
qed

text \<open>The builders any sequence of configuration operations reaches, whatever the operations answer.\<close>

inductive configured :: "'u ev_runtime_builder \<Rightarrow> bool" where
  init: "ev_runtime_builder_init (Some b0) (Some s) board runtime = (EV_OK, Some b) \<Longrightarrow> configured b"
| ports: "configured b \<Longrightarrow> ev_runtime_builder_set_ports (Some b) p = (rc, Some b') \<Longrightarrow> configured b'"
| profile: "configured b \<Longrightarrow> ev_runtime_builder_set_board_profile (Some b) q = (rc, Some b') \<Longrightarrow> configured b'"
| inst: "configured b \<Longrightarrow> ev_runtime_builder_add_instance (Some b) i = (rc, Some b') \<Longrightarrow> configured b'"
| actor: "configured b \<Longrightarrow> ev_runtime_builder_add_module (Some b) a = (rc, Some b') \<Longrightarrow> configured b'"
| flags: "configured b \<Longrightarrow> ev_runtime_builder_set_route_validation_flags (Some b) f = (rc, Some b') \<Longrightarrow> configured b'"
| routes: "configured b \<Longrightarrow> ev_runtime_builder_bind_routes (Some b) = (rc, Some b') \<Longrightarrow> configured b'"

lemma configured_wf: "configured b \<Longrightarrow> builder_wf b"
proof (induction rule: configured.induct)
  case (init b0 s board runtime b)
  then show ?case using builder_init_wf by blast
next
  case (flags b f rc b')
  then show ?case by (auto simp: ev_runtime_builder_set_route_validation_flags_def intro: builder_wf_fields)
next
  case (routes b rc b')
  then show ?case using bind_routes_wf by blast
qed (blast intro: set_ports_wf set_board_profile_wf add_instance_wf add_module_wf)+

section \<open>The build\<close>

lemma domain_mask_keeps: "m AND x \<noteq> 0 \<Longrightarrow> domain_mask_loop requested i n m AND x \<noteq> 0"
proof (induction n arbitrary: i m)
  case (Suc n)
  have "(m OR y) AND x \<noteq> 0" for y using Suc.prems by (simp add: bit.conj_disj_distrib2 or_eq_0_iff)
  then show ?case using Suc by (auto split: option.split)
qed simp

lemma domain_mask_bit_nonzero:
  assumes "0 \<le> d" and "d < EV_DOMAIN_COUNT"
  shows "EV_RUNTIME_DOMAIN_MASK d \<noteq> 0"
proof -
  have "nat d = 0 \<or> nat d = 1 \<or> nat d = 2 \<or> nat d = 3" using assms by linarith
  then show ?thesis by (auto simp: EV_RUNTIME_DOMAIN_MASK_def)
qed

lemma domain_mask_bits:
  assumes "i \<le> k" and "k < i + n" and "requested ! k \<noteq> 0" and "ev_actor_meta (int k) = Some meta"
    and "EV_RUNTIME_DOMAIN_MASK (am_execution_domain meta) \<noteq> 0"
  shows "domain_mask_loop requested i n m AND EV_RUNTIME_DOMAIN_MASK (am_execution_domain meta) \<noteq> 0"
  using assms
proof (induction n arbitrary: i m)
  case (Suc n)
  show ?case
  proof (cases "i = k")
    case True
    have "(m OR EV_RUNTIME_DOMAIN_MASK (am_execution_domain meta)) AND EV_RUNTIME_DOMAIN_MASK (am_execution_domain meta) \<noteq> 0"
      using Suc.prems(5) by (simp add: bit.conj_disj_distrib2 or_eq_0_iff)
    from domain_mask_keeps [OF this, of requested "Suc i" n] show ?thesis using Suc.prems(3,4) True by simp
  next
    case False
    then show ?thesis using Suc.prems Suc.IH [of "Suc i"] by simp
  qed
qed simp

lemma domain_mask_none:
  "(\<And>k. i \<le> k \<Longrightarrow> k < i + n \<Longrightarrow> requested ! k = 0) \<Longrightarrow> domain_mask_loop requested i n m = m"
  by (induction n arbitrary: i) auto

lemma build_mask:
  assumes len: "length requested = nat EV_ACTOR_COUNT" and m: "m = domain_mask_loop requested 0 (nat EV_ACTOR_COUNT) 0"
  shows "\<And>a meta. ev_actor_id_is_valid a \<Longrightarrow> requested ! nat a \<noteq> 0 \<Longrightarrow> ev_actor_meta a = Some meta
      \<Longrightarrow> domain_active m (nat (am_execution_domain meta))"
    and "\<exists>i<nat EV_DOMAIN_COUNT. domain_active m i"
proof -
  show act: "domain_active m (nat (am_execution_domain meta))"
    if v: "ev_actor_id_is_valid a" "requested ! nat a \<noteq> 0" "ev_actor_meta a = Some meta" for a meta
  proof -
    have d: "0 \<le> am_execution_domain meta" "am_execution_domain meta < EV_DOMAIN_COUNT"
      using meta_valid [OF v(1)] v(3) by auto
    have a: "nat a < nat EV_ACTOR_COUNT" "int (nat a) = a" using v(1) by (auto simp: ev_actor_id_is_valid_iff)
    have "m AND EV_RUNTIME_DOMAIN_MASK (am_execution_domain meta) \<noteq> 0"
      unfolding m using domain_mask_bits [of 0 "nat a" "nat EV_ACTOR_COUNT" requested meta 0] a v(2,3)
        domain_mask_bit_nonzero [OF d] by simp
    then show ?thesis using d(1) by (simp add: domain_active_def)
  qed
  show "\<exists>i<nat EV_DOMAIN_COUNT. domain_active m i"
  proof (cases "\<exists>k<nat EV_ACTOR_COUNT. requested ! k \<noteq> 0")
    case True
    then obtain k where k: "k < nat EV_ACTOR_COUNT" "requested ! k \<noteq> 0" by blast
    then have v: "ev_actor_id_is_valid (int k)" by (simp add: ev_actor_id_is_valid_iff)
    obtain meta where meta: "ev_actor_meta (int k) = Some meta" "0 \<le> am_execution_domain meta" "am_execution_domain meta < EV_DOMAIN_COUNT"
      by (rule meta_valid [OF v])
    have "domain_active m (nat (am_execution_domain meta))" using act [OF v _ meta(1)] k(2) by simp
    then show ?thesis using meta by (intro exI [of _ "nat (am_execution_domain meta)"]) simp
  next
    case False
    then have "m = 0" unfolding m by (intro domain_mask_none) auto
    then show ?thesis by (intro exI [of _ 0]) (simp add: domain_active_def)
  qed
qed

lemma build_ok:
  assumes wf: "builder_wf b" and run: "ev_runtime_builder_build (Some b) = (EV_OK, Some b')"
  shows "\<exists>s'. bd_graph b' = Some s' \<and> graph_node s' \<and> services_wf s' \<and> node_idle s'
     \<and> (\<forall>a. ev_actor_registry_find s' (Some graph_registry) a
           = (if ev_actor_id_is_valid a \<and> bd_requested b ! nat a \<noteq> 0 then Some (nat a) else None))
     \<and> bd_requested b' = bd_requested b"
proof -
  obtain s where s: "bd_graph b = Some s" using builder_wf_graph [OF wf] by blast
  have ready: "builder_ready (Some b)" using s by (simp add: builder_ready_def)
  obtain rc0 g0 where B: "(if sv_active_routes_bound (services s) = 0 then ev_runtime_builder_bind_routes (Some b) else (EV_OK, Some b))
      = (rc0, g0)" by (rule prod.exhaust)
  have "\<exists>b1. g0 = Some b1"
    using B bind_routes_shipped [OF s] by (cases "ev_runtime_builder_bind_routes (Some b)") (fastforce split: if_splits)
  then obtain b1 where b1: "g0 = Some b1" by blast
  have rc0: "rc0 = EV_OK" using run ready B s by (auto simp: ev_runtime_builder_build_def Let_def b1 split: if_splits)
  have wf1: "builder_wf b1" "bd_requested b1 = bd_requested b"
    using B b1 wf bind_routes_wf [OF wf] by (auto split: if_splits)
  obtain s1 where s1: "bd_graph b1 = Some s1" "length (bd_requested b1) = nat EV_ACTOR_COUNT" "built_upto (bd_requested b1) 0 s1"
    "timers_wf (sv_timer_service (services s1))" "ingress_wf (sv_ingress_service (services s1))"
    "ingress_contents (sv_ingress_service (services s1)) = []" "trace_wf (sv_trace_ring (services s1))"
    "faults_wf (sv_faults (services s1))"
    using wf1(1) by (auto simp: builder_wf_def)
  obtain rc2 s2 where L: "build_loop (bd_requested b1) 0 (nat EV_ACTOR_COUNT) s1 = (rc2, s2)" by (rule prod.exhaust)
  let ?m = "ev_runtime_builder_active_domain_mask (Some b1)"
  have m: "?m = domain_mask_loop (bd_requested b1) 0 (nat EV_ACTOR_COUNT) 0"
    by (simp add: ev_runtime_builder_active_domain_mask_def)
  from scheduler_init_ok [of s2 ?m] obtain s3 where S: "ev_runtime_scheduler_init (Some s2) (Some graph_registry) ?m = (EV_OK, Some s3)"
     "sy_mailbox s3 = sy_mailbox s2" "sy_runtime s3 = sy_runtime s2" "sy_registry s3 = sy_registry s2"
     "services s3 = (services s2)\<lparr>sv_scheduler := sv_scheduler (services s3)\<rparr>"
     "length (sm_slots (sy_system s3 graph_system)) = nat EV_DOMAIN_COUNT"
     "sm_next_domain_index (sy_system s3 graph_system) = 0"
     "\<forall>i<nat EV_DOMAIN_COUNT. system_slot s3 graph_system i = (if domain_active ?m i then Some i else None)"
     "\<forall>i<nat EV_DOMAIN_COUNT. domain_active ?m i \<longrightarrow> sy_domain s3 i = fresh_domain_pump (Some graph_registry) i"
    by blast
  have "ev_runtime_builder_build (Some b) = (if rc2 \<noteq> EV_OK then (rc2, Some (b1\<lparr>bd_graph := Some s2, bd_last_error := rc2\<rparr>))
      else (EV_OK, Some (b1\<lparr>bd_graph := Some s3\<rparr>)))"
    unfolding ev_runtime_builder_build_def Let_def option.sel s B prod.case b1 rc0 s1(1) L S(1) by (simp add: ready)
  then have rc2: "rc2 = EV_OK" and b': "b' = b1\<lparr>bd_graph := Some s3\<rparr>" using run by (auto split: if_splits)
  from build_loop_ok [OF _ s1(3) L [unfolded rc2]]
  have built: "built_upto (bd_requested b1) (nat EV_ACTOR_COUNT) s2" and kept: "services_kept (services s1) (services s2)"
    by simp_all
  have node: "graph_node s3"
    by (rule built_node [OF built S(2-4,6-9) build_mask(2) [OF s1(2) m] build_mask(1) [OF s1(2) m]])
  have v: "sv_actor_enabled (services s3) = sv_actor_enabled (services s2)" "sv_timer_service (services s3) = sv_timer_service (services s1)"
    "sv_ingress_service (services s3) = sv_ingress_service (services s1)" "sv_trace_ring (services s3) = sv_trace_ring (services s1)"
    "sv_faults (services s3) = sv_faults (services s1)"
    using kept by (subst S(5), simp add: services_kept_def)+
  have ab: "mailbox_wf (sy_mailbox s3 i) \<and> mailbox_contents (sy_mailbox s3 i) = []"
    if "i < nat EV_ACTOR_COUNT" "sv_actor_enabled (services s3) ! i \<noteq> 0" for i
    using built that S(2) v(1) by (simp add: built_upto_def actor_built_def)
  have sw: "services_wf s3" "node_idle s3" using ab s1(4-8) by (simp_all add: services_wf_def node_idle_def v(2-5))
  have "ev_actor_registry_find s3 (Some graph_registry) a = ev_actor_registry_find s2 (Some graph_registry) a" for a
    by (simp add: ev_actor_registry_find_def S(4))
  then show ?thesis
    using built_find [OF built] node sw wf1(2) b' by simp
qed

text \<open>When building an actor succeeds: its initialiser, if it has one, answers \<open>EV_OK\<close>.\<close>

definition init_succeeds :: "'u ev_services \<Rightarrow> nat \<Rightarrow> bool" where
  "init_succeeds v i \<longleftrightarrow> (sv_instance_bound v ! i \<noteq> 0 \<longrightarrow> (\<forall>f. in_init_fn (sv_instances v ! i) = Some f \<longrightarrow>
     (\<forall>ctx ports profile user u. fst (f ctx ports profile user u) = EV_OK)))"

lemma catalog_complete:
  assumes "i < nat EV_ACTOR_COUNT"
  obtains meta d l where "ev_actor_meta (int i) = Some meta" and "ev_actor_module_find (int i) = Some d"
    and "mod_handler_fn d \<noteq> None" and "am_drain_budget meta \<noteq> 0"
    and "ev_actor_mailbox_layout_lookup (int i) = Some l" and "ml_actor_id l = int i" and "ml_mailbox_kind l = am_mailbox_kind meta"
    and "ml_capacity l = ev_mailbox_kind_capacity (am_mailbox_kind meta)" and "ml_capacity l \<noteq> 0" and "ml_capacity l \<le> EV_RUNTIME_MAILBOX_CAPACITY_MAX"
    and "ml_offset l \<le> EV_RUNTIME_MAILBOX_TOTAL_CAPACITY" and "ml_capacity l \<le> EV_RUNTIME_MAILBOX_TOTAL_CAPACITY - ml_offset l"
    and "ev_runtime_mailbox_capacity_is_power_of_two (ml_capacity l)"
proof -
  have "list_all (\<lambda>i. case (ev_actor_meta (int i), ev_actor_module_find (int i), ev_actor_mailbox_layout_lookup (int i)) of
      (Some meta, Some d, Some l) \<Rightarrow> mod_handler_fn d \<noteq> None \<and> am_drain_budget meta \<noteq> 0 \<and> ml_actor_id l = int i
        \<and> ml_mailbox_kind l = am_mailbox_kind meta \<and> ml_capacity l = ev_mailbox_kind_capacity (am_mailbox_kind meta)
        \<and> ml_capacity l \<noteq> 0 \<and> ml_capacity l \<le> EV_RUNTIME_MAILBOX_CAPACITY_MAX \<and> ml_offset l \<le> EV_RUNTIME_MAILBOX_TOTAL_CAPACITY
        \<and> ml_capacity l \<le> EV_RUNTIME_MAILBOX_TOTAL_CAPACITY - ml_offset l
        \<and> ev_runtime_mailbox_capacity_is_power_of_two (ml_capacity l)
    | _ \<Rightarrow> False) [0..<nat EV_ACTOR_COUNT]"
    by code_simp
  then have "case (ev_actor_meta (int i), ev_actor_module_find (int i), ev_actor_mailbox_layout_lookup (int i)) of
      (Some meta, Some d, Some l) \<Rightarrow> mod_handler_fn d \<noteq> None \<and> am_drain_budget meta \<noteq> 0 \<and> ml_actor_id l = int i
        \<and> ml_mailbox_kind l = am_mailbox_kind meta \<and> ml_capacity l = ev_mailbox_kind_capacity (am_mailbox_kind meta)
        \<and> ml_capacity l \<noteq> 0 \<and> ml_capacity l \<le> EV_RUNTIME_MAILBOX_CAPACITY_MAX \<and> ml_offset l \<le> EV_RUNTIME_MAILBOX_TOTAL_CAPACITY
        \<and> ml_capacity l \<le> EV_RUNTIME_MAILBOX_TOTAL_CAPACITY - ml_offset l
        \<and> ev_runtime_mailbox_capacity_is_power_of_two (ml_capacity l)
    | _ \<Rightarrow> False"
    unfolding list_all_iff by (rule bspec) (use assms in simp)
  then show thesis using that by (auto split: option.splits)
qed

lemma build_actor_succeeds:
  assumes i: "i < nat EV_ACTOR_COUNT" and inv: "built_upto requested i s" and init: "init_succeeds (services s) i"
  shows "\<exists>s'. build_actor i s = (EV_OK, s')"
proof -
  obtain meta d l where C: "ev_actor_meta (int i) = Some meta" "ev_actor_module_find (int i) = Some d" "mod_handler_fn d \<noteq> None"
    "am_drain_budget meta \<noteq> 0" "ev_actor_mailbox_layout_lookup (int i) = Some l" "ml_actor_id l = int i"
    "ml_mailbox_kind l = am_mailbox_kind meta" "ml_capacity l = ev_mailbox_kind_capacity (am_mailbox_kind meta)" "ml_capacity l \<noteq> 0"
    "ml_capacity l \<le> EV_RUNTIME_MAILBOX_CAPACITY_MAX" "ml_offset l \<le> EV_RUNTIME_MAILBOX_TOTAL_CAPACITY"
    "ml_capacity l \<le> EV_RUNTIME_MAILBOX_TOTAL_CAPACITY - ml_offset l" "ev_runtime_mailbox_capacity_is_power_of_two (ml_capacity l)"
    by (rule catalog_complete [OF i])
  have v: "ev_actor_id_is_valid (int i)" using i by (simp add: ev_actor_id_is_valid_iff)
  have st: "ev_runtime_mailbox_storage_for_actor (Some s) (int i) (Some meta) = (EV_OK, Some (ml_offset l, ml_capacity l))"
    using C by (simp add: ev_runtime_mailbox_storage_for_actor_def Let_def)
  have kind: "am_mailbox_kind meta = EV_MAILBOX_FIFO_8 \<or> am_mailbox_kind meta = EV_MAILBOX_FIFO_16"
    by (rule actor_catalog_kinds [OF ev_actor_meta_SomeD [OF C(1)]])
  let ?m = "\<lparr>mb_kind = am_mailbox_kind meta, mb_storage = Some (replicate (ml_capacity l) zero_msg), mb_storage_count = ml_capacity l,
    mb_storage_mask = ml_capacity l - 1, mb_head = 0, mb_tail = 0, mb_count = 0, mb_stats = zero_mailbox_stats\<rparr>"
  have mi: "ev_mailbox_init (Some (sy_mailbox s i)) (am_mailbox_kind meta) (Some (replicate (ml_capacity l) zero_msg)) (ml_capacity l)
      = (EV_OK, Some ?m)"
    using kind C(13) unfolding C(8)
    by (auto simp: ev_mailbox_init_def ev_mailbox_kind_is_known_def ev_mailbox_capacity_is_power_of_two_def)
  have free: "rg_slots (sy_registry s graph_registry) ! i = None" using inv i by (simp add: built_upto_def)
  have b: "\<exists>s1. bind_actor i meta d (ml_capacity l) s = (EV_OK, s1)"
    using C(1,3,4) v free
    by (auto simp: bind_actor_def Let_def mi ev_actor_runtime_init_def ev_actor_registry_bind_def)
  then obtain s1 where s1: "bind_actor i meta d (ml_capacity l) s = (EV_OK, s1)" by blast
  have sv: "services s1 = services s" by (rule bind_actor_ok(3) [OF i C(1) s1])
  have n: "fst (instance_init i (upd_services f s1)) = EV_OK"
    if "\<And>v. sv_instances (f v) = sv_instances v \<and> sv_instance_bound (f v) = sv_instance_bound v" for f
    using init that by (auto simp: instance_init_def Let_def init_succeeds_def sv split: prod.split) (metis fst_conv)
  let ?s2 = "upd_services (\<lambda>v. v\<lparr>sv_actor_enabled := (sv_actor_enabled v)[i := 1],
     sv_descriptors := (sv_descriptors v)[i := Some d], sv_lifecycle := (sv_lifecycle v)[i := EV_ACTOR_STATE_READY]\<rparr>) s1"
  obtain s3 where "instance_init i ?s2 = (EV_OK, s3)"
  proof -
    have "fst (instance_init i ?s2) = EV_OK" by (rule n) simp
    then show thesis using that by (cases "instance_init i ?s2") simp
  qed
  then show ?thesis
    by (simp add: build_actor_def C(1,2) st s1 Let_def ev_default_module_init_def ev_default_module_bind_def)
qed

lemma build_loop_succeeds:
  assumes "i + n = nat EV_ACTOR_COUNT" and "built_upto requested i s" and "\<And>k. k < nat EV_ACTOR_COUNT \<Longrightarrow> requested ! k \<noteq> 0 \<Longrightarrow> init_succeeds (services s) k"
  shows "\<exists>s'. build_loop requested i n s = (EV_OK, s')"
  using assms
proof (induction n arbitrary: i s)
  case (Suc n)
  have i: "i < nat EV_ACTOR_COUNT" and n: "Suc i + n = nat EV_ACTOR_COUNT" using Suc.prems(1) by linarith+
  show ?case
  proof (cases "requested ! i = 0")
    case True
    then show ?thesis using Suc.IH [OF n built_upto_skip [OF Suc.prems(2)]] Suc.prems(3) by simp
  next
    case False
    obtain s1 where b: "build_actor i s = (EV_OK, s1)" using build_actor_succeeds [OF i Suc.prems(2) Suc.prems(3) [OF i False]] by blast
    from build_actor_ok [OF i False Suc.prems(2) b] have s1: "built_upto requested (Suc i) s1" "services_kept (services s) (services s1)" by blast+
    have "init_succeeds (services s1) k" if "k < nat EV_ACTOR_COUNT" "requested ! k \<noteq> 0" for k
      using Suc.prems(3) [OF that] s1(2) by (simp add: init_succeeds_def services_kept_def)
    then show ?thesis using Suc.IH [OF n s1(1)] b False by simp
  qed
qed simp

lemma build_returns:
  assumes "builder_wf b"
  shows "\<exists>b'. snd (ev_runtime_builder_build (Some b)) = Some b'"
proof -
  obtain s where s: "bd_graph b = Some s" using builder_wf_graph [OF assms] by blast
  obtain rc g where r: "ev_runtime_builder_bind_routes (Some b) = (rc, g)" by (rule prod.exhaust)
  then obtain b1 where "g = Some b1" using bind_routes_shipped [OF s r] by blast
  then show ?thesis
    using r by (auto simp: ev_runtime_builder_build_def Let_def split: prod.split)
qed

lemma build_succeeds:
  assumes wf: "builder_wf b" and s: "bd_graph b = Some s"
    and routes: "\<And>r. sv_active_routes_bound (services s) = 0 \<Longrightarrow> r \<in> set k_ev_route_table_generated \<Longrightarrow> \<not> actor_missing b (rt_target_actor r)"
    and inits: "\<And>k. k < nat EV_ACTOR_COUNT \<Longrightarrow> bd_requested b ! k \<noteq> 0 \<Longrightarrow> init_succeeds (services s) k"
  shows "\<exists>b'. ev_runtime_builder_build (Some b) = (EV_OK, Some b')"
proof -
  have ready: "builder_ready (Some b)" using s by (simp add: builder_ready_def)
  obtain b1 s1 where B: "(if sv_active_routes_bound (services s) = 0 then ev_runtime_builder_bind_routes (Some b) else (EV_OK, Some b))
      = (EV_OK, Some b1)" "bd_graph b1 = Some s1" "binding_frame s s1" "bd_requested b1 = bd_requested b"
  proof (cases "sv_active_routes_bound (services s) = 0")
    case True
    obtain rc g where r: "ev_runtime_builder_bind_routes (Some b) = (rc, g)" by (rule prod.exhaust)
    have no: "\<not> (\<exists>r \<in> set k_ev_route_table_generated. actor_missing b (rt_target_actor r))" using routes [OF True] by blast
    from bind_routes_shipped [OF s r] obtain s' e where
      "g = Some (b\<lparr>bd_graph := Some s', bd_last_error := e\<rparr>)" "binding_frame s s'" "rc = EV_OK"
      unfolding if_not_P [OF no] by blast
    then show thesis using r True that by simp
  next
    case False
    then show thesis using that s binding_frame_refl by auto
  qed
  have "builder_wf b1" by (rule builder_wf_frame [OF wf s B(3,2)]) (simp add: B(4))
  then have b0: "built_upto (bd_requested b1) 0 s1" using B(2) by (auto simp: builder_wf_def)
  have "init_succeeds (services s1) k" if "k < nat EV_ACTOR_COUNT" "bd_requested b1 ! k \<noteq> 0" for k
    using inits that B(3,4) by (simp add: init_succeeds_def binding_frame_def)
  from build_loop_succeeds [OF _ b0 this] obtain s2 where L: "build_loop (bd_requested b1) 0 (nat EV_ACTOR_COUNT) s1 = (EV_OK, s2)"
    by auto
  obtain s3 where S: "ev_runtime_scheduler_init (Some s2) (Some graph_registry) (ev_runtime_builder_active_domain_mask (Some b1)) = (EV_OK, Some s3)"
    using scheduler_init_ok by blast
  have "ev_runtime_builder_build (Some b) = (EV_OK, Some (b1\<lparr>bd_graph := Some s3\<rparr>))"
    unfolding ev_runtime_builder_build_def Let_def option.sel s B(1) prod.case B(2) L S by (simp add: ready)
  then show ?thesis by blast
qed

section \<open>Properties\<close>

text \<open>
  C2: Building leaves a node in order. From a configured builder, unless a strict build misses an actor or an
  instance's initialiser fails, the build answers \<open>EV_OK\<close>; and whenever it answers \<open>EV_OK\<close> it leaves a graph
  whose scheduler and registry are in order, whose services are well formed, where nothing is pending, and
  where exactly the requested actors are registered, each at the address of its own id.
\<close>
theorem build_establishes_node:
  assumes "configured b" and "bd_graph b = Some s"
  shows "((\<forall>r \<in> set k_ev_route_table_generated. \<not> actor_missing b (rt_target_actor r))
        \<and> (\<forall>k<nat EV_ACTOR_COUNT. bd_requested b ! k \<noteq> 0 \<longrightarrow> init_succeeds (services s) k)
        \<longrightarrow> fst (ev_runtime_builder_build (Some b)) = EV_OK)
     \<and> (fst (ev_runtime_builder_build (Some b)) = EV_OK \<longrightarrow>
        (\<exists>b' s'. snd (ev_runtime_builder_build (Some b)) = Some b' \<and> bd_graph b' = Some s'
          \<and> graph_node s' \<and> services_wf s' \<and> node_idle s'
          \<and> (\<forall>a. ev_actor_registry_find s' (Some graph_registry) a
               = (if ev_actor_id_is_valid a \<and> bd_requested b ! nat a \<noteq> 0 then Some (nat a) else None))))"
proof (intro conjI impI)
  assume "(\<forall>r \<in> set k_ev_route_table_generated. \<not> actor_missing b (rt_target_actor r))
        \<and> (\<forall>k<nat EV_ACTOR_COUNT. bd_requested b ! k \<noteq> 0 \<longrightarrow> init_succeeds (services s) k)"
  then obtain b' where "ev_runtime_builder_build (Some b) = (EV_OK, Some b')"
    using build_succeeds [OF configured_wf [OF assms(1)] assms(2)] by blast
  then show "fst (ev_runtime_builder_build (Some b)) = EV_OK" by simp
next
  assume ok: "fst (ev_runtime_builder_build (Some b)) = EV_OK"
  obtain b' where r: "ev_runtime_builder_build (Some b) = (EV_OK, Some b')"
    using build_returns [OF configured_wf [OF assms(1)]] ok by (cases "ev_runtime_builder_build (Some b)") auto
  from build_ok [OF configured_wf [OF assms(1)] r] r
  show "\<exists>b' s'. snd (ev_runtime_builder_build (Some b)) = Some b' \<and> bd_graph b' = Some s'
          \<and> graph_node s' \<and> services_wf s' \<and> node_idle s'
          \<and> (\<forall>a. ev_actor_registry_find s' (Some graph_registry) a
               = (if ev_actor_id_is_valid a \<and> bd_requested b ! nat a \<noteq> 0 then Some (nat a) else None))"
    by auto
qed

text \<open>
  C3: Binding the shipped routes. It fails exactly when a strict build misses an actor some route targets
  although the board and the runtime have its capabilities, with \<open>EV_ERR_NOT_FOUND\<close>. Otherwise the active
  table is ready and holds every route of the generated table in order: enabled where its target is
  requested, optional and disabled for want of capability elsewhere. Mailboxes, registry and the other
  services are untouched, and the fault registry stays well formed.
\<close>
theorem bind_routes_outcome:
  assumes "bd_graph b = Some s" and "ev_runtime_builder_bind_routes (Some b) = (rc, b')"
  shows "\<exists>s' e. b' = Some (b\<lparr>bd_graph := Some s', bd_last_error := e\<rparr>) \<and> binding_frame s s'
     \<and> (if \<exists>r \<in> set k_ev_route_table_generated. actor_missing b (rt_target_actor r) then rc = EV_ERR_NOT_FOUND
        else rc = EV_OK \<and> e = bd_last_error b \<and> sv_active_routes_bound (services s') = 1 \<and> active_ready (sv_active_routes (services s'))
          \<and> active_entries (sv_active_routes (services s')) = map (bound_entry b) k_ev_route_table_generated)"
  by (rule bind_routes_shipped [OF assms])

subsection \<open>A build\<close>

definition demo_capabilities :: ev_capability_mask where
  "demo_capabilities = EV_CAP_METRICS OR EV_CAP_TIMERS"

definition demo_builder_0 :: "unit ev_runtime_builder" where
  "demo_builder_0 = the (snd (ev_runtime_builder_init (Some \<lparr>bd_graph = None, bd_board_caps = 0, bd_runtime_caps = 0,
     bd_requested = [], bd_last_error = EV_OK, bd_configured_ports = zero_ports, bd_configured_board_profile = zero_profile,
     bd_configured_ports_set = 0, bd_configured_board_profile_set = 0, bd_route_validation_flags = 0\<rparr>)
     (Some demo_poll_graph) demo_capabilities demo_capabilities))"

definition demo_builder :: "unit ev_runtime_builder" where
  "demo_builder = the (snd (ev_runtime_builder_add_module
     (Some (the (snd (ev_runtime_builder_add_module (Some demo_builder_0) ACT_APP)))) ACT_DIAG))"

lemma demo_builder_configured: "configured demo_builder_0" "configured demo_builder"
proof -
  have some: "\<exists>b'. snd (ev_runtime_builder_add_module (Some b) a) = Some b'" for b :: "unit ev_runtime_builder" and a
    by (auto simp: ev_runtime_builder_add_module_def ev_runtime_builder_add_instance_def Let_def split: option.split)
  have add: "configured (the (snd (ev_runtime_builder_add_module (Some b) a)))" if b: "configured b"
    for b :: "unit ev_runtime_builder" and a
    using configured.actor [OF b, of a] some [of b a] by (cases "ev_runtime_builder_add_module (Some b) a") auto
  show 0: "configured demo_builder_0"
    unfolding demo_builder_0_def
    by (rule configured.init [where board = demo_capabilities and runtime = demo_capabilities and s = demo_poll_graph])
      (auto simp: ev_runtime_builder_init_def ev_runtime_graph_init_def Let_def split: prod.split)
  show "configured demo_builder" unfolding demo_builder_def by (intro add 0)
qed

lemma demo_builder_requested: "bd_requested demo_builder = (replicate 18 0)[4 := 1, 3 := 1]" "bd_route_validation_flags demo_builder = 0"
  by code_simp+

lemma demo_builder_instances:
  "map (\<lambda>i. (in_init_fn i = None)) (sv_instances (services (the (bd_graph demo_builder)))) = replicate 18 True"
  by code_simp

theorem build_establishes_node_witness:
  "\<exists>b' s'. ev_runtime_builder_build (Some demo_builder) = (EV_OK, Some b') \<and> bd_graph b' = Some s' \<and> graph_node s'
     \<and> ev_actor_registry_find s' (Some graph_registry) ACT_APP = Some 4
     \<and> ev_actor_registry_find s' (Some graph_registry) ACT_BOOT = None"
proof -
  obtain s where s: "bd_graph demo_builder = Some s" using builder_wf_graph [OF configured_wf [OF demo_builder_configured(2)]] by blast
  have "\<not> actor_missing demo_builder a" for a by (simp add: actor_missing_def strict_build_def demo_builder_requested)
  moreover have "init_succeeds (services s) k" if "k < 18" for k
  proof -
    have "length (sv_instances (services s)) = 18" using arg_cong [OF demo_builder_instances, of length] s by simp
    then have "in_init_fn (sv_instances (services s) ! k) = None"
      using arg_cong [OF demo_builder_instances, of "\<lambda>l. l ! k"] that s by simp
    then show ?thesis by (simp add: init_succeeds_def)
  qed
  ultimately show ?thesis
    using build_establishes_node [OF demo_builder_configured(2) s]
    by (cases "ev_runtime_builder_build (Some demo_builder)") (auto simp: demo_builder_requested ev_actor_id_is_valid_iff)
qed

theorem bind_routes_outcome_witness:
  "\<exists>b'. ev_runtime_builder_bind_routes (Some demo_builder) = (EV_OK, Some b')
     \<and> length (active_entries (sv_active_routes (services (the (bd_graph b'))))) = 58"
proof -
  obtain s where s: "bd_graph demo_builder = Some s" using builder_wf_graph [OF configured_wf [OF demo_builder_configured(2)]] by blast
  obtain rc g where r: "ev_runtime_builder_bind_routes (Some demo_builder) = (rc, g)" by (rule prod.exhaust)
  have "\<not> actor_missing demo_builder a" for a by (simp add: actor_missing_def strict_build_def demo_builder_requested)
  then show ?thesis using bind_routes_outcome [OF s r] r by auto
qed

end
