(* ===== verification/EvRuntimeLoop.thy ===== *)
theory EvRuntimeLoop
  imports EvGraphBuild
begin

text \<open>
  The application's main loop body (\<open>runtime/src/ev_runtime_loop.c\<close>): collect ingress and drain the
  scheduler until no more samples arrive, then publish due timers and drain again, within a budget. The
  loops are partial functions: \<open>None\<close> is a call that does not return. The ports are code of the platform:
  the collector and the pending check work on the graph, the clock on the application's state.
\<close>

section \<open>State\<close>

record ev_runtime_loop_policy =
  lp_max_pump_calls :: nat
  lp_max_messages :: nat
  lp_max_turns :: nat
  lp_max_irq_samples :: nat
  lp_max_net_samples :: nat
  lp_timer_publish_budget :: nat
  lp_scheduler_turn_budget :: nat
  lp_skip_timers_when_scheduler_pending :: u8
  lp_run_scheduler_after_timers :: u8
  lp_skip_timers :: u8

record ev_runtime_loop_report =
  lr_pump_calls :: u32
  lr_turns :: u32
  lr_messages :: u32
  lr_irq_samples :: u32
  lr_net_samples :: u32
  lr_timers_published :: u32
  lr_pending_before :: u32
  lr_pending_after :: u32
  lr_elapsed_ms :: u32
  lr_exhausted :: u8
  lr_partial :: u8
  lr_last_result :: ev_result

text \<open>
  A clock gets the value its output variable holds and returns what it leaves there; so does the check for
  pending work.
\<close>

record 'u ev_runtime_loop_ports =
  lq_collect_ingress :: "('u ev_graph \<Rightarrow> ev_runtime_loop_report \<Rightarrow> ev_runtime_loop_policy
     \<Rightarrow> ev_result \<times> ev_runtime_loop_report \<times> 'u ev_graph) option"
  lq_timer_delivery :: "'u ev_graph ev_timer_publish_fn option"
  lq_now_ms :: "(u32 \<Rightarrow> 'u \<Rightarrow> ev_result \<times> u32 \<times> 'u) option"
  lq_work_pending :: "('u ev_graph \<Rightarrow> u32 \<Rightarrow> ev_runtime_loop_report \<Rightarrow> u8 \<Rightarrow> ev_result \<times> u8 \<times> 'u ev_graph) option"

section \<open>Operations\<close>

definition ev_runtime_loop_policy_default :: ev_runtime_loop_policy where
  "ev_runtime_loop_policy_default = \<lparr>lp_max_pump_calls = 10, lp_max_messages = 32, lp_max_turns = 10,
     lp_max_irq_samples = 16, lp_max_net_samples = 16, lp_timer_publish_budget = 1, lp_scheduler_turn_budget = 4,
     lp_skip_timers_when_scheduler_pending = 1, lp_run_scheduler_after_timers = 1, lp_skip_timers = 0\<rparr>"

definition ev_runtime_loop_report_reset :: ev_runtime_loop_report where
  "ev_runtime_loop_report_reset = \<lparr>lr_pump_calls = 0, lr_turns = 0, lr_messages = 0, lr_irq_samples = 0,
     lr_net_samples = 0, lr_timers_published = 0, lr_pending_before = 0, lr_pending_after = 0, lr_elapsed_ms = 0,
     lr_exhausted = 0, lr_partial = 0, lr_last_result = EV_OK\<rparr>"

definition ev_runtime_loop_exhausted :: "ev_runtime_loop_policy option \<Rightarrow> ev_runtime_loop_report option \<Rightarrow> u8" where
  "ev_runtime_loop_exhausted policy report =
     (case (policy, report) of
        (Some p, Some r) \<Rightarrow>
          if lp_max_pump_calls p \<le> unat (lr_pump_calls r) \<or> lp_max_messages p \<le> unat (lr_messages r)
             \<or> lp_max_turns p \<le> unat (lr_turns r) \<or> lp_max_irq_samples p \<le> unat (lr_irq_samples r)
             \<or> lp_max_net_samples p \<le> unat (lr_net_samples r)
          then 1 else 0
      | _ \<Rightarrow> 1)"

definition check_exhausted :: "ev_runtime_loop_policy \<Rightarrow> ev_runtime_loop_report \<Rightarrow> ev_runtime_loop_report" where
  "check_exhausted policy report = report\<lparr>lr_exhausted := ev_runtime_loop_exhausted (Some policy) (Some report)\<rparr>"

text \<open>One poll of the scheduler inside the loop: its result, the report with the poll counted, and the graph.\<close>

definition loop_poll ::
    "'u ev_services ev_env \<Rightarrow> ev_runtime_loop_policy \<Rightarrow> ev_runtime_loop_report \<Rightarrow> 'u ev_graph
       \<Rightarrow> ev_result \<times> ev_runtime_loop_report \<times> 'u ev_graph" where
  "loop_poll env policy report s =
     (let (rc, rep, g) = ev_runtime_graph_poll_scheduler_once env (Some s) (lp_scheduler_turn_budget policy)
            (Some (ev_system_pump_report_reset\<lparr>spr_last_domain := 0\<rparr>));
          pump_report = the rep
      in (rc, report\<lparr>lr_pump_calls := lr_pump_calls report + 1,
             lr_turns := lr_turns report + of_nat (spr_turns_processed pump_report),
             lr_messages := lr_messages report + of_nat (spr_messages_processed pump_report)\<rparr>, the g))"

partial_function (option) ev_runtime_loop_drain_scheduler ::
    "'u ev_services ev_env \<Rightarrow> ev_runtime_loop_policy \<Rightarrow> ev_runtime_loop_report \<Rightarrow> 'u ev_graph
       \<Rightarrow> (ev_result \<times> ev_runtime_loop_report \<times> 'u ev_graph) option" where
  "ev_runtime_loop_drain_scheduler env policy report s =
     (if 0 < ev_runtime_graph_scheduler_pending (Some s) \<and> lr_exhausted report = 0
      then
        if ev_runtime_loop_exhausted (Some policy) (Some report) \<noteq> 0
        then Some (EV_OK, report\<lparr>lr_exhausted := 1\<rparr>, s)
        else
          let (rc, report, s) = loop_poll env policy report s
          in if rc = EV_OK \<or> rc = EV_ERR_PARTIAL
             then ev_runtime_loop_drain_scheduler env policy (check_exhausted policy report) s
             else if rc = EV_ERR_EMPTY then Some (EV_OK, report, s)
             else Some (rc, report\<lparr>lr_last_result := rc\<rparr>, s)
      else Some (EV_OK, report, s))"

definition ev_runtime_loop_collect ::
    "'u ev_runtime_loop_ports option \<Rightarrow> ev_runtime_loop_policy \<Rightarrow> ev_runtime_loop_report \<Rightarrow> 'u ev_graph
       \<Rightarrow> ev_result \<times> ev_runtime_loop_report \<times> 'u ev_graph" where
  "ev_runtime_loop_collect ports policy report s =
     (case ports of None \<Rightarrow> (EV_OK, report, s)
      | Some q \<Rightarrow> (case lq_collect_ingress q of None \<Rightarrow> (EV_OK, report, s) | Some collect \<Rightarrow> collect s report policy))"

text \<open>The loop over ingress. A code other than \<open>EV_OK\<close> goes to the end of the function.\<close>

partial_function (option) ingress_loop ::
    "'u ev_services ev_env \<Rightarrow> ev_runtime_loop_policy \<Rightarrow> 'u ev_runtime_loop_ports \<Rightarrow> ev_runtime_loop_report \<Rightarrow> 'u ev_graph
       \<Rightarrow> (ev_result \<times> ev_runtime_loop_report \<times> 'u ev_graph) option" where
  "ingress_loop env policy ports report s =
     (let before_irq = lr_irq_samples report; before_net = lr_net_samples report;
          (rc, report, s) = ev_runtime_loop_collect (Some ports) policy report s
      in if rc \<noteq> EV_OK then Some (rc, report, s)
         else Option.bind (ev_runtime_loop_drain_scheduler env policy (check_exhausted policy report) s)
           (\<lambda>(rc, report, s).
              if rc \<noteq> EV_OK then Some (rc, report, s)
              else if lr_exhausted report \<noteq> 0 \<or> lr_irq_samples report = before_irq \<and> lr_net_samples report = before_net
              then Some (EV_OK, report, s)
              else ingress_loop env policy ports report s))"

text \<open>One round of timers: what it published, the report and the graph.\<close>

definition timer_round ::
    "ev_runtime_loop_policy \<Rightarrow> 'u ev_runtime_loop_ports \<Rightarrow> u32 \<Rightarrow> ev_runtime_loop_report \<Rightarrow> 'u ev_graph
       \<Rightarrow> nat \<times> ev_runtime_loop_report \<times> 'u ev_graph" where
  "timer_round policy ports now_ms report s =
     (if lp_skip_timers policy = 0
         \<and> (lp_skip_timers_when_scheduler_pending policy = 0 \<or> ev_runtime_graph_scheduler_pending (Some s) = 0)
      then let (published, g) = ev_runtime_graph_publish_due_timers (Some s) now_ms (lq_timer_delivery ports)
                 (lp_timer_publish_budget policy)
           in (published, report\<lparr>lr_timers_published := lr_timers_published report + of_nat published\<rparr>, the g)
      else (0, report, s))"

partial_function (option) timer_loop ::
    "'u ev_services ev_env \<Rightarrow> ev_runtime_loop_policy \<Rightarrow> 'u ev_runtime_loop_ports \<Rightarrow> u32 \<Rightarrow> ev_runtime_loop_report \<Rightarrow> 'u ev_graph
       \<Rightarrow> (ev_result \<times> ev_runtime_loop_report \<times> 'u ev_graph) option" where
  "timer_loop env policy ports now_ms report s =
     (let before_published = ev_runtime_graph_timer_published_count (Some s);
          (published, report, s) = timer_round policy ports now_ms report s;
          report = check_exhausted policy report
      in Option.bind
           (if lp_run_scheduler_after_timers policy \<noteq> 0 \<and> lr_exhausted report = 0
            then ev_runtime_loop_drain_scheduler env policy report s else Some (EV_OK, report, s))
           (\<lambda>(rc, report, s).
              if rc \<noteq> EV_OK then Some (rc, report, s)
              else if lr_exhausted report \<noteq> 0 \<or> published = 0
                      \<or> ev_runtime_graph_timer_published_count (Some s) = before_published
              then Some (EV_OK, report, s)
              else timer_loop env policy ports now_ms report s))"

text \<open>A reading of the clock.\<close>

definition loop_now :: "'u ev_runtime_loop_ports \<Rightarrow> u32 \<Rightarrow> 'u ev_graph \<Rightarrow> ev_result \<times> u32 \<times> 'u ev_graph" where
  "loop_now ports out_ms s =
     (let (rc, t, u) = the (lq_now_ms ports) out_ms (sv_user (services s)) in (rc, t, with_user u s))"

text \<open>The end of the function, from the label \<open>finalize\<close>.\<close>

definition loop_finalize ::
    "'u ev_runtime_loop_ports \<Rightarrow> bool \<Rightarrow> u32 \<Rightarrow> ev_result \<Rightarrow> ev_runtime_loop_report \<Rightarrow> 'u ev_graph
       \<Rightarrow> ev_result \<times> ev_runtime_loop_report \<times> 'u ev_graph" where
  "loop_finalize ports have_timing start_ms rc report s =
     (let report = report\<lparr>lr_pending_after := of_nat (ev_runtime_graph_scheduler_pending (Some s))\<rparr>;
          (timed, end_ms, s) = (if have_timing then let (rc, t, s) = loop_now ports 0 s in (rc = EV_OK, t, s) else (False, 0, s));
          report = (if timed then report\<lparr>lr_elapsed_ms := end_ms - start_ms\<rparr> else report);
          (rc, report, s) =
            (if rc = EV_OK \<and> lr_exhausted report \<noteq> 0
             then
               let (extra_pending, s) =
                     (case lq_work_pending ports of
                        None \<Rightarrow> (0, s)
                      | Some work_pending \<Rightarrow>
                          let (rc, extra, s) = work_pending s end_ms report 0 in (if rc \<noteq> EV_OK then 1 else extra, s))
               in if 0 < lr_pending_after report \<or> extra_pending \<noteq> 0
                  then (EV_ERR_PARTIAL, report\<lparr>lr_partial := 1\<rparr>, s) else (rc, report, s)
             else (rc, report, s))
      in (rc, report\<lparr>lr_last_result := rc\<rparr>, s))"

text \<open>
  The report is what is written to the caller's, if one is passed. \<open>None\<close> for the whole means the call does
  not return.
\<close>

definition ev_runtime_loop_poll_once ::
    "'u ev_services ev_env \<Rightarrow> 'u ev_graph option \<Rightarrow> ev_runtime_loop_policy option \<Rightarrow> 'u ev_runtime_loop_ports option
       \<Rightarrow> (ev_result \<times> ev_runtime_loop_report option \<times> 'u ev_graph option) option" where
  "ev_runtime_loop_poll_once env graph policy ports =
     (if graph = None \<or> ports = None \<or> lq_now_ms (the ports) = None then Some (EV_ERR_INVALID_ARG, None, graph)
      else
        let local_policy = (case policy of Some p \<Rightarrow> p | None \<Rightarrow> ev_runtime_loop_policy_default); q = the ports; s = the graph
        in if lp_scheduler_turn_budget local_policy = 0 \<or> lp_timer_publish_budget local_policy = 0
           then Some (EV_ERR_INVALID_ARG, None, graph)
           else
             let report = ev_runtime_loop_report_reset\<lparr>
                   lr_pending_before := of_nat (ev_runtime_graph_scheduler_pending (Some s))\<rparr>;
                 (rc, start_ms, s) = loop_now q 0 s; have_timing = (rc = EV_OK);
                 finish = (\<lambda>(rc, report, s). let (rc, report, s) = loop_finalize q have_timing start_ms rc report s
                             in Some (rc, Some report, Some s))
             in Option.bind (ingress_loop env local_policy q report s) (\<lambda>(rc, report, s).
                  if rc \<noteq> EV_OK \<or> lr_exhausted report \<noteq> 0 then finish (rc, report, s)
                  else
                    let (rc, now_ms, s) = loop_now q 0 s
                    in if rc \<noteq> EV_OK then finish (rc, report, s)
                       else Option.bind (timer_loop env local_policy q now_ms report s) finish))"

section \<open>The scheduler inside the loop\<close>

lemma scheduler_pending_load: "graph_node s \<Longrightarrow> ev_runtime_graph_scheduler_pending (Some s) = system_load s graph_system"
  by (simp add: ev_runtime_graph_scheduler_pending_def ev_runtime_scheduler_pending_def graph_node_def system_pending_load)

text \<open>A graph in order holds few messages, so their number fits the report's counters.\<close>

lemma actor_load_bound:
  assumes "graph_node s" and "j < ev_actor_count" and "dp_registry (sy_domain s d) = Some graph_registry"
  shows "actor_load s d j \<le> 16"
proof (cases "ev_actor_registry_find s (Some graph_registry) (int j)")
  case None
  then show ?thesis using actor_load_find [OF assms(2,3)] by (simp add: ev_actor_runtime_pending_def)
next
  case (Some r)
  then have "actor_wf s r" using assms(1) by (auto simp: graph_node_def node_wf_def)
  then have "length (actor_queue s r) \<le> ev_mailbox_kind_capacity (mb_kind (actor_mailbox s r))"
    by (simp add: actor_queue_def actor_mailbox_def actor_wf_def mailbox_bounded)
  moreover have "ev_mailbox_kind_capacity k \<le> 16" for k by (cases k) simp_all
  ultimately have "length (actor_queue s r) \<le> 16" by (meson order_trans)
  then show ?thesis
    using actor_load_find [OF assms(2,3)] Some actor_pending(1) [OF \<open>actor_wf s r\<close>] by simp
qed

lemma system_load_bound:
  assumes "graph_node s"
  shows "system_load s graph_system < 2 ^ 32"
proof -
  have "slot_load s graph_system i \<le> 18 * 16" if "i < nat EV_DOMAIN_COUNT" for i
  proof (cases "system_slot s graph_system i")
    case (Some d)
    then have r: "dp_registry (sy_domain s d) = Some graph_registry" using assms that by (auto simp: graph_node_def)
    have "domain_load s d \<le> sum_list (map (\<lambda>_. 16) [0..<ev_actor_count])"
      unfolding domain_load_def by (rule sum_list_mono) (use actor_load_bound [OF assms _ r] in simp)
    then show ?thesis using Some by (simp add: slot_load_def sum_list_triv)
  qed (simp add: slot_load_def)
  then have "system_load s graph_system \<le> sum_list (map (\<lambda>_. 18 * 16) [0..<nat EV_DOMAIN_COUNT])"
    unfolding system_load_def by (intro sum_list_mono) simp
  then show ?thesis by (simp add: sum_list_triv)
qed

lemma loop_poll_node:
  assumes node: "graph_node s" and q: "quiet_env env" and b: "0 < lp_scheduler_turn_budget p"
    and load: "0 < system_load s graph_system" and run: "loop_poll env p r s = (rc, r', s')"
  shows "(rc = EV_OK \<or> rc = EV_ERR_PARTIAL) \<and> graph_node s' \<and> lr_pump_calls r' = lr_pump_calls r + 1
     \<and> lr_irq_samples r' = lr_irq_samples r \<and> lr_net_samples r' = lr_net_samples r"
proof -
  obtain rc1 rep1 s1 where pr: "ev_system_pump_run env (Some graph_system) (lp_scheduler_turn_budget p) (count_poll s) = (rc1, rep1, s1)"
    by (rule prod_cases3)
  have n: "graph_node (count_poll s)" "0 < system_load (count_poll s) graph_system" using node load by simp_all
  have wf: "system_wf (count_poll s) graph_system" using n(1) unfolding graph_node_def by blast
  obtain x where x: "rc1 = EV_OK" "rep1 = Some x"
    using system_run_quiet [OF wf q b n(2) pr] by (elim exE conjE) (rule that; assumption)
  have s1: "graph_node s1" by (rule quiet_run_node [OF n(1) q b n(2) pr])
  show ?thesis
    using run s1 x(1) scheduler_poll_eq [OF pr [unfolded x(2)]]
    by (auto simp: loop_poll_def ev_runtime_graph_poll_scheduler_once_def Let_def split: if_splits)
qed

text \<open>Draining the scheduler returns, with nothing pending or the budget exhausted.\<close>

definition loop_result :: "ev_runtime_loop_policy \<Rightarrow> ev_runtime_loop_report \<Rightarrow> ev_runtime_loop_report \<Rightarrow> 'u ev_graph \<Rightarrow> bool" where
  "loop_result p r r' s' \<longleftrightarrow> graph_node s' \<and> (lr_exhausted r' \<noteq> 0 \<or> system_load s' graph_system = 0)
     \<and> unat (lr_pump_calls r) \<le> unat (lr_pump_calls r')
     \<and> unat (lr_pump_calls r') \<le> max (unat (lr_pump_calls r)) (lp_max_pump_calls p)"

lemma not_exhausted:
  assumes "ev_runtime_loop_exhausted (Some p) (Some r) = 0"
  shows "unat (lr_pump_calls r) < lp_max_pump_calls p" and "unat (lr_irq_samples r) < lp_max_irq_samples p"
    and "unat (lr_net_samples r) < lp_max_net_samples p"
  using assms by (auto simp: ev_runtime_loop_exhausted_def split: if_splits)

lemma check_exhausted_simps [simp]:
  "lr_exhausted (check_exhausted p r) = ev_runtime_loop_exhausted (Some p) (Some r)"
  "lr_pump_calls (check_exhausted p r) = lr_pump_calls r" "lr_irq_samples (check_exhausted p r) = lr_irq_samples r"
  "lr_net_samples (check_exhausted p r) = lr_net_samples r"
  "ev_runtime_loop_exhausted (Some p) (Some (check_exhausted p r)) = ev_runtime_loop_exhausted (Some p) (Some r)"
  by (simp_all add: check_exhausted_def ev_runtime_loop_exhausted_def)

lemma unat_suc: "unat (x :: u32) < n \<Longrightarrow> n < 2 ^ 32 \<Longrightarrow> unat (x + 1) = unat x + 1"
  by (subst unat_plus_simple [THEN iffD1]) (auto simp: word_le_nat_alt unat_word_ariths)

lemma drain_returns:
  assumes q: "quiet_env env" and b: "0 < lp_scheduler_turn_budget p" and m: "lp_max_pump_calls p < 2 ^ 32"
    and node: "graph_node s"
  shows "\<exists>r' s'. ev_runtime_loop_drain_scheduler env p r s = Some (EV_OK, r', s') \<and> loop_result p r r' s'
     \<and> lr_irq_samples r' = lr_irq_samples r \<and> lr_net_samples r' = lr_net_samples r
     \<and> (lr_exhausted r = 0 \<and> ev_runtime_loop_exhausted (Some p) (Some r) = 0 \<and> 0 < system_load s graph_system
          \<longrightarrow> unat (lr_pump_calls r) < unat (lr_pump_calls r'))"
  using node
proof (induction "lp_max_pump_calls p - unat (lr_pump_calls r)" arbitrary: r s rule: less_induct)
  case less
  note pend = scheduler_pending_load [OF less.prems]
  show ?case
  proof (cases "0 < system_load s graph_system \<and> lr_exhausted r = 0")
    case False
    then have "ev_runtime_loop_drain_scheduler env p r s = Some (EV_OK, r, s)"
      by (subst ev_runtime_loop_drain_scheduler.simps) (auto simp: pend)
    then show ?thesis using False less.prems by (auto simp: loop_result_def)
  next
    case True
    show ?thesis
    proof (cases "ev_runtime_loop_exhausted (Some p) (Some r) = 0")
      case False
      then have "ev_runtime_loop_drain_scheduler env p r s = Some (EV_OK, r\<lparr>lr_exhausted := 1\<rparr>, s)"
        using True by (subst ev_runtime_loop_drain_scheduler.simps) (simp add: pend)
      then show ?thesis using False less.prems by (auto simp: loop_result_def)
    next
      case ex: True
      obtain rc r1 s1 where lp: "loop_poll env p r s = (rc, r1, s1)" by (rule prod_cases3)
      note P = loop_poll_node [OF less.prems q b conjunct1 [OF True] lp]
      have up: "unat (lr_pump_calls r1) = unat (lr_pump_calls r) + 1"
        using P unat_suc [OF not_exhausted(1) [OF ex] m] by simp
      have eq: "ev_runtime_loop_drain_scheduler env p r s = ev_runtime_loop_drain_scheduler env p (check_exhausted p r1) s1"
        using True ex P by (subst ev_runtime_loop_drain_scheduler.simps) (auto simp: pend lp)
      have dec: "lp_max_pump_calls p - unat (lr_pump_calls (check_exhausted p r1)) < lp_max_pump_calls p - unat (lr_pump_calls r)"
        using up not_exhausted(1) [OF ex] by simp
      have n1: "graph_node s1" using P by blast
      from less.hyps [OF dec n1] obtain r' s' where
        R: "ev_runtime_loop_drain_scheduler env p (check_exhausted p r1) s1 = Some (EV_OK, r', s')"
           "loop_result p (check_exhausted p r1) r' s'" "lr_irq_samples r' = lr_irq_samples r1" "lr_net_samples r' = lr_net_samples r1"
        by auto
      have "loop_result p r r' s' \<and> unat (lr_pump_calls r) < unat (lr_pump_calls r')"
        using R(2) up not_exhausted(1) [OF ex] by (auto simp: loop_result_def)
      then show ?thesis using eq R P by simp
    qed
  qed
qed

text \<open>Whatever the handlers do, draining is bounded by the policy.\<close>

lemma drain_always_returns:
  assumes m: "lp_max_pump_calls p < 2 ^ 32"
  shows "\<exists>rc r' s'. ev_runtime_loop_drain_scheduler env p r s = Some (rc, r', s')
     \<and> unat (lr_pump_calls r') \<le> max (unat (lr_pump_calls r)) (lp_max_pump_calls p)"
proof (induction "lp_max_pump_calls p - unat (lr_pump_calls r)" arbitrary: r s rule: less_induct)
  case less
  show ?case
  proof (cases "0 < ev_runtime_graph_scheduler_pending (Some s) \<and> lr_exhausted r = 0
      \<and> ev_runtime_loop_exhausted (Some p) (Some r) = 0")
    case False
    then show ?thesis by (subst ev_runtime_loop_drain_scheduler.simps) auto
  next
    case True
    then have ex: "ev_runtime_loop_exhausted (Some p) (Some r) = 0" by simp
    obtain rc r1 s1 where lp: "loop_poll env p r s = (rc, r1, s1)" by (rule prod_cases3)
    then have "lr_pump_calls r1 = lr_pump_calls r + 1" by (auto simp: loop_poll_def Let_def split: prod.splits)
    then have up: "unat (lr_pump_calls r1) = unat (lr_pump_calls r) + 1"
      using unat_suc [OF not_exhausted(1) [OF ex] m] by simp
    then have dec: "lp_max_pump_calls p - unat (lr_pump_calls (check_exhausted p r1)) < lp_max_pump_calls p - unat (lr_pump_calls r)"
      using not_exhausted(1) [OF ex] by simp
    show ?thesis
      using less.hyps [OF dec, of s1] True up not_exhausted(1) [OF ex] lp
      by (subst ev_runtime_loop_drain_scheduler.simps) auto
  qed
qed

section \<open>The loops return\<close>

text \<open>
  What the loop relies on: a collector keeps the graph in order, counts its samples without wrapping and
  leaves the number of pump calls alone; a check for pending work and the clock work on the application's state.
\<close>

definition honest_collector ::
    "('u ev_graph \<Rightarrow> ev_runtime_loop_report \<Rightarrow> ev_runtime_loop_policy \<Rightarrow> ev_result \<times> ev_runtime_loop_report \<times> 'u ev_graph) \<Rightarrow> bool" where
  "honest_collector collect \<longleftrightarrow> (\<forall>s r p rc r' s'. graph_node s \<longrightarrow> collect s r p = (rc, r', s') \<longrightarrow>
     graph_node s' \<and> lr_pump_calls r' = lr_pump_calls r
     \<and> unat (lr_irq_samples r) \<le> unat (lr_irq_samples r') \<and> unat (lr_net_samples r) \<le> unat (lr_net_samples r'))"

definition loop_ports_ok :: "'u ev_services ev_env \<Rightarrow> 'u ev_runtime_loop_ports \<Rightarrow> bool" where
  "loop_ports_ok env q \<longleftrightarrow> lq_now_ms q \<noteq> None \<and> lq_timer_delivery q = Some (ev_runtime_timer_delivery env)
     \<and> (\<forall>c. lq_collect_ingress q = Some c \<longrightarrow> honest_collector c)
     \<and> (\<forall>w. lq_work_pending q = Some w \<longrightarrow> (\<forall>s t r x. \<exists>u. snd (snd (w s t r x)) = with_user u s))"

definition loop_policy_ok :: "ev_runtime_loop_policy \<Rightarrow> bool" where
  "loop_policy_ok p \<longleftrightarrow> 0 < lp_scheduler_turn_budget p \<and> 0 < lp_timer_publish_budget p \<and> lp_max_pump_calls p < 2 ^ 32
     \<and> lp_run_scheduler_after_timers p \<noteq> 0"

lemma collect_node:
  assumes "loop_ports_ok env q" and "graph_node s" and "ev_runtime_loop_collect (Some q) p r s = (rc, r', s')"
  shows "graph_node s' \<and> lr_pump_calls r' = lr_pump_calls r
     \<and> unat (lr_irq_samples r) \<le> unat (lr_irq_samples r') \<and> unat (lr_net_samples r) \<le> unat (lr_net_samples r')"
  using assms by (auto simp: ev_runtime_loop_collect_def loop_ports_ok_def honest_collector_def split: option.splits)

definition pumps_bounded :: "ev_runtime_loop_policy \<Rightarrow> ev_runtime_loop_report \<Rightarrow> ev_runtime_loop_report \<Rightarrow> bool" where
  "pumps_bounded p r r' \<longleftrightarrow> unat (lr_pump_calls r') \<le> max (unat (lr_pump_calls r)) (lp_max_pump_calls p)"

lemma ingress_returns:
  assumes q: "quiet_env env" and pol: "loop_policy_ok p" and ports: "loop_ports_ok env q" and node: "graph_node s"
  shows "\<exists>rc r' s'. ingress_loop env p q r s = Some (rc, r', s') \<and> graph_node s' \<and> pumps_bounded p r r'
     \<and> (rc = EV_OK \<longrightarrow> lr_exhausted r' \<noteq> 0 \<or> system_load s' graph_system = 0)"
  using node
proof (induction "(lp_max_irq_samples p - unat (lr_irq_samples r)) + (lp_max_net_samples p - unat (lr_net_samples r))"
    arbitrary: r s rule: less_induct)
  case less
  obtain rc1 r1 s1 where c: "ev_runtime_loop_collect (Some q) p r s = (rc1, r1, s1)" by (rule prod_cases3)
  note C = collect_node [OF ports less.prems c]
  show ?case
  proof (cases "rc1 = EV_OK")
    case False
    then have "ingress_loop env p q r s = Some (rc1, r1, s1)"
      by (subst ingress_loop.simps) (simp add: c Let_def)
    then show ?thesis using C False by (auto simp: pumps_bounded_def)
  next
    case True
    have bm: "0 < lp_scheduler_turn_budget p" "lp_max_pump_calls p < 2 ^ 32" using pol by (simp_all add: loop_policy_ok_def)
    have n1: "graph_node s1" using C by blast
    obtain r2 s2 where D: "ev_runtime_loop_drain_scheduler env p (check_exhausted p r1) s1 = Some (EV_OK, r2, s2)"
      "loop_result p (check_exhausted p r1) r2 s2" "lr_irq_samples r2 = lr_irq_samples r1" "lr_net_samples r2 = lr_net_samples r1"
      using drain_returns [OF q bm n1, of "check_exhausted p r1"] by auto
    have n2: "graph_node s2" and pb: "pumps_bounded p r r2" and fin: "lr_exhausted r2 \<noteq> 0 \<or> system_load s2 graph_system = 0"
      using D(2) C by (auto simp: loop_result_def pumps_bounded_def)
    have eq: "ingress_loop env p q r s = (if lr_exhausted r2 \<noteq> 0 \<or> lr_irq_samples r2 = lr_irq_samples r \<and> lr_net_samples r2 = lr_net_samples r
        then Some (EV_OK, r2, s2) else ingress_loop env p q r2 s2)"
      by (subst ingress_loop.simps) (simp add: c True D(1) Let_def)
    show ?thesis
    proof (cases "lr_exhausted r2 \<noteq> 0 \<or> lr_irq_samples r2 = lr_irq_samples r \<and> lr_net_samples r2 = lr_net_samples r")
      case True
      then show ?thesis using eq n2 pb fin by simp
    next
      case False
      then have e2: "lr_exhausted r2 = 0" and ne: "lr_irq_samples r2 \<noteq> lr_irq_samples r \<or> lr_net_samples r2 \<noteq> lr_net_samples r" by auto
      have e1: "ev_runtime_loop_exhausted (Some p) (Some r1) = 0"
      proof (rule ccontr)
        assume "ev_runtime_loop_exhausted (Some p) (Some r1) \<noteq> 0"
        then have "ev_runtime_loop_drain_scheduler env p (check_exhausted p r1) s1 = Some (EV_OK, check_exhausted p r1, s1)"
          by (subst ev_runtime_loop_drain_scheduler.simps) simp
        then show False using D(1) e2 \<open>ev_runtime_loop_exhausted (Some p) (Some r1) \<noteq> 0\<close> by auto
      qed
      have "unat (lr_irq_samples r) < unat (lr_irq_samples r1) \<or> unat (lr_net_samples r) < unat (lr_net_samples r1)"
        using ne C D(3,4) by (metis nat_less_le word_unat_eq_iff)
      then have dec: "(lp_max_irq_samples p - unat (lr_irq_samples r2)) + (lp_max_net_samples p - unat (lr_net_samples r2))
          < (lp_max_irq_samples p - unat (lr_irq_samples r)) + (lp_max_net_samples p - unat (lr_net_samples r))"
        using C not_exhausted(2,3) [OF e1] unfolding D(3,4) by (elim disjE) linarith+
      from less.hyps [OF dec n2] obtain rc r' s' where R: "ingress_loop env p q r2 s2 = Some (rc, r', s')" "graph_node s'"
        "pumps_bounded p r2 r'" "rc = EV_OK \<longrightarrow> lr_exhausted r' \<noteq> 0 \<or> system_load s' graph_system = 0"
        by blast
      have "pumps_bounded p r r'" using R(3) pb by (auto simp: pumps_bounded_def)
      moreover have "ingress_loop env p q r s = Some (rc, r', s')" unfolding eq if_not_P [OF False] by (rule R(1))
      ultimately show ?thesis using R(2,4) by blast
    qed
  qed
qed

text \<open>Publishing due timers, whatever the slots hold.\<close>

lemma timer_due_loop_node:
  assumes "graph_node c" and "timer_due_loop (ev_runtime_timer_delivery env) now m n i published t c = (published', t', c')"
  shows "graph_node c' \<and> system_load c' graph_system + published = system_load c graph_system + published'"
  using assms
proof (induction n arbitrary: i published t c)
  case (Suc n)
  let ?slot = "tm_slots t ! i"
  show ?case
  proof (cases "published < m \<and> ts_active ?slot \<noteq> 0 \<and> ev_timer_is_due now (ts_deadline_ms ?slot)")
    case False
    then show ?thesis using Suc by (auto simp: Let_def split: if_splits)
  next
    case act: True
    show ?thesis
    proof (cases "timer_msg ?slot")
      case None
      then show ?thesis using Suc act by (auto simp: Let_def split: if_splits)
    next
      case (Some msg)
      obtain rc c1 where d: "ev_runtime_timer_delivery env (ts_target_actor ?slot) msg c = (rc, c1)" by (rule prod.exhaust)
      note D = timer_delivery_node [OF Suc.prems(1) d]
      have n1: "graph_node c1" using D by blast
      show ?thesis
      proof (cases "rc = EV_OK")
        case True
        obtain t1 where "timer_due_loop (ev_runtime_timer_delivery env) now m n (Suc i) (Suc published) t1 c1 = (published', t', c')"
          using Suc.prems(2) act Some d True by (simp add: Let_def)
        then have "graph_node c' \<and> system_load c' graph_system + Suc published = system_load c1 graph_system + published'"
          by (rule Suc.IH [OF n1])
        then show ?thesis using D True by simp
      next
        case False
        have "graph_node c' \<and> system_load c' graph_system + published = system_load c1 graph_system + published'"
          using Suc.IH [OF n1] Suc.prems(2) act Some d False by (simp add: Let_def)
        then show ?thesis using D False by simp
      qed
    qed
  qed
qed simp

lemma publish_due_any:
  assumes node: "graph_node s"
    and p: "ev_runtime_graph_publish_due_timers (Some s) now (Some (ev_runtime_timer_delivery env)) m = (n, g)"
  shows "\<exists>s'. g = Some s' \<and> graph_node s' \<and> system_load s' graph_system = system_load s graph_system + n"
proof -
  obtain k t c where l: "timer_due_loop (ev_runtime_timer_delivery env) now m EV_TIMER_SERVICE_CAPACITY 0 0 (sv_timer_service (services s)) s
      = (k, t, c)" by (rule prod_cases3)
  from timer_due_loop_node [OF node l] have "graph_node c" "system_load c graph_system = system_load s graph_system + k" by simp_all
  then show ?thesis
    using p l node by (auto simp: ev_runtime_graph_publish_due_timers_def ev_timer_publish_due_def split: if_splits)
qed

lemma timer_round_node:
  assumes ports: "loop_ports_ok env q" and node: "graph_node s" and run: "timer_round p q now r s = (n, r', s')"
  shows "graph_node s' \<and> lr_pump_calls r' = lr_pump_calls r \<and> (0 < n \<longrightarrow> 0 < system_load s' graph_system)"
proof (cases "lp_skip_timers p = 0
    \<and> (lp_skip_timers_when_scheduler_pending p = 0 \<or> ev_runtime_graph_scheduler_pending (Some s) = 0)")
  case False
  then show ?thesis using run node by (auto simp: timer_round_def)
next
  case True
  have d: "lq_timer_delivery q = Some (ev_runtime_timer_delivery env)" using ports by (simp add: loop_ports_ok_def)
  obtain k g where pub: "ev_runtime_graph_publish_due_timers (Some s) now (Some (ev_runtime_timer_delivery env))
      (lp_timer_publish_budget p) = (k, g)" by (rule prod.exhaust)
  from publish_due_any [OF node pub] obtain s1 where "g = Some s1" "graph_node s1"
    "system_load s1 graph_system = system_load s graph_system + k" by blast
  then show ?thesis using run pub d True by (auto simp: timer_round_def)
qed

lemma timer_returns:
  assumes q: "quiet_env env" and pol: "loop_policy_ok p" and ports: "loop_ports_ok env q" and node: "graph_node s"
  shows "\<exists>r' s'. timer_loop env p q now r s = Some (EV_OK, r', s') \<and> graph_node s' \<and> pumps_bounded p r r'
     \<and> (lr_exhausted r' \<noteq> 0 \<or> system_load s' graph_system = 0)"
  using node
proof (induction "lp_max_pump_calls p - unat (lr_pump_calls r)" arbitrary: r s rule: less_induct)
  case less
  have bm: "0 < lp_scheduler_turn_budget p" "lp_max_pump_calls p < 2 ^ 32" and after: "lp_run_scheduler_after_timers p \<noteq> 0"
    using pol by (simp_all add: loop_policy_ok_def)
  obtain n r1 s1 where t: "timer_round p q now r s = (n, r1, s1)" by (rule prod_cases3)
  note T = timer_round_node [OF ports less.prems t]
  have n1: "graph_node s1" using T by blast
  let ?c = "check_exhausted p r1"
  show ?case
  proof (cases "lr_exhausted ?c = 0")
    case False
    then have "timer_loop env p q now r s = Some (EV_OK, ?c, s1)" by (subst timer_loop.simps) (simp add: t Let_def)
    then show ?thesis using False T by (auto simp: pumps_bounded_def)
  next
    case True
    then have e1: "ev_runtime_loop_exhausted (Some p) (Some r1) = 0" by simp
    obtain r2 s2 where D: "ev_runtime_loop_drain_scheduler env p ?c s1 = Some (EV_OK, r2, s2)" "loop_result p ?c r2 s2"
      "0 < system_load s1 graph_system \<longrightarrow> unat (lr_pump_calls r1) < unat (lr_pump_calls r2)"
      using drain_returns [OF q bm n1, of ?c] True e1 by auto
    have n2: "graph_node s2" and pb: "pumps_bounded p r r2" and fin: "lr_exhausted r2 \<noteq> 0 \<or> system_load s2 graph_system = 0"
      using D(2) T by (auto simp: loop_result_def pumps_bounded_def)
    let ?stop = "lr_exhausted r2 \<noteq> 0 \<or> n = 0
      \<or> ev_runtime_graph_timer_published_count (Some s2) = ev_runtime_graph_timer_published_count (Some s)"
    have eq: "timer_loop env p q now r s = (if ?stop then Some (EV_OK, r2, s2) else timer_loop env p q now r2 s2)"
      by (subst timer_loop.simps) (simp add: t D(1) e1 after Let_def)
    show ?thesis
    proof (cases ?stop)
      case True
      have "timer_loop env p q now r s = Some (EV_OK, r2, s2)" unfolding eq if_P [OF True] ..
      then show ?thesis using n2 pb fin by blast
    next
      case False
      then have "unat (lr_pump_calls r) < unat (lr_pump_calls r2)" using T D(3) by auto
      then have dec: "lp_max_pump_calls p - unat (lr_pump_calls r2) < lp_max_pump_calls p - unat (lr_pump_calls r)"
        using not_exhausted(1) [OF e1] T by simp
      from less.hyps [OF dec n2] obtain r' s' where R: "timer_loop env p q now r2 s2 = Some (EV_OK, r', s')"
        "graph_node s'" "pumps_bounded p r2 r'" "lr_exhausted r' \<noteq> 0 \<or> system_load s' graph_system = 0"
        by blast
      have "timer_loop env p q now r s = Some (EV_OK, r', s')" unfolding eq if_not_P [OF False] by (rule R(1))
      moreover have "pumps_bounded p r r'" using R(3) pb by (auto simp: pumps_bounded_def)
      ultimately show ?thesis using R(2,4) by blast
    qed
  qed
qed

lemma node_with_user [simp]:
  "graph_node (with_user u s) = graph_node s" "system_load (with_user u s) y = system_load s y"
  by (simp_all add: with_user_def)

lemma loop_now_user: "\<exists>u. snd (snd (loop_now q t s)) = with_user u s"
  by (auto simp: loop_now_def split: prod.splits)

lemma finalize_node:
  assumes ports: "loop_ports_ok env q" and node: "graph_node s"
    and done_rc: "rc = EV_OK \<longrightarrow> lr_exhausted r \<noteq> 0 \<or> system_load s graph_system = 0"
    and run: "loop_finalize q ht t0 rc r s = (rc', r', s')"
  shows "(\<exists>u. s' = with_user u s) \<and> lr_pump_calls r' = lr_pump_calls r
    \<and> (rc' = EV_OK \<longrightarrow> system_load s' graph_system = 0)"
proof -
  have pend: "ev_runtime_graph_scheduler_pending (Some s) = system_load s graph_system" by (rule scheduler_pending_load [OF node])
  have z: "(of_nat (system_load s graph_system) :: u32) = 0 \<longleftrightarrow> system_load s graph_system = 0"
    using system_load_bound [OF node] by (auto simp: word_of_nat_eq_0_iff dest: dvd_imp_le)
  obtain timed e s1 where n: "(if ht then let (rc, t, s) = loop_now q 0 s in (rc = EV_OK, t, s) else (False, 0, s)) = (timed, e, s1)"
    by (rule prod_cases3)
  have "\<exists>u. s1 = with_user u s"
  proof (cases ht)
    case False
    then show ?thesis using n with_own_user [of s] by (intro exI [of _ "sv_user (services s)"]) simp
  next
    case True
    then show ?thesis using n loop_now_user [of q 0 s] by (auto simp: Let_def split: prod.splits)
  qed
  then obtain u where s1: "s1 = with_user u s" ..
  let ?r1 = "r\<lparr>lr_pending_after := of_nat (system_load s graph_system)\<rparr>"
  let ?r2 = "if timed then ?r1\<lparr>lr_elapsed_ms := e - t0\<rparr> else ?r1"
  have r2: "lr_exhausted ?r2 = lr_exhausted r" "lr_pump_calls ?r2 = lr_pump_calls r"
    "lr_pending_after ?r2 = of_nat (system_load s graph_system)" by simp_all
  obtain x s2 where w: "(case lq_work_pending q of None \<Rightarrow> (0, s1)
      | Some work_pending \<Rightarrow> let (rc, extra, s) = work_pending s1 e ?r2 0 in (if rc \<noteq> EV_OK then 1 else extra, s)) = (x, s2)"
    by (rule prod.exhaust)
  have "\<exists>u. s2 = with_user u s"
  proof (cases "lq_work_pending q")
    case None
    then show ?thesis using w s1 by auto
  next
    case (Some f)
    then have "\<exists>v. snd (snd (f s1 e ?r2 0)) = with_user v s1" using ports by (simp add: loop_ports_ok_def)
    then show ?thesis using w Some s1 by (auto simp: Let_def split: prod.splits)
  qed
  then obtain v where s2: "s2 = with_user v s" ..
  have eq: "loop_finalize q ht t0 rc r s =
      (let (rc, report, s) =
         (if rc = EV_OK \<and> lr_exhausted r \<noteq> 0
          then if 0 < lr_pending_after ?r2 \<or> x \<noteq> 0 then (EV_ERR_PARTIAL, ?r2\<lparr>lr_partial := 1\<rparr>, s2) else (rc, ?r2, s2)
          else (rc, ?r2, s1))
       in (rc, report\<lparr>lr_last_result := rc\<rparr>, s))"
    using n w unfolding loop_finalize_def Let_def pend by (simp only: prod.case r2(1))
  have pos: "0 < lr_pending_after ?r2 \<longleftrightarrow> system_load s graph_system \<noteq> 0"
    using z by (simp add: word_greater_zero_iff)
  show ?thesis
  proof (cases "rc = EV_OK \<and> lr_exhausted r \<noteq> 0")
    case True
    show ?thesis using run True s2 unfolding eq if_P [OF True] pos by (auto split: if_splits)
  next
    case False
    show ?thesis using run done_rc s1 False unfolding eq if_not_P [OF False] by (auto split: if_splits)
  qed
qed

section \<open>The loop body returns\<close>

text \<open>
  C1: on a graph in order, with handlers that pass messages on quietly, a policy with positive budgets that polls
  the scheduler after timers, and ports that keep the graph in order, one run of the loop body returns: the
  graph is again in order, the scheduler was polled no more often than the policy allows, and a result
  \<open>EV_OK\<close> means no message is left in any mailbox (work left behind is reported as \<open>EV_ERR_PARTIAL\<close>).
\<close>

theorem runtime_loop_returns:
  assumes node: "graph_node s" and q: "quiet_env env" and pol: "loop_policy_ok p" and ports: "loop_ports_ok env ports"
  shows "\<exists>rc r s'. ev_runtime_loop_poll_once env (Some s) (Some p) (Some ports) = Some (rc, Some r, Some s')
     \<and> graph_node s' \<and> unat (lr_pump_calls r) \<le> lp_max_pump_calls p
     \<and> (rc = EV_OK \<longrightarrow> system_load s' graph_system = 0)"
proof -
  obtain y where ok: "lq_now_ms ports = Some y" "lp_scheduler_turn_budget p \<noteq> 0" "lp_timer_publish_budget p \<noteq> 0"
    using ports pol by (auto simp: loop_ports_ok_def loop_policy_ok_def)
  obtain rc0 t0 s0 where n0: "loop_now ports 0 s = (rc0, t0, s0)" by (rule prod_cases3)
  have g0: "graph_node s0" using loop_now_user [of ports 0 s] n0 node by auto
  let ?r0 = "ev_runtime_loop_report_reset\<lparr>lr_pending_before := of_nat (ev_runtime_graph_scheduler_pending (Some s))\<rparr>"
  obtain rc1 r1 s1 where I: "ingress_loop env p ports ?r0 s0 = Some (rc1, r1, s1)" "graph_node s1" "pumps_bounded p ?r0 r1"
    "rc1 = EV_OK \<longrightarrow> lr_exhausted r1 \<noteq> 0 \<or> system_load s1 graph_system = 0"
    using ingress_returns [OF q pol ports g0, of ?r0] by blast
  obtain rc2 t2 s2 where n2: "loop_now ports 0 s1 = (rc2, t2, s2)" by (rule prod_cases3)
  have g2: "graph_node s2" "system_load s2 graph_system = system_load s1 graph_system"
    using loop_now_user [of ports 0 s1] n2 I(2) by auto
  obtain rc3 r3 s3 where J: "graph_node s3" "pumps_bounded p ?r0 r3"
    "rc3 = EV_OK \<longrightarrow> lr_exhausted r3 \<noteq> 0 \<or> system_load s3 graph_system = 0"
    and run: "ev_runtime_loop_poll_once env (Some s) (Some p) (Some ports) =
      (let (rc, report, s) = loop_finalize ports (rc0 = EV_OK) t0 rc3 r3 s3 in Some (rc, Some report, Some s))"
  proof (cases "rc1 \<noteq> EV_OK \<or> lr_exhausted r1 \<noteq> 0")
    case True
    show ?thesis
      by (rule that [OF I(2,3,4)]) (use ok n0 I(1) True in \<open>simp add: ev_runtime_loop_poll_once_def Let_def\<close>)
  next
    case go: False
    show ?thesis
    proof (cases "rc2 = EV_OK")
      case False
      show ?thesis
        by (rule that [OF g2(1) I(3), of rc2])
          (use ok n0 I(1) go n2 False in \<open>simp_all add: ev_runtime_loop_poll_once_def Let_def\<close>)
    next
      case True
      obtain r4 s4 where T: "timer_loop env p ports t2 r1 s2 = Some (EV_OK, r4, s4)" "graph_node s4" "pumps_bounded p r1 r4"
        "lr_exhausted r4 \<noteq> 0 \<or> system_load s4 graph_system = 0"
        using timer_returns [OF q pol ports g2(1), of t2 r1] by blast
      have pb: "pumps_bounded p ?r0 r4" using T(3) I(3) by (auto simp: pumps_bounded_def)
      show ?thesis
        by (rule that [OF T(2) pb, of EV_OK])
          (use ok n0 I(1) go n2 True T in \<open>simp_all add: ev_runtime_loop_poll_once_def Let_def\<close>)
    qed
  qed
  obtain rc r s' where f: "loop_finalize ports (rc0 = EV_OK) t0 rc3 r3 s3 = (rc, r, s')" by (rule prod_cases3)
  note F = finalize_node [OF ports J(1,3) f]
  have "graph_node s'" using F J(1) by auto
  moreover have "unat (lr_pump_calls r) \<le> lp_max_pump_calls p"
    using F J(2) by (simp add: pumps_bounded_def ev_runtime_loop_report_reset_def)
  ultimately show ?thesis using run F by (simp add: f)
qed

text \<open>A loop on the demonstration graph: a clock that reads the time 5, no collector and no check of its own.\<close>

definition demo_loop_ports :: "unit ev_runtime_loop_ports" where
  "demo_loop_ports = \<lparr>lq_collect_ingress = Some (\<lambda>s r p. (EV_OK, r, s)),
     lq_timer_delivery = Some (ev_runtime_timer_delivery demo_graph_env),
     lq_now_ms = Some (\<lambda>t u. (EV_OK, 5, u)), lq_work_pending = None\<rparr>"

theorem runtime_loop_returns_witness:
  "\<exists>rc r s'. ev_runtime_loop_poll_once demo_graph_env (Some demo_poll_graph) (Some ev_runtime_loop_policy_default)
      (Some demo_loop_ports) = Some (rc, Some r, Some s')
     \<and> graph_node s' \<and> unat (lr_pump_calls r) \<le> lp_max_pump_calls ev_runtime_loop_policy_default
     \<and> (rc = EV_OK \<longrightarrow> system_load s' graph_system = 0)"
proof (rule runtime_loop_returns [OF demo_poll_node])
  show "quiet_env demo_graph_env" by (rule demo_graph_env_quiet)
  show "loop_policy_ok ev_runtime_loop_policy_default" by (simp add: loop_policy_ok_def ev_runtime_loop_policy_default_def)
  show "loop_ports_ok demo_graph_env demo_loop_ports" by (simp add: loop_ports_ok_def demo_loop_ports_def honest_collector_def)
qed

end
