(* ===== verification/EvActorMsg.thy ===== *)
theory EvActorMsg
  imports EvPublish
begin

text \<open>
  What the actors of \<open>actors/\<close> share: the bytes of strings and of little-endian payload structs, and the
  steps by which an actor publishes an inline payload (\<open>ev_msg_init_publish\<close>,
  \<open>ev_msg_set_inline_payload\<close>, \<open>ev_publish\<close>, \<open>ev_msg_dispose\<close>), which each actor's file repeats.
\<close>

section \<open>Bytes\<close>

definition bytes_of :: "string \<Rightarrow> u8 list" where
  "bytes_of s = map of_char s"

definition le32_bytes :: "u32 \<Rightarrow> u8 list" where
  "le32_bytes x = [ucast x, ucast (drop_bit 8 x), ucast (drop_bit 16 x), ucast (drop_bit 24 x)]"

definition le32_at :: "u8 list \<Rightarrow> nat \<Rightarrow> u32" where
  "le32_at b i = ucast (b ! i) OR push_bit 8 (ucast (b ! (i + 1))) OR push_bit 16 (ucast (b ! (i + 2)))
     OR push_bit 24 (ucast (b ! (i + 3)))"

lemma length_le32_bytes [simp]: "length (le32_bytes x) = 4"
  by (simp add: le32_bytes_def)

lemma le32_bytes_roundtrip [simp]: "le32_at (le32_bytes x @ bs) 0 = x"
proof (rule bit_word_eqI)
  fix n assume "n < LENGTH(32)"
  then show "bit (le32_at (le32_bytes x @ bs) 0) n = bit x n"
    by (cases "n < 24"; cases "n < 16"; cases "n < 8") (auto simp: le32_at_def le32_bytes_def bit_simps)
qed

text \<open>The longest sleep a command may ask for, a day.\<close>

abbreviation EV_POWER_MAX_SLEEP_DURATION_MS :: u32 where "EV_POWER_MAX_SLEEP_DURATION_MS \<equiv> 86400000"

section \<open>Publishing an inline payload\<close>

text \<open>An envelope in the making: its result code, the message and the state.\<close>

definition build_inline ::
    "'s ev_lifecycle \<Rightarrow> ev_event_id \<Rightarrow> ev_actor_id \<Rightarrow> u8 list \<Rightarrow> 's \<Rightarrow> ev_result \<times> ev_msg \<times> 's" where
  "build_inline lc event_id source payload s =
     (let (rc, pm) = ev_msg_init_publish (Some zero_msg) event_id source; m = the pm
      in if rc \<noteq> EV_OK then (rc, m, s)
         else let (rc, pm, s) = ev_msg_set_inline_payload lc (Some m) (Some payload) (length payload) s
              in (rc, the pm, s))"

text \<open>The message that results.\<close>

definition inline_msg :: "ev_event_id \<Rightarrow> ev_actor_id \<Rightarrow> u8 list \<Rightarrow> ev_msg" where
  "inline_msg event_id source payload =
     zero_msg\<lparr>msg_cookie := EV_MSG_COOKIE, msg_event_id := event_id, msg_source_actor := source,
       msg_target_actor := EV_ACTOR_NONE, msg_storage := EV_MSG_STORAGE_INLINE,
       msg_payload_size := length payload, msg_inline_bytes := payload @ drop (length payload) zero_inline\<rparr>"

definition inline_event :: "ev_event_id \<Rightarrow> bool" where
  "inline_event e \<longleftrightarrow> (case ev_event_meta e of None \<Rightarrow> False
     | Some meta \<Rightarrow> ev_payload_kind_allows_inline (evm_payload_kind meta))"

lemma build_inline_eq:
  assumes "inline_event e" and "ev_actor_id_is_valid a" and "0 < length payload" and "length payload \<le> 24"
  shows "build_inline lc e a payload s = (EV_OK, inline_msg e a payload, s)"
proof -
  have v: "ev_event_id_is_valid e" using assms(1) by (auto simp: inline_event_def ev_event_id_is_valid_def split: option.splits)
  show ?thesis
    using assms v
    by (auto simp: build_inline_def ev_msg_init_publish_def ev_msg_reset_def ev_msg_set_inline_payload_def
        ev_msg_has_cookie_def ev_msg_is_disposed_def zero_msg_def inline_event_def clear_payload_def
        ev_msg_release_attached_payload_def call_release_def inline_msg_def Let_def split: option.splits)
qed

lemma inline_msg_valid:
  assumes "inline_event e" and "ev_actor_id_is_valid a" and "0 < length payload" and "length payload \<le> 24"
  shows "ev_msg_validate (Some (inline_msg e a payload)) = EV_OK"
proof -
  have v: "ev_event_id_is_valid e" using assms(1) by (auto simp: inline_event_def ev_event_id_is_valid_def split: option.splits)
  show ?thesis
    using assms v
    by (auto simp: ev_msg_validate_def inline_msg_def ev_msg_has_cookie_def ev_msg_is_disposed_def zero_msg_def
        inline_event_def ev_payload_kind_allows_inline_def Let_def split: option.splits ev_payload_kind.splits)
qed

text \<open>Disposing an inline message runs no callback.\<close>

lemma dispose_inline [simp]:
  "fst (ev_msg_dispose lc (Some (inline_msg e a payload)) s) = EV_OK"
  "snd (snd (ev_msg_dispose lc (Some (inline_msg e a payload)) s)) = s"
  by (simp_all add: ev_msg_dispose_def inline_msg_def ev_msg_is_disposed_def ev_msg_has_cookie_def call_release_def zero_msg_def)

lemma dispose_inline_state:
  "ev_msg_dispose lc (Some (inline_msg e a payload)) s = (rc, pm, s') \<Longrightarrow> s' = s"
  using dispose_inline(2) [of lc e a payload s] by simp

end
