(* ===== verification/EvCommandActor.thy ===== *)
theory EvCommandActor
  imports EvActorMsg
begin

text \<open>
  The command actor (\<open>actors/framework/ev_command_actor.c\<close>): it parses the key-value payload of a received
  MQTT message, checks the shared token and the capability of the topic, limits the rate, and publishes the
  command. Sleep takes two messages: one that arms it with a nonce and one that confirms the nonce within a
  window of ticks.

  A string is the list of its bytes; a pointer and a length into a buffer are the bytes they delimit,
  \<open>None\<close> for \<open>NULL\<close>. The bytes a message delimits are read within the message object.
\<close>

section \<open>Parsing\<close>

record ev_command_parse_state =
  ps_token :: "u8 list option"
  ps_mask :: "u8 list option"
  ps_valid :: "u8 list option"
  ps_text :: "u8 list option"
  ps_arm :: "u8 list option"
  ps_confirm :: "u8 list option"
  ps_ms :: "u8 list option"

abbreviation EV_COMMAND_U32_MAX_DECIMAL_DIGITS :: nat where "EV_COMMAND_U32_MAX_DECIMAL_DIGITS \<equiv> 10"
abbreviation EV_COMMAND_TOKEN_MAX_BYTES :: nat where "EV_COMMAND_TOKEN_MAX_BYTES \<equiv> 32"
abbreviation EV_COMMAND_TOPIC_MAX_BYTES :: nat where "EV_COMMAND_TOPIC_MAX_BYTES \<equiv> 16"
abbreviation EV_COMMAND_PAYLOAD_MAX_BYTES :: nat where "EV_COMMAND_PAYLOAD_MAX_BYTES \<equiv> 128"
abbreviation EV_COMMAND_SLEEP_NONCE_MAX_BYTES :: nat where "EV_COMMAND_SLEEP_NONCE_MAX_BYTES \<equiv> 16"
abbreviation EV_COMMAND_MIN_INTERVAL_TICKS :: u32 where "EV_COMMAND_MIN_INTERVAL_TICKS \<equiv> 1"
abbreviation EV_COMMAND_SLEEP_CONFIRM_WINDOW_TICKS :: u32 where "EV_COMMAND_SLEEP_CONFIRM_WINDOW_TICKS \<equiv> 30"
abbreviation EV_COMMAND_CAP_LED :: u32 where "EV_COMMAND_CAP_LED \<equiv> 1"
abbreviation EV_COMMAND_CAP_DISPLAY :: u32 where "EV_COMMAND_CAP_DISPLAY \<equiv> 2"
abbreviation EV_COMMAND_CAP_SLEEP :: u32 where "EV_COMMAND_CAP_SLEEP \<equiv> 4"
abbreviation EV_MCP23008_LED_MASK :: u8 where "EV_MCP23008_LED_MASK \<equiv> 0x0F"
abbreviation EV_OLED_TEXT_MAX_CHARS :: nat where "EV_OLED_TEXT_MAX_CHARS \<equiv> 22"

text \<open>The string of a C string is its bytes before the terminator.\<close>

fun ev_command_bounded_cstr_len :: "u8 list option \<Rightarrow> nat \<Rightarrow> nat" where
  "ev_command_bounded_cstr_len None max_len = 0"
| "ev_command_bounded_cstr_len (Some s) max_len = (if length s < max_len then length s else max_len)"

definition ev_command_bytes_equal :: "u8 list option \<Rightarrow> u8 list option \<Rightarrow> bool" where
  "ev_command_bytes_equal a b \<longleftrightarrow> a \<noteq> None \<and> b \<noteq> None \<and> length (the a) = length (the b) \<and> the a = the b"

definition ev_command_topic_is :: "u8 list option \<Rightarrow> string \<Rightarrow> bool" where
  "ev_command_topic_is topic literal \<longleftrightarrow> ev_command_bytes_equal topic (Some (bytes_of literal))"

definition printable_byte :: "u8 \<Rightarrow> bool" where
  "printable_byte ch \<longleftrightarrow> \<not> (ch < 0x20 \<or> 0x7E < ch)"

fun ev_command_ascii_printable :: "u8 list \<Rightarrow> bool" where
  "ev_command_ascii_printable [] = True"
| "ev_command_ascii_printable (ch # data) = (if printable_byte ch then ev_command_ascii_printable data else False)"

primrec u32_dec_loop :: "u8 list \<Rightarrow> u32 \<Rightarrow> u32 option" where
  "u32_dec_loop [] value = Some value"
| "u32_dec_loop (ch # data) value =
     (if ch < 0x30 \<or> 0x39 < ch then None
      else
        let digit = ucast (ch - 0x30)
        in if (0xFFFFFFFF - digit) div 10 < value then None else u32_dec_loop data (value * 10 + digit))"

definition ev_command_parse_uint32_dec :: "u8 list option \<Rightarrow> u32 option" where
  "ev_command_parse_uint32_dec data =
     (case data of None \<Rightarrow> None
      | Some d \<Rightarrow> if length d = 0 \<or> EV_COMMAND_U32_MAX_DECIMAL_DIGITS < length d then None else u32_dec_loop d 0)"

definition ev_command_hex_digit :: "u8 \<Rightarrow> u8 option" where
  "ev_command_hex_digit ch =
     (if 0x30 \<le> ch \<and> ch \<le> 0x39 then Some (ch - 0x30)
      else if 0x61 \<le> ch \<and> ch \<le> 0x66 then Some (10 + (ch - 0x61))
      else if 0x41 \<le> ch \<and> ch \<le> 0x46 then Some (10 + (ch - 0x41))
      else None)"

primrec u8_hex_loop :: "u8 list \<Rightarrow> u8 \<Rightarrow> u8 option" where
  "u8_hex_loop [] value = Some value"
| "u8_hex_loop (ch # data) value =
     (case ev_command_hex_digit ch of None \<Rightarrow> None
      | Some nibble \<Rightarrow> u8_hex_loop data (push_bit 4 value OR nibble))"

definition ev_command_parse_u8_hex :: "u8 list option \<Rightarrow> u8 option" where
  "ev_command_parse_u8_hex data =
     (case data of None \<Rightarrow> None | Some d \<Rightarrow> if length d = 0 \<or> 2 < length d then None else u8_hex_loop d 0)"

text \<open>The index of the first byte from \<open>i\<close> on that is in \<open>stops\<close>, or the end of the payload.\<close>

function scan_to :: "u8 list \<Rightarrow> u8 list \<Rightarrow> nat \<Rightarrow> nat" where
  "scan_to stops payload i =
     (if i < length payload \<and> payload ! i \<notin> set stops then scan_to stops payload (Suc i) else i)"
  by auto
termination by (relation "measure (\<lambda>(stops, payload, i). length payload - i)") auto

declare scan_to.simps [simp del]

text \<open>The next key, its value, and where the next pair starts.\<close>

definition ev_command_parse_next_kv :: "u8 list \<Rightarrow> nat \<Rightarrow> ((u8 list \<times> u8 list) \<times> nat) option" where
  "ev_command_parse_next_kv payload cursor =
     (if length payload < cursor then None
      else if cursor = length payload then None
      else
        let start = cursor; eq = scan_to [0x3D, 0x3B] payload start
        in if eq = start \<or> length payload \<le> eq \<or> payload ! eq \<noteq> 0x3D then None
           else
             let stop = scan_to [0x3B] payload (eq + 1)
             in Some ((take (eq - start) (drop start payload), take (stop - (eq + 1)) (drop (eq + 1) payload)),
                  if stop < length payload then stop + 1 else stop))"

definition ev_command_record_kv :: "ev_command_parse_state \<Rightarrow> u8 list \<times> u8 list \<Rightarrow> ev_command_parse_state" where
  "ev_command_record_kv st kv =
     (let (key, value) = kv
      in if key = bytes_of ''token'' then st\<lparr>ps_token := Some value\<rparr>
         else if key = bytes_of ''mask'' then st\<lparr>ps_mask := Some value\<rparr>
         else if key = bytes_of ''valid'' then st\<lparr>ps_valid := Some value\<rparr>
         else if key = bytes_of ''text'' then st\<lparr>ps_text := Some value\<rparr>
         else if key = bytes_of ''arm'' then st\<lparr>ps_arm := Some value\<rparr>
         else if key = bytes_of ''confirm'' then st\<lparr>ps_confirm := Some value\<rparr>
         else if key = bytes_of ''ms'' then st\<lparr>ps_ms := Some value\<rparr>
         else st)"

lemma scan_to_bounds: "i \<le> scan_to stops payload i \<and> (i \<le> length payload \<longrightarrow> scan_to stops payload i \<le> length payload)"
proof (induction stops payload i rule: scan_to.induct)
  case (1 stops payload i)
  show ?case
  proof (cases "i < length payload \<and> payload ! i \<notin> set stops")
    case True
    then have "scan_to stops payload i = scan_to stops payload (Suc i)" by (subst scan_to.simps) (rule if_P)
    then show ?thesis using 1 True by auto
  next
    case False
    then have "scan_to stops payload i = i" by (subst scan_to.simps) (rule if_not_P)
    then show ?thesis by simp
  qed
qed

lemma next_kv_advances:
  assumes "ev_command_parse_next_kv payload cursor = Some (kv, c)"
  shows "cursor < c \<and> c \<le> length payload"
proof -
  let ?eq = "scan_to [0x3D, 0x3B] payload cursor"
  have e: "cursor \<le> ?eq" "?eq < length payload"
    "c = (if scan_to [0x3B] payload (?eq + 1) < length payload then scan_to [0x3B] payload (?eq + 1) + 1
          else scan_to [0x3B] payload (?eq + 1))"
    using assms scan_to_bounds [of cursor "[0x3D, 0x3B]" payload]
    by (simp_all add: ev_command_parse_next_kv_def Let_def split: if_splits)
  have "?eq + 1 \<le> scan_to [0x3B] payload (?eq + 1)" "scan_to [0x3B] payload (?eq + 1) \<le> length payload"
    using scan_to_bounds [of "?eq + 1" "[0x3B]" payload] e(2) by simp_all
  then show ?thesis using e by (simp split: if_splits)
qed

function parse_loop :: "u8 list \<Rightarrow> nat \<Rightarrow> ev_command_parse_state \<Rightarrow> ev_command_parse_state option" where
  "parse_loop payload cursor st =
     (if cursor < length payload
      then (case ev_command_parse_next_kv payload cursor of
              None \<Rightarrow> None
            | Some (kv, cursor) \<Rightarrow> parse_loop payload cursor (ev_command_record_kv st kv))
      else Some st)"
  by auto
termination
  by (relation "measure (\<lambda>(payload, cursor, st). length payload - cursor)") (auto dest: next_kv_advances)

declare parse_loop.simps [simp del]

definition zero_parse_state :: ev_command_parse_state where
  "zero_parse_state = \<lparr>ps_token = None, ps_mask = None, ps_valid = None, ps_text = None, ps_arm = None,
     ps_confirm = None, ps_ms = None\<rparr>"

definition ev_command_parse_payload :: "u8 list option \<Rightarrow> ev_command_parse_state option" where
  "ev_command_parse_payload payload =
     (case payload of None \<Rightarrow> None
      | Some p \<Rightarrow>
        if length p = 0 \<or> EV_COMMAND_PAYLOAD_MAX_BYTES < length p \<or> \<not> ev_command_ascii_printable p then None
        else parse_loop p 0 zero_parse_state)"

section \<open>The actor\<close>

record ev_command_actor_stats =
  cs_ticks_seen :: u32
  cs_rx_seen :: u32
  cs_rx_inline_seen :: u32
  cs_rx_lease_seen :: u32
  cs_unknown_topic :: u32
  cs_auth_rejects :: u32
  cs_disabled_rejects :: u32
  cs_capability_rejects :: u32
  cs_parse_errors :: u32
  cs_rate_limited :: u32
  cs_commands_executed :: u32
  cs_led_commands :: u32
  cs_display_commands :: u32
  cs_sleep_arm_requests :: u32
  cs_sleep_confirm_requests :: u32
  cs_sleep_commands :: u32
  cs_sleep_expired :: u32
  cs_sleep_confirm_mismatch :: u32
  cs_publish_failures :: u32

text \<open>The context of the deliveries is the state \<open>'s\<close> they act on.\<close>

record 's ev_command_actor_ctx =
  ca_deliver :: "'s ev_delivery_fn option"
  ca_token :: "u8 list option"
  ca_token_len :: nat
  ca_capabilities :: u32
  ca_tick_counter :: u32
  ca_last_led_tick :: u32
  ca_last_display_tick :: u32
  ca_last_sleep_tick :: u32
  ca_sleep_armed :: bool
  ca_sleep_duration_ms :: u32
  ca_sleep_expiry_tick :: u32
  ca_sleep_nonce_len :: u8
  ca_sleep_nonce :: "u8 list"
  ca_stats :: ev_command_actor_stats

abbreviation tally :: "(ev_command_actor_stats \<Rightarrow> ev_command_actor_stats) \<Rightarrow> 's ev_command_actor_ctx \<Rightarrow> 's ev_command_actor_ctx" where
  "tally f ctx \<equiv> ctx\<lparr>ca_stats := f (ca_stats ctx)\<rparr>"

definition ev_command_authorized :: "'s ev_command_actor_ctx \<Rightarrow> ev_command_parse_state \<Rightarrow> bool" where
  "ev_command_authorized ctx st \<longleftrightarrow> ca_token ctx \<noteq> None \<and> 0 < ca_token_len ctx \<and> ps_token st \<noteq> None
     \<and> ev_command_bytes_equal (ps_token st) (map_option (take (ca_token_len ctx)) (ca_token ctx))"

definition ev_command_rate_limited :: "'s ev_command_actor_ctx \<Rightarrow> u32 \<Rightarrow> bool" where
  "ev_command_rate_limited ctx last_tick \<longleftrightarrow> ca_tick_counter ctx - last_tick < EV_COMMAND_MIN_INTERVAL_TICKS"

definition ev_command_publish_inline ::
    "'s ev_lifecycle \<Rightarrow> ev_event_id \<Rightarrow> u8 list \<Rightarrow> 's ev_command_actor_ctx \<Rightarrow> 's \<Rightarrow> ev_result \<times> 's ev_command_actor_ctx \<times> 's" where
  "ev_command_publish_inline lc event_id payload ctx s =
     (if ca_deliver ctx = None \<or> length payload = 0 then (EV_ERR_INVALID_ARG, ctx, s)
      else
        let (rc, out, s) = build_inline lc event_id ACT_COMMAND payload s;
            (rc, s) = (if rc = EV_OK then let (rc, n, s) = ev_publish (Some out) (ca_deliver ctx) s in (rc, s) else (rc, s));
            ctx = (if rc \<noteq> EV_OK then tally (\<lambda>c. c\<lparr>cs_publish_failures := cs_publish_failures c + 1\<rparr>) ctx else ctx);
            (_, _, s) = ev_msg_dispose lc (Some out) s
        in (rc, ctx, s))"

text \<open>The command structs as they lie in the payload.\<close>

definition led_cmd_bytes :: "u8 \<Rightarrow> u8 \<Rightarrow> u8 list" where
  "led_cmd_bytes value_mask valid_mask = [value_mask, valid_mask]"

definition display_cmd_bytes :: "u8 \<Rightarrow> u8 \<Rightarrow> u8 list \<Rightarrow> u8 list" where
  "display_cmd_bytes page column text = [page, column] @ text @ replicate (EV_OLED_TEXT_MAX_CHARS - length text) 0"

definition executed :: "(ev_command_actor_stats \<Rightarrow> ev_command_actor_stats) \<Rightarrow> 's ev_command_actor_ctx \<Rightarrow> 's ev_command_actor_ctx" where
  "executed f = tally (\<lambda>c. f (c\<lparr>cs_commands_executed := cs_commands_executed c + 1\<rparr>))"

definition ev_command_handle_led ::
    "'s ev_lifecycle \<Rightarrow> ev_command_parse_state \<Rightarrow> 's ev_command_actor_ctx \<Rightarrow> 's \<Rightarrow> ev_result \<times> 's ev_command_actor_ctx \<times> 's" where
  "ev_command_handle_led lc st ctx s =
     (if ca_capabilities ctx AND EV_COMMAND_CAP_LED = 0
      then (EV_OK, tally (\<lambda>c. c\<lparr>cs_capability_rejects := cs_capability_rejects c + 1\<rparr>) ctx, s)
      else if ev_command_rate_limited ctx (ca_last_led_tick ctx)
      then (EV_OK, tally (\<lambda>c. c\<lparr>cs_rate_limited := cs_rate_limited c + 1\<rparr>) ctx, s)
      else case (ev_command_parse_u8_hex (ps_mask st), ev_command_parse_u8_hex (ps_valid st)) of
          (Some leds, Some valid) \<Rightarrow>
            let (rc, ctx, s) = ev_command_publish_inline lc EV_PANEL_LED_SET_CMD
                  (led_cmd_bytes (leds AND EV_MCP23008_LED_MASK) (valid AND EV_MCP23008_LED_MASK)) ctx s
            in (EV_OK,
                if rc = EV_OK
                then (executed (\<lambda>c. c\<lparr>cs_led_commands := cs_led_commands c + 1\<rparr>) ctx)\<lparr>ca_last_led_tick := ca_tick_counter ctx\<rparr>
                else ctx, s)
        | _ \<Rightarrow> (EV_OK, tally (\<lambda>c. c\<lparr>cs_parse_errors := cs_parse_errors c + 1\<rparr>) ctx, s))"

definition ev_command_handle_display ::
    "'s ev_lifecycle \<Rightarrow> ev_command_parse_state \<Rightarrow> 's ev_command_actor_ctx \<Rightarrow> 's \<Rightarrow> ev_result \<times> 's ev_command_actor_ctx \<times> 's" where
  "ev_command_handle_display lc st ctx s =
     (if ca_capabilities ctx AND EV_COMMAND_CAP_DISPLAY = 0
      then (EV_OK, tally (\<lambda>c. c\<lparr>cs_capability_rejects := cs_capability_rejects c + 1\<rparr>) ctx, s)
      else if ev_command_rate_limited ctx (ca_last_display_tick ctx)
      then (EV_OK, tally (\<lambda>c. c\<lparr>cs_rate_limited := cs_rate_limited c + 1\<rparr>) ctx, s)
      else case ps_text st of
          None \<Rightarrow> (EV_OK, tally (\<lambda>c. c\<lparr>cs_parse_errors := cs_parse_errors c + 1\<rparr>) ctx, s)
        | Some text \<Rightarrow>
            if length text = 0 \<or> EV_OLED_TEXT_MAX_CHARS \<le> length text \<or> \<not> ev_command_ascii_printable text
            then (EV_OK, tally (\<lambda>c. c\<lparr>cs_parse_errors := cs_parse_errors c + 1\<rparr>) ctx, s)
            else
              let (rc, ctx, s) = ev_command_publish_inline lc EV_OLED_DISPLAY_TEXT_CMD (display_cmd_bytes 0 0 text) ctx s
              in (EV_OK,
                  if rc = EV_OK
                  then (executed (\<lambda>c. c\<lparr>cs_display_commands := cs_display_commands c + 1\<rparr>) ctx)\<lparr>
                         ca_last_display_tick := ca_tick_counter ctx\<rparr>
                  else ctx, s))"

definition ev_command_handle_sleep_arm ::
    "ev_command_parse_state \<Rightarrow> 's ev_command_actor_ctx \<Rightarrow> ev_result \<times> 's ev_command_actor_ctx" where
  "ev_command_handle_sleep_arm st ctx =
     (if ca_capabilities ctx AND EV_COMMAND_CAP_SLEEP = 0
      then (EV_OK, tally (\<lambda>c. c\<lparr>cs_capability_rejects := cs_capability_rejects c + 1\<rparr>) ctx)
      else if ev_command_rate_limited ctx (ca_last_sleep_tick ctx)
      then (EV_OK, tally (\<lambda>c. c\<lparr>cs_rate_limited := cs_rate_limited c + 1\<rparr>) ctx)
      else case (ps_arm st, ps_ms st) of
          (Some arm, Some ms) \<Rightarrow>
            (case (if length arm = 0 \<or> EV_COMMAND_SLEEP_NONCE_MAX_BYTES \<le> length arm \<or> \<not> ev_command_ascii_printable arm
                   then None else ev_command_parse_uint32_dec (Some ms)) of
               None \<Rightarrow> (EV_OK, tally (\<lambda>c. c\<lparr>cs_parse_errors := cs_parse_errors c + 1\<rparr>) ctx)
             | Some duration_ms \<Rightarrow>
                 if duration_ms = 0 \<or> EV_POWER_MAX_SLEEP_DURATION_MS < duration_ms
                 then (EV_OK, tally (\<lambda>c. c\<lparr>cs_parse_errors := cs_parse_errors c + 1\<rparr>) ctx)
                 else
                   (EV_OK, tally (\<lambda>c. c\<lparr>cs_sleep_arm_requests := cs_sleep_arm_requests c + 1\<rparr>)
                      (ctx\<lparr>ca_sleep_nonce := arm @ replicate (EV_COMMAND_SLEEP_NONCE_MAX_BYTES - length arm) 0,
                           ca_sleep_nonce_len := of_nat (length arm), ca_sleep_duration_ms := duration_ms,
                           ca_sleep_expiry_tick := ca_tick_counter ctx + EV_COMMAND_SLEEP_CONFIRM_WINDOW_TICKS,
                           ca_sleep_armed := True\<rparr>)))
        | _ \<Rightarrow> (EV_OK, tally (\<lambda>c. c\<lparr>cs_parse_errors := cs_parse_errors c + 1\<rparr>) ctx))"

text \<open>Has the tick counter passed the expiry?\<close>

definition sleep_arm_expired :: "'s ev_command_actor_ctx \<Rightarrow> bool" where
  "sleep_arm_expired ctx \<longleftrightarrow> ca_tick_counter ctx - ca_sleep_expiry_tick ctx < 0xFFFFFFFF div 2"

definition ev_command_handle_sleep_confirm ::
    "'s ev_lifecycle \<Rightarrow> ev_command_parse_state \<Rightarrow> 's ev_command_actor_ctx \<Rightarrow> 's \<Rightarrow> ev_result \<times> 's ev_command_actor_ctx \<times> 's" where
  "ev_command_handle_sleep_confirm lc st ctx s =
     (let ctx = tally (\<lambda>c. c\<lparr>cs_sleep_confirm_requests := cs_sleep_confirm_requests c + 1\<rparr>) ctx
      in if ca_capabilities ctx AND EV_COMMAND_CAP_SLEEP = 0
         then (EV_OK, tally (\<lambda>c. c\<lparr>cs_capability_rejects := cs_capability_rejects c + 1\<rparr>) ctx, s)
         else if \<not> ca_sleep_armed ctx \<or> ps_confirm st = None
                 \<or> length (the (ps_confirm st)) \<noteq> unat (ca_sleep_nonce_len ctx)
                 \<or> the (ps_confirm st) \<noteq> take (length (the (ps_confirm st))) (ca_sleep_nonce ctx)
         then (EV_OK, tally (\<lambda>c. c\<lparr>cs_sleep_confirm_mismatch := cs_sleep_confirm_mismatch c + 1\<rparr>) ctx, s)
         else if sleep_arm_expired ctx
         then (EV_OK, tally (\<lambda>c. c\<lparr>cs_sleep_expired := cs_sleep_expired c + 1\<rparr>) (ctx\<lparr>ca_sleep_armed := False\<rparr>), s)
         else
           let (rc, ctx, s) = ev_command_publish_inline lc EV_SYS_GOTO_SLEEP_CMD (le32_bytes (ca_sleep_duration_ms ctx))
                 (ctx\<lparr>ca_sleep_armed := False\<rparr>) s
           in (EV_OK,
               if rc = EV_OK
               then (executed (\<lambda>c. c\<lparr>cs_sleep_commands := cs_sleep_commands c + 1\<rparr>) ctx)\<lparr>ca_last_sleep_tick := ca_tick_counter ctx\<rparr>
               else ctx, s))"

definition ev_command_dispatch ::
    "'s ev_lifecycle \<Rightarrow> u8 list option \<Rightarrow> u8 list option \<Rightarrow> 's ev_command_actor_ctx \<Rightarrow> 's \<Rightarrow> ev_result \<times> 's ev_command_actor_ctx \<times> 's" where
  "ev_command_dispatch lc topic payload ctx s =
     (let ctx = tally (\<lambda>c. c\<lparr>cs_rx_seen := cs_rx_seen c + 1\<rparr>) ctx;
          parse_error = (EV_OK, tally (\<lambda>c. c\<lparr>cs_parse_errors := cs_parse_errors c + 1\<rparr>) ctx, s)
      in if topic = None \<or> payload = None \<or> length (the topic) = 0 \<or> EV_COMMAND_TOPIC_MAX_BYTES < length (the topic)
            \<or> length (the payload) = 0 \<or> EV_COMMAND_PAYLOAD_MAX_BYTES < length (the payload)
         then parse_error
         else case ev_command_parse_payload payload of
             None \<Rightarrow> parse_error
           | Some st \<Rightarrow>
               if \<not> ev_command_authorized ctx st
               then (EV_OK,
                     if ca_token ctx = None \<or> ca_token_len ctx = 0
                     then tally (\<lambda>c. c\<lparr>cs_disabled_rejects := cs_disabled_rejects c + 1\<rparr>) ctx
                     else tally (\<lambda>c. c\<lparr>cs_auth_rejects := cs_auth_rejects c + 1\<rparr>) ctx, s)
               else if ev_command_topic_is topic ''cmd/led'' then ev_command_handle_led lc st ctx s
               else if ev_command_topic_is topic ''cmd/display'' then ev_command_handle_display lc st ctx s
               else if ev_command_topic_is topic ''cmd/sleep''
               then
                 if ps_arm st \<noteq> None then (let (rc, ctx) = ev_command_handle_sleep_arm st ctx in (rc, ctx, s))
                 else if ps_confirm st \<noteq> None then ev_command_handle_sleep_confirm lc st ctx s
                 else parse_error
               else (EV_OK, tally (\<lambda>c. c\<lparr>cs_unknown_topic := cs_unknown_topic c + 1\<rparr>) ctx, s))"

text \<open>
  The received payload structs lie in memory as two lengths, two flags, the topic array and the payload array.
  \<open>mem\<close> is the memory from a payload pointer on: the object it leads to, and whatever follows the object. The
  code bounds the lengths by those of the longest command, not by the arrays of the inline struct.
\<close>

type_synonym payload_memory = "ev_payload_ref \<Rightarrow> u8 list"

abbreviation EV_NET_INLINE_PAYLOAD_SIZE :: nat where "EV_NET_INLINE_PAYLOAD_SIZE \<equiv> 20"
abbreviation EV_NET_RX_PAYLOAD_SIZE :: nat where "EV_NET_RX_PAYLOAD_SIZE \<equiv> 196"

definition rx_topic :: "u8 list \<Rightarrow> u8 list" where
  "rx_topic b = take (unat (b ! 0)) (drop 4 b)"

definition rx_payload :: "nat \<Rightarrow> u8 list \<Rightarrow> u8 list" where
  "rx_payload topic_capacity b = take (unat (b ! 1)) (drop (4 + topic_capacity) b)"

definition ev_command_handle_inline ::
    "'s ev_lifecycle \<Rightarrow> payload_memory \<Rightarrow> ev_msg \<Rightarrow> 's ev_command_actor_ctx \<Rightarrow> 's \<Rightarrow> ev_result \<times> 's ev_command_actor_ctx \<times> 's" where
  "ev_command_handle_inline lc mem msg ctx s =
     (if ev_msg_payload_size (Some msg) \<noteq> EV_NET_INLINE_PAYLOAD_SIZE \<or> ev_msg_payload_data (Some msg) = None
      then (EV_ERR_CONTRACT, tally (\<lambda>c. c\<lparr>cs_parse_errors := cs_parse_errors c + 1\<rparr>) ctx, s)
      else
        let rx = mem (the (ev_msg_payload_data (Some msg)))
        in ev_command_dispatch lc (Some (rx_topic rx)) (Some (rx_payload 8 rx))
             (tally (\<lambda>c. c\<lparr>cs_rx_inline_seen := cs_rx_inline_seen c + 1\<rparr>) ctx) s)"

definition ev_command_handle_lease ::
    "'s ev_lifecycle \<Rightarrow> payload_memory \<Rightarrow> ev_msg \<Rightarrow> 's ev_command_actor_ctx \<Rightarrow> 's \<Rightarrow> ev_result \<times> 's ev_command_actor_ctx \<times> 's" where
  "ev_command_handle_lease lc mem msg ctx s =
     (if ev_msg_payload_size (Some msg) \<noteq> EV_NET_RX_PAYLOAD_SIZE \<or> ev_msg_payload_data (Some msg) = None
      then (EV_ERR_CONTRACT, tally (\<lambda>c. c\<lparr>cs_parse_errors := cs_parse_errors c + 1\<rparr>) ctx, s)
      else
        let rx = mem (the (ev_msg_payload_data (Some msg)))
        in ev_command_dispatch lc (Some (rx_topic rx)) (Some (rx_payload 64 rx))
             (tally (\<lambda>c. c\<lparr>cs_rx_lease_seen := cs_rx_lease_seen c + 1\<rparr>) ctx) s)"

definition ev_command_expire_sleep_arm :: "'s ev_command_actor_ctx \<Rightarrow> 's ev_command_actor_ctx" where
  "ev_command_expire_sleep_arm ctx =
     (if ca_sleep_armed ctx \<and> sleep_arm_expired ctx
      then tally (\<lambda>c. c\<lparr>cs_sleep_expired := cs_sleep_expired c + 1\<rparr>) (ctx\<lparr>ca_sleep_armed := False\<rparr>) else ctx)"

definition zero_command_stats :: ev_command_actor_stats where
  "zero_command_stats = \<lparr>cs_ticks_seen = 0, cs_rx_seen = 0, cs_rx_inline_seen = 0, cs_rx_lease_seen = 0,
     cs_unknown_topic = 0, cs_auth_rejects = 0, cs_disabled_rejects = 0, cs_capability_rejects = 0, cs_parse_errors = 0,
     cs_rate_limited = 0, cs_commands_executed = 0, cs_led_commands = 0, cs_display_commands = 0,
     cs_sleep_arm_requests = 0, cs_sleep_confirm_requests = 0, cs_sleep_commands = 0, cs_sleep_expired = 0,
     cs_sleep_confirm_mismatch = 0, cs_publish_failures = 0\<rparr>"

definition ev_command_actor_init ::
    "'s ev_command_actor_ctx option \<Rightarrow> 's ev_delivery_fn option \<Rightarrow> u8 list option \<Rightarrow> u32 \<Rightarrow> ev_result \<times> 's ev_command_actor_ctx option" where
  "ev_command_actor_init ctx deliver token capabilities =
     (if ctx = None then (EV_ERR_INVALID_ARG, None)
      else
        let token_len = ev_command_bounded_cstr_len token (EV_COMMAND_TOKEN_MAX_BYTES + 1);
            keep = token_len \<le> EV_COMMAND_TOKEN_MAX_BYTES
        in (EV_OK, Some \<lparr>ca_deliver = deliver, ca_token = (if keep then token else None),
              ca_token_len = (if keep then token_len else 0), ca_capabilities = capabilities, ca_tick_counter = 0,
              ca_last_led_tick = 0xFFFFFFFF, ca_last_display_tick = 0xFFFFFFFF, ca_last_sleep_tick = 0xFFFFFFFF,
              ca_sleep_armed = False, ca_sleep_duration_ms = 0, ca_sleep_expiry_tick = 0, ca_sleep_nonce_len = 0,
              ca_sleep_nonce = replicate EV_COMMAND_SLEEP_NONCE_MAX_BYTES 0, ca_stats = zero_command_stats\<rparr>))"

definition ev_command_actor_handle ::
    "'s ev_lifecycle \<Rightarrow> payload_memory \<Rightarrow> 's ev_command_actor_ctx option \<Rightarrow> ev_msg option \<Rightarrow> 's
       \<Rightarrow> ev_result \<times> 's ev_command_actor_ctx option \<times> 's" where
  "ev_command_actor_handle lc mem actor_context msg s =
     (if actor_context = None \<or> msg = None then (EV_ERR_INVALID_ARG, actor_context, s)
      else
        let ctx = the actor_context; m = the msg;
            (rc, ctx, s) =
              (if msg_event_id m = EV_TICK_1S
               then (EV_OK, ev_command_expire_sleep_arm (tally (\<lambda>c. c\<lparr>cs_ticks_seen := cs_ticks_seen c + 1\<rparr>)
                       (ctx\<lparr>ca_tick_counter := ca_tick_counter ctx + 1\<rparr>)), s)
               else if msg_event_id m = EV_NET_MQTT_MSG_RX then ev_command_handle_inline lc mem m ctx s
               else if msg_event_id m = EV_NET_MQTT_MSG_RX_LEASE then ev_command_handle_lease lc mem m ctx s
               else (EV_OK, tally (\<lambda>c. c\<lparr>cs_unknown_topic := cs_unknown_topic c + 1\<rparr>) ctx, s))
        in (rc, Some ctx, s))"

definition ev_command_actor_stats_of :: "'s ev_command_actor_ctx option \<Rightarrow> ev_command_actor_stats option" where
  "ev_command_actor_stats_of ctx = map_option ca_stats ctx"

section \<open>Numbers\<close>

definition is_digit :: "u8 \<Rightarrow> bool" where
  "is_digit ch \<longleftrightarrow> 0x30 \<le> ch \<and> ch \<le> 0x39"

text \<open>The number a list of decimal digits denotes, after the digits that make \<open>v\<close>.\<close>

primrec dec_value :: "nat \<Rightarrow> u8 list \<Rightarrow> nat" where
  "dec_value v [] = v"
| "dec_value v (ch # ds) = dec_value (v * 10 + (unat ch - 48)) ds"

lemma dec_value_grows: "v \<le> dec_value v ds"
proof (induction ds arbitrary: v)
  case (Cons ch ds)
  have "v \<le> v * 10 + (unat ch - 48)" by simp
  also note Cons [of "v * 10 + (unat ch - 48)"]
  finally show ?case by simp
qed simp

lemma digit_value: "is_digit ch \<Longrightarrow> unat (ucast (ch - 0x30) :: u32) = unat ch - 48 \<and> unat ch - 48 \<le> 9"
  by (auto simp: is_digit_def unat_sub word_le_nat_alt unsigned_ucast_eq take_bit_nat_eq_self)

lemma dec_step_overflow:
  fixes v g :: u32
  assumes "unat g \<le> 9"
  shows "(0xFFFFFFFF - g) div 10 < v \<longleftrightarrow> 2 ^ 32 \<le> unat v * 10 + unat g"
proof -
  have "unat (0xFFFFFFFF - g) = 0xFFFFFFFF - unat g" by (rule trans [OF unat_sub]) (use assms in \<open>auto simp: word_le_nat_alt\<close>)
  then show ?thesis using assms by (auto simp: word_less_nat_alt unat_div)
qed

lemma u32_dec_loop_iff:
  "u32_dec_loop ds v = Some r \<longleftrightarrow> list_all is_digit ds \<and> dec_value (unat v) ds < 2 ^ 32 \<and> unat r = dec_value (unat v) ds"
proof (induction ds arbitrary: v)
  case Nil
  show ?case using unsigned_less [of v] by (auto simp: word_unat_eq_iff)
next
  case (Cons ch ds)
  show ?case
  proof (cases "is_digit ch")
    case False
    then show ?thesis by (auto simp: is_digit_def not_less not_le)
  next
    case True
    let ?g = "ucast (ch - 0x30) :: u32"
    note g = digit_value [OF True]
    have ge: "\<not> (ch < 0x30 \<or> 0x39 < ch)" using True by (auto simp: is_digit_def)
    show ?thesis
    proof (cases "2 ^ 32 \<le> unat v * 10 + unat ?g")
      case over: True
      then have "\<not> dec_value (unat v * 10 + (unat ch - 48)) ds < 2 ^ 32"
        using dec_value_grows [of "unat v * 10 + (unat ch - 48)" ds] g by simp
      then show ?thesis using over ge g dec_step_overflow [of ?g v] by (simp add: Let_def)
    next
      case False
      then have "unat (v * 10 + ?g) = unat v * 10 + (unat ch - 48)"
        using g by (simp add: unat_word_ariths)
      then show ?thesis using False ge g dec_step_overflow [of ?g v] Cons.IH [of "v * 10 + ?g"] True by (simp add: Let_def)
    qed
  qed
qed

lemma parse_uint32_dec_iff:
  "ev_command_parse_uint32_dec (Some ds) = Some r \<longleftrightarrow>
     ds \<noteq> [] \<and> length ds \<le> EV_COMMAND_U32_MAX_DECIMAL_DIGITS \<and> list_all is_digit ds
     \<and> dec_value 0 ds < 2 ^ 32 \<and> unat r = dec_value 0 ds"
  by (auto simp: ev_command_parse_uint32_dec_def u32_dec_loop_iff)

section \<open>Payloads\<close>

text \<open>The text of a list of key-value pairs, as a sender writes it.\<close>

fun render_pairs :: "(u8 list \<times> u8 list) list \<Rightarrow> u8 list" where
  "render_pairs [] = []"
| "render_pairs [(k, v)] = k @ 0x3D # v"
| "render_pairs ((k, v) # p # ps) = k @ 0x3D # v @ 0x3B # render_pairs (p # ps)"

definition pair_ok :: "u8 list \<times> u8 list \<Rightarrow> bool" where
  "pair_ok p \<longleftrightarrow> fst p \<noteq> [] \<and> 0x3D \<notin> set (fst p) \<and> 0x3B \<notin> set (fst p) \<and> 0x3B \<notin> set (snd p)
     \<and> list_all printable_byte (fst p) \<and> list_all printable_byte (snd p)"

lemma scan_to_stop:
  assumes "set xs \<inter> set stops = {}" and "ys = [] \<or> hd ys \<in> set stops"
  shows "scan_to stops (pre @ xs @ ys) (length pre) = length pre + length xs"
  using assms
proof (induction xs arbitrary: pre)
  case Nil
  then show ?case by (subst scan_to.simps) (cases ys, auto simp: nth_append)
next
  case (Cons x xs)
  have "scan_to stops (pre @ (x # xs) @ ys) (length pre) = scan_to stops (pre @ (x # xs) @ ys) (Suc (length pre))"
    by (rule trans [OF scan_to.simps if_P]) (use Cons.prems in \<open>auto simp: nth_append\<close>)
  then show ?case using Cons.IH [of "pre @ [x]"] Cons.prems by simp
qed

lemma next_kv_pair:
  assumes "pair_ok (k, v)" and rest: "rest = [] \<or> hd rest = 0x3B"
  shows "ev_command_parse_next_kv (pre @ k @ 0x3D # v @ rest) (length pre) =
     Some ((k, v), length pre + length k + 1 + length v + (if rest = [] then 0 else 1))"
proof -
  have k: "k \<noteq> []" "set k \<inter> set [0x3D, 0x3B] = {}" "set v \<inter> set [0x3B] = {}" using assms(1) by (auto simp: pair_ok_def)
  have eq: "scan_to [0x3D, 0x3B] (pre @ k @ 0x3D # v @ rest) (length pre) = length pre + length k"
    by (rule scan_to_stop) (use k in auto)
  have stop: "scan_to [0x3B] (pre @ k @ 0x3D # v @ rest) (length pre + length k + 1) = length pre + length k + 1 + length v"
    using scan_to_stop [of v "[0x3B]" rest "pre @ k @ [0x3D]"] k rest by simp
  show ?thesis
    using k(1) rest unfolding ev_command_parse_next_kv_def Let_def eq stop
    by (cases rest) (auto simp: nth_append)
qed

lemma parse_loop_render:
  assumes "list_all pair_ok ps" and "ps \<noteq> []"
  shows "parse_loop (pre @ render_pairs ps) (length pre) st = Some (fold (\<lambda>kv st. ev_command_record_kv st kv) ps st)"
  using assms
proof (induction ps arbitrary: pre st rule: render_pairs.induct)
  case (2 k v)
  then have n: "ev_command_parse_next_kv (pre @ k @ 0x3D # v) (length pre) = Some ((k, v), length (pre @ k @ 0x3D # v))"
    using next_kv_pair [of k v "[]" pre] by simp
  have fin: "parse_loop (pre @ k @ 0x3D # v) (length (pre @ k @ 0x3D # v)) st = Some st" for st
    by (subst parse_loop.simps) simp
  show ?case by (subst parse_loop.simps) (simp add: n fin [simplified])
next
  case (3 k v p ps)
  let ?pre = "pre @ k @ 0x3D # v @ [0x3B]"
  have n: "ev_command_parse_next_kv (pre @ render_pairs ((k, v) # p # ps)) (length pre) = Some ((k, v), length ?pre)"
    using next_kv_pair [of k v "0x3B # render_pairs (p # ps)" pre] 3(2) by simp
  have "parse_loop (pre @ render_pairs ((k, v) # p # ps)) (length ?pre) (ev_command_record_kv st (k, v))
      = Some (fold (\<lambda>kv st. ev_command_record_kv st kv) (p # ps) (ev_command_record_kv st (k, v)))"
    using 3(1) [of ?pre "ev_command_record_kv st (k, v)"] 3(2) by simp
  then show ?case by (subst parse_loop.simps) (simp add: n [simplified])
qed simp

lemma printable_append [simp]: "ev_command_ascii_printable xs \<longleftrightarrow> list_all printable_byte xs"
  by (induction xs) auto

lemma render_printable: "list_all pair_ok ps \<Longrightarrow> list_all printable_byte (render_pairs ps)"
  by (induction ps rule: render_pairs.induct) (auto simp: pair_ok_def printable_byte_def)

lemma render_length: "ps \<noteq> [] \<Longrightarrow> render_pairs ps \<noteq> []"
  by (cases ps rule: render_pairs.cases) auto

text \<open>The value recorded for a key is the last one given.\<close>

abbreviation last_value :: "(u8 list \<times> u8 list) list \<Rightarrow> string \<Rightarrow> u8 list option" where
  "last_value ps key \<equiv> map_of (rev ps) (bytes_of key)"

lemma keys_distinct:
  "distinct [bytes_of ''token'', bytes_of ''mask'', bytes_of ''valid'', bytes_of ''text'', bytes_of ''arm'',
     bytes_of ''confirm'', bytes_of ''ms'']"
  by code_simp

definition recorded :: "(u8 list \<times> u8 list) list \<Rightarrow> ev_command_parse_state" where
  "recorded ps = \<lparr>ps_token = last_value ps ''token'', ps_mask = last_value ps ''mask'', ps_valid = last_value ps ''valid'',
     ps_text = last_value ps ''text'', ps_arm = last_value ps ''arm'', ps_confirm = last_value ps ''confirm'',
     ps_ms = last_value ps ''ms''\<rparr>"

lemma recorded_snoc: "recorded (ps @ [kv]) = ev_command_record_kv (recorded ps) kv"
proof -
  obtain k v where kv: "kv = (k, v)" by (rule prod.exhaust)
  have upd: "\<lparr>ps_token = (if t = k then Some v else a1), ps_mask = (if m = k then Some v else a2),
      ps_valid = (if w = k then Some v else a3), ps_text = (if x = k then Some v else a4),
      ps_arm = (if a = k then Some v else a5), ps_confirm = (if c = k then Some v else a6),
      ps_ms = (if z = k then Some v else a7)\<rparr> =
    (let st = \<lparr>ps_token = a1, ps_mask = a2, ps_valid = a3, ps_text = a4, ps_arm = a5, ps_confirm = a6, ps_ms = a7\<rparr>
     in if k = t then st\<lparr>ps_token := Some v\<rparr> else if k = m then st\<lparr>ps_mask := Some v\<rparr>
        else if k = w then st\<lparr>ps_valid := Some v\<rparr> else if k = x then st\<lparr>ps_text := Some v\<rparr>
        else if k = a then st\<lparr>ps_arm := Some v\<rparr> else if k = c then st\<lparr>ps_confirm := Some v\<rparr>
        else if k = z then st\<lparr>ps_ms := Some v\<rparr> else st)"
    if d: "distinct [t, m, w, x, a, c, z]" for t m w x a c z :: "u8 list" and a1 a2 a3 a4 a5 a6 a7
  proof -
    consider "k = t" | "k = m" | "k = w" | "k = x" | "k = a" | "k = c" | "k = z" 
      | "k \<notin> {t, m, w, x, a, c, z}" "\<forall>y \<in> {t, m, w, x, a, c, z}. y \<noteq> k" by blast
    moreover have "distinct [z, c, a, x, w, m, t]" using d by auto
    ultimately show ?thesis using d by cases (simp_all add: Let_def)
  qed
  show ?thesis
    unfolding kv recorded_def ev_command_record_kv_def rev_append rev.simps append_Nil append_Cons map_of.simps fst_conv snd_conv
      fun_upd_apply prod.case upd [OF keys_distinct] Let_def ..
qed

lemma fold_record: "fold (\<lambda>kv st. ev_command_record_kv st kv) ps zero_parse_state = recorded ps"
proof (induction ps rule: rev_induct)
  case Nil
  show ?case by (simp add: recorded_def zero_parse_state_def)
qed (simp add: recorded_snoc)

text \<open>
  C19: a payload written as a list of key-value pairs parses back to the pairs: for every key the actor knows,
  the parsed field is the last value given for it, and keys it does not know are ignored.
\<close>

theorem command_payload_roundtrip:
  assumes "list_all pair_ok ps" and "ps \<noteq> []" and "length (render_pairs ps) \<le> EV_COMMAND_PAYLOAD_MAX_BYTES"
  shows "ev_command_parse_payload (Some (render_pairs ps)) =
     Some \<lparr>ps_token = last_value ps ''token'', ps_mask = last_value ps ''mask'', ps_valid = last_value ps ''valid'',
       ps_text = last_value ps ''text'', ps_arm = last_value ps ''arm'', ps_confirm = last_value ps ''confirm'',
       ps_ms = last_value ps ''ms''\<rparr>"
  using assms render_length [OF assms(2)] render_printable [OF assms(1)] parse_loop_render [OF assms(1,2), of "[]"]
  by (simp add: ev_command_parse_payload_def fold_record recorded_def)

theorem command_payload_roundtrip_witness:
  "ev_command_parse_payload (Some (render_pairs [(bytes_of ''token'', bytes_of ''secret''), (bytes_of ''mask'', bytes_of ''0f''),
      (bytes_of ''valid'', bytes_of ''03'')])) =
     Some \<lparr>ps_token = Some (bytes_of ''secret''), ps_mask = Some (bytes_of ''0f''), ps_valid = Some (bytes_of ''03''),
       ps_text = None, ps_arm = None, ps_confirm = None, ps_ms = None\<rparr>"
proof -
  let ?ps = "[(bytes_of ''token'', bytes_of ''secret''), (bytes_of ''mask'', bytes_of ''0f''), (bytes_of ''valid'', bytes_of ''03'')]"
  have ok: "list_all pair_ok ?ps" "?ps \<noteq> []" "length (render_pairs ?ps) \<le> EV_COMMAND_PAYLOAD_MAX_BYTES" by code_simp+
  have keys: "last_value ?ps ''token'' = Some (bytes_of ''secret'')" "last_value ?ps ''mask'' = Some (bytes_of ''0f'')"
    "last_value ?ps ''valid'' = Some (bytes_of ''03'')" "last_value ?ps ''text'' = None" "last_value ?ps ''arm'' = None"
    "last_value ?ps ''confirm'' = None" "last_value ?ps ''ms'' = None" by code_simp+
  show ?thesis using command_payload_roundtrip [OF ok] unfolding keys .
qed

section \<open>What a message can do\<close>

text \<open>The state after the actor published a command.\<close>

definition commanded :: "'s ev_command_actor_ctx \<Rightarrow> ev_event_id \<Rightarrow> u8 list \<Rightarrow> 's \<Rightarrow> 's" where
  "commanded ctx e payload s = snd (snd (ev_publish (Some (inline_msg e ACT_COMMAND payload)) (ca_deliver ctx) s))"

text \<open>What the publication of a command leaves alone: everything but the books and the time of the last command.\<close>

definition same_security :: "'s ev_command_actor_ctx \<Rightarrow> 's ev_command_actor_ctx \<Rightarrow> bool" where
  "same_security c c' \<longleftrightarrow> ca_deliver c' = ca_deliver c \<and> ca_token c' = ca_token c \<and> ca_token_len c' = ca_token_len c
     \<and> ca_capabilities c' = ca_capabilities c"

definition same_arming :: "'s ev_command_actor_ctx \<Rightarrow> 's ev_command_actor_ctx \<Rightarrow> bool" where
  "same_arming c c' \<longleftrightarrow> ca_tick_counter c' = ca_tick_counter c \<and> ca_sleep_duration_ms c' = ca_sleep_duration_ms c
     \<and> ca_sleep_expiry_tick c' = ca_sleep_expiry_tick c \<and> ca_sleep_nonce_len c' = ca_sleep_nonce_len c
     \<and> ca_sleep_nonce c' = ca_sleep_nonce c"

lemma command_events [simp]:
  "inline_event EV_PANEL_LED_SET_CMD" "inline_event EV_OLED_DISPLAY_TEXT_CMD" "inline_event EV_SYS_GOTO_SLEEP_CMD"
  "ev_actor_id_is_valid ACT_COMMAND"
  by code_simp+

lemma publish_inline_eq:
  assumes "inline_event e" and "0 < length payload" and "length payload \<le> 24"
    and run: "ev_command_publish_inline lc e payload ctx s = (rc, ctx', s')"
  shows "same_security ctx ctx' \<and> same_arming ctx ctx' \<and> ca_sleep_armed ctx' = ca_sleep_armed ctx
     \<and> (s' = s \<or> s' = commanded ctx e payload s)"
  using run assms(1-3)
  by (auto dest!: dispose_inline_state simp: ev_command_publish_inline_def build_inline_eq commanded_def same_security_def same_arming_def Let_def
      split: prod.splits if_splits)

text \<open>The message carries the actor's token; \<open>st\<close> is its parsed payload.\<close>

definition authentic :: "'s ev_command_actor_ctx \<Rightarrow> u8 list \<Rightarrow> ev_command_parse_state \<Rightarrow> bool" where
  "authentic ctx payload st \<longleftrightarrow> ev_command_parse_payload (Some payload) = Some st
     \<and> (\<exists>t. ca_token ctx = Some t \<and> 0 < ca_token_len ctx \<and> ps_token st = Some (take (ca_token_len ctx) t))"

text \<open>A request to arm sleep: its nonce and the duration.\<close>

definition arm_request :: "'s ev_command_actor_ctx \<Rightarrow> u8 list \<Rightarrow> u8 list \<Rightarrow> (u8 list \<times> u32) option" where
  "arm_request ctx topic payload =
     (case ev_command_parse_payload (Some payload) of
        Some st \<Rightarrow>
          (case (ps_arm st, ev_command_parse_uint32_dec (ps_ms st)) of
             (Some nonce, Some duration) \<Rightarrow>
               if authentic ctx payload st \<and> topic = bytes_of ''cmd/sleep'' \<and> ca_capabilities ctx AND EV_COMMAND_CAP_SLEEP \<noteq> 0
                  \<and> nonce \<noteq> [] \<and> length nonce < EV_COMMAND_SLEEP_NONCE_MAX_BYTES
                  \<and> 0 < duration \<and> duration \<le> EV_POWER_MAX_SLEEP_DURATION_MS
               then Some (nonce, duration) else None
           | _ \<Rightarrow> None)
      | None \<Rightarrow> None)"

definition sleep_armed_with :: "'s ev_command_actor_ctx \<Rightarrow> u8 list \<Rightarrow> u32 \<Rightarrow> bool" where
  "sleep_armed_with ctx nonce duration \<longleftrightarrow> ca_sleep_armed ctx \<and> ca_sleep_nonce_len ctx = of_nat (length nonce)
     \<and> take (length nonce) (ca_sleep_nonce ctx) = nonce \<and> length nonce < EV_COMMAND_SLEEP_NONCE_MAX_BYTES
     \<and> ca_sleep_duration_ms ctx = duration"

text \<open>What one command does: nothing to the outside, or one command that its capability allows.\<close>

definition led_command :: "'s ev_command_actor_ctx \<Rightarrow> ev_command_parse_state \<Rightarrow> u8 list \<Rightarrow> 's \<Rightarrow> 's \<Rightarrow> bool" where
  "led_command ctx st topic s s' \<longleftrightarrow> topic = bytes_of ''cmd/led'' \<and> ca_capabilities ctx AND EV_COMMAND_CAP_LED \<noteq> 0
     \<and> (\<exists>leds valid. ev_command_parse_u8_hex (ps_mask st) = Some leds \<and> ev_command_parse_u8_hex (ps_valid st) = Some valid
          \<and> s' = commanded ctx EV_PANEL_LED_SET_CMD (led_cmd_bytes (leds AND 0x0F) (valid AND 0x0F)) s)"

definition display_command :: "'s ev_command_actor_ctx \<Rightarrow> ev_command_parse_state \<Rightarrow> u8 list \<Rightarrow> 's \<Rightarrow> 's \<Rightarrow> bool" where
  "display_command ctx st topic s s' \<longleftrightarrow> topic = bytes_of ''cmd/display'' \<and> ca_capabilities ctx AND EV_COMMAND_CAP_DISPLAY \<noteq> 0
     \<and> (\<exists>line. ps_text st = Some line \<and> line \<noteq> [] \<and> length line < EV_OLED_TEXT_MAX_CHARS \<and> list_all printable_byte line
          \<and> s' = commanded ctx EV_OLED_DISPLAY_TEXT_CMD (display_cmd_bytes 0 0 line) s)"

definition sleep_command :: "'s ev_command_actor_ctx \<Rightarrow> ev_command_parse_state \<Rightarrow> u8 list \<Rightarrow> 's \<Rightarrow> 's \<Rightarrow> bool" where
  "sleep_command ctx st topic s s' \<longleftrightarrow> topic = bytes_of ''cmd/sleep'' \<and> ca_capabilities ctx AND EV_COMMAND_CAP_SLEEP \<noteq> 0
     \<and> ca_sleep_armed ctx \<and> \<not> sleep_arm_expired ctx
     \<and> (\<exists>nonce. ps_confirm st = Some nonce \<and> length nonce = unat (ca_sleep_nonce_len ctx)
          \<and> nonce = take (length nonce) (ca_sleep_nonce ctx)
          \<and> s' = commanded ctx EV_SYS_GOTO_SLEEP_CMD (le32_bytes (ca_sleep_duration_ms ctx)) s)"

lemma handle_led_effect:
  assumes "ev_command_handle_led lc st ctx s = (rc, ctx', s')"
  shows "same_security ctx ctx' \<and> same_arming ctx ctx' \<and> ca_sleep_armed ctx' = ca_sleep_armed ctx
     \<and> (s' = s \<or> led_command ctx st (bytes_of ''cmd/led'') s s')"
proof (cases "ca_capabilities ctx AND EV_COMMAND_CAP_LED = 0 \<or> ev_command_rate_limited ctx (ca_last_led_tick ctx)
    \<or> ev_command_parse_u8_hex (ps_mask st) = None \<or> ev_command_parse_u8_hex (ps_valid st) = None")
  case True
  then show ?thesis
    using assms by (auto simp: ev_command_handle_led_def same_security_def same_arming_def split: option.splits if_splits)
next
  case False
  then obtain leds valid where h: "ev_command_parse_u8_hex (ps_mask st) = Some leds"
    "ev_command_parse_u8_hex (ps_valid st) = Some valid" by auto
  obtain rc1 ctx1 s1 where p: "ev_command_publish_inline lc EV_PANEL_LED_SET_CMD
      (led_cmd_bytes (leds AND 0x0F) (valid AND 0x0F)) ctx s = (rc1, ctx1, s1)" by (rule prod_cases3)
  have "same_security ctx ctx1 \<and> same_arming ctx ctx1 \<and> ca_sleep_armed ctx1 = ca_sleep_armed ctx
     \<and> (s1 = s \<or> s1 = commanded ctx EV_PANEL_LED_SET_CMD (led_cmd_bytes (leds AND 0x0F) (valid AND 0x0F)) s)"
    by (rule publish_inline_eq [OF _ _ _ p]) (simp_all add: led_cmd_bytes_def)
  then show ?thesis
    using assms False h p
    by (auto simp: ev_command_handle_led_def same_security_def same_arming_def executed_def led_command_def Let_def split: if_splits)
qed

lemma handle_display_effect:
  assumes "ev_command_handle_display lc st ctx s = (rc, ctx', s')"
  shows "same_security ctx ctx' \<and> same_arming ctx ctx' \<and> ca_sleep_armed ctx' = ca_sleep_armed ctx
     \<and> (s' = s \<or> display_command ctx st (bytes_of ''cmd/display'') s s')"
proof (cases "ca_capabilities ctx AND EV_COMMAND_CAP_DISPLAY \<noteq> 0 \<and> \<not> ev_command_rate_limited ctx (ca_last_display_tick ctx)
    \<and> (\<exists>line. ps_text st = Some line \<and> line \<noteq> [] \<and> length line < EV_OLED_TEXT_MAX_CHARS \<and> list_all printable_byte line)")
  case False
  then show ?thesis
    using assms by (auto simp: ev_command_handle_display_def same_security_def same_arming_def split: option.splits if_splits)
next
  case True
  then obtain line where t: "ps_text st = Some line" "line \<noteq> []" "length line < EV_OLED_TEXT_MAX_CHARS" "list_all printable_byte line"
    by blast
  obtain rc1 ctx1 s1 where p: "ev_command_publish_inline lc EV_OLED_DISPLAY_TEXT_CMD (display_cmd_bytes 0 0 line) ctx s = (rc1, ctx1, s1)"
    by (rule prod_cases3)
  have "same_security ctx ctx1 \<and> same_arming ctx ctx1 \<and> ca_sleep_armed ctx1 = ca_sleep_armed ctx
     \<and> (s1 = s \<or> s1 = commanded ctx EV_OLED_DISPLAY_TEXT_CMD (display_cmd_bytes 0 0 line) s)"
    by (rule publish_inline_eq [OF _ _ _ p]) (use t in \<open>simp_all add: display_cmd_bytes_def\<close>)
  then show ?thesis
    using assms True t p
    by (auto simp: ev_command_handle_display_def same_security_def same_arming_def executed_def display_command_def Let_def split: if_splits)
qed

lemma handle_confirm_effect:
  assumes "ev_command_handle_sleep_confirm lc st ctx s = (rc, ctx', s')"
  shows "same_security ctx ctx' \<and> same_arming ctx ctx' \<and> (ca_sleep_armed ctx' \<longrightarrow> ca_sleep_armed ctx)
     \<and> (s' = s \<or> sleep_command ctx st (bytes_of ''cmd/sleep'') s s')"
proof (cases "ca_capabilities ctx AND EV_COMMAND_CAP_SLEEP \<noteq> 0 \<and> ca_sleep_armed ctx \<and> \<not> sleep_arm_expired ctx
    \<and> (\<exists>nonce. ps_confirm st = Some nonce \<and> length nonce = unat (ca_sleep_nonce_len ctx)
          \<and> nonce = take (length nonce) (ca_sleep_nonce ctx))")
  case False
  then show ?thesis
    using assms
    by (auto simp: ev_command_handle_sleep_confirm_def same_security_def same_arming_def sleep_arm_expired_def Let_def
        split: if_splits)
next
  case True
  then obtain nonce where t: "ps_confirm st = Some nonce" "length nonce = unat (ca_sleep_nonce_len ctx)"
    "nonce = take (length nonce) (ca_sleep_nonce ctx)" by blast
  let ?c = "tally (\<lambda>c. c\<lparr>cs_sleep_confirm_requests := cs_sleep_confirm_requests c + 1\<rparr>) ctx\<lparr>ca_sleep_armed := False\<rparr>"
  obtain rc1 ctx1 s1 where p: "ev_command_publish_inline lc EV_SYS_GOTO_SLEEP_CMD (le32_bytes (ca_sleep_duration_ms ctx)) ?c s
      = (rc1, ctx1, s1)" by (rule prod_cases3)
  have P: "same_security ?c ctx1 \<and> same_arming ?c ctx1 \<and> ca_sleep_armed ctx1 = ca_sleep_armed ?c
     \<and> (s1 = s \<or> s1 = commanded ?c EV_SYS_GOTO_SLEEP_CMD (le32_bytes (ca_sleep_duration_ms ctx)) s)"
    by (rule publish_inline_eq [OF _ _ _ p]) simp_all
  have run: "ev_command_handle_sleep_confirm lc st ctx s = (EV_OK,
      if rc1 = EV_OK
      then (executed (\<lambda>c. c\<lparr>cs_sleep_commands := cs_sleep_commands c + 1\<rparr>) ctx1)\<lparr>ca_last_sleep_tick := ca_tick_counter ctx1\<rparr>
      else ctx1, s1)"
    using True t p by (simp add: ev_command_handle_sleep_confirm_def sleep_arm_expired_def Let_def)
  show ?thesis
    using assms P True t unfolding run
    by (auto simp: same_security_def same_arming_def executed_def sleep_command_def commanded_def split: if_splits)
qed

lemma bytes_equal_some [simp]: "ev_command_bytes_equal (Some a) (Some b) \<longleftrightarrow> a = b"
  by (auto simp: ev_command_bytes_equal_def)

lemma topic_is_some [simp]: "ev_command_topic_is (Some a) lit \<longleftrightarrow> a = bytes_of lit"
  by (simp add: ev_command_topic_is_def)

lemma authorized_authentic:
  "ev_command_parse_payload (Some payload) = Some st \<Longrightarrow> ev_command_authorized ctx st \<longleftrightarrow> authentic ctx payload st"
  by (auto simp: ev_command_authorized_def authentic_def)

lemma same_security_count [simp]:
  "same_security (tally f c) c' = same_security c c'" "same_arming (tally f c) c' = same_arming c c'"
  "authentic (tally f c) payload st = authentic c payload st"
  "arm_request (tally f c) topic payload = arm_request c topic payload"
  "led_command (tally f c) st topic s s' = led_command c st topic s s'"
  "display_command (tally f c) st topic s s' = display_command c st topic s s'"
  "sleep_command (tally f c) st topic s s' = sleep_command c st topic s s'"
  by (simp_all add: same_security_def same_arming_def authentic_def arm_request_def led_command_def display_command_def
      sleep_command_def commanded_def sleep_arm_expired_def cong: option.case_cong)

lemma same_refl [simp]: "same_security c c" "same_arming c c"
  by (simp_all add: same_security_def same_arming_def)

text \<open>What arming does.\<close>

lemma handle_arm_effect:
  assumes run: "ev_command_handle_sleep_arm st ctx = (rc, ctx')" and auth: "authentic ctx payload st"
    and arm: "ps_arm st \<noteq> None"
  shows "same_security ctx ctx' \<and> ca_tick_counter ctx' = ca_tick_counter ctx \<and>
     (ca_sleep_armed ctx' \<longrightarrow> ca_sleep_armed ctx \<and> same_arming ctx ctx' \<or>
        (\<exists>nonce d. arm_request ctx (bytes_of ''cmd/sleep'') payload = Some (nonce, d) \<and> sleep_armed_with ctx' nonce d
           \<and> ca_sleep_expiry_tick ctx' = ca_tick_counter ctx' + 30))"
proof (cases "\<exists>nonce d. arm_request ctx (bytes_of ''cmd/sleep'') payload = Some (nonce, d)
    \<and> \<not> ev_command_rate_limited ctx (ca_last_sleep_tick ctx) \<and> list_all printable_byte nonce")
  case True
  then obtain nonce d where r: "arm_request ctx (bytes_of ''cmd/sleep'') payload = Some (nonce, d)"
    "\<not> ev_command_rate_limited ctx (ca_last_sleep_tick ctx)" "list_all printable_byte nonce" by blast
  have st: "ev_command_parse_payload (Some payload) = Some st" using auth by (simp add: authentic_def)
  obtain ms where f: "ps_arm st = Some nonce" "ps_ms st = Some ms" "ev_command_parse_uint32_dec (Some ms) = Some d"
    "ca_capabilities ctx AND EV_COMMAND_CAP_SLEEP \<noteq> 0" "nonce \<noteq> []" "length nonce < 16" "0 < d" "d \<le> EV_POWER_MAX_SLEEP_DURATION_MS"
    using r(1) by (cases "ps_ms st") (auto simp: arm_request_def st ev_command_parse_uint32_dec_def split: option.splits if_splits)
  have nd: "\<not> (d = 0 \<or> EV_POWER_MAX_SLEEP_DURATION_MS < d)" using f(7,8) by (auto simp: not_less)
  show ?thesis
    using run f(1-6) r by (auto simp: ev_command_handle_sleep_arm_def same_security_def sleep_armed_with_def if_not_P [OF nd])
next
  case False
  have st: "ev_command_parse_payload (Some payload) = Some st" using auth by (simp add: authentic_def)
  obtain nonce where n: "ps_arm st = Some nonce" using arm by auto
  let ?cap = "tally (\<lambda>c. c\<lparr>cs_capability_rejects := cs_capability_rejects c + 1\<rparr>) ctx"
  let ?rate = "tally (\<lambda>c. c\<lparr>cs_rate_limited := cs_rate_limited c + 1\<rparr>) ctx"
  let ?bad = "tally (\<lambda>c. c\<lparr>cs_parse_errors := cs_parse_errors c + 1\<rparr>) ctx"
  have "ctx' \<in> {?cap, ?rate, ?bad}"
  proof (cases "ca_capabilities ctx AND EV_COMMAND_CAP_SLEEP = 0 \<or> ev_command_rate_limited ctx (ca_last_sleep_tick ctx)
      \<or> ev_command_parse_uint32_dec (ps_ms st) = None \<or> \<not> list_all printable_byte nonce")
    case True
    then show ?thesis
      using run by (auto simp: ev_command_handle_sleep_arm_def n ev_command_parse_uint32_dec_def split: option.splits if_splits)
  next
    case go: False
    then obtain ms d where d: "ps_ms st = Some ms" "ev_command_parse_uint32_dec (Some ms) = Some d"
      by (cases "ps_ms st") (auto simp: ev_command_parse_uint32_dec_def)
    have bad: "\<not> (nonce \<noteq> [] \<and> length nonce < 16 \<and> 0 < d \<and> d \<le> EV_POWER_MAX_SLEEP_DURATION_MS)"
      using False go auth by (auto simp: arm_request_def st n d)
    have "ev_command_handle_sleep_arm st ctx = (EV_OK, ?bad)"
    proof (cases "nonce = [] \<or> 16 \<le> length nonce")
      case True
      then show ?thesis using go n d(1) by (auto simp: ev_command_handle_sleep_arm_def)
    next
      case False
      then have "d = 0 \<or> EV_POWER_MAX_SLEEP_DURATION_MS < d" using bad by (cases "d = 0") (auto simp: word_greater_zero_iff)
      then show ?thesis using go n d False by (auto simp: ev_command_handle_sleep_arm_def)
    qed
    then show ?thesis using run by simp
  qed
  then show ?thesis by (auto simp: same_security_def same_arming_def)
qed

text \<open>The command an incoming message carries: its topic and its payload.\<close>

definition rx_command :: "payload_memory \<Rightarrow> ev_msg \<Rightarrow> (u8 list \<times> u8 list) option" where
  "rx_command mem m =
     (case ev_msg_payload_data (Some m) of
        None \<Rightarrow> None
      | Some r \<Rightarrow>
          if msg_event_id m = EV_NET_MQTT_MSG_RX \<and> msg_payload_size m = EV_NET_INLINE_PAYLOAD_SIZE
          then Some (rx_topic (mem r), rx_payload 8 (mem r))
          else if msg_event_id m = EV_NET_MQTT_MSG_RX_LEASE \<and> msg_payload_size m = EV_NET_RX_PAYLOAD_SIZE
          then Some (rx_topic (mem r), rx_payload 64 (mem r)) else None)"

definition command_effect ::
    "'s ev_command_actor_ctx \<Rightarrow> u8 list \<Rightarrow> u8 list \<Rightarrow> 's \<Rightarrow> 's ev_command_actor_ctx \<Rightarrow> 's \<Rightarrow> bool" where
  "command_effect ctx topic payload s ctx' s' \<longleftrightarrow> same_security ctx ctx' \<and> ca_tick_counter ctx' = ca_tick_counter ctx
     \<and> (s' = s \<or> (\<exists>st. authentic ctx payload st \<and>
          (led_command ctx st topic s s' \<or> display_command ctx st topic s s' \<or> sleep_command ctx st topic s s')))
     \<and> (ca_sleep_armed ctx' \<longrightarrow> ca_sleep_armed ctx \<and> same_arming ctx ctx' \<or>
          (\<exists>nonce d. arm_request ctx topic payload = Some (nonce, d) \<and> sleep_armed_with ctx' nonce d
             \<and> ca_sleep_expiry_tick ctx' = ca_tick_counter ctx + 30))"

lemma effect_none [intro]:
  "same_security ctx ctx' \<Longrightarrow> same_arming ctx ctx' \<Longrightarrow> ca_sleep_armed ctx' = ca_sleep_armed ctx
     \<Longrightarrow> command_effect ctx topic payload s ctx' s"
  by (simp add: command_effect_def same_arming_def)

lemma command_effect_count [simp]:
  "command_effect (tally f ctx) topic payload s ctx' s' = command_effect ctx topic payload s ctx' s'"
  by (simp add: command_effect_def)

lemma dispatch_effect:
  assumes run: "ev_command_dispatch lc (Some topic) (Some payload) ctx s = (rc, ctx', s')"
  shows "command_effect ctx topic payload s ctx' s'"
proof -
  let ?c = "tally (\<lambda>c. c\<lparr>cs_rx_seen := cs_rx_seen c + 1\<rparr>) ctx"
  have books: "command_effect ctx topic payload s (tally f ?c) s" for f
    by (rule effect_none) (simp_all add: same_security_def same_arming_def)
  show ?thesis
  proof (cases "length topic = 0 \<or> EV_COMMAND_TOPIC_MAX_BYTES < length topic \<or> length payload = 0
      \<or> EV_COMMAND_PAYLOAD_MAX_BYTES < length payload \<or> ev_command_parse_payload (Some payload) = None")
    case True
    then have "ctx' = tally (\<lambda>c. c\<lparr>cs_parse_errors := cs_parse_errors c + 1\<rparr>) ?c" "s' = s"
      using run by (auto simp: ev_command_dispatch_def Let_def split: if_splits option.splits)
    then show ?thesis using books by simp
  next
    case False
    then obtain st where st: "ev_command_parse_payload (Some payload) = Some st" by auto
    have len: "\<not> (Some topic = None \<or> Some payload = None \<or> length (the (Some topic)) = 0
        \<or> EV_COMMAND_TOPIC_MAX_BYTES < length (the (Some topic))
        \<or> length (the (Some payload)) = 0 \<or> EV_COMMAND_PAYLOAD_MAX_BYTES < length (the (Some payload)))"
      using False by simp
    note run1 = run [unfolded ev_command_dispatch_def Let_def if_not_P [OF len] st option.case topic_is_some]
    show ?thesis
    proof (cases "ev_command_authorized ?c st")
      case False
      then show ?thesis using run1 books by (auto split: if_splits)
    next
      case True
      then have auth: "authentic ctx payload st" using authorized_authentic [OF st, of ?c] by simp
      have run2: "(if topic = bytes_of ''cmd/led'' then ev_command_handle_led lc st ?c s
          else if topic = bytes_of ''cmd/display'' then ev_command_handle_display lc st ?c s
          else if topic = bytes_of ''cmd/sleep''
          then if ps_arm st \<noteq> None then (let (rc, ctx) = ev_command_handle_sleep_arm st ?c in (rc, ctx, s))
               else if ps_confirm st \<noteq> None then ev_command_handle_sleep_confirm lc st ?c s
               else (EV_OK, tally (\<lambda>c. c\<lparr>cs_parse_errors := cs_parse_errors c + 1\<rparr>) ?c, s)
          else (EV_OK, tally (\<lambda>c. c\<lparr>cs_unknown_topic := cs_unknown_topic c + 1\<rparr>) ?c, s)) = (rc, ctx', s')"
        using run1 by (simp only: True simp_thms if_False Let_def)
      consider (led) "topic = bytes_of ''cmd/led''" | (display) "topic \<noteq> bytes_of ''cmd/led''" "topic = bytes_of ''cmd/display''"
        | (arm) "topic \<noteq> bytes_of ''cmd/led''" "topic \<noteq> bytes_of ''cmd/display''" "topic = bytes_of ''cmd/sleep''" "ps_arm st \<noteq> None"
        | (confirm) "topic \<noteq> bytes_of ''cmd/led''" "topic \<noteq> bytes_of ''cmd/display''" "topic = bytes_of ''cmd/sleep''"
            "ps_arm st = None" "ps_confirm st \<noteq> None"
        | (other) "ctx' = tally (\<lambda>c. c\<lparr>cs_parse_errors := cs_parse_errors c + 1\<rparr>) ?c \<or> ctx' = tally (\<lambda>c. c\<lparr>cs_unknown_topic := cs_unknown_topic c + 1\<rparr>) ?c" "s' = s"
        using run2 by (auto split: if_splits)
      then show ?thesis
      proof cases
        case led
        then have "ev_command_handle_led lc st ?c s = (rc, ctx', s')" using run2 by simp
        from handle_led_effect [OF this] show ?thesis
          using auth led(1) unfolding command_effect_def by (auto simp: same_arming_def)
      next
        case display
        then have "ev_command_handle_display lc st ?c s = (rc, ctx', s')" using run2 by (simp only: if_False if_True simp_thms)
        from handle_display_effect [OF this] show ?thesis
          using auth display(2) unfolding command_effect_def by (auto simp: same_arming_def)
      next
        case arm
        obtain rc1 ctx1 where a: "ev_command_handle_sleep_arm st ?c = (rc1, ctx1)" by (rule prod.exhaust)
        then have "ctx' = ctx1" "s' = s" using run2 arm by (simp_all only: if_False if_True Let_def prod.case prod.inject simp_thms)
        then show ?thesis
          using handle_arm_effect [OF a _ arm(4), of payload] auth arm(3) unfolding command_effect_def by auto
      next
        case confirm
        then have "ev_command_handle_sleep_confirm lc st ?c s = (rc, ctx', s')" using run2 by (simp only: if_False if_True simp_thms)
        from handle_confirm_effect [OF this] show ?thesis
          using auth confirm(3) unfolding command_effect_def by (auto simp: same_arming_def)
      next
        case other
        then show ?thesis using books by blast
      qed
    qed
  qed
qed

lemma handle_effect:
  assumes run: "ev_command_actor_handle lc mem (Some ctx) (Some m) s = (rc, Some ctx', s')" and ev: "msg_event_id m \<noteq> EV_TICK_1S"
  shows "command_effect ctx topic payload s ctx' s \<and> s' = s \<or>
     (\<exists>topic payload. rx_command mem m = Some (topic, payload) \<and> command_effect ctx topic payload s ctx' s')"
proof -
  have none: "command_effect ctx topic payload s (tally f ctx) s" for f topic payload
    by (rule effect_none) (simp_all add: same_security_def same_arming_def)
  consider (inline) "msg_event_id m = EV_NET_MQTT_MSG_RX" "msg_payload_size m = 20" "ev_msg_payload_data (Some m) \<noteq> None"
    | (lease) "msg_event_id m = EV_NET_MQTT_MSG_RX_LEASE" "msg_payload_size m = 196" "ev_msg_payload_data (Some m) \<noteq> None"
    | (other) "ctx' = tally (\<lambda>c. c\<lparr>cs_parse_errors := cs_parse_errors c + 1\<rparr>) ctx \<or> ctx' = tally (\<lambda>c. c\<lparr>cs_unknown_topic := cs_unknown_topic c + 1\<rparr>) ctx" "s' = s"
    using run ev
    by (auto simp: ev_command_actor_handle_def ev_command_handle_inline_def ev_command_handle_lease_def ev_msg_payload_size_def
        Let_def split: if_splits prod.splits)
  then show ?thesis
  proof cases
    case inline
    then obtain r where r: "ev_msg_payload_data (Some m) = Some r" by auto
    have "ev_command_dispatch lc (Some (rx_topic (mem r))) (Some (rx_payload 8 (mem r)))
        (tally (\<lambda>c. c\<lparr>cs_rx_inline_seen := cs_rx_inline_seen c + 1\<rparr>) ctx) s = (rc, ctx', s')"
      using run inline r by (auto simp: ev_command_actor_handle_def ev_command_handle_inline_def ev_msg_payload_size_def
          Let_def split: prod.splits)
    from dispatch_effect [OF this] show ?thesis using inline r by (simp add: rx_command_def)
  next
    case lease
    then obtain r where r: "ev_msg_payload_data (Some m) = Some r" by auto
    have "ev_command_dispatch lc (Some (rx_topic (mem r))) (Some (rx_payload 64 (mem r)))
        (tally (\<lambda>c. c\<lparr>cs_rx_lease_seen := cs_rx_lease_seen c + 1\<rparr>) ctx) s = (rc, ctx', s')"
      using run lease r by (auto simp: ev_command_actor_handle_def ev_command_handle_lease_def ev_msg_payload_size_def
          Let_def split: prod.splits)
    from dispatch_effect [OF this] show ?thesis using lease r by (simp add: rx_command_def)
  next
    case other
    then show ?thesis using none by blast
  qed
qed

lemma handle_tick:
  assumes "ev_command_actor_handle lc mem (Some ctx) (Some m) s = (rc, Some ctx', s')" and "msg_event_id m = EV_TICK_1S"
  shows "s' = s \<and> same_security ctx ctx' \<and> ca_tick_counter ctx' = ca_tick_counter ctx + 1
     \<and> (ca_sleep_armed ctx' \<longrightarrow> ca_sleep_armed ctx \<and> ca_sleep_duration_ms ctx' = ca_sleep_duration_ms ctx
           \<and> ca_sleep_expiry_tick ctx' = ca_sleep_expiry_tick ctx \<and> ca_sleep_nonce_len ctx' = ca_sleep_nonce_len ctx
           \<and> ca_sleep_nonce ctx' = ca_sleep_nonce ctx \<and> \<not> sleep_arm_expired ctx')"
  using assms
  by (auto simp: ev_command_actor_handle_def ev_command_expire_sleep_arm_def same_security_def sleep_arm_expired_def Let_def
      split: if_splits)

text \<open>
  C18: a message makes the command actor act on the rest of the system only if it is an MQTT message whose
  payload carries the actor's own non-empty token, and then it is one of the three commands: on its topic, with
  the capability for it, with arguments that parse, and for sleep with a confirmation of the nonce that was
  armed and has not expired. The command published is the one the arguments say.
\<close>

theorem commands_need_authority:
  assumes "ev_command_actor_handle lc mem (Some ctx) (Some m) s = (rc, Some ctx', s')" and "s' \<noteq> s"
  shows "\<exists>topic payload st. rx_command mem m = Some (topic, payload) \<and> authentic ctx payload st
     \<and> (led_command ctx st topic s s' \<or> display_command ctx st topic s s' \<or> sleep_command ctx st topic s s')"
proof -
  have "msg_event_id m \<noteq> EV_TICK_1S" using handle_tick [OF assms(1)] assms(2) by blast
  from handle_effect [OF assms(1) this] assms(2) show ?thesis unfolding command_effect_def by blast
qed

section \<open>Sleep takes two messages\<close>

text \<open>The actor over a sequence of messages.\<close>

fun command_step ::
    "'s ev_lifecycle \<Rightarrow> payload_memory \<Rightarrow> 's ev_command_actor_ctx \<times> 's \<Rightarrow> ev_msg \<Rightarrow> 's ev_command_actor_ctx \<times> 's" where
  "command_step lc mem (ctx, s) m = (let (rc, c, s) = ev_command_actor_handle lc mem (Some ctx) (Some m) s in (the c, s))"

definition command_run ::
    "'s ev_lifecycle \<Rightarrow> payload_memory \<Rightarrow> 's ev_command_actor_ctx \<Rightarrow> 's \<Rightarrow> ev_msg list \<Rightarrow> 's ev_command_actor_ctx \<times> 's" where
  "command_run lc mem ctx s ms = foldl (command_step lc mem) (ctx, s) ms"

lemma handle_keeps_context: "\<exists>rc ctx' s'. ev_command_actor_handle lc mem (Some ctx) (Some m) s = (rc, Some ctx', s')"
  by (auto simp: ev_command_actor_handle_def split: prod.splits)

definition tick_count :: "ev_msg list \<Rightarrow> nat" where
  "tick_count ms = length (filter (\<lambda>m. msg_event_id m = EV_TICK_1S) ms)"

lemma tick_count_simps [simp]:
  "tick_count [] = 0" "tick_count (ms @ ns) = tick_count ms + tick_count ns"
  "tick_count [m] = (if msg_event_id m = EV_TICK_1S then 1 else 0)"
  by (simp_all add: tick_count_def)

text \<open>The messages hold an authorised request to arm sleep with this nonce and duration, fewer than 30 ticks ago.\<close>

definition armed_by :: "'s ev_command_actor_ctx \<Rightarrow> payload_memory \<Rightarrow> ev_msg list \<Rightarrow> u8 list \<Rightarrow> u32 \<Rightarrow> nat \<Rightarrow> bool" where
  "armed_by ctx0 mem ms nonce d k \<longleftrightarrow> (\<exists>before a after payload. ms = before @ a # after
     \<and> rx_command mem a = Some (bytes_of ''cmd/sleep'', payload)
     \<and> arm_request ctx0 (bytes_of ''cmd/sleep'') payload = Some (nonce, d) \<and> tick_count after = k)"

lemma armed_by_snoc: "armed_by c mem ms nonce d k \<Longrightarrow> armed_by c mem (ms @ [m]) nonce d (k + tick_count [m])"
proof -
  assume "armed_by c mem ms nonce d k"
  then obtain b a af payload where "ms = b @ a # af" "rx_command mem a = Some (bytes_of ''cmd/sleep'', payload)"
    "arm_request c (bytes_of ''cmd/sleep'') payload = Some (nonce, d)" "tick_count af = k"
    unfolding armed_by_def by blast
  then show ?thesis unfolding armed_by_def
    by (intro exI [of _ b] exI [of _ a] exI [of _ "af @ [m]"] exI [of _ payload]) simp
qed

definition arming_explained :: "'s ev_command_actor_ctx \<Rightarrow> payload_memory \<Rightarrow> ev_msg list \<Rightarrow> 's ev_command_actor_ctx \<Rightarrow> bool" where
  "arming_explained ctx0 mem ms ctx \<longleftrightarrow> same_security ctx0 ctx \<and> (ca_sleep_armed ctx \<longrightarrow>
     (\<exists>nonce d k. armed_by ctx0 mem ms nonce d k \<and> k < 30 \<and> sleep_armed_with ctx nonce d
        \<and> ca_tick_counter ctx + 30 = ca_sleep_expiry_tick ctx + of_nat k))"

lemma arm_request_topic: "arm_request c topic payload = Some x \<Longrightarrow> topic = bytes_of ''cmd/sleep''"
  by (auto simp: arm_request_def split: option.splits if_splits)

lemma same_security_arm: "same_security c c' \<Longrightarrow> arm_request c' topic payload = arm_request c topic payload"
  by (simp add: arm_request_def authentic_def same_security_def cong: option.case_cong)

lemma same_arming_with: "same_arming c c' \<Longrightarrow> ca_sleep_armed c' \<Longrightarrow> sleep_armed_with c nonce d \<Longrightarrow> sleep_armed_with c' nonce d"
  by (simp add: same_arming_def sleep_armed_with_def)

lemma explained_step:
  assumes ex: "arming_explained ctx0 mem ms ctx" and run: "ev_command_actor_handle lc mem (Some ctx) (Some m) s = (rc, Some ctx', s')"
  shows "arming_explained ctx0 mem (ms @ [m]) ctx'"
proof (cases "msg_event_id m = EV_TICK_1S")
  case True
  note T = handle_tick [OF run True]
  have "same_security ctx0 ctx'" using ex T by (simp add: arming_explained_def same_security_def)
  moreover have "\<exists>nonce d k. armed_by ctx0 mem (ms @ [m]) nonce d k \<and> k < 30 \<and> sleep_armed_with ctx' nonce d
      \<and> ca_tick_counter ctx' + 30 = ca_sleep_expiry_tick ctx' + of_nat k" if armed: "ca_sleep_armed ctx'"
  proof -
    have A: "ca_sleep_armed ctx" "ca_sleep_expiry_tick ctx' = ca_sleep_expiry_tick ctx" "\<not> sleep_arm_expired ctx'"
      using T armed by blast+
    obtain nonce d k where K: "armed_by ctx0 mem ms nonce d k" "k < 30" "sleep_armed_with ctx nonce d"
      "ca_tick_counter ctx + 30 = ca_sleep_expiry_tick ctx + of_nat k"
      using ex A(1) unfolding arming_explained_def by blast
    have eq: "ca_tick_counter ctx' + 30 = ca_sleep_expiry_tick ctx' + of_nat (k + 1)"
      using K(4) T A(2) by (simp add: algebra_simps)
    have "k + 1 \<noteq> 30"
    proof
      assume "k + 1 = 30"
      then have "ca_tick_counter ctx' - ca_sleep_expiry_tick ctx' = 0" using eq by simp
      then show False using A(3) by (simp add: sleep_arm_expired_def)
    qed
    moreover have "armed_by ctx0 mem (ms @ [m]) nonce d (k + 1)" using armed_by_snoc [OF K(1), of m] True by simp
    moreover have "sleep_armed_with ctx' nonce d" using K(3) T armed by (simp add: sleep_armed_with_def)
    ultimately show ?thesis using eq K(2) by (intro exI [of _ nonce] exI [of _ d] exI [of _ "k + 1"]) simp
  qed
  ultimately show ?thesis by (simp add: arming_explained_def)
next
  case False
  obtain topic payload where E: "command_effect ctx topic payload s ctx' s'"
    and rx: "topic = [] \<or> rx_command mem m = Some (topic, payload)"
    using handle_effect [OF run False, of "[]" "[]"] by metis
  have sec: "same_security ctx0 ctx" and sec': "same_security ctx0 ctx'"
    using ex E by (simp_all add: arming_explained_def command_effect_def same_security_def)
  have "\<exists>nonce d k. armed_by ctx0 mem (ms @ [m]) nonce d k \<and> k < 30 \<and> sleep_armed_with ctx' nonce d
      \<and> ca_tick_counter ctx' + 30 = ca_sleep_expiry_tick ctx' + of_nat k" if armed: "ca_sleep_armed ctx'"
  proof -
    consider (kept) "ca_sleep_armed ctx" "same_arming ctx ctx'"
      | (new) nonce d where "arm_request ctx topic payload = Some (nonce, d)" "sleep_armed_with ctx' nonce d"
          "ca_sleep_expiry_tick ctx' = ca_tick_counter ctx + 30" "ca_tick_counter ctx' = ca_tick_counter ctx"
      using E armed unfolding command_effect_def by blast
    then show ?thesis
    proof cases
      case kept
      obtain nonce d k where K: "armed_by ctx0 mem ms nonce d k" "k < 30" "sleep_armed_with ctx nonce d"
        "ca_tick_counter ctx + 30 = ca_sleep_expiry_tick ctx + of_nat k"
        using ex kept(1) unfolding arming_explained_def by blast
      have "armed_by ctx0 mem (ms @ [m]) nonce d k" using armed_by_snoc [OF K(1), of m] False by simp
      then show ?thesis using K same_arming_with [OF kept(2) armed K(3)] kept(2) unfolding same_arming_def by metis
    next
      case new
      have t: "topic = bytes_of ''cmd/sleep''" by (rule arm_request_topic [OF new(1)])
      then have "rx_command mem m = Some (bytes_of ''cmd/sleep'', payload)" using rx by (auto simp: bytes_of_def)
      then have "armed_by ctx0 mem (ms @ [m]) nonce d 0"
        using new(1) t same_security_arm [OF sec] unfolding armed_by_def
        by (intro exI [of _ ms] exI [of _ m] exI [of _ "[]"] exI [of _ payload]) simp
      then show ?thesis using new by (intro exI [of _ nonce] exI [of _ d] exI [of _ 0]) simp
    qed
  qed
  then show ?thesis using sec' by (simp add: arming_explained_def)
qed

lemma explained_run:
  assumes init: "ev_command_actor_init (Some c) deliver token caps = (EV_OK, Some ctx0)"
    and run: "command_run lc mem ctx0 s0 ms = (ctx, s)"
  shows "arming_explained ctx0 mem ms ctx"
  using run
proof (induction ms arbitrary: ctx s rule: rev_induct)
  case Nil
  then show ?case using init by (auto simp: command_run_def arming_explained_def ev_command_actor_init_def Let_def)
next
  case (snoc m ms)
  obtain c1 s1 where r: "command_run lc mem ctx0 s0 ms = (c1, s1)" by (rule prod.exhaust)
  obtain rc c2 s2 where h: "ev_command_actor_handle lc mem (Some c1) (Some m) s1 = (rc, Some c2, s2)"
    using handle_keeps_context [of lc mem c1 m s1] by blast
  have "ctx = c2" using snoc.prems r h by (simp add: command_run_def)
  then show ?case using explained_step [OF snoc.IH [OF r] h] by simp
qed

text \<open>
  C14: sleep takes two authorised messages. Whatever messages the actor has handled since it was initialised, a
  message on the sleep topic makes it act on the rest of the system only if an earlier message, fewer than 30
  ticks ago, was an authorised request that armed sleep; the message confirms that request's nonce, and what is
  published is the sleep command with the duration of that request.
\<close>

theorem sleep_needs_arm_and_confirm:
  assumes init: "ev_command_actor_init (Some c) deliver token caps = (EV_OK, Some ctx0)"
    and run: "command_run lc mem ctx0 s0 ms = (ctx, s)"
    and step: "ev_command_actor_handle lc mem (Some ctx) (Some m) s = (rc, Some ctx', s')" and act: "s' \<noteq> s"
    and topic: "rx_command mem m = Some (bytes_of ''cmd/sleep'', payload)"
  shows "\<exists>nonce d k st. armed_by ctx0 mem ms nonce d k \<and> k < 30 \<and> authentic ctx0 payload st
     \<and> ps_confirm st = Some nonce \<and> s' = commanded ctx EV_SYS_GOTO_SLEEP_CMD (le32_bytes d) s"
proof -
  have X: "arming_explained ctx0 mem ms ctx" by (rule explained_run [OF init run])
  have ne: "bytes_of ''cmd/sleep'' \<noteq> bytes_of ''cmd/led''" "bytes_of ''cmd/sleep'' \<noteq> bytes_of ''cmd/display''" by code_simp+
  have "msg_event_id m \<noteq> EV_TICK_1S" using handle_tick [OF step] act by blast
  from handle_effect [OF step this] act topic obtain st where st: "authentic ctx payload st"
    "sleep_command ctx st (bytes_of ''cmd/sleep'') s s'"
    using ne unfolding command_effect_def led_command_def display_command_def by auto
  obtain nonce where n: "ps_confirm st = Some nonce" "length nonce = unat (ca_sleep_nonce_len ctx)"
    "nonce = take (length nonce) (ca_sleep_nonce ctx)" "ca_sleep_armed ctx"
    "s' = commanded ctx EV_SYS_GOTO_SLEEP_CMD (le32_bytes (ca_sleep_duration_ms ctx)) s"
    using st(2) unfolding sleep_command_def by blast
  obtain nonce' d k where K: "armed_by ctx0 mem ms nonce' d k" "k < 30" "sleep_armed_with ctx nonce' d"
    using X n(4) unfolding arming_explained_def by blast
  have len: "unat (of_nat (length nonce') :: u8) = length nonce'"
    using K(3) by (simp add: sleep_armed_with_def unat_of_nat)
  have "nonce' = nonce" using K(3) n(2,3) len unfolding sleep_armed_with_def by metis
  moreover have "authentic ctx0 payload st"
    using st(1) X by (auto simp: authentic_def arming_explained_def same_security_def)
  moreover have "ca_sleep_duration_ms ctx = d" using K(3) by (simp add: sleep_armed_with_def)
  ultimately show ?thesis using K n by blast
qed

section \<open>A sleep, armed and confirmed\<close>

definition demo_rx_bytes :: "string \<Rightarrow> string \<Rightarrow> u8 list" where
  "demo_rx_bytes topic payload = [of_nat (length topic), of_nat (length payload), 0, 0] @ bytes_of topic @
     replicate (64 - length topic) 0 @ bytes_of payload @ replicate (128 - length payload) 0"

definition demo_memory :: payload_memory where
  "demo_memory r = (case r of Inline_bytes b \<Rightarrow> b
     | External_at a \<Rightarrow> if a = 0 then demo_rx_bytes ''cmd/sleep'' ''token=ab;arm=7;ms=5000''
                      else demo_rx_bytes ''cmd/sleep'' ''token=ab;confirm=7'')"

definition demo_rx_msg :: "nat \<Rightarrow> ev_msg" where
  "demo_rx_msg a = (demo_publish_msg EV_NET_MQTT_MSG_RX_LEASE)\<lparr>msg_storage := EV_MSG_STORAGE_EXTERNAL, msg_payload_size := 196,
     msg_external := zero_external\<lparr>ext_data := Some a, ext_size := 196\<rparr>\<rparr>"

definition demo_command_ctx :: "ev_actor_id list ev_command_actor_ctx" where
  "demo_command_ctx = the (snd (ev_command_actor_init (Some \<lparr>ca_deliver = None, ca_token = None, ca_token_len = 0,
     ca_capabilities = 0, ca_tick_counter = 0, ca_last_led_tick = 0, ca_last_display_tick = 0, ca_last_sleep_tick = 0,
     ca_sleep_armed = False, ca_sleep_duration_ms = 0, ca_sleep_expiry_tick = 0, ca_sleep_nonce_len = 0,
     ca_sleep_nonce = [], ca_stats = zero_command_stats\<rparr>) (Some log_delivery) (Some (bytes_of ''ab'')) 7))"

definition command_log_lifecycle :: "ev_actor_id list ev_lifecycle" where
  "command_log_lifecycle = \<lparr>lc_retain = \<lambda>f c d n s. (EV_OK, s), lc_release = \<lambda>f c d n s. s\<rparr>"

text \<open>The actor and its deliveries after the request that arms sleep, and after the confirmation.\<close>

definition demo_armed :: "ev_actor_id list ev_command_actor_ctx \<times> ev_actor_id list" where
  "demo_armed = command_run command_log_lifecycle demo_memory demo_command_ctx [] [demo_rx_msg 0]"

definition demo_confirmed :: "ev_result \<times> ev_actor_id list ev_command_actor_ctx option \<times> ev_actor_id list" where
  "demo_confirmed = ev_command_actor_handle command_log_lifecycle demo_memory (Some (fst demo_armed)) (Some (demo_rx_msg 1)) (snd demo_armed)"

lemma demo_confirmed_step:
  "ev_command_actor_handle command_log_lifecycle demo_memory (Some (fst demo_armed)) (Some (demo_rx_msg 1)) (snd demo_armed) =
     (fst demo_confirmed, Some (the (fst (snd demo_confirmed))), [ACT_POWER])"
  and demo_armed_silent: "snd demo_armed = []"
proof -
  have "snd (snd demo_confirmed) = [ACT_POWER]" "fst (snd demo_confirmed) \<noteq> None" by code_simp+
  then show "ev_command_actor_handle command_log_lifecycle demo_memory (Some (fst demo_armed)) (Some (demo_rx_msg 1)) (snd demo_armed) =
     (fst demo_confirmed, Some (the (fst (snd demo_confirmed))), [ACT_POWER])"
    unfolding demo_confirmed_def by (metis option.collapse prod.collapse)
  show "snd demo_armed = []" by code_simp
qed

theorem commands_need_authority_witness:
  "\<exists>topic payload st. rx_command demo_memory (demo_rx_msg 1) = Some (topic, payload) \<and> authentic (fst demo_armed) payload st
     \<and> (led_command (fst demo_armed) st topic [] [ACT_POWER] \<or> display_command (fst demo_armed) st topic [] [ACT_POWER]
        \<or> sleep_command (fst demo_armed) st topic [] [ACT_POWER])"
  by (rule commands_need_authority [OF demo_confirmed_step [unfolded demo_armed_silent]]) simp

theorem sleep_needs_arm_and_confirm_witness:
  "\<exists>nonce d k st. armed_by demo_command_ctx demo_memory [demo_rx_msg 0] nonce d k \<and> k < 30
     \<and> authentic demo_command_ctx (bytes_of ''token=ab;confirm=7'') st
     \<and> ps_confirm st = Some nonce \<and> [ACT_POWER] = commanded (fst demo_armed) EV_SYS_GOTO_SLEEP_CMD (le32_bytes d) []"
proof (rule sleep_needs_arm_and_confirm)
  show "ev_command_actor_init (Some demo_command_ctx) (Some log_delivery) (Some (bytes_of ''ab'')) 7 = (EV_OK, Some demo_command_ctx)"
    by (simp add: demo_command_ctx_def ev_command_actor_init_def Let_def)
  show "command_run command_log_lifecycle demo_memory demo_command_ctx [] [demo_rx_msg 0] = (fst demo_armed, [])"
    using demo_armed_silent by (simp add: demo_armed_def prod_eq_iff)
  show "ev_command_actor_handle command_log_lifecycle demo_memory (Some (fst demo_armed)) (Some (demo_rx_msg 1)) [] =
      (fst demo_confirmed, Some (the (fst (snd demo_confirmed))), [ACT_POWER])"
    using demo_confirmed_step by (simp add: demo_armed_silent)
  show "[ACT_POWER] \<noteq> []" by simp
  show "rx_command demo_memory (demo_rx_msg 1) = Some (bytes_of ''cmd/sleep'', bytes_of ''token=ab;confirm=7'')" by code_simp
qed

end
