(* ===== verification/EvWatchdogActor.thy ===== *)
theory EvWatchdogActor
  imports EvActorMsg
begin

text \<open>
  The watchdog actor (\<open>actors/framework/ev_watchdog_actor.c\<close>): on every tick it asks the application for a
  snapshot of the system's progress and feeds the hardware watchdog only when the snapshot is healthy. The
  watchdog port and the liveness callback are code of the platform and the application; they work on a state
  \<open>'w\<close>. A callback with an output variable gets its value and returns what it leaves there.
\<close>

section \<open>State\<close>

datatype ev_watchdog_reject_reason =
    EV_WATCHDOG_REJECT_NONE
  | EV_WATCHDOG_REJECT_UNSUPPORTED
  | EV_WATCHDOG_REJECT_NO_LIVENESS
  | EV_WATCHDOG_REJECT_LIVENESS_ERROR
  | EV_WATCHDOG_REJECT_NOT_PROGRESSING
  | EV_WATCHDOG_REJECT_DOMAIN_STALLED
  | EV_WATCHDOG_REJECT_SLEEP_ARMING
  | EV_WATCHDOG_REJECT_PERMANENT_STALL
  | EV_WATCHDOG_REJECT_FEED_FAILED
  | EV_WATCHDOG_REJECT_BAD_EVENT
  | EV_WATCHDOG_REJECT_NO_SYSTEM_TURN

datatype ev_reset_reason =
    EV_RESET_REASON_UNKNOWN
  | EV_RESET_REASON_POWER_ON
  | EV_RESET_REASON_SOFTWARE
  | EV_RESET_REASON_WATCHDOG
  | EV_RESET_REASON_DEEP_SLEEP
  | EV_RESET_REASON_EXTERNAL
  | EV_RESET_REASON_BROWNOUT

record ev_watchdog_domain_snapshot =
  wd_domain :: ev_execution_domain
  wd_pump_calls :: u32
  wd_pump_empty_calls :: u32
  wd_pump_budget_hits :: u32
  wd_pending_messages :: nat
  wd_last_result :: ev_result
  wd_bound :: bool

record ev_watchdog_liveness_snapshot =
  wl_system_turn_counter :: nat
  wl_system_messages_processed :: nat
  wl_system_pending_messages :: nat
  wl_domain_count :: nat
  wl_domains :: "ev_watchdog_domain_snapshot list"
  wl_sleep_arming :: bool
  wl_permanent_stall :: bool

record ev_watchdog_actor_stats =
  ws_ticks_seen :: u32
  ws_feed_attempts :: u32
  ws_feeds_ok :: u32
  ws_feeds_failed :: u32
  ws_health_rejects :: u32
  ws_unsupported_rejects :: u32
  ws_enable_calls :: u32
  ws_enable_failures :: u32
  ws_liveness_errors :: u32
  ws_last_reject_reason :: ev_watchdog_reject_reason
  ws_last_reset_reason :: ev_reset_reason

record 'w ev_wdt_port =
  wp_enable :: "(u32 \<Rightarrow> 'w \<Rightarrow> ev_result \<times> 'w) option"
  wp_feed :: "('w \<Rightarrow> ev_result \<times> 'w) option"
  wp_get_reset_reason :: "(ev_reset_reason \<Rightarrow> 'w \<Rightarrow> ev_result \<times> ev_reset_reason \<times> 'w) option"
  wp_is_supported :: "(bool \<Rightarrow> 'w \<Rightarrow> ev_result \<times> bool \<times> 'w) option"

type_synonym 'w ev_watchdog_liveness_fn =
  "ev_watchdog_liveness_snapshot \<Rightarrow> 'w \<Rightarrow> ev_result \<times> ev_watchdog_liveness_snapshot \<times> 'w"

record 'w ev_watchdog_actor_ctx =
  wa_wdt_port :: "'w ev_wdt_port option"
  wa_liveness_fn :: "'w ev_watchdog_liveness_fn option"
  wa_timeout_ms :: u32
  wa_enabled :: bool
  wa_supported :: bool
  wa_has_last_snapshot :: bool
  wa_last_snapshot :: ev_watchdog_liveness_snapshot
  wa_stats :: ev_watchdog_actor_stats

abbreviation EV_WATCHDOG_MIN_TIMEOUT_MS :: u32 where "EV_WATCHDOG_MIN_TIMEOUT_MS \<equiv> 1000"
abbreviation EV_WATCHDOG_MAX_TIMEOUT_MS :: u32 where "EV_WATCHDOG_MAX_TIMEOUT_MS \<equiv> 60000"
abbreviation EV_WATCHDOG_MAX_DOMAIN_SNAPSHOTS :: nat where "EV_WATCHDOG_MAX_DOMAIN_SNAPSHOTS \<equiv> nat EV_DOMAIN_COUNT"

definition zero_watchdog_snapshot :: ev_watchdog_liveness_snapshot where
  "zero_watchdog_snapshot = \<lparr>wl_system_turn_counter = 0, wl_system_messages_processed = 0, wl_system_pending_messages = 0,
     wl_domain_count = 0,
     wl_domains = replicate EV_WATCHDOG_MAX_DOMAIN_SNAPSHOTS \<lparr>wd_domain = 0, wd_pump_calls = 0, wd_pump_empty_calls = 0,
       wd_pump_budget_hits = 0, wd_pending_messages = 0, wd_last_result = EV_OK, wd_bound = False\<rparr>,
     wl_sleep_arming = False, wl_permanent_stall = False\<rparr>"

definition zero_watchdog_stats :: ev_watchdog_actor_stats where
  "zero_watchdog_stats = \<lparr>ws_ticks_seen = 0, ws_feed_attempts = 0, ws_feeds_ok = 0, ws_feeds_failed = 0,
     ws_health_rejects = 0, ws_unsupported_rejects = 0, ws_enable_calls = 0, ws_enable_failures = 0, ws_liveness_errors = 0,
     ws_last_reject_reason = EV_WATCHDOG_REJECT_NONE, ws_last_reset_reason = EV_RESET_REASON_UNKNOWN\<rparr>"

section \<open>Operations\<close>

definition ev_watchdog_timeout_is_valid :: "u32 \<Rightarrow> bool" where
  "ev_watchdog_timeout_is_valid timeout_ms \<longleftrightarrow> EV_WATCHDOG_MIN_TIMEOUT_MS \<le> timeout_ms \<and> timeout_ms \<le> EV_WATCHDOG_MAX_TIMEOUT_MS"

definition ev_watchdog_domain_result_is_healthy :: "ev_result \<Rightarrow> bool" where
  "ev_watchdog_domain_result_is_healthy result \<longleftrightarrow> result = EV_OK \<or> result = EV_ERR_EMPTY \<or> result = EV_ERR_PARTIAL"

definition ev_watchdog_domain_progressed :: "ev_watchdog_domain_snapshot \<Rightarrow> ev_watchdog_domain_snapshot \<Rightarrow> bool" where
  "ev_watchdog_domain_progressed now last_one \<longleftrightarrow> wd_pump_calls now \<noteq> wd_pump_calls last_one
     \<or> wd_pump_empty_calls now \<noteq> wd_pump_empty_calls last_one \<or> wd_pump_budget_hits now \<noteq> wd_pump_budget_hits last_one"

primrec find_last_loop ::
    "ev_watchdog_liveness_snapshot \<Rightarrow> ev_execution_domain \<Rightarrow> nat \<Rightarrow> nat \<Rightarrow> ev_watchdog_domain_snapshot option" where
  "find_last_loop snapshot domain 0 i = None"
| "find_last_loop snapshot domain (Suc n) i =
     (if i < wl_domain_count snapshot \<and> i < EV_WATCHDOG_MAX_DOMAIN_SNAPSHOTS
      then
        let d = wl_domains snapshot ! i
        in if wd_bound d \<and> wd_domain d = domain then Some d else find_last_loop snapshot domain n (Suc i)
      else None)"

definition ev_watchdog_find_last_domain ::
    "ev_watchdog_liveness_snapshot \<Rightarrow> ev_execution_domain \<Rightarrow> ev_watchdog_domain_snapshot option" where
  "ev_watchdog_find_last_domain snapshot domain = find_last_loop snapshot domain EV_WATCHDOG_MAX_DOMAIN_SNAPSHOTS 0"

text \<open>The loop over the domains: may it go on past domain \<open>i\<close>?\<close>

definition domain_is_healthy ::
    "'w ev_watchdog_actor_ctx \<Rightarrow> ev_watchdog_domain_snapshot \<Rightarrow> bool" where
  "domain_is_healthy ctx domain =
     (if \<not> wd_bound domain then True
      else if \<not> ev_watchdog_domain_result_is_healthy (wd_last_result domain) then False
      else if \<not> wa_has_last_snapshot ctx \<or> wd_pending_messages domain = 0 then True
      else case ev_watchdog_find_last_domain (wa_last_snapshot ctx) (wd_domain domain) of
             None \<Rightarrow> False
           | Some last_domain \<Rightarrow> ev_watchdog_domain_progressed domain last_domain)"

primrec domains_loop :: "'w ev_watchdog_actor_ctx \<Rightarrow> ev_watchdog_liveness_snapshot \<Rightarrow> nat \<Rightarrow> nat \<Rightarrow> bool" where
  "domains_loop ctx snapshot 0 i = True"
| "domains_loop ctx snapshot (Suc n) i =
     (if domain_is_healthy ctx (wl_domains snapshot ! i) then domains_loop ctx snapshot n (Suc i) else False)"

text \<open>Healthy, and the reason if it is not.\<close>

definition ev_watchdog_snapshot_is_healthy ::
    "'w ev_watchdog_actor_ctx \<Rightarrow> ev_watchdog_liveness_snapshot \<Rightarrow> bool \<times> ev_watchdog_reject_reason" where
  "ev_watchdog_snapshot_is_healthy ctx snapshot =
     (if wl_sleep_arming snapshot then (False, EV_WATCHDOG_REJECT_SLEEP_ARMING)
      else if wl_permanent_stall snapshot then (False, EV_WATCHDOG_REJECT_PERMANENT_STALL)
      else if EV_WATCHDOG_MAX_DOMAIN_SNAPSHOTS < wl_domain_count snapshot then (False, EV_WATCHDOG_REJECT_DOMAIN_STALLED)
      else if wl_system_turn_counter snapshot = 0 then (False, EV_WATCHDOG_REJECT_NO_SYSTEM_TURN)
      else if wa_has_last_snapshot ctx
              \<and> wl_system_turn_counter snapshot \<le> wl_system_turn_counter (wa_last_snapshot ctx)
      then (False, EV_WATCHDOG_REJECT_NOT_PROGRESSING)
      else if domains_loop ctx snapshot (wl_domain_count snapshot) 0 then (True, EV_WATCHDOG_REJECT_NONE)
      else (False, EV_WATCHDOG_REJECT_DOMAIN_STALLED))"

abbreviation book :: "(ev_watchdog_actor_stats \<Rightarrow> ev_watchdog_actor_stats) \<Rightarrow> 'w ev_watchdog_actor_ctx \<Rightarrow> 'w ev_watchdog_actor_ctx" where
  "book f ctx \<equiv> ctx\<lparr>wa_stats := f (wa_stats ctx)\<rparr>"

definition ev_watchdog_actor_init ::
    "'w ev_watchdog_actor_ctx option \<Rightarrow> 'w ev_wdt_port option \<Rightarrow> u32 \<Rightarrow> 'w ev_watchdog_liveness_fn option \<Rightarrow> 'w
       \<Rightarrow> ev_result \<times> 'w ev_watchdog_actor_ctx option \<times> 'w" where
  "ev_watchdog_actor_init ctx wdt_port timeout_ms liveness_fn w =
     (if ctx = None \<or> wdt_port = None \<or> wp_enable (the wdt_port) = None \<or> wp_feed (the wdt_port) = None
         \<or> \<not> ev_watchdog_timeout_is_valid timeout_ms
      then (EV_ERR_INVALID_ARG, ctx, w)
      else
        let port = the wdt_port;
            ctx = \<lparr>wa_wdt_port = wdt_port, wa_liveness_fn = liveness_fn, wa_timeout_ms = timeout_ms, wa_enabled = False,
                   wa_supported = False, wa_has_last_snapshot = False, wa_last_snapshot = zero_watchdog_snapshot,
                   wa_stats = zero_watchdog_stats\<rparr>;
            unsupported = (\<lambda>st. st\<lparr>ws_unsupported_rejects := ws_unsupported_rejects st + 1,
                   ws_last_reject_reason := EV_WATCHDOG_REJECT_UNSUPPORTED\<rparr>);
            (rc, supported, w) =
              (case wp_is_supported port of None \<Rightarrow> (EV_OK, True, w) | Some is_supported \<Rightarrow> is_supported True w)
        in if rc \<noteq> EV_OK then (rc, Some (book unsupported ctx), w)
           else
             let ctx = ctx\<lparr>wa_supported := supported\<rparr>
             in if \<not> supported then (EV_ERR_UNSUPPORTED, Some (book unsupported ctx), w)
                else
                  let ctx = book (\<lambda>st. st\<lparr>ws_enable_calls := ws_enable_calls st + 1\<rparr>) ctx;
                      (rc, w) = the (wp_enable port) timeout_ms w
                  in if rc \<noteq> EV_OK
                     then (rc, Some (book (\<lambda>st. st\<lparr>ws_enable_failures := ws_enable_failures st + 1,
                             ws_last_reject_reason := (if rc = EV_ERR_UNSUPPORTED then EV_WATCHDOG_REJECT_UNSUPPORTED
                                                       else EV_WATCHDOG_REJECT_FEED_FAILED)\<rparr>) ctx), w)
                     else
                       let (ctx, w) =
                             (case wp_get_reset_reason port of None \<Rightarrow> (ctx, w)
                              | Some get_reset_reason \<Rightarrow>
                                  let (_, reason, w) = get_reset_reason (ws_last_reset_reason (wa_stats ctx)) w
                                  in (book (\<lambda>st. st\<lparr>ws_last_reset_reason := reason\<rparr>) ctx, w))
                       in (EV_OK, Some (ctx\<lparr>wa_enabled := True\<rparr>), w))"

text \<open>A tick, and what the snapshot it gets decides.\<close>

definition watchdog_verdict ::
    "ev_watchdog_liveness_snapshot \<Rightarrow> 'w ev_watchdog_actor_ctx \<Rightarrow> 'w \<Rightarrow> 'w ev_watchdog_actor_ctx \<times> 'w" where
  "watchdog_verdict snapshot ctx w =
     (let (healthy, reject_reason) = ev_watchdog_snapshot_is_healthy ctx snapshot
      in if \<not> healthy
         then ((book (\<lambda>st. st\<lparr>ws_health_rejects := ws_health_rejects st + 1, ws_last_reject_reason := reject_reason\<rparr>) ctx)\<lparr>
                 wa_last_snapshot := snapshot, wa_has_last_snapshot := True\<rparr>, w)
         else
           let ctx = book (\<lambda>st. st\<lparr>ws_feed_attempts := ws_feed_attempts st + 1\<rparr>) ctx;
               (rc, w) = the (wp_feed (the (wa_wdt_port ctx))) w;
               ctx = (if rc \<noteq> EV_OK
                      then book (\<lambda>st. st\<lparr>ws_feeds_failed := ws_feeds_failed st + 1,
                             ws_last_reject_reason := EV_WATCHDOG_REJECT_FEED_FAILED\<rparr>) ctx
                      else book (\<lambda>st. st\<lparr>ws_feeds_ok := ws_feeds_ok st + 1,
                             ws_last_reject_reason := EV_WATCHDOG_REJECT_NONE\<rparr>) ctx)
           in (ctx\<lparr>wa_last_snapshot := snapshot, wa_has_last_snapshot := True\<rparr>, w))"

definition ev_watchdog_actor_handle ::
    "'w ev_watchdog_actor_ctx option \<Rightarrow> ev_msg option \<Rightarrow> 'w \<Rightarrow> ev_result \<times> 'w ev_watchdog_actor_ctx option \<times> 'w" where
  "ev_watchdog_actor_handle actor_context msg w =
     (if actor_context = None \<or> msg = None then (EV_ERR_INVALID_ARG, actor_context, w)
      else
        let ctx = the actor_context
        in if msg_event_id (the msg) \<noteq> EV_TICK_1S
           then (EV_OK, Some (book (\<lambda>st. st\<lparr>ws_last_reject_reason := EV_WATCHDOG_REJECT_BAD_EVENT\<rparr>) ctx), w)
           else
             let ctx = book (\<lambda>st. st\<lparr>ws_ticks_seen := ws_ticks_seen st + 1\<rparr>) ctx
             in if \<not> wa_enabled ctx \<or> \<not> wa_supported ctx \<or> wa_wdt_port ctx = None \<or> wp_feed (the (wa_wdt_port ctx)) = None
                then (EV_OK, Some (book (\<lambda>st. st\<lparr>ws_unsupported_rejects := ws_unsupported_rejects st + 1,
                        ws_last_reject_reason := EV_WATCHDOG_REJECT_UNSUPPORTED\<rparr>) ctx), w)
                else case wa_liveness_fn ctx of
                    None \<Rightarrow> (EV_OK, Some (book (\<lambda>st. st\<lparr>ws_health_rejects := ws_health_rejects st + 1,
                        ws_last_reject_reason := EV_WATCHDOG_REJECT_NO_LIVENESS\<rparr>) ctx), w)
                  | Some liveness_fn \<Rightarrow>
                      let (rc, snapshot, w) = liveness_fn zero_watchdog_snapshot w
                      in if rc \<noteq> EV_OK
                         then (EV_OK, Some (book (\<lambda>st. st\<lparr>ws_liveness_errors := ws_liveness_errors st + 1,
                                 ws_health_rejects := ws_health_rejects st + 1,
                                 ws_last_reject_reason := EV_WATCHDOG_REJECT_LIVENESS_ERROR\<rparr>) ctx), w)
                         else let (ctx, w) = watchdog_verdict snapshot ctx w in (EV_OK, Some ctx, w))"

definition ev_watchdog_actor_stats_of :: "'w ev_watchdog_actor_ctx option \<Rightarrow> ev_watchdog_actor_stats option" where
  "ev_watchdog_actor_stats_of ctx = map_option wa_stats ctx"

section \<open>When the watchdog is fed\<close>

text \<open>
  The reading of a healthy snapshot: the system took a turn since the last snapshot, nothing forbids feeding, and
  every bound domain is in a normal state and, if messages wait for it, moved since the last snapshot.
\<close>

definition domain_moved :: "ev_watchdog_liveness_snapshot \<Rightarrow> ev_watchdog_domain_snapshot \<Rightarrow> bool" where
  "domain_moved last_one d \<longleftrightarrow> (\<exists>i < min (wl_domain_count last_one) EV_WATCHDOG_MAX_DOMAIN_SNAPSHOTS.
     let e = wl_domains last_one ! i
     in wd_bound e \<and> wd_domain e = wd_domain d
        \<and> (\<forall>j < i. \<not> (wd_bound (wl_domains last_one ! j) \<and> wd_domain (wl_domains last_one ! j) = wd_domain d))
        \<and> (wd_pump_calls d, wd_pump_empty_calls d, wd_pump_budget_hits d)
            \<noteq> (wd_pump_calls e, wd_pump_empty_calls e, wd_pump_budget_hits e))"

definition system_progresses :: "'w ev_watchdog_actor_ctx \<Rightarrow> ev_watchdog_liveness_snapshot \<Rightarrow> bool" where
  "system_progresses ctx snap \<longleftrightarrow> \<not> wl_sleep_arming snap \<and> \<not> wl_permanent_stall snap
     \<and> wl_domain_count snap \<le> EV_WATCHDOG_MAX_DOMAIN_SNAPSHOTS \<and> 0 < wl_system_turn_counter snap
     \<and> (wa_has_last_snapshot ctx \<longrightarrow> wl_system_turn_counter (wa_last_snapshot ctx) < wl_system_turn_counter snap)
     \<and> (\<forall>i < wl_domain_count snap. wd_bound (wl_domains snap ! i) \<longrightarrow>
          wd_last_result (wl_domains snap ! i) \<in> {EV_OK, EV_ERR_EMPTY, EV_ERR_PARTIAL}
          \<and> (wa_has_last_snapshot ctx \<and> 0 < wd_pending_messages (wl_domains snap ! i) \<longrightarrow>
               domain_moved (wa_last_snapshot ctx) (wl_domains snap ! i)))"

lemma find_last_loop_iff:
  assumes "\<forall>j < i. \<not> (wd_bound (wl_domains l ! j) \<and> wd_domain (wl_domains l ! j) = dm)"
    and "n + i = EV_WATCHDOG_MAX_DOMAIN_SNAPSHOTS"
  shows "find_last_loop l dm n i = Some d \<longleftrightarrow>
     (\<exists>k < min (wl_domain_count l) EV_WATCHDOG_MAX_DOMAIN_SNAPSHOTS. d = wl_domains l ! k \<and> wd_bound d \<and> wd_domain d = dm
        \<and> (\<forall>j < k. \<not> (wd_bound (wl_domains l ! j) \<and> wd_domain (wl_domains l ! j) = dm)))"
  using assms
proof (induction n arbitrary: i)
  case 0
  then show ?case by auto
next
  case (Suc n)
  show ?case
  proof (cases "i < wl_domain_count l \<and> i < EV_WATCHDOG_MAX_DOMAIN_SNAPSHOTS")
    case False
    then show ?thesis using Suc.prems by (auto; metis leI order_less_le_trans)
  next
    case in_range: True
    show ?thesis
    proof (cases "wd_bound (wl_domains l ! i) \<and> wd_domain (wl_domains l ! i) = dm")
      case True
      then have found: "find_last_loop l dm (Suc n) i = Some (wl_domains l ! i)" using in_range by (simp add: Let_def)
      have first: "k = i" if "wd_bound (wl_domains l ! k)" "wd_domain (wl_domains l ! k) = dm"
        "\<forall>j < k. \<not> (wd_bound (wl_domains l ! j) \<and> wd_domain (wl_domains l ! j) = dm)" for k
        using that True Suc.prems(1) by (cases k i rule: linorder_cases) blast+
      show ?thesis
      proof
        assume "find_last_loop l dm (Suc n) i = Some d"
        then have "d = wl_domains l ! i" using found by simp
        then show "\<exists>k < min (wl_domain_count l) EV_WATCHDOG_MAX_DOMAIN_SNAPSHOTS. d = wl_domains l ! k \<and> wd_bound d
            \<and> wd_domain d = dm \<and> (\<forall>j < k. \<not> (wd_bound (wl_domains l ! j) \<and> wd_domain (wl_domains l ! j) = dm))"
          using True in_range Suc.prems(1) by (intro exI [of _ i]) simp
      next
        assume "\<exists>k < min (wl_domain_count l) EV_WATCHDOG_MAX_DOMAIN_SNAPSHOTS. d = wl_domains l ! k \<and> wd_bound d
            \<and> wd_domain d = dm \<and> (\<forall>j < k. \<not> (wd_bound (wl_domains l ! j) \<and> wd_domain (wl_domains l ! j) = dm))"
        then obtain k where "d = wl_domains l ! k" "k = i" using first by blast
        then show "find_last_loop l dm (Suc n) i = Some d" using found by simp
      qed
    next
      case False
      have "\<forall>j < Suc i. \<not> (wd_bound (wl_domains l ! j) \<and> wd_domain (wl_domains l ! j) = dm)"
        using False Suc.prems(1) less_Suc_eq by auto
      moreover have "n + Suc i = EV_WATCHDOG_MAX_DOMAIN_SNAPSHOTS" using Suc.prems(2) by simp
      moreover have "find_last_loop l dm (Suc n) i = find_last_loop l dm n (Suc i)" using False in_range by (auto simp: Let_def)
      ultimately show ?thesis using Suc.IH [of "Suc i"] by simp
    qed
  qed
qed

lemma domain_moved_iff:
  "domain_moved l d \<longleftrightarrow> (\<exists>e. ev_watchdog_find_last_domain l (wd_domain d) = Some e \<and> ev_watchdog_domain_progressed d e)"
  unfolding ev_watchdog_find_last_domain_def domain_moved_def Let_def
  by (subst find_last_loop_iff) (auto simp: ev_watchdog_domain_progressed_def)

lemma domains_loop_iff: "domains_loop ctx snap n i \<longleftrightarrow> (\<forall>j < n. domain_is_healthy ctx (wl_domains snap ! (i + j)))"
proof (induction n arbitrary: i)
  case (Suc n)
  have "(\<forall>j < Suc n. domain_is_healthy ctx (wl_domains snap ! (i + j))) \<longleftrightarrow>
      domain_is_healthy ctx (wl_domains snap ! i) \<and> (\<forall>j < n. domain_is_healthy ctx (wl_domains snap ! (Suc i + j)))"
    by (auto simp: less_Suc_eq_0_disj)
  then show ?case using Suc [of "Suc i"] by simp
qed simp

lemma healthy_iff: "fst (ev_watchdog_snapshot_is_healthy ctx snap) \<longleftrightarrow> system_progresses ctx snap"
proof -
  have "domain_is_healthy ctx d \<longleftrightarrow> (wd_bound d \<longrightarrow> wd_last_result d \<in> {EV_OK, EV_ERR_EMPTY, EV_ERR_PARTIAL}
      \<and> (wa_has_last_snapshot ctx \<and> 0 < wd_pending_messages d \<longrightarrow> domain_moved (wa_last_snapshot ctx) d))" for d
    by (auto simp: domain_is_healthy_def domain_moved_iff ev_watchdog_domain_result_is_healthy_def split: option.splits)
  then show ?thesis
    by (auto simp: ev_watchdog_snapshot_is_healthy_def system_progresses_def domains_loop_iff not_less not_le)
qed

lemma verdict_effect:
  assumes "watchdog_verdict snap ctx w = (ctx', w')" and "wa_wdt_port ctx = Some p" and "wp_feed p = Some feed"
  shows "w' = (if system_progresses ctx snap then snd (feed w) else w) \<and> wa_last_snapshot ctx' = snap \<and> wa_has_last_snapshot ctx'
     \<and> wa_wdt_port ctx' = wa_wdt_port ctx \<and> wa_liveness_fn ctx' = wa_liveness_fn ctx \<and> wa_enabled ctx' = wa_enabled ctx
     \<and> wa_supported ctx' = wa_supported ctx
     \<and> ws_feed_attempts (wa_stats ctx') = ws_feed_attempts (wa_stats ctx) + (if system_progresses ctx snap then 1 else 0)"
  using assms healthy_iff [of ctx snap] by (auto simp: watchdog_verdict_def Let_def split: prod.splits if_splits)

lemma progress_books [simp]: "system_progresses (book f ctx) snap = system_progresses ctx snap"
  by (simp add: system_progresses_def)

text \<open>
  On a tick, an enabled watchdog actor that gets a snapshot feeds the hardware watchdog exactly when the
  snapshot shows a system that progresses: sleep is not being armed and no stall is declared, the turn counter
  is past the one of the last snapshot, and every bound domain is in a normal state and, when messages wait for
  it, pumped since the last snapshot. Either way the snapshot becomes the last one.
\<close>

theorem watchdog_feeds_live_system:
  assumes "wa_enabled ctx" and "wa_supported ctx" and "wa_wdt_port ctx = Some p" and "wp_feed p = Some feed"
    and "wa_liveness_fn ctx = Some liveness" and "msg_event_id m = EV_TICK_1S"
    and "liveness zero_watchdog_snapshot w = (EV_OK, snap, w1)"
  shows "\<exists>ctx'. ev_watchdog_actor_handle (Some ctx) (Some m) w =
       (EV_OK, Some ctx', if system_progresses ctx snap then snd (feed w1) else w1)
     \<and> wa_last_snapshot ctx' = snap \<and> wa_has_last_snapshot ctx'
     \<and> ws_feed_attempts (wa_stats ctx') = ws_feed_attempts (wa_stats ctx) + (if system_progresses ctx snap then 1 else 0)"
proof -
  let ?c = "book (\<lambda>st. st\<lparr>ws_ticks_seen := ws_ticks_seen st + 1\<rparr>) ctx"
  obtain ctx' w' where v: "watchdog_verdict snap ?c w1 = (ctx', w')" by (rule prod.exhaust)
  have V: "w' = (if system_progresses ctx snap then snd (feed w1) else w1)" "wa_last_snapshot ctx' = snap"
    "wa_has_last_snapshot ctx'"
    "ws_feed_attempts (wa_stats ctx') = ws_feed_attempts (wa_stats ctx) + (if system_progresses ctx snap then 1 else 0)"
    using verdict_effect [OF v, of p feed] assms by simp_all
  have "ev_watchdog_actor_handle (Some ctx) (Some m) w = (EV_OK, Some ctx', w')"
    using assms v by (simp add: ev_watchdog_actor_handle_def Let_def)
  then show ?thesis using V by blast
qed

section \<open>A stalled system is not fed\<close>

fun watchdog_step :: "'w ev_watchdog_actor_ctx \<times> 'w \<Rightarrow> ev_msg \<Rightarrow> 'w ev_watchdog_actor_ctx \<times> 'w" where
  "watchdog_step (ctx, w) m = (let (rc, c, w) = ev_watchdog_actor_handle (Some ctx) (Some m) w in (the c, w))"

definition watchdog_run :: "'w ev_watchdog_actor_ctx \<Rightarrow> 'w \<Rightarrow> ev_msg list \<Rightarrow> 'w ev_watchdog_actor_ctx \<times> 'w" where
  "watchdog_run ctx w ms = foldl watchdog_step (ctx, w) ms"

text \<open>\<open>fed\<close> counts the feeds of the hardware, and nothing else counts there.\<close>

definition counts_feeds :: "('w \<Rightarrow> nat) \<Rightarrow> ('w \<Rightarrow> ev_result \<times> 'w) \<Rightarrow> 'w ev_watchdog_liveness_fn \<Rightarrow> bool" where
  "counts_feeds fed feed liveness \<longleftrightarrow> (\<forall>w. fed (snd (feed w)) = fed w + 1) \<and> (\<forall>x w. fed (snd (snd (liveness x w))) = fed w)"

text \<open>The liveness callback reports the same turn counter whenever it is asked.\<close>

definition stalled_at :: "nat \<Rightarrow> 'w ev_watchdog_liveness_fn \<Rightarrow> bool" where
  "stalled_at t liveness \<longleftrightarrow> (\<forall>x w. wl_system_turn_counter (fst (snd (liveness x w))) = t)"

lemma stalled_step:
  assumes ports: "wa_wdt_port ctx = Some p" "wp_feed p = Some feed" "wa_liveness_fn ctx = Some liveness"
    and c: "counts_feeds fed feed liveness" and st: "stalled_at t liveness"
    and step: "watchdog_step (ctx, w) m = (ctx', w')"
  shows "wa_wdt_port ctx' = Some p \<and> wa_liveness_fn ctx' = Some liveness
     \<and> (if wa_has_last_snapshot ctx \<and> t \<le> wl_system_turn_counter (wa_last_snapshot ctx)
        then fed w' = fed w \<and> wa_has_last_snapshot ctx' \<and> t \<le> wl_system_turn_counter (wa_last_snapshot ctx')
        else fed w' = fed w
             \<or> fed w' = fed w + 1 \<and> wa_has_last_snapshot ctx' \<and> t \<le> wl_system_turn_counter (wa_last_snapshot ctx'))"
proof (cases "msg_event_id m = EV_TICK_1S \<and> wa_enabled ctx \<and> wa_supported ctx")
  case False
  then have "wa_wdt_port ctx' = wa_wdt_port ctx \<and> wa_liveness_fn ctx' = wa_liveness_fn ctx
      \<and> wa_has_last_snapshot ctx' = wa_has_last_snapshot ctx \<and> wa_last_snapshot ctx' = wa_last_snapshot ctx \<and> w' = w"
    using step by (auto simp: ev_watchdog_actor_handle_def Let_def split: if_splits)
  then show ?thesis using ports by simp
next
  case True
  obtain rc snap w1 where l: "liveness zero_watchdog_snapshot w = (rc, snap, w1)" by (rule prod_cases3)
  have f1: "fed w1 = fed w" and turn: "wl_system_turn_counter snap = t"
    using c st l by (auto simp: counts_feeds_def stalled_at_def dest: spec [of _ zero_watchdog_snapshot] spec2) (metis fst_conv snd_conv)+
  show ?thesis
  proof (cases "rc = EV_OK")
    case False
    then have "wa_wdt_port ctx' = wa_wdt_port ctx \<and> wa_liveness_fn ctx' = wa_liveness_fn ctx
        \<and> wa_has_last_snapshot ctx' = wa_has_last_snapshot ctx \<and> wa_last_snapshot ctx' = wa_last_snapshot ctx \<and> w' = w1"
      using step True l ports by (auto simp: ev_watchdog_actor_handle_def Let_def)
    then show ?thesis using ports f1 by simp
  next
    case ok: True
    let ?c = "book (\<lambda>st. st\<lparr>ws_ticks_seen := ws_ticks_seen st + 1\<rparr>) ctx"
    have v: "watchdog_verdict snap ?c w1 = (ctx', w')"
      using step True l ok ports by (auto simp: ev_watchdog_actor_handle_def Let_def split: prod.splits)
    have V: "w' = (if system_progresses ctx snap then snd (feed w1) else w1)" "wa_last_snapshot ctx' = snap" "wa_has_last_snapshot ctx'"
      "wa_wdt_port ctx' = Some p" "wa_liveness_fn ctx' = Some liveness"
      using verdict_effect [OF v, of p feed] ports by simp_all
    have "fed w' = (if system_progresses ctx snap then fed w + 1 else fed w)" using V(1) f1 c by (simp add: counts_feeds_def)
    moreover have "\<not> system_progresses ctx snap" if "wa_has_last_snapshot ctx \<and> t \<le> wl_system_turn_counter (wa_last_snapshot ctx)"
      using that turn by (simp add: system_progresses_def)
    ultimately show ?thesis using V turn by auto
  qed
qed

text \<open>
  C16: whatever messages it handles, the watchdog actor feeds the hardware watchdog at most once while the turn
  counter its liveness callback reports stays where it is: a stalled system runs into the reset.
\<close>

theorem stalled_system_starves_watchdog:
  assumes ports: "wa_wdt_port ctx = Some p" "wp_feed p = Some feed" "wa_liveness_fn ctx = Some liveness"
    and c: "counts_feeds fed feed liveness" and st: "stalled_at t liveness"
    and run: "watchdog_run ctx w ms = (ctx', w')"
  shows "fed w' \<le> fed w + 1"
proof -
  have "wa_wdt_port ctx' = Some p \<and> wa_liveness_fn ctx' = Some liveness \<and>
      (fed w' = fed w \<or> fed w' = fed w + 1 \<and> wa_has_last_snapshot ctx' \<and> t \<le> wl_system_turn_counter (wa_last_snapshot ctx'))"
    using run
  proof (induction ms arbitrary: ctx' w' rule: rev_induct)
    case Nil
    then show ?case using ports by (simp add: watchdog_run_def)
  next
    case (snoc m ms)
    obtain c1 w1 where r: "watchdog_run ctx w ms = (c1, w1)" by (rule prod.exhaust)
    then have s: "watchdog_step (c1, w1) m = (ctx', w')" using snoc.prems by (simp add: watchdog_run_def)
    note IH = snoc.IH [OF r]
    note S = stalled_step [OF conjunct1 [OF IH] ports(2) conjunct1 [OF conjunct2 [OF IH]] c st s]
    show ?case using IH S by (auto split: if_splits)
  qed
  then show ?thesis by auto
qed

section \<open>A stalled system\<close>

definition demo_stalled_snapshot :: ev_watchdog_liveness_snapshot where
  "demo_stalled_snapshot = zero_watchdog_snapshot\<lparr>wl_system_turn_counter := 7\<rparr>"

definition demo_liveness :: "nat ev_watchdog_liveness_fn" where
  "demo_liveness snap w = (EV_OK, demo_stalled_snapshot, w)"

definition demo_wdt_port :: "nat ev_wdt_port" where
  "demo_wdt_port = \<lparr>wp_enable = Some (\<lambda>t w. (EV_OK, w)), wp_feed = Some (\<lambda>w. (EV_OK, Suc w)),
     wp_get_reset_reason = None, wp_is_supported = None\<rparr>"

definition demo_watchdog :: "nat ev_watchdog_actor_ctx" where
  "demo_watchdog = \<lparr>wa_wdt_port = Some demo_wdt_port, wa_liveness_fn = Some demo_liveness, wa_timeout_ms = 5000,
     wa_enabled = True, wa_supported = True, wa_has_last_snapshot = False, wa_last_snapshot = zero_watchdog_snapshot,
     wa_stats = zero_watchdog_stats\<rparr>"

definition demo_tick :: ev_msg where
  "demo_tick = demo_publish_msg EV_TICK_1S"

theorem watchdog_feeds_live_system_witness:
  "\<exists>ctx'. ev_watchdog_actor_handle (Some demo_watchdog) (Some demo_tick) 0 =
       (EV_OK, Some ctx', if system_progresses demo_watchdog demo_stalled_snapshot then snd (EV_OK, Suc 0) else 0)
     \<and> wa_last_snapshot ctx' = demo_stalled_snapshot \<and> wa_has_last_snapshot ctx'
     \<and> ws_feed_attempts (wa_stats ctx') =
         ws_feed_attempts (wa_stats demo_watchdog) + (if system_progresses demo_watchdog demo_stalled_snapshot then 1 else 0)"
  by (rule watchdog_feeds_live_system [where p = demo_wdt_port and liveness = demo_liveness and feed = "\<lambda>w. (EV_OK, Suc w)"])
     (simp_all add: demo_watchdog_def demo_wdt_port_def demo_liveness_def demo_tick_def demo_publish_msg_def demo_msg_def)

theorem stalled_system_starves_watchdog_witness:
  "snd (watchdog_run demo_watchdog 0 (replicate 5 demo_tick)) \<le> (0 :: nat) + 1"
proof (rule stalled_system_starves_watchdog [where p = demo_wdt_port and feed = "\<lambda>w. (EV_OK, Suc w)" and fed = "\<lambda>w. w"])
  show "counts_feeds (\<lambda>w. w) (\<lambda>w. (EV_OK, Suc w)) demo_liveness" by (simp add: counts_feeds_def demo_liveness_def)
  show "stalled_at 7 demo_liveness" by (simp add: stalled_at_def demo_liveness_def demo_stalled_snapshot_def)
  show "watchdog_run demo_watchdog 0 (replicate 5 demo_tick) =
      (fst (watchdog_run demo_watchdog 0 (replicate 5 demo_tick)), snd (watchdog_run demo_watchdog 0 (replicate 5 demo_tick)))" by simp
qed (simp_all add: demo_watchdog_def demo_wdt_port_def)

end
