(* ===== verification/EvSupervisorActor.thy ===== *)
theory EvSupervisorActor
  imports EvActorMsg
begin

text \<open>
  The supervisor actor (\<open>actors/framework/ev_supervisor_actor.c\<close>): it collects the ready messages of the hardware
  actors and announces the system as ready once the required hardware reported or the settle time passed, and
  again for hardware that comes later.
\<close>

section \<open>State and operations\<close>

record 's ev_supervisor_actor_ctx =
  su_deliver :: "'s ev_delivery_fn option"
  su_deliver_context :: ptr
  su_active_hardware_mask :: u32
  su_observed_hardware_mask :: u32
  su_required_hardware_mask :: u32
  su_optional_hardware_mask :: u32
  su_known_hardware_mask :: u32
  su_boot_observed :: bool
  su_system_ready_published :: bool
  su_ticks_waited :: u32

abbreviation EV_SUPERVISOR_HW_MCP23008 :: u32 where "EV_SUPERVISOR_HW_MCP23008 \<equiv> 0x01"
abbreviation EV_SUPERVISOR_HW_RTC :: u32 where "EV_SUPERVISOR_HW_RTC \<equiv> 0x02"
abbreviation EV_SUPERVISOR_HW_OLED :: u32 where "EV_SUPERVISOR_HW_OLED \<equiv> 0x04"
abbreviation EV_SUPERVISOR_HW_DS18B20 :: u32 where "EV_SUPERVISOR_HW_DS18B20 \<equiv> 0x08"
abbreviation EV_SUPERVISOR_HW_BH1750 :: u32 where "EV_SUPERVISOR_HW_BH1750 \<equiv> 0x10"
abbreviation EV_SUPERVISOR_BOOT_SETTLE_TICKS :: u32 where "EV_SUPERVISOR_BOOT_SETTLE_TICKS \<equiv> 1"
abbreviation EV_SUPERVISOR_REQUIRED_MASK :: u32 where
  "EV_SUPERVISOR_REQUIRED_MASK \<equiv> EV_SUPERVISOR_HW_MCP23008 OR EV_SUPERVISOR_HW_RTC"
abbreviation EV_SUPERVISOR_OPTIONAL_MASK :: u32 where
  "EV_SUPERVISOR_OPTIONAL_MASK \<equiv> EV_SUPERVISOR_HW_OLED OR EV_SUPERVISOR_HW_DS18B20 OR EV_SUPERVISOR_HW_BH1750"
abbreviation EV_SUPERVISOR_KNOWN_MASK :: u32 where
  "EV_SUPERVISOR_KNOWN_MASK \<equiv> EV_SUPERVISOR_REQUIRED_MASK OR EV_SUPERVISOR_OPTIONAL_MASK"

text \<open>
  The state is the one the deliveries act on; the delivery context is only checked against \<open>NULL\<close>. A result of
  \<open>dispose\<close> that is not \<open>EV_OK\<close> would become the result of a publication that succeeded.
\<close>

definition ev_supervisor_actor_publish_system_ready ::
    "'s ev_lifecycle \<Rightarrow> 's ev_supervisor_actor_ctx \<Rightarrow> 's \<Rightarrow> ev_result \<times> 's" where
  "ev_supervisor_actor_publish_system_ready lc ctx s =
     (if su_deliver ctx = None \<or> su_deliver_context ctx = None then (EV_ERR_INVALID_ARG, s)
      else
        let (rc, m, s) = build_inline lc EV_SYSTEM_READY ACT_SUPERVISOR (le32_bytes (su_active_hardware_mask ctx)) s;
            (rc, s) = (if rc = EV_OK then let (rc, n, s) = ev_publish (Some m) (su_deliver ctx) s in (rc, s) else (rc, s));
            (dispose_rc, _, s) = ev_msg_dispose lc (Some m) s
        in (if rc = EV_OK \<and> dispose_rc \<noteq> EV_OK then dispose_rc else rc, s))"

definition ev_supervisor_actor_mark_ready :: "u32 \<Rightarrow> 's ev_supervisor_actor_ctx \<Rightarrow> 's ev_supervisor_actor_ctx" where
  "ev_supervisor_actor_mark_ready hw_mask ctx =
     ctx\<lparr>su_observed_hardware_mask := su_observed_hardware_mask ctx OR hw_mask,
         su_active_hardware_mask := su_active_hardware_mask ctx OR hw_mask\<rparr>"

definition ev_supervisor_actor_mark_remaining_offline :: "'s ev_supervisor_actor_ctx \<Rightarrow> 's ev_supervisor_actor_ctx" where
  "ev_supervisor_actor_mark_remaining_offline ctx =
     ctx\<lparr>su_observed_hardware_mask := su_observed_hardware_mask ctx OR su_known_hardware_mask ctx\<rparr>"

definition ev_supervisor_actor_try_publish_if_settled ::
    "'s ev_lifecycle \<Rightarrow> 's ev_supervisor_actor_ctx \<Rightarrow> 's \<Rightarrow> ev_result \<times> 's ev_supervisor_actor_ctx \<times> 's" where
  "ev_supervisor_actor_try_publish_if_settled lc ctx s =
     (if \<not> su_boot_observed ctx \<or> su_system_ready_published ctx then (EV_OK, ctx, s)
      else
        let settled_mask = su_observed_hardware_mask ctx AND su_required_hardware_mask ctx
        in if settled_mask = su_required_hardware_mask ctx \<or> EV_SUPERVISOR_BOOT_SETTLE_TICKS \<le> su_ticks_waited ctx
           then
             let ctx = (if EV_SUPERVISOR_BOOT_SETTLE_TICKS \<le> su_ticks_waited ctx
                        then ev_supervisor_actor_mark_remaining_offline ctx else ctx);
                 ctx = ctx\<lparr>su_system_ready_published := True\<rparr>;
                 (rc, s) = ev_supervisor_actor_publish_system_ready lc ctx s
             in (rc, ctx, s)
           else (EV_OK, ctx, s))"

definition ev_supervisor_actor_handle_ready ::
    "'s ev_lifecycle \<Rightarrow> u32 \<Rightarrow> 's ev_supervisor_actor_ctx \<Rightarrow> 's \<Rightarrow> ev_result \<times> 's ev_supervisor_actor_ctx \<times> 's" where
  "ev_supervisor_actor_handle_ready lc hw_mask ctx s =
     (let became_active = (su_active_hardware_mask ctx AND hw_mask = 0);
          ctx = ev_supervisor_actor_mark_ready hw_mask ctx
      in if \<not> su_system_ready_published ctx then ev_supervisor_actor_try_publish_if_settled lc ctx s
         else if became_active
         then let (rc, s) = ev_supervisor_actor_publish_system_ready lc ctx s in (rc, ctx, s)
         else (EV_OK, ctx, s))"

definition ev_supervisor_actor_init ::
    "'s ev_supervisor_actor_ctx option \<Rightarrow> 's ev_delivery_fn option \<Rightarrow> ptr \<Rightarrow> ev_result \<times> 's ev_supervisor_actor_ctx option" where
  "ev_supervisor_actor_init ctx deliver deliver_context =
     (if ctx = None \<or> deliver = None \<or> deliver_context = None then (EV_ERR_INVALID_ARG, ctx)
      else (EV_OK, Some \<lparr>su_deliver = deliver, su_deliver_context = deliver_context, su_active_hardware_mask = 0,
              su_observed_hardware_mask = 0, su_required_hardware_mask = EV_SUPERVISOR_REQUIRED_MASK,
              su_optional_hardware_mask = EV_SUPERVISOR_OPTIONAL_MASK, su_known_hardware_mask = EV_SUPERVISOR_KNOWN_MASK,
              su_boot_observed = False, su_system_ready_published = False, su_ticks_waited = 0\<rparr>))"

definition ev_supervisor_actor_configure_hardware ::
    "'s ev_supervisor_actor_ctx option \<Rightarrow> u32 \<Rightarrow> u32 \<Rightarrow> ev_result \<times> 's ev_supervisor_actor_ctx option" where
  "ev_supervisor_actor_configure_hardware ctx required_hardware_mask optional_hardware_mask =
     (let known_mask = required_hardware_mask OR optional_hardware_mask
      in case ctx of
           None \<Rightarrow> (EV_ERR_INVALID_ARG, None)
         | Some c \<Rightarrow>
             if known_mask AND NOT EV_SUPERVISOR_KNOWN_MASK \<noteq> 0 then (EV_ERR_OUT_OF_RANGE, ctx)
             else if required_hardware_mask AND optional_hardware_mask \<noteq> 0 then (EV_ERR_CONTRACT, ctx)
             else (EV_OK, Some (c\<lparr>su_required_hardware_mask := required_hardware_mask,
                    su_optional_hardware_mask := optional_hardware_mask, su_known_hardware_mask := known_mask\<rparr>)))"

definition ev_supervisor_actor_handle ::
    "'s ev_lifecycle \<Rightarrow> 's ev_supervisor_actor_ctx option \<Rightarrow> ev_msg option \<Rightarrow> 's
       \<Rightarrow> ev_result \<times> 's ev_supervisor_actor_ctx option \<times> 's" where
  "ev_supervisor_actor_handle lc actor_context msg s =
     (if actor_context = None \<or> msg = None then (EV_ERR_INVALID_ARG, actor_context, s)
      else
        let ctx = the actor_context; e = msg_event_id (the msg);
            (rc, ctx, s) =
              (if e = EV_BOOT_COMPLETED
               then (EV_OK, ctx\<lparr>su_boot_observed := True, su_system_ready_published := False, su_ticks_waited := 0,
                       su_active_hardware_mask := 0, su_observed_hardware_mask := 0\<rparr>, s)
               else if e = EV_MCP23008_READY then ev_supervisor_actor_handle_ready lc EV_SUPERVISOR_HW_MCP23008 ctx s
               else if e = EV_RTC_READY then ev_supervisor_actor_handle_ready lc EV_SUPERVISOR_HW_RTC ctx s
               else if e = EV_OLED_READY then ev_supervisor_actor_handle_ready lc EV_SUPERVISOR_HW_OLED ctx s
               else if e = EV_DS18B20_READY then ev_supervisor_actor_handle_ready lc EV_SUPERVISOR_HW_DS18B20 ctx s
               else if e = EV_BH1750_READY then ev_supervisor_actor_handle_ready lc EV_SUPERVISOR_HW_BH1750 ctx s
               else if e = EV_TICK_1S
               then
                 if su_boot_observed ctx \<and> \<not> su_system_ready_published ctx
                 then ev_supervisor_actor_try_publish_if_settled lc (ctx\<lparr>su_ticks_waited := su_ticks_waited ctx + 1\<rparr>) s
                 else (EV_OK, ctx, s)
               else (EV_ERR_CONTRACT, ctx, s))
        in (rc, Some ctx, s))"

section \<open>The announcements of a boot\<close>

text \<open>The hardware a message reports.\<close>

definition reported_hw :: "ev_event_id \<Rightarrow> u32" where
  "reported_hw e = (if e = EV_MCP23008_READY then EV_SUPERVISOR_HW_MCP23008
     else if e = EV_RTC_READY then EV_SUPERVISOR_HW_RTC else if e = EV_OLED_READY then EV_SUPERVISOR_HW_OLED
     else if e = EV_DS18B20_READY then EV_SUPERVISOR_HW_DS18B20
     else if e = EV_BH1750_READY then EV_SUPERVISOR_HW_BH1750 else 0)"

text \<open>The hardware that has reported over a list of events.\<close>

definition reported :: "ev_event_id list \<Rightarrow> u32" where
  "reported es = foldr (\<lambda>e x. x OR reported_hw e) es 0"

text \<open>
  The system is settled once all required hardware has reported (some hardware, at least) or the first tick came.
\<close>

definition boot_settled :: "u32 \<Rightarrow> ev_event_id list \<Rightarrow> bool" where
  "boot_settled required es \<longleftrightarrow> EV_TICK_1S \<in> set es
     \<or> (\<exists>e \<in> set es. reported_hw e \<noteq> 0) \<and> reported es AND required = required"

text \<open>
  The announcements over the events since the boot, each with the hardware that has reported by then: one when
  the system settles, and one for each piece of hardware that reports later for the first time.
\<close>

definition announces :: "u32 \<Rightarrow> ev_event_id list \<Rightarrow> ev_event_id \<Rightarrow> bool" where
  "announces required es e \<longleftrightarrow>
     (if boot_settled required es then reported_hw e \<noteq> 0 \<and> reported es AND reported_hw e = 0
      else boot_settled required (es @ [e]))"

definition announcements :: "u32 \<Rightarrow> ev_event_id list \<Rightarrow> u32 list" where
  "announcements required es =
     concat (map (\<lambda>i. if announces required (take i es) (es ! i) then [reported (take (Suc i) es)] else []) [0..<length es])"

lemma announcements_snoc:
  "announcements r (es @ [e]) = announcements r es @ (if announces r es e then [reported (es @ [e])] else [])"
proof -
  let ?f = "\<lambda>i. if announces r (take i (es @ [e])) ((es @ [e]) ! i) then [reported (take (Suc i) (es @ [e]))] else []"
  have m: "map ?f [0..<length es] = map (\<lambda>i. if announces r (take i es) (es ! i) then [reported (take (Suc i) es)] else []) [0..<length es]"
    by (rule map_cong) (auto simp: nth_append)
  have "announcements r (es @ [e]) = concat (map ?f [0..<length es]) @ ?f (length es)"
    by (simp add: announcements_def del: take_append)
  then show ?thesis unfolding m announcements_def by simp
qed

lemma reported_snoc: "reported (es @ [e]) = reported es OR reported_hw e"
proof -
  have "foldr (\<lambda>e x. x OR reported_hw e) es (y :: u32) = foldr (\<lambda>e x. x OR reported_hw e) es 0 OR y" for y
    by (induction es) (auto simp: ac_simps)
  from this [of "reported_hw e"] show ?thesis by (simp add: reported_def)
qed

text \<open>What one announcement does to the rest of the system.\<close>

definition announced :: "'s ev_supervisor_actor_ctx \<Rightarrow> u32 \<Rightarrow> 's \<Rightarrow> 's" where
  "announced ctx hw s = snd (snd (ev_publish (Some (inline_msg EV_SYSTEM_READY ACT_SUPERVISOR (le32_bytes hw))) (su_deliver ctx) s))"

lemma ready_event [simp]: "inline_event EV_SYSTEM_READY" "ev_actor_id_is_valid ACT_SUPERVISOR"
  by code_simp+

lemma publish_ready_effect:
  assumes "su_deliver ctx \<noteq> None" and "su_deliver_context ctx \<noteq> None"
  shows "snd (ev_supervisor_actor_publish_system_ready lc ctx s) = announced ctx (su_active_hardware_mask ctx) s"
  using assms
  by (auto dest!: dispose_inline_state simp: ev_supervisor_actor_publish_system_ready_def build_inline_eq announced_def Let_def
      split: prod.splits)

text \<open>The supervisor after a boot and the events since.\<close>

definition supervises :: "u32 \<Rightarrow> ev_event_id list \<Rightarrow> 's ev_supervisor_actor_ctx \<Rightarrow> bool" where
  "supervises required es ctx \<longleftrightarrow> su_deliver ctx \<noteq> None \<and> su_deliver_context ctx \<noteq> None
     \<and> su_required_hardware_mask ctx = required \<and> su_boot_observed ctx
     \<and> su_active_hardware_mask ctx = reported es \<and> (su_system_ready_published ctx \<longleftrightarrow> boot_settled required es)
     \<and> (\<not> su_system_ready_published ctx \<longrightarrow> su_observed_hardware_mask ctx = reported es \<and> su_ticks_waited ctx = 0)"

lemma masked_grows: "(x :: u32) AND r = r \<Longrightarrow> (x OR h) AND r = r"
  by (simp add: bit_eq_iff bit_simps) blast

lemma settled_stays: "boot_settled r es \<Longrightarrow> boot_settled r (es @ [e])"
  using masked_grows [of "reported es" r "reported_hw e"] by (auto simp: boot_settled_def reported_snoc)

text \<open>The hardware messages of the handler, with the mask of each.\<close>

lemma handle_cases:
  assumes "e \<noteq> EV_BOOT_COMPLETED"
  shows "ev_supervisor_actor_handle lc (Some ctx) (Some (m\<lparr>msg_event_id := e\<rparr>)) s =
     (let (rc, ctx, s) =
        (if reported_hw e \<noteq> 0 then ev_supervisor_actor_handle_ready lc (reported_hw e) ctx s
         else if e = EV_TICK_1S
         then if su_boot_observed ctx \<and> \<not> su_system_ready_published ctx
              then ev_supervisor_actor_try_publish_if_settled lc (ctx\<lparr>su_ticks_waited := su_ticks_waited ctx + 1\<rparr>) s
              else (EV_OK, ctx, s)
         else (EV_ERR_CONTRACT, ctx, s))
      in (rc, Some ctx, s))"
  using assms by (simp add: ev_supervisor_actor_handle_def reported_hw_def Let_def)

lemma tick_reports_nothing [simp]: "reported_hw EV_TICK_1S = 0"
  by (simp add: reported_hw_def)

lemma supervises_step:
  assumes sup: "supervises r es ctx" and e: "e = msg_event_id m" "e \<noteq> EV_BOOT_COMPLETED"
    and run: "ev_supervisor_actor_handle lc (Some ctx) (Some m) s = (rc, Some ctx', s')"
  shows "supervises r (es @ [e]) ctx' \<and> su_deliver ctx' = su_deliver ctx
     \<and> s' = (if announces r es e then announced ctx (reported (es @ [e])) s else s)"
proof -
  note D = sup [unfolded supervises_def]
  have pub: "snd (ev_supervisor_actor_publish_system_ready lc c s) = announced ctx (su_active_hardware_mask c) s"
    if "su_deliver c = su_deliver ctx" "su_deliver_context c = su_deliver_context ctx" for c
    using publish_ready_effect [of c lc s] D that by (simp add: announced_def)
  have run': "ev_supervisor_actor_handle lc (Some ctx) (Some (m\<lparr>msg_event_id := e\<rparr>)) s = (rc, Some ctx', s')"
    using run e(1) by simp
  consider (hw) "reported_hw e \<noteq> 0" | (tick) "e = EV_TICK_1S" "reported_hw e = 0"
    | (other) "reported_hw e = 0" "e \<noteq> EV_TICK_1S" by blast
  then show ?thesis
  proof cases
    case hw
    then have nt: "e \<noteq> EV_TICK_1S" by auto
    let ?c = "ev_supervisor_actor_mark_ready (reported_hw e) ctx"
    have h: "ev_supervisor_actor_handle_ready lc (reported_hw e) ctx s = (rc, ctx', s')"
      using run' hw unfolding handle_cases [OF e(2)] by (auto simp: Let_def split: prod.splits)
    obtain rc1 s1 where p: "ev_supervisor_actor_publish_system_ready lc ?c s = (rc1, s1)" by (rule prod.exhaust)
    obtain rc2 s2 where p2: "ev_supervisor_actor_publish_system_ready lc (?c\<lparr>su_system_ready_published := True\<rparr>) s = (rc2, s2)"
      by (rule prod.exhaust)
    have act: "su_active_hardware_mask ?c = reported (es @ [e])"
      using D by (simp add: ev_supervisor_actor_mark_ready_def reported_snoc)
    have s1: "s1 = announced ctx (reported (es @ [e])) s" "s2 = announced ctx (reported (es @ [e])) s"
      using pub [of ?c] pub [of "?c\<lparr>su_system_ready_published := True\<rparr>"] p p2 act
      by (simp_all add: ev_supervisor_actor_mark_ready_def)
    show ?thesis
    proof (cases "su_system_ready_published ctx")
      case True
      then have set: "boot_settled r es" "boot_settled r (es @ [e])" using D settled_stays by blast+
      then show ?thesis
        using h True D hw p s1 act
        by (auto simp: ev_supervisor_actor_handle_ready_def supervises_def announces_def ev_supervisor_actor_mark_ready_def
            Let_def split: if_splits)
    next
      case False
      then have uns: "\<not> boot_settled r es" using D by blast
      have settled: "boot_settled r (es @ [e]) \<longleftrightarrow> reported (es @ [e]) AND r = r"
        using uns nt hw by (auto simp: boot_settled_def reported_snoc)
      have obs: "su_observed_hardware_mask ?c = reported (es @ [e])" "su_required_hardware_mask ?c = r" "su_ticks_waited ?c = 0"
        "su_boot_observed ?c" "\<not> su_system_ready_published ?c"
        using D False by (simp_all add: ev_supervisor_actor_mark_ready_def reported_snoc)
      have attempt: "ev_supervisor_actor_try_publish_if_settled lc ?c s =
          (if reported (es @ [e]) AND r = r then (rc2, ?c\<lparr>su_system_ready_published := True\<rparr>, s2) else (EV_OK, ?c, s))"
        using obs p2 by (simp add: ev_supervisor_actor_try_publish_if_settled_def)
      have "(rc, ctx', s') = (if reported (es @ [e]) AND r = r then (rc2, ?c\<lparr>su_system_ready_published := True\<rparr>, s2) else (EV_OK, ?c, s))"
        using h False attempt by (simp add: ev_supervisor_actor_handle_ready_def ev_supervisor_actor_mark_ready_def Let_def)
      then show ?thesis
        using D uns settled obs act s1 by (auto simp: supervises_def announces_def ev_supervisor_actor_mark_ready_def split: if_splits)
    qed
  next
    case tick
    have st: "boot_settled r (es @ [e])" using tick by (simp add: boot_settled_def)
    have rep: "reported (es @ [e]) = reported es" using tick by (simp add: reported_snoc)
    let ?c = "ctx\<lparr>su_ticks_waited := su_ticks_waited ctx + 1\<rparr>"
    let ?d = "ev_supervisor_actor_mark_remaining_offline ?c\<lparr>su_system_ready_published := True\<rparr>"
    obtain rc2 s2 where p2: "ev_supervisor_actor_publish_system_ready lc ?d s = (rc2, s2)" by (rule prod.exhaust)
    have s2: "s2 = announced ctx (reported (es @ [e])) s"
      using pub [of ?d] p2 D rep by (simp add: ev_supervisor_actor_mark_remaining_offline_def)
    have h: "(if su_boot_observed ctx \<and> \<not> su_system_ready_published ctx
        then ev_supervisor_actor_try_publish_if_settled lc ?c s else (EV_OK, ctx, s)) = (rc, ctx', s')"
      using run' tick unfolding handle_cases [OF e(2)] by (auto simp: Let_def split: prod.splits if_splits)
    show ?thesis
    proof (cases "su_system_ready_published ctx")
      case True
      then show ?thesis using h D st tick rep by (auto simp: supervises_def announces_def)
    next
      case False
      then have "ev_supervisor_actor_try_publish_if_settled lc ?c s = (rc2, ?d, s2)"
        using D p2 by (simp add: ev_supervisor_actor_try_publish_if_settled_def Let_def)
      then show ?thesis
        using h False D st rep s2 by (auto simp: supervises_def announces_def ev_supervisor_actor_mark_remaining_offline_def)
    qed
  next
    case other
    then have same: "ctx' = ctx" "s' = s" using run' unfolding handle_cases [OF e(2)] by (auto simp: Let_def)
    have rep: "reported (es @ [e]) = reported es" using other by (simp add: reported_snoc)
    have "boot_settled r (es @ [e]) \<longleftrightarrow> boot_settled r es" using other rep by (auto simp: boot_settled_def)
    then show ?thesis using same D other rep by (auto simp: supervises_def announces_def)
  qed
qed

fun supervisor_step ::
    "'s ev_lifecycle \<Rightarrow> 's ev_supervisor_actor_ctx \<times> 's \<Rightarrow> ev_msg \<Rightarrow> 's ev_supervisor_actor_ctx \<times> 's" where
  "supervisor_step lc (ctx, s) m = (let (rc, c, s) = ev_supervisor_actor_handle lc (Some ctx) (Some m) s in (the c, s))"

definition supervisor_run ::
    "'s ev_lifecycle \<Rightarrow> 's ev_supervisor_actor_ctx \<Rightarrow> 's \<Rightarrow> ev_msg list \<Rightarrow> 's ev_supervisor_actor_ctx \<times> 's" where
  "supervisor_run lc ctx s ms = foldl (supervisor_step lc) (ctx, s) ms"

lemma supervisor_keeps_context: "\<exists>rc ctx' s'. ev_supervisor_actor_handle lc (Some ctx) (Some m) s = (rc, Some ctx', s')"
  by (simp add: ev_supervisor_actor_handle_def Let_def split_def)

lemma supervises_run:
  assumes sup: "supervises r [] ctx" and "\<forall>m \<in> set ms. msg_event_id m \<noteq> EV_BOOT_COMPLETED"
    and "supervisor_run lc ctx s ms = (ctx', s')"
  shows "supervises r (map msg_event_id ms) ctx' \<and> su_deliver ctx' = su_deliver ctx
     \<and> s' = fold (announced ctx) (announcements r (map msg_event_id ms)) s"
  using assms(2,3)
proof (induction ms arbitrary: ctx' s' rule: rev_induct)
  case Nil
  then show ?case using sup by (simp add: supervisor_run_def announcements_def)
next
  case (snoc m ms)
  obtain c1 s1 where r: "supervisor_run lc ctx s ms = (c1, s1)" by (rule prod.exhaust)
  have no_boot: "\<forall>m \<in> set ms. msg_event_id m \<noteq> EV_BOOT_COMPLETED" "msg_event_id m \<noteq> EV_BOOT_COMPLETED"
    using snoc.prems(1) by auto
  note IH = snoc.IH [OF no_boot(1) r]
  obtain rc c2 s2 where h: "ev_supervisor_actor_handle lc (Some c1) (Some m) s1 = (rc, Some c2, s2)"
    using supervisor_keeps_context [of lc c1 m s1] by blast
  have eq: "ctx' = c2" "s' = s2" using snoc.prems(2) r h by (simp_all add: supervisor_run_def)
  note S = supervises_step [OF conjunct1 [OF IH] refl no_boot(2) h]
  have "announced c1 = announced ctx" using IH by (intro ext) (simp add: announced_def)
  then show ?case using S IH eq by (auto simp: announcements_snoc)
qed

text \<open>
  C17: from a boot until the next one, whatever messages come in between, the supervisor announces the system
  exactly as the events since the boot say: once when all required hardware has reported or the first tick came,
  and once more for each piece of hardware that reports for the first time after that; each announcement carries
  the hardware that has reported by then.
\<close>

theorem supervisor_announces_boot:
  assumes "su_deliver ctx \<noteq> None" and "su_deliver_context ctx \<noteq> None" and "msg_event_id b = EV_BOOT_COMPLETED"
    and "\<forall>m \<in> set ms. msg_event_id m \<noteq> EV_BOOT_COMPLETED"
    and "supervisor_run lc ctx s (b # ms) = (ctx', s')"
  shows "s' = fold (announced ctx) (announcements (su_required_hardware_mask ctx) (map msg_event_id ms)) s"
proof -
  let ?c = "ctx\<lparr>su_boot_observed := True, su_system_ready_published := False, su_ticks_waited := 0,
     su_active_hardware_mask := 0, su_observed_hardware_mask := 0\<rparr>"
  have r: "supervisor_run lc ?c s ms = (ctx', s')"
    using assms(5,3) by (simp add: supervisor_run_def ev_supervisor_actor_handle_def)
  have sup: "supervises (su_required_hardware_mask ctx) [] ?c"
    using assms(1,2) by (simp add: supervises_def reported_def boot_settled_def)
  have "announced ?c = announced ctx" by (intro ext) (simp add: announced_def)
  then show ?thesis using supervises_run [OF sup assms(4) r] by simp
qed

definition demo_supervisor :: "u32 list ev_supervisor_actor_ctx" where
  "demo_supervisor = \<lparr>su_deliver = Some (\<lambda>a m s. (EV_OK, if a = ACT_APP then s @ [le32_at (msg_inline_bytes m) 0] else s)),
     su_deliver_context = Some 0, su_active_hardware_mask = 0, su_observed_hardware_mask = 0,
     su_required_hardware_mask = EV_SUPERVISOR_REQUIRED_MASK, su_optional_hardware_mask = EV_SUPERVISOR_OPTIONAL_MASK,
     su_known_hardware_mask = EV_SUPERVISOR_KNOWN_MASK, su_boot_observed = False, su_system_ready_published = False,
     su_ticks_waited = 0\<rparr>"

definition no_callbacks :: "'s ev_lifecycle" where
  "no_callbacks = \<lparr>lc_retain = \<lambda>f c d n s. (EV_OK, s), lc_release = \<lambda>f c d n s. s\<rparr>"

definition demo_boot :: "ev_msg list" where
  "demo_boot = map demo_publish_msg [EV_RTC_READY, EV_MCP23008_READY, EV_MCP23008_READY, EV_TICK_1S, EV_OLED_READY]"

text \<open>Two announcements: the required hardware, then the display that came late.\<close>

theorem supervisor_announces_boot_witness:
  "snd (supervisor_run no_callbacks demo_supervisor [] (demo_publish_msg EV_BOOT_COMPLETED # demo_boot)) =
     fold (announced demo_supervisor) (announcements (su_required_hardware_mask demo_supervisor) (map msg_event_id demo_boot)) []
   \<and> announcements (su_required_hardware_mask demo_supervisor) (map msg_event_id demo_boot) = [3, 7]"
proof
  have d: "su_deliver demo_supervisor \<noteq> None" "su_deliver_context demo_supervisor \<noteq> None" by (simp_all add: demo_supervisor_def)
  have b: "msg_event_id (demo_publish_msg EV_BOOT_COMPLETED) = EV_BOOT_COMPLETED"
    "\<forall>m \<in> set demo_boot. msg_event_id m \<noteq> EV_BOOT_COMPLETED"
    by (simp_all add: demo_boot_def demo_publish_msg_def demo_msg_def)
  show "snd (supervisor_run no_callbacks demo_supervisor [] (demo_publish_msg EV_BOOT_COMPLETED # demo_boot)) =
     fold (announced demo_supervisor) (announcements (su_required_hardware_mask demo_supervisor) (map msg_event_id demo_boot)) []"
    by (rule supervisor_announces_boot [OF d b, of no_callbacks "[]"
          "fst (supervisor_run no_callbacks demo_supervisor [] (demo_publish_msg EV_BOOT_COMPLETED # demo_boot))"]) simp
  show "announcements (su_required_hardware_mask demo_supervisor) (map msg_event_id demo_boot) = [3, 7]" by code_simp
qed

end
