(* ===== verification/EvPowerActor.thy ===== *)
theory EvPowerActor
  imports EvPowerMachine EvActorMsg
begin

text \<open>
  The power actor (\<open>actors/framework/ev_power_actor.c\<close>): on a sleep command it takes the node through the sleep
  sequence of the power state machine, calling the application's sleep guard or arming callback, the log's
  flush and the platform's preparation before it enters deep sleep, and undoing the arming when a step fails.

  The ports and callbacks are code outside the actor; they work on a state \<open>'w\<close>, and one with an output
  report gets the report and returns what it leaves in it.
\<close>

section \<open>State\<close>

datatype ev_power_sleep_reject_reason =
    EV_POWER_SLEEP_REJECT_NONE
  | EV_POWER_SLEEP_REJECT_UNSUPPORTED
  | EV_POWER_SLEEP_REJECT_BAD_PAYLOAD
  | EV_POWER_SLEEP_REJECT_BAD_DURATION
  | EV_POWER_SLEEP_REJECT_NOT_QUIESCENT
  | EV_POWER_SLEEP_REJECT_LOG_FLUSH_FAILED
  | EV_POWER_SLEEP_REJECT_PREPARE_FAILED
  | EV_POWER_SLEEP_REJECT_DEEP_SLEEP_FAILED
  | EV_POWER_SLEEP_REJECT_ARMING_FAILED

fun reject_code :: "ev_power_sleep_reject_reason \<Rightarrow> u32" where
  "reject_code EV_POWER_SLEEP_REJECT_NONE = 0"
| "reject_code EV_POWER_SLEEP_REJECT_UNSUPPORTED = 1"
| "reject_code EV_POWER_SLEEP_REJECT_BAD_PAYLOAD = 2"
| "reject_code EV_POWER_SLEEP_REJECT_BAD_DURATION = 3"
| "reject_code EV_POWER_SLEEP_REJECT_NOT_QUIESCENT = 4"
| "reject_code EV_POWER_SLEEP_REJECT_LOG_FLUSH_FAILED = 5"
| "reject_code EV_POWER_SLEEP_REJECT_PREPARE_FAILED = 6"
| "reject_code EV_POWER_SLEEP_REJECT_DEEP_SLEEP_FAILED = 7"
| "reject_code EV_POWER_SLEEP_REJECT_ARMING_FAILED = 8"

record ev_power_quiescence_report =
  pq_reason :: ev_power_sleep_reject_reason
  pq_pending_actor_messages :: u32
  pq_pending_irq_samples :: u32
  pq_due_timer_count :: u32
  pq_pending_oled_flush :: u32
  pq_pending_ds18b20_conversion :: u32

type_synonym 'w ev_power_gate_fn = "u64 \<Rightarrow> ev_power_quiescence_report \<Rightarrow> 'w \<Rightarrow> ev_result \<times> ev_power_quiescence_report \<times> 'w"

record 'w ev_system_port =
  sp_prepare_for_sleep :: "(u64 \<Rightarrow> 'w \<Rightarrow> ev_result \<times> 'w) option"
  sp_cancel_sleep_prepare :: "('w \<Rightarrow> ev_result \<times> 'w) option"
  sp_deep_sleep :: "(u64 \<Rightarrow> 'w \<Rightarrow> ev_result \<times> 'w) option"

text \<open>The log is written at one level, \<open>EV_LOG_INFO\<close>: a tag and a message.\<close>

record 'w ev_log_port =
  lp_write :: "(string \<Rightarrow> string \<Rightarrow> 'w \<Rightarrow> ev_result \<times> 'w) option"
  lp_flush :: "('w \<Rightarrow> ev_result \<times> 'w) option"

record 'w ev_power_actor_ctx =
  po_system_port :: "'w ev_system_port option"
  po_log_port :: "'w ev_log_port option"
  po_log_tag :: "string option"
  po_quiescence_guard :: "'w ev_power_gate_fn option"
  po_sleep_arm :: "'w ev_power_gate_fn option"
  po_sleep_disarm :: "('w \<Rightarrow> ev_result \<times> 'w) option"
  po_sleep_requests_seen :: u32
  po_sleep_requests_accepted :: u32
  po_sleep_requests_unsupported :: u32
  po_sleep_requests_rejected :: u32
  po_prepare_for_sleep_failures :: u32
  po_sleep_quiescence_failures :: u32
  po_sleep_arming_failures :: u32
  po_sleep_disarm_calls :: u32
  po_sleep_disarm_failures :: u32
  po_transition_count :: u32
  po_last_state :: ev_power_state
  po_previous_state :: ev_power_state
  po_last_transition_action :: ev_power_action
  po_last_transition_error :: ev_result
  po_last_transition_reason :: u32
  po_log_flush_failures :: u32
  po_deep_sleep_failures :: u32
  po_bad_payload_failures :: u32
  po_bad_duration_failures :: u32
  po_last_duration_us :: u64
  po_last_reject_reason :: ev_power_sleep_reject_reason
  po_last_quiescence_report :: ev_power_quiescence_report

abbreviation EV_POWER_US_PER_MS :: u64 where "EV_POWER_US_PER_MS \<equiv> 1000"

definition zero_quiescence_report :: ev_power_quiescence_report where
  "zero_quiescence_report = \<lparr>pq_reason = EV_POWER_SLEEP_REJECT_NONE, pq_pending_actor_messages = 0,
     pq_pending_irq_samples = 0, pq_due_timer_count = 0, pq_pending_oled_flush = 0, pq_pending_ds18b20_conversion = 0\<rparr>"

section \<open>Operations\<close>

definition ev_power_actor_record_transition :: "ev_power_state_machine \<Rightarrow> 'w ev_power_actor_ctx \<Rightarrow> 'w ev_power_actor_ctx" where
  "ev_power_actor_record_transition sm ctx =
     ctx\<lparr>po_last_state := ps_state sm, po_previous_state := ps_previous_state sm, po_transition_count := ps_transition_count sm,
         po_last_transition_action := ps_last_action sm, po_last_transition_error := ps_last_error sm,
         po_last_transition_reason := ps_last_reason sm\<rparr>"

definition ev_power_actor_set_reject_reason ::
    "ev_power_sleep_reject_reason \<Rightarrow> 'w ev_power_actor_ctx \<Rightarrow> 'w ev_power_actor_ctx" where
  "ev_power_actor_set_reject_reason reason ctx = ctx\<lparr>po_last_reject_reason := reason\<rparr>"

definition ev_power_actor_reject :: "ev_power_sleep_reject_reason \<Rightarrow> 'w ev_power_actor_ctx \<Rightarrow> 'w ev_power_actor_ctx" where
  "ev_power_actor_reject reason ctx =
     ev_power_actor_set_reject_reason reason (ctx\<lparr>po_sleep_requests_rejected := po_sleep_requests_rejected ctx + 1\<rparr>)"

definition ev_power_actor_log :: "'w ev_power_actor_ctx \<Rightarrow> string \<Rightarrow> 'w \<Rightarrow> ev_result \<times> 'w" where
  "ev_power_actor_log ctx message w =
     (case po_log_port ctx of None \<Rightarrow> (EV_OK, w)
      | Some port \<Rightarrow>
          (case lp_write port of None \<Rightarrow> (EV_OK, w)
           | Some write \<Rightarrow> write (case po_log_tag ctx of None \<Rightarrow> ''ev_power'' | Some tag \<Rightarrow> tag) message w))"

text \<open>The markers are compiled in when the build is not for the host.\<close>

definition ev_power_actor_log_smoke_marker :: "bool \<Rightarrow> 'w ev_power_actor_ctx \<Rightarrow> string \<Rightarrow> 'w \<Rightarrow> ev_result \<times> 'w" where
  "ev_power_actor_log_smoke_marker host_build ctx message w =
     (if host_build then (EV_OK, w) else ev_power_actor_log ctx message w)"

fun state_marker :: "ev_power_state \<Rightarrow> string" where
  "state_marker EV_POWER_STATE_ACTIVE = ''EV_POWER_SMOKE_STATE ACTIVE''"
| "state_marker EV_POWER_STATE_SLEEP_REQUESTED = ''EV_POWER_SMOKE_STATE SLEEP_REQUESTED''"
| "state_marker EV_POWER_STATE_DRAINING_RUNTIME = ''EV_POWER_SMOKE_STATE DRAINING_RUNTIME''"
| "state_marker EV_POWER_STATE_LOG_FLUSHING = ''EV_POWER_SMOKE_STATE LOG_FLUSHING''"
| "state_marker EV_POWER_STATE_PORTS_PREPARE_SLEEP = ''EV_POWER_SMOKE_STATE PORTS_PREPARE_SLEEP''"
| "state_marker EV_POWER_STATE_RTC_STATE_SAVED = ''EV_POWER_SMOKE_STATE RTC_STATE_SAVED''"
| "state_marker EV_POWER_STATE_ENTERING_DEEP_SLEEP = ''EV_POWER_SMOKE_STATE ENTERING_DEEP_SLEEP''"
| "state_marker EV_POWER_STATE_WAKE_BOOT = ''EV_POWER_SMOKE_STATE WAKE_BOOT''"
| "state_marker EV_POWER_STATE_REJECTED = ''EV_POWER_SMOKE_STATE REJECTED''"
| "state_marker EV_POWER_STATE_FAILED = ''EV_POWER_SMOKE_STATE FAILED''"

definition ev_power_actor_log_state_marker :: "bool \<Rightarrow> 'w ev_power_actor_ctx \<Rightarrow> ev_power_state \<Rightarrow> 'w \<Rightarrow> 'w" where
  "ev_power_actor_log_state_marker host_build ctx state w = snd (ev_power_actor_log_smoke_marker host_build ctx (state_marker state) w)"

definition ev_power_actor_step ::
    "bool \<Rightarrow> ev_power_action \<Rightarrow> ev_result \<Rightarrow> ev_power_sleep_reject_reason
       \<Rightarrow> 'w ev_power_actor_ctx \<times> ev_power_state_machine \<times> 'w \<Rightarrow> 'w ev_power_actor_ctx \<times> ev_power_state_machine \<times> 'w" where
  "ev_power_actor_step host_build action result reason st =
     (let (ctx, sm, w) = st;
          (rc, rep, sm') = ev_power_state_machine_step (Some sm) action (Some \<lparr>pi_result = result, pi_reason = reject_code reason\<rparr>);
          sm = the sm'; ctx = ev_power_actor_record_transition sm ctx
      in (ctx, sm, ev_power_actor_log_state_marker host_build ctx (ps_state sm) w))"

definition ev_power_actor_flush_log :: "'w ev_power_actor_ctx \<Rightarrow> 'w \<Rightarrow> ev_result \<times> 'w" where
  "ev_power_actor_flush_log ctx w =
     (case po_log_port ctx of None \<Rightarrow> (EV_OK, w)
      | Some port \<Rightarrow> (case lp_flush port of None \<Rightarrow> (EV_OK, w) | Some flush \<Rightarrow> flush w))"

definition ev_power_actor_run_quiescence_guard ::
    "'w ev_power_actor_ctx \<Rightarrow> u64 \<Rightarrow> 'w \<Rightarrow> ev_result \<times> 'w ev_power_actor_ctx \<times> 'w" where
  "ev_power_actor_run_quiescence_guard ctx duration_us w =
     (case po_quiescence_guard ctx of None \<Rightarrow> (EV_OK, ctx, w)
      | Some guard \<Rightarrow>
          let (rc, report, w) = guard duration_us zero_quiescence_report w;
              ctx = ctx\<lparr>po_last_quiescence_report := report\<rparr>
          in if rc \<noteq> EV_OK
             then (rc, ev_power_actor_reject (if pq_reason report \<noteq> EV_POWER_SLEEP_REJECT_NONE then pq_reason report
                                              else EV_POWER_SLEEP_REJECT_NOT_QUIESCENT)
                         (ctx\<lparr>po_sleep_quiescence_failures := po_sleep_quiescence_failures ctx + 1\<rparr>), w)
             else (EV_OK, ctx, w))"

text \<open>Result, whether the sleep was armed, the context and the state.\<close>

definition ev_power_actor_arm_sleep ::
    "'w ev_power_actor_ctx \<Rightarrow> u64 \<Rightarrow> 'w \<Rightarrow> ev_result \<times> bool \<times> 'w ev_power_actor_ctx \<times> 'w" where
  "ev_power_actor_arm_sleep ctx duration_us w =
     (case po_sleep_arm ctx of
        None \<Rightarrow> (let (rc, ctx, w) = ev_power_actor_run_quiescence_guard ctx duration_us w in (rc, False, ctx, w))
      | Some arm \<Rightarrow>
          let (rc, report, w) = arm duration_us zero_quiescence_report w;
              ctx = ctx\<lparr>po_last_quiescence_report := report\<rparr>
          in if rc \<noteq> EV_OK
             then
               let ctx = ctx\<lparr>po_sleep_arming_failures := po_sleep_arming_failures ctx + 1\<rparr>;
                   ctx = (if pq_pending_actor_messages report \<noteq> 0 \<or> pq_pending_irq_samples report \<noteq> 0
                             \<or> pq_due_timer_count report \<noteq> 0 \<or> pq_pending_oled_flush report \<noteq> 0
                             \<or> pq_pending_ds18b20_conversion report \<noteq> 0
                          then ctx\<lparr>po_sleep_quiescence_failures := po_sleep_quiescence_failures ctx + 1\<rparr> else ctx)
               in (rc, False, ev_power_actor_reject (if pq_reason report \<noteq> EV_POWER_SLEEP_REJECT_NONE then pq_reason report
                                                     else EV_POWER_SLEEP_REJECT_ARMING_FAILED) ctx, w)
             else (EV_OK, True, ctx, w))"

definition ev_power_actor_disarm_sleep :: "'w ev_power_actor_ctx \<Rightarrow> 'w \<Rightarrow> ev_result \<times> 'w ev_power_actor_ctx \<times> 'w" where
  "ev_power_actor_disarm_sleep ctx w =
     (case po_sleep_disarm ctx of None \<Rightarrow> (EV_OK, ctx, w)
      | Some disarm \<Rightarrow>
          let ctx = ctx\<lparr>po_sleep_disarm_calls := po_sleep_disarm_calls ctx + 1\<rparr>;
              (rc, w) = disarm w
          in (rc, if rc \<noteq> EV_OK then ctx\<lparr>po_sleep_disarm_failures := po_sleep_disarm_failures ctx + 1\<rparr> else ctx, w))"

definition ev_power_actor_cancel_platform_sleep_prepare :: "'w ev_power_actor_ctx \<Rightarrow> 'w \<Rightarrow> ev_result \<times> 'w" where
  "ev_power_actor_cancel_platform_sleep_prepare ctx w =
     (case po_system_port ctx of None \<Rightarrow> (EV_OK, w)
      | Some port \<Rightarrow> (case sp_cancel_sleep_prepare port of None \<Rightarrow> (EV_OK, w) | Some cancel \<Rightarrow> cancel w))"

definition ev_power_actor_init ::
    "'w ev_power_actor_ctx option \<Rightarrow> 'w ev_system_port option \<Rightarrow> 'w ev_log_port option \<Rightarrow> string option
       \<Rightarrow> ev_result \<times> 'w ev_power_actor_ctx option" where
  "ev_power_actor_init ctx system_port log_port log_tag =
     (if ctx = None then (EV_ERR_INVALID_ARG, None)
      else (EV_OK, Some \<lparr>po_system_port = system_port, po_log_port = log_port, po_log_tag = log_tag,
        po_quiescence_guard = None, po_sleep_arm = None, po_sleep_disarm = None, po_sleep_requests_seen = 0,
        po_sleep_requests_accepted = 0, po_sleep_requests_unsupported = 0, po_sleep_requests_rejected = 0,
        po_prepare_for_sleep_failures = 0, po_sleep_quiescence_failures = 0, po_sleep_arming_failures = 0,
        po_sleep_disarm_calls = 0, po_sleep_disarm_failures = 0, po_transition_count = 0,
        po_last_state = EV_POWER_STATE_ACTIVE, po_previous_state = EV_POWER_STATE_ACTIVE,
        po_last_transition_action = EV_POWER_ACTION_WAKE_BOOT, po_last_transition_error = EV_OK,
        po_last_transition_reason = 0, po_log_flush_failures = 0, po_deep_sleep_failures = 0,
        po_bad_payload_failures = 0, po_bad_duration_failures = 0, po_last_duration_us = 0,
        po_last_reject_reason = EV_POWER_SLEEP_REJECT_NONE, po_last_quiescence_report = zero_quiescence_report\<rparr>))"

definition ev_power_actor_set_quiescence_guard ::
    "'w ev_power_actor_ctx option \<Rightarrow> 'w ev_power_gate_fn option \<Rightarrow> ev_result \<times> 'w ev_power_actor_ctx option" where
  "ev_power_actor_set_quiescence_guard ctx guard =
     (case ctx of None \<Rightarrow> (EV_ERR_INVALID_ARG, None) | Some c \<Rightarrow> (EV_OK, Some (c\<lparr>po_quiescence_guard := guard\<rparr>)))"

definition ev_power_actor_set_sleep_arming ::
    "'w ev_power_actor_ctx option \<Rightarrow> 'w ev_power_gate_fn option \<Rightarrow> ('w \<Rightarrow> ev_result \<times> 'w) option
       \<Rightarrow> ev_result \<times> 'w ev_power_actor_ctx option" where
  "ev_power_actor_set_sleep_arming ctx arm disarm =
     (case ctx of None \<Rightarrow> (EV_ERR_INVALID_ARG, None)
      | Some c \<Rightarrow> (EV_OK, Some (c\<lparr>po_sleep_arm := arm, po_sleep_disarm := disarm\<rparr>)))"

text \<open>The end of a sleep that failed after arming, and of one that came back.\<close>

definition disarm_if :: "bool \<Rightarrow> 'w ev_power_actor_ctx \<Rightarrow> 'w \<Rightarrow> 'w ev_power_actor_ctx \<times> 'w" where
  "disarm_if sleep_armed ctx w =
     (if sleep_armed then let (_, ctx, w) = ev_power_actor_disarm_sleep ctx w in (ctx, w) else (ctx, w))"

text \<open>From the deep sleep call on.\<close>

definition enter_deep_sleep ::
    "bool \<Rightarrow> u64 \<Rightarrow> bool \<Rightarrow> 'w ev_power_actor_ctx \<times> ev_power_state_machine \<times> 'w \<Rightarrow> ev_result \<times> 'w ev_power_actor_ctx \<times> 'w" where
  "enter_deep_sleep host_build duration_us sleep_armed st =
     (let (ctx, sm, w) = st;
          ctx = ctx\<lparr>po_sleep_requests_accepted := po_sleep_requests_accepted ctx + 1\<rparr>;
          w = snd (ev_power_actor_log_smoke_marker host_build ctx ''EV_POWER_SMOKE_DEEP_SLEEP_ENTER'' w);
          (rc, w) = the (sp_deep_sleep (the (po_system_port ctx))) duration_us w
      in if rc \<noteq> EV_OK
         then
           let ctx = ev_power_actor_set_reject_reason EV_POWER_SLEEP_REJECT_DEEP_SLEEP_FAILED
                 (ctx\<lparr>po_deep_sleep_failures := po_deep_sleep_failures ctx + 1\<rparr>);
               (ctx, sm, w) = ev_power_actor_step host_build EV_POWER_ACTION_DEEP_SLEEP_FAILED rc
                 EV_POWER_SLEEP_REJECT_DEEP_SLEEP_FAILED (ctx, sm, w);
               (_, w) = ev_power_actor_cancel_platform_sleep_prepare ctx w;
               (ctx, w) = disarm_if sleep_armed ctx w
           in (rc, ctx, w)
         else
           let (ctx, sm, w) = ev_power_actor_step host_build EV_POWER_ACTION_DEEP_SLEEP_ENTERED EV_OK
                 EV_POWER_SLEEP_REJECT_NONE (ctx, sm, w);
               (ctx, w) = disarm_if sleep_armed ctx w
           in (EV_OK, ctx, w))"

text \<open>From the preparation of the ports on, with the log flushed.\<close>

definition prepare_and_sleep ::
    "bool \<Rightarrow> u64 \<Rightarrow> bool \<Rightarrow> 'w ev_power_actor_ctx \<times> ev_power_state_machine \<times> 'w \<Rightarrow> ev_result \<times> 'w ev_power_actor_ctx \<times> 'w" where
  "prepare_and_sleep host_build duration_us sleep_armed st =
     (let (ctx, sm, w) = ev_power_actor_step host_build EV_POWER_ACTION_LOG_FLUSH_COMPLETE EV_OK EV_POWER_SLEEP_REJECT_NONE st;
          (rc, w) = (case sp_prepare_for_sleep (the (po_system_port ctx)) of
                       None \<Rightarrow> (EV_OK, w) | Some prepare \<Rightarrow> prepare duration_us w)
      in if rc \<noteq> EV_OK
         then
           let ctx = ev_power_actor_reject EV_POWER_SLEEP_REJECT_PREPARE_FAILED
                 (ctx\<lparr>po_prepare_for_sleep_failures := po_prepare_for_sleep_failures ctx + 1\<rparr>);
               (ctx, sm, w) = ev_power_actor_step host_build EV_POWER_ACTION_PORTS_PREPARE_FAILED rc
                 EV_POWER_SLEEP_REJECT_PREPARE_FAILED (ctx, sm, w);
               (ctx, w) = disarm_if sleep_armed ctx w
           in (rc, ctx, w)
         else
           enter_deep_sleep host_build duration_us sleep_armed
             (ev_power_actor_step host_build EV_POWER_ACTION_RTC_STATE_SAVED EV_OK EV_POWER_SLEEP_REJECT_NONE
               (ev_power_actor_step host_build EV_POWER_ACTION_PORTS_PREPARED EV_OK EV_POWER_SLEEP_REJECT_NONE (ctx, sm, w))))"

text \<open>From the flush of the log on, with the runtime drained.\<close>

definition flush_and_sleep ::
    "bool \<Rightarrow> u64 \<Rightarrow> bool \<Rightarrow> 'w ev_power_actor_ctx \<times> ev_power_state_machine \<times> 'w \<Rightarrow> ev_result \<times> 'w ev_power_actor_ctx \<times> 'w" where
  "flush_and_sleep host_build duration_us sleep_armed st =
     (let (ctx, sm, w) = ev_power_actor_step host_build EV_POWER_ACTION_DRAIN_COMPLETE EV_OK EV_POWER_SLEEP_REJECT_NONE st;
          (_, w) = ev_power_actor_log ctx ''System entering Deep Sleep'' w;
          (rc, w) = ev_power_actor_flush_log ctx w
      in if rc \<noteq> EV_OK
         then
           let ctx = ev_power_actor_reject EV_POWER_SLEEP_REJECT_LOG_FLUSH_FAILED
                 (ctx\<lparr>po_log_flush_failures := po_log_flush_failures ctx + 1\<rparr>);
               (ctx, sm, w) = ev_power_actor_step host_build EV_POWER_ACTION_LOG_FLUSH_FAILED rc
                 EV_POWER_SLEEP_REJECT_LOG_FLUSH_FAILED (ctx, sm, w);
               (ctx, w) = disarm_if sleep_armed ctx w
           in (rc, ctx, w)
         else prepare_and_sleep host_build duration_us sleep_armed (ctx, sm, w))"

text \<open>A sleep command with a valid duration.\<close>

definition request_sleep ::
    "bool \<Rightarrow> u32 \<Rightarrow> 'w ev_power_actor_ctx \<Rightarrow> 'w \<Rightarrow> ev_result \<times> 'w ev_power_actor_ctx \<times> 'w" where
  "request_sleep host_build duration_ms ctx w =
     (let ctx = ctx\<lparr>po_sleep_requests_seen := po_sleep_requests_seen ctx + 1\<rparr>;
          w = snd (ev_power_actor_log_smoke_marker host_build ctx ''EV_POWER_SMOKE_SLEEP_REQUEST'' w);
          duration_us = ucast duration_ms * EV_POWER_US_PER_MS;
          ctx = ctx\<lparr>po_last_duration_us := duration_us, po_last_reject_reason := EV_POWER_SLEEP_REJECT_NONE,
                    po_last_quiescence_report := zero_quiescence_report\<rparr>;
          (ctx, sm, w) = ev_power_actor_step host_build EV_POWER_ACTION_REQUEST_SLEEP EV_OK EV_POWER_SLEEP_REJECT_NONE
            (ctx, the (ev_power_state_machine_init (Some fresh_machine)), w)
      in if po_system_port ctx = None \<or> sp_deep_sleep (the (po_system_port ctx)) = None
         then
           let ctx = ev_power_actor_set_reject_reason EV_POWER_SLEEP_REJECT_UNSUPPORTED
                 (ctx\<lparr>po_sleep_requests_unsupported := po_sleep_requests_unsupported ctx + 1\<rparr>);
               (ctx, sm, w) = ev_power_actor_step host_build EV_POWER_ACTION_DRAIN_REJECTED EV_ERR_UNSUPPORTED
                 EV_POWER_SLEEP_REJECT_UNSUPPORTED (ctx, sm, w)
           in (EV_OK, ctx, w)
         else
           let (rc, sleep_armed, ctx, w) = ev_power_actor_arm_sleep ctx duration_us w
           in if rc \<noteq> EV_OK
              then
                let (ctx, sm, w) = ev_power_actor_step host_build EV_POWER_ACTION_DRAIN_REJECTED rc
                      (po_last_reject_reason ctx) (ctx, sm, w)
                in (rc, ctx, w)
              else flush_and_sleep host_build duration_us sleep_armed (ctx, sm, w))"

text \<open>\<open>mem\<close> is the memory from a payload pointer on.\<close>

definition ev_power_actor_handle ::
    "bool \<Rightarrow> (ev_payload_ref \<Rightarrow> u8 list) \<Rightarrow> 'w ev_power_actor_ctx option \<Rightarrow> ev_msg option \<Rightarrow> 'w
       \<Rightarrow> ev_result \<times> 'w ev_power_actor_ctx option \<times> 'w" where
  "ev_power_actor_handle host_build mem actor_context msg w =
     (if actor_context = None \<or> msg = None then (EV_ERR_INVALID_ARG, actor_context, w)
      else
        let ctx = the actor_context
        in if msg_event_id (the msg) \<noteq> EV_SYS_GOTO_SLEEP_CMD then (EV_ERR_CONTRACT, Some ctx, w)
           else case ev_msg_payload_data msg of
               None \<Rightarrow> (EV_ERR_CONTRACT, Some (ev_power_actor_reject EV_POWER_SLEEP_REJECT_BAD_PAYLOAD
                          (ctx\<lparr>po_bad_payload_failures := po_bad_payload_failures ctx + 1\<rparr>)), w)
             | Some payload \<Rightarrow>
                 if ev_msg_payload_size msg \<noteq> 4
                 then (EV_ERR_CONTRACT, Some (ev_power_actor_reject EV_POWER_SLEEP_REJECT_BAD_PAYLOAD
                         (ctx\<lparr>po_bad_payload_failures := po_bad_payload_failures ctx + 1\<rparr>)), w)
                 else
                   let duration_ms = le32_at (mem payload) 0
                   in if duration_ms = 0 \<or> EV_POWER_MAX_SLEEP_DURATION_MS < duration_ms
                      then (EV_ERR_OUT_OF_RANGE, Some (ev_power_actor_reject EV_POWER_SLEEP_REJECT_BAD_DURATION
                              (ctx\<lparr>po_bad_duration_failures := po_bad_duration_failures ctx + 1\<rparr>)), w)
                      else let (rc, ctx, w) = request_sleep host_build duration_ms ctx w in (rc, Some ctx, w))"

section \<open>The calls of a sleep request\<close>

text \<open>The calls the actor makes on its way to sleep; the gate is the arming callback, or else the guard.\<close>

datatype sleep_call = Gate | Flush | Prepare | Deep_sleep | Cancel | Disarm

text \<open>
  The calls a request makes when call \<open>c\<close> answers \<open>ans c\<close>: each stage is reached only if the one before answered
  \<open>EV_OK\<close>, a failing deep sleep is cancelled, and an armed sleep is disarmed at the end, whatever happened.
\<close>

definition disarm_trace :: "'w ev_power_actor_ctx \<Rightarrow> bool \<Rightarrow> sleep_call list" where
  "disarm_trace ctx armed = (if armed \<and> po_sleep_disarm ctx \<noteq> None then [Disarm] else [])"

definition deep_trace :: "'w ev_power_actor_ctx \<Rightarrow> bool \<Rightarrow> (sleep_call \<Rightarrow> ev_result) \<Rightarrow> sleep_call list" where
  "deep_trace ctx armed ans = Deep_sleep #
     (if ans Deep_sleep \<noteq> EV_OK \<and> sp_cancel_sleep_prepare (the (po_system_port ctx)) \<noteq> None then [Cancel] else [])
     @ disarm_trace ctx armed"

definition prepare_trace :: "'w ev_power_actor_ctx \<Rightarrow> bool \<Rightarrow> (sleep_call \<Rightarrow> ev_result) \<Rightarrow> sleep_call list" where
  "prepare_trace ctx armed ans =
     (if sp_prepare_for_sleep (the (po_system_port ctx)) = None then deep_trace ctx armed ans
      else Prepare # (if ans Prepare \<noteq> EV_OK then disarm_trace ctx armed else deep_trace ctx armed ans))"

definition flush_trace :: "'w ev_power_actor_ctx \<Rightarrow> bool \<Rightarrow> (sleep_call \<Rightarrow> ev_result) \<Rightarrow> sleep_call list" where
  "flush_trace ctx armed ans =
     (if po_log_port ctx = None \<or> lp_flush (the (po_log_port ctx)) = None then prepare_trace ctx armed ans
      else Flush # (if ans Flush \<noteq> EV_OK then disarm_trace ctx armed else prepare_trace ctx armed ans))"

definition sleep_trace :: "'w ev_power_actor_ctx \<Rightarrow> (sleep_call \<Rightarrow> ev_result) \<Rightarrow> sleep_call list" where
  "sleep_trace ctx ans =
     (let armed = (po_sleep_arm ctx \<noteq> None)
      in if \<not> armed \<and> po_quiescence_guard ctx = None then flush_trace ctx armed ans
         else Gate # (if ans Gate \<noteq> EV_OK then [] else flush_trace ctx armed ans))"

text \<open>The call that ends a request early, the result code and the state of the power machine at the end.\<close>

definition refused_at :: "sleep_call list \<Rightarrow> (sleep_call \<Rightarrow> ev_result) \<Rightarrow> sleep_call option" where
  "refused_at cs ans = find (\<lambda>c. c \<in> {Gate, Flush, Prepare, Deep_sleep} \<and> ans c \<noteq> EV_OK) cs"

definition request_result :: "sleep_call list \<Rightarrow> (sleep_call \<Rightarrow> ev_result) \<Rightarrow> ev_result" where
  "request_result cs ans = (case refused_at cs ans of None \<Rightarrow> EV_OK | Some c \<Rightarrow> ans c)"

definition request_state :: "sleep_call list \<Rightarrow> (sleep_call \<Rightarrow> ev_result) \<Rightarrow> ev_power_state" where
  "request_state cs ans =
     (case refused_at cs ans of None \<Rightarrow> EV_POWER_STATE_ENTERING_DEEP_SLEEP
      | Some c \<Rightarrow> if c = Gate then EV_POWER_STATE_REJECTED else EV_POWER_STATE_FAILED)"

text \<open>\<open>log\<close> is the log of the calls in the state: each callback adds its own entry, and writing log messages adds none.\<close>

definition logs :: "('w \<Rightarrow> (sleep_call \<times> ev_result) list) \<Rightarrow> sleep_call \<Rightarrow> ('w \<Rightarrow> ev_result \<times> 'w) \<Rightarrow> bool" where
  "logs log c f \<longleftrightarrow> (\<forall>w. log (snd (f w)) = log w @ [(c, fst (f w))])"

definition calls_logged :: "('w \<Rightarrow> (sleep_call \<times> ev_result) list) \<Rightarrow> 'w ev_power_actor_ctx \<Rightarrow> bool" where
  "calls_logged log ctx \<longleftrightarrow>
     (\<forall>p. po_log_port ctx = Some p \<longrightarrow>
        (\<forall>f. lp_write p = Some f \<longrightarrow> (\<forall>t m w. log (snd (f t m w)) = log w)) \<and> (\<forall>f. lp_flush p = Some f \<longrightarrow> logs log Flush f))
     \<and> (\<forall>p. po_system_port ctx = Some p \<longrightarrow>
        (\<forall>f. sp_prepare_for_sleep p = Some f \<longrightarrow> (\<forall>d. logs log Prepare (f d)))
        \<and> (\<forall>f. sp_cancel_sleep_prepare p = Some f \<longrightarrow> logs log Cancel f)
        \<and> (\<forall>f. sp_deep_sleep p = Some f \<longrightarrow> (\<forall>d. logs log Deep_sleep (f d))))
     \<and> (\<forall>f. po_sleep_arm ctx = Some f \<or> po_sleep_arm ctx = None \<and> po_quiescence_guard ctx = Some f \<longrightarrow>
          (\<forall>d r w. log (snd (snd (f d r w))) = log w @ [(Gate, fst (f d r w))]))
     \<and> (\<forall>f. po_sleep_disarm ctx = Some f \<longrightarrow> logs log Disarm f)"

definition same_ports :: "'w ev_power_actor_ctx \<Rightarrow> 'w ev_power_actor_ctx \<Rightarrow> bool" where
  "same_ports c c' \<longleftrightarrow> po_system_port c' = po_system_port c \<and> po_log_port c' = po_log_port c
     \<and> po_quiescence_guard c' = po_quiescence_guard c \<and> po_sleep_arm c' = po_sleep_arm c \<and> po_sleep_disarm c' = po_sleep_disarm c"

lemma same_ports_refl [simp]: "same_ports c c"
  by (simp add: same_ports_def)

lemma same_ports_trans: "same_ports a b \<Longrightarrow> same_ports b c \<Longrightarrow> same_ports a c"
  by (simp add: same_ports_def)

lemma same_ports_traces:
  assumes "same_ports c c'"
  shows "disarm_trace c' armed = disarm_trace c armed" "deep_trace c' armed ans = deep_trace c armed ans"
    "prepare_trace c' armed ans = prepare_trace c armed ans" "flush_trace c' armed ans = flush_trace c armed ans"
    "sleep_trace c' ans = sleep_trace c ans" "calls_logged log c' = calls_logged log c"
  using assms
  by (simp_all add: same_ports_def disarm_trace_def deep_trace_def prepare_trace_def flush_trace_def sleep_trace_def
      calls_logged_def Let_def)

lemma log_silent: "calls_logged log ctx \<Longrightarrow> log (snd (ev_power_actor_log ctx message w)) = log w"
  by (auto simp: ev_power_actor_log_def calls_logged_def split: option.split)

lemma marker_silent: "calls_logged log ctx \<Longrightarrow> log (snd (ev_power_actor_log_smoke_marker host ctx message w)) = log w"
  by (simp add: ev_power_actor_log_smoke_marker_def log_silent)

lemma step_effect:
  assumes "ev_power_actor_step host a r re (ctx, sm, w) = (ctx', sm', w')" and "calls_logged log ctx"
    and "ev_power_transition_allowed (ps_state sm) a = Some st"
  shows "same_ports ctx ctx' \<and> log w' = log w \<and> ps_state sm' = st \<and> po_last_state ctx' = st"
proof -
  have m: "log (ev_power_actor_log_state_marker host c st w) = log w" if "same_ports ctx c" for c
    using marker_silent [of log c] assms(2) same_ports_traces(6) [OF that] by (simp add: ev_power_actor_log_state_marker_def)
  obtain x where x: "ctx' = ev_power_actor_record_transition x ctx" "sm' = x" "ps_state x = st"
    "w' = ev_power_actor_log_state_marker host ctx' (ps_state x) w"
    using assms(1,3) by (auto simp: ev_power_actor_step_def ev_power_state_machine_step_def Let_def)
  have "same_ports ctx ctx'" "po_last_state ctx' = st"
    using x(3) by (simp_all add: x(1) same_ports_def ev_power_actor_record_transition_def)
  then show ?thesis using x m by simp
qed

lemma disarm_effect:
  assumes "disarm_if armed ctx w = (ctx', w')" and "calls_logged log ctx"
  shows "same_ports ctx ctx' \<and> po_last_state ctx' = po_last_state ctx
     \<and> (\<exists>r. log w' = log w @ map (\<lambda>c. (c, r)) (disarm_trace ctx armed))"
  using assms
  by (auto simp: disarm_if_def ev_power_actor_disarm_sleep_def disarm_trace_def same_ports_def calls_logged_def logs_def Let_def
      split: option.splits prod.splits if_splits) (metis fst_conv snd_conv)+

lemma refused_simps [simp]:
  "refused_at (Gate # cs) ans = (if ans Gate \<noteq> EV_OK then Some Gate else refused_at cs ans)"
  "refused_at (Flush # cs) ans = (if ans Flush \<noteq> EV_OK then Some Flush else refused_at cs ans)"
  "refused_at (Prepare # cs) ans = (if ans Prepare \<noteq> EV_OK then Some Prepare else refused_at cs ans)"
  "refused_at (Deep_sleep # cs) ans = (if ans Deep_sleep \<noteq> EV_OK then Some Deep_sleep else refused_at cs ans)"
  "refused_at (Cancel # cs) ans = refused_at cs ans" "refused_at (Disarm # cs) ans = refused_at cs ans" "refused_at [] ans = None"
  by (simp_all add: refused_at_def)

lemma refused_disarm [simp]: "refused_at (disarm_trace ctx armed) ans = None"
  by (simp add: disarm_trace_def)

text \<open>A stage: it makes the calls its answers dictate.\<close>

definition stage_done ::
    "('w \<Rightarrow> (sleep_call \<times> ev_result) list) \<Rightarrow> 'w ev_power_actor_ctx \<Rightarrow> 'w \<Rightarrow> ((sleep_call \<Rightarrow> ev_result) \<Rightarrow> sleep_call list)
       \<Rightarrow> ev_result \<Rightarrow> 'w ev_power_actor_ctx \<Rightarrow> 'w \<Rightarrow> bool" where
  "stage_done log ctx w trace rc ctx' w' \<longleftrightarrow> same_ports ctx ctx' \<and>
     (\<exists>ans. log w' = log w @ map (\<lambda>c. (c, ans c)) (trace ans) \<and> rc = request_result (trace ans) ans
        \<and> po_last_state ctx' = request_state (trace ans) ans)"

lemma stage_doneI:
  assumes "same_ports ctx ctx'" and "log w' = log w @ map (\<lambda>c. (c, ans c)) (trace ans)"
    and "rc = request_result (trace ans) ans" and "po_last_state ctx' = request_state (trace ans) ans"
  shows "stage_done log ctx w trace rc ctx' w'"
  using assms unfolding stage_done_def by blast

lemma enter_effect:
  assumes run: "enter_deep_sleep host d armed (ctx, sm, w) = (rc, ctx', w')" and L: "calls_logged log ctx"
    and port: "po_system_port ctx = Some p" "sp_deep_sleep p = Some f" and st: "ps_state sm = EV_POWER_STATE_RTC_STATE_SAVED"
  shows "stage_done log ctx w (deep_trace ctx armed) rc ctx' w'"
proof -
  let ?c = "ctx\<lparr>po_sleep_requests_accepted := po_sleep_requests_accepted ctx + 1\<rparr>"
  let ?w = "snd (ev_power_actor_log_smoke_marker host ?c ''EV_POWER_SMOKE_DEEP_SLEEP_ENTER'' w)"
  have c: "same_ports ctx ?c" by (simp add: same_ports_def)
  have lw: "log ?w = log w" using marker_silent [of log ?c] same_ports_traces(6) [OF c] L by blast
  obtain r w1 where ds: "f d ?w = (r, w1)" by (rule prod.exhaust)
  have l1: "log w1 = log w @ [(Deep_sleep, r)]" 
  proof -
    have "logs log Deep_sleep (f d)" using L port unfolding calls_logged_def by blast
    then have "log (snd (f d ?w)) = log ?w @ [(Deep_sleep, fst (f d ?w))]" unfolding logs_def by blast
    then show ?thesis unfolding ds lw fst_conv snd_conv .
  qed
  show ?thesis
  proof (cases "r = EV_OK")
    case True
    obtain c2 s2 w2 where t: "ev_power_actor_step host EV_POWER_ACTION_DEEP_SLEEP_ENTERED EV_OK EV_POWER_SLEEP_REJECT_NONE (?c, sm, w1)
        = (c2, s2, w2)" by (rule prod_cases3)
    obtain c3 w3 where dis: "disarm_if armed c2 w2 = (c3, w3)" by (rule prod.exhaust)
    have T: "same_ports ?c c2" "log w2 = log w1" "po_last_state c2 = EV_POWER_STATE_ENTERING_DEEP_SLEEP"
      using step_effect [OF t, of log] same_ports_traces(6) [OF c, of log] L st by auto
    have c2: "same_ports ctx c2" by (rule same_ports_trans [OF c T(1)])
    obtain rd where D: "same_ports c2 c3" "po_last_state c3 = po_last_state c2" "log w3 = log w2 @ map (\<lambda>c. (c, rd)) (disarm_trace ctx armed)"
      using disarm_effect [OF dis, of log] same_ports_traces(1,6) [OF c2] L by auto
    have eq: "rc = EV_OK" "ctx' = c3" "w' = w3" using run port ds True t dis by (simp_all add: enter_deep_sleep_def Let_def)
    let ?ans = "\<lambda>c. if c = Disarm then rd else EV_OK"
    have "log w' = log w @ map (\<lambda>c. (c, ?ans c)) (deep_trace ctx armed ?ans)"
      using D(3) T(2) l1 eq True by (simp add: deep_trace_def disarm_trace_def)
    moreover have "rc = request_result (deep_trace ctx armed ?ans) ?ans" "po_last_state ctx' = request_state (deep_trace ctx armed ?ans) ?ans"
      using eq D(2) T(3) by (simp_all add: deep_trace_def request_result_def request_state_def)
    moreover have "same_ports ctx ctx'" using same_ports_trans [OF c2 D(1)] eq by simp
    ultimately show ?thesis by (intro stage_doneI [where ans = ?ans])
  next
    case False
    let ?c1 = "ev_power_actor_set_reject_reason EV_POWER_SLEEP_REJECT_DEEP_SLEEP_FAILED
       (?c\<lparr>po_deep_sleep_failures := po_deep_sleep_failures ?c + 1\<rparr>)"
    have c1: "same_ports ctx ?c1" by (simp add: same_ports_def ev_power_actor_set_reject_reason_def)
    obtain c2 s2 w2 where t: "ev_power_actor_step host EV_POWER_ACTION_DEEP_SLEEP_FAILED r EV_POWER_SLEEP_REJECT_DEEP_SLEEP_FAILED
        (?c1, sm, w1) = (c2, s2, w2)" by (rule prod_cases3)
    obtain rx wx where cancel: "ev_power_actor_cancel_platform_sleep_prepare c2 w2 = (rx, wx)" by (rule prod.exhaust)
    obtain c3 w3 where dis: "disarm_if armed c2 wx = (c3, w3)" by (rule prod.exhaust)
    have T: "same_ports ?c1 c2" "log w2 = log w1" "po_last_state c2 = EV_POWER_STATE_FAILED"
      using step_effect [OF t, of log] same_ports_traces(6) [OF c1, of log] L st by auto
    have c2: "same_ports ctx c2" by (rule same_ports_trans [OF c1 T(1)])
    have X: "log wx = log w2 @ (if sp_cancel_sleep_prepare p = None then [] else [(Cancel, rx)])"

    proof (cases "sp_cancel_sleep_prepare p")
      case None
      then show ?thesis using cancel c2 port by (auto simp: ev_power_actor_cancel_platform_sleep_prepare_def same_ports_def)
    next
      case (Some g)
      have "logs log Cancel g" using L port Some unfolding calls_logged_def by blast
      then have "log (snd (g w2)) = log w2 @ [(Cancel, fst (g w2))]" unfolding logs_def by blast
      moreover have "g w2 = (rx, wx)" using cancel c2 port Some by (auto simp: ev_power_actor_cancel_platform_sleep_prepare_def same_ports_def)
      ultimately show ?thesis using Some by simp
    qed
    obtain rd where D: "same_ports c2 c3" "po_last_state c3 = po_last_state c2" "log w3 = log wx @ map (\<lambda>c. (c, rd)) (disarm_trace ctx armed)"
      using disarm_effect [OF dis, of log] same_ports_traces(1,6) [OF c2] L by auto
    have eq: "rc = r" "ctx' = c3" "w' = w3"
      using run port ds False t cancel dis by (simp_all add: enter_deep_sleep_def Let_def)
    let ?ans = "\<lambda>c. if c = Disarm then rd else if c = Cancel then rx else r"
    have "log w' = log w @ map (\<lambda>c. (c, ?ans c)) (deep_trace ctx armed ?ans)"
      using D(3) X T(2) l1 eq False port by (simp add: deep_trace_def disarm_trace_def)
    moreover have "rc = request_result (deep_trace ctx armed ?ans) ?ans" "po_last_state ctx' = request_state (deep_trace ctx armed ?ans) ?ans"
      using eq D(2) T(3) False by (simp_all add: deep_trace_def request_result_def request_state_def)
    moreover have "same_ports ctx ctx'" using same_ports_trans [OF c2 D(1)] eq by simp
    ultimately show ?thesis by (intro stage_doneI [where ans = ?ans])
  qed
qed

text \<open>A call in front of a stage that went on.\<close>

lemma stage_after_call:
  assumes st: "stage_done log c w1 (rest c) rc ctx' w'" and c: "same_ports ctx c" "rest c = rest ctx"
    and l: "log w1 = log w @ [(call, EV_OK)]" and call: "call \<in> {Gate, Flush, Prepare}"
    and indep: "\<And>ans. rest ctx (ans(call := EV_OK)) = rest ctx ans" and fresh: "\<And>ans. call \<notin> set (rest ctx ans)"
    and tr: "\<And>ans. ans call = EV_OK \<Longrightarrow> trace ans = call # rest ctx ans"
  shows "stage_done log ctx w trace rc ctx' w'"
proof -
  obtain ans where A: "log w' = log w1 @ map (\<lambda>c. (c, ans c)) (rest ctx ans)" "rc = request_result (rest ctx ans) ans"
    "po_last_state ctx' = request_state (rest ctx ans) ans" "same_ports c ctx'"
    using st c(2) unfolding stage_done_def by auto
  let ?a = "ans(call := EV_OK)"
  have t: "trace ?a = call # rest ctx ans" using tr [of ?a] indep by simp
  have ref: "refused_at (rest ctx ans) ?a = refused_at (rest ctx ans) ans"
    unfolding refused_at_def by (rule find_cong) (use fresh in auto)
  have "refused_at (trace ?a) ?a = refused_at (rest ctx ans) ans" using t ref call by auto
  moreover have "refused_at (rest ctx ans) ans = Some x \<Longrightarrow> x \<noteq> call" for x
    using fresh unfolding refused_at_def by (metis find_Some_iff nth_mem)
  ultimately have "request_result (trace ?a) ?a = rc" "request_state (trace ?a) ?a = po_last_state ctx'"
    using A(2,3) by (auto simp: request_result_def request_state_def split: option.splits)
  moreover have "log w' = log w @ map (\<lambda>c. (c, ?a c)) (trace ?a)"
    using A(1) l t fresh by (auto intro!: map_cong)
  ultimately show ?thesis using same_ports_trans [OF c(1) A(4)] by (intro stage_doneI [where ans = ?a]) auto
qed

text \<open>A stage that fails at its call and disarms.\<close>

lemma stage_refused:
  assumes dis: "disarm_if armed c2 w2 = (ctx', w')" and c2: "same_ports ctx c2" and L: "calls_logged log ctx"
    and l: "log w2 = log w @ [(call, r)]" "r \<noteq> EV_OK" and call: "call \<in> {Flush, Prepare}"
    and st: "po_last_state c2 = EV_POWER_STATE_FAILED"
    and tr: "\<And>ans. ans call \<noteq> EV_OK \<Longrightarrow> trace ans = call # disarm_trace ctx armed"
  shows "stage_done log ctx w trace r ctx' w'"
proof -
  obtain rd where D: "same_ports c2 ctx'" "po_last_state ctx' = po_last_state c2"
    "log w' = log w2 @ map (\<lambda>c. (c, rd)) (disarm_trace ctx armed)"
    using disarm_effect [OF dis, of log] same_ports_traces(1,6) [OF c2] L by auto
  let ?ans = "\<lambda>c. if c = Disarm then rd else r"
  have t: "trace ?ans = call # disarm_trace ctx armed" by (rule tr) (use call l(2) in auto)
  have "log w' = log w @ map (\<lambda>c. (c, ?ans c)) (trace ?ans)"
    using D(3) l t call by (auto simp: disarm_trace_def)
  moreover have "r = request_result (trace ?ans) ?ans" "po_last_state ctx' = request_state (trace ?ans) ?ans"
    using D(2) st t l(2) call by (auto simp: request_result_def request_state_def)
  ultimately show ?thesis using same_ports_trans [OF c2 D(1)] by (intro stage_doneI [where ans = ?ans])
qed

lemma trace_updates [simp]:
  "deep_trace ctx armed (ans(Prepare := r)) = deep_trace ctx armed ans"
  "prepare_trace ctx armed (ans(Flush := r)) = prepare_trace ctx armed ans"
  "flush_trace ctx armed (ans(Gate := r)) = flush_trace ctx armed ans"
  "Prepare \<notin> set (deep_trace ctx armed ans)" "Flush \<notin> set (prepare_trace ctx armed ans)"
  "Gate \<notin> set (flush_trace ctx armed ans)"
  by (auto simp: deep_trace_def prepare_trace_def flush_trace_def disarm_trace_def)

lemma stage_same: "stage_done log c w1 trace rc ctx' w' \<Longrightarrow> same_ports ctx c \<Longrightarrow> log w1 = log w \<Longrightarrow> stage_done log ctx w trace rc ctx' w'"
  unfolding stage_done_def using same_ports_trans by metis

lemma prepare_effect:
  assumes run: "prepare_and_sleep host d armed (ctx, sm, w) = (rc, ctx', w')" and L: "calls_logged log ctx"
    and port: "po_system_port ctx = Some p" "sp_deep_sleep p = Some f" and st: "ps_state sm = EV_POWER_STATE_DRAINING_RUNTIME"
  shows "stage_done log ctx w (prepare_trace ctx armed) rc ctx' w'"
proof -
  obtain c1 m1 w1 where t: "ev_power_actor_step host EV_POWER_ACTION_LOG_FLUSH_COMPLETE EV_OK EV_POWER_SLEEP_REJECT_NONE (ctx, sm, w)
      = (c1, m1, w1)" by (rule prod_cases3)
  have T: "same_ports ctx c1" "log w1 = log w" "ps_state m1 = EV_POWER_STATE_LOG_FLUSHING"
    using step_effect [OF t L] st by auto
  have p1: "po_system_port c1 = Some p" using T(1) port by (simp add: same_ports_def)
  have L1: "calls_logged log c1" using same_ports_traces(6) [OF T(1)] L by blast
  have go: "stage_done log c1 w2 (deep_trace ctx armed) rc ctx' w'"
    if e: "enter_deep_sleep host d armed (ev_power_actor_step host EV_POWER_ACTION_RTC_STATE_SAVED EV_OK EV_POWER_SLEEP_REJECT_NONE
        (ev_power_actor_step host EV_POWER_ACTION_PORTS_PREPARED EV_OK EV_POWER_SLEEP_REJECT_NONE (c1, m1, w2))) = (rc, ctx', w')" for w2
  proof -
    obtain c3 m3 w3 where a: "ev_power_actor_step host EV_POWER_ACTION_PORTS_PREPARED EV_OK EV_POWER_SLEEP_REJECT_NONE (c1, m1, w2)
        = (c3, m3, w3)" by (rule prod_cases3)
    obtain c4 m4 w4 where b: "ev_power_actor_step host EV_POWER_ACTION_RTC_STATE_SAVED EV_OK EV_POWER_SLEEP_REJECT_NONE (c3, m3, w3)
        = (c4, m4, w4)" by (rule prod_cases3)
    have A: "same_ports c1 c3" "log w3 = log w2" "ps_state m3 = EV_POWER_STATE_PORTS_PREPARE_SLEEP"
      using step_effect [OF a L1] T(3) by auto
    have L3: "calls_logged log c3" using same_ports_traces(6) [OF A(1)] L1 by blast
    have B: "same_ports c3 c4" "log w4 = log w3" "ps_state m4 = EV_POWER_STATE_RTC_STATE_SAVED"
      using step_effect [OF b L3] A(3) by auto
    have c4: "same_ports c1 c4" by (rule same_ports_trans [OF A(1) B(1)])
    have L4: "calls_logged log c4" and p4: "po_system_port c4 = Some p"
      using same_ports_traces(6) [OF c4] L1 p1 c4 by (simp_all add: same_ports_def)
    have "stage_done log c4 w4 (deep_trace c4 armed) rc ctx' w'"
      using enter_effect [OF _ L4 p4 port(2) B(3)] e a b by simp
    then have "stage_done log c4 w4 (deep_trace ctx armed) rc ctx' w'"
      using same_ports_traces(2) [OF same_ports_trans [OF T(1) c4]] by (simp add: stage_done_def)
    then show ?thesis using stage_same [OF _ c4] A(2) B(2) by simp
  qed
  show ?thesis
  proof (cases "sp_prepare_for_sleep p")
    case None
    then have "stage_done log c1 w1 (deep_trace ctx armed) rc ctx' w'"
      by (intro go) (use run t p1 in \<open>simp add: prepare_and_sleep_def Let_def\<close>)
    moreover have "prepare_trace ctx armed = deep_trace ctx armed" by (rule ext) (simp add: prepare_trace_def port None)
    ultimately show ?thesis using stage_same [OF _ T(1)] T(2) by simp
  next
    case (Some g)
    obtain r w2 where pr: "g d w1 = (r, w2)" by (rule prod.exhaust)
    have "logs log Prepare (g d)" using L port Some unfolding calls_logged_def by blast
    then have l2: "log w2 = log w @ [(Prepare, r)]" using pr T(2) unfolding logs_def by (metis fst_conv snd_conv)
    show ?thesis
    proof (cases "r = EV_OK")
      case True
      have "stage_done log c1 w2 (deep_trace ctx armed) rc ctx' w'"
        by (intro go) (use run t p1 Some pr True in \<open>simp add: prepare_and_sleep_def Let_def\<close>)
      moreover have dt: "deep_trace c1 armed = deep_trace ctx armed" by (rule ext) (rule same_ports_traces(2) [OF T(1)])
      ultimately have "stage_done log c1 w2 (deep_trace c1 armed) rc ctx' w'" by simp
      then show ?thesis
        by (rule stage_after_call [where call = Prepare and rest = "\<lambda>c. deep_trace c armed", OF _ T(1) dt])
          (simp_all add: l2 True prepare_trace_def port Some)
    next
      case False
      let ?c = "ev_power_actor_reject EV_POWER_SLEEP_REJECT_PREPARE_FAILED
         (c1\<lparr>po_prepare_for_sleep_failures := po_prepare_for_sleep_failures c1 + 1\<rparr>)"
      have c: "same_ports c1 ?c" by (simp add: same_ports_def ev_power_actor_reject_def ev_power_actor_set_reject_reason_def)
      obtain c3 m3 w3 where a: "ev_power_actor_step host EV_POWER_ACTION_PORTS_PREPARE_FAILED r EV_POWER_SLEEP_REJECT_PREPARE_FAILED
          (?c, m1, w2) = (c3, m3, w3)" by (rule prod_cases3)
      obtain c4 w4 where dis: "disarm_if armed c3 w3 = (c4, w4)" by (rule prod.exhaust)
      have A: "same_ports ?c c3" "log w3 = log w2" "po_last_state c3 = EV_POWER_STATE_FAILED"
        using step_effect [OF a, of log] same_ports_traces(6) [OF c, of log] L1 T(3) by auto
      have eq: "rc = r" "ctx' = c4" "w' = w4" using run t p1 Some pr False a dis by (simp_all add: prepare_and_sleep_def Let_def)
      have c3: "same_ports ctx c3" using T(1) c A(1) same_ports_trans by blast
      show ?thesis
        unfolding eq by (rule stage_refused [OF dis c3 L _ False, where call = Prepare])
          (use l2 A in \<open>simp_all add: prepare_trace_def port Some\<close>)
    qed
  qed
qed

lemma flush_effect:
  assumes run: "flush_and_sleep host d armed (ctx, sm, w) = (rc, ctx', w')" and L: "calls_logged log ctx"
    and port: "po_system_port ctx = Some p" "sp_deep_sleep p = Some f" and st: "ps_state sm = EV_POWER_STATE_SLEEP_REQUESTED"
  shows "stage_done log ctx w (flush_trace ctx armed) rc ctx' w'"
proof -
  obtain c1 m1 w0 where t: "ev_power_actor_step host EV_POWER_ACTION_DRAIN_COMPLETE EV_OK EV_POWER_SLEEP_REJECT_NONE (ctx, sm, w)
      = (c1, m1, w0)" by (rule prod_cases3)
  obtain rl w1 where msg: "ev_power_actor_log c1 ''System entering Deep Sleep'' w0 = (rl, w1)" by (rule prod.exhaust)
  have T: "same_ports ctx c1" "log w0 = log w" "ps_state m1 = EV_POWER_STATE_DRAINING_RUNTIME"
    using step_effect [OF t L] st by auto
  have p1: "po_system_port c1 = Some p" using T(1) port by (simp add: same_ports_def)
  have L1: "calls_logged log c1" using same_ports_traces(6) [OF T(1)] L by blast
  have l1: "log w1 = log w" using log_silent [OF L1, of "''System entering Deep Sleep''" w0] msg T(2) by simp
  have pt: "prepare_trace c1 armed = prepare_trace ctx armed" by (rule ext) (rule same_ports_traces(3) [OF T(1)])
  show ?thesis
  proof (cases "po_log_port ctx = None \<or> lp_flush (the (po_log_port ctx)) = None")
    case True
    then have "ev_power_actor_flush_log c1 w1 = (EV_OK, w1)"
      using T(1) by (auto simp: ev_power_actor_flush_log_def same_ports_def split: option.split)
    then have "prepare_and_sleep host d armed (c1, m1, w1) = (rc, ctx', w')"
      using run t msg by (simp add: flush_and_sleep_def Let_def)
    from prepare_effect [OF this L1 p1 port(2) T(3)] have "stage_done log c1 w1 (prepare_trace ctx armed) rc ctx' w'"
      by (simp add: pt)
    moreover have "flush_trace ctx armed = prepare_trace ctx armed" by (rule ext) (use True in \<open>simp add: flush_trace_def\<close>)
    ultimately show ?thesis using stage_same [OF _ T(1) l1] by simp
  next
    case False
    then obtain q g where q: "po_log_port ctx = Some q" "lp_flush q = Some g" by auto
    obtain r w2 where fl: "g w1 = (r, w2)" by (rule prod.exhaust)
    have fl1: "ev_power_actor_flush_log c1 w1 = (r, w2)" using q fl T(1) by (simp add: ev_power_actor_flush_log_def same_ports_def)
    have "logs log Flush g" using L q unfolding calls_logged_def by blast
    then have l2: "log w2 = log w @ [(Flush, r)]" using fl l1 unfolding logs_def by (metis fst_conv snd_conv)
    show ?thesis
    proof (cases "r = EV_OK")
      case True
      then have "prepare_and_sleep host d armed (c1, m1, w2) = (rc, ctx', w')"
        using run t msg fl1 by (simp add: flush_and_sleep_def Let_def)
      from prepare_effect [OF this L1 p1 port(2) T(3)]
      have "stage_done log c1 w2 (prepare_trace c1 armed) rc ctx' w'" .
      then show ?thesis
        by (rule stage_after_call [where call = Flush and rest = "\<lambda>c. prepare_trace c armed", OF _ T(1) pt])
          (simp_all add: l2 True flush_trace_def q)
    next
      case bad: False
      let ?c = "ev_power_actor_reject EV_POWER_SLEEP_REJECT_LOG_FLUSH_FAILED
         (c1\<lparr>po_log_flush_failures := po_log_flush_failures c1 + 1\<rparr>)"
      have c: "same_ports c1 ?c" by (simp add: same_ports_def ev_power_actor_reject_def ev_power_actor_set_reject_reason_def)
      obtain c3 m3 w3 where a: "ev_power_actor_step host EV_POWER_ACTION_LOG_FLUSH_FAILED r EV_POWER_SLEEP_REJECT_LOG_FLUSH_FAILED
          (?c, m1, w2) = (c3, m3, w3)" by (rule prod_cases3)
      obtain c4 w4 where dis: "disarm_if armed c3 w3 = (c4, w4)" by (rule prod.exhaust)
      have A: "same_ports ?c c3" "log w3 = log w2" "po_last_state c3 = EV_POWER_STATE_FAILED"
        using step_effect [OF a, of log] same_ports_traces(6) [OF c, of log] L1 T(3) by auto
      have eq: "rc = r" "ctx' = c4" "w' = w4" using run t msg fl1 bad a dis by (simp_all add: flush_and_sleep_def Let_def)
      have c3: "same_ports ctx c3" using T(1) c A(1) same_ports_trans by blast
      show ?thesis
        unfolding eq by (rule stage_refused [OF dis c3 L _ bad, where call = Flush])
          (use l2 A in \<open>simp_all add: flush_trace_def q\<close>)
    qed
  qed
qed

lemma reject_ports: "same_ports c (ev_power_actor_reject r c)" "same_ports c (c\<lparr>po_last_quiescence_report := q\<rparr>)"
  "same_ports c (c\<lparr>po_sleep_quiescence_failures := n\<rparr>)" "same_ports c (c\<lparr>po_sleep_arming_failures := n\<rparr>)"
  by (simp_all add: same_ports_def ev_power_actor_reject_def ev_power_actor_set_reject_reason_def)

text \<open>The gate: the arming callback, or the guard.\<close>

lemma gate_effect:
  assumes run: "ev_power_actor_arm_sleep ctx d w = (rc, armed, ctx', w')" and L: "calls_logged log ctx"
  shows "same_ports ctx ctx' \<and> (rc = EV_OK \<longrightarrow> armed = (po_sleep_arm ctx \<noteq> None))
     \<and> (if po_sleep_arm ctx = None \<and> po_quiescence_guard ctx = None then rc = EV_OK \<and> log w' = log w
        else log w' = log w @ [(Gate, rc)])"
proof (cases "po_sleep_arm ctx")
  case None
  show ?thesis
  proof (cases "po_quiescence_guard ctx")
    case None
    then show ?thesis using run \<open>po_sleep_arm ctx = None\<close>
      by (auto simp: ev_power_actor_arm_sleep_def ev_power_actor_run_quiescence_guard_def)
  next
    case (Some g)
    obtain r q w1 where g: "g d zero_quiescence_report w = (r, q, w1)" by (rule prod_cases3)
    have "log (snd (snd (g d zero_quiescence_report w))) = log w @ [(Gate, fst (g d zero_quiescence_report w))]"
      using L Some None unfolding calls_logged_def by blast
    then have "log w1 = log w @ [(Gate, r)]" by (simp add: g)
    then show ?thesis using run Some None g
      by (auto simp: ev_power_actor_arm_sleep_def ev_power_actor_run_quiescence_guard_def same_ports_def
          ev_power_actor_reject_def ev_power_actor_set_reject_reason_def Let_def split: if_splits)
  qed
next
  case (Some g)
  obtain r q w1 where g: "g d zero_quiescence_report w = (r, q, w1)" by (rule prod_cases3)
  have "log (snd (snd (g d zero_quiescence_report w))) = log w @ [(Gate, fst (g d zero_quiescence_report w))]"
    using L Some unfolding calls_logged_def by blast
  then have "log w1 = log w @ [(Gate, r)]" by (simp add: g)
  then show ?thesis using run Some g
    by (auto simp: ev_power_actor_arm_sleep_def same_ports_def ev_power_actor_reject_def ev_power_actor_set_reject_reason_def
        Let_def split: if_splits)
qed

lemma request_effect:
  assumes run: "request_sleep host ms ctx w = (rc, ctx', w')" and L: "calls_logged log ctx"
    and port: "po_system_port ctx = Some p" "sp_deep_sleep p = Some f"
  shows "stage_done log ctx w (sleep_trace ctx) rc ctx' w'"
proof -
  let ?c0 = "ctx\<lparr>po_sleep_requests_seen := po_sleep_requests_seen ctx + 1\<rparr>"
  let ?w0 = "snd (ev_power_actor_log_smoke_marker host ?c0 ''EV_POWER_SMOKE_SLEEP_REQUEST'' w)"
  let ?d = "ucast ms * EV_POWER_US_PER_MS"
  let ?c1 = "?c0\<lparr>po_last_duration_us := ?d, po_last_reject_reason := EV_POWER_SLEEP_REJECT_NONE,
                    po_last_quiescence_report := zero_quiescence_report\<rparr>"
  have c0: "same_ports ctx ?c0" and c1: "same_ports ctx ?c1" by (simp_all add: same_ports_def)
  have l0: "log ?w0 = log w" using marker_silent [of log ?c0] same_ports_traces(6) [OF c0] L by blast
  obtain c2 m2 w2 where t: "ev_power_actor_step host EV_POWER_ACTION_REQUEST_SLEEP EV_OK EV_POWER_SLEEP_REJECT_NONE
      (?c1, fresh_machine, ?w0) = (c2, m2, w2)" by (rule prod_cases3)
  have T: "same_ports ?c1 c2" "log w2 = log ?w0" "ps_state m2 = EV_POWER_STATE_SLEEP_REQUESTED"
    using step_effect [OF t, of log] same_ports_traces(6) [OF c1, of log] L by (auto simp: fresh_machine_def)
  have c2: "same_ports ctx c2" by (rule same_ports_trans [OF c1 T(1)])
  have L2: "calls_logged log c2" using same_ports_traces(6) [OF c2] L by blast
  obtain rg armed c3 w3 where g: "ev_power_actor_arm_sleep c2 ?d w2 = (rg, armed, c3, w3)" by (rule prod_cases4)
  note G = gate_effect [OF g L2]
  have c3: "same_ports ctx c3" using same_ports_trans [OF c2] G by blast
  have L3: "calls_logged log c3" and p3: "po_system_port c3 = Some p"
    using same_ports_traces(6) [OF c3] L c3 port by (simp_all add: same_ports_def)
  have cfg: "po_sleep_arm c2 = po_sleep_arm ctx" "po_quiescence_guard c2 = po_quiescence_guard ctx" "po_system_port c2 = Some p"
    using c2 port by (simp_all add: same_ports_def)
  let ?arm = "po_sleep_arm ctx \<noteq> None"
  have ft: "flush_trace c3 ?arm = flush_trace ctx ?arm" by (rule ext) (rule same_ports_traces(4) [OF c3])
  show ?thesis
  proof (cases "rg = EV_OK")
    case True
    then have "flush_and_sleep host ?d armed (c3, m2, w3) = (rc, ctx', w')"
      using run t g cfg port by (simp add: request_sleep_def init_fresh Let_def)
    from flush_effect [OF this L3 p3 port(2) T(3)] have F: "stage_done log c3 w3 (flush_trace c3 ?arm) rc ctx' w'"
      using G True cfg by simp
    show ?thesis
    proof (cases "po_sleep_arm ctx = None \<and> po_quiescence_guard ctx = None")
      case none: True
      then have "sleep_trace ctx = flush_trace ctx ?arm" by (intro ext) (simp add: sleep_trace_def Let_def)
      moreover have "log w3 = log w" using G none cfg T(2) l0 by simp
      ultimately show ?thesis using stage_same [OF F c3] ft by simp
    next
      case False
      then have l3: "log w3 = log w @ [(Gate, EV_OK)]" using G True cfg T(2) l0 by auto
      show ?thesis
        by (rule stage_after_call [where call = Gate and rest = "\<lambda>c. flush_trace c ?arm", OF F c3 ft l3])
          (use False in \<open>auto simp: sleep_trace_def Let_def\<close>)
    qed
  next
    case False
    obtain c4 m4 w4 where a: "ev_power_actor_step host EV_POWER_ACTION_DRAIN_REJECTED rg (po_last_reject_reason c3) (c3, m2, w3)
        = (c4, m4, w4)" by (rule prod_cases3)
    have A: "same_ports c3 c4" "log w4 = log w3" "po_last_state c4 = EV_POWER_STATE_REJECTED"
      using step_effect [OF a L3] T(3) by auto
    have eq: "rc = rg" "ctx' = c4" "w' = w4"
      using run t g cfg port False a by (simp_all add: request_sleep_def init_fresh Let_def)
    have cfg': "\<not> (po_sleep_arm ctx = None \<and> po_quiescence_guard ctx = None)" using G False cfg by (auto split: if_splits)
    have tr: "sleep_trace ctx (\<lambda>c. rg) = [Gate]" using cfg' False by (auto simp: sleep_trace_def Let_def)
    show ?thesis unfolding eq
    proof (rule stage_doneI [where ans = "\<lambda>c. rg"])
      show "same_ports ctx c4" by (rule same_ports_trans [OF c3 A(1)])
      show "log w4 = log w @ map (\<lambda>c. (c, rg)) (sleep_trace ctx (\<lambda>c. rg))"
        using G cfg cfg' A(2) T(2) l0 by (auto simp: tr)
      show "rg = request_result (sleep_trace ctx (\<lambda>c. rg)) (\<lambda>c. rg)"
        "po_last_state c4 = request_state (sleep_trace ctx (\<lambda>c. rg)) (\<lambda>c. rg)"
        using False A(3) by (simp_all add: tr request_result_def request_state_def)
    qed
  qed
qed

text \<open>
  C15: a sleep command with a valid duration, on a platform that can sleep deeply, makes exactly the calls that
  their answers dictate: the gate (arming, or the guard), the flush of the log, the preparation of the platform
  and the deep sleep, each only after all before it answered \<open>EV_OK\<close>; a deep sleep that fails is cancelled; and
  a sleep that was armed is disarmed once, at the end, on every path. The command's result is the first answer
  other than \<open>EV_OK\<close>, and the state the actor records is entering deep sleep, rejected or failed accordingly.
\<close>

theorem sleep_request_calls:
  assumes L: "calls_logged log ctx" and port: "po_system_port ctx = Some p" "sp_deep_sleep p = Some f"
    and msg: "msg_event_id m = EV_SYS_GOTO_SLEEP_CMD" "ev_msg_payload_data (Some m) = Some r" "msg_payload_size m = 4"
    and dur: "0 < le32_at (mem r) 0" "le32_at (mem r) 0 \<le> EV_POWER_MAX_SLEEP_DURATION_MS"
    and run: "ev_power_actor_handle host mem (Some ctx) (Some m) w = (rc, Some ctx', w')"
  shows "\<exists>ans. log w' = log w @ map (\<lambda>c. (c, ans c)) (sleep_trace ctx ans)
     \<and> rc = request_result (sleep_trace ctx ans) ans \<and> po_last_state ctx' = request_state (sleep_trace ctx ans) ans"
proof -
  have ok: "le32_at (mem r) 0 \<noteq> 0" "\<not> EV_POWER_MAX_SLEEP_DURATION_MS < le32_at (mem r) 0" using dur by (auto simp: not_less)
  obtain rc1 c1 w1 where q: "request_sleep host (le32_at (mem r) 0) ctx w = (rc1, c1, w1)" by (rule prod_cases3)
  have "rc = rc1" "ctx' = c1" "w' = w1"
    using run msg q ok by (simp_all add: ev_power_actor_handle_def ev_msg_payload_size_def Let_def)
  then show ?thesis using request_effect [OF q L port] unfolding stage_done_def by blast
qed

section \<open>A sleep whose preparation fails\<close>

text \<open>The state is the log itself.\<close>

definition demo_call :: "sleep_call \<Rightarrow> ev_result \<Rightarrow> (sleep_call \<times> ev_result) list \<Rightarrow> ev_result \<times> (sleep_call \<times> ev_result) list" where
  "demo_call c r w = (r, w @ [(c, r)])"

definition blank_power_ctx :: "(sleep_call \<times> ev_result) list ev_power_actor_ctx" where
  "blank_power_ctx = \<lparr>po_system_port = None, po_log_port = None, po_log_tag = None,
        po_quiescence_guard = None, po_sleep_arm = None, po_sleep_disarm = None, po_sleep_requests_seen = 0,
        po_sleep_requests_accepted = 0, po_sleep_requests_unsupported = 0, po_sleep_requests_rejected = 0,
        po_prepare_for_sleep_failures = 0, po_sleep_quiescence_failures = 0, po_sleep_arming_failures = 0,
        po_sleep_disarm_calls = 0, po_sleep_disarm_failures = 0, po_transition_count = 0,
        po_last_state = EV_POWER_STATE_ACTIVE, po_previous_state = EV_POWER_STATE_ACTIVE,
        po_last_transition_action = EV_POWER_ACTION_WAKE_BOOT, po_last_transition_error = EV_OK,
        po_last_transition_reason = 0, po_log_flush_failures = 0, po_deep_sleep_failures = 0,
        po_bad_payload_failures = 0, po_bad_duration_failures = 0, po_last_duration_us = 0,
        po_last_reject_reason = EV_POWER_SLEEP_REJECT_NONE, po_last_quiescence_report = zero_quiescence_report\<rparr>"

definition demo_power_ctx :: "(sleep_call \<times> ev_result) list ev_power_actor_ctx" where
  "demo_power_ctx = (the (snd (ev_power_actor_init (Some blank_power_ctx)
      (Some \<lparr>sp_prepare_for_sleep = Some (\<lambda>d. demo_call Prepare EV_ERR_STATE), sp_cancel_sleep_prepare = Some (demo_call Cancel EV_OK),
         sp_deep_sleep = Some (\<lambda>d. demo_call Deep_sleep EV_OK)\<rparr>)
      (Some \<lparr>lp_write = None, lp_flush = Some (demo_call Flush EV_OK)\<rparr>) None)))\<lparr>
      po_sleep_arm := Some (\<lambda>d r w. (EV_OK, r, w @ [(Gate, EV_OK)])), po_sleep_disarm := Some (demo_call Disarm EV_OK)\<rparr>"

definition demo_sleep_msg :: ev_msg where
  "demo_sleep_msg = inline_msg EV_SYS_GOTO_SLEEP_CMD ACT_COMMAND (le32_bytes 5000)"

definition inline_memory :: "ev_payload_ref \<Rightarrow> u8 list" where
  "inline_memory r = (case r of Inline_bytes b \<Rightarrow> b | External_at a \<Rightarrow> [])"

lemma demo_sleep_run:
  "ev_power_actor_handle True inline_memory (Some demo_power_ctx) (Some demo_sleep_msg) [] =
     (EV_ERR_STATE, Some (the (fst (snd (ev_power_actor_handle True inline_memory (Some demo_power_ctx) (Some demo_sleep_msg) [])))),
      [(Gate, EV_OK), (Flush, EV_OK), (Prepare, EV_ERR_STATE), (Disarm, EV_OK)])"
proof -
  let ?x = "ev_power_actor_handle True inline_memory (Some demo_power_ctx) (Some demo_sleep_msg) []"
  have "fst ?x = EV_ERR_STATE" "snd (snd ?x) = [(Gate, EV_OK), (Flush, EV_OK), (Prepare, EV_ERR_STATE), (Disarm, EV_OK)]"
    "fst (snd ?x) \<noteq> None" by code_simp+
  then show ?thesis by (metis option.collapse prod.collapse)
qed

theorem sleep_request_calls_witness:
  "\<exists>ans. [(Gate, EV_OK), (Flush, EV_OK), (Prepare, EV_ERR_STATE), (Disarm, EV_OK)] =
        [] @ map (\<lambda>c. (c, ans c)) (sleep_trace demo_power_ctx ans)
     \<and> EV_ERR_STATE = request_result (sleep_trace demo_power_ctx ans) ans
     \<and> po_last_state (the (fst (snd (ev_power_actor_handle True inline_memory (Some demo_power_ctx) (Some demo_sleep_msg) []))))
         = request_state (sleep_trace demo_power_ctx ans) ans"
proof (rule sleep_request_calls [OF _ _ _ _ _ _ _ _ demo_sleep_run, where log = "\<lambda>w. w"])
  show "calls_logged (\<lambda>w. w) demo_power_ctx"
    by (simp add: calls_logged_def logs_def demo_power_ctx_def ev_power_actor_init_def demo_call_def)
  show "po_system_port demo_power_ctx = Some \<lparr>sp_prepare_for_sleep = Some (\<lambda>d. demo_call Prepare EV_ERR_STATE),
      sp_cancel_sleep_prepare = Some (demo_call Cancel EV_OK), sp_deep_sleep = Some (\<lambda>d. demo_call Deep_sleep EV_OK)\<rparr>"
    by (simp add: demo_power_ctx_def ev_power_actor_init_def)
  show "sp_deep_sleep \<lparr>sp_prepare_for_sleep = Some (\<lambda>d. demo_call Prepare EV_ERR_STATE),
      sp_cancel_sleep_prepare = Some (demo_call Cancel EV_OK), sp_deep_sleep = Some (\<lambda>d. demo_call Deep_sleep EV_OK)\<rparr>
      = Some (\<lambda>d. demo_call Deep_sleep EV_OK)" by simp
  show "msg_event_id demo_sleep_msg = EV_SYS_GOTO_SLEEP_CMD" "msg_payload_size demo_sleep_msg = 4"
    by (simp_all add: demo_sleep_msg_def inline_msg_def zero_msg_def)
  show "ev_msg_payload_data (Some demo_sleep_msg) = Some (Inline_bytes (le32_bytes 5000 @ drop 4 zero_inline))"
    by (simp add: demo_sleep_msg_def inline_msg_def ev_msg_payload_data_def)
  show "0 < le32_at (inline_memory (Inline_bytes (le32_bytes 5000 @ drop 4 zero_inline))) 0"
    "le32_at (inline_memory (Inline_bytes (le32_bytes 5000 @ drop 4 zero_inline))) 0 \<le> EV_POWER_MAX_SLEEP_DURATION_MS"
    by (simp_all add: inline_memory_def)
qed

end
