(* ===== verification/EvDeviceIo.thy ===== *)
theory EvDeviceIo
  imports EvActorMsg
begin

text \<open>
  What the device actors of \<open>actors/device/\<close> share: the bus contracts they drive (\<open>ports/include/ev/port_i2c.h\<close>,
  \<open>port_onewire.h\<close>, \<open>port_irq.h\<close>), whose implementations are parameters that act on the world \<open>'w\<close>, the
  little-endian fields of their payloads, and the publication steps each actor's file repeats.
\<close>

section \<open>Bus contracts\<close>

datatype ev_i2c_status = EV_I2C_OK | EV_I2C_ERR_TIMEOUT | EV_I2C_ERR_NACK | EV_I2C_ERR_BUS_LOCKED

datatype ev_onewire_status = EV_ONEWIRE_OK | EV_ONEWIRE_ERR_NO_DEVICE | EV_ONEWIRE_ERR_BUS

type_synonym ev_i2c_port_num = u8

text \<open>A read returns the bytes that end up in the caller's buffer; reads get its length and its old content.\<close>

record 'w ev_i2c_port =
  i2_ctx :: ptr
  i2_write_stream :: "(ev_i2c_port_num \<Rightarrow> u8 \<Rightarrow> u8 list \<Rightarrow> 'w \<Rightarrow> ev_i2c_status \<times> 'w) option"
  i2_read_stream :: "(ev_i2c_port_num \<Rightarrow> u8 \<Rightarrow> u8 list \<Rightarrow> 'w \<Rightarrow> ev_i2c_status \<times> u8 list \<times> 'w) option"
  i2_write_regs :: "(ev_i2c_port_num \<Rightarrow> u8 \<Rightarrow> u8 \<Rightarrow> u8 list \<Rightarrow> 'w \<Rightarrow> ev_i2c_status \<times> 'w) option"
  i2_read_regs :: "(ev_i2c_port_num \<Rightarrow> u8 \<Rightarrow> u8 \<Rightarrow> u8 list \<Rightarrow> 'w \<Rightarrow> ev_i2c_status \<times> u8 list \<times> 'w) option"

record 'w ev_onewire_port =
  ow_ctx :: ptr
  ow_reset :: "('w \<Rightarrow> ev_onewire_status \<times> 'w) option"
  ow_write_byte :: "(u8 \<Rightarrow> 'w \<Rightarrow> ev_onewire_status \<times> 'w) option"
  ow_read_byte :: "(u8 \<Rightarrow> 'w \<Rightarrow> ev_onewire_status \<times> u8 \<times> 'w) option"

type_synonym ev_irq_line_id = u8

abbreviation EV_IRQ_EDGE_RISING :: u8 where "EV_IRQ_EDGE_RISING \<equiv> 1"
abbreviation EV_IRQ_EDGE_FALLING :: u8 where "EV_IRQ_EDGE_FALLING \<equiv> 2"

record 'w ev_irq_port =
  iq_enable :: "(ev_irq_line_id \<Rightarrow> bool \<Rightarrow> 'w \<Rightarrow> ev_result \<times> 'w) option"

section \<open>Payload fields\<close>

text \<open>Signed 16-bit integers are words that \<open>sint\<close> reads.\<close>

type_synonym i16 = "16 word"

definition le16_bytes :: "u16 \<Rightarrow> u8 list" where
  "le16_bytes x = [ucast x, ucast (drop_bit 8 x)]"

lemma length_le16_bytes [simp]: "length (le16_bytes x) = 2"
  by (simp add: le16_bytes_def)

definition le16_at :: "u8 list \<Rightarrow> nat \<Rightarrow> u16" where
  "le16_at b i = ucast (b ! i) OR push_bit 8 (ucast (b ! (i + 1)))"

lemma le16_bytes_roundtrip [simp]: "le16_at (le16_bytes x @ bs) 0 = x"
proof (rule bit_word_eqI)
  fix n assume "n < LENGTH(16)"
  then show "bit (le16_at (le16_bytes x @ bs) 0) n = bit x n"
    by (cases "n < 8") (auto simp: le16_at_def le16_bytes_def bit_simps)
qed

text \<open>A memory that holds the messages' own payloads only.\<close>

definition message_memory :: "ev_payload_ref \<Rightarrow> u8 list" where
  "message_memory r = (case r of Inline_bytes b \<Rightarrow> b | External_at a \<Rightarrow> [])"

section \<open>Publishing\<close>

text \<open>An envelope without a payload.\<close>

definition build_empty ::
    "ev_event_id \<Rightarrow> ev_actor_id \<Rightarrow> 'w \<Rightarrow> ev_result \<times> ev_msg \<times> 'w" where
  "build_empty event_id source w =
     (let (rc, pm) = ev_msg_init_publish (Some zero_msg) event_id source in (rc, the pm, w))"

text \<open>Publishing an envelope that was built, and disposing it on every path.\<close>

definition publish_built ::
    "'w ev_lifecycle \<Rightarrow> 'w ev_delivery_fn option \<Rightarrow> ev_result \<times> ev_msg \<times> 'w \<Rightarrow> ev_result \<times> 'w" where
  "publish_built lc deliver built =
     (let (rc, m, w) = built;
          (rc, w) = (if rc = EV_OK then let (rc, n, w) = ev_publish (Some m) deliver w in (rc, w) else (rc, w));
          (dispose_rc, _, w) = ev_msg_dispose lc (Some m) w
      in (if rc = EV_OK \<and> dispose_rc \<noteq> EV_OK then dispose_rc else rc, w))"

definition empty_msg :: "ev_event_id \<Rightarrow> ev_actor_id \<Rightarrow> ev_msg" where
  "empty_msg event_id source =
     zero_msg\<lparr>msg_cookie := EV_MSG_COOKIE, msg_event_id := event_id, msg_source_actor := source,
       msg_target_actor := EV_ACTOR_NONE\<rparr>"

text \<open>The publication of a message: its result and the world after it.\<close>

definition published :: "'w ev_delivery_fn option \<Rightarrow> ev_msg \<Rightarrow> 'w \<Rightarrow> ev_result \<times> 'w" where
  "published deliver m w = (let (rc, n, w) = ev_publish (Some m) deliver w in (rc, w))"

lemma dispose_empty [simp]:
  "fst (ev_msg_dispose lc (Some (empty_msg e a)) w) = EV_OK"
  "snd (snd (ev_msg_dispose lc (Some (empty_msg e a)) w)) = w"
  by (simp_all add: ev_msg_dispose_def empty_msg_def ev_msg_is_disposed_def ev_msg_has_cookie_def call_release_def zero_msg_def)

lemma build_empty_eq:
  assumes "ev_event_id_is_valid e" and "ev_actor_id_is_valid a"
  shows "build_empty e a w = (EV_OK, empty_msg e a, w)"
  using assms by (simp add: build_empty_def ev_msg_init_publish_def ev_msg_reset_def empty_msg_def zero_msg_def Let_def)

lemma publish_inline_built:
  assumes "inline_event e" and "ev_actor_id_is_valid a" and "0 < length payload" and "length payload \<le> 24"
  shows "publish_built lc deliver (build_inline lc e a payload w) = published deliver (inline_msg e a payload) w"
  by (auto simp: publish_built_def build_inline_eq [OF assms] published_def Let_def split: prod.splits)
    (metis dispose_inline fst_conv snd_conv)+

lemma publish_empty_built:
  assumes "ev_event_id_is_valid e" and "ev_actor_id_is_valid a"
  shows "publish_built lc deliver (build_empty e a w) = published deliver (empty_msg e a) w"
  by (auto simp: publish_built_def build_empty_eq [OF assms] published_def Let_def split: prod.splits)
    (metis dispose_empty fst_conv snd_conv)+

text \<open>A publication keeps what each delivery keeps.\<close>

lemma publish_loop_keeps:
  assumes "\<And>t m w. K w \<Longrightarrow> K (snd (d t m w))"
  shows "K s \<Longrightarrow> K (snd (snd (publish_loop d m policy i n rep s)))"
proof (induction n arbitrary: i rep s)
  case (Suc n)
  have "K (snd (d t m s))" for t by (rule assms [OF Suc.prems])
  then show ?case
    by (auto simp: Let_def Suc.IH Suc.prems split: prod.splits option.splits) (metis Suc.IH snd_conv)+
qed simp

lemma published_keeps:
  assumes K: "\<And>t m w. K w \<Longrightarrow> K (snd (d t m w))" and w: "K w"
  shows "K (snd (published (Some d) m w))"
proof -
  have "K (snd (snd (ev_publish_ex (Some m) (Some d) EV_PUBLISH_FAIL_FAST w)))"
    using w publish_loop_keeps [of K d, OF K] by (auto simp: ev_publish_ex_def Let_def split: prod.splits option.splits) (metis snd_conv)+
  then show ?thesis by (auto simp: published_def ev_publish_def Let_def split: prod.splits)
qed

text \<open>A publication with one route is one delivery.\<close>

lemma published_to_one:
  assumes "ev_msg_validate (Some m) = EV_OK" and "msg_target_actor m = EV_ACTOR_NONE"
    and "targets_of_event (msg_event_id m) = [t]"
  shows "published (Some d) m w = d t m w"
proof -
  obtain rc w' where d: "d t m w = (rc, w')" by fastforce
  have "fan_out d EV_PUBLISH_FAIL_FAST (targets_of_event (msg_event_id m)) m w = ([(t, rc)], w')"
    using assms(3) d by simp
  from publish_loop_complete [OF assms(1,2) _ this] show ?thesis
    using assms(3) d by (auto simp: published_def ev_publish_def publish_result_def Let_def split: if_splits)
qed

text \<open>The events and the sources of the device actors.\<close>

lemma device_events [simp]:
  "inline_event EV_TEMP_UPDATED" "inline_event EV_LIGHT_UPDATED" "inline_event EV_TIME_UPDATED"
  "inline_event EV_MCP23008_INPUT_CHANGED" "inline_event EV_BUTTON_EVENT"
  "ev_event_id_is_valid EV_DS18B20_READY" "ev_event_id_is_valid EV_BH1750_READY" "ev_event_id_is_valid EV_RTC_READY"
  "ev_event_id_is_valid EV_MCP23008_READY"
  "ev_actor_id_is_valid ACT_DS18B20" "ev_actor_id_is_valid ACT_BH1750" "ev_actor_id_is_valid ACT_RTC"
  "ev_actor_id_is_valid ACT_MCP23008" "ev_actor_id_is_valid ACT_PANEL"
  by code_simp+

text \<open>Their ready messages carry no payload and are valid all the same.\<close>

lemma ready_messages_valid:
  "ev_msg_validate (Some (empty_msg EV_DS18B20_READY ACT_DS18B20)) = EV_OK"
  "ev_msg_validate (Some (empty_msg EV_BH1750_READY ACT_BH1750)) = EV_OK"
  "ev_msg_validate (Some (empty_msg EV_RTC_READY ACT_RTC)) = EV_OK"
  "ev_msg_validate (Some (empty_msg EV_MCP23008_READY ACT_MCP23008)) = EV_OK"
  by code_simp+

section \<open>Waiting on the 100 ms ticks\<close>

text \<open>The 100 ms ticks among some messages.\<close>

definition ticks_100ms :: "ev_msg list \<Rightarrow> nat" where
  "ticks_100ms ms = length (filter (\<lambda>m. msg_event_id m = EV_TICK_100MS) ms)"

lemma ticks_100ms_simps [simp]:
  "ticks_100ms [] = 0" "ticks_100ms (ms @ ms') = ticks_100ms ms + ticks_100ms ms'"
  by (simp_all add: ticks_100ms_def)

lemma ticks_100ms_single:
  "msg_event_id m = EV_TICK_100MS \<Longrightarrow> ticks_100ms [m] = 1" "msg_event_id m \<noteq> EV_TICK_100MS \<Longrightarrow> ticks_100ms [m] = 0"
  by (simp_all add: ticks_100ms_def)

definition no_boot :: "ev_msg list \<Rightarrow> bool" where
  "no_boot ms \<longleftrightarrow> (\<forall>m \<in> set ms. msg_event_id m \<noteq> EV_BOOT_COMPLETED)"

lemma no_boot_snoc [simp]: "no_boot (ms @ [m]) \<longleftrightarrow> no_boot ms \<and> msg_event_id m \<noteq> EV_BOOT_COMPLETED"
  by (auto simp: no_boot_def)

text \<open>
  The comparison of a wrapping millisecond clock with a deadline that the actors share: a time less than half the
  range away is due exactly when it is not in the future.
\<close>

lemma deadline_due_iff:
  assumes "a < 2 ^ 31" and "b < 2 ^ 31"
  shows "0 \<le> sint (s + of_nat a - (s + of_nat b) :: u32) \<longleftrightarrow> b \<le> a"
proof -
  have "s + of_nat a - (s + of_nat b) = (word_of_int (int a - int b) :: u32)" by simp
  then have "sint (s + of_nat a - (s + of_nat b)) = int a - int b"
    using assms by (simp only: signed_of_int) (simp add: signed_take_bit_int_eq_self)
  then show ?thesis by simp
qed

lemma unat_u16: "unat (x :: u16) < 65536"
  using unsigned_less [of x, where ?'a = nat] by simp

text \<open>
  The contract of an actor that waits for a deadline: after \<open>k\<close> of the ticks it waits for, no message but a boot
  makes it act, as long as the ticks do not add up to the \<open>d\<close> milliseconds it waits.
\<close>

locale deadline_wait =
  fixes step :: "'c \<times> 'w \<Rightarrow> ev_msg \<Rightarrow> 'c \<times> 'w"
    and waiting :: "nat \<Rightarrow> nat \<Rightarrow> 'c \<Rightarrow> bool"
  assumes waits: "waiting d k c \<Longrightarrow> msg_event_id m \<noteq> EV_BOOT_COMPLETED \<Longrightarrow> 100 * (k + ticks_100ms [m]) < d
    \<Longrightarrow> \<exists>c'. step (c, w) m = (c', w) \<and> waiting d (k + ticks_100ms [m]) c'"
begin

lemma run_waits:
  assumes "waiting d 0 c" and "no_boot ms" and "100 * ticks_100ms ms < d"
  shows "\<exists>c'. foldl step (c, w) ms = (c', w) \<and> waiting d (ticks_100ms ms) c'"
  using assms
proof (induction ms rule: rev_induct)
  case (snoc m ms)
  then have "100 * ticks_100ms ms < d" "no_boot ms" "msg_event_id m \<noteq> EV_BOOT_COMPLETED" by auto
  then show ?case using snoc waits [of d "ticks_100ms ms" _ m w] by fastforce
qed auto

end

end
