(* ===== verification/EvDs18b20Driver.thy ===== *)
theory EvDs18b20Driver
  imports EvDeviceIo "HOL-Library.Signed_Division"
begin

text \<open>
  The DS18B20 temperature sensor driver (\<open>drivers/src/ev_ds18b20_driver.c\<close>): the two 1-Wire transactions, the
  check sum of the scratchpad and its decoding. A scratchpad with one or two flipped bits is refused; a reading
  is the register's temperature to the nearest hundredth of a degree.
\<close>

unbundle bit_operations_syntax


abbreviation EV_DS18B20_SCRATCHPAD_BYTES :: nat where "EV_DS18B20_SCRATCHPAD_BYTES \<equiv> 9"
abbreviation EV_DS18B20_DEFAULT_RESOLUTION_BITS :: u8 where "EV_DS18B20_DEFAULT_RESOLUTION_BITS \<equiv> 12"
abbreviation EV_DS18B20_CMD_SKIP_ROM :: u8 where "EV_DS18B20_CMD_SKIP_ROM \<equiv> 0xCC"
abbreviation EV_DS18B20_CMD_CONVERT_T :: u8 where "EV_DS18B20_CMD_CONVERT_T \<equiv> 0x44"
abbreviation EV_DS18B20_CMD_READ_SCRATCHPAD :: u8 where "EV_DS18B20_CMD_READ_SCRATCHPAD \<equiv> 0xBE"
abbreviation EV_DS18B20_CFG_RESOLUTION_MASK :: u8 where "EV_DS18B20_CFG_RESOLUTION_MASK \<equiv> 0x60"
abbreviation EV_DS18B20_CFG_9BIT :: u8 where "EV_DS18B20_CFG_9BIT \<equiv> 0x00"
abbreviation EV_DS18B20_CFG_10BIT :: u8 where "EV_DS18B20_CFG_10BIT \<equiv> 0x20"
abbreviation EV_DS18B20_CFG_11BIT :: u8 where "EV_DS18B20_CFG_11BIT \<equiv> 0x40"
abbreviation EV_DS18B20_CRC_POLY :: u8 where "EV_DS18B20_CRC_POLY \<equiv> 0x8C"

record ev_ds18b20_measurement =
  dm_centi_celsius :: i16
  dm_resolution_bits :: u8

section \<open>Operations\<close>

fun ev_ds18b20_map_onewire_status :: "ev_onewire_status \<Rightarrow> ev_result" where
  "ev_ds18b20_map_onewire_status EV_ONEWIRE_OK = EV_OK"
| "ev_ds18b20_map_onewire_status EV_ONEWIRE_ERR_NO_DEVICE = EV_ERR_NOT_FOUND"
| "ev_ds18b20_map_onewire_status EV_ONEWIRE_ERR_BUS = EV_ERR_STATE"

definition ev_ds18b20_port_is_valid :: "'w ev_onewire_port option \<Rightarrow> ev_result" where
  "ev_ds18b20_port_is_valid port =
     (case port of None \<Rightarrow> EV_ERR_INVALID_ARG
      | Some p \<Rightarrow> if ow_ctx p = None \<or> ow_reset p = None \<or> ow_write_byte p = None \<or> ow_read_byte p = None
                  then EV_ERR_INVALID_ARG else EV_OK)"

text \<open>The inner loop over the bits of a byte, and the outer one over the bytes.\<close>

primrec crc8_bits :: "nat \<Rightarrow> u8 \<Rightarrow> u8 \<Rightarrow> u8" where
  "crc8_bits 0 crc current = crc"
| "crc8_bits (Suc n) crc current =
     (let mix = (crc XOR current) AND 0x01;
          crc = drop_bit 1 crc;
          crc = (if mix \<noteq> 0 then crc XOR EV_DS18B20_CRC_POLY else crc)
      in crc8_bits n crc (drop_bit 1 current))"

primrec crc8_loop :: "u8 list \<Rightarrow> u8 \<Rightarrow> u8" where
  "crc8_loop [] crc = crc"
| "crc8_loop (b # bs) crc = crc8_loop bs (crc8_bits 8 crc b)"

definition ev_ds18b20_crc8 :: "u8 list option \<Rightarrow> u8" where
  "ev_ds18b20_crc8 data = (case data of None \<Rightarrow> 0 | Some bs \<Rightarrow> crc8_loop bs 0)"

definition ev_ds18b20_conversion_time_ms :: "u8 \<Rightarrow> u16" where
  "ev_ds18b20_conversion_time_ms resolution_bits =
     (if resolution_bits = 9 then 94 else if resolution_bits = 10 then 188
      else if resolution_bits = 11 then 375 else if resolution_bits = 12 then 750 else 750)"

definition ev_ds18b20_start_conversion_skip_rom :: "'w ev_onewire_port option \<Rightarrow> 'w \<Rightarrow> ev_result \<times> 'w" where
  "ev_ds18b20_start_conversion_skip_rom port w =
     (let rc = ev_ds18b20_port_is_valid port
      in if rc \<noteq> EV_OK then (rc, w)
         else
           let p = the port; (status, w) = the (ow_reset p) w
           in if status \<noteq> EV_ONEWIRE_OK then (ev_ds18b20_map_onewire_status status, w)
              else
                let (status, w) = the (ow_write_byte p) EV_DS18B20_CMD_SKIP_ROM w
                in if status \<noteq> EV_ONEWIRE_OK then (ev_ds18b20_map_onewire_status status, w)
                   else
                     let (status, w) = the (ow_write_byte p) EV_DS18B20_CMD_CONVERT_T w
                     in (ev_ds18b20_map_onewire_status status, w))"

definition ev_ds18b20_validate_scratchpad :: "u8 list option \<Rightarrow> ev_result" where
  "ev_ds18b20_validate_scratchpad scratchpad =
     (case scratchpad of None \<Rightarrow> EV_ERR_INVALID_ARG
      | Some s \<Rightarrow>
          if ev_ds18b20_crc8 (Some (take (EV_DS18B20_SCRATCHPAD_BYTES - 1) s)) \<noteq> s ! (EV_DS18B20_SCRATCHPAD_BYTES - 1)
          then EV_ERR_CONTRACT else EV_OK)"

text \<open>The loop that reads the bytes from \<open>i\<close> on, with \<open>n\<close> of them left.\<close>

primrec read_bytes_loop ::
    "(u8 \<Rightarrow> 'w \<Rightarrow> ev_onewire_status \<times> u8 \<times> 'w) \<Rightarrow> nat \<Rightarrow> nat \<Rightarrow> u8 list \<Rightarrow> 'w \<Rightarrow> ev_result \<times> u8 list \<times> 'w" where
  "read_bytes_loop read_byte 0 i s w = (EV_OK, s, w)"
| "read_bytes_loop read_byte (Suc n) i s w =
     (let (status, b, w) = read_byte (s ! i) w; s = s[i := b]
      in if status \<noteq> EV_ONEWIRE_OK then (ev_ds18b20_map_onewire_status status, s, w)
         else read_bytes_loop read_byte n (Suc i) s w)"

definition ev_ds18b20_read_scratchpad_skip_rom ::
    "'w ev_onewire_port option \<Rightarrow> u8 list \<Rightarrow> 'w \<Rightarrow> ev_result \<times> u8 list \<times> 'w" where
  "ev_ds18b20_read_scratchpad_skip_rom port scratchpad w =
     (let rc = ev_ds18b20_port_is_valid port
      in if rc \<noteq> EV_OK then (rc, scratchpad, w)
         else
           let p = the port; (status, w) = the (ow_reset p) w
           in if status \<noteq> EV_ONEWIRE_OK then (ev_ds18b20_map_onewire_status status, scratchpad, w)
              else
                let (status, w) = the (ow_write_byte p) EV_DS18B20_CMD_SKIP_ROM w
                in if status \<noteq> EV_ONEWIRE_OK then (ev_ds18b20_map_onewire_status status, scratchpad, w)
                   else
                     let (status, w) = the (ow_write_byte p) EV_DS18B20_CMD_READ_SCRATCHPAD w
                     in if status \<noteq> EV_ONEWIRE_OK then (ev_ds18b20_map_onewire_status status, scratchpad, w)
                        else
                          let (rc, scratchpad, w) = read_bytes_loop (the (ow_read_byte p)) EV_DS18B20_SCRATCHPAD_BYTES 0 scratchpad w
                          in if rc \<noteq> EV_OK then (rc, scratchpad, w)
                             else (ev_ds18b20_validate_scratchpad (Some scratchpad), scratchpad, w))"

text \<open>The bits below the resolution are undefined and masked out.\<close>

definition mask_resolution :: "u8 \<Rightarrow> i16 \<Rightarrow> i16 \<times> u8" where
  "mask_resolution config raw =
     (let r = config AND EV_DS18B20_CFG_RESOLUTION_MASK
      in if r = EV_DS18B20_CFG_9BIT then (raw AND NOT 0x0007, 9)
         else if r = EV_DS18B20_CFG_10BIT then (raw AND NOT 0x0003, 10)
         else if r = EV_DS18B20_CFG_11BIT then (raw AND NOT 0x0001, 11)
         else (raw, 12))"

text \<open>The scaling to hundredths of a degree, in 32-bit signed arithmetic with division towards zero.\<close>

definition scale_centi :: "i16 \<Rightarrow> i16" where
  "scale_centi raw =
     (let scaled = sint raw * 25;
          scaled = (if 0 \<le> scaled then (scaled + 2) sdiv 4 else (scaled - 2) sdiv 4)
      in word_of_int scaled)"

definition ev_ds18b20_decode_measurement :: "u8 list option \<Rightarrow> ev_ds18b20_measurement \<Rightarrow> ev_result \<times> ev_ds18b20_measurement" where
  "ev_ds18b20_decode_measurement scratchpad out =
     (case scratchpad of None \<Rightarrow> (EV_ERR_INVALID_ARG, out)
      | Some s \<Rightarrow>
          if ev_ds18b20_validate_scratchpad scratchpad \<noteq> EV_OK then (EV_ERR_CONTRACT, out)
          else
            let raw = (push_bit 8 (ucast (s ! 1)) OR ucast (s ! 0)) :: i16;
                (raw, resolution_bits) = mask_resolution (s ! 4) raw
            in (EV_OK, out\<lparr>dm_centi_celsius := scale_centi raw, dm_resolution_bits := resolution_bits\<rparr>))"

definition ev_ds18b20_decode_centi_celsius :: "u8 list option \<Rightarrow> i16 \<Rightarrow> ev_result \<times> i16" where
  "ev_ds18b20_decode_centi_celsius scratchpad out =
     (let (rc, measurement) = ev_ds18b20_decode_measurement scratchpad \<lparr>dm_centi_celsius = 0, dm_resolution_bits = 0\<rparr>
      in if rc \<noteq> EV_OK then (rc, out) else (EV_OK, dm_centi_celsius measurement))"

section \<open>The check sum is linear\<close>

lemma mix_linear:
  "((a XOR b XOR (x XOR y)) AND 1 \<noteq> (0 :: u8)) = (((a XOR x) AND 1 \<noteq> 0) \<noteq> ((b XOR y) AND 1 \<noteq> 0))"
  by (auto simp: and_one_eq mod_2_eq_odd even_xor_iff split: if_splits)

text \<open>The register after one bit.\<close>

definition crc_shift :: "u8 \<Rightarrow> u8 \<Rightarrow> u8" where
  "crc_shift crc current =
     (if (crc XOR current) AND 1 \<noteq> 0 then drop_bit 1 crc XOR EV_DS18B20_CRC_POLY else drop_bit 1 crc)"

lemma crc8_bits_Suc: "crc8_bits (Suc n) crc current = crc8_bits n (crc_shift crc current) (drop_bit 1 current)"
  by (simp add: crc_shift_def Let_def)

lemma crc_shift_linear: "crc_shift (a XOR b) (x XOR y) = crc_shift a x XOR crc_shift b y"
  using mix_linear [of a b x y]
  by (cases "(a XOR x) AND 1 = 0"; cases "(b XOR y) AND 1 = 0")
    (simp_all add: crc_shift_def drop_bit_xor ac_simps)

lemma crc8_bits_linear: "crc8_bits n (a XOR b) (x XOR y) = crc8_bits n a x XOR crc8_bits n b y"
  by (induction n arbitrary: a b x y) (simp_all only: crc8_bits_Suc crc_shift_linear drop_bit_xor crc8_bits.simps(1))

lemma crc8_loop_linear:
  "length xs = length ys \<Longrightarrow> crc8_loop (map2 (XOR) xs ys) (a XOR b) = crc8_loop xs a XOR crc8_loop ys b"
  by (induction xs ys arbitrary: a b rule: list_induct2) (simp_all add: crc8_bits_linear)

text \<open>What the check sum says of a scratchpad: zero when it fits.\<close>

definition syndrome :: "u8 list \<Rightarrow> u8" where
  "syndrome s = crc8_loop (take 8 s) 0 XOR s ! 8"

lemma syndrome_linear:
  assumes "length s = 9" and "length t = 9"
  shows "syndrome (map2 (XOR) s t) = syndrome s XOR syndrome t"
  using assms crc8_loop_linear [of "take 8 s" "take 8 t" 0 0]
  by (simp add: syndrome_def take_map take_zip xor.assoc xor.left_commute)

lemma xor_zero_iff: "a XOR b = 0 \<longleftrightarrow> a = (b :: u8)"
  by (auto simp: bit_eq_iff bit_simps)

lemma validate_syndrome: "ev_ds18b20_validate_scratchpad (Some s) = (if syndrome s = 0 then EV_OK else EV_ERR_CONTRACT)"
  by (simp add: ev_ds18b20_validate_scratchpad_def ev_ds18b20_crc8_def syndrome_def xor_zero_iff)

section \<open>Flipped bits\<close>

definition flip_at :: "nat \<Rightarrow> u8 list \<Rightarrow> u8 list" where
  "flip_at i s = s[i div 8 := s ! (i div 8) XOR push_bit (i mod 8) 1]"

definition unit_pad :: "nat \<Rightarrow> u8 list" where
  "unit_pad i = flip_at i (replicate 9 0)"

lemma flip_as_xor:
  assumes "length s = 9" and "i < 72"
  shows "flip_at i s = map2 (XOR) s (unit_pad i)"
proof -
  have "i div 8 < 9" using assms(2) by simp
  then show ?thesis
    using assms(1) by (auto simp: flip_at_def unit_pad_def nth_list_update intro!: nth_equalityI)
qed

lemma length_flips [simp]: "length (flip_at i s) = length s" "length (unit_pad i) = 9"
  by (simp_all add: flip_at_def unit_pad_def)

text \<open>
  The syndrome of a single bit: the register's contents after it ran on zeros for as many bits as followed.
  The register runs through a cycle longer than a scratchpad has bits, so the 72 syndromes differ.
\<close>

definition shift_zero :: "u8 \<Rightarrow> u8" where
  "shift_zero c = crc_shift c 0"

lemma crc8_bits_zero: "crc8_bits n c 0 = (shift_zero ^^ n) c"
proof (induction n arbitrary: c)
  case (Suc n)
  then show ?case by (simp only: crc8_bits_Suc drop_bit_of_0 funpow_Suc_right o_apply flip: shift_zero_def)
qed simp

lemma crc8_loop_zeros: "crc8_loop (replicate m 0) c = (shift_zero ^^ (8 * m)) c"
proof (induction m arbitrary: c)
  case (Suc m)
  have "crc8_loop (replicate (Suc m) 0) c = (shift_zero ^^ (8 * m)) ((shift_zero ^^ 8) c)"
    by (simp only: replicate_Suc crc8_loop.simps crc8_bits_zero Suc.IH)
  also have "\<dots> = (shift_zero ^^ (8 * m + 8)) c" by (simp only: funpow_add o_apply)
  finally show ?case by (simp only: mult_Suc_right add.commute)
qed simp

lemma crc8_one_bit: "j < n \<Longrightarrow> j < 8 \<Longrightarrow> crc8_bits n 0 (push_bit j 1) = (shift_zero ^^ (n - j)) 1"
proof (induction j arbitrary: n)
  case 0
  then obtain m where n: "n = Suc m" by (cases n) auto
  have "crc_shift 0 1 = shift_zero 1" "drop_bit 1 (1 :: u8) = 0" by (simp_all add: crc_shift_def shift_zero_def)
  then show ?case by (simp only: n push_bit_0_id id_apply crc8_bits_Suc crc8_bits_zero diff_zero funpow_Suc_right o_apply)
next
  case (Suc j)
  then obtain m where n: "n = Suc m" "j < m" by (cases n) auto
  have "push_bit (Suc j) 1 AND 1 = (0 :: u8)" by (rule bit_word_eqI) (auto simp: bit_simps)
  then have "crc_shift 0 (push_bit (Suc j) 1) = 0" by (simp only: crc_shift_def xor.left_neutral drop_bit_of_0 simp_thms if_False)
  moreover have "drop_bit 1 (push_bit (Suc j) 1 :: u8) = push_bit j 1"
    using Suc.prems(2) by (intro bit_word_eqI) (auto simp: bit_simps)
  ultimately show ?case using Suc.IH [OF n(2)] Suc.prems(2) n by (simp only: crc8_bits_Suc diff_Suc_Suc)
qed

primrec register_run :: "nat \<Rightarrow> u8 \<Rightarrow> u8 list" where
  "register_run 0 c = []"
| "register_run (Suc n) c = c # register_run n (shift_zero c)"

lemma register_run_numeral: "register_run (numeral k) c = c # register_run (pred_numeral k) (shift_zero c)"
  by (simp add: numeral_eq_Suc)

lemma register_run_nth: "i < n \<Longrightarrow> register_run n c ! i = (shift_zero ^^ i) c"
  by (induction n arbitrary: c i) (auto simp: nth_Cons funpow_swap1 split: nat.splits)

lemma length_register_run [simp]: "length (register_run n c) = n"
  by (induction n arbitrary: c) simp_all

lemma register_run_72: "register_run 72 0x80 = [
    0x80, 0x40, 0x20, 0x10, 0x08, 0x04, 0x02, 0x01, 0x8C, 0x46, 0x23, 0x9D, 0xC2, 0x61, 0xBC, 0x5E,
    0x2F, 0x9B, 0xC1, 0xEC, 0x76, 0x3B, 0x91, 0xC4, 0x62, 0x31, 0x94, 0x4A, 0x25, 0x9E, 0x4F, 0xAB,
    0xD9, 0xE0, 0x70, 0x38, 0x1C, 0x0E, 0x07, 0x8F, 0xCB, 0xE9, 0xF8, 0x7C, 0x3E, 0x1F, 0x83, 0xCD,
    0xEA, 0x75, 0xB6, 0x5B, 0xA1, 0xDC, 0x6E, 0x37, 0x97, 0xC7, 0xEF, 0xFB, 0xF1, 0xF4, 0x7A, 0x3D,
    0x92, 0x49, 0xA8, 0x54, 0x2A, 0x15, 0x86, 0x43]"
  by (simp add: register_run_numeral shift_zero_def crc_shift_def)

lemma register_run_distinct: "distinct (0 # register_run 72 0x80)"
proof -
  have "distinct (map unat (0 # register_run 72 0x80))" unfolding register_run_72 by simp
  then show ?thesis by (rule distinct_map [THEN iffD1, THEN conjunct1])
qed

lemma unit_pad_eq: "i < 72 \<Longrightarrow> unit_pad i = replicate (i div 8) 0 @ push_bit (i mod 8) 1 # replicate (8 - i div 8) 0"
  by (rule nth_equalityI) (auto simp: unit_pad_def flip_at_def nth_append nth_Cons' nth_list_update)

lemma crc8_loop_append: "crc8_loop (xs @ ys) c = crc8_loop ys (crc8_loop xs c)"
  by (induction xs arbitrary: c) simp_all

lemma unit_syndrome: 
  assumes "i < 72"
  shows "syndrome (unit_pad i) = register_run 72 0x80 ! (71 - i)"
proof -
  have z: "(shift_zero ^^ n) 0 = 0" for n
    by (induction n) (simp_all add: shift_zero_def crc_shift_def)
  have top: "push_bit (i mod 8) 1 = (shift_zero ^^ (7 - i mod 8)) (0x80 :: u8)"
  proof -
    have "list_all (\<lambda>j. push_bit j 1 = (shift_zero ^^ (7 - j)) (0x80 :: u8)) [0..<8]" by code_simp
    then show ?thesis by (simp add: list_all_iff)
  qed
  show ?thesis
  proof (cases "i div 8 = 8")
    case True
    then have "take 8 (unit_pad i) = replicate 8 0" "unit_pad i ! 8 = push_bit (i mod 8) 1"
      using assms by (simp_all add: unit_pad_eq nth_append)
    moreover have "71 - i = 7 - i mod 8" using True div_mult_mod_eq [of i 8] by linarith
    ultimately show ?thesis
      by (simp add: syndrome_def crc8_loop_zeros z register_run_nth top [simplified] del: replicate.simps)
  next
    case False
    then have k: "i div 8 \<le> 7" using assms by linarith
    have one: "(1 :: u8) = (shift_zero ^^ 7) 0x80" by code_simp
    have pad: "take 8 (unit_pad i) = replicate (i div 8) 0 @ push_bit (i mod 8) 1 # replicate (7 - i div 8) 0"
      "unit_pad i ! 8 = 0"
      using k assms by (simp_all add: unit_pad_eq nth_append take_Cons' nth_Cons')
    have "crc8_loop (take 8 (unit_pad i)) 0 = (shift_zero ^^ (8 * (7 - i div 8))) ((shift_zero ^^ (8 - i mod 8)) 1)"
      unfolding pad crc8_loop_append by (simp only: crc8_loop_zeros z crc8_loop.simps crc8_one_bit mod_less_divisor zero_less_numeral)
    also have "\<dots> = (shift_zero ^^ (8 * (7 - i div 8) + (8 - i mod 8) + 7)) 0x80"
      by (simp only: one funpow_add o_apply)
    also have "8 * (7 - i div 8) + (8 - i mod 8) + 7 = 71 - i"
    proof -
      have "i = 8 * (i div 8) + i mod 8" "i mod 8 \<le> 7" using mod_less_divisor [of 8 i] by simp_all
      then show ?thesis using k by linarith
    qed
    finally show ?thesis using pad by (simp add: syndrome_def register_run_nth)
  qed
qed

lemma unit_syndromes:
  assumes "i < 72"
  shows "syndrome (unit_pad i) \<noteq> 0" and "j < 72 \<Longrightarrow> i \<noteq> j \<Longrightarrow> syndrome (unit_pad i) \<noteq> syndrome (unit_pad j)"
proof -
  note D = register_run_distinct
  have "register_run 72 0x80 ! (71 - i) \<in> set (register_run 72 0x80)" using assms by (intro nth_mem) simp
  then show "syndrome (unit_pad i) \<noteq> 0" using D unit_syndrome [OF assms] by (metis distinct.simps(2))
  assume "j < 72" "i \<noteq> j"
  then show "syndrome (unit_pad i) \<noteq> syndrome (unit_pad j)"
    using D assms by (simp add: unit_syndrome nth_eq_iff_index_eq)
qed

text \<open>
  C27: a scratchpad that fits its check sum is refused by the decoder when one of its 72 bits, or any two of
  them, arrive flipped.
\<close>

theorem flipped_bits_refused:
  assumes s: "length s = EV_DS18B20_SCRATCHPAD_BYTES" "ev_ds18b20_validate_scratchpad (Some s) = EV_OK"
    and i: "i < 72" and j: "j < 72" and t: "t = flip_at i s \<or> t = flip_at i (flip_at j s) \<and> i \<noteq> j"
  shows "ev_ds18b20_decode_centi_celsius (Some t) out = (EV_ERR_CONTRACT, out)"
proof -
  have s0: "syndrome s = 0" using s(2) by (simp add: validate_syndrome split: if_splits)
  have one: "syndrome (flip_at k r) = syndrome r XOR syndrome (unit_pad k)" if "length r = 9" "k < 72" for k r
    using syndrome_linear [of r "unit_pad k"] that by (simp add: flip_as_xor)
  have "syndrome t \<noteq> 0"
    using t unit_syndromes(1) [OF i] unit_syndromes(2) [OF i j] s(1) i j by (auto simp: one s0 xor_zero_iff)
  then show ?thesis
    by (simp add: ev_ds18b20_decode_centi_celsius_def ev_ds18b20_decode_measurement_def validate_syndrome)
qed

text \<open>A reading of 25.0625 degrees at 12 bits.\<close>

definition demo_scratchpad :: "u8 list" where
  "demo_scratchpad = [0x91, 0x01, 0x4B, 0x46, 0x7F, 0xFF, 0x0F, 0x10, 0x25]"

lemma demo_scratchpad_fits: "length demo_scratchpad = 9" "ev_ds18b20_validate_scratchpad (Some demo_scratchpad) = EV_OK"
  by code_simp+

theorem flipped_bits_refused_witness:
  "ev_ds18b20_decode_centi_celsius (Some (flip_at 3 (flip_at 70 demo_scratchpad))) 0 = (EV_ERR_CONTRACT, 0)"
  by (rule flipped_bits_refused [OF demo_scratchpad_fits, of 3 70]) simp_all

section \<open>The temperature\<close>

text \<open>The register in sixteenths of a degree, and the number of bits that count.\<close>

definition register_value :: "u8 list \<Rightarrow> int" where
  "register_value s = sint (push_bit 8 (ucast (s ! 1)) OR ucast (s ! 0) :: i16)"

definition resolution_of :: "u8 list \<Rightarrow> nat" where
  "resolution_of s = 9 + (if bit (s ! 4) 5 then 1 else 0) + (if bit (s ! 4) 6 then 2 else 0)"

lemma clear_low_bits: "x AND NOT (mask n) = x - x mod 2 ^ n" for x :: int
proof -
  have "x AND NOT (mask n) = push_bit n (drop_bit n x)" by (rule bit_eqI) (auto simp: bit_simps)
  then show ?thesis using bits_ident [of n x] by (simp add: take_bit_eq_mod)
qed

lemma clear_low_word: "n \<le> 3 \<Longrightarrow> sint (x AND NOT (mask n)) = sint x - sint x mod 2 ^ n" for x :: i16
proof -
  assume "n \<le> 3"
  then have "sint (mask n :: i16) = mask n" by (auto simp: mask_eq_exp_minus_1 numeral_3_eq_3 le_Suc_eq)
  moreover have "signed_take_bit 16 (NOT (mask n)) = (NOT (mask n) :: int)"
    using \<open>n \<le> 3\<close> by (auto simp: mask_eq_exp_minus_1 numeral_3_eq_3 le_Suc_eq)
  ultimately show ?thesis by (simp add: signed_and_eq signed_not_eq flip: clear_low_bits)
qed

lemma config_bits: "c AND EV_DS18B20_CFG_RESOLUTION_MASK = (if bit c 5 then 0x20 else 0) + (if bit c 6 then 0x40 else 0)" for c :: u8
proof -
  have "c AND 0x60 = (if bit c 5 then 0x20 else 0) OR (if bit c 6 then 0x40 else 0)"
  proof (rule bit_word_eqI)
    fix n assume "n < LENGTH(8)"
    then have "n = 0 \<or> n = 1 \<or> n = 2 \<or> n = 3 \<or> n = 4 \<or> n = 5 \<or> n = 6 \<or> n = 7" by simp linarith
    then show "bit (c AND 0x60) n = bit ((if bit c 5 then 0x20 else 0) OR (if bit c 6 then 0x40 else 0) :: u8) n"
      by (elim disjE) (simp_all add: bit_simps)
  qed
  then show ?thesis by simp
qed

lemma mask_resolution_eq:
  "mask_resolution (s ! 4) raw = (raw AND NOT (mask (12 - resolution_of s)), of_nat (resolution_of s))"
  by (simp add: mask_resolution_def config_bits resolution_of_def Let_def mask_eq_exp_minus_1)

text \<open>The scaling rounds to the nearest hundredth: a sixteenth of a degree is 25 / 4 hundredths.\<close>

lemma scale_centi_nearest:
  assumes "\<bar>sint raw\<bar> \<le> 5242"
  shows "\<bar>4 * sint (scale_centi raw) - 25 * sint raw\<bar> \<le> 2"
proof -
  define c where "c = (if 0 \<le> sint raw * 25 then (sint raw * 25 + 2) sdiv 4 else (sint raw * 25 - 2) sdiv 4)"
  have "c = (if 0 \<le> sint raw * 25 then (sint raw * 25 + 2) div 4 else - ((2 - sint raw * 25) div 4))"
    by (simp add: c_def signed_divide_int_def sgn_if)
  then have near: "\<bar>4 * c - 25 * sint raw\<bar> \<le> 2" by (simp split: if_splits)
  then have "sint (word_of_int c :: i16) = c" using assms by (subst signed_of_int) (simp add: signed_take_bit_int_eq_self)
  moreover have "scale_centi raw = word_of_int c" by (simp add: scale_centi_def c_def Let_def)
  ultimately show ?thesis using near by simp
qed

text \<open>
  C28: a scratchpad that fits its check sum, at up to 327 degrees on either side of zero, decodes to the
  register's temperature with the bits below the resolution cleared, rounded to the nearest hundredth of a
  degree; the resolution reported is the one the configuration byte selects.
\<close>

theorem decoded_temperature_nearest:
  assumes fits: "ev_ds18b20_validate_scratchpad (Some s) = EV_OK" and range: "\<bar>register_value s\<bar> \<le> 5232"
  shows "\<exists>m. ev_ds18b20_decode_measurement (Some s) out = (EV_OK, m) \<and> unat (dm_resolution_bits m) = resolution_of s
     \<and> \<bar>4 * sint (dm_centi_celsius m) - 25 * (register_value s - register_value s mod 2 ^ (12 - resolution_of s))\<bar> \<le> 2"
proof -
  let ?raw = "push_bit 8 (ucast (s ! 1)) OR ucast (s ! 0) :: i16" and ?n = "12 - resolution_of s"
  let ?clear = "?raw AND NOT (mask ?n)"
  have n: "?n \<le> 3" "resolution_of s < 256" by (simp_all add: resolution_of_def)
  have v: "sint ?clear = register_value s - register_value s mod 2 ^ ?n"
    using clear_low_word [OF n(1)] by (simp only: register_value_def)
  have m: "0 \<le> register_value s mod 2 ^ ?n" "register_value s mod 2 ^ ?n < 2 ^ ?n" by simp_all
  have "(2 :: int) ^ ?n \<le> 8" using power_increasing [OF n(1), of "2 :: int"] by simp
  then have "\<bar>sint ?clear\<bar> \<le> 5242" unfolding v using m range by linarith
  from scale_centi_nearest [OF this, unfolded v] show ?thesis
    using fits n by (simp add: ev_ds18b20_decode_measurement_def mask_resolution_eq unat_of_nat Let_def)
qed

theorem decoded_temperature_nearest_witness:
  "\<exists>m. ev_ds18b20_decode_measurement (Some demo_scratchpad) \<lparr>dm_centi_celsius = 0, dm_resolution_bits = 0\<rparr> = (EV_OK, m) \<and> unat (dm_resolution_bits m) = 12
     \<and> \<bar>4 * sint (dm_centi_celsius m) - 25 * 401\<bar> \<le> 2"
proof -
  have "register_value demo_scratchpad = 401" "resolution_of demo_scratchpad = 12" by code_simp+
  then show ?thesis using decoded_temperature_nearest [OF demo_scratchpad_fits(2)] by simp
qed

end
