(* ===== verification/EvDs18b20Actor.thy ===== *)
theory EvDs18b20Actor
  imports EvDs18b20Driver
begin

text \<open>
  The temperature actor (\<open>actors/device/ev_ds18b20_actor.c\<close>): it starts a conversion, waits for it on the
  100 ms ticks without touching the bus, reads the scratchpad, publishes the temperature and starts the next
  conversion. A failed start or publication ends the sampling until the next boot message.
\<close>

section \<open>State and operations\<close>

record 'w ev_ds18b20_actor_ctx =
  ds_onewire_port :: "'w ev_onewire_port option"
  ds_deliver :: "'w ev_delivery_fn option"
  ds_deliver_context :: ptr
  ds_conversion_pending :: bool
  ds_sensor_present :: bool
  ds_resolution_bits :: u8
  ds_conversion_wait_ms :: u16
  ds_actor_now_ms :: u32
  ds_conversion_started_at_ms :: u32
  ds_conversion_deadline_ms :: u32
  ds_last_read_ok :: bool
  ds_temp_valid :: bool
  ds_last_centi_celsius :: i16
  ds_conversions_started :: u32
  ds_scratchpad_reads_ok :: u32
  ds_crc_failures :: u32
  ds_no_device_failures :: u32
  ds_io_failures :: u32
  ds_conversion_deadline_skips :: u32
  ds_noncanonical_ticks_ignored :: u32

abbreviation EV_DS18B20_TICK_100MS_DELTA_MS :: u32 where "EV_DS18B20_TICK_100MS_DELTA_MS \<equiv> 100"

definition ev_ds18b20_actor_deadline_due :: "u32 \<Rightarrow> u32 \<Rightarrow> bool" where
  "ev_ds18b20_actor_deadline_due now_ms deadline_ms \<longleftrightarrow> 0 \<le> sint (now_ms - deadline_ms)"

definition ev_ds18b20_actor_resolution_is_valid :: "u8 \<Rightarrow> bool" where
  "ev_ds18b20_actor_resolution_is_valid resolution_bits \<longleftrightarrow> 9 \<le> resolution_bits \<and> resolution_bits \<le> 12"

definition ev_ds18b20_actor_publish_ready ::
    "'w ev_lifecycle \<Rightarrow> 'w ev_ds18b20_actor_ctx \<Rightarrow> 'w \<Rightarrow> ev_result \<times> 'w" where
  "ev_ds18b20_actor_publish_ready lc ctx w =
     (if ds_deliver ctx = None \<or> ds_deliver_context ctx = None then (EV_ERR_INVALID_ARG, w)
      else publish_built lc (ds_deliver ctx) (build_empty EV_DS18B20_READY ACT_DS18B20 w))"

definition ev_ds18b20_actor_publish_temperature ::
    "'w ev_lifecycle \<Rightarrow> 'w ev_ds18b20_actor_ctx \<Rightarrow> i16 \<Rightarrow> 'w \<Rightarrow> ev_result \<times> 'w" where
  "ev_ds18b20_actor_publish_temperature lc ctx centi_celsius w =
     (if ds_deliver ctx = None \<or> ds_deliver_context ctx = None then (EV_ERR_INVALID_ARG, w)
      else publish_built lc (ds_deliver ctx) (build_inline lc EV_TEMP_UPDATED ACT_DS18B20 (le16_bytes centi_celsius) w))"

definition ev_ds18b20_actor_record_start_result ::
    "ev_result \<Rightarrow> 'w ev_ds18b20_actor_ctx \<Rightarrow> 'w ev_ds18b20_actor_ctx" where
  "ev_ds18b20_actor_record_start_result status ctx =
     (if status = EV_OK
      then ctx\<lparr>ds_sensor_present := True, ds_conversion_pending := True,
               ds_conversion_started_at_ms := ds_actor_now_ms ctx,
               ds_conversion_deadline_ms := ds_actor_now_ms ctx + ucast (ds_conversion_wait_ms ctx),
               ds_conversions_started := ds_conversions_started ctx + 1\<rparr>
      else
        let ctx = ctx\<lparr>ds_sensor_present := False, ds_conversion_pending := False\<rparr>
        in if status = EV_ERR_NOT_FOUND then ctx\<lparr>ds_no_device_failures := ds_no_device_failures ctx + 1\<rparr>
           else ctx\<lparr>ds_io_failures := ds_io_failures ctx + 1\<rparr>)"

definition ev_ds18b20_actor_start_conversion ::
    "'w ev_ds18b20_actor_ctx \<Rightarrow> 'w \<Rightarrow> ev_result \<times> 'w ev_ds18b20_actor_ctx \<times> 'w" where
  "ev_ds18b20_actor_start_conversion ctx w =
     (let (rc, w) = ev_ds18b20_start_conversion_skip_rom (ds_onewire_port ctx) w
      in (EV_OK, ev_ds18b20_actor_record_start_result rc ctx, w))"

text \<open>A scratchpad that was read and decoded: the books, the ready message if it is the first, the temperature.\<close>

definition accept_reading ::
    "'w ev_lifecycle \<Rightarrow> i16 \<Rightarrow> 'w ev_ds18b20_actor_ctx \<Rightarrow> 'w \<Rightarrow> ev_result \<times> bool \<times> 'w ev_ds18b20_actor_ctx \<times> 'w" where
  "accept_reading lc centi_celsius ctx w =
     (let was_valid = ds_temp_valid ctx;
          ctx = ctx\<lparr>ds_sensor_present := True, ds_last_read_ok := True, ds_temp_valid := True,
                    ds_last_centi_celsius := centi_celsius, ds_scratchpad_reads_ok := ds_scratchpad_reads_ok ctx + 1\<rparr>;
          (publish_rc, w) = (if \<not> was_valid then ev_ds18b20_actor_publish_ready lc ctx w else (EV_OK, w))
      in if publish_rc \<noteq> EV_OK then (publish_rc, True, ctx, w)
         else
           let (publish_rc, w) = ev_ds18b20_actor_publish_temperature lc ctx centi_celsius w
           in (publish_rc, False, ctx, w))"

text \<open>One that was not: the books.\<close>

definition reject_reading :: "ev_result \<Rightarrow> 'w ev_ds18b20_actor_ctx \<Rightarrow> 'w ev_ds18b20_actor_ctx" where
  "reject_reading rc ctx =
     (let ctx = ctx\<lparr>ds_last_read_ok := False\<rparr>
      in if rc = EV_ERR_CONTRACT then ctx\<lparr>ds_crc_failures := ds_crc_failures ctx + 1\<rparr>
         else if rc = EV_ERR_NOT_FOUND
         then ctx\<lparr>ds_sensor_present := False, ds_no_device_failures := ds_no_device_failures ctx + 1\<rparr>
         else if rc = EV_ERR_STATE then ctx\<lparr>ds_io_failures := ds_io_failures ctx + 1\<rparr> else ctx)"

definition settle_reading ::
    "'w ev_lifecycle \<Rightarrow> ev_result \<times> i16 \<times> 'w \<Rightarrow> 'w ev_ds18b20_actor_ctx \<Rightarrow> ev_result \<times> bool \<times> 'w ev_ds18b20_actor_ctx \<times> 'w" where
  "settle_reading lc reading ctx =
     (let (rc, centi_celsius, w) = reading
      in if rc = EV_OK then accept_reading lc centi_celsius ctx w else (EV_OK, False, reject_reading rc ctx, w))"

definition read_temperature :: "'w ev_onewire_port option \<Rightarrow> 'w \<Rightarrow> ev_result \<times> i16 \<times> 'w" where
  "read_temperature port w =
     (let (rc, scratchpad, w) = ev_ds18b20_read_scratchpad_skip_rom port (replicate EV_DS18B20_SCRATCHPAD_BYTES 0) w;
          (rc, centi_celsius) = (if rc = EV_OK then ev_ds18b20_decode_centi_celsius (Some scratchpad) 0 else (rc, 0))
      in (rc, centi_celsius, w))"

text \<open>The reading that is due.\<close>

definition take_reading ::
    "'w ev_lifecycle \<Rightarrow> 'w ev_ds18b20_actor_ctx \<Rightarrow> 'w \<Rightarrow> ev_result \<times> 'w ev_ds18b20_actor_ctx \<times> 'w" where
  "take_reading lc ctx w =
     (let ctx = ctx\<lparr>ds_conversion_pending := False\<rparr>;
          (publish_rc, stop, ctx, w) = settle_reading lc (read_temperature (ds_onewire_port ctx) w) ctx
      in if stop \<or> publish_rc \<noteq> EV_OK then (publish_rc, ctx, w)
         else
           let (rc, w) = ev_ds18b20_start_conversion_skip_rom (ds_onewire_port ctx) w
           in (publish_rc, ev_ds18b20_actor_record_start_result rc ctx, w))"

definition ev_ds18b20_actor_try_read ::
    "'w ev_lifecycle \<Rightarrow> 'w ev_ds18b20_actor_ctx \<Rightarrow> 'w \<Rightarrow> ev_result \<times> 'w ev_ds18b20_actor_ctx \<times> 'w" where
  "ev_ds18b20_actor_try_read lc ctx w =
     (if \<not> ds_conversion_pending ctx then (EV_OK, ctx, w)
      else if \<not> ev_ds18b20_actor_deadline_due (ds_actor_now_ms ctx) (ds_conversion_deadline_ms ctx)
      then (EV_OK, ctx\<lparr>ds_conversion_deadline_skips := ds_conversion_deadline_skips ctx + 1\<rparr>, w)
      else take_reading lc ctx w)"

definition ev_ds18b20_actor_handle_boot ::
    "'w ev_ds18b20_actor_ctx \<Rightarrow> 'w \<Rightarrow> ev_result \<times> 'w ev_ds18b20_actor_ctx \<times> 'w" where
  "ev_ds18b20_actor_handle_boot ctx w = ev_ds18b20_actor_start_conversion ctx w"

definition ev_ds18b20_actor_handle_tick ::
    "'w ev_lifecycle \<Rightarrow> u32 \<Rightarrow> 'w ev_ds18b20_actor_ctx \<Rightarrow> 'w \<Rightarrow> ev_result \<times> 'w ev_ds18b20_actor_ctx \<times> 'w" where
  "ev_ds18b20_actor_handle_tick lc elapsed_ms ctx w =
     ev_ds18b20_actor_try_read lc (ctx\<lparr>ds_actor_now_ms := ds_actor_now_ms ctx + elapsed_ms\<rparr>) w"

definition ev_ds18b20_actor_init ::
    "'w ev_ds18b20_actor_ctx option \<Rightarrow> 'w ev_onewire_port option \<Rightarrow> 'w ev_delivery_fn option \<Rightarrow> ptr
       \<Rightarrow> ev_result \<times> 'w ev_ds18b20_actor_ctx option" where
  "ev_ds18b20_actor_init ctx onewire_port deliver deliver_context =
     (if ctx = None \<or> onewire_port = None \<or> ow_reset (the onewire_port) = None \<or> ow_write_byte (the onewire_port) = None
         \<or> ow_read_byte (the onewire_port) = None \<or> deliver = None \<or> deliver_context = None
      then (EV_ERR_INVALID_ARG, ctx)
      else (EV_OK, Some \<lparr>ds_onewire_port = onewire_port, ds_deliver = deliver, ds_deliver_context = deliver_context,
        ds_conversion_pending = False, ds_sensor_present = False,
        ds_resolution_bits = EV_DS18B20_DEFAULT_RESOLUTION_BITS,
        ds_conversion_wait_ms = ev_ds18b20_conversion_time_ms EV_DS18B20_DEFAULT_RESOLUTION_BITS,
        ds_actor_now_ms = 0, ds_conversion_started_at_ms = 0, ds_conversion_deadline_ms = 0, ds_last_read_ok = False,
        ds_temp_valid = False, ds_last_centi_celsius = 0, ds_conversions_started = 0, ds_scratchpad_reads_ok = 0,
        ds_crc_failures = 0, ds_no_device_failures = 0, ds_io_failures = 0, ds_conversion_deadline_skips = 0,
        ds_noncanonical_ticks_ignored = 0\<rparr>))"

definition ev_ds18b20_actor_configure_resolution ::
    "'w ev_ds18b20_actor_ctx option \<Rightarrow> u8 \<Rightarrow> ev_result \<times> 'w ev_ds18b20_actor_ctx option" where
  "ev_ds18b20_actor_configure_resolution ctx resolution_bits =
     (case ctx of None \<Rightarrow> (EV_ERR_INVALID_ARG, None)
      | Some c \<Rightarrow>
          if \<not> ev_ds18b20_actor_resolution_is_valid resolution_bits then (EV_ERR_OUT_OF_RANGE, ctx)
          else if ds_conversion_pending c then (EV_ERR_STATE, ctx)
          else (EV_OK, Some (c\<lparr>ds_resolution_bits := resolution_bits,
                              ds_conversion_wait_ms := ev_ds18b20_conversion_time_ms resolution_bits\<rparr>)))"

definition ev_ds18b20_actor_handle ::
    "'w ev_lifecycle \<Rightarrow> 'w ev_ds18b20_actor_ctx option \<Rightarrow> ev_msg option \<Rightarrow> 'w
       \<Rightarrow> ev_result \<times> 'w ev_ds18b20_actor_ctx option \<times> 'w" where
  "ev_ds18b20_actor_handle lc actor_context msg w =
     (if actor_context = None \<or> msg = None then (EV_ERR_INVALID_ARG, actor_context, w)
      else
        let ctx = the actor_context; e = msg_event_id (the msg);
            (rc, ctx, w) =
              (if e = EV_BOOT_COMPLETED then ev_ds18b20_actor_handle_boot ctx w
               else if e = EV_TICK_100MS then ev_ds18b20_actor_handle_tick lc EV_DS18B20_TICK_100MS_DELTA_MS ctx w
               else if e = EV_TICK_1S
               then ev_ds18b20_actor_try_read lc
                 (ctx\<lparr>ds_noncanonical_ticks_ignored := ds_noncanonical_ticks_ignored ctx + 1\<rparr>) w
               else (EV_ERR_CONTRACT, ctx, w))
        in (rc, Some ctx, w))"

section \<open>Runs\<close>

fun ds18b20_step :: "'w ev_lifecycle \<Rightarrow> 'w ev_ds18b20_actor_ctx \<times> 'w \<Rightarrow> ev_msg \<Rightarrow> 'w ev_ds18b20_actor_ctx \<times> 'w" where
  "ds18b20_step lc (ctx, w) m = (let (rc, ctx, w) = ev_ds18b20_actor_handle lc (Some ctx) (Some m) w in (the ctx, w))"

definition ds18b20_run :: "'w ev_lifecycle \<Rightarrow> 'w ev_ds18b20_actor_ctx \<Rightarrow> 'w \<Rightarrow> ev_msg list \<Rightarrow> 'w ev_ds18b20_actor_ctx \<times> 'w" where
  "ds18b20_run lc ctx w ms = foldl (ds18b20_step lc) (ctx, w) ms"

lemma ds18b20_run_snoc: "ds18b20_run lc ctx w (ms @ [m]) = ds18b20_step lc (ds18b20_run lc ctx w ms) m"
  by (simp add: ds18b20_run_def)

text \<open>A conversion that takes \<open>d\<close> milliseconds, under way since \<open>k\<close> ticks.\<close>

definition converting :: "nat \<Rightarrow> nat \<Rightarrow> 'w ev_ds18b20_actor_ctx \<Rightarrow> bool" where
  "converting d k ctx \<longleftrightarrow> ds_conversion_pending ctx \<and> unat (ds_conversion_wait_ms ctx) = d
     \<and> ds_conversion_deadline_ms ctx = ds_conversion_started_at_ms ctx + of_nat d
     \<and> ds_actor_now_ms ctx = ds_conversion_started_at_ms ctx + of_nat (100 * k)"

lemma start_converting:
  "converting (unat (ds_conversion_wait_ms ctx)) 0 (ev_ds18b20_actor_record_start_result EV_OK ctx)"
  by (simp add: ev_ds18b20_actor_record_start_result_def converting_def)

lemma converting_due:
  assumes "converting d k ctx" and "100 * k < 2 ^ 31"
  shows "ev_ds18b20_actor_deadline_due (ds_actor_now_ms ctx) (ds_conversion_deadline_ms ctx) \<longleftrightarrow> d \<le> 100 * k"
proof -
  have d: "d < 2 ^ 31" using assms(1) unat_u16 [of "ds_conversion_wait_ms ctx"] by (simp add: converting_def)
  have e: "ds_conversion_deadline_ms ctx = ds_conversion_started_at_ms ctx + of_nat d"
    and n: "ds_actor_now_ms ctx = ds_conversion_started_at_ms ctx + of_nat (100 * k)"
    using assms(1) by (simp_all add: converting_def)
  show ?thesis unfolding ev_ds18b20_actor_deadline_due_def e n by (rule deadline_due_iff [OF assms(2) d])
qed

text \<open>One message, by its event.\<close>

lemma ds18b20_steps:
  "msg_event_id m = EV_TICK_100MS \<Longrightarrow> ds18b20_step lc (ctx, w) m =
     snd (ev_ds18b20_actor_try_read lc (ctx\<lparr>ds_actor_now_ms := ds_actor_now_ms ctx + 100\<rparr>) w)"
  "msg_event_id m = EV_TICK_1S \<Longrightarrow> ds18b20_step lc (ctx, w) m =
     snd (ev_ds18b20_actor_try_read lc (ctx\<lparr>ds_noncanonical_ticks_ignored := ds_noncanonical_ticks_ignored ctx + 1\<rparr>) w)"
  "msg_event_id m \<notin> {EV_TICK_100MS, EV_TICK_1S, EV_BOOT_COMPLETED} \<Longrightarrow> ds18b20_step lc (ctx, w) m = (ctx, w)"
  by (simp_all add: ev_ds18b20_actor_handle_def ev_ds18b20_actor_handle_tick_def Let_def split: prod.splits)

declare ds18b20_step.simps [simp del]

lemma converting_step:
  assumes c: "converting d k ctx" and e: "msg_event_id m \<noteq> EV_BOOT_COMPLETED"
    and early: "100 * (k + ticks_100ms [m]) < d"
  shows "\<exists>ctx'. ds18b20_step lc (ctx, w) m = (ctx', w) \<and> converting d (k + ticks_100ms [m]) ctx'"
proof -
  let ?t = "ctx\<lparr>ds_actor_now_ms := ds_actor_now_ms ctx + 100\<rparr>"
  let ?s = "ctx\<lparr>ds_noncanonical_ticks_ignored := ds_noncanonical_ticks_ignored ctx + 1\<rparr>"
  have small: "100 * (k + ticks_100ms [m]) < 2 ^ 31"
    using early c unat_u16 [of "ds_conversion_wait_ms ctx"] by (simp add: converting_def)
  have s: "converting d k ?s" and t: "converting d (Suc k) ?t" using c by (simp_all add: converting_def algebra_simps)
  have "\<not> ev_ds18b20_actor_deadline_due (ds_actor_now_ms ?s) (ds_conversion_deadline_ms ?s)"
    if "msg_event_id m \<noteq> EV_TICK_100MS"
    using converting_due [OF s] early small that by (simp add: ticks_100ms_single)
  moreover have "\<not> ev_ds18b20_actor_deadline_due (ds_actor_now_ms ?t) (ds_conversion_deadline_ms ?t)"
    if "msg_event_id m = EV_TICK_100MS"
    using converting_due [OF t] early small that by (simp add: ticks_100ms_single)
  ultimately show ?thesis
    using c e t s
    by (cases "msg_event_id m = EV_TICK_100MS"; cases "msg_event_id m = EV_TICK_1S")
      (auto simp: ds18b20_steps ev_ds18b20_actor_try_read_def ticks_100ms_single converting_def)
qed

interpretation conversion: deadline_wait "ds18b20_step lc" converting for lc
  by unfold_locales (rule converting_step)

text \<open>
  C29: once a conversion is started, the actor leaves the bus and everybody else alone for as long as the 100 ms
  ticks it has seen do not add up to the conversion time, whatever messages but a boot come in; one-second ticks
  do not count. The 100 ms tick that completes the conversion time takes the reading, and no earlier one.
\<close>

theorem conversion_time_respected:
  assumes start: "ctx = ev_ds18b20_actor_record_start_result EV_OK c" and ms: "no_boot ms"
    and early: "100 * ticks_100ms ms < unat (ds_conversion_wait_ms ctx)" and run: "ds18b20_run lc ctx w ms = (ctx', w')"
    and tick: "msg_event_id m = EV_TICK_100MS"
  shows "w' = w \<and> ev_ds18b20_actor_handle lc (Some ctx') (Some m) w' =
     (let now = ctx'\<lparr>ds_actor_now_ms := ds_actor_now_ms ctx' + 100\<rparr>;
          (rc, ctx1, w1) = (if 100 * Suc (ticks_100ms ms) < unat (ds_conversion_wait_ms ctx)
             then (EV_OK, now\<lparr>ds_conversion_deadline_skips := ds_conversion_deadline_skips now + 1\<rparr>, w)
             else take_reading lc now w)
      in (rc, Some ctx1, w1))"
proof -
  let ?d = "unat (ds_conversion_wait_ms c)"
  have d: "unat (ds_conversion_wait_ms ctx) = ?d" by (simp add: start ev_ds18b20_actor_record_start_result_def)
  have C: "w' = w" "converting ?d (ticks_100ms ms) ctx'"
    using conversion.run_waits [OF start_converting ms, of c lc w] early run d by (auto simp: start ds18b20_run_def)
  let ?t = "ctx'\<lparr>ds_actor_now_ms := ds_actor_now_ms ctx' + 100\<rparr>"
  have t: "converting ?d (Suc (ticks_100ms ms)) ?t" using C(2) by (simp add: converting_def algebra_simps)
  have small: "100 * Suc (ticks_100ms ms) < 2 ^ 31"
    using early unat_u16 [of "ds_conversion_wait_ms ctx"] by simp
  show ?thesis
    using C tick t converting_due [OF t small]
    by (simp add: d ev_ds18b20_actor_handle_def ev_ds18b20_actor_handle_tick_def ev_ds18b20_actor_try_read_def
        converting_def Let_def)
qed

text \<open>
  With no conversion under way, nothing but a boot message makes the actor act. So a publication or a start
  that fails ends the sampling.
\<close>

lemma idle_step:
  assumes "\<not> ds_conversion_pending ctx" and "msg_event_id m \<noteq> EV_BOOT_COMPLETED"
  shows "\<exists>ctx'. ds18b20_step lc (ctx, w) m = (ctx', w) \<and> \<not> ds_conversion_pending ctx'"
  using assms
  by (cases "msg_event_id m = EV_TICK_100MS"; cases "msg_event_id m = EV_TICK_1S")
    (auto simp: ds18b20_steps ev_ds18b20_actor_try_read_def)

lemma idle_until_boot:
  assumes "\<not> ds_conversion_pending ctx" and "no_boot ms"
  shows "snd (ds18b20_run lc ctx w ms) = w \<and> \<not> ds_conversion_pending (fst (ds18b20_run lc ctx w ms))"
  using assms
proof (induction ms rule: rev_induct)
  case (snoc m ms)
  then have "no_boot ms" "msg_event_id m \<noteq> EV_BOOT_COMPLETED" by (auto simp: no_boot_def)
  then show ?case
    using snoc idle_step [of "fst (ds18b20_run lc ctx w ms)" m lc w]
    by (cases "ds18b20_run lc ctx w ms") (auto simp: ds18b20_run_snoc)
qed (simp add: ds18b20_run_def)

lemma accept_reading_pending:
  "accept_reading lc c ctx w = (rc, stop, ctx', w') \<Longrightarrow> ds_conversion_pending ctx' = ds_conversion_pending ctx"
  by (auto simp: accept_reading_def Let_def split: prod.splits if_splits)

lemma reject_reading_pending: "ds_conversion_pending (reject_reading rc ctx) = ds_conversion_pending ctx"
  by (simp add: reject_reading_def Let_def)

lemma failed_publication_idle:
  assumes take: "take_reading lc ctx w = (rc, ctx', w')" and rc: "rc \<noteq> EV_OK"
  shows "\<not> ds_conversion_pending ctx'"
proof -
  let ?c = "ctx\<lparr>ds_conversion_pending := False\<rparr>"
  obtain pr stop c2 w2 where p: "settle_reading lc (read_temperature (ds_onewire_port ctx) w) ?c = (pr, stop, c2, w2)"
    by (rule prod_cases4)
  have "\<not> ds_conversion_pending c2"
    using p by (auto simp: settle_reading_def reject_reading_pending dest: accept_reading_pending split: prod.splits if_splits)
  moreover have "ctx' = c2"
    using take rc by (auto simp: take_reading_def p Let_def split: prod.splits if_splits)
  ultimately show ?thesis by simp
qed

lemma failed_publication_stops:
  assumes "take_reading lc ctx w = (rc, ctx', w')" and "rc \<noteq> EV_OK" and "no_boot ms"
  shows "snd (ds18b20_run lc ctx' w' ms) = w'"
  by (rule idle_until_boot [OF failed_publication_idle [OF assms(1,2)] assms(3), THEN conjunct1])

section \<open>A sensor at work\<close>

text \<open>The world of the example: the scratchpad bytes still to read and the messages delivered.\<close>

definition demo_onewire :: "(nat \<times> ev_actor_id list) ev_onewire_port" where
  "demo_onewire = \<lparr>ow_ctx = Some 1, ow_reset = Some (\<lambda>(n, d). (EV_ONEWIRE_OK, (0, d))),
     ow_write_byte = Some (\<lambda>b w. (EV_ONEWIRE_OK, w)),
     ow_read_byte = Some (\<lambda>b (n, d). (EV_ONEWIRE_OK, demo_scratchpad ! n, (Suc n, d)))\<rparr>"

definition blank_ds18b20 :: "(nat \<times> ev_actor_id list) ev_ds18b20_actor_ctx" where
  "blank_ds18b20 = \<lparr>ds_onewire_port = None, ds_deliver = None, ds_deliver_context = None,
     ds_conversion_pending = False, ds_sensor_present = False, ds_resolution_bits = 0, ds_conversion_wait_ms = 0,
     ds_actor_now_ms = 0, ds_conversion_started_at_ms = 0, ds_conversion_deadline_ms = 0, ds_last_read_ok = False,
     ds_temp_valid = False, ds_last_centi_celsius = 0, ds_conversions_started = 0, ds_scratchpad_reads_ok = 0,
     ds_crc_failures = 0, ds_no_device_failures = 0, ds_io_failures = 0, ds_conversion_deadline_skips = 0,
     ds_noncanonical_ticks_ignored = 0\<rparr>"

definition demo_ds18b20 :: "(nat \<times> ev_actor_id list) ev_ds18b20_actor_ctx" where
  "demo_ds18b20 = the (snd (ev_ds18b20_actor_init (Some blank_ds18b20) (Some demo_onewire)
     (Some (\<lambda>t m (n, d). (EV_OK, (n, d @ [t])))) (Some 1)))"

lemma demo_ds18b20_wait: "unat (ds_conversion_wait_ms (ev_ds18b20_actor_record_start_result EV_OK demo_ds18b20)) = 750"
  by (simp add: demo_ds18b20_def ev_ds18b20_actor_init_def demo_onewire_def ev_ds18b20_actor_record_start_result_def
      ev_ds18b20_conversion_time_ms_def)

definition demo_lifecycle :: "(nat \<times> ev_actor_id list) ev_lifecycle" where
  "demo_lifecycle = \<lparr>lc_retain = \<lambda>f c d n s. (EV_OK, s), lc_release = \<lambda>f c d n s. s\<rparr>"

definition demo_waiting :: "(nat \<times> ev_actor_id list) ev_ds18b20_actor_ctx \<times> nat \<times> ev_actor_id list" where
  "demo_waiting = ds18b20_run demo_lifecycle (ev_ds18b20_actor_record_start_result EV_OK demo_ds18b20) (0, [])
     (replicate 7 (demo_publish_msg EV_TICK_100MS))"

text \<open>The eighth tick reads the sensor, publishes that it is ready and the temperature, and converts again.\<close>

theorem conversion_time_respected_witness:
  "snd demo_waiting = (0, [])
   \<and> (let (rc, ctx, w) = ev_ds18b20_actor_handle demo_lifecycle (Some (fst demo_waiting))
            (Some (demo_publish_msg EV_TICK_100MS)) (0, [])
      in rc = EV_OK \<and> sint (ds_last_centi_celsius (the ctx)) = 2506 \<and> w = (0, [ACT_SUPERVISOR, ACT_APP, ACT_NETWORK]))"
proof -
  have m: "no_boot (replicate 7 (demo_publish_msg EV_TICK_100MS))" "ticks_100ms (replicate 7 (demo_publish_msg EV_TICK_100MS)) = 7"
    "msg_event_id (demo_publish_msg EV_TICK_100MS) = EV_TICK_100MS"
    by code_simp+
  have "ds18b20_run demo_lifecycle (ev_ds18b20_actor_record_start_result EV_OK demo_ds18b20) (0, [])
      (replicate 7 (demo_publish_msg EV_TICK_100MS)) = (fst demo_waiting, snd demo_waiting)"
    by (simp add: demo_waiting_def)
  note h = conversion_time_respected [OF refl m(1) _ this m(3), unfolded m(2) demo_ds18b20_wait, simplified]
  have w: "snd demo_waiting = (0, [])" using h by simp
  moreover have "ev_ds18b20_actor_handle demo_lifecycle (Some (fst demo_waiting))
      (Some (demo_publish_msg EV_TICK_100MS)) (0, []) =
     (let (rc, ctx, w) = take_reading demo_lifecycle
        (fst demo_waiting\<lparr>ds_actor_now_ms := ds_actor_now_ms (fst demo_waiting) + 100\<rparr>) (0, []) in (rc, Some ctx, w))"
    using h [unfolded w] by simp
  moreover have "let (rc, ctx, w) = take_reading demo_lifecycle
        (fst demo_waiting\<lparr>ds_actor_now_ms := ds_actor_now_ms (fst demo_waiting) + 100\<rparr>) (0, [])
      in rc = EV_OK \<and> sint (ds_last_centi_celsius ctx) = 2506 \<and> w = (0, [ACT_SUPERVISOR, ACT_APP, ACT_NETWORK])"
    by code_simp
  ultimately show ?thesis by (auto simp: Let_def split: prod.splits)
qed

end
