(* ===== verification/EvRtcActor.thy ===== *)
theory EvRtcActor
  imports EvDeviceIo
begin

text \<open>
  The real-time clock actor (\<open>actors/device/ev_rtc_actor.c\<close>): it reads the DS3231 registers on the falling edge of
  their 1 Hz square wave, or by polling when the wave does not come, decodes them into a calendar time with its
  UNIX time, and publishes each time that differs from the last. The decoding is proved against the Gregorian
  calendar: the UNIX time counts the days since 1970.
\<close>

unbundle bit_operations_syntax

section \<open>State and operations\<close>

record ev_time_payload =
  tp_unix_time :: u32
  tp_year :: u16
  tp_month :: u8
  tp_day :: u8
  tp_weekday :: u8
  tp_hours :: u8
  tp_minutes :: u8
  tp_seconds :: u8

record 'w ev_rtc_actor_ctx =
  rt_i2c_port :: "'w ev_i2c_port option"
  rt_irq_port :: "'w ev_irq_port option"
  rt_port_num :: ev_i2c_port_num
  rt_device_address_7bit :: u8
  rt_sqw_line_id :: ev_irq_line_id
  rt_deliver :: "'w ev_delivery_fn option"
  rt_deliver_context :: ptr
  rt_sqw_enabled :: bool
  rt_time_valid :: bool
  rt_last_time :: ev_time_payload
  rt_irq_samples_seen :: u32
  rt_published_updates :: u32
  rt_fallback_polls :: u32
  rt_read_failures :: u32
  rt_ticks_since_last_irq :: u32

abbreviation EV_RTC_REG_SECONDS :: u8 where "EV_RTC_REG_SECONDS \<equiv> 0x00"
abbreviation EV_RTC_REG_CONTROL :: u8 where "EV_RTC_REG_CONTROL \<equiv> 0x0E"
abbreviation EV_RTC_TIME_BYTES :: nat where "EV_RTC_TIME_BYTES \<equiv> 7"
abbreviation EV_RTC_CONTROL_1HZ_SQW :: u8 where "EV_RTC_CONTROL_1HZ_SQW \<equiv> 0x00"
abbreviation EV_RTC_SECONDS_MASK :: u8 where "EV_RTC_SECONDS_MASK \<equiv> 0x7F"
abbreviation EV_RTC_MINUTES_MASK :: u8 where "EV_RTC_MINUTES_MASK \<equiv> 0x7F"
abbreviation EV_RTC_HOURS_12H_MODE_MASK :: u8 where "EV_RTC_HOURS_12H_MODE_MASK \<equiv> 0x40"
abbreviation EV_RTC_HOURS_PM_MASK :: u8 where "EV_RTC_HOURS_PM_MASK \<equiv> 0x20"
abbreviation EV_RTC_HOURS_12H_VALUE_MASK :: u8 where "EV_RTC_HOURS_12H_VALUE_MASK \<equiv> 0x1F"
abbreviation EV_RTC_HOURS_24H_VALUE_MASK :: u8 where "EV_RTC_HOURS_24H_VALUE_MASK \<equiv> 0x3F"
abbreviation EV_RTC_WEEKDAY_MASK :: u8 where "EV_RTC_WEEKDAY_MASK \<equiv> 0x07"
abbreviation EV_RTC_DAY_MASK :: u8 where "EV_RTC_DAY_MASK \<equiv> 0x3F"
abbreviation EV_RTC_MONTH_MASK :: u8 where "EV_RTC_MONTH_MASK \<equiv> 0x1F"
abbreviation EV_RTC_MONTH_CENTURY_MASK :: u8 where "EV_RTC_MONTH_CENTURY_MASK \<equiv> 0x80"
abbreviation EV_RTC_YEAR_BASE :: u16 where "EV_RTC_YEAR_BASE \<equiv> 2000"
abbreviation EV_RTC_UNIX_EPOCH_YEAR :: u16 where "EV_RTC_UNIX_EPOCH_YEAR \<equiv> 1970"
abbreviation EV_RTC_SECONDS_PER_MINUTE :: u32 where "EV_RTC_SECONDS_PER_MINUTE \<equiv> 60"
abbreviation EV_RTC_SECONDS_PER_HOUR :: u32 where "EV_RTC_SECONDS_PER_HOUR \<equiv> 3600"
abbreviation EV_RTC_SECONDS_PER_DAY :: u32 where "EV_RTC_SECONDS_PER_DAY \<equiv> 86400"
abbreviation EV_RTC_FALLBACK_POLL_THRESHOLD_TICKS :: u32 where "EV_RTC_FALLBACK_POLL_THRESHOLD_TICKS \<equiv> 2"

definition ev_rtc_actor_bcd_to_decimal :: "u8 \<Rightarrow> u8" where
  "ev_rtc_actor_bcd_to_decimal bcd = drop_bit 4 bcd * 10 + (bcd AND 0x0F)"

definition ev_rtc_actor_decode_hours :: "u8 \<Rightarrow> u8" where
  "ev_rtc_actor_decode_hours raw_hours =
     (if raw_hours AND EV_RTC_HOURS_12H_MODE_MASK \<noteq> 0
      then
        let hours = ev_rtc_actor_bcd_to_decimal (raw_hours AND EV_RTC_HOURS_12H_VALUE_MASK)
        in if raw_hours AND EV_RTC_HOURS_PM_MASK \<noteq> 0 then (if hours < 12 then hours + 12 else hours)
           else if hours = 12 then 0 else hours
      else ev_rtc_actor_bcd_to_decimal (raw_hours AND EV_RTC_HOURS_24H_VALUE_MASK))"

definition ev_rtc_actor_is_leap_year :: "u16 \<Rightarrow> bool" where
  "ev_rtc_actor_is_leap_year year =
     (if year mod 400 = 0 then True else if year mod 100 = 0 then False else year mod 4 = 0)"

definition k_days_in_month :: "u8 list" where
  "k_days_in_month = [31, 28, 31, 30, 31, 30, 31, 31, 30, 31, 30, 31]"

definition ev_rtc_actor_days_in_month :: "u16 \<Rightarrow> u8 \<Rightarrow> u8" where
  "ev_rtc_actor_days_in_month year month =
     (if month = 0 \<or> 12 < month then 0
      else if month = 2 \<and> ev_rtc_actor_is_leap_year year then 29
      else k_days_in_month ! (unat month - 1))"

definition ev_rtc_actor_payload_is_valid :: "ev_time_payload \<Rightarrow> bool" where
  "ev_rtc_actor_payload_is_valid p =
     (if tp_month p = 0 \<or> 12 < tp_month p \<or> tp_weekday p = 0 \<or> 7 < tp_weekday p
         \<or> 23 < tp_hours p \<or> 59 < tp_minutes p \<or> 59 < tp_seconds p then False
      else if tp_day p = 0 \<or> ev_rtc_actor_days_in_month (tp_year p) (tp_month p) < tp_day p then False
      else True)"

lemma unat_inc: "x < y \<Longrightarrow> unat (x + 1) = Suc (unat x)" for x y :: "'a::len word"
proof -
  assume "x < y"
  moreover have "unat y < 2 ^ LENGTH('a)" by (rule unsigned_less)
  ultimately have "unat x + unat (1 :: 'a word) < 2 ^ LENGTH('a)" unfolding word_less_nat_alt unsigned_1 by linarith
  then show ?thesis by (simp add: unat_add_lem [THEN iffD1])
qed

text \<open>The loops over the years since the epoch and over the months of the year.\<close>

function years_loop :: "u16 \<Rightarrow> u16 \<Rightarrow> u32 \<Rightarrow> u32" where
  "years_loop year until days =
     (if year < until then years_loop (year + 1) until (days + (if ev_rtc_actor_is_leap_year year then 366 else 365)) else days)"
  by auto
termination
  by (relation "measure (\<lambda>(year, until, days). unat until - unat year)") (auto simp: unat_inc word_less_nat_alt)

function months_loop :: "u16 \<Rightarrow> u8 \<Rightarrow> u8 \<Rightarrow> u32 \<Rightarrow> u32" where
  "months_loop year month until days =
     (if month < until then months_loop year (month + 1) until (days + ucast (ev_rtc_actor_days_in_month year month)) else days)"
  by auto
termination
  by (relation "measure (\<lambda>(year, month, until, days). unat until - unat month)") (auto simp: unat_inc word_less_nat_alt)

declare years_loop.simps [simp del] months_loop.simps [simp del]

definition ev_rtc_actor_build_unix_time :: "ev_time_payload \<Rightarrow> u32" where
  "ev_rtc_actor_build_unix_time p =
     (let days = years_loop EV_RTC_UNIX_EPOCH_YEAR (tp_year p) 0;
          days = months_loop (tp_year p) 1 (tp_month p) days;
          days = days + (ucast (tp_day p) - 1)
      in days * EV_RTC_SECONDS_PER_DAY + ucast (tp_hours p) * EV_RTC_SECONDS_PER_HOUR
         + ucast (tp_minutes p) * EV_RTC_SECONDS_PER_MINUTE + ucast (tp_seconds p))"

text \<open>The struct has no padding, so comparing its bytes compares its fields.\<close>

definition ev_rtc_actor_payload_equals :: "ev_time_payload \<Rightarrow> ev_time_payload \<Rightarrow> bool" where
  "ev_rtc_actor_payload_equals lhs rhs \<longleftrightarrow> lhs = rhs"

definition time_payload_bytes :: "ev_time_payload \<Rightarrow> u8 list" where
  "time_payload_bytes p = le32_bytes (tp_unix_time p) @ le16_bytes (tp_year p) @
     [tp_month p, tp_day p, tp_weekday p, tp_hours p, tp_minutes p, tp_seconds p]"

definition ev_rtc_actor_publish_ready :: "'w ev_lifecycle \<Rightarrow> 'w ev_rtc_actor_ctx \<Rightarrow> 'w \<Rightarrow> ev_result \<times> 'w" where
  "ev_rtc_actor_publish_ready lc ctx w =
     (if rt_deliver ctx = None \<or> rt_deliver_context ctx = None then (EV_ERR_INVALID_ARG, w)
      else publish_built lc (rt_deliver ctx) (build_empty EV_RTC_READY ACT_RTC w))"

definition ev_rtc_actor_publish_time_update ::
    "'w ev_lifecycle \<Rightarrow> 'w ev_rtc_actor_ctx \<Rightarrow> ev_time_payload \<Rightarrow> 'w \<Rightarrow> ev_result \<times> 'w ev_rtc_actor_ctx \<times> 'w" where
  "ev_rtc_actor_publish_time_update lc ctx p w =
     (if rt_deliver ctx = None \<or> rt_deliver_context ctx = None then (EV_ERR_INVALID_ARG, ctx, w)
      else
        let (rc, w) = publish_built lc (rt_deliver ctx) (build_inline lc EV_TIME_UPDATED ACT_RTC (time_payload_bytes p) w)
        in (rc, if rc = EV_OK then ctx\<lparr>rt_published_updates := rt_published_updates ctx + 1\<rparr> else ctx, w))"

definition ev_rtc_actor_enable_square_wave :: "'w ev_rtc_actor_ctx \<Rightarrow> 'w \<Rightarrow> ev_result \<times> 'w" where
  "ev_rtc_actor_enable_square_wave ctx w =
     (if rt_i2c_port ctx = None \<or> i2_write_regs (the (rt_i2c_port ctx)) = None
         \<or> rt_irq_port ctx = None \<or> iq_enable (the (rt_irq_port ctx)) = None
      then (EV_ERR_INVALID_ARG, w)
      else
        let (status, w) = the (i2_write_regs (the (rt_i2c_port ctx))) (rt_port_num ctx) (rt_device_address_7bit ctx)
              EV_RTC_REG_CONTROL [EV_RTC_CONTROL_1HZ_SQW] w
        in if status \<noteq> EV_I2C_OK then (EV_ERR_STATE, w)
           else
             let (rc, w) = the (iq_enable (the (rt_irq_port ctx))) (rt_sqw_line_id ctx) True w
             in if rc \<noteq> EV_OK then (rc, w) else (EV_OK, w))"

text \<open>The payload that the seven time registers decode to.\<close>

definition decode_registers :: "u8 list \<Rightarrow> ev_time_payload" where
  "decode_registers raw =
     (let year = EV_RTC_YEAR_BASE + ucast (ev_rtc_actor_bcd_to_decimal (raw ! 6));
          year = (if raw ! 5 AND EV_RTC_MONTH_CENTURY_MASK \<noteq> 0 then year + 100 else year)
      in \<lparr>tp_unix_time = 0, tp_year = year,
          tp_month = ev_rtc_actor_bcd_to_decimal (raw ! 5 AND EV_RTC_MONTH_MASK),
          tp_day = ev_rtc_actor_bcd_to_decimal (raw ! 4 AND EV_RTC_DAY_MASK),
          tp_weekday = ev_rtc_actor_bcd_to_decimal (raw ! 3 AND EV_RTC_WEEKDAY_MASK),
          tp_hours = ev_rtc_actor_decode_hours (raw ! 2),
          tp_minutes = ev_rtc_actor_bcd_to_decimal (raw ! 1 AND EV_RTC_MINUTES_MASK),
          tp_seconds = ev_rtc_actor_bcd_to_decimal (raw ! 0 AND EV_RTC_SECONDS_MASK)\<rparr>)"

definition zero_time_payload :: ev_time_payload where
  "zero_time_payload = \<lparr>tp_unix_time = 0, tp_year = 0, tp_month = 0, tp_day = 0, tp_weekday = 0, tp_hours = 0,
     tp_minutes = 0, tp_seconds = 0\<rparr>"

definition ev_rtc_actor_read_time_payload ::
    "'w ev_rtc_actor_ctx \<Rightarrow> 'w \<Rightarrow> ev_result \<times> ev_time_payload \<times> 'w" where
  "ev_rtc_actor_read_time_payload ctx w =
     (if rt_i2c_port ctx = None \<or> i2_read_regs (the (rt_i2c_port ctx)) = None
      then (EV_ERR_INVALID_ARG, zero_time_payload, w)
      else
        let (status, raw_time, w) = the (i2_read_regs (the (rt_i2c_port ctx))) (rt_port_num ctx) (rt_device_address_7bit ctx)
              EV_RTC_REG_SECONDS (replicate EV_RTC_TIME_BYTES 0) w
        in if status \<noteq> EV_I2C_OK then (EV_ERR_STATE, zero_time_payload, w)
           else
             let p = decode_registers raw_time
             in if \<not> ev_rtc_actor_payload_is_valid p then (EV_OK, p, w)
                else (EV_OK, p\<lparr>tp_unix_time := ev_rtc_actor_build_unix_time p\<rparr>, w))"

text \<open>A valid time: it becomes the last one; the first one is announced, and one that changed is published.\<close>

definition accept_time ::
    "'w ev_lifecycle \<Rightarrow> ev_time_payload \<Rightarrow> 'w ev_rtc_actor_ctx \<Rightarrow> 'w \<Rightarrow> ev_result \<times> 'w ev_rtc_actor_ctx \<times> 'w" where
  "accept_time lc p ctx w =
     (let changed = (\<not> rt_time_valid ctx \<or> \<not> ev_rtc_actor_payload_equals (rt_last_time ctx) p);
          was_valid = rt_time_valid ctx;
          ctx = ctx\<lparr>rt_last_time := p, rt_time_valid := True\<rparr>;
          (rc, w) = (if \<not> was_valid then ev_rtc_actor_publish_ready lc ctx w else (EV_OK, w))
      in if rc \<noteq> EV_OK then (rc, ctx, w)
         else if \<not> changed then (EV_OK, ctx, w)
         else ev_rtc_actor_publish_time_update lc ctx p w)"

definition ev_rtc_actor_try_refresh_time ::
    "'w ev_lifecycle \<Rightarrow> bool \<Rightarrow> 'w ev_rtc_actor_ctx \<Rightarrow> 'w \<Rightarrow> ev_result \<times> 'w ev_rtc_actor_ctx \<times> 'w" where
  "ev_rtc_actor_try_refresh_time lc fallback_poll ctx w =
     (let ctx = (if fallback_poll then ctx\<lparr>rt_fallback_polls := rt_fallback_polls ctx + 1\<rparr> else ctx);
          (rc, p, w) = ev_rtc_actor_read_time_payload ctx w
      in if rc \<noteq> EV_OK then (EV_OK, ctx\<lparr>rt_read_failures := rt_read_failures ctx + 1\<rparr>, w)
         else if \<not> ev_rtc_actor_payload_is_valid p then (EV_OK, ctx\<lparr>rt_read_failures := rt_read_failures ctx + 1\<rparr>, w)
         else accept_time lc p ctx w)"

text \<open>\<open>mem\<close> is the memory from a payload pointer on; an interrupt sample takes eight bytes.\<close>

definition ev_rtc_actor_handle_gpio_irq ::
    "'w ev_lifecycle \<Rightarrow> (ev_payload_ref \<Rightarrow> u8 list) \<Rightarrow> 'w ev_rtc_actor_ctx \<Rightarrow> ev_msg \<Rightarrow> 'w
       \<Rightarrow> ev_result \<times> 'w ev_rtc_actor_ctx \<times> 'w" where
  "ev_rtc_actor_handle_gpio_irq lc mem ctx msg w =
     (case ev_msg_payload_data (Some msg) of
        None \<Rightarrow> (EV_ERR_CONTRACT, ctx, w)
      | Some r \<Rightarrow>
          if ev_msg_payload_size (Some msg) \<noteq> 8 then (EV_ERR_CONTRACT, ctx, w)
          else
            let b = mem r
            in if b ! 0 \<noteq> rt_sqw_line_id ctx \<or> b ! 1 \<noteq> EV_IRQ_EDGE_FALLING \<or> b ! 2 \<noteq> 0 then (EV_OK, ctx, w)
               else ev_rtc_actor_try_refresh_time lc False
                 (ctx\<lparr>rt_irq_samples_seen := rt_irq_samples_seen ctx + 1, rt_ticks_since_last_irq := 0\<rparr>) w)"

definition ev_rtc_actor_init ::
    "'w ev_rtc_actor_ctx option \<Rightarrow> 'w ev_i2c_port option \<Rightarrow> 'w ev_irq_port option \<Rightarrow> ev_i2c_port_num \<Rightarrow> u8 \<Rightarrow> ev_irq_line_id
       \<Rightarrow> 'w ev_delivery_fn option \<Rightarrow> ptr \<Rightarrow> ev_result \<times> 'w ev_rtc_actor_ctx option" where
  "ev_rtc_actor_init ctx i2c_port irq_port port_num device_address_7bit sqw_line_id deliver deliver_context =
     (if ctx = None \<or> i2c_port = None \<or> i2_read_regs (the i2c_port) = None \<or> i2_write_regs (the i2c_port) = None
         \<or> irq_port = None \<or> iq_enable (the irq_port) = None \<or> deliver = None \<or> deliver_context = None
         \<or> 0x7F < device_address_7bit
      then (EV_ERR_INVALID_ARG, ctx)
      else (EV_OK, Some \<lparr>rt_i2c_port = i2c_port, rt_irq_port = irq_port, rt_port_num = port_num,
        rt_device_address_7bit = device_address_7bit, rt_sqw_line_id = sqw_line_id, rt_deliver = deliver,
        rt_deliver_context = deliver_context, rt_sqw_enabled = False, rt_time_valid = False,
        rt_last_time = zero_time_payload, rt_irq_samples_seen = 0, rt_published_updates = 0, rt_fallback_polls = 0,
        rt_read_failures = 0, rt_ticks_since_last_irq = 0\<rparr>))"

definition ev_rtc_actor_handle ::
    "'w ev_lifecycle \<Rightarrow> (ev_payload_ref \<Rightarrow> u8 list) \<Rightarrow> 'w ev_rtc_actor_ctx option \<Rightarrow> ev_msg option \<Rightarrow> 'w
       \<Rightarrow> ev_result \<times> 'w ev_rtc_actor_ctx option \<times> 'w" where
  "ev_rtc_actor_handle lc mem actor_context msg w =
     (if actor_context = None \<or> msg = None then (EV_ERR_INVALID_ARG, actor_context, w)
      else
        let ctx = the actor_context; e = msg_event_id (the msg);
            (rc, ctx, w) =
              (if e = EV_BOOT_COMPLETED then ev_rtc_actor_try_refresh_time lc False ctx w
               else if e = EV_MCP23008_READY
               then let (rc, w) = ev_rtc_actor_enable_square_wave ctx w in (EV_OK, ctx\<lparr>rt_sqw_enabled := (rc = EV_OK)\<rparr>, w)
               else if e = EV_GPIO_IRQ then ev_rtc_actor_handle_gpio_irq lc mem ctx (the msg) w
               else if e = EV_TICK_1S
               then
                 let ctx = ctx\<lparr>rt_ticks_since_last_irq := rt_ticks_since_last_irq ctx + 1\<rparr>
                 in if \<not> rt_sqw_enabled ctx \<or> EV_RTC_FALLBACK_POLL_THRESHOLD_TICKS \<le> rt_ticks_since_last_irq ctx
                    then ev_rtc_actor_try_refresh_time lc True ctx w else (EV_OK, ctx, w)
               else (EV_ERR_CONTRACT, ctx, w))
        in (rc, Some ctx, w))"

section \<open>The calendar\<close>

text \<open>The Gregorian rules, on natural numbers.\<close>

definition leap :: "nat \<Rightarrow> bool" where
  "leap y \<longleftrightarrow> 4 dvd y \<and> (\<not> 100 dvd y \<or> 400 dvd y)"

definition month_days :: "nat \<Rightarrow> nat \<Rightarrow> nat" where
  "month_days y m = (if m = 2 then if leap y then 29 else 28 else if m \<in> {4, 6, 9, 11} then 30 else 31)"

definition valid_date :: "nat \<Rightarrow> nat \<Rightarrow> nat \<Rightarrow> bool" where
  "valid_date y m d \<longleftrightarrow> 1 \<le> m \<and> m \<le> 12 \<and> 1 \<le> d \<and> d \<le> month_days y m"

text \<open>The days from the beginning of 1970 up to a date, the date not included.\<close>

definition dates_before :: "nat \<Rightarrow> nat \<Rightarrow> nat \<Rightarrow> (nat \<times> nat \<times> nat) set" where
  "dates_before y m d = {(y', m', d'). 1970 \<le> y' \<and> valid_date y' m' d'
     \<and> (y' < y \<or> y' = y \<and> (m' < m \<or> m' = m \<and> d' < d))}"

definition unix_seconds :: "nat \<Rightarrow> nat \<Rightarrow> nat \<Rightarrow> nat \<Rightarrow> nat \<Rightarrow> nat \<Rightarrow> nat" where
  "unix_seconds y m d h mi s = 86400 * card (dates_before y m d) + 3600 * h + 60 * mi + s"

definition year_days :: "nat \<Rightarrow> nat" where
  "year_days y = (if leap y then 366 else 365)"

lemma year_days_sum: "(\<Sum>m = 1..12. month_days y m) = year_days y"
  by (simp add: month_days_def year_days_def numeral_eq_Suc)

lemma card_dates_before:
  assumes "valid_date y m d" and "1970 \<le> y"
  shows "card (dates_before y m d) = (\<Sum>y' = 1970..<y. year_days y') + (\<Sum>m' = 1..<m. month_days y m') + (d - 1)"
proof -
  let ?A = "SIGMA y':{1970..<y}. SIGMA m':{1..12}. {1..month_days y' m'}"
  let ?B = "{y} \<times> (SIGMA m':{1..<m}. {1..month_days y m'})"
  let ?C = "{y} \<times> {m} \<times> {1..<d}"
  have eq: "dates_before y m d = ?A \<union> ?B \<union> ?C"
    using assms by (auto simp: dates_before_def valid_date_def)
  have "finite ?A" "finite ?B" "finite ?C" by simp_all
  moreover have "?A \<inter> ?B = {}" "(?A \<union> ?B) \<inter> ?C = {}" by auto
  ultimately have "card (dates_before y m d) = card ?A + card ?B + card ?C"
    unfolding eq by (simp only: card_Un_disjoint finite_UnI)
  also have "card ?A = (\<Sum>y' = 1970..<y. year_days y')" by (simp add: year_days_sum [simplified])
  also have "card ?B = (\<Sum>m' = 1..<m. month_days y m')" by (simp add: card_cartesian_product)
  finally show ?thesis by (simp add: card_cartesian_product)
qed

section \<open>The code against the calendar\<close>

lemma leap_year_eq: "ev_rtc_actor_is_leap_year y \<longleftrightarrow> leap (unat y)"
proof -
  have m: "(y mod 400 = 0) = (unat y mod 400 = 0)" "(y mod 100 = 0) = (unat y mod 100 = 0)" "(y mod 4 = 0) = (unat y mod 4 = 0)"
    by (simp_all add: word_unat_eq_iff unat_mod)
  have "400 dvd n \<Longrightarrow> 4 dvd n" for n :: nat by (rule dvd_trans [of 4 400]) simp_all
  then show ?thesis
    unfolding ev_rtc_actor_is_leap_year_def leap_def m dvd_eq_mod_eq_0 [symmetric] by meson
qed

lemma month_cases: "1 \<le> unat m \<Longrightarrow> unat m \<le> 12 \<Longrightarrow> m \<in> {1, 2, 3, 4, 5, 6, 7, 8, 9, 10, 11, 12}" for m :: u8
proof -
  assume "1 \<le> unat m" "unat m \<le> 12"
  then have "unat m \<in> {1, 2, 3, 4, 5, 6, 7, 8, 9, 10, 11, 12}" by (simp only: insert_iff empty_iff) presburger
  then show ?thesis by (simp add: word_unat_eq_iff)
qed

lemma days_in_month_eq:
  assumes "1 \<le> unat m" and "unat m \<le> 12"
  shows "unat (ev_rtc_actor_days_in_month y m) = month_days (unat y) (unat m)"
  using month_cases [OF assms]
  by (elim insertE emptyE) (simp_all add: ev_rtc_actor_days_in_month_def month_days_def k_days_in_month_def leap_year_eq)

lemma years_loop_eq:
  "year \<le> until \<Longrightarrow> years_loop year until days = days + of_nat (\<Sum>y = unat year..<unat until. year_days y)"
proof (induction year until days rule: years_loop.induct)
  case (1 year until days)
  show ?case
  proof (cases "year < until")
    case True
    then have u: "unat (year + 1) = Suc (unat year)" "unat year < unat until" by (simp_all add: unat_inc word_less_nat_alt)
    then have "year + 1 \<le> until" by (simp add: word_le_nat_alt)
    then show ?thesis
      using 1(1) [OF True] True u
      by (subst years_loop.simps) (simp add: sum.atLeast_Suc_lessThan [of "unat year"] year_days_def leap_year_eq)
  next
    case False
    then show ?thesis using 1(2) by (subst years_loop.simps) simp
  qed
qed

lemma months_loop_eq:
  "1 \<le> unat month \<Longrightarrow> month \<le> until \<Longrightarrow> unat until \<le> 13 \<Longrightarrow>
     months_loop year month until days = days + of_nat (\<Sum>m = unat month..<unat until. month_days (unat year) m)"
proof (induction year month until days rule: months_loop.induct)
  case (1 year month until days)
  show ?case
  proof (cases "month < until")
    case True
    then have u: "unat (month + 1) = Suc (unat month)" "unat month < unat until" by (simp_all add: unat_inc word_less_nat_alt)
    then have "month + 1 \<le> until" by (simp add: word_le_nat_alt)
    moreover have "ucast (ev_rtc_actor_days_in_month year month) = (of_nat (month_days (unat year) (unat month)) :: u32)"
    proof -
      have "unat (ev_rtc_actor_days_in_month year month) = month_days (unat year) (unat month)"
        using days_in_month_eq [of month year] 1(2,4) u by simp
      then show ?thesis by (metis of_nat_unat)
    qed
    ultimately show ?thesis
      using 1(1) [OF True] True u 1(2,4)
      by (subst months_loop.simps) (simp add: sum.atLeast_Suc_lessThan [of "unat month"])
  next
    case False
    then show ?thesis using 1(3) by (subst months_loop.simps) simp
  qed
qed

lemma valid_payload_date:
  assumes "ev_rtc_actor_payload_is_valid p"
  shows "valid_date (unat (tp_year p)) (unat (tp_month p)) (unat (tp_day p))"
proof -
  have v: "tp_month p \<noteq> 0" "\<not> 12 < tp_month p" "tp_day p \<noteq> 0" "\<not> ev_rtc_actor_days_in_month (tp_year p) (tp_month p) < tp_day p"
    using assms by (simp_all add: ev_rtc_actor_payload_is_valid_def split: if_splits)
  have m: "1 \<le> unat (tp_month p)" "unat (tp_month p) \<le> 12" "1 \<le> unat (tp_day p)"
    using v(1-3) by (simp_all add: word_less_nat_alt unat_eq_0 Suc_le_eq flip: neq0_conv)
  moreover have "unat (tp_day p) \<le> month_days (unat (tp_year p)) (unat (tp_month p))"
    using v(4) by (simp only: not_less word_le_nat_alt days_in_month_eq [OF m(1,2)])
  ultimately show ?thesis by (simp add: valid_date_def)
qed

lemma unix_time_eq:
  assumes v: "ev_rtc_actor_payload_is_valid p" and y: "1970 \<le> unat (tp_year p)"
  shows "ev_rtc_actor_build_unix_time p = of_nat (unix_seconds (unat (tp_year p)) (unat (tp_month p)) (unat (tp_day p))
     (unat (tp_hours p)) (unat (tp_minutes p)) (unat (tp_seconds p)))"
proof -
  note d = valid_payload_date [OF v]
  have "EV_RTC_UNIX_EPOCH_YEAR \<le> tp_year p" "1 \<le> tp_month p" "1 \<le> unat (tp_day p)" "unat (tp_month p) \<le> 12"
    using d y by (auto simp: word_le_nat_alt valid_date_def)
  moreover have "ucast (tp_day p) - 1 = (of_nat (unat (tp_day p) - 1) :: u32)"
    using d by (simp add: valid_date_def of_nat_diff)
  ultimately show ?thesis
    by (simp add: ev_rtc_actor_build_unix_time_def years_loop_eq [of 1970, simplified] months_loop_eq unix_seconds_def card_dates_before [OF d y] Let_def
        algebra_simps)
qed

section \<open>What the clock's registers hold\<close>

text \<open>
  The registers of the DS3231 for a date and a time of day: binary-coded decimals, the century in the month's top
  bit, and the hour in the 24-hour or in the 12-hour form.
\<close>

definition bcd :: "nat \<Rightarrow> u8" where
  "bcd n = of_nat (16 * (n div 10) + n mod 10)"

definition hour_register :: "bool \<Rightarrow> nat \<Rightarrow> u8" where
  "hour_register twelve h =
     (if twelve then 0x40 OR (if 12 \<le> h then 0x20 else 0) OR bcd (if h mod 12 = 0 then 12 else h mod 12) else bcd h)"

definition month_register :: "bool \<Rightarrow> nat \<Rightarrow> u8" where
  "month_register century n = (if century then 0x80 else 0) OR bcd n"

definition time_registers :: "bool \<Rightarrow> nat \<Rightarrow> nat \<Rightarrow> nat \<Rightarrow> nat \<Rightarrow> nat \<Rightarrow> nat \<Rightarrow> nat \<Rightarrow> u8 list" where
  "time_registers twelve y m d wd h mi s =
     [bcd s, bcd mi, hour_register twelve h, bcd wd, bcd d, month_register (2100 \<le> y) m, bcd (y mod 100)]"

lemma list_all_uptD: "list_all P [0..<n] \<Longrightarrow> k < n \<Longrightarrow> P k"
  by (simp add: list_all_iff)

lemma bcd_sixty: "n < 60 \<Longrightarrow> ev_rtc_actor_bcd_to_decimal (bcd n AND 0x7F) = of_nat n"
  by (rule list_all_uptD [of "\<lambda>n. ev_rtc_actor_bcd_to_decimal (bcd n AND 0x7F) = of_nat n" 60]) code_simp

lemma bcd_hundred: "n < 100 \<Longrightarrow> ev_rtc_actor_bcd_to_decimal (bcd n) = of_nat n"
  by (rule list_all_uptD [of "\<lambda>n. ev_rtc_actor_bcd_to_decimal (bcd n) = of_nat n" 100]) code_simp

lemma bcd_weekday: "n < 8 \<Longrightarrow> ev_rtc_actor_bcd_to_decimal (bcd n AND 0x07) = of_nat n"
  by (rule list_all_uptD [of "\<lambda>n. ev_rtc_actor_bcd_to_decimal (bcd n AND 0x07) = of_nat n" 8]) code_simp

lemma bcd_day: "n < 32 \<Longrightarrow> ev_rtc_actor_bcd_to_decimal (bcd n AND 0x3F) = of_nat n"
  by (rule list_all_uptD [of "\<lambda>n. ev_rtc_actor_bcd_to_decimal (bcd n AND 0x3F) = of_nat n" 32]) code_simp

lemma bcd_month:
  assumes "n < 13"
  shows "ev_rtc_actor_bcd_to_decimal (month_register c n AND 0x1F) = of_nat n"
    and "month_register c n AND 0x80 \<noteq> 0 \<longleftrightarrow> c"
proof -
  let ?P = "\<lambda>c n. ev_rtc_actor_bcd_to_decimal (month_register c n AND 0x1F) = of_nat n
      \<and> (month_register c n AND 0x80 \<noteq> 0) = c"
  have "list_all (?P False) [0..<13]" "list_all (?P True) [0..<13]" by code_simp+
  then have "?P c n" using assms list_all_uptD [of "?P c" 13 n] by (cases c) simp_all
  then show "ev_rtc_actor_bcd_to_decimal (month_register c n AND 0x1F) = of_nat n"
    and "month_register c n AND 0x80 \<noteq> 0 \<longleftrightarrow> c" by blast+
qed

lemma hour_roundtrip:
  assumes "h < 24"
  shows "ev_rtc_actor_decode_hours (hour_register twelve h) = of_nat h"
proof -
  let ?P = "\<lambda>t h. ev_rtc_actor_decode_hours (hour_register t h) = of_nat h"
  have "list_all (?P False) [0..<24]" "list_all (?P True) [0..<24]" by code_simp+
  then show ?thesis using assms list_all_uptD [of "?P twelve" 24 h] by (cases twelve) simp_all
qed

lemma valid_with_unix: "ev_rtc_actor_payload_is_valid (p\<lparr>tp_unix_time := u\<rparr>) = ev_rtc_actor_payload_is_valid p"
  by (cases p) (simp only: ev_rtc_actor_payload_is_valid_def ev_time_payload.simps)

lemma month_days_bound: "month_days y m \<le> 31"
  by (simp add: month_days_def)

text \<open>The UNIX time fits 32 bits until the end of 2105.\<close>

lemma unix_seconds_fits:
  assumes "valid_date y m d" and "1970 \<le> y" and "y \<le> 2105" and "h < 24" and "mi < 60" and "s < 60"
  shows "unix_seconds y m d h mi s < 2 ^ 32"
proof -
  have "sum_list (map year_days [1970..<2106]) = 49673"
    by (simp add: year_days_def leap_def)
  then have years: "(\<Sum>y' = 1970..<2106. year_days y') = 49673"
    by (simp only: interv_sum_list_conv_sum_set_nat set_upt)
  have "dates_before y m d \<subseteq> dates_before 2106 1 1" using assms(3) by (auto simp: dates_before_def)
  moreover have "card (dates_before 2106 1 1) = 49673"
  proof -
    have "valid_date 2106 1 1" by (simp add: valid_date_def month_days_def)
    from card_dates_before [OF this] years show ?thesis by (simp only: atLeastLessThan_empty order_refl sum.empty diff_self_eq_0 add_0_right
        numeral_le_iff semiring_norm)
  qed
  moreover have "finite (dates_before 2106 1 1)" using calculation(2) by (intro card_ge_0_finite) simp
  moreover have "(y, m, d) \<in> dates_before 2106 1 1" "(y, m, d) \<notin> dates_before y m d"
    using assms by (auto simp: dates_before_def)
  ultimately have "card (dates_before y m d) < 49673" by (metis psubset_card_mono psubsetI)
  then show ?thesis using assms(4-6) by (simp add: unix_seconds_def)
qed

text \<open>
  C26: when the clock's registers hold a date between 2000 and 2199 and a time of day, in either hour form, reading
  them yields that date and time as a valid payload, and as its UNIX time the seconds since the beginning of 1970,
  the days counted on the Gregorian calendar, modulo 2 to the 32; until the end of 2105 exactly that many.
\<close>

theorem registers_read_back:
  assumes date: "valid_date y m d" "2000 \<le> y" "y < 2200" and wd: "1 \<le> wd" "wd \<le> 7"
    and time: "h < 24" "mi < 60" "s < 60"
    and port: "rt_i2c_port ctx = Some port" "i2_read_regs port = Some read"
    and bus: "read (rt_port_num ctx) (rt_device_address_7bit ctx) EV_RTC_REG_SECONDS (replicate EV_RTC_TIME_BYTES 0) w
      = (EV_I2C_OK, time_registers twelve y m d wd h mi s, w')"
  shows "\<exists>p. ev_rtc_actor_read_time_payload ctx w = (EV_OK, p, w') \<and> ev_rtc_actor_payload_is_valid p
     \<and> unat (tp_year p) = y \<and> unat (tp_month p) = m \<and> unat (tp_day p) = d \<and> unat (tp_weekday p) = wd
     \<and> unat (tp_hours p) = h \<and> unat (tp_minutes p) = mi \<and> unat (tp_seconds p) = s
     \<and> tp_unix_time p = of_nat (unix_seconds y m d h mi s)
     \<and> (y \<le> 2105 \<longrightarrow> unat (tp_unix_time p) = unix_seconds y m d h mi s)"
proof -
  let ?p = "decode_registers (time_registers twelve y m d wd h mi s)"
  let ?q = "?p\<lparr>tp_unix_time := ev_rtc_actor_build_unix_time ?p\<rparr>"
  have m: "1 \<le> m" "m \<le> 12" "1 \<le> d" "d \<le> 31"
    using date month_days_bound [of y m] by (auto simp: valid_date_def)
  have f: "tp_month ?p = of_nat m" "tp_day ?p = of_nat d" "tp_weekday ?p = of_nat wd" "tp_hours ?p = of_nat h"
    "tp_minutes ?p = of_nat mi" "tp_seconds ?p = of_nat s"
    using m wd time by (simp_all add: decode_registers_def time_registers_def bcd_weekday bcd_day bcd_month bcd_sixty hour_roundtrip Let_def)
  have year: "tp_year ?p = of_nat y"
  proof -
    have "tp_year ?p = 2000 + ucast (of_nat (y mod 100) :: u8) + (if 2100 \<le> y then 100 else 0)"
      using m by (simp add: decode_registers_def time_registers_def bcd_month bcd_hundred Let_def)
    also have "ucast (of_nat (y mod 100) :: u8) = (of_nat (y mod 100) :: u16)"
      by (simp add: unsigned_of_nat take_bit_nat_eq_self)
    also have "2000 + of_nat (y mod 100) + (if 2100 \<le> y then 100 else 0) = (of_nat (2000 + y mod 100 + (if 2100 \<le> y then 100 else 0)) :: u16)"
      by simp
    also have "2000 + y mod 100 + (if 2100 \<le> y then 100 else 0) = y"
    proof -
      have "y div 100 = (if 2100 \<le> y then 21 else 20)" using date(2,3) by (simp, linarith)
      then show ?thesis using div_mult_mod_eq [of y 100] by (simp split: if_splits)
    qed
    finally show ?thesis .
  qed
  have u: "unat (tp_month ?p) = m" "unat (tp_day ?p) = d" "unat (tp_weekday ?p) = wd" "unat (tp_hours ?p) = h"
    "unat (tp_minutes ?p) = mi" "unat (tp_seconds ?p) = s" "unat (tp_year ?p) = y"
    unfolding f year using m wd time date by (simp_all add: unat_of_nat)
  have valid: "ev_rtc_actor_payload_is_valid ?p"
    using m wd time date u days_in_month_eq [of "tp_month ?p" "tp_year ?p"]
    by (simp add: ev_rtc_actor_payload_is_valid_def valid_date_def word_less_nat_alt word_unat_eq_iff)
  have unix: "ev_rtc_actor_build_unix_time ?p = of_nat (unix_seconds y m d h mi s)"
    using unix_time_eq [OF valid] u date by simp
  have fits: "y \<le> 2105 \<Longrightarrow> unix_seconds y m d h mi s < 2 ^ 32"
    using unix_seconds_fits date time by simp
  have "ev_rtc_actor_read_time_payload ctx w = (EV_OK, ?q, w')"
    using valid by (simp add: ev_rtc_actor_read_time_payload_def port bus Let_def)
  moreover have "ev_rtc_actor_payload_is_valid ?q" using valid by (simp only: valid_with_unix)
  ultimately show ?thesis
    using u unix fits by (intro exI [of _ ?q]) (simp add: unat_of_nat)
qed

text \<open>A leap day, two seconds before midnight, in the 12-hour form.\<close>

definition demo_rtc_port :: "unit ev_i2c_port" where
  "demo_rtc_port = \<lparr>i2_ctx = Some 1, i2_write_stream = None, i2_read_stream = None,
     i2_write_regs = Some (\<lambda>n a r b w. (EV_I2C_OK, w)),
     i2_read_regs = Some (\<lambda>n a r b w. (EV_I2C_OK, time_registers True 2024 2 29 4 23 59 58, w))\<rparr>"

definition demo_rtc :: "unit ev_rtc_actor_ctx" where
  "demo_rtc = \<lparr>rt_i2c_port = Some demo_rtc_port, rt_irq_port = None, rt_port_num = 0, rt_device_address_7bit = 0x68,
     rt_sqw_line_id = 0, rt_deliver = None, rt_deliver_context = None, rt_sqw_enabled = False, rt_time_valid = False,
     rt_last_time = zero_time_payload, rt_irq_samples_seen = 0, rt_published_updates = 0, rt_fallback_polls = 0,
     rt_read_failures = 0, rt_ticks_since_last_irq = 0\<rparr>"

theorem registers_read_back_witness:
  "\<exists>p. ev_rtc_actor_read_time_payload demo_rtc () = (EV_OK, p, ()) \<and> unat (tp_day p) = 29 \<and> unat (tp_hours p) = 23
     \<and> unat (tp_unix_time p) = unix_seconds 2024 2 29 23 59 58"
proof -
  have "valid_date 2024 2 29" by (simp add: valid_date_def month_days_def leap_def)
  moreover have "rt_i2c_port demo_rtc = Some demo_rtc_port"
    "i2_read_regs demo_rtc_port = Some (\<lambda>n a r b w. (EV_I2C_OK, time_registers True 2024 2 29 4 23 59 58, w))"
    by (simp_all add: demo_rtc_def demo_rtc_port_def)
  ultimately show ?thesis
    using registers_read_back [of 2024 2 29 4 23 59 58 demo_rtc demo_rtc_port _ "()" True "()"] by auto
qed

end
