(* ===== verification/EvBh1750Actor.thy ===== *)
theory EvBh1750Actor
  imports EvDeviceIo
begin

text \<open>
  The light sensor: its driver (\<open>drivers/src/ev_bh1750_driver.c\<close>) and its actor
  (\<open>actors/device/ev_bh1750_actor.c\<close>). The actor starts a measurement, waits for it on the 100 ms ticks, reads
  and publishes it and starts the next one. After a failure it stays off the bus for a second, and for a time that
  doubles up to ten seconds while starts go on failing.
\<close>

section \<open>The driver\<close>

text \<open>The mode is an enumeration whose unlisted values the code handles.\<close>

type_synonym ev_bh1750_mode = u32

abbreviation EV_BH1750_MODE_CONTINUOUS_HIGH_RES :: ev_bh1750_mode where "EV_BH1750_MODE_CONTINUOUS_HIGH_RES \<equiv> 0x10"
abbreviation EV_BH1750_MODE_CONTINUOUS_HIGH_RES_2 :: ev_bh1750_mode where "EV_BH1750_MODE_CONTINUOUS_HIGH_RES_2 \<equiv> 0x11"
abbreviation EV_BH1750_MODE_CONTINUOUS_LOW_RES :: ev_bh1750_mode where "EV_BH1750_MODE_CONTINUOUS_LOW_RES \<equiv> 0x13"
abbreviation EV_BH1750_MODE_ONE_TIME_HIGH_RES :: ev_bh1750_mode where "EV_BH1750_MODE_ONE_TIME_HIGH_RES \<equiv> 0x20"
abbreviation EV_BH1750_MODE_ONE_TIME_HIGH_RES_2 :: ev_bh1750_mode where "EV_BH1750_MODE_ONE_TIME_HIGH_RES_2 \<equiv> 0x21"
abbreviation EV_BH1750_MODE_ONE_TIME_LOW_RES :: ev_bh1750_mode where "EV_BH1750_MODE_ONE_TIME_LOW_RES \<equiv> 0x23"
abbreviation EV_BH1750_ADDR_LOW_7BIT :: u8 where "EV_BH1750_ADDR_LOW_7BIT \<equiv> 0x23"
abbreviation EV_BH1750_ADDR_HIGH_7BIT :: u8 where "EV_BH1750_ADDR_HIGH_7BIT \<equiv> 0x5C"
abbreviation EV_BH1750_CMD_POWER_DOWN :: u8 where "EV_BH1750_CMD_POWER_DOWN \<equiv> 0x00"
abbreviation EV_BH1750_CMD_POWER_ON :: u8 where "EV_BH1750_CMD_POWER_ON \<equiv> 0x01"
abbreviation EV_BH1750_READ_BYTES :: nat where "EV_BH1750_READ_BYTES \<equiv> 2"

fun ev_bh1750_map_i2c_status :: "ev_i2c_status \<Rightarrow> ev_result" where
  "ev_bh1750_map_i2c_status EV_I2C_OK = EV_OK"
| "ev_bh1750_map_i2c_status EV_I2C_ERR_NACK = EV_ERR_NOT_FOUND"
| "ev_bh1750_map_i2c_status EV_I2C_ERR_TIMEOUT = EV_ERR_TIMEOUT"
| "ev_bh1750_map_i2c_status EV_I2C_ERR_BUS_LOCKED = EV_ERR_STATE"

definition ev_bh1750_port_is_valid :: "'w ev_i2c_port option \<Rightarrow> ev_result" where
  "ev_bh1750_port_is_valid port =
     (case port of None \<Rightarrow> EV_ERR_INVALID_ARG
      | Some p \<Rightarrow> if i2_ctx p = None \<or> i2_write_stream p = None \<or> i2_read_stream p = None then EV_ERR_INVALID_ARG else EV_OK)"

definition ev_bh1750_validate_addr7 :: "u8 \<Rightarrow> ev_result" where
  "ev_bh1750_validate_addr7 addr7 =
     (if addr7 = EV_BH1750_ADDR_LOW_7BIT \<or> addr7 = EV_BH1750_ADDR_HIGH_7BIT then EV_OK
      else if 128 \<le> addr7 then EV_ERR_OUT_OF_RANGE else EV_ERR_INVALID_ARG)"

definition ev_bh1750_validate_mode :: "ev_bh1750_mode \<Rightarrow> ev_result" where
  "ev_bh1750_validate_mode mode =
     (if mode \<in> {EV_BH1750_MODE_CONTINUOUS_HIGH_RES, EV_BH1750_MODE_CONTINUOUS_HIGH_RES_2, EV_BH1750_MODE_CONTINUOUS_LOW_RES,
                 EV_BH1750_MODE_ONE_TIME_HIGH_RES, EV_BH1750_MODE_ONE_TIME_HIGH_RES_2, EV_BH1750_MODE_ONE_TIME_LOW_RES}
      then EV_OK else EV_ERR_INVALID_ARG)"

definition ev_bh1750_write_command ::
    "'w ev_i2c_port option \<Rightarrow> ev_i2c_port_num \<Rightarrow> u8 \<Rightarrow> u8 \<Rightarrow> 'w \<Rightarrow> ev_result \<times> 'w" where
  "ev_bh1750_write_command port port_num addr7 command w =
     (let rc = ev_bh1750_port_is_valid port
      in if rc \<noteq> EV_OK then (rc, w)
         else
           let rc = ev_bh1750_validate_addr7 addr7
           in if rc \<noteq> EV_OK then (rc, w)
              else
                let (status, w) = the (i2_write_stream (the port)) port_num addr7 [command] w
                in (ev_bh1750_map_i2c_status status, w))"

definition ev_bh1750_power_on :: "'w ev_i2c_port option \<Rightarrow> ev_i2c_port_num \<Rightarrow> u8 \<Rightarrow> 'w \<Rightarrow> ev_result \<times> 'w" where
  "ev_bh1750_power_on port port_num addr7 w = ev_bh1750_write_command port port_num addr7 EV_BH1750_CMD_POWER_ON w"

definition ev_bh1750_power_down :: "'w ev_i2c_port option \<Rightarrow> ev_i2c_port_num \<Rightarrow> u8 \<Rightarrow> 'w \<Rightarrow> ev_result \<times> 'w" where
  "ev_bh1750_power_down port port_num addr7 w = ev_bh1750_write_command port port_num addr7 EV_BH1750_CMD_POWER_DOWN w"

definition ev_bh1750_start_measurement ::
    "'w ev_i2c_port option \<Rightarrow> ev_i2c_port_num \<Rightarrow> u8 \<Rightarrow> ev_bh1750_mode \<Rightarrow> 'w \<Rightarrow> ev_result \<times> 'w" where
  "ev_bh1750_start_measurement port port_num addr7 mode w =
     (let rc = ev_bh1750_validate_mode mode
      in if rc \<noteq> EV_OK then (rc, w) else ev_bh1750_write_command port port_num addr7 (ucast mode) w)"

definition ev_bh1750_raw_to_milli_lux :: "u16 \<Rightarrow> u32" where
  "ev_bh1750_raw_to_milli_lux raw = (ucast raw * 5000 + 3) div 6"

text \<open>The raw value and the light, when the result is \<open>EV_OK\<close>.\<close>

definition ev_bh1750_read_measurement ::
    "'w ev_i2c_port option \<Rightarrow> ev_i2c_port_num \<Rightarrow> u8 \<Rightarrow> 'w \<Rightarrow> ev_result \<times> (u16 \<times> u32) \<times> 'w" where
  "ev_bh1750_read_measurement port port_num addr7 w =
     (let rc = ev_bh1750_port_is_valid port
      in if rc \<noteq> EV_OK then (rc, (0, 0), w)
         else
           let rc = ev_bh1750_validate_addr7 addr7
           in if rc \<noteq> EV_OK then (rc, (0, 0), w)
              else
                let (status, bytes, w) = the (i2_read_stream (the port)) port_num addr7 (replicate EV_BH1750_READ_BYTES 0) w;
                    rc = ev_bh1750_map_i2c_status status
                in if rc \<noteq> EV_OK then (rc, (0, 0), w)
                   else
                     let raw = push_bit 8 (ucast (bytes ! 0)) OR ucast (bytes ! 1)
                     in (EV_OK, (raw, ev_bh1750_raw_to_milli_lux raw), w))"

definition ev_bh1750_measurement_wait_ms :: "ev_bh1750_mode \<Rightarrow> u16" where
  "ev_bh1750_measurement_wait_ms mode =
     (if mode \<in> {EV_BH1750_MODE_CONTINUOUS_LOW_RES, EV_BH1750_MODE_ONE_TIME_LOW_RES} then 24
      else if mode \<in> {EV_BH1750_MODE_CONTINUOUS_HIGH_RES, EV_BH1750_MODE_CONTINUOUS_HIGH_RES_2,
                      EV_BH1750_MODE_ONE_TIME_HIGH_RES, EV_BH1750_MODE_ONE_TIME_HIGH_RES_2} then 180
      else 0)"

section \<open>The actor\<close>

record 'w ev_bh1750_actor_ctx =
  bh_i2c_port :: "'w ev_i2c_port option"
  bh_deliver :: "'w ev_delivery_fn option"
  bh_deliver_context :: ptr
  bh_port_num :: ev_i2c_port_num
  bh_addr7 :: u8
  bh_mode :: ev_bh1750_mode
  bh_measurement_wait_ms :: u16
  bh_actor_now_ms :: u32
  bh_measurement_deadline_ms :: u32
  bh_retry_deadline_ms :: u32
  bh_retry_backoff_ms :: u32
  bh_measurement_pending :: bool
  bh_sensor_present :: bool
  bh_ready_published :: bool
  bh_last_read_ok :: bool
  bh_light_valid :: bool
  bh_last_raw :: u16
  bh_last_milli_lux :: u32
  bh_measurements_started :: u32
  bh_measurements_ok :: u32
  bh_no_device_failures :: u32
  bh_io_failures :: u32
  bh_optional_retry_backoffs :: u32
  bh_optional_retry_skips :: u32
  bh_deadline_skips :: u32
  bh_noncanonical_ticks_ignored :: u32

abbreviation EV_BH1750_TICK_100MS_DELTA_MS :: u32 where "EV_BH1750_TICK_100MS_DELTA_MS \<equiv> 100"
abbreviation EV_BH1750_OPTIONAL_RETRY_INITIAL_MS :: u32 where "EV_BH1750_OPTIONAL_RETRY_INITIAL_MS \<equiv> 1000"
abbreviation EV_BH1750_OPTIONAL_RETRY_MAX_MS :: u32 where "EV_BH1750_OPTIONAL_RETRY_MAX_MS \<equiv> 10000"
abbreviation EV_BH1750_DEFAULT_MODE :: ev_bh1750_mode where "EV_BH1750_DEFAULT_MODE \<equiv> EV_BH1750_MODE_ONE_TIME_HIGH_RES"

definition ev_bh1750_actor_deadline_due :: "u32 \<Rightarrow> u32 \<Rightarrow> bool" where
  "ev_bh1750_actor_deadline_due now_ms deadline_ms \<longleftrightarrow> 0 \<le> sint (now_ms - deadline_ms)"

definition ev_bh1750_actor_publish_ready :: "'w ev_lifecycle \<Rightarrow> 'w ev_bh1750_actor_ctx \<Rightarrow> 'w \<Rightarrow> ev_result \<times> 'w" where
  "ev_bh1750_actor_publish_ready lc ctx w =
     (if bh_deliver ctx = None \<or> bh_deliver_context ctx = None then (EV_ERR_INVALID_ARG, w)
      else publish_built lc (bh_deliver ctx) (build_empty EV_BH1750_READY ACT_BH1750 w))"

text \<open>The payload struct: the light, the raw value and two bytes of padding, which the code leaves unset.\<close>

definition light_payload_bytes :: "u8 list \<Rightarrow> u32 \<Rightarrow> u16 \<Rightarrow> u8 list" where
  "light_payload_bytes padding milli_lux raw = le32_bytes milli_lux @ le16_bytes raw @ padding"

definition ev_bh1750_actor_publish_light ::
    "'w ev_lifecycle \<Rightarrow> u8 list \<Rightarrow> 'w ev_bh1750_actor_ctx \<Rightarrow> u16 \<Rightarrow> u32 \<Rightarrow> 'w \<Rightarrow> ev_result \<times> 'w" where
  "ev_bh1750_actor_publish_light lc padding ctx raw milli_lux w =
     (if bh_deliver ctx = None \<or> bh_deliver_context ctx = None then (EV_ERR_INVALID_ARG, w)
      else publish_built lc (bh_deliver ctx) (build_inline lc EV_LIGHT_UPDATED ACT_BH1750 (light_payload_bytes padding milli_lux raw) w))"

definition ev_bh1750_actor_clear_optional_backoff :: "'w ev_bh1750_actor_ctx \<Rightarrow> 'w ev_bh1750_actor_ctx" where
  "ev_bh1750_actor_clear_optional_backoff ctx = ctx\<lparr>bh_retry_backoff_ms := 0, bh_retry_deadline_ms := 0\<rparr>"

definition ev_bh1750_actor_schedule_optional_retry :: "'w ev_bh1750_actor_ctx \<Rightarrow> 'w ev_bh1750_actor_ctx" where
  "ev_bh1750_actor_schedule_optional_retry ctx =
     (let next_backoff = bh_retry_backoff_ms ctx;
          next_backoff =
            (if next_backoff = 0 then EV_BH1750_OPTIONAL_RETRY_INITIAL_MS
             else if next_backoff < EV_BH1750_OPTIONAL_RETRY_MAX_MS div 2 then next_backoff * 2
             else EV_BH1750_OPTIONAL_RETRY_MAX_MS)
      in ctx\<lparr>bh_retry_backoff_ms := next_backoff, bh_retry_deadline_ms := bh_actor_now_ms ctx + next_backoff,
             bh_optional_retry_backoffs := bh_optional_retry_backoffs ctx + 1\<rparr>)"

definition ev_bh1750_actor_optional_retry_due :: "'w ev_bh1750_actor_ctx \<Rightarrow> bool" where
  "ev_bh1750_actor_optional_retry_due ctx \<longleftrightarrow>
     (if bh_retry_backoff_ms ctx = 0 then True
      else ev_bh1750_actor_deadline_due (bh_actor_now_ms ctx) (bh_retry_deadline_ms ctx))"

definition ev_bh1750_actor_record_start :: "ev_result \<Rightarrow> 'w ev_bh1750_actor_ctx \<Rightarrow> 'w ev_bh1750_actor_ctx" where
  "ev_bh1750_actor_record_start status ctx =
     (if status = EV_OK
      then
        let ctx = ev_bh1750_actor_clear_optional_backoff
              (ctx\<lparr>bh_sensor_present := True, bh_measurement_pending := True,
                   bh_measurement_deadline_ms := bh_actor_now_ms ctx + ucast (bh_measurement_wait_ms ctx)\<rparr>)
        in ctx\<lparr>bh_measurements_started := bh_measurements_started ctx + 1\<rparr>
      else
        let ctx = ctx\<lparr>bh_measurement_pending := False\<rparr>
        in if status = EV_ERR_NOT_FOUND
           then ev_bh1750_actor_schedule_optional_retry
             (ctx\<lparr>bh_sensor_present := False, bh_no_device_failures := bh_no_device_failures ctx + 1\<rparr>)
           else ev_bh1750_actor_schedule_optional_retry (ctx\<lparr>bh_io_failures := bh_io_failures ctx + 1\<rparr>))"

definition ev_bh1750_actor_start_measurement ::
    "'w ev_bh1750_actor_ctx \<Rightarrow> 'w \<Rightarrow> ev_result \<times> 'w ev_bh1750_actor_ctx \<times> 'w" where
  "ev_bh1750_actor_start_measurement ctx w =
     (let (rc, w) = ev_bh1750_start_measurement (bh_i2c_port ctx) (bh_port_num ctx) (bh_addr7 ctx) (bh_mode ctx) w
      in (EV_OK, ev_bh1750_actor_record_start rc ctx, w))"

definition ev_bh1750_actor_boot :: "'w ev_bh1750_actor_ctx \<Rightarrow> 'w \<Rightarrow> ev_result \<times> 'w ev_bh1750_actor_ctx \<times> 'w" where
  "ev_bh1750_actor_boot ctx w =
     (let (rc, w) = ev_bh1750_power_on (bh_i2c_port ctx) (bh_port_num ctx) (bh_addr7 ctx) w
      in if rc \<noteq> EV_OK then (EV_OK, ev_bh1750_actor_record_start rc ctx, w)
         else ev_bh1750_actor_start_measurement ctx w)"

text \<open>A measurement that was read: the books, the ready message until it got through once, the light.\<close>

definition accept_measurement ::
    "'w ev_lifecycle \<Rightarrow> u8 list \<Rightarrow> u16 \<Rightarrow> u32 \<Rightarrow> 'w ev_bh1750_actor_ctx \<Rightarrow> 'w \<Rightarrow> ev_result \<times> 'w ev_bh1750_actor_ctx \<times> 'w" where
  "accept_measurement lc padding raw milli_lux ctx w =
     (let ctx = ctx\<lparr>bh_sensor_present := True, bh_last_read_ok := True, bh_last_raw := raw, bh_last_milli_lux := milli_lux,
                    bh_light_valid := True, bh_measurements_ok := bh_measurements_ok ctx + 1\<rparr>;
          (publish_rc, w) = (if \<not> bh_ready_published ctx then ev_bh1750_actor_publish_ready lc ctx w else (EV_OK, w))
      in if publish_rc \<noteq> EV_OK then (publish_rc, ctx, w)
         else
           let ctx = ctx\<lparr>bh_ready_published := True\<rparr>;
               (publish_rc, w) = ev_bh1750_actor_publish_light lc padding ctx raw milli_lux w
           in if publish_rc = EV_OK then ev_bh1750_actor_start_measurement ctx w else (publish_rc, ctx, w))"

definition reject_measurement :: "ev_result \<Rightarrow> 'w ev_bh1750_actor_ctx \<Rightarrow> 'w ev_bh1750_actor_ctx" where
  "reject_measurement rc ctx =
     (let ctx = ctx\<lparr>bh_last_read_ok := False\<rparr>;
          ctx = (if rc = EV_ERR_NOT_FOUND
                 then ctx\<lparr>bh_sensor_present := False, bh_no_device_failures := bh_no_device_failures ctx + 1\<rparr>
                 else ctx\<lparr>bh_io_failures := bh_io_failures ctx + 1\<rparr>)
      in ev_bh1750_actor_schedule_optional_retry ctx)"

text \<open>The reading that is due.\<close>

definition take_measurement ::
    "'w ev_lifecycle \<Rightarrow> u8 list \<Rightarrow> 'w ev_bh1750_actor_ctx \<Rightarrow> 'w \<Rightarrow> ev_result \<times> 'w ev_bh1750_actor_ctx \<times> 'w" where
  "take_measurement lc padding ctx w =
     (let ctx = ctx\<lparr>bh_measurement_pending := False\<rparr>;
          (rc, (raw, milli_lux), w) = ev_bh1750_read_measurement (bh_i2c_port ctx) (bh_port_num ctx) (bh_addr7 ctx) w
      in if rc = EV_OK then accept_measurement lc padding raw milli_lux ctx w
         else (EV_OK, reject_measurement rc ctx, w))"

definition ev_bh1750_actor_try_read ::
    "'w ev_lifecycle \<Rightarrow> u8 list \<Rightarrow> 'w ev_bh1750_actor_ctx \<Rightarrow> 'w \<Rightarrow> ev_result \<times> 'w ev_bh1750_actor_ctx \<times> 'w" where
  "ev_bh1750_actor_try_read lc padding ctx w =
     (if \<not> bh_measurement_pending ctx then (EV_OK, ctx, w)
      else if \<not> ev_bh1750_actor_deadline_due (bh_actor_now_ms ctx) (bh_measurement_deadline_ms ctx)
      then (EV_OK, ctx\<lparr>bh_deadline_skips := bh_deadline_skips ctx + 1\<rparr>, w)
      else take_measurement lc padding ctx w)"

definition ev_bh1750_actor_tick ::
    "'w ev_lifecycle \<Rightarrow> u8 list \<Rightarrow> u32 \<Rightarrow> 'w ev_bh1750_actor_ctx \<Rightarrow> 'w \<Rightarrow> ev_result \<times> 'w ev_bh1750_actor_ctx \<times> 'w" where
  "ev_bh1750_actor_tick lc padding elapsed_ms ctx w =
     (let ctx = ctx\<lparr>bh_actor_now_ms := bh_actor_now_ms ctx + elapsed_ms\<rparr>
      in if \<not> bh_measurement_pending ctx
         then
           if \<not> ev_bh1750_actor_optional_retry_due ctx
           then (EV_OK, ctx\<lparr>bh_optional_retry_skips := bh_optional_retry_skips ctx + 1\<rparr>, w)
           else if \<not> bh_sensor_present ctx then ev_bh1750_actor_boot ctx w
           else ev_bh1750_actor_start_measurement ctx w
         else ev_bh1750_actor_try_read lc padding ctx w)"

definition ev_bh1750_actor_init ::
    "'w ev_bh1750_actor_ctx option \<Rightarrow> 'w ev_i2c_port option \<Rightarrow> ev_i2c_port_num \<Rightarrow> u8 \<Rightarrow> 'w ev_delivery_fn option \<Rightarrow> ptr
       \<Rightarrow> ev_result \<times> 'w ev_bh1750_actor_ctx option" where
  "ev_bh1750_actor_init ctx i2c_port port_num addr7 deliver deliver_context =
     (if ctx = None \<or> i2c_port = None \<or> i2_write_stream (the i2c_port) = None \<or> i2_read_stream (the i2c_port) = None
         \<or> deliver = None \<or> deliver_context = None \<or> ev_bh1750_validate_addr7 addr7 \<noteq> EV_OK
      then (EV_ERR_INVALID_ARG, ctx)
      else (EV_OK, Some \<lparr>bh_i2c_port = i2c_port, bh_deliver = deliver, bh_deliver_context = deliver_context,
        bh_port_num = port_num, bh_addr7 = addr7, bh_mode = EV_BH1750_DEFAULT_MODE,
        bh_measurement_wait_ms = ev_bh1750_measurement_wait_ms EV_BH1750_DEFAULT_MODE, bh_actor_now_ms = 0,
        bh_measurement_deadline_ms = 0, bh_retry_deadline_ms = 0, bh_retry_backoff_ms = 0, bh_measurement_pending = False,
        bh_sensor_present = False, bh_ready_published = False, bh_last_read_ok = False, bh_light_valid = False,
        bh_last_raw = 0, bh_last_milli_lux = 0, bh_measurements_started = 0, bh_measurements_ok = 0,
        bh_no_device_failures = 0, bh_io_failures = 0, bh_optional_retry_backoffs = 0, bh_optional_retry_skips = 0,
        bh_deadline_skips = 0, bh_noncanonical_ticks_ignored = 0\<rparr>))"

definition ev_bh1750_actor_configure_mode ::
    "'w ev_bh1750_actor_ctx option \<Rightarrow> ev_bh1750_mode \<Rightarrow> ev_result \<times> 'w ev_bh1750_actor_ctx option" where
  "ev_bh1750_actor_configure_mode ctx mode =
     (case ctx of None \<Rightarrow> (EV_ERR_INVALID_ARG, None)
      | Some c \<Rightarrow>
          if bh_measurement_pending c then (EV_ERR_STATE, ctx)
          else
            let rc = ev_bh1750_validate_mode mode
            in if rc \<noteq> EV_OK then (rc, ctx)
               else (EV_OK, Some (c\<lparr>bh_mode := mode, bh_measurement_wait_ms := ev_bh1750_measurement_wait_ms mode\<rparr>)))"

definition ev_bh1750_actor_handle ::
    "'w ev_lifecycle \<Rightarrow> u8 list \<Rightarrow> 'w ev_bh1750_actor_ctx option \<Rightarrow> ev_msg option \<Rightarrow> 'w
       \<Rightarrow> ev_result \<times> 'w ev_bh1750_actor_ctx option \<times> 'w" where
  "ev_bh1750_actor_handle lc padding actor_context msg w =
     (if actor_context = None \<or> msg = None then (EV_ERR_INVALID_ARG, actor_context, w)
      else
        let ctx = the actor_context; e = msg_event_id (the msg);
            (rc, ctx, w) =
              (if e = EV_BOOT_COMPLETED then ev_bh1750_actor_boot ctx w
               else if e = EV_TICK_100MS then ev_bh1750_actor_tick lc padding EV_BH1750_TICK_100MS_DELTA_MS ctx w
               else if e = EV_TICK_1S
               then (EV_OK, ctx\<lparr>bh_noncanonical_ticks_ignored := bh_noncanonical_ticks_ignored ctx + 1\<rparr>, w)
               else (EV_ERR_CONTRACT, ctx, w))
        in (rc, Some ctx, w))"

section \<open>Light\<close>

text \<open>
  The light is the raw value times 5000 / 6, in thousandths of a lux, rounded to the nearest: the arithmetic of
  the code never wraps.
\<close>

lemma milli_lux_nearest:
  "\<bar>6 * int (unat (ev_bh1750_raw_to_milli_lux raw)) - 5000 * int (unat raw)\<bar> \<le> 3"
proof -
  have "unat raw < 65536" by (rule unat_u16)
  moreover have "unat (ucast raw :: u32) = unat raw" by (simp add: unsigned_ucast_eq take_bit_nat_eq_self unat_u16 less_trans [OF unat_u16])
  ultimately have "unat (ucast raw * 5000 + 3 :: u32) = unat raw * 5000 + 3"
    by (simp add: unat_word_ariths)
  then have "unat (ev_bh1750_raw_to_milli_lux raw) = (unat raw * 5000 + 3) div 6"
    by (simp add: ev_bh1750_raw_to_milli_lux_def unat_div)
  then show ?thesis by linarith
qed

section \<open>When the actor uses the bus\<close>

fun bh1750_step :: "'w ev_lifecycle \<Rightarrow> u8 list \<Rightarrow> 'w ev_bh1750_actor_ctx \<times> 'w \<Rightarrow> ev_msg \<Rightarrow> 'w ev_bh1750_actor_ctx \<times> 'w" where
  "bh1750_step lc padding (ctx, w) m = (let (rc, ctx, w) = ev_bh1750_actor_handle lc padding (Some ctx) (Some m) w in (the ctx, w))"

definition bh1750_run ::
    "'w ev_lifecycle \<Rightarrow> u8 list \<Rightarrow> 'w ev_bh1750_actor_ctx \<Rightarrow> 'w \<Rightarrow> ev_msg list \<Rightarrow> 'w ev_bh1750_actor_ctx \<times> 'w" where
  "bh1750_run lc padding ctx w ms = foldl (bh1750_step lc padding) (ctx, w) ms"

lemma bh1750_steps:
  "msg_event_id m = EV_TICK_100MS \<Longrightarrow> bh1750_step lc padding (ctx, w) m = snd (ev_bh1750_actor_tick lc padding 100 ctx w)"
  "msg_event_id m = EV_TICK_1S \<Longrightarrow> bh1750_step lc padding (ctx, w) m =
     (ctx\<lparr>bh_noncanonical_ticks_ignored := bh_noncanonical_ticks_ignored ctx + 1\<rparr>, w)"
  "msg_event_id m \<notin> {EV_TICK_100MS, EV_TICK_1S, EV_BOOT_COMPLETED} \<Longrightarrow> bh1750_step lc padding (ctx, w) m = (ctx, w)"
  by (simp_all add: ev_bh1750_actor_handle_def Let_def split: prod.splits)

declare bh1750_step.simps [simp del]

text \<open>
  Waiting for \<open>d\<close> milliseconds, \<open>k\<close> ticks of which have passed: for the measurement that is under way, or else to
  try again.
\<close>

definition bh1750_deadline :: "'w ev_bh1750_actor_ctx \<Rightarrow> u32" where
  "bh1750_deadline ctx = (if bh_measurement_pending ctx then bh_measurement_deadline_ms ctx else bh_retry_deadline_ms ctx)"

definition resting :: "nat \<Rightarrow> nat \<Rightarrow> 'w ev_bh1750_actor_ctx \<Rightarrow> bool" where
  "resting d k ctx \<longleftrightarrow> d < 65536 \<and> (bh_measurement_pending ctx \<or> bh_retry_backoff_ms ctx \<noteq> 0)
     \<and> (\<exists>s. bh_actor_now_ms ctx = s + of_nat (100 * k) \<and> bh1750_deadline ctx = s + of_nat d)"

lemma resting_due:
  assumes "resting d k ctx" and "100 * k < 2 ^ 31"
  shows "ev_bh1750_actor_deadline_due (bh_actor_now_ms ctx) (bh1750_deadline ctx) \<longleftrightarrow> d \<le> 100 * k"
proof -
  obtain s where s: "bh_actor_now_ms ctx = s + of_nat (100 * k)" "bh1750_deadline ctx = s + of_nat d" and "d < 2 ^ 31"
    using assms(1) by (auto simp: resting_def)
  then show ?thesis unfolding ev_bh1750_actor_deadline_due_def s using deadline_due_iff [OF assms(2)] by blast
qed

lemma resting_tick:
  assumes r: "resting d k ctx"
  defines "now \<equiv> ctx\<lparr>bh_actor_now_ms := bh_actor_now_ms ctx + 100\<rparr>"
  shows "resting d (Suc k) now"
    and "100 * Suc k < d \<Longrightarrow> ev_bh1750_actor_tick lc padding 100 ctx w =
      (EV_OK, if bh_measurement_pending ctx then now\<lparr>bh_deadline_skips := bh_deadline_skips ctx + 1\<rparr>
        else now\<lparr>bh_optional_retry_skips := bh_optional_retry_skips ctx + 1\<rparr>, w)"
    and "d \<le> 100 * Suc k \<Longrightarrow> 100 * Suc k < 2 ^ 31 \<Longrightarrow> ev_bh1750_actor_tick lc padding 100 ctx w =
      (if bh_measurement_pending ctx then take_measurement lc padding now w
       else if bh_sensor_present ctx then ev_bh1750_actor_start_measurement now w else ev_bh1750_actor_boot now w)"
proof -
  show n: "resting d (Suc k) now" using r by (auto simp: resting_def now_def bh1750_deadline_def algebra_simps)
  have b: "bh_measurement_pending ctx \<or> bh_retry_backoff_ms ctx \<noteq> 0" "d < 65536" using r by (auto simp: resting_def)
  show "ev_bh1750_actor_tick lc padding 100 ctx w =
      (EV_OK, if bh_measurement_pending ctx then now\<lparr>bh_deadline_skips := bh_deadline_skips ctx + 1\<rparr>
        else now\<lparr>bh_optional_retry_skips := bh_optional_retry_skips ctx + 1\<rparr>, w)" if "100 * Suc k < d"
    using resting_due [OF n] that b
    by (auto simp: ev_bh1750_actor_tick_def ev_bh1750_actor_try_read_def ev_bh1750_actor_optional_retry_due_def now_def
        bh1750_deadline_def Let_def)
  show "ev_bh1750_actor_tick lc padding 100 ctx w =
      (if bh_measurement_pending ctx then take_measurement lc padding now w
       else if bh_sensor_present ctx then ev_bh1750_actor_start_measurement now w else ev_bh1750_actor_boot now w)"
    if "d \<le> 100 * Suc k" "100 * Suc k < 2 ^ 31"
    using resting_due [OF n that(2)] that b
    by (auto simp: ev_bh1750_actor_tick_def ev_bh1750_actor_try_read_def ev_bh1750_actor_optional_retry_due_def now_def
        bh1750_deadline_def Let_def)
qed

lemma resting_step:
  assumes r: "resting d k ctx" and e: "msg_event_id m \<noteq> EV_BOOT_COMPLETED" and early: "100 * (k + ticks_100ms [m]) < d"
  shows "\<exists>ctx'. bh1750_step lc padding (ctx, w) m = (ctx', w) \<and> resting d (k + ticks_100ms [m]) ctx'"
proof (cases "msg_event_id m = EV_TICK_100MS")
  case True
  then show ?thesis
    using resting_tick(1) [OF r] resting_tick(2) [OF r, of lc padding w] early
    by (auto simp: bh1750_steps ticks_100ms_single resting_def bh1750_deadline_def)
next
  case False
  then show ?thesis
    using r e
    by (cases "msg_event_id m = EV_TICK_1S") (auto simp: bh1750_steps ticks_100ms_single resting_def bh1750_deadline_def)
qed

interpretation bh1750_wait: deadline_wait "bh1750_step lc padding" resting for lc padding
  by unfold_locales (rule resting_step)

text \<open>The milliseconds to wait after a failure that follows a wait of \<open>b\<close>.\<close>

definition backoff_ms :: "u32 \<Rightarrow> nat" where
  "backoff_ms b = (if b = 0 then 1000 else min 10000 (2 * unat b))"

lemma backoff_double:
  assumes "b \<noteq> 0" and "b < (5000 :: u32)"
  shows "min 10000 (2 * unat b) = 2 * unat b" "of_nat (2 * unat b) = b * 2" "b * 2 \<noteq> 0"
proof -
  have b: "unat b < 5000" using assms(2) by (simp add: word_less_nat_alt)
  then show "min 10000 (2 * unat b) = 2 * unat b" by simp
  show "of_nat (2 * unat b) = b * 2" by simp
  have "unat (b * 2) = 2 * unat b" using b by (simp add: unat_word_ariths)
  then show "b * 2 \<noteq> 0" using assms(1) by (metis mult_eq_0_iff unat_eq_0 zero_neq_numeral)
qed

lemma backoff_cap: "\<not> b < (5000 :: u32) \<Longrightarrow> min 10000 (2 * unat b) = 10000"
  by (simp add: word_less_nat_alt)

lemma retry_rests:
  assumes "\<not> bh_measurement_pending ctx"
  shows "resting (backoff_ms (bh_retry_backoff_ms ctx)) 0 (ev_bh1750_actor_schedule_optional_retry ctx)"
proof -
  let ?b = "bh_retry_backoff_ms ctx"
  consider "?b = 0" | "?b \<noteq> 0" "?b < 5000" | "?b \<noteq> 0" "\<not> ?b < 5000" by blast
  then show ?thesis
    using assms backoff_double [of ?b] backoff_cap [of ?b]
    by cases (auto simp: ev_bh1750_actor_schedule_optional_retry_def resting_def backoff_ms_def bh1750_deadline_def Let_def)
qed

text \<open>What an access to the bus leaves: a measurement under way, or a retry scheduled after the wait before.\<close>

definition attempted :: "u32 \<Rightarrow> 'w ev_bh1750_actor_ctx \<Rightarrow> bool" where
  "attempted b ctx \<longleftrightarrow> resting (if bh_measurement_pending ctx then unat (bh_measurement_wait_ms ctx) else backoff_ms b) 0 ctx
     \<and> (bh_measurement_pending ctx \<longrightarrow> bh_retry_backoff_ms ctx = 0)"

lemma retry_keeps_pending [simp]:
  "bh_measurement_pending (ev_bh1750_actor_schedule_optional_retry ctx) = bh_measurement_pending ctx"
  by (simp add: ev_bh1750_actor_schedule_optional_retry_def Let_def)

lemma retry_attempted:
  "\<not> bh_measurement_pending ctx \<Longrightarrow> attempted (bh_retry_backoff_ms ctx) (ev_bh1750_actor_schedule_optional_retry ctx)"
  by (simp add: attempted_def retry_rests)

lemma record_start_attempted: "attempted (bh_retry_backoff_ms ctx) (ev_bh1750_actor_record_start rc ctx)"
proof (cases "rc = EV_OK")
  case True
  then show ?thesis
    using unat_u16 [of "bh_measurement_wait_ms ctx"]
    by (simp add: ev_bh1750_actor_record_start_def ev_bh1750_actor_clear_optional_backoff_def resting_def attempted_def
        bh1750_deadline_def Let_def)
next
  case False
  then show ?thesis
    using retry_attempted [of "ctx\<lparr>bh_measurement_pending := False, bh_io_failures := bh_io_failures ctx + 1\<rparr>"]
      retry_attempted [of "ctx\<lparr>bh_measurement_pending := False, bh_sensor_present := False,
        bh_no_device_failures := bh_no_device_failures ctx + 1\<rparr>"]
    by (simp add: ev_bh1750_actor_record_start_def Let_def)
qed

lemma start_attempted:
  "ev_bh1750_actor_start_measurement ctx w = (rc, ctx', w') \<Longrightarrow> attempted (bh_retry_backoff_ms ctx) ctx'"
  "ev_bh1750_actor_boot ctx w = (rc, ctx', w') \<Longrightarrow> attempted (bh_retry_backoff_ms ctx) ctx'"
  by (auto simp: ev_bh1750_actor_boot_def ev_bh1750_actor_start_measurement_def record_start_attempted split: prod.splits if_splits)

lemma take_measurement_attempted:
  assumes "take_measurement lc padding ctx w = (EV_OK, ctx', w')"
  shows "attempted (bh_retry_backoff_ms ctx) ctx'"
proof -
  let ?c = "ctx\<lparr>bh_measurement_pending := False\<rparr>"
  obtain rc raw lux w1 where r: "ev_bh1750_read_measurement (bh_i2c_port ctx) (bh_port_num ctx) (bh_addr7 ctx) w = (rc, (raw, lux), w1)"
    by (metis prod_cases3 prod.collapse)
  show ?thesis
  proof (cases "rc = EV_OK")
    case True
    then have "accept_measurement lc padding raw lux ?c w1 = (EV_OK, ctx', w')"
      using assms r by (simp add: take_measurement_def)
    then obtain c w2 where "ev_bh1750_actor_start_measurement c w2 = (EV_OK, ctx', w')" "bh_retry_backoff_ms c = bh_retry_backoff_ms ctx"
      by (auto simp: accept_measurement_def Let_def split: prod.splits if_splits)
    then show ?thesis using start_attempted(1) by metis
  next
    case False
    then have "ctx' = reject_measurement rc ?c" using assms r by (simp add: take_measurement_def)
    then show ?thesis
      using retry_attempted [of "?c\<lparr>bh_last_read_ok := False, bh_io_failures := bh_io_failures ctx + 1\<rparr>"]
        retry_attempted [of "?c\<lparr>bh_last_read_ok := False, bh_sensor_present := False,
          bh_no_device_failures := bh_no_device_failures ctx + 1\<rparr>"]
      by (simp add: reject_measurement_def Let_def)
  qed
qed

text \<open>The messages on which the actor accesses the bus: a boot, and a tick at which what it waits for is due.\<close>

definition accesses_bus :: "'w ev_bh1750_actor_ctx \<Rightarrow> ev_msg \<Rightarrow> bool" where
  "accesses_bus ctx m \<longleftrightarrow> msg_event_id m = EV_BOOT_COMPLETED
     \<or> msg_event_id m = EV_TICK_100MS
       \<and> (if bh_measurement_pending ctx
          then ev_bh1750_actor_deadline_due (bh_actor_now_ms ctx + 100) (bh_measurement_deadline_ms ctx)
          else bh_retry_backoff_ms ctx = 0 \<or> ev_bh1750_actor_deadline_due (bh_actor_now_ms ctx + 100) (bh_retry_deadline_ms ctx))"

lemma access_attempted:
  assumes "accesses_bus ctx m" and "ev_bh1750_actor_handle lc padding (Some ctx) (Some m) w = (EV_OK, Some ctx', w')"
  shows "attempted (bh_retry_backoff_ms ctx) ctx'"
proof -
  let ?now = "ctx\<lparr>bh_actor_now_ms := bh_actor_now_ms ctx + 100\<rparr>"
  consider "ev_bh1750_actor_boot ctx w = (EV_OK, ctx', w')" | "ev_bh1750_actor_boot ?now w = (EV_OK, ctx', w')"
    | "ev_bh1750_actor_start_measurement ?now w = (EV_OK, ctx', w')" | "take_measurement lc padding ?now w = (EV_OK, ctx', w')"
    using assms
    by (auto simp: accesses_bus_def ev_bh1750_actor_handle_def ev_bh1750_actor_tick_def ev_bh1750_actor_try_read_def
        ev_bh1750_actor_optional_retry_due_def Let_def split: prod.splits if_splits)
  then show ?thesis
    by cases (use start_attempted [of ctx] start_attempted [of ?now] take_measurement_attempted [of lc padding ?now] in simp_all)
qed

text \<open>The states an initialised actor gets into. In them a measurement under way leaves no wait behind.\<close>

inductive bh1750_reachable :: "'w ev_bh1750_actor_ctx \<Rightarrow> bool" where
  "ev_bh1750_actor_init (Some c) port port_num addr7 deliver dc = (EV_OK, Some ctx) \<Longrightarrow> bh1750_reachable ctx"
| "bh1750_reachable ctx \<Longrightarrow> ev_bh1750_actor_handle lc padding (Some ctx) (Some m) w = (rc, Some ctx', w')
    \<Longrightarrow> bh1750_reachable ctx'"
| "bh1750_reachable ctx \<Longrightarrow> ev_bh1750_actor_configure_mode (Some ctx) mode = (rc, Some ctx') \<Longrightarrow> bh1750_reachable ctx'"

lemma measurement_clears:
  assumes "take_measurement lc padding ctx w = (rc, ctx', w')" and "bh_measurement_pending ctx'"
  shows "bh_retry_backoff_ms ctx' = 0"
proof (cases "rc = EV_OK")
  case True
  then show ?thesis using take_measurement_attempted [of lc padding ctx w ctx' w'] assms by (simp add: attempted_def)
next
  case False
  then have "\<not> bh_measurement_pending ctx'"
    using assms(1)
    by (auto simp: take_measurement_def accept_measurement_def ev_bh1750_actor_start_measurement_def Let_def
        split: prod.splits if_splits)
  then show ?thesis using assms(2) by simp
qed

lemma handle_clears:
  assumes h: "ev_bh1750_actor_handle lc padding (Some ctx) (Some m) w = (rc, Some ctx', w')"
    and c: "bh_measurement_pending ctx \<longrightarrow> bh_retry_backoff_ms ctx = 0"
  shows "bh_measurement_pending ctx' \<longrightarrow> bh_retry_backoff_ms ctx' = 0"
proof -
  let ?now = "ctx\<lparr>bh_actor_now_ms := bh_actor_now_ms ctx + 100\<rparr>"
  consider "ev_bh1750_actor_boot ctx w = (rc, ctx', w')" | "ev_bh1750_actor_boot ?now w = (rc, ctx', w')"
    | "ev_bh1750_actor_start_measurement ?now w = (rc, ctx', w')" | "take_measurement lc padding ?now w = (rc, ctx', w')"
    | "bh_measurement_pending ctx' = bh_measurement_pending ctx" "bh_retry_backoff_ms ctx' = bh_retry_backoff_ms ctx"
    using h
    by (auto simp: ev_bh1750_actor_handle_def ev_bh1750_actor_tick_def ev_bh1750_actor_try_read_def Let_def
        split: prod.splits if_splits)
  then show ?thesis
    by cases (use start_attempted measurement_clears c in \<open>fastforce simp: attempted_def\<close>)+
qed

lemma reachable_clears: "bh1750_reachable ctx \<Longrightarrow> bh_measurement_pending ctx \<longrightarrow> bh_retry_backoff_ms ctx = 0"
proof (induction rule: bh1750_reachable.induct)
  case (1 c port port_num addr7 deliver dc ctx)
  then show ?case by (auto simp: ev_bh1750_actor_init_def split: if_splits)
next
  case (2 ctx lc padding m w rc ctx' w')
  show ?case by (rule handle_clears [OF "2.hyps"(2) "2.IH"])
next
  case (3 ctx mode rc ctx')
  then show ?case by (auto simp: ev_bh1750_actor_configure_mode_def Let_def split: if_splits)
qed

text \<open>The wait after a message at \<open>c\<close> that left \<open>ctx\<close>.\<close>

definition rest_ms :: "'w ev_bh1750_actor_ctx \<Rightarrow> 'w ev_bh1750_actor_ctx \<Rightarrow> nat" where
  "rest_ms c ctx =
     (if bh_measurement_pending ctx then unat (bh_measurement_wait_ms ctx)
      else if bh_measurement_pending c then 1000 else backoff_ms (bh_retry_backoff_ms c))"

lemma access_rests:
  assumes "bh1750_reachable c" and "accesses_bus c m"
    and "ev_bh1750_actor_handle lc padding (Some c) (Some m) w = (EV_OK, Some ctx, w')"
  shows "resting (rest_ms c ctx) 0 ctx"
  using access_attempted [OF assms(2,3)] reachable_clears [OF assms(1)]
  by (auto simp: attempted_def rest_ms_def backoff_ms_def split: if_splits)

text \<open>
  C30: the actor stays off the bus while it waits. After any access to the bus, on a boot or on a tick, that led to no
  failed publication, it waits: for the time the mode needs when a measurement was started; for one second when the
  reading failed, or the start after it; and when the actor was retrying, for twice the wait before, up to ten seconds.
  (A start that succeeds ends the series, so failed readings, each of which follows one, do not add up.) No message but
  a boot makes it touch the bus or publish anything while the 100 ms ticks do not add up to that time; the tick that
  completes it reads the measurement, or tries again: with a start, and with a power-on first when the sensor was missing.
\<close>

theorem bus_left_alone:
  assumes c: "bh1750_reachable c" and a: "accesses_bus c a"
    and start: "ev_bh1750_actor_handle lc padding (Some c) (Some a) w0 = (EV_OK, Some ctx, w)"
    and ms: "no_boot ms" and early: "100 * ticks_100ms ms < rest_ms c ctx"
    and run: "bh1750_run lc padding ctx w ms = (ctx', w')" and tick: "msg_event_id m = EV_TICK_100MS"
  shows "w' = w \<and> ev_bh1750_actor_handle lc padding (Some ctx') (Some m) w =
     (let now = ctx'\<lparr>bh_actor_now_ms := bh_actor_now_ms ctx' + 100\<rparr>;
          (rc, ctx1, w1) =
            (if 100 * Suc (ticks_100ms ms) < rest_ms c ctx
             then (EV_OK, if bh_measurement_pending ctx' then now\<lparr>bh_deadline_skips := bh_deadline_skips ctx' + 1\<rparr>
               else now\<lparr>bh_optional_retry_skips := bh_optional_retry_skips ctx' + 1\<rparr>, w)
             else if bh_measurement_pending ctx' then take_measurement lc padding now w
             else if bh_sensor_present ctx' then ev_bh1750_actor_start_measurement now w else ev_bh1750_actor_boot now w)
      in (rc, Some ctx1, w1))"
proof -
  have C: "w' = w" "resting (rest_ms c ctx) (ticks_100ms ms) ctx'"
    using bh1750_wait.run_waits [OF access_rests [OF c a start] ms early, of lc padding w] run by (auto simp: bh1750_run_def)
  have "100 * Suc (ticks_100ms ms) < 2 ^ 31"
    using early C(2) by (simp add: resting_def)
  then show ?thesis
    using C(1) resting_tick(2,3) [OF C(2), of lc padding w] tick
    by (cases "100 * Suc (ticks_100ms ms) < rest_ms c ctx") (simp_all add: ev_bh1750_actor_handle_def)
qed

section \<open>A sensor at work\<close>

text \<open>The world of the example is the targets that a message was delivered to.\<close>

definition demo_light_port :: "ev_actor_id list ev_i2c_port" where
  "demo_light_port = \<lparr>i2_ctx = Some 1, i2_write_stream = Some (\<lambda>p a bs w. (EV_I2C_OK, w)),
     i2_read_stream = Some (\<lambda>p a bs w. (EV_I2C_OK, [0x04, 0xB0], w)), i2_write_regs = None, i2_read_regs = None\<rparr>"

definition blank_bh1750 :: "ev_actor_id list ev_bh1750_actor_ctx" where
  "blank_bh1750 = \<lparr>bh_i2c_port = None, bh_deliver = None, bh_deliver_context = None, bh_port_num = 0, bh_addr7 = 0,
     bh_mode = 0, bh_measurement_wait_ms = 0, bh_actor_now_ms = 0, bh_measurement_deadline_ms = 0, bh_retry_deadline_ms = 0,
     bh_retry_backoff_ms = 0, bh_measurement_pending = False, bh_sensor_present = False, bh_ready_published = False,
     bh_last_read_ok = False, bh_light_valid = False, bh_last_raw = 0, bh_last_milli_lux = 0, bh_measurements_started = 0,
     bh_measurements_ok = 0, bh_no_device_failures = 0, bh_io_failures = 0, bh_optional_retry_backoffs = 0,
     bh_optional_retry_skips = 0, bh_deadline_skips = 0, bh_noncanonical_ticks_ignored = 0\<rparr>"

definition demo_bh1750 :: "ev_actor_id list ev_bh1750_actor_ctx" where
  "demo_bh1750 = the (snd (ev_bh1750_actor_init (Some blank_bh1750) (Some demo_light_port) 0 0x23
     (Some (\<lambda>t m d. (EV_OK, d @ [t]))) (Some 1)))"

definition demo_light_lifecycle :: "ev_actor_id list ev_lifecycle" where
  "demo_light_lifecycle = \<lparr>lc_retain = \<lambda>f c d n s. (EV_OK, s), lc_release = \<lambda>f c d n s. s\<rparr>"

text \<open>The boot starts a measurement, and the first tick waits for it.\<close>

definition demo_light_start :: "ev_actor_id list ev_bh1750_actor_ctx" where
  "demo_light_start = the (fst (snd (ev_bh1750_actor_handle demo_light_lifecycle [0, 0] (Some demo_bh1750)
     (Some (demo_publish_msg EV_BOOT_COMPLETED)) [])))"

definition demo_light_wait :: "ev_actor_id list ev_bh1750_actor_ctx \<times> ev_actor_id list" where
  "demo_light_wait = bh1750_run demo_light_lifecycle [0, 0] demo_light_start [] [demo_publish_msg EV_TICK_100MS]"

text \<open>The second tick reads 1200, publishes that the sensor is ready and the light, 1000 lux, and measures again.\<close>

theorem bus_left_alone_witness:
  "snd demo_light_wait = []
   \<and> (let (rc, ctx, w) = ev_bh1750_actor_handle demo_light_lifecycle [0, 0] (Some (fst demo_light_wait))
            (Some (demo_publish_msg EV_TICK_100MS)) []
      in rc = EV_OK \<and> bh_last_milli_lux (the ctx) = 1000000 \<and> w = [ACT_SUPERVISOR, ACT_APP, ACT_NETWORK])"
proof -
  have m: "no_boot [demo_publish_msg EV_TICK_100MS]" "ticks_100ms [demo_publish_msg EV_TICK_100MS] = 1"
    "msg_event_id (demo_publish_msg EV_TICK_100MS) = EV_TICK_100MS" "rest_ms demo_bh1750 demo_light_start = 180"
    "accesses_bus demo_bh1750 (demo_publish_msg EV_BOOT_COMPLETED)"
    by code_simp+
  have "ev_bh1750_actor_init (Some blank_bh1750) (Some demo_light_port) 0 0x23 (Some (\<lambda>t m d. (EV_OK, d @ [t]))) (Some 1)
      = (EV_OK, Some demo_bh1750)"
    by (simp add: demo_bh1750_def ev_bh1750_actor_init_def demo_light_port_def ev_bh1750_validate_addr7_def)
  then have r: "bh1750_reachable demo_bh1750" by (rule bh1750_reachable.intros)
  have "fst (ev_bh1750_actor_handle demo_light_lifecycle [0, 0] (Some demo_bh1750) (Some (demo_publish_msg EV_BOOT_COMPLETED)) []) = EV_OK"
    "fst (snd (ev_bh1750_actor_handle demo_light_lifecycle [0, 0] (Some demo_bh1750) (Some (demo_publish_msg EV_BOOT_COMPLETED)) []))
      \<noteq> None"
    "snd (snd (ev_bh1750_actor_handle demo_light_lifecycle [0, 0] (Some demo_bh1750) (Some (demo_publish_msg EV_BOOT_COMPLETED)) [])) = []"
    by code_simp+
  then have b: "ev_bh1750_actor_handle demo_light_lifecycle [0, 0] (Some demo_bh1750) (Some (demo_publish_msg EV_BOOT_COMPLETED)) []
      = (EV_OK, Some demo_light_start, [])"
    unfolding demo_light_start_def by (metis option.collapse prod.collapse)
  have "bh1750_run demo_light_lifecycle [0, 0] demo_light_start [] [demo_publish_msg EV_TICK_100MS]
      = (fst demo_light_wait, snd demo_light_wait)"
    by (simp add: demo_light_wait_def)
  note h = bus_left_alone [OF r m(5) b m(1) _ this m(3), unfolded m(2) m(4), simplified]
  have "bh_measurement_pending (fst demo_light_wait)" by code_simp
  moreover have "let (rc, ctx, w) = take_measurement demo_light_lifecycle [0, 0]
        (fst demo_light_wait\<lparr>bh_actor_now_ms := bh_actor_now_ms (fst demo_light_wait) + 100\<rparr>) []
      in rc = EV_OK \<and> bh_last_milli_lux ctx = 1000000 \<and> w = [ACT_SUPERVISOR, ACT_APP, ACT_NETWORK]"
    by code_simp
  ultimately show ?thesis using h by (auto simp: Let_def split: prod.splits)
qed

end
