(* ===== verification/EvMcp23008Actor.thy ===== *)
theory EvMcp23008Actor
  imports EvDeviceIo
begin

text \<open>
  The actor of the GPIO expander (\<open>actors/device/ev_mcp23008_actor.c\<close>): four buttons on its low pins, four LEDs
  on its high ones. It configures the expander, polls the buttons on the 100 ms ticks and publishes their changes,
  keeps the LEDs in a shadow register and configures the expander again after a bus failure.
\<close>

section \<open>State and operations\<close>

abbreviation EV_MCP23008_REG_IODIR :: u8 where "EV_MCP23008_REG_IODIR \<equiv> 0x00"
abbreviation EV_MCP23008_REG_IOCON :: u8 where "EV_MCP23008_REG_IOCON \<equiv> 0x05"
abbreviation EV_MCP23008_REG_GPPU :: u8 where "EV_MCP23008_REG_GPPU \<equiv> 0x06"
abbreviation EV_MCP23008_REG_GPIO :: u8 where "EV_MCP23008_REG_GPIO \<equiv> 0x09"
abbreviation EV_MCP23008_REG_OLAT :: u8 where "EV_MCP23008_REG_OLAT \<equiv> 0x0A"
abbreviation EV_MCP23008_INPUT_DIR_MASK :: u8 where "EV_MCP23008_INPUT_DIR_MASK \<equiv> 0x0F"
abbreviation EV_MCP23008_INPUT_PULLUP_MASK :: u8 where "EV_MCP23008_INPUT_PULLUP_MASK \<equiv> 0x0F"
abbreviation EV_MCP23008_OUTPUT_SHIFT :: nat where "EV_MCP23008_OUTPUT_SHIFT \<equiv> 4"
abbreviation EV_MCP23008_IOCON_ODR :: u8 where "EV_MCP23008_IOCON_ODR \<equiv> 0x04"
abbreviation EV_MCP23008_BUTTON_MASK :: u8 where "EV_MCP23008_BUTTON_MASK \<equiv> 0x0F"
abbreviation EV_MCP23008_LED_PINS :: u8 where "EV_MCP23008_LED_PINS \<equiv> 0x0F"

record 'w ev_mcp23008_actor_ctx =
  mc_i2c_port :: "'w ev_i2c_port option"
  mc_port_num :: ev_i2c_port_num
  mc_device_address_7bit :: u8
  mc_deliver :: "'w ev_delivery_fn option"
  mc_deliver_context :: ptr
  mc_input_shadow :: u8
  mc_output_shadow :: u8
  mc_configured :: bool
  mc_inputs_valid :: bool

definition ev_mcp23008_actor_normalize_buttons :: "u8 \<Rightarrow> u8" where
  "ev_mcp23008_actor_normalize_buttons raw_gpio = NOT raw_gpio AND EV_MCP23008_BUTTON_MASK"

definition ev_mcp23008_actor_build_olat :: "u8 \<Rightarrow> u8" where
  "ev_mcp23008_actor_build_olat logical_led_mask = push_bit EV_MCP23008_OUTPUT_SHIFT (logical_led_mask AND EV_MCP23008_LED_PINS)"

definition ev_mcp23008_actor_write_reg :: "'w ev_mcp23008_actor_ctx \<Rightarrow> u8 \<Rightarrow> u8 \<Rightarrow> 'w \<Rightarrow> bool \<times> 'w" where
  "ev_mcp23008_actor_write_reg ctx reg val w =
     (case mc_i2c_port ctx of None \<Rightarrow> (False, w)
      | Some port \<Rightarrow> (case i2_write_regs port of None \<Rightarrow> (False, w)
          | Some write_regs \<Rightarrow>
              let (status, w) = write_regs (mc_port_num ctx) (mc_device_address_7bit ctx) reg [val] w
              in (status = EV_I2C_OK, w)))"

text \<open>The byte read is \<open>0\<close>, the value of the callers' variable, when nothing was read.\<close>

definition ev_mcp23008_actor_read_gpio :: "'w ev_mcp23008_actor_ctx \<Rightarrow> 'w \<Rightarrow> bool \<times> u8 \<times> 'w" where
  "ev_mcp23008_actor_read_gpio ctx w =
     (case mc_i2c_port ctx of None \<Rightarrow> (False, 0, w)
      | Some port \<Rightarrow> (case i2_read_regs port of None \<Rightarrow> (False, 0, w)
          | Some read_regs \<Rightarrow>
              let (status, bytes, w) = read_regs (mc_port_num ctx) (mc_device_address_7bit ctx) EV_MCP23008_REG_GPIO [0] w
              in (status = EV_I2C_OK, bytes ! 0, w)))"

definition ev_mcp23008_actor_publish_input_changed ::
    "'w ev_lifecycle \<Rightarrow> u8 \<Rightarrow> u8 \<Rightarrow> 'w ev_mcp23008_actor_ctx \<Rightarrow> 'w \<Rightarrow> ev_result \<times> 'w" where
  "ev_mcp23008_actor_publish_input_changed lc pressed_mask changed_mask ctx w =
     (if mc_deliver ctx = None \<or> mc_deliver_context ctx = None then (EV_ERR_INVALID_ARG, w)
      else publish_built lc (mc_deliver ctx) (build_inline lc EV_MCP23008_INPUT_CHANGED ACT_MCP23008
        [pressed_mask AND EV_MCP23008_BUTTON_MASK, changed_mask AND EV_MCP23008_BUTTON_MASK] w))"

definition ev_mcp23008_actor_publish_ready :: "'w ev_lifecycle \<Rightarrow> 'w ev_mcp23008_actor_ctx \<Rightarrow> 'w \<Rightarrow> ev_result \<times> 'w" where
  "ev_mcp23008_actor_publish_ready lc ctx w =
     (if mc_deliver ctx = None \<or> mc_deliver_context ctx = None then (EV_ERR_INVALID_ARG, w)
      else publish_built lc (mc_deliver ctx) (build_empty EV_MCP23008_READY ACT_MCP23008 w))"

text \<open>The register writes of a configuration, up to the first that fails, and the reading after them.\<close>

primrec write_registers :: "(u8 \<times> u8) list \<Rightarrow> 'w ev_mcp23008_actor_ctx \<Rightarrow> 'w \<Rightarrow> bool \<times> 'w" where
  "write_registers [] ctx w = (True, w)"
| "write_registers (rv # rvs) ctx w =
     (let (good, w) = ev_mcp23008_actor_write_reg ctx (fst rv) (snd rv) w
      in if good then write_registers rvs ctx w else (False, w))"

definition configuration :: "u8 \<Rightarrow> (u8 \<times> u8) list" where
  "configuration output_shadow =
     [(EV_MCP23008_REG_IOCON, EV_MCP23008_IOCON_ODR), (EV_MCP23008_REG_IODIR, EV_MCP23008_INPUT_DIR_MASK),
      (EV_MCP23008_REG_GPPU, EV_MCP23008_INPUT_PULLUP_MASK),
      (EV_MCP23008_REG_OLAT, ev_mcp23008_actor_build_olat output_shadow)]"

definition ev_mcp23008_actor_try_configure ::
    "'w ev_lifecycle \<Rightarrow> 'w ev_mcp23008_actor_ctx \<Rightarrow> 'w \<Rightarrow> ev_result \<times> 'w ev_mcp23008_actor_ctx \<times> 'w" where
  "ev_mcp23008_actor_try_configure lc ctx w =
     (let ctx = ctx\<lparr>mc_configured := False, mc_inputs_valid := False\<rparr>;
          (good, w) = write_registers (configuration (mc_output_shadow ctx)) ctx w
      in if \<not> good then (EV_OK, ctx, w)
         else
           let (good, raw_gpio, w) = ev_mcp23008_actor_read_gpio ctx w
           in if \<not> good then (EV_OK, ctx, w)
              else
                let ctx = ctx\<lparr>mc_input_shadow := ev_mcp23008_actor_normalize_buttons raw_gpio,
                              mc_inputs_valid := True, mc_configured := True\<rparr>;
                    (rc, w) = ev_mcp23008_actor_publish_ready lc ctx w
                in if rc \<noteq> EV_OK then (rc, ctx\<lparr>mc_configured := False, mc_inputs_valid := False\<rparr>, w)
                   else (EV_OK, ctx, w))"

definition ev_mcp23008_actor_handle_boot ::
    "'w ev_lifecycle \<Rightarrow> 'w ev_mcp23008_actor_ctx \<Rightarrow> 'w \<Rightarrow> ev_result \<times> 'w ev_mcp23008_actor_ctx \<times> 'w" where
  "ev_mcp23008_actor_handle_boot lc ctx w = ev_mcp23008_actor_try_configure lc ctx w"

text \<open>The polling of the buttons of an expander that is configured.\<close>

definition poll_buttons ::
    "'w ev_lifecycle \<Rightarrow> 'w ev_mcp23008_actor_ctx \<Rightarrow> 'w \<Rightarrow> ev_result \<times> 'w ev_mcp23008_actor_ctx \<times> 'w" where
  "poll_buttons lc ctx w =
     (let (good, raw_gpio, w) = ev_mcp23008_actor_read_gpio ctx w
      in if \<not> good then (EV_OK, ctx\<lparr>mc_configured := False, mc_inputs_valid := False\<rparr>, w)
         else
           let pressed_mask = ev_mcp23008_actor_normalize_buttons raw_gpio
           in if \<not> mc_inputs_valid ctx then (EV_OK, ctx\<lparr>mc_input_shadow := pressed_mask, mc_inputs_valid := True\<rparr>, w)
              else
                let changed_mask = pressed_mask XOR mc_input_shadow ctx
                in if changed_mask = 0 then (EV_OK, ctx, w)
                   else
                     let ctx = ctx\<lparr>mc_input_shadow := pressed_mask\<rparr>;
                         (rc, w) = ev_mcp23008_actor_publish_input_changed lc pressed_mask changed_mask ctx w
                     in (rc, ctx, w))"

definition ev_mcp23008_actor_handle_tick ::
    "'w ev_lifecycle \<Rightarrow> 'w ev_mcp23008_actor_ctx \<Rightarrow> 'w \<Rightarrow> ev_result \<times> 'w ev_mcp23008_actor_ctx \<times> 'w" where
  "ev_mcp23008_actor_handle_tick lc ctx w =
     (if mc_configured ctx then poll_buttons lc ctx w
      else
        let (rc, ctx, w) = ev_mcp23008_actor_try_configure lc ctx w
        in if rc \<noteq> EV_OK then (rc, ctx, w)
           else if \<not> mc_configured ctx then (EV_OK, ctx, w)
           else poll_buttons lc ctx w)"

text \<open>The LED shadow after a command; \<open>mem\<close> is the memory from a payload pointer on.\<close>

definition led_update :: "u8 \<Rightarrow> u8 \<Rightarrow> u8 \<Rightarrow> u8" where
  "led_update value_mask valid_mask output_shadow =
     (let valid_mask = valid_mask AND EV_MCP23008_LED_PINS
      in (output_shadow AND NOT valid_mask) OR (value_mask AND valid_mask AND EV_MCP23008_LED_PINS))"

definition ev_mcp23008_actor_handle_led_cmd ::
    "(ev_payload_ref \<Rightarrow> u8 list) \<Rightarrow> ev_msg \<Rightarrow> 'w ev_mcp23008_actor_ctx \<Rightarrow> 'w \<Rightarrow> ev_result \<times> 'w ev_mcp23008_actor_ctx \<times> 'w" where
  "ev_mcp23008_actor_handle_led_cmd mem msg ctx w =
     (case ev_msg_payload_data (Some msg) of
        None \<Rightarrow> (EV_ERR_CONTRACT, ctx, w)
      | Some cmd \<Rightarrow>
          if ev_msg_payload_size (Some msg) \<noteq> 2 then (EV_ERR_CONTRACT, ctx, w)
          else
            let ctx = ctx\<lparr>mc_output_shadow := led_update (mem cmd ! 0) (mem cmd ! 1) (mc_output_shadow ctx)\<rparr>
            in if \<not> mc_configured ctx then (EV_OK, ctx, w)
               else
                 let (good, w) = ev_mcp23008_actor_write_reg ctx EV_MCP23008_REG_OLAT
                       (ev_mcp23008_actor_build_olat (mc_output_shadow ctx)) w
                 in if \<not> good then (EV_OK, ctx\<lparr>mc_configured := False, mc_inputs_valid := False\<rparr>, w) else (EV_OK, ctx, w))"

definition ev_mcp23008_actor_init ::
    "'w ev_mcp23008_actor_ctx option \<Rightarrow> 'w ev_i2c_port option \<Rightarrow> ev_i2c_port_num \<Rightarrow> u8 \<Rightarrow> 'w ev_delivery_fn option \<Rightarrow> ptr
       \<Rightarrow> ev_result \<times> 'w ev_mcp23008_actor_ctx option" where
  "ev_mcp23008_actor_init ctx i2c_port port_num device_address_7bit deliver deliver_context =
     (if ctx = None \<or> i2c_port = None \<or> i2_read_regs (the i2c_port) = None \<or> i2_write_regs (the i2c_port) = None
         \<or> deliver = None \<or> deliver_context = None \<or> 0x7F < device_address_7bit
      then (EV_ERR_INVALID_ARG, ctx)
      else (EV_OK, Some \<lparr>mc_i2c_port = i2c_port, mc_port_num = port_num, mc_device_address_7bit = device_address_7bit,
        mc_deliver = deliver, mc_deliver_context = deliver_context, mc_input_shadow = 0, mc_output_shadow = 0,
        mc_configured = False, mc_inputs_valid = False\<rparr>))"

definition ev_mcp23008_actor_handle ::
    "'w ev_lifecycle \<Rightarrow> (ev_payload_ref \<Rightarrow> u8 list) \<Rightarrow> 'w ev_mcp23008_actor_ctx option \<Rightarrow> ev_msg option \<Rightarrow> 'w
       \<Rightarrow> ev_result \<times> 'w ev_mcp23008_actor_ctx option \<times> 'w" where
  "ev_mcp23008_actor_handle lc mem actor_context msg w =
     (if actor_context = None \<or> msg = None then (EV_ERR_INVALID_ARG, actor_context, w)
      else
        let ctx = the actor_context; e = msg_event_id (the msg);
            (rc, ctx, w) =
              (if e = EV_BOOT_COMPLETED then ev_mcp23008_actor_handle_boot lc ctx w
               else if e = EV_TICK_100MS then ev_mcp23008_actor_handle_tick lc ctx w
               else if e = EV_PANEL_LED_SET_CMD then ev_mcp23008_actor_handle_led_cmd mem (the msg) ctx w
               else (EV_ERR_CONTRACT, ctx, w))
        in (rc, Some ctx, w))"

section \<open>The LEDs\<close>

text \<open>
  What the actor relies on: a register write the bus acknowledges sets the register, and neither reads nor
  deliveries change one. \<open>regs\<close> shows the registers of the expander in the world.
\<close>

definition expander_contract ::
    "('w \<Rightarrow> u8 \<Rightarrow> u8) \<Rightarrow> 'w ev_i2c_port \<Rightarrow> ev_i2c_port_num \<Rightarrow> u8 \<Rightarrow> 'w ev_delivery_fn \<Rightarrow> bool" where
  "expander_contract regs port num addr deliver \<longleftrightarrow>
     (\<forall>f r v w w'. i2_write_regs port = Some f \<longrightarrow> f num addr r [v] w = (EV_I2C_OK, w') \<longrightarrow> regs w' = (regs w)(r := v))
     \<and> (\<forall>f r b w. i2_read_regs port = Some f \<longrightarrow> regs (snd (snd (f num addr r b w))) = regs w)
     \<and> (\<forall>t m w. regs (snd (deliver t m w)) = regs w)"

definition wired :: "'w ev_i2c_port \<Rightarrow> ev_i2c_port_num \<Rightarrow> u8 \<Rightarrow> 'w ev_delivery_fn \<Rightarrow> 'w ev_mcp23008_actor_ctx \<Rightarrow> bool" where
  "wired port num addr deliver ctx \<longleftrightarrow> mc_i2c_port ctx = Some port \<and> mc_port_num ctx = num
     \<and> mc_device_address_7bit ctx = addr \<and> mc_deliver ctx = Some deliver"

lemma wired_update [simp]:
  "wired p n a d (ctx\<lparr>mc_configured := b\<rparr>) = wired p n a d ctx" "wired p n a d (ctx\<lparr>mc_inputs_valid := b\<rparr>) = wired p n a d ctx"
  "wired p n a d (ctx\<lparr>mc_input_shadow := x\<rparr>) = wired p n a d ctx" "wired p n a d (ctx\<lparr>mc_output_shadow := x\<rparr>) = wired p n a d ctx"
  by (simp_all add: wired_def)

text \<open>The registers hold the values of a list of writes.\<close>

definition holds :: "(u8 \<Rightarrow> u8) \<Rightarrow> (u8 \<times> u8) list \<Rightarrow> bool" where
  "holds r rvs \<longleftrightarrow> (\<forall>p \<in> set rvs. r (fst p) = snd p)"

definition in_step :: "('w \<Rightarrow> u8 \<Rightarrow> u8) \<Rightarrow> 'w ev_mcp23008_actor_ctx \<times> 'w \<Rightarrow> bool" where
  "in_step regs cw \<longleftrightarrow> (mc_configured (fst cw) \<longrightarrow> holds (regs (snd cw)) (configuration (mc_output_shadow (fst cw))))"

lemma write_reg_sets:
  assumes "expander_contract regs p n a d" and "wired p n a d ctx" and "ev_mcp23008_actor_write_reg ctx r v w = (True, w')"
  shows "regs w' = (regs w)(r := v)"
  using assms by (auto simp: expander_contract_def wired_def ev_mcp23008_actor_write_reg_def split: option.splits prod.splits)

lemma read_gpio_keeps:
  assumes "expander_contract regs p n a d" and "wired p n a d ctx" and "ev_mcp23008_actor_read_gpio ctx w = (good, g, w')"
  shows "regs w' = regs w"
  using assms by (auto simp: expander_contract_def wired_def ev_mcp23008_actor_read_gpio_def split: option.splits prod.splits)
    (metis snd_conv)+

lemma write_registers_set:
  assumes "expander_contract regs p n a d" and "wired p n a d ctx"
  shows "write_registers rvs ctx w = (True, w') \<Longrightarrow> regs w' = foldl (\<lambda>f rv. f(fst rv := snd rv)) (regs w) rvs"
proof (induction rvs arbitrary: w)
  case (Cons rv rvs)
  then obtain w1 where "ev_mcp23008_actor_write_reg ctx (fst rv) (snd rv) w = (True, w1)" "write_registers rvs ctx w1 = (True, w')"
    by (auto split: prod.splits if_splits)
  then show ?case using Cons.IH write_reg_sets [OF assms] by simp
qed simp

lemma publication_keeps:
  assumes "expander_contract regs p n a d" and "wired p n a d ctx"
  shows "ev_mcp23008_actor_publish_ready lc ctx w = (rc, w') \<Longrightarrow> regs w' = regs w"
    and "ev_mcp23008_actor_publish_input_changed lc x y ctx w = (rc, w') \<Longrightarrow> regs w' = regs w"
proof -
  have "regs (snd (published (Some d) m w)) = regs w" for m
    using published_keeps [of "\<lambda>v. regs v = regs w" d w m] assms(1) by (simp add: expander_contract_def)
  then show "ev_mcp23008_actor_publish_ready lc ctx w = (rc, w') \<Longrightarrow> regs w' = regs w"
    "ev_mcp23008_actor_publish_input_changed lc x y ctx w = (rc, w') \<Longrightarrow> regs w' = regs w"
    using assms(2)
    by (auto simp: ev_mcp23008_actor_publish_ready_def ev_mcp23008_actor_publish_input_changed_def publish_empty_built
        publish_inline_built wired_def split: if_splits) (metis snd_conv)+
qed

lemma configuration_set:
  "holds (foldl (\<lambda>f rv. f(fst rv := snd rv)) r (configuration x)) (configuration x)"
  by (simp add: holds_def configuration_def)

lemma configure_in_step:
  assumes c: "expander_contract regs p n a d" "wired p n a d ctx"
    and run: "ev_mcp23008_actor_try_configure lc ctx w = (rc, ctx', w')"
  shows "wired p n a d ctx' \<and> mc_output_shadow ctx' = mc_output_shadow ctx \<and> in_step regs (ctx', w')"
proof -
  let ?c = "ctx\<lparr>mc_configured := False, mc_inputs_valid := False\<rparr>"
  have cw: "wired p n a d ?c" using c(2) by simp
  obtain good w1 where wr: "write_registers (configuration (mc_output_shadow ctx)) ?c w = (good, w1)" by fastforce
  obtain good2 g w2 where rd: "ev_mcp23008_actor_read_gpio ?c w1 = (good2, g, w2)" by (rule prod_cases3)
  let ?c2 = "?c\<lparr>mc_input_shadow := ev_mcp23008_actor_normalize_buttons g, mc_inputs_valid := True, mc_configured := True\<rparr>"
  obtain rc3 w3 where pb: "ev_mcp23008_actor_publish_ready lc ?c2 w2 = (rc3, w3)" by fastforce
  note R = run [unfolded ev_mcp23008_actor_try_configure_def Let_def, simplified, unfolded wr, simplified]
  consider "\<not> good" | "good" "\<not> good2" | "good" "good2" by blast
  then show ?thesis
  proof cases
    case 3
    have "regs w3 = foldl (\<lambda>f rv. f(fst rv := snd rv)) (regs w) (configuration (mc_output_shadow ctx))"
      using write_registers_set [OF c(1) cw, of _ w w1] wr 3 read_gpio_keeps [OF c(1) cw rd]
        publication_keeps(1) [OF c(1) _ pb] cw by simp
    then have "holds (regs w3) (configuration (mc_output_shadow ctx))" by (simp add: configuration_set)
    then show ?thesis using R 3 rd pb cw by (auto simp: in_step_def split: if_splits)
  qed (use R rd cw in \<open>auto simp: in_step_def\<close>)
qed

lemma poll_in_step:
  assumes c: "expander_contract regs p n a d" "wired p n a d ctx" and i: "in_step regs (ctx, w)"
    and run: "poll_buttons lc ctx w = (rc, ctx', w')"
  shows "wired p n a d ctx' \<and> mc_output_shadow ctx' = mc_output_shadow ctx \<and> in_step regs (ctx', w')"
proof -
  obtain good g w1 where rd: "ev_mcp23008_actor_read_gpio ctx w = (good, g, w1)" by (rule prod_cases3)
  let ?x = "ev_mcp23008_actor_normalize_buttons g"
  let ?c = "ctx\<lparr>mc_input_shadow := ?x\<rparr>"
  obtain rc2 w2 where pb: "ev_mcp23008_actor_publish_input_changed lc ?x (?x XOR mc_input_shadow ctx) ?c w1 = (rc2, w2)"
    by fastforce
  have "regs w1 = regs w" "regs w2 = regs w"
    using read_gpio_keeps [OF c rd] publication_keeps(2) [OF c(1) _ pb] c(2) by simp_all
  then show ?thesis
    using run c(2) i by (auto simp: poll_buttons_def rd pb Let_def in_step_def split: if_splits)
qed

text \<open>The LED commands among some messages, as pairs of value and valid mask, and what they ask of LED \<open>i\<close>.\<close>

definition led_commands :: "(ev_payload_ref \<Rightarrow> u8 list) \<Rightarrow> ev_msg list \<Rightarrow> (u8 \<times> u8) list" where
  "led_commands mem ms =
     map (\<lambda>m. let b = mem (the (ev_msg_payload_data (Some m))) in (b ! 0, b ! 1))
       (filter (\<lambda>m. msg_event_id m = EV_PANEL_LED_SET_CMD \<and> ev_msg_payload_data (Some m) \<noteq> None \<and> msg_payload_size m = 2) ms)"

definition lit :: "nat \<Rightarrow> (u8 \<times> u8) list \<Rightarrow> bool" where
  "lit i cmds = foldl (\<lambda>on c. if bit (snd c) i then bit (fst c) i else on) False cmds"

lemma led_update_bit:
  assumes "i < 4"
  shows "bit (led_update v m x) i \<longleftrightarrow> (if bit m i then bit v i else bit x i)"
proof -
  have "bit (0x0F :: u8) i" using assms by (auto simp: less_Suc_eq numeral_eq_Suc)
  then show ?thesis by (auto simp: led_update_def bit_simps Let_def)
qed

lemma build_olat_bit: "bit (ev_mcp23008_actor_build_olat x) i \<longleftrightarrow> 4 \<le> i \<and> i < 8 \<and> bit x (i - 4)"
proof -
  have "bit (240 :: u8) i" if "4 \<le> i" "i < 8"
  proof -
    from that have "i = 4 \<or> i = 5 \<or> i = 6 \<or> i = 7" by auto
    then show ?thesis by auto
  qed
  then show ?thesis by (auto simp: ev_mcp23008_actor_build_olat_def bit_simps)
qed

lemma lit_simps [simp]:
  "lit i [] = False" "lit i (cmds @ [c]) = (if bit (snd c) i then bit (fst c) i else lit i cmds)"
  by (simp_all add: lit_def)

fun mcp23008_step ::
    "'w ev_lifecycle \<Rightarrow> (ev_payload_ref \<Rightarrow> u8 list) \<Rightarrow> 'w ev_mcp23008_actor_ctx \<times> 'w \<Rightarrow> ev_msg \<Rightarrow> 'w ev_mcp23008_actor_ctx \<times> 'w" where
  "mcp23008_step lc mem (ctx, w) m =
     (let (rc, ctx, w) = ev_mcp23008_actor_handle lc mem (Some ctx) (Some m) w in (the ctx, w))"

definition mcp23008_run ::
    "'w ev_lifecycle \<Rightarrow> (ev_payload_ref \<Rightarrow> u8 list) \<Rightarrow> 'w ev_mcp23008_actor_ctx \<Rightarrow> 'w \<Rightarrow> ev_msg list \<Rightarrow> 'w ev_mcp23008_actor_ctx \<times> 'w" where
  "mcp23008_run lc mem ctx w ms = foldl (mcp23008_step lc mem) (ctx, w) ms"

text \<open>Everything a message keeps: the wiring, the registers in step, and the LED shadow but for LED commands.\<close>

definition shows_leds :: "('w \<Rightarrow> u8 \<Rightarrow> u8) \<Rightarrow> (u8 \<times> u8) list \<Rightarrow> 'w ev_mcp23008_actor_ctx \<times> 'w \<Rightarrow> bool" where
  "shows_leds regs cmds cw \<longleftrightarrow> in_step regs cw \<and> (\<forall>i < 4. bit (mc_output_shadow (fst cw)) i \<longleftrightarrow> lit i cmds)"

lemma led_cmd_keeps:
  assumes c: "expander_contract regs p n a d" "wired p n a d ctx" and s: "shows_leds regs cmds (ctx, w)"
    and run: "ev_mcp23008_actor_handle_led_cmd mem m ctx w = (rc, ctx', w')" and e: "msg_event_id m = EV_PANEL_LED_SET_CMD"
  shows "wired p n a d ctx' \<and> shows_leds regs (cmds @ led_commands mem [m]) (ctx', w')"
proof (cases "ev_msg_payload_data (Some m) = None \<or> msg_payload_size m \<noteq> 2")
  case True
  then show ?thesis
    using run c(2) s
    by (auto simp: ev_mcp23008_actor_handle_led_cmd_def led_commands_def ev_msg_payload_size_def split: option.splits)
next
  case False
  then obtain r where r: "ev_msg_payload_data (Some m) = Some r" and sz: "msg_payload_size m = 2" by auto
  let ?x = "led_update (mem r ! 0) (mem r ! 1) (mc_output_shadow ctx)"
  let ?c = "ctx\<lparr>mc_output_shadow := ?x\<rparr>"
  have cm: "led_commands mem [m] = [(mem r ! 0, mem r ! 1)]" by (simp add: led_commands_def r sz e Let_def)
  have sh: "\<forall>i < 4. bit ?x i \<longleftrightarrow> lit i (cmds @ led_commands mem [m])"
    using s by (simp add: cm led_update_bit shows_leds_def)
  obtain good w1 where wr: "ev_mcp23008_actor_write_reg ?c EV_MCP23008_REG_OLAT (ev_mcp23008_actor_build_olat ?x) w = (good, w1)"
    by fastforce
  have "regs w1 = (regs w)(EV_MCP23008_REG_OLAT := ev_mcp23008_actor_build_olat ?x)" if good
    using write_reg_sets [OF c(1) _ wr [unfolded eqTrueI [OF that]]] c(2) by simp
  then show ?thesis
    using run r sz wr c(2) s sh
    by (auto simp: ev_mcp23008_actor_handle_led_cmd_def ev_msg_payload_size_def Let_def shows_leds_def in_step_def
        holds_def configuration_def split: if_splits)
qed

lemma tick_keeps:
  assumes c: "expander_contract regs p n a d" "wired p n a d ctx" and i: "in_step regs (ctx, w)"
    and run: "ev_mcp23008_actor_handle_tick lc ctx w = (rc, ctx', w')"
  shows "wired p n a d ctx' \<and> mc_output_shadow ctx' = mc_output_shadow ctx \<and> in_step regs (ctx', w')"
proof (cases "mc_configured ctx")
  case True
  then show ?thesis using run poll_in_step [OF c i] by (simp add: ev_mcp23008_actor_handle_tick_def)
next
  case False
  obtain rc1 c1 w1 where t: "ev_mcp23008_actor_try_configure lc ctx w = (rc1, c1, w1)" by (rule prod_cases3)
  show ?thesis
    using run False t configure_in_step [OF c t] poll_in_step [OF c(1), of c1 w1 lc rc ctx' w']
    by (auto simp: ev_mcp23008_actor_handle_tick_def split: if_splits)
qed

lemma mcp23008_step_keeps:
  assumes c: "expander_contract regs p n a d" "wired p n a d ctx" and s: "shows_leds regs cmds (ctx, w)"
    and run: "mcp23008_step lc mem (ctx, w) m = (ctx', w')"
  shows "wired p n a d ctx' \<and> shows_leds regs (cmds @ led_commands mem [m]) (ctx', w')"
proof -
  obtain rc oc w1 where h: "ev_mcp23008_actor_handle lc mem (Some ctx) (Some m) w = (rc, oc, w1)" by (rule prod_cases3)
  have o: "ctx' = the oc" "w' = w1" using run h by simp_all
  have i: "in_step regs (ctx, w)" using s by (simp add: shows_leds_def)
  consider (led) "msg_event_id m = EV_PANEL_LED_SET_CMD" | (tick) "msg_event_id m = EV_TICK_100MS"
    | (boot) "msg_event_id m = EV_BOOT_COMPLETED"
    | (rest) "msg_event_id m \<notin> {EV_PANEL_LED_SET_CMD, EV_TICK_100MS, EV_BOOT_COMPLETED}" by auto
  then show ?thesis
  proof cases
    case led
    then show ?thesis
      using h led_cmd_keeps [OF c s _ led, of mem rc ctx' w'] o by (auto simp: ev_mcp23008_actor_handle_def split: prod.splits)
  next
    case tick
    then have "led_commands mem [m] = []" by (simp add: led_commands_def)
    then show ?thesis
      using h tick tick_keeps [OF c i, of lc rc ctx' w'] o s
      by (auto simp: ev_mcp23008_actor_handle_def shows_leds_def split: prod.splits)
  next
    case boot
    then have "led_commands mem [m] = []" by (simp add: led_commands_def)
    then show ?thesis
      using h boot configure_in_step [OF c, of lc w rc ctx' w'] o s
      by (auto simp: ev_mcp23008_actor_handle_def ev_mcp23008_actor_handle_boot_def shows_leds_def split: prod.splits)
  next
    case rest
    then have "led_commands mem [m] = []" by (simp add: led_commands_def)
    then show ?thesis using h rest o s c(2) by (auto simp: ev_mcp23008_actor_handle_def split: prod.splits)
  qed
qed

lemma led_commands_append [simp]: "led_commands mem (ms @ ms') = led_commands mem ms @ led_commands mem ms'"
  by (simp add: led_commands_def)

lemma mcp23008_run_keeps:
  assumes c: "expander_contract regs p n a d" "wired p n a d ctx" and s: "shows_leds regs [] (ctx, w)"
  shows "wired p n a d (fst (mcp23008_run lc mem ctx w ms)) \<and> shows_leds regs (led_commands mem ms) (mcp23008_run lc mem ctx w ms)"
proof (induction ms rule: rev_induct)
  case Nil
  then show ?case using c s by (simp add: mcp23008_run_def led_commands_def)
next
  case (snoc m ms)
  then show ?case
    using mcp23008_step_keeps [OF c(1), of "fst (mcp23008_run lc mem ctx w ms)" "led_commands mem ms" "snd (mcp23008_run lc mem ctx w ms)" lc mem m]
    by (cases "mcp23008_step lc mem (mcp23008_run lc mem ctx w ms) m") (auto simp: mcp23008_run_def)
qed

text \<open>
  C21: whenever the actor holds the expander for configured, the expander's registers are the ones the panel needs:
  open-drain interrupt, pins 0 to 3 inputs with pull-ups, and LED \<open>i\<close> on pin \<open>4 + i\<close> on exactly if the last command
  that addressed it said so. This holds after any messages, whatever bus failures happened on the way.
\<close>

theorem leds_follow_commands:
  assumes chip: "expander_contract regs p n a d"
    and start: "ev_mcp23008_actor_init (Some c) (Some p) n a (Some d) dc = (EV_OK, Some ctx)"
    and run: "mcp23008_run lc mem ctx w ms = (ctx', w')" and good: "mc_configured ctx'"
  shows "regs w' EV_MCP23008_REG_IOCON = EV_MCP23008_IOCON_ODR \<and> regs w' EV_MCP23008_REG_IODIR = 0x0F
    \<and> regs w' EV_MCP23008_REG_GPPU = 0x0F
    \<and> (\<forall>i. bit (regs w' EV_MCP23008_REG_OLAT) i \<longleftrightarrow> 4 \<le> i \<and> i < 8 \<and> lit (i - 4) (led_commands mem ms))"
proof -
  have "wired p n a d ctx" "shows_leds regs [] (ctx, w)"
    using start by (auto simp: ev_mcp23008_actor_init_def wired_def shows_leds_def in_step_def split: if_splits)
  then have k: "shows_leds regs (led_commands mem ms) (ctx', w')"
    using mcp23008_run_keeps [OF chip, of ctx w lc mem ms] run by simp
  then have h: "holds (regs w') (configuration (mc_output_shadow ctx'))" and
    s: "\<forall>i < 4. bit (mc_output_shadow ctx') i \<longleftrightarrow> lit i (led_commands mem ms)"
    using good by (simp_all add: shows_leds_def in_step_def)
  then show ?thesis by (auto simp: holds_def configuration_def build_olat_bit)
qed

text \<open>The world of the example: the registers and the targets of the deliveries.\<close>

definition demo_expander :: "((u8 \<Rightarrow> u8) \<times> ev_actor_id list) ev_i2c_port" where
  "demo_expander = \<lparr>i2_ctx = Some 1, i2_write_stream = None, i2_read_stream = None,
     i2_write_regs = Some (\<lambda>p a r bs (f, d). (EV_I2C_OK, (f(r := hd bs), d))),
     i2_read_regs = Some (\<lambda>p a r bs (f, d). (EV_I2C_OK, [f r], (f, d)))\<rparr>"

definition demo_expander_delivery :: "((u8 \<Rightarrow> u8) \<times> ev_actor_id list) ev_delivery_fn" where
  "demo_expander_delivery = (\<lambda>t m (f, d). (EV_OK, (f, d @ [t])))"

definition demo_mcp23008 :: "((u8 \<Rightarrow> u8) \<times> ev_actor_id list) ev_mcp23008_actor_ctx" where
  "demo_mcp23008 = \<lparr>mc_i2c_port = Some demo_expander, mc_port_num = 0, mc_device_address_7bit = 0x20,
     mc_deliver = Some demo_expander_delivery, mc_deliver_context = Some 1, mc_input_shadow = 0, mc_output_shadow = 0,
     mc_configured = False, mc_inputs_valid = False\<rparr>"

definition demo_expander_lifecycle :: "((u8 \<Rightarrow> u8) \<times> ev_actor_id list) ev_lifecycle" where
  "demo_expander_lifecycle = \<lparr>lc_retain = \<lambda>f c d n s. (EV_OK, s), lc_release = \<lambda>f c d n s. s\<rparr>"

definition demo_led_messages :: "ev_msg list" where
  "demo_led_messages = [inline_msg EV_PANEL_LED_SET_CMD ACT_COMMAND [0x05, 0x0F], demo_publish_msg EV_BOOT_COMPLETED,
     inline_msg EV_PANEL_LED_SET_CMD ACT_COMMAND [0x00, 0x01], demo_publish_msg EV_TICK_100MS]"

definition demo_led_run :: "((u8 \<Rightarrow> u8) \<times> ev_actor_id list) ev_mcp23008_actor_ctx \<times> (u8 \<Rightarrow> u8) \<times> ev_actor_id list" where
  "demo_led_run = mcp23008_run demo_expander_lifecycle message_memory demo_mcp23008 (\<lambda>r. 0xFF, []) demo_led_messages"

text \<open>LEDs 0 and 2 are switched on before the boot, LED 0 is switched off afterwards.\<close>

theorem leds_follow_commands_witness:
  "bit (fst (snd demo_led_run) EV_MCP23008_REG_OLAT) 6 \<and> \<not> bit (fst (snd demo_led_run) EV_MCP23008_REG_OLAT) 4
   \<and> fst (snd demo_led_run) EV_MCP23008_REG_IODIR = 0x0F"
proof -
  have chip: "expander_contract fst demo_expander 0 0x20 demo_expander_delivery"
    by (auto simp: expander_contract_def demo_expander_def demo_expander_delivery_def split: prod.splits)
  have start: "ev_mcp23008_actor_init (Some demo_mcp23008) (Some demo_expander) 0 0x20 (Some demo_expander_delivery) (Some 1)
      = (EV_OK, Some demo_mcp23008)"
    by (simp add: ev_mcp23008_actor_init_def demo_expander_def demo_mcp23008_def)
  have "mcp23008_run demo_expander_lifecycle message_memory demo_mcp23008 (\<lambda>r. 0xFF, []) demo_led_messages
      = (fst demo_led_run, snd demo_led_run)"
    by (simp add: demo_led_run_def)
  note h = leds_follow_commands [OF chip start this]
  have "mc_configured (fst demo_led_run)" by code_simp
  moreover have "lit 2 (led_commands message_memory demo_led_messages)" "\<not> lit 0 (led_commands message_memory demo_led_messages)"
    by code_simp+
  ultimately show ?thesis using h by simp
qed

section \<open>The buttons\<close>

text \<open>
  A poll publishes exactly the changes against the shadow, which is what was published last or read at the
  configuration.
\<close>

lemma poll_publishes_changes:
  assumes "ev_mcp23008_actor_read_gpio ctx w = (True, g, w1)" and "mc_inputs_valid ctx"
    and "mc_deliver ctx = Some d" and "mc_deliver_context ctx \<noteq> None"
  shows "poll_buttons lc ctx w =
    (let x = NOT g AND 0x0F; changed = x XOR mc_input_shadow ctx
     in if changed = 0 then (EV_OK, ctx, w1)
        else let (rc, w2) = published (Some d) (inline_msg EV_MCP23008_INPUT_CHANGED ACT_MCP23008 [x, changed AND 0x0F]) w1
             in (rc, ctx\<lparr>mc_input_shadow := x\<rparr>, w2))"
  using assms
  by (simp add: poll_buttons_def ev_mcp23008_actor_publish_input_changed_def ev_mcp23008_actor_normalize_buttons_def
      publish_inline_built Let_def and.assoc del: not_None_eq)

text \<open>
  So a change that happens while the expander cannot be reached is never published: the configuration takes over the
  inputs it finds, and the next poll compares with them.
\<close>

lemma change_missed_by_configuration:
  assumes "\<not> mc_configured ctx" and "ev_mcp23008_actor_try_configure lc ctx w = (EV_OK, c1, w1)" and "mc_configured c1"
    and "ev_mcp23008_actor_read_gpio c1 w1 = (True, g, w2)" and "NOT g AND 0x0F = mc_input_shadow c1"
  shows "ev_mcp23008_actor_handle_tick lc ctx w = (EV_OK, c1, w2)"
proof -
  have "mc_inputs_valid c1"
    using assms(2,3) by (auto simp: ev_mcp23008_actor_try_configure_def Let_def split: prod.splits if_splits)
  then show ?thesis
    using assms by (simp add: ev_mcp23008_actor_handle_tick_def poll_buttons_def ev_mcp23008_actor_normalize_buttons_def Let_def)
qed

end
