(* ===== verification/EvPanelActor.thy ===== *)
theory EvPanelActor
  imports EvDeviceIo
begin

text \<open>
  The panel actor (\<open>actors/device/ev_panel_actor.c\<close>) turns the masks of pressed buttons into gestures: press,
  release, short and long. The refinement at the end reads the events of a button off its samples, one per 100 ms
  tick.
\<close>

section \<open>State and operations\<close>

abbreviation EV_PANEL_BUTTON_COUNT :: nat where "EV_PANEL_BUTTON_COUNT \<equiv> 4"
abbreviation EV_BUTTON_ACTION_PRESS :: u8 where "EV_BUTTON_ACTION_PRESS \<equiv> 1"
abbreviation EV_BUTTON_ACTION_RELEASE :: u8 where "EV_BUTTON_ACTION_RELEASE \<equiv> 2"
abbreviation EV_BUTTON_ACTION_SHORT :: u8 where "EV_BUTTON_ACTION_SHORT \<equiv> 3"
abbreviation EV_BUTTON_ACTION_LONG :: u8 where "EV_BUTTON_ACTION_LONG \<equiv> 4"
abbreviation EV_PANEL_DEBOUNCE_TICKS :: u8 where "EV_PANEL_DEBOUNCE_TICKS \<equiv> 1"
abbreviation EV_PANEL_LONG_PRESS_TICKS :: u16 where "EV_PANEL_LONG_PRESS_TICKS \<equiv> 10"
abbreviation EV_PANEL_RAW_PINS :: u8 where "EV_PANEL_RAW_PINS \<equiv> 0x0F"

record 'w ev_panel_actor_ctx =
  pn_deliver :: "'w ev_delivery_fn option"
  pn_deliver_context :: ptr
  pn_raw_mask :: u8
  pn_stable_mask :: u8
  pn_long_reported_mask :: u8
  pn_debounce_ticks :: "u8 list"
  pn_hold_ticks :: "u16 list"
  pn_raw_valid :: bool

definition ev_panel_actor_publish_button_event ::
    "'w ev_lifecycle \<Rightarrow> nat \<Rightarrow> u8 \<Rightarrow> 'w ev_panel_actor_ctx \<Rightarrow> 'w \<Rightarrow> ev_result \<times> 'w" where
  "ev_panel_actor_publish_button_event lc button_id action ctx w =
     (if pn_deliver ctx = None \<or> pn_deliver_context ctx = None \<or> EV_PANEL_BUTTON_COUNT \<le> button_id
      then (EV_ERR_INVALID_ARG, w)
      else publish_built lc (pn_deliver ctx) (build_inline lc EV_BUTTON_EVENT ACT_PANEL [of_nat button_id, action] w))"

text \<open>\<open>mem\<close> is the memory from a payload pointer on.\<close>

definition ev_panel_actor_handle_inputs_changed ::
    "(ev_payload_ref \<Rightarrow> u8 list) \<Rightarrow> ev_msg \<Rightarrow> 'w ev_panel_actor_ctx \<Rightarrow> ev_result \<times> 'w ev_panel_actor_ctx" where
  "ev_panel_actor_handle_inputs_changed mem msg ctx =
     (case ev_msg_payload_data (Some msg) of
        None \<Rightarrow> (EV_ERR_CONTRACT, ctx)
      | Some payload \<Rightarrow>
          if ev_msg_payload_size (Some msg) \<noteq> 2 then (EV_ERR_CONTRACT, ctx)
          else (EV_OK, ctx\<lparr>pn_raw_mask := mem payload ! 0 AND EV_PANEL_RAW_PINS, pn_raw_valid := True\<rparr>))"

definition button_bit :: "nat \<Rightarrow> u8" where
  "button_bit button_id = push_bit button_id 1"

text \<open>A button whose sample differs from its stable state for long enough: pressed, or released.\<close>

definition press_button ::
    "'w ev_lifecycle \<Rightarrow> nat \<Rightarrow> 'w ev_panel_actor_ctx \<Rightarrow> 'w \<Rightarrow> ev_result \<times> 'w ev_panel_actor_ctx \<times> 'w" where
  "press_button lc i ctx w =
     (let b = button_bit i;
          ctx = ctx\<lparr>pn_stable_mask := pn_stable_mask ctx OR b, pn_hold_ticks := (pn_hold_ticks ctx)[i := 0],
                    pn_long_reported_mask := pn_long_reported_mask ctx AND NOT b\<rparr>;
          (rc, w) = ev_panel_actor_publish_button_event lc i EV_BUTTON_ACTION_PRESS ctx w
      in (rc, ctx, w))"

definition release_button ::
    "'w ev_lifecycle \<Rightarrow> nat \<Rightarrow> 'w ev_panel_actor_ctx \<Rightarrow> 'w \<Rightarrow> ev_result \<times> 'w ev_panel_actor_ctx \<times> 'w" where
  "release_button lc i ctx w =
     (let b = button_bit i;
          ctx = ctx\<lparr>pn_stable_mask := pn_stable_mask ctx AND NOT b\<rparr>;
          (rc, w) = ev_panel_actor_publish_button_event lc i EV_BUTTON_ACTION_RELEASE ctx w
      in if rc \<noteq> EV_OK then (rc, ctx, w)
         else
           let (rc, w) = (if pn_long_reported_mask ctx AND b = 0
                  then ev_panel_actor_publish_button_event lc i EV_BUTTON_ACTION_SHORT ctx w else (rc, w))
           in (rc, ctx\<lparr>pn_hold_ticks := (pn_hold_ticks ctx)[i := 0],
                       pn_long_reported_mask := pn_long_reported_mask ctx AND NOT b\<rparr>, w))"

text \<open>A button whose sample agrees with its stable state.\<close>

definition keep_button ::
    "'w ev_lifecycle \<Rightarrow> nat \<Rightarrow> bool \<Rightarrow> 'w ev_panel_actor_ctx \<Rightarrow> 'w \<Rightarrow> ev_result \<times> 'w ev_panel_actor_ctx \<times> 'w" where
  "keep_button lc i stable_pressed ctx w =
     (let b = button_bit i; ctx = ctx\<lparr>pn_debounce_ticks := (pn_debounce_ticks ctx)[i := 0]\<rparr>
      in if \<not> stable_pressed then (EV_OK, ctx, w)
         else
           let ctx = (if pn_hold_ticks ctx ! i < 0xFFFF
                then ctx\<lparr>pn_hold_ticks := (pn_hold_ticks ctx)[i := pn_hold_ticks ctx ! i + 1]\<rparr> else ctx)
           in if EV_PANEL_LONG_PRESS_TICKS \<le> pn_hold_ticks ctx ! i \<and> pn_long_reported_mask ctx AND b = 0
              then
                let (rc, w) = ev_panel_actor_publish_button_event lc i EV_BUTTON_ACTION_LONG ctx w
                in if rc \<noteq> EV_OK then (rc, ctx, w)
                   else (EV_OK, ctx\<lparr>pn_long_reported_mask := pn_long_reported_mask ctx OR b\<rparr>, w)
              else (EV_OK, ctx, w))"

text \<open>One turn of the loop over the buttons.\<close>

definition scan_button ::
    "'w ev_lifecycle \<Rightarrow> nat \<Rightarrow> 'w ev_panel_actor_ctx \<Rightarrow> 'w \<Rightarrow> ev_result \<times> 'w ev_panel_actor_ctx \<times> 'w" where
  "scan_button lc i ctx w =
     (let b = button_bit i;
          raw_pressed = (pn_raw_mask ctx AND b \<noteq> 0);
          stable_pressed = (pn_stable_mask ctx AND b \<noteq> 0)
      in if raw_pressed \<noteq> stable_pressed
         then
           let ctx = (if pn_debounce_ticks ctx ! i < 0xFF
                then ctx\<lparr>pn_debounce_ticks := (pn_debounce_ticks ctx)[i := pn_debounce_ticks ctx ! i + 1]\<rparr> else ctx)
           in if EV_PANEL_DEBOUNCE_TICKS \<le> pn_debounce_ticks ctx ! i
              then
                let ctx = ctx\<lparr>pn_debounce_ticks := (pn_debounce_ticks ctx)[i := 0]\<rparr>
                in if raw_pressed then press_button lc i ctx w else release_button lc i ctx w
              else (EV_OK, ctx, w)
         else keep_button lc i stable_pressed ctx w)"

text \<open>The loop over the buttons from one on; an error ends it.\<close>

primrec scan_buttons ::
    "'w ev_lifecycle \<Rightarrow> nat list \<Rightarrow> 'w ev_panel_actor_ctx \<Rightarrow> 'w \<Rightarrow> ev_result \<times> 'w ev_panel_actor_ctx \<times> 'w" where
  "scan_buttons lc [] ctx w = (EV_OK, ctx, w)"
| "scan_buttons lc (i # is) ctx w =
     (let (rc, ctx, w) = scan_button lc i ctx w
      in if rc \<noteq> EV_OK then (rc, ctx, w) else scan_buttons lc is ctx w)"

definition ev_panel_actor_handle_tick ::
    "'w ev_lifecycle \<Rightarrow> 'w ev_panel_actor_ctx \<Rightarrow> 'w \<Rightarrow> ev_result \<times> 'w ev_panel_actor_ctx \<times> 'w" where
  "ev_panel_actor_handle_tick lc ctx w =
     (if \<not> pn_raw_valid ctx then (EV_OK, ctx, w) else scan_buttons lc [0..<EV_PANEL_BUTTON_COUNT] ctx w)"

definition ev_panel_actor_init ::
    "'w ev_panel_actor_ctx option \<Rightarrow> 'w ev_delivery_fn option \<Rightarrow> ptr \<Rightarrow> ev_result \<times> 'w ev_panel_actor_ctx option" where
  "ev_panel_actor_init ctx deliver deliver_context =
     (if ctx = None \<or> deliver = None \<or> deliver_context = None then (EV_ERR_INVALID_ARG, ctx)
      else (EV_OK, Some \<lparr>pn_deliver = deliver, pn_deliver_context = deliver_context, pn_raw_mask = 0, pn_stable_mask = 0,
        pn_long_reported_mask = 0, pn_debounce_ticks = replicate EV_PANEL_BUTTON_COUNT 0,
        pn_hold_ticks = replicate EV_PANEL_BUTTON_COUNT 0, pn_raw_valid = False\<rparr>))"

definition ev_panel_actor_handle ::
    "'w ev_lifecycle \<Rightarrow> (ev_payload_ref \<Rightarrow> u8 list) \<Rightarrow> 'w ev_panel_actor_ctx option \<Rightarrow> ev_msg option \<Rightarrow> 'w
       \<Rightarrow> ev_result \<times> 'w ev_panel_actor_ctx option \<times> 'w" where
  "ev_panel_actor_handle lc mem actor_context msg w =
     (if actor_context = None \<or> msg = None then (EV_ERR_INVALID_ARG, actor_context, w)
      else
        let ctx = the actor_context; e = msg_event_id (the msg)
        in if e = EV_MCP23008_INPUT_CHANGED
           then let (rc, ctx) = ev_panel_actor_handle_inputs_changed mem (the msg) ctx in (rc, Some ctx, w)
           else if e = EV_TICK_100MS
           then let (rc, ctx, w) = ev_panel_actor_handle_tick lc ctx w in (rc, Some ctx, w)
           else (EV_ERR_CONTRACT, Some ctx, w))"

section \<open>Gestures\<close>

text \<open>A button is up, or down since \<open>n\<close> samples after the one that pressed it, its long press reported or not.\<close>

datatype button = Up | Down nat bool

text \<open>The actions that a sample causes, and the button after it, by the result of their delivery.\<close>

fun actions :: "button \<Rightarrow> bool \<Rightarrow> u8 list" where
  "actions Up p = (if p then [EV_BUTTON_ACTION_PRESS] else [])"
| "actions (Down n r) p =
     (if p then (if 10 \<le> Suc n \<and> \<not> r then [EV_BUTTON_ACTION_LONG] else [])
      else EV_BUTTON_ACTION_RELEASE # (if r then [] else [EV_BUTTON_ACTION_SHORT]))"

fun sampled :: "button \<Rightarrow> bool \<Rightarrow> ev_result \<Rightarrow> button" where
  "sampled Up p rc = (if p then Down 0 False else Up)"
| "sampled (Down n r) p rc = (if p then Down (Suc n) (r \<or> 10 \<le> Suc n \<and> rc = EV_OK) else Up)"

text \<open>The actor's fields for button \<open>i\<close>; the counter of the samples stops at its maximum.\<close>

definition shows_button :: "'w ev_panel_actor_ctx \<Rightarrow> nat \<Rightarrow> button \<Rightarrow> bool" where
  "shows_button ctx i b \<longleftrightarrow> pn_debounce_ticks ctx ! i = 0
     \<and> (case b of Up \<Rightarrow> \<not> bit (pn_stable_mask ctx) i
        | Down n r \<Rightarrow> bit (pn_stable_mask ctx) i \<and> unat (pn_hold_ticks ctx ! i) = min n 65535
            \<and> (bit (pn_long_reported_mask ctx) i \<longleftrightarrow> r))"

definition button_msg :: "nat \<Rightarrow> u8 \<Rightarrow> ev_msg" where
  "button_msg i a = inline_msg EV_BUTTON_EVENT ACT_PANEL [of_nat i, a]"

lemma button_published: "published (Some d) (button_msg i a) w = d ACT_APP (button_msg i a) w"
proof (rule published_to_one)
  show "targets_of_event (msg_event_id (button_msg i a)) = [ACT_APP]"
    by (simp add: button_msg_def inline_msg_def) code_simp
qed (simp_all add: button_msg_def inline_msg_valid, simp add: inline_msg_def)

text \<open>Delivering the actions of a button to the application, as long as the deliveries succeed.\<close>

primrec deliver_actions :: "'w ev_delivery_fn \<Rightarrow> nat \<Rightarrow> u8 list \<Rightarrow> 'w \<Rightarrow> ev_result \<times> 'w" where
  "deliver_actions d i [] w = (EV_OK, w)"
| "deliver_actions d i (a # as) w =
     (let (rc, w) = d ACT_APP (button_msg i a) w in if rc \<noteq> EV_OK then (rc, w) else deliver_actions d i as w)"

definition panel_wired :: "'w ev_delivery_fn \<Rightarrow> 'w ev_panel_actor_ctx \<Rightarrow> bool" where
  "panel_wired d ctx \<longleftrightarrow> pn_deliver ctx = Some d \<and> pn_deliver_context ctx \<noteq> None
     \<and> length (pn_debounce_ticks ctx) = 4 \<and> length (pn_hold_ticks ctx) = 4"

lemma panel_wired_update [simp]:
  "panel_wired d (ctx\<lparr>pn_stable_mask := x\<rparr>) = panel_wired d ctx" "panel_wired d (ctx\<lparr>pn_long_reported_mask := x\<rparr>) = panel_wired d ctx"
  "panel_wired d (ctx\<lparr>pn_raw_mask := x\<rparr>) = panel_wired d ctx" "panel_wired d (ctx\<lparr>pn_raw_valid := v\<rparr>) = panel_wired d ctx"
  "length xs = length (pn_debounce_ticks ctx) \<Longrightarrow> panel_wired d (ctx\<lparr>pn_debounce_ticks := xs\<rparr>) = panel_wired d ctx"
  "length ys = length (pn_hold_ticks ctx) \<Longrightarrow> panel_wired d (ctx\<lparr>pn_hold_ticks := ys\<rparr>) = panel_wired d ctx"
  by (simp_all add: panel_wired_def)

lemma publish_button:
  assumes "panel_wired d ctx" and "i < 4"
  shows "ev_panel_actor_publish_button_event lc i a ctx w = d ACT_APP (button_msg i a) w"
  using assms
  by (simp add: ev_panel_actor_publish_button_event_def panel_wired_def publish_inline_built button_published
      flip: button_msg_def del: not_None_eq)

lemma bit_button_bit: "bit (button_bit i) j \<longleftrightarrow> i < 8 \<and> j = i"
  by (auto simp: button_bit_def bit_simps)

lemma button_bit_simps:
  "x AND button_bit i = 0 \<longleftrightarrow> \<not> bit x i"
  "i < 8 \<Longrightarrow> bit (x OR button_bit i) j \<longleftrightarrow> j = i \<or> bit x j"
  "bit (x AND NOT (button_bit i)) j \<longleftrightarrow> j \<noteq> i \<and> bit x j"
proof -
  show "x AND button_bit i = 0 \<longleftrightarrow> \<not> bit x i"
    unfolding button_bit_def bit_iff_and_push_bit_not_eq_0 by blast
qed (auto simp: bit_or_iff bit_and_iff bit_not_iff bit_button_bit dest: bit_imp_le_length)

text \<open>What a scan of button \<open>i\<close> leaves alone.\<close>

definition others_kept :: "nat \<Rightarrow> 'w ev_panel_actor_ctx \<Rightarrow> 'w ev_panel_actor_ctx \<Rightarrow> bool" where
  "others_kept i ctx ctx' \<longleftrightarrow> pn_deliver ctx' = pn_deliver ctx \<and> pn_deliver_context ctx' = pn_deliver_context ctx
     \<and> pn_raw_mask ctx' = pn_raw_mask ctx \<and> pn_raw_valid ctx' = pn_raw_valid ctx
     \<and> length (pn_debounce_ticks ctx') = length (pn_debounce_ticks ctx) \<and> length (pn_hold_ticks ctx') = length (pn_hold_ticks ctx)
     \<and> (\<forall>j. j \<noteq> i \<longrightarrow> bit (pn_stable_mask ctx') j = bit (pn_stable_mask ctx) j
          \<and> bit (pn_long_reported_mask ctx') j = bit (pn_long_reported_mask ctx) j
          \<and> pn_debounce_ticks ctx' ! j = pn_debounce_ticks ctx ! j \<and> pn_hold_ticks ctx' ! j = pn_hold_ticks ctx ! j)"

lemma others_kept_wired: "others_kept i ctx ctx' \<Longrightarrow> panel_wired d ctx' = panel_wired d ctx"
  by (auto simp: others_kept_def panel_wired_def)

lemma others_kept_shows: "others_kept i ctx ctx' \<Longrightarrow> j \<noteq> i \<Longrightarrow> shows_button ctx' j b = shows_button ctx j b"
  by (auto simp: others_kept_def shows_button_def split: button.splits)

lemma panel_wired_lengths:
  "panel_wired d ctx \<Longrightarrow> length (pn_debounce_ticks ctx) = 4" "panel_wired d ctx \<Longrightarrow> length (pn_hold_ticks ctx) = 4"
  by (simp_all add: panel_wired_def)

lemma press_refines:
  assumes "panel_wired d ctx" and "i < 4" and "pn_debounce_ticks ctx ! i = 0"
    and "press_button lc i ctx w = (rc, ctx', w')"
  shows "(rc, w') = deliver_actions d i [EV_BUTTON_ACTION_PRESS] w \<and> others_kept i ctx ctx' \<and> shows_button ctx' i (Down 0 False)"
proof -
  note l = panel_wired_lengths [OF assms(1)]
  show ?thesis
  using assms
  by (auto simp: press_button_def publish_button Let_def others_kept_def shows_button_def button_bit_simps l
      split: prod.splits)
qed

lemma release_refines:
  assumes "panel_wired d ctx" and "i < 4" and "pn_debounce_ticks ctx ! i = 0" and "bit (pn_long_reported_mask ctx) i \<longleftrightarrow> r"
    and "release_button lc i ctx w = (rc, ctx', w')"
  shows "(rc, w') = deliver_actions d i (actions (Down n r) False) w \<and> others_kept i ctx ctx' \<and> shows_button ctx' i Up"
proof -
  note l = panel_wired_lengths [OF assms(1)]
  show ?thesis
  using assms
  by (auto simp: release_button_def publish_button Let_def others_kept_def shows_button_def button_bit_simps l
      split: prod.splits if_splits)
qed

text \<open>The counter of the samples.\<close>

definition count_sample :: "u16 \<Rightarrow> u16" where
  "count_sample h = (if h < 0xFFFF then h + 1 else h)"

lemma count_sample: "unat h = min n 65535 \<Longrightarrow> unat (count_sample h) = min (Suc n) 65535"
  by (auto simp: count_sample_def word_less_nat_alt unat_word_ariths)

lemma keep_button_eq:
  "length (pn_hold_ticks ctx) = 4 \<Longrightarrow> i < 4 \<Longrightarrow> keep_button lc i True ctx w =
    (let c = ctx\<lparr>pn_debounce_ticks := (pn_debounce_ticks ctx)[i := 0],
                 pn_hold_ticks := (pn_hold_ticks ctx)[i := count_sample (pn_hold_ticks ctx ! i)]\<rparr>
     in if 10 \<le> count_sample (pn_hold_ticks ctx ! i) \<and> \<not> bit (pn_long_reported_mask ctx) i
        then let (rc, w) = ev_panel_actor_publish_button_event lc i EV_BUTTON_ACTION_LONG c w
             in if rc \<noteq> EV_OK then (rc, c, w)
                else (EV_OK, c\<lparr>pn_long_reported_mask := pn_long_reported_mask c OR button_bit i\<rparr>, w)
        else (EV_OK, c, w))"
  by (cases "pn_hold_ticks ctx ! i < 0xFFFF")
    (auto simp: keep_button_def count_sample_def button_bit_simps Let_def split: prod.splits)

lemma keep_refines:
  assumes w: "panel_wired d ctx" and i: "i < 4" and b: "shows_button ctx i (Down n r)"
    and run: "keep_button lc i True ctx w = (rc, ctx', w')"
  shows "(rc, w') = deliver_actions d i (actions (Down n r) True) w \<and> others_kept i ctx ctx'
    \<and> shows_button ctx' i (sampled (Down n r) True rc)"
proof -
  let ?c = "ctx\<lparr>pn_debounce_ticks := (pn_debounce_ticks ctx)[i := 0],
    pn_hold_ticks := (pn_hold_ticks ctx)[i := count_sample (pn_hold_ticks ctx ! i)]\<rparr>"
  note k = panel_wired_lengths [OF w]
  have h: "unat (count_sample (pn_hold_ticks ctx ! i)) = min (Suc n) 65535"
    using b by (simp add: shows_button_def count_sample)
  have l: "10 \<le> count_sample (pn_hold_ticks ctx ! i) \<longleftrightarrow> 10 \<le> Suc n"
    unfolding word_le_nat_alt h by simp
  have c: "panel_wired d ?c" "others_kept i ctx ?c" using w by (simp_all add: others_kept_def)
  have lr: "bit (pn_long_reported_mask ctx) i = r" using b by (simp add: shows_button_def)
  show ?thesis
  proof (cases "10 \<le> Suc n \<and> \<not> r")
    case True
    then show ?thesis
      using run b i k h l lr c publish_button [OF c(1) i]
      by (auto simp: keep_button_eq Let_def others_kept_def shows_button_def button_bit_simps split: prod.splits if_splits)
  next
    case False
    then have "ctx' = ?c" "rc = EV_OK" "w' = w"
      using run i k l lr by (auto simp: keep_button_eq Let_def split: if_splits)
    then show ?thesis using False b i k h c by (auto simp: shows_button_def)
  qed
qed

lemma rest_refines:
  assumes "panel_wired d ctx" and "shows_button ctx i Up" and "keep_button lc i False ctx w = (rc, ctx', w')" and "i < 4"
  shows "rc = EV_OK \<and> w' = w \<and> others_kept i ctx ctx' \<and> shows_button ctx' i Up"
  using assms panel_wired_lengths [OF assms(1)] by (auto simp: keep_button_def shows_button_def others_kept_def Let_def)

text \<open>A scan with the debouncing of one tick, which the comparison with the stable state passes at once.\<close>

lemma scan_button_eq:
  assumes "pn_debounce_ticks ctx ! i = 0" and "length (pn_debounce_ticks ctx) = 4" and "i < 4"
  shows "scan_button lc i ctx w =
    (let p = bit (pn_raw_mask ctx) i; s = bit (pn_stable_mask ctx) i
     in if p = s then keep_button lc i s ctx w
        else if p then press_button lc i ctx w else release_button lc i ctx w)"
proof -
  have "(pn_debounce_ticks ctx)[i := 0] = pn_debounce_ticks ctx" using assms by (metis list_update_id)
  then show ?thesis using assms by (auto simp: scan_button_def button_bit_simps Let_def)
qed

lemma scan_button_refines:
  assumes w: "panel_wired d ctx" and i: "i < 4" and b: "shows_button ctx i b"
    and run: "scan_button lc i ctx w = (rc, ctx', w')"
  shows "(rc, w') = deliver_actions d i (actions b (bit (pn_raw_mask ctx) i)) w \<and> others_kept i ctx ctx'
    \<and> shows_button ctx' i (sampled b (bit (pn_raw_mask ctx) i) rc)"
proof -
  have z: "pn_debounce_ticks ctx ! i = 0" using b by (simp add: shows_button_def)
  note R = run [unfolded scan_button_eq [OF z panel_wired_lengths(1) [OF w] i] Let_def]
  show ?thesis
  proof (cases b)
    case Up
    then have "\<not> bit (pn_stable_mask ctx) i" using b by (simp add: shows_button_def)
    then show ?thesis
      using R Up rest_refines [OF w b [unfolded Up]] press_refines [OF w i z] i
      by (cases "bit (pn_raw_mask ctx) i") (auto dest!: sym [of "(_, _)"])
  next
    case (Down n r)
    then have st: "bit (pn_stable_mask ctx) i" "bit (pn_long_reported_mask ctx) i \<longleftrightarrow> r"
      using b by (simp_all add: shows_button_def)
    show ?thesis
    proof (cases "bit (pn_raw_mask ctx) i")
      case True
      then show ?thesis using R Down st keep_refines [OF w i b [unfolded Down], of lc w rc ctx' w'] by auto
    next
      case False
      then show ?thesis using R Down st release_refines [OF w i z st(2), of lc w rc ctx' w' n] by auto
    qed
  qed
qed

text \<open>
  A sample of the buttons in turn: the first delivery that fails ends it, and the buttons after that one are not
  sampled.
\<close>

primrec sample_buttons ::
    "'w ev_delivery_fn \<Rightarrow> nat list \<Rightarrow> u8 \<Rightarrow> (nat \<Rightarrow> button) \<Rightarrow> 'w \<Rightarrow> ev_result \<times> (nat \<Rightarrow> button) \<times> 'w" where
  "sample_buttons d [] pressed bs w = (EV_OK, bs, w)"
| "sample_buttons d (i # is) pressed bs w =
     (let (rc, w) = deliver_actions d i (actions (bs i) (bit pressed i)) w;
          bs = bs(i := sampled (bs i) (bit pressed i) rc)
      in if rc \<noteq> EV_OK then (rc, bs, w) else sample_buttons d is pressed bs w)"

primrec sample_masks :: "'w ev_delivery_fn \<Rightarrow> (nat \<Rightarrow> button) \<Rightarrow> u8 list \<Rightarrow> 'w \<Rightarrow> (nat \<Rightarrow> button) \<times> 'w" where
  "sample_masks d bs [] w = (bs, w)"
| "sample_masks d bs (pressed # ps) w =
     (let (rc, bs, w) = sample_buttons d [0..<4] pressed bs w in sample_masks d bs ps w)"

lemma sample_masks_append:
  "sample_masks d bs (ps @ qs) w = (let (bs, w) = sample_masks d bs ps w in sample_masks d bs qs w)"
  by (induction ps arbitrary: bs w) (auto simp: Let_def split: prod.splits)

lemma scan_buttons_refines:
  "panel_wired d ctx \<Longrightarrow> set is \<subseteq> {..<4} \<Longrightarrow> (\<forall>i < 4. shows_button ctx i (bs i)) \<Longrightarrow>
    sample_buttons d is (pn_raw_mask ctx) bs w = (rc, bs', w') \<Longrightarrow>
    \<exists>ctx'. scan_buttons lc is ctx w = (rc, ctx', w')
      \<and> panel_wired d ctx' \<and> pn_raw_mask ctx' = pn_raw_mask ctx \<and> pn_raw_valid ctx' = pn_raw_valid ctx
      \<and> (\<forall>i < 4. shows_button ctx' i (bs' i))"
proof (induction "is" arbitrary: ctx w bs)
  case (Cons i js)
  let ?p = "bit (pn_raw_mask ctx) i"
  obtain r1 ctx1 w1 where run: "scan_button lc i ctx w = (r1, ctx1, w1)" by (rule prod_cases3)
  have i: "i < 4" using Cons.prems by auto
  note R = scan_button_refines [OF Cons.prems(1) i Cons.prems(3) [rule_format, OF i] run]
  then have a: "deliver_actions d i (actions (bs i) ?p) w = (r1, w1)" and o: "others_kept i ctx ctx1"
    and b: "shows_button ctx1 i (sampled (bs i) ?p r1)" by simp_all
  let ?bs = "bs(i := sampled (bs i) ?p r1)"
  have keep: "\<forall>j < 4. shows_button ctx1 j (?bs j)" using Cons.prems(3) others_kept_shows [OF o] b by auto
  have raw: "pn_raw_mask ctx1 = pn_raw_mask ctx" "pn_raw_valid ctx1 = pn_raw_valid ctx" using o by (simp_all add: others_kept_def)
  have d1: "panel_wired d ctx1" using others_kept_wired [OF o] Cons.prems(1) by simp
  show ?case
  proof (cases "r1 = EV_OK")
    case True
    then have "sample_buttons d js (pn_raw_mask ctx1) ?bs w1 = (rc, bs', w')" using Cons.prems(4) a raw by simp
    from Cons.IH [OF d1 _ keep this] Cons.prems(2) obtain ctx' where
      "scan_buttons lc js ctx1 w1 = (rc, ctx', w')" "panel_wired d ctx'" "pn_raw_mask ctx' = pn_raw_mask ctx1"
      "pn_raw_valid ctx' = pn_raw_valid ctx1" "\<forall>i < 4. shows_button ctx' i (bs' i)" by auto
    then show ?thesis using run raw True by simp
  next
    case False
    then have "r1 = rc \<and> ?bs = bs' \<and> w1 = w'" using Cons.prems(4) a by (auto simp: Let_def)
    then show ?thesis using run False d1 raw keep by auto
  qed
qed simp

text \<open>The gestures of the buttons over some samples, when every delivery succeeds.\<close>

primrec gestures :: "(nat \<Rightarrow> button) \<Rightarrow> u8 list \<Rightarrow> (nat \<times> u8) list" where
  "gestures bs [] = []"
| "gestures bs (pressed # ps) =
     concat (map (\<lambda>i. map (Pair i) (actions (bs i) (bit pressed i))) [0..<4])
     @ gestures (\<lambda>i. if i < 4 then sampled (bs i) (bit pressed i) EV_OK else bs i) ps"

definition delivered :: "'w ev_delivery_fn \<Rightarrow> (nat \<times> u8) list \<Rightarrow> 'w \<Rightarrow> 'w" where
  "delivered d acts w = foldl (\<lambda>w (i, a). snd (d ACT_APP (button_msg i a) w)) w acts"

lemma delivered_append [simp]: "delivered d (xs @ ys) w = delivered d ys (delivered d xs w)" "delivered d [] w = w"
  by (simp_all add: delivered_def)

lemma deliver_actions_ok:
  assumes "\<And>m w. fst (d ACT_APP m w) = EV_OK"
  shows "deliver_actions d i as w = (EV_OK, delivered d (map (Pair i) as) w)"
proof (induction as arbitrary: w)
  case (Cons a as)
  obtain w1 where "d ACT_APP (button_msg i a) w = (EV_OK, w1)" using assms by (metis prod.collapse)
  then show ?case using Cons by (simp add: delivered_def)
qed (simp add: delivered_def)

lemma sample_buttons_ok:
  assumes ok: "\<And>m w. fst (d ACT_APP m w) = EV_OK" and "distinct is"
  shows "sample_buttons d is pressed bs w =
    (EV_OK, \<lambda>i. if i \<in> set is then sampled (bs i) (bit pressed i) EV_OK else bs i,
     delivered d (concat (map (\<lambda>i. map (Pair i) (actions (bs i) (bit pressed i))) is)) w)"
  using assms(2)
proof (induction "is" arbitrary: bs w)
  case (Cons i js)
  let ?b = "sampled (bs i) (bit pressed i) EV_OK"
  have a: "map (\<lambda>j. map (Pair j) (actions ((bs(i := ?b)) j) (bit pressed j))) js = map (\<lambda>j. map (Pair j) (actions (bs j) (bit pressed j))) js"
    using Cons.prems by auto
  have js: "distinct js" and i: "i \<notin> set js" using Cons.prems by simp_all
  show ?case
    unfolding sample_buttons.simps Let_def deliver_actions_ok [of d, OF ok] prod.case Cons.IH [OF js] a
    using i by (auto simp: fun_eq_iff)
qed simp

lemma sample_masks_ok:
  assumes ok: "\<And>m w. fst (d ACT_APP m w) = EV_OK"
  shows "snd (sample_masks d bs ps w) = delivered d (gestures bs ps) w"
  by (induction ps arbitrary: bs w)
    (simp_all add: sample_buttons_ok [of d, OF ok] atLeastLessThan_iff del: upt_Suc upt_rec_numeral)

section \<open>Runs\<close>

fun panel_step ::
    "'w ev_lifecycle \<Rightarrow> (ev_payload_ref \<Rightarrow> u8 list) \<Rightarrow> 'w ev_panel_actor_ctx \<times> 'w \<Rightarrow> ev_msg \<Rightarrow> 'w ev_panel_actor_ctx \<times> 'w" where
  "panel_step lc mem (ctx, w) m = (let (rc, ctx, w) = ev_panel_actor_handle lc mem (Some ctx) (Some m) w in (the ctx, w))"

text \<open>The mask that a message sets, and the masks the ticks find, from the first that was set.\<close>

definition mask_set :: "(ev_payload_ref \<Rightarrow> u8 list) \<Rightarrow> u8 option \<Rightarrow> ev_msg \<Rightarrow> u8 option" where
  "mask_set mem pressed m =
     (if msg_event_id m = EV_MCP23008_INPUT_CHANGED \<and> msg_payload_size m = 2
      then (case ev_msg_payload_data (Some m) of None \<Rightarrow> pressed | Some r \<Rightarrow> Some (mem r ! 0 AND 0x0F))
      else pressed)"

primrec masks_sampled :: "(ev_payload_ref \<Rightarrow> u8 list) \<Rightarrow> u8 option \<Rightarrow> ev_msg list \<Rightarrow> u8 list" where
  "masks_sampled mem pressed [] = []"
| "masks_sampled mem pressed (m # ms) =
     (case pressed of None \<Rightarrow> [] | Some p \<Rightarrow> if msg_event_id m = EV_TICK_100MS then [p] else [])
     @ masks_sampled mem (mask_set mem pressed m) ms"

definition panel_shows :: "'w ev_delivery_fn \<Rightarrow> u8 option \<Rightarrow> (nat \<Rightarrow> button) \<Rightarrow> 'w ev_panel_actor_ctx \<Rightarrow> bool" where
  "panel_shows d pressed bs ctx \<longleftrightarrow> panel_wired d ctx \<and> (\<forall>i < 4. shows_button ctx i (bs i))
     \<and> (pn_raw_valid ctx \<longleftrightarrow> pressed \<noteq> None) \<and> (\<forall>p. pressed = Some p \<longrightarrow> pn_raw_mask ctx = p)"

lemma shows_button_mask [simp]:
  "shows_button (ctx\<lparr>pn_raw_mask := x, pn_raw_valid := v\<rparr>) i b = shows_button ctx i b"
  by (simp add: shows_button_def split: button.split)

lemma tick_shows:
  assumes p: "panel_shows d (Some pressed) bs ctx" and s: "sample_buttons d [0..<4] pressed bs w = (rc, bs', w')"
  shows "\<exists>ctx'. ev_panel_actor_handle_tick lc ctx w = (rc, ctx', w') \<and> panel_shows d (Some pressed) bs' ctx'"
proof -
  have d: "panel_wired d ctx" "\<forall>i < 4. shows_button ctx i (bs i)" "pn_raw_valid ctx" "pn_raw_mask ctx = pressed"
    using p by (simp_all add: panel_shows_def)
  have "set [0..<4 :: nat] \<subseteq> {..<4}" by auto
  from scan_buttons_refines [OF d(1) this d(2) s [folded d(4)], of lc] d(3,4) show ?thesis
    unfolding ev_panel_actor_handle_tick_def panel_shows_def by auto
qed

lemma panel_step_shows:
  assumes p: "panel_shows d pressed bs ctx"
    and s: "sample_masks d bs (masks_sampled mem pressed [m]) w = (bs', w')"
  shows "\<exists>ctx'. panel_step lc mem (ctx, w) m = (ctx', w') \<and> panel_shows d (mask_set mem pressed m) bs' ctx'"
proof -
  consider (input) "msg_event_id m = EV_MCP23008_INPUT_CHANGED"
    | (tick) q where "msg_event_id m = EV_TICK_100MS" "pressed = Some q" | (early) "msg_event_id m = EV_TICK_100MS" "pressed = None"
    | (rest) "msg_event_id m \<noteq> EV_MCP23008_INPUT_CHANGED" "msg_event_id m \<noteq> EV_TICK_100MS" by blast
  then show ?thesis
  proof cases
    case input
    then have "masks_sampled mem pressed [m] = []" by (simp split: option.split)
    then have e: "bs' = bs" "w' = w" using s by simp_all
    show ?thesis
      using input p
      by (auto simp: e ev_panel_actor_handle_def ev_panel_actor_handle_inputs_changed_def mask_set_def ev_msg_payload_size_def
          panel_shows_def split: option.splits)
  next
    case tick
    have n: "masks_sampled mem pressed [m] = [q]" "mask_set mem pressed m = Some q" using tick by (simp_all add: mask_set_def)
    obtain rc where "sample_buttons d [0..<4] q bs w = (rc, bs', w')"
      using s unfolding n by (auto simp: Let_def split: prod.splits)
    from tick_shows [OF p [unfolded tick(2)] this, of lc] show ?thesis
      unfolding n using tick(1) by (auto simp: ev_panel_actor_handle_def)
  next
    case early
    then have "\<not> pn_raw_valid ctx" using p by (simp add: panel_shows_def)
    then show ?thesis
      using early p s by (auto simp: ev_panel_actor_handle_def ev_panel_actor_handle_tick_def mask_set_def)
  next
    case rest
    then have "masks_sampled mem pressed [m] = []" "mask_set mem pressed m = pressed" by (simp_all add: mask_set_def split: option.split)
    then show ?thesis using rest p s by (auto simp: ev_panel_actor_handle_def)
  qed
qed

lemma panel_run_shows:
  "panel_shows d pressed bs ctx \<Longrightarrow>
    snd (foldl (panel_step lc mem) (ctx, w) ms) = snd (sample_masks d bs (masks_sampled mem pressed ms) w)"
proof (induction ms arbitrary: ctx w bs pressed)
  case (Cons m ms)
  obtain bs' w' where b: "sample_masks d bs (masks_sampled mem pressed [m]) w = (bs', w')" by fastforce
  obtain ctx' where s: "panel_step lc mem (ctx, w) m = (ctx', w')" "panel_shows d (mask_set mem pressed m) bs' ctx'"
    using panel_step_shows [OF Cons.prems b, of lc] by blast
  have "masks_sampled mem pressed (m # ms) = masks_sampled mem pressed [m] @ masks_sampled mem (mask_set mem pressed m) ms" by simp
  then show ?case using Cons.IH [OF s(2)] s(1) b by (simp only: sample_masks_append foldl_Cons) simp
qed simp

text \<open>
  C20: the panel actor refines its four buttons sampled one by one, whatever the deliveries to the application answer.
  Each 100 ms tick samples the mask reported last: a button that goes down is pressed, one that goes up is released,
  and short unless it was reported to be long, and one that has been down for ten samples after the one that pressed it
  is reported to be long until one such report is accepted. A delivery that fails ends the tick: the rest of that
  button's actions is dropped (a short press after a failed release, a failed press for good), and the buttons after it
  wait for the next tick. So the application gets exactly the gestures of the buttons, in order and each long press
  once, when every delivery succeeds. The saturating counters of the code do not show.
\<close>
theorem panel_reports_gestures:
  assumes start: "ev_panel_actor_init (Some c) (Some d) dc = (EV_OK, Some ctx)"
  shows "snd (foldl (panel_step lc mem) (ctx, w) ms) = snd (sample_masks d (\<lambda>i. Up) (masks_sampled mem None ms) w)
    \<and> ((\<forall>m w. fst (d ACT_APP m w) = EV_OK) \<longrightarrow>
       snd (foldl (panel_step lc mem) (ctx, w) ms) = delivered d (gestures (\<lambda>i. Up) (masks_sampled mem None ms)) w)"
proof -
  have "panel_shows d None (\<lambda>i. Up) ctx"
    using start by (auto simp: ev_panel_actor_init_def panel_shows_def panel_wired_def shows_button_def split: if_splits)
  from panel_run_shows [OF this] show ?thesis by (simp add: sample_masks_ok)
qed

text \<open>One button: what a press that lasts \<open>n + 1\<close> samples makes of it, when the reports are accepted.\<close>

lemma button_held:
  "foldl (\<lambda>(b, as) p. (sampled b p EV_OK, as @ actions b p)) (Up, []) (replicate (Suc n) True @ [False]) =
     (Up, EV_BUTTON_ACTION_PRESS # (if n < 10 then [EV_BUTTON_ACTION_RELEASE, EV_BUTTON_ACTION_SHORT]
       else [EV_BUTTON_ACTION_LONG, EV_BUTTON_ACTION_RELEASE]))"
proof -
  have "foldl (\<lambda>(b, as) p. (sampled b p EV_OK, as @ actions b p)) (Down 0 False, as) (replicate n True) =
     (Down n (10 \<le> n), as @ (if n < 10 then [] else [EV_BUTTON_ACTION_LONG]))" for as
  proof (induction n)
    case (Suc n)
    have "replicate (Suc n) True = replicate n True @ [True]" by (simp add: replicate_append_same)
    then show ?case using Suc by auto
  qed simp
  from this [of "[EV_BUTTON_ACTION_PRESS]"] show ?thesis by simp
qed

definition demo_panel_delivery :: "(ev_actor_id \<times> u8 list) list ev_delivery_fn" where
  "demo_panel_delivery = (\<lambda>t m w. (EV_OK, w @ [(t, take 2 (msg_inline_bytes m))]))"

definition demo_panel :: "(ev_actor_id \<times> u8 list) list ev_panel_actor_ctx" where
  "demo_panel = \<lparr>pn_deliver = Some demo_panel_delivery, pn_deliver_context = Some 1, pn_raw_mask = 0, pn_stable_mask = 0,
     pn_long_reported_mask = 0, pn_debounce_ticks = replicate 4 0, pn_hold_ticks = replicate 4 0, pn_raw_valid = False\<rparr>"

definition demo_panel_lifecycle :: "(ev_actor_id \<times> u8 list) list ev_lifecycle" where
  "demo_panel_lifecycle = \<lparr>lc_retain = \<lambda>f c d n s. (EV_OK, s), lc_release = \<lambda>f c d n s. s\<rparr>"

text \<open>Buttons 0 and 2 go down, button 0 comes up after a tick, button 2 after eleven more.\<close>

definition demo_panel_messages :: "ev_msg list" where
  "demo_panel_messages =
     [inline_msg EV_MCP23008_INPUT_CHANGED ACT_MCP23008 [0x05, 0x05], demo_publish_msg EV_TICK_100MS,
      inline_msg EV_MCP23008_INPUT_CHANGED ACT_MCP23008 [0x04, 0x01]] @ replicate 11 (demo_publish_msg EV_TICK_100MS)
     @ [inline_msg EV_MCP23008_INPUT_CHANGED ACT_MCP23008 [0x00, 0x04], demo_publish_msg EV_TICK_100MS]"

theorem panel_reports_gestures_witness:
  "snd (foldl (panel_step demo_panel_lifecycle message_memory) (demo_panel, []) demo_panel_messages) =
    map (Pair ACT_APP) [[0, EV_BUTTON_ACTION_PRESS], [2, EV_BUTTON_ACTION_PRESS], [0, EV_BUTTON_ACTION_RELEASE],
      [0, EV_BUTTON_ACTION_SHORT], [2, EV_BUTTON_ACTION_LONG], [2, EV_BUTTON_ACTION_RELEASE]]"
proof -
  have ok: "\<forall>m w. fst (demo_panel_delivery ACT_APP m w) = EV_OK" by (simp add: demo_panel_delivery_def)
  have start: "ev_panel_actor_init (Some demo_panel) (Some demo_panel_delivery) (Some 1) = (EV_OK, Some demo_panel)"
    by (simp add: ev_panel_actor_init_def demo_panel_def)
  have g: "delivered demo_panel_delivery (gestures (\<lambda>i. Up) (masks_sampled message_memory None demo_panel_messages)) []
    = map (Pair ACT_APP) [[0, EV_BUTTON_ACTION_PRESS], [2, EV_BUTTON_ACTION_PRESS], [0, EV_BUTTON_ACTION_RELEASE],
      [0, EV_BUTTON_ACTION_SHORT], [2, EV_BUTTON_ACTION_LONG], [2, EV_BUTTON_ACTION_RELEASE]]"
    by code_simp
  show ?thesis
    by (subst panel_reports_gestures [OF start, THEN conjunct2, rule_format, OF ok [rule_format]]) (rule g)
qed

text \<open>
  A full mailbox of the application: the press of button 0 is lost for good, button 2 is pressed a tick later, and the
  short press of button 0 is lost with its release.
\<close>

definition full_at :: "nat list \<Rightarrow> (nat \<times> u8 list list) ev_delivery_fn" where
  "full_at ks = (\<lambda>t m (k, out). if k \<in> set ks then (EV_ERR_FULL, (Suc k, out)) else (EV_OK, (Suc k, out @ [take 2 (msg_inline_bytes m)])))"

lemma full_mailbox_gestures:
  "snd (sample_masks (full_at [0, 2]) (\<lambda>i. Up) [0x05, 0x05, 0x04, 0x04] (0, [])) = (3, [[2, EV_BUTTON_ACTION_PRESS]])"
  by code_simp

end
