(* ===== verification/EvNetworkActor.thy ===== *)
theory EvNetworkActor
  imports EvDeviceIo
begin

text \<open>
  The network actor (\<open>actors/framework/ev_network_actor.c\<close>) follows the state of the connection, hands the commands
  of other actors to the network port and publishes telemetry: temperature, time, buttons and light as small JSON
  bodies, at most one of each kind per second. The network port (\<open>ports/include/ev/port_net.h\<close>) is a parameter
  that acts on the world \<open>'w\<close>; telemetry is modelled as it is compiled by default, enabled.
\<close>

section \<open>State\<close>

record ev_net_mqtt_publish_view =
  nv_topic :: "u8 list"
  nv_payload :: "u8 list"
  nv_qos :: u8
  nv_retain :: u8

text \<open>The two functions of the port that the actor calls; a publish command is the bytes of its struct.\<close>

record 'w ev_net_port =
  np_publish_mqtt :: "(u8 list \<Rightarrow> 'w \<Rightarrow> ev_result \<times> 'w) option"
  np_publish_mqtt_view :: "(ev_net_mqtt_publish_view \<Rightarrow> 'w \<Rightarrow> ev_result \<times> 'w) option"

datatype ev_network_state = EV_NETWORK_STATE_DISCONNECTED | EV_NETWORK_STATE_WIFI_UP | EV_NETWORK_STATE_MQTT_CONNECTED
  | EV_NETWORK_STATE_DEGRADED

record ev_network_actor_stats =
  ns_wifi_up_events :: u32
  ns_wifi_down_events :: u32
  ns_mqtt_up_events :: u32
  ns_mqtt_down_events :: u32
  ns_mqtt_rx_events :: u32
  ns_mqtt_rx_ignored_foundation :: u32
  ns_mqtt_rx_bytes :: u32
  ns_mqtt_rx_inline_events :: u32
  ns_mqtt_rx_slot_events :: u32
  ns_tx_commands_seen :: u32
  ns_tx_attempts :: u32
  ns_tx_ok :: u32
  ns_tx_failed :: u32
  ns_tx_rejected_not_connected :: u32
  ns_bad_payloads :: u32
  ns_bad_events :: u32
  ns_telemetry_ticks :: u32
  ns_telemetry_seen :: u32
  ns_telemetry_sent :: u32
  ns_telemetry_dropped_disabled :: u32
  ns_telemetry_dropped_disconnected :: u32
  ns_telemetry_dropped_rate_limit :: u32
  ns_telemetry_dropped_oversize :: u32
  ns_telemetry_dropped_unsupported :: u32
  ns_telemetry_temp_seen :: u32
  ns_telemetry_time_seen :: u32
  ns_telemetry_inputs_seen :: u32
  ns_telemetry_light_seen :: u32

record 'w ev_network_actor_ctx =
  nw_net_port :: "'w ev_net_port option"
  nw_state :: ev_network_state
  nw_stats :: ev_network_actor_stats
  nw_telemetry_tick_counter :: u32
  nw_last_temp_telemetry_tick :: u32
  nw_last_time_telemetry_tick :: u32
  nw_last_inputs_telemetry_tick :: u32
  nw_last_light_telemetry_tick :: u32

abbreviation EV_NETWORK_TELEMETRY_TOPIC_MAX_BYTES :: nat where "EV_NETWORK_TELEMETRY_TOPIC_MAX_BYTES \<equiv> 32"
abbreviation EV_NETWORK_TELEMETRY_PAYLOAD_MAX_BYTES :: nat where "EV_NETWORK_TELEMETRY_PAYLOAD_MAX_BYTES \<equiv> 64"
abbreviation EV_NETWORK_TELEMETRY_MIN_INTERVAL_TICKS :: u32 where "EV_NETWORK_TELEMETRY_MIN_INTERVAL_TICKS \<equiv> 1"
abbreviation EV_NETWORK_TELEMETRY_TICK_NEVER :: u32 where "EV_NETWORK_TELEMETRY_TICK_NEVER \<equiv> 0xFFFFFFFF"

text \<open>Changing the statistics.\<close>

definition nstat :: "(ev_network_actor_stats \<Rightarrow> ev_network_actor_stats) \<Rightarrow> 'w ev_network_actor_ctx \<Rightarrow> 'w ev_network_actor_ctx" where
  "nstat f ctx = ctx\<lparr>nw_stats := f (nw_stats ctx)\<rparr>"

section \<open>Formatting\<close>

text \<open>What \<open>snprintf\<close> makes of the conversions \<open>%lu\<close> and \<open>%d\<close>.\<close>

fun decimal :: "nat \<Rightarrow> u8 list" where
  "decimal n = (if n < 10 then [of_nat (48 + n)] else decimal (n div 10) @ [of_nat (48 + n mod 10)])"

declare decimal.simps [simp del]

definition signed_decimal :: "int \<Rightarrow> u8 list" where
  "signed_decimal i = (if i < 0 then 45 # decimal (nat (- i)) else decimal (nat i))"

text \<open>A format whose only conversions are \<open>%lu\<close>.\<close>

fun format_lu :: "string \<Rightarrow> u32 list \<Rightarrow> u8 list" where
  "format_lu (c # cs) vs =
     (if take 3 (c # cs) = ''%lu''
      then (case vs of [] \<Rightarrow> [] | v # vs \<Rightarrow> decimal (unat v) @ format_lu (drop 2 cs) vs)
      else of_char c # format_lu cs vs)"
| "format_lu [] vs = []"

text \<open>The characters written before the terminator, and whether all of them fit.\<close>

definition ev_network_format_checked :: "nat \<Rightarrow> string \<Rightarrow> u32 \<Rightarrow> u32 \<Rightarrow> bool \<times> u8 list" where
  "ev_network_format_checked dst_len fmt a b =
     (if dst_len = 0 then (False, [])
      else let out = format_lu fmt [a, b] in (length out < dst_len, take (dst_len - 1) out))"

definition ev_network_copy_topic :: "nat \<Rightarrow> u8 list \<Rightarrow> nat \<Rightarrow> bool \<times> u8 list" where
  "ev_network_copy_topic dst_len topic topic_len =
     (if dst_len = 0 \<or> topic_len = 0 \<or> dst_len \<le> topic_len then (False, []) else (True, take topic_len topic))"

section \<open>Telemetry\<close>

definition ev_network_message_has_exact_payload :: "ev_msg \<Rightarrow> nat \<Rightarrow> bool" where
  "ev_network_message_has_exact_payload msg payload_size \<longleftrightarrow>
     ev_msg_payload_size (Some msg) = payload_size \<and> (payload_size = 0 \<or> ev_msg_payload_data (Some msg) \<noteq> None)"

definition ev_network_telemetry_rate_limited :: "'w ev_network_actor_ctx \<Rightarrow> u32 \<Rightarrow> bool" where
  "ev_network_telemetry_rate_limited ctx last_tick \<longleftrightarrow>
     (if last_tick = EV_NETWORK_TELEMETRY_TICK_NEVER then False
      else nw_telemetry_tick_counter ctx - last_tick < EV_NETWORK_TELEMETRY_MIN_INTERVAL_TICKS)"

text \<open>The tick of the last success is given and returned.\<close>

definition ev_network_publish_telemetry ::
    "u8 list \<Rightarrow> u8 list \<Rightarrow> u32 \<Rightarrow> 'w ev_network_actor_ctx \<Rightarrow> 'w \<Rightarrow> ev_result \<times> u32 \<times> 'w ev_network_actor_ctx \<times> 'w" where
  "ev_network_publish_telemetry topic payload last_sent_tick ctx w =
     (let ctx = nstat (\<lambda>s. s\<lparr>ns_telemetry_seen := ns_telemetry_seen s + 1\<rparr>) ctx
      in if nw_state ctx \<noteq> EV_NETWORK_STATE_MQTT_CONNECTED \<or> nw_net_port ctx = None
         then (EV_OK, last_sent_tick,
               nstat (\<lambda>s. s\<lparr>ns_telemetry_dropped_disconnected := ns_telemetry_dropped_disconnected s + 1\<rparr>) ctx, w)
         else if ev_network_telemetry_rate_limited ctx last_sent_tick
         then (EV_OK, last_sent_tick,
               nstat (\<lambda>s. s\<lparr>ns_telemetry_dropped_rate_limit := ns_telemetry_dropped_rate_limit s + 1\<rparr>) ctx, w)
         else if payload = [] \<or> topic = [] \<or> EV_NETWORK_TELEMETRY_TOPIC_MAX_BYTES \<le> length topic
             \<or> EV_NETWORK_TELEMETRY_PAYLOAD_MAX_BYTES \<le> length payload
         then (EV_OK, last_sent_tick,
               nstat (\<lambda>s. s\<lparr>ns_telemetry_dropped_oversize := ns_telemetry_dropped_oversize s + 1\<rparr>) ctx, w)
         else case np_publish_mqtt_view (the (nw_net_port ctx)) of
             None \<Rightarrow> (EV_OK, last_sent_tick,
               nstat (\<lambda>s. s\<lparr>ns_telemetry_dropped_unsupported := ns_telemetry_dropped_unsupported s + 1\<rparr>) ctx, w)
           | Some publish_mqtt_view \<Rightarrow>
               let (rc, w) = publish_mqtt_view \<lparr>nv_topic = topic, nv_payload = payload, nv_qos = 0, nv_retain = 0\<rparr> w
               in if rc = EV_OK
                  then (EV_OK, nw_telemetry_tick_counter ctx,
                        nstat (\<lambda>s. s\<lparr>ns_telemetry_sent := ns_telemetry_sent s + 1\<rparr>) ctx, w)
                  else if rc = EV_ERR_UNSUPPORTED
                  then (EV_OK, last_sent_tick,
                        nstat (\<lambda>s. s\<lparr>ns_telemetry_dropped_unsupported := ns_telemetry_dropped_unsupported s + 1\<rparr>) ctx, w)
                  else if rc = EV_ERR_STATE
                  then (EV_OK, last_sent_tick,
                        nstat (\<lambda>s. s\<lparr>ns_telemetry_dropped_disconnected := ns_telemetry_dropped_disconnected s + 1\<rparr>) ctx, w)
                  else (EV_OK, last_sent_tick,
                        nstat (\<lambda>s. s\<lparr>ns_tx_failed := ns_tx_failed s + 1,
                                   ns_telemetry_dropped_unsupported := ns_telemetry_dropped_unsupported s + 1\<rparr>) ctx, w))"

text \<open>A body or a topic that does not fit.\<close>

definition drop_oversize :: "'w ev_network_actor_ctx \<Rightarrow> 'w ev_network_actor_ctx" where
  "drop_oversize = nstat (\<lambda>s. s\<lparr>ns_telemetry_seen := ns_telemetry_seen s + 1,
     ns_telemetry_dropped_oversize := ns_telemetry_dropped_oversize s + 1\<rparr>)"

definition bad_payload :: "'w ev_network_actor_ctx \<Rightarrow> 'w ev_network_actor_ctx" where
  "bad_payload = nstat (\<lambda>s. s\<lparr>ns_bad_payloads := ns_bad_payloads s + 1\<rparr>)"

text \<open>\<open>mem\<close> is the memory from a payload pointer on.\<close>

type_synonym payload_bytes = "ev_payload_ref \<Rightarrow> u8 list"

definition temp_body :: "i16 \<Rightarrow> u8 list" where
  "temp_body centi_celsius = bytes_of ''{\"cC\":'' @ signed_decimal (sint centi_celsius) @ bytes_of ''}''"

definition ev_network_actor_handle_temp_updated ::
    "payload_bytes \<Rightarrow> ev_msg \<Rightarrow> 'w ev_network_actor_ctx \<Rightarrow> 'w \<Rightarrow> ev_result \<times> 'w ev_network_actor_ctx \<times> 'w" where
  "ev_network_actor_handle_temp_updated mem msg ctx w =
     (if \<not> ev_network_message_has_exact_payload msg 2 then (EV_ERR_CONTRACT, bad_payload ctx, w)
      else
        let centi_celsius = le16_at (mem (the (ev_msg_payload_data (Some msg)))) 0;
            ctx = nstat (\<lambda>s. s\<lparr>ns_telemetry_temp_seen := ns_telemetry_temp_seen s + 1\<rparr>) ctx;
            (fits, topic) = ev_network_copy_topic EV_NETWORK_TELEMETRY_TOPIC_MAX_BYTES (bytes_of ''telemetry/temp'') 14;
            body = temp_body centi_celsius
        in if \<not> fits then (EV_OK, drop_oversize ctx, w)
           else if EV_NETWORK_TELEMETRY_PAYLOAD_MAX_BYTES \<le> length body then (EV_OK, drop_oversize ctx, w)
           else let (rc, last, ctx, w) = ev_network_publish_telemetry topic body (nw_last_temp_telemetry_tick ctx) ctx w
                in (rc, ctx\<lparr>nw_last_temp_telemetry_tick := last\<rparr>, w))"

definition ev_network_actor_handle_time_updated ::
    "payload_bytes \<Rightarrow> ev_msg \<Rightarrow> 'w ev_network_actor_ctx \<Rightarrow> 'w \<Rightarrow> ev_result \<times> 'w ev_network_actor_ctx \<times> 'w" where
  "ev_network_actor_handle_time_updated mem msg ctx w =
     (if \<not> ev_network_message_has_exact_payload msg 12 then (EV_ERR_CONTRACT, bad_payload ctx, w)
      else
        let payload = mem (the (ev_msg_payload_data (Some msg)));
            ctx = nstat (\<lambda>s. s\<lparr>ns_telemetry_time_seen := ns_telemetry_time_seen s + 1\<rparr>) ctx;
            (fits, topic) = ev_network_copy_topic EV_NETWORK_TELEMETRY_TOPIC_MAX_BYTES (bytes_of ''telemetry/time'') 14;
            (whole, body) = ev_network_format_checked EV_NETWORK_TELEMETRY_PAYLOAD_MAX_BYTES ''{\"unix\":%lu}''
              (le32_at payload 0) 0
        in if \<not> fits \<or> \<not> whole then (EV_OK, drop_oversize ctx, w)
           else let (rc, last, ctx, w) = ev_network_publish_telemetry topic body (nw_last_time_telemetry_tick ctx) ctx w
                in (rc, ctx\<lparr>nw_last_time_telemetry_tick := last\<rparr>, w))"

definition ev_network_actor_handle_inputs_changed ::
    "payload_bytes \<Rightarrow> ev_msg \<Rightarrow> 'w ev_network_actor_ctx \<Rightarrow> 'w \<Rightarrow> ev_result \<times> 'w ev_network_actor_ctx \<times> 'w" where
  "ev_network_actor_handle_inputs_changed mem msg ctx w =
     (if \<not> ev_network_message_has_exact_payload msg 2 then (EV_ERR_CONTRACT, bad_payload ctx, w)
      else
        let payload = mem (the (ev_msg_payload_data (Some msg)));
            ctx = nstat (\<lambda>s. s\<lparr>ns_telemetry_inputs_seen := ns_telemetry_inputs_seen s + 1\<rparr>) ctx;
            (fits, topic) = ev_network_copy_topic EV_NETWORK_TELEMETRY_TOPIC_MAX_BYTES (bytes_of ''telemetry/inputs'') 16;
            (whole, body) = ev_network_format_checked EV_NETWORK_TELEMETRY_PAYLOAD_MAX_BYTES
              ''{\"pressed\":%lu,\"changed\":%lu}'' (ucast (payload ! 0)) (ucast (payload ! 1))
        in if \<not> fits \<or> \<not> whole then (EV_OK, drop_oversize ctx, w)
           else let (rc, last, ctx, w) = ev_network_publish_telemetry topic body (nw_last_inputs_telemetry_tick ctx) ctx w
                in (rc, ctx\<lparr>nw_last_inputs_telemetry_tick := last\<rparr>, w))"

definition ev_network_actor_handle_light_updated ::
    "payload_bytes \<Rightarrow> ev_msg \<Rightarrow> 'w ev_network_actor_ctx \<Rightarrow> 'w \<Rightarrow> ev_result \<times> 'w ev_network_actor_ctx \<times> 'w" where
  "ev_network_actor_handle_light_updated mem msg ctx w =
     (if \<not> ev_network_message_has_exact_payload msg 8 then (EV_ERR_CONTRACT, bad_payload ctx, w)
      else
        let payload = mem (the (ev_msg_payload_data (Some msg)));
            ctx = nstat (\<lambda>s. s\<lparr>ns_telemetry_light_seen := ns_telemetry_light_seen s + 1\<rparr>) ctx;
            (fits, topic) = ev_network_copy_topic EV_NETWORK_TELEMETRY_TOPIC_MAX_BYTES (bytes_of ''telemetry/light'') 15;
            (whole, body) = ev_network_format_checked EV_NETWORK_TELEMETRY_PAYLOAD_MAX_BYTES ''{\"mLux\":%lu,\"raw\":%lu}''
              (le32_at payload 0) (ucast (le16_at payload 4))
        in if \<not> fits \<or> \<not> whole then (EV_OK, drop_oversize ctx, w)
           else let (rc, last, ctx, w) = ev_network_publish_telemetry topic body (nw_last_light_telemetry_tick ctx) ctx w
                in (rc, ctx\<lparr>nw_last_light_telemetry_tick := last\<rparr>, w))"

section \<open>Connection and commands\<close>

definition zero_network_stats :: ev_network_actor_stats where
  "zero_network_stats = \<lparr>ns_wifi_up_events = 0, ns_wifi_down_events = 0, ns_mqtt_up_events = 0, ns_mqtt_down_events = 0,
     ns_mqtt_rx_events = 0, ns_mqtt_rx_ignored_foundation = 0, ns_mqtt_rx_bytes = 0, ns_mqtt_rx_inline_events = 0,
     ns_mqtt_rx_slot_events = 0, ns_tx_commands_seen = 0, ns_tx_attempts = 0, ns_tx_ok = 0, ns_tx_failed = 0,
     ns_tx_rejected_not_connected = 0, ns_bad_payloads = 0, ns_bad_events = 0, ns_telemetry_ticks = 0,
     ns_telemetry_seen = 0, ns_telemetry_sent = 0, ns_telemetry_dropped_disabled = 0,
     ns_telemetry_dropped_disconnected = 0, ns_telemetry_dropped_rate_limit = 0, ns_telemetry_dropped_oversize = 0,
     ns_telemetry_dropped_unsupported = 0, ns_telemetry_temp_seen = 0, ns_telemetry_time_seen = 0,
     ns_telemetry_inputs_seen = 0, ns_telemetry_light_seen = 0\<rparr>"

definition ev_network_actor_init ::
    "'w ev_network_actor_ctx option \<Rightarrow> 'w ev_net_port option \<Rightarrow> ev_result \<times> 'w ev_network_actor_ctx option" where
  "ev_network_actor_init ctx net_port =
     (if ctx = None then (EV_ERR_INVALID_ARG, None)
      else (EV_OK, Some \<lparr>nw_net_port = net_port, nw_state = EV_NETWORK_STATE_DISCONNECTED,
        nw_stats = zero_network_stats,
        nw_telemetry_tick_counter = 0, nw_last_temp_telemetry_tick = EV_NETWORK_TELEMETRY_TICK_NEVER,
        nw_last_time_telemetry_tick = EV_NETWORK_TELEMETRY_TICK_NEVER,
        nw_last_inputs_telemetry_tick = EV_NETWORK_TELEMETRY_TICK_NEVER,
        nw_last_light_telemetry_tick = EV_NETWORK_TELEMETRY_TICK_NEVER\<rparr>))"

definition ev_network_actor_handle_wifi_up :: "'w ev_network_actor_ctx \<Rightarrow> ev_result \<times> 'w ev_network_actor_ctx" where
  "ev_network_actor_handle_wifi_up ctx =
     (let ctx = nstat (\<lambda>s. s\<lparr>ns_wifi_up_events := ns_wifi_up_events s + 1\<rparr>) ctx
      in (EV_OK, if nw_state ctx = EV_NETWORK_STATE_DISCONNECTED then ctx\<lparr>nw_state := EV_NETWORK_STATE_WIFI_UP\<rparr> else ctx))"

definition ev_network_actor_handle_wifi_down :: "'w ev_network_actor_ctx \<Rightarrow> ev_result \<times> 'w ev_network_actor_ctx" where
  "ev_network_actor_handle_wifi_down ctx =
     (EV_OK, (nstat (\<lambda>s. s\<lparr>ns_wifi_down_events := ns_wifi_down_events s + 1\<rparr>) ctx)\<lparr>nw_state := EV_NETWORK_STATE_DISCONNECTED\<rparr>)"

definition ev_network_actor_handle_mqtt_up :: "'w ev_network_actor_ctx \<Rightarrow> ev_result \<times> 'w ev_network_actor_ctx" where
  "ev_network_actor_handle_mqtt_up ctx =
     (EV_OK, (nstat (\<lambda>s. s\<lparr>ns_mqtt_up_events := ns_mqtt_up_events s + 1\<rparr>) ctx)\<lparr>nw_state := EV_NETWORK_STATE_MQTT_CONNECTED\<rparr>)"

definition ev_network_actor_handle_mqtt_down :: "'w ev_network_actor_ctx \<Rightarrow> ev_result \<times> 'w ev_network_actor_ctx" where
  "ev_network_actor_handle_mqtt_down ctx =
     (EV_OK, (nstat (\<lambda>s. s\<lparr>ns_mqtt_down_events := ns_mqtt_down_events s + 1\<rparr>) ctx)\<lparr>nw_state := EV_NETWORK_STATE_WIFI_UP\<rparr>)"

definition ev_network_actor_handle_mqtt_rx_inline ::
    "payload_bytes \<Rightarrow> ev_msg \<Rightarrow> 'w ev_network_actor_ctx \<Rightarrow> ev_result \<times> 'w ev_network_actor_ctx" where
  "ev_network_actor_handle_mqtt_rx_inline mem msg ctx =
     (if \<not> ev_network_message_has_exact_payload msg 20 then (EV_ERR_CONTRACT, bad_payload ctx)
      else
        let rx = mem (the (ev_msg_payload_data (Some msg)))
        in (EV_OK, nstat (\<lambda>s. s\<lparr>ns_mqtt_rx_events := ns_mqtt_rx_events s + 1,
              ns_mqtt_rx_inline_events := ns_mqtt_rx_inline_events s + 1,
              ns_mqtt_rx_ignored_foundation := ns_mqtt_rx_ignored_foundation s + 1,
              ns_mqtt_rx_bytes := ns_mqtt_rx_bytes s + ucast (rx ! 1)\<rparr>) ctx))"

definition ev_network_actor_handle_mqtt_rx_lease ::
    "payload_bytes \<Rightarrow> ev_msg \<Rightarrow> 'w ev_network_actor_ctx \<Rightarrow> ev_result \<times> 'w ev_network_actor_ctx" where
  "ev_network_actor_handle_mqtt_rx_lease mem msg ctx =
     (if \<not> ev_network_message_has_exact_payload msg 196 then (EV_ERR_CONTRACT, bad_payload ctx)
      else
        let rx = mem (the (ev_msg_payload_data (Some msg)))
        in (EV_OK, nstat (\<lambda>s. s\<lparr>ns_mqtt_rx_events := ns_mqtt_rx_events s + 1,
              ns_mqtt_rx_slot_events := ns_mqtt_rx_slot_events s + 1,
              ns_mqtt_rx_ignored_foundation := ns_mqtt_rx_ignored_foundation s + 1,
              ns_mqtt_rx_bytes := ns_mqtt_rx_bytes s + ucast (rx ! 1)\<rparr>) ctx))"

definition ev_network_actor_handle_tx ::
    "payload_bytes \<Rightarrow> ev_msg \<Rightarrow> 'w ev_network_actor_ctx \<Rightarrow> 'w \<Rightarrow> ev_result \<times> 'w ev_network_actor_ctx \<times> 'w" where
  "ev_network_actor_handle_tx mem msg ctx w =
     (if \<not> ev_network_message_has_exact_payload msg 20 then (EV_ERR_CONTRACT, bad_payload ctx, w)
      else
        let ctx = nstat (\<lambda>s. s\<lparr>ns_tx_commands_seen := ns_tx_commands_seen s + 1\<rparr>) ctx
        in if nw_state ctx \<noteq> EV_NETWORK_STATE_MQTT_CONNECTED
           then (EV_OK, nstat (\<lambda>s. s\<lparr>ns_tx_rejected_not_connected := ns_tx_rejected_not_connected s + 1\<rparr>) ctx, w)
           else case nw_net_port ctx of
               None \<Rightarrow> (EV_ERR_UNSUPPORTED, nstat (\<lambda>s. s\<lparr>ns_tx_failed := ns_tx_failed s + 1\<rparr>) ctx, w)
             | Some port \<Rightarrow> (case np_publish_mqtt port of
                   None \<Rightarrow> (EV_ERR_UNSUPPORTED, nstat (\<lambda>s. s\<lparr>ns_tx_failed := ns_tx_failed s + 1\<rparr>) ctx, w)
                 | Some publish_mqtt \<Rightarrow>
                     let cmd = take 20 (mem (the (ev_msg_payload_data (Some msg))));
                         ctx = nstat (\<lambda>s. s\<lparr>ns_tx_attempts := ns_tx_attempts s + 1\<rparr>) ctx;
                         (rc, w) = publish_mqtt cmd w
                     in (rc, nstat (\<lambda>s. if rc = EV_OK then s\<lparr>ns_tx_ok := ns_tx_ok s + 1\<rparr>
                                       else s\<lparr>ns_tx_failed := ns_tx_failed s + 1\<rparr>) ctx, w)))"

definition ev_network_actor_handle ::
    "payload_bytes \<Rightarrow> 'w ev_network_actor_ctx option \<Rightarrow> ev_msg option \<Rightarrow> 'w \<Rightarrow> ev_result \<times> 'w ev_network_actor_ctx option \<times> 'w" where
  "ev_network_actor_handle mem actor_context msg w =
     (if actor_context = None \<or> msg = None then (EV_ERR_INVALID_ARG, actor_context, w)
      else
        let ctx = the actor_context; msg = the msg; e = msg_event_id msg;
            quiet = (\<lambda>(rc, ctx). (rc, ctx, w));
            (rc, ctx, w) =
              (if e = EV_TICK_1S
               then (EV_OK, (nstat (\<lambda>s. s\<lparr>ns_telemetry_ticks := ns_telemetry_ticks s + 1\<rparr>) ctx)
                       \<lparr>nw_telemetry_tick_counter := nw_telemetry_tick_counter ctx + 1\<rparr>, w)
               else if e = EV_NET_WIFI_UP then quiet (ev_network_actor_handle_wifi_up ctx)
               else if e = EV_NET_WIFI_DOWN then quiet (ev_network_actor_handle_wifi_down ctx)
               else if e = EV_NET_MQTT_UP then quiet (ev_network_actor_handle_mqtt_up ctx)
               else if e = EV_NET_MQTT_DOWN then quiet (ev_network_actor_handle_mqtt_down ctx)
               else if e = EV_NET_MQTT_MSG_RX then quiet (ev_network_actor_handle_mqtt_rx_inline mem msg ctx)
               else if e = EV_NET_MQTT_MSG_RX_LEASE then quiet (ev_network_actor_handle_mqtt_rx_lease mem msg ctx)
               else if e = EV_NET_TX_CMD then ev_network_actor_handle_tx mem msg ctx w
               else if e = EV_TEMP_UPDATED then ev_network_actor_handle_temp_updated mem msg ctx w
               else if e = EV_TIME_UPDATED then ev_network_actor_handle_time_updated mem msg ctx w
               else if e = EV_MCP23008_INPUT_CHANGED then ev_network_actor_handle_inputs_changed mem msg ctx w
               else if e = EV_LIGHT_UPDATED then ev_network_actor_handle_light_updated mem msg ctx w
               else (EV_ERR_CONTRACT, nstat (\<lambda>s. s\<lparr>ns_bad_events := ns_bad_events s + 1\<rparr>) ctx, w))
        in (rc, Some ctx, w))"

definition ev_network_actor_stats_of :: "'w ev_network_actor_ctx option \<Rightarrow> ev_network_actor_stats option" where
  "ev_network_actor_stats_of ctx = map_option nw_stats ctx"

section \<open>Numbers in telemetry\<close>

text \<open>Reading numbers back: the value of decimal digits, and the numbers after the colons of a body.\<close>

definition digits_value :: "u8 list \<Rightarrow> nat" where
  "digits_value ds = foldl (\<lambda>v d. 10 * v + (unat d - 48)) 0 ds"

definition number_value :: "u8 list \<Rightarrow> int" where
  "number_value cs = (case cs of c # ds \<Rightarrow> if c = 45 then - int (digits_value ds) else int (digits_value cs) | [] \<Rightarrow> 0)"

definition number_end :: "u8 \<Rightarrow> bool" where
  "number_end c \<longleftrightarrow> c = 44 \<or> c = 125"

primrec numbers_in :: "u8 list \<Rightarrow> int list" where
  "numbers_in [] = []"
| "numbers_in (c # cs) = (if c = 58 then [number_value (takeWhile (\<lambda>c. \<not> number_end c) cs)] else []) @ numbers_in cs"

definition digit :: "u8 \<Rightarrow> bool" where
  "digit c \<longleftrightarrow> 48 \<le> unat c \<and> unat c < 58"

lemma digit_of_nat:
  assumes "n < 10"
  shows "digit (of_nat (48 + n))" "unat (of_nat (48 + n) :: u8) = 48 + n"
proof -
  show u: "unat (of_nat (48 + n) :: u8) = 48 + n" using assms by (simp only: unat_of_nat) simp
  show "digit (of_nat (48 + n))" unfolding digit_def u using assms by simp
qed

lemma decimal_value: "digits_value (decimal n) = n"
proof (induction n rule: decimal.induct)
  case (1 n)
  show ?case
  proof (cases "n < 10")
    case True
    then show ?thesis using digit_of_nat(2) [OF True] by (simp add: decimal.simps [of n] digits_value_def)
  next
    case False
    have "digits_value (decimal n) = 10 * digits_value (decimal (n div 10)) + (unat (of_nat (48 + n mod 10) :: u8) - 48)"
      using False by (simp add: decimal.simps [of n] digits_value_def)
    also have "\<dots> = 10 * (n div 10) + n mod 10"
      using 1 [OF False] by (simp only: digit_of_nat(2) [OF mod_less_divisor] zero_less_numeral)
    finally show ?thesis by simp
  qed
qed

lemma decimal_digits: "c \<in> set (decimal n) \<Longrightarrow> digit c"
proof (induction n rule: decimal.induct)
  case (1 n)
  show ?case
  proof (cases "n < 10")
    case True
    then show ?thesis using 1(2) digit_of_nat(1) [OF True] by (simp add: decimal.simps [of n])
  next
    case False
    have "digit (of_nat (48 + n mod 10))" by (rule digit_of_nat(1)) simp
    then show ?thesis using 1(1) [OF False] 1(2) False by (auto simp: decimal.simps [of n])
  qed
qed

lemma decimal_length: "n < 10 ^ k \<Longrightarrow> 0 < k \<Longrightarrow> length (decimal n) \<le> k"
proof (induction k arbitrary: n)
  case (Suc k)
  show ?case
  proof (cases "n < 10")
    case True
    then show ?thesis by (simp add: decimal.simps [of n])
  next
    case False
    then have "n div 10 < 10 ^ k" "0 < k" using Suc.prems(1) by (auto simp: less_mult_imp_div_less mult.commute intro: gr0I)
    then show ?thesis using Suc.IH False by (simp add: decimal.simps [of n])
  qed
qed simp

lemma decimal_nonempty: "decimal n \<noteq> []"
  by (simp add: decimal.simps [of n])

lemma digit_not: "digit c \<Longrightarrow> c \<noteq> 58 \<and> c \<noteq> 45 \<and> \<not> number_end c"
  by (auto simp: digit_def number_end_def)

lemma decimal_number: "number_value (decimal n) = int n"
proof -
  obtain c ds where c: "decimal n = c # ds" using decimal_nonempty [of n] by (cases "decimal n") auto
  then have "c \<noteq> 45" using decimal_digits [of c n] digit_not by auto
  then show ?thesis using decimal_value [of n] by (simp add: number_value_def c)
qed

lemma signed_decimal_number: "number_value (signed_decimal i) = i"
  by (auto simp: signed_decimal_def decimal_number) (simp add: number_value_def decimal_value)

lemma numbers_in_append:
  "58 \<notin> set xs \<Longrightarrow> numbers_in (xs @ ys) = numbers_in ys"
  by (induction xs) auto

lemma numbers_in_number:
  assumes "\<And>c. c \<in> set ds \<Longrightarrow> c \<noteq> 58 \<and> \<not> number_end c" and "number_end e"
  shows "numbers_in (58 # ds @ e # ys) = number_value ds # numbers_in ys"
proof -
  have "takeWhile (\<lambda>c. \<not> number_end c) (ds @ e # ys) = ds"
    using assms by (simp add: takeWhile_append2)
  moreover have "58 \<notin> set (ds @ [e])" using assms by (auto simp: number_end_def)
  ultimately show ?thesis using numbers_in_append [of "ds @ [e]" ys] by simp
qed

lemma numbers_in_decimal [simp]:
  "number_end e \<Longrightarrow> numbers_in (58 # decimal n @ e # ys) = int n # numbers_in ys"
  using numbers_in_number [of "decimal n" e ys] decimal_digits [of _ n] digit_not decimal_number by simp

lemma signed_digits: "c \<in> set (signed_decimal i) \<Longrightarrow> c \<noteq> 58 \<and> \<not> number_end c"
  by (auto simp: signed_decimal_def number_end_def dest!: decimal_digits split: if_splits) (auto simp: digit_def)

lemma numbers_in_signed [simp]:
  "number_end e \<Longrightarrow> numbers_in (58 # signed_decimal i @ e # ys) = i # numbers_in ys"
  using numbers_in_number [of "signed_decimal i" e ys] signed_digits [of _ i] signed_decimal_number by simp

text \<open>The bodies, byte by byte.\<close>

lemma format_lu_steps:
  "c \<noteq> CHR ''%'' \<Longrightarrow> format_lu (c # cs) vs = of_char c # format_lu cs vs"
  "format_lu (CHR ''%'' # CHR ''l'' # CHR ''u'' # cs) (v # vs) = decimal (unat v) @ format_lu cs vs"
  by simp_all

lemma format_lu_append:
  "CHR ''%'' \<notin> set s \<Longrightarrow> format_lu (s @ cs) vs = bytes_of s @ format_lu cs vs"
  by (induction s) (auto simp: format_lu_steps(1) [OF not_sym] bytes_of_def simp del: format_lu.simps(1))

lemma format_lu_one:
  assumes "CHR ''%'' \<notin> set s" and "CHR ''%'' \<notin> set t"
  shows "format_lu (s @ ''%lu'' @ t) (a # vs) = bytes_of s @ decimal (unat a) @ bytes_of t"
  using assms format_lu_append [of t "[]"] by (simp add: format_lu_append format_lu_steps del: format_lu.simps(1))

lemma format_lu_two:
  assumes "CHR ''%'' \<notin> set s" and "CHR ''%'' \<notin> set t" and "CHR ''%'' \<notin> set u"
  shows "format_lu (s @ ''%lu'' @ t @ ''%lu'' @ u) [a, b] = bytes_of s @ decimal (unat a) @ bytes_of t @ decimal (unat b) @ bytes_of u"
  using assms format_lu_append [of u "[]"] by (simp add: format_lu_append format_lu_steps del: format_lu.simps(1))

lemma telemetry_bytes:
  "bytes_of ''{\"cC\":'' = [123, 34, 99, 67, 34, 58]" "bytes_of ''}'' = [125]"
  "bytes_of ''{\"unix\":'' = [123, 34, 117, 110, 105, 120, 34, 58]"
  "bytes_of ''{\"pressed\":'' = [123, 34, 112, 114, 101, 115, 115, 101, 100, 34, 58]"
  "bytes_of '',\"changed\":'' = [44, 34, 99, 104, 97, 110, 103, 101, 100, 34, 58]"
  "bytes_of ''{\"mLux\":'' = [123, 34, 109, 76, 117, 120, 34, 58]" "bytes_of '',\"raw\":'' = [44, 34, 114, 97, 119, 34, 58]"
  by code_simp+

lemma telemetry_bodies:
  "temp_body c = bytes_of ''{\"cC\":'' @ signed_decimal (sint c) @ bytes_of ''}''"
  "format_lu ''{\"unix\":%lu}'' (a # vs) = bytes_of ''{\"unix\":'' @ decimal (unat a) @ bytes_of ''}''"
  "format_lu ''{\"pressed\":%lu,\"changed\":%lu}'' [a, b] =
     bytes_of ''{\"pressed\":'' @ decimal (unat a) @ bytes_of '',\"changed\":'' @ decimal (unat b) @ bytes_of ''}''"
  "format_lu ''{\"mLux\":%lu,\"raw\":%lu}'' [a, b] =
     bytes_of ''{\"mLux\":'' @ decimal (unat a) @ bytes_of '',\"raw\":'' @ decimal (unat b) @ bytes_of ''}''"
  using format_lu_one [of "''{\"unix\":''" "''}''" a vs]
    format_lu_two [of "''{\"pressed\":''" "'',\"changed\":''" "''}''" a b]
    format_lu_two [of "''{\"mLux\":''" "'',\"raw\":''" "''}''" a b]
  by (simp_all add: temp_body_def del: format_lu.simps)

lemma decimal_u32: "length (decimal (unat (x :: u32))) \<le> 10"
proof -
  have "unat x < 2 ^ 32" using unsigned_less [of x, where ?'a = nat] by simp
  also have "(2 :: nat) ^ 32 < 10 ^ 10" by simp
  finally show ?thesis by (rule decimal_length) simp
qed

lemma signed_decimal_i16: "length (signed_decimal (sint (x :: i16))) \<le> 7"
proof -
  have "- (2 ^ 15) \<le> sint x" "sint x < 2 ^ 15"
    using sint_greater_eq [of x] sint_less [of x] by simp_all
  then have "nat (- sint x) < 10 ^ 6" "nat (sint x) < 10 ^ 6" by (simp_all add: nat_less_iff)
  from decimal_length [OF this(1)] decimal_length [OF this(2)] show ?thesis by (auto simp: signed_decimal_def)
qed

text \<open>The topics, and the numbers a telemetry message carries.\<close>

definition telemetry_topic :: "ev_event_id \<Rightarrow> u8 list" where
  "telemetry_topic e = bytes_of
     (if e = EV_TEMP_UPDATED then ''telemetry/temp'' else if e = EV_TIME_UPDATED then ''telemetry/time''
      else if e = EV_MCP23008_INPUT_CHANGED then ''telemetry/inputs'' else ''telemetry/light'')"

definition telemetry_numbers :: "ev_event_id \<Rightarrow> u8 list \<Rightarrow> int list" where
  "telemetry_numbers e b =
     (if e = EV_TEMP_UPDATED then [sint (le16_at b 0)] else if e = EV_TIME_UPDATED then [uint (le32_at b 0)]
      else if e = EV_MCP23008_INPUT_CHANGED then [uint (b ! 0), uint (b ! 1)]
      else [uint (le32_at b 0), uint (le16_at b 4)])"

definition telemetry_size :: "ev_event_id \<Rightarrow> nat" where
  "telemetry_size e =
     (if e = EV_TEMP_UPDATED \<or> e = EV_MCP23008_INPUT_CHANGED then 2 else if e = EV_TIME_UPDATED then 12 else 8)"

definition telemetry_event :: "ev_event_id \<Rightarrow> bool" where
  "telemetry_event e \<longleftrightarrow> e \<in> {EV_TEMP_UPDATED, EV_TIME_UPDATED, EV_MCP23008_INPUT_CHANGED, EV_LIGHT_UPDATED}"

text \<open>The tick of the last success of a kind.\<close>

definition last_sent :: "ev_event_id \<Rightarrow> 'w ev_network_actor_ctx \<Rightarrow> u32" where
  "last_sent e ctx =
     (if e = EV_TEMP_UPDATED then nw_last_temp_telemetry_tick ctx else if e = EV_TIME_UPDATED then nw_last_time_telemetry_tick ctx
      else if e = EV_MCP23008_INPUT_CHANGED then nw_last_inputs_telemetry_tick ctx else nw_last_light_telemetry_tick ctx)"

definition telemetry_body :: "ev_event_id \<Rightarrow> u8 list \<Rightarrow> u8 list" where
  "telemetry_body e b =
     (if e = EV_TEMP_UPDATED then temp_body (le16_at b 0)
      else if e = EV_TIME_UPDATED then format_lu ''{\"unix\":%lu}'' [le32_at b 0, 0]
      else if e = EV_MCP23008_INPUT_CHANGED then format_lu ''{\"pressed\":%lu,\"changed\":%lu}'' [ucast (b ! 0), ucast (b ! 1)]
      else format_lu ''{\"mLux\":%lu,\"raw\":%lu}'' [le32_at b 0, ucast (le16_at b 4)])"

lemma unat_ucast_small: "unat (ucast (x :: u8) :: u32) = unat x" "unat (ucast (y :: u16) :: u32) = unat y"
  by (simp_all add: unsigned_ucast_eq take_bit_nat_eq_self less_trans [OF unsigned_less [where ?'a = nat]])

lemma numbers_in_skip: "c \<noteq> 58 \<Longrightarrow> numbers_in (c # cs) = numbers_in cs"
  by simp

lemma telemetry_body_numbers: "numbers_in (telemetry_body e b) = telemetry_numbers e b"
  by (simp add: telemetry_body_def telemetry_numbers_def telemetry_bodies telemetry_bytes number_end_def unat_ucast_small
      numbers_in_skip del: numbers_in.simps(2))

lemma telemetry_body_length: "length (telemetry_body e b) < 64"
  using decimal_u32 [of "le32_at b 0"] signed_decimal_i16 [of "le16_at b 0"] decimal_u32 [of "ucast (b ! 0)"]
    decimal_u32 [of "ucast (b ! 1)"] decimal_u32 [of "ucast (le16_at b 4)"]
  by (simp add: telemetry_body_def telemetry_bodies telemetry_bytes)

section \<open>The telemetry of a message\<close>

definition set_last_sent :: "ev_event_id \<Rightarrow> u32 \<Rightarrow> 'w ev_network_actor_ctx \<Rightarrow> 'w ev_network_actor_ctx" where
  "set_last_sent e t ctx =
     (if e = EV_TEMP_UPDATED then ctx\<lparr>nw_last_temp_telemetry_tick := t\<rparr>
      else if e = EV_TIME_UPDATED then ctx\<lparr>nw_last_time_telemetry_tick := t\<rparr>
      else if e = EV_MCP23008_INPUT_CHANGED then ctx\<lparr>nw_last_inputs_telemetry_tick := t\<rparr>
      else ctx\<lparr>nw_last_light_telemetry_tick := t\<rparr>)"

definition count_seen :: "ev_event_id \<Rightarrow> 'w ev_network_actor_ctx \<Rightarrow> 'w ev_network_actor_ctx" where
  "count_seen e = nstat (\<lambda>s.
     if e = EV_TEMP_UPDATED then s\<lparr>ns_telemetry_temp_seen := ns_telemetry_temp_seen s + 1\<rparr>
     else if e = EV_TIME_UPDATED then s\<lparr>ns_telemetry_time_seen := ns_telemetry_time_seen s + 1\<rparr>
     else if e = EV_MCP23008_INPUT_CHANGED then s\<lparr>ns_telemetry_inputs_seen := ns_telemetry_inputs_seen s + 1\<rparr>
     else s\<lparr>ns_telemetry_light_seen := ns_telemetry_light_seen s + 1\<rparr>)"

lemma topics_fit:
  "ev_network_copy_topic 32 (bytes_of ''telemetry/temp'') 14 = (True, bytes_of ''telemetry/temp'')"
  "ev_network_copy_topic 32 (bytes_of ''telemetry/time'') 14 = (True, bytes_of ''telemetry/time'')"
  "ev_network_copy_topic 32 (bytes_of ''telemetry/inputs'') 16 = (True, bytes_of ''telemetry/inputs'')"
  "ev_network_copy_topic 32 (bytes_of ''telemetry/light'') 15 = (True, bytes_of ''telemetry/light'')"
  by code_simp+

lemma format_fits:
  "length (format_lu fmt [a, b]) < 64 \<Longrightarrow> ev_network_format_checked 64 fmt a b = (True, format_lu fmt [a, b])"
  by (simp add: ev_network_format_checked_def)

lemma exact_payload_iff:
  "ev_network_message_has_exact_payload m n \<longleftrightarrow> msg_payload_size m = n \<and> (n = 0 \<or> ev_msg_payload_data (Some m) \<noteq> None)"
  by (simp add: ev_network_message_has_exact_payload_def ev_msg_payload_size_def)

text \<open>Every telemetry message that has the size of its kind comes to publishing its body under its topic.\<close>

lemma telemetry_handled:
  assumes e: "telemetry_event (msg_event_id m)"
  shows "ev_network_actor_handle mem (Some ctx) (Some m) w =
    (if msg_payload_size m = telemetry_size (msg_event_id m) \<and> ev_msg_payload_data (Some m) \<noteq> None
     then let b = mem (the (ev_msg_payload_data (Some m)));
              (rc, last, ctx', w') = ev_network_publish_telemetry (telemetry_topic (msg_event_id m))
                (telemetry_body (msg_event_id m) b) (last_sent (msg_event_id m) ctx) (count_seen (msg_event_id m) ctx) w
          in (rc, Some (set_last_sent (msg_event_id m) last ctx'), w')
     else (EV_ERR_CONTRACT, Some (bad_payload ctx), w))"
proof -
  note fits = telemetry_body_length [of "msg_event_id m" "mem (the (ev_msg_payload_data (Some m)))"]
  consider "msg_event_id m = EV_TEMP_UPDATED" | "msg_event_id m = EV_TIME_UPDATED"
    | "msg_event_id m = EV_MCP23008_INPUT_CHANGED" | "msg_event_id m = EV_LIGHT_UPDATED"
    using e by (auto simp: telemetry_event_def)
  then show ?thesis
  proof cases
    case 1
    then show ?thesis
      using fits
      by (auto simp: ev_network_actor_handle_def ev_network_actor_handle_temp_updated_def exact_payload_iff topics_fit
          telemetry_size_def telemetry_topic_def telemetry_body_def last_sent_def set_last_sent_def count_seen_def nstat_def
          Let_def split: prod.splits)
  next
    case 2
    then show ?thesis
      using fits
      by (auto simp: ev_network_actor_handle_def ev_network_actor_handle_time_updated_def exact_payload_iff topics_fit
          format_fits telemetry_size_def telemetry_topic_def telemetry_body_def last_sent_def set_last_sent_def count_seen_def
          nstat_def Let_def simp del: format_lu.simps split: prod.splits)
  next
    case 3
    then show ?thesis
      using fits
      by (auto simp: ev_network_actor_handle_def ev_network_actor_handle_inputs_changed_def exact_payload_iff topics_fit
          format_fits telemetry_size_def telemetry_topic_def telemetry_body_def last_sent_def set_last_sent_def count_seen_def
          nstat_def Let_def simp del: format_lu.simps split: prod.splits)
  next
    case 4
    then show ?thesis
      using fits
      by (auto simp: ev_network_actor_handle_def ev_network_actor_handle_light_updated_def exact_payload_iff topics_fit
          format_fits telemetry_size_def telemetry_topic_def telemetry_body_def last_sent_def set_last_sent_def count_seen_def
          nstat_def Let_def simp del: format_lu.simps split: prod.splits)
  qed
qed

lemma nstat_fields [simp]:
  "nw_state (nstat f ctx) = nw_state ctx" "nw_net_port (nstat f ctx) = nw_net_port ctx"
  "nw_telemetry_tick_counter (nstat f ctx) = nw_telemetry_tick_counter ctx" "nw_stats (nstat f ctx) = f (nw_stats ctx)"
  "last_sent e (nstat f ctx) = last_sent e ctx" "nstat f (nstat g ctx) = nstat (f \<circ> g) ctx"
  by (simp_all add: nstat_def last_sent_def)

lemma set_last_sent_fields [simp]:
  "nw_state (set_last_sent e t ctx) = nw_state ctx" "nw_net_port (set_last_sent e t ctx) = nw_net_port ctx"
  "nw_telemetry_tick_counter (set_last_sent e t ctx) = nw_telemetry_tick_counter ctx"
  "nw_stats (set_last_sent e t ctx) = nw_stats ctx" "last_sent e (set_last_sent e t ctx) = t"
  by (simp_all add: set_last_sent_def last_sent_def)

lemma last_sent_other:
  "telemetry_event e \<Longrightarrow> telemetry_event e' \<Longrightarrow> e' \<noteq> e \<Longrightarrow> last_sent e' (set_last_sent e t ctx) = last_sent e' ctx"
  by (auto simp: telemetry_event_def set_last_sent_def last_sent_def)

text \<open>What publishing comes to.\<close>

lemma publish_telemetry_effect:
  assumes "ev_network_publish_telemetry t b prev ctx w = (rc, now, ctx', w')"
  shows "rc = EV_OK \<and> (\<exists>g. ctx' = nstat g ctx) \<and> (now = prev \<or> now = nw_telemetry_tick_counter ctx)
    \<and> (ns_telemetry_sent (nw_stats ctx') = ns_telemetry_sent (nw_stats ctx) \<or> now = nw_telemetry_tick_counter ctx)
    \<and> (nw_state ctx \<noteq> EV_NETWORK_STATE_MQTT_CONNECTED \<or> prev = nw_telemetry_tick_counter ctx \<and> prev \<noteq> EV_NETWORK_TELEMETRY_TICK_NEVER
        \<longrightarrow> w' = w \<and> ns_telemetry_sent (nw_stats ctx') = ns_telemetry_sent (nw_stats ctx))"
  using assms
  by (auto simp: ev_network_publish_telemetry_def Let_def ev_network_telemetry_rate_limited_def
      split: if_splits option.splits prod.splits)

text \<open>A message that fits the actor's state and time.\<close>

lemma publish_telemetry_accepted:
  assumes "nw_state ctx = EV_NETWORK_STATE_MQTT_CONNECTED" and "nw_net_port ctx = Some p" and "np_publish_mqtt_view p = Some f"
    and "prev = EV_NETWORK_TELEMETRY_TICK_NEVER \<or> prev \<noteq> nw_telemetry_tick_counter ctx"
    and "t \<noteq> []" and "length t < 32" and "b \<noteq> []" and "length b < 64"
  shows "\<exists>g. ev_network_publish_telemetry t b prev ctx w =
    (let (rc, w') = f \<lparr>nv_topic = t, nv_payload = b, nv_qos = 0, nv_retain = 0\<rparr> w
     in (EV_OK, if rc = EV_OK then nw_telemetry_tick_counter ctx else prev, nstat (g rc) ctx, w'))"
proof -
  have "nw_telemetry_tick_counter ctx - prev < 1 \<longleftrightarrow> nw_telemetry_tick_counter ctx = prev"
    by (auto simp: word_less_nat_alt unat_eq_0)
  then have l: "\<not> ev_network_telemetry_rate_limited ctx prev"
    using assms(4) by (auto simp: ev_network_telemetry_rate_limited_def)
  obtain rc w' where f: "f \<lparr>nv_topic = t, nv_payload = b, nv_qos = 0, nv_retain = 0\<rparr> w = (rc, w')" by fastforce
  define seen :: "ev_network_actor_stats \<Rightarrow> ev_network_actor_stats"
    where "seen = (\<lambda>s. s\<lparr>ns_telemetry_seen := ns_telemetry_seen s + 1\<rparr>)"
  have l': "\<not> ev_network_telemetry_rate_limited (nstat seen ctx) prev"
    using l unfolding ev_network_telemetry_rate_limited_def nstat_fields .
  show ?thesis
    using assms(1-3,5-8) l' f
    by (auto simp: ev_network_publish_telemetry_def Let_def simp flip: seen_def split: prod.splits)
qed

text \<open>
  C24: telemetry can be read back. While the broker is connected and the kind was not yet sent this second, a
  temperature, time, button or light message leads to exactly one publication, under the topic of its kind, with quality
  of service 0, not retained; its body is shorter than its buffer, so it is never cut, and the numbers after its colons are
  those of the payload, negative temperatures included. If the port accepts it, the kind counts as sent this second.
\<close>

theorem telemetry_readable:
  assumes e: "telemetry_event (msg_event_id m)" and pl: "ev_msg_payload_data (Some m) = Some r"
    and sz: "msg_payload_size m = telemetry_size (msg_event_id m)"
    and con: "nw_state ctx = EV_NETWORK_STATE_MQTT_CONNECTED" "nw_net_port ctx = Some p" "np_publish_mqtt_view p = Some f"
    and due: "last_sent (msg_event_id m) ctx \<noteq> nw_telemetry_tick_counter ctx"
  shows "\<exists>body rc ctx' w'. f \<lparr>nv_topic = telemetry_topic (msg_event_id m), nv_payload = body, nv_qos = 0, nv_retain = 0\<rparr> w = (rc, w')
    \<and> ev_network_actor_handle mem (Some ctx) (Some m) w = (EV_OK, Some ctx', w')
    \<and> length body < EV_NETWORK_TELEMETRY_PAYLOAD_MAX_BYTES
    \<and> numbers_in body = telemetry_numbers (msg_event_id m) (mem r)
    \<and> (rc = EV_OK \<longrightarrow> last_sent (msg_event_id m) ctx' = nw_telemetry_tick_counter ctx')"
proof -
  let ?e = "msg_event_id m"
  let ?b = "telemetry_body ?e (mem r)" and ?c = "count_seen ?e ctx" and ?t = "telemetry_topic ?e"
  obtain rc w' where f: "f \<lparr>nv_topic = ?t, nv_payload = ?b, nv_qos = 0, nv_retain = 0\<rparr> w = (rc, w')" by fastforce
  have t: "?t \<noteq> []" "length ?t < 32" using e by (auto simp: telemetry_event_def telemetry_topic_def bytes_of_def)
  have b: "?b \<noteq> []" "length ?b < 64"
    using telemetry_body_length by (auto simp: telemetry_body_def telemetry_bodies telemetry_bytes)
  have c: "nw_state ?c = EV_NETWORK_STATE_MQTT_CONNECTED" "nw_net_port ?c = Some p"
    "last_sent ?e ctx = EV_NETWORK_TELEMETRY_TICK_NEVER \<or> last_sent ?e ctx \<noteq> nw_telemetry_tick_counter ?c"
    using con due by (simp_all add: count_seen_def)
  obtain g where g: "ev_network_publish_telemetry ?t ?b (last_sent ?e ctx) ?c w =
    (EV_OK, if rc = EV_OK then nw_telemetry_tick_counter ?c else last_sent ?e ctx, nstat (g rc) ?c, w')"
    using publish_telemetry_accepted [OF c(1,2) con(3) c(3) t b, of w] f by auto
  have "ev_network_actor_handle mem (Some ctx) (Some m) w =
      (EV_OK, Some (set_last_sent ?e (if rc = EV_OK then nw_telemetry_tick_counter ?c else last_sent ?e ctx) (nstat (g rc) ?c)), w')"
    using pl sz g by (simp add: telemetry_handled [OF e])
  then show ?thesis using f b(2) telemetry_body_numbers [of ?e "mem r"] by (intro exI conjI) (simp_all, simp)
qed

section \<open>Runs\<close>

lemma count_seen_fields [simp]:
  "nw_state (count_seen e ctx) = nw_state ctx" "nw_net_port (count_seen e ctx) = nw_net_port ctx"
  "nw_telemetry_tick_counter (count_seen e ctx) = nw_telemetry_tick_counter ctx" "last_sent k (count_seen e ctx) = last_sent k ctx"
  "ns_telemetry_sent (nw_stats (count_seen e ctx)) = ns_telemetry_sent (nw_stats ctx)"
  by (simp_all add: count_seen_def)

fun network_step ::
    "payload_bytes \<Rightarrow> 'w ev_network_actor_ctx \<times> 'w \<Rightarrow> ev_msg \<Rightarrow> 'w ev_network_actor_ctx \<times> 'w" where
  "network_step mem (ctx, w) m = (let (rc, ctx, w) = ev_network_actor_handle mem (Some ctx) (Some m) w in (the ctx, w))"

lemma network_step_telemetry:
  assumes e: "telemetry_event (msg_event_id m)" and s: "network_step mem (ctx, w) m = (ctx', w')"
  shows "nw_state ctx' = nw_state ctx \<and> nw_telemetry_tick_counter ctx' = nw_telemetry_tick_counter ctx
    \<and> (\<forall>k. telemetry_event k \<longrightarrow> last_sent k ctx' = last_sent k ctx \<or> last_sent k ctx' = nw_telemetry_tick_counter ctx)
    \<and> (ns_telemetry_sent (nw_stats ctx') = ns_telemetry_sent (nw_stats ctx)
        \<or> last_sent (msg_event_id m) ctx' = nw_telemetry_tick_counter ctx)
    \<and> (nw_state ctx \<noteq> EV_NETWORK_STATE_MQTT_CONNECTED
        \<or> last_sent (msg_event_id m) ctx = nw_telemetry_tick_counter ctx \<and> nw_telemetry_tick_counter ctx \<noteq> EV_NETWORK_TELEMETRY_TICK_NEVER
       \<longrightarrow> w' = w \<and> ns_telemetry_sent (nw_stats ctx') = ns_telemetry_sent (nw_stats ctx))"
proof (cases "msg_payload_size m = telemetry_size (msg_event_id m) \<and> ev_msg_payload_data (Some m) \<noteq> None")
  case True
  let ?e = "msg_event_id m"
  obtain rc now c1 w1 where p: "ev_network_publish_telemetry (telemetry_topic ?e)
      (telemetry_body ?e (mem (the (ev_msg_payload_data (Some m))))) (last_sent ?e ctx) (count_seen ?e ctx) w = (rc, now, c1, w1)"
    by (rule prod_cases4)
  have o: "ctx' = set_last_sent ?e now c1" "w' = w1"
    using s True p by (simp_all add: telemetry_handled [OF e] Let_def del: not_None_eq)
  obtain g where c1: "c1 = nstat g (count_seen ?e ctx)" using publish_telemetry_effect [OF p] by blast
  have k: "last_sent k ctx' = last_sent k ctx \<or> last_sent k ctx' = nw_telemetry_tick_counter ctx" if "telemetry_event k" for k
  proof (cases "k = ?e")
    case True
    then show ?thesis using publish_telemetry_effect [OF p] by (auto simp: o)
  next
    case False
    then show ?thesis by (simp add: o last_sent_other [OF e that] c1)
  qed
  show ?thesis
    using publish_telemetry_effect [OF p] k by (simp add: o) (auto simp: c1)
next
  case False
  then show ?thesis using s by (auto simp: telemetry_handled [OF e] bad_payload_def)
qed

text \<open>The other messages: the clock, the connection and the commands.\<close>

definition next_state :: "ev_event_id \<Rightarrow> ev_network_state \<Rightarrow> ev_network_state" where
  "next_state e s =
     (if e = EV_NET_WIFI_UP then (if s = EV_NETWORK_STATE_DISCONNECTED then EV_NETWORK_STATE_WIFI_UP else s)
      else if e = EV_NET_WIFI_DOWN then EV_NETWORK_STATE_DISCONNECTED
      else if e = EV_NET_MQTT_UP then EV_NETWORK_STATE_MQTT_CONNECTED
      else if e = EV_NET_MQTT_DOWN then EV_NETWORK_STATE_WIFI_UP else s)"

lemma network_step_other:
  assumes e: "\<not> telemetry_event (msg_event_id m)" and s: "network_step mem (ctx, w) m = (ctx', w')"
  shows "nw_state ctx' = next_state (msg_event_id m) (nw_state ctx)
    \<and> nw_telemetry_tick_counter ctx' = nw_telemetry_tick_counter ctx + (if msg_event_id m = EV_TICK_1S then 1 else 0)
    \<and> last_sent k ctx' = last_sent k ctx \<and> ns_telemetry_sent (nw_stats ctx') = ns_telemetry_sent (nw_stats ctx)
    \<and> (nw_state ctx \<noteq> EV_NETWORK_STATE_MQTT_CONNECTED \<or> msg_event_id m \<noteq> EV_NET_TX_CMD \<longrightarrow> w' = w)"
  using s e
  by (auto simp: ev_network_actor_handle_def telemetry_event_def next_state_def last_sent_def bad_payload_def nstat_def
      ev_network_actor_handle_wifi_up_def ev_network_actor_handle_wifi_down_def ev_network_actor_handle_mqtt_up_def
      ev_network_actor_handle_mqtt_down_def ev_network_actor_handle_mqtt_rx_inline_def ev_network_actor_handle_mqtt_rx_lease_def
      ev_network_actor_handle_tx_def Let_def split: if_splits option.splits prod.splits)

definition network_run ::
    "payload_bytes \<Rightarrow> 'w ev_network_actor_ctx \<Rightarrow> 'w \<Rightarrow> ev_msg list \<Rightarrow> 'w ev_network_actor_ctx \<times> 'w" where
  "network_run mem ctx w ms = foldl (network_step mem) (ctx, w) ms"

lemma network_run_snoc: "network_run mem ctx w (ms @ [m]) = network_step mem (network_run mem ctx w ms) m"
  by (simp add: network_run_def)

lemma sent_this_second:
  assumes k: "telemetry_event k" and l: "last_sent k ctx = nw_telemetry_tick_counter ctx"
  shows "\<forall>m \<in> set ms. msg_event_id m \<noteq> EV_TICK_1S \<Longrightarrow> network_run mem ctx w ms = (ctx', w') \<Longrightarrow>
    last_sent k ctx' = nw_telemetry_tick_counter ctx' \<and> nw_telemetry_tick_counter ctx' = nw_telemetry_tick_counter ctx"
proof (induction ms arbitrary: ctx' w' rule: rev_induct)
  case Nil
  then show ?case using l by (simp add: network_run_def)
next
  case (snoc m ms)
  obtain c1 w1 where r: "network_run mem ctx w ms = (c1, w1)" by fastforce
  have s: "network_step mem (c1, w1) m = (ctx', w')" using snoc.prems(2) r by (simp add: network_run_snoc)
  have "last_sent k c1 = nw_telemetry_tick_counter c1 \<and> nw_telemetry_tick_counter c1 = nw_telemetry_tick_counter ctx"
    using snoc.IH [OF _ r] snoc.prems(1) by simp
  then show ?case
    using network_step_telemetry [OF _ s] network_step_other [OF _ s, of k] snoc.prems(1) k
    by (cases "telemetry_event (msg_event_id m)") auto
qed

text \<open>
  C25: a kind of telemetry is sent at most once a second. Once a message led to a publication that the port accepted,
  a later message of the same kind does not reach the port before the next one-second tick, whatever comes in between.
  The one tick whose number is the mark for \<open>never\<close> is left out.
\<close>

theorem telemetry_once_a_second:
  assumes first: "network_step mem (ctx, w) m1 = (ctx1, w1)" "ns_telemetry_sent (nw_stats ctx1) \<noteq> ns_telemetry_sent (nw_stats ctx)"
    and never: "nw_telemetry_tick_counter ctx \<noteq> EV_NETWORK_TELEMETRY_TICK_NEVER"
    and between: "\<forall>m \<in> set ms. msg_event_id m \<noteq> EV_TICK_1S" "network_run mem ctx1 w1 ms = (ctx2, w2)"
    and again: "msg_event_id m2 = msg_event_id m1" "network_step mem (ctx2, w2) m2 = (ctx3, w3)"
  shows "w3 = w2 \<and> ns_telemetry_sent (nw_stats ctx3) = ns_telemetry_sent (nw_stats ctx2)"
proof -
  have e: "telemetry_event (msg_event_id m1)" using network_step_other [OF _ first(1)] first(2) by blast
  then have "last_sent (msg_event_id m1) ctx1 = nw_telemetry_tick_counter ctx1" "nw_telemetry_tick_counter ctx1 = nw_telemetry_tick_counter ctx"
    using network_step_telemetry [OF e first(1)] first(2) by auto
  then have "last_sent (msg_event_id m1) ctx2 = nw_telemetry_tick_counter ctx2" "nw_telemetry_tick_counter ctx2 \<noteq> EV_NETWORK_TELEMETRY_TICK_NEVER"
    using sent_this_second [OF e _ between] never by auto
  then show ?thesis using network_step_telemetry [OF _ again(2)] e again(1) by auto
qed

text \<open>The broker is connected when the last of the events that decide it was its coming up.\<close>

definition connected :: "ev_event_id list \<Rightarrow> bool" where
  "connected es \<longleftrightarrow>
     (let ds = filter (\<lambda>e. e = EV_NET_WIFI_DOWN \<or> e = EV_NET_MQTT_UP \<or> e = EV_NET_MQTT_DOWN) es
      in ds \<noteq> [] \<and> last ds = EV_NET_MQTT_UP)"

lemma connected_snoc:
  "connected [] = False"
  "connected (es @ [e]) \<longleftrightarrow> e = EV_NET_MQTT_UP \<or> e \<noteq> EV_NET_WIFI_DOWN \<and> e \<noteq> EV_NET_MQTT_DOWN \<and> connected es"
  by (auto simp: connected_def Let_def)

text \<open>
  C23: the actor uses the network port only while the broker is connected. From its initialisation on it is in the
  connected state exactly if the last of the events that take the connection up or down was the broker's coming up; otherwise
  no message reaches the port, neither commands nor telemetry.
\<close>

theorem port_used_only_connected:
  assumes start: "ev_network_actor_init (Some c) port = (EV_OK, Some ctx)" and run: "network_run mem ctx w ms = (ctx', w')"
  shows "(nw_state ctx' = EV_NETWORK_STATE_MQTT_CONNECTED \<longleftrightarrow> connected (map msg_event_id ms))
    \<and> (connected (map msg_event_id ms) \<or> snd (network_step mem (ctx', w') m) = w')"
proof -
  have st: "nw_state ctx' = EV_NETWORK_STATE_MQTT_CONNECTED \<longleftrightarrow> connected (map msg_event_id ms)"
    using run
  proof (induction ms arbitrary: ctx' w' rule: rev_induct)
    case Nil
    then show ?case using start by (auto simp: network_run_def connected_snoc ev_network_actor_init_def)
  next
    case (snoc n ms)
    obtain c1 w1 where r: "network_run mem ctx w ms = (c1, w1)" by fastforce
    have s: "network_step mem (c1, w1) n = (ctx', w')" using snoc.prems r by (simp add: network_run_snoc)
    show ?case
      using snoc.IH [OF r] network_step_telemetry [OF _ s] network_step_other [OF _ s]
      by (cases "telemetry_event (msg_event_id n)") (auto simp: connected_snoc next_state_def telemetry_event_def)
  qed
  obtain c2 w2 where "network_step mem (ctx', w') m = (c2, w2)" by fastforce
  then show ?thesis
    using st network_step_telemetry [of m mem ctx' w' c2 w2] network_step_other [of m mem ctx' w' c2 w2] by auto
qed

section \<open>A broker at work\<close>

text \<open>The world of the example is the list of the publications.\<close>

definition demo_broker :: "ev_net_mqtt_publish_view list ev_net_port" where
  "demo_broker = \<lparr>np_publish_mqtt = None, np_publish_mqtt_view = Some (\<lambda>v w. (EV_OK, w @ [v]))\<rparr>"

definition demo_network :: "ev_net_mqtt_publish_view list ev_network_actor_ctx" where
  "demo_network = \<lparr>nw_net_port = Some demo_broker, nw_state = EV_NETWORK_STATE_DISCONNECTED, nw_stats = zero_network_stats,
     nw_telemetry_tick_counter = 0, nw_last_temp_telemetry_tick = EV_NETWORK_TELEMETRY_TICK_NEVER,
     nw_last_time_telemetry_tick = EV_NETWORK_TELEMETRY_TICK_NEVER,
     nw_last_inputs_telemetry_tick = EV_NETWORK_TELEMETRY_TICK_NEVER,
     nw_last_light_telemetry_tick = EV_NETWORK_TELEMETRY_TICK_NEVER\<rparr>"

definition demo_online :: "ev_net_mqtt_publish_view list ev_network_actor_ctx" where
  "demo_online = demo_network\<lparr>nw_state := EV_NETWORK_STATE_MQTT_CONNECTED\<rparr>"

definition frost_msg :: ev_msg where
  "frost_msg = inline_msg EV_TEMP_UPDATED ACT_DS18B20 (le16_bytes (- 1234))"

lemma frost: "telemetry_event (msg_event_id frost_msg)" "msg_event_id frost_msg = EV_TEMP_UPDATED"
  "ev_msg_payload_data (Some frost_msg) = Some (Inline_bytes (le16_bytes (- 1234) @ drop 2 zero_inline))"
  "msg_payload_size frost_msg = telemetry_size EV_TEMP_UPDATED"
  by (simp_all add: frost_msg_def inline_msg_def telemetry_event_def ev_msg_payload_data_def telemetry_size_def)

theorem telemetry_readable_witness:
  "\<exists>body ctx'. ev_network_actor_handle message_memory (Some demo_online) (Some frost_msg) []
      = (EV_OK, Some ctx', [\<lparr>nv_topic = bytes_of ''telemetry/temp'', nv_payload = body, nv_qos = 0, nv_retain = 0\<rparr>])
    \<and> numbers_in body = [- 1234]"
proof -
  have "nw_state demo_online = EV_NETWORK_STATE_MQTT_CONNECTED" "nw_net_port demo_online = Some demo_broker"
    "np_publish_mqtt_view demo_broker = Some (\<lambda>v w. (EV_OK, w @ [v]))"
    "last_sent (msg_event_id frost_msg) demo_online \<noteq> nw_telemetry_tick_counter demo_online"
    by (simp_all add: demo_online_def demo_network_def demo_broker_def last_sent_def frost)
  note h = telemetry_readable [OF frost(1,3) _ this, of "[]" message_memory]
  show ?thesis
    using h by (auto simp: frost telemetry_topic_def telemetry_numbers_def message_memory_def)
qed

definition demo_sent :: "ev_net_mqtt_publish_view list ev_network_actor_ctx \<times> ev_net_mqtt_publish_view list" where
  "demo_sent = network_step message_memory (demo_online, []) frost_msg"

definition demo_later :: "ev_net_mqtt_publish_view list ev_network_actor_ctx \<times> ev_net_mqtt_publish_view list" where
  "demo_later = network_run message_memory (fst demo_sent) (snd demo_sent) [demo_publish_msg EV_NET_WIFI_UP]"

theorem telemetry_once_a_second_witness:
  "length (snd demo_sent) = 1 \<and> snd (network_step message_memory demo_later frost_msg) = snd demo_later"
proof -
  have s: "network_step message_memory (demo_online, []) frost_msg = (fst demo_sent, snd demo_sent)" by (simp add: demo_sent_def)
  have n: "ns_telemetry_sent (nw_stats (fst demo_sent)) \<noteq> ns_telemetry_sent (nw_stats demo_online)" "length (snd demo_sent) = 1"
    by code_simp+
  have t: "nw_telemetry_tick_counter demo_online \<noteq> EV_NETWORK_TELEMETRY_TICK_NEVER"
    by (simp add: demo_online_def demo_network_def)
  have b: "\<forall>m \<in> set [demo_publish_msg EV_NET_WIFI_UP]. msg_event_id m \<noteq> EV_TICK_1S" by code_simp
  have r: "network_run message_memory (fst demo_sent) (snd demo_sent) [demo_publish_msg EV_NET_WIFI_UP] = (fst demo_later, snd demo_later)"
    by (simp add: demo_later_def)
  have "network_step message_memory (fst demo_later, snd demo_later) frost_msg
    = (fst (network_step message_memory demo_later frost_msg), snd (network_step message_memory demo_later frost_msg))" by simp
  from telemetry_once_a_second [OF s n(1) t b r refl this] n(2) show ?thesis by simp
qed

definition demo_dropped :: "ev_net_mqtt_publish_view list ev_network_actor_ctx \<times> ev_net_mqtt_publish_view list" where
  "demo_dropped = network_run message_memory demo_network [] [demo_publish_msg EV_NET_MQTT_UP, demo_publish_msg EV_NET_WIFI_DOWN]"

theorem port_used_only_connected_witness:
  "nw_state (fst demo_dropped) \<noteq> EV_NETWORK_STATE_MQTT_CONNECTED \<and> snd (network_step message_memory demo_dropped frost_msg) = snd demo_dropped"
proof -
  have "ev_network_actor_init (Some demo_network) (Some demo_broker) = (EV_OK, Some demo_network)"
    by (simp add: ev_network_actor_init_def demo_network_def)
  moreover have "network_run message_memory demo_network [] [demo_publish_msg EV_NET_MQTT_UP, demo_publish_msg EV_NET_WIFI_DOWN]
    = (fst demo_dropped, snd demo_dropped)"
    by (simp add: demo_dropped_def)
  ultimately have "(nw_state (fst demo_dropped) = EV_NETWORK_STATE_MQTT_CONNECTED
      \<longleftrightarrow> connected (map msg_event_id [demo_publish_msg EV_NET_MQTT_UP, demo_publish_msg EV_NET_WIFI_DOWN]))
    \<and> (connected (map msg_event_id [demo_publish_msg EV_NET_MQTT_UP, demo_publish_msg EV_NET_WIFI_DOWN])
       \<or> snd (network_step message_memory (fst demo_dropped, snd demo_dropped) frost_msg) = snd demo_dropped)"
    by (rule port_used_only_connected)
  moreover have "\<not> connected (map msg_event_id [demo_publish_msg EV_NET_MQTT_UP, demo_publish_msg EV_NET_WIFI_DOWN])"
    by code_simp
  ultimately show ?thesis by simp
qed

end
