(* ===== verification/EvPublishPort.thy ===== *)
theory EvPublishPort
  imports EvBuilder
begin

text \<open>
  The port an actor publishes and sends through (\<open>runtime/src/ev_actor_publish_port.c\<close>). A send looks its route
  up in the active route table first, so that a send to an optional actor the node does without succeeds and
  reaches nobody. The graph that the port points to is an argument of its own, \<open>None\<close> when the pointer is null.
\<close>

section \<open>State and operations\<close>

record ev_actor_publish_port_stats =
  pp_sends_attempted :: u32
  pp_sends_ok :: u32
  pp_optional_disabled_routes :: u32
  pp_optional_disabled_watchdog_routes :: u32
  pp_optional_disabled_network_routes :: u32
  pp_failed :: u32

record ev_actor_publish_port =
  pp_source_actor :: ev_actor_id
  pp_stats :: ev_actor_publish_port_stats

text \<open>The loop over the span of the event: \<open>n\<close> entries left, the next at index \<open>i\<close>.\<close>

primrec find_route_loop ::
    "ev_active_route_table option \<Rightarrow> ev_event_id \<Rightarrow> ev_actor_id \<Rightarrow> nat \<Rightarrow> nat \<Rightarrow> ev_active_route option" where
  "find_route_loop routes event_id target_actor 0 i = None"
| "find_route_loop routes event_id target_actor (Suc n) i =
     (case ev_active_route_at routes i of
        None \<Rightarrow> find_route_loop routes event_id target_actor n (Suc i)
      | Some entry \<Rightarrow>
          if ae_event entry = event_id \<and> rt_target_actor (ae_route entry) = target_actor then Some entry
          else find_route_loop routes event_id target_actor n (Suc i))"

definition ev_actor_publish_find_route ::
    "'u ev_graph option \<Rightarrow> ev_event_id \<Rightarrow> ev_actor_id \<Rightarrow> ev_active_route option" where
  "ev_actor_publish_find_route graph event_id target_actor =
     (case ev_runtime_graph_route_table graph of
        None \<Rightarrow> None
      | Some routes \<Rightarrow>
          let sp = ev_active_route_table_span_for_event (Some routes) event_id
          in find_route_loop (Some routes) event_id target_actor (sp_count sp) (sp_start_index sp))"

definition zero_port_stats :: ev_actor_publish_port_stats where
  "zero_port_stats = \<lparr>pp_sends_attempted = 0, pp_sends_ok = 0, pp_optional_disabled_routes = 0,
     pp_optional_disabled_watchdog_routes = 0, pp_optional_disabled_network_routes = 0, pp_failed = 0\<rparr>"

definition ev_actor_publish_port_init ::
    "ev_actor_publish_port option \<Rightarrow> 'u ev_graph option \<Rightarrow> ev_actor_id \<Rightarrow> ev_result \<times> ev_actor_publish_port option" where
  "ev_actor_publish_port_init port graph source_actor =
     (if port = None \<or> graph = None \<or> \<not> ev_actor_id_is_valid source_actor then (EV_ERR_INVALID_ARG, port)
      else (EV_OK, Some \<lparr>pp_source_actor = source_actor, pp_stats = zero_port_stats\<rparr>))"

definition ev_actor_publish ::
    "'u ev_services ev_env \<Rightarrow> ev_actor_publish_port option \<Rightarrow> ev_msg option \<Rightarrow> 'u ev_graph option
       \<Rightarrow> ev_result \<times> ev_delivery_report option \<times> 'u ev_graph option" where
  "ev_actor_publish env port msg graph =
     (if port = None \<or> graph = None \<or> msg = None then (EV_ERR_INVALID_ARG, None, graph)
      else ev_runtime_graph_publish env graph msg)"

definition pstat :: "(ev_actor_publish_port_stats \<Rightarrow> ev_actor_publish_port_stats) \<Rightarrow> ev_actor_publish_port \<Rightarrow> ev_actor_publish_port" where
  "pstat f port = port\<lparr>pp_stats := f (pp_stats port)\<rparr>"

text \<open>A send along a route whose target is optional and absent: it is counted only.\<close>

definition skip_disabled_target :: "ev_actor_id \<Rightarrow> ev_actor_publish_port \<Rightarrow> ev_actor_publish_port" where
  "skip_disabled_target target_actor = pstat (\<lambda>s.
     let s = s\<lparr>pp_optional_disabled_routes := pp_optional_disabled_routes s + 1\<rparr>;
         s = (if target_actor = ACT_WATCHDOG
              then s\<lparr>pp_optional_disabled_watchdog_routes := pp_optional_disabled_watchdog_routes s + 1\<rparr> else s)
     in if target_actor = ACT_NETWORK
        then s\<lparr>pp_optional_disabled_network_routes := pp_optional_disabled_network_routes s + 1\<rparr> else s)"

definition ev_actor_send ::
    "'u ev_services ev_env \<Rightarrow> ev_actor_publish_port option \<Rightarrow> ev_actor_id \<Rightarrow> ev_msg option \<Rightarrow> 'u ev_graph option
       \<Rightarrow> ev_result \<times> ev_actor_publish_port option \<times> 'u ev_graph option" where
  "ev_actor_send env port target_actor msg graph =
     (if port = None \<or> graph = None \<or> msg = None then (EV_ERR_INVALID_ARG, port, graph)
      else if \<not> ev_actor_id_is_valid target_actor then (EV_ERR_OUT_OF_RANGE, port, graph)
      else
        let p = pstat (\<lambda>s. s\<lparr>pp_sends_attempted := pp_sends_attempted s + 1\<rparr>) (the port);
            route = ev_actor_publish_find_route graph (msg_event_id (the msg)) target_actor;
            state = map_option ae_state route
        in if state = Some EV_ACTIVE_ROUTE_OPTIONAL_DISABLED
           then (EV_OK, Some (skip_disabled_target target_actor p),
                 map_option (count_metric EV_METRIC_ROUTE_DISABLED_SKIPPED) graph)
           else if route \<noteq> None \<and> state \<noteq> Some EV_ACTIVE_ROUTE_ENABLED
           then (if ae_reason (the route) \<noteq> EV_OK then ae_reason (the route) else EV_ERR_STATE,
                 Some (pstat (\<lambda>s. s\<lparr>pp_failed := pp_failed s + 1\<rparr>) p), graph)
           else
             let (rc, graph) = ev_runtime_graph_send env graph target_actor msg
             in (rc, Some (pstat (\<lambda>s. if rc = EV_OK then s\<lparr>pp_sends_ok := pp_sends_ok s + 1\<rparr>
                                    else s\<lparr>pp_failed := pp_failed s + 1\<rparr>) p), graph))"

text \<open>The adapter that lets \<open>ev_publish\<close> deliver through the port; the port and the graph are its context.\<close>

definition ev_actor_publish_port_delivery_adapter ::
    "'u ev_services ev_env \<Rightarrow> ev_actor_id \<Rightarrow> ev_msg \<Rightarrow> ev_actor_publish_port option \<times> 'u ev_graph option
       \<Rightarrow> ev_result \<times> ev_actor_publish_port option \<times> 'u ev_graph option" where
  "ev_actor_publish_port_delivery_adapter env target_actor msg context =
     ev_actor_send env (fst context) target_actor (Some msg) (snd context)"

definition ev_actor_publish_port_stats_of :: "ev_actor_publish_port option \<Rightarrow> ev_actor_publish_port_stats option" where
  "ev_actor_publish_port_stats_of port = map_option pp_stats port"

section \<open>The route of a send\<close>

text \<open>The first entry of the active table for the event and the target.\<close>

definition planned_route :: "'u ev_graph \<Rightarrow> ev_event_id \<Rightarrow> ev_actor_id \<Rightarrow> ev_active_route option" where
  "planned_route s e a =
     find (\<lambda>x. ae_event x = e \<and> rt_target_actor (ae_route x) = a) (active_entries (sv_active_routes (services s)))"

lemma find_route_loop_spec:
  assumes "\<And>j. j < n \<Longrightarrow> ev_active_route_at t (i + j) = Some (es ! j)" and "length es = n"
  shows "find_route_loop t e a n i = find (\<lambda>x. ae_event x = e \<and> rt_target_actor (ae_route x) = a) es"
  using assms
proof (induction n arbitrary: i es)
  case (Suc n)
  then obtain x xs where es: "es = x # xs" by (cases es) auto
  have "ev_active_route_at t i = Some x" using Suc.prems(1) [of 0] es by simp
  moreover have "ev_active_route_at t (Suc i + j) = Some (xs ! j)" if "j < n" for j
    using Suc.prems(1) [of "Suc j"] that es by simp
  ultimately show ?case using Suc.IH [of "Suc i" xs] Suc.prems(2) es by auto
qed simp

lemma find_filter: "find (\<lambda>x. f x = e \<and> P x) (filter (\<lambda>x. f x = e) xs) = find (\<lambda>x. f x = e \<and> P x) xs"
  by (induction xs) auto

lemma find_route_planned:
  assumes "active_ready (sv_active_routes (services s))"
  shows "ev_actor_publish_find_route (Some s) e a = planned_route s e a"
proof -
  let ?t = "sv_active_routes (services s)"
  let ?sp = "ev_active_route_table_span_for_event (Some ?t) e"
  have "find_route_loop (Some ?t) e a (sp_count ?sp) (sp_start_index ?sp)
    = find (\<lambda>x. ae_event x = e \<and> rt_target_actor (ae_route x) = a) (filter (\<lambda>x. ae_event x = e) (active_entries ?t))"
    by (rule find_route_loop_spec) (simp_all add: active_routes.visit [OF assms] active_routes.count_of_event [OF assms])
  then show ?thesis
    by (simp add: ev_actor_publish_find_route_def ev_runtime_graph_route_table_def planned_route_def find_filter Let_def)
qed

text \<open>
  C31: a send follows the plan of the node. If the active table has an entry for the event and the target, then: an
  optional target that the node does without makes the send succeed and leaves every mailbox alone, only a metric
  counts it; a rejected entry makes it fail with the reason of the rejection and changes nothing; otherwise, and without
  an entry, the message goes to the target's mailbox. In every case the port counts exactly one attempt, and one success,
  skip or failure.
\<close>

theorem send_follows_plan:
  assumes "active_ready (sv_active_routes (services s))" and "ev_actor_id_is_valid a"
    and "ev_actor_send env (Some p) a (Some m) (Some s) = (rc, q, g)"
  shows "(case planned_route s (msg_event_id m) a of
       None \<Rightarrow> (rc, g) = ev_runtime_graph_send env (Some s) a (Some m)
     | Some entry \<Rightarrow>
         if ae_state entry = EV_ACTIVE_ROUTE_OPTIONAL_DISABLED
         then rc = EV_OK \<and> g = Some (count_metric EV_METRIC_ROUTE_DISABLED_SKIPPED s)
         else if ae_state entry = EV_ACTIVE_ROUTE_ENABLED then (rc, g) = ev_runtime_graph_send env (Some s) a (Some m)
         else rc = (if ae_reason entry \<noteq> EV_OK then ae_reason entry else EV_ERR_STATE) \<and> g = Some s)
    \<and> (\<exists>q'. q = Some q' \<and> pp_sends_attempted (pp_stats q') = pp_sends_attempted (pp_stats p) + 1
      \<and> pp_sends_ok (pp_stats q') + pp_optional_disabled_routes (pp_stats q') + pp_failed (pp_stats q')
        = pp_sends_ok (pp_stats p) + pp_optional_disabled_routes (pp_stats p) + pp_failed (pp_stats p) + 1)"
  using assms(2,3)
  by (auto simp: ev_actor_send_def find_route_planned [OF assms(1)] skip_disabled_target_def pstat_def Let_def
      split: option.splits if_splits prod.splits)

definition demo_port :: ev_actor_publish_port where
  "demo_port = \<lparr>pp_source_actor = ACT_APP, pp_stats = zero_port_stats\<rparr>"

theorem send_follows_plan_witness:
  "\<exists>q g. ev_actor_send demo_graph_env (Some demo_port) ACT_NETWORK (Some (demo_msg EV_TICK_1S)) (Some demo_graph)
      = (EV_OK, Some q, Some g)
    \<and> sy_mailbox g = sy_mailbox demo_graph \<and> pp_sends_attempted (pp_stats q) = 1"
proof -
  let ?T = "sv_active_routes (services demo_graph)"
  have "ev_active_route_table_finalize_spans (Some demo_graph_routes) = (EV_OK, Some ?T)" "active_wf demo_graph_routes"
    by code_simp+
  then have r: "active_ready ?T" by (simp add: finalize_ready)
  have v: "ev_actor_id_is_valid ACT_NETWORK" by code_simp
  obtain rc q g where s: "ev_actor_send demo_graph_env (Some demo_port) ACT_NETWORK (Some (demo_msg EV_TICK_1S)) (Some demo_graph)
      = (rc, q, g)" by (rule prod_cases3)
  have "map_option ae_state (planned_route demo_graph (msg_event_id (demo_msg EV_TICK_1S)) ACT_NETWORK)
      = Some EV_ACTIVE_ROUTE_OPTIONAL_DISABLED"
    by code_simp
  then show ?thesis
    using send_follows_plan [OF r v s] s
    by (auto simp: demo_port_def zero_port_stats_def)
qed

end
