(* ===== verification/EvCommandSecurity.thy ===== *)
theory EvCommandSecurity
  imports EvCatalog
begin

text \<open>
  The command security service (\<open>runtime/src/ev_command_security.c\<close>): the token of a command and the policy that
  allows it, with an audit record. A C string is the list of its characters before the terminator.
\<close>

section \<open>State and operations\<close>

record ev_command_auth_port =
  au_expected_token :: "string option"

record ev_command_authorizer =
  az_allowed_capabilities :: u32

record ev_command_policy =
  cp_required_capability :: u32
  cp_min_interval_ms :: u32
  cp_last_accepted_ms :: u32
  cp_replay_protection_enabled :: u8

record ev_command_audit_record =
  cr_accepted :: u32
  cr_rejected :: u32
  cr_auth_failed :: u32
  cr_authz_failed :: u32
  cr_rate_limited :: u32
  cr_replay_rejected :: u32

text \<open>The loop over two strings, to the end of one of them.\<close>

fun str_equal_loop :: "string \<Rightarrow> string \<Rightarrow> bool" where
  "str_equal_loop (a # as) (b # bs) = (if a \<noteq> b then False else str_equal_loop as bs)"
| "str_equal_loop as bs = (as = [] \<and> bs = [])"

definition ev_str_equal :: "string option \<Rightarrow> string option \<Rightarrow> bool" where
  "ev_str_equal a b = (if a = None \<or> b = None then False else str_equal_loop (the a) (the b))"

definition audit_auth_failed :: "ev_command_audit_record \<Rightarrow> ev_command_audit_record" where
  "audit_auth_failed r = r\<lparr>cr_auth_failed := cr_auth_failed r + 1, cr_rejected := cr_rejected r + 1\<rparr>"

definition ev_command_authenticate ::
    "ev_command_auth_port option \<Rightarrow> string option \<Rightarrow> ev_command_audit_record option
       \<Rightarrow> ev_result \<times> ev_command_audit_record option" where
  "ev_command_authenticate auth token audit =
     (if auth = None \<or> au_expected_token (the auth) = None \<or> token = None
      then (EV_ERR_AUTH, map_option audit_auth_failed audit)
      else if \<not> ev_str_equal (au_expected_token (the auth)) token then (EV_ERR_AUTH, map_option audit_auth_failed audit)
      else (EV_OK, audit))"

definition ev_command_authorize ::
    "ev_command_authorizer option \<Rightarrow> ev_command_policy option \<Rightarrow> u32 \<Rightarrow> ev_command_audit_record option
       \<Rightarrow> ev_result \<times> ev_command_audit_record option" where
  "ev_command_authorize authorizer policy now_ms audit =
     (case (authorizer, policy) of
        (Some a, Some p) \<Rightarrow>
          if az_allowed_capabilities a AND cp_required_capability p \<noteq> cp_required_capability p
          then (EV_ERR_AUTH, map_option (\<lambda>r. r\<lparr>cr_authz_failed := cr_authz_failed r + 1, cr_rejected := cr_rejected r + 1\<rparr>) audit)
          else if cp_min_interval_ms p \<noteq> 0 \<and> now_ms - cp_last_accepted_ms p < cp_min_interval_ms p
          then (EV_ERR_POLICY, map_option (\<lambda>r. r\<lparr>cr_rate_limited := cr_rate_limited r + 1, cr_rejected := cr_rejected r + 1\<rparr>) audit)
          else (EV_OK, map_option (\<lambda>r. r\<lparr>cr_accepted := cr_accepted r + 1\<rparr>) audit)
      | _ \<Rightarrow> (EV_ERR_INVALID_ARG, map_option (\<lambda>r. r\<lparr>cr_rejected := cr_rejected r + 1\<rparr>) audit))"

section \<open>What they decide\<close>

text \<open>The comparison stops early only for strings that differ, so it decides equality.\<close>

lemma str_equal_iff: "ev_str_equal (Some a) (Some b) \<longleftrightarrow> a = b"
  by (simp add: ev_str_equal_def) (induction a b rule: str_equal_loop.induct; auto)

lemma authenticate_iff:
  "fst (ev_command_authenticate auth token audit) = EV_OK
     \<longleftrightarrow> (\<exists>t. token = Some t \<and> map_option au_expected_token auth = Some (Some t))"
  by (auto simp: ev_command_authenticate_def str_equal_iff)

text \<open>All capabilities that a command requires must be allowed, and its interval must have passed.\<close>

lemma authorize_iff:
  "fst (ev_command_authorize (Some a) (Some p) now audit) = EV_OK
     \<longleftrightarrow> (\<forall>i. bit (cp_required_capability p) i \<longrightarrow> bit (az_allowed_capabilities a) i)
       \<and> (cp_min_interval_ms p = 0 \<or> cp_min_interval_ms p \<le> now - cp_last_accepted_ms p)"
proof -
  have "az_allowed_capabilities a AND cp_required_capability p = cp_required_capability p
      \<longleftrightarrow> (\<forall>i. bit (cp_required_capability p) i \<longrightarrow> bit (az_allowed_capabilities a) i)"
    by (metis bit_and_iff bit_word_eqI)
  then show ?thesis by (auto simp: ev_command_authorize_def)
qed

text \<open>
  A policy that was never used has accepted at time zero, so that a command is refused for its whole first interval
  after the start.
\<close>

lemma first_interval_refused:
  assumes "cp_last_accepted_ms p = 0" and "now < cp_min_interval_ms p"
  shows "fst (ev_command_authorize (Some a) (Some p) now audit) \<noteq> EV_OK"
  using assms by (auto simp: authorize_iff)

text \<open>Each decision is counted once, as accepted or as rejected.\<close>

lemma authorize_counts:
  "snd (ev_command_authorize az p now (Some r)) = Some r' \<Longrightarrow>
     cr_accepted r' + cr_rejected r' = cr_accepted r + cr_rejected r + 1
     \<and> (fst (ev_command_authorize az p now (Some r)) = EV_OK \<longleftrightarrow> cr_rejected r' = cr_rejected r)"
  by (auto simp: ev_command_authorize_def split: option.splits if_splits)

end
