(* ===== verification/EvBuilderConfig.thy ===== *)
theory EvBuilderConfig
  imports EvGraphBuild
begin

text \<open>
  What the configuration of a builder amounts to: the capabilities of the board and a finite map of the actors it
  admitted. The operations of \<open>runtime/src/ev_runtime_graph.c\<close> implement it, over their request flags and
  instance tables, and answer as it does.
\<close>

section \<open>Configuring\<close>

datatype 'u config_op =
    Set_ports "'u ev_runtime_ports"
  | Set_profile ev_runtime_board_profile
  | Add_instance "'u ev_actor_instance_descriptor"
  | Add_module ev_actor_id
  | Set_flags u32

fun config_step :: "'u config_op \<Rightarrow> 'u ev_runtime_builder \<Rightarrow> ev_result \<times> 'u ev_runtime_builder option" where
  "config_step (Set_ports p) b = ev_runtime_builder_set_ports (Some b) (Some p)"
| "config_step (Set_profile q) b = ev_runtime_builder_set_board_profile (Some b) (Some q)"
| "config_step (Add_instance i) b = ev_runtime_builder_add_instance (Some b) (Some i)"
| "config_step (Add_module a) b = ev_runtime_builder_add_module (Some b) a"
| "config_step (Set_flags f) b = ev_runtime_builder_set_route_validation_flags (Some b) f"

primrec config_run :: "'u config_op list \<Rightarrow> 'u ev_runtime_builder \<Rightarrow> ev_result list \<times> 'u ev_runtime_builder" where
  "config_run [] b = ([], b)"
| "config_run (c # cs) b =
     (let (rc, b) = config_step c b; (rcs, b) = config_run cs (the b) in (rc # rcs, b))"

section \<open>The specification\<close>

text \<open>Capabilities are sets of bits.\<close>

definition provides :: "ev_capability_mask \<Rightarrow> ev_capability_mask \<Rightarrow> bool" where
  "provides caps required \<longleftrightarrow> (\<forall>n \<in> set [0..<32]. bit required n \<longrightarrow> bit caps n)"

lemma and_eq_provides: "required AND caps = required \<longleftrightarrow> provides caps required"
proof
  assume "required AND caps = required"
  then have "bit required n \<longleftrightarrow> bit required n \<and> bit caps n" for n by (metis bit_and_iff)
  then show "provides caps required" unfolding provides_def by blast
next
  assume p: "provides caps required"
  show "required AND caps = required"
  proof (rule bit_word_eqI)
    fix n assume "n < LENGTH(32)"
    then show "bit (required AND caps) n \<longleftrightarrow> bit required n" using p by (auto simp: provides_def bit_and_iff)
  qed
qed

text \<open>An instance as it is stored: its defaults filled in.\<close>

definition or_else :: "'a option \<Rightarrow> 'a option \<Rightarrow> 'a option" where
  "or_else x y = (if x = None then y else x)"

definition completed :: "'u ev_actor_instance_descriptor \<Rightarrow> 'u ev_actor_instance_descriptor" where
  "completed i = i\<lparr>in_handler_fn := or_else (in_handler_fn i) (mod_handler_fn (the (in_module i))),
     in_quiescence_fn := or_else (in_quiescence_fn i) (Some default_quiescence_fn),
     in_stats_fn := or_else (in_stats_fn i) (Some EV_DEFAULT_MODULE_STATS),
     in_lifecycle_fn := or_else (in_lifecycle_fn i) (Some EV_DEFAULT_LIFECYCLE)\<rparr>"

type_synonym 'u config = "ev_capability_mask \<times> (nat \<rightharpoonup> 'u ev_actor_instance_descriptor)"

text \<open>An instance must be valid, and the board must have what it requires.\<close>

definition instance_verdict :: "ev_capability_mask \<Rightarrow> 'u ev_actor_instance_descriptor \<Rightarrow> ev_result" where
  "instance_verdict board i =
     (if ev_actor_instance_validate (Some i) \<noteq> EV_OK then ev_actor_instance_validate (Some i)
      else if provides board (in_required_capabilities i) then EV_OK else EV_ERR_NO_CAPABILITY)"

text \<open>An actor must have a module whose requirements the board and the runtime meet; nothing else is asked.\<close>

definition module_verdict :: "ev_capability_mask \<Rightarrow> ev_capability_mask \<Rightarrow> ev_actor_id \<Rightarrow> ev_result" where
  "module_verdict board runtime a =
     (if \<not> ev_actor_id_is_valid a then EV_ERR_OUT_OF_RANGE
      else case ev_actor_module_find a of None \<Rightarrow> EV_ERR_NOT_FOUND
        | Some d \<Rightarrow> if provides board (mod_required_board_capabilities d) \<and> provides runtime (mod_required_runtime_capabilities d)
            then EV_OK else EV_ERR_NO_CAPABILITY)"

fun admit :: "ev_capability_mask \<Rightarrow> 'u config_op \<Rightarrow> 'u config \<Rightarrow> ev_result \<times> 'u config" where
  "admit runtime (Set_profile q) (board, m) =
     (EV_OK, (if bp_configured_capabilities q = 0 then board else bp_configured_capabilities q), m)"
| "admit runtime (Add_instance i) (board, m) =
     (let rc = instance_verdict board i
      in (rc, board, if rc = EV_OK then m(nat (in_actor_id i) \<mapsto> completed i) else m))"
| "admit runtime (Add_module a) (board, m) =
     (let rc = module_verdict board runtime a
      in (rc, board, if rc = EV_OK then m(nat a \<mapsto> module_instance a (the (ev_actor_module_find a))) else m))"
| "admit runtime c (board, m) = (EV_OK, board, m)"

primrec admit_all :: "ev_capability_mask \<Rightarrow> 'u config_op list \<Rightarrow> 'u config \<Rightarrow> ev_result list \<times> 'u config" where
  "admit_all runtime [] f = ([], f)"
| "admit_all runtime (c # cs) f = (let (rc, f) = admit runtime c f; (rcs, f) = admit_all runtime cs f in (rc # rcs, f))"

section \<open>The refinement\<close>

definition builder_implements :: "ev_capability_mask \<Rightarrow> 'u ev_runtime_builder \<Rightarrow> 'u config \<Rightarrow> bool" where
  "builder_implements runtime b f \<longleftrightarrow> (\<exists>s. bd_graph b = Some s
     \<and> length (bd_requested b) = nat EV_ACTOR_COUNT \<and> length (sv_instances (services s)) = nat EV_ACTOR_COUNT
     \<and> length (sv_instance_bound (services s)) = nat EV_ACTOR_COUNT
     \<and> bd_board_caps b = fst f \<and> bd_runtime_caps b = runtime \<and> dom (snd f) \<subseteq> {..<nat EV_ACTOR_COUNT}
     \<and> (\<forall>k < nat EV_ACTOR_COUNT. (bd_requested b ! k \<noteq> 0 \<longleftrightarrow> k \<in> dom (snd f))
          \<and> (sv_instance_bound (services s) ! k \<noteq> 0 \<longleftrightarrow> k \<in> dom (snd f))
          \<and> (\<forall>i. snd f k = Some i \<longrightarrow> sv_instances (services s) ! k = i)))"

lemma module_instance_valid:
  assumes "ev_actor_id_is_valid a" and "ev_actor_module_find a = Some d"
  shows "ev_actor_instance_validate (Some (module_instance a d)) = EV_OK"
    and "completed (module_instance a d) = module_instance a d"
proof -
  have a: "int (nat a) = a" "nat a < nat EV_ACTOR_COUNT" using assms(1) by (auto simp: ev_actor_id_is_valid_iff)
  have "mod_handler_fn d \<noteq> None" using catalog_complete [OF a(2)] assms(2) unfolding a(1) by (metis option.inject)
  moreover have "mod_actor_id d = a" using assms(2) by (auto simp: module_find_eq find_Some_iff)
  ultimately  show "ev_actor_instance_validate (Some (module_instance a d)) = EV_OK"
    using assms by (auto simp: ev_actor_instance_validate_def module_instance_def)
  show "completed (module_instance a d) = module_instance a d"
    by (simp add: completed_def module_instance_def or_else_def)
qed

lemma module_instance_id [simp]: "in_actor_id (module_instance a d) = a"
  by (simp add: module_instance_def)

lemma add_instance_verdict:
  assumes R: "builder_implements runtime b (board, m)"
  shows "\<exists>b'. ev_runtime_builder_add_instance (Some b) (Some i) = (instance_verdict board i, Some b')
    \<and> builder_implements runtime b' (board, if instance_verdict board i = EV_OK then m(nat (in_actor_id i) \<mapsto> completed i) else m)"
proof -
  obtain s where s: "bd_graph b = Some s" using R by (auto simp: builder_implements_def)
  have caps: "bd_board_caps b = board" using R by (auto simp: builder_implements_def)
  show ?thesis
  proof (cases "instance_verdict board i = EV_OK")
    case True
    then have v: "ev_actor_instance_validate (Some i) = EV_OK" "provides board (in_required_capabilities i)"
      by (auto simp: instance_verdict_def split: if_splits)
    then have a: "nat (in_actor_id i) < nat EV_ACTOR_COUNT"
      by (auto simp: ev_actor_instance_validate_def ev_actor_id_is_valid_iff split: if_splits)
    have "ev_runtime_builder_add_instance (Some b) (Some i) =
      (EV_OK, Some (upd_builder_graph (upd_services (\<lambda>v. v\<lparr>sv_instances := (sv_instances v)[nat (in_actor_id i) := completed i],
          sv_instance_bound := (sv_instance_bound v)[nat (in_actor_id i) := 1]\<rparr>))
        (b\<lparr>bd_requested := (bd_requested b)[nat (in_actor_id i) := 1]\<rparr>)))"
      using v by (simp add: ev_runtime_builder_add_instance_def builder_ready_def s caps and_eq_provides Let_def completed_def or_else_def)
    then show ?thesis
      using R True a by (auto simp: builder_implements_def upd_builder_graph_def nth_list_update)
  next
    case False
    then obtain e where "ev_runtime_builder_add_instance (Some b) (Some i) = (instance_verdict board i, Some (b\<lparr>bd_last_error := e\<rparr>))"
      by (auto simp: ev_runtime_builder_add_instance_def builder_ready_def s caps and_eq_provides instance_verdict_def Let_def
          split: if_splits)
    then show ?thesis using R False by (simp add: builder_implements_def)
  qed
qed

lemma config_step_implements:
  fixes b :: "'u ev_runtime_builder"
  assumes R: "builder_implements runtime b (board, m)"
  shows "\<exists>b'. config_step c b = (fst (admit runtime c (board, m)), Some b') \<and> builder_implements runtime b' (snd (admit runtime c (board, m)))"
proof -
  obtain s where s: "bd_graph b = Some s" using R by (auto simp: builder_implements_def)
  have caps: "bd_board_caps b = board" "bd_runtime_caps b = runtime" using R by (auto simp: builder_implements_def)
  show ?thesis
  proof (cases c)
    case (Add_module a)
    show ?thesis
    proof (cases "module_verdict board runtime a = EV_OK")
      case True
      then obtain d where d: "ev_actor_id_is_valid a" "ev_actor_module_find a = Some d"
        "provides board (mod_required_board_capabilities d)" "provides runtime (mod_required_runtime_capabilities d)"
        by (auto simp: module_verdict_def split: if_splits option.splits)
      have "instance_verdict board (module_instance a d :: 'u ev_actor_instance_descriptor) = EV_OK"
        using module_instance_valid(1) [OF d(1,2)] d(3) by (simp add: instance_verdict_def module_instance_def)
      with add_instance_verdict [OF R, of "module_instance a d"] obtain b' where
        "ev_runtime_builder_add_instance (Some b) (Some (module_instance a d)) = (EV_OK, Some b')"
        "builder_implements runtime b' (board, m(nat a \<mapsto> module_instance a d))"
        by (auto simp: module_instance_valid(2) [OF d(1,2)])
      then show ?thesis using d True by (simp add: Add_module ev_runtime_builder_add_module_def caps and_eq_provides)
    next
      case False
      then have "ev_runtime_builder_add_module (Some b) a =
          (module_verdict board runtime a, Some (b\<lparr>bd_last_error := module_verdict board runtime a\<rparr>))"
        by (auto simp: ev_runtime_builder_add_module_def module_verdict_def caps and_eq_provides Let_def split: if_splits option.splits)
      then show ?thesis using R False by (simp add: Add_module builder_implements_def)
    qed
  next
    case (Add_instance i)
    then show ?thesis using add_instance_verdict [OF R, of i] by (simp add: Let_def)
  next
    case (Set_ports p)
    then show ?thesis using R by (auto simp: ev_runtime_builder_set_ports_def builder_ready_def upd_builder_graph_def builder_implements_def)
  next
    case (Set_profile q)
    then show ?thesis
      using R s by (auto simp: ev_runtime_builder_set_board_profile_def builder_ready_def upd_builder_graph_def builder_implements_def Let_def)
  next
    case (Set_flags f)
    then show ?thesis using R by (simp add: ev_runtime_builder_set_route_validation_flags_def builder_implements_def)
  qed
qed

lemma config_run_implements:
  "builder_implements runtime b f \<Longrightarrow>
   fst (config_run cs b) = fst (admit_all runtime cs f) \<and> builder_implements runtime (snd (config_run cs b)) (snd (admit_all runtime cs f))"
proof (induction cs arbitrary: b f)
  case (Cons c cs)
  obtain board m where f: "f = (board, m)" by fastforce
  from config_step_implements [OF Cons.prems [unfolded f], of c] obtain b' where
    "config_step c b = (fst (admit runtime c f), Some b')" "builder_implements runtime b' (snd (admit runtime c f))"
    unfolding f by blast
  then show ?case using Cons.IH [of b' "snd (admit runtime c f)"] by (auto simp: Let_def split: prod.splits)
qed simp

lemma zero_graph_instances:
  "sv_instances (services (zero_graph s)) = replicate (nat EV_ACTOR_COUNT) zero_instance"
  "sv_instance_bound (services (zero_graph s)) = replicate (nat EV_ACTOR_COUNT) 0"
  by (simp_all add: zero_graph_def zero_scheduler_def zero_services_def services_def del: services_upd)

lemma init_implements:
  assumes "ev_runtime_builder_init (Some b0) (Some s) board runtime = (EV_OK, Some b)"
  shows "builder_implements runtime b (board, Map.empty)"
  using assms
  by (auto simp: ev_runtime_builder_init_def ev_runtime_graph_init_def Let_def builder_implements_def ev_actor_registry_init_def
      zero_graph_instances services_registry)

text \<open>
  C13: A builder requests exactly the actors it admitted. Over any operations after its initialisation, each answers as
  the specification does: an instance is refused for its own flaw, or for a capability that the board does not have; a
  module for its actor's id, for want of a module, or for a capability that the board or the runtime does not have (the
  modules' instances are all valid). The board's capabilities are those of the initialisation, or of the last profile
  that set any, and they count when the actor is added. What was refused leaves no trace; an admitted actor's request
  flag and instance slot are set, and the slot holds the instance admitted last, with its defaults filled in.
\<close>

theorem builder_requests_admitted:
  assumes "ev_runtime_builder_init (Some b0) (Some s) board runtime = (EV_OK, Some b)"
    and "config_run cs b = (rcs, b')" and "admit_all runtime cs (board, Map.empty) = (rcs', board', m)"
  shows "rcs = rcs' \<and> bd_board_caps b' = board' \<and> dom m \<subseteq> {..<nat EV_ACTOR_COUNT}
     \<and> (\<exists>s'. bd_graph b' = Some s' \<and> (\<forall>k < nat EV_ACTOR_COUNT. (bd_requested b' ! k \<noteq> 0 \<longleftrightarrow> k \<in> dom m)
          \<and> (sv_instance_bound (services s') ! k \<noteq> 0 \<longleftrightarrow> k \<in> dom m)
          \<and> (\<forall>i. m k = Some i \<longrightarrow> sv_instances (services s') ! k = i)))"
  using config_run_implements [OF init_implements [OF assms(1)], of cs] assms(2,3)
  by (auto simp: builder_implements_def)

section \<open>A configuration\<close>

text \<open>
  On a board with metrics and timers the watchdog is refused until a profile brings its capability, the diagnostics
  after the profile took the metrics away.
\<close>

definition demo_config :: "unit config_op list" where
  "demo_config = [Add_module ACT_WATCHDOG, Set_profile (zero_profile\<lparr>bp_configured_capabilities := EV_CAP_WDT\<rparr>),
     Add_module ACT_WATCHDOG, Add_module ACT_DIAG, Add_module 99, Add_module ACT_RUNTIME]"

theorem builder_requests_admitted_witness:
  "\<exists>b'. config_run demo_config demo_builder_0
      = ([EV_ERR_NO_CAPABILITY, EV_OK, EV_OK, EV_ERR_NO_CAPABILITY, EV_ERR_OUT_OF_RANGE, EV_OK], b')
    \<and> bd_board_caps b' = EV_CAP_WDT \<and> (\<forall>k < 18. bd_requested b' ! k \<noteq> 0 \<longleftrightarrow> k = 1 \<or> k = 13)"
proof -
  let ?f = "admit_all demo_capabilities demo_config (demo_capabilities, Map.empty)"
  obtain rcs b' where run: "config_run demo_config demo_builder_0 = (rcs, b')" by fastforce
  obtain rcs' board' m where spec: "?f = (rcs', board', m)" by (metis prod_cases3)
  have init: "ev_runtime_builder_init (Some \<lparr>bd_graph = None, bd_board_caps = 0, bd_runtime_caps = 0,
     bd_requested = [], bd_last_error = EV_OK, bd_configured_ports = zero_ports, bd_configured_board_profile = zero_profile,
     bd_configured_ports_set = 0, bd_configured_board_profile_set = 0, bd_route_validation_flags = 0\<rparr>)
     (Some demo_poll_graph) demo_capabilities demo_capabilities = (EV_OK, Some demo_builder_0)"
    by (auto simp: demo_builder_0_def ev_runtime_builder_init_def ev_runtime_graph_init_def Let_def split: prod.split)
  have "fst ?f = [EV_ERR_NO_CAPABILITY, EV_OK, EV_OK, EV_ERR_NO_CAPABILITY, EV_ERR_OUT_OF_RANGE, EV_OK]"
    and "fst (snd ?f) = EV_CAP_WDT" and "list_all (\<lambda>k. (snd (snd ?f) k \<noteq> None) = (k = 1 \<or> k = 13)) [0..<18]"
    by code_simp+
  then show ?thesis
    using builder_requests_admitted [OF init run spec] run unfolding spec by (auto simp: list_all_iff)
qed

end
