(* ===== verification/EvOledActor.thy ===== *)
theory EvOledActor
  imports EvDeviceIo
begin

text \<open>
  The display actor (\<open>actors/device/ev_oled_actor.c\<close>) keeps the frame the panel shows and a staging frame, marks
  the columns of each page that may differ and writes those to the panel, over 32-byte bus transactions; after a
  failure it initialises the panel again some ticks later. Pages and columns are \<open>uint8_t\<close> in the code; here they are
  natural numbers, and the one cast that can wrap is written out.
\<close>

section \<open>Constants\<close>

abbreviation EV_OLED_WIDTH :: nat where "EV_OLED_WIDTH \<equiv> 72"
abbreviation EV_OLED_PAGE_COUNT :: nat where "EV_OLED_PAGE_COUNT \<equiv> 5"
abbreviation EV_OLED_TEXT_CHARS :: nat where "EV_OLED_TEXT_CHARS \<equiv> 22"
abbreviation EV_OLED_RETRY_DELAY_TICKS :: u32 where "EV_OLED_RETRY_DELAY_TICKS \<equiv> 5"
abbreviation EV_OLED_SCENE_LINE_COUNT :: nat where "EV_OLED_SCENE_LINE_COUNT \<equiv> 3"
abbreviation EV_OLED_SCENE_FLAG_VISIBLE :: u8 where "EV_OLED_SCENE_FLAG_VISIBLE \<equiv> 1"
abbreviation EV_OLED_CONTROL_CMD :: u8 where "EV_OLED_CONTROL_CMD \<equiv> 0x00"
abbreviation EV_OLED_CONTROL_DATA :: u8 where "EV_OLED_CONTROL_DATA \<equiv> 0x40"
abbreviation EV_OLED_GLYPH_WIDTH :: nat where "EV_OLED_GLYPH_WIDTH \<equiv> 5"
abbreviation EV_OLED_CELL_ADVANCE :: nat where "EV_OLED_CELL_ADVANCE \<equiv> 6"
abbreviation EV_OLED_DATA_CHUNK_BYTES :: nat where "EV_OLED_DATA_CHUNK_BYTES \<equiv> 32"
abbreviation EV_OLED_SH1106_COLUMN_OFFSET :: nat where "EV_OLED_SH1106_COLUMN_OFFSET \<equiv> 2"
abbreviation EV_OLED_SSD1306_72X40_COLUMN_OFFSET :: nat where "EV_OLED_SSD1306_72X40_COLUMN_OFFSET \<equiv> 28"

definition k_ev_oled_font_5x7 :: "u8 list list" where
  "k_ev_oled_font_5x7 = [
    [0x00, 0x00, 0x00, 0x00, 0x00], [0x00, 0x00, 0x5F, 0x00, 0x00], [0x00, 0x07, 0x00, 0x07, 0x00],
    [0x14, 0x7F, 0x14, 0x7F, 0x14], [0x24, 0x2A, 0x7F, 0x2A, 0x12], [0x23, 0x13, 0x08, 0x64, 0x62],
    [0x36, 0x49, 0x55, 0x22, 0x50], [0x00, 0x05, 0x03, 0x00, 0x00], [0x00, 0x1C, 0x22, 0x41, 0x00],
    [0x00, 0x41, 0x22, 0x1C, 0x00], [0x14, 0x08, 0x3E, 0x08, 0x14], [0x08, 0x08, 0x3E, 0x08, 0x08],
    [0x00, 0x50, 0x30, 0x00, 0x00], [0x08, 0x08, 0x08, 0x08, 0x08], [0x00, 0x60, 0x60, 0x00, 0x00],
    [0x20, 0x10, 0x08, 0x04, 0x02], [0x3E, 0x51, 0x49, 0x45, 0x3E], [0x00, 0x42, 0x7F, 0x40, 0x00],
    [0x42, 0x61, 0x51, 0x49, 0x46], [0x21, 0x41, 0x45, 0x4B, 0x31], [0x18, 0x14, 0x12, 0x7F, 0x10],
    [0x27, 0x45, 0x45, 0x45, 0x39], [0x3C, 0x4A, 0x49, 0x49, 0x30], [0x01, 0x71, 0x09, 0x05, 0x03],
    [0x36, 0x49, 0x49, 0x49, 0x36], [0x06, 0x49, 0x49, 0x29, 0x1E], [0x00, 0x36, 0x36, 0x00, 0x00],
    [0x00, 0x56, 0x36, 0x00, 0x00], [0x08, 0x14, 0x22, 0x41, 0x00], [0x14, 0x14, 0x14, 0x14, 0x14],
    [0x00, 0x41, 0x22, 0x14, 0x08], [0x02, 0x01, 0x51, 0x09, 0x06], [0x32, 0x49, 0x79, 0x41, 0x3E],
    [0x7E, 0x11, 0x11, 0x11, 0x7E], [0x7F, 0x49, 0x49, 0x49, 0x36], [0x3E, 0x41, 0x41, 0x41, 0x22],
    [0x7F, 0x41, 0x41, 0x22, 0x1C], [0x7F, 0x49, 0x49, 0x49, 0x41], [0x7F, 0x09, 0x09, 0x09, 0x01],
    [0x3E, 0x41, 0x49, 0x49, 0x7A], [0x7F, 0x08, 0x08, 0x08, 0x7F], [0x00, 0x41, 0x7F, 0x41, 0x00],
    [0x20, 0x40, 0x41, 0x3F, 0x01], [0x7F, 0x08, 0x14, 0x22, 0x41], [0x7F, 0x40, 0x40, 0x40, 0x40],
    [0x7F, 0x02, 0x0C, 0x02, 0x7F], [0x7F, 0x04, 0x08, 0x10, 0x7F], [0x3E, 0x41, 0x41, 0x41, 0x3E],
    [0x7F, 0x09, 0x09, 0x09, 0x06], [0x3E, 0x41, 0x51, 0x21, 0x5E], [0x7F, 0x09, 0x19, 0x29, 0x46],
    [0x46, 0x49, 0x49, 0x49, 0x31], [0x01, 0x01, 0x7F, 0x01, 0x01], [0x3F, 0x40, 0x40, 0x40, 0x3F],
    [0x1F, 0x20, 0x40, 0x20, 0x1F], [0x3F, 0x40, 0x38, 0x40, 0x3F], [0x63, 0x14, 0x08, 0x14, 0x63],
    [0x07, 0x08, 0x70, 0x08, 0x07], [0x61, 0x51, 0x49, 0x45, 0x43], [0x00, 0x7F, 0x41, 0x41, 0x00],
    [0x02, 0x04, 0x08, 0x10, 0x20], [0x00, 0x41, 0x41, 0x7F, 0x00], [0x04, 0x02, 0x01, 0x02, 0x04],
    [0x40, 0x40, 0x40, 0x40, 0x40], [0x00, 0x01, 0x02, 0x04, 0x00], [0x20, 0x54, 0x54, 0x54, 0x78],
    [0x7F, 0x48, 0x44, 0x44, 0x38], [0x38, 0x44, 0x44, 0x44, 0x20], [0x38, 0x44, 0x44, 0x48, 0x7F],
    [0x38, 0x54, 0x54, 0x54, 0x18], [0x08, 0x7E, 0x09, 0x01, 0x02], [0x08, 0x14, 0x54, 0x54, 0x3C],
    [0x7F, 0x08, 0x04, 0x04, 0x78], [0x00, 0x44, 0x7D, 0x40, 0x00], [0x20, 0x40, 0x44, 0x3D, 0x00],
    [0x7F, 0x10, 0x28, 0x44, 0x00], [0x00, 0x41, 0x7F, 0x40, 0x00], [0x7C, 0x04, 0x18, 0x04, 0x78],
    [0x7C, 0x08, 0x04, 0x04, 0x78], [0x38, 0x44, 0x44, 0x44, 0x38], [0x7C, 0x14, 0x14, 0x14, 0x08],
    [0x08, 0x14, 0x14, 0x18, 0x7C], [0x7C, 0x08, 0x04, 0x04, 0x08], [0x48, 0x54, 0x54, 0x54, 0x20],
    [0x04, 0x3F, 0x44, 0x40, 0x20], [0x3C, 0x40, 0x40, 0x20, 0x7C], [0x1C, 0x20, 0x40, 0x20, 0x1C],
    [0x3C, 0x40, 0x30, 0x40, 0x3C], [0x44, 0x28, 0x10, 0x28, 0x44], [0x0C, 0x50, 0x50, 0x50, 0x3C],
    [0x44, 0x64, 0x54, 0x4C, 0x44], [0x00, 0x08, 0x36, 0x41, 0x00], [0x00, 0x00, 0x7F, 0x00, 0x00],
    [0x00, 0x41, 0x36, 0x08, 0x00], [0x08, 0x04, 0x08, 0x10, 0x08]]"

definition k_ev_oled_ssd1306_init :: "u8 list" where
  "k_ev_oled_ssd1306_init = [
    0xAE, 0xD5, 0x80, 0xA8, 0x27, 0xD3, 0x00, 0xAD,
    0x30, 0x8D, 0x14, 0x40, 0xA6, 0xA4, 0x20, 0x00,
    0xA1, 0xC8, 0xDA, 0x12, 0x81, 0xAF, 0xD9, 0x22,
    0xDB, 0x20, 0x2E, 0xAF]"

definition k_ev_oled_sh1106_init :: "u8 list" where
  "k_ev_oled_sh1106_init = [
    0xAE, 0xA6, 0xD5, 0x80, 0xA8, 0x3F, 0xDA, 0x12,
    0xD3, 0x00, 0x40, 0x8D, 0x14, 0x20, 0x00, 0xA1,
    0xC8, 0x81, 0x7F, 0xD9, 0x22, 0xDB, 0x40, 0xA4,
    0xAF]"

section \<open>State\<close>

datatype ev_oled_controller = EV_OLED_CONTROLLER_SSD1306 | EV_OLED_CONTROLLER_SH1106

datatype ev_oled_actor_state = EV_OLED_STATE_UNINITIALIZED | EV_OLED_STATE_WAIT_BOOT | EV_OLED_STATE_READY | EV_OLED_STATE_ERROR

record ev_oled_actor_stats =
  os_boot_events_seen :: u32
  os_tick_events_seen :: u32
  os_display_commands_seen :: u32
  os_init_attempts :: u32
  os_init_successes :: u32
  os_init_failures :: u32
  os_flush_attempts :: u32
  os_flush_successes :: u32
  os_flush_failures :: u32
  os_retries_scheduled :: u32
  os_last_i2c_status :: ev_i2c_status

text \<open>A frame is a list of pages, each a list of the bytes of its columns.\<close>

type_synonym frame = "u8 list list"

record 'w ev_oled_actor_ctx =
  ol_i2c_port :: "'w ev_i2c_port option"
  ol_deliver :: "'w ev_delivery_fn option"
  ol_deliver_context :: ptr
  ol_port_num :: ev_i2c_port_num
  ol_device_address_7bit :: u8
  ol_controller :: ev_oled_controller
  ol_state :: ev_oled_actor_state
  ol_last_i2c_status :: ev_i2c_status
  ol_tick_counter :: u32
  ol_retry_due_tick :: u32
  ol_retry_delay_ticks :: u32
  ol_boot_observed :: bool
  ol_pending_flush :: bool
  ol_dirty_page_mask :: u8
  ol_dirty_column_start :: "nat list"
  ol_dirty_column_end :: "nat list"
  ol_framebuffer :: frame
  ol_staging_framebuffer :: frame
  ol_stats :: ev_oled_actor_stats

record ev_oled_display_text_cmd =
  dt_page :: nat
  dt_column :: nat
  dt_text :: "u8 list"

record ev_oled_scene =
  sn_page_offset :: u8
  sn_column_offset :: u8
  sn_flags :: u8
  sn_lines :: "u8 list list"

definition ostat :: "(ev_oled_actor_stats \<Rightarrow> ev_oled_actor_stats) \<Rightarrow> 'w ev_oled_actor_ctx \<Rightarrow> 'w ev_oled_actor_ctx" where
  "ostat f ctx = ctx\<lparr>ol_stats := f (ol_stats ctx)\<rparr>"

section \<open>The bus\<close>

definition ev_oled_actor_publish_ready :: "'w ev_lifecycle \<Rightarrow> 'w ev_oled_actor_ctx \<Rightarrow> 'w \<Rightarrow> ev_result \<times> 'w" where
  "ev_oled_actor_publish_ready lc ctx w =
     (if ol_deliver ctx = None \<or> ol_deliver_context ctx = None then (EV_ERR_INVALID_ARG, w)
      else publish_built lc (ol_deliver ctx) (build_empty EV_OLED_READY ACT_OLED w))"

definition ev_oled_actor_write_stream :: "u8 list \<Rightarrow> 'w ev_oled_actor_ctx \<Rightarrow> 'w \<Rightarrow> ev_i2c_status \<times> 'w" where
  "ev_oled_actor_write_stream data ctx w =
     (case ol_i2c_port ctx of None \<Rightarrow> (EV_I2C_ERR_BUS_LOCKED, w)
      | Some port \<Rightarrow> (case i2_write_stream port of None \<Rightarrow> (EV_I2C_ERR_BUS_LOCKED, w)
          | Some write_stream \<Rightarrow> write_stream (ol_port_num ctx) (ol_device_address_7bit ctx) data w))"

text \<open>The loop of both sends: the control byte and up to 32 bytes per transaction.\<close>

function send_chunks :: "u8 \<Rightarrow> u8 list \<Rightarrow> 'w ev_oled_actor_ctx \<Rightarrow> 'w \<Rightarrow> ev_result \<times> 'w ev_oled_actor_ctx \<times> 'w" where
  "send_chunks control bytes ctx w =
     (if bytes = [] then (EV_OK, ctx, w)
      else
        let (status, w) = ev_oled_actor_write_stream (control # take EV_OLED_DATA_CHUNK_BYTES bytes) ctx w;
            ctx = ostat (\<lambda>s. s\<lparr>os_last_i2c_status := status\<rparr>) (ctx\<lparr>ol_last_i2c_status := status\<rparr>)
        in if status \<noteq> EV_I2C_OK then (EV_ERR_STATE, ctx, w)
           else send_chunks control (drop EV_OLED_DATA_CHUNK_BYTES bytes) ctx w)"
  by pat_completeness auto
termination
  by (relation "measure (\<lambda>(control, bytes, ctx, w). length bytes)") auto

declare send_chunks.simps [simp del]

definition ev_oled_actor_send_commands :: "u8 list \<Rightarrow> 'w ev_oled_actor_ctx \<Rightarrow> 'w \<Rightarrow> ev_result \<times> 'w ev_oled_actor_ctx \<times> 'w" where
  "ev_oled_actor_send_commands commands ctx w = send_chunks EV_OLED_CONTROL_CMD commands ctx w"

definition ev_oled_actor_send_data :: "u8 list \<Rightarrow> 'w ev_oled_actor_ctx \<Rightarrow> 'w \<Rightarrow> ev_result \<times> 'w ev_oled_actor_ctx \<times> 'w" where
  "ev_oled_actor_send_data data ctx w = send_chunks EV_OLED_CONTROL_DATA data ctx w"

definition ev_oled_actor_reset_dirty :: "'w ev_oled_actor_ctx \<Rightarrow> 'w ev_oled_actor_ctx" where
  "ev_oled_actor_reset_dirty ctx =
     ctx\<lparr>ol_pending_flush := False, ol_dirty_page_mask := 0,
         ol_dirty_column_start := replicate EV_OLED_PAGE_COUNT EV_OLED_WIDTH,
         ol_dirty_column_end := replicate EV_OLED_PAGE_COUNT 0\<rparr>"

definition ev_oled_actor_mark_dirty :: "nat \<Rightarrow> nat \<Rightarrow> nat \<Rightarrow> 'w ev_oled_actor_ctx \<Rightarrow> 'w ev_oled_actor_ctx" where
  "ev_oled_actor_mark_dirty page start_column end_column ctx =
     (if EV_OLED_PAGE_COUNT \<le> page \<or> end_column \<le> start_column \<or> EV_OLED_WIDTH < end_column then ctx
      else
        ctx\<lparr>ol_pending_flush := True, ol_dirty_page_mask := ol_dirty_page_mask ctx OR push_bit page 1,
            ol_dirty_column_start := (if start_column < ol_dirty_column_start ctx ! page
              then (ol_dirty_column_start ctx)[page := start_column] else ol_dirty_column_start ctx),
            ol_dirty_column_end := (if ol_dirty_column_end ctx ! page < end_column
              then (ol_dirty_column_end ctx)[page := end_column] else ol_dirty_column_end ctx)\<rparr>)"

definition ev_oled_actor_schedule_retry :: "'w ev_oled_actor_ctx \<Rightarrow> 'w ev_oled_actor_ctx" where
  "ev_oled_actor_schedule_retry ctx =
     ostat (\<lambda>s. s\<lparr>os_retries_scheduled := os_retries_scheduled s + 1\<rparr>)
       (ctx\<lparr>ol_state := EV_OLED_STATE_ERROR, ol_retry_due_tick := ol_tick_counter ctx + ol_retry_delay_ticks ctx\<rparr>)"

text \<open>The columns of a page on an SH1106, from \<open>current\<close> on: an address and up to 32 bytes at a time.\<close>

function sh1106_loop ::
    "nat \<Rightarrow> nat \<Rightarrow> nat \<Rightarrow> u8 list \<Rightarrow> 'w ev_oled_actor_ctx \<Rightarrow> 'w \<Rightarrow> ev_result \<times> 'w ev_oled_actor_ctx \<times> 'w" where
  "sh1106_loop page current end_column page_data ctx w =
     (if end_column \<le> current then (EV_OK, ctx, w)
      else
        let physical_column = of_nat (current + EV_OLED_SH1106_COLUMN_OFFSET) :: u8;
            (rc, ctx, w) = ev_oled_actor_send_commands
              [0xB0 OR of_nat page, physical_column AND 0x0F, 0x10 OR (drop_bit 4 physical_column AND 0x0F)] ctx w
        in if rc \<noteq> EV_OK then (rc, ctx, w)
           else
             let chunk = min (end_column - current) EV_OLED_DATA_CHUNK_BYTES;
                 (rc, ctx, w) = ev_oled_actor_send_data (take chunk (drop current page_data)) ctx w
             in if rc \<noteq> EV_OK then (rc, ctx, w) else sh1106_loop page (current + chunk) end_column page_data ctx w)"
  by pat_completeness auto
termination
  by (relation "measure (\<lambda>(page, current, end_column, page_data, ctx, w). end_column - current)") auto

declare sh1106_loop.simps [simp del]

definition ev_oled_actor_apply_address_window ::
    "nat \<Rightarrow> nat \<Rightarrow> nat \<Rightarrow> u8 list \<Rightarrow> 'w ev_oled_actor_ctx \<Rightarrow> 'w \<Rightarrow> ev_result \<times> 'w ev_oled_actor_ctx \<times> 'w" where
  "ev_oled_actor_apply_address_window page start_column end_column page_data ctx w =
     (if EV_OLED_PAGE_COUNT \<le> page \<or> end_column \<le> start_column \<or> EV_OLED_WIDTH < end_column
      then (EV_ERR_INVALID_ARG, ctx, w)
      else if ol_controller ctx = EV_OLED_CONTROLLER_SH1106
      then sh1106_loop page start_column end_column page_data ctx w
      else
        let (rc, ctx, w) = ev_oled_actor_send_commands
              [0x21, of_nat (start_column + EV_OLED_SSD1306_72X40_COLUMN_OFFSET),
               of_nat (end_column - 1 + EV_OLED_SSD1306_72X40_COLUMN_OFFSET), 0x22, of_nat page, of_nat page] ctx w
        in if rc \<noteq> EV_OK then (rc, ctx, w)
           else ev_oled_actor_send_data (take (end_column - start_column) (drop start_column page_data)) ctx w)"

text \<open>The loop over the pages, up to the first that fails.\<close>

primrec sync_pages :: "nat list \<Rightarrow> 'w ev_oled_actor_ctx \<Rightarrow> 'w \<Rightarrow> ev_result \<times> 'w ev_oled_actor_ctx \<times> 'w" where
  "sync_pages [] ctx w = (EV_OK, ctx, w)"
| "sync_pages (page # pages) ctx w =
     (let (rc, ctx, w) = ev_oled_actor_apply_address_window page 0 EV_OLED_WIDTH (ol_framebuffer ctx ! page) ctx w
      in if rc \<noteq> EV_OK then (rc, ctx, w) else sync_pages pages ctx w)"

definition ev_oled_actor_sync_full_framebuffer :: "'w ev_oled_actor_ctx \<Rightarrow> 'w \<Rightarrow> ev_result \<times> 'w ev_oled_actor_ctx \<times> 'w" where
  "ev_oled_actor_sync_full_framebuffer ctx w =
     (let baseline_attempts = os_flush_attempts (ol_stats ctx);
          baseline_successes = os_flush_successes (ol_stats ctx);
          ctx = ostat (\<lambda>s. s\<lparr>os_flush_attempts := os_flush_attempts s + 1\<rparr>) ctx;
          (rc, ctx, w) = sync_pages [0..<EV_OLED_PAGE_COUNT] ctx w
      in if rc \<noteq> EV_OK
         then (EV_OK, ev_oled_actor_schedule_retry (ostat (\<lambda>s. s\<lparr>os_flush_attempts := baseline_attempts + 1,
                 os_flush_successes := baseline_successes, os_flush_failures := os_flush_failures s + 1\<rparr>) ctx), w)
         else (EV_OK, ostat (\<lambda>s. s\<lparr>os_flush_attempts := baseline_attempts + 1,
                 os_flush_successes := baseline_successes + 1\<rparr>) ctx, w))"

section \<open>Drawing\<close>

definition ev_oled_actor_glyph_for_char :: "u8 \<Rightarrow> u8 list" where
  "ev_oled_actor_glyph_for_char c =
     (let index = (if unat c < 32 \<or> 126 < unat c then 63 else unat c) in k_ev_oled_font_5x7 ! (index - 32))"

definition ev_oled_actor_bounded_strlen :: "u8 list \<Rightarrow> nat \<Rightarrow> nat" where
  "ev_oled_actor_bounded_strlen text max_len = length (takeWhile (\<lambda>c. c \<noteq> 0) (take max_len text))"

text \<open>The columns of a glyph, up to the edge of the panel, and the characters of a text.\<close>

primrec draw_columns :: "u8 list \<Rightarrow> nat \<Rightarrow> u8 list \<Rightarrow> u8 list" where
  "draw_columns [] target row = row"
| "draw_columns (g # gs) target row = (if EV_OLED_WIDTH \<le> target then row else draw_columns gs (target + 1) (row[target := g]))"

primrec draw_text :: "u8 list \<Rightarrow> nat \<Rightarrow> u8 list \<Rightarrow> u8 list" where
  "draw_text [] dst row = row"
| "draw_text (c # cs) dst row =
     (if EV_OLED_WIDTH \<le> dst then row
      else draw_text cs (dst + EV_OLED_CELL_ADVANCE)
        (draw_columns (take EV_OLED_GLYPH_WIDTH (ev_oled_actor_glyph_for_char c)) dst row))"

definition ev_oled_actor_render_text_into :: "frame \<Rightarrow> ev_oled_display_text_cmd \<Rightarrow> ev_result \<times> frame" where
  "ev_oled_actor_render_text_into framebuffer cmd =
     (if EV_OLED_PAGE_COUNT \<le> dt_page cmd \<or> EV_OLED_WIDTH \<le> dt_column cmd then (EV_ERR_OUT_OF_RANGE, framebuffer)
      else
        let page = dt_page cmd; column = dt_column cmd;
            row = take column (framebuffer ! page) @ replicate (EV_OLED_WIDTH - column) 0;
            text_len = ev_oled_actor_bounded_strlen (dt_text cmd) EV_OLED_TEXT_CHARS
        in (EV_OK, framebuffer[page := draw_text (take text_len (dt_text cmd)) column row]))"

definition terminated :: "u8 list \<Rightarrow> u8 list" where
  "terminated text = text[EV_OLED_TEXT_CHARS - 1 := 0]"

definition blank_frame :: frame where
  "blank_frame = replicate EV_OLED_PAGE_COUNT (replicate EV_OLED_WIDTH 0)"

text \<open>The lines of a scene that are on a page of the panel.\<close>

primrec draw_lines :: "nat list \<Rightarrow> ev_oled_scene \<Rightarrow> frame \<Rightarrow> ev_result \<times> frame" where
  "draw_lines [] scene framebuffer = (EV_OK, framebuffer)"
| "draw_lines (line # lines) scene framebuffer =
     (let page = (unat (sn_page_offset scene) + line) mod 256
      in if EV_OLED_PAGE_COUNT \<le> page then draw_lines lines scene framebuffer
         else
           let (rc, framebuffer) = ev_oled_actor_render_text_into framebuffer
                 \<lparr>dt_page = page, dt_column = unat (sn_column_offset scene), dt_text = terminated (sn_lines scene ! line)\<rparr>
           in if rc \<noteq> EV_OK then (rc, framebuffer) else draw_lines lines scene framebuffer)"

text \<open>Marking the columns that differ.\<close>

definition mark_difference :: "nat \<times> nat \<Rightarrow> 'w ev_oled_actor_ctx \<Rightarrow> 'w ev_oled_actor_ctx" where
  "mark_difference pc ctx =
     (let (page, column) = pc
      in if ol_staging_framebuffer ctx ! page ! column \<noteq> ol_framebuffer ctx ! page ! column
         then ev_oled_actor_mark_dirty page column (column + 1) ctx else ctx)"

definition ev_oled_actor_prepare_scene_commit :: "ev_oled_scene \<Rightarrow> 'w ev_oled_actor_ctx \<Rightarrow> ev_result \<times> 'w ev_oled_actor_ctx" where
  "ev_oled_actor_prepare_scene_commit scene ctx =
     (if EV_OLED_WIDTH \<le> unat (sn_column_offset scene) then (EV_ERR_OUT_OF_RANGE, ctx)
      else
        let (rc, staging) =
              (if sn_flags scene AND EV_OLED_SCENE_FLAG_VISIBLE \<noteq> 0
               then draw_lines [0..<EV_OLED_SCENE_LINE_COUNT] scene blank_frame else (EV_OK, blank_frame));
            ctx = ctx\<lparr>ol_staging_framebuffer := staging\<rparr>
        in if rc \<noteq> EV_OK then (rc, ctx)
           else (EV_OK, fold mark_difference (List.product [0..<EV_OLED_PAGE_COUNT] [0..<EV_OLED_WIDTH])
                  (ev_oled_actor_reset_dirty ctx)))"

section \<open>Flushing and handling\<close>

primrec flush_pages :: "nat list \<Rightarrow> 'w ev_oled_actor_ctx \<Rightarrow> 'w \<Rightarrow> ev_result \<times> 'w ev_oled_actor_ctx \<times> 'w" where
  "flush_pages [] ctx w = (EV_OK, ctx, w)"
| "flush_pages (page # pages) ctx w =
     (if ol_dirty_page_mask ctx AND push_bit page 1 = 0 then flush_pages pages ctx w
      else
        let start_column = ol_dirty_column_start ctx ! page; end_column = ol_dirty_column_end ctx ! page
        in if end_column \<le> start_column \<or> EV_OLED_WIDTH < end_column then flush_pages pages ctx w
           else
             let (rc, ctx, w) = ev_oled_actor_apply_address_window page start_column end_column
                   (ol_staging_framebuffer ctx ! page) ctx w
             in if rc \<noteq> EV_OK then (rc, ctx, w) else flush_pages pages ctx w)"

definition ev_oled_actor_flush_pending :: "'w ev_oled_actor_ctx \<Rightarrow> 'w \<Rightarrow> ev_result \<times> 'w ev_oled_actor_ctx \<times> 'w" where
  "ev_oled_actor_flush_pending ctx w =
     (if \<not> ol_pending_flush ctx then (EV_OK, ctx, w)
      else
        let ctx = ostat (\<lambda>s. s\<lparr>os_flush_attempts := os_flush_attempts s + 1\<rparr>) ctx;
            (rc, ctx, w) = flush_pages [0..<EV_OLED_PAGE_COUNT] ctx w
        in if rc \<noteq> EV_OK
           then (EV_OK, ev_oled_actor_schedule_retry
                  (ostat (\<lambda>s. s\<lparr>os_flush_failures := os_flush_failures s + 1\<rparr>) ctx), w)
           else (EV_OK, ostat (\<lambda>s. s\<lparr>os_flush_successes := os_flush_successes s + 1\<rparr>)
                  (ev_oled_actor_reset_dirty (ctx\<lparr>ol_framebuffer := ol_staging_framebuffer ctx\<rparr>)), w))"

definition ev_oled_actor_try_initialize ::
    "'w ev_lifecycle \<Rightarrow> 'w ev_oled_actor_ctx \<Rightarrow> 'w \<Rightarrow> ev_result \<times> 'w ev_oled_actor_ctx \<times> 'w" where
  "ev_oled_actor_try_initialize lc ctx w =
     (let ctx = ostat (\<lambda>s. s\<lparr>os_init_attempts := os_init_attempts s + 1\<rparr>) ctx;
          init_sequence = (if ol_controller ctx = EV_OLED_CONTROLLER_SH1106 then k_ev_oled_sh1106_init else k_ev_oled_ssd1306_init);
          (rc, ctx, w) = ev_oled_actor_send_commands init_sequence ctx w
      in if rc \<noteq> EV_OK
         then (EV_OK, ev_oled_actor_schedule_retry (ostat (\<lambda>s. s\<lparr>os_init_failures := os_init_failures s + 1\<rparr>) ctx), w)
         else
           let (rc, ctx, w) = ev_oled_actor_sync_full_framebuffer ctx w
           in if rc \<noteq> EV_OK
              then (EV_OK, ev_oled_actor_schedule_retry (ostat (\<lambda>s. s\<lparr>os_init_failures := os_init_failures s + 1\<rparr>) ctx), w)
              else
                let ctx = ostat (\<lambda>s. s\<lparr>os_init_successes := os_init_successes s + 1\<rparr>) (ctx\<lparr>ol_state := EV_OLED_STATE_READY\<rparr>);
                    (rc, w) = ev_oled_actor_publish_ready lc ctx w
                in if rc \<noteq> EV_OK then (rc, ctx, w)
                   else if ol_pending_flush ctx then ev_oled_actor_flush_pending ctx w
                   else (EV_OK, ctx, w))"

text \<open>\<open>mem\<close> is the memory from a payload pointer on; the structs are read field by field.\<close>

definition display_text_cmd_at :: "u8 list \<Rightarrow> ev_oled_display_text_cmd" where
  "display_text_cmd_at b = \<lparr>dt_page = unat (b ! 0), dt_column = unat (b ! 1), dt_text = terminated (take EV_OLED_TEXT_CHARS (drop 2 b))\<rparr>"

definition scene_at :: "u8 list \<Rightarrow> ev_oled_scene" where
  "scene_at b = \<lparr>sn_page_offset = b ! 0, sn_column_offset = b ! 1, sn_flags = b ! 2,
     sn_lines = map (\<lambda>i. terminated (take EV_OLED_TEXT_CHARS (drop (4 + EV_OLED_TEXT_CHARS * i) b))) [0..<EV_OLED_SCENE_LINE_COUNT]\<rparr>"

definition ev_oled_actor_handle_display_text ::
    "(ev_payload_ref \<Rightarrow> u8 list) \<Rightarrow> ev_msg \<Rightarrow> 'w ev_oled_actor_ctx \<Rightarrow> ev_result \<times> 'w ev_oled_actor_ctx" where
  "ev_oled_actor_handle_display_text mem msg ctx =
     (case ev_msg_payload_data (Some msg) of
        None \<Rightarrow> (EV_ERR_CONTRACT, ctx)
      | Some payload \<Rightarrow>
          if ev_msg_payload_size (Some msg) \<noteq> 24 then (EV_ERR_CONTRACT, ctx)
          else
            let ctx = (if \<not> ol_pending_flush ctx then ctx\<lparr>ol_staging_framebuffer := ol_framebuffer ctx\<rparr> else ctx);
                cmd = display_text_cmd_at (mem payload);
                ctx = ostat (\<lambda>s. s\<lparr>os_display_commands_seen := os_display_commands_seen s + 1\<rparr>) ctx;
                (rc, staging) = ev_oled_actor_render_text_into (ol_staging_framebuffer ctx) cmd;
                ctx = ctx\<lparr>ol_staging_framebuffer := staging\<rparr>
            in if rc \<noteq> EV_OK then (EV_ERR_CONTRACT, ctx)
               else (EV_OK, ev_oled_actor_mark_dirty (dt_page cmd) (dt_column cmd) EV_OLED_WIDTH ctx))"

definition ev_oled_actor_handle_commit_frame ::
    "(ev_payload_ref \<Rightarrow> u8 list) \<Rightarrow> ev_msg \<Rightarrow> 'w ev_oled_actor_ctx \<Rightarrow> 'w \<Rightarrow> ev_result \<times> 'w ev_oled_actor_ctx \<times> 'w" where
  "ev_oled_actor_handle_commit_frame mem msg ctx w =
     (let payload = ev_msg_payload_data (Some msg); payload_size = ev_msg_payload_size (Some msg);
          (rc, ctx) =
            (if payload \<noteq> None \<and> 0 < payload_size
             then if payload_size \<noteq> 70 then (EV_ERR_CONTRACT, ctx)
                  else let (rc, ctx) = ev_oled_actor_prepare_scene_commit (scene_at (mem (the payload))) ctx
                       in (if rc \<noteq> EV_OK then EV_ERR_CONTRACT else EV_OK, ctx)
             else (EV_OK, ctx))
      in if rc \<noteq> EV_OK then (rc, ctx, w)
         else if \<not> ol_pending_flush ctx then (EV_OK, ctx, w)
         else if ol_state ctx \<noteq> EV_OLED_STATE_READY then (EV_OK, ctx, w)
         else ev_oled_actor_flush_pending ctx w)"

definition ev_oled_actor_handle_tick ::
    "'w ev_lifecycle \<Rightarrow> 'w ev_oled_actor_ctx \<Rightarrow> 'w \<Rightarrow> ev_result \<times> 'w ev_oled_actor_ctx \<times> 'w" where
  "ev_oled_actor_handle_tick lc ctx w =
     (let ctx = ostat (\<lambda>s. s\<lparr>os_tick_events_seen := os_tick_events_seen s + 1\<rparr>) (ctx\<lparr>ol_tick_counter := ol_tick_counter ctx + 1\<rparr>)
      in if \<not> ol_boot_observed ctx then (EV_OK, ctx, w)
         else if ol_state ctx = EV_OLED_STATE_READY
         then (if ol_pending_flush ctx then ev_oled_actor_flush_pending ctx w else (EV_OK, ctx, w))
         else if ol_state ctx = EV_OLED_STATE_WAIT_BOOT \<or> ol_state ctx = EV_OLED_STATE_ERROR
         then (if ol_state ctx = EV_OLED_STATE_ERROR \<and> sint (ol_tick_counter ctx - ol_retry_due_tick ctx) < 0 then (EV_OK, ctx, w)
               else ev_oled_actor_try_initialize lc ctx w)
         else (EV_OK, ctx, w))"

definition zero_oled_stats :: ev_oled_actor_stats where
  "zero_oled_stats = \<lparr>os_boot_events_seen = 0, os_tick_events_seen = 0, os_display_commands_seen = 0, os_init_attempts = 0,
     os_init_successes = 0, os_init_failures = 0, os_flush_attempts = 0, os_flush_successes = 0, os_flush_failures = 0,
     os_retries_scheduled = 0, os_last_i2c_status = EV_I2C_OK\<rparr>"

definition ev_oled_actor_init ::
    "'w ev_oled_actor_ctx option \<Rightarrow> 'w ev_i2c_port option \<Rightarrow> ev_i2c_port_num \<Rightarrow> u8 \<Rightarrow> ev_oled_controller
       \<Rightarrow> 'w ev_delivery_fn option \<Rightarrow> ptr \<Rightarrow> ev_result \<times> 'w ev_oled_actor_ctx option" where
  "ev_oled_actor_init ctx i2c_port port_num device_address_7bit controller deliver deliver_context =
     (if ctx = None \<or> i2c_port = None \<or> i2_write_stream (the i2c_port) = None \<or> 0x7F < device_address_7bit
         \<or> deliver = None \<or> deliver_context = None
      then (EV_ERR_INVALID_ARG, ctx)
      else (EV_OK, Some (ev_oled_actor_reset_dirty
        \<lparr>ol_i2c_port = i2c_port, ol_deliver = deliver, ol_deliver_context = deliver_context, ol_port_num = port_num,
         ol_device_address_7bit = device_address_7bit, ol_controller = controller, ol_state = EV_OLED_STATE_WAIT_BOOT,
         ol_last_i2c_status = EV_I2C_OK, ol_tick_counter = 0, ol_retry_due_tick = 0,
         ol_retry_delay_ticks = EV_OLED_RETRY_DELAY_TICKS, ol_boot_observed = False, ol_pending_flush = False,
         ol_dirty_page_mask = 0, ol_dirty_column_start = replicate EV_OLED_PAGE_COUNT 0,
         ol_dirty_column_end = replicate EV_OLED_PAGE_COUNT 0, ol_framebuffer = blank_frame,
         ol_staging_framebuffer = blank_frame, ol_stats = zero_oled_stats\<rparr>)))"

definition ev_oled_actor_handle ::
    "'w ev_lifecycle \<Rightarrow> (ev_payload_ref \<Rightarrow> u8 list) \<Rightarrow> 'w ev_oled_actor_ctx option \<Rightarrow> ev_msg option \<Rightarrow> 'w
       \<Rightarrow> ev_result \<times> 'w ev_oled_actor_ctx option \<times> 'w" where
  "ev_oled_actor_handle lc mem actor_context msg w =
     (if actor_context = None \<or> msg = None then (EV_ERR_INVALID_ARG, actor_context, w)
      else
        let ctx = the actor_context; e = msg_event_id (the msg);
            (rc, ctx, w) =
              (if e = EV_BOOT_COMPLETED
               then ev_oled_actor_try_initialize lc
                 (ostat (\<lambda>s. s\<lparr>os_boot_events_seen := os_boot_events_seen s + 1\<rparr>) (ctx\<lparr>ol_boot_observed := True\<rparr>)) w
               else if e = EV_TICK_1S then ev_oled_actor_handle_tick lc ctx w
               else if e = EV_OLED_DISPLAY_TEXT_CMD
               then let (rc, ctx) = ev_oled_actor_handle_display_text mem (the msg) ctx in (rc, ctx, w)
               else if e = EV_OLED_COMMIT_FRAME then ev_oled_actor_handle_commit_frame mem (the msg) ctx w
               else (EV_ERR_CONTRACT, ctx, w))
        in (rc, Some ctx, w))"

definition ev_oled_actor_stats_of :: "'w ev_oled_actor_ctx option \<Rightarrow> ev_oled_actor_stats option" where
  "ev_oled_actor_stats_of ctx = map_option ol_stats ctx"

section \<open>What marks and transfers change\<close>

text \<open>A column of a page that the next flush writes.\<close>

definition covered :: "'w ev_oled_actor_ctx \<Rightarrow> nat \<Rightarrow> nat \<Rightarrow> bool" where
  "covered ctx p c \<longleftrightarrow> ol_pending_flush ctx \<and> bit (ol_dirty_page_mask ctx) p
     \<and> ol_dirty_column_start ctx ! p \<le> c \<and> c < ol_dirty_column_end ctx ! p"

definition frame_ok :: "frame \<Rightarrow> bool" where
  "frame_ok f \<longleftrightarrow> length f = EV_OLED_PAGE_COUNT \<and> (\<forall>p < EV_OLED_PAGE_COUNT. length (f ! p) = EV_OLED_WIDTH)"

definition ranges_ok :: "'w ev_oled_actor_ctx \<Rightarrow> bool" where
  "ranges_ok ctx \<longleftrightarrow> length (ol_dirty_column_start ctx) = EV_OLED_PAGE_COUNT
     \<and> length (ol_dirty_column_end ctx) = EV_OLED_PAGE_COUNT
     \<and> (\<forall>p < EV_OLED_PAGE_COUNT. ol_dirty_column_end ctx ! p \<le> EV_OLED_WIDTH)"

text \<open>Whatever differs between the frame shown and the staging frame is written by the next flush.\<close>

definition dirty_covers :: "'w ev_oled_actor_ctx \<Rightarrow> bool" where
  "dirty_covers ctx \<longleftrightarrow> frame_ok (ol_framebuffer ctx) \<and> frame_ok (ol_staging_framebuffer ctx) \<and> ranges_ok ctx
     \<and> (\<forall>p < EV_OLED_PAGE_COUNT. \<forall>c < EV_OLED_WIDTH.
          ol_staging_framebuffer ctx ! p ! c \<noteq> ol_framebuffer ctx ! p ! c \<longrightarrow> covered ctx p c)"

lemma ostat_frames [simp]:
  "covered (ostat f ctx) = covered ctx" "ranges_ok (ostat f ctx) = ranges_ok ctx" "dirty_covers (ostat f ctx) = dirty_covers ctx"
  by (simp_all add: fun_eq_iff covered_def ranges_ok_def dirty_covers_def ostat_def)

lemma ostat_fields [simp]:
  "ol_i2c_port (ostat f ctx) = ol_i2c_port ctx" "ol_deliver (ostat f ctx) = ol_deliver ctx"
  "ol_deliver_context (ostat f ctx) = ol_deliver_context ctx" "ol_port_num (ostat f ctx) = ol_port_num ctx"
  "ol_device_address_7bit (ostat f ctx) = ol_device_address_7bit ctx" "ol_controller (ostat f ctx) = ol_controller ctx"
  "ol_state (ostat f ctx) = ol_state ctx" "ol_pending_flush (ostat f ctx) = ol_pending_flush ctx"
  "ol_dirty_page_mask (ostat f ctx) = ol_dirty_page_mask ctx" "ol_boot_observed (ostat f ctx) = ol_boot_observed ctx"
  "ol_dirty_column_start (ostat f ctx) = ol_dirty_column_start ctx"
  "ol_dirty_column_end (ostat f ctx) = ol_dirty_column_end ctx"
  "ol_framebuffer (ostat f ctx) = ol_framebuffer ctx" "ol_staging_framebuffer (ostat f ctx) = ol_staging_framebuffer ctx"
  "ol_stats (ostat f ctx) = f (ol_stats ctx)"
  by (simp_all add: ostat_def)

lemma reset_dirty_clean:
  assumes "frame_ok (ol_framebuffer ctx)" and "ol_staging_framebuffer ctx = ol_framebuffer ctx"
  shows "dirty_covers (ev_oled_actor_reset_dirty ctx)"
  using assms by (simp add: dirty_covers_def ev_oled_actor_reset_dirty_def ranges_ok_def)

text \<open>A mark adds its columns and loses none.\<close>

lemma mark_dirty_keeps:
  "ol_framebuffer (ev_oled_actor_mark_dirty p a b ctx) = ol_framebuffer ctx"
  "ol_staging_framebuffer (ev_oled_actor_mark_dirty p a b ctx) = ol_staging_framebuffer ctx"
  "ranges_ok ctx \<Longrightarrow> ranges_ok (ev_oled_actor_mark_dirty p a b ctx)"
  by (auto simp: ev_oled_actor_mark_dirty_def ranges_ok_def nth_list_update)

lemma mark_dirty_covered:
  assumes "ranges_ok ctx" and "covered ctx q c \<or> q = p \<and> a \<le> c \<and> c < b \<and> p < EV_OLED_PAGE_COUNT \<and> b \<le> EV_OLED_WIDTH"
  shows "covered (ev_oled_actor_mark_dirty p a b ctx) q c"
  using assms
  by (auto simp: ev_oled_actor_mark_dirty_def covered_def ranges_ok_def nth_list_update bit_simps possible_bit_def)

lemma mark_differences_keep:
  "ol_framebuffer (fold mark_difference xs ctx) = ol_framebuffer ctx"
  "ol_staging_framebuffer (fold mark_difference xs ctx) = ol_staging_framebuffer ctx"
  "ranges_ok ctx \<Longrightarrow> ranges_ok (fold mark_difference xs ctx)"
  by (induction xs arbitrary: ctx) (auto simp: mark_difference_def mark_dirty_keeps)

lemma mark_differences_monotone:
  "ranges_ok ctx \<Longrightarrow> covered ctx p c \<Longrightarrow> covered (fold mark_difference xs ctx) p c"
proof (induction xs arbitrary: ctx)
  case (Cons x xs)
  then have "ranges_ok (mark_difference x ctx)" and "covered (mark_difference x ctx) p c"
    by (auto simp: mark_difference_def mark_dirty_keeps mark_dirty_covered split: prod.splits)
  then show ?case by (simp add: Cons.IH)
qed simp

lemma mark_differences_cover:
  assumes "ranges_ok ctx" and "(p, c) \<in> set xs" and "p < EV_OLED_PAGE_COUNT" and "c < EV_OLED_WIDTH"
    and "ol_staging_framebuffer ctx ! p ! c \<noteq> ol_framebuffer ctx ! p ! c"
  shows "covered (fold mark_difference xs ctx) p c"
  using assms
proof (induction xs arbitrary: ctx)
  case (Cons x xs)
  have ok: "ranges_ok (mark_difference x ctx)"
    using Cons.prems(1) by (auto simp: mark_difference_def mark_dirty_keeps split: prod.splits)
  show ?case
  proof (cases "x = (p, c)")
    case True
    then have "covered (mark_difference x ctx) p c"
      using Cons.prems by (auto simp: mark_difference_def intro!: mark_dirty_covered)
    then show ?thesis using ok by (simp add: mark_differences_monotone)
  next
    case False
    then show ?thesis
      using Cons ok by (auto simp: mark_difference_def mark_dirty_keeps split: prod.splits)
  qed
qed simp

section \<open>Drawing, point by point\<close>

lemma length_draw_columns [simp]: "length (draw_columns gs t row) = length row"
  by (induction gs arbitrary: t row) auto

lemma nth_draw_columns:
  "c < length row \<Longrightarrow> length row = EV_OLED_WIDTH \<Longrightarrow>
   draw_columns gs t row ! c = (if t \<le> c \<and> c < t + length gs then gs ! (c - t) else row ! c)"
proof (induction gs arbitrary: t row)
  case (Cons g gs)
  then show ?case by (cases "c = t") (auto simp: nth_list_update nth_Cons' not_le)
qed auto

lemma length_draw_text [simp]: "length (draw_text cs d row) = length row"
  by (induction cs arbitrary: d row) auto

lemma length_glyph [simp]: "length (ev_oled_actor_glyph_for_char c) = EV_OLED_GLYPH_WIDTH"
proof -
  have all: "list_all (\<lambda>g. length g = EV_OLED_GLYPH_WIDTH) k_ev_oled_font_5x7" and n: "length k_ev_oled_font_5x7 = 95"
    by (simp_all add: k_ev_oled_font_5x7_def)
  have "(if unat c < 32 \<or> 126 < unat c then 63 else unat c) - 32 < length k_ev_oled_font_5x7" using n by auto
  with all show ?thesis unfolding list_all_length by (simp add: ev_oled_actor_glyph_for_char_def Let_def)
qed

text \<open>Each character has a cell of six columns, five for its glyph.\<close>

definition text_pixel :: "u8 list \<Rightarrow> nat \<Rightarrow> u8 option" where
  "text_pixel cs k =
     (if k div EV_OLED_CELL_ADVANCE < length cs \<and> k mod EV_OLED_CELL_ADVANCE < EV_OLED_GLYPH_WIDTH
      then Some (ev_oled_actor_glyph_for_char (cs ! (k div EV_OLED_CELL_ADVANCE)) ! (k mod EV_OLED_CELL_ADVANCE)) else None)"

lemma text_pixel_Cons:
  "text_pixel (x # cs) k =
     (if k < EV_OLED_GLYPH_WIDTH then Some (ev_oled_actor_glyph_for_char x ! k)
      else if k < EV_OLED_CELL_ADVANCE then None else text_pixel cs (k - EV_OLED_CELL_ADVANCE))"
proof (cases "k < EV_OLED_CELL_ADVANCE")
  case False
  then obtain j where "k = j + EV_OLED_CELL_ADVANCE" by (metis add.commute le_Suc_ex not_less)
  moreover have "(j + EV_OLED_CELL_ADVANCE) div EV_OLED_CELL_ADVANCE = Suc (j div EV_OLED_CELL_ADVANCE)"
    and "(j + EV_OLED_CELL_ADVANCE) mod EV_OLED_CELL_ADVANCE = j mod EV_OLED_CELL_ADVANCE" by simp_all
  ultimately show ?thesis by (simp add: text_pixel_def)
qed (simp add: text_pixel_def)

lemma nth_draw_text:
  "c < length row \<Longrightarrow> length row = EV_OLED_WIDTH \<Longrightarrow>
   draw_text cs d row ! c = (if d \<le> c then (case text_pixel cs (c - d) of None \<Rightarrow> row ! c | Some g \<Rightarrow> g) else row ! c)"
proof (induction cs arbitrary: d row)
  case Nil
  then show ?case by (simp add: text_pixel_def)
next
  case (Cons x cs)
  then show ?case by (auto simp: nth_draw_columns text_pixel_Cons split: option.splits)
qed

text \<open>A text command replaces the page from its column on, by its text up to the terminator, and nothing else.\<close>

definition text_frame :: "frame \<Rightarrow> ev_oled_display_text_cmd \<Rightarrow> nat \<Rightarrow> nat \<Rightarrow> u8" where
  "text_frame f cmd p c =
     (if p = dt_page cmd \<and> dt_column cmd \<le> c
      then case text_pixel (takeWhile (\<lambda>x. x \<noteq> 0) (take EV_OLED_TEXT_CHARS (dt_text cmd))) (c - dt_column cmd) of
             None \<Rightarrow> 0 | Some g \<Rightarrow> g
      else f ! p ! c)"

lemma take_bounded_strlen: "take (ev_oled_actor_bounded_strlen t n) t = takeWhile (\<lambda>c. c \<noteq> 0) (take n t)"
proof -
  have "takeWhile (\<lambda>c. c \<noteq> 0) (take n t) = take (ev_oled_actor_bounded_strlen t n) (take n t)"
    unfolding ev_oled_actor_bounded_strlen_def by (rule takeWhile_eq_take)
  moreover have "ev_oled_actor_bounded_strlen t n \<le> n"
    unfolding ev_oled_actor_bounded_strlen_def by (metis length_take length_takeWhile_le min.bounded_iff)
  ultimately show ?thesis by simp
qed

lemma render_text_frame:
  assumes "frame_ok f" and "dt_page cmd < EV_OLED_PAGE_COUNT" and "dt_column cmd < EV_OLED_WIDTH"
  shows "fst (ev_oled_actor_render_text_into f cmd) = EV_OK"
    and "frame_ok (snd (ev_oled_actor_render_text_into f cmd))"
    and "p < EV_OLED_PAGE_COUNT \<Longrightarrow> c < EV_OLED_WIDTH \<Longrightarrow> snd (ev_oled_actor_render_text_into f cmd) ! p ! c = text_frame f cmd p c"
  using assms
  by (auto simp: ev_oled_actor_render_text_into_def Let_def frame_ok_def nth_list_update text_frame_def nth_draw_text
      nth_append take_bounded_strlen split: option.splits)

lemma render_text_refused:
  "fst (ev_oled_actor_render_text_into f cmd) \<noteq> EV_OK \<Longrightarrow> snd (ev_oled_actor_render_text_into f cmd) = f"
  by (auto simp: ev_oled_actor_render_text_into_def Let_def)

lemma draw_lines_ok:
  "frame_ok f \<Longrightarrow> unat (sn_column_offset scene) < EV_OLED_WIDTH \<Longrightarrow>
   fst (draw_lines ls scene f) = EV_OK \<and> frame_ok (snd (draw_lines ls scene f))"
proof (induction ls arbitrary: f)
  case (Cons l ls)
  let ?p = "(unat (sn_page_offset scene) + l) mod 256"
  let ?cmd = "\<lparr>dt_page = ?p, dt_column = unat (sn_column_offset scene), dt_text = terminated (sn_lines scene ! l)\<rparr>"
  show ?case
  proof (cases "EV_OLED_PAGE_COUNT \<le> ?p")
    case True
    then show ?thesis using Cons by simp
  next
    case False
    then have "dt_page ?cmd < EV_OLED_PAGE_COUNT" and "dt_column ?cmd < EV_OLED_WIDTH" using Cons.prems by auto
    from render_text_frame (1,2) [OF Cons.prems(1) this] Cons.IH [of "snd (ev_oled_actor_render_text_into f ?cmd)"] Cons.prems False
    show ?thesis by (auto simp: Let_def split: prod.splits)
  qed
qed simp

lemma frame_ok_blank [simp]: "frame_ok blank_frame"
  by (simp add: frame_ok_def blank_frame_def)

end
