(* ===== verification/EvOledPanel.thy ===== *)
theory EvOledPanel
  imports EvOledActor
begin

text \<open>
  The display actor against its panel: whatever its frames differ in stays marked until a flush has written it, and on
  an SSD1306, modelled by its address windows, its pointers and its display memory, the panel shows the frame the actor
  believes it shows.
\<close>

section \<open>What transactions change\<close>

text \<open>Transactions record the status of the bus in the context, and nothing else.\<close>

definition bus_only :: "'w ev_oled_actor_ctx \<Rightarrow> 'w ev_oled_actor_ctx \<Rightarrow> bool" where
  "bus_only ctx ctx' \<longleftrightarrow> (\<exists>a b. ctx' = ctx\<lparr>ol_last_i2c_status := a, ol_stats := (ol_stats ctx)\<lparr>os_last_i2c_status := b\<rparr>\<rparr>)"

lemma bus_only_refl [simp]: "bus_only ctx ctx"
  unfolding bus_only_def by (rule exI [of _ "ol_last_i2c_status ctx"], rule exI [of _ "os_last_i2c_status (ol_stats ctx)"]) simp

lemma bus_only_trans: "bus_only a b \<Longrightarrow> bus_only b c \<Longrightarrow> bus_only a c"
  by (force simp: bus_only_def)

lemma bus_only_keeps:
  assumes "bus_only ctx ctx'"
  shows "covered ctx' = covered ctx" "ranges_ok ctx' = ranges_ok ctx" "dirty_covers ctx' = dirty_covers ctx"
    "ol_framebuffer ctx' = ol_framebuffer ctx" "ol_staging_framebuffer ctx' = ol_staging_framebuffer ctx"
    "ol_pending_flush ctx' = ol_pending_flush ctx" "ol_dirty_page_mask ctx' = ol_dirty_page_mask ctx"
    "ol_dirty_column_start ctx' = ol_dirty_column_start ctx" "ol_dirty_column_end ctx' = ol_dirty_column_end ctx"
    "ol_i2c_port ctx' = ol_i2c_port ctx" "ol_deliver ctx' = ol_deliver ctx" "ol_port_num ctx' = ol_port_num ctx"
    "ol_device_address_7bit ctx' = ol_device_address_7bit ctx" "ol_controller ctx' = ol_controller ctx"
    "ol_deliver_context ctx' = ol_deliver_context ctx" "ol_state ctx' = ol_state ctx" "ol_boot_observed ctx' = ol_boot_observed ctx"
    "os_flush_failures (ol_stats ctx') = os_flush_failures (ol_stats ctx)"
    "os_flush_successes (ol_stats ctx') = os_flush_successes (ol_stats ctx)"
    "os_init_successes (ol_stats ctx') = os_init_successes (ol_stats ctx)"
  using assms by (auto simp: bus_only_def fun_eq_iff covered_def ranges_ok_def dirty_covers_def)

lemma send_chunks_bus_only: "send_chunks k bs ctx w = (rc, ctx', w') \<Longrightarrow> bus_only ctx ctx'"
proof (induction k bs ctx w rule: send_chunks.induct)
  case (1 k bs ctx w)
  obtain st w1 where s: "ev_oled_actor_write_stream (k # take EV_OLED_DATA_CHUNK_BYTES bs) ctx w = (st, w1)" by fastforce
  let ?c = "ostat (\<lambda>s. s\<lparr>os_last_i2c_status := st\<rparr>) (ctx\<lparr>ol_last_i2c_status := st\<rparr>)"
  have c: "bus_only ctx ?c" by (auto simp: bus_only_def ostat_def)
  show ?case
  proof (cases "bs = [] \<or> st \<noteq> EV_I2C_OK")
    case True
    then show ?thesis using "1.prems" c s by (subst (asm) send_chunks.simps) (auto simp: Let_def split: if_splits)
  next
    case False
    then have "send_chunks k (drop EV_OLED_DATA_CHUNK_BYTES bs) ?c w1 = (rc, ctx', w')"
      using "1.prems" s by (subst (asm) send_chunks.simps) (simp add: Let_def)
    from "1.IH" [OF _ refl s [symmetric] refl _ this] False c show ?thesis by (blast intro: bus_only_trans)
  qed
qed

lemma sh1106_loop_bus_only: "sh1106_loop p i j d ctx w = (rc, ctx', w') \<Longrightarrow> bus_only ctx ctx'"
proof (induction p i j d ctx w rule: sh1106_loop.induct)
  case (1 p i j d ctx w)
  let ?cmd = "[0xB0 OR of_nat p, (of_nat (i + EV_OLED_SH1106_COLUMN_OFFSET) :: u8) AND 0x0F,
      0x10 OR (drop_bit 4 (of_nat (i + EV_OLED_SH1106_COLUMN_OFFSET) :: u8) AND 0x0F)]"
  let ?n = "min (j - i) EV_OLED_DATA_CHUNK_BYTES"
  obtain r1 c1 w1 where a: "ev_oled_actor_send_commands ?cmd ctx w = (r1, c1, w1)" by (rule prod_cases3)
  obtain r2 c2 w2 where b: "ev_oled_actor_send_data (take ?n (drop i d)) c1 w1 = (r2, c2, w2)" by (rule prod_cases3)
  have c1: "bus_only ctx c1" using a send_chunks_bus_only by (auto simp: ev_oled_actor_send_commands_def)
  have c2: "bus_only c1 c2" using b send_chunks_bus_only by (auto simp: ev_oled_actor_send_data_def)
  consider "j \<le> i \<or> r1 \<noteq> EV_OK" | "i < j" "r1 = EV_OK" "r2 \<noteq> EV_OK" | "i < j" "r1 = EV_OK" "r2 = EV_OK" by linarith
  then show ?case
  proof cases
    case 1
    then show ?thesis using "1.prems" a c1 by (subst (asm) sh1106_loop.simps) (auto simp: Let_def split: if_splits)
  next
    case 2
    then show ?thesis using "1.prems" a b c1 c2
      by (subst (asm) sh1106_loop.simps) (auto simp: Let_def intro: bus_only_trans)
  next
    case 3
    then have l: "sh1106_loop p (i + ?n) j d c2 w2 = (rc, ctx', w')"
      using "1.prems" a b by (subst (asm) sh1106_loop.simps) (simp add: Let_def)
    have "bus_only c2 ctx'"
      using 3 l by (intro "1.IH" [OF _ refl a [symmetric] refl refl _ refl b [symmetric] refl refl]) auto
    with c1 c2 show ?thesis by (blast intro: bus_only_trans)
  qed
qed

lemma address_window_bus_only:
  assumes "ev_oled_actor_apply_address_window p a b d ctx w = (rc, ctx', w')"
  shows "bus_only ctx ctx'"
  using assms
  by (auto simp: ev_oled_actor_apply_address_window_def ev_oled_actor_send_commands_def ev_oled_actor_send_data_def Let_def
      split: if_splits prod.splits dest!: send_chunks_bus_only sh1106_loop_bus_only intro: bus_only_trans)

lemma sync_pages_bus_only: "sync_pages ps ctx w = (rc, ctx', w') \<Longrightarrow> bus_only ctx ctx'"
  by (induction ps arbitrary: ctx w)
    (auto simp: Let_def split: if_splits prod.splits dest!: address_window_bus_only intro: bus_only_trans)

lemma flush_pages_bus_only: "flush_pages ps ctx w = (rc, ctx', w') \<Longrightarrow> bus_only ctx ctx'"
  by (induction ps arbitrary: ctx w)
    (auto simp: Let_def split: if_splits prod.splits dest!: address_window_bus_only intro: bus_only_trans)

section \<open>Differences stay marked\<close>

lemma retry_keeps [simp]:
  "covered (ev_oled_actor_schedule_retry ctx) = covered ctx" "dirty_covers (ev_oled_actor_schedule_retry ctx) = dirty_covers ctx"
  by (simp_all add: ev_oled_actor_schedule_retry_def dirty_covers_def covered_def ranges_ok_def ostat_def fun_eq_iff)

lemma covers_other_fields [simp]:
  "dirty_covers (ctx\<lparr>ol_state := st\<rparr>) = dirty_covers ctx" "dirty_covers (ctx\<lparr>ol_tick_counter := t\<rparr>) = dirty_covers ctx"
  "dirty_covers (ctx\<lparr>ol_boot_observed := bo\<rparr>) = dirty_covers ctx"
  by (simp_all add: dirty_covers_def covered_def ranges_ok_def)

text \<open>The operations over the transfers they make.\<close>

lemma flush_pending_eq:
  assumes "ol_pending_flush ctx"
    and "flush_pages [0..<EV_OLED_PAGE_COUNT] (ostat (\<lambda>s. s\<lparr>os_flush_attempts := os_flush_attempts s + 1\<rparr>) ctx) w = (r, c1, w1)"
  shows "ev_oled_actor_flush_pending ctx w =
    (EV_OK, if r \<noteq> EV_OK then ev_oled_actor_schedule_retry (ostat (\<lambda>s. s\<lparr>os_flush_failures := os_flush_failures s + 1\<rparr>) c1)
      else ostat (\<lambda>s. s\<lparr>os_flush_successes := os_flush_successes s + 1\<rparr>)
             (ev_oled_actor_reset_dirty (c1\<lparr>ol_framebuffer := ol_staging_framebuffer c1\<rparr>)), w1)"
  unfolding ev_oled_actor_flush_pending_def Let_def assms(2) prod.case using assms(1) by simp

lemma sync_full_eq:
  assumes "sync_pages [0..<EV_OLED_PAGE_COUNT] (ostat (\<lambda>s. s\<lparr>os_flush_attempts := os_flush_attempts s + 1\<rparr>) ctx) w = (r, c1, w1)"
  shows "\<exists>f. ev_oled_actor_sync_full_framebuffer ctx w =
    (EV_OK, if r \<noteq> EV_OK then ev_oled_actor_schedule_retry (ostat f c1) else ostat f c1, w1)
    \<and> (\<forall>s. os_flush_failures (f s) = (if r \<noteq> EV_OK then os_flush_failures s + 1 else os_flush_failures s))"
  unfolding ev_oled_actor_sync_full_framebuffer_def Let_def assms prod.case
  by (rule exI [of _ "\<lambda>s. if r \<noteq> EV_OK
      then s\<lparr>os_flush_attempts := os_flush_attempts (ol_stats ctx) + 1, os_flush_successes := os_flush_successes (ol_stats ctx),
             os_flush_failures := os_flush_failures s + 1\<rparr>
      else s\<lparr>os_flush_attempts := os_flush_attempts (ol_stats ctx) + 1, os_flush_successes := os_flush_successes (ol_stats ctx) + 1\<rparr>"])
    (cases "r = EV_OK"; simp)

lemma sync_full_answers: "ev_oled_actor_sync_full_framebuffer ctx w = (rc, ctx', w') \<Longrightarrow> rc = EV_OK"
proof -
  assume s: "ev_oled_actor_sync_full_framebuffer ctx w = (rc, ctx', w')"
  obtain r c1 w1 where f: "sync_pages [0..<EV_OLED_PAGE_COUNT]
      (ostat (\<lambda>s. s\<lparr>os_flush_attempts := os_flush_attempts s + 1\<rparr>) ctx) w = (r, c1, w1)" by (rule prod_cases3)
  from sync_full_eq [OF f] s show ?thesis by auto
qed

lemma flush_pending_covers:
  assumes "dirty_covers ctx" and "ev_oled_actor_flush_pending ctx w = (rc, ctx', w')"
  shows "dirty_covers ctx'"
proof (cases "ol_pending_flush ctx")
  case True
  obtain r c1 w1 where f: "flush_pages [0..<EV_OLED_PAGE_COUNT]
      (ostat (\<lambda>s. s\<lparr>os_flush_attempts := os_flush_attempts s + 1\<rparr>) ctx) w = (r, c1, w1)" by (rule prod_cases3)
  have c1: "dirty_covers c1" using bus_only_keeps(3) [OF flush_pages_bus_only [OF f]] assms(1) by simp
  then have "dirty_covers (ev_oled_actor_reset_dirty (c1\<lparr>ol_framebuffer := ol_staging_framebuffer c1\<rparr>))"
    by (intro reset_dirty_clean) (simp_all add: dirty_covers_def)
  with c1 show ?thesis
    using assms(2) unfolding flush_pending_eq [OF True f] by (cases "r = EV_OK") auto
qed (use assms in \<open>simp add: ev_oled_actor_flush_pending_def\<close>)

lemma sync_full_covers:
  assumes "dirty_covers ctx" and "ev_oled_actor_sync_full_framebuffer ctx w = (rc, ctx', w')"
  shows "dirty_covers ctx'"
proof -
  obtain r c1 w1 where f: "sync_pages [0..<EV_OLED_PAGE_COUNT]
      (ostat (\<lambda>s. s\<lparr>os_flush_attempts := os_flush_attempts s + 1\<rparr>) ctx) w = (r, c1, w1)" by (rule prod_cases3)
  have "dirty_covers c1" using bus_only_keeps(3) [OF sync_pages_bus_only [OF f]] assms(1) by simp
  then show ?thesis using assms(2) sync_full_eq [OF f] by (cases "r = EV_OK") auto
qed

text \<open>The initialisation: the sequence of the controller, the whole frame, the announcement and what is pending.\<close>

definition init_sequence_of :: "'w ev_oled_actor_ctx \<Rightarrow> u8 list" where
  "init_sequence_of ctx = (if ol_controller ctx = EV_OLED_CONTROLLER_SH1106 then k_ev_oled_sh1106_init else k_ev_oled_ssd1306_init)"

lemma init_sequence_ostat: "init_sequence_of (ostat f ctx) = init_sequence_of ctx"
  by (simp add: init_sequence_of_def)

lemma try_initialize_cases:
  assumes t: "ev_oled_actor_try_initialize lc ctx w = (rc, ctx', w')"
  obtains (failed) r1 c1 where "ev_oled_actor_send_commands (init_sequence_of ctx)
      (ostat (\<lambda>s. s\<lparr>os_init_attempts := os_init_attempts s + 1\<rparr>) ctx) w = (r1, c1, w')"
      "rc = EV_OK" "ctx' = ev_oled_actor_schedule_retry (ostat (\<lambda>s. s\<lparr>os_init_failures := os_init_failures s + 1\<rparr>) c1)"
  | (synced) c1 w1 c2 w2 c3 r3 w3 where "ev_oled_actor_send_commands (init_sequence_of ctx)
      (ostat (\<lambda>s. s\<lparr>os_init_attempts := os_init_attempts s + 1\<rparr>) ctx) w = (EV_OK, c1, w1)"
      "ev_oled_actor_sync_full_framebuffer c1 w1 = (EV_OK, c2, w2)"
      "c3 = ostat (\<lambda>s. s\<lparr>os_init_successes := os_init_successes s + 1\<rparr>) (c2\<lparr>ol_state := EV_OLED_STATE_READY\<rparr>)"
      "ev_oled_actor_publish_ready lc c3 w2 = (r3, w3)"
      "if r3 \<noteq> EV_OK \<or> \<not> ol_pending_flush c3 then rc = r3 \<and> ctx' = c3 \<and> w' = w3
       else ev_oled_actor_flush_pending c3 w3 = (rc, ctx', w')"
proof -
  obtain r1 c1 w1 where a: "ev_oled_actor_send_commands (init_sequence_of ctx)
      (ostat (\<lambda>s. s\<lparr>os_init_attempts := os_init_attempts s + 1\<rparr>) ctx) w = (r1, c1, w1)" by (rule prod_cases3)
  obtain r2 c2 w2 where b: "ev_oled_actor_sync_full_framebuffer c1 w1 = (r2, c2, w2)" by (rule prod_cases3)
  have r2: "r2 = EV_OK" using b by (rule sync_full_answers)
  let ?c3 = "ostat (\<lambda>s. s\<lparr>os_init_successes := os_init_successes s + 1\<rparr>) (c2\<lparr>ol_state := EV_OLED_STATE_READY\<rparr>)"
  obtain r3 w3 where c: "ev_oled_actor_publish_ready lc ?c3 w2 = (r3, w3)" by fastforce
  note t' = t [unfolded ev_oled_actor_try_initialize_def Let_def init_sequence_of_def [symmetric] init_sequence_ostat a prod.case b r2]
  show thesis
  proof (cases "r1 = EV_OK")
    case False
    then show thesis using failed t' a by simp
  next
    case True
    show thesis
      by (rule synced [OF _ _ refl c]) (use t' True a b r2 c in \<open>auto split: if_splits\<close>)
  qed
qed

lemma try_initialize_covers:
  assumes ok: "dirty_covers ctx" and t: "ev_oled_actor_try_initialize lc ctx w = (rc, ctx', w')"
  shows "dirty_covers ctx'"
  using t
proof (cases rule: try_initialize_cases)
  case (failed r1 c1)
  then show ?thesis
    using ok bus_only_keeps(3) [OF send_chunks_bus_only [OF failed(1) [unfolded ev_oled_actor_send_commands_def]]] by simp
next
  case (synced c1 w1 c2 w2 c3 r3 w3)
  have "dirty_covers c1"
    using ok bus_only_keeps(3) [OF send_chunks_bus_only [OF synced(1) [unfolded ev_oled_actor_send_commands_def]]] by simp
  then have "dirty_covers c3" using sync_full_covers [OF _ synced(2)] synced(3) by simp
  then show ?thesis using synced(5) flush_pending_covers by (auto split: if_splits)
qed

text \<open>A scene is compared with the frame shown; a text is drawn over what is pending.\<close>

lemma scene_commit_covers:
  assumes ok: "dirty_covers ctx" and p: "ev_oled_actor_prepare_scene_commit scene ctx = (rc, ctx')"
  shows "dirty_covers ctx'"
proof (cases "unat (sn_column_offset scene) < EV_OLED_WIDTH")
  case True
  define st where "st = (if sn_flags scene AND EV_OLED_SCENE_FLAG_VISIBLE \<noteq> 0
      then draw_lines [0..<EV_OLED_SCENE_LINE_COUNT] scene blank_frame else (EV_OK, blank_frame))"
  have st: "fst st = EV_OK" "frame_ok (snd st)" using draw_lines_ok [OF frame_ok_blank True] by (auto simp: st_def)
  let ?c = "ev_oled_actor_reset_dirty (ctx\<lparr>ol_staging_framebuffer := snd st\<rparr>)"
  let ?cells = "List.product [0..<EV_OLED_PAGE_COUNT] [0..<EV_OLED_WIDTH]"
  have c': "ctx' = fold mark_difference ?cells ?c"
    using p st True unfolding ev_oled_actor_prepare_scene_commit_def st_def [symmetric] by (auto simp: Let_def split: prod.splits)
  have r: "ranges_ok ?c" by (simp add: ranges_ok_def ev_oled_actor_reset_dirty_def)
  have "ol_framebuffer ?c = ol_framebuffer ctx" "ol_staging_framebuffer ?c = snd st" by (simp_all add: ev_oled_actor_reset_dirty_def)
  moreover have "(p, c) \<in> set ?cells" if "p < EV_OLED_PAGE_COUNT" "c < EV_OLED_WIDTH" for p c using that by auto
  ultimately show ?thesis
    unfolding c' dirty_covers_def using ok st r mark_differences_cover [OF r] by (simp add: dirty_covers_def mark_differences_keep)
qed (use assms in \<open>auto simp: ev_oled_actor_prepare_scene_commit_def\<close>)

lemma not_pending_same:
  assumes "dirty_covers ctx" and "\<not> ol_pending_flush ctx"
  shows "ol_staging_framebuffer ctx = ol_framebuffer ctx"
  using assms by (intro nth_equalityI) (auto simp: dirty_covers_def frame_ok_def covered_def intro!: nth_equalityI)

lemma stage_frame:
  "dirty_covers ctx \<Longrightarrow>
   (if \<not> ol_pending_flush ctx then ctx\<lparr>ol_staging_framebuffer := ol_framebuffer ctx\<rparr> else ctx) = ctx"
  using not_pending_same [of ctx] by simp

text \<open>A text command, point by point; it is refused when its column or its page is off the panel.\<close>

lemma display_text_staged:
  assumes ok: "dirty_covers ctx" and pay: "ev_msg_payload_data (Some m) = Some r" "ev_msg_payload_size (Some m) = 24"
    and cmd: "cmd = display_text_cmd_at (mem r)" "dt_page cmd < EV_OLED_PAGE_COUNT" "dt_column cmd < EV_OLED_WIDTH"
    and h: "ev_oled_actor_handle_display_text mem m ctx = (rc, ctx')"
  shows "rc = EV_OK" and "dirty_covers ctx'" and "ol_pending_flush ctx'" and "ol_framebuffer ctx' = ol_framebuffer ctx"
    and "p < EV_OLED_PAGE_COUNT \<Longrightarrow> c < EV_OLED_WIDTH
      \<Longrightarrow> ol_staging_framebuffer ctx' ! p ! c = text_frame (ol_staging_framebuffer ctx) cmd p c"
proof -
  let ?st = "ol_staging_framebuffer ctx"
  have f: "frame_ok ?st" and r: "ranges_ok ctx" using ok by (simp_all add: dirty_covers_def)
  let ?c = "(ostat (\<lambda>s. s\<lparr>os_display_commands_seen := os_display_commands_seen s + 1\<rparr>) ctx)
      \<lparr>ol_staging_framebuffer := snd (ev_oled_actor_render_text_into ?st cmd)\<rparr>"
  note render = render_text_frame [OF f cmd(2,3)]
  have res: "rc = EV_OK" "ctx' = ev_oled_actor_mark_dirty (dt_page cmd) (dt_column cmd) EV_OLED_WIDTH ?c"
    using h pay render(1) cmd(1)
    by (auto simp: ev_oled_actor_handle_display_text_def Let_def stage_frame [OF ok] split: prod.splits if_splits)
  have rc: "ranges_ok ?c" using r by (simp add: ranges_ok_def ostat_def)
  have covs: "covered ctx' q c" if "q < EV_OLED_PAGE_COUNT" "c < EV_OLED_WIDTH"
    "ol_staging_framebuffer ctx' ! q ! c \<noteq> ol_framebuffer ctx' ! q ! c" for q c
  proof -
    have ne: "text_frame ?st cmd q c \<noteq> ol_framebuffer ctx ! q ! c"
      using that render(3) by (simp add: res mark_dirty_keeps)
    have "covered ?c q c \<or> q = dt_page cmd \<and> dt_column cmd \<le> c"
    proof (cases "q = dt_page cmd \<and> dt_column cmd \<le> c")
      case False
      then have "?st ! q ! c \<noteq> ol_framebuffer ctx ! q ! c" using ne by (auto simp: text_frame_def)
      then have "covered ctx q c" using ok that by (simp add: dirty_covers_def)
      then show ?thesis by (simp add: covered_def ostat_def)
    qed simp
    then show ?thesis using that cmd(2) unfolding res(2) by (intro mark_dirty_covered [OF rc]) auto
  qed
  show "rc = EV_OK" by (rule res)
  show "ol_framebuffer ctx' = ol_framebuffer ctx" by (simp add: res mark_dirty_keeps)
  show "dirty_covers ctx'"
    using covs ok render(2) mark_dirty_keeps(3) [OF rc] unfolding dirty_covers_def by (simp add: res mark_dirty_keeps)
  show "ol_pending_flush ctx'" using cmd(2,3) by (simp add: res ev_oled_actor_mark_dirty_def)
  show "ol_staging_framebuffer ctx' ! p ! c = text_frame ?st cmd p c" if "p < EV_OLED_PAGE_COUNT" "c < EV_OLED_WIDTH"
    using that render(3) by (simp add: res mark_dirty_keeps)
qed

lemma display_text_covers:
  assumes ok: "dirty_covers ctx" and h: "ev_oled_actor_handle_display_text mem m ctx = (rc, ctx')"
  shows "dirty_covers ctx'"
proof (cases "\<exists>r. ev_msg_payload_data (Some m) = Some r \<and> ev_msg_payload_size (Some m) = 24")
  case True
  then obtain r where r: "ev_msg_payload_data (Some m) = Some r" "ev_msg_payload_size (Some m) = 24" by auto
  let ?cmd = "display_text_cmd_at (mem r)"
  show ?thesis
  proof (cases "dt_page ?cmd < EV_OLED_PAGE_COUNT \<and> dt_column ?cmd < EV_OLED_WIDTH")
    case True
    then show ?thesis using display_text_staged(2) [OF ok r refl _ _ h] by simp
  next
    case False
    then have "ev_oled_actor_render_text_into f ?cmd = (EV_ERR_OUT_OF_RANGE, f)" for f
      by (auto simp: ev_oled_actor_render_text_into_def)
    then show ?thesis
      using h r ok by (auto simp: ev_oled_actor_handle_display_text_def Let_def stage_frame [OF ok] dirty_covers_def
          covered_def ranges_ok_def ostat_def split: prod.splits if_splits)
  qed
next
  case False
  then show ?thesis using h ok by (auto simp: ev_oled_actor_handle_display_text_def split: option.splits if_splits)
qed

lemma commit_frame_covers:
  assumes ok: "dirty_covers ctx" and h: "ev_oled_actor_handle_commit_frame mem m ctx w = (rc, ctx', w')"
  shows "dirty_covers ctx'"
proof -
  obtain r1 c1 where c1: "ev_oled_actor_prepare_scene_commit (scene_at (mem (the (ev_msg_payload_data (Some m))))) ctx = (r1, c1)"
    by fastforce
  have "dirty_covers c1" by (rule scene_commit_covers [OF ok c1])
  then show ?thesis
    using h ok c1 flush_pending_covers [OF ok, of w] flush_pending_covers [of c1 w]
    by (auto simp: ev_oled_actor_handle_commit_frame_def Let_def split: if_splits)
qed

text \<open>What a message other than a text makes the actor do.\<close>

lemma oled_handle_cases:
  assumes h: "ev_oled_actor_handle lc mem (Some ctx) (Some m) w = (rc, Some ctx', w')"
  obtains (init) c where "ev_oled_actor_try_initialize lc c w = (rc, ctx', w')" "msg_event_id m \<noteq> EV_OLED_COMMIT_FRAME"
      "c = ostat (\<lambda>s. s\<lparr>os_boot_events_seen := os_boot_events_seen s + 1\<rparr>) (ctx\<lparr>ol_boot_observed := True\<rparr>)
       \<or> c = ostat (\<lambda>s. s\<lparr>os_tick_events_seen := os_tick_events_seen s + 1\<rparr>) (ctx\<lparr>ol_tick_counter := ol_tick_counter ctx + 1\<rparr>)"
  | (tick) c where "c = ostat (\<lambda>s. s\<lparr>os_tick_events_seen := os_tick_events_seen s + 1\<rparr>) (ctx\<lparr>ol_tick_counter := ol_tick_counter ctx + 1\<rparr>)"
      "msg_event_id m = EV_TICK_1S"
      "if ol_boot_observed ctx \<and> ol_state ctx = EV_OLED_STATE_READY \<and> ol_pending_flush ctx
       then ev_oled_actor_flush_pending c w = (rc, ctx', w') else rc = EV_OK \<and> ctx' = c \<and> w' = w"
  | (show_text) "msg_event_id m = EV_OLED_DISPLAY_TEXT_CMD" "ev_oled_actor_handle_display_text mem m ctx = (rc, ctx')" "w' = w"
  | (commit) "msg_event_id m = EV_OLED_COMMIT_FRAME" "ev_oled_actor_handle_commit_frame mem m ctx w = (rc, ctx', w')"
  | (other) "rc = EV_ERR_CONTRACT" "ctx' = ctx" "w' = w" "msg_event_id m \<notin> {EV_BOOT_COMPLETED, EV_TICK_1S, EV_OLED_COMMIT_FRAME}"
proof -
  let ?t = "ostat (\<lambda>s. s\<lparr>os_tick_events_seen := os_tick_events_seen s + 1\<rparr>) (ctx\<lparr>ol_tick_counter := ol_tick_counter ctx + 1\<rparr>)"
  obtain r1 c1 where d: "ev_oled_actor_handle_display_text mem m ctx = (r1, c1)" by fastforce
  let ?e = "msg_event_id m"
  consider "?e = EV_BOOT_COMPLETED" | "?e = EV_TICK_1S" | "?e = EV_OLED_DISPLAY_TEXT_CMD" | "?e = EV_OLED_COMMIT_FRAME"
    | "?e \<notin> {EV_BOOT_COMPLETED, EV_TICK_1S, EV_OLED_DISPLAY_TEXT_CMD, EV_OLED_COMMIT_FRAME}" by blast
  then show thesis
  proof cases
    case 1
    then show thesis using h by (intro init) (auto simp: ev_oled_actor_handle_def Let_def split: prod.splits)
  next
    case 2
    then have t: "ev_oled_actor_handle_tick lc ctx w = (rc, ctx', w')"
      using h by (auto simp: ev_oled_actor_handle_def Let_def split: prod.splits)
    note t' = t [unfolded ev_oled_actor_handle_tick_def Let_def]
    show thesis
    proof (cases "ev_oled_actor_try_initialize lc ?t w = (rc, ctx', w')")
      case True
      then show thesis using 2 by (intro init) auto
    next
      case False
      then show thesis using t' 2 by (intro tick [OF refl]) (auto split: if_splits)
    qed
  next
    case 3
    then show thesis using h d by (intro show_text) (auto simp: ev_oled_actor_handle_def)
  next
    case 4
    then show thesis using h by (intro commit) (auto simp: ev_oled_actor_handle_def Let_def split: prod.splits)
  next
    case 5
    then show thesis using h by (intro other) (auto simp: ev_oled_actor_handle_def)
  qed
qed

lemma handle_covers:
  assumes ok: "dirty_covers ctx" and h: "ev_oled_actor_handle lc mem (Some ctx) (Some m) w = (rc, Some ctx', w')"
  shows "dirty_covers ctx'"
  using h
proof (cases rule: oled_handle_cases)
  case (init c)
  then show ?thesis using ok try_initialize_covers [OF _ init(1)] by auto
next
  case (tick c)
  then show ?thesis using ok flush_pending_covers [of c] by (auto split: if_splits)
next
  case show_text
  then show ?thesis using display_text_covers [OF ok] by blast
next
  case commit
  then show ?thesis using commit_frame_covers [OF ok] by blast
next
  case other
  then show ?thesis using ok by simp
qed

section \<open>The panel\<close>

text \<open>
  An SSD1306 by what its data sheet says of the commands the actor uses: the column and page windows with their
  pointers, the addressing mode, and the display memory, in which a byte of data is a column of a page. The other commands
  set up the panel; those with an argument are listed.
\<close>

record ssd1306 =
  ch_mode :: u8
  ch_column_start :: nat
  ch_column_end :: nat
  ch_page_start :: nat
  ch_page_end :: nat
  ch_column :: nat
  ch_page :: nat
  ch_ram :: "nat \<Rightarrow> nat \<Rightarrow> u8"

definition one_argument :: "u8 set" where
  "one_argument = {0x81, 0x8D, 0xA8, 0xAD, 0xD3, 0xD5, 0xD9, 0xDA, 0xDB}"

fun chip_commands :: "u8 list \<Rightarrow> ssd1306 \<Rightarrow> ssd1306" where
  "chip_commands (x # y # z # bs) c =
     (if x = 0x21 then chip_commands bs (c\<lparr>ch_column_start := unat y, ch_column_end := unat z, ch_column := unat y\<rparr>)
      else if x = 0x22 then chip_commands bs (c\<lparr>ch_page_start := unat y, ch_page_end := unat z, ch_page := unat y\<rparr>)
      else if x = 0x20 then chip_commands (z # bs) (c\<lparr>ch_mode := y\<rparr>)
      else if x \<in> one_argument then chip_commands (z # bs) c
      else chip_commands (y # z # bs) c)"
| "chip_commands bs c = (case bs of [x, y] \<Rightarrow> if x = 0x20 then c\<lparr>ch_mode := y\<rparr> else c | _ \<Rightarrow> c)"

text \<open>In mode 0 the column pointer runs through its window and moves on to the next page at its end.\<close>

definition chip_data :: "u8 \<Rightarrow> ssd1306 \<Rightarrow> ssd1306" where
  "chip_data b c =
     (let ram = (ch_ram c)(ch_page c := (ch_ram c (ch_page c))(ch_column c := b)); c = c\<lparr>ch_ram := ram\<rparr>
      in if ch_column c \<noteq> ch_column_end c then c\<lparr>ch_column := ch_column c + 1\<rparr>
         else if ch_mode c \<noteq> 0 then c\<lparr>ch_column := ch_column_start c\<rparr>
         else c\<lparr>ch_column := ch_column_start c,
                ch_page := (if ch_page c = ch_page_end c then ch_page_start c else ch_page c + 1)\<rparr>)"

definition chip_write :: "u8 list \<Rightarrow> ssd1306 \<Rightarrow> ssd1306" where
  "chip_write bytes c =
     (case bytes of [] \<Rightarrow> c | k # bs \<Rightarrow> if k = 0x00 then chip_commands bs c else if k = 0x40 then fold chip_data bs c else c)"

text \<open>The panel's 72 columns are those from 28 on.\<close>

definition visible :: "ssd1306 \<Rightarrow> nat \<Rightarrow> nat \<Rightarrow> u8" where
  "visible c page column = ch_ram c page (column + 28)"

definition displays :: "ssd1306 \<Rightarrow> frame \<Rightarrow> bool" where
  "displays c f \<longleftrightarrow> ch_mode c = 0 \<and> (\<forall>p < EV_OLED_PAGE_COUNT. \<forall>q < EV_OLED_WIDTH. visible c p q = f ! p ! q)"

text \<open>
  The actor's bus leads to the chip \<open>chip w\<close>: a transaction that is acknowledged was received. What is not acknowledged may
  have left anything. Deliveries do not touch the chip.
\<close>

definition panel_bus :: "('w \<Rightarrow> ssd1306) \<Rightarrow> 'w ev_oled_actor_ctx \<Rightarrow> bool" where
  "panel_bus chip ctx \<longleftrightarrow> ol_controller ctx = EV_OLED_CONTROLLER_SSD1306
     \<and> (\<exists>port write. ol_i2c_port ctx = Some port \<and> i2_write_stream port = Some write
          \<and> (\<forall>bs w w'. write (ol_port_num ctx) (ol_device_address_7bit ctx) bs w = (EV_I2C_OK, w') \<longrightarrow> chip w' = chip_write bs (chip w)))
     \<and> (\<forall>d. ol_deliver ctx = Some d \<longrightarrow> (\<forall>t m w. chip (snd (d t m w)) = chip w))"

lemma panel_bus_keeps:
  "bus_only ctx ctx' \<Longrightarrow> panel_bus chip ctx' = panel_bus chip ctx"
  by (simp add: panel_bus_def bus_only_keeps)

lemma panel_bus_fields [simp]:
  "panel_bus chip (ostat f ctx) = panel_bus chip ctx" "panel_bus chip (ctx\<lparr>ol_state := st\<rparr>) = panel_bus chip ctx"
  "panel_bus chip (ctx\<lparr>ol_tick_counter := t\<rparr>) = panel_bus chip ctx" "panel_bus chip (ctx\<lparr>ol_boot_observed := bo\<rparr>) = panel_bus chip ctx"
  "panel_bus chip (ctx\<lparr>ol_staging_framebuffer := sf\<rparr>) = panel_bus chip ctx"
  "panel_bus chip (ctx\<lparr>ol_framebuffer := ff\<rparr>) = panel_bus chip ctx"
  "panel_bus chip (ev_oled_actor_schedule_retry ctx) = panel_bus chip ctx"
  "panel_bus chip (ev_oled_actor_reset_dirty ctx) = panel_bus chip ctx"
  "panel_bus chip (ev_oled_actor_mark_dirty p a b ctx) = panel_bus chip ctx"
  by (simp_all add: panel_bus_def ev_oled_actor_schedule_retry_def ev_oled_actor_reset_dirty_def ev_oled_actor_mark_dirty_def)

text \<open>What an acknowledged transfer makes of the chip.\<close>

lemma write_stream_acknowledged:
  assumes "panel_bus chip ctx" and "ev_oled_actor_write_stream bs ctx w = (EV_I2C_OK, w')"
  shows "chip w' = chip_write bs (chip w)"
  using assms by (auto simp: panel_bus_def ev_oled_actor_write_stream_def)

lemma send_data_acknowledged:
  "panel_bus chip ctx \<Longrightarrow> send_chunks 0x40 bs ctx w = (EV_OK, ctx', w') \<Longrightarrow> chip w' = fold chip_data bs (chip w)"
proof (induction "0x40 :: u8" bs ctx w rule: send_chunks.induct)
  case (1 bs ctx w)
  obtain st w1 where s: "ev_oled_actor_write_stream (0x40 # take EV_OLED_DATA_CHUNK_BYTES bs) ctx w = (st, w1)" by fastforce
  let ?c = "ostat (\<lambda>s. s\<lparr>os_last_i2c_status := st\<rparr>) (ctx\<lparr>ol_last_i2c_status := st\<rparr>)"
  have pb: "panel_bus chip ?c" using "1.prems"(1) by (simp add: panel_bus_def)
  show ?case
  proof (cases "bs = []")
    case True
    then show ?thesis using "1.prems"(2) by (subst (asm) send_chunks.simps) simp
  next
    case False
    have st: "st = EV_I2C_OK" and rest: "send_chunks 0x40 (drop EV_OLED_DATA_CHUNK_BYTES bs) ?c w1 = (EV_OK, ctx', w')"
      using "1.prems"(2) s False by (atomize (full), subst (asm) send_chunks.simps) (simp add: Let_def split: if_splits)
    have "chip w1 = fold chip_data (take EV_OLED_DATA_CHUNK_BYTES bs) (chip w)"
      using write_stream_acknowledged [OF "1.prems"(1) s [unfolded st]] by (simp add: chip_write_def)
    moreover have "chip w' = fold chip_data (drop EV_OLED_DATA_CHUNK_BYTES bs) (chip w1)"
      using "1.hyps" [OF False refl s [symmetric] refl _ pb rest] st by simp
    ultimately show ?thesis by (metis append_take_drop_id fold_append comp_apply)
  qed
qed

lemma send_commands_acknowledged:
  assumes "panel_bus chip ctx" and "bs \<noteq> []" and "length bs \<le> EV_OLED_DATA_CHUNK_BYTES"
    and "ev_oled_actor_send_commands bs ctx w = (EV_OK, ctx', w')"
  shows "chip w' = chip_commands bs (chip w)"
proof -
  obtain st w1 where s: "ev_oled_actor_write_stream (0x00 # bs) ctx w = (st, w1)" by fastforce
  have "st = EV_I2C_OK \<and> w1 = w'"
    using assms(2-4) s
    by (simp add: ev_oled_actor_send_commands_def, subst (asm) send_chunks.simps)
      (simp add: Let_def send_chunks.simps [where bytes = "[]"] split: if_splits)
  then show ?thesis using write_stream_acknowledged [OF assms(1)] s by (simp add: chip_write_def)
qed

text \<open>A run of data inside the column window.\<close>

lemma fold_chip_data:
  assumes "ch_mode c = 0" and "ch_column c + length bs = ch_column_end c + 1 \<or> bs = []"
  shows "ch_mode (fold chip_data bs c) = 0
    \<and> ch_ram (fold chip_data bs c) p q =
        (if p = ch_page c \<and> ch_column c \<le> q \<and> q < ch_column c + length bs then bs ! (q - ch_column c) else ch_ram c p q)"
  using assms
proof (induction bs arbitrary: c)
  case (Cons b bs)
  show ?case
  proof (cases "ch_column c = ch_column_end c")
    case True
    then have "bs = []" using Cons.prems by simp
    then show ?thesis using True Cons.prems(1) by (auto simp: chip_data_def Let_def)
  next
    case False
    let ?c = "c\<lparr>ch_ram := (ch_ram c)(ch_page c := (ch_ram c (ch_page c))(ch_column c := b)), ch_column := ch_column c + 1\<rparr>"
    have c: "chip_data b c = ?c" using False by (simp add: chip_data_def Let_def)
    have bs: "ch_column ?c + length bs = ch_column_end ?c + 1 \<or> bs = []" using Cons.prems(2) by auto
    have "ch_mode ?c = 0" using Cons.prems(1) by simp
    from Cons.IH [OF this bs] show ?thesis by (auto simp: c nth_Cons' Suc_le_eq)
  qed
qed auto

lemma window_acknowledged:
  assumes bus: "panel_bus chip ctx" and mode: "ch_mode (chip w) = 0" and data: "length data = EV_OLED_WIDTH"
    and ok: "ev_oled_actor_apply_address_window p a b data ctx w = (EV_OK, ctx', w')"
  shows "ch_mode (chip w') = 0"
    and "visible (chip w') q c = (if q = p \<and> a \<le> c \<and> c < b then data ! c else visible (chip w) q c)"
proof -
  have r: "p < EV_OLED_PAGE_COUNT" "a < b" "b \<le> EV_OLED_WIDTH"
    using ok by (auto simp: ev_oled_actor_apply_address_window_def split: if_splits)
  have ctl: "ol_controller ctx \<noteq> EV_OLED_CONTROLLER_SH1106" using bus by (simp add: panel_bus_def)
  let ?cmd = "[0x21, of_nat (a + EV_OLED_SSD1306_72X40_COLUMN_OFFSET),
      of_nat (b - 1 + EV_OLED_SSD1306_72X40_COLUMN_OFFSET), 0x22, of_nat p, of_nat p] :: u8 list"
  obtain r1 c1 w1 where s1: "ev_oled_actor_send_commands ?cmd ctx w = (r1, c1, w1)" by (rule prod_cases3)
  have ok1: "r1 = EV_OK" and s2: "send_chunks 0x40 (take (b - a) (drop a data)) c1 w1 = (EV_OK, ctx', w')"
    using ok r ctl s1 by (auto simp: ev_oled_actor_apply_address_window_def ev_oled_actor_send_data_def Let_def split: if_splits)
  have bus1: "panel_bus chip c1"
    using panel_bus_keeps [OF send_chunks_bus_only [OF s1 [unfolded ev_oled_actor_send_commands_def]]] bus by simp
  have small: "unat (of_nat k :: u8) = k" if "k < 256" for k using that by (simp add: unat_of_nat take_bit_nat_eq_self)
  have n: "unat (of_nat (a + 28) :: u8) = a + 28" "unat (of_nat (b - 1 + 28) :: u8) = b - 1 + 28" "unat (of_nat p :: u8) = p"
    using r small [of "a + 28"] small [of "b - 1 + 28"] small [of p] by simp_all
  have c1: "chip w1 = (chip w)\<lparr>ch_column_start := a + 28, ch_column_end := b - 1 + 28, ch_column := a + 28,
      ch_page_start := p, ch_page_end := p, ch_page := p\<rparr>"
    using send_commands_acknowledged [OF bus _ _ s1 [unfolded ok1]] by (simp only: chip_commands.simps n) simp
  have len: "length (take (b - a) (drop a data)) = b - a" using r data by simp
  have "ch_column (chip w1) + length (take (b - a) (drop a data)) = ch_column_end (chip w1) + 1 \<or> take (b - a) (drop a data) = []"
    unfolding len using r by (simp add: c1)
  moreover have "ch_mode (chip w1) = 0" using mode by (simp add: c1)
  ultimately have f: "ch_mode (chip w') = 0 \<and> ch_ram (chip w') x y =
      (if x = ch_page (chip w1) \<and> ch_column (chip w1) \<le> y \<and> y < ch_column (chip w1) + (b - a)
       then take (b - a) (drop a data) ! (y - ch_column (chip w1)) else ch_ram (chip w1) x y)" for x y
    unfolding send_data_acknowledged [OF bus1 s2] using fold_chip_data [of "chip w1" "take (b - a) (drop a data)" x y]
    unfolding len by blast
  show "ch_mode (chip w') = 0" using f by blast
  show "visible (chip w') q c = (if q = p \<and> a \<le> c \<and> c < b then data ! c else visible (chip w) q c)"
    unfolding visible_def using f [of q "c + 28"] r data by (auto simp: c1)
qed

section \<open>The panel follows the frame\<close>

lemma sync_pages_acknowledged:
  assumes "panel_bus chip ctx" and "ch_mode (chip w) = 0" and "frame_ok (ol_framebuffer ctx)" and "set ps \<subseteq> {..<EV_OLED_PAGE_COUNT}"
    and "sync_pages ps ctx w = (EV_OK, ctx', w')"
  shows "ch_mode (chip w') = 0 \<and> (\<forall>q c. q < EV_OLED_PAGE_COUNT \<longrightarrow> c < EV_OLED_WIDTH \<longrightarrow>
    visible (chip w') q c = (if q \<in> set ps then ol_framebuffer ctx ! q ! c else visible (chip w) q c))"
  using assms
proof (induction ps arbitrary: ctx w)
  case (Cons p ps)
  obtain r1 c1 w1 where a: "ev_oled_actor_apply_address_window p 0 EV_OLED_WIDTH (ol_framebuffer ctx ! p) ctx w = (r1, c1, w1)"
    by (rule prod_cases3)
  have ok: "r1 = EV_OK" and rest: "sync_pages ps c1 w1 = (EV_OK, ctx', w')" using Cons.prems(5) a by (auto split: if_splits)
  have "length (ol_framebuffer ctx ! p) = EV_OLED_WIDTH" using Cons.prems(3,4) by (simp add: frame_ok_def)
  note w = window_acknowledged [OF Cons.prems(1,2) this a [unfolded ok]]
  note k = address_window_bus_only [OF a]
  have "ol_framebuffer c1 = ol_framebuffer ctx" "panel_bus chip c1"
    using bus_only_keeps(4) [OF k] panel_bus_keeps [OF k] Cons.prems(1) by simp_all
  with Cons.IH [OF _ w(1) _ _ rest] Cons.prems(3,4) show ?case by (auto simp: w(2))
qed simp

lemma flush_pages_acknowledged:
  assumes "panel_bus chip ctx" and "ch_mode (chip w) = 0" and "dirty_covers ctx" and "set ps \<subseteq> {..<EV_OLED_PAGE_COUNT}"
    and "\<And>q c. q < EV_OLED_PAGE_COUNT \<Longrightarrow> c < EV_OLED_WIDTH \<Longrightarrow>
      visible (chip w) q c \<in> {ol_framebuffer ctx ! q ! c, ol_staging_framebuffer ctx ! q ! c}"
    and "flush_pages ps ctx w = (EV_OK, ctx', w')"
  shows "ch_mode (chip w') = 0 \<and> (\<forall>q c. q < EV_OLED_PAGE_COUNT \<longrightarrow> c < EV_OLED_WIDTH \<longrightarrow>
    (q \<in> set ps \<or> visible (chip w) q c = ol_staging_framebuffer ctx ! q ! c \<longrightarrow>
      visible (chip w') q c = ol_staging_framebuffer ctx ! q ! c))"
  using assms
proof (induction ps arbitrary: ctx w)
  case (Cons p ps)
  let ?st = "ol_staging_framebuffer ctx" and ?fb = "ol_framebuffer ctx"
  let ?a = "ol_dirty_column_start ctx ! p" and ?b = "ol_dirty_column_end ctx ! p"
  have p: "p < EV_OLED_PAGE_COUNT" using Cons.prems(4) by simp
  have cov: "?st ! p ! c \<noteq> ?fb ! p ! c \<Longrightarrow> c < EV_OLED_WIDTH \<Longrightarrow> covered ctx p c" for c
    using Cons.prems(3) p by (simp add: dirty_covers_def)
  have b: "?b \<le> EV_OLED_WIDTH" using Cons.prems(3) p by (simp add: dirty_covers_def ranges_ok_def)
  have bit: "ol_dirty_page_mask ctx AND push_bit p 1 = 0 \<longleftrightarrow> \<not> bit (ol_dirty_page_mask ctx) p"
    unfolding bit_iff_and_push_bit_not_eq_0 by blast
  show ?case
  proof (cases "bit (ol_dirty_page_mask ctx) p \<and> ?a < ?b")
    case False
    then have same: "?st ! p ! c = ?fb ! p ! c" if "c < EV_OLED_WIDTH" for c
      using cov [OF _ that] by (cases "?st ! p ! c = ?fb ! p ! c") (auto simp: covered_def)
    have "flush_pages ps ctx w = (EV_OK, ctx', w')" using Cons.prems(6) False bit by (auto split: if_splits)
    from Cons.IH [OF Cons.prems(1-3) _ Cons.prems(5) this] Cons.prems(4) show ?thesis
      using Cons.prems(5) p same by fastforce
  next
    case True
    obtain r1 c1 w1 where a: "ev_oled_actor_apply_address_window p ?a ?b (?st ! p) ctx w = (r1, c1, w1)" by (rule prod_cases3)
    have ok: "r1 = EV_OK" and rest: "flush_pages ps c1 w1 = (EV_OK, ctx', w')"
      using Cons.prems(6) a True b bit by (auto simp: Let_def split: if_splits)
    have "length (?st ! p) = EV_OLED_WIDTH" using Cons.prems(3) p by (simp add: dirty_covers_def frame_ok_def)
    note w = window_acknowledged [OF Cons.prems(1,2) this a [unfolded ok]]
    note k = address_window_bus_only [OF a]
    have bus: "panel_bus chip c1" using panel_bus_keeps [OF k] Cons.prems(1) by simp
    have written: "visible (chip w1) p c = ?st ! p ! c" if "c < EV_OLED_WIDTH" for c
      using Cons.prems(5) [OF p that] cov [OF _ that]
      by (cases "?st ! p ! c = ?fb ! p ! c") (auto simp: w(2) covered_def)
    have kept: "visible (chip w1) q c \<in> {?fb ! q ! c, ?st ! q ! c}" if "q < EV_OLED_PAGE_COUNT" "c < EV_OLED_WIDTH" for q c
      using Cons.prems(5) [OF that] written [OF that(2)] by (cases "q = p") (auto simp: w(2))
    have k': "dirty_covers c1" "ol_staging_framebuffer c1 = ?st" "ol_framebuffer c1 = ?fb"
      using Cons.prems(3) bus_only_keeps(3-5) [OF k] by simp_all
    have IH: "ch_mode (chip w') = 0 \<and> (\<forall>q c. q < EV_OLED_PAGE_COUNT \<longrightarrow> c < EV_OLED_WIDTH \<longrightarrow>
      (q \<in> set ps \<or> visible (chip w1) q c = ?st ! q ! c \<longrightarrow> visible (chip w') q c = ?st ! q ! c))"
      using Cons.IH [OF bus w(1) k'(1) _ _ rest] Cons.prems(4) kept by (simp add: k')
    have "visible (chip w1) q c = ?st ! q ! c" if "q = p \<or> visible (chip w) q c = ?st ! q ! c" "c < EV_OLED_WIDTH" for q c
      using that written by (cases "q = p") (auto simp: w(2))
    then show ?thesis using IH by auto
  qed
qed simp

text \<open>While it is ready, the actor's frame is on the panel.\<close>

definition panel_in_step :: "('w \<Rightarrow> ssd1306) \<Rightarrow> 'w ev_oled_actor_ctx \<Rightarrow> 'w \<Rightarrow> bool" where
  "panel_in_step chip ctx w \<longleftrightarrow> (ol_state ctx = EV_OLED_STATE_READY \<longrightarrow> displays (chip w) (ol_framebuffer ctx))"

abbreviation flush_failures :: "'w ev_oled_actor_ctx \<Rightarrow> u32" where
  "flush_failures ctx \<equiv> os_flush_failures (ol_stats ctx)"

lemma retry_state [simp]: "ol_state (ev_oled_actor_schedule_retry ctx) = EV_OLED_STATE_ERROR"
  "flush_failures (ev_oled_actor_schedule_retry ctx) = flush_failures ctx"
  "ol_framebuffer (ev_oled_actor_schedule_retry ctx) = ol_framebuffer ctx"
  by (simp_all add: ev_oled_actor_schedule_retry_def)

lemma reset_fields [simp]:
  "ol_state (ev_oled_actor_reset_dirty ctx) = ol_state ctx" "ol_framebuffer (ev_oled_actor_reset_dirty ctx) = ol_framebuffer ctx"
  "ol_staging_framebuffer (ev_oled_actor_reset_dirty ctx) = ol_staging_framebuffer ctx"
  "ol_stats (ev_oled_actor_reset_dirty ctx) = ol_stats ctx" "\<not> ol_pending_flush (ev_oled_actor_reset_dirty ctx)"
  by (simp_all add: ev_oled_actor_reset_dirty_def)

lemma flush_pending_panel:
  assumes bus: "panel_bus chip ctx" and cov: "dirty_covers ctx" and shown: "displays (chip w) (ol_framebuffer ctx)"
    and f: "ev_oled_actor_flush_pending ctx w = (rc, ctx', w')"
  shows "rc = EV_OK \<and> panel_bus chip ctx'
    \<and> (flush_failures ctx' = flush_failures ctx \<and> ol_state ctx' = ol_state ctx \<and> displays (chip w') (ol_framebuffer ctx')
         \<and> ol_framebuffer ctx' = ol_staging_framebuffer ctx \<and> ol_staging_framebuffer ctx' = ol_staging_framebuffer ctx
         \<and> \<not> ol_pending_flush ctx'
       \<or> flush_failures ctx' = flush_failures ctx + 1 \<and> ol_state ctx' = EV_OLED_STATE_ERROR)"
proof (cases "ol_pending_flush ctx")
  case False
  then show ?thesis using assms not_pending_same [OF cov] by (simp add: ev_oled_actor_flush_pending_def)
next
  case True
  let ?c = "ostat (\<lambda>s. s\<lparr>os_flush_attempts := os_flush_attempts s + 1\<rparr>) ctx"
  obtain r c1 w1 where p: "flush_pages [0..<EV_OLED_PAGE_COUNT] ?c w = (r, c1, w1)" by (rule prod_cases3)
  note k = flush_pages_bus_only [OF p]
  note e = f [unfolded flush_pending_eq [OF True p]]
  have bus1: "panel_bus chip c1" using panel_bus_keeps [OF k] bus by simp
  have keep: "flush_failures c1 = flush_failures ctx" "ol_state c1 = ol_state ctx" "ol_staging_framebuffer c1 = ol_staging_framebuffer ctx"
    using bus_only_keeps [OF k] by simp_all
  show ?thesis
  proof (cases "r = EV_OK")
    case False
    then show ?thesis using e bus1 keep by auto
  next
    case True
    have "ch_mode (chip w1) = 0 \<and> (\<forall>q c. q < EV_OLED_PAGE_COUNT \<longrightarrow> c < EV_OLED_WIDTH \<longrightarrow>
        visible (chip w1) q c = ol_staging_framebuffer ctx ! q ! c)"
      using flush_pages_acknowledged [of chip ?c w "[0..<EV_OLED_PAGE_COUNT]" c1 w1] bus cov shown p True
      by (simp add: displays_def atLeast0LessThan del: upt_Suc upt_rec_numeral flush_pages.simps)
    then show ?thesis using e True bus1 keep by (auto simp: displays_def)
  qed
qed

lemma flush_pending_counts:
  assumes "panel_bus chip ctx" and "ev_oled_actor_flush_pending ctx w = (rc, ctx', w')"
  shows "panel_bus chip ctx' \<and> (flush_failures ctx' = flush_failures ctx \<or> flush_failures ctx' = flush_failures ctx + 1)"
proof (cases "ol_pending_flush ctx")
  case True
  obtain r c1 w1 where p: "flush_pages [0..<EV_OLED_PAGE_COUNT]
      (ostat (\<lambda>s. s\<lparr>os_flush_attempts := os_flush_attempts s + 1\<rparr>) ctx) w = (r, c1, w1)" by (rule prod_cases3)
  note k = flush_pages_bus_only [OF p]
  show ?thesis
    using assms(2) [unfolded flush_pending_eq [OF True p]] panel_bus_keeps [OF k] bus_only_keeps(18) [OF k] assms(1)
    by (cases "r = EV_OK") auto
qed (use assms in \<open>simp add: ev_oled_actor_flush_pending_def\<close>)

lemma publish_ready_chip:
  assumes "panel_bus chip ctx" and "ev_oled_actor_publish_ready lc ctx w = (rc, w')"
  shows "chip w' = chip w"
proof (cases "ol_deliver ctx = None \<or> ol_deliver_context ctx = None")
  case False
  then obtain d where d: "ol_deliver ctx = Some d" by auto
  have v: "ev_event_id_is_valid EV_OLED_READY" "ev_actor_id_is_valid ACT_OLED" by code_simp+
  have "published (Some d) (empty_msg EV_OLED_READY ACT_OLED) w = (rc, w')"
    using assms(2) False unfolding ev_oled_actor_publish_ready_def d publish_empty_built [OF v] by (simp split: if_splits)
  moreover have "chip (snd (published (Some d) (empty_msg EV_OLED_READY ACT_OLED) w)) = chip w"
    using assms(1) d by (intro published_keeps [where K = "\<lambda>v. chip v = chip w"]) (auto simp: panel_bus_def)
  ultimately show ?thesis by simp
qed (use assms in \<open>simp add: ev_oled_actor_publish_ready_def\<close>)

lemma init_sequence_mode: "ch_mode (chip_commands k_ev_oled_ssd1306_init c) = 0"
  by (simp add: k_ev_oled_ssd1306_init_def one_argument_def)

lemma sync_full_panel:
  assumes bus: "panel_bus chip ctx" and fb: "frame_ok (ol_framebuffer ctx)" and mode: "ch_mode (chip w) = 0"
    and f: "ev_oled_actor_sync_full_framebuffer ctx w = (rc, ctx', w')"
  shows "panel_bus chip ctx' \<and> ol_framebuffer ctx' = ol_framebuffer ctx
    \<and> (flush_failures ctx' = flush_failures ctx \<and> displays (chip w') (ol_framebuffer ctx) \<or> flush_failures ctx' = flush_failures ctx + 1)"
proof -
  let ?c = "ostat (\<lambda>s. s\<lparr>os_flush_attempts := os_flush_attempts s + 1\<rparr>) ctx"
  obtain r c1 w1 where p: "sync_pages [0..<EV_OLED_PAGE_COUNT] ?c w = (r, c1, w1)" by (rule prod_cases3)
  note k = sync_pages_bus_only [OF p]
  have keep: "panel_bus chip c1" "flush_failures c1 = flush_failures ctx" "ol_framebuffer c1 = ol_framebuffer ctx"
    using panel_bus_keeps [OF k] bus bus_only_keeps(4,18) [OF k] by simp_all
  have "displays (chip w1) (ol_framebuffer ctx)" if "r = EV_OK"
    using sync_pages_acknowledged [of chip ?c w "[0..<EV_OLED_PAGE_COUNT]" c1 w1] bus fb mode p that
    by (simp add: displays_def atLeast0LessThan del: upt_Suc upt_rec_numeral sync_pages.simps)
  then show ?thesis
    using sync_full_eq [OF p] f keep by (cases "r = EV_OK") auto
qed

lemma try_initialize_panel:
  assumes bus: "panel_bus chip ctx" and cov: "dirty_covers ctx" and t: "ev_oled_actor_try_initialize lc ctx w = (rc, ctx', w')"
  shows "panel_bus chip ctx' \<and> (flush_failures ctx' \<noteq> flush_failures ctx
    \<or> panel_in_step chip ctx' w' \<and> (rc = EV_OK \<and> ol_state ctx' = EV_OLED_STATE_READY \<longrightarrow> \<not> ol_pending_flush ctx'))"
  using t
proof (cases rule: try_initialize_cases)
  case (failed r1 c1)
  note k = send_chunks_bus_only [OF failed(1) [unfolded ev_oled_actor_send_commands_def]]
  show ?thesis using failed(3) panel_bus_keeps [OF k] bus by (simp add: panel_in_step_def)
next
  case (synced c1 w1 c2 w2 c3 r3 w3)
  note k = send_chunks_bus_only [OF synced(1) [unfolded ev_oled_actor_send_commands_def]]
  have bus1: "panel_bus chip c1" and cov1: "dirty_covers c1" and f1: "flush_failures c1 = flush_failures ctx"
    using panel_bus_keeps [OF k] bus bus_only_keeps(3,18) [OF k] cov by simp_all
  have seq: "init_sequence_of ctx = k_ev_oled_ssd1306_init" using bus by (simp add: panel_bus_def init_sequence_of_def)
  have "chip w1 = chip_commands (init_sequence_of ctx) (chip w)"
    by (rule send_commands_acknowledged [OF _ _ _ synced(1)]) (simp_all add: bus seq, simp_all add: k_ev_oled_ssd1306_init_def)
  then have "ch_mode (chip w1) = 0" by (simp add: seq init_sequence_mode)
  from sync_full_panel [OF bus1 _ this synced(2)] cov1 have S: "panel_bus chip c2" "ol_framebuffer c2 = ol_framebuffer c1"
    "flush_failures c2 = flush_failures c1 \<and> displays (chip w2) (ol_framebuffer c1) \<or> flush_failures c2 = flush_failures c1 + 1"
    by (auto simp: dirty_covers_def)
  have c3: "panel_bus chip c3" "dirty_covers c3" "ol_framebuffer c3 = ol_framebuffer c1" "flush_failures c3 = flush_failures c2"
    using S sync_full_covers [OF cov1 synced(2)] by (simp_all add: synced(3))
  have w3: "chip w3 = chip w2" by (rule publish_ready_chip [OF c3(1) synced(4)])
  show ?thesis
  proof (cases "r3 \<noteq> EV_OK \<or> \<not> ol_pending_flush c3")
    case True
    then have "rc = r3" "ctx' = c3" "w' = w3" using synced(5) by auto
    then show ?thesis using True S(3) c3 f1 w3 by (auto simp: panel_in_step_def)
  next
    case False
    then have f: "ev_oled_actor_flush_pending c3 w3 = (rc, ctx', w')" using synced(5) by auto
    show ?thesis
    proof (cases "displays (chip w2) (ol_framebuffer c1) \<and> flush_failures c2 = flush_failures c1")
      case True
      from flush_pending_panel [OF c3(1,2) _ f] True c3 w3 f1 show ?thesis by (auto simp: panel_in_step_def)
    next
      case False
      then have f2: "flush_failures c3 = flush_failures ctx + 1" using S(3) c3(4) f1 by auto
      have "panel_bus chip ctx' \<and> (flush_failures ctx' = flush_failures c3 \<or> flush_failures ctx' = flush_failures c3 + 1)"
        by (rule flush_pending_counts [OF c3(1) f])
      then show ?thesis using f2 by auto
    qed
  qed
qed

lemma mark_dirty_other:
  "ol_framebuffer (ev_oled_actor_mark_dirty p a b ctx) = ol_framebuffer ctx"
  "ol_state (ev_oled_actor_mark_dirty p a b ctx) = ol_state ctx" "ol_stats (ev_oled_actor_mark_dirty p a b ctx) = ol_stats ctx"
  "ol_i2c_port (ev_oled_actor_mark_dirty p a b ctx) = ol_i2c_port ctx"
  "ol_controller (ev_oled_actor_mark_dirty p a b ctx) = ol_controller ctx"
  "ol_boot_observed (ev_oled_actor_mark_dirty p a b ctx) = ol_boot_observed ctx"
  by (simp_all add: ev_oled_actor_mark_dirty_def)

lemma scene_commit_keeps:
  assumes "ev_oled_actor_prepare_scene_commit scene ctx = (rc, ctx')"
  shows "ol_framebuffer ctx' = ol_framebuffer ctx \<and> ol_state ctx' = ol_state ctx \<and> ol_stats ctx' = ol_stats ctx
    \<and> panel_bus chip ctx' = panel_bus chip ctx"
proof -
  have m: "ol_framebuffer (fold mark_difference xs c) = ol_framebuffer c \<and> ol_state (fold mark_difference xs c) = ol_state c
    \<and> ol_stats (fold mark_difference xs c) = ol_stats c \<and> panel_bus chip (fold mark_difference xs c) = panel_bus chip c" for xs c
    by (induction xs arbitrary: c) (auto simp: mark_difference_def mark_dirty_other split: prod.splits)
  show ?thesis
    using assms unfolding ev_oled_actor_prepare_scene_commit_def Let_def
    by (auto simp: m simp del: fold_append draw_lines.simps upt_Suc upt_rec_numeral split: if_splits prod.splits)
qed

lemma commit_frame_panel:
  assumes bus: "panel_bus chip ctx" and cov: "dirty_covers ctx" and step: "panel_in_step chip ctx w"
    and h: "ev_oled_actor_handle_commit_frame mem m ctx w = (rc, ctx', w')"
  shows "panel_bus chip ctx' \<and> (flush_failures ctx' \<noteq> flush_failures ctx
    \<or> panel_in_step chip ctx' w' \<and> (rc = EV_OK \<and> ol_state ctx' = EV_OLED_STATE_READY \<longrightarrow> \<not> ol_pending_flush ctx'))"
proof -
  let ?sc = "scene_at (mem (the (ev_msg_payload_data (Some m))))"
  obtain r1 c1 where c1: "ev_oled_actor_prepare_scene_commit ?sc ctx = (r1, c1)" by fastforce
  note K = scene_commit_keeps [OF c1, of chip] scene_commit_covers [OF cov c1]
  have step1: "panel_in_step chip c1 w" using K(1) step by (simp add: panel_in_step_def)
  have flush: "panel_bus chip ctx' \<and> (flush_failures ctx' \<noteq> flush_failures ctx \<or> panel_in_step chip ctx' w' \<and> \<not> ol_pending_flush ctx')"
    if "ev_oled_actor_flush_pending c w = (rc, ctx', w')" "c = ctx \<or> c = c1" "ol_state c = EV_OLED_STATE_READY" for c
  proof -
    have c: "panel_bus chip c" "dirty_covers c" "displays (chip w) (ol_framebuffer c)" "flush_failures c = flush_failures ctx"
      using that(2,3) K bus cov step step1 by (auto simp: panel_in_step_def)
    from flush_pending_panel [OF c(1-3) that(1)] c(4) show ?thesis by (auto simp: panel_in_step_def)
  qed
  have quiet: "panel_bus chip c \<and> flush_failures c = flush_failures ctx \<and> panel_in_step chip c w" if "c = ctx \<or> c = c1" for c
    using that K bus step step1 by auto
  consider c where "ev_oled_actor_flush_pending c w = (rc, ctx', w')" "c = ctx \<or> c = c1" "ol_state c = EV_OLED_STATE_READY"
    | "ctx' = ctx \<or> ctx' = c1" "w' = w" "rc \<noteq> EV_OK \<or> \<not> ol_pending_flush ctx' \<or> ol_state ctx' \<noteq> EV_OLED_STATE_READY"
    using h c1 unfolding ev_oled_actor_handle_commit_frame_def Let_def by (auto split: if_splits)
  then show ?thesis
  proof cases
    case 1
    then show ?thesis using flush by blast
  next
    case 2
    then show ?thesis using quiet [OF 2(1)] by blast
  qed
qed

lemma display_text_keeps:
  assumes "dirty_covers ctx" and "ev_oled_actor_handle_display_text mem m ctx = (rc, ctx')"
  shows "ol_framebuffer ctx' = ol_framebuffer ctx \<and> ol_state ctx' = ol_state ctx \<and> flush_failures ctx' = flush_failures ctx
    \<and> panel_bus chip ctx' = panel_bus chip ctx \<and> ol_i2c_port ctx' = ol_i2c_port ctx \<and> ol_controller ctx' = ol_controller ctx
    \<and> ol_boot_observed ctx' = ol_boot_observed ctx"
  using assms(2)
  by (auto simp: ev_oled_actor_handle_display_text_def Let_def stage_frame [OF assms(1)] mark_dirty_other
      split: option.splits if_splits prod.splits)

text \<open>An initialised actor marks nothing and waits for the boot.\<close>

lemma init_establishes:
  assumes "ev_oled_actor_init (Some c) port port_num addr controller deliver dc = (EV_OK, Some ctx)"
  shows "dirty_covers ctx" and "panel_in_step chip ctx w"
proof -
  have "ol_state ctx = EV_OLED_STATE_WAIT_BOOT" and r: "\<exists>c. ctx = ev_oled_actor_reset_dirty c \<and> ol_framebuffer c = blank_frame
      \<and> ol_staging_framebuffer c = ol_framebuffer c"
    using assms by (auto simp: ev_oled_actor_init_def split: if_splits)
  then show "panel_in_step chip ctx w" by (simp add: panel_in_step_def)
  show "dirty_covers ctx" using r by (auto intro!: reset_dirty_clean)
qed

text \<open>
  C22: the panel follows the actor's frame. While the actor is ready, the panel shows the frame the actor keeps as shown;
  and after a boot or a committed frame that was handled with success and left it ready, or a tick that found it ready,
  nothing is pending, so the panel shows everything that was drawn. This is kept by every message, on a bus where
  acknowledged transactions reach the chip and others may leave anything, unless the message counts a failed transfer:
  then the actor is in error and will initialise the panel again, except that a failure to write the whole frame during an
  initialisation leaves it ready.
\<close>

theorem panel_follows_frame:
  assumes bus: "panel_bus chip ctx" and cov: "dirty_covers ctx" and step: "panel_in_step chip ctx w"
    and h: "ev_oled_actor_handle lc mem (Some ctx) (Some m) w = (rc, Some ctx', w')"
    and ok: "flush_failures ctx' = flush_failures ctx"
  shows "panel_bus chip ctx' \<and> dirty_covers ctx' \<and> panel_in_step chip ctx' w'
    \<and> (rc = EV_OK \<and> ol_state ctx' = EV_OLED_STATE_READY
        \<and> (msg_event_id m \<in> {EV_BOOT_COMPLETED, EV_OLED_COMMIT_FRAME} \<or> msg_event_id m = EV_TICK_1S \<and> ol_boot_observed ctx)
       \<longrightarrow> displays (chip w') (ol_staging_framebuffer ctx'))"
proof -
  note cov' = handle_covers [OF cov h]
  have *: "panel_bus chip ctx' \<and> panel_in_step chip ctx' w'
    \<and> (rc = EV_OK \<and> ol_state ctx' = EV_OLED_STATE_READY
        \<and> (msg_event_id m \<in> {EV_BOOT_COMPLETED, EV_OLED_COMMIT_FRAME} \<or> msg_event_id m = EV_TICK_1S \<and> ol_boot_observed ctx)
       \<longrightarrow> \<not> ol_pending_flush ctx')"
    using h
  proof (cases rule: oled_handle_cases)
    case (init c)
    have "panel_bus chip c" "dirty_covers c" "flush_failures c = flush_failures ctx" using init(3) bus cov by auto
    from try_initialize_panel [OF this(1,2) init(1)] this(3) ok show ?thesis by auto
  next
    case (tick c)
    have c: "panel_bus chip c" "dirty_covers c" "flush_failures c = flush_failures ctx" "ol_framebuffer c = ol_framebuffer ctx"
      "ol_state c = ol_state ctx" "ol_pending_flush c = ol_pending_flush ctx" "panel_in_step chip c w"
      using tick(1) bus cov step by (auto simp: panel_in_step_def)
    show ?thesis
    proof (cases "ol_boot_observed ctx \<and> ol_state ctx = EV_OLED_STATE_READY \<and> ol_pending_flush ctx")
      case True
      then have f: "ev_oled_actor_flush_pending c w = (rc, ctx', w')" using tick(3) by simp
      have "displays (chip w) (ol_framebuffer c)" using True step c(4) by (simp add: panel_in_step_def)
      from flush_pending_panel [OF c(1,2) this f] ok c(3) show ?thesis by (auto simp: panel_in_step_def)
    next
      case False
      then have "rc = EV_OK \<and> ctx' = c \<and> w' = w" using tick(3) by (simp split: if_splits)
      then show ?thesis using c False tick(2) by auto
    qed
  next
    case show_text
    then show ?thesis using display_text_keeps [OF cov show_text(2), of chip] bus step by (auto simp: panel_in_step_def)
  next
    case commit
    from commit_frame_panel [OF bus cov step commit(2)] ok show ?thesis by auto
  next
    case other
    then show ?thesis using bus step by auto
  qed
  with cov' not_pending_same [OF cov'] show ?thesis by (auto simp: panel_in_step_def)
qed

section \<open>A panel at work\<close>

text \<open>On a bus that acknowledges everything, a tick flushes what is pending.\<close>

definition acknowledging :: "'w ev_oled_actor_ctx \<Rightarrow> bool" where
  "acknowledging ctx \<longleftrightarrow> ol_controller ctx = EV_OLED_CONTROLLER_SSD1306
     \<and> (\<exists>port write. ol_i2c_port ctx = Some port \<and> i2_write_stream port = Some write \<and> (\<forall>p a bs w. fst (write p a bs w) = EV_I2C_OK))"

lemma acknowledging_keeps: "bus_only ctx ctx' \<Longrightarrow> acknowledging ctx' = acknowledging ctx"
  by (simp add: acknowledging_def bus_only_keeps)

lemma send_chunks_succeeds: "acknowledging ctx \<Longrightarrow> fst (send_chunks k bs ctx w) = EV_OK"
proof (induction k bs ctx w rule: send_chunks.induct)
  case (1 k bs ctx w)
  obtain st w1 where s: "ev_oled_actor_write_stream (k # take EV_OLED_DATA_CHUNK_BYTES bs) ctx w = (st, w1)" by fastforce
  then have st: "st = EV_I2C_OK" using "1.prems" by (auto simp: acknowledging_def ev_oled_actor_write_stream_def) (metis fst_conv)
  let ?c = "ostat (\<lambda>s. s\<lparr>os_last_i2c_status := st\<rparr>) (ctx\<lparr>ol_last_i2c_status := st\<rparr>)"
  have c: "acknowledging ?c" using "1.prems" by (simp add: acknowledging_def)
  have IH: "fst (send_chunks k (drop EV_OLED_DATA_CHUNK_BYTES bs) ?c w1) = EV_OK" if "bs \<noteq> []"
    using "1.IH" [OF that refl s [symmetric] refl _ c] st by simp
  show ?case
  proof (cases "bs = []")
    case True
    then show ?thesis by (subst send_chunks.simps) simp
  next
    case False
    then show ?thesis using s st IH by (subst send_chunks.simps) (simp add: Let_def)
  qed
qed

lemma window_succeeds:
  assumes "acknowledging ctx" and "p < EV_OLED_PAGE_COUNT" and "a < b" and "b \<le> EV_OLED_WIDTH"
  shows "fst (ev_oled_actor_apply_address_window p a b data ctx w) = EV_OK"
proof -
  let ?cmd = "[0x21, of_nat (a + EV_OLED_SSD1306_72X40_COLUMN_OFFSET),
      of_nat (b - 1 + EV_OLED_SSD1306_72X40_COLUMN_OFFSET), 0x22, of_nat p, of_nat p] :: u8 list"
  obtain r1 c1 w1 where s1: "send_chunks EV_OLED_CONTROL_CMD ?cmd ctx w = (r1, c1, w1)" by (rule prod_cases3)
  have "r1 = EV_OK" using send_chunks_succeeds [OF assms(1), of EV_OLED_CONTROL_CMD ?cmd w] s1 by simp
  moreover have "acknowledging c1" using acknowledging_keeps [OF send_chunks_bus_only [OF s1]] assms(1) by simp
  ultimately show ?thesis
    using assms s1 send_chunks_succeeds [of c1]
    by (simp add: ev_oled_actor_apply_address_window_def ev_oled_actor_send_commands_def ev_oled_actor_send_data_def acknowledging_def)
qed

lemma flush_pages_succeeds:
  "acknowledging ctx \<Longrightarrow> set ps \<subseteq> {..<EV_OLED_PAGE_COUNT} \<Longrightarrow> fst (flush_pages ps ctx w) = EV_OK"
proof (induction ps arbitrary: ctx w)
  case (Cons p ps)
  let ?a = "ol_dirty_column_start ctx ! p" and ?b = "ol_dirty_column_end ctx ! p"
  obtain r1 c1 w1 where a: "ev_oled_actor_apply_address_window p ?a ?b (ol_staging_framebuffer ctx ! p) ctx w = (r1, c1, w1)"
    by (rule prod_cases3)
  have c1: "acknowledging c1" using acknowledging_keeps [OF address_window_bus_only [OF a]] Cons.prems(1) by simp
  have ps: "set ps \<subseteq> {..<EV_OLED_PAGE_COUNT}" and p: "p < EV_OLED_PAGE_COUNT" using Cons.prems(2) by auto
  have "r1 = EV_OK" if "?a < ?b" "?b \<le> EV_OLED_WIDTH"
    using window_succeeds [OF Cons.prems(1) p that, of "ol_staging_framebuffer ctx ! p" w] a by simp
  then show ?case using Cons.IH [OF c1 ps] Cons.IH [OF Cons.prems(1) ps] a by (auto simp: Let_def)
qed simp

lemma tick_flushes:
  assumes "acknowledging ctx" and "ol_boot_observed ctx" and "ol_state ctx = EV_OLED_STATE_READY" and "ol_pending_flush ctx"
    and "msg_event_id m = EV_TICK_1S"
  shows "\<exists>ctx' w'. ev_oled_actor_handle lc mem (Some ctx) (Some m) w = (EV_OK, Some ctx', w') \<and> flush_failures ctx' = flush_failures ctx
    \<and> ol_state ctx' = EV_OLED_STATE_READY \<and> ol_staging_framebuffer ctx' = ol_staging_framebuffer ctx"
proof -
  let ?t = "ostat (\<lambda>s. s\<lparr>os_tick_events_seen := os_tick_events_seen s + 1\<rparr>) (ctx\<lparr>ol_tick_counter := ol_tick_counter ctx + 1\<rparr>)"
  let ?c = "ostat (\<lambda>s. s\<lparr>os_flush_attempts := os_flush_attempts s + 1\<rparr>) ?t"
  obtain r c1 w1 where p: "flush_pages [0..<EV_OLED_PAGE_COUNT] ?c w = (r, c1, w1)" by (rule prod_cases3)
  have "acknowledging ?c" using assms(1) by (simp add: acknowledging_def)
  then have r: "r = EV_OK" using flush_pages_succeeds [of ?c "[0..<EV_OLED_PAGE_COUNT]" w] p by (simp add: subset_iff)
  have pend: "ol_pending_flush ?t" using assms(4) by simp
  note k = bus_only_keeps(5,16,18) [OF flush_pages_bus_only [OF p]]
  show ?thesis
    using assms flush_pending_eq [OF pend p] r k
    by (simp add: ev_oled_actor_handle_def ev_oled_actor_handle_tick_def Let_def)
qed

text \<open>A bus that acknowledges everything, with a ready actor and a blank panel.\<close>

definition demo_oled_port :: "ssd1306 ev_i2c_port" where
  "demo_oled_port = \<lparr>i2_ctx = Some 1, i2_write_stream = Some (\<lambda>p a bs c. (EV_I2C_OK, chip_write bs c)), i2_read_stream = None,
     i2_write_regs = None, i2_read_regs = None\<rparr>"

definition ready_oled :: "'w ev_i2c_port \<Rightarrow> 'w ev_delivery_fn \<Rightarrow> ev_oled_actor_state \<Rightarrow> 'w ev_oled_actor_ctx" where
  "ready_oled port d st = ev_oled_actor_reset_dirty
     \<lparr>ol_i2c_port = Some port, ol_deliver = Some d, ol_deliver_context = Some 1,
      ol_port_num = 0, ol_device_address_7bit = 0x3C, ol_controller = EV_OLED_CONTROLLER_SSD1306, ol_state = st,
      ol_last_i2c_status = EV_I2C_OK, ol_tick_counter = 0, ol_retry_due_tick = 0, ol_retry_delay_ticks = 5,
      ol_boot_observed = True, ol_pending_flush = False, ol_dirty_page_mask = 0, ol_dirty_column_start = [],
      ol_dirty_column_end = [], ol_framebuffer = blank_frame, ol_staging_framebuffer = blank_frame, ol_stats = zero_oled_stats\<rparr>"

definition demo_chip :: ssd1306 where
  "demo_chip = \<lparr>ch_mode = 0, ch_column_start = 0, ch_column_end = 0, ch_page_start = 0, ch_page_end = 0, ch_column = 0,
     ch_page = 0, ch_ram = (\<lambda>p c. 0)\<rparr>"

text \<open>The text A in the last cell of page 2, and the context that has it pending.\<close>

definition demo_text_msg :: ev_msg where
  "demo_text_msg = inline_msg EV_OLED_DISPLAY_TEXT_CMD ACT_APP ([2, 66, 65] @ replicate 21 0)"

definition demo_drawn :: "ssd1306 ev_oled_actor_ctx" where
  "demo_drawn = snd (ev_oled_actor_handle_display_text message_memory demo_text_msg
     (ready_oled demo_oled_port (\<lambda>t m c. (EV_OK, c)) EV_OLED_STATE_READY))"

definition demo_oled_lifecycle :: "'w ev_lifecycle" where
  "demo_oled_lifecycle = \<lparr>lc_retain = \<lambda>f c d n s. (EV_OK, s), lc_release = \<lambda>f c d n s. s\<rparr>"

theorem panel_follows_frame_witness:
  "\<exists>ctx c. ev_oled_actor_handle demo_oled_lifecycle message_memory (Some demo_drawn) (Some (demo_publish_msg EV_TICK_1S)) demo_chip
       = (EV_OK, Some ctx, c)
     \<and> visible c 2 66 = 0x7E \<and> visible c 2 67 = 0x11 \<and> visible c 2 65 = 0"
proof -
  let ?d = "\<lambda>t m (c :: ssd1306). (EV_OK, c)"
  let ?h = "ev_oled_actor_handle demo_oled_lifecycle message_memory (Some demo_drawn) (Some (demo_publish_msg EV_TICK_1S)) demo_chip"
  have cov0: "dirty_covers (ready_oled demo_oled_port ?d EV_OLED_STATE_READY)"
    unfolding ready_oled_def by (rule reset_dirty_clean) simp_all
  obtain rc where t: "ev_oled_actor_handle_display_text message_memory demo_text_msg (ready_oled demo_oled_port ?d EV_OLED_STATE_READY)
      = (rc, demo_drawn)" unfolding demo_drawn_def by (metis prod.collapse)
  note cov = display_text_covers [OF cov0 t]
  note k = display_text_keeps [OF cov0 t, where chip = "\<lambda>c. c"]
  have bus: "panel_bus (\<lambda>c. c) demo_drawn"
    using k by (simp add: panel_bus_def ready_oled_def ev_oled_actor_reset_dirty_def demo_oled_port_def)
  have "displays demo_chip blank_frame" by (simp add: displays_def visible_def demo_chip_def blank_frame_def)
  then have step: "panel_in_step (\<lambda>c. c) demo_drawn demo_chip"
    using k by (simp add: panel_in_step_def ready_oled_def)
  have active: "acknowledging demo_drawn" "ol_boot_observed demo_drawn" "ol_pending_flush demo_drawn" "ol_state demo_drawn = EV_OLED_STATE_READY"
  proof -
    show "acknowledging demo_drawn" "ol_boot_observed demo_drawn" "ol_state demo_drawn = EV_OLED_STATE_READY"
      using k by (simp_all add: acknowledging_def ready_oled_def ev_oled_actor_reset_dirty_def demo_oled_port_def)
    show "ol_pending_flush demo_drawn" by code_simp
  qed
  note boot = active(2)
  have tick: "msg_event_id (demo_publish_msg EV_TICK_1S) = EV_TICK_1S" by code_simp
  from tick_flushes [OF active(1,2,4,3) tick] obtain ctx c where
    h: "?h = (EV_OK, Some ctx, c)" "flush_failures ctx = flush_failures demo_drawn" "ol_state ctx = EV_OLED_STATE_READY"
    and st: "ol_staging_framebuffer ctx = ol_staging_framebuffer demo_drawn"
    by blast
  have "displays c (ol_staging_framebuffer ctx)"
    using panel_follows_frame [OF bus cov step h(1,2)] h(3) boot tick by simp
  moreover have "ol_staging_framebuffer demo_drawn ! 2 ! 66 = 0x7E" "ol_staging_framebuffer demo_drawn ! 2 ! 67 = 0x11"
    "ol_staging_framebuffer demo_drawn ! 2 ! 65 = 0"
    by code_simp+
  ultimately show ?thesis using h(1) by (simp add: displays_def st)
qed

text \<open>
  A bus whose fifth transaction is not acknowledged: the initialisation fails to write the frame, and yet counts as a success,
  leaves the actor ready and announces it.
\<close>

definition failing_port :: "(nat \<times> nat) ev_i2c_port" where
  "failing_port = \<lparr>i2_ctx = Some 1, i2_write_stream = Some (\<lambda>p a bs (n, r). (if n = 4 then EV_I2C_ERR_NACK else EV_I2C_OK, (n + 1, r))),
     i2_read_stream = None, i2_write_regs = None, i2_read_regs = None\<rparr>"

lemma failed_sync_reports_ready:
  "case ev_oled_actor_try_initialize demo_oled_lifecycle
     (ready_oled failing_port (\<lambda>t m (n, r). (EV_OK, (n, r + 1))) EV_OLED_STATE_WAIT_BOOT) (0, 0) of
   (rc, ctx, (n, ready)) \<Rightarrow> rc = EV_OK \<and> ol_state ctx = EV_OLED_STATE_READY \<and> flush_failures ctx = 1
     \<and> os_init_successes (ol_stats ctx) = 1 \<and> os_init_failures (ol_stats ctx) = 0 \<and> n = 5 \<and> 0 < ready"
  by code_simp

end
