(* ===== verification/Spec2Isabelle.thy ===== *)
theory Spec2Isabelle
  imports EvSystemPump EvQueuedLeases EvIngress EvNetworkOutbox EvTraceRing EvFaultBus EvPowerMachine
    EvTimerService EvRuntimeLoop EvCommandActor EvWatchdogActor EvSupervisorActor EvPowerActor
    EvDs18b20Actor EvRtcActor EvBh1750Actor EvMcp23008Actor EvPanelActor EvNetworkActor EvPublishPort
    EvCommandSecurity EvBuilderConfig EvOledPanel
begin

text \<open>
  A static-memory, event-driven framework for small devices, with its drivers and actors. Messages are envelopes with an
  event, a source, a target and a payload. A payload is copied inline or leased from a pool of fixed slots. Each actor has
  a bounded mailbox and a handler; routes say which actors an event goes to. A poll of the node's runtime collects what
  interrupts left in the ingress ring, fires the timers that are due, lets the domain pumps call handlers within budgets,
  and a quiescence report decides whether the node may sleep. Everything runs on one thread; a handler may publish and
  send, which puts messages into mailboxes, and it never waits.

  \<^bold>\<open>Theories and sources.\<close> Definitions carry the names of the C functions and types; a part of a function that the model
  names has a name of its own, and its place is given in the manifest. Structs are records, enumerations are datatypes (or
  words, where the code accepts values that are not listed), \<open>uint32_t\<close> and its kin are words that wrap, sizes and indices
  are natural numbers, a \<open>NULL\<close>-able pointer is an \<open>option\<close>, and each \<open>ev_result_t\<close> is a constructor of one datatype.
  An object is updated and returned; where objects refer to each other (mailboxes, runtimes, registries and pumps) they
  live in the store \<open>ev_sys\<close> and are named by their index.

  \<^item> Vocabulary: \<open>EvPrelude\<close>, \<open>EvCatalog\<close> (\<open>core/src/ev_event_catalog.c\<close>, \<open>ev_actor_catalog.c\<close> and the tables of
    \<open>config/\<close>), \<open>EvRouteTable\<close> (\<open>core/src/ev_route_table.c\<close> with its generated tables), \<open>EvSpanIndex\<close> (the lookup contract
    of the two route tables).
  \<^item> Messages and queues: \<open>EvMsg\<close> (\<open>core/src/ev_msg.c\<close>, \<open>ev_dispose.c\<close>), \<open>EvLeasePool\<close> (\<open>core/src/ev_lease_pool.c\<close>),
    \<open>EvQueueSpec\<close> and \<open>EvSeqRing\<close> (queue contracts), \<open>EvMailbox\<close> (\<open>core/src/ev_mailbox.c\<close>), \<open>EvQueuedLeases\<close> and
    \<open>EvPayloadFrame\<close> (leases inside mailboxes).
  \<^item> Scheduling: \<open>EvSystem\<close> (the store), \<open>EvActorRuntime\<close>, \<open>EvPublish\<close>, \<open>EvDomainPump\<close>, \<open>EvSystemPump\<close> (\<open>core/src/\<close>, files of
    the same names).
  \<^item> Services of a node (\<open>runtime/src/\<close>): \<open>EvIngress\<close>, \<open>EvNetworkOutbox\<close>, \<open>EvTraceRing\<close>, \<open>EvFaultBus\<close>, \<open>EvMetrics\<close>,
    \<open>EvTimerService\<close>, \<open>EvPowerMachine\<close>, \<open>EvActiveRoutes\<close>, \<open>EvModules\<close>, \<open>EvQosContract\<close>, \<open>EvCommandSecurity\<close>.
  \<^item> The node (\<open>runtime/src/\<close>): \<open>EvGraph\<close> (the record of all services), \<open>EvDelivery\<close>, \<open>EvPublishPort\<close>, \<open>EvScheduler\<close>,
    \<open>EvQuiescence\<close>, \<open>EvPowerManager\<close>, \<open>EvBuilder\<close> with \<open>EvBuilderConfig\<close> and \<open>EvGraphBuild\<close> (what configuring and building
    establish), \<open>EvRuntimeLoop\<close>.
  \<^item> Framework actors (\<open>actors/framework/\<close>): \<open>EvActorMsg\<close> (what they share), \<open>EvCommandActor\<close>, \<open>EvPowerActor\<close>,
    \<open>EvWatchdogActor\<close>, \<open>EvSupervisorActor\<close>, \<open>EvNetworkActor\<close>.
  \<^item> Drivers and device actors (\<open>drivers/src/\<close>, \<open>actors/device/\<close>): \<open>EvDeviceIo\<close> (bus contracts and shared steps),
    \<open>EvDs18b20Driver\<close> and \<open>EvDs18b20Actor\<close>, \<open>EvBh1750Actor\<close>, \<open>EvRtcActor\<close>, \<open>EvMcp23008Actor\<close>, \<open>EvPanelActor\<close>, \<open>EvOledActor\<close>
    and \<open>EvOledPanel\<close>.

  \<^bold>\<open>What code outside the model is.\<close> The handlers of a node, payload callbacks, ports (buses, network, log, system, watchdog,
  clock) and the delivery function of an actor are parameters, functions on a world \<open>'w\<close> that the definitions thread
  through. A theorem names what it assumes of them: that handlers change their own world only and succeed
  (\<open>quiet_env\<close>), that they leave the system pump alone (\<open>pump_blind\<close>), or that a chip behind a bus behaves as its data sheet says when a transaction is acknowledged.

  \<^bold>\<open>What the theorems show.\<close>
  \<^item> Queues implement lists: the mailbox of each kind and quality class, the ingress ring and the outbox, over any
    interleaving of operations and over the wrap of their counters. The contracts are the locales of \<open>EvQueueSpec\<close>,
    interpreted on each of them.
  \<^item> Payloads: the shares of a lease are in balance over attaching, queueing, popping, resetting and disposing, on the error
    paths too.
  \<^item> Delivery: a published message reaches each subscriber exactly once, in table order; the loops over a table equal a
    fan-out over a list of targets; routes that are not enabled are left out; a send follows its planned route.
  \<^item> Scheduling: pumps handle messages in order and within budget, and stop at the first failure; a poll loses and invents no
    message; one run of the main loop returns, with \<open>EV_OK\<close> only when nothing is left.
  \<^item> Services: timers fire exactly the due slots and their tokens go stale, the fault registry is a bounded keyed table, a
    sleep is permitted exactly when nothing blocks it.
  \<^item> Building: exactly the admitted actors are requested, and a built node is in order with exactly those registered.
  \<^item> Framework actors: no command acts without its token, topic, capability and nonce; sleep makes its calls in order and
    undoes them; a stalled node starves the watchdog; telemetry reads back and keeps its rate; the network port is used
    only while connected.
  \<^item> Devices: times, temperatures and buttons are what the registers, scratchpads and pins say, corrupted scratchpads are
    refused, waiting actors leave the bus alone, and the chips' outputs follow the commands. A text reaches the panel
    point by point, and what the frames differ in stays marked until it was written.

  \<^bold>\<open>Loops.\<close> Loops over an index or a list are structural recursions; those with another measure (chunks of a transfer,
  scans of a payload, years of a date) are functions with a termination proof. The two loops of the main loop that
  nothing bounds by itself are partial functions; they are proved to return, since each turn of the pump handles a
  message and each collection is bounded by the ring. There is no fuel.

  \<^bold>\<open>Not modelled.\<close> The ESP8266 adapters and target images (\<open>adapters/\<close>) call the vendor's SDK, which is not in the
  repository: the ports they implement are the parameters above. The demo application (\<open>apps/\<close>) and the board packages
  (\<open>bsp/\<close>) wire actors and ports together and hold constants. Interrupts and critical sections are not modelled: each operation of
  the ingress ring is atomic. Logging text, the version unit and empty layers have no behaviour to state. Tests and
  generators are not part of the program; the tables they generate are modelled.
\<close>

end
